(* ===== verification/Prelude.thy ===== *)
theory Prelude
  imports Complex_Main "HOL-Library.Char_ord" "HOL-Library.List_Lexorder"
begin

text \<open>
  The vocabulary the component theories share: the parts of the JavaScript standard library
  that the sources use (truthiness, \<open>trim\<close>, \<open>Array.find\<close>, the insertion-ordered \<open>Map\<close>, object
  spread, stable \<open>sort\<close>), and three interfaces stated as locales: a dictionary, a severity order
  with a ``keep the worse one'' operation, and the admission rule of a sliding window.
\<close>

named_theorems js "equations of the modelled JavaScript library"

section \<open>Strings\<close>

definition js_space :: "char \<Rightarrow> bool" where
  "js_space c \<longleftrightarrow> c \<in> {CHR '' '', CHR 0x09, CHR 0x0A, CHR 0x0B, CHR 0x0C, CHR 0x0D}"

text \<open>\<open>String.prototype.trim\<close> on byte strings: the ASCII white space is dropped at both ends.\<close>

definition js_trim :: "string \<Rightarrow> string" where
  "js_trim s = rev (dropWhile js_space (rev (dropWhile js_space s)))"

text \<open>A missing or empty string is falsy: \<open>String(x || '')\<close>.\<close>

definition str_or_empty :: "string option \<Rightarrow> string" where
  "str_or_empty x = (case x of None \<Rightarrow> [] | Some s \<Rightarrow> s)"

definition truthy_str :: "string option \<Rightarrow> bool" where
  "truthy_str x \<longleftrightarrow> (\<exists>s. x = Some s \<and> s \<noteq> [])"

lemma truthy_str_simps [simp, js]:
  "\<not> truthy_str None" "truthy_str (Some s) \<longleftrightarrow> s \<noteq> []"
  by (auto simp: truthy_str_def)

lemma truthy_str_code [code]:
  "truthy_str x = (case x of None \<Rightarrow> False | Some s \<Rightarrow> s \<noteq> [])"
  by (cases x) auto

lemma str_or_empty_simps [simp, js]:
  "str_or_empty None = []" "str_or_empty (Some s) = s"
  by (auto simp: str_or_empty_def)

text \<open>A number is falsy when it is missing or 0: \<open>x ? f(x) : d\<close>.\<close>

definition num_or :: "int option \<Rightarrow> (int \<Rightarrow> 'a) \<Rightarrow> 'a \<Rightarrow> 'a" where
  "num_or x f d = (case x of None \<Rightarrow> d | Some n \<Rightarrow> if n = 0 then d else f n)"

lemma num_or_simps [simp, js]:
  "num_or None f d = d" "num_or (Some n) f d = (if n = 0 then d else f n)"
  by (auto simp: num_or_def)

text \<open>\<open>x ?? d\<close>.\<close>

definition nullish :: "'a option \<Rightarrow> 'a \<Rightarrow> 'a" where
  "nullish x d = (case x of None \<Rightarrow> d | Some v \<Rightarrow> v)"

lemma nullish_simps [simp, js]: "nullish None d = d" "nullish (Some v) d = v"
  by (auto simp: nullish_def)

definition nullish_opt :: "'a option \<Rightarrow> 'a option \<Rightarrow> 'a option" where
  "nullish_opt x y = (case x of None \<Rightarrow> y | Some v \<Rightarrow> Some v)"

lemma nullish_opt_simps [simp, js]: "nullish_opt None y = y" "nullish_opt (Some v) y = Some v"
  by (auto simp: nullish_opt_def)

text \<open>\<open>Array.join\<close>.\<close>

fun join_with :: "string \<Rightarrow> string list \<Rightarrow> string" where
  "join_with sep [] = []"
| "join_with sep [x] = x"
| "join_with sep (x # y # ys) = x @ sep @ join_with sep (y # ys)"

text \<open>\<open>s.split(c)\<close>.\<close>

fun split_on :: "char \<Rightarrow> string \<Rightarrow> string list" where
  "split_on c [] = [[]]"
| "split_on c (x # xs) =
     (if x = c then [] # split_on c xs
      else (case split_on c xs of [] \<Rightarrow> [[x]] | w # ws \<Rightarrow> (x # w) # ws))"

text \<open>\<open>String(n)\<close> of a natural number.\<close>

definition digit_char :: "nat \<Rightarrow> char" where
  "digit_char n = char_of (48 + n)"

fun show_nat :: "nat \<Rightarrow> string" where
  "show_nat n = (if n < 10 then [digit_char n] else show_nat (n div 10) @ [digit_char (n mod 10)])"

declare show_nat.simps [simp del]

definition digit_value :: "char \<Rightarrow> nat" where
  "digit_value c = of_char c - 48"

definition is_digit :: "char \<Rightarrow> bool" where
  "is_digit c \<longleftrightarrow> (let n = of_char c :: nat in 48 \<le> n \<and> n \<le> 57)"

text \<open>\<open>Number(s)\<close> of a string of digits.\<close>

definition read_nat :: "string \<Rightarrow> nat" where
  "read_nat s = foldl (\<lambda>n c. 10 * n + digit_value c) 0 s"

lemma of_char_digit [simp]: "n < 10 \<Longrightarrow> of_char (digit_char n) = 48 + n"
  by (simp add: digit_char_def)

lemma read_show_nat [simp]: "read_nat (show_nat n) = n"
proof (induction n rule: show_nat.induct)
  case (1 n)
  show ?case
  proof (cases "n < 10")
    case True
    then show ?thesis by (subst show_nat.simps) (simp add: read_nat_def digit_value_def)
  next
    case False
    have "read_nat (show_nat n) = 10 * read_nat (show_nat (n div 10)) + n mod 10"
      using False by (subst show_nat.simps) (simp add: read_nat_def digit_value_def)
    then show ?thesis using 1 False by simp
  qed
qed

lemma inj_show_nat: "show_nat m = show_nat n \<longleftrightarrow> m = n"
  by (metis read_show_nat)

definition show_int :: "int \<Rightarrow> string" where
  "show_int n = (if n < 0 then ''-'' @ show_nat (nat (- n)) else show_nat (nat n))"

text \<open>\<open>toLowerCase\<close> of ASCII text, \<open>s.includes(p)\<close>, and the characters of the sources' texts.\<close>

definition lower_char :: "char \<Rightarrow> char" where
  "lower_char c = (let n = of_char c :: nat in if 65 \<le> n \<and> n \<le> 90 then char_of (n + 32) else c)"

definition to_lower :: "string \<Rightarrow> string" where
  "to_lower s = map lower_char s"

definition contains_text :: "string \<Rightarrow> string \<Rightarrow> bool" where
  "contains_text p s = list_ex (\<lambda>i. take (length p) (drop i s) = p) [0..<Suc (length s)]"

definition newline :: string where
  "newline = [CHR 0x0A]"

definition em_dash :: string where
  "em_dash = [CHR '' '', CHR 0xE2, CHR 0x80, CHR 0x94, CHR '' '']"

text \<open>\<open>s.replace(/[^...]+/g, r)\<close>: every run of characters outside the class becomes one \<open>r\<close>.\<close>

fun squash_runs :: "(char \<Rightarrow> bool) \<Rightarrow> char \<Rightarrow> bool \<Rightarrow> string \<Rightarrow> string" where
  "squash_runs safe r in_run [] = []"
| "squash_runs safe r in_run (c # cs) =
     (if safe c then c # squash_runs safe r False cs
      else if in_run then squash_runs safe r True cs
      else r # squash_runs safe r True cs)"

lemma squash_runs_safe: "safe r \<Longrightarrow> list_all safe (squash_runs safe r b s)"
  by (induction safe r b s rule: squash_runs.induct) auto

section \<open>Rounding\<close>

text \<open>
  \<open>x.toFixed(d)\<close>: the decimal with \<open>d\<close> places nearest to \<open>x\<close>, ties away from 0, and its text. The
  sources round doubles; here the argument is the exact rational. \<open>Math.round\<close> rounds ties up.
\<close>

definition scaled :: "nat \<Rightarrow> rat \<Rightarrow> nat" where
  "scaled d x = nat \<lfloor>\<bar>x\<bar> * 10 ^ d + 1 / 2\<rfloor>"

definition fixed_value :: "nat \<Rightarrow> rat \<Rightarrow> rat" where
  "fixed_value d x = (if x < 0 then - 1 else 1) * of_nat (scaled d x) / 10 ^ d"

definition pad_zeros :: "nat \<Rightarrow> string \<Rightarrow> string" where
  "pad_zeros w s = replicate (w - length s) (CHR ''0'') @ s"

definition to_fixed :: "nat \<Rightarrow> rat \<Rightarrow> string" where
  "to_fixed d x =
     (let n = scaled d x in
      (if x < 0 then ''-'' else '''') @ show_nat (n div 10 ^ d)
      @ (if d = 0 then '''' else ''.'' @ pad_zeros d (show_nat (n mod 10 ^ d))))"

definition round_half_up :: "rat \<Rightarrow> int" where
  "round_half_up x = \<lfloor>x + 1 / 2\<rfloor>"

definition truncate_rat :: "rat \<Rightarrow> int" where
  "truncate_rat x = (if x < 0 then - \<lfloor>- x\<rfloor> else \<lfloor>x\<rfloor>)"

section \<open>Object spread\<close>

text \<open>
  A key of the object on the right of a spread is absent (the left value stays) or present
  (it replaces the left value, even when the value is \<open>undefined\<close>).
\<close>

datatype 'a field = Absent | Present 'a

fun spread :: "'a \<Rightarrow> 'a field \<Rightarrow> 'a" where
  "spread old Absent = old"
| "spread old (Present v) = v"

section \<open>Arrays\<close>

text \<open>\<open>Array.prototype.find\<close> is \<^const>\<open>List.find\<close>.\<close>

lemma find_SomeD: "List.find P xs = Some x \<Longrightarrow> P x \<and> x \<in> set xs"
  by (auto simp: find_Some_iff)

lemma find_None_filter: "List.find P xs = None \<longleftrightarrow> filter P xs = []"
  by (induction xs) auto

lemma find_cong_pred: "(\<And>x. x \<in> set xs \<Longrightarrow> P x = Q x) \<Longrightarrow> List.find P xs = List.find Q xs"
  by (induction xs) auto

text \<open>
  \<open>Array.prototype.sort\<close> with a comparison function; \<open>le a b\<close> says that its value is not positive.
  The sort of the language is stable, so this is insertion after every element that does not
  come after the new one.
\<close>

fun insert_by :: "('a \<Rightarrow> 'a \<Rightarrow> bool) \<Rightarrow> 'a \<Rightarrow> 'a list \<Rightarrow> 'a list" where
  "insert_by le x [] = [x]"
| "insert_by le x (y # ys) = (if le y x then y # insert_by le x ys else x # y # ys)"

definition sort_by :: "('a \<Rightarrow> 'a \<Rightarrow> bool) \<Rightarrow> 'a list \<Rightarrow> 'a list" where
  "sort_by le xs = foldl (\<lambda>acc x. insert_by le x acc) [] xs"

lemma set_insert_by: "set (insert_by le x ys) = insert x (set ys)"
  by (induction ys) auto

lemma length_insert_by: "length (insert_by le x ys) = Suc (length ys)"
  by (induction ys) auto

lemma sort_by_snoc: "sort_by le (xs @ [x]) = insert_by le x (sort_by le xs)"
  by (simp add: sort_by_def)

lemma sort_by_Nil [simp]: "sort_by le [] = []"
  by (simp add: sort_by_def)

lemma set_sort_by [simp]: "set (sort_by le xs) = set xs"
  by (induction xs rule: rev_induct) (auto simp: sort_by_snoc set_insert_by)

lemma length_sort_by [simp]: "length (sort_by le xs) = length xs"
  by (induction xs rule: rev_induct) (auto simp: sort_by_snoc length_insert_by)

lemma sort_by_eq_Nil [simp]: "sort_by le xs = [] \<longleftrightarrow> xs = []"
  by (metis length_0_conv length_sort_by)

text \<open>What a consistent comparison function promises, and what sorting with it gives.\<close>

locale comparison =
  fixes le :: "'a \<Rightarrow> 'a \<Rightarrow> bool"
  assumes le_total: "le a b \<or> le b a"
    and le_trans: "le a b \<Longrightarrow> le b c \<Longrightarrow> le a c"
begin

lemma sorted_insert_by: "sorted_wrt le ys \<Longrightarrow> sorted_wrt le (insert_by le x ys)"
proof (induction ys)
  case (Cons y ys)
  then show ?case using le_total le_trans by (auto simp: set_insert_by) blast+
qed simp

lemma sorted_sort_by: "sorted_wrt le (sort_by le xs)"
  by (induction xs rule: rev_induct) (auto simp: sort_by_snoc sorted_insert_by)

definition ties :: "'a \<Rightarrow> 'a list \<Rightarrow> 'a list" where
  "ties c xs = filter (\<lambda>a. le a c \<and> le c a) xs"

lemma ties_insert_by:
  "sorted_wrt le ys \<Longrightarrow> ties c (insert_by le x ys) = ties c ys @ ties c [x]"
proof (induction ys)
  case (Cons y ys)
  show ?case
  proof (cases "le y x")
    case True
    with Cons show ?thesis by (simp add: ties_def)
  next
    case False
    have "ties c (y # ys) = []" if "le x c" "le c x"
    proof -
      have "\<not> le a c" if "a \<in> set (y # ys)" for a
        using that Cons.prems False \<open>le c x\<close> le_trans by (metis set_ConsD sorted_wrt.simps(2))
      then show ?thesis by (auto simp: ties_def filter_empty_conv)
    qed
    with False show ?thesis by (auto simp: ties_def)
  qed
qed (simp add: ties_def)

text \<open>Stability: elements that compare equal keep their order.\<close>

lemma sort_by_stable: "ties c (sort_by le xs) = ties c xs"
proof (induction xs rule: rev_induct)
  case (snoc x xs)
  then show ?case
    using ties_insert_by [OF sorted_sort_by, of c x xs] by (simp add: sort_by_snoc ties_def)
qed simp

lemma hd_sort_by:
  assumes "xs \<noteq> []"
  shows "hd (sort_by le xs) \<in> set xs \<and> (\<forall>x \<in> set xs. le (hd (sort_by le xs)) x)"
proof -
  obtain y ys where ys: "sort_by le xs = y # ys"
    using assms by (cases "sort_by le xs") auto
  then have "\<forall>z \<in> set (y # ys). le y z"
    using sorted_sort_by [of xs] le_total [of y y] by auto
  moreover have "set xs = set (y # ys)"
    using ys set_sort_by [of le xs] by simp
  ultimately show ?thesis using ys by simp
qed

end

text \<open>Sorting by a numeric key, highest first: \<open>sort((a, b) => key(b) - key(a))\<close>.\<close>

definition sort_desc :: "('a \<Rightarrow> 'b :: linorder) \<Rightarrow> 'a list \<Rightarrow> 'a list" where
  "sort_desc key xs = sort_by (\<lambda>a b. key b \<le> key a) xs"

interpretation by_desc: comparison "\<lambda>a b. key b \<le> key a" for key :: "'a \<Rightarrow> 'b :: linorder"
  by unfold_locales auto

interpretation by_asc: comparison "\<lambda>a b. key a \<le> key b" for key :: "'a \<Rightarrow> 'b :: linorder"
  by unfold_locales auto

lemma sort_desc_Nil [simp]: "sort_desc key [] = []"
  by (simp add: sort_desc_def)

lemma set_sort_desc [simp]: "set (sort_desc key xs) = set xs"
  by (simp add: sort_desc_def)

lemma length_sort_desc [simp]: "length (sort_desc key xs) = length xs"
  by (simp add: sort_desc_def)

lemma sorted_sort_desc: "sorted_wrt (\<lambda>a b. key a \<ge> key b) (sort_desc key xs)"
  unfolding sort_desc_def by (rule by_desc.sorted_sort_by)

lemma sort_desc_stable: "filter (\<lambda>a. key a = c) (sort_desc key xs) = filter (\<lambda>a. key a = c) xs"
proof (cases "\<exists>x \<in> set xs. key x = c")
  case True
  then obtain x where "key x = c" by blast
  then have "(\<lambda>a. key a = c) = (\<lambda>a. key x \<le> key a \<and> key a \<le> key x)" by auto
  then show ?thesis
    using by_desc.sort_by_stable [of key x xs]
    by (simp add: sort_desc_def by_desc.ties_def)
next
  case False
  then have "filter (\<lambda>a. key a = c) ys = []" if "set ys = set xs" for ys
    using that by (auto simp: filter_empty_conv)
  then show ?thesis by (metis set_sort_desc)
qed

lemma sort_desc_eq_Nil [simp]: "sort_desc key xs = [] \<longleftrightarrow> xs = []"
  by (metis length_0_conv length_sort_desc)

lemma hd_sort_desc_max:
  assumes "xs \<noteq> []"
  shows "hd (sort_desc key xs) \<in> set xs \<and> (\<forall>x \<in> set xs. key x \<le> key (hd (sort_desc key xs)))"
  using by_desc.hd_sort_by [OF assms, of key] by (simp add: sort_desc_def)

section \<open>Lists changed in place\<close>

text \<open>Changing the first element that satisfies a condition: \<open>find\<close> and an assignment to its fields.\<close>

fun update_first :: "('a \<Rightarrow> bool) \<Rightarrow> ('a \<Rightarrow> 'a) \<Rightarrow> 'a list \<Rightarrow> 'a list" where
  "update_first P f [] = []"
| "update_first P f (x # xs) = (if P x then f x # xs else x # update_first P f xs)"

lemma list_all_update_first:
  "list_all Q xs \<Longrightarrow> (\<And>x. P x \<Longrightarrow> Q x \<Longrightarrow> Q (f x)) \<Longrightarrow> list_all Q (update_first P f xs)"
  by (induction xs) auto

lemma map_update_first: "(\<And>x. P x \<Longrightarrow> g (f x) = g x) \<Longrightarrow> map g (update_first P f xs) = map g xs"
  by (induction xs) auto

lemma find_update_first:
  "(\<And>x. P x \<Longrightarrow> Q (f x) = Q x) \<Longrightarrow> (\<And>x. P x \<Longrightarrow> Q x)
   \<Longrightarrow> List.find Q xs = Some y \<Longrightarrow> P y \<Longrightarrow> List.find Q (update_first P f xs) = Some (f y)"
  by (induction xs) (auto split: if_splits)

text \<open>\<open>push\<close>, then \<open>splice\<close> off the oldest entries above the limit; \<open>slice(-n)\<close> of a positive \<open>n\<close>.\<close>

definition push_limited :: "int \<Rightarrow> 'a \<Rightarrow> 'a list \<Rightarrow> 'a list" where
  "push_limited limit x xs = (let ys = xs @ [x] in drop (length ys - nat limit) ys)"

definition last_entries :: "int \<Rightarrow> 'a list \<Rightarrow> 'a list" where
  "last_entries n xs = drop (length xs - nat n) xs"

text \<open>A bounded log holds the newest entries of the unbounded one.\<close>

lemma push_limited_refines:
  assumes "0 < n"
  shows "push_limited n x (last_entries n xs) = last_entries n (xs @ [x])"
proof (cases "length xs \<le> nat n")
  case True
  then show ?thesis by (simp add: push_limited_def last_entries_def)
next
  case False
  then obtain k where k: "length xs = k + nat n" by (metis le_iff_add nat_le_linear add.commute)
  then show ?thesis using assms by (simp add: push_limited_def last_entries_def)
qed

lemma last_entries_Nil [simp]: "last_entries n [] = []"
  by (simp add: last_entries_def)

lemma last_entries_last: "m \<le> n \<Longrightarrow> last_entries m (last_entries n xs) = last_entries m xs"
proof -
  assume "m \<le> n"
  then have "length (last_entries n xs) - nat m + (length xs - nat n) = length xs - nat m"
    by (auto simp: last_entries_def dest: nat_mono)
  then show ?thesis by (simp add: last_entries_def)
qed

section \<open>The dictionary interface and the insertion-ordered Map\<close>

locale dict =
  fixes empty :: "'m"
    and get :: "'m \<Rightarrow> 'k \<Rightarrow> 'v option"
    and put :: "'k \<Rightarrow> 'v \<Rightarrow> 'm \<Rightarrow> 'm"
    and del :: "'k \<Rightarrow> 'm \<Rightarrow> 'm"
  assumes get_empty: "get empty k = None"
    and get_put: "get (put k v m) k' = (if k' = k then Some v else get m k')"
    and get_del: "get (del k m) k' = (if k' = k then None else get m k')"
begin

definition put_all :: "('k \<times> 'v) list \<Rightarrow> 'm \<Rightarrow> 'm" where
  "put_all kvs m = fold (\<lambda>(k, v). put k v) kvs m"

text \<open>Putting a list of entries: the last binding of a key wins, other keys keep their value.\<close>

lemma get_put_all:
  "get (put_all kvs m) k = (case map_of (rev kvs) k of Some v \<Rightarrow> Some v | None \<Rightarrow> get m k)"
  by (induction kvs arbitrary: m)
    (auto simp: put_all_def get_put map_add_def split: option.splits)

lemma get_put_all_other: "k \<notin> fst ` set kvs \<Longrightarrow> get (put_all kvs m) k = get m k"
proof -
  assume "k \<notin> fst ` set kvs"
  then have "map_of (rev kvs) k = None" by (simp add: map_of_eq_None_iff)
  then show ?thesis by (simp add: get_put_all)
qed

lemma get_put_all_distinct:
  "distinct (map fst kvs) \<Longrightarrow> (k, v) \<in> set kvs \<Longrightarrow> get (put_all kvs m) k = Some v"
proof -
  assume d: "distinct (map fst kvs)" and i: "(k, v) \<in> set kvs"
  have "map_of (rev kvs) k = Some v"
    using d i by (intro map_of_is_SomeI) (auto simp flip: rev_map)
  then show ?thesis by (simp add: get_put_all)
qed

end

text \<open>
  The \<open>Map\<close> of the language: entries in insertion order; \<open>set\<close> on a key that is there keeps its
  place, \<open>delete\<close> drops the entry.
\<close>

type_synonym ('k, 'v) jsmap = "('k \<times> 'v) list"

fun js_get :: "('k, 'v) jsmap \<Rightarrow> 'k \<Rightarrow> 'v option" where
  "js_get [] k = None"
| "js_get ((k', v) # m) k = (if k = k' then Some v else js_get m k)"

fun js_set :: "'k \<Rightarrow> 'v \<Rightarrow> ('k, 'v) jsmap \<Rightarrow> ('k, 'v) jsmap" where
  "js_set k v [] = [(k, v)]"
| "js_set k v ((k', v') # m) = (if k = k' then (k', v) # m else (k', v') # js_set k v m)"

definition js_delete :: "'k \<Rightarrow> ('k, 'v) jsmap \<Rightarrow> ('k, 'v) jsmap" where
  "js_delete k m = filter (\<lambda>e. fst e \<noteq> k) m"

definition js_has :: "('k, 'v) jsmap \<Rightarrow> 'k \<Rightarrow> bool" where
  "js_has m k \<longleftrightarrow> js_get m k \<noteq> None"

definition js_keys :: "('k, 'v) jsmap \<Rightarrow> 'k list" where
  "js_keys m = map fst m"

definition js_values :: "('k, 'v) jsmap \<Rightarrow> 'v list" where
  "js_values m = map snd m"

lemma js_get_map_of: "js_get m k = map_of m k"
  by (induction m) auto

lemma js_get_set [simp, js]: "js_get (js_set k v m) k' = (if k' = k then Some v else js_get m k')"
  by (induction m) auto

lemma js_get_delete [simp, js]: "js_get (js_delete k m) k' = (if k' = k then None else js_get m k')"
  by (induction m) (auto simp: js_delete_def)

lemma js_get_map_snd [simp, js]: "js_get (map (\<lambda>(k, v). (k, f v)) m) k = map_option f (js_get m k)"
  by (induction m) auto

lemma fst_js_set: "fst ` set (js_set k v m) = insert k (fst ` set m)"
  by (induction m) (force split: if_splits)+

lemma set_js_set: "set (js_set k v m) \<subseteq> insert (k, v) (set m)"
  by (induction m) (auto split: if_splits)

lemma distinct_js_set: "distinct (map fst m) \<Longrightarrow> distinct (map fst (js_set k v m))"
proof (induction m)
  case (Cons e m)
  then show ?case
    using fst_js_set [of k v m] by (cases e) (auto simp flip: set_map)
qed simp

lemma distinct_js_delete: "distinct (map fst m) \<Longrightarrow> distinct (map fst (js_delete k m))"
  by (simp add: js_delete_def distinct_map_filter)

lemma js_get_in: "js_get m k = Some v \<Longrightarrow> (k, v) \<in> set m"
  by (simp add: js_get_map_of map_of_SomeD)

lemma js_get_iff_in: "distinct (map fst m) \<Longrightarrow> js_get m k = Some v \<longleftrightarrow> (k, v) \<in> set m"
  by (simp add: js_get_map_of)

lemma js_get_None_iff: "js_get m k = None \<longleftrightarrow> k \<notin> fst ` set m"
  by (simp add: js_get_map_of map_of_eq_None_iff)

lemma map_of_rev_distinct: "distinct (map fst m) \<Longrightarrow> map_of (rev m) k = map_of m k"
proof -
  assume d: "distinct (map fst m)"
  then have "map_of (rev m) k = Some v \<longleftrightarrow> map_of m k = Some v" for v
    by (simp add: map_of_eq_Some_iff distinct_map)
  then show ?thesis by (metis option.exhaust)
qed

lemma js_set_fresh: "k \<notin> fst ` set m \<Longrightarrow> js_set k v m = m @ [(k, v)]"
  by (induction m) auto

interpretation jsd: dict "[]" js_get js_set js_delete
  by unfold_locales auto

section \<open>Severity orders\<close>

text \<open>
  A finite scale with a numeric weight, and the operation that keeps the more severe of two
  values. The sources use it as a loop over a list of values (an accumulator that is replaced by
  a value of strictly higher weight).
\<close>

locale severity =
  fixes weight :: "'a \<Rightarrow> nat"
    and worse :: "'a \<Rightarrow> 'a \<Rightarrow> 'a"
  assumes weight_inj: "weight a = weight b \<Longrightarrow> a = b"
    and worse_def': "worse a b = (if weight b > weight a then b else a)"
begin

lemma weight_worse: "weight (worse a b) = max (weight a) (weight b)"
  by (simp add: worse_def')

lemma worse_comm: "worse a b = worse b a"
  by (rule weight_inj) (simp add: weight_worse)

lemma worse_assoc: "worse (worse a b) c = worse a (worse b c)"
  by (rule weight_inj) (simp add: weight_worse)

lemma worse_idem: "worse a a = a"
  by (simp add: worse_def')

lemma weight_foldl: "weight (foldl worse a xs) = foldl max (weight a) (map weight xs)"
  by (induction xs arbitrary: a) (auto simp: weight_worse)

lemma foldl_max_ge: "n \<le> foldl max (n :: nat) ns"
  by (induction ns arbitrary: n) (auto intro: order_trans [OF max.cobounded1])

lemma foldl_start: "weight a \<le> weight (foldl worse a xs)"
  by (simp add: weight_foldl foldl_max_ge)

lemma foldl_upper: "x \<in> set xs \<Longrightarrow> weight x \<le> weight (foldl worse a xs)"
proof (induction xs arbitrary: a)
  case (Cons y ys)
  have "weight y \<le> weight (worse a y)" by (simp add: weight_worse)
  also have "\<dots> \<le> weight (foldl worse (worse a y) ys)" by (rule foldl_start)
  finally show ?case using Cons by auto
qed simp

lemma foldl_attained: "foldl worse a xs = a \<or> foldl worse a xs \<in> set xs"
proof (induction xs arbitrary: a)
  case (Cons y ys)
  have "worse a y = a \<or> worse a y = y" by (simp add: worse_def')
  with Cons.IH [of "worse a y"] show ?case by auto
qed simp

lemma foldl_append_worse: "foldl worse a (xs @ ys) = worse (foldl worse a xs) (foldl worse a ys)"
proof -
  have acc: "foldl worse (worse b c) zs = worse b (foldl worse c zs)" for b c zs
    by (induction zs arbitrary: c) (auto simp: worse_assoc)
  let ?x = "foldl worse a xs"
  have "worse ?x a = ?x"
    using foldl_start [of a xs] by (simp add: worse_def')
  then have "foldl worse ?x ys = worse ?x (foldl worse a ys)"
    using acc [of ?x a ys] by simp
  then show ?thesis by simp
qed

text \<open>The result depends on the set of values only: order and repetition do not matter.\<close>

lemma foldl_set_cong:
  assumes "set xs = set ys"
  shows "foldl worse a xs = foldl worse a ys"
proof (rule weight_inj, rule antisym)
  show "weight (foldl worse a xs) \<le> weight (foldl worse a ys)"
    using foldl_attained [of a xs] foldl_start [of a ys] foldl_upper [of _ ys a] assms by auto
  show "weight (foldl worse a ys) \<le> weight (foldl worse a xs)"
    using foldl_attained [of a ys] foldl_start [of a xs] foldl_upper [of _ xs a] assms by auto
qed

end

section \<open>Admission by a sliding window\<close>

text \<open>
  The events of a window are time stamps in the order of their recording. An event at time
  \<open>t\<close> is counted by the window that ends at \<open>now\<close> when \<open>now - width \<le> t\<close>, as in
  \<open>timestamps.filter(t => t >= now - windowMs)\<close>.
\<close>

definition in_window :: "int \<Rightarrow> int list \<Rightarrow> int \<Rightarrow> nat" where
  "in_window width ts now = length (filter (\<lambda>t. now - width \<le> t) ts)"

lemma in_window_mono: "now \<le> now' \<Longrightarrow> in_window w ts now' \<le> in_window w ts now"
  by (induction ts) (auto simp: in_window_def)

lemma in_window_width: "w \<le> w' \<Longrightarrow> in_window w ts now \<le> in_window w' ts now"
  by (induction ts) (auto simp: in_window_def)

lemma in_window_Nil [simp]: "in_window w [] now = 0"
  by (simp add: in_window_def)

lemma in_window_snoc:
  "in_window w (ts @ [t]) now = in_window w ts now + (if now - w \<le> t then 1 else 0)"
  by (simp add: in_window_def)

text \<open>The events that lie in the closed interval of the given width that ends at \<open>now\<close>.\<close>

definition in_interval :: "int \<Rightarrow> int list \<Rightarrow> int \<Rightarrow> nat" where
  "in_interval width ts now = length (filter (\<lambda>t. now - width \<le> t \<and> t \<le> now) ts)"

lemma in_interval_Nil [simp]: "in_interval w [] now = 0"
  by (simp add: in_interval_def)

lemma in_interval_snoc:
  "in_interval w (ts @ [t]) now = in_interval w ts now + (if now - w \<le> t \<and> t \<le> now then 1 else 0)"
  by (simp add: in_interval_def)

lemma in_interval_le_window: "in_interval w ts now \<le> in_window w ts now"
  by (induction ts) (auto simp: in_interval_def in_window_def)

locale admission =
  fixes width :: int and limit :: nat and decide :: "int list \<Rightarrow> int \<Rightarrow> bool"
  assumes decide_room: "decide ts now \<Longrightarrow> in_window width ts now < limit"
begin

text \<open>What a limiter keeps true: no interval of the given width holds more than the limit.\<close>

definition bounded :: "int list \<Rightarrow> bool" where
  "bounded ts \<longleftrightarrow> (\<forall>now. in_interval width ts now \<le> limit)"

lemma bounded_Nil: "bounded []"
  by (simp add: bounded_def)

text \<open>
  Recording an event that the decision let through keeps every interval within the limit, the
  ones that end after it included. The order of the clock readings does not matter.
\<close>

lemma bounded_record:
  assumes b: "bounded ts" and ok: "decide ts now"
  shows "bounded (ts @ [now])"
  unfolding bounded_def
proof
  fix e
  show "in_interval width (ts @ [now]) e \<le> limit"
  proof (cases "e - width \<le> now \<and> now \<le> e")
    case True
    have "in_interval width ts e \<le> in_window width ts e" by (rule in_interval_le_window)
    also have "\<dots> \<le> in_window width ts now" using True by (intro in_window_mono) simp
    finally show ?thesis using decide_room [OF ok] True by (simp add: in_interval_snoc)
  next
    case False
    then have "in_interval width (ts @ [now]) e = in_interval width ts e"
      by (simp add: in_interval_snoc)
    then show ?thesis using b by (simp add: bounded_def)
  qed
qed

end

end
