(* ===== verification/Authority.thy ===== *)
theory Authority
  imports Prelude
begin

text \<open>
  Who may perform which mission action: \<open>lib/authority-map.ts\<close> (the rule table and its decision),
  \<open>lib/policy-gate.ts\<close> (the check of an unvalidated request) and \<open>lib/nexus-arbiter.ts\<close>
  (acceptance of a competition's winner and the human override).
\<close>

section \<open>Authority map\<close>

datatype actor_type = Human | Nexus | Agent

datatype authority_action = Propose | Execute | Approve | Close | Override

text \<open>The string literals of the union types.\<close>

fun actor_name :: "actor_type \<Rightarrow> string" where
  "actor_name Human = ''human''"
| "actor_name Nexus = ''nexus''"
| "actor_name Agent = ''agent''"

fun action_name :: "authority_action \<Rightarrow> string" where
  "action_name Propose = ''propose''"
| "action_name Execute = ''execute''"
| "action_name Approve = ''approve''"
| "action_name Close = ''close''"
| "action_name Override = ''override''"

record authority_actor =
  actor_id :: string
  actor_kind :: actor_type

record authority_rule =
  rule_action :: authority_action
  allowed_actor_types :: "actor_type list"
  rationale :: string

fun authority_rule_for :: "authority_action \<Rightarrow> authority_rule" where
  "authority_rule_for Propose = \<lparr>rule_action = Propose,
     allowed_actor_types = [Agent, Nexus, Human],
     rationale = ''Any bounded actor may propose work.''\<rparr>"
| "authority_rule_for Execute = \<lparr>rule_action = Execute,
     allowed_actor_types = [Agent, Nexus, Human],
     rationale = ''Execution can be delegated to agents under control-plane supervision.''\<rparr>"
| "authority_rule_for Approve = \<lparr>rule_action = Approve,
     allowed_actor_types = [Nexus, Human],
     rationale = ''Approvals require control-plane or human authority.''\<rparr>"
| "authority_rule_for Close = \<lparr>rule_action = Close,
     allowed_actor_types = [Nexus, Human],
     rationale = ''Finalization is restricted to Nexus or human arbiter.''\<rparr>"
| "authority_rule_for Override = \<lparr>rule_action = Override,
     allowed_actor_types = [Human],
     rationale = ''Human is the final arbiter for all override actions.''\<rparr>"

definition is_authority_action_allowed :: "authority_actor \<Rightarrow> authority_action \<Rightarrow> bool" where
  "is_authority_action_allowed actor action =
     List.member (allowed_actor_types (authority_rule_for action)) (actor_kind actor)"

datatype decision_code = ALLOW | INVALID_INPUT | ACTOR_FORBIDDEN

record authority_decision =
  allowed :: bool
  ad_code :: decision_code
  ad_message :: string
  ad_action :: authority_action
  ad_actor_id :: string
  ad_actor_type :: actor_type
  ad_allowed_types :: "actor_type list"

definition evaluate_authority :: "authority_actor \<Rightarrow> authority_action \<Rightarrow> authority_decision" where
  "evaluate_authority actor action =
     (let rule = authority_rule_for action;
          ok = List.member (allowed_actor_types rule) (actor_kind actor)
      in if ok then
           \<lparr>allowed = True, ad_code = ALLOW,
            ad_message = actor_name (actor_kind actor) @ '' may '' @ action_name action,
            ad_action = action, ad_actor_id = actor_id actor, ad_actor_type = actor_kind actor,
            ad_allowed_types = allowed_actor_types rule\<rparr>
         else
           \<lparr>allowed = False, ad_code = ACTOR_FORBIDDEN,
            ad_message = actor_name (actor_kind actor) @ '' may not '' @ action_name action
              @ ''; allowed: '' @ join_with '', '' (map actor_name (allowed_actor_types rule)),
            ad_action = action, ad_actor_id = actor_id actor, ad_actor_type = actor_kind actor,
            ad_allowed_types = allowed_actor_types rule\<rparr>)"

section \<open>Policy gate\<close>

text \<open>
  The gate's input comes from a request: every field may be missing, and the actor's type is an
  arbitrary string.
\<close>

record raw_actor =
  ra_id :: "string option"
  ra_type :: "string option"

record policy_gate_input =
  pg_mission_id :: "string option"
  pg_actor :: "raw_actor option"
  pg_action :: authority_action

record policy_gate_result =
  pr_ok :: bool
  pr_code :: decision_code
  pr_message :: string
  pr_mission_id :: string
  pr_action :: authority_action
  pr_actor_id :: string
  pr_actor_type :: string
  pr_allowed_types :: "actor_type list option"

definition parse_actor_type :: "string option \<Rightarrow> actor_type option" where
  "parse_actor_type t =
     (if t = Some ''human'' then Some Human
      else if t = Some ''nexus'' then Some Nexus
      else if t = Some ''agent'' then Some Agent else None)"

definition or_unknown :: "string \<Rightarrow> string" where
  "or_unknown s = (if s = [] then ''unknown'' else s)"

definition run_policy_gate :: "policy_gate_input \<Rightarrow> policy_gate_result" where
  "run_policy_gate inp =
     (let mission_id = js_trim (str_or_empty (pg_mission_id inp));
          act_id = js_trim (str_or_empty (Option.bind (pg_actor inp) ra_id));
          typ = parse_actor_type (Option.bind (pg_actor inp) ra_type)
      in case (if mission_id = [] \<or> act_id = [] then None else typ) of
           None \<Rightarrow>
             \<lparr>pr_ok = False, pr_code = INVALID_INPUT,
              pr_message = ''missionId and actor are required'',
              pr_mission_id = or_unknown mission_id, pr_action = pg_action inp,
              pr_actor_id = or_unknown act_id,
              pr_actor_type = (case typ of None \<Rightarrow> ''unknown'' | Some t \<Rightarrow> actor_name t),
              pr_allowed_types = None\<rparr>
         | Some t \<Rightarrow>
             (let authority = evaluate_authority \<lparr>actor_id = act_id, actor_kind = t\<rparr> (pg_action inp)
              in \<lparr>pr_ok = allowed authority,
                  pr_code = (if allowed authority then ALLOW else ACTOR_FORBIDDEN),
                  pr_message = ad_message authority,
                  pr_mission_id = mission_id, pr_action = pg_action inp,
                  pr_actor_id = act_id, pr_actor_type = actor_name t,
                  pr_allowed_types = Some (ad_allowed_types authority)\<rparr>))"

section \<open>Arbitration and override\<close>

record arbitration_input =
  ai_mission_id :: "string option"
  ai_actor :: "raw_actor option"
  ai_recommendation_id :: "string option"
  ai_accept :: bool

datatype arbitration_code =
  ARBITRATION_ADVISORY | ARBITRATION_ACCEPTED | ARBITRATION_DENIED | ARBITRATION_INVALID

record arbitration_result =
  ar_accepted :: bool
  ar_code :: arbitration_code
  ar_message :: string
  ar_recommendation_id :: string
  ar_override_available :: bool

definition arbitrate_recommendation :: "arbitration_input \<Rightarrow> arbitration_result" where
  "arbitrate_recommendation inp =
     (let rid = js_trim (str_or_empty (ai_recommendation_id inp))
      in if rid = [] then
           \<lparr>ar_accepted = False, ar_code = ARBITRATION_INVALID,
            ar_message = ''recommendationId is required'',
            ar_recommendation_id = ''unknown'', ar_override_available = True\<rparr>
         else if \<not> ai_accept inp then
           \<lparr>ar_accepted = False, ar_code = ARBITRATION_ADVISORY,
            ar_message = ''Winner is advisory until accepted by arbiter'',
            ar_recommendation_id = rid, ar_override_available = True\<rparr>
         else
           (let gate = run_policy_gate \<lparr>pg_mission_id = ai_mission_id inp,
                                         pg_actor = ai_actor inp, pg_action = Approve\<rparr>
            in if \<not> pr_ok gate then
                 \<lparr>ar_accepted = False,
                  ar_code = (if pr_code gate = INVALID_INPUT then ARBITRATION_INVALID
                             else ARBITRATION_DENIED),
                  ar_message = ''Competition acceptance requires nexus or human authority'',
                  ar_recommendation_id = rid, ar_override_available = True\<rparr>
               else
                 \<lparr>ar_accepted = True, ar_code = ARBITRATION_ACCEPTED,
                  ar_message = ''Winner accepted by authorized arbiter'',
                  ar_recommendation_id = rid, ar_override_available = True\<rparr>))"

datatype override_target = TargetApprove | TargetClose

record human_override_input =
  ho_mission_id :: "string option"
  ho_actor :: "raw_actor option"
  ho_target :: override_target

record human_override_result =
  hr_applied :: bool
  hr_message :: string

definition apply_human_override :: "human_override_input \<Rightarrow> human_override_result" where
  "apply_human_override inp =
     (let gate = run_policy_gate \<lparr>pg_mission_id = ho_mission_id inp,
                                   pg_actor = ho_actor inp, pg_action = Override\<rparr>
      in if \<not> pr_ok gate then
           \<lparr>hr_applied = False, hr_message = ''Only human may perform override actions''\<rparr>
         else
           \<lparr>hr_applied = True,
            hr_message = ''Human override applied for '' @
              (case ho_target inp of TargetApprove \<Rightarrow> ''approve'' | TargetClose \<Rightarrow> ''close'')\<rparr>)"

section \<open>The authority interface\<close>

text \<open>
  What the gate's clients rely on: a permission relation that a higher rank never loses, with one
  actor type at the top that may do everything.
\<close>

locale authority_scale =
  fixes permits :: "'actor \<Rightarrow> 'action \<Rightarrow> bool"
    and rank :: "'actor \<Rightarrow> nat"
    and top :: 'actor
  assumes upward: "permits t a \<Longrightarrow> rank t \<le> rank t' \<Longrightarrow> permits t' a"
    and top_rank: "rank t \<le> rank top"
    and some_actor: "\<exists>t. permits t a"
begin

lemma top_permits: "permits top a"
  using some_actor upward top_rank by blast

lemma denied_below: "\<not> permits t' a \<Longrightarrow> rank t \<le> rank t' \<Longrightarrow> \<not> permits t a"
  using upward by blast

end

definition permits :: "actor_type \<Rightarrow> authority_action \<Rightarrow> bool" where
  "permits t a = allowed (evaluate_authority \<lparr>actor_id = '''', actor_kind = t\<rparr> a)"

fun actor_rank :: "actor_type \<Rightarrow> nat" where
  "actor_rank Agent = 0"
| "actor_rank Nexus = 1"
| "actor_rank Human = 2"

lemma permits_table:
  "permits t a \<longleftrightarrow> (case a of Propose \<Rightarrow> True | Execute \<Rightarrow> True | Override \<Rightarrow> t = Human
                          | _ \<Rightarrow> t \<noteq> Agent)"
  by (cases a; cases t) (auto simp: permits_def evaluate_authority_def)

interpretation auth: authority_scale permits actor_rank Human
proof unfold_locales
  show "permits t a \<Longrightarrow> actor_rank t \<le> actor_rank t' \<Longrightarrow> permits t' a" for t t' a
    by (cases t; cases t') (auto simp: permits_table split: authority_action.splits)
  show "actor_rank t \<le> actor_rank Human" for t by (cases t) auto
  show "\<exists>t. permits t a" for a by (auto simp: permits_table split: authority_action.splits)
qed

lemma allowed_evaluate: "allowed (evaluate_authority actor action) = permits (actor_kind actor) action"
  by (simp add: permits_def evaluate_authority_def Let_def)

lemma actor_name_inj [simp]: "actor_name s = actor_name t \<longleftrightarrow> s = t"
  by (cases s; cases t) auto

lemma parse_actor_type_Some [simp]: "parse_actor_type (Some (actor_name t)) = Some t"
  by (cases t) (auto simp: parse_actor_type_def)

lemma parse_actor_type_iff: "parse_actor_type x = Some t \<longleftrightarrow> x = Some (actor_name t)"
  by (cases t) (auto simp: parse_actor_type_def split: if_splits)

definition request :: "string option \<Rightarrow> raw_actor option \<Rightarrow> authority_action \<Rightarrow> policy_gate_input" where
  "request m a act = \<lparr>pg_mission_id = m, pg_actor = a, pg_action = act\<rparr>"

text \<open>A request names a mission and an actor of a known type.\<close>

definition well_formed_request :: "string option \<Rightarrow> raw_actor option \<Rightarrow> actor_type \<Rightarrow> bool" where
  "well_formed_request m a t \<longleftrightarrow>
     js_trim (str_or_empty m) \<noteq> [] \<and>
     (\<exists>r. a = Some r \<and> js_trim (str_or_empty (ra_id r)) \<noteq> [] \<and> ra_type r = Some (actor_name t))"

lemma gate_ok_iff:
  "pr_ok (run_policy_gate inp) \<longleftrightarrow>
     (\<exists>t. well_formed_request (pg_mission_id inp) (pg_actor inp) t \<and> permits t (pg_action inp))"
  by (cases "pg_actor inp")
    (auto simp: run_policy_gate_def Let_def well_formed_request_def allowed_evaluate
       parse_actor_type_iff split: option.splits if_splits)

lemma gate_code:
  "pr_code (run_policy_gate inp) =
     (if pr_ok (run_policy_gate inp) then ALLOW
      else if \<exists>t. well_formed_request (pg_mission_id inp) (pg_actor inp) t then ACTOR_FORBIDDEN
      else INVALID_INPUT)"
  by (cases "pg_actor inp")
    (auto simp: run_policy_gate_def Let_def well_formed_request_def allowed_evaluate
       parse_actor_type_iff split: option.splits if_splits)

section \<open>Properties\<close>

text \<open>
  the gate lets a request through exactly when it names a mission and an actor of a known type
  whose authority covers the action, and its code tells a malformed request (INVALID_INPUT) from a
  well-formed one without the authority (ACTOR_FORBIDDEN).
\<close>

theorem policy_gate_decides:
  "(pr_ok (run_policy_gate inp) \<longleftrightarrow>
     (\<exists>t. well_formed_request (pg_mission_id inp) (pg_actor inp) t \<and>
          List.member (allowed_actor_types (authority_rule_for (pg_action inp))) t)) \<and>
   (pr_code (run_policy_gate inp) = INVALID_INPUT \<longleftrightarrow>
     (\<nexists>t. well_formed_request (pg_mission_id inp) (pg_actor inp) t)) \<and>
   (pr_code (run_policy_gate inp) = ALLOW \<longleftrightarrow> pr_ok (run_policy_gate inp))"
proof -
  have "permits t a = List.member (allowed_actor_types (authority_rule_for a)) t" for t a
    by (simp add: permits_def evaluate_authority_def Let_def)
  then show ?thesis by (auto simp: gate_ok_iff gate_code)
qed

text \<open>
  a winner becomes accepted only on an explicit acceptance, with a recommendation id, by an
  actor of type nexus or human; an agent never accepts, whatever else the request says. The
  override is applied exactly for a well-formed request of a human.
\<close>

theorem arbitration_needs_authority:
  "(ar_accepted (arbitrate_recommendation inp) \<longleftrightarrow>
      ai_accept inp \<and> js_trim (str_or_empty (ai_recommendation_id inp)) \<noteq> [] \<and>
      (\<exists>t \<in> {Nexus, Human}. well_formed_request (ai_mission_id inp) (ai_actor inp) t)) \<and>
   (hr_applied (apply_human_override ov) \<longleftrightarrow>
      well_formed_request (ho_mission_id ov) (ho_actor ov) Human)"
proof
  have "(\<exists>t. well_formed_request m a t \<and> permits t Approve) \<longleftrightarrow>
        (\<exists>t \<in> {Nexus, Human}. well_formed_request m a t)" for m a
    by (auto simp: permits_table) (metis actor_type.exhaust)
  then show "ar_accepted (arbitrate_recommendation inp) \<longleftrightarrow>
      ai_accept inp \<and> js_trim (str_or_empty (ai_recommendation_id inp)) \<noteq> [] \<and>
      (\<exists>t \<in> {Nexus, Human}. well_formed_request (ai_mission_id inp) (ai_actor inp) t)"
    by (simp add: arbitrate_recommendation_def Let_def gate_ok_iff)
  show "hr_applied (apply_human_override ov) \<longleftrightarrow>
      well_formed_request (ho_mission_id ov) (ho_actor ov) Human"
    by (auto simp: apply_human_override_def Let_def gate_ok_iff permits_table)
qed

text \<open>
  authority is a scale with the human at the top: whatever the gate lets an actor type do, it
  lets every higher one do in the same request, and a human's well-formed request is never
  forbidden.
\<close>

theorem authority_is_a_scale:
  assumes "pr_ok (run_policy_gate (request m (Some \<lparr>ra_id = i, ra_type = Some (actor_name t)\<rparr>) act))"
    and "actor_rank t \<le> actor_rank t'"
  shows "pr_ok (run_policy_gate (request m (Some \<lparr>ra_id = i, ra_type = Some (actor_name t')\<rparr>) act))
       \<and> pr_code (run_policy_gate (request m (Some \<lparr>ra_id = i, ra_type = Some (actor_name Human)\<rparr>) act))
           = ALLOW"
proof -
  let ?r = "\<lambda>t. Some \<lparr>ra_id = i, ra_type = Some (actor_name t)\<rparr>"
  define named where "named \<longleftrightarrow> js_trim (str_or_empty m) \<noteq> [] \<and> js_trim (str_or_empty i) \<noteq> []"
  have gate: "pr_ok (run_policy_gate (request m (?r s) act)) \<longleftrightarrow> named \<and> permits s act" for s
    by (auto simp: gate_ok_iff request_def well_formed_request_def named_def)
  from assms(1) have ok: "named" "permits t act" by (simp_all add: gate)
  from ok(2) assms(2) have "permits t' act" by (rule auth.upward)
  with ok(1) have "pr_ok (run_policy_gate (request m (?r t') act))" by (simp only: gate)
  moreover have "pr_ok (run_policy_gate (request m (?r Human) act))"
    using ok(1) auth.top_permits by (simp only: gate)
  ultimately show ?thesis by (simp only: gate_code) simp
qed

theorem authority_is_a_scale_witness:
  "pr_ok (run_policy_gate (request (Some ''m1'') (Some \<lparr>ra_id = Some ''h'', ra_type = Some (actor_name Human)\<rparr>) Approve))
   \<and> pr_code (run_policy_gate (request (Some ''m1'') (Some \<lparr>ra_id = Some ''h'', ra_type = Some (actor_name Human)\<rparr>) Approve)) = ALLOW"
  by (rule authority_is_a_scale [of "Some ''m1''" "Some ''h''" Nexus Approve Human])
    (code_simp, simp)

end
