(* ===== verification/Rate_Limiter.thy ===== *)
theory Rate_Limiter
  imports Prelude Complex_Main
begin

text \<open>
  \<open>lib/rate-limiter.ts\<close>: per-agent and per-conversation sliding windows, challenge limits of agent
  pairs with a cooldown, and the backoff of rejected agents. Times are milliseconds; a method that
  creates a window for a new key returns the limiter with that window added, as \<open>getAgentWindow\<close>
  does.
\<close>

section \<open>Sliding window\<close>

type_synonym sliding_window = "int list"

definition sw_record :: "int \<Rightarrow> sliding_window \<Rightarrow> sliding_window" where
  "sw_record ts w = w @ [ts]"

definition sw_count :: "int \<Rightarrow> int \<Rightarrow> sliding_window \<Rightarrow> int" where
  "sw_count window_ms now w = (let cutoff = now - window_ms in int (length (filter (\<lambda>t. t \<ge> cutoff) w)))"

definition sw_oldest :: "int \<Rightarrow> int \<Rightarrow> sliding_window \<Rightarrow> int option" where
  "sw_oldest window_ms now w =
     (case filter (\<lambda>t. t \<ge> now - window_ms) w of [] \<Rightarrow> None | t # _ \<Rightarrow> Some t)"

definition sw_latest :: "sliding_window \<Rightarrow> int option" where
  "sw_latest w = (if w = [] then None else Some (last w))"

definition sw_prune :: "int \<Rightarrow> sliding_window \<Rightarrow> sliding_window" where
  "sw_prune older_than w = filter (\<lambda>t. t \<ge> older_than) w"

definition sw_export :: "sliding_window \<Rightarrow> int list" where
  "sw_export w = w"

definition sw_import :: "int list \<Rightarrow> sliding_window" where
  "sw_import ts = ts"

section \<open>Configuration and state\<close>

datatype backoff_strategy = Fixed | Linear | Exponential

record rate_limit_config =
  agent_per_minute :: int
  agent_per_hour :: int
  conversation_per_minute :: int
  conversation_per_hour :: int
  challenge_per_hour :: int
  challenge_cooldown_ms :: int
  backoff :: backoff_strategy
  burst_allowance :: bool
  burst_multiplier :: rat

definition default_config :: rate_limit_config where
  "default_config = \<lparr>agent_per_minute = 10, agent_per_hour = 120, conversation_per_minute = 30,
     conversation_per_hour = 300, challenge_per_hour = 5, challenge_cooldown_ms = 10 * 60 * 1000,
     backoff = Exponential, burst_allowance = True, burst_multiplier = 3 / 2\<rparr>"

record challenge_override =
  ov_pair :: "string \<times> string"
  ov_max_per_hour :: int
  ov_cooldown_ms :: int

definition default_challenge_overrides :: "challenge_override list" where
  "default_challenge_overrides =
     [\<lparr>ov_pair = (''oracle'', ''synth''), ov_max_per_hour = 5, ov_cooldown_ms = 10 * 60 * 1000\<rparr>,
      \<lparr>ov_pair = (''sentinel'', ''atlas''), ov_max_per_hour = 3, ov_cooldown_ms = 15 * 60 * 1000\<rparr>,
      \<lparr>ov_pair = (''verifier'', ''synth''), ov_max_per_hour = 4, ov_cooldown_ms = 12 * 60 * 1000\<rparr>]"

datatype limit_type = Agent_per_minute | Agent_per_hour | Conversation_per_minute
  | Conversation_per_hour | Challenge_per_hour | Challenge_cooldown

record usage =
  u_agent_minute :: int
  u_agent_hour :: int
  u_conversation_minute :: "int option"
  u_conversation_hour :: "int option"
  u_challenge_hour :: "int option"

record limits =
  l_agent_per_minute :: int
  l_agent_per_hour :: int
  l_conversation_per_minute :: "int option"
  l_conversation_per_hour :: "int option"
  l_challenge_per_hour :: "int option"

record rate_limit_result =
  rl_allowed :: bool
  rl_limit_type :: "limit_type option"
  rl_retry_after_ms :: "int option"
  rl_usage :: usage
  rl_limits :: limits

record challenge_rate_result =
  cr_allowed :: bool
  cr_limit_type :: "limit_type option"
  cr_retry_after_ms :: "int option"
  cr_count :: int
  cr_max_per_hour :: int

record rate_limiter =
  config :: rate_limit_config
  challenge_overrides :: "challenge_override list"
  agent_windows :: "(string, sliding_window) jsmap"
  conversation_windows :: "(string, sliding_window) jsmap"
  challenge_windows :: "(string, sliding_window) jsmap"
  rejection_counts :: "(string, nat) jsmap"

definition new_rate_limiter :: "rate_limit_config \<Rightarrow> challenge_override list \<Rightarrow> rate_limiter" where
  "new_rate_limiter cfg ovs = \<lparr>config = cfg, challenge_overrides = ovs, agent_windows = [],
     conversation_windows = [], challenge_windows = [], rejection_counts = []\<rparr>"

section \<open>Window helpers and backoff\<close>

text \<open>\<open>getAgentWindow\<close> and its siblings: an unknown key gets a new, empty window.\<close>

definition ensure_window :: "string \<Rightarrow> (string, sliding_window) jsmap \<Rightarrow> (string, sliding_window) jsmap" where
  "ensure_window k m = (case js_get m k of None \<Rightarrow> js_set k [] m | Some _ \<Rightarrow> m)"

definition window_of :: "string \<Rightarrow> (string, sliding_window) jsmap \<Rightarrow> sliding_window" where
  "window_of k m = nullish (js_get m k) []"

definition get_agent_window :: "string \<Rightarrow> rate_limiter \<Rightarrow> rate_limiter \<times> sliding_window" where
  "get_agent_window a s =
     (s\<lparr>agent_windows := ensure_window a (agent_windows s)\<rparr>, window_of a (agent_windows s))"

definition get_conversation_window :: "string \<Rightarrow> rate_limiter \<Rightarrow> rate_limiter \<times> sliding_window" where
  "get_conversation_window c s =
     (s\<lparr>conversation_windows := ensure_window c (conversation_windows s)\<rparr>,
      window_of c (conversation_windows s))"

definition get_challenge_window :: "string \<Rightarrow> rate_limiter \<Rightarrow> rate_limiter \<times> sliding_window" where
  "get_challenge_window k s =
     (s\<lparr>challenge_windows := ensure_window k (challenge_windows s)\<rparr>,
      window_of k (challenge_windows s))"

definition pair_key :: "string \<Rightarrow> string \<Rightarrow> string" where
  "pair_key a b = (if a \<le> b then a @ ''::'' @ b else b @ ''::'' @ a)"

definition compute_backoff :: "string \<Rightarrow> int \<Rightarrow> rate_limiter \<Rightarrow> int" where
  "compute_backoff a base_delay_ms s =
     (let rejections = nullish (js_get (rejection_counts s) a) 0
      in case backoff (config s) of
           Fixed \<Rightarrow> base_delay_ms
         | Linear \<Rightarrow> base_delay_ms * (1 + int rejections)
         | Exponential \<Rightarrow> min (base_delay_ms * 2 ^ rejections) (5 * 60 * 1000))"

definition increment_rejections :: "string \<Rightarrow> rate_limiter \<Rightarrow> rate_limiter" where
  "increment_rejections a s =
     s\<lparr>rejection_counts := js_set a (nullish (js_get (rejection_counts s) a) 0 + 1) (rejection_counts s)\<rparr>"

definition reset_rejections :: "string \<Rightarrow> rate_limiter \<Rightarrow> rate_limiter" where
  "reset_rejections a s = s\<lparr>rejection_counts := js_delete a (rejection_counts s)\<rparr>"

section \<open>Checks\<close>

definition effective_per_minute :: "rate_limit_config \<Rightarrow> int" where
  "effective_per_minute c =
     (if burst_allowance c then \<lfloor>of_int (agent_per_minute c) * burst_multiplier c\<rfloor>
      else agent_per_minute c)"

definition agent_usage :: "int \<Rightarrow> int \<Rightarrow> usage" where
  "agent_usage m h = \<lparr>u_agent_minute = m, u_agent_hour = h, u_conversation_minute = None,
     u_conversation_hour = None, u_challenge_hour = None\<rparr>"

definition agent_limits :: "int \<Rightarrow> int \<Rightarrow> limits" where
  "agent_limits m h = \<lparr>l_agent_per_minute = m, l_agent_per_hour = h, l_conversation_per_minute = None,
     l_conversation_per_hour = None, l_challenge_per_hour = None\<rparr>"

definition check_agent_limit :: "string \<Rightarrow> int \<Rightarrow> rate_limiter \<Rightarrow> rate_limiter \<times> rate_limit_result" where
  "check_agent_limit a now s0 =
     (let (s, w) = get_agent_window a s0;
          minute_count = sw_count 60000 now w;
          hour_count = sw_count 3600000 now w;
          eff = effective_per_minute (config s);
          u = agent_usage minute_count hour_count;
          l = agent_limits eff (agent_per_hour (config s))
      in if minute_count \<ge> eff then
           (let base = num_or (sw_oldest 60000 now w) (\<lambda>oldest. oldest + 60000 - now) 5000;
                s1 = increment_rejections a s
            in (s1, \<lparr>rl_allowed = False, rl_limit_type = Some Agent_per_minute,
                     rl_retry_after_ms = Some (compute_backoff a (max base 1000) s1),
                     rl_usage = u, rl_limits = l\<rparr>))
         else if hour_count \<ge> agent_per_hour (config s) then
           (let base = num_or (sw_oldest 3600000 now w) (\<lambda>oldest. oldest + 3600000 - now) 60000;
                s1 = increment_rejections a s
            in (s1, \<lparr>rl_allowed = False, rl_limit_type = Some Agent_per_hour,
                     rl_retry_after_ms = Some (compute_backoff a (max base 5000) s1),
                     rl_usage = u, rl_limits = l\<rparr>))
         else
           (reset_rejections a s,
            \<lparr>rl_allowed = True, rl_limit_type = None, rl_retry_after_ms = None,
             rl_usage = u, rl_limits = l\<rparr>))"

definition conversation_usage :: "int \<Rightarrow> int \<Rightarrow> usage" where
  "conversation_usage m h = \<lparr>u_agent_minute = 0, u_agent_hour = 0, u_conversation_minute = Some m,
     u_conversation_hour = Some h, u_challenge_hour = None\<rparr>"

definition conversation_limits :: "rate_limit_config \<Rightarrow> limits" where
  "conversation_limits c = \<lparr>l_agent_per_minute = 0, l_agent_per_hour = 0,
     l_conversation_per_minute = Some (conversation_per_minute c),
     l_conversation_per_hour = Some (conversation_per_hour c), l_challenge_per_hour = None\<rparr>"

definition check_conversation_limit :: "string \<Rightarrow> int \<Rightarrow> rate_limiter \<Rightarrow> rate_limiter \<times> rate_limit_result" where
  "check_conversation_limit c now s0 =
     (let (s, w) = get_conversation_window c s0;
          minute_count = sw_count 60000 now w;
          hour_count = sw_count 3600000 now w;
          u = conversation_usage minute_count hour_count;
          l = conversation_limits (config s)
      in if minute_count \<ge> conversation_per_minute (config s) then
           (let base = num_or (sw_oldest 60000 now w) (\<lambda>oldest. oldest + 60000 - now) 5000
            in (s, \<lparr>rl_allowed = False, rl_limit_type = Some Conversation_per_minute,
                    rl_retry_after_ms = Some (max base 1000), rl_usage = u, rl_limits = l\<rparr>))
         else if hour_count \<ge> conversation_per_hour (config s) then
           (let base = num_or (sw_oldest 3600000 now w) (\<lambda>oldest. oldest + 3600000 - now) 60000
            in (s, \<lparr>rl_allowed = False, rl_limit_type = Some Conversation_per_hour,
                    rl_retry_after_ms = Some (max base 5000), rl_usage = u, rl_limits = l\<rparr>))
         else
           (s, \<lparr>rl_allowed = True, rl_limit_type = None, rl_retry_after_ms = None,
                rl_usage = u, rl_limits = l\<rparr>))"

definition find_override :: "string \<Rightarrow> string \<Rightarrow> challenge_override list \<Rightarrow> challenge_override option" where
  "find_override a b ovs =
     List.find (\<lambda>ov. (fst (ov_pair ov) = a \<and> snd (ov_pair ov) = b) \<or>
                      (snd (ov_pair ov) = a \<and> fst (ov_pair ov) = b)) ovs"

definition challenge_limits :: "string \<Rightarrow> string \<Rightarrow> rate_limiter \<Rightarrow> int \<times> int" where
  "challenge_limits a b s =
     (case find_override a b (challenge_overrides s) of
        None \<Rightarrow> (challenge_per_hour (config s), challenge_cooldown_ms (config s))
      | Some ov \<Rightarrow> (ov_max_per_hour ov, ov_cooldown_ms ov))"

definition check_challenge_limit ::
  "string \<Rightarrow> string \<Rightarrow> int \<Rightarrow> rate_limiter \<Rightarrow> rate_limiter \<times> challenge_rate_result" where
  "check_challenge_limit a b now s0 =
     (let (s, w) = get_challenge_window (pair_key a b) s0;
          (max_per_hour, cooldown_ms) = challenge_limits a b s;
          cooling = num_or (sw_latest w) (\<lambda>latest. if now - latest < cooldown_ms then Some latest else None) None
      in case cooling of
           Some latest \<Rightarrow>
             (s, \<lparr>cr_allowed = False, cr_limit_type = Some Challenge_cooldown,
                  cr_retry_after_ms = Some (cooldown_ms - (now - latest)),
                  cr_count = sw_count 3600000 now w, cr_max_per_hour = max_per_hour\<rparr>)
         | None \<Rightarrow>
             (let hour_count = sw_count 3600000 now w
              in if hour_count \<ge> max_per_hour then
                   (let retry_after = num_or (sw_oldest 3600000 now w) (\<lambda>oldest. oldest + 3600000 - now) 60000
                    in (s, \<lparr>cr_allowed = False, cr_limit_type = Some Challenge_per_hour,
                            cr_retry_after_ms = Some (max retry_after 1000),
                            cr_count = hour_count, cr_max_per_hour = max_per_hour\<rparr>))
                 else
                   (s, \<lparr>cr_allowed = True, cr_limit_type = None, cr_retry_after_ms = None,
                        cr_count = hour_count, cr_max_per_hour = max_per_hour\<rparr>)))"

text \<open>\<open>{...a, ...b}\<close> on usage and limit objects: a field of \<open>b\<close> that is there replaces the one of \<open>a\<close>.\<close>

definition merge_usage :: "usage \<Rightarrow> usage \<Rightarrow> usage" where
  "merge_usage a b = \<lparr>u_agent_minute = u_agent_minute b, u_agent_hour = u_agent_hour b,
     u_conversation_minute = nullish_opt (u_conversation_minute b) (u_conversation_minute a),
     u_conversation_hour = nullish_opt (u_conversation_hour b) (u_conversation_hour a),
     u_challenge_hour = nullish_opt (u_challenge_hour b) (u_challenge_hour a)\<rparr>"

definition merge_limits :: "limits \<Rightarrow> limits \<Rightarrow> limits" where
  "merge_limits a b = \<lparr>l_agent_per_minute = l_agent_per_minute b, l_agent_per_hour = l_agent_per_hour b,
     l_conversation_per_minute = nullish_opt (l_conversation_per_minute b) (l_conversation_per_minute a),
     l_conversation_per_hour = nullish_opt (l_conversation_per_hour b) (l_conversation_per_hour a),
     l_challenge_per_hour = nullish_opt (l_challenge_per_hour b) (l_challenge_per_hour a)\<rparr>"

text \<open>
  The option \<open>challengeTarget\<close> is only looked at for a challenge, and an empty target counts as
  none.
\<close>

definition check_all ::
  "string \<Rightarrow> string \<Rightarrow> bool \<Rightarrow> string option \<Rightarrow> int \<Rightarrow> rate_limiter \<Rightarrow> rate_limiter \<times> rate_limit_result" where
  "check_all a c is_challenge target now s0 =
     (let (s1, ra) = check_agent_limit a now s0
      in if \<not> rl_allowed ra then (s1, ra)
         else
           (let (s2, rc) = check_conversation_limit c now s1
            in if \<not> rl_allowed rc then (s2, rc)
               else if is_challenge \<and> truthy_str target then
                 (let (s3, rch) = check_challenge_limit a (str_or_empty target) now s2
                  in if \<not> cr_allowed rch then
                       (s3, \<lparr>rl_allowed = False, rl_limit_type = cr_limit_type rch,
                             rl_retry_after_ms = cr_retry_after_ms rch,
                             rl_usage = (merge_usage (rl_usage ra) (rl_usage rc))\<lparr>u_challenge_hour := Some (cr_count rch)\<rparr>,
                             rl_limits = (merge_limits (rl_limits ra) (rl_limits rc))\<lparr>l_challenge_per_hour := Some (cr_max_per_hour rch)\<rparr>\<rparr>)
                     else
                       (s3, \<lparr>rl_allowed = True, rl_limit_type = None, rl_retry_after_ms = None,
                             rl_usage = merge_usage (rl_usage ra) (rl_usage rc),
                             rl_limits = merge_limits (rl_limits ra) (rl_limits rc)\<rparr>))
               else
                 (s2, \<lparr>rl_allowed = True, rl_limit_type = None, rl_retry_after_ms = None,
                       rl_usage = merge_usage (rl_usage ra) (rl_usage rc),
                       rl_limits = merge_limits (rl_limits ra) (rl_limits rc)\<rparr>)))"

section \<open>Recording and state management\<close>

definition record_in :: "string \<Rightarrow> int \<Rightarrow> (string, sliding_window) jsmap \<Rightarrow> (string, sliding_window) jsmap" where
  "record_in k now m = js_set k (sw_record now (window_of k m)) m"

definition record_message :: "string \<Rightarrow> string \<Rightarrow> int \<Rightarrow> rate_limiter \<Rightarrow> rate_limiter" where
  "record_message a c now s =
     s\<lparr>agent_windows := record_in a now (agent_windows s),
       conversation_windows := record_in c now (conversation_windows s)\<rparr>"

definition record_challenge :: "string \<Rightarrow> string \<Rightarrow> int \<Rightarrow> rate_limiter \<Rightarrow> rate_limiter" where
  "record_challenge a b now s =
     s\<lparr>challenge_windows := record_in (pair_key a b) now (challenge_windows s)\<rparr>"

record limiter_state =
  st_agent_windows :: "(string \<times> int list) list"
  st_conversation_windows :: "(string \<times> int list) list"
  st_challenge_windows :: "(string \<times> int list) list"

definition export_state :: "rate_limiter \<Rightarrow> limiter_state" where
  "export_state s =
     \<lparr>st_agent_windows = map (\<lambda>(k, w). (k, sw_export w)) (agent_windows s),
      st_conversation_windows = map (\<lambda>(k, w). (k, sw_export w)) (conversation_windows s),
      st_challenge_windows = map (\<lambda>(k, w). (k, sw_export w)) (challenge_windows s)\<rparr>"

definition import_windows ::
  "(string \<times> int list) list \<Rightarrow> (string, sliding_window) jsmap \<Rightarrow> (string, sliding_window) jsmap" where
  "import_windows kvs m = fold (\<lambda>(k, ts). js_set k (sw_import ts)) kvs m"

definition import_state :: "limiter_state \<Rightarrow> rate_limiter \<Rightarrow> rate_limiter" where
  "import_state st s =
     s\<lparr>agent_windows := import_windows (st_agent_windows st) (agent_windows s),
       conversation_windows := import_windows (st_conversation_windows st) (conversation_windows s),
       challenge_windows := import_windows (st_challenge_windows st) (challenge_windows s)\<rparr>"

definition reset :: "rate_limiter \<Rightarrow> rate_limiter" where
  "reset s = s\<lparr>agent_windows := [], conversation_windows := [], challenge_windows := [],
               rejection_counts := []\<rparr>"

definition reset_agent :: "string \<Rightarrow> rate_limiter \<Rightarrow> rate_limiter" where
  "reset_agent a s = s\<lparr>agent_windows := js_delete a (agent_windows s),
                       rejection_counts := js_delete a (rejection_counts s)\<rparr>"

definition reset_conversation :: "string \<Rightarrow> rate_limiter \<Rightarrow> rate_limiter" where
  "reset_conversation c s = s\<lparr>conversation_windows := js_delete c (conversation_windows s)\<rparr>"

text \<open>\<open>updateConfig(updates)\<close> spreads a partial configuration over the current one.\<close>

record config_updates =
  up_agent_per_minute :: "int field"
  up_agent_per_hour :: "int field"
  up_conversation_per_minute :: "int field"
  up_conversation_per_hour :: "int field"
  up_challenge_per_hour :: "int field"
  up_challenge_cooldown_ms :: "int field"
  up_backoff :: "backoff_strategy field"
  up_burst_allowance :: "bool field"
  up_burst_multiplier :: "rat field"

definition spread_config :: "rate_limit_config \<Rightarrow> config_updates \<Rightarrow> rate_limit_config" where
  "spread_config c u =
     \<lparr>agent_per_minute = spread (agent_per_minute c) (up_agent_per_minute u),
      agent_per_hour = spread (agent_per_hour c) (up_agent_per_hour u),
      conversation_per_minute = spread (conversation_per_minute c) (up_conversation_per_minute u),
      conversation_per_hour = spread (conversation_per_hour c) (up_conversation_per_hour u),
      challenge_per_hour = spread (challenge_per_hour c) (up_challenge_per_hour u),
      challenge_cooldown_ms = spread (challenge_cooldown_ms c) (up_challenge_cooldown_ms u),
      backoff = spread (backoff c) (up_backoff u),
      burst_allowance = spread (burst_allowance c) (up_burst_allowance u),
      burst_multiplier = spread (burst_multiplier c) (up_burst_multiplier u)\<rparr>"

definition update_config :: "config_updates \<Rightarrow> rate_limiter \<Rightarrow> rate_limiter" where
  "update_config u s = s\<lparr>config := spread_config (config s) u\<rparr>"

definition update_challenge_overrides :: "challenge_override list \<Rightarrow> rate_limiter \<Rightarrow> rate_limiter" where
  "update_challenge_overrides ovs s = s\<lparr>challenge_overrides := ovs\<rparr>"

definition prune_windows :: "int \<Rightarrow> (string, sliding_window) jsmap \<Rightarrow> (string, sliding_window) jsmap" where
  "prune_windows older_than m = map (\<lambda>(k, w). (k, sw_prune older_than w)) m"

definition prune :: "int \<Rightarrow> rate_limiter \<Rightarrow> rate_limiter" where
  "prune now s =
     (let hour_ago = now - 3600000
      in s\<lparr>agent_windows := prune_windows hour_ago (agent_windows s),
           conversation_windows := prune_windows hour_ago (conversation_windows s),
           challenge_windows := prune_windows hour_ago (challenge_windows s)\<rparr>)"


section \<open>Windows under the operations\<close>

lemma sw_count_in_window: "sw_count w now ts = int (in_window w ts now)"
  by (simp add: sw_count_def in_window_def)

lemma window_of_ensure [simp]: "window_of k (ensure_window k' m) = window_of k m"
  by (auto simp: window_of_def ensure_window_def split: option.splits)

lemma window_of_record [simp]:
  "window_of k (record_in k' now m) = (if k = k' then window_of k m @ [now] else window_of k m)"
  by (simp add: window_of_def record_in_def sw_record_def)

text \<open>The parts of a check's result that its callers look at.\<close>

lemma check_agent_windows [simp]:
  "window_of k (agent_windows (fst (check_agent_limit a now s))) = window_of k (agent_windows s)"
  "conversation_windows (fst (check_agent_limit a now s)) = conversation_windows s"
  "challenge_windows (fst (check_agent_limit a now s)) = challenge_windows s"
  "config (fst (check_agent_limit a now s)) = config s"
  "challenge_overrides (fst (check_agent_limit a now s)) = challenge_overrides s"
  by (simp_all add: check_agent_limit_def get_agent_window_def Let_def increment_rejections_def
      reset_rejections_def)

lemma check_conversation_windows [simp]:
  "agent_windows (fst (check_conversation_limit c now s)) = agent_windows s"
  "window_of k (conversation_windows (fst (check_conversation_limit c now s)))
     = window_of k (conversation_windows s)"
  "challenge_windows (fst (check_conversation_limit c now s)) = challenge_windows s"
  "config (fst (check_conversation_limit c now s)) = config s"
  "challenge_overrides (fst (check_conversation_limit c now s)) = challenge_overrides s"
  "rejection_counts (fst (check_conversation_limit c now s)) = rejection_counts s"
  by (simp_all add: check_conversation_limit_def get_conversation_window_def Let_def)

lemma check_challenge_windows [simp]:
  "agent_windows (fst (check_challenge_limit a b now s)) = agent_windows s"
  "conversation_windows (fst (check_challenge_limit a b now s)) = conversation_windows s"
  "window_of k (challenge_windows (fst (check_challenge_limit a b now s)))
     = window_of k (challenge_windows s)"
  "config (fst (check_challenge_limit a b now s)) = config s"
  by (simp_all add: check_challenge_limit_def get_challenge_window_def Let_def
      split: option.splits prod.splits)

lemma check_agent_allowed:
  "rl_allowed (snd (check_agent_limit a now s)) \<longleftrightarrow>
     sw_count 60000 now (window_of a (agent_windows s)) < effective_per_minute (config s) \<and>
     sw_count 3600000 now (window_of a (agent_windows s)) < agent_per_hour (config s)"
  by (simp add: check_agent_limit_def get_agent_window_def Let_def)

lemma check_conversation_allowed:
  "rl_allowed (snd (check_conversation_limit c now s)) \<longleftrightarrow>
     sw_count 60000 now (window_of c (conversation_windows s)) < conversation_per_minute (config s) \<and>
     sw_count 3600000 now (window_of c (conversation_windows s)) < conversation_per_hour (config s)"
  by (simp add: check_conversation_limit_def get_conversation_window_def Let_def)

lemma challenge_limits_cong:
  "challenge_overrides s = challenge_overrides s' \<Longrightarrow> config s = config s' \<Longrightarrow>
   challenge_limits a b s = challenge_limits a b s'"
  by (simp add: challenge_limits_def split: option.split)

lemma check_challenge_cong:
  assumes "window_of (pair_key a b) (challenge_windows s) = window_of (pair_key a b) (challenge_windows s')"
    and "challenge_overrides s = challenge_overrides s'" "config s = config s'"
  shows "snd (check_challenge_limit a b now s) = snd (check_challenge_limit a b now s')"
  using assms
  by (simp add: check_challenge_limit_def get_challenge_window_def Let_def challenge_limits_def
      split: option.splits prod.splits)

lemma check_all_allowed:
  "rl_allowed (snd (check_all a c is_ch target now s)) \<longleftrightarrow>
     rl_allowed (snd (check_agent_limit a now s)) \<and>
     rl_allowed (snd (check_conversation_limit c now s)) \<and>
     (is_ch \<and> truthy_str target \<longrightarrow>
        cr_allowed (snd (check_challenge_limit a (str_or_empty target) now s)))"
proof -
  let ?s1 = "fst (check_agent_limit a now s)"
  let ?s2 = "fst (check_conversation_limit c now ?s1)"
  have conv: "rl_allowed (snd (check_conversation_limit c now ?s1))
      \<longleftrightarrow> rl_allowed (snd (check_conversation_limit c now s))"
    by (simp add: check_conversation_allowed)
  have chal: "snd (check_challenge_limit a b now ?s2) = snd (check_challenge_limit a b now s)" for b
    by (rule check_challenge_cong) simp_all
  show ?thesis
    by (simp add: check_all_def split_beta Let_def conv chal)
qed

lemma check_all_windows [simp]:
  "window_of k (agent_windows (fst (check_all a c is_ch target now s))) = window_of k (agent_windows s)"
  "window_of k (conversation_windows (fst (check_all a c is_ch target now s)))
     = window_of k (conversation_windows s)"
  "window_of k (challenge_windows (fst (check_all a c is_ch target now s)))
     = window_of k (challenge_windows s)"
  "config (fst (check_all a c is_ch target now s)) = config s"
  by (simp_all add: check_all_def split_beta Let_def)

section \<open>Admitted traffic\<close>

text \<open>
  How the conversation engine uses the limiter: check, and record the message when the check let it
  through.
\<close>

record send =
  sd_agent :: string
  sd_conversation :: string
  sd_challenge :: bool
  sd_target :: "string option"
  sd_time :: int

definition admit :: "send \<Rightarrow> rate_limiter \<Rightarrow> rate_limiter" where
  "admit m s =
     (let (s1, r) = check_all (sd_agent m) (sd_conversation m) (sd_challenge m) (sd_target m) (sd_time m) s
      in if rl_allowed r then
           (let s2 = record_message (sd_agent m) (sd_conversation m) (sd_time m) s1
            in if sd_challenge m \<and> truthy_str (sd_target m)
               then record_challenge (sd_agent m) (str_or_empty (sd_target m)) (sd_time m) s2
               else s2)
         else s1)"

interpretation quota: admission width "nat lim" "\<lambda>w now. sw_count width now w < lim"
  for width lim :: int
  by unfold_locales (simp add: sw_count_in_window)

text \<open>Every window of the limiter is within its quota.\<close>

definition within_quota :: "rate_limiter \<Rightarrow> bool" where
  "within_quota s \<longleftrightarrow>
     (\<forall>k. quota.bounded 60000 (effective_per_minute (config s)) (window_of k (agent_windows s)) \<and>
          quota.bounded 3600000 (agent_per_hour (config s)) (window_of k (agent_windows s)) \<and>
          quota.bounded 60000 (conversation_per_minute (config s)) (window_of k (conversation_windows s)) \<and>
          quota.bounded 3600000 (conversation_per_hour (config s)) (window_of k (conversation_windows s)))"

lemma config_admit [simp]: "config (admit m s) = config s"
  by (simp add: admit_def split_beta Let_def record_message_def record_challenge_def)

lemma admit_windows:
  "window_of k (agent_windows (admit m s)) =
     (if rl_allowed (snd (check_all (sd_agent m) (sd_conversation m) (sd_challenge m) (sd_target m) (sd_time m) s))
         \<and> k = sd_agent m
      then window_of k (agent_windows s) @ [sd_time m] else window_of k (agent_windows s))"
  "window_of k (conversation_windows (admit m s)) =
     (if rl_allowed (snd (check_all (sd_agent m) (sd_conversation m) (sd_challenge m) (sd_target m) (sd_time m) s))
         \<and> k = sd_conversation m
      then window_of k (conversation_windows s) @ [sd_time m] else window_of k (conversation_windows s))"
  by (simp_all add: admit_def split_beta Let_def record_message_def record_challenge_def)

lemma within_quota_admit: "within_quota s \<Longrightarrow> within_quota (admit m s)"
  unfolding within_quota_def
  by (auto simp: admit_windows check_all_allowed check_agent_allowed check_conversation_allowed
      intro!: quota.bounded_record)

lemma within_quota_new: "within_quota (new_rate_limiter cfg ovs)"
  by (simp add: within_quota_def new_rate_limiter_def window_of_def quota.bounded_Nil)

lemma within_quota_fold: "within_quota s \<Longrightarrow> within_quota (fold admit ms s)"
  by (induction ms arbitrary: s) (auto intro: within_quota_admit)

lemma config_fold_admit: "config (fold admit ms s) = config s"
  by (induction ms arbitrary: s) auto

section \<open>Properties\<close>

text \<open>
  C13: whatever is sent, in any order and at any times, no agent gets more messages through in any
  60 seconds than the burst-adjusted per-minute limit nor in any hour than the per-hour limit, and
  no conversation carries more than its own two limits.
\<close>

theorem admitted_traffic_is_bounded:
  "let s = fold admit ms (new_rate_limiter cfg ovs) in
   int (in_interval 60000 (window_of a (agent_windows s)) now) \<le> max 0 (effective_per_minute cfg) \<and>
   int (in_interval 3600000 (window_of a (agent_windows s)) now) \<le> max 0 (agent_per_hour cfg) \<and>
   int (in_interval 60000 (window_of c (conversation_windows s)) now) \<le> max 0 (conversation_per_minute cfg) \<and>
   int (in_interval 3600000 (window_of c (conversation_windows s)) now) \<le> max 0 (conversation_per_hour cfg)"
proof -
  let ?s = "fold admit ms (new_rate_limiter cfg ovs)"
  have q: "within_quota ?s" by (intro within_quota_fold within_quota_new)
  have c: "config ?s = cfg" by (simp add: config_fold_admit new_rate_limiter_def)
  have le: "in_interval w ts now \<le> nat l \<Longrightarrow> int (in_interval w ts now) \<le> max 0 l" for w ts l
    by linarith
  show ?thesis
    using q unfolding Let_def within_quota_def quota.bounded_def c by (blast intro: le)
qed

text \<open>
  the agent check lets a message through exactly when both windows have room, it never changes
  a window, and it counts consecutive rejections: one more after a rejection, none after a pass,
  other agents untouched.
\<close>

theorem agent_check_behaviour:
  "let (s', r) = check_agent_limit a now s in
   (rl_allowed r \<longleftrightarrow>
      int (in_window 60000 (window_of a (agent_windows s)) now) < effective_per_minute (config s) \<and>
      int (in_window 3600000 (window_of a (agent_windows s)) now) < agent_per_hour (config s)) \<and>
   window_of k (agent_windows s') = window_of k (agent_windows s) \<and>
   js_get (rejection_counts s') b =
     (if b \<noteq> a then js_get (rejection_counts s) b
      else if rl_allowed r then None
      else Some (nullish (js_get (rejection_counts s) a) 0 + 1))"
  by (simp add: check_agent_limit_def get_agent_window_def Let_def sw_count_in_window
      increment_rejections_def reset_rejections_def)

text \<open>
  the combined check passes exactly when the agent check, the conversation check and, for a
  challenge with a target, the challenge check pass; a rejection reports the first failing one.
\<close>

theorem combined_check_is_the_conjunction:
  "(rl_allowed (snd (check_all a c is_ch target now s)) \<longleftrightarrow>
     rl_allowed (snd (check_agent_limit a now s)) \<and>
     rl_allowed (snd (check_conversation_limit c now s)) \<and>
     \<not> (is_ch \<and> truthy_str target \<and>
        \<not> cr_allowed (snd (check_challenge_limit a (str_or_empty target) now s)))) \<and>
   rl_limit_type (snd (check_all a c is_ch target now s)) =
     (if \<not> rl_allowed (snd (check_agent_limit a now s))
      then rl_limit_type (snd (check_agent_limit a now s))
      else if \<not> rl_allowed (snd (check_conversation_limit c now s))
      then rl_limit_type (snd (check_conversation_limit c now s))
      else if is_ch \<and> truthy_str target \<and>
              \<not> cr_allowed (snd (check_challenge_limit a (str_or_empty target) now s))
      then cr_limit_type (snd (check_challenge_limit a (str_or_empty target) now s))
      else None)"
proof
  let ?s1 = "fst (check_agent_limit a now s)"
  let ?s2 = "fst (check_conversation_limit c now ?s1)"
  have conv: "rl_allowed (snd (check_conversation_limit c now ?s1))
      \<longleftrightarrow> rl_allowed (snd (check_conversation_limit c now s))"
    "rl_limit_type (snd (check_conversation_limit c now ?s1))
      = rl_limit_type (snd (check_conversation_limit c now s))"
    by (simp_all add: check_conversation_limit_def get_conversation_window_def Let_def)
  have chal: "snd (check_challenge_limit a b now ?s2) = snd (check_challenge_limit a b now s)" for b
    by (rule check_challenge_cong) simp_all
  show "rl_limit_type (snd (check_all a c is_ch target now s)) =
     (if \<not> rl_allowed (snd (check_agent_limit a now s))
      then rl_limit_type (snd (check_agent_limit a now s))
      else if \<not> rl_allowed (snd (check_conversation_limit c now s))
      then rl_limit_type (snd (check_conversation_limit c now s))
      else if is_ch \<and> truthy_str target \<and>
              \<not> cr_allowed (snd (check_challenge_limit a (str_or_empty target) now s))
      then cr_limit_type (snd (check_challenge_limit a (str_or_empty target) now s))
      else None)"
    by (simp add: check_all_def split_beta Let_def conv chal)
qed (auto simp: check_all_allowed)

lemma challenge_limits_frame [simp]:
  "challenge_limits a b (s\<lparr>challenge_windows := m\<rparr>) = challenge_limits a b s"
  by (rule challenge_limits_cong) simp_all

lemma check_challenge_agree:
  fixes s s' :: rate_limiter and a b :: string and now :: int
  defines "w \<equiv> window_of (pair_key a b) (challenge_windows s)"
    and "w' \<equiv> window_of (pair_key a b) (challenge_windows s')"
    and "cooling \<equiv> \<lambda>w cd. num_or (sw_latest w) (\<lambda>l. if now - l < cd then Some l else None) None"
  assumes "challenge_limits a b s = (mx, cd)" "challenge_limits a b s' = (mx, cd)"
    and "sw_count 3600000 now w = sw_count 3600000 now w'" "sw_oldest 3600000 now w = sw_oldest 3600000 now w'"
    and "cooling w cd = cooling w' cd"
  shows "snd (check_challenge_limit a b now s) = snd (check_challenge_limit a b now s')"
  using assms
  by (simp add: check_challenge_limit_def get_challenge_window_def Let_def split: option.split)

lemma filter_prune: "lo \<le> edge \<Longrightarrow> filter (\<lambda>t. t \<ge> edge) (sw_prune lo w) = filter (\<lambda>t. t \<ge> edge) w"
  by (auto simp: sw_prune_def intro!: filter_cong)

lemma window_of_prune: "window_of k (prune_windows lo m) = sw_prune lo (window_of k m)"
  by (cases "js_get m k") (auto simp: window_of_def prune_windows_def sw_prune_def)

lemma latest_prune:
  assumes "sorted w"
  shows "sw_latest (sw_prune lo w) =
    (case sw_latest w of None \<Rightarrow> None | Some l \<Rightarrow> if l \<ge> lo then Some l else None)"
proof (cases w rule: rev_cases)
  case (snoc ys y)
  with assms have "\<forall>x \<in> set ys. x \<le> y" by (auto simp: sorted_append)
  then have "y < lo \<Longrightarrow> filter (\<lambda>t. t \<ge> lo) ys = []" by (force simp: filter_empty_conv)
  with snoc show ?thesis by (auto simp: sw_latest_def sw_prune_def)
qed (simp add: sw_latest_def sw_prune_def)

text \<open>
  pruning at a time changes no later decision of the agent and conversation checks, and none of
  the challenge check whose cooldown is at most an hour.
\<close>

theorem pruning_is_transparent:
  assumes later: "now \<le> now'"
    and cooldown: "snd (challenge_limits a b s) \<le> 3600000"
    and clock: "sorted (window_of (pair_key a b) (challenge_windows s))"
  shows "snd (check_agent_limit a now' (prune now s)) = snd (check_agent_limit a now' s) \<and>
         snd (check_conversation_limit c now' (prune now s)) = snd (check_conversation_limit c now' s) \<and>
         snd (check_challenge_limit a b now' (prune now s)) = snd (check_challenge_limit a b now' s)"
proof (intro conjI)
  have f: "filter (\<lambda>t. now' - 3600000 \<le> t) (sw_prune (now - 3600000) w) = filter (\<lambda>t. now' - 3600000 \<le> t) w"
       "filter (\<lambda>t. now' - 60000 \<le> t) (sw_prune (now - 3600000) w) = filter (\<lambda>t. now' - 60000 \<le> t) w" for w
    using later by (auto intro!: filter_prune)
  show "snd (check_agent_limit a now' (prune now s)) = snd (check_agent_limit a now' s)"
    by (simp add: check_agent_limit_def get_agent_window_def Let_def sw_count_def sw_oldest_def
        prune_def window_of_prune f compute_backoff_def increment_rejections_def split: backoff_strategy.split)
  show "snd (check_conversation_limit c now' (prune now s)) = snd (check_conversation_limit c now' s)"
    by (simp add: check_conversation_limit_def get_conversation_window_def Let_def sw_count_def
        sw_oldest_def prune_def window_of_prune f)
  let ?w = "window_of (pair_key a b) (challenge_windows s)"
  have cl: "challenge_limits a b (prune now s) = challenge_limits a b s"
    by (rule challenge_limits_cong) (simp_all add: prune_def Let_def)
  have latest: "num_or (sw_latest (sw_prune (now - 3600000) ?w)) (\<lambda>l. if now' - l < cd then Some l else None) None
      = num_or (sw_latest ?w) (\<lambda>l. if now' - l < cd then Some l else None) None"
    if "cd \<le> 3600000" for cd
    using that later by (cases "sw_latest ?w") (auto simp: latest_prune [OF clock])
  obtain mx cd where m: "challenge_limits a b s = (mx, cd)" by fastforce
  with cooldown have "cd \<le> 3600000" by simp
  note latest = latest [OF this]
  show "snd (check_challenge_limit a b now' (prune now s)) = snd (check_challenge_limit a b now' s)"
    by (rule check_challenge_agree [where mx = mx and cd = cd])
      (simp_all add: cl m latest, simp_all add: prune_def Let_def window_of_prune sw_count_def
        sw_oldest_def f latest)
qed

definition example_limiter :: rate_limiter where
  "example_limiter = record_challenge ''atlas'' ''sentinel'' 1000
     (record_message ''atlas'' ''c1'' 500 (new_rate_limiter default_config default_challenge_overrides))"

theorem pruning_is_transparent_witness:
  "snd (check_challenge_limit ''sentinel'' ''atlas'' 600000 (prune 500000 example_limiter))
     = snd (check_challenge_limit ''sentinel'' ''atlas'' 600000 example_limiter)"
proof -
  have "snd (challenge_limits ''sentinel'' ''atlas'' example_limiter) \<le> 3600000"
    by code_simp
  moreover have "sorted (window_of (pair_key ''sentinel'' ''atlas'') (challenge_windows example_limiter))"
    by code_simp
  ultimately show ?thesis
    using pruning_is_transparent [of 500000 600000 "''sentinel''" "''atlas''" example_limiter] by simp
qed

lemma get_import_windows: "js_get (import_windows kvs m) k =
    (case map_of (rev kvs) k of Some v \<Rightarrow> Some v | None \<Rightarrow> js_get m k)"
  using jsd.get_put_all [of kvs m k]
  by (simp add: import_windows_def jsd.put_all_def sw_import_def)

lemma import_export:
  assumes "distinct (map fst m)"
  shows "window_of k (import_windows (map (\<lambda>(k, w). (k, sw_export w)) m) []) = window_of k m"
proof -
  have "map (\<lambda>(k, w). (k, sw_export w)) m = m" by (simp add: sw_export_def)
  then have "js_get (import_windows (map (\<lambda>(k, w). (k, sw_export w)) m) []) k = js_get m k"
    using map_of_rev_distinct [OF assms, of k]
    by (simp only: get_import_windows) (auto simp: js_get_map_of split: option.split)
  then show ?thesis by (simp add: window_of_def)
qed

text \<open>No key has two windows: true of a new limiter and kept by every operation.\<close>

definition windows_distinct :: "rate_limiter \<Rightarrow> bool" where
  "windows_distinct s \<longleftrightarrow> distinct (map fst (agent_windows s)) \<and>
     distinct (map fst (conversation_windows s)) \<and> distinct (map fst (challenge_windows s))"

lemma distinct_ensure_window: "distinct (map fst m) \<Longrightarrow> distinct (map fst (ensure_window k m))"
  by (auto simp: ensure_window_def distinct_js_set split: option.split)

lemma distinct_record_in: "distinct (map fst m) \<Longrightarrow> distinct (map fst (record_in k now m))"
  by (simp add: record_in_def distinct_js_set)

lemma distinct_import: "distinct (map fst m) \<Longrightarrow> distinct (map fst (import_windows kvs m))"
  unfolding import_windows_def
  by (induction kvs arbitrary: m) (auto simp: distinct_js_set)

lemma distinct_prune: "distinct (map fst m) \<Longrightarrow> distinct (map fst (prune_windows lo m))"
  by (simp add: prune_windows_def comp_def case_prod_unfold)

lemmas window_ops = distinct_ensure_window distinct_record_in distinct_import distinct_prune
  distinct_js_delete

lemma windows_distinct_checks:
  assumes "windows_distinct s"
  shows "windows_distinct (fst (check_agent_limit a now s))"
    and "windows_distinct (fst (check_conversation_limit c now s))"
    and "windows_distinct (fst (check_challenge_limit a b now s))"
  using assms
  by (auto simp: windows_distinct_def check_agent_limit_def check_conversation_limit_def
      check_challenge_limit_def get_agent_window_def get_conversation_window_def
      get_challenge_window_def increment_rejections_def reset_rejections_def Let_def
      split: option.split prod.split intro: window_ops)

lemma windows_distinct_check_all:
  "windows_distinct s \<Longrightarrow> windows_distinct (fst (check_all a c ch tg now s))"
  by (simp add: check_all_def split_beta Let_def windows_distinct_checks)

lemma windows_distinct_ops:
  assumes "windows_distinct s"
  shows "windows_distinct (record_message a c now s)" and "windows_distinct (record_challenge a b now s)"
    and "windows_distinct (import_state st s)" and "windows_distinct (prune now s)"
    and "windows_distinct (reset_agent a s)" and "windows_distinct (reset_conversation c s)"
    and "windows_distinct (reset s)" and "windows_distinct (update_config u s)"
    and "windows_distinct (update_challenge_overrides ovs s)"
  using assms
  by (simp_all add: windows_distinct_def record_message_def record_challenge_def import_state_def
      prune_def reset_agent_def reset_conversation_def reset_def update_config_def
      update_challenge_overrides_def Let_def window_ops)

lemma windows_distinct_new: "windows_distinct (new_rate_limiter cfg ovs)"
  by (simp add: windows_distinct_def new_rate_limiter_def)

text \<open>
  importing an exported state into a fresh limiter with the same settings restores every
  window: every check of the restored limiter decides as the check of the original does. Only the
  consecutive-rejection counts, which are not exported, start again.
\<close>

theorem export_import_round_trip:
  assumes "windows_distinct s"
  shows "let s' = import_state (export_state s) (new_rate_limiter (config s) (challenge_overrides s)) in
    rl_allowed (snd (check_all a c is_ch target now s')) = rl_allowed (snd (check_all a c is_ch target now s)) \<and>
    snd (check_conversation_limit c now s') = snd (check_conversation_limit c now s) \<and>
    snd (check_challenge_limit a b now s') = snd (check_challenge_limit a b now s) \<and>
    rejection_counts s' = []"
proof -
  let ?s' = "import_state (export_state s) (new_rate_limiter (config s) (challenge_overrides s))"
  have w: "window_of k (agent_windows ?s') = window_of k (agent_windows s)"
    "window_of k (conversation_windows ?s') = window_of k (conversation_windows s)"
    "window_of k (challenge_windows ?s') = window_of k (challenge_windows s)" for k
    using assms import_export
    by (simp_all add: windows_distinct_def import_state_def export_state_def new_rate_limiter_def)
  have c: "config ?s' = config s" "challenge_overrides ?s' = challenge_overrides s"
    "rejection_counts ?s' = []"
    by (simp_all add: import_state_def new_rate_limiter_def)
  have ch: "snd (check_challenge_limit a d now ?s') = snd (check_challenge_limit a d now s)" for d
    by (rule check_challenge_cong) (simp_all add: w c)
  have cv: "snd (check_conversation_limit c now ?s') = snd (check_conversation_limit c now s)"
    by (simp add: check_conversation_limit_def get_conversation_window_def Let_def w c)
  show ?thesis
    unfolding Let_def
    by (simp add: ch cv c check_all_allowed check_agent_allowed w)
qed

theorem export_import_round_trip_witness:
  "snd (check_challenge_limit ''sentinel'' ''atlas'' 2000
     (import_state (export_state example_limiter)
        (new_rate_limiter (config example_limiter) (challenge_overrides example_limiter))))
   = snd (check_challenge_limit ''sentinel'' ''atlas'' 2000 example_limiter)"
proof -
  have "windows_distinct example_limiter"
    unfolding example_limiter_def by (intro windows_distinct_ops windows_distinct_new)
  from export_import_round_trip [OF this] show ?thesis by (simp add: Let_def)
qed

lemma pair_key_comm: "pair_key a b = pair_key b a"
  by (auto simp: pair_key_def)

lemma find_override_comm: "find_override a b ovs = find_override b a ovs"
  unfolding find_override_def by (rule find_cong_pred) auto

text \<open>
  challenge limits belong to the unordered pair: both orders give the same answer, and a
  challenge that was recorded by either agent blocks the next one by either of them until the
  cooldown of the pair is over, with the remaining time as the retry delay.
\<close>

theorem challenge_cooldown_is_symmetric:
  assumes "t \<noteq> 0" and "now - t < snd (challenge_limits a b s)"
  shows "let r = snd (check_challenge_limit b a now (record_challenge a b t s)) in
    \<not> cr_allowed r \<and> cr_limit_type r = Some Challenge_cooldown \<and>
    cr_retry_after_ms r = Some (snd (challenge_limits a b s) - (now - t)) \<and>
    r = snd (check_challenge_limit a b now (record_challenge b a t s))"
proof -
  have l: "challenge_limits b a s' = challenge_limits a b s'" for s'
    by (simp add: challenge_limits_def find_override_comm)
  have lr: "challenge_limits a b (record_challenge x y t s) = challenge_limits a b s" for x y
    by (simp add: record_challenge_def)
  have swap: "record_challenge b a t s = record_challenge a b t s"
    by (simp add: record_challenge_def pair_key_comm)
  obtain mx cd where m: "challenge_limits a b s = (mx, cd)" by fastforce
  show ?thesis
    using assms m unfolding swap Let_def
    by (simp add: check_challenge_limit_def get_challenge_window_def Let_def l lr pair_key_comm [of b a]
        record_challenge_def sw_latest_def)
qed

theorem challenge_cooldown_is_symmetric_witness:
  "cr_retry_after_ms (snd (check_challenge_limit ''atlas'' ''sentinel'' 5000
     (record_challenge ''sentinel'' ''atlas'' 1000
        (new_rate_limiter default_config default_challenge_overrides)))) = Some 896000"
proof -
  let ?s = "new_rate_limiter default_config default_challenge_overrides"
  have "challenge_limits ''sentinel'' ''atlas'' ?s = (3, 900000)" by code_simp
  moreover from this have "cr_retry_after_ms (snd (check_challenge_limit ''atlas'' ''sentinel'' 5000
      (record_challenge ''sentinel'' ''atlas'' 1000 ?s)))
    = Some (snd (challenge_limits ''sentinel'' ''atlas'' ?s) - (5000 - 1000))"
    using challenge_cooldown_is_symmetric [of 1000 5000 "''sentinel''" "''atlas''" ?s]
    unfolding Let_def by fastforce
  ultimately show ?thesis by simp
qed

lemma backoff_lower: "1000 \<le> b \<Longrightarrow> 1000 \<le> compute_backoff a b s"
proof -
  assume b: "1000 \<le> b"
  have "1000 * 1 \<le> b * 2 ^ n" for n :: nat
    using b by (intro mult_mono) auto
  moreover have "1000 * 1 \<le> b * (1 + int n)" for n
    using b by (intro mult_mono) auto
  ultimately show ?thesis
    using b by (simp add: compute_backoff_def Let_def split: backoff_strategy.split)
qed

lemma backoff_upper: "backoff (config s) = Exponential \<Longrightarrow> compute_backoff a b s \<le> 300000"
  by (simp add: compute_backoff_def)

lemma increment_rejections_config [simp]: "config (increment_rejections a s) = config s"
  by (simp add: increment_rejections_def)

lemma agent_retry_bounds:
  assumes "\<not> rl_allowed (snd (check_agent_limit a now s))"
  shows "\<exists>r \<ge> 1000. rl_retry_after_ms (snd (check_agent_limit a now s)) = Some r \<and>
    (backoff (config s) = Exponential \<longrightarrow> r \<le> 300000)"
  using assms
  by (auto simp: check_agent_limit_def get_agent_window_def Let_def
      intro!: backoff_lower backoff_upper split: if_splits)

lemma conversation_retry_bounds:
  assumes "\<not> rl_allowed (snd (check_conversation_limit c now s))"
  shows "\<exists>r \<ge> 1000. rl_retry_after_ms (snd (check_conversation_limit c now s)) = Some r"
  using assms
  by (auto simp: check_conversation_limit_def get_conversation_window_def Let_def split: if_splits)

lemma challenge_retry_bounds:
  assumes "\<not> cr_allowed (snd (check_challenge_limit a b now s))"
  shows "\<exists>r > 0. cr_retry_after_ms (snd (check_challenge_limit a b now s)) = Some r"
  using assms
  by (auto simp: check_challenge_limit_def get_challenge_window_def Let_def num_or_def
      split: option.splits prod.splits if_splits)

text \<open>
  every rejection says how long to wait, at least a second for an agent or conversation limit
  and a positive time for a challenge; with the exponential backoff an agent never waits more than
  five minutes.
\<close>

theorem rejections_say_when_to_retry:
  assumes "\<not> rl_allowed (snd (check_all a c is_ch target now s))"
  shows "\<exists>r > 0. rl_retry_after_ms (snd (check_all a c is_ch target now s)) = Some r \<and>
    (rl_limit_type (snd (check_all a c is_ch target now s))
       \<notin> {Some Challenge_per_hour, Some Challenge_cooldown} \<longrightarrow> 1000 \<le> r) \<and>
    (backoff (config s) = Exponential \<and> \<not> rl_allowed (snd (check_agent_limit a now s)) \<longrightarrow> r \<le> 300000)"
proof -
  let ?s1 = "fst (check_agent_limit a now s)"
  let ?s2 = "fst (check_conversation_limit c now ?s1)"
  let ?b = "str_or_empty target"
  have ch_type: "\<not> cr_allowed (snd (check_challenge_limit a ?b now ?s2)) \<Longrightarrow>
    cr_limit_type (snd (check_challenge_limit a ?b now ?s2)) \<in> {Some Challenge_per_hour, Some Challenge_cooldown}"
    by (auto simp: check_challenge_limit_def get_challenge_window_def Let_def
        split: option.splits prod.splits if_splits)
  consider (agent) "\<not> rl_allowed (snd (check_agent_limit a now s))"
    | (conv) "rl_allowed (snd (check_agent_limit a now s))"
        "\<not> rl_allowed (snd (check_conversation_limit c now ?s1))"
    | (chal) "rl_allowed (snd (check_agent_limit a now s))"
        "rl_allowed (snd (check_conversation_limit c now ?s1))"
        "is_ch \<and> truthy_str target" "\<not> cr_allowed (snd (check_challenge_limit a ?b now ?s2))"
    using assms by (auto simp: check_all_def split_beta Let_def split: if_splits)
  then show ?thesis
  proof cases
    case agent
    then have "check_all a c is_ch target now s = check_agent_limit a now s"
      by (simp add: check_all_def split_beta)
    with agent_retry_bounds [OF agent] show ?thesis by auto
  next
    case conv
    then have "check_all a c is_ch target now s = check_conversation_limit c now ?s1"
      by (simp add: check_all_def split_beta Let_def)
    with conversation_retry_bounds [OF conv(2)] conv(1) show ?thesis by auto
  next
    case chal
    with challenge_retry_bounds [OF chal(4)] ch_type [OF chal(4)] show ?thesis
      by (auto simp: check_all_def split_beta Let_def)
  qed
qed

theorem rejections_say_when_to_retry_witness:
  "\<exists>r > 0. rl_retry_after_ms (snd (check_all ''atlas'' ''c1'' True (Some ''sentinel'') 2000 example_limiter)) = Some r"
proof -
  have "\<not> rl_allowed (snd (check_all ''atlas'' ''c1'' True (Some ''sentinel'') 2000 example_limiter))"
    by code_simp
  from rejections_say_when_to_retry [OF this] show ?thesis by blast
qed

text \<open>
  the combined check does not report the agent's usage: once the agent check has passed, the
  conversation's zero counts replace the agent counts and limits in the merged usage.
\<close>

theorem combined_check_loses_agent_usage:
  assumes "rl_allowed (snd (check_agent_limit a now s))"
  shows "u_agent_minute (rl_usage (snd (check_all a c is_ch target now s))) = 0 \<and>
    u_agent_hour (rl_usage (snd (check_all a c is_ch target now s))) = 0 \<and>
    l_agent_per_minute (rl_limits (snd (check_all a c is_ch target now s))) = 0 \<and>
    l_agent_per_hour (rl_limits (snd (check_all a c is_ch target now s))) = 0"
  using assms
  by (simp add: check_all_def split_beta Let_def merge_usage_def merge_limits_def
      check_conversation_limit_def conversation_usage_def conversation_limits_def)

theorem combined_check_loses_agent_usage_witness:
  "u_agent_minute (rl_usage (snd (check_agent_limit ''atlas'' 2000 example_limiter))) = 1 \<and>
   u_agent_minute (rl_usage (snd (check_all ''atlas'' ''c1'' False None 2000 example_limiter))) = 0"
proof
  show "u_agent_minute (rl_usage (snd (check_agent_limit ''atlas'' 2000 example_limiter))) = 1"
    by code_simp
  have "rl_allowed (snd (check_agent_limit ''atlas'' 2000 example_limiter))" by code_simp
  from combined_check_loses_agent_usage [OF this]
  show "u_agent_minute (rl_usage (snd (check_all ''atlas'' ''c1'' False None 2000 example_limiter))) = 0"
    by blast
qed

end
