(* ===== verification/Hitl.thy ===== *)
theory Hitl
  imports Rate_Limiter
begin

text \<open>
  \<open>lib/hitl.ts\<close>: the human-in-the-loop engine. Checks of a message and of a conversation's state
  match triggers; the result carries the most severe action and urgency of the matched triggers;
  every matched trigger of a combined check becomes an alert with a small life cycle.
  Scores and ratios are exact rationals; the text of a reason is kept as its template and data.
\<close>

section \<open>Types and constants\<close>

datatype hitl_action = Continue | Notify | Pause | Require_approval
datatype hitl_urgency = Low | Medium | High | Critical
datatype hitl_category = Security | Safety | Quality | Operational | Policy

record hitl_trigger =
  tr_id :: string
  tr_description :: string
  tr_action :: hitl_action
  tr_urgency :: hitl_urgency
  tr_enabled :: bool
  tr_category :: hitl_category

text \<open>The templates of \<open>reason\<close>, with the values they show.\<close>

datatype reason =
    InjectionOverApproval rat rat
  | InjectionOverNotify rat rat
  | ConsecutiveChallenges int int
  | LowAffinityChallenge "string \<times> string" rat rat
  | TokenBudget rat int int
  | MaxInjection rat
  | InfrastructureBan "string list"
  | HeuristicBan "string list"
  | VoiceRulesViolation "string list"
  | RateLimitHit string "limit_type option" usage

type_synonym matched = "(hitl_trigger \<times> reason) list"

record hitl_check_result =
  hc_action :: hitl_action
  hc_matched :: matched
  hc_triggered :: bool
  hc_urgency :: hitl_urgency

datatype alert_status = Pending | Acknowledged | Approved | Rejected | Expired

text \<open>\<open>hitl_${counter}_${Date.now()}\<close>.\<close>

datatype alert_id = HitlId nat int

record hitl_context =
  cx_conversation :: "string option"
  cx_agent :: "string option"
  cx_injection :: "rat option"

record hitl_alert =
  al_id :: alert_id
  al_timestamp :: int
  al_trigger :: hitl_trigger
  al_reason :: reason
  al_context :: hitl_context
  al_status :: alert_status

record conversation_signals =
  cs_conversation_id :: string
  cs_challenge_count :: int
  cs_consecutive_challenges :: int
  cs_lowest_affinity :: rat
  cs_lowest_pair :: "string \<times> string"
  cs_token_budget :: int
  cs_tokens_used :: int
  cs_injection_scores :: "rat list"

record hitl_config =
  injection_notify_threshold :: rat
  injection_approval_threshold :: rat
  low_affinity_threshold :: rat
  consecutive_challenge_limit :: int
  token_budget_warning_ratio :: rat
  token_budget_pause_ratio :: rat
  alert_expiry_ms :: int

fun action_severity :: "hitl_action \<Rightarrow> nat" where
  "action_severity Continue = 0"
| "action_severity Notify = 1"
| "action_severity Pause = 2"
| "action_severity Require_approval = 3"

fun urgency_severity :: "hitl_urgency \<Rightarrow> nat" where
  "urgency_severity Low = 0"
| "urgency_severity Medium = 1"
| "urgency_severity High = 2"
| "urgency_severity Critical = 3"

definition default_hitl_config :: hitl_config where
  "default_hitl_config = \<lparr>injection_notify_threshold = 3 / 10, injection_approval_threshold = 7 / 10,
     low_affinity_threshold = 3 / 10, consecutive_challenge_limit = 3,
     token_budget_warning_ratio = 8 / 10, token_budget_pause_ratio = 95 / 100,
     alert_expiry_ms = 60 * 60 * 1000\<rparr>"

definition trigger :: "string \<Rightarrow> string \<Rightarrow> hitl_action \<Rightarrow> hitl_urgency \<Rightarrow> hitl_category \<Rightarrow> hitl_trigger" where
  "trigger i d a u c = \<lparr>tr_id = i, tr_description = d, tr_action = a, tr_urgency = u,
     tr_enabled = True, tr_category = c\<rparr>"

definition builtin_triggers :: "hitl_trigger list" where
  "builtin_triggers =
    [trigger ''injection_notify'' ''Moderate prompt injection score detected'' Notify Medium Security,
     trigger ''injection_block'' ''High prompt injection score -- likely injection attempt'' Require_approval Critical Security,
     trigger ''low_affinity_challenge'' ''Challenge between low-affinity agents'' Notify Medium Safety,
     trigger ''consecutive_challenges'' ''Too many consecutive challenges -- possible escalation spiral'' Pause High Safety,
     trigger ''rate_limit_exhaustion'' ''Agent hit rate limits multiple times'' Notify Medium Operational,
     trigger ''token_budget_warning'' ''Conversation approaching token budget limit'' Notify Low Operational,
     trigger ''token_budget_exhaustion'' ''Conversation nearly out of token budget'' Pause High Operational,
     trigger ''policy_violation_block'' ''Role card infrastructure ban violated'' Require_approval Critical Policy,
     trigger ''policy_violation_warn'' ''Role card heuristic ban triggered'' Notify Medium Policy,
     trigger ''voice_rule_violation'' ''Voice RULES blocking violation detected'' Notify Low Quality,
     trigger ''multi_agent_anomaly'' ''Unusual pattern detected across multiple agents'' Pause High Security]"

text \<open>
  The engine. Alert handlers are callbacks of the caller: the model keeps how many are registered
  and logs each call, whose outcome (a thrown error included) has no effect on the engine.
\<close>

record hitl_engine =
  hconfig :: hitl_config
  triggers :: "hitl_trigger list"
  alerts :: "(alert_id, hitl_alert) jsmap"
  alert_handlers :: nat
  alert_counter :: nat

definition new_hitl_engine :: "hitl_config \<Rightarrow> hitl_trigger list option \<Rightarrow> hitl_engine" where
  "new_hitl_engine cfg custom = \<lparr>hconfig = cfg, triggers = nullish custom builtin_triggers,
     alerts = [], alert_handlers = 0, alert_counter = 0\<rparr>"

section \<open>Triggers, handlers and alerts\<close>

definition add_trigger :: "hitl_trigger \<Rightarrow> hitl_engine \<Rightarrow> hitl_engine" where
  "add_trigger t e = e\<lparr>triggers := filter (\<lambda>t'. tr_id t' \<noteq> tr_id t) (triggers e) @ [t]\<rparr>"

text \<open>Assignment through \<open>find\<close>: the first trigger with the id is changed.\<close>

fun set_first_enabled :: "string \<Rightarrow> bool \<Rightarrow> hitl_trigger list \<Rightarrow> hitl_trigger list" where
  "set_first_enabled i b [] = []"
| "set_first_enabled i b (t # ts) =
     (if tr_id t = i then t\<lparr>tr_enabled := b\<rparr> # ts else t # set_first_enabled i b ts)"

definition set_trigger_enabled :: "string \<Rightarrow> bool \<Rightarrow> hitl_engine \<Rightarrow> hitl_engine" where
  "set_trigger_enabled i b e = e\<lparr>triggers := set_first_enabled i b (triggers e)\<rparr>"

definition on_alert :: "hitl_engine \<Rightarrow> hitl_engine" where
  "on_alert e = e\<lparr>alert_handlers := alert_handlers e + 1\<rparr>"

definition get_pending_alerts :: "hitl_engine \<Rightarrow> hitl_alert list" where
  "get_pending_alerts e = filter (\<lambda>a. al_status a = Pending) (js_values (alerts e))"

definition set_status :: "alert_id \<Rightarrow> alert_status \<Rightarrow> hitl_alert \<Rightarrow> hitl_engine \<Rightarrow> hitl_engine" where
  "set_status i st a e = e\<lparr>alerts := js_set i (a\<lparr>al_status := st\<rparr>) (alerts e)\<rparr>"

definition acknowledge_alert :: "alert_id \<Rightarrow> hitl_engine \<Rightarrow> hitl_engine \<times> bool" where
  "acknowledge_alert i e =
     (case js_get (alerts e) i of
        None \<Rightarrow> (e, False)
      | Some a \<Rightarrow> if al_status a \<noteq> Pending then (e, False) else (set_status i Acknowledged a e, True))"

definition approve_alert :: "alert_id \<Rightarrow> hitl_engine \<Rightarrow> hitl_engine \<times> bool" where
  "approve_alert i e =
     (case js_get (alerts e) i of
        None \<Rightarrow> (e, False)
      | Some a \<Rightarrow> if al_status a \<noteq> Pending \<and> al_status a \<noteq> Acknowledged then (e, False)
                  else (set_status i Approved a e, True))"

definition reject_alert :: "alert_id \<Rightarrow> hitl_engine \<Rightarrow> hitl_engine \<times> bool" where
  "reject_alert i e =
     (case js_get (alerts e) i of
        None \<Rightarrow> (e, False)
      | Some a \<Rightarrow> if al_status a \<noteq> Pending \<and> al_status a \<noteq> Acknowledged then (e, False)
                  else (set_status i Rejected a e, True))"

definition is_due :: "int \<Rightarrow> hitl_engine \<Rightarrow> hitl_alert \<Rightarrow> bool" where
  "is_due now e a \<longleftrightarrow> al_status a = Pending \<and> now - al_timestamp a > alert_expiry_ms (hconfig e)"

definition expire_alerts :: "int \<Rightarrow> hitl_engine \<Rightarrow> hitl_engine \<times> nat" where
  "expire_alerts now e =
     (e\<lparr>alerts := map (\<lambda>(i, a). (i, if is_due now e a then a\<lparr>al_status := Expired\<rparr> else a)) (alerts e)\<rparr>,
      length (filter (is_due now e) (js_values (alerts e))))"

definition get_alert :: "alert_id \<Rightarrow> hitl_engine \<Rightarrow> hitl_alert option" where
  "get_alert i e = js_get (alerts e) i"

record hitl_config_updates =
  hu_injection_notify :: "rat field"
  hu_injection_approval :: "rat field"
  hu_low_affinity :: "rat field"
  hu_consecutive_challenges :: "int field"
  hu_budget_warning :: "rat field"
  hu_budget_pause :: "rat field"
  hu_alert_expiry_ms :: "int field"

definition update_hitl_config :: "hitl_config_updates \<Rightarrow> hitl_engine \<Rightarrow> hitl_engine" where
  "update_hitl_config u e =
     (let c = hconfig e
      in e\<lparr>hconfig :=
        \<lparr>injection_notify_threshold = spread (injection_notify_threshold c) (hu_injection_notify u),
         injection_approval_threshold = spread (injection_approval_threshold c) (hu_injection_approval u),
         low_affinity_threshold = spread (low_affinity_threshold c) (hu_low_affinity u),
         consecutive_challenge_limit = spread (consecutive_challenge_limit c) (hu_consecutive_challenges u),
         token_budget_warning_ratio = spread (token_budget_warning_ratio c) (hu_budget_warning u),
         token_budget_pause_ratio = spread (token_budget_pause_ratio c) (hu_budget_pause u),
         alert_expiry_ms = spread (alert_expiry_ms c) (hu_alert_expiry_ms u)\<rparr>\<rparr>)"

definition reset_alerts :: "hitl_engine \<Rightarrow> hitl_engine" where
  "reset_alerts e = e\<lparr>alerts := [], alert_counter := 0\<rparr>"

section \<open>Checks\<close>

text \<open>\<open>this.triggers.find(t => t.id === id && t.enabled)\<close>, pushed with a reason when found.\<close>

definition fire :: "hitl_engine \<Rightarrow> string \<Rightarrow> reason \<Rightarrow> matched" where
  "fire e i r = (case List.find (\<lambda>t. tr_id t = i \<and> tr_enabled t) (triggers e) of
                   None \<Rightarrow> [] | Some t \<Rightarrow> [(t, r)])"

definition worse_action :: "hitl_action \<Rightarrow> hitl_action \<Rightarrow> hitl_action" where
  "worse_action acc a = (if action_severity a > action_severity acc then a else acc)"

definition worse_urgency :: "hitl_urgency \<Rightarrow> hitl_urgency \<Rightarrow> hitl_urgency" where
  "worse_urgency acc u = (if urgency_severity u > urgency_severity acc then u else acc)"

definition build_result :: "matched \<Rightarrow> hitl_check_result" where
  "build_result m =
     (if m = [] then \<lparr>hc_action = Continue, hc_matched = [], hc_triggered = False, hc_urgency = Low\<rparr>
      else \<lparr>hc_action = foldl worse_action Continue (map (\<lambda>(t, r). tr_action t) m),
            hc_matched = m, hc_triggered = True,
            hc_urgency = foldl worse_urgency Low (map (\<lambda>(t, r). tr_urgency t) m)\<rparr>)"

definition check_injection_score :: "rat \<Rightarrow> hitl_engine \<Rightarrow> hitl_check_result" where
  "check_injection_score score e =
     build_result
       (if score \<ge> injection_approval_threshold (hconfig e) then
          fire e ''injection_block'' (InjectionOverApproval score (injection_approval_threshold (hconfig e)))
        else if score \<ge> injection_notify_threshold (hconfig e) then
          fire e ''injection_notify'' (InjectionOverNotify score (injection_notify_threshold (hconfig e)))
        else [])"

text \<open>\<open>Math.max(0, ...scores)\<close>.\<close>

definition max_score :: "rat list \<Rightarrow> rat" where
  "max_score xs = foldl max 0 xs"

definition check_conversation_state :: "conversation_signals \<Rightarrow> hitl_engine \<Rightarrow> hitl_check_result" where
  "check_conversation_state st e =
     (let c = hconfig e;
          challenges =
            (if cs_consecutive_challenges st \<ge> consecutive_challenge_limit c
             then fire e ''consecutive_challenges''
                    (ConsecutiveChallenges (cs_consecutive_challenges st) (consecutive_challenge_limit c))
             else []);
          affinity =
            (if cs_lowest_affinity st < low_affinity_threshold c \<and> cs_challenge_count st > 0
             then fire e ''low_affinity_challenge''
                    (LowAffinityChallenge (cs_lowest_pair st) (cs_lowest_affinity st) (low_affinity_threshold c))
             else []);
          budget =
            (if cs_token_budget st > 0 then
               (let ratio = of_int (cs_tokens_used st) / of_int (cs_token_budget st);
                    why = TokenBudget (ratio * 100) (cs_tokens_used st) (cs_token_budget st)
                in if ratio \<ge> token_budget_pause_ratio c then fire e ''token_budget_exhaustion'' why
                   else if ratio \<ge> token_budget_warning_ratio c then fire e ''token_budget_warning'' why
                   else [])
             else []);
          top = max_score (cs_injection_scores st);
          injection =
            (if top \<ge> injection_approval_threshold c then fire e ''injection_block'' (MaxInjection top) else [])
      in build_result (challenges @ affinity @ budget @ injection))"

record policy_violation =
  pv_tier :: string
  pv_rule :: string
  pv_severity :: string

definition check_policy_violations :: "policy_violation list \<Rightarrow> hitl_engine \<Rightarrow> hitl_check_result" where
  "check_policy_violations vs e =
     (let infra = filter (\<lambda>v. pv_tier v = ''infrastructure'') vs;
          heur = filter (\<lambda>v. pv_tier v = ''heuristic'') vs
      in build_result
           ((if infra \<noteq> [] then fire e ''policy_violation_block'' (InfrastructureBan (map pv_rule infra)) else []) @
            (if heur \<noteq> [] then fire e ''policy_violation_warn'' (HeuristicBan (map pv_rule heur)) else [])))"

record voice_violation =
  vv_rule :: string
  vv_severity :: string

definition check_voice_rule_violations :: "voice_violation list \<Rightarrow> hitl_engine \<Rightarrow> hitl_check_result" where
  "check_voice_rule_violations vs e =
     (let blocking = filter (\<lambda>v. vv_severity v = ''block'') vs
      in build_result
           (if blocking \<noteq> [] then fire e ''voice_rule_violation'' (VoiceRulesViolation (map vv_rule blocking))
            else []))"

definition check_rate_limit_result :: "rate_limit_result \<Rightarrow> string \<Rightarrow> hitl_engine \<Rightarrow> hitl_check_result" where
  "check_rate_limit_result r agent e =
     build_result
       (if \<not> rl_allowed r then fire e ''rate_limit_exhaustion'' (RateLimitHit agent (rl_limit_type r) (rl_usage r))
        else [])"

text \<open>
  \<open>fireAlerts\<close>: the clock is read twice per alert, for the id and for the time stamp; the second
  component logs the calls of the registered handlers.
\<close>

definition fire_one ::
  "(nat \<Rightarrow> int \<times> int) \<Rightarrow> hitl_context \<Rightarrow> hitl_trigger \<times> reason \<Rightarrow> hitl_engine \<times> (nat \<times> hitl_alert) list
   \<Rightarrow> hitl_engine \<times> (nat \<times> hitl_alert) list" where
  "fire_one clock cx m acc =
     (let (e, calls) = acc;
          n = alert_counter e + 1;
          a = \<lparr>al_id = HitlId n (fst (clock n)), al_timestamp = snd (clock n), al_trigger = fst m,
               al_reason = snd m, al_context = cx, al_status = Pending\<rparr>
      in (e\<lparr>alert_counter := n, alerts := js_set (al_id a) a (alerts e)\<rparr>,
          calls @ map (\<lambda>h. (h, a)) [0..<alert_handlers e]))"

definition fire_alerts ::
  "(nat \<Rightarrow> int \<times> int) \<Rightarrow> matched \<Rightarrow> hitl_context \<Rightarrow> hitl_engine \<Rightarrow> hitl_engine \<times> (nat \<times> hitl_alert) list" where
  "fire_alerts clock m cx e = fold (fire_one clock cx) m (e, [])"

record message_check =
  mc_agent :: string
  mc_signals :: conversation_signals
  mc_injection :: rat
  mc_policy :: "policy_violation list option"
  mc_voice :: "voice_violation list option"
  mc_rate :: "rate_limit_result option"
  mc_context :: "hitl_context option"

definition matched_of_message :: "message_check \<Rightarrow> hitl_engine \<Rightarrow> matched" where
  "matched_of_message p e =
     hc_matched (check_injection_score (mc_injection p) e) @
     hc_matched (check_conversation_state (mc_signals p) e) @
     (case mc_policy p of None \<Rightarrow> [] | Some vs \<Rightarrow>
        if vs = [] then [] else hc_matched (check_policy_violations vs e)) @
     (case mc_voice p of None \<Rightarrow> [] | Some vs \<Rightarrow>
        if vs = [] then [] else hc_matched (check_voice_rule_violations vs e)) @
     (case mc_rate p of None \<Rightarrow> [] | Some r \<Rightarrow> hc_matched (check_rate_limit_result r (mc_agent p) e))"

definition message_context :: "message_check \<Rightarrow> hitl_context" where
  "message_context p = nullish (mc_context p)
     \<lparr>cx_conversation = Some (cs_conversation_id (mc_signals p)), cx_agent = Some (mc_agent p),
      cx_injection = Some (mc_injection p)\<rparr>"

definition check_message ::
  "(nat \<Rightarrow> int \<times> int) \<Rightarrow> message_check \<Rightarrow> hitl_engine
   \<Rightarrow> hitl_engine \<times> (nat \<times> hitl_alert) list \<times> hitl_check_result" where
  "check_message clock p e =
     (let m = matched_of_message p e;
          result = build_result m
      in if hc_triggered result then
           (let (e', calls) = fire_alerts clock m (message_context p) e in (e', calls, result))
         else (e, [], result))"


section \<open>The severity of a result\<close>

interpretation act: severity action_severity worse_action
proof unfold_locales
  show "action_severity a = action_severity b \<Longrightarrow> a = b" for a b by (cases a; cases b) auto
qed (simp add: worse_action_def)

interpretation urg: severity urgency_severity worse_urgency
proof unfold_locales
  show "urgency_severity a = urgency_severity b \<Longrightarrow> a = b" for a b by (cases a; cases b) auto
qed (simp add: worse_urgency_def)

lemma build_result_fields:
  "hc_action (build_result m) = foldl worse_action Continue (map (tr_action \<circ> fst) m)"
  "hc_urgency (build_result m) = foldl worse_urgency Low (map (tr_urgency \<circ> fst) m)"
  "hc_matched (build_result m) = m" "hc_triggered (build_result m) \<longleftrightarrow> m \<noteq> []"
  by (simp_all add: build_result_def case_prod_unfold comp_def)

lemma build_result_append:
  "hc_action (build_result (m @ n)) = worse_action (hc_action (build_result m)) (hc_action (build_result n))"
  by (simp only: build_result_fields map_append act.foldl_append_worse)

lemma fire_matched: "(t, r) \<in> set (fire e i r0) \<Longrightarrow> t \<in> set (triggers e) \<and> tr_id t = i \<and> tr_enabled t \<and> r = r0"
  by (cases "List.find (\<lambda>t. tr_id t = i \<and> tr_enabled t) (triggers e)")
    (auto simp: fire_def dest: find_SomeD)

lemma max_score_ge: "x \<in> set xs \<Longrightarrow> x \<le> max_score xs"
proof -
  have "a \<le> foldl max a ys" for a :: rat and ys
    by (induction ys arbitrary: a) (auto intro: order_trans [OF max.cobounded1])
  moreover have "x \<in> set ys \<Longrightarrow> x \<le> foldl max a ys" for a :: rat and ys
    using calculation
    by (induction ys arbitrary: a) (auto intro: order_trans [OF max.cobounded2])
  ultimately show "x \<in> set xs \<Longrightarrow> x \<le> max_score xs" by (simp add: max_score_def)
qed

lemma matched_enabled:
  "(t, r) \<in> set (matched_of_message p e) \<Longrightarrow> t \<in> set (triggers e) \<and> tr_enabled t"
  by (auto simp: matched_of_message_def check_injection_score_def check_conversation_state_def
      check_policy_violations_def check_voice_rule_violations_def check_rate_limit_result_def
      build_result_fields Let_def dest: fire_matched split: if_splits option.splits)

lemma check_message_result: "snd (snd (check_message clock p e)) = build_result (matched_of_message p e)"
  by (simp add: check_message_def Let_def split: prod.split)

section \<open>Firing alerts\<close>

lemma fire_one_engine:
  "alert_counter (fst (fire_one clock cx m (e, calls))) = alert_counter e + 1"
  "triggers (fst (fire_one clock cx m (e, calls))) = triggers e"
  "hconfig (fst (fire_one clock cx m (e, calls))) = hconfig e"
  "alert_handlers (fst (fire_one clock cx m (e, calls))) = alert_handlers e"
  by (simp_all add: fire_one_def Let_def)

text \<open>Ids are numbered by the counter, and none is beyond it.\<close>

definition alerts_numbered :: "hitl_engine \<Rightarrow> bool" where
  "alerts_numbered e \<longleftrightarrow> distinct (map fst (alerts e)) \<and>
     (\<forall>(i, a) \<in> set (alerts e). al_id a = i \<and> (\<exists>n t. i = HitlId n t \<and> 1 \<le> n \<and> n \<le> alert_counter e))"

lemma fresh_id: "alerts_numbered e \<Longrightarrow> HitlId (Suc (alert_counter e)) t \<notin> fst ` set (alerts e)"
  by (force simp: alerts_numbered_def)

lemma fire_one_alerts:
  assumes "alerts_numbered e"
  shows "alerts (fst (fire_one clock cx m (e, calls))) = alerts e @
    [(HitlId (alert_counter e + 1) (fst (clock (alert_counter e + 1))),
      \<lparr>al_id = HitlId (alert_counter e + 1) (fst (clock (alert_counter e + 1))),
       al_timestamp = snd (clock (alert_counter e + 1)), al_trigger = fst m, al_reason = snd m,
       al_context = cx, al_status = Pending\<rparr>)]"
  using fresh_id [OF assms] by (simp add: fire_one_def Let_def js_set_fresh)

lemma fire_one_numbered: "alerts_numbered e \<Longrightarrow> alerts_numbered (fst (fire_one clock cx m (e, calls)))"
  using fresh_id [of e] by (subst alerts_numbered_def) (force simp: fire_one_alerts fire_one_engine alerts_numbered_def)

definition new_alerts :: "(nat \<Rightarrow> int \<times> int) \<Rightarrow> hitl_context \<Rightarrow> nat \<Rightarrow> matched \<Rightarrow> hitl_alert list" where
  "new_alerts clock cx n m = map (\<lambda>(k, t, r).
     \<lparr>al_id = HitlId k (fst (clock k)), al_timestamp = snd (clock k), al_trigger = t, al_reason = r,
      al_context = cx, al_status = Pending\<rparr>) (zip [n + 1..<n + 1 + length m] m)"

lemma new_alerts_Cons:
  "new_alerts clock cx n ((t, r) # m) =
     \<lparr>al_id = HitlId (n + 1) (fst (clock (n + 1))), al_timestamp = snd (clock (n + 1)), al_trigger = t,
      al_reason = r, al_context = cx, al_status = Pending\<rparr> # new_alerts clock cx (n + 1) m"
  by (simp add: new_alerts_def upt_conv_Cons del: upt_Suc)

lemma fire_fold:
  assumes "alerts_numbered e"
  shows "let (e', calls') = fold (fire_one clock cx) m (e, calls) in
    alerts e' = alerts e @ map (\<lambda>a. (al_id a, a)) (new_alerts clock cx (alert_counter e) m) \<and>
    alert_counter e' = alert_counter e + length m \<and> alerts_numbered e' \<and>
    triggers e' = triggers e \<and> hconfig e' = hconfig e \<and> alert_handlers e' = alert_handlers e \<and>
    calls' = calls @ concat (map (\<lambda>a. map (\<lambda>h. (h, a)) [0..<alert_handlers e]) (new_alerts clock cx (alert_counter e) m))"
  using assms
proof (induction m arbitrary: e calls)
  case Nil
  then show ?case by (simp add: new_alerts_def)
next
  case (Cons x m)
  obtain t r where x: "x = (t, r)" by fastforce
  obtain e1 calls1 where f: "fire_one clock cx x (e, calls) = (e1, calls1)" by fastforce
  have e1: "alerts_numbered e1" using fire_one_numbered [OF Cons.prems, of clock cx x calls] f by simp
  have "alert_counter e1 = alert_counter e + 1" "triggers e1 = triggers e" "hconfig e1 = hconfig e"
    "alert_handlers e1 = alert_handlers e"
    using fire_one_engine [of clock cx x e calls] f by simp_all
  moreover note fire_one_alerts [OF Cons.prems, of clock cx x calls]
  moreover have "calls1 = snd (fire_one clock cx x (e, calls))" by (simp add: f)
  ultimately show ?case
    using Cons.IH [OF e1, of calls1] f x
    by (auto simp: new_alerts_Cons fire_one_def Let_def)
qed

lemmas fire_alerts_spec = fire_fold [where calls = "[]", folded fire_alerts_def]

section \<open>The life cycle of an alert\<close>

inductive alert_step :: "alert_status \<Rightarrow> alert_status \<Rightarrow> bool" where
  acknowledge: "alert_step Pending Acknowledged"
| approve: "st \<in> {Pending, Acknowledged} \<Longrightarrow> alert_step st Approved"
| reject: "st \<in> {Pending, Acknowledged} \<Longrightarrow> alert_step st Rejected"
| expire: "alert_step Pending Expired"

inductive_simps alert_step_iff: "alert_step st st'"

text \<open>The calls that touch alerts, as one operation type; \<open>reset\<close> is left to its own lemma.\<close>

datatype hitl_op = AckOp alert_id | ApproveOp alert_id | RejectOp alert_id | ExpireOp int
  | CheckOp "nat \<Rightarrow> int \<times> int" message_check

fun run_op :: "hitl_op \<Rightarrow> hitl_engine \<Rightarrow> hitl_engine" where
  "run_op (AckOp i) e = fst (acknowledge_alert i e)"
| "run_op (ApproveOp i) e = fst (approve_alert i e)"
| "run_op (RejectOp i) e = fst (reject_alert i e)"
| "run_op (ExpireOp now) e = fst (expire_alerts now e)"
| "run_op (CheckOp clock p) e = fst (check_message clock p e)"

definition status_of :: "alert_id \<Rightarrow> hitl_engine \<Rightarrow> alert_status option" where
  "status_of i e = map_option al_status (get_alert i e)"

lemma numbered_set_status:
  assumes "alerts_numbered e" "js_get (alerts e) i = Some a"
  shows "alerts_numbered (set_status i st a e)"
proof -
  have mem: "(i, a) \<in> set (alerts e)" using assms(2) by (rule js_get_in)
  have "al_id b = k \<and> (\<exists>n t. k = HitlId n t \<and> 1 \<le> n \<and> n \<le> alert_counter e)"
    if "(k, b) \<in> set (js_set i (a\<lparr>al_status := st\<rparr>) (alerts e))" for k b
  proof -
    have "(k, b) = (i, a\<lparr>al_status := st\<rparr>) \<or> (k, b) \<in> set (alerts e)"
      using that set_js_set by fast
    then show ?thesis using assms(1) mem by (auto simp: alerts_numbered_def)
  qed
  then show ?thesis
    using assms(1) by (auto simp: alerts_numbered_def set_status_def distinct_js_set)
qed

lemma numbered_expire: "alerts_numbered e \<Longrightarrow> alerts_numbered (fst (expire_alerts now e))"
  by (auto simp: alerts_numbered_def expire_alerts_def case_prod_unfold comp_def)

lemma numbered_check: "alerts_numbered e \<Longrightarrow> alerts_numbered (fst (check_message clock p e))"
  using fire_alerts_spec [where e = e and clock = clock and cx = "message_context p"
    and m = "matched_of_message p e"]
  by (auto simp: check_message_def Let_def split: prod.splits)

lemma run_op_numbered: "alerts_numbered e \<Longrightarrow> alerts_numbered (run_op x e)"
  by (cases x) (auto simp: acknowledge_alert_def approve_alert_def reject_alert_def numbered_set_status
      numbered_expire numbered_check split: option.split)

lemma check_status:
  assumes "alerts_numbered e" "status_of i e = Some st"
  shows "status_of i (fst (check_message clock p e)) = Some st"
proof -
  have "js_get (xs @ ys) k = (case js_get xs k of None \<Rightarrow> js_get ys k | Some v \<Rightarrow> Some v)"
    for xs ys :: "(alert_id, hitl_alert) jsmap" and k
    by (induction xs) auto
  then show ?thesis
    using assms fire_alerts_spec [where e = e and clock = clock and cx = "message_context p"
    and m = "matched_of_message p e"]
    by (auto simp: check_message_def Let_def status_of_def get_alert_def split: prod.splits option.splits)
qed

lemma run_op_status:
  assumes "alerts_numbered e" "status_of i e = Some st"
  shows "\<exists>st'. status_of i (run_op x e) = Some st' \<and> (st' = st \<or> alert_step st st')"
proof (cases x)
  case (ExpireOp now)
  from assms obtain a where a: "js_get (alerts e) i = Some a" "st = al_status a"
    by (auto simp: status_of_def get_alert_def)
  then have "status_of i (run_op x e) = Some (if is_due now e a then Expired else al_status a)"
    using ExpireOp by (simp add: status_of_def get_alert_def expire_alerts_def)
  then show ?thesis using a by (auto simp: is_due_def alert_step_iff)
next
  case (CheckOp clock p)
  with check_status [OF assms] show ?thesis by simp
qed (use assms in \<open>auto simp: status_of_def get_alert_def acknowledge_alert_def approve_alert_def
      reject_alert_def set_status_def alert_step_iff split: option.splits\<close>)

lemma run_ops_status:
  assumes "alerts_numbered e" "status_of i e = Some st"
  shows "\<exists>st'. status_of i (fold run_op xs e) = Some st' \<and> alert_step\<^sup>*\<^sup>* st st'"
  using assms
proof (induction xs arbitrary: e st)
  case (Cons x xs)
  from run_op_status [OF Cons.prems, of x] obtain st1
    where st1: "status_of i (run_op x e) = Some st1" "st1 = st \<or> alert_step st st1" by blast
  from Cons.IH [OF run_op_numbered [OF Cons.prems(1)] st1(1)] obtain st2
    where "status_of i (fold run_op xs (run_op x e)) = Some st2" "alert_step\<^sup>*\<^sup>* st1 st2" by blast
  with st1(2) show ?case by (auto intro: converse_rtranclp_into_rtranclp)
qed simp

lemma alert_step_final: "alert_step\<^sup>*\<^sup>* st st' \<Longrightarrow> st \<in> {Approved, Rejected, Expired} \<Longrightarrow> st' = st"
  by (induction rule: converse_rtranclp_induct) (auto simp: alert_step_iff)


section \<open>Properties\<close>

definition optional_check :: "('a \<Rightarrow> hitl_check_result) \<Rightarrow> 'a option \<Rightarrow> hitl_action" where
  "optional_check f x = (case x of None \<Rightarrow> Continue | Some v \<Rightarrow> hc_action (f v))"

lemma worse_Continue [simp]: "worse_action Continue a = a" "worse_action a Continue = a"
  by (cases a; simp add: worse_action_def)+

lemma action_Nil [simp]: "hc_action (build_result []) = Continue"
  by (simp add: build_result_def)

lemma build_result_hc_matched:
  "build_result (hc_matched (check_injection_score x e)) = check_injection_score x e"
  "build_result (hc_matched (check_conversation_state st e)) = check_conversation_state st e"
  "build_result (hc_matched (check_policy_violations vs e)) = check_policy_violations vs e"
  "build_result (hc_matched (check_voice_rule_violations ws e)) = check_voice_rule_violations ws e"
  "build_result (hc_matched (check_rate_limit_result r a e)) = check_rate_limit_result r a e"
  by (simp_all only: check_injection_score_def check_conversation_state_def check_policy_violations_def
      check_voice_rule_violations_def check_rate_limit_result_def Let_def build_result_fields)

lemma empty_violations:
  "hc_action (check_policy_violations [] e) = Continue"
  "hc_action (check_voice_rule_violations [] e) = Continue"
  by (simp_all add: check_policy_violations_def check_voice_rule_violations_def)

definition example_engine :: hitl_engine where
  "example_engine = on_alert (new_hitl_engine default_hitl_config None)"

definition example_message :: message_check where
  "example_message = \<lparr>mc_agent = ''synth'',
     mc_signals = \<lparr>cs_conversation_id = ''c1'', cs_challenge_count = 1, cs_consecutive_challenges = 3,
       cs_lowest_affinity = 1 / 2, cs_lowest_pair = (''synth'', ''oracle''), cs_token_budget = 100,
       cs_tokens_used = 10, cs_injection_scores = []\<rparr>,
     mc_injection = 8 / 10, mc_policy = None, mc_voice = None, mc_rate = None, mc_context = None\<rparr>"

text \<open>
  the combined check of a message takes the worst action of its five parts (a part that was
  not asked for counts as continue); its action and urgency are at least those of every fired
  trigger, only enabled triggers fire, and it is triggered exactly when one fired.
\<close>

theorem message_check_takes_the_worst:
  "let r = snd (snd (check_message clock p e)) in
   hc_action r = foldl worse_action Continue
     [hc_action (check_injection_score (mc_injection p) e),
      hc_action (check_conversation_state (mc_signals p) e),
      optional_check (\<lambda>vs. check_policy_violations vs e) (mc_policy p),
      optional_check (\<lambda>vs. check_voice_rule_violations vs e) (mc_voice p),
      optional_check (\<lambda>x. check_rate_limit_result x (mc_agent p) e) (mc_rate p)] \<and>
   (hc_triggered r \<longleftrightarrow> hc_matched r \<noteq> []) \<and>
   (\<forall>(t, why) \<in> set (hc_matched r). t \<in> set (triggers e) \<and> tr_enabled t \<and>
      action_severity (tr_action t) \<le> action_severity (hc_action r) \<and>
      urgency_severity (tr_urgency t) \<le> urgency_severity (hc_urgency r))"
proof -
  let ?m = "matched_of_message p e"
  let ?r = "build_result ?m"
  have parts: "hc_action ?r = foldl worse_action Continue
     [hc_action (check_injection_score (mc_injection p) e),
      hc_action (check_conversation_state (mc_signals p) e),
      optional_check (\<lambda>vs. check_policy_violations vs e) (mc_policy p),
      optional_check (\<lambda>vs. check_voice_rule_violations vs e) (mc_voice p),
      optional_check (\<lambda>x. check_rate_limit_result x (mc_agent p) e) (mc_rate p)]"
    by (auto simp: matched_of_message_def build_result_append build_result_hc_matched optional_check_def
        act.worse_assoc empty_violations split: option.split)
  have worst: "action_severity (tr_action t) \<le> action_severity (hc_action ?r) \<and>
      urgency_severity (tr_urgency t) \<le> urgency_severity (hc_urgency ?r)" if "(t, why) \<in> set ?m" for t why
  proof -
    have "tr_action t \<in> set (map (tr_action \<circ> fst) ?m)" "tr_urgency t \<in> set (map (tr_urgency \<circ> fst) ?m)"
      using that by force+
    then show ?thesis
      unfolding build_result_fields by (blast intro: act.foldl_upper urg.foldl_upper)
  qed
  show ?thesis
    unfolding Let_def check_message_result
    using parts worst matched_enabled [of _ _ p e] by (auto simp: build_result_fields)
qed

theorem message_check_takes_the_worst_witness:
  "hc_action (snd (snd (check_message (\<lambda>n. (5, 5)) example_message example_engine))) = Require_approval \<and>
   hc_triggered (snd (snd (check_message (\<lambda>n. (5, 5)) example_message example_engine)))"
proof -
  have "hc_action (check_injection_score (mc_injection example_message) example_engine) = Require_approval"
    by code_simp
  moreover have "hc_action (check_conversation_state (mc_signals example_message) example_engine) = Pause"
    by code_simp
  ultimately have "hc_action (snd (snd (check_message (\<lambda>n. (5, 5)) example_message example_engine))) = Require_approval"
    using message_check_takes_the_worst [of "\<lambda>n. (5, 5)" example_message example_engine]
    by (simp add: Let_def example_message_def optional_check_def worse_action_def)
  moreover from this have "hc_matched (snd (snd (check_message (\<lambda>n. (5, 5)) example_message example_engine))) \<noteq> []"
    unfolding check_message_result by (cases "matched_of_message example_message example_engine")
      (auto simp: build_result_def)
  ultimately show ?thesis
    using message_check_takes_the_worst [of "\<lambda>n. (5, 5)" example_message example_engine]
    by (simp add: Let_def)
qed

lemma builtin_fire:
  "triggers e = builtin_triggers \<Longrightarrow> fire e ''injection_block'' r =
     [(trigger ''injection_block'' ''High prompt injection score -- likely injection attempt'' Require_approval Critical Security, r)]"
  "triggers e = builtin_triggers \<Longrightarrow> fire e ''policy_violation_block'' r =
     [(trigger ''policy_violation_block'' ''Role card infrastructure ban violated'' Require_approval Critical Policy, r)]"
  by (simp_all add: fire_def builtin_triggers_def trigger_def)

lemma severity_top: "3 \<le> action_severity a \<Longrightarrow> a = Require_approval" "3 \<le> urgency_severity u \<Longrightarrow> u = Critical"
  by (cases a; simp) (cases u; simp)

text \<open>
  with the built-in triggers, an injection score at the approval threshold (of the message or
  of an earlier message of the conversation) or an infrastructure ban requires approval with
  critical urgency, whatever else was found.
\<close>

theorem critical_findings_require_approval:
  assumes builtin: "triggers e = builtin_triggers"
    and found: "(\<exists>x \<in> insert (mc_injection p) (set (cs_injection_scores (mc_signals p))).
                    injection_approval_threshold (hconfig e) \<le> x) \<or>
                (\<exists>vs v. mc_policy p = Some vs \<and> v \<in> set vs \<and> pv_tier v = ''infrastructure'')"
  shows "hc_action (snd (snd (check_message clock p e))) = Require_approval \<and>
         hc_urgency (snd (snd (check_message clock p e))) = Critical"
proof -
  let ?th = "injection_approval_threshold (hconfig e)"
  have "\<exists>t why. (t, why) \<in> set (matched_of_message p e) \<and> tr_action t = Require_approval \<and> tr_urgency t = Critical"
  proof -
    consider (msg) "?th \<le> mc_injection p"
      | (old) x where "x \<in> set (cs_injection_scores (mc_signals p))" "?th \<le> x"
      | (pol) vs v where "mc_policy p = Some vs" "v \<in> set vs" "pv_tier v = ''infrastructure''"
      using found by blast
    then show ?thesis
    proof cases
      case msg
      then show ?thesis
        by (auto simp: matched_of_message_def check_injection_score_def build_result_fields
            builtin_fire [OF builtin] trigger_def)
    next
      case old
      then have "?th \<le> max_score (cs_injection_scores (mc_signals p))"
        using max_score_ge order_trans by blast
      then show ?thesis
        by (auto simp: matched_of_message_def check_conversation_state_def build_result_fields
            builtin_fire [OF builtin] trigger_def Let_def)
    next
      case pol
      then have "filter (\<lambda>v. pv_tier v = ''infrastructure'') vs \<noteq> []" "vs \<noteq> []"
        by (auto simp: filter_empty_conv)
      then show ?thesis
        using pol(1) by (auto simp: matched_of_message_def check_policy_violations_def build_result_fields
            builtin_fire [OF builtin] trigger_def Let_def)
    qed
  qed
  then obtain t why where t: "(t, why) \<in> set (matched_of_message p e)" "tr_action t = Require_approval"
    "tr_urgency t = Critical" by blast
  have "Require_approval \<in> set (map (tr_action \<circ> fst) (matched_of_message p e))"
    "Critical \<in> set (map (tr_urgency \<circ> fst) (matched_of_message p e))"
    using t by force+
  from act.foldl_upper [OF this(1), of Continue] urg.foldl_upper [OF this(2), of Low]
  show ?thesis
    unfolding check_message_result build_result_fields by (simp add: severity_top)
qed

theorem critical_findings_require_approval_witness:
  "hc_urgency (snd (snd (check_message (\<lambda>n. (5, 5)) example_message example_engine))) = Critical"
proof -
  have "triggers example_engine = builtin_triggers"
    by (simp add: example_engine_def on_alert_def new_hitl_engine_def)
  moreover have "injection_approval_threshold (hconfig example_engine) \<le> mc_injection example_message"
    by code_simp
  ultimately show ?thesis
    using critical_findings_require_approval [of example_engine example_message "\<lambda>n. (5, 5)"] by blast
qed

lemma ack_never_expires: "alert_step\<^sup>*\<^sup>* st st' \<Longrightarrow> st = Acknowledged \<Longrightarrow> st' \<in> {Acknowledged, Approved, Rejected}"
proof (induction rule: converse_rtranclp_induct)
  case (step x y)
  then have "y \<in> {Approved, Rejected}" by (auto simp: alert_step_iff)
  with step.hyps(2) have "st' = y" using alert_step_final by blast
  with \<open>y \<in> {Approved, Rejected}\<close> show ?case by blast
qed simp

text \<open>
  a decision on an alert is final: whatever calls follow (acknowledgements, approvals,
  rejections, expiry, new checks), the status of an alert only moves along its life cycle, an
  approved, rejected or expired alert keeps its status, and an acknowledged one never expires.
\<close>

theorem alert_decisions_are_final:
  assumes "alerts_numbered e" and "status_of i e = Some st"
  shows "\<exists>st'. status_of i (fold run_op ops e) = Some st' \<and> alert_step\<^sup>*\<^sup>* st st' \<and>
    (st \<in> {Approved, Rejected, Expired} \<longrightarrow> st' = st) \<and>
    (st = Acknowledged \<longrightarrow> st' \<noteq> Expired \<and> st' \<noteq> Pending)"
proof -
  from run_ops_status [OF assms] obtain st'
    where "status_of i (fold run_op ops e) = Some st'" "alert_step\<^sup>*\<^sup>* st st'" by blast
  then show ?thesis using alert_step_final ack_never_expires by blast
qed

theorem alert_decisions_are_final_witness:
  "\<exists>st'. status_of (HitlId 1 5) (fold run_op [ApproveOp (HitlId 1 5), ExpireOp 9000000]
      (run_op (AckOp (HitlId 1 5)) (run_op (CheckOp (\<lambda>n. (5, 5)) example_message) example_engine))) = Some st' \<and>
      st' \<noteq> Expired"
proof -
  let ?e = "run_op (AckOp (HitlId 1 5)) (run_op (CheckOp (\<lambda>n. (5, 5)) example_message) example_engine)"
  have "alerts_numbered example_engine"
    by (simp add: alerts_numbered_def example_engine_def on_alert_def new_hitl_engine_def)
  then have "alerts_numbered ?e" by (intro run_op_numbered)
  moreover have "status_of (HitlId 1 5) ?e = Some Acknowledged" by code_simp
  ultimately show ?thesis
    using alert_decisions_are_final [of ?e "HitlId 1 5" Acknowledged] by blast
qed

text \<open>
  a combined check adds exactly one pending alert per fired trigger, in the order of firing,
  with ids that are new, leaves the earlier alerts alone, and hands each new alert to every
  registered handler; without a fired trigger the engine is unchanged.
\<close>

theorem check_fires_one_alert_per_trigger:
  assumes "alerts_numbered e"
  shows "let (e', calls, r) = check_message clock p e;
             new = new_alerts clock (message_context p) (alert_counter e) (hc_matched r) in
    alerts e' = alerts e @ map (\<lambda>a. (al_id a, a)) new \<and>
    length new = length (hc_matched r) \<and> map al_trigger new = map fst (hc_matched r) \<and>
    distinct (map fst (alerts e')) \<and>
    calls = concat (map (\<lambda>a. map (\<lambda>h. (h, a)) [0..<alert_handlers e]) new) \<and>
    (\<not> hc_triggered r \<longrightarrow> e' = e)"
proof -
  have len: "length (new_alerts clock cx n m) = length m" for cx n m
    by (simp add: new_alerts_def del: upt_Suc)
  have trg: "map al_trigger (new_alerts clock cx n m) = map fst m" for cx n m
    by (induction m arbitrary: n) (auto simp: new_alerts_Cons, simp add: new_alerts_def)
  show ?thesis
  proof (cases "matched_of_message p e = []")
    case True
    then have "check_message clock p e = (e, [], build_result [])"
      by (simp add: check_message_def build_result_def)
    with assms show ?thesis
      by (simp add: build_result_def new_alerts_def alerts_numbered_def)
  next
    case False
    then show ?thesis
      using fire_alerts_spec [OF assms, where clock = clock and cx = "message_context p"
          and m = "matched_of_message p e"] len trg
      by (auto simp: check_message_def Let_def build_result_fields alerts_numbered_def split: prod.split)
  qed
qed

theorem check_fires_one_alert_per_trigger_witness:
  "length (alerts (fst (check_message (\<lambda>n. (5, 5)) example_message example_engine)))
     = length (hc_matched (snd (snd (check_message (\<lambda>n. (5, 5)) example_message example_engine))))"
proof -
  have n: "alerts_numbered example_engine" and z: "alerts example_engine = []"
    by (simp_all add: alerts_numbered_def example_engine_def on_alert_def new_hitl_engine_def)
  show ?thesis
    using check_fires_one_alert_per_trigger [OF n, of "\<lambda>n. (5, 5)" example_message]
    by (auto simp: Let_def z split: prod.splits)
qed

end
