(* ===== verification/Mission_State.thy ===== *)
theory Mission_State
  imports Prelude Complex_Main
begin

text \<open>
  \<open>lib/mission-state-machine.ts\<close>: the mission record, the phase machine that validates every
  change of phase, and the JSON file store it persists to. A time stamp is its value in
  milliseconds (\<open>toISOString\<close> and \<open>Date.parse\<close> are inverse on the dates of the program); where the
  code tests whether a stored field is there, the field is an option.
\<close>

section \<open>Types\<close>

datatype mission_phase = Brief | Plan | Execute | Verify | Deliver | Closed | Error

datatype squad_role = Oracle | Atlas | Sentinel | Verifier | Archivist | Synth | Curator

record mission_brief =
  br_title :: "string option"
  br_description :: "string option"
  br_requirements :: "string list option"
  br_deliverables :: "string list option"
  br_constraints :: "(string \<times> string) list option"

record mission_task =
  task_id :: string
  task_title :: string
  task_description :: string
  task_role :: squad_role
  depends_on :: "string list option"

record mission_plan =
  plan_created_at :: int
  plan_tasks :: "mission_task list"

datatype task_status = TPending | TRunning | TSucceeded | TFailed | TSkipped

record run_artifact =
  art_name :: string
  art_content :: string
  art_media_type :: "string option"

datatype thrown = ThrownError string string | ThrownString string | ThrownNothing

record task_run_result =
  res_task_id :: string
  res_agent :: squad_role
  res_started_at :: int
  res_finished_at :: int
  res_status :: task_status
  res_summary :: "string option"
  res_artifacts :: "run_artifact list option"
  res_error :: "(string \<times> string option) option"

record mission_execution =
  ex_started_at :: int
  ex_finished_at :: "int option"
  ex_task_status :: "(string, task_status) jsmap"
  ex_results :: "task_run_result list"

datatype gate_kind = QualityGate | SecurityGate | ApprovalGate
datatype gate_status = GatePass | GateFail | GateWarn | GateRequireApproval

datatype detail_value = Strings "string list" | Objects "(string \<times> string) list list"

record gate_result =
  gr_gate_id :: string
  gr_kind :: gate_kind
  gr_status :: gate_status
  gr_message :: string
  gr_details :: "(string \<times> detail_value) list option"

datatype overall = OverallPass | OverallFail | OverallRequireApproval

record mission_verification =
  ver_started_at :: int
  ver_finished_at :: "int option"
  ver_results :: "gate_result list"
  ver_overall :: overall

record artifact_ref =
  ref_path :: string
  ref_sha256 :: string
  ref_bytes :: nat
  ref_produced_by :: "squad_role option"
  ref_task_id :: "string option"

record mission_delivery =
  del_delivered_at :: int
  del_artifacts_dir :: string
  del_manifest_path :: string
  del_artifacts :: "artifact_ref list"
  del_status_report :: string
  del_completion_summary :: string

record mission_metrics =
  met_created_at :: "int option"
  met_updated_at :: "int option"
  met_duration_ms :: "int option"
  met_tokens_used :: "int option"
  met_cost_usd :: "rat option"

record mission_error_info =
  err_at_phase :: mission_phase
  err_occurred_at :: int
  err_message :: string
  err_name :: "string option"
  err_code :: "string option"
  err_suggested_rollback :: "mission_phase option"

record history_entry =
  he_phase :: mission_phase
  he_entered_at :: int
  he_note :: "string option"

record mission_record =
  mission_id :: string
  phase :: mission_phase
  created_at :: "int option"
  updated_at :: "int option"
  brief :: "mission_brief option"
  plan :: "mission_plan option"
  execution :: "mission_execution option"
  verification :: "mission_verification option"
  delivery :: "mission_delivery option"
  error_info :: "mission_error_info option"
  history :: "history_entry list"
  metrics :: "mission_metrics option"

text \<open>The exceptions the machine throws; \<open>StoreError\<close> is an error of the file system or the parser.\<close>

datatype mission_exn =
    BriefRequiresTitle | BriefRequiresDescription | BriefRequiresRequirements
  | InvalidTransition mission_phase mission_phase
  | RollbackOnlyFromError mission_phase
  | RollbackTargetNotInHistory mission_phase
  | MissingMissionId | MissingCreatedAt | MissingUpdatedAt | MissingMetricsCreatedAt
  | RequiresBrief mission_phase | RequiresPlan mission_phase | RequiresExecution mission_phase
  | RequiresVerification mission_phase | RequiresDelivery | RequiresErrorInfo
  | StoreError

section \<open>The JSON file store\<close>

text \<open>
  The directory as a map from paths to contents. A file that a write has opened but not finished
  is torn: its text does not parse.
\<close>

datatype 'r content = Whole 'r | Torn

datatype 'r fs_op = OpenWrite string | FinishWrite string 'r | Rename string string

fun fs_step :: "'r fs_op \<Rightarrow> (string, 'r content) jsmap \<Rightarrow> (string, 'r content) jsmap" where
  "fs_step (OpenWrite p) fs = js_set p Torn fs"
| "fs_step (FinishWrite p r) fs = js_set p (Whole r) fs"
| "fs_step (Rename p q) fs =
     (case js_get fs p of None \<Rightarrow> fs | Some c \<Rightarrow> js_set q c (js_delete p fs))"

definition fs_run :: "'r fs_op list \<Rightarrow> (string, 'r content) jsmap \<Rightarrow> (string, 'r content) jsmap" where
  "fs_run ops fs = fold fs_step ops fs"

definition file_path_for :: "string \<Rightarrow> string \<Rightarrow> string" where
  "file_path_for dir i = dir @ ''/'' @ i @ ''.json''"

definition load_record :: "string \<Rightarrow> (string, 'r content) jsmap \<Rightarrow> string \<Rightarrow> mission_exn + 'r option" where
  "load_record dir fs i =
     (case js_get fs (file_path_for dir i) of
        None \<Rightarrow> Inr None
      | Some (Whole r) \<Rightarrow> Inr (Some r)
      | Some Torn \<Rightarrow> Inl StoreError)"

definition save_ops :: "string \<Rightarrow> ('r \<Rightarrow> string) \<Rightarrow> 'r \<Rightarrow> 'r fs_op list" where
  "save_ops dir ident r =
     (let fp = file_path_for dir (ident r); tmp = fp @ ''.tmp''
      in [OpenWrite tmp, FinishWrite tmp r, Rename tmp fp])"

definition save_record ::
  "string \<Rightarrow> ('r \<Rightarrow> string) \<Rightarrow> 'r \<Rightarrow> (string, 'r content) jsmap \<Rightarrow> (string, 'r content) jsmap" where
  "save_record dir ident r fs = fs_run (save_ops dir ident r) fs"

text \<open>What the machine relies on: a record store keyed by the record's own id.\<close>

locale record_store =
  fixes load :: "'s \<Rightarrow> string \<Rightarrow> 'e + 'r option"
    and save :: "'r \<Rightarrow> 's \<Rightarrow> 's"
    and ident :: "'r \<Rightarrow> string"
  assumes load_save: "load (save r s) i = (if i = ident r then Inr (Some r) else load s i)"
begin

lemma load_saves:
  "load (fold save rs s) i =
     (case List.find (\<lambda>r. ident r = i) (rev rs) of Some r \<Rightarrow> Inr (Some r) | None \<Rightarrow> load s i)"
proof (induction rs rule: rev_induct)
  case (snoc r rs)
  then show ?case by (auto simp: load_save)
qed simp

lemma load_same: "load (save r s) (ident r) = Inr (Some r)"
  by (simp add: load_save)

end

lemma file_path_inj [simp]: "file_path_for dir i = file_path_for dir j \<longleftrightarrow> i = j"
  by (simp add: file_path_for_def)

lemma tmp_not_json [simp]: "file_path_for dir i \<noteq> file_path_for dir j @ ''.tmp''"
proof
  assume "file_path_for dir i = file_path_for dir j @ ''.tmp''"
  then have "last (file_path_for dir i) = last (file_path_for dir j @ ''.tmp'')" by simp
  then show False by (simp add: file_path_for_def)
qed

lemma load_save_record:
  "load_record dir (save_record dir ident r fs) i =
     (if i = ident r then Inr (Some r) else load_record dir fs i)"
  by (simp add: load_record_def save_record_def save_ops_def fs_run_def Let_def)

interpretation json_store: record_store "load_record dir" "save_record dir ident" ident
  for dir :: string and ident :: "'r \<Rightarrow> string"
  by unfold_locales (rule load_save_record)

section \<open>The phase machine\<close>

fun allowed_forward :: "mission_phase \<Rightarrow> mission_phase list" where
  "allowed_forward Brief = [Plan, Error]"
| "allowed_forward Plan = [Execute, Error]"
| "allowed_forward Execute = [Verify, Error]"
| "allowed_forward Verify = [Deliver, Error]"
| "allowed_forward Deliver = [Closed, Error]"
| "allowed_forward Closed = []"
| "allowed_forward Error = []"

text \<open>The store of the model: a directory of mission records.\<close>

type_synonym mission_fs = "(string, mission_record content) jsmap"

definition store_save :: "string \<Rightarrow> mission_record \<Rightarrow> mission_fs \<Rightarrow> mission_fs" where
  "store_save dir = save_record dir mission_id"

definition load_mission :: "string \<Rightarrow> mission_fs \<Rightarrow> string \<Rightarrow> mission_exn + mission_record option" where
  "load_mission dir = load_record dir"

definition blank :: "string option \<Rightarrow> bool" where
  "blank s \<longleftrightarrow> js_trim (str_or_empty s) = []"

text \<open>\<open>createMission\<close>; the generated id is used when the caller gives none.\<close>

definition create_mission ::
  "string \<Rightarrow> int \<Rightarrow> string \<Rightarrow> mission_brief option \<Rightarrow> string option \<Rightarrow> mission_fs
   \<Rightarrow> mission_fs \<times> (mission_exn + mission_record)" where
  "create_mission dir ts uuid b given_id fs =
     (if blank (Option.bind b br_title) then (fs, Inl BriefRequiresTitle)
      else if blank (Option.bind b br_description) then (fs, Inl BriefRequiresDescription)
      else if Option.bind b br_requirements = None then (fs, Inl BriefRequiresRequirements)
      else
        (let r = \<lparr>mission_id = nullish given_id uuid, phase = Brief, created_at = Some ts,
                  updated_at = Some ts, brief = b, plan = None, execution = None,
                  verification = None, delivery = None, error_info = None,
                  history = [\<lparr>he_phase = Brief, he_entered_at = ts, he_note = Some ''mission created''\<rparr>],
                  metrics = Some \<lparr>met_created_at = Some ts, met_updated_at = Some ts,
                                  met_duration_ms = None, met_tokens_used = None, met_cost_usd = None\<rparr>\<rparr>
         in (store_save dir r fs, Inr r)))"

definition validate_record :: "mission_record \<Rightarrow> mission_exn option" where
  "validate_record r =
     (if mission_id r = [] then Some MissingMissionId
      else if created_at r = None then Some MissingCreatedAt
      else if updated_at r = None then Some MissingUpdatedAt
      else if Option.bind (metrics r) met_created_at = None then Some MissingMetricsCreatedAt
      else if phase r \<in> {Brief, Plan, Execute, Verify, Deliver, Closed} \<and> brief r = None
        then Some (RequiresBrief (phase r))
      else if phase r \<in> {Execute, Verify, Deliver, Closed} \<and> plan r = None
        then Some (RequiresPlan (phase r))
      else if phase r \<in> {Verify, Deliver, Closed} \<and> execution r = None
        then Some (RequiresExecution (phase r))
      else if phase r \<in> {Deliver, Closed} \<and> verification r = None
        then Some (RequiresVerification (phase r))
      else if phase r = Closed \<and> delivery r = None then Some RequiresDelivery
      else if phase r = Error \<and> error_info r = None then Some RequiresErrorInfo
      else None)"

text \<open>A patch of a transition: a partial record, spread over the record.\<close>

record mission_patch =
  pt_mission_id :: "string field"
  pt_created_at :: "int option field"
  pt_brief :: "mission_brief option field"
  pt_plan :: "mission_plan option field"
  pt_execution :: "mission_execution option field"
  pt_verification :: "mission_verification option field"
  pt_delivery :: "mission_delivery option field"
  pt_error :: "mission_error_info option field"
  pt_duration_ms :: "int option field"
  pt_tokens_used :: "int option field"
  pt_cost_usd :: "rat option field"

definition no_patch :: mission_patch where
  "no_patch = \<lparr>pt_mission_id = Absent, pt_created_at = Absent, pt_brief = Absent, pt_plan = Absent,
     pt_execution = Absent, pt_verification = Absent, pt_delivery = Absent, pt_error = Absent,
     pt_duration_ms = Absent, pt_tokens_used = Absent, pt_cost_usd = Absent\<rparr>"

text \<open>
  \<open>metrics: {...(record.metrics ?? fresh), ...(patch.metrics ?? {}), createdAt, updatedAt}\<close>, where
  \<open>createdAt\<close> is the one of the record's metrics or else the record's.
\<close>

definition refresh_metrics :: "mission_record \<Rightarrow> int \<Rightarrow> int option field \<Rightarrow> int option field
   \<Rightarrow> rat option field \<Rightarrow> mission_metrics" where
  "refresh_metrics r ts duration tokens cost =
     (let base = nullish (metrics r) \<lparr>met_created_at = created_at r, met_updated_at = Some ts,
                                      met_duration_ms = None, met_tokens_used = None, met_cost_usd = None\<rparr>
      in \<lparr>met_created_at = nullish_opt (Option.bind (metrics r) met_created_at) (created_at r),
          met_updated_at = Some ts,
          met_duration_ms = spread (met_duration_ms base) duration,
          met_tokens_used = spread (met_tokens_used base) tokens,
          met_cost_usd = spread (met_cost_usd base) cost\<rparr>)"

definition transition_record ::
  "int \<Rightarrow> mission_record \<Rightarrow> mission_phase \<Rightarrow> mission_patch \<Rightarrow> string option \<Rightarrow> mission_record" where
  "transition_record ts r next p note =
     \<lparr>mission_id = spread (mission_id r) (pt_mission_id p), phase = next,
      created_at = spread (created_at r) (pt_created_at p), updated_at = Some ts,
      brief = spread (brief r) (pt_brief p), plan = spread (plan r) (pt_plan p),
      execution = spread (execution r) (pt_execution p),
      verification = spread (verification r) (pt_verification p),
      delivery = spread (delivery r) (pt_delivery p),
      error_info = spread (error_info r) (pt_error p),
      history = history r @ [\<lparr>he_phase = next, he_entered_at = ts, he_note = note\<rparr>],
      metrics = Some (refresh_metrics r ts (pt_duration_ms p) (pt_tokens_used p) (pt_cost_usd p))\<rparr>"

definition commit :: "string \<Rightarrow> mission_record \<Rightarrow> mission_fs \<Rightarrow> mission_fs \<times> (mission_exn + mission_record)" where
  "commit dir r fs =
     (case validate_record r of Some e \<Rightarrow> (fs, Inl e) | None \<Rightarrow> (store_save dir r fs, Inr r))"

definition transition ::
  "string \<Rightarrow> int \<Rightarrow> mission_record \<Rightarrow> mission_phase \<Rightarrow> mission_patch \<Rightarrow> string option \<Rightarrow> mission_fs
   \<Rightarrow> mission_fs \<times> (mission_exn + mission_record)" where
  "transition dir ts r next p note fs =
     (if next \<notin> set (allowed_forward (phase r)) then (fs, Inl (InvalidTransition (phase r) next))
      else commit dir (transition_record ts r next p note) fs)"

fun thrown_message :: "thrown \<Rightarrow> string" where
  "thrown_message (ThrownError m n) = m"
| "thrown_message (ThrownString s) = s"
| "thrown_message ThrownNothing = ''Unknown error''"

fun thrown_name :: "thrown \<Rightarrow> string option" where
  "thrown_name (ThrownError m n) = Some n"
| "thrown_name _ = None"

definition fail_mission ::
  "string \<Rightarrow> int \<Rightarrow> int \<Rightarrow> mission_record \<Rightarrow> thrown \<Rightarrow> string option \<Rightarrow> mission_phase option \<Rightarrow> mission_fs
   \<Rightarrow> mission_fs \<times> (mission_exn + mission_record)" where
  "fail_mission dir ts ts' r e code suggested fs =
     (let info = \<lparr>err_at_phase = phase r, err_occurred_at = ts, err_message = thrown_message e,
                  err_name = thrown_name e, err_code = code, err_suggested_rollback = suggested\<rparr>
      in transition dir ts' r Error (no_patch\<lparr>pt_error := Present (Some info)\<rparr>)
           (Some (''failed: '' @ err_message info)) fs)"

definition rollback_record :: "int \<Rightarrow> mission_record \<Rightarrow> mission_phase \<Rightarrow> string option \<Rightarrow> mission_record" where
  "rollback_record ts r target note =
     r\<lparr>phase := target, updated_at := Some ts, error_info := None,
       history := history r @ [\<lparr>he_phase = target, he_entered_at = ts,
                                he_note = Some (nullish note ''rollback'')\<rparr>],
       metrics := Some (refresh_metrics r ts Absent Absent Absent)\<rparr>"

text \<open>The target's type excludes \<open>error\<close>.\<close>

definition rollback ::
  "string \<Rightarrow> int \<Rightarrow> mission_record \<Rightarrow> mission_phase \<Rightarrow> string option \<Rightarrow> mission_fs
   \<Rightarrow> mission_fs \<times> (mission_exn + mission_record)" where
  "rollback dir ts r target note fs =
     (if phase r \<noteq> Error then (fs, Inl (RollbackOnlyFromError (phase r)))
      else if target \<notin> he_phase ` set (history r) then (fs, Inl (RollbackTargetNotInHistory target))
      else commit dir (rollback_record ts r target note) fs)"

section \<open>Facts of the operations\<close>

lemma load_store_save:
  "load_mission dir (store_save dir r fs) i = (if i = mission_id r then Inr (Some r) else load_mission dir fs i)"
  unfolding load_mission_def store_save_def by (rule json_store.load_save)

lemma commit_cases:
  "commit dir r fs =
     (if validate_record r = None then (store_save dir r fs, Inr r)
      else (fs, Inl (the (validate_record r))))"
  by (simp add: commit_def split: option.split)

lemma commit_Inr_iff [simp]:
  "commit dir r fs = (fs', Inr r') \<longleftrightarrow> validate_record r = None \<and> r' = r \<and> fs' = store_save dir r fs"
  by (auto simp: commit_cases)

lemma transition_Inr_iff:
  "transition dir ts r next p note fs = (fs', Inr r') \<longleftrightarrow>
     next \<in> set (allowed_forward (phase r)) \<and> r' = transition_record ts r next p note \<and>
     validate_record r' = None \<and> fs' = store_save dir r' fs"
  by (auto simp: transition_def)

lemma rollback_Inr_iff:
  "rollback dir ts r target note fs = (fs', Inr r') \<longleftrightarrow>
     phase r = Error \<and> target \<in> he_phase ` set (history r) \<and> r' = rollback_record ts r target note \<and>
     validate_record r' = None \<and> fs' = store_save dir r' fs"
  by (auto simp: rollback_def)

lemma operation_Inl_fs:
  "transition dir ts r next p note fs = (fs', Inl e) \<Longrightarrow> fs' = fs"
  "rollback dir ts r target note fs = (fs', Inl e) \<Longrightarrow> fs' = fs"
  by (auto simp: transition_def rollback_def commit_cases split: if_splits)

lemma validate_record_None_iff:
  "validate_record r = None \<longleftrightarrow>
     mission_id r \<noteq> [] \<and> created_at r \<noteq> None \<and> updated_at r \<noteq> None \<and>
     Option.bind (metrics r) met_created_at \<noteq> None \<and>
     (phase r \<noteq> Error \<longrightarrow> brief r \<noteq> None) \<and>
     (phase r \<in> {Execute, Verify, Deliver, Closed} \<longrightarrow> plan r \<noteq> None) \<and>
     (phase r \<in> {Verify, Deliver, Closed} \<longrightarrow> execution r \<noteq> None) \<and>
     (phase r \<in> {Deliver, Closed} \<longrightarrow> verification r \<noteq> None) \<and>
     (phase r = Closed \<longrightarrow> delivery r \<noteq> None) \<and>
     (phase r = Error \<longrightarrow> error_info r \<noteq> None)"
  by (cases "phase r") (simp_all add: validate_record_def)

lemma transition_record_sel [simp]:
  "phase (transition_record ts r next p note) = next"
  "history (transition_record ts r next p note) =
     history r @ [\<lparr>he_phase = next, he_entered_at = ts, he_note = note\<rparr>]"
  "updated_at (transition_record ts r next p note) = Some ts"
  "mission_id (transition_record ts r next p note) = spread (mission_id r) (pt_mission_id p)"
  "error_info (transition_record ts r next p note) = spread (error_info r) (pt_error p)"
  "brief (transition_record ts r next p note) = spread (brief r) (pt_brief p)"
  "plan (transition_record ts r next p note) = spread (plan r) (pt_plan p)"
  "execution (transition_record ts r next p note) = spread (execution r) (pt_execution p)"
  "verification (transition_record ts r next p note) = spread (verification r) (pt_verification p)"
  "delivery (transition_record ts r next p note) = spread (delivery r) (pt_delivery p)"
  by (simp_all add: transition_record_def)

lemma rollback_record_sel [simp]:
  "phase (rollback_record ts r target note) = target"
  "history (rollback_record ts r target note) =
     history r @ [\<lparr>he_phase = target, he_entered_at = ts, he_note = Some (nullish note ''rollback'')\<rparr>]"
  "mission_id (rollback_record ts r target note) = mission_id r"
  "error_info (rollback_record ts r target note) = None"
  "brief (rollback_record ts r target note) = brief r"
  "plan (rollback_record ts r target note) = plan r"
  "execution (rollback_record ts r target note) = execution r"
  "verification (rollback_record ts r target note) = verification r"
  "delivery (rollback_record ts r target note) = delivery r"
  by (simp_all add: rollback_record_def)

lemma refresh_metrics_created [simp]:
  "met_created_at (refresh_metrics r ts d t c) = nullish_opt (Option.bind (metrics r) met_created_at) (created_at r)"
  by (simp add: refresh_metrics_def Let_def)

lemma record_times [simp]:
  "created_at (transition_record ts r next p note) = spread (created_at r) (pt_created_at p)"
  "created_at (rollback_record ts r target note) = created_at r"
  "updated_at (rollback_record ts r target note) = Some ts"
  "metrics (transition_record ts r next p note) =
     Some (refresh_metrics r ts (pt_duration_ms p) (pt_tokens_used p) (pt_cost_usd p))"
  "metrics (rollback_record ts r target note) = Some (refresh_metrics r ts Absent Absent Absent)"
  by (simp_all add: transition_record_def rollback_record_def)

lemma nullish_opt_None_iff [simp]: "nullish_opt x y = None \<longleftrightarrow> x = None \<and> y = None"
  by (simp add: nullish_opt_def split: option.split)

lemma no_patch_sel [simp]:
  "pt_mission_id no_patch = Absent" "pt_created_at no_patch = Absent" "pt_brief no_patch = Absent"
  "pt_plan no_patch = Absent" "pt_execution no_patch = Absent" "pt_verification no_patch = Absent"
  "pt_delivery no_patch = Absent" "pt_error no_patch = Absent"
  "pt_duration_ms no_patch = Absent" "pt_tokens_used no_patch = Absent" "pt_cost_usd no_patch = Absent"
  by (simp_all add: no_patch_def)

section \<open>The life of a mission\<close>

text \<open>
  Missions as the callers drive them: a record is created, moved forward with a patch that leaves
  its identity and its error alone, failed, and rolled back, each step from the record the last
  step returned.
\<close>

inductive mission_run :: "string \<Rightarrow> mission_fs \<Rightarrow> mission_record \<Rightarrow> bool" for dir where
  created: "create_mission dir ts uuid b gid fs = (fs', Inr r) \<Longrightarrow> mission_run dir fs' r"
| moved: "mission_run dir fs r \<Longrightarrow> transition dir ts r next p note fs = (fs', Inr r') \<Longrightarrow>
    pt_mission_id p = Absent \<Longrightarrow> pt_error p = Absent \<Longrightarrow> mission_run dir fs' r'"
| failed: "mission_run dir fs r \<Longrightarrow> fail_mission dir ts ts' r e code suggested fs = (fs', Inr r') \<Longrightarrow>
    mission_run dir fs' r'"
| rolled: "mission_run dir fs r \<Longrightarrow> rollback dir ts r target note fs = (fs', Inr r') \<Longrightarrow>
    mission_run dir fs' r'"

text \<open>
  What a history may look like: it starts at the brief, and every later entry is an allowed step
  from the one before it, or leaves the error phase for a phase that was visited.
\<close>

definition legal_step :: "mission_phase list \<Rightarrow> mission_phase \<Rightarrow> bool" where
  "legal_step seen next \<longleftrightarrow>
     next \<in> set (allowed_forward (last seen)) \<or> last seen = Error \<and> next \<noteq> Error \<and> next \<in> set seen"

fun legal_path :: "mission_phase list \<Rightarrow> mission_phase list \<Rightarrow> bool" where
  "legal_path seen [] \<longleftrightarrow> True"
| "legal_path seen (p # ps) \<longleftrightarrow> legal_step seen p \<and> legal_path (seen @ [p]) ps"

definition legal_history :: "mission_phase list \<Rightarrow> bool" where
  "legal_history ps \<longleftrightarrow> ps \<noteq> [] \<and> hd ps = Brief \<and> legal_path [Brief] (tl ps)"

lemma legal_path_snoc:
  "legal_path seen (ps @ [p]) \<longleftrightarrow> legal_path seen ps \<and> legal_step (seen @ ps) p"
  by (induction ps arbitrary: seen) auto

lemma legal_history_single [simp]: "legal_history [Brief]"
  by (simp add: legal_history_def)

lemma legal_history_snoc:
  assumes "legal_history ps"
  shows "legal_history (ps @ [p]) \<longleftrightarrow> legal_step ps p"
proof -
  obtain qs where "ps = Brief # qs"
    using assms by (cases ps) (auto simp: legal_history_def)
  with assms show ?thesis by (auto simp: legal_history_def legal_path_snoc)
qed

text \<open>Once a history contains \<open>closed\<close>, it ends there.\<close>

lemma legal_path_closed_last:
  "legal_path seen ps \<Longrightarrow> seen \<noteq> [] \<Longrightarrow> Closed \<notin> set (butlast seen) \<Longrightarrow>
   Closed \<notin> set (butlast (seen @ ps))"
proof (induction ps arbitrary: seen)
  case (Cons p ps)
  have "Closed \<notin> set seen"
  proof
    assume "Closed \<in> set seen"
    then have "last seen = Closed"
      using Cons.prems(2, 3) by (metis append_butlast_last_id in_set_conv_decomp insert_iff list.set(2) Un_iff set_append empty_iff list.set(1))
    then show False using Cons.prems(1) by (simp add: legal_step_def)
  qed
  then show ?case using Cons.IH [of "seen @ [p]"] Cons.prems by simp
qed simp

lemma closed_ends_history: "legal_history ps \<Longrightarrow> Closed \<in> set ps \<Longrightarrow> last ps = Closed"
proof -
  assume l: "legal_history ps" and c: "Closed \<in> set ps"
  obtain qs where ps: "ps = Brief # qs" and q: "legal_path [Brief] qs"
    using l by (cases ps) (auto simp: legal_history_def)
  have "Closed \<notin> set (butlast ps)"
    using legal_path_closed_last [OF q] ps by simp
  moreover have "ps = butlast ps @ [last ps]" using ps by simp
  ultimately show ?thesis using c by (metis Un_iff empty_iff insert_iff list.set set_append)
qed

text \<open>The invariant of a run, as one predicate for the inductions.\<close>

definition mission_inv :: "string \<Rightarrow> mission_fs \<Rightarrow> mission_record \<Rightarrow> bool" where
  "mission_inv dir fs r \<longleftrightarrow>
     load_mission dir fs (mission_id r) = Inr (Some r) \<and>
     legal_history (map he_phase (history r)) \<and>
     last (map he_phase (history r)) = phase r \<and>
     (error_info r \<noteq> None \<longleftrightarrow> phase r = Error) \<and>
     (phase r \<noteq> Error \<longrightarrow> brief r \<noteq> None) \<and>
     (phase r \<in> {Execute, Verify, Deliver, Closed} \<longrightarrow> plan r \<noteq> None) \<and>
     (phase r \<in> {Verify, Deliver, Closed} \<longrightarrow> execution r \<noteq> None) \<and>
     (phase r \<in> {Deliver, Closed} \<longrightarrow> verification r \<noteq> None) \<and>
     (phase r = Closed \<longrightarrow> delivery r \<noteq> None)"

lemma allowed_forward_not_from_error: "next \<in> set (allowed_forward ph) \<Longrightarrow> ph \<noteq> Error \<and> ph \<noteq> Closed"
  by (cases ph) auto

lemma create_mission_inv:
  assumes "create_mission dir ts uuid b gid fs = (fs', Inr r)"
  shows "mission_inv dir fs' r"
proof -
  have "b \<noteq> None"
    using assms by (cases b) (auto simp: create_mission_def blank_def js_trim_def split: if_splits)
  with assms show ?thesis
    by (auto simp: create_mission_def mission_inv_def load_store_save Let_def split: if_splits)
qed

lemma mission_inv_step:
  assumes "mission_inv dir fs r" "validate_record r' = None"
    and "history r' = history r @ [h]" "he_phase h = phase r'"
    and "legal_step (map he_phase (history r)) (phase r')"
    and "error_info r' \<noteq> None \<longleftrightarrow> phase r' = Error"
  shows "mission_inv dir (store_save dir r' fs) r'"
proof -
  have "legal_history (map he_phase (history r'))"
    using assms(1, 3, 4, 5) by (simp add: mission_inv_def legal_history_snoc)
  moreover have "last (map he_phase (history r')) = phase r'"
    using assms(3, 4) by simp
  ultimately show ?thesis
    using assms(2, 6) unfolding mission_inv_def validate_record_None_iff load_store_save by simp
qed

lemma inv_last: "mission_inv dir fs r \<Longrightarrow> last (map he_phase (history r)) = phase r"
  by (simp add: mission_inv_def)

lemma inv_error: "mission_inv dir fs r \<Longrightarrow> error_info r \<noteq> None \<longleftrightarrow> phase r = Error"
  by (simp add: mission_inv_def)

lemma transition_inv:
  assumes "mission_inv dir fs r" "transition dir ts r next p note fs = (fs', Inr r')"
    and "pt_error p = Absent \<or> next = Error"
  shows "mission_inv dir fs' r'"
proof -
  from assms(2) have nx: "next \<in> set (allowed_forward (phase r))"
    and r': "r' = transition_record ts r next p note" and v: "validate_record r' = None"
    and fs': "fs' = store_save dir r' fs"
    by (auto simp: transition_Inr_iff)
  note nx' = allowed_forward_not_from_error [OF nx]
  from v have v': "next = Error \<longrightarrow> error_info r' \<noteq> None"
    by (simp add: validate_record_None_iff r')
  have e: "error_info r' \<noteq> None \<longleftrightarrow> next = Error"
  proof (cases "next = Error")
    case False
    then show ?thesis using assms(3) inv_error [OF assms(1)] nx' by (simp add: r')
  qed (use v' in simp)
  show ?thesis unfolding fs'
  proof (rule mission_inv_step [OF assms(1) v])
    show "legal_step (map he_phase (history r)) (phase r')"
      using nx inv_last [OF assms(1)] by (simp add: legal_step_def r')
    show "error_info r' \<noteq> None \<longleftrightarrow> phase r' = Error"
      using e by (simp add: r')
  qed (simp add: r')+
qed

lemma fail_mission_inv:
  assumes "mission_inv dir fs r" "fail_mission dir ts ts' r e code suggested fs = (fs', Inr r')"
  shows "mission_inv dir fs' r'"
  using assms(2) unfolding fail_mission_def Let_def
  by (rule transition_inv [OF assms(1)]) simp

lemma rollback_inv:
  assumes "mission_inv dir fs r" "rollback dir ts r target note fs = (fs', Inr r')"
  shows "mission_inv dir fs' r'"
proof -
  from assms(2) have ph: "phase r = Error" and tg: "target \<in> he_phase ` set (history r)"
    and r': "r' = rollback_record ts r target note" and v: "validate_record r' = None"
    and fs': "fs' = store_save dir r' fs"
    by (auto simp: rollback_Inr_iff)
  from v have ne: "target \<noteq> Error" by (auto simp: validate_record_None_iff r')
  show ?thesis unfolding fs'
  proof (rule mission_inv_step [OF assms(1) v])
    show "legal_step (map he_phase (history r)) (phase r')"
      using tg ph ne inv_last [OF assms(1)] by (simp add: legal_step_def r')
    show "error_info r' \<noteq> None \<longleftrightarrow> phase r' = Error"
      using ne by (simp add: r')
  qed (simp add: r')+
qed

lemma mission_run_inv: "mission_run dir fs r \<Longrightarrow> mission_inv dir fs r"
  by (induction rule: mission_run.induct)
    (auto intro: create_mission_inv transition_inv fail_mission_inv rollback_inv)

section \<open>Properties\<close>

text \<open>
  C3: Every mission the machine produces is the one its store returns for its id; its history
  starts at the brief, takes only allowed steps (or leaves the error phase for an earlier phase)
  and ends at the current phase; it carries an error exactly in the error phase, and it carries
  the brief, plan, execution, verification and delivery its phase presupposes.
\<close>

theorem missions_stay_sound:
  assumes "mission_run dir fs r"
  shows "load_mission dir fs (mission_id r) = Inr (Some r) \<and>
     legal_history (map he_phase (history r)) \<and>
     last (map he_phase (history r)) = phase r \<and>
     (error_info r \<noteq> None \<longleftrightarrow> phase r = Error) \<and>
     (phase r \<noteq> Error \<longrightarrow> brief r \<noteq> None) \<and>
     (phase r \<in> {Execute, Verify, Deliver, Closed} \<longrightarrow> plan r \<noteq> None) \<and>
     (phase r \<in> {Verify, Deliver, Closed} \<longrightarrow> execution r \<noteq> None) \<and>
     (phase r \<in> {Deliver, Closed} \<longrightarrow> verification r \<noteq> None) \<and>
     (phase r = Closed \<longrightarrow> delivery r \<noteq> None)"
  by (rule mission_run_inv [OF assms, unfolded mission_inv_def])

text \<open>A mission that was planned, failed and was rolled back, for the witnesses.\<close>

definition sample_brief :: mission_brief where
  "sample_brief = \<lparr>br_title = Some ''t'', br_description = Some ''d'', br_requirements = Some [''r''],
     br_deliverables = None, br_constraints = None\<rparr>"

definition sample_created :: "mission_fs \<times> (mission_exn + mission_record)" where
  "sample_created = create_mission ''d'' 1 ''u'' (Some sample_brief) (Some ''m'') []"

definition sample_planned :: "mission_fs \<times> (mission_exn + mission_record)" where
  "sample_planned = transition ''d'' 2 (projr (snd sample_created)) Plan
     (no_patch\<lparr>pt_plan := Present (Some \<lparr>plan_created_at = 2, plan_tasks = []\<rparr>)\<rparr>) None (fst sample_created)"

definition sample_failed :: "mission_fs \<times> (mission_exn + mission_record)" where
  "sample_failed = fail_mission ''d'' 3 3 (projr (snd sample_planned)) (ThrownString ''x'') None None (fst sample_planned)"

definition sample_rolled :: "mission_fs \<times> (mission_exn + mission_record)" where
  "sample_rolled = rollback ''d'' 4 (projr (snd sample_failed)) Plan None (fst sample_failed)"

lemma sample_steps:
  "isl (snd sample_created) = False" "isl (snd sample_planned) = False"
  "isl (snd sample_failed) = False" "isl (snd sample_rolled) = False"
  by code_simp+

lemma Inr_projr: "isl (snd x) = False \<Longrightarrow> x = (fst x, Inr (projr (snd x)))"
  by (cases x, cases "snd x") auto

lemma sample_runs:
  "mission_run ''d'' (fst sample_created) (projr (snd sample_created))"
  "mission_run ''d'' (fst sample_planned) (projr (snd sample_planned))"
  "mission_run ''d'' (fst sample_failed) (projr (snd sample_failed))"
  "mission_run ''d'' (fst sample_rolled) (projr (snd sample_rolled))"
proof -
  note eqs = sample_steps [THEN Inr_projr]
  show c: "mission_run ''d'' (fst sample_created) (projr (snd sample_created))"
    by (rule mission_run.created) (rule trans [OF sample_created_def [symmetric] eqs(1)])
  show p: "mission_run ''d'' (fst sample_planned) (projr (snd sample_planned))"
    by (rule mission_run.moved [OF c])
      (rule trans [OF sample_planned_def [symmetric] eqs(2)], simp_all)
  show f: "mission_run ''d'' (fst sample_failed) (projr (snd sample_failed))"
    by (rule mission_run.failed [OF p])
      (rule trans [OF sample_failed_def [symmetric] eqs(3)])
  show "mission_run ''d'' (fst sample_rolled) (projr (snd sample_rolled))"
    by (rule mission_run.rolled [OF f])
      (rule trans [OF sample_rolled_def [symmetric] eqs(4)])
qed


theorem missions_stay_sound_witness:
  "load_mission ''d'' (fst sample_rolled) ''m'' = Inr (Some (projr (snd sample_rolled)))"
proof -
  have "mission_id (projr (snd sample_rolled)) = ''m''" by code_simp
  with missions_stay_sound [OF sample_runs(4)] show ?thesis by simp
qed

text \<open>
  A transition succeeds exactly when the next phase is allowed from the current one and the
  patched record validates; it then adds one history entry for the new phase, keeps the creation
  time in the metrics, and saves the very record it returns. A refused one leaves the store alone.
\<close>

theorem transition_is_guarded:
  "transition dir ts r next p note fs =
     (let r' = transition_record ts r next p note in
      if next \<in> set (allowed_forward (phase r)) \<and> validate_record r' = None then
        (store_save dir r' fs, Inr r')
      else (fs, Inl (if next \<in> set (allowed_forward (phase r)) then the (validate_record r')
                     else InvalidTransition (phase r) next)))
   \<and> load_mission dir (fst (transition dir ts r next p note fs)) i =
       (case snd (transition dir ts r next p note fs) of
          Inr r' \<Rightarrow> if i = mission_id r' then Inr (Some r') else load_mission dir fs i
        | Inl e \<Rightarrow> load_mission dir fs i)"
  by (simp add: transition_def commit_cases Let_def load_store_save)

text \<open>
  A closed mission is final: no transition, no failure and no rollback of it succeeds, and
  none of them touches the store.
\<close>

theorem closed_is_final:
  assumes "phase r = Closed"
  shows "fst (transition dir ts r next p note fs) = fs \<and> isl (snd (transition dir ts r next p note fs)) \<and>
     fst (fail_mission dir ts ts' r e code sug fs) = fs \<and> isl (snd (fail_mission dir ts ts' r e code sug fs)) \<and>
     fst (rollback dir ts r target note' fs) = fs \<and> isl (snd (rollback dir ts r target note' fs))"
  using assms by (simp add: transition_def fail_mission_def rollback_def Let_def)

definition sample_closed :: mission_record where
  "sample_closed = (projr (snd sample_created))\<lparr>phase := Closed\<rparr>"

theorem closed_is_final_witness:
  "isl (snd (rollback ''d'' 9 sample_closed Plan None []))"
  using closed_is_final [of sample_closed "''d''" 9 Plan no_patch None "[]" 9 "ThrownString ''x''" None None Plan None]
  by (simp add: sample_closed_def)

text \<open>
  A failed mission keeps everything it had: failing adds the error with the phase it happened
  in, and rolling back to that phase restores the same brief, plan, execution, verification and
  delivery in that phase, without the error and with two more history entries.
\<close>

theorem fail_then_rollback_restores:
  assumes "mission_run dir fs r" "phase r \<noteq> Error" "phase r \<noteq> Closed" "validate_record r = None"
  shows "\<exists>fs1 r1 fs2 r2. fail_mission dir t1 t2 r e code sug fs = (fs1, Inr r1) \<and>
     rollback dir t3 r1 (phase r) note fs1 = (fs2, Inr r2) \<and>
     map_option err_at_phase (error_info r1) = Some (phase r) \<and> error_info r2 = None \<and>
     (phase r2, brief r2, plan r2, execution r2, verification r2, delivery r2) =
       (phase r, brief r, plan r, execution r, verification r, delivery r) \<and>
     map he_phase (history r2) = map he_phase (history r) @ [Error, phase r] \<and>
     load_mission dir fs2 (mission_id r) = Inr (Some r2)"
proof -
  let ?info = "\<lparr>err_at_phase = phase r, err_occurred_at = t1, err_message = thrown_message e,
                 err_name = thrown_name e, err_code = code, err_suggested_rollback = sug\<rparr>"
  let ?p = "no_patch\<lparr>pt_error := Present (Some ?info)\<rparr>"
  let ?n = "Some (''failed: '' @ thrown_message e)"
  let ?r1 = "transition_record t2 r Error ?p ?n"
  let ?r2 = "rollback_record t3 ?r1 (phase r) note"
  have hist: "phase r \<in> he_phase ` set (history r)"
    using mission_run_inv [OF assms(1)]
    by (cases "history r" rule: rev_cases) (auto simp: mission_inv_def legal_history_def)
  have al: "Error \<in> set (allowed_forward (phase r))"
    using assms(2, 3) by (cases "phase r") auto
  have v1: "validate_record ?r1 = None"
    using assms(4) by (simp add: validate_record_None_iff)
  have v2: "validate_record ?r2 = None"
    using assms(2-4) by (simp add: validate_record_None_iff del: bind_eq_None_conv)
  have f: "fail_mission dir t1 t2 r e code sug fs = (store_save dir ?r1 fs, Inr ?r1)"
    using al v1 by (simp add: fail_mission_def Let_def transition_Inr_iff)
  have b: "rollback dir t3 ?r1 (phase r) note (store_save dir ?r1 fs) =
      (store_save dir ?r2 (store_save dir ?r1 fs), Inr ?r2)"
    using hist v2 by (simp add: rollback_Inr_iff)
  show ?thesis
    by (intro exI conjI, rule f, rule b) (simp_all add: load_store_save)
qed

theorem fail_then_rollback_restores_witness:
  "\<exists>fs1 r1. fail_mission ''d'' 3 3 (projr (snd sample_planned)) (ThrownString ''x'') None None
      (fst sample_planned) = (fs1, Inr r1) \<and> map_option err_at_phase (error_info r1) = Some Plan"
proof -
  have "phase (projr (snd sample_planned)) = Plan" "validate_record (projr (snd sample_planned)) = None"
    by code_simp+
  with fail_then_rollback_restores [OF sample_runs(2), of 3 3 "ThrownString ''x''" None None 4 None]
  show ?thesis by fastforce
qed

text \<open>
  A mission that failed can be rolled back only from the error phase and only to a phase it
  has been in, never to the error phase, and never to \<open>closed\<close>: for a mission of the machine the
  rollback to \<open>closed\<close> is refused because a closed mission cannot have failed.
\<close>

theorem rollback_targets:
  assumes "mission_run dir fs r"
  shows "(\<exists>fs' r'. rollback dir ts r target note fs = (fs', Inr r')) \<longrightarrow>
     phase r = Error \<and> target \<in> set (map he_phase (history r)) \<and> target \<noteq> Error \<and> target \<noteq> Closed"
proof
  assume "\<exists>fs' r'. rollback dir ts r target note fs = (fs', Inr r')"
  then obtain fs' r' where "rollback dir ts r target note fs = (fs', Inr r')" by blast
  then have ph: "phase r = Error" and tg: "target \<in> set (map he_phase (history r))"
    and v: "validate_record (rollback_record ts r target note) = None"
    by (auto simp: rollback_Inr_iff)
  have "target \<noteq> Error" using v by (auto simp: validate_record_None_iff)
  moreover have "target \<noteq> Closed"
  proof
    assume "target = Closed"
    with tg have "last (map he_phase (history r)) = Closed"
      using mission_run_inv [OF assms] by (intro closed_ends_history) (auto simp: mission_inv_def)
    then show False using ph inv_last [OF mission_run_inv [OF assms]] by simp
  qed
  ultimately show "phase r = Error \<and> target \<in> set (map he_phase (history r)) \<and> target \<noteq> Error \<and> target \<noteq> Closed"
    using ph tg by simp
qed

theorem rollback_targets_witness:
  "\<not> (\<exists>fs' r'. rollback ''d'' 4 (projr (snd sample_failed)) Closed None (fst sample_failed) = (fs', Inr r'))"
  using rollback_targets [OF sample_runs(3), of 4 Closed None] by blast

text \<open>
  Saving is atomic against a crash: after any number of the file operations of a save, a load
  of the mission sees the record as it was before or the new one, never a torn file; other
  missions are not affected, and the complete save installs the new record.
\<close>

theorem save_is_crash_atomic:
  "load_mission dir (fs_run (take n (save_ops dir mission_id r)) fs) i
     = (if n \<ge> 3 \<and> i = mission_id r then Inr (Some r) else load_mission dir fs i)
   \<and> fs_run (save_ops dir mission_id r) fs = store_save dir r fs"
proof -
  have "n = 0 \<or> n = 1 \<or> n = 2 \<or> n \<ge> 3" by linarith
  then show ?thesis
    by (auto simp: save_ops_def Let_def fs_run_def load_mission_def load_record_def store_save_def save_record_def)
qed

end
