(* ===== verification/Squad.thy ===== *)
theory Squad
  imports Mission_State
begin

text \<open>
  \<open>lib/squad-coordinator.ts\<close>: role inference and planning from a brief, and the execution of a plan,
  in listed order or in parallel batches. An agent is the function from a task to what its
  \<open>runTask\<close> returns or throws. In a parallel batch the starts, the settlements and the follow-ups
  of the tasks interleave by a schedule, which is a parameter. The clock is a function of the number
  of readings. The hooks of the runtime cannot change the execution (their errors are dropped).
\<close>

section \<open>Role inference\<close>

definition word_char :: "char \<Rightarrow> bool" where
  "word_char c \<longleftrightarrow> (let n = of_char c :: nat in
     48 \<le> n \<and> n \<le> 57 \<or> 65 \<le> n \<and> n \<le> 90 \<or> n = 95 \<or> 97 \<le> n \<and> n \<le> 122)"

fun starts_with :: "string \<Rightarrow> string \<Rightarrow> bool" where
  "starts_with [] s \<longleftrightarrow> True"
| "starts_with (c # cs) [] \<longleftrightarrow> False"
| "starts_with (c # cs) (d # ds) \<longleftrightarrow> c = d \<and> starts_with cs ds"

text \<open>\<open>/\b(w1|...|wn)\b/\<close> for non-empty words of word characters, \<open>/w/\<close>, and \<open>/sql\s+injection/\<close>.\<close>

definition word_ends :: "string \<Rightarrow> string \<Rightarrow> bool" where
  "word_ends w s \<longleftrightarrow> starts_with w s \<and> (case drop (length w) s of [] \<Rightarrow> True | c # _ \<Rightarrow> \<not> word_char c)"

fun has_word_from :: "bool \<Rightarrow> string list \<Rightarrow> string \<Rightarrow> bool" where
  "has_word_from after_word ws [] \<longleftrightarrow> False"
| "has_word_from after_word ws (c # cs) \<longleftrightarrow>
     (\<not> after_word \<and> list_ex (\<lambda>w. word_ends w (c # cs)) ws) \<or> has_word_from (word_char c) ws cs"

definition has_word :: "string list \<Rightarrow> string \<Rightarrow> bool" where
  "has_word ws s = has_word_from False ws s"

fun has_text :: "string \<Rightarrow> string \<Rightarrow> bool" where
  "has_text w [] \<longleftrightarrow> w = []"
| "has_text w (c # cs) \<longleftrightarrow> starts_with w (c # cs) \<or> has_text w cs"

fun has_sql_injection :: "string \<Rightarrow> bool" where
  "has_sql_injection [] \<longleftrightarrow> False"
| "has_sql_injection (c # cs) \<longleftrightarrow>
     (starts_with ''sql'' (c # cs) \<and>
      (let rest = drop 3 (c # cs) in
       rest \<noteq> [] \<and> js_space (hd rest) \<and> starts_with ''injection'' (dropWhile js_space rest)))
     \<or> has_sql_injection cs"

definition brief_text :: "mission_brief \<Rightarrow> string" where
  "brief_text b = to_lower (nullish (br_title b) ''undefined'' @ newline @
     nullish (br_description b) ''undefined'' @ newline @
     join_with newline (nullish (br_requirements b) []))"

definition infer_roles_from_brief :: "mission_brief \<Rightarrow> squad_role list" where
  "infer_roles_from_brief b =
     (let s = brief_text b in
      [Synth]
      @ (if has_word [''security'', ''vuln'', ''xss'', ''secrets'', ''sanitize'', ''auth'', ''threat''] s
            \<or> has_sql_injection s then [Sentinel] else [])
      @ (if has_word [''test'', ''tests'', ''jest'', ''vitest'', ''qa'', ''verify'', ''lint'', ''coverage''] s
         then [Verifier] else [])
      @ (if has_word [''doc'', ''docs'', ''documentation'', ''readme'', ''guide'', ''diagram''] s
         then [Archivist] else [])
      @ (if has_word [''research'', ''investigate'', ''compare'', ''option'', ''options'', ''tradeoff'',
                      ''tradeoffs'', ''benchmark''] s then [Oracle] else [])
      @ (if has_word [''deploy'', ''ci'', ''pipeline'', ''infra'', ''docker'', ''k8s'', ''config'',
                      ''configuration''] s \<or> has_text ''ci/cd'' s then [Atlas] else []))"

section \<open>Planning\<close>

definition add_task ::
  "(nat \<Rightarrow> string) \<Rightarrow> string \<Rightarrow> string \<Rightarrow> squad_role \<Rightarrow> string list option \<Rightarrow> mission_task list \<Rightarrow> mission_task list" where
  "add_task uuid title descr role deps tasks =
     tasks @ [\<lparr>task_id = uuid (length tasks), task_title = title, task_description = descr,
               task_role = role, depends_on = deps\<rparr>]"

text \<open>A review task depends on the task before it.\<close>

definition add_review ::
  "(nat \<Rightarrow> string) \<Rightarrow> squad_role list \<Rightarrow> squad_role \<Rightarrow> string \<Rightarrow> string \<Rightarrow> mission_task list \<Rightarrow> mission_task list" where
  "add_review uuid roles role title descr tasks =
     (if role \<in> set roles then add_task uuid title descr role (Some [task_id (last tasks)]) tasks else tasks)"

definition create_plan_from_brief :: "int \<Rightarrow> (nat \<Rightarrow> string) \<Rightarrow> mission_brief \<Rightarrow> mission_plan" where
  "create_plan_from_brief ts uuid b =
     (let roles = infer_roles_from_brief b;
          research = (if Oracle \<in> set roles
            then add_task uuid ''Research & risk assessment''
              ''Identify unknowns, risks, and recommended approach for the mission.'' Oracle None []
            else []);
          build = add_task uuid ''Implement mission deliverables''
            ''Produce the requested artifacts / changes described in the brief.'' Synth
            (if research \<noteq> [] then Some [task_id (hd research)] else None) research;
          security = add_review uuid roles Sentinel ''Security review''
            ''Run security checks and review for common vulnerability classes.'' build;
          qa = add_review uuid roles Verifier ''Verification & testing''
            ''Run tests and verify acceptance criteria.'' security;
          docs = add_review uuid roles Archivist ''Documentation & reporting''
            ''Write usage docs, diagrams, and summary report artifacts.'' qa;
          infra = add_review uuid roles Atlas ''Integration & packaging''
            ''Ensure integration points are wired up (CI/config) and ready to ship.'' docs
      in \<lparr>plan_created_at = ts, plan_tasks = infra\<rparr>)"

section \<open>Execution\<close>

datatype task_outcome = Output "string option" "run_artifact list option" | Threw thrown

record squad =
  agents :: "(squad_role \<times> (mission_task \<Rightarrow> task_outcome)) list"
  continue_on_failure :: bool
  parallelize :: bool
  clock :: "nat \<Rightarrow> int"

text \<open>\<open>new Map(agents.map(...))\<close>: of two agents with one role the later one counts.\<close>

definition agent_by_id :: "squad \<Rightarrow> squad_role \<Rightarrow> (mission_task \<Rightarrow> task_outcome) option" where
  "agent_by_id sq role = map_of (rev (agents sq)) role"

fun role_name :: "squad_role \<Rightarrow> string" where
  "role_name Oracle = ''oracle''"
| "role_name Atlas = ''atlas''"
| "role_name Sentinel = ''sentinel''"
| "role_name Verifier = ''verifier''"
| "role_name Archivist = ''archivist''"
| "role_name Synth = ''synth''"
| "role_name Curator = ''curator''"

record exec_state =
  st_status :: "(string, task_status) jsmap"
  st_results :: "task_run_result list"
  st_started :: "(string, int) jsmap"
  st_ticks :: nat
  st_thrown :: "thrown option"

definition deps_of :: "mission_task \<Rightarrow> string list" where
  "deps_of t = nullish (depends_on t) []"

text \<open>The dependency graph: the ids of the tasks that name a task as dependency.\<close>

definition add_dependent :: "string \<Rightarrow> string \<Rightarrow> (string, string list) jsmap \<Rightarrow> (string, string list) jsmap" where
  "add_dependent tid dep g = js_set dep (nullish (js_get g dep) [] @ [tid]) g"

definition dependents_by_task_id :: "mission_task list \<Rightarrow> (string, string list) jsmap" where
  "dependents_by_task_id ts = fold (\<lambda>t. fold (add_dependent (task_id t)) (deps_of t)) ts []"

definition can_run :: "(string, task_status) jsmap \<Rightarrow> mission_task \<Rightarrow> bool" where
  "can_run status t \<longleftrightarrow> list_all (\<lambda>d. js_get status d = Some TSucceeded) (deps_of t)"

text \<open>The inner loop of \<open>markSkippedDependents\<close>: the ids it appends to the queue, and the statuses.\<close>

fun skip_dependents ::
  "string list \<Rightarrow> (string, task_status) jsmap \<Rightarrow> string list \<times> (string, task_status) jsmap" where
  "skip_dependents [] status = ([], status)"
| "skip_dependents (d # ds) status =
     (case js_get status d of
        Some TPending \<Rightarrow> (let (q, status') = skip_dependents ds (js_set d TSkipped status) in (d # q, status'))
      | Some TSkipped \<Rightarrow> (let (q, status') = skip_dependents ds status in (d # q, status'))
      | _ \<Rightarrow> skip_dependents ds status)"

lemma skip_dependents_subset: "set (fst (skip_dependents ds status)) \<subseteq> set ds"
  by (induction ds status rule: skip_dependents.induct)
    (auto simp: split_beta Let_def split: option.splits task_status.splits)

definition dependents_of :: "(string, string list) jsmap \<Rightarrow> string \<Rightarrow> string list" where
  "dependents_of g i = nullish (js_get g i) []"

lemma dependents_of_subset: "set (dependents_of g i) \<subseteq> (\<Union>e \<in> set g. set (snd e))"
  by (cases "js_get g i") (auto simp: dependents_of_def dest!: js_get_in)

function mark_loop ::
  "(string, string list) jsmap \<Rightarrow> string list \<Rightarrow> string list \<Rightarrow> (string, task_status) jsmap
   \<Rightarrow> (string, task_status) jsmap" where
  "mark_loop g [] visited status = status"
| "mark_loop g (cur # queue) visited status =
     (if cur \<in> set visited then mark_loop g queue visited status
      else mark_loop g (queue @ fst (skip_dependents (dependents_of g cur) status)) (cur # visited)
             (snd (skip_dependents (dependents_of g cur) status)))"
  by pat_completeness auto

text \<open>Every turn of the loop visits a new id of a finite set, or shortens the queue.\<close>

definition unvisited :: "(string, string list) jsmap \<Rightarrow> string list \<Rightarrow> string list \<Rightarrow> string set" where
  "unvisited g queue visited = (set queue \<union> (\<Union>e \<in> set g. set (snd e))) - set visited"

lemma finite_unvisited: "finite (unvisited g queue visited)"
  by (simp add: unvisited_def)

lemma unvisited_tail: "cur \<in> set visited \<Longrightarrow> unvisited g (cur # queue) visited = unvisited g queue visited"
  by (auto simp: unvisited_def)

lemma unvisited_visit:
  assumes "cur \<notin> set visited" and "set q \<subseteq> set (dependents_of g cur)"
  shows "unvisited g (queue @ q) (cur # visited) \<subset> unvisited g (cur # queue) visited"
  using assms dependents_of_subset [of g cur] by (auto simp: unvisited_def)

termination mark_loop
proof (relation "measures [\<lambda>(g, queue, visited, status). card (unvisited g queue visited),
                           \<lambda>(g, queue, visited, status). length queue]", goal_cases)
  case (2 g cur queue visited status)
  then show ?case by (simp add: unvisited_tail)
next
  case (3 g cur queue visited status)
  let ?q = "fst (skip_dependents (dependents_of g cur) status)"
  have "card (unvisited g (queue @ ?q) (cur # visited)) < card (unvisited g (cur # queue) visited)"
    by (rule psubset_card_mono [OF finite_unvisited unvisited_visit [OF 3 skip_dependents_subset]])
  then show ?case by simp
qed simp

definition mark_skipped_dependents ::
  "(string, string list) jsmap \<Rightarrow> string \<Rightarrow> (string, task_status) jsmap \<Rightarrow> (string, task_status) jsmap" where
  "mark_skipped_dependents g i status = mark_loop g [i] [] status"

text \<open>
  \<open>runOne\<close> as its three atomic pieces, which the waiting for hooks and for the agent separates:
  the start, the settlement with its result, and the follow-up of a failure.
\<close>

datatype batch_event = Start mission_task | Settle mission_task | Mark mission_task

fun ev_task :: "batch_event \<Rightarrow> mission_task" where
  "ev_task (Start t) = t" | "ev_task (Settle t) = t" | "ev_task (Mark t) = t"

definition start_task :: "squad \<Rightarrow> mission_task \<Rightarrow> exec_state \<Rightarrow> exec_state" where
  "start_task sq t st =
     (case agent_by_id sq (task_role t) of
        None \<Rightarrow> st\<lparr>st_status := js_set (task_id t) TFailed (st_status st),
                   st_results := st_results st @
                     [\<lparr>res_task_id = task_id t, res_agent = task_role t,
                       res_started_at = clock sq (st_ticks st), res_finished_at = clock sq (Suc (st_ticks st)),
                       res_status = TFailed, res_summary = None, res_artifacts = None,
                       res_error = Some (''No agent registered for role: '' @ role_name (task_role t), None)\<rparr>],
                   st_ticks := st_ticks st + 2\<rparr>
      | Some run \<Rightarrow> st\<lparr>st_status := js_set (task_id t) TRunning (st_status st),
                       st_started := js_set (task_id t) (clock sq (st_ticks st)) (st_started st),
                       st_ticks := Suc (st_ticks st)\<rparr>)"

definition settle_task :: "squad \<Rightarrow> mission_task \<Rightarrow> exec_state \<Rightarrow> exec_state" where
  "settle_task sq t st =
     (case agent_by_id sq (task_role t) of
        None \<Rightarrow> st
      | Some run \<Rightarrow>
          (let (status, summary, arts, err) =
             (case run t of
                Output s a \<Rightarrow> (TSucceeded, s, a, None)
              | Threw e \<Rightarrow> (TFailed, None, None, Some (thrown_message e, thrown_name e)))
           in st\<lparr>st_status := js_set (task_id t) status (st_status st),
                 st_results := st_results st @
                   [\<lparr>res_task_id = task_id t, res_agent = task_role t,
                     res_started_at = nullish (js_get (st_started st) (task_id t)) 0,
                     res_finished_at = clock sq (st_ticks st),
                     res_status = status, res_summary = summary, res_artifacts = arts, res_error = err\<rparr>],
                 st_ticks := Suc (st_ticks st)\<rparr>))"

text \<open>What a task throws when it fails.\<close>

definition failure_of :: "squad \<Rightarrow> mission_task \<Rightarrow> thrown option" where
  "failure_of sq t =
     (case agent_by_id sq (task_role t) of
        None \<Rightarrow> Some (ThrownError (''Task failed: '' @ task_title t @ '' (no agent for '' @
                     role_name (task_role t) @ '')'') ''Error'')
      | Some run \<Rightarrow> (case run t of Output s a \<Rightarrow> None | Threw e \<Rightarrow> Some e))"

definition mark_failure ::
  "squad \<Rightarrow> (string, string list) jsmap \<Rightarrow> mission_task \<Rightarrow> exec_state \<Rightarrow> exec_state" where
  "mark_failure sq g t st =
     (case failure_of sq t of
        None \<Rightarrow> st
      | Some e \<Rightarrow>
          st\<lparr>st_status := mark_skipped_dependents g (task_id t) (st_status st),
             st_thrown := (if continue_on_failure sq then st_thrown st else nullish_opt (st_thrown st) (Some e))\<rparr>)"

fun run_event :: "squad \<Rightarrow> (string, string list) jsmap \<Rightarrow> batch_event \<Rightarrow> exec_state \<Rightarrow> exec_state" where
  "run_event sq g (Start t) = start_task sq t"
| "run_event sq g (Settle t) = settle_task sq t"
| "run_event sq g (Mark t) = mark_failure sq g t"

definition run_one :: "squad \<Rightarrow> (string, string list) jsmap \<Rightarrow> mission_task \<Rightarrow> exec_state \<Rightarrow> exec_state" where
  "run_one sq g t st = fold (run_event sq g) [Start t, Settle t, Mark t] st"

text \<open>The loop in listed order; a failure that is thrown ends it.\<close>

fun run_listed :: "squad \<Rightarrow> (string, string list) jsmap \<Rightarrow> mission_task list \<Rightarrow> exec_state \<Rightarrow> exec_state" where
  "run_listed sq g [] st = st"
| "run_listed sq g (t # ts) st =
     (if js_get (st_status st) (task_id t) \<noteq> Some TPending then run_listed sq g ts st
      else if \<not> can_run (st_status st) t then
        run_listed sq g ts
          (st\<lparr>st_status := mark_skipped_dependents g (task_id t) (js_set (task_id t) TSkipped (st_status st))\<rparr>)
      else
        (let st' = run_one sq g t st in
         if st_thrown st' \<noteq> None then st' else run_listed sq g ts st'))"

text \<open>The batches: \<open>pending\<close> is the set of ids that were not started, in insertion order.\<close>

definition task_by_id :: "mission_task list \<Rightarrow> string \<Rightarrow> mission_task" where
  "task_by_id ts i = the (map_of (rev (map (\<lambda>t. (task_id t, t)) ts)) i)"

definition still_pending :: "exec_state \<Rightarrow> string list \<Rightarrow> string list" where
  "still_pending st pending = filter (\<lambda>i. js_get (st_status st) i = Some TPending) pending"

definition runnable :: "mission_task list \<Rightarrow> exec_state \<Rightarrow> string list \<Rightarrow> mission_task list" where
  "runnable ts st pending = filter (can_run (st_status st)) (map (task_by_id ts) (still_pending st pending))"

definition skip_remaining :: "string list \<Rightarrow> exec_state \<Rightarrow> exec_state" where
  "skip_remaining pending st =
     st\<lparr>st_status := fold (\<lambda>i s. if js_get s i = Some TPending then js_set i TSkipped s else s) pending (st_status st)\<rparr>"

function run_batches ::
  "squad \<Rightarrow> (string, string list) jsmap \<Rightarrow> (mission_task list \<Rightarrow> batch_event list) \<Rightarrow> mission_task list
   \<Rightarrow> string list \<Rightarrow> exec_state \<Rightarrow> exec_state" where
  "run_batches sq g sched ts pending st =
     (let pending' = still_pending st pending; rs = runnable ts st pending in
      if pending = [] then st
      else if rs = [] then skip_remaining pending' st
      else
        (let st' = fold (run_event sq g) (sched rs) st in
         if st_thrown st' \<noteq> None then st'
         else run_batches sq g sched ts (filter (\<lambda>i. task_by_id ts i \<notin> set rs) pending') st'))"
  by pat_completeness auto

lemma batch_shrinks:
  assumes "runnable ts st pending \<noteq> []"
  shows "length (filter (\<lambda>i. task_by_id ts i \<notin> set (runnable ts st pending)) (still_pending st pending)) < length pending"
proof -
  let ?P = "still_pending st pending" and ?R = "set (runnable ts st pending)"
  from assms obtain t where t: "t \<in> ?R" by (cases "runnable ts st pending") auto
  then obtain i where "i \<in> set ?P" "task_by_id ts i = t"
    by (auto simp: runnable_def)
  with t have "length (filter (\<lambda>i. task_by_id ts i \<notin> ?R) ?P) < length ?P"
    by (intro length_filter_less) auto
  also have "\<dots> \<le> length pending" by (simp add: still_pending_def)
  finally show ?thesis .
qed

termination run_batches
  by (relation "measure (\<lambda>(sq, g, sched, ts, pending, st). length pending)") (simp_all add: batch_shrinks)

declare run_batches.simps [simp del]

definition initial_state :: "mission_task list \<Rightarrow> exec_state" where
  "initial_state ts =
     \<lparr>st_status = fold (\<lambda>t. js_set (task_id t) TPending) ts [], st_results = [], st_started = [],
      st_ticks = 1, st_thrown = None\<rparr>"

definition execute_state ::
  "squad \<Rightarrow> (mission_task list \<Rightarrow> batch_event list) \<Rightarrow> mission_task list \<Rightarrow> exec_state" where
  "execute_state sq sched ts =
     (let g = dependents_by_task_id ts in
      if parallelize sq then run_batches sq g sched ts (rev (remdups (rev (map task_id ts)))) (initial_state ts)
      else run_listed sq g ts (initial_state ts))"

definition execute_plan ::
  "squad \<Rightarrow> (mission_task list \<Rightarrow> batch_event list) \<Rightarrow> mission_plan \<Rightarrow> thrown + mission_execution" where
  "execute_plan sq sched p =
     (let st = execute_state sq sched (plan_tasks p) in
      case st_thrown st of
        Some e \<Rightarrow> Inl e
      | None \<Rightarrow> Inr \<lparr>ex_started_at = clock sq 0, ex_finished_at = Some (clock sq (st_ticks st)),
                     ex_task_status = st_status st, ex_results = st_results st\<rparr>)"

end
