(* ===== verification/Squad_Correct.thy ===== *)
theory Squad_Correct
  imports Squad
begin

text \<open>
  The properties of the squad coordinator. The executions in listed order and in batches keep one
  invariant, \<open>exec_ok\<close>: what a task's status says of its dependencies and of its result. At the end
  no task is pending, and the invariant turns into an equation for the final statuses that does not
  mention the order of the execution.
\<close>

section \<open>Statuses of a task\<close>

abbreviation status_of_task :: "exec_state \<Rightarrow> mission_task \<Rightarrow> task_status option" where
  "status_of_task st t \<equiv> js_get (st_status st) (task_id t)"

text \<open>A dependency is dead when it can never be succeeded: failed, skipped, or not a task.\<close>

definition dead :: "(string, task_status) jsmap \<Rightarrow> string \<Rightarrow> bool" where
  "dead s d \<longleftrightarrow> js_get s d \<in> {None, Some TFailed, Some TSkipped}"

definition final_status :: "squad \<Rightarrow> mission_task \<Rightarrow> task_status" where
  "final_status sq t = (if failure_of sq t = None then TSucceeded else TFailed)"

definition task_ok :: "squad \<Rightarrow> (string, task_status) jsmap \<Rightarrow> mission_task \<Rightarrow> bool" where
  "task_ok sq s t =
     (case js_get s (task_id t) of
        None \<Rightarrow> False
      | Some TPending \<Rightarrow> True
      | Some TRunning \<Rightarrow> can_run s t
      | Some TSkipped \<Rightarrow> list_ex (dead s) (deps_of t)
      | Some x \<Rightarrow> can_run s t \<and> x = final_status sq t)"

text \<open>Only pending and running tasks change their status.\<close>

definition evolves :: "(string, task_status) jsmap \<Rightarrow> (string, task_status) jsmap \<Rightarrow> bool" where
  "evolves s s' \<longleftrightarrow> (\<forall>i. js_get s' i = js_get s i \<or> js_get s i \<in> {Some TPending, Some TRunning} \<and> js_get s' i \<noteq> None)"

lemma evolves_refl [simp]: "evolves s s"
  by (simp add: evolves_def)

lemma evolves_dead: "evolves s s' \<Longrightarrow> dead s d \<Longrightarrow> dead s' d"
  unfolding evolves_def dead_def by (drule spec [of _ d]) auto

lemma evolves_can_run:
  assumes "evolves s s'" "can_run s t"
  shows "can_run s' t"
proof -
  have "js_get s' d = Some TSucceeded" if "js_get s d = Some TSucceeded" for d
    using assms(1) [unfolded evolves_def, rule_format, of d] that by auto
  then show ?thesis using assms(2) by (simp add: can_run_def list_all_iff)
qed

lemma task_ok_same:
  assumes "evolves s s'" "js_get s' (task_id t) = js_get s (task_id t)" "task_ok sq s t"
  shows "task_ok sq s' t"
  using assms evolves_can_run [OF assms(1), of t] evolves_dead [OF assms(1)]
  by (auto simp: task_ok_def list_ex_iff split: option.splits task_status.splits)

section \<open>Marking dependents\<close>

definition skips :: "(string, string list) jsmap \<Rightarrow> (string, task_status) jsmap \<Rightarrow> (string, task_status) jsmap \<Rightarrow> bool" where
  "skips g s s' \<longleftrightarrow> (\<forall>i. js_get s' i = js_get s i \<or>
     js_get s i = Some TPending \<and> js_get s' i = Some TSkipped \<and> (\<exists>d. i \<in> set (dependents_of g d) \<and> dead s' d))"

lemma skips_refl [simp]: "skips g s s"
  by (simp add: skips_def)

lemma skips_evolves: "skips g s s' \<Longrightarrow> evolves s s'"
  unfolding skips_def evolves_def by (intro allI, drule_tac x = i in spec) auto

lemma skips_trans:
  assumes "skips g s s'" "skips g s' s''"
  shows "skips g s s''"
  unfolding skips_def
proof
  fix i
  have 1: "js_get s' i = js_get s i \<or>
     js_get s i = Some TPending \<and> js_get s' i = Some TSkipped \<and> (\<exists>d. i \<in> set (dependents_of g d) \<and> dead s' d)"
    using assms(1) by (simp add: skips_def)
  have 2: "js_get s'' i = js_get s' i \<or>
     js_get s' i = Some TPending \<and> js_get s'' i = Some TSkipped \<and> (\<exists>d. i \<in> set (dependents_of g d) \<and> dead s'' d)"
    using assms(2) by (simp add: skips_def)
  have 3: "dead s' d \<Longrightarrow> dead s'' d" for d
    by (rule evolves_dead [OF skips_evolves [OF assms(2)]])
  show "js_get s'' i = js_get s i \<or>
     js_get s i = Some TPending \<and> js_get s'' i = Some TSkipped \<and> (\<exists>d. i \<in> set (dependents_of g d) \<and> dead s'' d)"
    using 1 2 3 by auto
qed

lemma js_get_skip_dependents:
  "js_get (snd (skip_dependents ds s)) i =
     (if i \<in> set ds \<and> js_get s i = Some TPending then Some TSkipped else js_get s i)"
  by (induction ds s rule: skip_dependents.induct)
    (auto simp: split_beta Let_def split: option.splits task_status.splits)

lemma skip_dependents_queue_from:
  "i \<in> set (fst (skip_dependents ds s)) \<Longrightarrow> i \<in> set ds \<and> js_get s i \<in> {Some TPending, Some TSkipped}"
  by (induction ds s rule: skip_dependents.induct)
    (auto simp: split_beta Let_def split: option.splits task_status.splits if_splits)

lemma skip_dependents_queue:
  "i \<in> set (fst (skip_dependents ds s)) \<Longrightarrow> js_get (snd (skip_dependents ds s)) i = Some TSkipped"
  using skip_dependents_queue_from [of i ds s] by (auto simp: js_get_skip_dependents)

lemma skip_dependents_skips:
  assumes "dead s cur"
  shows "skips g s (snd (skip_dependents (dependents_of g cur) s))"
proof -
  have "dead (snd (skip_dependents (dependents_of g cur) s)) cur"
    using assms by (auto simp: dead_def js_get_skip_dependents)
  then show ?thesis by (auto simp: skips_def js_get_skip_dependents)
qed

lemma mark_loop_skips: "\<forall>d \<in> set queue. dead s d \<Longrightarrow> skips g s (mark_loop g queue visited s)"
proof (induction g queue visited s rule: mark_loop.induct)
  case (2 g cur queue visited s)
  show ?case
  proof (cases "cur \<in> set visited")
    case False
    let ?s = "snd (skip_dependents (dependents_of g cur) s)"
    let ?q = "fst (skip_dependents (dependents_of g cur) s)"
    have s: "skips g s ?s" using 2(3) by (intro skip_dependents_skips) simp
    have "\<forall>d \<in> set (queue @ ?q). dead ?s d"
    proof
      fix d assume "d \<in> set (queue @ ?q)"
      then consider "d \<in> set queue" | "d \<in> set ?q" by auto
      then show "dead ?s d"
      proof cases
        case 1
        then show ?thesis using 2(3) evolves_dead [OF skips_evolves [OF s]] by simp
      next
        case 2
        then show ?thesis by (simp add: dead_def skip_dependents_queue)
      qed
    qed
    then have "skips g ?s (mark_loop g (queue @ ?q) (cur # visited) ?s)"
      by (rule 2(2) [OF False])
    then have "skips g s (mark_loop g (queue @ ?q) (cur # visited) ?s)"
      by (rule skips_trans [OF s])
    then show ?thesis using False by simp
  next
    case True
    then show ?thesis using 2(1) [OF True] 2(3) by simp
  qed
qed simp

lemma mark_skipped_skips: "dead s i \<Longrightarrow> skips g s (mark_skipped_dependents g i s)"
  unfolding mark_skipped_dependents_def by (rule mark_loop_skips) simp

text \<open>The dependency graph lists exactly the tasks that name a task.\<close>

lemma dependents_of_add:
  "dependents_of (add_dependent i d g) d' = (if d' = d then dependents_of g d @ [i] else dependents_of g d')"
  by (simp add: dependents_of_def add_dependent_def)

lemma dependents_of_adds:
  "i \<in> set (dependents_of (fold (add_dependent j) ds g) d) \<longleftrightarrow>
     i \<in> set (dependents_of g d) \<or> i = j \<and> d \<in> set ds"
  by (induction ds arbitrary: g) (auto simp: dependents_of_add)

lemma dependents_of_fold:
  "i \<in> set (dependents_of (fold (\<lambda>t. fold (add_dependent (task_id t)) (deps_of t)) ts g) d) \<longleftrightarrow>
     i \<in> set (dependents_of g d) \<or> (\<exists>t \<in> set ts. task_id t = i \<and> d \<in> set (deps_of t))"
  by (induction ts arbitrary: g) (auto simp: dependents_of_adds)

lemma dependents_iff:
  "i \<in> set (dependents_of (dependents_by_task_id ts) d) \<longleftrightarrow> (\<exists>t \<in> set ts. task_id t = i \<and> d \<in> set (deps_of t))"
  by (simp add: dependents_by_task_id_def dependents_of_fold) (simp add: dependents_of_def)

lemma js_get_initial:
  "js_get (fold (\<lambda>t. js_set (task_id t) TPending) ts s) i =
     (if i \<in> task_id ` set ts then Some TPending else js_get s i)"
  by (induction ts arbitrary: s) auto

section \<open>The invariant\<close>

definition results_ok :: "exec_state \<Rightarrow> bool" where
  "results_ok st \<longleftrightarrow> distinct (map res_task_id (st_results st)) \<and>
     (\<forall>i x. (i, x) \<in> (\<lambda>r. (res_task_id r, res_status r)) ` set (st_results st) \<longleftrightarrow>
        js_get (st_status st) i = Some x \<and> x \<in> {TSucceeded, TFailed})"

definition exec_ok :: "squad \<Rightarrow> mission_task list \<Rightarrow> exec_state \<Rightarrow> bool" where
  "exec_ok sq ts st \<longleftrightarrow> (\<forall>t \<in> set ts. task_ok sq (st_status st) t) \<and> results_ok st \<and>
     (\<forall>i. i \<notin> task_id ` set ts \<longrightarrow> js_get (st_status st) i = None)"

lemma exec_ok_initial: "exec_ok sq ts (initial_state ts)"
  by (auto simp: exec_ok_def initial_state_def results_ok_def task_ok_def js_get_initial)

lemma js_get_start:
  "js_get (st_status (start_task sq t st)) i =
     (if i = task_id t then Some (if agent_by_id sq (task_role t) = None then TFailed else TRunning)
      else js_get (st_status st) i)"
  by (simp add: start_task_def split: option.split)

lemma js_get_settle:
  "js_get (st_status (settle_task sq t st)) i =
     (if i = task_id t \<and> agent_by_id sq (task_role t) \<noteq> None then Some (final_status sq t)
      else js_get (st_status st) i)"
  by (auto simp: settle_task_def failure_of_def final_status_def split: option.split task_outcome.split)

lemma final_status_cases: "final_status sq t = TSucceeded \<or> final_status sq t = TFailed"
  by (simp add: final_status_def)

lemma no_agent_fails: "agent_by_id sq (task_role t) = None \<Longrightarrow> final_status sq t = TFailed"
  by (simp add: final_status_def failure_of_def)

text \<open>One result more, for a task that had none.\<close>

lemma results_ok_snoc:
  assumes "results_ok st" "js_get (st_status st) i \<notin> {Some TSucceeded, Some TFailed}"
    and "st_results st' = st_results st @ [r]" "res_task_id r = i" "res_status r = x" "x \<in> {TSucceeded, TFailed}"
    and "\<And>j. js_get (st_status st') j = (if j = i then Some x else js_get (st_status st) j)"
  shows "results_ok st'"
proof -
  have fresh: "i \<notin> res_task_id ` set (st_results st)"
  proof
    assume "i \<in> res_task_id ` set (st_results st)"
    then obtain q where "q \<in> set (st_results st)" "res_task_id q = i" by auto
    then have "(i, res_status q) \<in> (\<lambda>r. (res_task_id r, res_status r)) ` set (st_results st)" by auto
    then have "js_get (st_status st) i \<in> {Some TSucceeded, Some TFailed}"
      using assms(1) unfolding results_ok_def by auto
    then show False using assms(2) by simp
  qed
  let ?f = "\<lambda>r. (res_task_id r, res_status r)"
  have im: "?f ` set (st_results st') = insert (i, x) (?f ` set (st_results st))"
    using assms(3-5) by auto
  have "distinct (map res_task_id (st_results st'))"
    using assms(1, 3, 4) fresh by (simp add: results_ok_def)
  moreover have "(j, y) \<in> ?f ` set (st_results st') \<longleftrightarrow>
      js_get (st_status st') j = Some y \<and> y \<in> {TSucceeded, TFailed}" for j y
  proof (cases "j = i")
    case True
    have "(i, y) \<notin> ?f ` set (st_results st)" using fresh by (auto simp: image_iff)
    then show ?thesis using True assms(6, 7) im by auto
  next
    case False
    then show ?thesis using assms(1, 7) im by (simp add: results_ok_def)
  qed
  ultimately show ?thesis by (simp add: results_ok_def)
qed

lemma results_ok_same:
  assumes "results_ok st" "st_results st' = st_results st"
    and "\<And>j x. x \<in> {TSucceeded, TFailed} \<Longrightarrow> js_get (st_status st') j = Some x \<longleftrightarrow> js_get (st_status st) j = Some x"
  shows "results_ok st'"
  using assms unfolding results_ok_def by (metis (no_types, lifting))

text \<open>A change of one task's status that keeps the invariant.\<close>

lemma exec_ok_update:
  assumes ok: "exec_ok sq ts st" and d: "distinct (map task_id ts)" and t: "t \<in> set ts"
    and st: "status_of_task st t \<in> {Some TPending, Some TRunning}" "can_run (st_status st) t"
    and st': "\<And>j. js_get (st_status st') j = (if j = task_id t then Some x else js_get (st_status st) j)"
    and x: "x = TRunning \<or> x = final_status sq t" and r: "results_ok st'"
  shows "exec_ok sq ts st'"
proof -
  have ev: "evolves (st_status st) (st_status st')"
    using st(1) st' by (auto simp: evolves_def)
  have "task_ok sq (st_status st') u" if u: "u \<in> set ts" for u
  proof (cases "u = t")
    case True
    have "can_run (st_status st') t" by (rule evolves_can_run [OF ev st(2)])
    then show ?thesis
      using True x st' [of "task_id t"] final_status_cases [of sq t] by (auto simp: task_ok_def)
  next
    case False
    then have "task_id u \<noteq> task_id t" using d t u by (auto simp: distinct_map inj_on_def)
    then show ?thesis
      using ok u st' by (intro task_ok_same [OF ev]) (auto simp: exec_ok_def)
  qed
  then show ?thesis using ok r t st' by (auto simp: exec_ok_def)
qed

lemma start_ok:
  assumes "exec_ok sq ts st" "distinct (map task_id ts)" "t \<in> set ts"
    and "status_of_task st t = Some TPending" "can_run (st_status st) t"
  shows "exec_ok sq ts (start_task sq t st)"
proof (rule exec_ok_update [OF assms(1-3) _ assms(5) js_get_start])
  have r: "results_ok st" using assms(1) by (simp add: exec_ok_def)
  show "results_ok (start_task sq t st)"
  proof (cases "agent_by_id sq (task_role t)")
    case None
    then obtain q where q: "st_results (start_task sq t st) = st_results st @ [q]" "res_task_id q = task_id t"
      "res_status q = TFailed"
      by (simp add: start_task_def)
    show ?thesis
      by (rule results_ok_snoc [OF r _ q]) (use assms(4) None in \<open>simp_all add: js_get_start\<close>)
  next
    case (Some run)
    show ?thesis
      by (rule results_ok_same [OF r]) (use assms(4) Some in \<open>auto simp: start_task_def\<close>)
  qed
  show "(if agent_by_id sq (task_role t) = None then TFailed else TRunning) = TRunning \<or>
        (if agent_by_id sq (task_role t) = None then TFailed else TRunning) = final_status sq t"
    by (simp add: no_agent_fails)
qed (use assms(4) in simp)

lemma settle_ok:
  assumes "exec_ok sq ts st" "distinct (map task_id ts)" "t \<in> set ts"
    and "agent_by_id sq (task_role t) = Some run" "status_of_task st t = Some TRunning" "can_run (st_status st) t"
  shows "exec_ok sq ts (settle_task sq t st)"
proof (rule exec_ok_update [OF assms(1-3) _ assms(6)])
  have r: "results_ok st" using assms(1) by (simp add: exec_ok_def)
  show eq: "js_get (st_status (settle_task sq t st)) j =
      (if j = task_id t then Some (final_status sq t) else js_get (st_status st) j)" for j
    using assms(4) by (simp add: js_get_settle)
  obtain q where q: "st_results (settle_task sq t st) = st_results st @ [q]" "res_task_id q = task_id t"
    "res_status q = final_status sq t"
    using assms(4) by (cases "run t") (auto simp: settle_task_def final_status_def failure_of_def)
  show "results_ok (settle_task sq t st)"
    by (rule results_ok_snoc [OF r _ q _ eq])
      (use assms(5) final_status_cases [of sq t] in auto)
qed (use assms(5) in auto)

lemma mark_skips:
  assumes "failure_of sq t \<noteq> None \<Longrightarrow> status_of_task st t = Some TFailed"
  shows "skips g (st_status st) (st_status (mark_failure sq g t st))"
  using assms by (auto simp: mark_failure_def dead_def intro: mark_skipped_skips split: option.split)

lemma skips_ok:
  assumes ok: "exec_ok sq ts st" and sk: "skips (dependents_by_task_id ts) (st_status st) (st_status st')"
    and d: "distinct (map task_id ts)" and r: "st_results st' = st_results st"
  shows "exec_ok sq ts st'"
proof -
  note ev = skips_evolves [OF sk]
  have "task_ok sq (st_status st') t" if t: "t \<in> set ts" for t
  proof (cases "status_of_task st' t = status_of_task st t")
    case True
    then show ?thesis using ok t by (intro task_ok_same [OF ev]) (auto simp: exec_ok_def)
  next
    case False
    then have s: "status_of_task st' t = Some TSkipped"
      and "\<exists>e. task_id t \<in> set (dependents_of (dependents_by_task_id ts) e) \<and> dead (st_status st') e"
      using sk unfolding skips_def by blast+
    then obtain e u where "dead (st_status st') e" "u \<in> set ts" "task_id u = task_id t" "e \<in> set (deps_of u)"
      by (auto simp: dependents_iff)
    moreover from this have "u = t" using t d by (auto simp: distinct_map inj_on_def)
    ultimately show ?thesis using s by (auto simp: task_ok_def list_ex_iff)
  qed
  moreover have "results_ok st'"
  proof (rule results_ok_same [OF _ r])
    show "js_get (st_status st') j = Some x \<longleftrightarrow> js_get (st_status st) j = Some x" if "x \<in> {TSucceeded, TFailed}" for j x
      using sk that unfolding skips_def by (drule_tac x = j in spec) auto
  qed (use ok in \<open>simp add: exec_ok_def\<close>)
  moreover have "js_get (st_status st') i = None" if "i \<notin> task_id ` set ts" for i
    using ok sk that unfolding skips_def exec_ok_def by (metis option.distinct(1))
  ultimately show ?thesis by (simp add: exec_ok_def)
qed

lemma mark_results [simp]: "st_results (mark_failure sq g t st) = st_results st"
  by (simp add: mark_failure_def split: option.split)

section \<open>A batch under any schedule\<close>

lemma evolves_trans: "evolves s s' \<Longrightarrow> evolves s' s'' \<Longrightarrow> evolves s s''"
  unfolding evolves_def by (intro allI, drule_tac x = i in spec, drule_tac x = i in spec) auto

definition valid_schedule :: "(mission_task list \<Rightarrow> batch_event list) \<Rightarrow> bool" where
  "valid_schedule sched \<longleftrightarrow> (\<forall>rs. (\<forall>e \<in> set (sched rs). ev_task e \<in> set rs) \<and>
     (\<forall>t \<in> set rs. filter (\<lambda>e. ev_task e = t) (sched rs) = [Start t, Settle t, Mark t]))"

text \<open>Where a task of the batch stands, by the events it still has to go through.\<close>

definition stage_ok :: "squad \<Rightarrow> exec_state \<Rightarrow> mission_task \<Rightarrow> batch_event list \<Rightarrow> bool" where
  "stage_ok sq st t evs \<longleftrightarrow>
     evs = [Start t, Settle t, Mark t] \<and> status_of_task st t = Some TPending \<or>
     evs = [Settle t, Mark t] \<and>
       status_of_task st t = Some (if agent_by_id sq (task_role t) = None then TFailed else TRunning) \<or>
     (evs = [Mark t] \<or> evs = []) \<and> status_of_task st t = Some (final_status sq t)"

definition batch_ok :: "squad \<Rightarrow> mission_task list \<Rightarrow> batch_event list \<Rightarrow> exec_state \<Rightarrow> bool" where
  "batch_ok sq rs evs st \<longleftrightarrow>
     (\<forall>t \<in> set rs. can_run (st_status st) t \<and> stage_ok sq st t (filter (\<lambda>e. ev_task e = t) evs)) \<and>
     (\<forall>e \<in> set evs. ev_task e \<in> set rs) \<and>
     (\<forall>i. js_get (st_status st) i = Some TRunning \<longrightarrow> i \<in> task_id ` set rs)"

lemma batch_ok_next:
  assumes b: "batch_ok sq rs (e # evs) st" and ev: "evolves (st_status st) (st_status st')"
    and same: "\<And>i. i \<noteq> task_id (ev_task e) \<Longrightarrow> i \<in> task_id ` set rs \<Longrightarrow> js_get (st_status st') i = js_get (st_status st) i"
    and run: "\<And>i. js_get (st_status st') i = Some TRunning \<Longrightarrow> js_get (st_status st) i = Some TRunning \<or> i = task_id (ev_task e)"
    and d: "inj_on task_id (set rs)"
    and stage: "stage_ok sq st' (ev_task e) (filter (\<lambda>f. ev_task f = ev_task e) evs)"
  shows "batch_ok sq rs evs st'"
proof -
  have "can_run (st_status st') t \<and> stage_ok sq st' t (filter (\<lambda>f. ev_task f = t) evs)" if t: "t \<in> set rs" for t
  proof (cases "t = ev_task e")
    case True
    then show ?thesis using b t stage evolves_can_run [OF ev] by (auto simp: batch_ok_def)
  next
    case False
    have e: "ev_task e \<in> set rs" using b by (simp add: batch_ok_def)
    then have "task_id t \<noteq> task_id (ev_task e)" using False t d by (auto simp: inj_on_def)
    then have "status_of_task st' t = status_of_task st t" using same t by simp
    moreover have "stage_ok sq st t (filter (\<lambda>f. ev_task f = t) evs)" "can_run (st_status st) t"
      using b t False by (auto simp: batch_ok_def)
    ultimately show ?thesis using evolves_can_run [OF ev] by (simp add: stage_ok_def)
  qed
  moreover have "i \<in> task_id ` set rs" if "js_get (st_status st') i = Some TRunning" for i
    using run [OF that] b by (auto simp: batch_ok_def)
  ultimately show ?thesis using b by (simp add: batch_ok_def)
qed

text \<open>A task whose dependencies have succeeded is never skipped by the failure of another task.\<close>

lemma skips_spares_runnable:
  assumes sk: "skips (dependents_by_task_id ts) s s'" and d: "distinct (map task_id ts)"
    and t: "t \<in> set ts" "can_run s t"
  shows "js_get s' (task_id t) = js_get s (task_id t)"
proof (rule ccontr)
  assume "js_get s' (task_id t) \<noteq> js_get s (task_id t)"
  then obtain e where "task_id t \<in> set (dependents_of (dependents_by_task_id ts) e)" and e: "dead s' e"
    using sk unfolding skips_def by blast
  then obtain u where "u \<in> set ts" "task_id u = task_id t" "e \<in> set (deps_of u)"
    by (auto simp: dependents_iff)
  moreover from this have "u = t" using t(1) d by (auto simp: distinct_map inj_on_def)
  ultimately have "js_get s' e = Some TSucceeded"
    using evolves_can_run [OF skips_evolves [OF sk] t(2)] by (simp add: can_run_def list_all_iff)
  then show False using e by (simp add: dead_def)
qed

lemma batch_event:
  assumes ok: "exec_ok sq ts st" and d: "distinct (map task_id ts)" and sub: "set rs \<subseteq> set ts"
    and b: "batch_ok sq rs (e # evs) st" and st': "st' = run_event sq (dependents_by_task_id ts) e st"
  shows "exec_ok sq ts st' \<and> batch_ok sq rs evs st' \<and> evolves (st_status st) (st_status st')"
proof -
  let ?t = "ev_task e"
  have t: "?t \<in> set rs" using b by (simp add: batch_ok_def)
  then have tt: "?t \<in> set ts" using sub by auto
  have can: "can_run (st_status st) ?t"
    and stage: "stage_ok sq st ?t (e # filter (\<lambda>f. ev_task f = ?t) evs)"
    using b t by (auto simp: batch_ok_def)
  have inj: "inj_on task_id (set rs)" using d sub by (auto simp: distinct_map intro: inj_on_subset)
  show ?thesis
  proof (cases e)
    case (Start t)
    then have s: "status_of_task st t = Some TPending" and f: "filter (\<lambda>f. ev_task f = t) evs = [Settle t, Mark t]"
      using stage by (auto simp: stage_ok_def)
    have ev: "evolves (st_status st) (st_status st')"
      using s by (simp add: st' Start evolves_def js_get_start)
    have "exec_ok sq ts st'" using start_ok [OF ok d] tt s can by (simp add: st' Start)
    moreover have "batch_ok sq rs evs st'"
      by (rule batch_ok_next [OF b ev _ _ inj]) (use f in \<open>auto simp: st' Start js_get_start stage_ok_def split: if_splits\<close>)
    ultimately show ?thesis using ev by simp
  next
    case (Settle t)
    then have s: "status_of_task st t = Some (if agent_by_id sq (task_role t) = None then TFailed else TRunning)"
      and f: "filter (\<lambda>f. ev_task f = t) evs = [Mark t]"
      using stage by (auto simp: stage_ok_def)
    have ev: "evolves (st_status st) (st_status st')"
      using s by (auto simp: st' Settle evolves_def js_get_settle)
    have "exec_ok sq ts st'"
    proof (cases "agent_by_id sq (task_role t)")
      case None
      then show ?thesis using ok by (simp add: st' Settle settle_task_def)
    next
      case (Some run)
      then show ?thesis using settle_ok [OF ok d _ Some] tt s can Settle by (simp add: st')
    qed
    moreover have "batch_ok sq rs evs st'"
      by (rule batch_ok_next [OF b ev _ _ inj])
        (use f s no_agent_fails in \<open>auto simp: st' Settle js_get_settle stage_ok_def split: if_splits\<close>)
    ultimately show ?thesis using ev by simp
  next
    case (Mark t)
    then have s: "status_of_task st t = Some (final_status sq t)"
      and f: "filter (\<lambda>f. ev_task f = t) evs = []"
      using stage by (auto simp: stage_ok_def)
    have sk: "skips (dependents_by_task_id ts) (st_status st) (st_status st')"
      unfolding st' Mark run_event.simps by (rule mark_skips) (use s in \<open>simp add: final_status_def\<close>)
    note ev = skips_evolves [OF sk]
    have "exec_ok sq ts st'" by (rule skips_ok [OF ok sk d]) (simp add: st' Mark)
    moreover have "batch_ok sq rs evs st'"
    proof (rule batch_ok_next [OF b ev _ _ inj])
      show "js_get (st_status st') i = js_get (st_status st) i" if "i \<in> task_id ` set rs" for i
      proof -
        from that obtain u where "u \<in> set rs" "i = task_id u" by auto
        moreover from this have "can_run (st_status st) u" "u \<in> set ts" using b sub by (auto simp: batch_ok_def)
        ultimately show ?thesis using skips_spares_runnable [OF sk d] by simp
      qed
      then show "stage_ok sq st' (ev_task e) (filter (\<lambda>f. ev_task f = ev_task e) evs)"
        using f s t Mark by (simp add: stage_ok_def)
      show "js_get (st_status st') i = Some TRunning \<Longrightarrow> js_get (st_status st) i = Some TRunning \<or> i = task_id (ev_task e)" for i
        using sk unfolding skips_def by (metis option.inject task_status.distinct(13) task_status.distinct(3))
    qed
    ultimately show ?thesis using ev by simp
  qed
qed

definition idle :: "exec_state \<Rightarrow> bool" where
  "idle st \<longleftrightarrow> (\<forall>i. js_get (st_status st) i \<noteq> Some TRunning)"

lemma batch_events:
  assumes "exec_ok sq ts st" "distinct (map task_id ts)" "set rs \<subseteq> set ts" "batch_ok sq rs evs st"
    and "st' = fold (run_event sq (dependents_by_task_id ts)) evs st"
  shows "exec_ok sq ts st' \<and> batch_ok sq rs [] st' \<and> evolves (st_status st) (st_status st')"
  using assms
proof (induction evs arbitrary: st)
  case (Cons e evs)
  let ?s = "run_event sq (dependents_by_task_id ts) e st"
  have "exec_ok sq ts ?s \<and> batch_ok sq rs evs ?s \<and> evolves (st_status st) (st_status ?s)"
    by (rule batch_event [OF Cons.prems(1-4) refl])
  with Cons.IH [of ?s] Cons.prems show ?case using evolves_trans by auto
qed simp

lemma batch_done:
  assumes "batch_ok sq rs [] st"
  shows "idle st \<and> (\<forall>t \<in> set rs. status_of_task st t = Some (final_status sq t))"
proof -
  have *: "\<forall>t \<in> set rs. status_of_task st t = Some (final_status sq t)"
    using assms by (auto simp: batch_ok_def stage_ok_def)
  moreover have "idle st"
    unfolding idle_def
  proof (intro allI notI)
    fix i assume i: "js_get (st_status st) i = Some TRunning"
    then obtain t where "t \<in> set rs" "i = task_id t" using assms by (auto simp: batch_ok_def)
    then show False using * i final_status_cases [of sq t] by auto
  qed
  ultimately show ?thesis by simp
qed

text \<open>A whole batch, from a state in which nothing runs.\<close>

lemma run_batch:
  assumes "exec_ok sq ts st" "distinct (map task_id ts)" "set rs \<subseteq> set ts" "idle st"
    and "\<forall>t \<in> set rs. status_of_task st t = Some TPending \<and> can_run (st_status st) t"
    and "\<forall>e \<in> set evs. ev_task e \<in> set rs"
    and "\<forall>t \<in> set rs. filter (\<lambda>e. ev_task e = t) evs = [Start t, Settle t, Mark t]"
    and "st' = fold (run_event sq (dependents_by_task_id ts)) evs st"
  shows "exec_ok sq ts st' \<and> idle st' \<and> (\<forall>t \<in> set rs. status_of_task st' t = Some (final_status sq t))
       \<and> evolves (st_status st) (st_status st')"
proof -
  have "batch_ok sq rs evs st"
    using assms(4-7) by (simp add: batch_ok_def stage_ok_def idle_def)
  from batch_events [OF assms(1-3) this assms(8)] show ?thesis
    using batch_done by blast
qed

section \<open>The two execution loops\<close>

text \<open>
  The order-free description of the final statuses: a task succeeds or fails as its agent decides
  when all its dependencies have succeeded, and is skipped otherwise.
\<close>

definition settled :: "squad \<Rightarrow> mission_task list \<Rightarrow> (string, task_status) jsmap \<Rightarrow> bool" where
  "settled sq ts s \<longleftrightarrow> (\<forall>t \<in> set ts. js_get s (task_id t) =
     Some (if can_run s t then final_status sq t else TSkipped))"

definition finished :: "(string, task_status) jsmap \<Rightarrow> mission_task \<Rightarrow> bool" where
  "finished s t \<longleftrightarrow> js_get s (task_id t) \<in> {Some TSucceeded, Some TFailed, Some TSkipped}"

lemma finished_ok_settled:
  assumes "exec_ok sq ts st" "\<forall>t \<in> set ts. finished (st_status st) t"
  shows "settled sq ts (st_status st)"
  unfolding settled_def
proof
  fix t assume "t \<in> set ts"
  then have "task_ok sq (st_status st) t" "finished (st_status st) t"
    using assms by (auto simp: exec_ok_def)
  then show "status_of_task st t = Some (if can_run (st_status st) t then final_status sq t else TSkipped)"
    by (auto simp: task_ok_def finished_def can_run_def list_all_iff list_ex_iff dead_def)
qed

lemma evolves_finished: "evolves s s' \<Longrightarrow> finished s t \<Longrightarrow> finished s' t"
  unfolding evolves_def finished_def by (drule spec [of _ "task_id t"]) auto

text \<open>No task depends on itself or on a later task.\<close>

fun deps_backward :: "mission_task list \<Rightarrow> bool" where
  "deps_backward [] \<longleftrightarrow> True"
| "deps_backward (t # ts) \<longleftrightarrow> list_all (\<lambda>d. d \<notin> task_id ` set (t # ts)) (deps_of t) \<and> deps_backward ts"

text \<open>A task whose dependencies are finished and not all succeeded is skipped for good.\<close>

lemma skip_ok:
  assumes ok: "exec_ok sq ts st" and d: "distinct (map task_id ts)" and t: "t \<in> set ts"
    and s: "status_of_task st t = Some TPending" and dd: "list_ex (dead (st_status st)) (deps_of t)"
    and st': "st' = st\<lparr>st_status := mark_skipped_dependents (dependents_by_task_id ts) (task_id t)
                                  (js_set (task_id t) TSkipped (st_status st))\<rparr>"
  shows "exec_ok sq ts st' \<and> evolves (st_status st) (st_status st') \<and> finished (st_status st') t
    \<and> (idle st \<longrightarrow> idle st') \<and> st_thrown st' = st_thrown st"
proof -
  let ?s1 = "js_set (task_id t) TSkipped (st_status st)"
  let ?st1 = "st\<lparr>st_status := ?s1\<rparr>"
  have ev1: "evolves (st_status st) ?s1" using s by (simp add: evolves_def)
  have "task_ok sq ?s1 u" if u: "u \<in> set ts" for u
  proof (cases "u = t")
    case True
    then show ?thesis using dd evolves_dead [OF ev1] by (auto simp: task_ok_def list_ex_iff)
  next
    case False
    then have "task_id u \<noteq> task_id t" using d t u by (auto simp: distinct_map inj_on_def)
    then show ?thesis using ok u by (intro task_ok_same [OF ev1]) (auto simp: exec_ok_def)
  qed
  moreover have "results_ok ?st1"
    by (rule results_ok_same [of st]) (use ok s in \<open>auto simp: exec_ok_def\<close>)
  ultimately have ok1: "exec_ok sq ts ?st1" using ok t by (auto simp: exec_ok_def)
  have sk: "skips (dependents_by_task_id ts) ?s1 (st_status st')"
    unfolding st' by simp (rule mark_skipped_skips, simp add: dead_def)
  have "exec_ok sq ts st'"
    using skips_ok [OF ok1 _ d, of st'] sk by (simp add: st')
  moreover have "evolves (st_status st) (st_status st')"
    by (rule evolves_trans [OF ev1 skips_evolves [OF sk]])
  moreover have "finished (st_status st') t"
    by (rule evolves_finished [OF skips_evolves [OF sk]]) (simp add: finished_def)
  moreover have "idle st'" if "idle st"
    unfolding idle_def
  proof
    fix i show "js_get (st_status st') i \<noteq> Some TRunning"
      using sk that unfolding skips_def idle_def by (drule_tac x = i in spec) (auto split: if_splits)
  qed
  ultimately show ?thesis by (simp add: st')
qed

lemma not_can_run_dead:
  assumes ok: "exec_ok sq ts st" and "\<not> can_run (st_status st) t"
    and fin: "\<And>u. u \<in> set ts \<Longrightarrow> task_id u \<in> set (deps_of t) \<Longrightarrow> finished (st_status st) u"
  shows "list_ex (dead (st_status st)) (deps_of t)"
proof -
  obtain d where d: "d \<in> set (deps_of t)" "js_get (st_status st) d \<noteq> Some TSucceeded"
    using assms(2) by (auto simp: can_run_def list_all_iff)
  have "dead (st_status st) d"
  proof (cases "d \<in> task_id ` set ts")
    case True
    then obtain u where "u \<in> set ts" "d = task_id u" by auto
    with fin d show ?thesis by (fastforce simp: finished_def dead_def)
  next
    case False
    then show ?thesis using ok by (simp add: exec_ok_def dead_def)
  qed
  then show ?thesis using d by (auto simp: list_ex_iff)
qed

lemma start_thrown [simp]: "st_thrown (start_task sq t st) = st_thrown st"
  by (simp add: start_task_def split: option.split)

lemma settle_thrown [simp]: "st_thrown (settle_task sq t st) = st_thrown st"
  by (simp add: settle_task_def split_beta Let_def split: option.split)

lemma mark_thrown:
  "st_thrown (mark_failure sq g t st) =
     (if continue_on_failure sq then st_thrown st else nullish_opt (st_thrown st) (failure_of sq t))"
  by (simp add: mark_failure_def nullish_opt_def split: option.split)

lemma run_event_keeps_going:
  "continue_on_failure sq \<Longrightarrow> st_thrown (run_event sq g e st) = st_thrown st"
  by (cases e) (simp_all add: mark_thrown)

lemma fold_keeps_going:
  "continue_on_failure sq \<Longrightarrow> st_thrown (fold (run_event sq g) evs st) = st_thrown st"
  by (induction evs arbitrary: st) (simp_all add: run_event_keeps_going)

lemma not_pending_finished:
  "task_ok sq (st_status st) t \<Longrightarrow> idle st \<Longrightarrow> status_of_task st t \<noteq> Some TPending \<Longrightarrow> finished (st_status st) t"
  by (auto simp: task_ok_def finished_def idle_def split: option.splits task_status.splits)

lemma run_listed_invariant:
  assumes "exec_ok sq all st" "distinct (map task_id all)" "set ts \<subseteq> set all" "idle st"
    and "\<forall>t \<in> set all. t \<in> set ts \<or> finished (st_status st) t" "deps_backward ts" "distinct ts"
    and "st' = run_listed sq (dependents_by_task_id all) ts st" "st_thrown st' = None"
  shows "exec_ok sq all st' \<and> (\<forall>t \<in> set all. finished (st_status st') t)"
  using assms
proof (induction ts arbitrary: st)
  case (Cons t ts)
  let ?g = "dependents_by_task_id all"
  have t: "t \<in> set all" using Cons.prems(3) by simp
  have inj: "u = t" if "u \<in> set all" "task_id u = task_id t" for u
    using that t Cons.prems(2) by (auto simp: distinct_map inj_on_def)
  have next_ok: ?case if "exec_ok sq all s" "idle s" "evolves (st_status st) (st_status s)"
    "finished (st_status s) t" "st' = run_listed sq ?g ts s" for s
  proof (rule Cons.IH [OF that(1) Cons.prems(2) _ that(2) _ _ _ that(5) Cons.prems(9)])
    show "\<forall>u \<in> set all. u \<in> set ts \<or> finished (st_status s) u"
      using Cons.prems(5) that(4) evolves_finished [OF that(3)] by auto
  qed (use Cons.prems in auto)
  show ?case
  proof (cases "status_of_task st t = Some TPending")
    case False
    then have "finished (st_status st) t"
      using Cons.prems(1, 4) t by (intro not_pending_finished) (auto simp: exec_ok_def)
    then show ?thesis using next_ok [of st] Cons.prems False by simp
  next
    case True
    show ?thesis
    proof (cases "can_run (st_status st) t")
      case can: False
      let ?s = "st\<lparr>st_status := mark_skipped_dependents ?g (task_id t) (js_set (task_id t) TSkipped (st_status st))\<rparr>"
      have "list_ex (dead (st_status st)) (deps_of t)"
        by (rule not_can_run_dead [OF Cons.prems(1) can]) (use Cons.prems(5, 6) in \<open>fastforce simp: list_all_iff\<close>)
      from skip_ok [OF Cons.prems(1, 2) t True this refl]
      have "exec_ok sq all ?s" "evolves (st_status st) (st_status ?s)" "finished (st_status ?s) t" "idle ?s"
        using Cons.prems(4) by auto
      moreover have "st' = run_listed sq ?g ts ?s" using True can Cons.prems(8) by simp
      ultimately show ?thesis by (intro next_ok [of ?s])
    next
      case can: True
      let ?s = "run_one sq ?g t st"
      have "exec_ok sq all ?s \<and> idle ?s \<and> (\<forall>u \<in> set [t]. status_of_task ?s u = Some (final_status sq u))
           \<and> evolves (st_status st) (st_status ?s)"
        by (rule run_batch [OF Cons.prems(1, 2) _ Cons.prems(4), where rs = "[t]" and evs = "[Start t, Settle t, Mark t]"])
          (use t True can in \<open>simp_all add: run_one_def\<close>)
      moreover from this have "finished (st_status ?s) t"
        using final_status_cases [of sq t] by (auto simp: finished_def)
      moreover have "st' = run_listed sq ?g ts ?s"
        using True can Cons.prems(8, 9) by (simp add: Let_def split: if_splits)
      ultimately show ?thesis by (intro next_ok [of ?s]) auto
    qed
  qed
qed auto

lemma run_listed_keeps_going:
  "continue_on_failure sq \<Longrightarrow> st_thrown (run_listed sq g ts st) = st_thrown st"
  by (induction ts arbitrary: st) (simp_all add: Let_def run_one_def fold_keeps_going run_event_keeps_going del: fold.simps)

lemma task_by_id_eq: "distinct (map task_id ts) \<Longrightarrow> t \<in> set ts \<Longrightarrow> task_by_id ts (task_id t) = t"
proof -
  assume d: "distinct (map task_id ts)" and t: "t \<in> set ts"
  have "map_of (rev (map (\<lambda>t. (task_id t, t)) ts)) (task_id t) = Some t"
    by (rule map_of_is_SomeI) (use d t in \<open>simp_all add: comp_def flip: rev_map\<close>)
  then show ?thesis by (simp add: task_by_id_def)
qed

lemma js_get_skip_remaining:
  "js_get (st_status (skip_remaining pending st)) i =
     (if i \<in> set pending \<and> js_get (st_status st) i = Some TPending then Some TSkipped else js_get (st_status st) i)"
proof -
  have "js_get (fold (\<lambda>i s. if js_get s i = Some TPending then js_set i TSkipped s else s) pending s) i =
     (if i \<in> set pending \<and> js_get s i = Some TPending then Some TSkipped else js_get s i)" for s
    by (induction pending arbitrary: s) auto
  then show ?thesis by (simp add: skip_remaining_def)
qed

lemma skip_remaining_ok:
  assumes ok: "exec_ok sq ts st" and idle: "idle st"
    and all: "\<forall>t \<in> set ts. task_id t \<in> set pending \<or> finished (st_status st) t"
    and stuck: "\<forall>t \<in> set ts. status_of_task st t = Some TPending \<longrightarrow> \<not> can_run (st_status st) t"
    and st': "st' = skip_remaining pending st"
  shows "exec_ok sq ts st' \<and> (\<forall>t \<in> set ts. finished (st_status st') t)"
proof -
  note get = js_get_skip_remaining [of pending st, folded st']
  have ev: "evolves (st_status st) (st_status st')" by (simp add: evolves_def get)
  have fin: "finished (st_status st') t" if t: "t \<in> set ts" for t
  proof (cases "status_of_task st t = Some TPending")
    case True
    then show ?thesis using all t by (auto simp: finished_def get)
  next
    case False
    then have "finished (st_status st) t" using ok idle t by (intro not_pending_finished) (auto simp: exec_ok_def)
    then show ?thesis by (rule evolves_finished [OF ev])
  qed
  have "task_ok sq (st_status st') t" if t: "t \<in> set ts" for t
  proof (cases "status_of_task st' t = status_of_task st t")
    case True
    then show ?thesis using ok t by (intro task_ok_same [OF ev]) (auto simp: exec_ok_def)
  next
    case False
    then have p: "status_of_task st t = Some TPending" "status_of_task st' t = Some TSkipped"
      by (auto simp: get split: if_splits)
    then obtain d where d: "d \<in> set (deps_of t)" "js_get (st_status st) d \<noteq> Some TSucceeded"
      using stuck t by (auto simp: can_run_def list_all_iff)
    have "dead (st_status st') d"
    proof (cases "d \<in> task_id ` set ts")
      case True
      then obtain u where u: "u \<in> set ts" "d = task_id u" by auto
      then have "finished (st_status st') u" by (intro fin)
      moreover have "js_get (st_status st') d \<noteq> Some TSucceeded" using d(2) by (simp add: get)
      ultimately show ?thesis using u by (auto simp: finished_def dead_def)
    next
      case False
      then have "js_get (st_status st) d = None" using ok by (auto simp: exec_ok_def)
      then show ?thesis by (simp add: dead_def get)
    qed
    then show ?thesis using p d by (auto simp: task_ok_def list_ex_iff)
  qed
  moreover have "results_ok st'"
  proof (rule results_ok_same [of st])
    show "results_ok st" using ok by (simp add: exec_ok_def)
  qed (auto simp: get, simp add: st' skip_remaining_def)
  moreover have "\<forall>i. i \<notin> task_id ` set ts \<longrightarrow> js_get (st_status st') i = None"
    using ok by (auto simp: exec_ok_def get)
  ultimately show ?thesis using fin by (simp add: exec_ok_def)
qed

lemma run_batches_invariant:
  assumes "exec_ok sq ts st" "distinct (map task_id ts)" "idle st" "valid_schedule sched"
    and "\<forall>i \<in> set pending. i \<in> task_id ` set ts"
    and "\<forall>t \<in> set ts. task_id t \<in> set pending \<or> finished (st_status st) t"
    and "g = dependents_by_task_id ts" "st_thrown (run_batches sq g sched ts pending st) = None"
  shows "exec_ok sq ts (run_batches sq g sched ts pending st) \<and>
     (\<forall>t \<in> set ts. finished (st_status (run_batches sq g sched ts pending st)) t)"
  using assms
proof (induction sq g sched ts pending st rule: run_batches.induct)
  case (1 sq g sched ts pending st)
  let ?p = "still_pending st pending" and ?rs = "runnable ts st pending"
  let ?st = "fold (run_event sq g) (sched ?rs) st"
  let ?p' = "filter (\<lambda>i. task_by_id ts i \<notin> set ?rs) ?p"
  note prems = 1(2-9)
  have tbi: "task_by_id ts (task_id t) = t" if "t \<in> set ts" for t
    by (rule task_by_id_eq [OF prems(2) that])
  have open_p: "task_id t \<in> set ?p" if "t \<in> set ts" "status_of_task st t = Some TPending" for t
    using that prems(6) by (auto simp: still_pending_def finished_def)
  have rs_iff: "t \<in> set ?rs \<longleftrightarrow> t \<in> set ts \<and> status_of_task st t = Some TPending \<and> can_run (st_status st) t" for t
  proof
    assume "t \<in> set ?rs"
    then obtain i where "i \<in> set ?p" "t = task_by_id ts i" "can_run (st_status st) t"
      by (auto simp: runnable_def)
    moreover from this obtain u where "u \<in> set ts" "i = task_id u"
      using prems(5) by (auto simp: still_pending_def)
    ultimately show "t \<in> set ts \<and> status_of_task st t = Some TPending \<and> can_run (st_status st) t"
      using tbi by (auto simp: still_pending_def)
  next
    assume a: "t \<in> set ts \<and> status_of_task st t = Some TPending \<and> can_run (st_status st) t"
    then have "task_id t \<in> set ?p" "task_by_id ts (task_id t) = t" using open_p tbi by auto
    then show "t \<in> set ?rs" using a by (force simp: runnable_def)
  qed
  consider "pending = []" | "pending \<noteq> []" "?rs = []" | "pending \<noteq> []" "?rs \<noteq> []" by blast
  then show ?case
  proof cases
    case 1
    then have "run_batches sq g sched ts pending st = st" by (simp add: run_batches.simps)
    then show ?thesis using prems(1, 6) 1 by simp
  next
    case 2
    then have eq: "run_batches sq g sched ts pending st = skip_remaining ?p st"
      by (subst run_batches.simps) simp
    have "\<forall>t \<in> set ts. status_of_task st t = Some TPending \<longrightarrow> \<not> can_run (st_status st) t"
      using rs_iff 2 by auto
    moreover have "\<forall>t \<in> set ts. task_id t \<in> set ?p \<or> finished (st_status st) t"
      using prems(1, 3) open_p not_pending_finished unfolding exec_ok_def by blast
    ultimately show ?thesis unfolding eq by (intro skip_remaining_ok [OF prems(1, 3) _ _ refl])
  next
    case 3
    have thrown: "st_thrown ?st = None"
      and eq: "run_batches sq g sched ts pending st = run_batches sq g sched ts ?p' ?st"
      using prems(8) 3 by (subst (asm) run_batches.simps, simp add: Let_def split: if_splits)
        (subst run_batches.simps, use prems(8) 3 in \<open>subst (asm) run_batches.simps, simp add: Let_def split: if_splits\<close>)
    have step: "exec_ok sq ts ?st \<and> idle ?st \<and> (\<forall>t \<in> set ?rs. status_of_task ?st t = Some (final_status sq t))
       \<and> evolves (st_status st) (st_status ?st)"
    proof (rule run_batch [OF prems(1, 2) _ prems(3), where rs = ?rs and evs = "sched ?rs"])
      show "\<forall>t \<in> set ?rs. filter (\<lambda>e. ev_task e = t) (sched ?rs) = [Start t, Settle t, Mark t]"
        using prems(4) by (simp add: valid_schedule_def)
      show "\<forall>e \<in> set (sched ?rs). ev_task e \<in> set ?rs"
        using prems(4) by (simp add: valid_schedule_def)
    qed (use rs_iff prems(7) in auto)
    have "\<forall>t \<in> set ts. task_id t \<in> set ?p' \<or> finished (st_status ?st) t"
    proof
      fix t assume t: "t \<in> set ts"
      show "task_id t \<in> set ?p' \<or> finished (st_status ?st) t"
      proof (cases "status_of_task st t = Some TPending")
        case False
        then have "finished (st_status st) t"
          using prems(1, 3) t by (intro not_pending_finished) (auto simp: exec_ok_def)
        then show ?thesis using evolves_finished step by blast
      next
        case True
        then show ?thesis
          using open_p [OF t] tbi [OF t] step final_status_cases [of sq t] by (auto simp: finished_def)
      qed
    qed
    moreover have "\<forall>i \<in> set ?p'. i \<in> task_id ` set ts" using prems(5) by (simp add: still_pending_def)
    ultimately show ?thesis
      unfolding eq using 1(1) [OF refl refl 3 refl] thrown step prems(2, 4, 7, 8) eq by simp
  qed
qed

lemma run_batches_keeps_going:
  "continue_on_failure sq \<Longrightarrow> st_thrown (run_batches sq g sched ts pending st) = st_thrown st"
proof (induction sq g sched ts pending st rule: run_batches.induct)
  case (1 sq g sched ts pending st)
  show ?case
    using 1(1) [OF refl refl] 1(2)
    by (subst run_batches.simps) (simp add: Let_def skip_remaining_def fold_keeps_going)
qed

section \<open>Whole executions\<close>

lemma idle_initial: "idle (initial_state ts)"
  by (simp add: idle_def initial_state_def js_get_initial)

lemma execute_state_invariant:
  assumes "distinct (map task_id ts)"
    and "if parallelize sq then valid_schedule sched else deps_backward ts"
    and "st_thrown (execute_state sq sched ts) = None"
  shows "exec_ok sq ts (execute_state sq sched ts) \<and> settled sq ts (st_status (execute_state sq sched ts))"
proof -
  let ?st = "execute_state sq sched ts"
  have "exec_ok sq ts ?st \<and> (\<forall>t \<in> set ts. finished (st_status ?st) t)"
  proof (cases "parallelize sq")
    case True
    then have eq: "?st = run_batches sq (dependents_by_task_id ts) sched ts (rev (remdups (rev (map task_id ts)))) (initial_state ts)"
      by (simp add: execute_state_def Let_def)
    show ?thesis
      unfolding eq
      by (rule run_batches_invariant [OF exec_ok_initial assms(1) idle_initial _ _ _ refl])
        (use assms(2, 3) True eq in auto)
  next
    case False
    then have eq: "?st = run_listed sq (dependents_by_task_id ts) ts (initial_state ts)"
      by (simp add: execute_state_def Let_def)
    show ?thesis
      by (rule run_listed_invariant [OF exec_ok_initial assms(1) subset_refl idle_initial _ _ _ eq assms(3)])
        (use assms(1, 2) False in \<open>auto simp: distinct_map\<close>)
  qed
  then show ?thesis using finished_ok_settled by blast
qed

lemma execute_plan_keeps_going:
  assumes "continue_on_failure sq"
  shows "\<exists>ex. execute_plan sq sched p = Inr ex \<and> ex_task_status ex = st_status (execute_state sq sched (plan_tasks p))
    \<and> ex_results ex = st_results (execute_state sq sched (plan_tasks p))
    \<and> st_thrown (execute_state sq sched (plan_tasks p)) = None"
proof -
  have "st_thrown (execute_state sq sched (plan_tasks p)) = None"
    using assms by (simp add: execute_state_def Let_def run_batches_keeps_going run_listed_keeps_going initial_state_def)
  then show ?thesis by (simp add: execute_plan_def Let_def)
qed

lemma execute_plan_Inr:
  assumes "execute_plan sq sched p = Inr ex"
  shows "ex_task_status ex = st_status (execute_state sq sched (plan_tasks p)) \<and>
     ex_results ex = st_results (execute_state sq sched (plan_tasks p)) \<and>
     st_thrown (execute_state sq sched (plan_tasks p)) = None"
  using assms by (auto simp: execute_plan_def Let_def split: option.splits)

text \<open>The reference execution: one pass over the tasks that knows nothing of queues or batches.\<close>

fun expected_from :: "squad \<Rightarrow> (string, task_status) jsmap \<Rightarrow> mission_task list \<Rightarrow> (string, task_status) jsmap" where
  "expected_from sq m [] = m"
| "expected_from sq m (t # ts) =
     expected_from sq (js_set (task_id t) (if can_run m t then final_status sq t else TSkipped) m) ts"

definition expected :: "squad \<Rightarrow> mission_task list \<Rightarrow> (string, task_status) jsmap" where
  "expected sq ts = expected_from sq [] ts"

lemma expected_from_settled:
  assumes "settled sq ts s" "deps_backward ts" "distinct (map task_id ts)"
    and "\<And>i. i \<notin> task_id ` set ts \<Longrightarrow> js_get m i = js_get s i"
    and "\<And>i. i \<in> task_id ` set ts \<Longrightarrow> js_get m i = None"
  shows "js_get (expected_from sq m ts) i = js_get s i"
  using assms
proof (induction ts arbitrary: m)
  case (Cons t ts)
  have "can_run m t \<longleftrightarrow> can_run s t"
    using Cons.prems(2, 4) by (auto simp: can_run_def list_all_iff)
  then have s: "js_get s (task_id t) = Some (if can_run m t then final_status sq t else TSkipped)"
    using Cons.prems(1) by (simp add: settled_def)
  have "js_get (expected_from sq (js_set (task_id t) (if can_run m t then final_status sq t else TSkipped) m) ts) i = js_get s i"
  proof (rule Cons.IH)
    show "settled sq ts s" using Cons.prems(1) by (simp add: settled_def)
    show "deps_backward ts" "distinct (map task_id ts)" using Cons.prems(2, 3) by auto
    fix j
    show "js_get (js_set (task_id t) (if can_run m t then final_status sq t else TSkipped) m) j = js_get s j"
      if "j \<notin> task_id ` set ts"
      using that s Cons.prems(4) by auto
    show "js_get (js_set (task_id t) (if can_run m t then final_status sq t else TSkipped) m) j = None"
      if "j \<in> task_id ` set ts"
    proof -
      have "j \<noteq> task_id t" using that Cons.prems(3) by (auto simp: image_iff)
      then show ?thesis using that Cons.prems(5) by simp
    qed
  qed
  then show ?case by simp
qed simp

lemma settled_unique:
  assumes "settled sq ts s" "deps_backward ts" "distinct (map task_id ts)"
    and "\<And>i. i \<notin> task_id ` set ts \<Longrightarrow> js_get s i = None"
  shows "js_get (expected sq ts) i = js_get s i"
  unfolding expected_def by (rule expected_from_settled [OF assms(1-3)]) (use assms(4) in auto)

section \<open>Plans from briefs\<close>

text \<open>A chain: the first task is free, every later one depends on the task before it.\<close>

definition is_chain :: "mission_task list \<Rightarrow> bool" where
  "is_chain ts \<longleftrightarrow> ts \<noteq> [] \<and> deps_of (hd ts) = [] \<and>
     (\<forall>i. Suc i < length ts \<longrightarrow> deps_of (ts ! Suc i) = [task_id (ts ! i)])"

definition numbered :: "(nat \<Rightarrow> string) \<Rightarrow> mission_task list \<Rightarrow> bool" where
  "numbered uuid ts \<longleftrightarrow> map task_id ts = map uuid [0..<length ts]"

lemma is_chain_snoc:
  assumes "is_chain ts" "deps_of t = [task_id (last ts)]"
  shows "is_chain (ts @ [t])"
  unfolding is_chain_def
proof (intro conjI allI impI)
  fix i assume i: "Suc i < length (ts @ [t])"
  show "deps_of ((ts @ [t]) ! Suc i) = [task_id ((ts @ [t]) ! i)]"
  proof (cases "Suc i < length ts")
    case True
    then show ?thesis using assms(1) by (simp add: is_chain_def nth_append)
  next
    case False
    then have l: "length ts = Suc i" using i by simp
    then have "(ts @ [t]) ! Suc i = t" by (simp add: nth_append)
    moreover have "(ts @ [t]) ! i = last ts" using l by (cases "ts = []") (simp_all add: nth_append last_conv_nth)
    ultimately show ?thesis using assms(2) by simp
  qed
qed (use assms(1) in \<open>auto simp: is_chain_def\<close>)

lemma add_review_chain:
  assumes "is_chain ts" "numbered uuid ts"
  shows "is_chain (add_review uuid roles role title descr ts)"
    and "numbered uuid (add_review uuid roles role title descr ts)"
    and "map task_role (add_review uuid roles role title descr ts) =
           map task_role ts @ (if role \<in> set roles then [role] else [])"
  using assms
  by (auto simp: add_review_def add_task_def numbered_def deps_of_def intro!: is_chain_snoc)

lemma created_plan_facts:
  fixes b :: mission_brief
  defines "roles \<equiv> set (infer_roles_from_brief b)"
  assumes "ts = plan_tasks (create_plan_from_brief now uuid b)"
  shows "is_chain ts \<and> numbered uuid ts \<and>
     map task_role ts = filter (\<lambda>r. r \<in> roles) [Oracle, Synth, Sentinel, Verifier, Archivist, Atlas]"
proof -
  let ?research = "if Oracle \<in> roles
            then add_task uuid ''Research & risk assessment''
              ''Identify unknowns, risks, and recommended approach for the mission.'' Oracle None []
            else []"
  let ?build = "add_task uuid ''Implement mission deliverables''
            ''Produce the requested artifacts / changes described in the brief.'' Synth
            (if ?research \<noteq> [] then Some [task_id (hd ?research)] else None) ?research"
  have syn: "Synth \<in> roles" by (simp add: roles_def infer_roles_from_brief_def Let_def)
  have c: "is_chain ?build" "numbered uuid ?build"
    "map task_role ?build = (if Oracle \<in> roles then [Oracle] else []) @ [Synth]"
    by (auto simp: add_task_def is_chain_def numbered_def deps_of_def upt_rec)
  note steps = add_review_chain [where roles = "infer_roles_from_brief b" and uuid = uuid]
  have ts: "ts = add_review uuid (infer_roles_from_brief b) Atlas ''Integration & packaging''
            ''Ensure integration points are wired up (CI/config) and ready to ship.''
      (add_review uuid (infer_roles_from_brief b) Archivist ''Documentation & reporting''
            ''Write usage docs, diagrams, and summary report artifacts.''
      (add_review uuid (infer_roles_from_brief b) Verifier ''Verification & testing''
            ''Run tests and verify acceptance criteria.''
      (add_review uuid (infer_roles_from_brief b) Sentinel ''Security review''
            ''Run security checks and review for common vulnerability classes.'' ?build)))"
    unfolding assms(2) create_plan_from_brief_def Let_def roles_def by simp
  show ?thesis
    unfolding ts using c syn by (simp add: steps roles_def)
qed

lemma numbered_distinct: "numbered uuid ts \<Longrightarrow> inj uuid \<Longrightarrow> distinct (map task_id ts)"
  by (simp add: numbered_def distinct_map inj_on_def)

lemma chain_deps_backward:
  assumes "is_chain ts" "distinct (map task_id ts)"
  shows "deps_backward ts"
proof -
  have "deps_backward ts \<and> (ts = [] \<or> prev \<notin> task_id ` set ts)"
    if "distinct (map task_id ts)" "ts \<noteq> [] \<longrightarrow> deps_of (hd ts) = [] \<or> deps_of (hd ts) = [prev] \<and> prev \<notin> task_id ` set ts"
      and "\<forall>i. Suc i < length ts \<longrightarrow> deps_of (ts ! Suc i) = [task_id (ts ! i)]"
      and "ts = [] \<or> prev \<notin> task_id ` set ts"
    for prev ts
    using that
  proof (induction ts arbitrary: prev)
    case (Cons t ts)
    have "deps_backward ts \<and> (ts = [] \<or> task_id t \<notin> task_id ` set ts)"
    proof (rule Cons.IH)
      show "ts \<noteq> [] \<longrightarrow> deps_of (hd ts) = [] \<or> deps_of (hd ts) = [task_id t] \<and> task_id t \<notin> task_id ` set ts"
        using Cons.prems(1) Cons.prems(3) [rule_format, of 0] by (cases ts) auto
      show "\<forall>i. Suc i < length ts \<longrightarrow> deps_of (ts ! Suc i) = [task_id (ts ! i)]"
        using Cons.prems(3) by auto
    qed (use Cons.prems(1) in auto)
    then show ?case using Cons.prems(2, 4) by auto
  qed simp
  moreover obtain prev where "prev \<notin> task_id ` set ts"
    using ex_new_if_finite [of "task_id ` set ts"] infinite_UNIV_listI by blast
  ultimately show ?thesis using assms by (auto simp: is_chain_def)
qed

text \<open>Along a chain everything succeeds up to the first task that fails, and the rest is skipped.\<close>

lemma chain_settled:
  assumes "is_chain ts" "settled sq ts s" "i < length ts"
  defines "k \<equiv> length (takeWhile (\<lambda>t. failure_of sq t = None) ts)"
  shows "js_get s (task_id (ts ! i)) = Some (if i < k then TSucceeded else if i = k then TFailed else TSkipped)"
  using assms(3)
proof (induction i)
  case 0
  have "deps_of (ts ! 0) = []" using assms(1) by (cases ts) (simp_all add: is_chain_def)
  then have "js_get s (task_id (ts ! 0)) = Some (final_status sq (ts ! 0))"
    using assms(2) 0 by (simp add: settled_def can_run_def)
  then show ?case using 0 by (cases ts) (auto simp: k_def final_status_def)
next
  case (Suc i)
  then have IH: "js_get s (task_id (ts ! i)) = Some (if i < k then TSucceeded else if i = k then TFailed else TSkipped)"
    by simp
  have "deps_of (ts ! Suc i) = [task_id (ts ! i)]" using assms(1) Suc.prems by (simp add: is_chain_def)
  then have s: "js_get s (task_id (ts ! Suc i)) =
      Some (if i < k then final_status sq (ts ! Suc i) else TSkipped)"
    using assms(2) Suc.prems IH by (auto simp: settled_def can_run_def)
  have kl: "failure_of sq (ts ! j) = None" if "j < k" for j
  proof -
    have "takeWhile (\<lambda>t. failure_of sq t = None) ts ! j \<in> set (takeWhile (\<lambda>t. failure_of sq t = None) ts)"
      using that unfolding k_def by (rule nth_mem)
    moreover have "takeWhile (\<lambda>t. failure_of sq t = None) ts ! j = ts ! j"
      using that unfolding k_def by (rule takeWhile_nth)
    ultimately show ?thesis by (auto dest: set_takeWhileD)
  qed
  have kk: "failure_of sq (ts ! k) \<noteq> None" if "k < length ts"
    using that unfolding k_def by (rule nth_length_takeWhile)
  show ?case
  proof (cases "i < k")
    case True
    then have "Suc i < k \<or> Suc i = k" by auto
    then show ?thesis using s True kl kk Suc.prems by (auto simp: final_status_def)
  qed (use s in simp)
qed

section \<open>Properties\<close>

text \<open>A schedule that starts the whole batch before any task settles, for the witnesses.\<close>

definition all_at_once :: "mission_task list \<Rightarrow> batch_event list" where
  "all_at_once rs = map Start (remdups rs) @ map Settle (remdups rs) @ map Mark (remdups rs)"

lemma filter_constructor:
  assumes "\<And>t. ev_task (c t) = t" "distinct xs" "t \<in> set xs"
  shows "filter (\<lambda>e. ev_task e = t) (map c xs) = [c t]"
  using assms(2, 3)
proof (induction xs)
  case (Cons x xs)
  then show ?case by (cases "x = t") (auto simp: assms(1) filter_empty_conv)
qed simp

lemma all_at_once_valid: "valid_schedule all_at_once"
  by (auto simp: valid_schedule_def all_at_once_def filter_constructor)

text \<open>Two independent tasks and a third that needs both; the agent of the second fails.\<close>

definition sample_task :: "string \<Rightarrow> squad_role \<Rightarrow> string list option \<Rightarrow> mission_task" where
  "sample_task i r deps = \<lparr>task_id = i, task_title = i, task_description = i, task_role = r, depends_on = deps\<rparr>"

definition sample_plan :: mission_plan where
  "sample_plan = \<lparr>plan_created_at = 0, plan_tasks = [sample_task ''a'' Synth None,
     sample_task ''b'' Atlas None, sample_task ''c'' Synth (Some [''a'', ''b''])]\<rparr>"

definition sample_squad :: "bool \<Rightarrow> squad" where
  "sample_squad par = \<lparr>agents = [(Synth, \<lambda>t. Output None None), (Atlas, \<lambda>t. Threw ThrownNothing)],
     continue_on_failure = True, parallelize = par, clock = int\<rparr>"

text \<open>
  C15: On a plan whose tasks depend only on earlier ones, the listed order and every schedule of the
  parallel batches end with the statuses of the reference pass, which knows neither queue nor
  batches: each task succeeds or fails as its agent decides when all its dependencies succeeded,
  and is skipped otherwise.
\<close>

theorem execution_matches_reference:
  assumes "distinct (map task_id (plan_tasks p))" "deps_backward (plan_tasks p)"
    and "continue_on_failure sq" "valid_schedule sched"
  shows "\<exists>ex. execute_plan sq sched p = Inr ex \<and>
     (\<forall>i. js_get (ex_task_status ex) i = js_get (expected sq (plan_tasks p)) i)"
proof -
  obtain ex where ex: "execute_plan sq sched p = Inr ex"
    "ex_task_status ex = st_status (execute_state sq sched (plan_tasks p))"
    "st_thrown (execute_state sq sched (plan_tasks p)) = None"
    using execute_plan_keeps_going [OF assms(3)] by blast
  have "exec_ok sq (plan_tasks p) (execute_state sq sched (plan_tasks p)) \<and>
      settled sq (plan_tasks p) (ex_task_status ex)"
    unfolding ex(2) by (rule execute_state_invariant [OF assms(1) _ ex(3)]) (use assms(2, 4) in simp)
  then have "js_get (expected sq (plan_tasks p)) i = js_get (ex_task_status ex) i" for i
    using settled_unique [OF _ assms(2, 1)] by (simp add: exec_ok_def ex(2))
  then show ?thesis using ex(1) by auto
qed

theorem execution_matches_reference_witness:
  "\<exists>ex. execute_plan (sample_squad True) all_at_once sample_plan = Inr ex \<and>
     js_get (ex_task_status ex) ''c'' = Some TSkipped"
proof -
  have "js_get (expected (sample_squad True) (plan_tasks sample_plan)) ''c'' = Some TSkipped" by code_simp
  moreover have "distinct (map task_id (plan_tasks sample_plan))" "deps_backward (plan_tasks sample_plan)"
    "continue_on_failure (sample_squad True)" by code_simp+
  ultimately show ?thesis
    using execution_matches_reference [of sample_plan "sample_squad True" all_at_once] all_at_once_valid by auto
qed

text \<open>
  The parallel execution settles every plan, also one with circular dependencies: it ends for
  every schedule, no task is left pending or running, a task succeeds or fails exactly when all
  its dependencies succeeded and is skipped otherwise, and the results report every task that ran
  exactly once with its final status.
\<close>

theorem batches_settle_every_plan:
  assumes "distinct (map task_id (plan_tasks p))" "parallelize sq" "continue_on_failure sq" "valid_schedule sched"
  shows "\<exists>ex. execute_plan sq sched p = Inr ex \<and>
     (\<forall>t \<in> set (plan_tasks p). js_get (ex_task_status ex) (task_id t) =
        Some (if can_run (ex_task_status ex) t then final_status sq t else TSkipped)) \<and>
     distinct (map res_task_id (ex_results ex)) \<and>
     (\<forall>i x. (\<exists>r \<in> set (ex_results ex). res_task_id r = i \<and> res_status r = x) \<longleftrightarrow>
        js_get (ex_task_status ex) i = Some x \<and> (x = TSucceeded \<or> x = TFailed))"
proof -
  obtain ex where ex: "execute_plan sq sched p = Inr ex"
    "ex_task_status ex = st_status (execute_state sq sched (plan_tasks p))"
    "ex_results ex = st_results (execute_state sq sched (plan_tasks p))"
    "st_thrown (execute_state sq sched (plan_tasks p)) = None"
    using execute_plan_keeps_going [OF assms(3)] by blast
  have inv: "exec_ok sq (plan_tasks p) (execute_state sq sched (plan_tasks p)) \<and>
      settled sq (plan_tasks p) (st_status (execute_state sq sched (plan_tasks p)))"
    by (rule execute_state_invariant [OF assms(1) _ ex(4)]) (use assms(2, 4) in simp)
  then have r: "results_ok (execute_state sq sched (plan_tasks p))" by (simp add: exec_ok_def)
  have "(\<exists>r \<in> set (ex_results ex). res_task_id r = i \<and> res_status r = x) \<longleftrightarrow>
      (i, x) \<in> (\<lambda>r. (res_task_id r, res_status r)) ` set (ex_results ex)" for i x
    by auto
  then show ?thesis
    using ex inv r by (auto simp: settled_def results_ok_def)
qed

definition circular_plan :: mission_plan where
  "circular_plan = \<lparr>plan_created_at = 0, plan_tasks = [sample_task ''a'' Synth (Some [''b'']),
     sample_task ''b'' Synth (Some [''a'']), sample_task ''c'' Synth None]\<rparr>"

theorem batches_settle_every_plan_witness:
  "\<exists>ex. execute_plan (sample_squad True) all_at_once circular_plan = Inr ex \<and>
     distinct (map res_task_id (ex_results ex))"
proof -
  have "distinct (map task_id (plan_tasks circular_plan))" "parallelize (sample_squad True)"
    "continue_on_failure (sample_squad True)" by code_simp+
  from batches_settle_every_plan [OF this all_at_once_valid] show ?thesis by blast
qed

text \<open>
  The plan made from a brief has one task for each inferred role, in the fixed order of the
  phases, with distinct ids when the generated ids are, and it is a chain: so its execution in
  either mode succeeds up to the first task whose agent fails, and skips all later tasks.
\<close>

theorem created_plans_run_to_first_failure:
  assumes "inj uuid" "continue_on_failure sq" "valid_schedule sched"
  shows "let p = create_plan_from_brief now uuid b; ts = plan_tasks p;
             k = length (takeWhile (\<lambda>t. failure_of sq t = None) ts)
         in map task_role ts = filter (\<lambda>r. r \<in> set (infer_roles_from_brief b))
              [Oracle, Synth, Sentinel, Verifier, Archivist, Atlas] \<and>
            distinct (map task_id ts) \<and>
            (\<exists>ex. execute_plan sq sched p = Inr ex \<and>
               (\<forall>i < length ts. js_get (ex_task_status ex) (task_id (ts ! i)) =
                  Some (if i < k then TSucceeded else if i = k then TFailed else TSkipped)))"
proof -
  let ?p = "create_plan_from_brief now uuid b"
  note f = created_plan_facts [OF refl, of now uuid b]
  have d: "distinct (map task_id (plan_tasks ?p))" using f assms(1) numbered_distinct by blast
  have bwd: "deps_backward (plan_tasks ?p)" using f d chain_deps_backward by blast
  obtain ex where ex: "execute_plan sq sched ?p = Inr ex"
    "ex_task_status ex = st_status (execute_state sq sched (plan_tasks ?p))"
    "st_thrown (execute_state sq sched (plan_tasks ?p)) = None"
    using execute_plan_keeps_going [OF assms(2)] by blast
  have "settled sq (plan_tasks ?p) (ex_task_status ex)"
    unfolding ex(2) using execute_state_invariant [OF d _ ex(3)] bwd assms(3) by simp
  then show ?thesis using f d ex(1) chain_settled by (auto simp: Let_def)
qed

definition sample_uuid :: "nat \<Rightarrow> string" where
  "sample_uuid n = replicate n CHR ''x''"

lemma inj_sample_uuid: "inj sample_uuid"
  by (rule injI) (metis length_replicate sample_uuid_def)

theorem created_plans_run_to_first_failure_witness:
  "distinct (map task_id (plan_tasks (create_plan_from_brief 0 sample_uuid sample_brief)))"
  using created_plans_run_to_first_failure [OF inj_sample_uuid _ all_at_once_valid, of "sample_squad False" 0 sample_brief]
  by (simp add: Let_def sample_squad_def)

text \<open>
  The listed order reports every task that ran exactly once, and a task never ran unless all
  its dependencies had succeeded, whether failures are tolerated or not.
\<close>

theorem listed_order_respects_dependencies:
  assumes "distinct (map task_id (plan_tasks p))" "\<not> parallelize sq" "deps_backward (plan_tasks p)"
    and "execute_plan sq sched p = Inr ex"
  shows "distinct (map res_task_id (ex_results ex)) \<and>
     (\<forall>t \<in> set (plan_tasks p). (\<exists>r \<in> set (ex_results ex). res_task_id r = task_id t) \<longleftrightarrow>
        (\<forall>d \<in> set (deps_of t). js_get (ex_task_status ex) d = Some TSucceeded))"
proof -
  note ex = execute_plan_Inr [OF assms(4)]
  have inv: "exec_ok sq (plan_tasks p) (execute_state sq sched (plan_tasks p)) \<and>
      settled sq (plan_tasks p) (st_status (execute_state sq sched (plan_tasks p)))"
    by (rule execute_state_invariant [OF assms(1)]) (use assms(2, 3) ex in simp_all)
  then have r: "results_ok (execute_state sq sched (plan_tasks p))" by (simp add: exec_ok_def)
  have iff: "(\<exists>r \<in> set (ex_results ex). res_task_id r = i) \<longleftrightarrow>
      (\<exists>x. (i, x) \<in> (\<lambda>r. (res_task_id r, res_status r)) ` set (ex_results ex))" for i
    by auto
  have "(\<exists>r \<in> set (ex_results ex). res_task_id r = task_id t) \<longleftrightarrow> can_run (ex_task_status ex) t"
    if "t \<in> set (plan_tasks p)" for t
    using inv r ex that final_status_cases [of sq t] unfolding iff settled_def results_ok_def by auto
  then show ?thesis using r ex by (simp add: results_ok_def can_run_def list_all_iff)
qed

theorem listed_order_respects_dependencies_witness:
  "\<exists>ex. execute_plan (sample_squad False) all_at_once sample_plan = Inr ex \<and>
     distinct (map res_task_id (ex_results ex))"
proof -
  have "distinct (map task_id (plan_tasks sample_plan))" "\<not> parallelize (sample_squad False)"
    "deps_backward (plan_tasks sample_plan)" "continue_on_failure (sample_squad False)" by code_simp+
  then show ?thesis
    using execute_plan_keeps_going [of "sample_squad False" all_at_once sample_plan]
      listed_order_respects_dependencies [of sample_plan "sample_squad False" all_at_once] by blast
qed

end
