(* ===== verification/Gates.thy ===== *)
theory Gates
  imports Squad
begin

text \<open>
  \<open>lib/gate-checks.ts\<close>: the gate runner with its early exit, and the four default gates, the
  secret scanner with its three regular expressions included. A gate may throw; a directory of
  artifacts on disk is given by its readable listing (paths, sizes, contents in walking order).
\<close>

section \<open>Running gates\<close>

record gate_context =
  gc_mission :: mission_record
  gc_artifacts_dir :: "(string \<times> nat \<times> string option) list option"
  gc_approve :: "(thrown + bool) option"

record gate_definition =
  gd_gate_id :: string
  gd_kind :: gate_kind
  gd_run :: "gate_context \<Rightarrow> thrown + gate_result"

fun gate_loop :: "bool \<Rightarrow> gate_definition list \<Rightarrow> gate_context \<Rightarrow> gate_result list \<Rightarrow> thrown + gate_result list \<times> overall" where
  "gate_loop allow_warnings [] ctx results =
     Inr (results, if (\<exists>r \<in> set results. gr_status r = GateWarn) \<and> \<not> allow_warnings then OverallFail else OverallPass)"
| "gate_loop allow_warnings (g # gs) ctx results =
     (case gd_run g ctx of
        Inl e \<Rightarrow> Inl e
      | Inr r \<Rightarrow>
          if gr_status r = GateFail then Inr (results @ [r], OverallFail)
          else if gr_status r = GateRequireApproval then Inr (results @ [r], OverallRequireApproval)
          else gate_loop allow_warnings gs ctx (results @ [r]))"

definition run_all :: "bool \<Rightarrow> gate_definition list \<Rightarrow> gate_context \<Rightarrow> thrown + gate_result list \<times> overall" where
  "run_all allow_warnings gates ctx = gate_loop allow_warnings gates ctx []"

definition gate_ok :: "string \<Rightarrow> gate_kind \<Rightarrow> string \<Rightarrow> (string \<times> detail_value) list option \<Rightarrow> gate_result" where
  "gate_ok i k msg d = \<lparr>gr_gate_id = i, gr_kind = k, gr_status = GatePass, gr_message = msg, gr_details = d\<rparr>"

definition gate_fail :: "string \<Rightarrow> gate_kind \<Rightarrow> string \<Rightarrow> (string \<times> detail_value) list option \<Rightarrow> gate_result" where
  "gate_fail i k msg d = \<lparr>gr_gate_id = i, gr_kind = k, gr_status = GateFail, gr_message = msg, gr_details = d\<rparr>"

definition require_approval :: "string \<Rightarrow> string \<Rightarrow> gate_result" where
  "require_approval i msg =
     \<lparr>gr_gate_id = i, gr_kind = ApprovalGate, gr_status = GateRequireApproval, gr_message = msg, gr_details = None\<rparr>"

definition is_terminal_gate_status :: "gate_status \<Rightarrow> bool" where
  "is_terminal_gate_status s \<longleftrightarrow> s = GateFail \<or> s = GateRequireApproval"

section \<open>The default gates\<close>

definition plan_gate :: "gate_context \<Rightarrow> gate_result" where
  "plan_gate ctx =
     (let tasks = (case plan (gc_mission ctx) of None \<Rightarrow> [] | Some p \<Rightarrow> plan_tasks p) in
      if tasks = [] then
        gate_fail ''quality.plan.nonempty'' QualityGate ''Mission plan contains zero tasks.'' None
      else gate_ok ''quality.plan.nonempty'' QualityGate
             (''Plan has '' @ show_nat (length tasks) @ '' tasks.'') None)"

definition failed_tasks :: "mission_record \<Rightarrow> string list" where
  "failed_tasks m =
     (case execution m of None \<Rightarrow> []
      | Some x \<Rightarrow> map fst (filter (\<lambda>(i, st). st = TFailed) (ex_task_status x)))"

definition execution_gate :: "gate_context \<Rightarrow> gate_result" where
  "execution_gate ctx =
     (let failed = failed_tasks (gc_mission ctx) in
      if failed \<noteq> [] then
        gate_fail ''quality.execute.all_succeeded_or_skipped'' QualityGate
          (''Execution has '' @ show_nat (length failed) @ '' failed task(s).'')
          (Some [(''failedTaskIds'', Strings failed)])
      else gate_ok ''quality.execute.all_succeeded_or_skipped'' QualityGate ''No failed tasks detected.'' None)"

text \<open>The markers: AWS access key ids, private key headers, Slack tokens.\<close>

definition upper_or_digit :: "char \<Rightarrow> bool" where
  "upper_or_digit c \<longleftrightarrow> (let n = of_char c :: nat in 48 \<le> n \<and> n \<le> 57 \<or> 65 \<le> n \<and> n \<le> 90)"

definition token_char :: "char \<Rightarrow> bool" where
  "token_char c \<longleftrightarrow> (let n = of_char c :: nat in
     n = 45 \<or> 48 \<le> n \<and> n \<le> 57 \<or> 65 \<le> n \<and> n \<le> 90 \<or> 97 \<le> n \<and> n \<le> 122)"

fun matches_at :: "(string \<Rightarrow> bool) \<Rightarrow> string \<Rightarrow> bool" where
  "matches_at m [] \<longleftrightarrow> m []"
| "matches_at m (c # cs) \<longleftrightarrow> m (c # cs) \<or> matches_at m cs"

definition aws_key :: "string \<Rightarrow> bool" where
  "aws_key s \<longleftrightarrow> starts_with ''AKIA'' s \<and> length (take 16 (drop 4 s)) = 16 \<and> list_all upper_or_digit (take 16 (drop 4 s))"

definition private_key :: "string \<Rightarrow> bool" where
  "private_key s \<longleftrightarrow> list_ex (\<lambda>k. starts_with (''-----BEGIN '' @ k @ '' PRIVATE KEY-----'') s) [''RSA'', ''OPENSSH'', ''EC'']"

definition slack_token :: "string \<Rightarrow> bool" where
  "slack_token s \<longleftrightarrow>
     (case drop 3 s of c # d # rest \<Rightarrow>
        starts_with ''xox'' s \<and> c \<in> set ''baprs'' \<and> d = CHR ''-'' \<and>
        length (take 10 rest) = 10 \<and> list_all token_char (take 10 rest)
      | _ \<Rightarrow> False)"

definition markers :: "(string \<times> (string \<Rightarrow> bool)) list" where
  "markers =
     [(''/AKIA[0-9A-Z]{16}/'', matches_at aws_key),
      (''/-----BEGIN (?:RSA|OPENSSH|EC) PRIVATE KEY-----/'', matches_at private_key),
      (''/xox[baprs]-[0-9a-zA-Z-]{10,}/'', matches_at slack_token)]"

text \<open>The first marker that matches a text.\<close>

definition first_marker :: "string \<Rightarrow> string option" where
  "first_marker s = map_option fst (List.find (\<lambda>(n, m). m s) markers)"

definition finding_of :: "string \<Rightarrow> string \<Rightarrow> (string \<times> string) list list" where
  "finding_of place s =
     (case first_marker s of None \<Rightarrow> [] | Some m \<Rightarrow> [[(''where'', place), (''marker'', m)]])"

definition result_findings :: "task_run_result \<Rightarrow> (string \<times> string) list list" where
  "result_findings r =
     concat (map (\<lambda>a. finding_of (''task:'' @ res_task_id r @ ''/'' @ art_name a) (art_content a))
       (nullish (res_artifacts r) []))"

definition disk_findings :: "(string \<times> nat \<times> string option) list \<Rightarrow> (string \<times> string) list list" where
  "disk_findings listing =
     concat (map (\<lambda>(p, size, content).
        if size > 512000 then [] else (case content of None \<Rightarrow> [] | Some s \<Rightarrow> finding_of (''file:'' @ p) s)) listing)"

definition secret_findings :: "gate_context \<Rightarrow> (string \<times> string) list list" where
  "secret_findings ctx =
     concat (map result_findings (case execution (gc_mission ctx) of None \<Rightarrow> [] | Some x \<Rightarrow> ex_results x))
     @ (case gc_artifacts_dir ctx of None \<Rightarrow> [] | Some listing \<Rightarrow> disk_findings listing)"

definition secrets_gate :: "gate_context \<Rightarrow> gate_result" where
  "secrets_gate ctx =
     (let found = secret_findings ctx in
      if found \<noteq> [] then
        gate_fail ''security.artifacts.no_obvious_secrets'' SecurityGate
          (''Potential secret material detected ('' @ show_nat (length found) @ '' finding(s)).'')
          (Some [(''findings'', Objects found)])
      else gate_ok ''security.artifacts.no_obvious_secrets'' SecurityGate ''No obvious secret markers detected.'' None)"

definition approval_gate :: "gate_context \<Rightarrow> thrown + gate_result" where
  "approval_gate ctx =
     (case gc_approve ctx of
        None \<Rightarrow> Inr (gate_ok ''approval.optional'' ApprovalGate ''No approval callback provided; auto-approved.'' None)
      | Some (Inl e) \<Rightarrow> Inl e
      | Some (Inr approved) \<Rightarrow>
          if \<not> approved then Inr (require_approval ''approval.optional'' ''Mission requires human approval to proceed.'')
          else Inr (gate_ok ''approval.optional'' ApprovalGate ''Approved.'' None))"

definition default_gates :: "gate_definition list" where
  "default_gates =
     [\<lparr>gd_gate_id = ''quality.plan.nonempty'', gd_kind = QualityGate, gd_run = Inr \<circ> plan_gate\<rparr>,
      \<lparr>gd_gate_id = ''quality.execute.all_succeeded_or_skipped'', gd_kind = QualityGate, gd_run = Inr \<circ> execution_gate\<rparr>,
      \<lparr>gd_gate_id = ''security.artifacts.no_obvious_secrets'', gd_kind = SecurityGate, gd_run = Inr \<circ> secrets_gate\<rparr>,
      \<lparr>gd_gate_id = ''approval.optional'', gd_kind = ApprovalGate, gd_run = approval_gate\<rparr>]"

section \<open>Properties\<close>

text \<open>The runner as an early-exit search: the results are a prefix of what the gates would say.\<close>

lemma gate_loop_pass_iff:
  "gate_loop aw gs ctx rs = Inr (rs', OverallPass) \<longleftrightarrow>
     (\<exists>qs. map (\<lambda>g. gd_run g ctx) gs = map Inr qs \<and> rs' = rs @ qs \<and>
        (\<forall>q \<in> set qs. \<not> is_terminal_gate_status (gr_status q)) \<and>
        (aw \<or> (\<forall>q \<in> set (rs @ qs). gr_status q \<noteq> GateWarn)))"
proof (induction gs arbitrary: rs)
  case Nil
  then show ?case by auto
next
  case (Cons g gs)
  show ?case
  proof (cases "gd_run g ctx")
    case (Inl e)
    then show ?thesis by (auto simp: Cons_eq_map_conv)
  next
    case (Inr r)
    show ?thesis
    proof (cases "is_terminal_gate_status (gr_status r)")
      case True
      then show ?thesis using Inr by (auto simp: is_terminal_gate_status_def Cons_eq_map_conv)
    next
      case False
      then have "gate_loop aw (g # gs) ctx rs = gate_loop aw gs ctx (rs @ [r])"
        using Inr by (auto simp: is_terminal_gate_status_def)
      then show ?thesis using Inr False Cons.IH [of "rs @ [r]"] by (auto simp: Cons_eq_map_conv)
    qed
  qed
qed

definition blocking :: "gate_result \<Rightarrow> bool" where
  "blocking r \<longleftrightarrow> is_terminal_gate_status (gr_status r)"

lemma gate_loop_results:
  assumes "map (\<lambda>g. gd_run g ctx) gs = map Inr qs"
  shows "gate_loop aw gs ctx rs =
     Inr (case dropWhile (\<lambda>r. \<not> blocking r) qs of
            [] \<Rightarrow> (rs @ qs, if (\<exists>r \<in> set (rs @ qs). gr_status r = GateWarn) \<and> \<not> aw then OverallFail else OverallPass)
          | r # _ \<Rightarrow> (rs @ takeWhile (\<lambda>r. \<not> blocking r) qs @ [r],
                     if gr_status r = GateFail then OverallFail else OverallRequireApproval))"
  using assms
proof (induction gs arbitrary: rs qs)
  case Nil
  then show ?case by simp
next
  case (Cons g gs)
  then obtain r qs' where qs: "qs = r # qs'" "gd_run g ctx = Inr r" "map (\<lambda>g. gd_run g ctx) gs = map Inr qs'"
    by (auto simp: Cons_eq_map_conv)
  show ?case
  proof (cases "blocking r")
    case True
    then show ?thesis using qs by (auto simp: blocking_def is_terminal_gate_status_def)
  next
    case False
    then have step: "gate_loop aw (g # gs) ctx rs = gate_loop aw gs ctx (rs @ [r])"
      using qs by (auto simp: blocking_def is_terminal_gate_status_def)
    have parts: "dropWhile (\<lambda>r. \<not> blocking r) (r # qs') = dropWhile (\<lambda>r. \<not> blocking r) qs'"
      "takeWhile (\<lambda>r. \<not> blocking r) (r # qs') = r # takeWhile (\<lambda>r. \<not> blocking r) qs'"
      using False by simp_all
    show ?thesis
    proof (cases "dropWhile (\<lambda>r. \<not> blocking r) qs'")
      case Nil
      show ?thesis unfolding step qs(1) parts Cons.IH [OF qs(3)] Nil list.case by simp
    next
      case (Cons q ds)
      show ?thesis unfolding step qs(1) parts Cons.IH [OF qs(3)] Cons list.case by simp
    qed
  qed
qed

text \<open>
  When no gate throws, the run reports the results up to and including the first gate that
  fails or demands approval, and that gate decides the overall result; otherwise it reports every
  gate, and the overall result is a pass unless there is a warning that is not allowed.
\<close>

theorem gates_stop_at_first_block:
  assumes "map (\<lambda>g. gd_run g ctx) gates = map Inr qs"
  shows "run_all allow_warnings gates ctx =
     Inr (case dropWhile (\<lambda>r. \<not> blocking r) qs of
            [] \<Rightarrow> (qs, if (\<exists>r \<in> set qs. gr_status r = GateWarn) \<and> \<not> allow_warnings then OverallFail else OverallPass)
          | r # _ \<Rightarrow> (takeWhile (\<lambda>r. \<not> blocking r) qs @ [r],
                     if gr_status r = GateFail then OverallFail else OverallRequireApproval))"
  using gate_loop_results [OF assms, of allow_warnings "[]"] unfolding run_all_def append_Nil .

definition sample_context :: gate_context where
  "sample_context = \<lparr>gc_mission = projr (snd sample_created), gc_artifacts_dir = None, gc_approve = Some (Inr False)\<rparr>"

theorem gates_stop_at_first_block_witness:
  "map_sum id snd (run_all True (drop 1 default_gates) sample_context) = Inr OverallRequireApproval"
proof -
  let ?qs = "[gate_ok ''quality.execute.all_succeeded_or_skipped'' QualityGate ''No failed tasks detected.'' None,
    gate_ok ''security.artifacts.no_obvious_secrets'' SecurityGate ''No obvious secret markers detected.'' None,
    require_approval ''approval.optional'' ''Mission requires human approval to proceed.'']"
  have "map (\<lambda>g. gd_run g sample_context) (drop 1 default_gates) = map Inr ?qs" by code_simp
  from gates_stop_at_first_block [OF this, of True] show ?thesis
    by (simp add: blocking_def is_terminal_gate_status_def gate_ok_def require_approval_def)
qed

lemma gate_status_simps [simp]:
  "gr_status (gate_ok i k msg d) = GatePass" "gr_status (gate_fail i k msg d) = GateFail"
  "gr_status (require_approval i msg) = GateRequireApproval"
  by (simp_all add: gate_ok_def gate_fail_def require_approval_def)

lemma default_gate_statuses:
  "gr_status (plan_gate ctx) = (if map_option plan_tasks (plan (gc_mission ctx)) \<in> {None, Some []} then GateFail else GatePass)"
  "gr_status (execution_gate ctx) = (if failed_tasks (gc_mission ctx) \<noteq> [] then GateFail else GatePass)"
  "gr_status (secrets_gate ctx) = (if secret_findings ctx \<noteq> [] then GateFail else GatePass)"
  by (auto simp: plan_gate_def execution_gate_def secrets_gate_def Let_def split: option.split)

lemma default_gates_decided:
  "map_sum id snd (run_all allow_warnings default_gates ctx) =
     (if map_option plan_tasks (plan (gc_mission ctx)) \<in> {None, Some []} \<or>
         failed_tasks (gc_mission ctx) \<noteq> [] \<or> secret_findings ctx \<noteq> [] then Inr OverallFail
      else case gc_approve ctx of
        None \<Rightarrow> Inr OverallPass
      | Some (Inl e) \<Rightarrow> Inl e
      | Some (Inr approved) \<Rightarrow> Inr (if approved then OverallPass else OverallRequireApproval))"
  by (auto simp: run_all_def default_gates_def approval_gate_def default_gate_statuses split: option.split sum.split)

text \<open>
  The default gates let a mission through exactly when its plan has tasks, no task of it
  failed, no secret marker is found in its artifacts, and nobody withholds the approval; only a
  mission that has all but the approval is held for approval.
\<close>

theorem default_gates_decide:
  "map_sum id snd (run_all allow_warnings default_gates ctx) =
     (if list_all (\<lambda>p. plan_tasks p = []) (case plan (gc_mission ctx) of None \<Rightarrow> [] | Some p \<Rightarrow> [p]) then Inr OverallFail
      else if failed_tasks (gc_mission ctx) = [] then
        (if secret_findings ctx = [] then
           (case gc_approve ctx of
              None \<Rightarrow> Inr OverallPass
            | Some (Inl e) \<Rightarrow> Inl e
            | Some (Inr approved) \<Rightarrow> Inr (if approved then OverallPass else OverallRequireApproval))
         else Inr OverallFail)
      else Inr OverallFail)"
  unfolding default_gates_decided by (auto split: option.split)

end
