(* ===== verification/Artifacts.thy ===== *)
theory Artifacts
  imports Mission_State
begin

text \<open>
  \<open>lib/artifact-collector.ts\<close>: versioned delivery directories, the file name policy, and the
  manifest. The disk is the listing of each mission directory (name, is it a directory) and the
  contents of files by path; \<open>sha256\<close> and the JSON text of a manifest are functions the model is
  given. Paths are joined with a slash (base directory and mission id carry no dot segments).
\<close>

section \<open>File names\<close>

text \<open>\<open>JSON.stringify\<close> of a string, in the error messages.\<close>

definition hex_digit :: "nat \<Rightarrow> char" where
  "hex_digit n = (if n < 10 then char_of (48 + n) else char_of (87 + n))"

definition json_char :: "char \<Rightarrow> string" where
  "json_char c =
     (let n = of_char c :: nat in
      if n = 34 then [CHR 0x5C, CHR 0x22] else if n = 92 then [CHR 0x5C, CHR 0x5C]
      else if n = 8 then CHR 0x5C # ''b'' else if n = 9 then CHR 0x5C # ''t''
      else if n = 10 then CHR 0x5C # ''n'' else if n = 12 then CHR 0x5C # ''f''
      else if n = 13 then CHR 0x5C # ''r''
      else if n < 32 then CHR 0x5C # ''u00'' @ [hex_digit (n div 16), hex_digit (n mod 16)]
      else [c])"

definition json_quote :: "string \<Rightarrow> string" where
  "json_quote s = [CHR 0x22] @ concat (map json_char s) @ [CHR 0x22]"

definition safe_char :: "char \<Rightarrow> bool" where
  "safe_char c \<longleftrightarrow> (let n = of_char c :: nat in
     48 \<le> n \<and> n \<le> 57 \<or> 65 \<le> n \<and> n \<le> 90 \<or> 97 \<le> n \<and> n \<le> 122 \<or> n = 46 \<or> n = 95 \<or> n = 45)"

text \<open>\<open>replace(/[^a-zA-Z0-9._-]+/g, '_')\<close>: every run of other characters becomes one underscore.\<close>

definition squash_unsafe :: "string \<Rightarrow> string" where
  "squash_unsafe s = squash_runs safe_char (CHR ''_'') False s"

definition sanitize_artifact_filename :: "string \<Rightarrow> thrown + string" where
  "sanitize_artifact_filename name =
     (let trimmed = js_trim name in
      if trimmed = [] then Inl (ThrownError (''Invalid artifact name: '' @ json_quote name) ''Error'')
      else if CHR 0x2F \<in> set trimmed \<or> CHR 0x5C \<in> set trimmed then
        Inl (ThrownError (''Invalid artifact name (path segments not allowed): '' @ json_quote name) ''Error'')
      else
        (let safe = squash_unsafe trimmed in
         if safe = [] \<or> safe = ''.'' \<or> safe = ''..'' then
           Inl (ThrownError (''Invalid artifact name: '' @ json_quote name) ''Error'')
         else Inr safe))"

section \<open>Version directories\<close>

record artifact_disk =
  disk_entries :: "(string, (string \<times> bool) list) jsmap"
  disk_files :: "(string, string) jsmap"

definition mission_dir :: "string \<Rightarrow> string \<Rightarrow> string" where
  "mission_dir base mid = base @ ''/'' @ mid"

definition is_version :: "string \<Rightarrow> bool" where
  "is_version n \<longleftrightarrow> length n = 5 \<and> hd n = CHR ''v'' \<and> list_all is_digit (tl n)"

definition version_numbers :: "(string \<times> bool) list \<Rightarrow> nat list" where
  "version_numbers entries = map (read_nat \<circ> tl \<circ> fst) (filter (\<lambda>(n, d). d \<and> is_version n) entries)"

definition pad_start :: "nat \<Rightarrow> char \<Rightarrow> string \<Rightarrow> string" where
  "pad_start n c s = replicate (n - length s) c @ s"

definition version_name :: "nat \<Rightarrow> string" where
  "version_name n = ''v'' @ pad_start 4 CHR ''0'' (show_nat n)"

text \<open>\<open>mkdir\<close> fails with EEXIST on a name that is there; the loop then tries the next number.\<close>

lemma read_nat_pad: "read_nat (pad_start n CHR ''0'' s) = read_nat s"
proof -
  have "foldl (\<lambda>n c. 10 * n + digit_value c) 0 (replicate k CHR ''0'') = 0" for k
    by (induction k) (simp_all add: digit_value_def)
  then show ?thesis by (simp add: read_nat_def pad_start_def)
qed

lemma inj_version_name [simp]: "version_name m = version_name n \<longleftrightarrow> m = n"
proof
  assume "version_name m = version_name n"
  then have "read_nat (tl (version_name m)) = read_nat (tl (version_name n))" by simp
  then show "m = n" by (simp add: version_name_def read_nat_pad)
qed simp

function first_free :: "string list \<Rightarrow> nat \<Rightarrow> nat" where
  "first_free names n = (if version_name n \<in> set names then first_free names (Suc n) else n)"
  by pat_completeness auto

text \<open>Each failed attempt uses up one of the finitely many names at or above the counter.\<close>

definition taken :: "string list \<Rightarrow> nat \<Rightarrow> nat set" where
  "taken names n = {m. n \<le> m \<and> version_name m \<in> set names}"

lemma finite_taken: "finite (taken names n)"
proof -
  have "inj_on version_name (taken names n)" by (simp add: inj_on_def)
  moreover have "version_name ` taken names n \<subseteq> set names" by (auto simp: taken_def)
  ultimately show ?thesis using finite_imageD finite_subset by blast
qed

lemma taken_Suc: "version_name n \<in> set names \<Longrightarrow> card (taken names (Suc n)) < card (taken names n)"
proof (rule psubset_card_mono [OF finite_taken])
  assume "version_name n \<in> set names"
  then have "n \<in> taken names n" "n \<notin> taken names (Suc n)" "taken names (Suc n) \<subseteq> taken names n"
    by (auto simp: taken_def)
  then show "taken names (Suc n) \<subset> taken names n" by blast
qed

termination first_free
  by (relation "measure (\<lambda>(names, n). card (taken names n))") (simp_all add: taken_Suc)

declare first_free.simps [simp del]

definition start_number :: "(string \<times> bool) list \<Rightarrow> nat" where
  "start_number entries = (case version_numbers entries of [] \<Rightarrow> 1 | ns \<Rightarrow> Max (set ns) + 1)"

definition create_new_version_dir :: "string \<Rightarrow> string \<Rightarrow> artifact_disk \<Rightarrow> artifact_disk \<times> string \<times> string" where
  "create_new_version_dir base mid disk =
     (let md = mission_dir base mid;
          entries = nullish (js_get (disk_entries disk) md) [];
          version = version_name (first_free (map fst entries) (start_number entries))
      in (disk\<lparr>disk_entries := js_set md (entries @ [(version, True)]) (disk_entries disk)\<rparr>,
          version, md @ ''/'' @ version))"

section \<open>Collecting\<close>

record artifact_manifest =
  mf_mission_id :: string
  mf_version :: string
  mf_created_at :: int
  mf_artifacts :: "artifact_ref list"

definition starts_at :: "string \<Rightarrow> string \<Rightarrow> bool" where
  "starts_at pre s \<longleftrightarrow> take (length pre) s = pre"

definition write_one ::
  "(string \<Rightarrow> string) \<Rightarrow> string \<Rightarrow> string \<times> string \<times> squad_role option \<times> string option
   \<Rightarrow> artifact_disk \<times> artifact_ref list \<Rightarrow> artifact_disk \<times> (thrown + artifact_ref list)" where
  "write_one sha dir = (\<lambda>(name, content, by, tid) (disk, refs).
     (case sanitize_artifact_filename name of
        Inl e \<Rightarrow> (disk, Inl e)
      | Inr safe \<Rightarrow>
          (let fp = dir @ ''/'' @ safe in
           if \<not> starts_at (dir @ ''/'') fp then
             (disk, Inl (ThrownError (''Artifact path escape detected: '' @ json_quote name) ''Error''))
           else
             (disk\<lparr>disk_files := js_set fp content (disk_files disk)\<rparr>,
              Inr (refs @ [\<lparr>ref_path = fp, ref_sha256 = sha content, ref_bytes = length content,
                            ref_produced_by = by, ref_task_id = tid\<rparr>])))))"

fun write_all ::
  "(string \<Rightarrow> string) \<Rightarrow> string \<Rightarrow> (string \<times> string \<times> squad_role option \<times> string option) list
   \<Rightarrow> artifact_disk \<times> artifact_ref list \<Rightarrow> artifact_disk \<times> (thrown + artifact_ref list)" where
  "write_all sha dir [] (disk, refs) = (disk, Inr refs)"
| "write_all sha dir (a # as) (disk, refs) =
     (case write_one sha dir a (disk, refs) of
        (disk', Inl e) \<Rightarrow> (disk', Inl e)
      | (disk', Inr refs') \<Rightarrow> write_all sha dir as (disk', refs'))"

definition result_items :: "task_run_result list \<Rightarrow> (string \<times> string \<times> squad_role option \<times> string option) list" where
  "result_items rs =
     concat (map (\<lambda>r. map (\<lambda>a. (art_name a, art_content a, Some (res_agent r), Some (res_task_id r)))
                        (nullish (res_artifacts r) [])) rs)"

record collected =
  co_artifacts_dir :: string
  co_manifest_path :: string
  co_artifacts :: "artifact_ref list"

definition collect_from_results ::
  "(string \<Rightarrow> string) \<Rightarrow> (artifact_manifest \<Rightarrow> string) \<Rightarrow> int \<Rightarrow> string \<Rightarrow> string \<Rightarrow> task_run_result list
   \<Rightarrow> (string \<times> string) list \<Rightarrow> artifact_disk \<Rightarrow> artifact_disk \<times> (thrown + collected)" where
  "collect_from_results sha render ts base mid results extras disk =
     (let (disk1, version, dir) = create_new_version_dir base mid disk in
      case write_all sha dir (result_items results @ map (\<lambda>(n, c). (n, c, None, None)) extras) (disk1, []) of
        (disk2, Inl e) \<Rightarrow> (disk2, Inl e)
      | (disk2, Inr refs) \<Rightarrow>
          (let mp = dir @ ''/manifest.json'';
               manifest = \<lparr>mf_mission_id = mid, mf_version = version, mf_created_at = ts, mf_artifacts = refs\<rparr>
           in (disk2\<lparr>disk_files := js_set mp (render manifest) (disk_files disk2)\<rparr>,
               Inr \<lparr>co_artifacts_dir = dir, co_manifest_path = mp, co_artifacts = refs\<rparr>)))"

section \<open>What is written\<close>

lemma starts_at_append [simp]: "starts_at p (p @ s)"
  by (simp add: starts_at_def)

definition item_name :: "string \<times> string \<times> squad_role option \<times> string option \<Rightarrow> thrown + string" where
  "item_name it = sanitize_artifact_filename (fst it)"

definition item_ref :: "(string \<Rightarrow> string) \<Rightarrow> string \<Rightarrow> string \<Rightarrow> string \<times> string \<times> squad_role option \<times> string option \<Rightarrow> artifact_ref" where
  "item_ref sha dir safe = (\<lambda>(name, content, by, tid).
     \<lparr>ref_path = dir @ ''/'' @ safe, ref_sha256 = sha content, ref_bytes = length content,
      ref_produced_by = by, ref_task_id = tid\<rparr>)"

lemma item_ref_sel [simp]:
  "ref_path (item_ref sha dir safe it) = dir @ ''/'' @ safe"
  "ref_sha256 (item_ref sha dir safe it) = sha (fst (snd it))"
  "ref_bytes (item_ref sha dir safe it) = length (fst (snd it))"
  by (cases it, simp add: item_ref_def)+

lemma write_one_eq:
  "write_one sha dir it (disk, refs) =
     (case item_name it of
        Inl e \<Rightarrow> (disk, Inl e)
      | Inr safe \<Rightarrow> (disk\<lparr>disk_files := js_set (dir @ ''/'' @ safe) (fst (snd it)) (disk_files disk)\<rparr>,
                    Inr (refs @ [item_ref sha dir safe it])))"
proof -
  have "starts_at (dir @ ''/'') (dir @ ''/'' @ s)" for s
    using starts_at_append [of "dir @ ''/''" s] by simp
  then show ?thesis
    by (cases it) (simp add: write_one_def item_ref_def item_name_def Let_def split: sum.split)
qed

lemma write_all_Inr:
  assumes "write_all sha dir items (disk, refs) = (disk', Inr refs')"
  shows "\<exists>ss. map item_name items = map Inr ss \<and>
     refs' = refs @ map2 (item_ref sha dir) ss items \<and>
     disk' = disk\<lparr>disk_files := jsd.put_all (map2 (\<lambda>s it. (dir @ ''/'' @ s, fst (snd it))) ss items) (disk_files disk)\<rparr>"
  using assms
proof (induction items arbitrary: disk refs)
  case Nil
  then show ?case by (auto simp: jsd.put_all_def)
next
  case (Cons it items)
  then obtain s where s: "item_name it = Inr s"
    by (auto simp: write_one_eq split: sum.splits)
  let ?d = "disk\<lparr>disk_files := js_set (dir @ ''/'' @ s) (fst (snd it)) (disk_files disk)\<rparr>"
  have "write_all sha dir items (?d, refs @ [item_ref sha dir s it]) = (disk', Inr refs')"
    using Cons.prems s by (simp add: write_one_eq)
  from Cons.IH [OF this] obtain ss where "map item_name items = map Inr ss"
    "refs' = (refs @ [item_ref sha dir s it]) @ map2 (item_ref sha dir) ss items"
    "disk' = ?d\<lparr>disk_files := jsd.put_all (map2 (\<lambda>s it. (dir @ ''/'' @ s, fst (snd it))) ss items) (disk_files ?d)\<rparr>"
    by blast
  with s show ?case by (intro exI [of _ "s # ss"]) (simp add: jsd.put_all_def)
qed

lemma write_all_total:
  assumes "map item_name items = map Inr ss"
  shows "\<exists>disk' refs'. write_all sha dir items (disk, refs) = (disk', Inr refs')"
  using assms
proof (induction items arbitrary: disk refs ss)
  case (Cons it items)
  then obtain s ss' where "item_name it = Inr s"
    "map item_name items = map Inr ss'"
    by (auto simp: Cons_eq_map_conv)
  then show ?case using Cons.IH by (simp add: write_one_eq)
qed simp

lemma write_all_entries [simp]: "disk_entries (fst (write_all sha dir items (disk, refs))) = disk_entries disk"
proof (induction items arbitrary: disk refs)
  case (Cons it items)
  then show ?case by (simp add: write_one_eq split: sum.split)
qed simp

text \<open>All items of a collection: the artifacts of the results and the extra ones.\<close>

definition collect_items ::
  "task_run_result list \<Rightarrow> (string \<times> string) list \<Rightarrow> (string \<times> string \<times> squad_role option \<times> string option) list" where
  "collect_items results extras = result_items results @ map (\<lambda>(n, c). (n, c, None, None)) extras"

definition version_of :: "string \<Rightarrow> string \<Rightarrow> artifact_disk \<Rightarrow> string" where
  "version_of base mid disk = fst (snd (create_new_version_dir base mid disk))"

definition version_dir :: "string \<Rightarrow> string \<Rightarrow> artifact_disk \<Rightarrow> string" where
  "version_dir base mid disk = snd (snd (create_new_version_dir base mid disk))"

lemma collect_Inr:
  assumes "collect_from_results sha render ts base mid results extras disk = (disk', Inr c)"
  shows "\<exists>ss. map item_name (collect_items results extras) = map Inr ss \<and>
     co_artifacts_dir c = version_dir base mid disk \<and>
     co_manifest_path c = version_dir base mid disk @ ''/manifest.json'' \<and>
     co_artifacts c = map2 (item_ref sha (version_dir base mid disk)) ss (collect_items results extras) \<and>
     disk_files disk' = js_set (co_manifest_path c)
        (render \<lparr>mf_mission_id = mid, mf_version = version_of base mid disk, mf_created_at = ts, mf_artifacts = co_artifacts c\<rparr>)
        (jsd.put_all (map2 (\<lambda>s it. (version_dir base mid disk @ ''/'' @ s, fst (snd it))) ss (collect_items results extras))
           (disk_files disk))"
proof -
  obtain disk1 version dir where new: "create_new_version_dir base mid disk = (disk1, version, dir)"
    by (cases "create_new_version_dir base mid disk") auto
  have f1: "disk_files disk1 = disk_files disk"
    using new by (auto simp: create_new_version_dir_def Let_def)
  obtain disk2 refs where w: "write_all sha dir (collect_items results extras) (disk1, []) = (disk2, Inr refs)"
    using assms new by (auto simp: collect_from_results_def collect_items_def split: prod.splits sum.splits)
  have c: "c = \<lparr>co_artifacts_dir = dir, co_manifest_path = dir @ ''/manifest.json'', co_artifacts = refs\<rparr>"
    and d: "disk' = disk2\<lparr>disk_files := js_set (dir @ ''/manifest.json'')
       (render \<lparr>mf_mission_id = mid, mf_version = version, mf_created_at = ts, mf_artifacts = refs\<rparr>) (disk_files disk2)\<rparr>"
    using assms new w by (auto simp: collect_from_results_def collect_items_def Let_def)
  have v: "version_of base mid disk = version" "version_dir base mid disk = dir"
    using new by (simp_all add: version_of_def version_dir_def)
  show ?thesis using write_all_Inr [OF w] f1 by (auto simp: c d v)
qed

lemma collect_total:
  assumes "\<forall>it \<in> set (collect_items results extras). \<not> isl (item_name it)"
  shows "\<exists>disk' c. collect_from_results sha render ts base mid results extras disk = (disk', Inr c)"
proof -
  let ?items = "collect_items results extras"
  have names: "map item_name ?items = map Inr (map (\<lambda>it. projr (item_name it)) ?items)"
    using assms by (simp add: sum.collapse(2))
  obtain disk1 version dir where new: "create_new_version_dir base mid disk = (disk1, version, dir)"
    by (cases "create_new_version_dir base mid disk") auto
  obtain disk2 refs where "write_all sha dir ?items (disk1, []) = (disk2, Inr refs)"
    using write_all_total [OF names] by blast
  then show ?thesis using new by (simp add: collect_from_results_def collect_items_def Let_def)
qed

lemma safe_char_path: "safe_char c \<Longrightarrow> c \<noteq> CHR 0x2F \<and> c \<noteq> CHR 0x5C"
  by (auto simp: safe_char_def)

lemma squash_unsafe_safe: "list_all safe_char (squash_unsafe s)"
  unfolding squash_unsafe_def by (rule squash_runs_safe) (simp add: safe_char_def)

lemma sanitize_Inr:
  "sanitize_artifact_filename name = Inr safe \<Longrightarrow>
     list_all safe_char safe \<and> safe \<noteq> [] \<and> safe \<noteq> ''.'' \<and> safe \<noteq> ''..''"
  by (auto simp: sanitize_artifact_filename_def Let_def squash_unsafe_safe split: if_splits)

section \<open>Properties\<close>

text \<open>
  Every artifact of a collection lies directly in the version directory, under a non-empty
  name of letters, digits, dots, underscores and dashes that is not a dot segment: whatever names
  the tasks choose, no path leaves the directory.
\<close>

theorem artifacts_stay_in_version_dir:
  assumes "collect_from_results sha render ts base mid results extras disk = (disk', Inr c)"
  shows "\<forall>r \<in> set (co_artifacts c). \<exists>safe. ref_path r = co_artifacts_dir c @ ''/'' @ safe \<and>
     list_all safe_char safe \<and> CHR 0x2F \<notin> set safe \<and> safe \<notin> {[], ''.'', ''..''}"
proof
  fix r assume r: "r \<in> set (co_artifacts c)"
  from collect_Inr [OF assms] obtain ss where
    ss: "map item_name (collect_items results extras) = map Inr ss"
    and c: "co_artifacts_dir c = version_dir base mid disk"
      "co_artifacts c = map2 (item_ref sha (version_dir base mid disk)) ss (collect_items results extras)"
    by blast
  from r c(2) obtain s it where z: "(s, it) \<in> set (zip ss (collect_items results extras))"
    and r': "r = item_ref sha (version_dir base mid disk) s it"
    by auto
  have "Inr s \<in> set (map item_name (collect_items results extras))"
    unfolding ss using set_zip_leftD [OF z] by simp
  then obtain n where "sanitize_artifact_filename n = Inr s" by (auto simp: item_name_def)
  from sanitize_Inr [OF this] safe_char_path
  show "\<exists>safe. ref_path r = co_artifacts_dir c @ ''/'' @ safe \<and>
     list_all safe_char safe \<and> CHR 0x2F \<notin> set safe \<and> safe \<notin> {[], ''.'', ''..''}"
    by (intro exI [of _ s]) (auto simp: r' c list_all_iff)
qed

definition sample_result :: "string \<Rightarrow> string \<Rightarrow> string \<Rightarrow> task_run_result" where
  "sample_result tid name content = \<lparr>res_task_id = tid, res_agent = Synth, res_started_at = 0, res_finished_at = 0,
     res_status = TSucceeded, res_summary = None,
     res_artifacts = Some [\<lparr>art_name = name, art_content = content, art_media_type = None\<rparr>], res_error = None\<rparr>"

definition empty_disk :: artifact_disk where
  "empty_disk = \<lparr>disk_entries = [], disk_files = []\<rparr>"

definition sample_collect :: "string \<Rightarrow> string \<Rightarrow> artifact_disk \<times> (thrown + collected)" where
  "sample_collect n1 n2 = collect_from_results id (\<lambda>m. mf_version m) 0 ''b'' ''m''
     [sample_result ''t1'' n1 ''one'', sample_result ''t2'' n2 ''two''] [] empty_disk"

theorem artifacts_stay_in_version_dir_witness:
  "list_all (\<lambda>r. \<exists>safe. CHR 0x2F \<notin> set safe \<and>
     ref_path r = co_artifacts_dir (projr (snd (sample_collect ''a b'' ''c''))) @ ''/'' @ safe)
     (co_artifacts (projr (snd (sample_collect ''a b'' ''c''))))"
proof -
  have "isl (snd (sample_collect ''a b'' ''c'')) = False" by code_simp
  then have "sample_collect ''a b'' ''c'' =
      (fst (sample_collect ''a b'' ''c''), Inr (projr (snd (sample_collect ''a b'' ''c''))))"
    by (cases "sample_collect ''a b'' ''c''", cases "snd (sample_collect ''a b'' ''c'')") auto
  from artifacts_stay_in_version_dir [OF this [unfolded sample_collect_def], folded sample_collect_def]
  show ?thesis unfolding list_all_iff by blast
qed

lemma first_free_spec: "version_name (first_free names n) \<notin> set names \<and> n \<le> first_free names n"
proof (induction names n rule: first_free.induct)
  case (1 names n)
  show ?case
  proof (cases "version_name n \<in> set names")
    case True
    then show ?thesis using 1 by (subst (1 2) first_free.simps) simp
  qed (subst (1 2) first_free.simps, simp)
qed

text \<open>
  A delivery gets a directory of its own: its name was not in the mission directory, also when
  a concurrent delivery or a stray file had taken the next number, its number is above the number
  of every existing version directory, and the search for it always ends.
\<close>

theorem version_directories_are_fresh:
  "let entries = nullish (js_get (disk_entries disk) (mission_dir base mid)) [];
       (disk', version, dir) = create_new_version_dir base mid disk
   in version \<notin> fst ` set entries \<and> (\<exists>n. version = version_name n \<and> list_all (\<lambda>k. k < n) (version_numbers entries)) \<and>
      dir = mission_dir base mid @ ''/'' @ version \<and>
      js_get (disk_entries disk') (mission_dir base mid) = Some (entries @ [(version, True)]) \<and>
      disk_files disk' = disk_files disk"
proof -
  let ?es = "nullish (js_get (disk_entries disk) (mission_dir base mid)) []"
  let ?n = "first_free (map fst ?es) (start_number ?es)"
  have "k < start_number ?es" if "k \<in> set (version_numbers ?es)" for k
    using that by (cases "version_numbers ?es") (auto simp: start_number_def less_Suc_eq_le)
  then have "list_all (\<lambda>k. k < ?n) (version_numbers ?es)"
    using first_free_spec [of "map fst ?es" "start_number ?es"] unfolding list_all_iff
    by (meson order_less_le_trans)
  moreover have "version_name ?n \<notin> fst ` set ?es"
    using first_free_spec [of "map fst ?es" "start_number ?es"] by simp
  ultimately show ?thesis
    unfolding create_new_version_dir_def Let_def case_prod_conv by (intro conjI exI [of _ ?n]) simp_all
qed

text \<open>
  When the sanitized names of the artifacts are distinct and none is \<open>manifest.json\<close>, every
  entry of the manifest describes the file that is on disk at its path: the content of its item,
  with its digest and its length.
\<close>

theorem manifest_matches_disk:
  assumes "collect_from_results sha render ts base mid results extras disk = (disk', Inr c)"
    and "distinct (map item_name (collect_items results extras))"
    and "Inr ''manifest.json'' \<notin> item_name ` set (collect_items results extras)"
  shows "list_all2 (\<lambda>r it. js_get (disk_files disk') (ref_path r) = Some (fst (snd it)) \<and>
       ref_sha256 r = sha (fst (snd it)) \<and> ref_bytes r = length (fst (snd it)))
     (co_artifacts c) (collect_items results extras)"
proof -
  let ?items = "collect_items results extras" and ?dir = "version_dir base mid disk"
  from collect_Inr [OF assms(1)] obtain ss where
    ss: "map item_name ?items = map Inr ss"
    and mp: "co_manifest_path c = ?dir @ ''/manifest.json''"
    and refs: "co_artifacts c = map2 (item_ref sha ?dir) ss ?items"
    and files: "disk_files disk' = js_set (co_manifest_path c)
        (render \<lparr>mf_mission_id = mid, mf_version = version_of base mid disk, mf_created_at = ts, mf_artifacts = co_artifacts c\<rparr>)
        (jsd.put_all (map2 (\<lambda>s it. (?dir @ ''/'' @ s, fst (snd it))) ss ?items) (disk_files disk))"
    by blast
  have len: "length ss = length ?items" using ss by (metis length_map)
  let ?kvs = "map2 (\<lambda>s it. (?dir @ ''/'' @ s, fst (snd it))) ss ?items"
  have keys: "map fst ?kvs = map (\<lambda>s. ?dir @ ''/'' @ s) ss"
    using len by (intro nth_equalityI) auto
  have "distinct (map Inr ss :: (thrown + string) list)" using assms(2) ss by simp
  then have "distinct ss" by (simp add: distinct_map)
  then have dk: "distinct (map fst ?kvs)" unfolding keys by (simp add: distinct_map inj_on_def)
  have "Inr ''manifest.json'' \<notin> set (map Inr ss :: (thrown + string) list)"
    using assms(3) unfolding ss [symmetric] by simp
  then have nm: "''manifest.json'' \<notin> set ss" by auto
  show ?thesis
    unfolding list_all2_conv_all_nth
  proof (intro conjI allI impI)
    show "length (co_artifacts c) = length ?items" using refs len by simp
    fix i assume "i < length (co_artifacts c)"
    then have i: "i < length ss" "i < length ?items" using refs len by auto
    then have r: "co_artifacts c ! i = item_ref sha ?dir (ss ! i) (?items ! i)" by (simp add: refs)
    have "(?dir @ ''/'' @ ss ! i, fst (snd (?items ! i))) \<in> set ?kvs"
      using i by (auto simp: set_zip)
    from jsd.get_put_all_distinct [OF dk this]
    show "js_get (disk_files disk') (ref_path (co_artifacts c ! i)) = Some (fst (snd (?items ! i)))"
      using nm nth_mem [OF i(1)] by (auto simp: r files mp)
    show "ref_sha256 (co_artifacts c ! i) = sha (fst (snd (?items ! i)))"
      "ref_bytes (co_artifacts c ! i) = length (fst (snd (?items ! i)))"
      by (simp_all add: r)
  qed
qed

theorem manifest_matches_disk_witness:
  "list_all2 (\<lambda>r it. js_get (disk_files (fst (sample_collect ''a b'' ''c''))) (ref_path r) = Some (fst (snd it)))
     (co_artifacts (projr (snd (sample_collect ''a b'' ''c''))))
     (collect_items [sample_result ''t1'' ''a b'' ''one'', sample_result ''t2'' ''c'' ''two''] [])"
proof -
  let ?rs = "[sample_result ''t1'' ''a b'' ''one'', sample_result ''t2'' ''c'' ''two'']"
  have "isl (snd (sample_collect ''a b'' ''c'')) = False" by code_simp
  then have "sample_collect ''a b'' ''c'' =
      (fst (sample_collect ''a b'' ''c''), Inr (projr (snd (sample_collect ''a b'' ''c''))))"
    by (cases "sample_collect ''a b'' ''c''", cases "snd (sample_collect ''a b'' ''c'')") auto
  moreover have "map item_name (collect_items ?rs []) = map Inr [''a_b'', ''c'']" by code_simp
  moreover from this have "set (map item_name (collect_items ?rs [])) = set (map Inr [''a_b'', ''c''])"
    by (simp only:)
  then have "item_name ` set (collect_items ?rs []) = {Inr ''a_b'', Inr ''c''}" by simp
  ultimately have "list_all2 (\<lambda>r it. js_get (disk_files (fst (sample_collect ''a b'' ''c''))) (ref_path r) = Some (fst (snd it)) \<and>
       ref_sha256 r = id (fst (snd it)) \<and> ref_bytes r = length (fst (snd it)))
     (co_artifacts (projr (snd (sample_collect ''a b'' ''c'')))) (collect_items ?rs [])"
    by (intro manifest_matches_disk [where sha = id and render = mf_version and ts = 0 and base = "''b''"
          and mid = "''m''" and extras = "[]" and disk = empty_disk and results = ?rs])
      (simp_all add: sample_collect_def)
  then show ?thesis by (rule list_all2_mono) simp
qed

text \<open>
  Two artifacts whose names sanitize to the same file name get two manifest entries with one
  path, and the disk holds the content of the later one only: when the contents differ, the digest
  and the content the manifest promises for the earlier artifact are not what is on disk.
\<close>

theorem same_name_breaks_the_manifest:
  assumes "collect_from_results sha render ts base mid results [] disk = (disk', Inr c)"
    and "collect_items results [] = [a, b]" "item_name a = item_name b" "item_name b \<noteq> Inr ''manifest.json''"
    and "fst (snd a) \<noteq> fst (snd b)" "inj sha"
  shows "\<exists>ra rb content. co_artifacts c = [ra, rb] \<and> ref_path ra = ref_path rb \<and>
     js_get (disk_files disk') (ref_path ra) = Some content \<and> content \<noteq> fst (snd a) \<and> sha content \<noteq> ref_sha256 ra"
proof -
  from collect_Inr [OF assms(1)] assms(2, 3) obtain s where
    s: "item_name b = Inr s" and mp: "co_manifest_path c = version_dir base mid disk @ ''/manifest.json''"
    and refs: "co_artifacts c = [item_ref sha (version_dir base mid disk) s a, item_ref sha (version_dir base mid disk) s b]"
    and files: "disk_files disk' = js_set (co_manifest_path c)
        (render \<lparr>mf_mission_id = mid, mf_version = version_of base mid disk, mf_created_at = ts, mf_artifacts = co_artifacts c\<rparr>)
        (jsd.put_all [(version_dir base mid disk @ ''/'' @ s, fst (snd a)), (version_dir base mid disk @ ''/'' @ s, fst (snd b))]
           (disk_files disk))"
    by (auto simp: Cons_eq_map_conv)
  have "s \<noteq> ''manifest.json''" using assms(4) s by simp
  then have "js_get (disk_files disk') (version_dir base mid disk @ ''/'' @ s) = Some (fst (snd b))"
    by (simp add: files mp jsd.put_all_def)
  then show ?thesis
    using refs assms(5, 6) by (auto simp: inj_def)
qed

theorem same_name_breaks_the_manifest_witness:
  "\<exists>ra rb content. co_artifacts (projr (snd (sample_collect ''report.md'' ''report.md''))) = [ra, rb] \<and>
     js_get (disk_files (fst (sample_collect ''report.md'' ''report.md''))) (ref_path ra) = Some content \<and>
     content \<noteq> ref_sha256 ra"
proof -
  let ?rs = "[sample_result ''t1'' ''report.md'' ''one'', sample_result ''t2'' ''report.md'' ''two'']"
  have "isl (snd (sample_collect ''report.md'' ''report.md'')) = False" by code_simp
  then have c: "collect_from_results id mf_version 0 ''b'' ''m'' ?rs [] empty_disk =
      (fst (sample_collect ''report.md'' ''report.md''), Inr (projr (snd (sample_collect ''report.md'' ''report.md''))))"
    unfolding sample_collect_def [symmetric]
    by (cases "sample_collect ''report.md'' ''report.md''", cases "snd (sample_collect ''report.md'' ''report.md'')") auto
  have i: "collect_items ?rs [] = [(''report.md'', ''one'', Some Synth, Some ''t1''), (''report.md'', ''two'', Some Synth, Some ''t2'')]"
    by code_simp
  have n: "item_name (''report.md'', ''two'', Some Synth, Some ''t2'') \<noteq> Inr ''manifest.json''" by code_simp
  from same_name_breaks_the_manifest [OF c i _ n] show ?thesis
    by (auto simp: item_name_def)
qed

end
