(* ===== verification/Mission_Runner.thy ===== *)
theory Mission_Runner
  imports Squad_Correct Gates Artifacts
begin

text \<open>
  \<open>lib/mission-runner.ts\<close>: the runner that drives a mission through its phases with the state
  machine, the squad, the gates and the artifact collector. The schema validator (a package), the
  digest, the JSON and the date texts, the generated ids and the readings of the clock are given by
  the environment; the \<open>k\<close>-th reading that the runner's own code takes in one run is \<open>re_at env k\<close>.
  The hooks are notifications whose errors are dropped.
\<close>

record runner_env =
  re_schema_errors :: "mission_brief \<Rightarrow> string option"
  re_squad :: squad
  re_schedule :: "mission_task list \<Rightarrow> batch_event list"
  re_gates :: "gate_definition list"
  re_approve :: "(thrown + bool) option"
  re_persist_dir :: string
  re_base_dir :: string
  re_mission_id :: string
  re_uuid :: "nat \<Rightarrow> string"
  re_at :: "nat \<Rightarrow> int"
  re_iso :: "int \<Rightarrow> string"
  re_sha :: "string \<Rightarrow> string"
  re_render :: "artifact_manifest \<Rightarrow> string"

record runner_world =
  rw_fs :: mission_fs
  rw_disk :: artifact_disk

text \<open>An operation of the runner: the world after it, and the record or what was thrown.\<close>

type_synonym runner_result = "runner_world \<times> (thrown + mission_record)"

fun phase_name :: "mission_phase \<Rightarrow> string" where
  "phase_name Brief = ''brief''" | "phase_name Plan = ''plan''" | "phase_name Execute = ''execute''"
| "phase_name Verify = ''verify''" | "phase_name Deliver = ''deliver''" | "phase_name Closed = ''closed''"
| "phase_name Error = ''error''"

definition arrow :: string where
  "arrow = [CHR '' '', CHR 0xE2, CHR 0x86, CHR 0x92, CHR '' '']"

text \<open>The texts of the exceptions of the state machine.\<close>

fun exn_message :: "mission_exn \<Rightarrow> string" where
  "exn_message BriefRequiresTitle = ''Mission brief requires title''"
| "exn_message BriefRequiresDescription = ''Mission brief requires description''"
| "exn_message BriefRequiresRequirements = ''Mission brief requires requirements[]''"
| "exn_message (InvalidTransition a b) = ''Invalid mission transition: '' @ phase_name a @ arrow @ phase_name b"
| "exn_message (RollbackOnlyFromError a) = ''Rollback only allowed from error phase (current: '' @ phase_name a @ '')''"
| "exn_message (RollbackTargetNotInHistory a) = ''Rollback target phase not in history: '' @ phase_name a"
| "exn_message MissingMissionId = ''Mission record missing missionId''"
| "exn_message MissingCreatedAt = ''Mission record missing createdAt''"
| "exn_message MissingUpdatedAt = ''Mission record missing updatedAt''"
| "exn_message MissingMetricsCreatedAt = ''Mission record missing metrics.createdAt''"
| "exn_message (RequiresBrief a) =
     (if a = Brief then ''Mission in brief phase requires brief'' else ''Mission in '' @ phase_name a @ '' requires brief'')"
| "exn_message (RequiresPlan a) = ''Mission in '' @ phase_name a @ '' requires plan''"
| "exn_message (RequiresExecution a) = ''Mission in '' @ phase_name a @ '' requires execution''"
| "exn_message (RequiresVerification a) = ''Mission in '' @ phase_name a @ '' requires verification''"
| "exn_message RequiresDelivery = ''Mission in closed phase requires delivery''"
| "exn_message RequiresErrorInfo = ''Mission in error phase requires error info''"
| "exn_message StoreError = ''store error''"

definition lift_sm :: "runner_world \<Rightarrow> mission_fs \<times> (mission_exn + mission_record) \<Rightarrow> runner_result" where
  "lift_sm w x = (w\<lparr>rw_fs := fst x\<rparr>, map_sum (\<lambda>e. ThrownError (exn_message e) ''Error'') id (snd x))"

text \<open>Reading a property of \<open>undefined\<close>.\<close>

definition type_error :: "string \<Rightarrow> thrown" where
  "type_error p = ThrownError (''Cannot read properties of undefined (reading '' @ [CHR 0x27] @ p @ [CHR 0x27] @ '')'') ''TypeError''"

section \<open>Reports\<close>

fun status_name :: "task_status \<Rightarrow> string" where
  "status_name TPending = ''pending''" | "status_name TRunning = ''running''"
| "status_name TSucceeded = ''succeeded''" | "status_name TFailed = ''failed''"
| "status_name TSkipped = ''skipped''"

fun gate_kind_name :: "gate_kind \<Rightarrow> string" where
  "gate_kind_name QualityGate = ''quality''" | "gate_kind_name SecurityGate = ''security''"
| "gate_kind_name ApprovalGate = ''approval''"

fun gate_status_name :: "gate_status \<Rightarrow> string" where
  "gate_status_name GatePass = ''pass''" | "gate_status_name GateFail = ''fail''"
| "gate_status_name GateWarn = ''warn''" | "gate_status_name GateRequireApproval = ''require_approval''"

fun overall_name :: "overall \<Rightarrow> string" where
  "overall_name OverallPass = ''pass''" | "overall_name OverallFail = ''fail''"
| "overall_name OverallRequireApproval = ''require_approval''"

definition show_time :: "runner_env \<Rightarrow> int option \<Rightarrow> string" where
  "show_time env x = (case x of None \<Rightarrow> ''undefined'' | Some n \<Rightarrow> re_iso env n)"

definition task_results_of :: "mission_record \<Rightarrow> task_run_result list" where
  "task_results_of m = (case execution m of None \<Rightarrow> [] | Some x \<Rightarrow> ex_results x)"

definition status_report :: "runner_env \<Rightarrow> mission_record \<Rightarrow> string" where
  "status_report env m = join_with newline
     ([''# Mission Status Report'', '''',
       ''- Mission ID: '' @ mission_id m,
       ''- Phase: '' @ phase_name (phase m),
       ''- Created: '' @ show_time env (created_at m),
       ''- Updated: '' @ show_time env (updated_at m), '''',
       ''## Brief'',
       ''- Title: '' @ nullish (Option.bind (brief m) br_title) '''',
       ''- Description: '' @ nullish (Option.bind (brief m) br_description) '''', '''',
       ''## Plan'',
       ''- Tasks: '' @ show_nat (case plan m of None \<Rightarrow> 0 | Some p \<Rightarrow> length (plan_tasks p)), '''',
       ''## Execution'']
      @ map (\<lambda>r. ''- '' @ res_task_id r @ '' ('' @ role_name (res_agent r) @ ''): '' @ status_name (res_status r)
                 @ (if truthy_str (res_summary r) then em_dash @ str_or_empty (res_summary r) else ''''))
          (task_results_of m)
      @ ['''', ''## Verification'',
         ''- Overall: '' @ (case verification m of None \<Rightarrow> ''n/a'' | Some v \<Rightarrow> overall_name (ver_overall v))]
      @ map (\<lambda>g. ''- ['' @ gate_kind_name (gr_kind g) @ ''] '' @ gr_gate_id g @ '': '' @ gate_status_name (gr_status g)
                 @ em_dash @ gr_message g)
          (case verification m of None \<Rightarrow> [] | Some v \<Rightarrow> ver_results v)
      @ [''''])"

definition closed_line :: "mission_record \<Rightarrow> string" where
  "closed_line m = ''- Closed: '' @ (if phase m = Closed then ''yes'' else ''no'')"

definition completion_lines :: "mission_record \<Rightarrow> string list" where
  "completion_lines m =
     [''# Mission Completion Summary'', '''', ''## Overview'',
      ''- Mission ID: '' @ mission_id m,
      ''- Title: '' @ nullish (Option.bind (brief m) br_title) '''',
      closed_line m, '''', ''## Deliverables'']
     @ (case Option.bind (brief m) br_deliverables of
          Some (d # ds) \<Rightarrow> map (\<lambda>d. ''- '' @ d) (d # ds)
        | _ \<Rightarrow> [''- (none specified)''])
     @ ['''', ''## Metrics'',
        ''- Duration (ms): '' @ (case Option.bind (metrics m) met_duration_ms of None \<Rightarrow> ''n/a'' | Some n \<Rightarrow> show_int n),
        '''']"

definition completion_summary :: "mission_record \<Rightarrow> string" where
  "completion_summary m = join_with newline (completion_lines m)"

definition failure_analysis :: "mission_record \<Rightarrow> string" where
  "failure_analysis m =
     (let failed = filter (\<lambda>r. res_status r = TFailed) (task_results_of m) in
      join_with newline
        ([''# Failure Analysis'', '''',
          if failed \<noteq> [] then ''Execution failures detected: '' @ show_nat (length failed)
          else ''No execution failures detected.'', '''']
         @ map (\<lambda>r. ''- Task '' @ res_task_id r @ '' ('' @ role_name (res_agent r) @ ''): ''
                    @ (case res_error r of None \<Rightarrow> ''unknown error'' | Some (msg, n) \<Rightarrow> msg)) failed
         @ ['''', (case error_info m of None \<Rightarrow> ''State machine error: none''
                  | Some e \<Rightarrow> ''State machine error: '' @ err_message e), '''']))"

section \<open>The phases\<close>

definition plan_step :: "runner_env \<Rightarrow> runner_world \<Rightarrow> mission_record \<Rightarrow> runner_result" where
  "plan_step env w m =
     (if phase m \<noteq> Brief then (w, Inr m)
      else case brief m of
        None \<Rightarrow> (w, Inl (type_error ''title''))
      | Some b \<Rightarrow>
          lift_sm w (transition (re_persist_dir env) (re_at env 1) m Plan
            (no_patch\<lparr>pt_plan := Present (Some (create_plan_from_brief (re_at env 0) (re_uuid env) b))\<rparr>)
            (Some ''auto-planned'') (rw_fs w)))"

definition execute_step :: "runner_env \<Rightarrow> runner_world \<Rightarrow> mission_record \<Rightarrow> runner_result" where
  "execute_step env w m =
     (if phase m \<noteq> Plan then (w, Inr m)
      else case plan m of
        None \<Rightarrow> (w, Inl (type_error ''tasks''))
      | Some p \<Rightarrow>
          (case execute_plan (re_squad env) (re_schedule env) p of
             Inl e \<Rightarrow> (w, Inl e)
           | Inr x \<Rightarrow>
               lift_sm w (transition (re_persist_dir env) (re_at env 2) m Execute
                 (no_patch\<lparr>pt_execution := Present (Some x)\<rparr>) (Some ''executed plan'') (rw_fs w))))"

definition gate_context_of :: "runner_env \<Rightarrow> mission_record \<Rightarrow> gate_context" where
  "gate_context_of env m = \<lparr>gc_mission = m, gc_artifacts_dir = None, gc_approve = re_approve env\<rparr>"

definition verify_step :: "runner_env \<Rightarrow> runner_world \<Rightarrow> mission_record \<Rightarrow> runner_result" where
  "verify_step env w m =
     (if phase m \<noteq> Execute then (w, Inr m)
      else case run_all True (re_gates env) (gate_context_of env m) of
        Inl e \<Rightarrow> (w, Inl e)
      | Inr (results, ov) \<Rightarrow>
          lift_sm w (transition (re_persist_dir env) (re_at env 5) m Verify
            (no_patch\<lparr>pt_verification := Present (Some \<lparr>ver_started_at = re_at env 3, ver_finished_at = Some (re_at env 4),
                                                        ver_results = results, ver_overall = ov\<rparr>)\<rparr>)
            (Some ''gate checks'') (rw_fs w)))"

definition report_items :: "runner_env \<Rightarrow> mission_record \<Rightarrow> (string \<times> string) list" where
  "report_items env m =
     [(''status-report.md'', status_report env m), (''completion-summary.md'', completion_summary m),
      (''failure-analysis.md'', failure_analysis m)]"

definition delivery_of :: "runner_env \<Rightarrow> collected \<Rightarrow> mission_delivery" where
  "delivery_of env c =
     \<lparr>del_delivered_at = re_at env 7, del_artifacts_dir = co_artifacts_dir c, del_manifest_path = co_manifest_path c,
      del_artifacts = co_artifacts c, del_status_report = co_artifacts_dir c @ ''/status-report.md'',
      del_completion_summary = co_artifacts_dir c @ ''/completion-summary.md''\<rparr>"

definition deliver_step :: "runner_env \<Rightarrow> runner_world \<Rightarrow> mission_record \<Rightarrow> runner_result" where
  "deliver_step env w m =
     (if phase m \<noteq> Verify then (w, Inr m)
      else if map_option ver_overall (verification m) = Some OverallFail then
        lift_sm w (fail_mission (re_persist_dir env) (re_at env 5) (re_at env 6) m
          (ThrownError ''Gate checks failed'' ''Error'') (Some ''gates_failed'') (Some Execute) (rw_fs w))
      else if map_option ver_overall (verification m) = Some OverallRequireApproval then
        lift_sm w (fail_mission (re_persist_dir env) (re_at env 5) (re_at env 6) m
          (ThrownError ''Human approval required'' ''Error'') (Some ''requires_approval'') (Some Verify) (rw_fs w))
      else case execution m of
        None \<Rightarrow> (w, Inl (type_error ''results''))
      | Some x \<Rightarrow>
          (case collect_from_results (re_sha env) (re_render env) (re_at env 6) (re_base_dir env) (mission_id m)
                  (ex_results x) (report_items env m) (rw_disk w) of
             (disk, Inl e) \<Rightarrow> (w\<lparr>rw_disk := disk\<rparr>, Inl e)
           | (disk, Inr c) \<Rightarrow>
               lift_sm (w\<lparr>rw_disk := disk\<rparr>) (transition (re_persist_dir env) (re_at env 8) m Deliver
                 (no_patch\<lparr>pt_delivery := Present (Some (delivery_of env c))\<rparr>)
                 (Some ''delivered artifacts'') (rw_fs w))))"

definition close_step :: "runner_env \<Rightarrow> runner_world \<Rightarrow> mission_record \<Rightarrow> runner_result" where
  "close_step env w m =
     (if phase m \<noteq> Deliver then (w, Inr m)
      else lift_sm w (transition (re_persist_dir env) (re_at env 10) m Closed
        (no_patch\<lparr>pt_duration_ms := Present (map_option (\<lambda>c. re_at env 9 - c) (created_at m)),
                  pt_tokens_used := (case metrics m of None \<Rightarrow> Absent | Some k \<Rightarrow> Present (met_tokens_used k)),
                  pt_cost_usd := (case metrics m of None \<Rightarrow> Absent | Some k \<Rightarrow> Present (met_cost_usd k))\<rparr>)
        (Some ''mission closed'') (rw_fs w)))"

fun and_then :: "runner_result \<Rightarrow> (runner_world \<Rightarrow> mission_record \<Rightarrow> runner_result) \<Rightarrow> runner_result" where
  "and_then (w, Inl e) f = (w, Inl e)"
| "and_then (w, Inr m) f = f w m"

text \<open>\<open>runFromPhase\<close>: a failed verification returns the failed mission, for which the last step does nothing.\<close>

definition run_from_phase :: "runner_env \<Rightarrow> runner_world \<Rightarrow> mission_record \<Rightarrow> runner_result" where
  "run_from_phase env w m =
     and_then (and_then (and_then (and_then (plan_step env w m) (execute_step env)) (verify_step env))
       (deliver_step env)) (close_step env)"

section \<open>The operations\<close>

definition run_or_fail :: "runner_env \<Rightarrow> runner_world \<Rightarrow> mission_record \<Rightarrow> runner_result" where
  "run_or_fail env w m =
     (case run_from_phase env w m of
        (w', Inr m') \<Rightarrow> (w', Inr m')
      | (w', Inl e) \<Rightarrow>
          lift_sm w' (fail_mission (re_persist_dir env) (re_at env 11) (re_at env 12) m e None None (rw_fs w')))"

definition run_from_brief :: "runner_env \<Rightarrow> runner_world \<Rightarrow> mission_brief \<Rightarrow> runner_result" where
  "run_from_brief env w b =
     (case re_schema_errors env b of
        Some details \<Rightarrow> (w, Inl (ThrownError (''Invalid mission brief: '' @ details) ''Error''))
      | None \<Rightarrow>
          and_then (lift_sm w (create_mission (re_persist_dir env) (re_at env 13) (re_mission_id env) (Some b) None (rw_fs w)))
            (run_or_fail env))"

definition not_found :: "string \<Rightarrow> thrown" where
  "not_found i = ThrownError (''Mission not found: '' @ i) ''Error''"

definition resume :: "runner_env \<Rightarrow> runner_world \<Rightarrow> string \<Rightarrow> runner_result" where
  "resume env w i =
     (case load_mission (re_persist_dir env) (rw_fs w) i of
        Inl e \<Rightarrow> (w, Inl (ThrownError (exn_message e) ''Error''))
      | Inr None \<Rightarrow> (w, Inl (not_found i))
      | Inr (Some m) \<Rightarrow> if phase m = Closed \<or> phase m = Error then (w, Inr m) else run_or_fail env w m)"

definition rollback_mission :: "runner_env \<Rightarrow> runner_world \<Rightarrow> string \<Rightarrow> mission_phase \<Rightarrow> runner_result" where
  "rollback_mission env w i target =
     (case load_mission (re_persist_dir env) (rw_fs w) i of
        Inl e \<Rightarrow> (w, Inl (ThrownError (exn_message e) ''Error''))
      | Inr None \<Rightarrow> (w, Inl (not_found i))
      | Inr (Some m) \<Rightarrow> lift_sm w (rollback (re_persist_dir env) (re_at env 0) m target None (rw_fs w)))"

record run_delivered =
  rd_artifacts_dir :: string
  rd_manifest_path :: string
  rd_status_report :: string
  rd_completion_summary :: string

definition to_run_result :: "mission_record \<Rightarrow> run_delivered option" where
  "to_run_result m =
     (if phase m \<noteq> Closed then None
      else map_option (\<lambda>d. \<lparr>rd_artifacts_dir = del_artifacts_dir d, rd_manifest_path = del_manifest_path d,
             rd_status_report = del_status_report d, rd_completion_summary = del_completion_summary d\<rparr>) (delivery m))"

end
