(* ===== verification/Runner_Correct.thy ===== *)
theory Runner_Correct
  imports Mission_Runner
begin

text \<open>
  The properties of the mission runner: what a closed mission has gone through, where a run ends
  for each verdict of the gates, and three behaviours of the error paths that are not what the
  comments promise.
\<close>

section \<open>One phase after the other\<close>

lemma lift_sm_Inr_iff:
  "lift_sm w x = (w', Inr m') \<longleftrightarrow> (\<exists>fs'. x = (fs', Inr m') \<and> w' = w\<lparr>rw_fs := fs'\<rparr>)"
  by (cases x, cases "snd x") (auto simp: lift_sm_def)

lemma and_then_Inr_iff:
  "and_then r f = (w', Inr m') \<longleftrightarrow> (\<exists>w m. r = (w, Inr m) \<and> f w m = (w', Inr m'))"
  by (cases r, cases "snd r") auto

definition moved :: "runner_env \<Rightarrow> mission_record \<Rightarrow> mission_phase \<Rightarrow> runner_world \<Rightarrow> mission_record \<Rightarrow> bool" where
  "moved env m next w' m' \<longleftrightarrow>
     phase m' = next \<and> validate_record m' = None \<and>
     map he_phase (history m') = map he_phase (history m) @ [next] \<and>
     mission_id m' = mission_id m \<and> created_at m' = created_at m \<and> brief m' = brief m \<and>
     load_mission (re_persist_dir env) (rw_fs w') (mission_id m) = Inr (Some m')"

lemma lift_transition_moved:
  assumes "lift_sm w (transition (re_persist_dir env) ts m next p note fs) = (w', Inr m')"
    and "pt_mission_id p = Absent" "pt_created_at p = Absent" "pt_brief p = Absent"
  shows "moved env m next w' m' \<and> rw_disk w' = rw_disk w \<and>
     plan m' = spread (plan m) (pt_plan p) \<and> execution m' = spread (execution m) (pt_execution p) \<and>
     verification m' = spread (verification m) (pt_verification p) \<and>
     delivery m' = spread (delivery m) (pt_delivery p) \<and>
     metrics m' = Some (refresh_metrics m ts (pt_duration_ms p) (pt_tokens_used p) (pt_cost_usd p))"
  using assms by (auto simp: lift_sm_Inr_iff transition_Inr_iff moved_def load_store_save)

lemma lift_transition_ok:
  assumes "next \<in> set (allowed_forward (phase m))" "validate_record (transition_record ts m next p note) = None"
  shows "lift_sm w (transition dir ts m next p note fs) =
     (w\<lparr>rw_fs := store_save dir (transition_record ts m next p note) fs\<rparr>, Inr (transition_record ts m next p note))"
  using assms by (simp add: lift_sm_Inr_iff transition_Inr_iff)

text \<open>A patch that adds an artefact keeps a valid record valid.\<close>

lemma transition_keeps_valid:
  assumes "validate_record m = None" "phase m \<noteq> Error"
    and "pt_mission_id p = Absent" "pt_created_at p = Absent" "pt_brief p = Absent"
    and "next \<in> {Execute, Verify, Deliver, Closed} \<Longrightarrow> spread (plan m) (pt_plan p) \<noteq> None"
    and "next \<in> {Verify, Deliver, Closed} \<Longrightarrow> spread (execution m) (pt_execution p) \<noteq> None"
    and "next \<in> {Deliver, Closed} \<Longrightarrow> spread (verification m) (pt_verification p) \<noteq> None"
    and "next = Closed \<Longrightarrow> spread (delivery m) (pt_delivery p) \<noteq> None"
    and "next = Error \<Longrightarrow> spread (error_info m) (pt_error p) \<noteq> None"
  shows "validate_record (transition_record ts m next p note) = None"
  unfolding validate_record_None_iff
  using assms by (simp add: validate_record_None_iff del: bind_eq_None_conv)

lemma transition_advances:
  assumes "next \<in> set (allowed_forward (phase m))" "validate_record m = None" "phase m \<noteq> Error"
    and "pt_mission_id p = Absent" "pt_created_at p = Absent" "pt_brief p = Absent"
    and "next \<in> {Execute, Verify, Deliver, Closed} \<Longrightarrow> spread (plan m) (pt_plan p) \<noteq> None"
    and "next \<in> {Verify, Deliver, Closed} \<Longrightarrow> spread (execution m) (pt_execution p) \<noteq> None"
    and "next \<in> {Deliver, Closed} \<Longrightarrow> spread (verification m) (pt_verification p) \<noteq> None"
    and "next = Closed \<Longrightarrow> spread (delivery m) (pt_delivery p) \<noteq> None"
    and "next = Error \<Longrightarrow> spread (error_info m) (pt_error p) \<noteq> None"
  shows "\<exists>w' m'. lift_sm w (transition dir ts m next p note fs) = (w', Inr m')"
  using lift_transition_ok [OF assms(1) transition_keeps_valid [OF assms(2-11)]] by blast

lemma plan_step_Inr:
  assumes "plan_step env w m = (w', Inr m')" "phase m = Brief"
  shows "moved env m Plan w' m' \<and> rw_disk w' = rw_disk w \<and>
     plan m' = Some (create_plan_from_brief (re_at env 0) (re_uuid env) (the (brief m)))"
proof -
  obtain b where b: "brief m = Some b" using assms by (auto simp: plan_step_def split: option.splits)
  have "lift_sm w (transition (re_persist_dir env) (re_at env 1) m Plan
            (no_patch\<lparr>pt_plan := Present (Some (create_plan_from_brief (re_at env 0) (re_uuid env) b))\<rparr>)
            (Some ''auto-planned'') (rw_fs w)) = (w', Inr m')"
    using assms b by (simp add: plan_step_def)
  from lift_transition_moved [OF this] b show ?thesis by simp
qed

lemma plan_step_ok:
  assumes "phase m = Brief" "validate_record m = None"
  shows "\<exists>w' m'. plan_step env w m = (w', Inr m')"
proof -
  obtain b where b: "brief m = Some b" using assms by (auto simp: validate_record_None_iff)
  show ?thesis
    using assms b by (simp add: plan_step_def) (intro transition_advances; simp)
qed

lemma execute_step_Inr:
  assumes "execute_step env w m = (w', Inr m')" "phase m = Plan"
  shows "\<exists>x. execute_plan (re_squad env) (re_schedule env) (the (plan m)) = Inr x \<and> moved env m Execute w' m' \<and>
     rw_disk w' = rw_disk w \<and> plan m' = plan m \<and> execution m' = Some x"
proof -
  obtain p x where p: "plan m = Some p" and x: "execute_plan (re_squad env) (re_schedule env) p = Inr x"
    using assms by (auto simp: execute_step_def split: option.splits sum.splits)
  have "lift_sm w (transition (re_persist_dir env) (re_at env 2) m Execute
      (no_patch\<lparr>pt_execution := Present (Some x)\<rparr>) (Some ''executed plan'') (rw_fs w)) = (w', Inr m')"
    using assms p x by (simp add: execute_step_def)
  from lift_transition_moved [OF this] p x show ?thesis by simp
qed

lemma execute_step_ok:
  assumes "phase m = Plan" "validate_record m = None" "plan m = Some p"
    and "execute_plan (re_squad env) (re_schedule env) p = Inr x"
  shows "\<exists>w' m'. execute_step env w m = (w', Inr m')"
  using assms by (simp add: execute_step_def) (intro transition_advances; simp)

lemma verify_step_Inr:
  assumes "verify_step env w m = (w', Inr m')" "phase m = Execute"
  shows "\<exists>rs v. run_all True (re_gates env) (gate_context_of env m) = Inr (rs, ver_overall v) \<and> moved env m Verify w' m' \<and>
     rw_disk w' = rw_disk w \<and> plan m' = plan m \<and> execution m' = execution m \<and> verification m' = Some v \<and> ver_results v = rs"
proof -
  obtain rs ov where g: "run_all True (re_gates env) (gate_context_of env m) = Inr (rs, ov)"
    using assms by (auto simp: verify_step_def split: sum.splits)
  have "lift_sm w (transition (re_persist_dir env) (re_at env 5) m Verify
      (no_patch\<lparr>pt_verification := Present (Some \<lparr>ver_started_at = re_at env 3, ver_finished_at = Some (re_at env 4),
         ver_results = rs, ver_overall = ov\<rparr>)\<rparr>) (Some ''gate checks'') (rw_fs w)) = (w', Inr m')"
    using assms g by (simp add: verify_step_def)
  from lift_transition_moved [OF this] g show ?thesis by simp
qed

lemma verify_step_ok:
  assumes "phase m = Execute" "validate_record m = None" "execution m \<noteq> None"
    and "run_all True (re_gates env) (gate_context_of env m) = Inr (rs, ov)"
  shows "\<exists>w' m'. verify_step env w m = (w', Inr m')"
proof -
  have "plan m \<noteq> None" using assms(1, 2) by (auto simp: validate_record_None_iff)
  then show ?thesis
    using assms by (simp add: verify_step_def) (intro transition_advances; simp)
qed

lemma deliver_step_pass:
  assumes "deliver_step env w m = (w', Inr m')" "phase m = Verify" "verification m = Some v" "ver_overall v = OverallPass"
  shows "\<exists>c. collect_from_results (re_sha env) (re_render env) (re_at env 6) (re_base_dir env) (mission_id m)
       (task_results_of m) (report_items env m) (rw_disk w) = (rw_disk w', Inr c) \<and> moved env m Deliver w' m' \<and>
     plan m' = plan m \<and> execution m' = execution m \<and> verification m' = verification m \<and>
     delivery m' = Some (delivery_of env c)"
proof -
  obtain x disk c where x: "execution m = Some x"
    and c: "collect_from_results (re_sha env) (re_render env) (re_at env 6) (re_base_dir env) (mission_id m)
       (ex_results x) (report_items env m) (rw_disk w) = (disk, Inr c)"
    using assms by (auto simp: deliver_step_def split: option.splits sum.splits prod.splits)
  have "lift_sm (w\<lparr>rw_disk := disk\<rparr>) (transition (re_persist_dir env) (re_at env 8) m Deliver
      (no_patch\<lparr>pt_delivery := Present (Some (delivery_of env c))\<rparr>) (Some ''delivered artifacts'') (rw_fs w)) = (w', Inr m')"
    using assms x c by (simp add: deliver_step_def)
  from lift_transition_moved [OF this] x c show ?thesis by (simp add: task_results_of_def)
qed

lemma deliver_step_ok:
  assumes "phase m = Verify" "validate_record m = None" "verification m = Some v" "ver_overall v = OverallPass"
    and "\<forall>it \<in> set (collect_items (task_results_of m) (report_items env m)). \<not> isl (item_name it)"
  shows "\<exists>w' m'. deliver_step env w m = (w', Inr m')"
proof -
  obtain x p where x: "execution m = Some x" "plan m = Some p"
    using assms(1, 2) by (auto simp: validate_record_None_iff)
  obtain disk c where "collect_from_results (re_sha env) (re_render env) (re_at env 6) (re_base_dir env) (mission_id m)
       (task_results_of m) (report_items env m) (rw_disk w) = (disk, Inr c)"
    using collect_total [OF assms(5)] by blast
  then have "collect_from_results (re_sha env) (re_render env) (re_at env 6) (re_base_dir env) (mission_id m)
       (ex_results x) (report_items env m) (rw_disk w) = (disk, Inr c)"
    using x by (simp add: task_results_of_def)
  then show ?thesis
    using assms(1-4) x by (simp add: deliver_step_def) (intro transition_advances; simp)
qed

text \<open>A verdict that is not a pass fails the mission in the verify phase.\<close>

definition failed_record ::
  "int \<Rightarrow> int \<Rightarrow> mission_record \<Rightarrow> thrown \<Rightarrow> string option \<Rightarrow> mission_phase option \<Rightarrow> mission_record" where
  "failed_record t1 t2 m e code sug =
     transition_record t2 m Error (no_patch\<lparr>pt_error := Present (Some \<lparr>err_at_phase = phase m, err_occurred_at = t1,
       err_message = thrown_message e, err_name = thrown_name e, err_code = code, err_suggested_rollback = sug\<rparr>)\<rparr>)
       (Some (''failed: '' @ thrown_message e))"

lemma failed_record_sel [simp]:
  "phase (failed_record t1 t2 m e code sug) = Error"
  "mission_id (failed_record t1 t2 m e code sug) = mission_id m"
  "plan (failed_record t1 t2 m e code sug) = plan m"
  "execution (failed_record t1 t2 m e code sug) = execution m"
  "verification (failed_record t1 t2 m e code sug) = verification m"
  "delivery (failed_record t1 t2 m e code sug) = delivery m"
  "map he_phase (history (failed_record t1 t2 m e code sug)) = map he_phase (history m) @ [Error]"
  "error_info (failed_record t1 t2 m e code sug) = Some \<lparr>err_at_phase = phase m, err_occurred_at = t1,
       err_message = thrown_message e, err_name = thrown_name e, err_code = code, err_suggested_rollback = sug\<rparr>"
  by (simp_all add: failed_record_def)

lemma lift_fail_mission:
  assumes "validate_record m = None" "phase m \<notin> {Error, Closed}"
  shows "lift_sm w (fail_mission dir t1 t2 m e code sug fs) =
     (w\<lparr>rw_fs := store_save dir (failed_record t1 t2 m e code sug) fs\<rparr>, Inr (failed_record t1 t2 m e code sug))"
proof -
  have "Error \<in> set (allowed_forward (phase m))" using assms(2) by (cases "phase m") auto
  moreover have "validate_record (failed_record t1 t2 m e code sug) = None"
    unfolding failed_record_def by (rule transition_keeps_valid [OF assms(1)]) (use assms(2) in simp_all)
  ultimately show ?thesis
    unfolding failed_record_def fail_mission_def Let_def by (simp add: lift_transition_ok)
qed

lemma close_step_Inr:
  assumes "close_step env w m = (w', Inr m')" "phase m = Deliver"
  shows "moved env m Closed w' m' \<and> plan m' = plan m \<and> execution m' = execution m \<and>
     verification m' = verification m \<and> delivery m' = delivery m \<and> rw_disk w' = rw_disk w \<and>
     map_option met_duration_ms (metrics m') = Some (map_option (\<lambda>c. re_at env 9 - c) (created_at m))"
proof -
  let ?p = "no_patch\<lparr>pt_duration_ms := Present (map_option (\<lambda>c. re_at env 9 - c) (created_at m)),
                  pt_tokens_used := (case metrics m of None \<Rightarrow> Absent | Some k \<Rightarrow> Present (met_tokens_used k)),
                  pt_cost_usd := (case metrics m of None \<Rightarrow> Absent | Some k \<Rightarrow> Present (met_cost_usd k))\<rparr>"
  have "lift_sm w (transition (re_persist_dir env) (re_at env 10) m Closed ?p (Some ''mission closed'') (rw_fs w)) = (w', Inr m')"
    using assms by (simp add: close_step_def)
  from lift_transition_moved [OF this] show ?thesis by (simp add: refresh_metrics_def Let_def)
qed

lemma close_step_ok:
  assumes "phase m = Deliver" "validate_record m = None" "delivery m \<noteq> None"
  shows "\<exists>w' m'. close_step env w m = (w', Inr m')"
proof -
  have "plan m \<noteq> None" "execution m \<noteq> None" "verification m \<noteq> None"
    using assms(1, 2) by (auto simp: validate_record_None_iff)
  then show ?thesis
    using assms by (simp add: close_step_def) (intro transition_advances; simp)
qed

lemma close_step_other: "phase m \<noteq> Deliver \<Longrightarrow> close_step env w m = (w, Inr m)"
  by (simp add: close_step_def)

section \<open>Whole runs\<close>

lemma moved_sel:
  "moved env m next w' m' \<Longrightarrow> phase m' = next \<and> validate_record m' = None \<and> mission_id m' = mission_id m \<and>
     created_at m' = created_at m \<and> brief m' = brief m \<and> map he_phase (history m') = map he_phase (history m) @ [next]"
  by (simp add: moved_def)

lemma moved_stored: "moved env m next w' m' \<Longrightarrow> load_mission (re_persist_dir env) (rw_fs w') (mission_id m') = Inr (Some m')"
  by (simp add: moved_def)

text \<open>A mission after the gates: what the first three phases leave behind.\<close>

definition verified :: "runner_env \<Rightarrow> runner_world \<Rightarrow> mission_record \<Rightarrow> runner_world \<Rightarrow> mission_record \<Rightarrow> bool" where
  "verified env w m w3 m3 \<longleftrightarrow>
     (\<exists>x v rs. plan m3 = Some (create_plan_from_brief (re_at env 0) (re_uuid env) (the (brief m))) \<and>
        execute_plan (re_squad env) (re_schedule env) (the (plan m3)) = Inr x \<and> execution m3 = Some x \<and>
        verification m3 = Some v \<and> rw_disk w3 = rw_disk w \<and>
        (\<exists>m2. plan m2 = plan m3 \<and> execution m2 = Some x \<and>
           run_all True (re_gates env) (gate_context_of env m2) = Inr (rs, ver_overall v)) \<and>
        phase m3 = Verify \<and> validate_record m3 = None \<and> mission_id m3 = mission_id m \<and> created_at m3 = created_at m \<and>
        map he_phase (history m3) = map he_phase (history m) @ [Plan, Execute, Verify] \<and>
        load_mission (re_persist_dir env) (rw_fs w3) (mission_id m) = Inr (Some m3))"

lemma three_phases:
  assumes "and_then (and_then (plan_step env w m) (execute_step env)) (verify_step env) = (w3, Inr m3)" "phase m = Brief"
  shows "verified env w m w3 m3"
proof -
  obtain w1 m1 w2 m2 where s1: "plan_step env w m = (w1, Inr m1)" and s2: "execute_step env w1 m1 = (w2, Inr m2)"
    and s3: "verify_step env w2 m2 = (w3, Inr m3)"
    using assms(1) by (auto simp: and_then_Inr_iff)
  note f1 = plan_step_Inr [OF s1 assms(2)]
  have "phase m1 = Plan" using f1 moved_sel by blast
  from execute_step_Inr [OF s2 this] obtain x where f2:
    "execute_plan (re_squad env) (re_schedule env) (the (plan m1)) = Inr x" "moved env m1 Execute w2 m2"
    "rw_disk w2 = rw_disk w1" "plan m2 = plan m1" "execution m2 = Some x" by blast
  have "phase m2 = Execute" using f2 moved_sel by blast
  from verify_step_Inr [OF s3 this] obtain rs v where f3:
    "run_all True (re_gates env) (gate_context_of env m2) = Inr (rs, ver_overall v)" "moved env m2 Verify w3 m3"
    "rw_disk w3 = rw_disk w2" "plan m3 = plan m2" "execution m3 = execution m2" "verification m3 = Some v" by blast
  have m1: "moved env m Plan w1 m1" using f1 by simp
  note moved_sel [OF m1] moved_sel [OF f2(2)] moved_sel [OF f3(2)] moved_stored [OF f3(2)]
  then show ?thesis
    using f1 f2 f3 unfolding verified_def by (intro exI [of _ x] exI [of _ v] exI [of _ rs]) auto
qed

text \<open>The created mission, and the run as the composition of the first three phases and the rest.\<close>

definition created_record :: "runner_env \<Rightarrow> mission_brief \<Rightarrow> mission_record" where
  "created_record env b = \<lparr>mission_id = re_mission_id env, phase = Brief, created_at = Some (re_at env 13),
     updated_at = Some (re_at env 13), brief = Some b, plan = None, execution = None, verification = None,
     delivery = None, error_info = None,
     history = [\<lparr>he_phase = Brief, he_entered_at = re_at env 13, he_note = Some ''mission created''\<rparr>],
     metrics = Some \<lparr>met_created_at = Some (re_at env 13), met_updated_at = Some (re_at env 13),
                     met_duration_ms = None, met_tokens_used = None, met_cost_usd = None\<rparr>\<rparr>"

definition brief_ok :: "runner_env \<Rightarrow> mission_brief \<Rightarrow> bool" where
  "brief_ok env b \<longleftrightarrow> re_schema_errors env b = None \<and> \<not> blank (br_title b) \<and> \<not> blank (br_description b) \<and>
     br_requirements b \<noteq> None \<and> re_mission_id env \<noteq> []"

lemma created_valid: "re_mission_id env \<noteq> [] \<Longrightarrow> validate_record (created_record env b) = None"
  by (simp add: validate_record_def created_record_def)

lemma created_sel [simp]:
  "phase (created_record env b) = Brief" "mission_id (created_record env b) = re_mission_id env"
  "brief (created_record env b) = Some b" "plan (created_record env b) = None"
  "map he_phase (history (created_record env b)) = [Brief]" "created_at (created_record env b) = Some (re_at env 13)"
  by (simp_all add: created_record_def)

lemma run_from_brief_eq:
  assumes "brief_ok env b"
  shows "run_from_brief env w b = run_or_fail env
     (w\<lparr>rw_fs := store_save (re_persist_dir env) (created_record env b) (rw_fs w)\<rparr>) (created_record env b)"
  using assms by (auto simp: brief_ok_def run_from_brief_def create_mission_def lift_sm_def created_record_def Let_def)

lemma run_or_fail_Inr:
  assumes "run_or_fail env w m = (w', Inr m')" "phase m' \<noteq> Error"
  shows "run_from_phase env w m = (w', Inr m')"
proof (cases "run_from_phase env w m")
  case (Pair w1 r)
  show ?thesis
  proof (cases r)
    case (Inl e)
    then have "phase m' = Error"
      using assms(1) Pair by (auto simp: run_or_fail_def lift_sm_Inr_iff fail_mission_def Let_def transition_Inr_iff)
    then show ?thesis using assms(2) by simp
  qed (use assms(1) Pair in \<open>simp add: run_or_fail_def\<close>)
qed

lemma deliver_step_fail:
  assumes "phase m = Verify" "verification m = Some v" "ver_overall v \<noteq> OverallPass" "validate_record m = None"
  shows "deliver_step env w m =
     (let (msg, code, sug) = (if ver_overall v = OverallFail then (''Gate checks failed'', ''gates_failed'', Execute)
                              else (''Human approval required'', ''requires_approval'', Verify));
          r = failed_record (re_at env 5) (re_at env 6) m (ThrownError msg ''Error'') (Some code) (Some sug)
      in (w\<lparr>rw_fs := store_save (re_persist_dir env) r (rw_fs w)\<rparr>, Inr r))"
  using assms by (cases "ver_overall v") (simp_all add: deliver_step_def lift_fail_mission Let_def)

text \<open>How a mission was closed: the mission after the gates, and the collection of its artifacts.\<close>

definition closed_via ::
  "runner_env \<Rightarrow> runner_world \<Rightarrow> mission_record \<Rightarrow> runner_world \<Rightarrow> mission_record \<Rightarrow> runner_world \<Rightarrow> mission_record \<Rightarrow> collected \<Rightarrow> bool" where
  "closed_via env w m w' m' w3 m3 c \<longleftrightarrow>
     verified env w m w3 m3 \<and> map_option ver_overall (verification m3) = Some OverallPass \<and>
     collect_from_results (re_sha env) (re_render env) (re_at env 6) (re_base_dir env) (mission_id m)
       (task_results_of m3) (report_items env m3) (rw_disk w) = (rw_disk w', Inr c) \<and>
     plan m' = plan m3 \<and> execution m' = execution m3 \<and> verification m' = verification m3 \<and>
     delivery m' = Some (delivery_of env c) \<and>
     map he_phase (history m') = map he_phase (history m) @ [Plan, Execute, Verify, Deliver, Closed] \<and>
     map_option met_duration_ms (metrics m') = Some (map_option (\<lambda>c. re_at env 9 - c) (created_at m)) \<and>
     load_mission (re_persist_dir env) (rw_fs w') (mission_id m) = Inr (Some m') \<and> mission_id m' = mission_id m"

lemma run_from_phase_closed:
  assumes "run_from_phase env w m = (w', Inr m')" "phase m = Brief" "phase m' = Closed"
  shows "\<exists>w3 m3 c. closed_via env w m w' m' w3 m3 c"
proof -
  obtain w3 m3 w4 m4 where s: "and_then (and_then (plan_step env w m) (execute_step env)) (verify_step env) = (w3, Inr m3)"
    and s4: "deliver_step env w3 m3 = (w4, Inr m4)" and s5: "close_step env w4 m4 = (w', Inr m')"
    using assms(1) unfolding run_from_phase_def and_then_Inr_iff [of "and_then _ (deliver_step env)"]
      and_then_Inr_iff [of _ "deliver_step env"] by blast
  note v = three_phases [OF s assms(2)]
  then obtain x vf where m3: "phase m3 = Verify" "validate_record m3 = None" "verification m3 = Some vf" "execution m3 = Some x"
    "mission_id m3 = mission_id m" "created_at m3 = created_at m" "rw_disk w3 = rw_disk w"
    "map he_phase (history m3) = map he_phase (history m) @ [Plan, Execute, Verify]"
    by (auto simp: verified_def)
  have pass: "ver_overall vf = OverallPass"
  proof (rule ccontr)
    assume np: "ver_overall vf \<noteq> OverallPass"
    have "phase m4 = Error"
      using s4 deliver_step_fail [OF m3(1, 3) np m3(2), of env w3] by (auto simp: Let_def split: if_splits)
    then show False using s5 assms(3) by (simp add: close_step_other)
  qed
  from deliver_step_pass [OF s4 m3(1, 3) pass] obtain c where f4:
    "collect_from_results (re_sha env) (re_render env) (re_at env 6) (re_base_dir env) (mission_id m3)
       (task_results_of m3) (report_items env m3) (rw_disk w3) = (rw_disk w4, Inr c)" "moved env m3 Deliver w4 m4"
     "plan m4 = plan m3" "execution m4 = execution m3" "verification m4 = verification m3"
     "delivery m4 = Some (delivery_of env c)" by blast
  note a4 = moved_sel [OF f4(2)]
  have f5: "moved env m4 Closed w' m' \<and> plan m' = plan m4 \<and> execution m' = execution m4 \<and>
     verification m' = verification m4 \<and> delivery m' = delivery m4 \<and> rw_disk w' = rw_disk w4 \<and>
     map_option met_duration_ms (metrics m') = Some (map_option (\<lambda>c. re_at env 9 - c) (created_at m4))"
    by (rule close_step_Inr [OF s5]) (use a4 in simp)
  then have c5: "moved env m4 Closed w' m'" by simp
  note a5 = moved_sel [OF c5] moved_stored [OF c5]
  show ?thesis
    by (intro exI [of _ w3] exI [of _ m3] exI [of _ c]) (use v m3 pass f4 f5 a4 a5 in \<open>simp add: closed_via_def\<close>)
qed

lemma run_from_brief_Inr:
  assumes "run_from_brief env w b = (w', Inr m')"
  shows "\<exists>w1. run_or_fail env w1 (created_record env b) = (w', Inr m') \<and> rw_disk w1 = rw_disk w"
proof -
  obtain w1 m1 where "lift_sm w (create_mission (re_persist_dir env) (re_at env 13) (re_mission_id env) (Some b) None (rw_fs w)) = (w1, Inr m1)"
    and r: "run_or_fail env w1 m1 = (w', Inr m')"
    using assms by (auto simp: run_from_brief_def and_then_Inr_iff split: option.splits)
  then have "m1 = created_record env b \<and> rw_disk w1 = rw_disk w"
    by (auto simp: lift_sm_Inr_iff create_mission_def created_record_def Let_def split: if_splits)
  with r show ?thesis by auto
qed

lemma closed_run:
  assumes "run_from_brief env w b = (w', Inr m')" "phase m' = Closed"
  shows "\<exists>w1 w3 m3 c. closed_via env w1 (created_record env b) w' m' w3 m3 c \<and> rw_disk w1 = rw_disk w"
proof -
  obtain w1 where r: "run_or_fail env w1 (created_record env b) = (w', Inr m')" and d: "rw_disk w1 = rw_disk w"
    using run_from_brief_Inr [OF assms(1)] by blast
  have "phase m' \<noteq> Error" using assms(2) by simp
  from run_from_phase_closed [OF run_or_fail_Inr [OF r this] created_sel(1) assms(2)] d
  show ?thesis by blast
qed

lemma three_phases_ok:
  assumes "phase m = Brief" "validate_record m = None"
    and "execute_plan (re_squad env) (re_schedule env) (create_plan_from_brief (re_at env 0) (re_uuid env) (the (brief m))) = Inr x"
    and "\<And>m. \<exists>rs ov. run_all True (re_gates env) (gate_context_of env m) = Inr (rs, ov)"
  shows "\<exists>w3 m3. and_then (and_then (plan_step env w m) (execute_step env)) (verify_step env) = (w3, Inr m3)"
proof -
  obtain w1 m1 where s1: "plan_step env w m = (w1, Inr m1)" using plan_step_ok [OF assms(1, 2)] by blast
  note f1 = plan_step_Inr [OF s1 assms(1)]
  have p1: "moved env m Plan w1 m1" using f1 by simp
  note a1 = moved_sel [OF p1]
  have "plan m1 = Some (create_plan_from_brief (re_at env 0) (re_uuid env) (the (brief m)))" using f1 by simp
  then obtain w2 m2 where s2: "execute_step env w1 m1 = (w2, Inr m2)"
    using execute_step_ok [of m1 _ env x w1] a1 assms(3) by blast
  have "phase m1 = Plan" using a1 by simp
  from execute_step_Inr [OF s2 this] obtain y where f2: "moved env m1 Execute w2 m2" "execution m2 = Some y" by blast
  obtain rs ov where g: "run_all True (re_gates env) (gate_context_of env m2) = Inr (rs, ov)" using assms(4) by blast
  obtain w3 m3 where s3: "verify_step env w2 m2 = (w3, Inr m3)"
    using verify_step_ok [OF _ _ _ g] moved_sel [OF f2(1)] f2(2) by blast
  show ?thesis using s1 s2 s3 by simp
qed

text \<open>The verdict of the gates decides where a run that nothing interrupts ends.\<close>

definition ends_with_verdict :: "runner_env \<Rightarrow> runner_world \<Rightarrow> mission_record \<Rightarrow> bool" where
  "ends_with_verdict env w' m' \<longleftrightarrow>
     load_mission (re_persist_dir env) (rw_fs w') (mission_id m') = Inr (Some m') \<and>
     (case map_option ver_overall (verification m') of
        Some OverallPass \<Rightarrow> phase m' = Closed
      | Some OverallFail \<Rightarrow> phase m' = Error \<and> map_option (\<lambda>e. (err_at_phase e, err_code e, err_suggested_rollback e))
            (error_info m') = Some (Verify, Some ''gates_failed'', Some Execute)
      | Some OverallRequireApproval \<Rightarrow> phase m' = Error \<and> map_option (\<lambda>e. (err_at_phase e, err_code e, err_suggested_rollback e))
            (error_info m') = Some (Verify, Some ''requires_approval'', Some Verify)
      | None \<Rightarrow> False)"

lemma deliver_fail_verdict:
  assumes "phase m = Verify" "verification m = Some v" "ver_overall v \<noteq> OverallPass" "validate_record m = None"
  shows "\<exists>w' m'. deliver_step env w m = (w', Inr m') \<and> phase m' = Error \<and> verification m' = verification m \<and>
     mission_id m' = mission_id m \<and> ends_with_verdict env w' m'"
  unfolding deliver_step_fail [OF assms]
  using assms(2, 3)
  by (cases "ver_overall v") (simp_all add: Let_def ends_with_verdict_def load_store_save assms(1))

lemma run_verdict:
  assumes "phase m = Brief" "validate_record m = None"
    and "execute_plan (re_squad env) (re_schedule env) (create_plan_from_brief (re_at env 0) (re_uuid env) (the (brief m))) = Inr x"
    and "\<And>m. \<exists>rs ov. run_all True (re_gates env) (gate_context_of env m) = Inr (rs, ov)"
    and names: "\<forall>it \<in> set (result_items (ex_results x)). \<not> isl (item_name it)"
  shows "\<exists>w' m'. run_from_phase env w m = (w', Inr m') \<and> execution m' = Some x \<and> ends_with_verdict env w' m'"
proof -
  obtain w3 m3 where s: "and_then (and_then (plan_step env w m) (execute_step env)) (verify_step env) = (w3, Inr m3)"
    using three_phases_ok [OF assms(1-4)] by blast
  from three_phases [OF s assms(1)] obtain v where m3: "phase m3 = Verify" "validate_record m3 = None"
    "verification m3 = Some v" "execution m3 = Some x"
    using assms(3) by (auto simp: verified_def)
  have eq: "run_from_phase env w m = and_then (deliver_step env w3 m3) (close_step env)"
    by (simp add: run_from_phase_def s)
  show ?thesis
  proof (cases "ver_overall v = OverallPass")
    case False
    have "\<exists>w' m'. deliver_step env w3 m3 = (w', Inr m') \<and> phase m' = Error \<and> execution m' = Some x \<and> ends_with_verdict env w' m'"
      using deliver_fail_verdict [OF m3(1, 3) False m3(2), of env w3] deliver_step_fail [OF m3(1, 3) False m3(2), of env w3] m3(4)
      by (auto simp: Let_def split: if_splits)
    then show ?thesis unfolding eq by (auto simp: close_step_other)
  next
    case True
    have reports: "\<not> isl (item_name (n, c, None, None))" if "(n, c) \<in> set (report_items env m3)" for n c
    proof -
      have "\<not> isl (sanitize_artifact_filename ''status-report.md'')" "\<not> isl (sanitize_artifact_filename ''completion-summary.md'')"
        "\<not> isl (sanitize_artifact_filename ''failure-analysis.md'')" by code_simp+
      then show ?thesis using that by (auto simp: report_items_def item_name_def)
    qed
    have "\<forall>it \<in> set (collect_items (task_results_of m3) (report_items env m3)). \<not> isl (item_name it)"
      using names m3(4) reports by (auto simp: collect_items_def task_results_of_def)
    from deliver_step_ok [OF m3(1, 2, 3) True this] obtain w4 m4 where s4: "deliver_step env w3 m3 = (w4, Inr m4)" by blast
    from deliver_step_pass [OF s4 m3(1, 3) True] obtain c where f4: "moved env m3 Deliver w4 m4"
      "execution m4 = execution m3" "verification m4 = verification m3" "delivery m4 = Some (delivery_of env c)" by blast
    note a4 = moved_sel [OF f4(1)]
    have "phase m4 = Deliver" "validate_record m4 = None" "delivery m4 \<noteq> None" using a4 f4 by auto
    from close_step_ok [OF this] obtain w5 m5 where s5: "close_step env w4 m4 = (w5, Inr m5)" by blast
    have f5: "moved env m4 Closed w5 m5 \<and> execution m5 = execution m4 \<and> verification m5 = verification m4"
      using close_step_Inr [OF s5] a4 by simp
    then have "moved env m4 Closed w5 m5" by simp
    note a5 = moved_sel [OF this] moved_stored [OF this]
    have "ends_with_verdict env w5 m5" unfolding ends_with_verdict_def
      using a5 f5 f4 m3 True by simp
    then show ?thesis unfolding eq using s4 s5 f5 f4 m3 by simp
  qed
qed

section \<open>Properties\<close>

text \<open>
  C1: A mission that a run closes has gone through every phase in order and is what the store
  returns for it: it holds the plan made from its brief, the execution of that plan by the squad,
  the gates' verdict on that execution, which is a pass, and the delivery of its artifacts; its
  duration is the time from its creation to its closing.
\<close>

theorem closed_missions_went_all_the_way:
  assumes "run_from_brief env w b = (w', Inr m')" "phase m' = Closed"
  shows "\<exists>x v c m2. plan m' = Some (create_plan_from_brief (re_at env 0) (re_uuid env) b) \<and>
     execute_plan (re_squad env) (re_schedule env) (the (plan m')) = Inr x \<and> execution m' = Some x \<and>
     plan m2 = plan m' \<and> execution m2 = Some x \<and>
     map_sum id snd (run_all True (re_gates env) (gate_context_of env m2)) = Inr OverallPass \<and>
     verification m' = Some v \<and> ver_overall v = OverallPass \<and> delivery m' = Some (delivery_of env c) \<and>
     map he_phase (history m') = [Brief, Plan, Execute, Verify, Deliver, Closed] \<and>
     map_option met_duration_ms (metrics m') = Some (Some (re_at env 9 - re_at env 13)) \<and>
     load_mission (re_persist_dir env) (rw_fs w') (re_mission_id env) = Inr (Some m')"
proof -
  from closed_run [OF assms] obtain w1 w3 m3 c where cv: "closed_via env w1 (created_record env b) w' m' w3 m3 c" by blast
  then have f: "verified env w1 (created_record env b) w3 m3"
     "map_option ver_overall (verification m3) = Some OverallPass"
     "plan m' = plan m3 \<and> execution m' = execution m3 \<and> verification m' = verification m3 \<and> delivery m' = Some (delivery_of env c)"
     "map he_phase (history m') = [Brief, Plan, Execute, Verify, Deliver, Closed]"
     "map_option met_duration_ms (metrics m') = Some (Some (re_at env 9 - re_at env 13))"
     "load_mission (re_persist_dir env) (rw_fs w') (re_mission_id env) = Inr (Some m')"
    by (simp_all add: closed_via_def)
  from f(1, 2) obtain x v rs m2 where g:
    "plan m3 = Some (create_plan_from_brief (re_at env 0) (re_uuid env) b)"
    "execute_plan (re_squad env) (re_schedule env) (the (plan m3)) = Inr x" "execution m3 = Some x"
    "verification m3 = Some v" "ver_overall v = OverallPass" "plan m2 = plan m3" "execution m2 = Some x"
    "run_all True (re_gates env) (gate_context_of env m2) = Inr (rs, OverallPass)"
    unfolding verified_def by auto
  show ?thesis
    by (intro exI [of _ x] exI [of _ v] exI [of _ c] exI [of _ m2]) (use f(3-6) g in simp)
qed

text \<open>An environment for the witnesses: one agent that writes one artifact of a given name.\<close>

definition sample_env :: "string \<Rightarrow> (thrown + bool) option \<Rightarrow> runner_env" where
  "sample_env art approve = \<lparr>re_schema_errors = (\<lambda>b. None),
     re_squad = \<lparr>agents = [(Synth, \<lambda>t. Output None (Some [\<lparr>art_name = art, art_content = ''x'', art_media_type = None\<rparr>]))],
                 continue_on_failure = True, parallelize = False, clock = int\<rparr>,
     re_schedule = all_at_once, re_gates = default_gates, re_approve = approve,
     re_persist_dir = ''p'', re_base_dir = ''a'', re_mission_id = ''m'', re_uuid = sample_uuid,
     re_at = int, re_iso = (\<lambda>n. ''t''), re_sha = id, re_render = mf_version\<rparr>"

definition empty_world :: runner_world where
  "empty_world = \<lparr>rw_fs = [], rw_disk = empty_disk\<rparr>"

definition sample_run :: "string \<Rightarrow> (thrown + bool) option \<Rightarrow> runner_result" where
  "sample_run art approve = run_from_brief (sample_env art approve) empty_world sample_brief"

lemma sample_run_closed:
  "sample_run ''out.md'' None = (fst (sample_run ''out.md'' None), Inr (projr (snd (sample_run ''out.md'' None))))"
  "phase (projr (snd (sample_run ''out.md'' None))) = Closed"
proof -
  have "isl (snd (sample_run ''out.md'' None)) = False" by code_simp
  then show "sample_run ''out.md'' None = (fst (sample_run ''out.md'' None), Inr (projr (snd (sample_run ''out.md'' None))))"
    by (cases "sample_run ''out.md'' None", cases "snd (sample_run ''out.md'' None)") auto
  show "phase (projr (snd (sample_run ''out.md'' None))) = Closed" by code_simp
qed

theorem closed_missions_went_all_the_way_witness:
  "map he_phase (history (projr (snd (sample_run ''out.md'' None)))) = [Brief, Plan, Execute, Verify, Deliver, Closed]"
  using closed_missions_went_all_the_way [OF sample_run_closed(1) [unfolded sample_run_def] sample_run_closed(2) [unfolded sample_run_def]]
  unfolding sample_run_def by blast

text \<open>
  With the default gates, a mission is closed only when its plan has tasks, no task of its
  execution failed, none of its artifacts carries a secret marker, and the approval callback is
  absent or said yes.
\<close>

theorem default_gates_guard_the_close:
  assumes "run_from_brief env w b = (w', Inr m')" "phase m' = Closed" "re_gates env = default_gates"
  shows "map_option plan_tasks (plan m') \<notin> {None, Some []} \<and> failed_tasks m' = [] \<and>
     (\<forall>r \<in> set (task_results_of m'). \<forall>a \<in> set (nullish (res_artifacts r) []). first_marker (art_content a) = None) \<and>
     re_approve env \<in> {None, Some (Inr True)}"
proof -
  from closed_run [OF assms(1, 2)] obtain w1 w3 m3 c where cv: "closed_via env w1 (created_record env b) w' m' w3 m3 c" by blast
  then have f: "verified env w1 (created_record env b) w3 m3"
     "map_option ver_overall (verification m3) = Some OverallPass"
     "plan m' = plan m3 \<and> execution m' = execution m3 \<and> verification m' = verification m3 \<and> delivery m' = Some (delivery_of env c)"
    by (simp_all add: closed_via_def)
  from f(1, 2) obtain x rs m2 where m2: "plan m2 = plan m3" "execution m2 = Some x" "execution m3 = Some x"
    "run_all True (re_gates env) (gate_context_of env m2) = Inr (rs, OverallPass)"
    by (auto simp: verified_def)
  have "map_sum id snd (run_all True default_gates (gate_context_of env m2)) = Inr OverallPass"
    using m2(4) assms(3) by simp
  then have g: "map_option plan_tasks (plan m2) \<notin> {None, Some []}" "failed_tasks m2 = []"
     "secret_findings (gate_context_of env m2) = []" "re_approve env \<in> {None, Some (Inr True)}"
    unfolding default_gates_decided by (auto simp: gate_context_of_def split: if_splits option.splits sum.splits)
  have "first_marker (art_content a) = None"
    if "r \<in> set (task_results_of m')" "a \<in> set (nullish (res_artifacts r) [])" for r a
  proof -
    have "r \<in> set (ex_results x)" using that(1) f(3) m2(3) by (simp add: task_results_of_def)
    then have "result_findings r = []" using g(3) m2(2) by (simp add: secret_findings_def gate_context_of_def)
    then have "finding_of (''task:'' @ res_task_id r @ ''/'' @ art_name a) (art_content a) = []"
      using that(2) by (simp add: result_findings_def)
    then show ?thesis by (simp add: finding_of_def split: option.splits)
  qed
  then show ?thesis using g f(3) m2 by (simp add: failed_tasks_def)
qed

theorem default_gates_guard_the_close_witness:
  "failed_tasks (projr (snd (sample_run ''out.md'' None))) = []"
  using default_gates_guard_the_close [OF sample_run_closed(1) [unfolded sample_run_def] sample_run_closed(2) [unfolded sample_run_def]]
  unfolding sample_run_def by (simp add: sample_env_def)

text \<open>
  A run from an acceptable brief always ends in a stored verdict when failures of tasks are
  tolerated, no gate throws and the artifacts of the execution have legal names: closed when the
  gates pass, and otherwise failed in the verify phase with the code and the suggested rollback
  that belong to the verdict.
\<close>

theorem acceptable_briefs_reach_a_verdict:
  assumes "brief_ok env b" "continue_on_failure (re_squad env)"
    and "\<forall>m. \<not> isl (run_all True (re_gates env) (gate_context_of env m))"
    and "\<forall>x. execute_plan (re_squad env) (re_schedule env) (create_plan_from_brief (re_at env 0) (re_uuid env) b) = Inr x \<longrightarrow>
           (\<forall>it \<in> set (result_items (ex_results x)). \<not> isl (item_name it))"
  shows "\<exists>w' m'. run_from_brief env w b = (w', Inr m') \<and>
     load_mission (re_persist_dir env) (rw_fs w') (mission_id m') = Inr (Some m') \<and>
     (case map_option ver_overall (verification m') of
        Some OverallPass \<Rightarrow> phase m' = Closed
      | Some OverallFail \<Rightarrow> phase m' = Error \<and> map_option (\<lambda>e. (err_at_phase e, err_code e, err_suggested_rollback e))
            (error_info m') = Some (Verify, Some ''gates_failed'', Some Execute)
      | Some OverallRequireApproval \<Rightarrow> phase m' = Error \<and> map_option (\<lambda>e. (err_at_phase e, err_code e, err_suggested_rollback e))
            (error_info m') = Some (Verify, Some ''requires_approval'', Some Verify)
      | None \<Rightarrow> False)"
proof -
  let ?m = "created_record env b"
  let ?w = "w\<lparr>rw_fs := store_save (re_persist_dir env) ?m (rw_fs w)\<rparr>"
  obtain x where x: "execute_plan (re_squad env) (re_schedule env) (create_plan_from_brief (re_at env 0) (re_uuid env) b) = Inr x"
    using execute_plan_keeps_going [OF assms(2)] by blast
  have gates: "\<exists>rs ov. run_all True (re_gates env) (gate_context_of env m) = Inr (rs, ov)" for m
    using assms(3) [rule_format, of m] by (cases "run_all True (re_gates env) (gate_context_of env m)") auto
  have valid: "validate_record ?m = None" using assms(1) by (intro created_valid) (simp add: brief_ok_def)
  have "\<exists>w' m'. run_from_phase env ?w ?m = (w', Inr m') \<and> execution m' = Some x \<and> ends_with_verdict env w' m'"
    by (rule run_verdict [OF created_sel(1) valid _ gates]) (use x assms(4) in simp_all)
  then obtain w' m' where "run_from_phase env ?w ?m = (w', Inr m')" "ends_with_verdict env w' m'" by blast
  moreover from this have "run_from_brief env w b = (w', Inr m')"
    by (simp add: run_from_brief_eq [OF assms(1)] run_or_fail_def)
  ultimately show ?thesis unfolding ends_with_verdict_def by blast
qed

lemma sample_env_runs:
  assumes "approve = None \<or> (\<exists>ok. approve = Some (Inr ok))"
  shows "\<forall>m. \<not> isl (run_all True (re_gates (sample_env art approve)) (gate_context_of (sample_env art approve) m))"
proof
  fix m
  let ?ctx = "gate_context_of (sample_env art approve) m"
  have "\<not> isl (map_sum id snd (run_all True default_gates ?ctx))"
    using assms unfolding default_gates_decided by (auto simp: gate_context_of_def sample_env_def)
  then show "\<not> isl (run_all True (re_gates (sample_env art approve)) ?ctx)"
    by (cases "run_all True default_gates ?ctx") (simp_all add: sample_env_def)
qed

theorem acceptable_briefs_reach_a_verdict_witness:
  "\<exists>w' m'. sample_run ''out.md'' (Some (Inr False)) = (w', Inr m') \<and>
     load_mission ''p'' (rw_fs w') (mission_id m') = Inr (Some m')"
proof -
  let ?env = "sample_env ''out.md'' (Some (Inr False))"
  let ?p = "create_plan_from_brief (re_at ?env 0) (re_uuid ?env) sample_brief"
  have "brief_ok ?env sample_brief" "continue_on_failure (re_squad ?env)" by code_simp+
  moreover have "\<forall>it \<in> set (result_items (ex_results (projr (execute_plan (re_squad ?env) (re_schedule ?env) ?p)))). \<not> isl (item_name it)"
    by code_simp
  ultimately have "\<exists>w' m'. run_from_brief ?env empty_world sample_brief = (w', Inr m') \<and>
     load_mission (re_persist_dir ?env) (rw_fs w') (mission_id m') = Inr (Some m')"
    using acceptable_briefs_reach_a_verdict [of ?env sample_brief empty_world, OF _ _ sample_env_runs] by auto
  then show ?thesis by (simp add: sample_run_def) (simp add: sample_env_def)
qed

text \<open>
  When something throws in the middle of a run, the mission that is saved and returned is the
  one of the brief phase: whatever plan, execution and verification the run had already stored is
  overwritten by a record that has none of them, says that the error happened in the brief phase,
  and can be rolled back to the brief only.
\<close>

theorem thrown_runs_lose_their_progress:
  assumes "brief_ok env b"
    and "run_from_phase env (w\<lparr>rw_fs := store_save (re_persist_dir env) (created_record env b) (rw_fs w)\<rparr>)
           (created_record env b) = (w2, Inl e)"
  shows "\<exists>w' m'. run_from_brief env w b = (w', Inr m') \<and> phase m' = Error \<and>
     load_mission (re_persist_dir env) (rw_fs w') (re_mission_id env) = Inr (Some m') \<and>
     map_option err_at_phase (error_info m') = Some Brief \<and>
     plan m' = None \<and> execution m' = None \<and> verification m' = None \<and>
     map he_phase (history m') = [Brief, Error] \<and>
     (\<forall>target fs ts note. target \<noteq> Brief \<longrightarrow> isl (snd (rollback (re_persist_dir env) ts m' target note fs)))"
proof -
  let ?m = "created_record env b"
  have valid: "validate_record ?m = None" using assms(1) by (intro created_valid) (simp add: brief_ok_def)
  let ?r = "failed_record (re_at env 11) (re_at env 12) ?m e None None"
  let ?w = "w2\<lparr>rw_fs := store_save (re_persist_dir env) ?r (rw_fs w2)\<rparr>"
  have run: "run_from_brief env w b = (?w, Inr ?r)"
    by (simp add: run_from_brief_eq [OF assms(1)] run_or_fail_def assms(2) lift_fail_mission [OF valid])
  have hist: "map he_phase (history ?r) = [Brief, Error]" by simp
  then have phases: "he_phase ` set (history ?r) = {Brief, Error}"
    by (metis list.set(1) list.set(2) set_map)
  have "isl (snd (rollback (re_persist_dir env) ts ?r target nt fs))" if "target \<noteq> Brief" for target ts nt fs
  proof (cases "target = Error")
    case True
    have "validate_record (rollback_record ts ?r Error nt) \<noteq> None"
      by (simp add: validate_record_None_iff del: not_None_eq)
    then show ?thesis using True by (auto simp: rollback_def commit_cases phases)
  qed (use that in \<open>simp add: rollback_def phases\<close>)
  then show ?thesis
    using run hist by (intro exI [of _ ?w] exI [of _ ?r]) (simp add: load_store_save created_record_def)
qed

text \<open>An artifact named with a path: the collector throws after the gates have passed.\<close>

definition bad_env :: runner_env where
  "bad_env = sample_env ''out/report.md'' None"

definition bad_start :: runner_world where
  "bad_start = empty_world\<lparr>rw_fs := store_save ''p'' (created_record bad_env sample_brief) []\<rparr>"

theorem thrown_runs_lose_their_progress_witness:
  "\<exists>w2 e w' m m'. run_from_phase bad_env bad_start (created_record bad_env sample_brief) = (w2, Inl e) \<and>
     load_mission ''p'' (rw_fs w2) ''m'' = Inr (Some m) \<and> phase m = Verify \<and> execution m \<noteq> None \<and>
     run_from_brief bad_env empty_world sample_brief = (w', Inr m') \<and>
     load_mission ''p'' (rw_fs w') ''m'' = Inr (Some m') \<and> execution m' = None"
proof -
  let ?r = "run_from_phase bad_env bad_start (created_record bad_env sample_brief)"
  have "isl (snd ?r)" by code_simp
  then obtain w2 e where r: "?r = (w2, Inl e)" by (cases ?r, cases "snd ?r") auto
  have m: "(case load_mission ''p'' (rw_fs (fst ?r)) ''m'' of Inr (Some m) \<Rightarrow> phase m = Verify \<and> execution m \<noteq> None | _ \<Rightarrow> False)"
    by code_simp
  then obtain m where "load_mission ''p'' (rw_fs w2) ''m'' = Inr (Some m)" "phase m = Verify" "execution m \<noteq> None"
    unfolding r by (auto split: sum.splits option.splits)
  moreover have "brief_ok bad_env sample_brief" by code_simp
  moreover have "re_persist_dir bad_env = ''p''" "re_mission_id bad_env = ''m''"
    "empty_world\<lparr>rw_fs := store_save ''p'' (created_record bad_env sample_brief) (rw_fs empty_world)\<rparr> = bad_start"
    by (simp_all add: bad_env_def sample_env_def bad_start_def empty_world_def)
  ultimately show ?thesis
    using thrown_runs_lose_their_progress [of bad_env sample_brief empty_world w2 e] r by metis
qed

text \<open>
  A mission held for approval stays held: after the rollback to the verify phase that its error
  record suggests, resuming it fails again with the same code, whatever the approval callback says
  by then, because the stored verdict is kept and the gates are not asked again.
\<close>

theorem approval_hold_is_never_lifted:
  assumes "load_mission (re_persist_dir env) (rw_fs w) i = Inr (Some m)" "phase m = Verify" "validate_record m = None"
    and "map_option ver_overall (verification m) = Some OverallRequireApproval"
  shows "\<exists>w' m'. resume env w i = (w', Inr m') \<and> phase m' = Error \<and> verification m' = verification m \<and>
     map_option (\<lambda>e. (err_code e, err_suggested_rollback e)) (error_info m') = Some (Some ''requires_approval'', Some Verify)"
proof -
  obtain v where v: "verification m = Some v" "ver_overall v = OverallRequireApproval" using assms(4) by auto
  have d: "deliver_step env w m = (let r = failed_record (re_at env 5) (re_at env 6) m
       (ThrownError ''Human approval required'' ''Error'') (Some ''requires_approval'') (Some Verify)
     in (w\<lparr>rw_fs := store_save (re_persist_dir env) r (rw_fs w)\<rparr>, Inr r))"
    using deliver_step_fail [OF assms(2) v(1) _ assms(3)] v(2) by (simp add: Let_def)
  have "run_from_phase env w m = and_then (deliver_step env w m) (close_step env)"
    using assms(2) by (simp add: run_from_phase_def plan_step_def execute_step_def verify_step_def)
  then show ?thesis
    using assms(1, 2) by (simp add: resume_def run_or_fail_def d Let_def close_step_other)
qed

definition held_mission :: mission_record where
  "held_mission = projr (snd (rollback_mission (sample_env ''out.md'' None)
     (fst (sample_run ''out.md'' (Some (Inr False)))) ''m'' Verify))"

definition held_world :: runner_world where
  "held_world = fst (rollback_mission (sample_env ''out.md'' None)
     (fst (sample_run ''out.md'' (Some (Inr False)))) ''m'' Verify)"

theorem approval_hold_is_never_lifted_witness:
  "\<exists>w' m'. resume (sample_env ''out.md'' (Some (Inr True))) held_world ''m'' = (w', Inr m') \<and> phase m' = Error"
proof -
  have "load_mission ''p'' (rw_fs held_world) ''m'' = Inr (Some held_mission)" by code_simp
  moreover have "phase held_mission = Verify" "validate_record held_mission = None"
    "map_option ver_overall (verification held_mission) = Some OverallRequireApproval" by code_simp+
  moreover have "re_persist_dir (sample_env ''out.md'' (Some (Inr True))) = ''p''" by (simp add: sample_env_def)
  ultimately show ?thesis
    using approval_hold_is_never_lifted [of "sample_env ''out.md'' (Some (Inr True))" held_world "''m''" held_mission] by auto
qed

text \<open>
  The completion summary that is delivered with a closed mission says that the mission is not
  closed: it is written while the mission is still in the verify phase, and no later step
  replaces it.
\<close>

theorem delivered_summary_says_not_closed:
  assumes "run_from_brief env w b = (w', Inr m')" "phase m' = Closed"
  shows "\<exists>d m3. delivery m' = Some d \<and>
     js_get (disk_files (rw_disk w')) (del_completion_summary d) = Some (join_with newline (completion_lines m3)) \<and>
     mission_id m3 = mission_id m' \<and> ''- Closed: no'' \<in> set (completion_lines m3) \<and>
     ''- Closed: yes'' \<noteq> closed_line m3"
proof -
  from closed_run [OF assms] obtain w1 w3 m3 c where cv: "closed_via env w1 (created_record env b) w' m' w3 m3 c" by blast
  then have col: "collect_from_results (re_sha env) (re_render env) (re_at env 6) (re_base_dir env) (re_mission_id env)
       (task_results_of m3) (report_items env m3) (rw_disk w1) = (rw_disk w', Inr c)"
    and d: "delivery m' = Some (delivery_of env c)" and ids: "mission_id m' = re_mission_id env"
    and v: "verified env w1 (created_record env b) w3 m3"
    by (simp_all add: closed_via_def)
  from v have m3: "phase m3 = Verify" "mission_id m3 = re_mission_id env" by (auto simp: verified_def)
  let ?dir = "version_dir (re_base_dir env) (re_mission_id env) (rw_disk w1)"
  let ?r = "result_items (task_results_of m3)"
  have items: "collect_items (task_results_of m3) (report_items env m3) =
      ?r @ [(''status-report.md'', status_report env m3, None, None), (''completion-summary.md'', completion_summary m3, None, None),
            (''failure-analysis.md'', failure_analysis m3, None, None)]"
    by (simp add: collect_items_def report_items_def)
  have names: "item_name (''status-report.md'', status_report env m3, None, None) = Inr ''status-report.md''"
    "item_name (''completion-summary.md'', completion_summary m3, None, None) = Inr ''completion-summary.md''"
    "item_name (''failure-analysis.md'', failure_analysis m3, None, None) = Inr ''failure-analysis.md''"
    unfolding item_name_def fst_conv by code_simp+
  from collect_Inr [OF col] obtain ss where ss: "map item_name (collect_items (task_results_of m3) (report_items env m3)) = map Inr ss"
    and dir: "co_artifacts_dir c = ?dir" and mp: "co_manifest_path c = ?dir @ ''/manifest.json''"
    and files: "disk_files (rw_disk w') = js_set (co_manifest_path c)
        (re_render env \<lparr>mf_mission_id = re_mission_id env, mf_version = version_of (re_base_dir env) (re_mission_id env) (rw_disk w1),
                  mf_created_at = re_at env 6, mf_artifacts = co_artifacts c\<rparr>)
        (jsd.put_all (map2 (\<lambda>s it. (?dir @ ''/'' @ s, fst (snd it))) ss (collect_items (task_results_of m3) (report_items env m3)))
           (disk_files (rw_disk w1)))"
    by blast
  from ss obtain s0 where s0: "ss = s0 @ [''status-report.md'', ''completion-summary.md'', ''failure-analysis.md'']" "length s0 = length ?r"
    unfolding items map_append list.map names by (auto simp: append_eq_map_conv Cons_eq_map_conv dest!: map_eq_imp_length_eq)
  have "js_get (disk_files (rw_disk w')) (?dir @ ''/completion-summary.md'') = Some (completion_summary m3)"
    unfolding files mp items s0(1) using s0(2) by (simp add: jsd.get_put_all)
  then show ?thesis
    using d dir ids m3
    by (intro exI [of _ "delivery_of env c"] exI [of _ m3])
      (simp add: delivery_of_def completion_summary_def completion_lines_def closed_line_def)
qed

theorem delivered_summary_says_not_closed_witness:
  "\<exists>d m3. delivery (projr (snd (sample_run ''out.md'' None))) = Some d \<and>
     js_get (disk_files (rw_disk (fst (sample_run ''out.md'' None)))) (del_completion_summary d) =
       Some (join_with newline (completion_lines m3)) \<and> ''- Closed: no'' \<in> set (completion_lines m3)"
  using delivered_summary_says_not_closed [OF sample_run_closed(1) [unfolded sample_run_def] sample_run_closed(2) [unfolded sample_run_def]]
  unfolding sample_run_def by blast

end
