(* ===== verification/Task_Queue.thy ===== *)
theory Task_Queue
  imports Prelude
begin

text \<open>
  \<open>lib/task-queue.ts\<close> and \<open>lib/queue-migration.ts\<close>: the task queue with its mission metadata, the
  normalization of loaded documents, and the migration between the schema versions. Time stamps
  are milliseconds; one that does not parse is \<open>None\<close>. Logging is left out.
\<close>

section \<open>Tasks\<close>

datatype task_tier = P0 | P1 | P2 | P3
datatype queue_status = Queued | Running | Succeeded | Failed | Cancelled | ExpiredTask
datatype mission_type = BuildMission | OpsMission | InfraMission | ContentMission | ResearchMission

record mission_context =
  mc_business_unit :: "string option"
  mc_mission_type :: "mission_type option"
  mc_role :: "string option"
  mc_tags :: "(string \<times> string) list option"

text \<open>
  The fields whose presence the code does not change, and the two extensions: the task of the queue
  and the task of a document, in which the defaulted fields may be missing.
\<close>

record task_core =
  qt_id :: string
  qt_created_at :: "int option"
  qt_title :: string
  qt_description :: "string option"
  qt_business_unit :: "string option"
  qt_mission_type :: "mission_type option"
  qt_role :: "string option"
  qt_mission_context :: "mission_context option"
  qt_job_id :: "string option"
  qt_next_run_at :: "int option"
  qt_timeout_seconds :: "int option"
  qt_dedupe_key :: "string option"
  qt_expected_artifacts :: "string list option"
  qt_requires_approval :: "bool option"
  qt_links :: "string list option"
  qt_notes :: "string option"
  qt_command :: "string list option"
  qt_started_at :: "int option"
  qt_completed_at :: "int option"
  qt_updated_at :: "int option"
  qt_error :: "string option"

record queue_task = task_core +
  qt_tier :: task_tier
  qt_status :: queue_status
  qt_attempts :: int
  qt_max_attempts :: int

record raw_task = task_core +
  raw_tier :: "task_tier option"
  raw_status :: "queue_status option"
  raw_attempts :: "int option"
  raw_max_attempts :: "int option"

record queue_document =
  qd_version :: int
  qd_generated_at :: int
  qd_items :: "raw_task list option"

record enqueue_options =
  eo_title :: string
  eo_tier :: "task_tier option"
  eo_description :: "string option"
  eo_business_unit :: "string option"
  eo_mission_type :: "mission_type option"
  eo_role :: "string option"
  eo_mission_context :: "mission_context option"
  eo_job_id :: "string option"
  eo_next_run_at :: "int option"
  eo_max_attempts :: "int option"
  eo_timeout_seconds :: "int option"
  eo_dedupe_key :: "string option"
  eo_expected_artifacts :: "string list option"
  eo_requires_approval :: "bool option"
  eo_links :: "string list option"
  eo_notes :: "string option"
  eo_command :: "string list option"

section \<open>Documents\<close>

definition with_context :: "raw_task \<Rightarrow> mission_context option \<Rightarrow> raw_task" where
  "with_context t c = t\<lparr>qt_mission_context := c\<rparr>"

definition has_mission_fields :: "string option \<Rightarrow> mission_type option \<Rightarrow> string option \<Rightarrow> bool" where
  "has_mission_fields bu mt role \<longleftrightarrow> truthy_str bu \<or> mt \<noteq> None \<or> truthy_str role"

definition normalize_task :: "raw_task \<Rightarrow> int \<Rightarrow> queue_task" where
  "normalize_task raw version =
     (let t = (if version < 2 \<and> qt_mission_context raw = None \<and>
                  has_mission_fields (qt_business_unit raw) (qt_mission_type raw) (qt_role raw)
               then with_context raw (Some \<lparr>mc_business_unit = qt_business_unit raw,
                      mc_mission_type = qt_mission_type raw, mc_role = qt_role raw, mc_tags = None\<rparr>)
               else raw)
      in task_core.extend (task_core.truncate t)
           \<lparr>qt_tier = nullish (raw_tier raw) P2, qt_status = nullish (raw_status raw) Queued,
            qt_attempts = nullish (raw_attempts raw) 0, qt_max_attempts = nullish (raw_max_attempts raw) 3\<rparr>)"

definition load_queue :: "queue_document \<Rightarrow> queue_task list" where
  "load_queue d = map (\<lambda>t. normalize_task t (qd_version d)) (nullish (qd_items d) [])"

definition raw_of :: "queue_task \<Rightarrow> raw_task" where
  "raw_of t = task_core.extend (task_core.truncate t)
     \<lparr>raw_tier = Some (qt_tier t), raw_status = Some (qt_status t),
      raw_attempts = Some (qt_attempts t), raw_max_attempts = Some (qt_max_attempts t)\<rparr>"

definition to_document :: "int \<Rightarrow> queue_task list \<Rightarrow> queue_document" where
  "to_document ts items = \<lparr>qd_version = 2, qd_generated_at = ts, qd_items = Some (map raw_of items)\<rparr>"

section \<open>Enqueueing\<close>

record mission_metadata =
  mm_business_unit :: "string option"
  mm_mission_type :: "mission_type option"
  mm_role :: "string option"
  mm_context :: "mission_context option"

definition if_truthy :: "string option \<Rightarrow> string option" where
  "if_truthy s = (if truthy_str s then s else None)"

text \<open>The deep copy of the given context is the context itself.\<close>

definition derive_mission_metadata :: "enqueue_options \<Rightarrow> mission_metadata" where
  "derive_mission_metadata opts =
     (let base = eo_mission_context opts;
          bu = nullish_opt (eo_business_unit opts) (Option.bind base mc_business_unit);
          mt = nullish_opt (eo_mission_type opts) (Option.bind base mc_mission_type);
          role = nullish_opt (eo_role opts) (Option.bind base mc_role);
          tags = Option.bind base mc_tags
      in \<lparr>mm_business_unit = bu, mm_mission_type = mt, mm_role = role,
          mm_context =
            (if has_mission_fields bu mt role \<or> tags \<noteq> None
             then Some \<lparr>mc_business_unit = if_truthy bu, mc_mission_type = mt, mc_role = if_truthy role, mc_tags = tags\<rparr>
             else None)\<rparr>)"

definition new_task :: "int \<Rightarrow> string \<Rightarrow> enqueue_options \<Rightarrow> queue_task" where
  "new_task ts uuid opts =
     (let m = derive_mission_metadata opts;
          ctx = map_option (\<lambda>c. c\<lparr>mc_business_unit := mm_business_unit m, mc_mission_type := mm_mission_type m,
                                   mc_role := mm_role m\<rparr>) (mm_context m)
      in \<lparr>qt_id = uuid, qt_created_at = Some ts, qt_title = eo_title opts, qt_description = eo_description opts,
          qt_business_unit = mm_business_unit m, qt_mission_type = mm_mission_type m, qt_role = mm_role m,
          qt_mission_context = ctx, qt_job_id = eo_job_id opts, qt_next_run_at = eo_next_run_at opts,
          qt_timeout_seconds = eo_timeout_seconds opts, qt_dedupe_key = eo_dedupe_key opts,
          qt_expected_artifacts = eo_expected_artifacts opts, qt_requires_approval = eo_requires_approval opts,
          qt_links = eo_links opts, qt_notes = eo_notes opts, qt_command = eo_command opts,
          qt_started_at = None, qt_completed_at = None, qt_updated_at = Some ts, qt_error = None,
          qt_tier = nullish (eo_tier opts) P2, qt_status = Queued, qt_attempts = 0,
          qt_max_attempts = nullish (eo_max_attempts opts) 3\<rparr>)"

definition is_open :: "queue_task \<Rightarrow> bool" where
  "is_open t \<longleftrightarrow> qt_status t = Queued \<or> qt_status t = Running"

definition find_duplicate :: "queue_task \<Rightarrow> queue_task list \<Rightarrow> queue_task option" where
  "find_duplicate task items =
     (if truthy_str (qt_dedupe_key task)
      then List.find (\<lambda>t. qt_dedupe_key t = qt_dedupe_key task \<and> is_open t) items else None)"

definition enqueue :: "int \<Rightarrow> string \<Rightarrow> enqueue_options \<Rightarrow> queue_task list \<Rightarrow> queue_task list \<times> queue_task" where
  "enqueue ts uuid opts items =
     (let task = new_task ts uuid opts in
      case find_duplicate task items of
        Some existing \<Rightarrow> (items, existing)
      | None \<Rightarrow> (items @ [task], task))"

section \<open>Queries and updates\<close>

definition get_task :: "queue_task list \<Rightarrow> string \<Rightarrow> queue_task option" where
  "get_task items i = List.find (\<lambda>t. qt_id t = i) items"

record task_filter =
  tf_status :: "queue_status option"
  tf_tier :: "task_tier option"
  tf_business_unit :: "string option"
  tf_mission_type :: "mission_type option"
  tf_role :: "string option"

definition get_tasks :: "queue_task list \<Rightarrow> task_filter option \<Rightarrow> queue_task list" where
  "get_tasks items f =
     (case f of
        None \<Rightarrow> items
      | Some flt \<Rightarrow>
          filter (\<lambda>t. (tf_status flt \<noteq> None \<longrightarrow> tf_status flt = Some (qt_status t)) \<and>
                     (tf_tier flt \<noteq> None \<longrightarrow> tf_tier flt = Some (qt_tier t)) \<and>
                     (truthy_str (tf_business_unit flt) \<longrightarrow> qt_business_unit t = tf_business_unit flt) \<and>
                     (tf_mission_type flt \<noteq> None \<longrightarrow> qt_mission_type t = tf_mission_type flt) \<and>
                     (truthy_str (tf_role flt) \<longrightarrow> qt_role t = tf_role flt)) items)"

definition change_status :: "int \<Rightarrow> queue_status \<Rightarrow> string option \<Rightarrow> queue_task \<Rightarrow> queue_task" where
  "change_status ts status err t =
     (let t1 = t\<lparr>qt_status := status, qt_updated_at := Some ts\<rparr>;
          t2 = (if status = Running then t1\<lparr>qt_started_at := Some ts, qt_attempts := qt_attempts t1 + 1\<rparr> else t1);
          t3 = (if status \<in> {Succeeded, Failed, Cancelled, ExpiredTask} then t2\<lparr>qt_completed_at := Some ts\<rparr> else t2)
      in if truthy_str err then t3\<lparr>qt_error := err\<rparr> else t3)"

definition update_status ::
  "int \<Rightarrow> string \<Rightarrow> queue_status \<Rightarrow> string option \<Rightarrow> queue_task list \<Rightarrow> queue_task list \<times> queue_task option" where
  "update_status ts i status err items =
     (let items' = update_first (\<lambda>t. qt_id t = i) (change_status ts status err) items
      in (items', get_task items' i))"

definition cancel :: "int \<Rightarrow> string \<Rightarrow> string option \<Rightarrow> queue_task list \<Rightarrow> queue_task list \<times> queue_task option" where
  "cancel ts i reason items = update_status ts i Cancelled reason items"

definition default_pruned :: "queue_status list" where
  "default_pruned = [Succeeded, Cancelled, ExpiredTask]"

definition prune_queue :: "queue_status list \<Rightarrow> queue_task list \<Rightarrow> queue_task list \<times> nat" where
  "prune_queue statuses items =
     (let kept = filter (\<lambda>t. qt_status t \<notin> set statuses) items in (kept, length items - length kept))"

record unit_stats =
  us_total :: nat
  us_queued :: nat
  us_running :: nat
  us_failed :: nat

definition count_task :: "queue_task \<Rightarrow> (string, unit_stats) jsmap \<Rightarrow> (string, unit_stats) jsmap" where
  "count_task t m =
     (let bu = nullish (qt_business_unit t) ''_unassigned'';
          s = nullish (js_get m bu) \<lparr>us_total = 0, us_queued = 0, us_running = 0, us_failed = 0\<rparr>
      in js_set bu
           (s\<lparr>us_total := us_total s + 1,
              us_queued := us_queued s + (if qt_status t = Queued then 1 else 0),
              us_running := us_running s + (if qt_status t = Running then 1 else 0),
              us_failed := us_failed s + (if qt_status t = Failed then 1 else 0)\<rparr>) m)"

definition stats :: "queue_task list \<Rightarrow> (string, unit_stats) jsmap" where
  "stats items = fold count_task items []"

section \<open>Migration\<close>

record migration_result =
  mr_persisted :: bool
  mr_from :: int
  mr_to :: int
  mr_migrated :: nat
  mr_with_context :: nat
  mr_warnings :: "string list"

definition migrate_task :: "raw_task \<Rightarrow> raw_task" where
  "migrate_task t =
     (let ctx = (if has_mission_fields (qt_business_unit t) (qt_mission_type t) (qt_role t)
                 then Some \<lparr>mc_business_unit = if_truthy (qt_business_unit t), mc_mission_type = qt_mission_type t,
                            mc_role = if_truthy (qt_role t), mc_tags = None\<rparr>
                 else None)
      in t\<lparr>qt_mission_context := nullish_opt (qt_mission_context t) ctx,
           raw_tier := Some (nullish (raw_tier t) P2), raw_status := Some (nullish (raw_status t) Queued),
           raw_attempts := Some (nullish (raw_attempts t) 0), raw_max_attempts := Some (nullish (raw_max_attempts t) 3)\<rparr>)"

definition migrate_v1_to_v2 :: "queue_document \<Rightarrow> queue_document \<times> nat \<times> nat" where
  "migrate_v1_to_v2 d =
     (let items = nullish (qd_items d) [] in
      (\<lparr>qd_version = 2, qd_generated_at = qd_generated_at d, qd_items = Some (map migrate_task items)\<rparr>,
       length items,
       length (filter (\<lambda>t. has_mission_fields (qt_business_unit t) (qt_mission_type t) (qt_role t)) items)))"

text \<open>The table \<open>MIGRATIONS\<close>: the only step there is starts at version 1.\<close>

definition migration_step :: "int \<Rightarrow> (queue_document \<Rightarrow> queue_document \<times> nat \<times> nat) option" where
  "migration_step v = (if v = 1 then Some migrate_v1_to_v2 else None)"

definition show_version :: "int \<Rightarrow> string" where
  "show_version v = (if v < 0 then ''v-'' @ show_nat (nat (- v)) else ''v'' @ show_nat (nat v))"

fun migrate_chain ::
  "nat \<Rightarrow> int \<Rightarrow> queue_document \<Rightarrow> nat \<times> nat \<Rightarrow> string + queue_document \<times> nat \<times> nat" where
  "migrate_chain 0 v d (m, c) = Inr (d, m, c)"
| "migrate_chain (Suc k) v d (m, c) =
     (case migration_step v of
        None \<Rightarrow> Inl (''No migration path from '' @ show_version v @ '' to '' @ show_version (v + 1))
      | Some step \<Rightarrow> (case step d of (d', m', c') \<Rightarrow> migrate_chain k (v + 1) d' (m + m', c + c')))"

definition rollback_document :: "queue_document \<Rightarrow> int \<Rightarrow> bool \<Rightarrow> queue_document \<times> migration_result" where
  "rollback_document d target dry_run =
     (if target = 1 \<and> qd_version d = 2 then
        (let items = map (\<lambda>t. with_context t None) (nullish (qd_items d) []) in
         (\<lparr>qd_version = 1, qd_generated_at = qd_generated_at d, qd_items = Some items\<rparr>,
          \<lparr>mr_persisted = \<not> dry_run, mr_from = qd_version d, mr_to = target, mr_migrated = length items,
           mr_with_context = 0,
           mr_warnings = [''Rolled back from v2 to v1: missionContext field stripped from all tasks'']\<rparr>))
      else
        (d, \<lparr>mr_persisted = False, mr_from = qd_version d, mr_to = target, mr_migrated = 0, mr_with_context = 0,
             mr_warnings = [''No rollback path from '' @ show_version (qd_version d) @ '' to '' @ show_version target]\<rparr>))"

definition migrate_queue_document :: "queue_document \<Rightarrow> int option \<Rightarrow> bool \<Rightarrow> queue_document \<times> migration_result" where
  "migrate_queue_document d target_opt dry_run =
     (let target = nullish target_opt 2; v = qd_version d in
      if v = target then
        (d, \<lparr>mr_persisted = False, mr_from = v, mr_to = target, mr_migrated = 0, mr_with_context = 0,
             mr_warnings = [''Document already at target version'']\<rparr>)
      else if v > target then rollback_document d target dry_run
      else case migrate_chain (nat (target - v)) v d (0, 0) of
        Inl w \<Rightarrow> (d, \<lparr>mr_persisted = False, mr_from = v, mr_to = target, mr_migrated = 0, mr_with_context = 0,
                     mr_warnings = [w]\<rparr>)
      | Inr (d', m, c) \<Rightarrow>
          (d', \<lparr>mr_persisted = \<not> dry_run, mr_from = v, mr_to = target, mr_migrated = m, mr_with_context = c,
                mr_warnings = []\<rparr>))"

section \<open>Invariants of the queue\<close>

text \<open>The operations that change the queue, as a run of steps.\<close>

datatype queue_op =
    EnqueueOp int string enqueue_options
  | UpdateOp int string queue_status "string option"
  | PruneOp "queue_status list"

fun run_queue_op :: "queue_op \<Rightarrow> queue_task list \<Rightarrow> queue_task list" where
  "run_queue_op (EnqueueOp ts uuid opts) items = fst (enqueue ts uuid opts items)"
| "run_queue_op (UpdateOp ts i status err) items = fst (update_status ts i status err items)"
| "run_queue_op (PruneOp statuses) items = fst (prune_queue statuses items)"

definition run_queue :: "queue_op list \<Rightarrow> queue_task list \<Rightarrow> queue_task list" where
  "run_queue ops items = fold run_queue_op ops items"

text \<open>An update reopens a task when it makes a task that was over queued or running again.\<close>

fun reopens :: "queue_op \<Rightarrow> queue_task list \<Rightarrow> bool" where
  "reopens (UpdateOp ts i status err) items \<longleftrightarrow>
     (status = Queued \<or> status = Running) \<and> list_ex (\<lambda>t. qt_id t = i \<and> \<not> is_open t) items"
| "reopens _ items \<longleftrightarrow> False"

fun never_reopens :: "queue_op list \<Rightarrow> queue_task list \<Rightarrow> bool" where
  "never_reopens [] items \<longleftrightarrow> True"
| "never_reopens (q # qs) items \<longleftrightarrow> \<not> reopens q items \<and> never_reopens qs (run_queue_op q items)"

definition open_with_key :: "string \<Rightarrow> queue_task \<Rightarrow> bool" where
  "open_with_key k t \<longleftrightarrow> qt_dedupe_key t = Some k \<and> is_open t"

definition keys_unique :: "queue_task list \<Rightarrow> bool" where
  "keys_unique items \<longleftrightarrow> (\<forall>k. k \<noteq> [] \<longrightarrow> length (filter (open_with_key k) items) \<le> 1)"

definition context_consistent :: "queue_task \<Rightarrow> bool" where
  "context_consistent t \<longleftrightarrow>
     (case qt_mission_context t of
        None \<Rightarrow> \<not> has_mission_fields (qt_business_unit t) (qt_mission_type t) (qt_role t)
      | Some c \<Rightarrow> mc_business_unit c = qt_business_unit t \<and> mc_mission_type c = qt_mission_type t \<and> mc_role c = qt_role t)"

lemma new_task_context: "context_consistent (new_task ts uuid opts)"
  by (auto simp: context_consistent_def new_task_def derive_mission_metadata_def Let_def split: if_splits)

lemma new_task_sel [simp]:
  "qt_status (new_task ts uuid opts) = Queued" "qt_dedupe_key (new_task ts uuid opts) = eo_dedupe_key opts"
  "qt_attempts (new_task ts uuid opts) = 0" "qt_id (new_task ts uuid opts) = uuid"
  by (simp_all add: new_task_def Let_def)

lemma change_status_sel [simp]:
  "qt_status (change_status ts st err t) = st" "qt_dedupe_key (change_status ts st err t) = qt_dedupe_key t"
  "qt_mission_context (change_status ts st err t) = qt_mission_context t"
  "qt_business_unit (change_status ts st err t) = qt_business_unit t"
  "qt_mission_type (change_status ts st err t) = qt_mission_type t"
  "qt_role (change_status ts st err t) = qt_role t" "qt_id (change_status ts st err t) = qt_id t"
  "qt_attempts (change_status ts st err t) = qt_attempts t + (if st = Running then 1 else 0)"
  by (simp_all add: change_status_def Let_def)

lemma if_truthy_id: "x \<noteq> Some [] \<Longrightarrow> if_truthy x = x"
  by (cases x) (auto simp: if_truthy_def)

lemma change_status_context [simp]: "context_consistent (change_status ts st err t) = context_consistent t"
  by (simp add: context_consistent_def split: option.split)

lemma open_with_key_fun: "open_with_key k = (\<lambda>t. qt_dedupe_key t = Some k \<and> is_open t)"
  by (rule ext) (simp add: open_with_key_def)

lemma run_op_context: "list_all context_consistent items \<Longrightarrow> list_all context_consistent (run_queue_op q items)"
proof (cases q)
  case (EnqueueOp ts uuid opts)
  assume "list_all context_consistent items"
  then show ?thesis
    by (auto simp: EnqueueOp enqueue_def Let_def new_task_context split: option.split)
next
  case (UpdateOp ts i status err)
  assume "list_all context_consistent items"
  then show ?thesis
    by (auto simp: UpdateOp update_status_def Let_def intro!: list_all_update_first)
next
  case (PruneOp statuses)
  assume "list_all context_consistent items"
  then show ?thesis by (auto simp: PruneOp prune_queue_def Let_def list_all_iff)
qed

text \<open>An update that does not reopen a task opens nothing, so no key gets a second open task.\<close>

lemma filter_update_first:
  assumes "\<And>x. x \<in> set xs \<Longrightarrow> P x \<Longrightarrow> Q (f x) \<Longrightarrow> Q x"
  shows "length (filter Q (update_first P f xs)) \<le> length (filter Q xs)"
  using assms
proof (induction xs)
  case (Cons x xs)
  then have "length (filter Q (update_first P f xs)) \<le> length (filter Q xs)" by auto
  then show ?case using Cons.prems [of x] by auto
qed simp

lemma run_op_keys:
  assumes u: "keys_unique items" and r: "\<not> reopens q items"
  shows "keys_unique (run_queue_op q items)"
proof (cases q)
  case (EnqueueOp ts uuid opts)
  show ?thesis
  proof (cases "find_duplicate (new_task ts uuid opts) items")
    case (Some e)
    then show ?thesis using u by (simp add: EnqueueOp enqueue_def Let_def)
  next
    case None
    have "length (filter (open_with_key k) (items @ [new_task ts uuid opts])) \<le> 1" if "k \<noteq> []" for k
    proof (cases "eo_dedupe_key opts = Some k")
      case True
      then have "filter (\<lambda>t. qt_dedupe_key t = Some k \<and> is_open t) items = []"
        using None that by (simp add: find_duplicate_def find_None_filter)
      then have "filter (open_with_key k) items = []"
        by (simp add: open_with_key_fun)
      then show ?thesis by simp
    next
      case False
      then have "\<not> open_with_key k (new_task ts uuid opts)" by (simp add: open_with_key_def)
      then show ?thesis using u that by (simp add: keys_unique_def)
    qed
    then show ?thesis using None by (simp add: EnqueueOp enqueue_def Let_def keys_unique_def)
  qed
next
  case (UpdateOp ts i status err)
  have "length (filter (open_with_key k) (update_first (\<lambda>t. qt_id t = i) (change_status ts status err) items))
      \<le> length (filter (open_with_key k) items)" for k
  proof (rule filter_update_first)
    fix t assume t: "t \<in> set items" "qt_id t = i" "open_with_key k (change_status ts status err t)"
    then have "status = Queued \<or> status = Running" by (simp add: open_with_key_def is_open_def)
    then have "is_open t" using r t UpdateOp by (auto simp: list_ex_iff)
    then show "open_with_key k t" using t(3) by (simp add: open_with_key_def)
  qed
  then show ?thesis using u order_trans unfolding UpdateOp
    by (fastforce simp: keys_unique_def update_status_def Let_def)
next
  case (PruneOp statuses)
  have "length (filter (open_with_key k) (filter (\<lambda>t. qt_status t \<notin> set statuses) items)) \<le> length (filter (open_with_key k) items)" for k
    by (induction items) auto
  then show ?thesis using u order_trans unfolding PruneOp
    by (fastforce simp: keys_unique_def prune_queue_def Let_def)
qed

lemma run_queue_keys:
  "keys_unique items \<Longrightarrow> never_reopens ops items \<Longrightarrow> keys_unique (run_queue ops items)"
  by (induction ops arbitrary: items) (simp_all add: run_queue_def run_op_keys)

lemma run_queue_context:
  "list_all context_consistent items \<Longrightarrow> list_all context_consistent (run_queue ops items)"
  by (induction ops arbitrary: items) (simp_all add: run_queue_def run_op_context)

section \<open>Properties\<close>

text \<open>An enqueue request, for the witnesses.\<close>

definition sample_options :: "string \<Rightarrow> string option \<Rightarrow> enqueue_options" where
  "sample_options title key = \<lparr>eo_title = title, eo_tier = None, eo_description = None, eo_business_unit = Some ''game'',
     eo_mission_type = None, eo_role = None, eo_mission_context = None, eo_job_id = None, eo_next_run_at = None,
     eo_max_attempts = None, eo_timeout_seconds = None, eo_dedupe_key = key, eo_expected_artifacts = None,
     eo_requires_approval = None, eo_links = None, eo_notes = None, eo_command = None\<rparr>"

definition sample_ops :: "queue_op list" where
  "sample_ops = [EnqueueOp 1 ''a'' (sample_options ''one'' (Some ''k'')), UpdateOp 2 ''a'' Running None,
     EnqueueOp 3 ''b'' (sample_options ''two'' (Some ''k'')), UpdateOp 4 ''a'' Failed (Some ''x''),
     EnqueueOp 5 ''c'' (sample_options ''three'' (Some ''k''))]"

text \<open>
  In every queue that grows from an empty one by enqueueing, status updates and pruning, the
  mission context of each task agrees with its business unit, mission type and role and is there
  when one of them is; and as long as no update reopens a task that was over, no two queued or
  running tasks share a dedupe key.
\<close>

theorem queue_stays_consistent:
  "list_all context_consistent (run_queue ops []) \<and>
   (never_reopens ops [] \<longrightarrow> k \<noteq> [] \<longrightarrow>
      length (filter (\<lambda>t. qt_dedupe_key t = Some k \<and> is_open t) (run_queue ops [])) \<le> 1)"
proof (intro conjI impI)
  show "list_all context_consistent (run_queue ops [])" by (rule run_queue_context) simp
  assume "never_reopens ops []" "k \<noteq> []"
  then have "length (filter (open_with_key k) (run_queue ops [])) \<le> 1"
    using run_queue_keys [of "[]" ops] by (simp add: keys_unique_def)
  then show "length (filter (\<lambda>t. qt_dedupe_key t = Some k \<and> is_open t) (run_queue ops [])) \<le> 1"
    by (simp add: open_with_key_fun)
qed

theorem queue_stays_consistent_witness:
  "map qt_id (run_queue sample_ops []) = [''a'', ''c''] \<and>
   length (filter (\<lambda>t. qt_dedupe_key t = Some ''k'' \<and> is_open t) (run_queue sample_ops [])) \<le> 1"
proof -
  have "never_reopens sample_ops []" "map qt_id (run_queue sample_ops []) = [''a'', ''c'']" by code_simp+
  then show ?thesis using queue_stays_consistent [of sample_ops "''k''"] by simp
qed

text \<open>
  Loading a document of the first schema gives the same tasks as migrating it first and
  loading the result, when no business unit or role of it is the empty string; the migration
  counts all its tasks and the ones with mission fields, and a rollback of the result strips the
  contexts again.
\<close>

theorem migration_agrees_with_load:
  assumes "qd_version d = 1"
    and "\<forall>t \<in> set (nullish (qd_items d) []). qt_business_unit t \<noteq> Some [] \<and> qt_role t \<noteq> Some []"
  shows "load_queue (fst (migrate_queue_document d None dry)) = load_queue d \<and>
     mr_migrated (snd (migrate_queue_document d None dry)) = length (load_queue d) \<and>
     mr_persisted (snd (migrate_queue_document d None dry)) = (\<not> dry) \<and>
     map qt_mission_context (nullish (qd_items (fst (migrate_queue_document
        (fst (migrate_queue_document d None dry)) (Some 1) dry))) []) = map (\<lambda>t. None) (load_queue d)"
proof -
  have m: "migrate_queue_document d None dry =
      (let r = migrate_v1_to_v2 d in
       (fst r, \<lparr>mr_persisted = \<not> dry, mr_from = 1, mr_to = 2, mr_migrated = fst (snd r), mr_with_context = snd (snd r),
                mr_warnings = []\<rparr>))"
  proof -
    have "nat (2 - 1) = Suc 0" by simp
    then have "migrate_chain (nat (2 - 1)) 1 d (0, 0) = Inr (migrate_v1_to_v2 d)"
      by (cases "migrate_v1_to_v2 d") (simp add: migration_step_def)
    then show ?thesis
      using assms(1) by (cases "migrate_v1_to_v2 d") (simp add: migrate_queue_document_def)
  qed
  have "normalize_task (migrate_task t) 2 = normalize_task t 1" if "t \<in> set (nullish (qd_items d) [])" for t
  proof -
    have "if_truthy (qt_business_unit t) = qt_business_unit t" "if_truthy (qt_role t) = qt_role t"
      using assms(2) that if_truthy_id by blast+
    then show ?thesis
      by (cases "qt_mission_context t")
        (simp_all add: normalize_task_def migrate_task_def with_context_def Let_def task_core.defs)
  qed
  then have "load_queue (fst (migrate_v1_to_v2 d)) = load_queue d"
    using assms(1) by (simp add: load_queue_def migrate_v1_to_v2_def Let_def)
  moreover have "map qt_mission_context (nullish (qd_items (fst (migrate_queue_document (fst (migrate_v1_to_v2 d)) (Some 1) dry))) [])
      = map (\<lambda>t. None) (load_queue d)"
    by (simp add: migrate_queue_document_def rollback_document_def migrate_v1_to_v2_def with_context_def load_queue_def Let_def)
  ultimately show ?thesis
    by (simp add: m Let_def) (simp add: migrate_v1_to_v2_def load_queue_def Let_def)
qed

definition sample_raw :: raw_task where
  "sample_raw = raw_of (new_task 1 ''a'' (sample_options ''one'' None))\<lparr>qt_mission_context := None, raw_status := None\<rparr>"

definition sample_document :: queue_document where
  "sample_document = \<lparr>qd_version = 1, qd_generated_at = 0, qd_items = Some [sample_raw]\<rparr>"

theorem migration_agrees_with_load_witness:
  "load_queue (fst (migrate_queue_document sample_document None False)) = load_queue sample_document \<and>
   map qt_mission_context (load_queue sample_document) \<noteq> [None]"
proof -
  have "qd_version sample_document = 1" by (simp add: sample_document_def)
  moreover have "\<forall>t \<in> set (nullish (qd_items sample_document) []). qt_business_unit t \<noteq> Some [] \<and> qt_role t \<noteq> Some []"
    by code_simp
  moreover have "map qt_mission_context (load_queue sample_document) \<noteq> [None]" by code_simp
  ultimately show ?thesis using migration_agrees_with_load [of sample_document False] by blast
qed

end
