(* ===== verification/Business_Units.thy ===== *)
theory Business_Units
  imports Prelude
begin

text \<open>
  \<open>lib/business-unit-registry.ts\<close>: the registry of business units, a map from ids to units in the
  order of the document, its validation and its lookups. Reading the document from disk is I/O;
  the model starts from the parsed document.
\<close>

datatype unit_category = InfraUnit | GameUnit | AppUnit | MediaUnit | PersonalUnit
datatype unit_priority = CriticalPriority | HighPriority | MediumPriority | LowPriority
datatype unit_status = Active | Inactive | Archived

datatype risk_type = ExternalPublish | DestructiveActions | ConfigChanges

record unit_risk =
  external_publish :: bool
  destructive_actions :: bool
  config_changes :: bool

record business_unit =
  bu_id :: string
  bu_name :: string
  bu_description :: "string option"
  bu_category :: unit_category
  bu_priority :: unit_priority
  bu_status :: unit_status
  bu_owner_role :: "string option"
  bu_risk :: "unit_risk option"
  bu_mission_types :: "string list option"
  bu_tags :: "string list option"
  bu_cadence :: "string option"
  bu_github :: "string option"

record registry_document =
  doc_version :: int
  doc_generated_at :: int
  doc_units :: "business_unit list option"

record unit_registry =
  units :: "(string, business_unit) jsmap"
  loaded :: bool

definition empty_registry :: unit_registry where
  "empty_registry = \<lparr>units = [], loaded = False\<rparr>"

definition load_from_document :: "registry_document \<Rightarrow> unit_registry \<Rightarrow> unit_registry" where
  "load_from_document d reg =
     reg\<lparr>units := fold (\<lambda>u. js_set (bu_id u) u) (nullish (doc_units d) []) [], loaded := True\<rparr>"

definition new_registry :: "registry_document option \<Rightarrow> unit_registry" where
  "new_registry d = (case d of None \<Rightarrow> empty_registry | Some doc \<Rightarrow> load_from_document doc empty_registry)"

definition get_unit :: "unit_registry \<Rightarrow> string \<Rightarrow> business_unit option" where
  "get_unit reg i = js_get (units reg) i"

definition has_unit :: "unit_registry \<Rightarrow> string \<Rightarrow> bool" where
  "has_unit reg i = js_has (units reg) i"

fun unit_status_name :: "unit_status \<Rightarrow> string" where
  "unit_status_name Active = ''active''"
| "unit_status_name Inactive = ''inactive''"
| "unit_status_name Archived = ''archived''"

text \<open>\<open>validate\<close>: an error message or none.\<close>

definition validate_unit :: "unit_registry \<Rightarrow> string \<Rightarrow> string option" where
  "validate_unit reg i =
     (if i = [] then Some ''Business unit ID is required''
      else case get_unit reg i of
        None \<Rightarrow> Some (''Unknown business unit: '' @ i)
      | Some u \<Rightarrow>
          if bu_status u \<noteq> Active then Some (''Business unit is '' @ unit_status_name (bu_status u) @ '': '' @ i)
          else None)"

definition quote1 :: "string \<Rightarrow> string" where
  "quote1 s = [CHR 0x27] @ s @ [CHR 0x27]"

definition validate_mission_type :: "unit_registry \<Rightarrow> string \<Rightarrow> string \<Rightarrow> string option" where
  "validate_mission_type reg i mt =
     (case get_unit reg i of
        None \<Rightarrow> Some (''Unknown business unit: '' @ i)
      | Some u \<Rightarrow>
          (let allowed = nullish (bu_mission_types u) [] in
           if allowed = [] then None
           else if mt \<notin> set allowed then
             Some (''Mission type '' @ quote1 mt @ '' not allowed for '' @ i @ '' (allowed: '' @ join_with '', '' allowed @ '')'')
           else None))"

fun priority_weight :: "unit_priority \<Rightarrow> int" where
  "priority_weight CriticalPriority = 400"
| "priority_weight HighPriority = 300"
| "priority_weight MediumPriority = 200"
| "priority_weight LowPriority = 100"

definition get_priority_weight :: "unit_registry \<Rightarrow> string \<Rightarrow> int" where
  "get_priority_weight reg i =
     (case get_unit reg i of None \<Rightarrow> priority_weight MediumPriority | Some u \<Rightarrow> priority_weight (bu_priority u))"

definition get_unit_ids :: "unit_registry \<Rightarrow> string list" where
  "get_unit_ids reg = js_keys (units reg)"

definition get_all_units :: "unit_registry \<Rightarrow> business_unit list" where
  "get_all_units reg = js_values (units reg)"

definition get_by_category :: "unit_registry \<Rightarrow> unit_category \<Rightarrow> business_unit list" where
  "get_by_category reg c = filter (\<lambda>u. bu_category u = c) (get_all_units reg)"

definition get_by_priority :: "unit_registry \<Rightarrow> unit_priority \<Rightarrow> business_unit list" where
  "get_by_priority reg p = filter (\<lambda>u. bu_priority u = p) (get_all_units reg)"

definition requires_unit_approval :: "unit_registry \<Rightarrow> string \<Rightarrow> risk_type \<Rightarrow> bool" where
  "requires_unit_approval reg i k =
     (case Option.bind (get_unit reg i) bu_risk of
        None \<Rightarrow> False
      | Some r \<Rightarrow> (case k of ExternalPublish \<Rightarrow> external_publish r
                 | DestructiveActions \<Rightarrow> destructive_actions r
                 | ConfigChanges \<Rightarrow> config_changes r))"

section \<open>What a client relies on\<close>

text \<open>The portfolio: weights within the table, and validation that accepts active units only.\<close>

locale portfolio =
  fixes weight :: "string \<Rightarrow> int"
    and validate :: "string \<Rightarrow> string option"
    and active :: "string \<Rightarrow> bool"
  assumes weight_range: "100 \<le> weight i \<and> weight i \<le> 400"
    and validate_None: "validate i = None \<longleftrightarrow> i \<noteq> [] \<and> active i"
begin

lemma weight_nonneg: "0 \<le> weight i"
  using weight_range [of i] by simp

lemma weight_gap: "weight i - weight j \<le> 300"
  using weight_range [of i] weight_range [of j] by simp

end

definition is_active_unit :: "unit_registry \<Rightarrow> string \<Rightarrow> bool" where
  "is_active_unit reg i \<longleftrightarrow> map_option bu_status (get_unit reg i) = Some Active"

interpretation reg: portfolio "get_priority_weight r" "validate_unit r" "is_active_unit r" for r
proof
  fix i
  have "100 \<le> priority_weight p \<and> priority_weight p \<le> 400" for p by (cases p) auto
  then show "100 \<le> get_priority_weight r i \<and> get_priority_weight r i \<le> 400"
    by (simp add: get_priority_weight_def split: option.split)
  show "validate_unit r i = None \<longleftrightarrow> i \<noteq> [] \<and> is_active_unit r i"
    by (auto simp: validate_unit_def is_active_unit_def split: option.split)
qed

end
