(* ===== verification/Queue_Router.thy ===== *)
theory Queue_Router
  imports Task_Queue Business_Units
begin

text \<open>
  \<open>lib/queue-router.ts\<close>: the routing score of a task, the order of the queue, the choice of the next
  task, the grouping by business unit and the validation against the registry. Logging is left out.
\<close>

section \<open>Scores\<close>

record route_breakdown =
  tier_score :: int
  business_unit_score :: int
  mission_type_score :: int
  age_bonus :: int
  approval_penalty :: int

record routing_decision =
  rt_score :: int
  rt_breakdown :: route_breakdown
  rt_requires_approval :: bool
  rt_warnings :: "string list"

record route_result =
  rr_task :: queue_task
  rr_decision :: routing_decision

record queue_router =
  qr_registry :: unit_registry
  qr_validate_bu :: bool
  qr_validate_mt :: bool

fun tier_weight :: "task_tier \<Rightarrow> int" where
  "tier_weight P0 = 1000" | "tier_weight P1 = 750" | "tier_weight P2 = 500" | "tier_weight P3 = 250"

fun mission_weight :: "mission_type \<Rightarrow> int" where
  "mission_weight InfraMission = 50" | "mission_weight OpsMission = 40" | "mission_weight BuildMission = 30"
| "mission_weight ContentMission = 20" | "mission_weight ResearchMission = 10"

fun mission_type_name :: "mission_type \<Rightarrow> string" where
  "mission_type_name BuildMission = ''build''" | "mission_type_name OpsMission = ''ops''"
| "mission_type_name InfraMission = ''infra''" | "mission_type_name ContentMission = ''content''"
| "mission_type_name ResearchMission = ''research''"

definition list_of :: "'a option \<Rightarrow> 'a list" where
  "list_of x = (case x of None \<Rightarrow> [] | Some v \<Rightarrow> [v])"

text \<open>\<open>Math.min(100, Math.floor(ageMs / 60000))\<close>; an unparsable creation time gives no bonus.\<close>

definition age_bonus_of :: "int \<Rightarrow> int option \<Rightarrow> int" where
  "age_bonus_of now created =
     (let age = (case created of None \<Rightarrow> 0 | Some c \<Rightarrow> max 0 (now - c)) in min 100 (age div 60000))"

definition route :: "queue_router \<Rightarrow> int \<Rightarrow> queue_task \<Rightarrow> routing_decision" where
  "route r now t =
     (let bu_known = truthy_str (qt_business_unit t);
          bu = str_or_empty (qt_business_unit t);
          bu_warn = (if bu_known \<and> qr_validate_bu r then list_of (validate_unit (qr_registry r) bu) else []);
          bu_score = (if bu_known then get_priority_weight (qr_registry r) bu else 0);
          mt_score = (case qt_mission_type t of None \<Rightarrow> 0 | Some mt \<Rightarrow> mission_weight mt);
          mt_warn = (case qt_mission_type t of
                       None \<Rightarrow> []
                     | Some mt \<Rightarrow> if qr_validate_mt r \<and> bu_known
                                 then list_of (validate_mission_type (qr_registry r) bu (mission_type_name mt)) else []);
          bonus = age_bonus_of now (qt_created_at t);
          approval = (qt_requires_approval t = Some True);
          penalty = (if approval then - 900 else 0)
      in \<lparr>rt_score = tier_weight (qt_tier t) + bu_score + mt_score + bonus + penalty,
          rt_breakdown = \<lparr>tier_score = tier_weight (qt_tier t), business_unit_score = bu_score,
                          mission_type_score = mt_score, age_bonus = bonus, approval_penalty = penalty\<rparr>,
          rt_requires_approval = approval, rt_warnings = bu_warn @ mt_warn\<rparr>)"

section \<open>Order\<close>

definition route_task :: "queue_router \<Rightarrow> int \<Rightarrow> queue_task \<Rightarrow> route_result" where
  "route_task r now t = \<lparr>rr_task = t, rr_decision = route r now t\<rparr>"

definition result_score :: "route_result \<Rightarrow> int" where
  "result_score x = rt_score (rr_decision x)"

text \<open>One reading of the clock serves the whole list.\<close>

definition prioritize :: "queue_router \<Rightarrow> int \<Rightarrow> queue_task list \<Rightarrow> queue_status list \<Rightarrow> route_result list" where
  "prioritize r now tasks statuses =
     sort_desc result_score (map (route_task r now) (filter (\<lambda>t. qt_status t \<in> set statuses) tasks))"

definition pick_next :: "queue_router \<Rightarrow> int \<Rightarrow> queue_task list \<Rightarrow> route_result option" where
  "pick_next r now tasks =
     (case prioritize r now tasks [Queued] of
        [] \<Rightarrow> None
      | x # xs \<Rightarrow> Some (nullish (List.find (\<lambda>y. \<not> rt_requires_approval (rr_decision y)) (x # xs)) x))"

definition add_to_group :: "queue_router \<Rightarrow> int \<Rightarrow> queue_task \<Rightarrow> (string, route_result list) jsmap \<Rightarrow> (string, route_result list) jsmap" where
  "add_to_group r now t groups =
     (let bu = nullish (qt_business_unit t) ''_unassigned''
      in js_set bu (nullish (js_get groups bu) [] @ [route_task r now t]) groups)"

definition group_by_business_unit :: "queue_router \<Rightarrow> int \<Rightarrow> queue_task list \<Rightarrow> (string, route_result list) jsmap" where
  "group_by_business_unit r now tasks =
     map (\<lambda>(bu, rs). (bu, sort_desc result_score rs)) (fold (add_to_group r now) tasks [])"

section \<open>Validation\<close>

definition mismatch :: "string \<Rightarrow> string option \<Rightarrow> string option \<Rightarrow> string list" where
  "mismatch field own ctx =
     (if truthy_str ctx \<and> truthy_str own \<and> ctx \<noteq> own then
        [''Mismatch: task.'' @ field @ ''='' @ quote1 (str_or_empty own) @
         '' vs missionContext.'' @ field @ ''='' @ quote1 (str_or_empty ctx)]
      else [])"

definition validate_task :: "queue_router \<Rightarrow> queue_task \<Rightarrow> string list" where
  "validate_task r t =
     (let ctx = qt_mission_context t;
          bu = nullish_opt (qt_business_unit t) (Option.bind ctx mc_business_unit);
          mt = nullish_opt (qt_mission_type t) (Option.bind ctx mc_mission_type);
          e1 = (if truthy_str bu then list_of (validate_unit (qr_registry r) (str_or_empty bu)) else []);
          e2 = (case mt of
                  None \<Rightarrow> []
                | Some m \<Rightarrow>
                    if truthy_str bu then
                      list_of (validate_mission_type (qr_registry r) (str_or_empty bu) (mission_type_name m))
                    else [''Mission type '' @ quote1 (mission_type_name m) @ '' provided without business unit'']);
          e3 = (case ctx of
                  None \<Rightarrow> []
                | Some c \<Rightarrow> mismatch ''businessUnit'' (qt_business_unit t) (mc_business_unit c)
                           @ mismatch ''missionType'' (map_option mission_type_name (qt_mission_type t))
                               (map_option mission_type_name (mc_mission_type c)))
      in e1 @ e2 @ e3)"

section \<open>Facts of the order\<close>

lemma route_task_sel [simp]: "rr_task (route_task r now t) = t" "rr_decision (route_task r now t) = route r now t"
  by (simp_all add: route_task_def)

lemma route_approval [simp]: "rt_requires_approval (route r now t) \<longleftrightarrow> qt_requires_approval t = Some True"
  by (simp add: route_def Let_def)

lemma set_prioritize:
  "set (prioritize r now tasks sts) = route_task r now ` {t \<in> set tasks. qt_status t \<in> set sts}"
  by (auto simp: prioritize_def)

lemma prioritize_sorted: "sorted_wrt (\<lambda>a b. result_score a \<ge> result_score b) (prioritize r now tasks sts)"
  unfolding prioritize_def by (rule sorted_sort_desc)

text \<open>The first element with a property in a list sorted by score has the best score with it.\<close>

lemma find_sorted_best:
  assumes "sorted_wrt (\<lambda>a b. key a \<ge> (key b :: int)) xs" "List.find P xs = Some x"
  shows "\<forall>y \<in> set xs. P y \<longrightarrow> key y \<le> key x"
  using assms by (induction xs) (auto split: if_splits)

text \<open>
  The score is bounded, and a task that waits for approval is below every task that does not,
  unless its tier, unit, mission and age make up for 900 points.
\<close>

lemma age_bonus_range: "0 \<le> age_bonus_of now c \<and> age_bonus_of now c \<le> 100"
  by (simp add: age_bonus_of_def Let_def pos_imp_zdiv_nonneg_iff split: option.split)

lemma age_bonus_mono: "now \<le> now' \<Longrightarrow> age_bonus_of now c \<le> age_bonus_of now' c"
  by (auto simp: age_bonus_of_def Let_def zdiv_mono1 min.coboundedI2 split: option.split)

lemma tier_weight_range: "250 \<le> tier_weight t \<and> tier_weight t \<le> 1000"
  by (cases t) auto

lemma mission_weight_range: "10 \<le> mission_weight m \<and> mission_weight m \<le> 50"
  by (cases m) auto

lemma route_score_range: "- 650 \<le> rt_score (route r now t) \<and> rt_score (route r now t) \<le> 1550"
proof -
  have "0 \<le> (case qt_mission_type t of None \<Rightarrow> 0 | Some mt \<Rightarrow> mission_weight mt) \<and>
      (case qt_mission_type t of None \<Rightarrow> 0 | Some mt \<Rightarrow> mission_weight mt) \<le> 50"
    using mission_weight_range [of "the (qt_mission_type t)"] by (auto split: option.split)
  then show ?thesis
    using reg.weight_range [of "qr_registry r" "str_or_empty (qt_business_unit t)"] tier_weight_range [of "qt_tier t"]
      age_bonus_range [of now "qt_created_at t"]
    by (simp add: route_def Let_def)
qed

text \<open>The tier does not dominate: a fresh P1 task of a critical unit is above a fresh P0 task of no unit.\<close>

lemma tier_does_not_dominate:
  assumes "get_priority_weight (qr_registry r) bu = 400" "bu \<noteq> []"
    and "qt_tier t = P1" "qt_business_unit t = Some bu" "qt_requires_approval t = None"
    and "qt_tier u = P0" "qt_business_unit u = None" "qt_requires_approval u = None"
    and "qt_created_at u = qt_created_at t" "qt_mission_type u = qt_mission_type t"
  shows "rt_score (route r now u) < rt_score (route r now t)"
  using assms by (simp add: route_def Let_def)

section \<open>Properties\<close>

text \<open>
  The next task is a queued one, and there is one exactly when a task is queued; it needs an
  approval only when every queued task does; and among the queued tasks that need no approval
  (among all of them when all need one) no task has a higher score.
\<close>

theorem pick_next_is_the_best:
  "case pick_next r now tasks of
     None \<Rightarrow> \<not> list_ex (\<lambda>t. qt_status t = Queued) tasks
   | Some x \<Rightarrow>
       let t = rr_task x;
           queued = filter (\<lambda>t. qt_status t = Queued) tasks;
           free = filter (\<lambda>t. qt_requires_approval t \<noteq> Some True) queued
       in rr_decision x = route r now t \<and> t \<in> set (if free = [] then queued else free) \<and>
          list_all (\<lambda>u. rt_score (route r now u) \<le> rt_score (route r now t)) (if free = [] then queued else free)"
proof (cases "prioritize r now tasks [Queued]")
  case Nil
  then have "\<not> list_ex (\<lambda>t. qt_status t = Queued) tasks"
    using set_prioritize [of r now tasks "[Queued]"] by (auto simp: list_ex_iff)
  then show ?thesis using Nil by (simp add: pick_next_def)
next
  case (Cons x xs)
  let ?queued = "filter (\<lambda>t. qt_status t = Queued) tasks"
  let ?free = "filter (\<lambda>t. qt_requires_approval t \<noteq> Some True) ?queued"
  let ?P = "\<lambda>y. \<not> rt_requires_approval (rr_decision y)"
  have mem: "y \<in> set (x # xs) \<longleftrightarrow> (\<exists>t \<in> set ?queued. y = route_task r now t)" for y
    using set_prioritize [of r now tasks "[Queued]"] unfolding Cons by auto
  have sorted: "sorted_wrt (\<lambda>a b. result_score a \<ge> result_score b) (x # xs)"
    using prioritize_sorted [of r now tasks "[Queued]"] unfolding Cons .
  have pick: "pick_next r now tasks = Some (nullish (List.find ?P (x # xs)) x)"
    unfolding pick_next_def Cons by simp
  show ?thesis
  proof (cases "List.find ?P (x # xs)")
    case None
    have "qt_requires_approval u = Some True" if "u \<in> set ?queued" for u
    proof -
      have "route_task r now u \<in> set (x # xs)" using mem that by blast
      moreover have "\<not> (\<exists>y. y \<in> set (x # xs) \<and> ?P y)" using None unfolding find_None_iff .
      ultimately have "\<not> ?P (route_task r now u)" by blast
      then show ?thesis by simp
    qed
    then have none: "?free = []" by (auto simp: filter_empty_conv)
    obtain t where t: "t \<in> set ?queued" "x = route_task r now t" using mem [of x] by auto
    have "rt_score (route r now u) \<le> rt_score (route r now t)" if "u \<in> set ?queued" for u
    proof -
      have "route_task r now u \<in> set (x # xs)" using mem that by blast
      then have "result_score (route_task r now u) \<le> result_score x" using sorted by auto
      then show ?thesis using t by (simp add: result_score_def)
    qed
    then show ?thesis using none t unfolding pick None by (simp add: list_all_iff)
  next
    case (Some y)
    have y: "?P y" "y \<in> set (x # xs)" using find_SomeD [OF Some] by blast+
    then obtain t where t: "t \<in> set ?queued" "y = route_task r now t" using mem by blast
    then have free: "t \<in> set ?free" using y by simp
    have "rt_score (route r now u) \<le> rt_score (route r now t)" if "u \<in> set ?free" for u
    proof -
      have "route_task r now u \<in> set (x # xs)" "?P (route_task r now u)" using mem that by auto
      then show ?thesis using find_sorted_best [OF sorted Some] t by (auto simp: result_score_def)
    qed
    moreover have "?free \<noteq> []" using free by (metis empty_iff list.set(1))
    ultimately show ?thesis using t free unfolding pick Some by (simp add: list_all_iff Let_def)
  qed
qed

text \<open>
  The prioritized list holds exactly the tasks of the asked statuses, each with its own
  decision, in descending order of score, and tasks of equal score keep their order in the queue.
\<close>

theorem prioritize_is_a_stable_sort:
  "let rs = prioritize r now tasks statuses; eligible = filter (\<lambda>t. qt_status t \<in> set statuses) tasks
   in sorted_wrt (\<lambda>a b. rt_score (rr_decision a) \<ge> rt_score (rr_decision b)) rs \<and>
      length rs = length eligible \<and> list_all (\<lambda>x. rr_decision x = route r now (rr_task x)) rs \<and>
      map rr_task (filter (\<lambda>x. rt_score (rr_decision x) = k) rs) = filter (\<lambda>t. rt_score (route r now t) = k) eligible"
proof -
  let ?el = "filter (\<lambda>t. qt_status t \<in> set statuses) tasks"
  have "filter (\<lambda>x. result_score x = k) (prioritize r now tasks statuses) = filter (\<lambda>x. result_score x = k) (map (route_task r now) ?el)"
    unfolding prioritize_def by (rule sort_desc_stable)
  then have "map rr_task (filter (\<lambda>x. result_score x = k) (prioritize r now tasks statuses)) =
      filter (\<lambda>t. rt_score (route r now t) = k) ?el"
    by (simp add: filter_map comp_def result_score_def)
  moreover have "list_all (\<lambda>x. rr_decision x = route r now (rr_task x)) (prioritize r now tasks statuses)"
    by (auto simp: list_all_iff set_prioritize)
  ultimately show ?thesis
    using prioritize_sorted [of r now tasks statuses] by (simp add: Let_def result_score_def prioritize_def)
qed

text \<open>
  A queue built by the queue's own operations never fails the router's cross check of the
  mission context: what \<open>validateTask\<close> reports about an enqueued task are errors of its business
  unit and mission type only.
\<close>

theorem enqueued_tasks_pass_the_cross_check:
  "list_all (\<lambda>t. validate_task r t =
       (if truthy_str (qt_business_unit t) then
          list_of (validate_unit (qr_registry r) (str_or_empty (qt_business_unit t))) @
          concat (map (\<lambda>m. list_of (validate_mission_type (qr_registry r) (str_or_empty (qt_business_unit t)) (mission_type_name m)))
            (list_of (qt_mission_type t)))
        else map (\<lambda>m. ''Mission type '' @ quote1 (mission_type_name m) @ '' provided without business unit'')
               (list_of (qt_mission_type t))))
     (run_queue ops [])"
proof -
  have "list_all context_consistent (run_queue ops [])" by (rule run_queue_context) simp
  moreover have "validate_task r t =
       (if truthy_str (qt_business_unit t) then
          list_of (validate_unit (qr_registry r) (str_or_empty (qt_business_unit t))) @
          concat (map (\<lambda>m. list_of (validate_mission_type (qr_registry r) (str_or_empty (qt_business_unit t)) (mission_type_name m)))
            (list_of (qt_mission_type t)))
        else map (\<lambda>m. ''Mission type '' @ quote1 (mission_type_name m) @ '' provided without business unit'')
               (list_of (qt_mission_type t)))" if "context_consistent t" for t
  proof -
    have no: "mismatch f x x = []" for f x by (simp add: mismatch_def)
    have bu: "nullish_opt (qt_business_unit t) (Option.bind (qt_mission_context t) mc_business_unit) = qt_business_unit t"
      "nullish_opt (qt_mission_type t) (Option.bind (qt_mission_context t) mc_mission_type) = qt_mission_type t"
      using that by (cases "qt_mission_context t"; cases "qt_business_unit t"; cases "qt_mission_type t";
          simp add: context_consistent_def)+
    have ctx: "(case qt_mission_context t of None \<Rightarrow> []
                | Some c \<Rightarrow> mismatch ''businessUnit'' (qt_business_unit t) (mc_business_unit c)
                           @ mismatch ''missionType'' (map_option mission_type_name (qt_mission_type t))
                               (map_option mission_type_name (mc_mission_type c))) = []"
      using that by (cases "qt_mission_context t") (auto simp: context_consistent_def no)
    show ?thesis unfolding validate_task_def Let_def bu ctx
      by (cases "qt_mission_type t") (simp_all add: list_of_def)
  qed
  ultimately show ?thesis by (auto simp: list_all_iff)
qed

end
