(* ===== verification/Handoff.thy ===== *)
theory Handoff
  imports Complex_Main Prelude
begin

text \<open>
  \<open>lib/handoff-validator.ts\<close> and \<open>lib/contract-wildcards.ts\<close>: which contract between two role cards
  a handoff falls under, and whether its payload fits it. Of a role card the model keeps the input
  and output contracts. Parameters stand for the loading of a card (\<open>cards\<close>, which may throw), the
  schema validator \<open>ajv\<close> and the conversion of a value to text in a message (\<open>show\<close>).
\<close>

section \<open>Values and cards\<close>

text \<open>A value of JavaScript; a property that is not there is \<open>JUndefined\<close>.\<close>

datatype json =
    JUndefined
  | JNull
  | JBool bool
  | JNumber rat
  | JString string
  | JArray "json list"
  | JObject "(string \<times> json) list"

fun json_prop :: "json \<Rightarrow> string \<Rightarrow> json" where
  "json_prop (JObject fs) k = nullish (js_get fs k) JUndefined"
| "json_prop _ k = JUndefined"

fun json_truthy :: "json \<Rightarrow> bool" where
  "json_truthy JUndefined = False"
| "json_truthy JNull = False"
| "json_truthy (JBool b) = b"
| "json_truthy (JNumber n) = (n \<noteq> 0)"
| "json_truthy (JString s) = (s \<noteq> [])"
| "json_truthy (JArray _) = True"
| "json_truthy (JObject _) = True"

record role_input =
  ri_source :: string
  ri_type :: string
  ri_format :: string
  ri_schema :: "json option"

record role_output =
  ro_target :: string
  ro_type :: string
  ro_format :: string

record role_card =
  rc_agent :: string
  rc_inputs :: "role_input list"
  rc_outputs :: "role_output list"

definition wildcard_targets :: "string list" where
  "wildcard_targets = [''*'', ''broadcast'', ''all'']"

definition is_wildcard_target :: "string \<Rightarrow> bool" where
  "is_wildcard_target v \<longleftrightarrow> v \<noteq> [] \<and> v \<in> set wildcard_targets"

section \<open>The validator\<close>

fun is_envelope :: "json \<Rightarrow> bool" where
  "is_envelope (JObject fs) \<longleftrightarrow> js_has fs ''data'' \<or> js_has fs ''type'' \<or> js_has fs ''format''"
| "is_envelope _ \<longleftrightarrow> False"

fun is_string :: "json \<Rightarrow> bool" where
  "is_string (JString s) = True"
| "is_string _ = False"

fun is_object :: "json \<Rightarrow> bool" where
  "is_object (JObject fs) = True"
| "is_object (JArray xs) = True"
| "is_object _ = False"

definition format_ok :: "string \<Rightarrow> json \<Rightarrow> bool" where
  "format_ok expected v =
     (if expected \<in> {''natural_language'', ''markdown'', ''yaml'', ''structured_query'', ''structured_report'',
                     ''file_path'', ''url''} then is_string v
      else if expected = ''json'' then is_object v
      else True)"

definition envelope_prop :: "json \<Rightarrow> string \<Rightarrow> json" where
  "envelope_prop payload k = (if is_envelope payload then json_prop payload k else JUndefined)"

text \<open>A declared value that is not the expected one; an undeclared (falsy) one never mismatches.\<close>

definition declares :: "json \<Rightarrow> string \<Rightarrow> bool" where
  "declares v t \<longleftrightarrow> json_truthy v \<and> v = JString t"

definition mismatches :: "json \<Rightarrow> string \<Rightarrow> bool" where
  "mismatches v t \<longleftrightarrow> json_truthy v \<and> v \<noteq> JString t"

definition contract_score :: "json \<Rightarrow> role_output \<Rightarrow> role_input \<Rightarrow> int" where
  "contract_score payload out inp =
     (if ro_type out = ri_type inp then 10 else 0) + (if ro_format out = ri_format inp then 5 else 0) +
     (if declares (envelope_prop payload ''type'') (ri_type inp) then 3 else 0) +
     (if declares (envelope_prop payload ''format'') (ri_format inp) then 2 else 0)"

text \<open>The candidate pairs in the order of the two loops.\<close>

definition candidates :: "role_card \<Rightarrow> role_card \<Rightarrow> (role_output \<times> role_input) list" where
  "candidates from to =
     List.product (filter (\<lambda>out. ro_target out = rc_agent to \<or> is_wildcard_target (ro_target out)) (rc_outputs from))
       (filter (\<lambda>inp. ri_source inp = rc_agent from \<or> is_wildcard_target (ri_source inp)) (rc_inputs to))"

definition pair_score :: "json \<Rightarrow> role_output \<times> role_input \<Rightarrow> int" where
  "pair_score payload p = contract_score payload (fst p) (snd p)"

definition find_best_contract :: "role_card \<Rightarrow> role_card \<Rightarrow> json \<Rightarrow> (role_output \<times> role_input) option" where
  "find_best_contract from to payload =
     (case sort_desc (pair_score payload) (candidates from to) of [] \<Rightarrow> None | p # _ \<Rightarrow> Some p)"

record contract_side =
  cn_agent :: string
  cn_type :: string
  cn_format :: string

record handoff_result =
  ho_valid :: bool
  ho_reason :: "string option"
  ho_contract :: "(contract_side \<times> contract_side) option"
  ho_errors :: "string list option"

datatype ajv_outcome = AjvValid | AjvErrors string | AjvThrows string

definition payload_data :: "json \<Rightarrow> json" where
  "payload_data payload =
     (let d = envelope_prop payload ''data'' in if d = JUndefined \<or> d = JNull then payload else d)"

definition schema_errors :: "(json \<Rightarrow> json \<Rightarrow> ajv_outcome) \<Rightarrow> role_input \<Rightarrow> json \<Rightarrow> string list" where
  "schema_errors ajv inp v =
     (case ri_schema inp of
        None \<Rightarrow> []
      | Some s \<Rightarrow>
          if ri_format inp = ''json'' \<or> ri_format inp = ''yaml'' then
            (case ajv s v of
               AjvValid \<Rightarrow> []
             | AjvErrors m \<Rightarrow> [''Schema validation failed: '' @ m]
             | AjvThrows m \<Rightarrow> [''Failed to compile/validate input schema: '' @ m])
          else [])"

definition handoff_errors ::
  "(json \<Rightarrow> json \<Rightarrow> ajv_outcome) \<Rightarrow> (json \<Rightarrow> string) \<Rightarrow> role_input \<Rightarrow> json \<Rightarrow> string list" where
  "handoff_errors ajv show inp payload =
     (let ty = envelope_prop payload ''type''; fmt = envelope_prop payload ''format'' in
      (if mismatches ty (ri_type inp)
       then [''Payload type mismatch: payload.type='' @ show ty @ '' expected='' @ ri_type inp] else []) @
      (if mismatches fmt (ri_format inp)
       then [''Payload format mismatch: payload.format='' @ show fmt @ '' expected='' @ ri_format inp] else []) @
      (if \<not> format_ok (ri_format inp) (payload_data payload)
       then [''Payload data does not match expected format='' @ ri_format inp] else []) @
      schema_errors ajv inp (payload_data payload))"

definition check_handoff ::
  "(json \<Rightarrow> json \<Rightarrow> ajv_outcome) \<Rightarrow> (json \<Rightarrow> string) \<Rightarrow> string \<Rightarrow> string \<Rightarrow> role_card \<Rightarrow> role_card \<Rightarrow> json
   \<Rightarrow> handoff_result" where
  "check_handoff ajv show from_agent to_agent from to payload =
     (case find_best_contract from to payload of
        None \<Rightarrow> \<lparr>ho_valid = False,
                ho_reason = Some (''No contract between agents ('' @ from_agent @ '' -> '' @ to_agent @
                  ''). Ensure from.outputs includes target='' @ to_agent @ '' and to.inputs includes source='' @
                  from_agent @ ''.''),
                ho_contract = None, ho_errors = None\<rparr>
      | Some (out, inp) \<Rightarrow>
          (let errs = handoff_errors ajv show inp payload in
           \<lparr>ho_valid = (errs = []), ho_reason = (if errs = [] then None else Some ''Handoff validation failed''),
            ho_contract = Some (\<lparr>cn_agent = rc_agent from, cn_type = ro_type out, cn_format = ro_format out\<rparr>,
                                \<lparr>cn_agent = rc_agent to, cn_type = ri_type inp, cn_format = ri_format inp\<rparr>),
            ho_errors = (if errs = [] then None else Some errs)\<rparr>))"

definition validate_handoff ::
  "(string \<Rightarrow> 'e + role_card) \<Rightarrow> (json \<Rightarrow> json \<Rightarrow> ajv_outcome) \<Rightarrow> (json \<Rightarrow> string) \<Rightarrow> string \<Rightarrow> string \<Rightarrow> json
   \<Rightarrow> 'e + handoff_result" where
  "validate_handoff cards ajv show from_agent to_agent payload =
     (case cards from_agent of
        Inl e \<Rightarrow> Inl e
      | Inr from \<Rightarrow>
          (case cards to_agent of
             Inl e \<Rightarrow> Inl e
           | Inr to \<Rightarrow> Inr (check_handoff ajv show from_agent to_agent from to payload)))"

section \<open>The chosen contract\<close>

lemma find_best_contract_None [simp]: "find_best_contract from to payload = None \<longleftrightarrow> candidates from to = []"
  using length_sort_desc [of "pair_score payload" "candidates from to"]
  by (auto simp: find_best_contract_def split: list.splits)

lemma find_best_contract_Some:
  assumes "find_best_contract from to payload = Some p"
  shows "p \<in> set (candidates from to) \<and> (\<forall>q \<in> set (candidates from to). pair_score payload q \<le> pair_score payload p)"
proof -
  obtain ps where s: "sort_desc (pair_score payload) (candidates from to) = p # ps"
    using assms by (auto simp: find_best_contract_def split: list.splits)
  have "set (p # ps) = set (candidates from to)" using set_sort_desc s by metis
  moreover have "sorted_wrt (\<lambda>a b. pair_score payload a \<ge> pair_score payload b) (p # ps)"
    using sorted_sort_desc s by metis
  ultimately show ?thesis by auto
qed

lemma contract_score_top: "contract_score payload out inp \<le> 20"
  by (simp add: contract_score_def)

lemma mismatches_declares: "declares v t \<Longrightarrow> \<not> mismatches v t"
  by (simp add: declares_def mismatches_def)

lemma mismatches_undeclared: "\<not> json_truthy v \<Longrightarrow> \<not> mismatches v t"
  by (simp add: mismatches_def)

text \<open>What the score misses of its best value for the payload.\<close>

definition best_score :: "json \<Rightarrow> int" where
  "best_score payload = 15 + (if json_truthy (envelope_prop payload ''type'') then 3 else 0) +
     (if json_truthy (envelope_prop payload ''format'') then 2 else 0)"

lemma contract_score_best:
  "contract_score payload out inp \<le> best_score payload"
  by (auto simp: contract_score_def best_score_def declares_def)

lemma contract_score_eq_best:
  "contract_score payload out inp = best_score payload \<longleftrightarrow>
     ro_type out = ri_type inp \<and> ro_format out = ri_format inp \<and>
     \<not> mismatches (envelope_prop payload ''type'') (ri_type inp) \<and>
     \<not> mismatches (envelope_prop payload ''format'') (ri_format inp)"
  by (auto simp: contract_score_def best_score_def declares_def mismatches_def)

section \<open>Properties\<close>

text \<open>
  A handoff is accepted exactly when the cards have a contract for it and the payload fits the
  input contract of a best one: some pair of an output of the sender, addressed to the receiver or
  to all, and an input of the receiver, from the sender or from anyone, has the highest score, and
  the declared type and format are those of the input, the data have its format and its schema
  accepts them. The result names that pair.
\<close>

theorem handoff_accepts_the_best_contract:
  assumes "cards a = Inr from" "cards b = Inr to"
  shows "\<exists>r. validate_handoff cards ajv show a b payload = Inr r \<and>
     (if candidates from to = [] then \<not> ho_valid r \<and> ho_contract r = None
      else \<exists>(out, inp) \<in> set (candidates from to).
        (\<forall>q \<in> set (candidates from to). pair_score payload q \<le> pair_score payload (out, inp)) \<and>
        map_option (\<lambda>c. (cn_type (fst c), cn_type (snd c))) (ho_contract r) = Some (ro_type out, ri_type inp) \<and>
        (ho_valid r \<longleftrightarrow>
           \<not> mismatches (envelope_prop payload ''type'') (ri_type inp) \<and>
           \<not> mismatches (envelope_prop payload ''format'') (ri_format inp) \<and>
           format_ok (ri_format inp) (payload_data payload) \<and>
           schema_errors ajv inp (payload_data payload) = []))"
proof (cases "find_best_contract from to payload")
  case None
  then have "candidates from to = []" by simp
  then show ?thesis using assms None
    by (simp add: validate_handoff_def check_handoff_def del: find_best_contract_None)
next
  case (Some p)
  obtain out inp where p: "p = (out, inp)" by (cases p)
  have "candidates from to \<noteq> []" using Some by (metis find_best_contract_None option.distinct(1))
  then show ?thesis
    using assms Some find_best_contract_Some [OF Some]
    by (auto simp: validate_handoff_def check_handoff_def handoff_errors_def Let_def p intro!: bexI [of _ "(out, inp)"])
qed

text \<open>
  If some contract's output and input agree with each other and with what the payload declares,
  the validator picks such a contract: the handoff is then refused only for its data.
\<close>

theorem agreeing_contracts_are_found:
  assumes "cards a = Inr from" "cards b = Inr to" "(out, inp) \<in> set (candidates from to)"
    and "ro_type out = ri_type inp" "ro_format out = ri_format inp"
    and "\<not> mismatches (envelope_prop payload ''type'') (ri_type inp)"
    and "\<not> mismatches (envelope_prop payload ''format'') (ri_format inp)"
  shows "\<exists>r out' inp'. validate_handoff cards ajv show a b payload = Inr r \<and> (out', inp') \<in> set (candidates from to) \<and>
     ro_type out' = ri_type inp' \<and> ro_format out' = ri_format inp' \<and>
     (ho_valid r \<longleftrightarrow> format_ok (ri_format inp') (payload_data payload) \<and>
        schema_errors ajv inp' (payload_data payload) = [])"
proof -
  obtain p where p: "find_best_contract from to payload = Some p"
    using assms(3) by (cases "find_best_contract from to payload") auto
  obtain out' inp' where p': "p = (out', inp')" by (cases p)
  have "contract_score payload out inp = best_score payload"
    using assms(4-7) by (simp add: contract_score_eq_best)
  then have "best_score payload \<le> contract_score payload out' inp'"
    using find_best_contract_Some [OF p] assms(3) by (auto simp: p' pair_score_def)
  then have "contract_score payload out' inp' = best_score payload"
    using contract_score_best [of payload out' inp'] by linarith
  then show ?thesis
    using assms(1, 2) p find_best_contract_Some [OF p]
    by (auto simp: contract_score_eq_best p' validate_handoff_def check_handoff_def handoff_errors_def Let_def)
qed

definition sample_input :: "string \<Rightarrow> string \<Rightarrow> role_input" where
  "sample_input t f = \<lparr>ri_source = ''*'', ri_type = t, ri_format = f, ri_schema = None\<rparr>"

definition sample_output :: "string \<Rightarrow> string \<Rightarrow> role_output" where
  "sample_output t f = \<lparr>ro_target = ''*'', ro_type = t, ro_format = f\<rparr>"

definition sample_card :: "string \<Rightarrow> role_card" where
  "sample_card i = \<lparr>rc_agent = i,
     rc_inputs = [sample_input ''note'' ''markdown'', sample_input ''report'' ''json''],
     rc_outputs = [sample_output ''note'' ''markdown'', sample_output ''report'' ''markdown'']\<rparr>"

definition sample_payload :: "string \<Rightarrow> string \<Rightarrow> json \<Rightarrow> json" where
  "sample_payload t f d = JObject [(''type'', JString t), (''format'', JString f), (''data'', d)]"

theorem handoff_accepts_the_best_contract_witness:
  "\<exists>r. validate_handoff (\<lambda>i. Inr (sample_card i) :: unit + role_card) (\<lambda>_ _. AjvValid) (\<lambda>_. ''?'') ''a'' ''b''
      (sample_payload ''note'' ''markdown'' (JString ''hi'')) = Inr r \<and> ho_contract r \<noteq> None"
proof -
  have "candidates (sample_card ''a'') (sample_card ''b'') \<noteq> []" by code_simp
  then show ?thesis
    using handoff_accepts_the_best_contract [of "\<lambda>i. Inr (sample_card i) :: unit + role_card" "''a''" "sample_card ''a''"
        "''b''" "sample_card ''b''" "\<lambda>_ _. AjvValid" "\<lambda>_. ''?''" "sample_payload ''note'' ''markdown'' (JString ''hi'')"]
    by auto
qed

theorem agreeing_contracts_are_found_witness:
  "\<exists>r. validate_handoff (\<lambda>i. Inr (sample_card i) :: unit + role_card) (\<lambda>_ _. AjvValid) (\<lambda>_. ''?'') ''a'' ''b''
      (sample_payload ''note'' ''markdown'' (JString ''hi'')) = Inr r"
proof -
  have c: "(sample_output ''note'' ''markdown'', sample_input ''note'' ''markdown'')
      \<in> set (candidates (sample_card ''a'') (sample_card ''b''))" by code_simp
  have m: "\<not> mismatches (envelope_prop (sample_payload ''note'' ''markdown'' (JString ''hi'')) ''type'')
      (ri_type (sample_input ''note'' ''markdown''))"
    "\<not> mismatches (envelope_prop (sample_payload ''note'' ''markdown'' (JString ''hi'')) ''format'')
      (ri_format (sample_input ''note'' ''markdown''))"
    by code_simp+
  have e: "ro_type (sample_output ''note'' ''markdown'') = ri_type (sample_input ''note'' ''markdown'')"
    "ro_format (sample_output ''note'' ''markdown'') = ri_format (sample_input ''note'' ''markdown'')"
    by code_simp+
  from agreeing_contracts_are_found [of "\<lambda>i. Inr (sample_card i) :: unit + role_card" "''a''" "sample_card ''a''"
      "''b''" "sample_card ''b''", OF refl refl c e m, of "\<lambda>_ _. AjvValid" "\<lambda>_. ''?''"]
  show ?thesis by blast
qed

text \<open>
  A payload that fits a contract exactly can be refused: a report in JSON, for which the receiver
  has an input contract and the sender an output of that type (in another format), is judged by the
  contract of the notes, whose two sides agree in type and format and which comes first.
\<close>

theorem fitting_payload_is_refused:
  "(sample_output ''report'' ''markdown'', sample_input ''report'' ''json'')
      \<in> set (candidates (sample_card ''a'') (sample_card ''b'')) \<and>
   handoff_errors (\<lambda>_ _. AjvValid) (\<lambda>_. ''report'') (sample_input ''report'' ''json'')
      (sample_payload ''report'' ''json'' (JObject [])) = [] \<and>
   map_option (\<lambda>c. cn_type (snd c)) (ho_contract (check_handoff (\<lambda>_ _. AjvValid) (\<lambda>_. ''report'') ''a'' ''b''
      (sample_card ''a'') (sample_card ''b'') (sample_payload ''report'' ''json'' (JObject [])))) = Some ''note'' \<and>
   \<not> ho_valid (check_handoff (\<lambda>_ _. AjvValid) (\<lambda>_. ''report'') ''a'' ''b''
      (sample_card ''a'') (sample_card ''b'') (sample_payload ''report'' ''json'' (JObject [])))"
  by code_simp

end
