(* ===== verification/Affinity.thy ===== *)
theory Affinity
  imports Complex_Main Prelude
begin

text \<open>
  \<open>lib/affinity-manager.ts\<close>: the affinities between agents in the \<open>khala_network\<close> table, their drift
  history, and the statistics of a set of participants. A table is a map from its unique key
  \<open>(agent_a, agent_b)\<close> to the row; a missing table is \<open>None\<close>. Which optional columns a table has is
  recorded beside it, and a value of a missing column stays \<open>None\<close>. The \<open>CHECK\<close> constraints of the
  database schema are not part of the sources and not modelled. Affinities are exact rationals.
\<close>

section \<open>The database and the configuration\<close>

record bond_row =
  br_affinity :: rat
  br_seed :: "rat option"
  br_last_interaction :: "int option"
  br_count :: "int option"
  br_updated :: "int option"

record khala_columns =
  kc_seed :: bool
  kc_last_interaction :: bool
  kc_count :: bool
  kc_updated :: bool

record drift_entry =
  de_pair :: "string \<times> string"
  de_old :: rat
  de_new :: rat
  de_delta :: rat
  de_reason :: string
  de_interaction :: "string option"
  de_mission :: "string option"
  de_created :: "int option"

record drift_columns =
  dc_required :: bool
  dc_interaction :: bool
  dc_mission :: bool
  dc_created :: bool

record affinity_db =
  khala :: "(string \<times> string, bond_row) jsmap option"
  khala_cols :: khala_columns
  drift :: "drift_entry list option"
  drift_cols :: drift_columns
  psionic :: "(string \<times> string, rat) jsmap option"

record affinity_config =
  ac_readonly :: bool
  ac_default :: rat
  ac_min :: rat
  ac_max :: rat
  ac_low_threshold :: rat
  ac_handoff_success :: rat
  ac_handoff_failure :: rat
  ac_collaboration :: rat
  ac_conflict :: rat

definition default_affinity_config :: affinity_config where
  "default_affinity_config = \<lparr>ac_readonly = False, ac_default = 7 / 10, ac_min = 1 / 10, ac_max = 95 / 100,
     ac_low_threshold = 5 / 10, ac_handoff_success = 3 / 100, ac_handoff_failure = - (3 / 100),
     ac_collaboration = 2 / 100, ac_conflict = - (2 / 100)\<rparr>"

definition normalize_pair :: "string \<Rightarrow> string \<Rightarrow> string \<times> string" where
  "normalize_pair a b = (if a < b then (a, b) else (b, a))"

definition clamp :: "rat \<Rightarrow> rat \<Rightarrow> rat \<Rightarrow> rat" where
  "clamp x lo hi = max lo (min hi x)"

section \<open>Reading\<close>

definition get_affinity :: "affinity_config \<Rightarrow> affinity_db \<Rightarrow> string \<Rightarrow> string \<Rightarrow> rat" where
  "get_affinity c db x y =
     (let p = normalize_pair x y in
      case khala db of
        Some t \<Rightarrow> (case js_get t p of Some row \<Rightarrow> br_affinity row | None \<Rightarrow> ac_default c)
      | None \<Rightarrow>
          (case psionic db of
             Some t \<Rightarrow> nullish (js_get t p) (ac_default c)
           | None \<Rightarrow> ac_default c))"

definition requires_mediation :: "affinity_config \<Rightarrow> affinity_db \<Rightarrow> string \<Rightarrow> string \<Rightarrow> rat option \<Rightarrow> bool" where
  "requires_mediation c db x y threshold \<longleftrightarrow> get_affinity c db x y < nullish threshold (ac_low_threshold c)"

record affinity_bond =
  ab_agents :: "string \<times> string"
  ab_row :: bond_row

definition get_bond :: "affinity_config \<Rightarrow> affinity_db \<Rightarrow> string \<Rightarrow> string \<Rightarrow> affinity_bond" where
  "get_bond c db x y =
     (let p = normalize_pair x y;
          synthesized = \<lparr>ab_agents = p, ab_row = \<lparr>br_affinity = ac_default c, br_seed = None,
                          br_last_interaction = None, br_count = None, br_updated = None\<rparr>\<rparr>
      in case Option.bind (khala db) (\<lambda>t. js_get t p) of
           Some row \<Rightarrow> \<lparr>ab_agents = p, ab_row = row\<rparr>
         | None \<Rightarrow> synthesized)"

section \<open>Updating\<close>

text \<open>
  An inserted row: the optional columns that are not written get the column's default, which is
  \<open>NULL\<close> but for \<open>updated_at\<close> (the time of the insertion, \<open>sql_now\<close>).
\<close>

definition ensure_bond :: "affinity_config \<Rightarrow> int \<Rightarrow> string \<Rightarrow> string \<Rightarrow> affinity_db \<Rightarrow> affinity_db" where
  "ensure_bond c sql_now x y db =
     (if ac_readonly c then db
      else case khala db of
        None \<Rightarrow> db
      | Some t \<Rightarrow>
          (let p = normalize_pair x y; a = clamp (ac_default c) (ac_min c) (ac_max c); k = khala_cols db in
           if js_has t p then db
           else db\<lparr>khala := Some (js_set p
             \<lparr>br_affinity = a, br_seed = (if kc_seed k then Some a else None), br_last_interaction = None,
              br_count = (if kc_count k then Some 0 else None),
              br_updated = (if kc_updated k then Some sql_now else None)\<rparr> t)\<rparr>))"

record affinity_update =
  au_delta :: rat
  au_reason :: string
  au_interaction :: "string option"
  au_mission :: "string option"
  au_now :: int

definition touch_row :: "khala_columns \<Rightarrow> int \<Rightarrow> int \<Rightarrow> rat \<Rightarrow> bond_row \<Rightarrow> bond_row" where
  "touch_row k now sql_now a row =
     row\<lparr>br_affinity := a,
         br_last_interaction := (if kc_last_interaction k then Some now else br_last_interaction row),
         br_count := (if kc_count k then Some (nullish (br_count row) 0 + 1) else br_count row),
         br_updated := (if kc_updated k then Some sql_now else br_updated row)\<rparr>"

definition drift_row :: "drift_columns \<Rightarrow> string \<times> string \<Rightarrow> rat \<Rightarrow> rat \<Rightarrow> affinity_update \<Rightarrow> drift_entry" where
  "drift_row d p old new u =
     \<lparr>de_pair = p, de_old = old, de_new = new, de_delta = new - old, de_reason = au_reason u,
      de_interaction = (if dc_interaction d then au_interaction u else None),
      de_mission = (if dc_mission d then au_mission u else None),
      de_created = (if dc_created d then Some (au_now u) else None)\<rparr>"

text \<open>The two statements of the transaction take effect together.\<close>

definition update_affinity ::
  "affinity_config \<Rightarrow> int \<Rightarrow> string \<Rightarrow> string \<Rightarrow> affinity_update \<Rightarrow> affinity_db \<Rightarrow> affinity_db \<times> rat" where
  "update_affinity c sql_now x y u db0 =
     (if ac_readonly c \<or> khala db0 = None then
        (db0, clamp (get_affinity c db0 x y + au_delta u) (ac_min c) (ac_max c))
      else
        (let p = normalize_pair x y;
             db = ensure_bond c sql_now (fst p) (snd p) db0;
             t = nullish (khala db) [];
             old = (case js_get t p of Some row \<Rightarrow> br_affinity row | None \<Rightarrow> ac_default c);
             new = clamp (old + au_delta u) (ac_min c) (ac_max c);
             t' = (case js_get t p of Some row \<Rightarrow> js_set p (touch_row (khala_cols db) (au_now u) sql_now new row) t
                   | None \<Rightarrow> t);
             d' = (if dc_required (drift_cols db)
                   then map_option (\<lambda>es. es @ [drift_row (drift_cols db) p old new u]) (drift db)
                   else drift db)
         in (db\<lparr>khala := Some t', drift := d'\<rparr>, new)))"

definition record_handoff_outcome ::
  "affinity_config \<Rightarrow> int \<Rightarrow> string \<Rightarrow> string \<Rightarrow> bool \<Rightarrow> string option \<Rightarrow> string option \<Rightarrow> int \<Rightarrow> affinity_db
   \<Rightarrow> affinity_db \<times> rat" where
  "record_handoff_outcome c sql_now from to success reason mission now =
     update_affinity c sql_now from to
       \<lparr>au_delta = (if success then ac_handoff_success c else ac_handoff_failure c),
        au_reason = nullish reason (if success then ''Successful handoff'' else ''Fumbled handoff''),
        au_interaction = Some ''handoff'', au_mission = mission, au_now = now\<rparr>"

definition record_collaboration ::
  "affinity_config \<Rightarrow> int \<Rightarrow> string \<Rightarrow> string \<Rightarrow> bool \<Rightarrow> string option \<Rightarrow> int \<Rightarrow> affinity_db \<Rightarrow> affinity_db \<times> rat" where
  "record_collaboration c sql_now x y success reason now =
     update_affinity c sql_now x y
       \<lparr>au_delta = (if success then ac_collaboration c else ac_conflict c),
        au_reason = nullish reason (if success then ''Successful collaboration'' else ''Unresolved conflict (stalemate)''),
        au_interaction = Some (if success then ''collaboration'' else ''conflict''), au_mission = None, au_now = now\<rparr>"

section \<open>Statistics\<close>

text \<open>\<open>[...new Set(xs)]\<close> keeps the first occurrence of every element.\<close>

definition js_unique :: "'a list \<Rightarrow> 'a list" where
  "js_unique xs = rev (remdups (rev xs))"

fun pairs_of :: "'a list \<Rightarrow> ('a \<times> 'a) list" where
  "pairs_of [] = []"
| "pairs_of (x # xs) = map (Pair x) xs @ pairs_of xs"

definition pair_text :: "string \<times> string \<Rightarrow> string" where
  "pair_text p = fst p @ '':'' @ snd p"

definition norm :: "string \<times> string \<Rightarrow> string \<times> string" where
  "norm p = normalize_pair (fst p) (snd p)"

text \<open>One \<open>SELECT\<close> per 400 pairs; \<open>rows\<close> holds the key and the affinity of every row of the table.\<close>

function batch_fetch ::
  "(string \<times> string) list \<Rightarrow> ((string \<times> string) \<times> rat) list \<Rightarrow> (string, rat) jsmap \<Rightarrow> (string, rat) jsmap" where
  "batch_fetch ps rows result =
     (if ps = [] then result
      else batch_fetch (drop 400 ps) rows
             (fold (\<lambda>(p, a). js_set (pair_text p) a) (filter (\<lambda>(p, a). p \<in> set (take 400 ps)) rows) result))"
  by pat_completeness auto
termination
  by (relation "measure (length \<circ> fst)") auto

declare batch_fetch.simps [simp del]

definition khala_rows :: "(string \<times> string, bond_row) jsmap \<Rightarrow> ((string \<times> string) \<times> rat) list" where
  "khala_rows t = map (\<lambda>(p, row). (p, br_affinity row)) t"

definition defaults_of :: "affinity_config \<Rightarrow> (string \<times> string) list \<Rightarrow> (string, rat) jsmap" where
  "defaults_of c ps = fold (\<lambda>p. js_set (pair_text p) (ac_default c)) ps []"

definition get_affinities_batch ::
  "affinity_config \<Rightarrow> affinity_db \<Rightarrow> (string \<times> string) list \<Rightarrow> (string, rat) jsmap" where
  "get_affinities_batch c db pairs =
     (let ps = map norm pairs; result = defaults_of c ps in
      case khala db of
        Some t \<Rightarrow> batch_fetch ps (khala_rows t) result
      | None \<Rightarrow> (case psionic db of Some t \<Rightarrow> batch_fetch ps t result | None \<Rightarrow> result))"

definition get_legacy_affinities_batch ::
  "affinity_config \<Rightarrow> affinity_db \<Rightarrow> (string \<times> string) list \<Rightarrow> (string, rat) jsmap" where
  "get_legacy_affinities_batch c db pairs =
     (let ps = map norm pairs; result = defaults_of c ps in
      case psionic db of Some t \<Rightarrow> batch_fetch ps t result | None \<Rightarrow> result)"

record affinity_stats =
  as_average :: rat
  as_lowest :: rat
  as_lowest_pair :: "string \<times> string"
  as_pair_count :: nat

text \<open>The running minimum: the first pair of the lowest affinity wins.\<close>

fun lowest_of :: "(string \<times> string) \<times> rat \<Rightarrow> ((string \<times> string) \<times> rat) list \<Rightarrow> (string \<times> string) \<times> rat" where
  "lowest_of best [] = best"
| "lowest_of best (x # xs) = lowest_of (if snd x < snd best then x else best) xs"

definition compute_stats :: "affinity_config \<Rightarrow> affinity_db \<Rightarrow> string list \<Rightarrow> affinity_stats" where
  "compute_stats c db participants =
     (let unique = filter (\<lambda>p. p \<noteq> []) (js_unique participants);
          m = get_affinities_batch c db (pairs_of unique);
          pairs = map (\<lambda>p. (p, nullish (js_get m (pair_text (norm p))) (ac_default c))) (pairs_of unique)
      in case pairs of
           [] \<Rightarrow> \<lparr>as_average = ac_default c, as_lowest = ac_default c,
                  as_lowest_pair = (case unique of [] \<Rightarrow> (''unknown'', ''unknown'')
                                    | [x] \<Rightarrow> (x, ''unknown'') | x # y # _ \<Rightarrow> (x, y)),
                  as_pair_count = 0\<rparr>
         | p # ps \<Rightarrow>
             (let best = lowest_of p ps in
              \<lparr>as_average = sum_list (map snd pairs) / of_nat (length pairs), as_lowest = snd best,
               as_lowest_pair = fst best, as_pair_count = length pairs\<rparr>))"

section \<open>Pairs and their texts\<close>

lemma norm_comm: "normalize_pair a b = normalize_pair b a"
  by (auto simp: normalize_pair_def)

lemma norm_idem [simp]: "norm (normalize_pair a b) = normalize_pair a b"
  by (auto simp: norm_def normalize_pair_def)

lemma get_affinity_comm: "get_affinity c db x y = get_affinity c db y x"
  by (simp add: get_affinity_def norm_comm [of x y])

text \<open>The text of a pair determines the pair when the names hold no colon.\<close>

definition plain :: "string \<Rightarrow> bool" where
  "plain s \<longleftrightarrow> CHR '':'' \<notin> set s"

lemma pair_text_inj:
  assumes "plain (fst p)" "plain (fst q)" "pair_text p = pair_text q"
  shows "p = q"
proof -
  have take: "takeWhile (\<lambda>x. x \<noteq> CHR '':'') (pair_text r) = fst r" if "plain (fst r)" for r
    using that unfolding pair_text_def plain_def
    by (subst takeWhile_append2) auto
  have "fst p = fst q" using take [OF assms(1)] take [OF assms(2)] assms(3) by simp
  then show ?thesis using assms(3) by (cases p; cases q) (simp add: pair_text_def)
qed

lemma plain_norm: "plain (fst p) \<Longrightarrow> plain (snd p) \<Longrightarrow> plain (fst (norm p))"
  by (simp add: norm_def normalize_pair_def)

section \<open>The batch query\<close>

text \<open>What an entry holds after the rows of some pairs are put: the row of that key, if it is asked for.\<close>

lemma js_get_fold_rows:
  assumes "\<And>q a. (q, a) \<in> set rows \<Longrightarrow> plain (fst q)" "plain (fst p)" "distinct (map fst rows)"
  shows "js_get (fold (\<lambda>(q, a). js_set (pair_text q) a) rows m) (pair_text p) =
     nullish_opt (js_get rows p) (js_get m (pair_text p))"
  using assms(1, 3)
proof (induction rows arbitrary: m)
  case (Cons r rows)
  obtain q a where r: "r = (q, a)" by (cases r)
  have IH: "js_get (fold (\<lambda>(q, a). js_set (pair_text q) a) rows m) (pair_text p) =
     nullish_opt (js_get rows p) (js_get m (pair_text p))" for m
    using Cons.prems by (intro Cons.IH) auto
  have "p = q \<longleftrightarrow> pair_text p = pair_text q"
    using pair_text_inj [of p q] Cons.prems(1) [of q a] assms(2) r by auto
  moreover have "js_get rows p = None" if "p = q"
    using Cons.prems(2) r that by (auto simp: js_get_None_iff)
  ultimately show ?case by (auto simp: r IH)
qed simp

lemma js_get_filter_keys: "js_get (filter (\<lambda>(q, a). q \<in> S) rows) p = (if p \<in> S then js_get rows p else None)"
  by (induction rows) auto

lemma batch_fetch_get:
  assumes "list_all (\<lambda>q. plain (fst q)) ps" "distinct (map fst rows)" "plain (fst p)"
  shows "js_get (batch_fetch ps rows m) (pair_text p) =
     (if p \<in> set ps then nullish_opt (js_get rows p) (js_get m (pair_text p)) else js_get m (pair_text p))"
  using assms(1, 2)
proof (induction ps rows m rule: batch_fetch.induct)
  case (1 ps rows m)
  show ?case
  proof (cases "ps = []")
    case False
    let ?chunk = "filter (\<lambda>(q, a). q \<in> set (take 400 ps)) rows"
    let ?m = "fold (\<lambda>(q, a). js_set (pair_text q) a) ?chunk m"
    have ps: "set ps = set (take 400 ps) \<union> set (drop 400 ps)"
      by (metis append_take_drop_id set_append)
    have "list_all (\<lambda>q. plain (fst q)) (drop 400 ps)"
      using 1(2) by (auto simp: list_all_iff dest: in_set_dropD)
    then have IH: "js_get (batch_fetch (drop 400 ps) rows ?m) (pair_text p) =
        (if p \<in> set (drop 400 ps) then nullish_opt (js_get rows p) (js_get ?m (pair_text p)) else js_get ?m (pair_text p))"
      using 1(1) [OF False] 1(3) by blast
    have "js_get ?m (pair_text p) = nullish_opt (js_get ?chunk p) (js_get m (pair_text p))"
      using 1(2, 3) assms(3)
      by (intro js_get_fold_rows distinct_map_filter) (auto simp: list_all_iff dest: in_set_takeD)
    then have m: "js_get ?m (pair_text p) =
        (if p \<in> set (take 400 ps) then nullish_opt (js_get rows p) (js_get m (pair_text p)) else js_get m (pair_text p))"
      by (simp add: js_get_filter_keys)
    have "js_get (batch_fetch ps rows m) (pair_text p) = js_get (batch_fetch (drop 400 ps) rows ?m) (pair_text p)"
      using False by (simp add: batch_fetch.simps [of ps])
    also have "\<dots> = (if p \<in> set ps then nullish_opt (js_get rows p) (js_get m (pair_text p)) else js_get m (pair_text p))"
      unfolding IH m using ps by (cases "js_get rows p") auto
    finally show ?thesis .
  qed (simp add: batch_fetch.simps)
qed

lemma defaults_get: "p \<in> set ps \<Longrightarrow> js_get (defaults_of c ps) (pair_text p) = Some (ac_default c)"
proof -
  have "js_get (fold (\<lambda>p. js_set (pair_text p) (ac_default c)) ps m) (pair_text p) =
      (if pair_text p \<in> pair_text ` set ps then Some (ac_default c) else js_get m (pair_text p))" for m
    by (induction ps arbitrary: m) auto
  then show "p \<in> set ps \<Longrightarrow> ?thesis" by (simp add: defaults_of_def)
qed

text \<open>The tables have a unique key, and no name holds a colon.\<close>

definition tables_keyed :: "affinity_db \<Rightarrow> bool" where
  "tables_keyed db \<longleftrightarrow>
     (case khala db of Some t \<Rightarrow> distinct (map fst t) | None \<Rightarrow> True) \<and>
     (case psionic db of Some t \<Rightarrow> distinct (map fst t) | None \<Rightarrow> True)"

lemma map_fst_khala_rows: "map fst (khala_rows t) = map fst t"
  by (simp add: khala_rows_def comp_def case_prod_unfold)

lemma js_get_khala_rows: "js_get (khala_rows t) p = map_option br_affinity (js_get t p)"
  by (simp add: khala_rows_def)

lemma batch_matches_single:
  assumes "tables_keyed db" "list_all (\<lambda>q. plain (fst q) \<and> plain (snd q)) pairs" "p \<in> set pairs"
  shows "js_get (get_affinities_batch c db pairs) (pair_text (norm p)) = Some (get_affinity c db (fst p) (snd p))"
proof -
  have ps: "list_all (\<lambda>q. plain (fst q)) (map norm pairs)" "norm p \<in> set (map norm pairs)" "plain (fst (norm p))"
    using assms(2, 3) by (auto simp: list_all_iff intro!: plain_norm)
  have norm: "normalize_pair (fst p) (snd p) = norm p" by (simp add: norm_def)
  show ?thesis
  proof (cases "khala db")
    case None
    with assms(1) ps show ?thesis
      by (cases "psionic db"; cases "js_get (the (psionic db)) (norm p)")
        (auto simp: get_affinities_batch_def get_affinity_def norm batch_fetch_get defaults_get tables_keyed_def Let_def)
  next
    case (Some t)
    with assms(1) ps show ?thesis
      by (cases "js_get t (norm p)")
        (auto simp: get_affinities_batch_def get_affinity_def norm batch_fetch_get defaults_get tables_keyed_def
          map_fst_khala_rows js_get_khala_rows Let_def)
  qed
qed

section \<open>Runs of updates\<close>

datatype affinity_op =
    UpdateOp string string affinity_update
  | HandoffOp string string bool "string option" "string option" int
  | CollaborationOp string string bool "string option" int
  | EnsureOp string string

fun run_affinity_op :: "affinity_config \<Rightarrow> int \<Rightarrow> affinity_op \<Rightarrow> affinity_db \<Rightarrow> affinity_db" where
  "run_affinity_op c sql_now (UpdateOp x y u) db = fst (update_affinity c sql_now x y u db)"
| "run_affinity_op c sql_now (HandoffOp x y ok reason mission now) db =
     fst (record_handoff_outcome c sql_now x y ok reason mission now db)"
| "run_affinity_op c sql_now (CollaborationOp x y ok reason now) db =
     fst (record_collaboration c sql_now x y ok reason now db)"
| "run_affinity_op c sql_now (EnsureOp x y) db = ensure_bond c sql_now x y db"

definition run_affinity :: "affinity_config \<Rightarrow> (int \<times> affinity_op) list \<Rightarrow> affinity_db \<Rightarrow> affinity_db" where
  "run_affinity c ops db = fold (\<lambda>(sql_now, q). run_affinity_op c sql_now q) ops db"

text \<open>A configuration whose default lies between its bounds.\<close>

definition sane_config :: "affinity_config \<Rightarrow> bool" where
  "sane_config c \<longleftrightarrow> \<not> ac_readonly c \<and> ac_min c \<le> ac_default c \<and> ac_default c \<le> ac_max c"

definition within_bounds :: "affinity_config \<Rightarrow> affinity_db \<Rightarrow> bool" where
  "within_bounds c db \<longleftrightarrow> (\<forall>x y. ac_min c \<le> get_affinity c db x y \<and> get_affinity c db x y \<le> ac_max c)"

definition drift_sum :: "string \<times> string \<Rightarrow> drift_entry list \<Rightarrow> rat" where
  "drift_sum p es = sum_list (map de_delta (filter (\<lambda>e. de_pair e = p) es))"

lemma clamp_bounds: "sane_config c \<Longrightarrow> ac_min c \<le> clamp x (ac_min c) (ac_max c) \<and> clamp x (ac_min c) (ac_max c) \<le> ac_max c"
  by (auto simp: sane_config_def clamp_def)

lemma clamp_default: "sane_config c \<Longrightarrow> clamp (ac_default c) (ac_min c) (ac_max c) = ac_default c"
  by (auto simp: sane_config_def clamp_def)

lemma drift_sum_simps [simp]:
  "drift_sum p [] = 0"
  "drift_sum p (es @ es') = drift_sum p es + drift_sum p es'"
  "drift_sum p [drift_row d q old new u] = (if p = q then new - old else 0)"
  by (auto simp: drift_sum_def drift_row_def)

lemma ensure_bond_facts:
  assumes "sane_config c"
  shows "get_affinity c (ensure_bond c now x y db) x' y' = get_affinity c db x' y'"
    and "drift (ensure_bond c now x y db) = drift db"
    and "drift_cols (ensure_bond c now x y db) = drift_cols db"
    and "khala (ensure_bond c now x y db) = None \<longleftrightarrow> khala db = None"
  using assms clamp_default [OF assms]
  by (auto simp: ensure_bond_def get_affinity_def js_has_def Let_def split: option.split)

lemma norm_pair [simp]: "normalize_pair (fst (normalize_pair x y)) (snd (normalize_pair x y)) = normalize_pair x y"
  using norm_idem by (simp add: norm_def)

lemma ensured:
  assumes "sane_config c" "khala db = Some t"
  obtains t' row where "khala (ensure_bond c now x y db) = Some t'" "js_get t' (normalize_pair x y) = Some row"
    "br_affinity row = get_affinity c db x y"
proof (cases "js_get t (normalize_pair x y)")
  case None
  then show ?thesis
    using assms clamp_default [OF assms(1)] that
    by (auto simp: ensure_bond_def get_affinity_def js_has_def sane_config_def Let_def)
next
  case (Some row)
  then show ?thesis
    using assms that by (auto simp: ensure_bond_def get_affinity_def js_has_def sane_config_def Let_def)
qed

lemma update_affinity_facts:
  fixes x y :: string
  assumes "sane_config c" "khala db = Some t"
    and new: "new = clamp (get_affinity c db x y + au_delta u) (ac_min c) (ac_max c)"
  shows "get_affinity c (fst (update_affinity c now x y u db)) x' y' =
      (if normalize_pair x' y' = normalize_pair x y then new else get_affinity c db x' y')"
    and "drift (fst (update_affinity c now x y u db)) =
      (if dc_required (drift_cols db)
       then map_option (\<lambda>es. es @ [drift_row (drift_cols db) (normalize_pair x y) (get_affinity c db x y) new u]) (drift db)
       else drift db)"
    and "drift_cols (fst (update_affinity c now x y u db)) = drift_cols db"
    and "khala (fst (update_affinity c now x y u db)) \<noteq> None"
    and "snd (update_affinity c now x y u db) = new"
proof -
  let ?p = "normalize_pair x y"
  let ?db = "ensure_bond c now (fst ?p) (snd ?p) db"
  obtain t' row where t': "khala ?db = Some t'" "js_get t' ?p = Some row" "br_affinity row = get_affinity c db x y"
    using ensured [OF assms(1, 2), of now "fst ?p" "snd ?p"] by (auto simp: get_affinity_def)
  note facts = ensure_bond_facts [OF assms(1), of now "fst ?p" "snd ?p" db]
  have upd: "update_affinity c now x y u db =
      (?db\<lparr>khala := Some (js_set ?p (touch_row (khala_cols ?db) (au_now u) now new row) t'),
           drift := (if dc_required (drift_cols db)
             then map_option (\<lambda>es. es @ [drift_row (drift_cols db) ?p (get_affinity c db x y) new u]) (drift db)
             else drift db)\<rparr>, new)"
    using assms(1, 2) t' facts by (simp add: update_affinity_def sane_config_def Let_def new)
  have "get_affinity c ?db x' y' = get_affinity c db x' y'" by (rule facts(1))
  then show "get_affinity c (fst (update_affinity c now x y u db)) x' y' =
      (if normalize_pair x' y' = ?p then new else get_affinity c db x' y')"
    using t'(1) by (simp add: upd get_affinity_def touch_row_def split: option.splits)
  show "drift (fst (update_affinity c now x y u db)) =
      (if dc_required (drift_cols db)
       then map_option (\<lambda>es. es @ [drift_row (drift_cols db) ?p (get_affinity c db x y) new u]) (drift db)
       else drift db)"
    "drift_cols (fst (update_affinity c now x y u db)) = drift_cols db"
    "khala (fst (update_affinity c now x y u db)) \<noteq> None"
    "snd (update_affinity c now x y u db) = new"
    by (simp_all add: upd facts)
qed

text \<open>The update an operation performs, if it is not a mere insertion.\<close>

fun op_update :: "affinity_config \<Rightarrow> affinity_op \<Rightarrow> (string \<times> string \<times> affinity_update) option" where
  "op_update c (UpdateOp x y u) = Some (x, y, u)"
| "op_update c (HandoffOp x y ok reason mission now) = Some (x, y,
     \<lparr>au_delta = (if ok then ac_handoff_success c else ac_handoff_failure c),
      au_reason = nullish reason (if ok then ''Successful handoff'' else ''Fumbled handoff''),
      au_interaction = Some ''handoff'', au_mission = mission, au_now = now\<rparr>)"
| "op_update c (CollaborationOp x y ok reason now) = Some (x, y,
     \<lparr>au_delta = (if ok then ac_collaboration c else ac_conflict c),
      au_reason = nullish reason (if ok then ''Successful collaboration'' else ''Unresolved conflict (stalemate)''),
      au_interaction = Some (if ok then ''collaboration'' else ''conflict''), au_mission = None, au_now = now\<rparr>)"
| "op_update c (EnsureOp x y) = None"

lemma run_affinity_op_update:
  "run_affinity_op c now q db =
     (case op_update c q of Some (x, y, u) \<Rightarrow> fst (update_affinity c now x y u db)
      | None \<Rightarrow> (case q of EnsureOp x y \<Rightarrow> ensure_bond c now x y db | _ \<Rightarrow> db))"
  by (cases q) (simp_all add: record_handoff_outcome_def record_collaboration_def)

text \<open>What a run keeps: bounds, a recorded drift, and the balance of every pair with its drift.\<close>

definition ledger ::
  "affinity_config \<Rightarrow> affinity_db \<Rightarrow> drift_entry list \<Rightarrow> affinity_db \<Rightarrow> drift_entry list \<Rightarrow> bool" where
  "ledger c db es0 db' es \<longleftrightarrow>
     khala db' \<noteq> None \<and> dc_required (drift_cols db') \<and> drift db' = Some (es0 @ es) \<and> within_bounds c db' \<and>
     (\<forall>x y. get_affinity c db' x y = get_affinity c db x y + drift_sum (normalize_pair x y) es)"

lemma ledger_op:
  assumes "sane_config c" "ledger c db es0 db' es"
  shows "\<exists>es'. ledger c db es0 (run_affinity_op c now q db') (es @ es') \<and>
    length es' = (if op_update c q = None then 0 else 1)"
proof (cases "op_update c q")
  case None
  then obtain x y where "q = EnsureOp x y" by (cases q) auto
  then show ?thesis
    using assms ensure_bond_facts [OF assms(1)]
    by (intro exI [of _ "[]"]) (auto simp: ledger_def within_bounds_def)
next
  case (Some w)
  obtain x y u where w: "w = (x, y, u)" by (cases w)
  obtain t where t: "khala db' = Some t" using assms(2) by (auto simp: ledger_def)
  let ?new = "clamp (get_affinity c db' x y + au_delta u) (ac_min c) (ac_max c)"
  let ?e = "drift_row (drift_cols db') (normalize_pair x y) (get_affinity c db' x y) ?new u"
  let ?db = "fst (update_affinity c now x y u db')"
  note facts = update_affinity_facts [where x = x and y = y and u = u and now = now, OF assms(1) t refl]
  have same: "get_affinity c db' x' y' = get_affinity c db' x y" if "normalize_pair x' y' = normalize_pair x y" for x' y'
    using that by (simp add: get_affinity_def)
  have "within_bounds c ?db"
    using assms(2) clamp_bounds [OF assms(1)] by (auto simp: within_bounds_def facts(1) ledger_def)
  moreover have "get_affinity c ?db x' y' = get_affinity c db x' y' + drift_sum (normalize_pair x' y') (es @ [?e])" for x' y'
  proof -
    have "get_affinity c db' x' y' = get_affinity c db x' y' + drift_sum (normalize_pair x' y') es"
      using assms(2) unfolding ledger_def by blast
    then show ?thesis
      using same [of x' y'] by (cases "normalize_pair x' y' = normalize_pair x y") (simp_all add: facts(1))
  qed
  moreover have "drift ?db = Some (es0 @ es @ [?e])"
    using assms(2) by (simp add: facts(2) ledger_def)
  ultimately have "ledger c db es0 ?db (es @ [?e])"
    using assms(2) facts(3, 4) by (simp add: ledger_def)
  then show ?thesis
    using Some w by (intro exI [of _ "[?e]"]) (simp add: run_affinity_op_update)
qed

lemma ledger_run:
  assumes "sane_config c" "ledger c db es0 db' es"
  shows "\<exists>es'. ledger c db es0 (run_affinity c ops db') (es @ es') \<and>
    length es' = length (filter (\<lambda>(now, q). op_update c q \<noteq> None) ops)"
  using assms(2)
proof (induction ops arbitrary: db' es)
  case Nil
  then show ?case by (intro exI [of _ "[]"]) (simp add: run_affinity_def)
next
  case (Cons w ops)
  obtain now q where w: "w = (now, q)" by (cases w)
  obtain e1 where e1: "ledger c db es0 (run_affinity_op c now q db') (es @ e1)"
      "length e1 = (if op_update c q = None then 0 else 1)"
    using ledger_op [OF assms(1) Cons.prems] by blast
  obtain e2 where e2: "ledger c db es0 (run_affinity c ops (run_affinity_op c now q db')) ((es @ e1) @ e2)"
      "length e2 = length (filter (\<lambda>(now, q). op_update c q \<noteq> None) ops)"
    using Cons.IH [OF e1(1)] by blast
  have "ledger c db es0 (run_affinity c (w # ops) db') (es @ e1 @ e2)"
    using e2(1) w by (simp add: run_affinity_def)
  then show ?case using e1(2) e2(2) w by (intro exI [of _ "e1 @ e2"]) auto
qed

section \<open>Properties\<close>

text \<open>
  The drift history accounts for the affinities. Whatever updates, handoff and collaboration
  outcomes and insertions follow each other on a database whose affinities lie in the configured
  bounds, they stay in the bounds, every update adds one entry to the history, and the affinity of
  every pair is the one it started with plus the deltas of its new entries.
\<close>

theorem drift_history_explains_affinity:
  assumes "sane_config c" "khala db = Some t" "within_bounds c db" "drift db = Some es0" "dc_required (drift_cols db)"
  shows "\<exists>es. drift (run_affinity c ops db) = Some (es0 @ es) \<and>
     length es = length (filter (\<lambda>(now, q). op_update c q \<noteq> None) ops) \<and>
     within_bounds c (run_affinity c ops db) \<and>
     (\<forall>x y. get_affinity c (run_affinity c ops db) x y =
        get_affinity c db x y + drift_sum (normalize_pair x y) es)"
proof -
  have "ledger c db es0 db []" using assms by (simp add: ledger_def)
  from ledger_run [OF assms(1) this, of ops] show ?thesis by (auto simp: ledger_def)
qed

definition sample_db :: affinity_db where
  "sample_db = \<lparr>khala = Some [((''aria'', ''zed''), \<lparr>br_affinity = 5 / 10, br_seed = None, br_last_interaction = None,
       br_count = Some 2, br_updated = None\<rparr>)],
     khala_cols = \<lparr>kc_seed = True, kc_last_interaction = True, kc_count = True, kc_updated = False\<rparr>,
     drift = Some [], drift_cols = \<lparr>dc_required = True, dc_interaction = True, dc_mission = False, dc_created = True\<rparr>,
     psionic = None\<rparr>"

definition sample_affinity_ops :: "(int \<times> affinity_op) list" where
  "sample_affinity_ops = [(1, HandoffOp ''zed'' ''aria'' True None None 1), (2, EnsureOp ''aria'' ''bo''),
     (3, CollaborationOp ''bo'' ''zed'' False None 3), (4, HandoffOp ''aria'' ''zed'' False None None 4)]"

theorem drift_history_explains_affinity_witness:
  "\<exists>es. drift (run_affinity default_affinity_config sample_affinity_ops sample_db) = Some es \<and> length es = 3 \<and>
     get_affinity default_affinity_config (run_affinity default_affinity_config sample_affinity_ops sample_db) ''zed'' ''bo'' =
       7 / 10 + drift_sum (''bo'', ''zed'') es"
proof -
  have sane: "sane_config default_affinity_config"
    by (simp add: sane_config_def default_affinity_config_def)
  have keys: "khala sample_db = Some [((''aria'', ''zed''), \<lparr>br_affinity = 5 / 10, br_seed = None,
      br_last_interaction = None, br_count = Some 2, br_updated = None\<rparr>)]"
    by (simp add: sample_db_def)
  have bounds: "within_bounds default_affinity_config sample_db"
    by (simp add: within_bounds_def get_affinity_def keys default_affinity_config_def Let_def)
  have drift: "drift sample_db = Some []" "dc_required (drift_cols sample_db)" by (simp_all add: sample_db_def)
  obtain es where es: "drift (run_affinity default_affinity_config sample_affinity_ops sample_db) = Some ([] @ es)"
      "length es = length (filter (\<lambda>(now, q). op_update default_affinity_config q \<noteq> None) sample_affinity_ops)"
      "\<And>x y. get_affinity default_affinity_config (run_affinity default_affinity_config sample_affinity_ops sample_db) x y =
        get_affinity default_affinity_config sample_db x y + drift_sum (normalize_pair x y) es"
    using drift_history_explains_affinity [OF sane keys bounds drift, of sample_affinity_ops] by blast
  have "length es = 3" using es(2) by (simp add: sample_affinity_ops_def)
  moreover have "get_affinity default_affinity_config sample_db ''zed'' ''bo'' = 7 / 10" by code_simp
  moreover have "normalize_pair ''zed'' ''bo'' = (''bo'', ''zed'')" by code_simp
  ultimately show ?thesis using es(1) es(3) [of "''zed''" "''bo''"] by simp
qed

section \<open>The statistics of a set of participants\<close>

lemma set_pairs_of: "(x, y) \<in> set (pairs_of xs) \<Longrightarrow> x \<in> set xs \<and> y \<in> set xs"
  by (induction xs) auto

lemma length_pairs_of: "2 * length (pairs_of xs) = length xs * (length xs - 1)"
proof (induction xs)
  case (Cons x xs)
  then show ?case by (cases xs) (auto simp: algebra_simps)
qed simp

lemma set_js_unique [simp]: "set (js_unique xs) = set xs"
  by (simp add: js_unique_def)

lemma lowest_of_min:
  "lowest_of b xs \<in> insert b (set xs) \<and> list_all (\<lambda>x. snd (lowest_of b xs) \<le> snd x) (b # xs)"
proof (induction xs arbitrary: b)
  case (Cons x xs)
  show ?case
  proof (cases "snd x < snd b")
    case True
    with Cons.IH [of x] show ?thesis by auto
  next
    case False
    with Cons.IH [of b] show ?thesis by auto
  qed
qed simp

definition affinity_of_pair :: "affinity_config \<Rightarrow> affinity_db \<Rightarrow> string \<times> string \<Rightarrow> rat" where
  "affinity_of_pair c db p = get_affinity c db (fst p) (snd p)"

lemma compute_stats_pairs:
  assumes "tables_keyed db" "list_all plain participants"
  defines "unique \<equiv> filter (\<lambda>p. p \<noteq> []) (js_unique participants)"
  assumes "pairs_of unique \<noteq> []"
  shows "\<exists>best. compute_stats c db participants =
      \<lparr>as_average = sum_list (map (affinity_of_pair c db) (pairs_of unique)) / of_nat (length (pairs_of unique)),
       as_lowest = affinity_of_pair c db best, as_lowest_pair = best, as_pair_count = length (pairs_of unique)\<rparr> \<and>
     best \<in> set (pairs_of unique) \<and>
     list_all (\<lambda>p. affinity_of_pair c db best \<le> affinity_of_pair c db p) (pairs_of unique)"
proof -
  let ?ps = "pairs_of unique"
  let ?pairs = "map (\<lambda>p. (p, affinity_of_pair c db p)) ?ps"
  have plain: "list_all (\<lambda>q. plain (fst q) \<and> plain (snd q)) ?ps"
    using assms(2) by (auto simp: list_all_iff unique_def dest!: set_pairs_of)
  have pairs: "map (\<lambda>p. (p, nullish (js_get (get_affinities_batch c db ?ps) (pair_text (norm p))) (ac_default c))) ?ps = ?pairs"
    using batch_matches_single [OF assms(1) plain] by (simp add: affinity_of_pair_def)
  obtain p ps where ps: "?pairs = p # ps" using assms(4) by (cases ?ps) auto
  let ?best = "lowest_of p ps"
  have best: "?best \<in> set ?pairs" "list_all (\<lambda>x. snd ?best \<le> snd x) ?pairs"
    using lowest_of_min [of p ps] unfolding ps by auto
  then have snd: "snd ?best = affinity_of_pair c db (fst ?best)" by auto
  have "compute_stats c db participants =
      \<lparr>as_average = sum_list (map snd ?pairs) / of_nat (length ?pairs), as_lowest = snd ?best,
       as_lowest_pair = fst ?best, as_pair_count = length ?pairs\<rparr>"
    unfolding compute_stats_def Let_def unique_def [symmetric] pairs ps by simp
  then show ?thesis
    using best unfolding snd
    by (intro exI [of _ "fst ?best"]) (auto simp: comp_def list_all_iff)
qed

text \<open>
  The statistics agree with the single lookups. For participants whose names hold no colon, on
  tables with unique keys, the batch query of the statistics, in its chunks of 400 pairs, gives the
  affinities the single lookups give: every unordered pair of distinct participants is counted once,
  the average is theirs, and the lowest pair has an affinity no pair falls below.
\<close>

theorem statistics_match_single_lookups:
  fixes participants :: "string list"
  assumes "tables_keyed db" "list_all plain participants"
    and unique: "unique = filter (\<lambda>p. p \<noteq> []) (js_unique participants)" and two: "2 \<le> length unique"
    and s: "s = compute_stats c db participants"
  shows "2 * as_pair_count s = length unique * (length unique - 1) \<and>
     as_average s * of_nat (as_pair_count s) = sum_list (map (affinity_of_pair c db) (pairs_of unique)) \<and>
     as_lowest_pair s \<in> set (pairs_of unique) \<and> as_lowest s = affinity_of_pair c db (as_lowest_pair s) \<and>
     list_all (\<lambda>p. as_lowest s \<le> affinity_of_pair c db p) (pairs_of unique)"
proof -
  have "pairs_of unique \<noteq> []" using two by (cases unique; cases "tl unique") auto
  then show ?thesis
    using compute_stats_pairs [OF assms(1, 2), of c] length_pairs_of [of unique]
    unfolding s unique [symmetric] by auto
qed

theorem statistics_match_single_lookups_witness:
  "as_pair_count (compute_stats default_affinity_config sample_db [''zed'', ''aria'', ''bo'', ''zed'']) = 3 \<and>
   as_lowest (compute_stats default_affinity_config sample_db [''zed'', ''aria'', ''bo'', ''zed'']) =
     affinity_of_pair default_affinity_config sample_db
       (as_lowest_pair (compute_stats default_affinity_config sample_db [''zed'', ''aria'', ''bo'', ''zed'']))"
proof -
  have u: "[''zed'', ''aria'', ''bo''] = filter (\<lambda>p. p \<noteq> []) (js_unique [''zed'', ''aria'', ''bo'', ''zed''])"
    by code_simp
  have k: "tables_keyed sample_db" by code_simp
  have p: "list_all plain [''zed'', ''aria'', ''bo'', ''zed'']" by code_simp
  from statistics_match_single_lookups [OF k p u _ refl, of default_affinity_config]
  show ?thesis by simp
qed

end
