(* ===== verification/Conversation.thy ===== *)
theory Conversation
  imports Mission_State Hitl Handoff Affinity
begin

text \<open>
  \<open>lib/conversation-engine.ts\<close> and \<open>lib/conversation-security.ts\<close>: conversations, their store, and the
  way of a message through turns, routing, mediation, the security pipeline, handoff validation and
  delivery. Rate limiter, HITL engine, handoff validator and affinity manager are the models of
  their own theories. Parameters stand for the sanitizer, the heuristic bans and the voice rules
  (functions of the text), the role cards, and the summarizer an engine is given. Every operation
  runs under the lock of its conversation and is one step; logging is left out.
\<close>

section \<open>Messages and conversations\<close>

datatype conversation_status = ActiveConv | PausedConv | ApprovalConv | ClosedConv

record conversation_config =
  cf_enforce_turns :: bool
  cf_max_context :: int
  cf_summary_trigger :: nat
  cf_chunk_size :: nat
  cf_discard_content :: bool
  cf_chars_per_token :: rat
  cf_mediation_threshold :: rat
  cf_mediator :: string

definition default_conversation_config :: conversation_config where
  "default_conversation_config = \<lparr>cf_enforce_turns = True, cf_max_context = 25, cf_summary_trigger = 60,
     cf_chunk_size = 30, cf_discard_content = False, cf_chars_per_token = 4,
     cf_mediation_threshold = 5 / 10, cf_mediator = ''echo''\<rparr>"

record conversation_summary =
  sm_id :: string
  sm_created :: int
  sm_covers :: "string list"
  sm_content :: string

record mediation =
  md_required :: bool
  md_routed_via :: "string option"
  md_original_to :: "string list option"
  md_affinity :: "rat option"

record security_summary =
  ss_injection :: rat
  ss_structure_valid :: bool
  ss_structure_errors :: "string list"
  ss_modified :: bool
  ss_redactions :: nat
  ss_rate_allowed :: bool
  ss_rate_type :: "limit_type option"
  ss_policy_warnings :: nat
  ss_voice_violations :: nat
  ss_hitl_action :: hitl_action
  ss_hitl_triggered :: bool
  ss_hitl_urgency :: hitl_urgency
  ss_hitl_triggers :: "string list"

datatype message_status = DeliveredMsg | BlockedMsg | RejectedMsg

record conversation_message =
  cm_id :: string
  cm_conversation :: string
  cm_from :: string
  cm_to :: "string list"
  cm_delivered_to :: "string list"
  cm_content :: string
  cm_created :: int
  cm_payload :: "json option"
  cm_handoff :: "handoff_result option"
  cm_mediation :: "mediation option"
  cm_security :: "security_summary option"
  cm_status :: message_status
  cm_reason :: "string option"

text \<open>A status reason is given by the caller, or joins the matched triggers with their reasons.\<close>

datatype status_reason = GivenReason "string option" | TriggerReasons "(string \<times> reason) list"

record conversation_state =
  cv_id :: string
  cv_created :: int
  cv_updated :: int
  cv_status :: conversation_status
  cv_status_reason :: status_reason
  cv_participants :: "string list"
  cv_turn :: string
  cv_token_budget :: int
  cv_tokens_used :: int
  cv_message_count :: nat
  cv_challenge_count :: nat
  cv_consecutive :: nat
  cv_scores :: "rat list"
  cv_policy_violations :: nat
  cv_voice_violations :: nat
  cv_average :: rat
  cv_lowest :: rat
  cv_lowest_pair :: "string \<times> string"
  cv_summaries :: "conversation_summary list"
  cv_messages :: "conversation_message list"
  cv_metadata :: json

section \<open>The store\<close>

text \<open>\<open>FileConversationStore\<close>: \<open>writeFile\<close> writes the file in place, it may be torn in between.\<close>

type_synonym conversation_fs = "(string, conversation_state content) jsmap"

definition unreadable :: thrown where
  "unreadable = ThrownError ''Unexpected end of JSON input'' ''SyntaxError''"

definition load_conversation :: "string \<Rightarrow> conversation_fs \<Rightarrow> string \<Rightarrow> thrown + conversation_state option" where
  "load_conversation dir fs i =
     (case js_get fs (file_path_for dir i) of
        None \<Rightarrow> Inr None
      | Some (Whole s) \<Rightarrow> Inr (Some s)
      | Some Torn \<Rightarrow> Inl unreadable)"

definition conversation_save_ops :: "string \<Rightarrow> conversation_state \<Rightarrow> conversation_state fs_op list" where
  "conversation_save_ops dir s =
     (let fp = file_path_for dir (cv_id s) in [OpenWrite fp, FinishWrite fp s])"

definition save_conversation :: "string \<Rightarrow> conversation_state \<Rightarrow> conversation_fs \<Rightarrow> conversation_fs" where
  "save_conversation dir s fs = fs_run (conversation_save_ops dir s) fs"

section \<open>Summaries and small helpers\<close>

definition truncate_text :: "string \<Rightarrow> nat \<Rightarrow> string" where
  "truncate_text s n = (if length s \<le> n then s else take (n - 1) s @ ''...'')"

definition slice_last :: "int \<Rightarrow> 'a list \<Rightarrow> 'a list" where
  "slice_last n xs = (if n > 0 then drop (length xs - nat n) xs else drop (nat (- n)) xs)"

definition bump :: "string \<Rightarrow> (string, nat) jsmap \<Rightarrow> (string, nat) jsmap" where
  "bump a m = js_set a (nullish (js_get m a) 0 + 1) m"

definition message_line :: "conversation_message \<Rightarrow> string" where
  "message_line m = ''- '' @ cm_from m @ '' -> '' @ join_with '', '' (cm_delivered_to m) @ '': '' @
     truncate_text (cm_content m) 120"

text \<open>\<open>SimpleHeuristicSummarizer.summarize\<close>; the arrow and the ellipsis are written in ASCII.\<close>

definition heuristic_summary :: "conversation_message list \<Rightarrow> string" where
  "heuristic_summary ms =
     (let n = length ms;
          observed = fold (\<lambda>m. bump (cm_from m)) ms [];
          top_lines = map message_line (take 3 ms);
          end_lines = map message_line (slice_last 3 ms)
      in join_with [CHR 0x0A]
           ([''Summary of '' @ show_nat n @ '' messages:'',
             ''Participants observed: '' @
               join_with '', '' (map (\<lambda>(a, c). a @ ''('' @ show_nat c @ '')'') observed)] @
            (if top_lines \<noteq> [] then ''First messages:'' # top_lines else []) @
            (if n > 6 then [''... ('' @ show_nat (n - 6) @ '' messages omitted) ...''] else []) @
            (if end_lines \<noteq> [] then ''Most recent messages in chunk:'' # end_lines else [])))"

definition estimate_tokens :: "string \<Rightarrow> rat \<Rightarrow> int" where
  "estimate_tokens content chars_per_token = max 1 \<lceil>of_nat (length content) / max 1 chars_per_token\<rceil>"

section \<open>The engine\<close>

record sanitized_message =
  sn_content :: string
  sn_injection :: rat
  sn_structure_valid :: bool
  sn_structure_errors :: "string list"
  sn_modified :: bool
  sn_redactions :: nat

record conversation_env =
  ce_dir :: string
  ce_config :: conversation_config
  ce_affinity :: affinity_config
  ce_sanitize :: "string \<Rightarrow> string list \<Rightarrow> string \<Rightarrow> sanitized_message"
  ce_heuristics :: "string \<Rightarrow> string \<Rightarrow> thrown + (string \<times> string) list"
  ce_voice :: "string \<Rightarrow> voice_violation list"
  ce_cards :: "string \<Rightarrow> thrown + role_card"
  ce_ajv :: "json \<Rightarrow> json \<Rightarrow> ajv_outcome"
  ce_show :: "json \<Rightarrow> string"
  ce_summarize :: "conversation_message list \<Rightarrow> string"

record conversation_world =
  cw_fs :: conversation_fs
  cw_limiter :: rate_limiter
  cw_hitl :: hitl_engine
  cw_affinity :: affinity_db

text \<open>What a call takes from its surroundings: generated ids and the readings of the clocks.\<close>

record call_inputs =
  ci_conversation_id :: string
  ci_message_id :: string
  ci_summary_id :: string
  ci_at :: "nat \<Rightarrow> int"
  ci_alert_clock :: "nat \<Rightarrow> int \<times> int"
  ci_sql_now :: int

record start_params =
  st_conversation :: "string option"
  st_participants :: "string list"
  st_turn :: "string option"
  st_token_budget :: "int option"
  st_metadata :: "json option"

datatype recipients = NoTo | ToOne string | ToMany "string list"

record send_params =
  sp_conversation :: string
  sp_from :: string
  sp_to :: recipients
  sp_content :: string
  sp_payload :: "json option"
  sp_challenge :: bool
  sp_override_turn :: bool

definition plain_error :: "string \<Rightarrow> thrown" where
  "plain_error msg = ThrownError msg ''Error''"

definition start_conversation ::
  "conversation_env \<Rightarrow> call_inputs \<Rightarrow> start_params \<Rightarrow> conversation_world
   \<Rightarrow> conversation_world \<times> (thrown + conversation_state)" where
  "start_conversation env ci p w =
     (let participants = filter (\<lambda>a. a \<noteq> []) (js_unique (st_participants p)) in
      if participants = [] then (w, Inl (plain_error ''participants must be non-empty''))
      else
        (let stats = compute_stats (ce_affinity env) (cw_affinity w) participants;
             s = \<lparr>cv_id = nullish (st_conversation p) (ci_conversation_id ci), cv_created = ci_at ci 0,
                  cv_updated = ci_at ci 1, cv_status = ActiveConv, cv_status_reason = GivenReason None,
                  cv_participants = participants, cv_turn = nullish (st_turn p) (hd participants),
                  cv_token_budget = nullish (st_token_budget p) 10000, cv_tokens_used = 0,
                  cv_message_count = 0, cv_challenge_count = 0, cv_consecutive = 0, cv_scores = [],
                  cv_policy_violations = 0, cv_voice_violations = 0, cv_average = as_average stats,
                  cv_lowest = as_lowest stats, cv_lowest_pair = as_lowest_pair stats,
                  cv_summaries = [], cv_messages = [], cv_metadata = nullish (st_metadata p) (JObject [])\<rparr>
         in (w\<lparr>cw_fs := save_conversation (ce_dir env) s (cw_fs w)\<rparr>, Inr s)))"

definition get_conversation ::
  "conversation_env \<Rightarrow> string \<Rightarrow> conversation_fs \<Rightarrow> thrown + conversation_state" where
  "get_conversation env i fs =
     (case load_conversation (ce_dir env) fs i of
        Inl e \<Rightarrow> Inl e
      | Inr None \<Rightarrow> Inl (plain_error (''Conversation not found: '' @ i))
      | Inr (Some s) \<Rightarrow> Inr s)"

record context_message =
  xm_from :: string
  xm_delivered_to :: "string list"
  xm_content :: string
  xm_created :: int
  xm_status :: message_status

record context_bundle =
  cb_id :: string
  cb_participants :: "string list"
  cb_status :: conversation_status
  cb_turn :: string
  cb_summaries :: "conversation_summary list"
  cb_recent :: "context_message list"

definition context_of_message :: "conversation_message \<Rightarrow> context_message" where
  "context_of_message m = \<lparr>xm_from = cm_from m, xm_delivered_to = cm_delivered_to m, xm_content = cm_content m,
     xm_created = cm_created m, xm_status = cm_status m\<rparr>"

definition get_context ::
  "conversation_env \<Rightarrow> string \<Rightarrow> int option \<Rightarrow> conversation_fs \<Rightarrow> thrown + context_bundle" where
  "get_context env i max_messages fs =
     (case get_conversation env i fs of
        Inl e \<Rightarrow> Inl e
      | Inr s \<Rightarrow>
          Inr \<lparr>cb_id = cv_id s, cb_participants = cv_participants s, cb_status = cv_status s, cb_turn = cv_turn s,
               cb_summaries = cv_summaries s,
               cb_recent = map context_of_message
                 (slice_last (nullish max_messages (cf_max_context (ce_config env))) (cv_messages s))\<rparr>)"

definition refresh_affinity ::
  "conversation_env \<Rightarrow> affinity_db \<Rightarrow> conversation_state \<Rightarrow> conversation_state" where
  "refresh_affinity env db s =
     (let stats = compute_stats (ce_affinity env) db (cv_participants s) in
      s\<lparr>cv_average := as_average stats, cv_lowest := as_lowest stats, cv_lowest_pair := as_lowest_pair stats\<rparr>)"

definition store_back ::
  "conversation_env \<Rightarrow> conversation_state \<Rightarrow> conversation_world \<Rightarrow> conversation_world" where
  "store_back env s w = w\<lparr>cw_fs := save_conversation (ce_dir env) s (cw_fs w)\<rparr>"

definition add_participant ::
  "conversation_env \<Rightarrow> call_inputs \<Rightarrow> string \<Rightarrow> string \<Rightarrow> conversation_world
   \<Rightarrow> conversation_world \<times> (thrown + conversation_state)" where
  "add_participant env ci i agent w =
     (case get_conversation env i (cw_fs w) of
        Inl e \<Rightarrow> (w, Inl e)
      | Inr s \<Rightarrow>
          (let s1 = (if agent \<in> set (cv_participants s) then s
                     else s\<lparr>cv_participants := cv_participants s @ [agent]\<rparr>);
               s2 = (refresh_affinity env (cw_affinity w) s1)\<lparr>cv_updated := ci_at ci 0\<rparr>
           in (store_back env s2 w, Inr s2)))"

definition set_conversation_status ::
  "conversation_env \<Rightarrow> call_inputs \<Rightarrow> string \<Rightarrow> conversation_status \<Rightarrow> string option \<Rightarrow> conversation_world
   \<Rightarrow> conversation_world \<times> (thrown + conversation_state)" where
  "set_conversation_status env ci i status why w =
     (case get_conversation env i (cw_fs w) of
        Inl e \<Rightarrow> (w, Inl e)
      | Inr s \<Rightarrow>
          (let s1 = s\<lparr>cv_status := status, cv_status_reason := GivenReason why, cv_updated := ci_at ci 0\<rparr>
           in (store_back env s1 w, Inr s1)))"

section \<open>The security pipeline\<close>

record pipeline_result =
  pr_sanitized :: sanitized_message
  pr_rate :: rate_limit_result
  pr_warnings :: "(string \<times> string) list"
  pr_voice :: "voice_violation list"
  pr_hitl :: hitl_check_result

definition signals_of :: "conversation_state \<Rightarrow> conversation_signals" where
  "signals_of s = \<lparr>cs_conversation_id = cv_id s, cs_challenge_count = int (cv_challenge_count s),
     cs_consecutive_challenges = int (cv_consecutive s), cs_lowest_affinity = cv_lowest s,
     cs_lowest_pair = cv_lowest_pair s, cs_token_budget = cv_token_budget s, cs_tokens_used = cv_tokens_used s,
     cs_injection_scores = cv_scores s\<rparr>"

definition non_agents :: "string list" where
  "non_agents = [''system'', ''user'', ''broadcast'']"

definition pipeline_check ::
  "conversation_state \<Rightarrow> string \<Rightarrow> sanitized_message \<Rightarrow> rate_limit_result \<Rightarrow> (string \<times> string) list
   \<Rightarrow> voice_violation list \<Rightarrow> message_check" where
  "pipeline_check s from sn rate warnings voice =
     \<lparr>mc_agent = from, mc_signals = signals_of s, mc_injection = sn_injection sn,
      mc_policy = Some (map (\<lambda>(rule, severity). \<lparr>pv_tier = ''heuristic'', pv_rule = rule, pv_severity = severity\<rparr>) warnings),
      mc_voice = Some voice, mc_rate = Some rate,
      mc_context = Some \<lparr>cx_conversation = Some (cv_id s), cx_agent = Some from, cx_injection = Some (sn_injection sn)\<rparr>\<rparr>"

text \<open>
  \<open>runOutboundSecurityPipeline\<close>. The rate limiter is asked first; loading the role card of the sender
  for the heuristic bans can throw, after which only the limiter has changed.
\<close>

definition run_pipeline ::
  "conversation_env \<Rightarrow> call_inputs \<Rightarrow> conversation_state \<Rightarrow> send_params \<Rightarrow> string list \<Rightarrow> conversation_world
   \<Rightarrow> conversation_world \<times> (thrown + pipeline_result)" where
  "run_pipeline env ci s p delivered_to w =
     (let from = sp_from p;
          sn = ce_sanitize env from delivered_to (sp_content p);
          target = (if sp_challenge p then (case delivered_to of [] \<Rightarrow> None | t # _ \<Rightarrow> Some t) else None);
          (rl, rate) = check_all from (cv_id s) (sp_challenge p) target (ci_at ci 0) (cw_limiter w);
          w1 = w\<lparr>cw_limiter := rl\<rparr>
      in case (if from \<in> set non_agents then Inr [] else ce_heuristics env from (sn_content sn)) of
           Inl e \<Rightarrow> (w1, Inl e)
         | Inr warnings \<Rightarrow>
             (let voice = ce_voice env (sn_content sn);
                  (h, _, hres) = check_message (ci_alert_clock ci) (pipeline_check s from sn rate warnings voice) (cw_hitl w)
              in (w1\<lparr>cw_hitl := h\<rparr>,
                  Inr \<lparr>pr_sanitized = sn, pr_rate = rate, pr_warnings = warnings, pr_voice = voice, pr_hitl = hres\<rparr>)))"

definition security_of :: "pipeline_result \<Rightarrow> security_summary" where
  "security_of r = \<lparr>ss_injection = sn_injection (pr_sanitized r), ss_structure_valid = sn_structure_valid (pr_sanitized r),
     ss_structure_errors = sn_structure_errors (pr_sanitized r), ss_modified = sn_modified (pr_sanitized r),
     ss_redactions = sn_redactions (pr_sanitized r), ss_rate_allowed = rl_allowed (pr_rate r),
     ss_rate_type = rl_limit_type (pr_rate r), ss_policy_warnings = length (pr_warnings r),
     ss_voice_violations = length (pr_voice r), ss_hitl_action = hc_action (pr_hitl r),
     ss_hitl_triggered = hc_triggered (pr_hitl r), ss_hitl_urgency = hc_urgency (pr_hitl r),
     ss_hitl_triggers = map (\<lambda>(t, r). tr_id t) (hc_matched (pr_hitl r))\<rparr>"

section \<open>Routing\<close>

text \<open>\<open>resolveRecipients\<close>; an empty name of a recipient counts as none.\<close>

definition add_unique :: "'a \<Rightarrow> 'a list \<Rightarrow> 'a list" where
  "add_unique x xs = (if x \<in> set xs then xs else xs @ [x])"

definition route_output :: "string \<Rightarrow> string list \<Rightarrow> role_output \<Rightarrow> string list \<Rightarrow> string list" where
  "route_output from participants out acc =
     (if is_wildcard_target (ro_target out)
      then fold add_unique (filter (\<lambda>a. a \<noteq> from \<and> a \<noteq> ''user'' \<and> a \<noteq> ''system'') participants) acc
      else add_unique (ro_target out) acc)"

definition route_by_type ::
  "conversation_env \<Rightarrow> string \<Rightarrow> json \<Rightarrow> string list \<Rightarrow> thrown + string list" where
  "route_by_type env from ty participants =
     (case ce_cards env from of
        Inl e \<Rightarrow> Inl e
      | Inr rc \<Rightarrow>
          (let outputs = filter (\<lambda>out. JString (ro_type out) = ty) (rc_outputs rc);
               resolved = fold (route_output from participants) outputs [];
               name = ''from='' @ from @ '' type='' @ ce_show env ty
           in if outputs = [] then Inl (plain_error (''No role-card output contract for '' @ name))
              else if resolved = [] then
                Inl (plain_error (''No valid recipients for '' @ name @ '' (found '' @ show_nat (length outputs) @
                  '' outputs, '' @ show_nat (length participants) @ '' participants, 0 after filtering)''))
              else Inr resolved))"

definition resolve_recipients ::
  "conversation_env \<Rightarrow> send_params \<Rightarrow> string list \<Rightarrow> thrown + string list" where
  "resolve_recipients env p participants =
     (case sp_to p of
        ToMany ts \<Rightarrow> Inr ts
      | ToOne t \<Rightarrow>
          if t \<noteq> [] then Inr [t]
          else if json_truthy (json_prop (nullish (sp_payload p) JUndefined) ''type'')
            then route_by_type env (sp_from p) (json_prop (nullish (sp_payload p) JUndefined) ''type'') participants
            else Inl (plain_error ''sendMessage requires `to` or payload.type for routing'')
      | NoTo \<Rightarrow>
          if json_truthy (json_prop (nullish (sp_payload p) JUndefined) ''type'')
            then route_by_type env (sp_from p) (json_prop (nullish (sp_payload p) JUndefined) ''type'') participants
            else Inl (plain_error ''sendMessage requires `to` or payload.type for routing''))"

definition agents_of :: "string list \<Rightarrow> string list" where
  "agents_of ts = filter (\<lambda>t. t \<noteq> ''user'' \<and> t \<noteq> ''system'' \<and> t \<noteq> ''broadcast'') ts"

definition lowest_affinity :: "conversation_env \<Rightarrow> affinity_db \<Rightarrow> string \<Rightarrow> string list \<Rightarrow> rat" where
  "lowest_affinity env db from agents =
     foldl (\<lambda>low r. if get_affinity (ce_affinity env) db from r < low
                    then get_affinity (ce_affinity env) db from r else low) 1 agents"

definition no_mediation :: mediation where
  "no_mediation = \<lparr>md_required = False, md_routed_via = None, md_original_to = None, md_affinity = None\<rparr>"

definition mediate ::
  "conversation_env \<Rightarrow> affinity_db \<Rightarrow> string \<Rightarrow> string list \<Rightarrow> string list \<times> mediation" where
  "mediate env db from to_list =
     (let agents = agents_of to_list; low = lowest_affinity env db from agents; cf = ce_config env in
      if from \<noteq> ''user'' \<and> from \<noteq> ''system'' \<and> agents \<noteq> [] \<and>
         low < cf_mediation_threshold cf \<and> cf_mediator cf \<notin> set agents
      then ([cf_mediator cf], \<lparr>md_required = True, md_routed_via = Some (cf_mediator cf),
                              md_original_to = Some to_list, md_affinity = Some low\<rparr>)
      else (to_list, no_mediation))"

section \<open>Sending\<close>

fun limit_name :: "limit_type \<Rightarrow> string" where
  "limit_name Agent_per_minute = ''agent_per_minute''"
| "limit_name Agent_per_hour = ''agent_per_hour''"
| "limit_name Conversation_per_minute = ''conversation_per_minute''"
| "limit_name Conversation_per_hour = ''conversation_per_hour''"
| "limit_name Challenge_per_hour = ''challenge_per_hour''"
| "limit_name Challenge_cooldown = ''challenge_cooldown''"

fun conversation_status_name :: "conversation_status \<Rightarrow> string" where
  "conversation_status_name ActiveConv = ''active''"
| "conversation_status_name PausedConv = ''paused''"
| "conversation_status_name ApprovalConv = ''require_approval''"
| "conversation_status_name ClosedConv = ''closed''"

fun given_recipients :: "recipients \<Rightarrow> string list" where
  "given_recipients NoTo = []"
| "given_recipients (ToOne t) = (if t = [] then [] else [t])"
| "given_recipients (ToMany ts) = ts"

definition refused_message ::
  "message_status \<Rightarrow> call_inputs \<Rightarrow> send_params \<Rightarrow> conversation_state \<Rightarrow> string \<Rightarrow> conversation_message" where
  "refused_message status ci p s why =
     \<lparr>cm_id = ci_message_id ci, cm_conversation = cv_id s, cm_from = sp_from p,
      cm_to = given_recipients (sp_to p), cm_delivered_to = given_recipients (sp_to p),
      cm_content = sp_content p, cm_created = ci_at ci 1, cm_payload = sp_payload p, cm_handoff = None,
      cm_mediation = None, cm_security = None, cm_status = status, cm_reason = Some why\<rparr>"

abbreviation blocked_message :: "call_inputs \<Rightarrow> send_params \<Rightarrow> conversation_state \<Rightarrow> string \<Rightarrow> conversation_message" where
  "blocked_message \<equiv> refused_message BlockedMsg"

abbreviation rejected_message :: "call_inputs \<Rightarrow> send_params \<Rightarrow> conversation_state \<Rightarrow> string \<Rightarrow> conversation_message" where
  "rejected_message \<equiv> refused_message RejectedMsg"

definition append_message ::
  "conversation_config \<Rightarrow> conversation_message \<Rightarrow> pipeline_result \<Rightarrow> conversation_state \<Rightarrow> conversation_state" where
  "append_message cf m r s =
     s\<lparr>cv_messages := cv_messages s @ [m], cv_message_count := cv_message_count s + 1,
       cv_scores := slice_last 50 (cv_scores s @ [sn_injection (pr_sanitized r)]),
       cv_policy_violations := cv_policy_violations s + length (pr_warnings r),
       cv_voice_violations := cv_voice_violations s + length (pr_voice r),
       cv_tokens_used := cv_tokens_used s + estimate_tokens (cm_content m) (cf_chars_per_token cf)\<rparr>"

definition covered_ids :: "conversation_state \<Rightarrow> string list" where
  "covered_ids s = concat (map sm_covers (cv_summaries s))"

definition maybe_summarize :: "conversation_env \<Rightarrow> call_inputs \<Rightarrow> conversation_state \<Rightarrow> conversation_state" where
  "maybe_summarize env ci s =
     (let cf = ce_config env in
      if length (cv_messages s) < cf_summary_trigger cf then s
      else
        (let unsummarized = filter (\<lambda>m. cm_id m \<notin> set (covered_ids s)) (cv_messages s) in
         if length unsummarized < cf_chunk_size cf then s
         else
           (let chunk = take (cf_chunk_size cf) unsummarized;
                summary = \<lparr>sm_id = ci_summary_id ci, sm_created = ci_at ci 4, sm_covers = map cm_id chunk,
                           sm_content = ce_summarize env chunk\<rparr>;
                s1 = s\<lparr>cv_summaries := cv_summaries s @ [summary]\<rparr>
            in if cf_discard_content cf
               then s1\<lparr>cv_messages := map (\<lambda>m. if cm_id m \<in> set (sm_covers summary) then m\<lparr>cm_content := []\<rparr> else m)
                                         (cv_messages s1)\<rparr>
               else s1)))"

definition payload_envelope :: "send_params \<Rightarrow> json" where
  "payload_envelope p = nullish (sp_payload p) (JObject [(''data'', JString (sp_content p))])"

text \<open>The contract of a mediated hop, with the declared format as far as there is one.\<close>

definition envelope_format :: "conversation_env \<Rightarrow> json \<Rightarrow> string" where
  "envelope_format env v =
     (let f = json_prop v ''format'' in if f = JUndefined \<or> f = JNull then ''natural_language'' else ce_show env f)"

definition mediated_handoff :: "conversation_env \<Rightarrow> send_params \<Rightarrow> handoff_result" where
  "mediated_handoff env p =
     (let f = envelope_format env (payload_envelope p) in
      \<lparr>ho_valid = True, ho_reason = Some ''Mediated hop into Echo allowed by engine policy'',
       ho_contract = Some (\<lparr>cn_agent = sp_from p, cn_type = ''mediation_message'', cn_format = f\<rparr>,
                           \<lparr>cn_agent = cf_mediator (ce_config env), cn_type = ''mediation_message'', cn_format = f\<rparr>),
       ho_errors = None\<rparr>)"

text \<open>The validations one after the other; the first that throws ends them.\<close>

fun validate_all ::
  "conversation_env \<Rightarrow> send_params \<Rightarrow> string list \<Rightarrow> thrown + handoff_result list" where
  "validate_all env p [] = Inr []"
| "validate_all env p (r # rs) =
     (case validate_handoff (ce_cards env) (ce_ajv env) (ce_show env) (sp_from p) r (payload_envelope p) of
        Inl e \<Rightarrow> Inl e
      | Inr h \<Rightarrow> (case validate_all env p rs of Inl e \<Rightarrow> Inl e | Inr hs \<Rightarrow> Inr (h # hs)))"

definition invalid_reasons :: "handoff_result list \<Rightarrow> string list" where
  "invalid_reasons hs =
     concat (map (\<lambda>h. case ho_errors h of
                        Some (e # es) \<Rightarrow> e # es
                      | _ \<Rightarrow> [nullish (ho_reason h) ''invalid handoff''])
                 (filter (\<lambda>h. \<not> ho_valid h) hs))"

definition handoff_step ::
  "conversation_env \<Rightarrow> call_inputs \<Rightarrow> send_params \<Rightarrow> string list \<Rightarrow> mediation \<Rightarrow> conversation_world
   \<Rightarrow> conversation_world \<times> (thrown + handoff_result option \<times> string list)" where
  "handoff_step env ci p delivered_to md w =
     (let agents = agents_of delivered_to in
      if md_required md \<and> delivered_to = [cf_mediator (ce_config env)]
      then (w, Inr (Some (mediated_handoff env p), []))
      else if sp_from p \<noteq> ''user'' \<and> sp_from p \<noteq> ''system'' \<and> agents \<noteq> [] then
        (case validate_all env p agents of
           Inl e \<Rightarrow> (w, Inl e)
         | Inr hs \<Rightarrow>
             (let w1 = (if \<not> md_required md \<and> length delivered_to = 1
                        then w\<lparr>cw_affinity := fst (record_handoff_outcome (ce_affinity env) (ci_sql_now ci) (sp_from p)
                                (hd delivered_to) (list_all ho_valid hs) None None (ci_at ci 2) (cw_affinity w))\<rparr>
                        else w)
              in (w1, Inr (Some (hd hs), invalid_reasons hs))))
      else (w, Inr (None, [])))"

text \<open>Out of turn: an agent that is not the one whose turn it is.\<close>

definition out_of_turn :: "conversation_env \<Rightarrow> send_params \<Rightarrow> conversation_state \<Rightarrow> bool" where
  "out_of_turn env p s \<longleftrightarrow> cf_enforce_turns (ce_config env) \<and> \<not> sp_override_turn p \<and>
     sp_from p \<noteq> ''user'' \<and> sp_from p \<noteq> ''system'' \<and> sp_from p \<noteq> cv_turn s"

definition trigger_reasons :: "hitl_check_result \<Rightarrow> (string \<times> reason) list" where
  "trigger_reasons h = map (\<lambda>(t, r). (tr_id t, r)) (hc_matched h)"

text \<open>The end of a message the checks let through: appended, and held back if HITL says so.\<close>

definition held_back :: "hitl_check_result \<Rightarrow> bool" where
  "held_back h \<longleftrightarrow> hc_action h = Pause \<or> hc_action h = Require_approval"

definition hold :: "hitl_check_result \<Rightarrow> conversation_state \<Rightarrow> conversation_state" where
  "hold h s =
     (if held_back h
      then s\<lparr>cv_status := (if hc_action h = Pause then PausedConv else ApprovalConv),
             cv_status_reason := TriggerReasons (trigger_reasons h)\<rparr>
      else s)"

definition final_message ::
  "call_inputs \<Rightarrow> send_params \<Rightarrow> conversation_state \<Rightarrow> string list \<Rightarrow> string list \<Rightarrow> mediation \<Rightarrow> pipeline_result
   \<Rightarrow> handoff_result option \<Rightarrow> conversation_message" where
  "final_message ci p s to_list delivered_to md r h =
     \<lparr>cm_id = ci_message_id ci, cm_conversation = cv_id s, cm_from = sp_from p, cm_to = to_list,
      cm_delivered_to = delivered_to, cm_content = sn_content (pr_sanitized r), cm_created = ci_at ci 1,
      cm_payload = sp_payload p, cm_handoff = h, cm_mediation = Some md, cm_security = Some (security_of r),
      cm_status = (if held_back (pr_hitl r) then BlockedMsg else DeliveredMsg),
      cm_reason = (if hc_action (pr_hitl r) = Pause then Some ''HITL pause''
                   else if hc_action (pr_hitl r) = Require_approval then Some ''HITL require_approval'' else None)\<rparr>"

text \<open>What a delivery does to the limiter and to the conversation.\<close>

definition is_counted_challenge :: "send_params \<Rightarrow> string list \<Rightarrow> bool" where
  "is_counted_challenge p delivered_to \<longleftrightarrow> sp_challenge p \<and> delivered_to \<noteq> [] \<and> hd delivered_to \<noteq> []"

definition record_delivery ::
  "call_inputs \<Rightarrow> send_params \<Rightarrow> string \<Rightarrow> string list \<Rightarrow> rate_limiter \<Rightarrow> rate_limiter" where
  "record_delivery ci p i delivered_to rl =
     (let rl1 = record_message (sp_from p) i (ci_at ci 3) rl in
      if is_counted_challenge p delivered_to
      then record_challenge (sp_from p) (hd delivered_to) (ci_at ci 3) rl1 else rl1)"

definition after_delivery :: "send_params \<Rightarrow> string list \<Rightarrow> conversation_state \<Rightarrow> conversation_state" where
  "after_delivery p delivered_to s =
     (let s1 = (if is_counted_challenge p delivered_to
                then s\<lparr>cv_challenge_count := cv_challenge_count s + 1, cv_consecutive := cv_consecutive s + 1\<rparr>
                else s\<lparr>cv_consecutive := 0\<rparr>)
      in case List.find (\<lambda>a. a \<in> set (cv_participants s)) delivered_to of
           Some a \<Rightarrow> if a \<noteq> [] then s1\<lparr>cv_turn := a\<rparr> else s1
         | None \<Rightarrow> s1)"

definition finish_message ::
  "conversation_env \<Rightarrow> call_inputs \<Rightarrow> send_params \<Rightarrow> conversation_state \<Rightarrow> string list \<Rightarrow> string list \<Rightarrow> mediation
   \<Rightarrow> pipeline_result \<Rightarrow> handoff_result option \<Rightarrow> conversation_world \<Rightarrow> conversation_world \<times> conversation_message" where
  "finish_message env ci p s to_list delivered_to md r h w =
     (let m = final_message ci p s to_list delivered_to md r h;
          s1 = append_message (ce_config env) m r (hold (pr_hitl r) s);
          delivered = (cm_status m = DeliveredMsg);
          s2 = (if delivered then after_delivery p delivered_to s1 else s1);
          w1 = (if delivered then w\<lparr>cw_limiter := record_delivery ci p (cv_id s) delivered_to (cw_limiter w)\<rparr> else w);
          s3 = (maybe_summarize env ci (refresh_affinity env (cw_affinity w1) s2))\<lparr>cv_updated := ci_at ci 5\<rparr>
      in (store_back env s3 w1, m))"

definition send_checked ::
  "conversation_env \<Rightarrow> call_inputs \<Rightarrow> send_params \<Rightarrow> conversation_state \<Rightarrow> string list \<Rightarrow> conversation_world
   \<Rightarrow> conversation_world \<times> (thrown + conversation_message)" where
  "send_checked env ci p s to_list w =
     (let (delivered_to, md) = mediate env (cw_affinity w) (sp_from p) to_list in
      case run_pipeline env ci s p delivered_to w of
        (w1, Inl e) \<Rightarrow> (w1, Inl e)
      | (w1, Inr r) \<Rightarrow>
          if \<not> sn_structure_valid (pr_sanitized r) then
            (w1, Inr (blocked_message ci p s
              (''Invalid message structure: '' @ join_with ''; '' (sn_structure_errors (pr_sanitized r)))))
          else if \<not> rl_allowed (pr_rate r) then
            (let m = (blocked_message ci p s (''Rate limited: '' @
                       (case rl_limit_type (pr_rate r) of None \<Rightarrow> ''undefined'' | Some l \<Rightarrow> limit_name l)))
                     \<lparr>cm_security := Some (security_of r), cm_to := to_list, cm_delivered_to := delivered_to,
                      cm_mediation := Some md\<rparr>
             in (store_back env (append_message (ce_config env) m r s) w1, Inr m))
          else
            (case handoff_step env ci p delivered_to md w1 of
               (w2, Inl e) \<Rightarrow> (w2, Inl e)
             | (w2, Inr (h, reasons)) \<Rightarrow>
                 if reasons \<noteq> [] then
                   (let m = (blocked_message ci p s (''Invalid handoff: '' @ join_with ''; '' reasons))
                            \<lparr>cm_to := to_list, cm_delivered_to := delivered_to, cm_mediation := Some md,
                             cm_handoff := h, cm_security := Some (security_of r)\<rparr>
                    in (store_back env (append_message (ce_config env) m r s) w2, Inr m))
                 else
                   (case finish_message env ci p s to_list delivered_to md r h w2 of (w3, m) \<Rightarrow> (w3, Inr m))))"

definition send_message ::
  "conversation_env \<Rightarrow> call_inputs \<Rightarrow> send_params \<Rightarrow> conversation_world
   \<Rightarrow> conversation_world \<times> (thrown + conversation_message)" where
  "send_message env ci p w =
     (case get_conversation env (sp_conversation p) (cw_fs w) of
        Inl e \<Rightarrow> (w, Inl e)
      | Inr s \<Rightarrow>
          if cv_status s = ClosedConv then (w, Inr (blocked_message ci p s ''Conversation is closed''))
          else if cv_status s \<noteq> ActiveConv \<and> sp_from p \<noteq> ''system'' then
            (w, Inr (blocked_message ci p s (''Conversation is '' @ conversation_status_name (cv_status s))))
          else if out_of_turn env p s then
            (w, Inr (rejected_message ci p s (''Out of turn: currentTurn='' @ cv_turn s)))
          else
            (case resolve_recipients env p (cv_participants s) of
               Inl e \<Rightarrow> (w, Inl e)
             | Inr to_list \<Rightarrow> send_checked env ci p s to_list w))"

section \<open>The store law\<close>

lemma load_save_conversation:
  "load_conversation dir (save_conversation dir s fs) i =
     (if i = cv_id s then Inr (Some s) else load_conversation dir fs i)"
  by (simp add: load_conversation_def save_conversation_def conversation_save_ops_def fs_run_def Let_def)

interpretation conversation_store: record_store "load_conversation dir" "save_conversation dir" cv_id
  for dir :: string
  by unfold_locales (rule load_save_conversation)

end
