(* ===== verification/Conversation_Correct.thy ===== *)
theory Conversation_Correct
  imports Conversation
begin

text \<open>
  What the conversation engine guarantees: every delivery has passed every check, the state of a
  conversation stays consistent over all runs, and the places where a hold is never lifted.
\<close>

section \<open>The outcomes of sending\<close>

lemma get_conversation_store_back:
  "get_conversation env i (cw_fs (store_back env s w)) =
     (if i = cv_id s then Inr s else get_conversation env i (cw_fs w))"
  by (simp add: get_conversation_def store_back_def load_save_conversation)

lemma store_back_sel [simp]:
  "cw_limiter (store_back env s w) = cw_limiter w" "cw_hitl (store_back env s w) = cw_hitl w"
  "cw_affinity (store_back env s w) = cw_affinity w"
  by (simp_all add: store_back_def)

lemma refused_message_sel [simp]:
  "cm_status (refused_message st ci p s why) = st" "cm_id (refused_message st ci p s why) = ci_message_id ci"
  "cm_conversation (refused_message st ci p s why) = cv_id s"
  "cm_content (refused_message st ci p s why) = sp_content p"
  by (simp_all add: refused_message_def)

lemma final_message_sel [simp]:
  "cm_id (final_message ci p s ts ds md r h) = ci_message_id ci"
  "cm_conversation (final_message ci p s ts ds md r h) = cv_id s"
  "cm_status (final_message ci p s ts ds md r h) = (if held_back (pr_hitl r) then BlockedMsg else DeliveredMsg)"
  "cm_delivered_to (final_message ci p s ts ds md r h) = ds"
  "cm_content (final_message ci p s ts ds md r h) = sn_content (pr_sanitized r)"
  by (simp_all add: final_message_def)

text \<open>The pipeline leaves the store and the affinities alone.\<close>

lemma run_pipeline_frame:
  assumes "run_pipeline env ci s p ds w = (w1, x)"
  shows "cw_fs w1 = cw_fs w" "cw_affinity w1 = cw_affinity w"
    "triggers (cw_hitl w1) = triggers (cw_hitl w)" "hconfig (cw_hitl w1) = hconfig (cw_hitl w)"
proof -
  have fold: "triggers (fst (fold (fire_one clock cx) m (e, calls))) = triggers e \<and>
      hconfig (fst (fold (fire_one clock cx) m (e, calls))) = hconfig e" for clock cx m e calls
  proof (induction m arbitrary: e calls)
    case (Cons x m)
    obtain e1 calls1 where f: "fire_one clock cx x (e, calls) = (e1, calls1)" by fastforce
    then show ?case using Cons.IH [of e1 calls1] fire_one_engine [of clock cx x e calls] by simp
  qed simp
  have check: "triggers (fst (check_message clock mc e)) = triggers e \<and>
      hconfig (fst (check_message clock mc e)) = hconfig e" for clock mc e
    using fold [of clock "message_context mc" "matched_of_message mc e" e "[]"]
    by (auto simp: check_message_def fire_alerts_def Let_def split: prod.splits)
  show "cw_fs w1 = cw_fs w" "cw_affinity w1 = cw_affinity w"
    using assms by (auto simp: run_pipeline_def Let_def split: prod.splits sum.splits)
  show "triggers (cw_hitl w1) = triggers (cw_hitl w)" "hconfig (cw_hitl w1) = hconfig (cw_hitl w)"
    using assms check by (auto simp: run_pipeline_def Let_def split: prod.splits sum.splits) (metis fst_conv)+
qed

lemma run_pipeline_engine:
  "run_pipeline env ci s p ds w = (w1, x) \<Longrightarrow>
     triggers (cw_hitl w1) = triggers (cw_hitl w) \<and> hconfig (cw_hitl w1) = hconfig (cw_hitl w)"
  by (simp add: run_pipeline_frame(3,4))

lemma handoff_step_frame:
  assumes "handoff_step env ci p ds md w = (w1, x)"
  shows "cw_fs w1 = cw_fs w" "cw_limiter w1 = cw_limiter w" "cw_hitl w1 = cw_hitl w"
  using assms by (auto simp: handoff_step_def Let_def split: sum.splits if_splits)

text \<open>The stages of a message up to the end that appends it.\<close>

definition passed ::
  "conversation_env \<Rightarrow> call_inputs \<Rightarrow> send_params \<Rightarrow> conversation_world \<Rightarrow> conversation_state \<Rightarrow> string list
   \<Rightarrow> string list \<Rightarrow> mediation \<Rightarrow> pipeline_result \<Rightarrow> handoff_result option \<Rightarrow> conversation_world \<Rightarrow> bool" where
  "passed env ci p w s ts ds md r h w2 \<longleftrightarrow>
     get_conversation env (sp_conversation p) (cw_fs w) = Inr s \<and>
     cv_status s \<noteq> ClosedConv \<and> (cv_status s = ActiveConv \<or> sp_from p = ''system'') \<and> \<not> out_of_turn env p s \<and>
     resolve_recipients env p (cv_participants s) = Inr ts \<and> mediate env (cw_affinity w) (sp_from p) ts = (ds, md) \<and>
     sn_structure_valid (pr_sanitized r) \<and> rl_allowed (pr_rate r) \<and>
     (\<exists>w1. run_pipeline env ci s p ds w = (w1, Inr r) \<and> handoff_step env ci p ds md w1 = (w2, Inr (h, [])))"

text \<open>A message that ends early is appended without a delivery, or not at all.\<close>

definition refused ::
  "conversation_env \<Rightarrow> send_params \<Rightarrow> conversation_world \<Rightarrow> conversation_world \<Rightarrow> conversation_message \<Rightarrow> bool" where
  "refused env p w w' m \<longleftrightarrow> cm_status m \<noteq> DeliveredMsg \<and>
     (cw_fs w' = cw_fs w \<or>
      (\<exists>s r w2. get_conversation env (sp_conversation p) (cw_fs w) = Inr s \<and> cm_conversation m = cv_id s \<and>
         cw_fs w2 = cw_fs w \<and> w' = store_back env (append_message (ce_config env) m r s) w2))"

lemma send_message_cases:
  assumes "send_message env ci p w = (w', Inr m)"
  obtains (finished) s ts ds md r h w2 where "passed env ci p w s ts ds md r h w2"
      "finish_message env ci p s ts ds md r h w2 = (w', m)"
  | (refused) "refused env p w w' m" "cm_id m = ci_message_id ci"
proof -
  obtain s where s: "get_conversation env (sp_conversation p) (cw_fs w) = Inr s"
    using assms by (auto simp: send_message_def split: sum.splits)
  consider (gate) "cw_fs w' = cw_fs w" "cm_status m \<noteq> DeliveredMsg" "cm_id m = ci_message_id ci"
    | (go) ts where "cv_status s \<noteq> ClosedConv" "cv_status s = ActiveConv \<or> sp_from p = ''system''"
        "\<not> out_of_turn env p s" "resolve_recipients env p (cv_participants s) = Inr ts"
        "send_checked env ci p s ts w = (w', Inr m)"
    using assms s by (auto simp: send_message_def split: if_splits sum.splits)
  then show thesis
  proof cases
    case gate
    then show thesis by (intro refused) (auto simp: refused_def)
  next
    case go
    obtain ds md where md: "mediate env (cw_affinity w) (sp_from p) ts = (ds, md)" by fastforce
    obtain w1 r where w1: "run_pipeline env ci s p ds w = (w1, Inr r)"
      using go(5) md by (auto simp: send_checked_def split: prod.splits sum.splits)
    note fs1 = run_pipeline_frame(1) [OF w1]
    show thesis
    proof (cases "sn_structure_valid (pr_sanitized r) \<and> rl_allowed (pr_rate r)")
      case False
      consider "w' = w1" "cm_status m = BlockedMsg" "cm_id m = ci_message_id ci"
        | "w' = store_back env (append_message (ce_config env) m r s) w1" "cm_status m = BlockedMsg"
          "cm_id m = ci_message_id ci" "cm_conversation m = cv_id s"
        using go(5) md w1 False by (cases "sn_structure_valid (pr_sanitized r)") (auto simp: send_checked_def Let_def)
      then show thesis using s fs1 by cases (intro refused; auto simp: refused_def)+
    next
      case True
      obtain w2 h reasons where w2: "handoff_step env ci p ds md w1 = (w2, Inr (h, reasons))"
        using go(5) md w1 True by (auto simp: send_checked_def split: prod.splits sum.splits)
      note fs2 = handoff_step_frame(1) [OF w2]
      show thesis
      proof (cases "reasons = []")
        case False
        then have "w' = store_back env (append_message (ce_config env) m r s) w2 \<and> cm_status m = BlockedMsg \<and>
            cm_id m = ci_message_id ci \<and> cm_conversation m = cv_id s"
          using go(5) md w1 True w2 by (auto simp: send_checked_def Let_def)
        then show thesis using s fs1 fs2 by (intro refused) (auto simp: refused_def)
      next
        case True': True
        have "finish_message env ci p s ts ds md r h w2 = (w', m)"
          using go(5) md w1 True w2 True' by (auto simp: send_checked_def split: prod.splits)
        moreover have "passed env ci p w s ts ds md r h w2"
          using s go md w1 True w2 True' by (auto simp: passed_def)
        ultimately show thesis by (intro finished)
      qed
    qed
  qed
qed

section \<open>What the pieces change\<close>

lemma maybe_summarize_sel [simp]:
  "cv_id (maybe_summarize env ci s) = cv_id s" "cv_status (maybe_summarize env ci s) = cv_status s"
  "cv_participants (maybe_summarize env ci s) = cv_participants s" "cv_turn (maybe_summarize env ci s) = cv_turn s"
  "cv_message_count (maybe_summarize env ci s) = cv_message_count s"
  "cv_challenge_count (maybe_summarize env ci s) = cv_challenge_count s"
  "cv_consecutive (maybe_summarize env ci s) = cv_consecutive s" "cv_scores (maybe_summarize env ci s) = cv_scores s"
  "cv_tokens_used (maybe_summarize env ci s) = cv_tokens_used s"
  "cv_token_budget (maybe_summarize env ci s) = cv_token_budget s"
  "map cm_status (cv_messages (maybe_summarize env ci s)) = map cm_status (cv_messages s)"
  "map cm_id (cv_messages (maybe_summarize env ci s)) = map cm_id (cv_messages s)"
  "map cm_conversation (cv_messages (maybe_summarize env ci s)) = map cm_conversation (cv_messages s)"
  by (auto simp: maybe_summarize_def Let_def)

lemma refresh_affinity_sel [simp]:
  "cv_id (refresh_affinity env db s) = cv_id s" "cv_status (refresh_affinity env db s) = cv_status s"
  "cv_participants (refresh_affinity env db s) = cv_participants s" "cv_turn (refresh_affinity env db s) = cv_turn s"
  "cv_message_count (refresh_affinity env db s) = cv_message_count s"
  "cv_challenge_count (refresh_affinity env db s) = cv_challenge_count s"
  "cv_consecutive (refresh_affinity env db s) = cv_consecutive s" "cv_scores (refresh_affinity env db s) = cv_scores s"
  "cv_tokens_used (refresh_affinity env db s) = cv_tokens_used s"
  "cv_token_budget (refresh_affinity env db s) = cv_token_budget s"
  "cv_messages (refresh_affinity env db s) = cv_messages s" "cv_summaries (refresh_affinity env db s) = cv_summaries s"
  by (simp_all add: refresh_affinity_def Let_def)

lemma after_delivery_sel [simp]:
  "cv_id (after_delivery p ds s) = cv_id s" "cv_status (after_delivery p ds s) = cv_status s"
  "cv_participants (after_delivery p ds s) = cv_participants s"
  "cv_message_count (after_delivery p ds s) = cv_message_count s" "cv_scores (after_delivery p ds s) = cv_scores s"
  "cv_tokens_used (after_delivery p ds s) = cv_tokens_used s"
  "cv_token_budget (after_delivery p ds s) = cv_token_budget s"
  "cv_messages (after_delivery p ds s) = cv_messages s" "cv_summaries (after_delivery p ds s) = cv_summaries s"
  "cv_challenge_count (after_delivery p ds s) = cv_challenge_count s + (if is_counted_challenge p ds then 1 else 0)"
  "cv_consecutive (after_delivery p ds s) = (if is_counted_challenge p ds then cv_consecutive s + 1 else 0)"
  by (auto simp: after_delivery_def Let_def split: option.split)

lemma append_message_sel [simp]:
  "cv_id (append_message cf m r s) = cv_id s" "cv_status (append_message cf m r s) = cv_status s"
  "cv_participants (append_message cf m r s) = cv_participants s" "cv_turn (append_message cf m r s) = cv_turn s"
  "cv_message_count (append_message cf m r s) = cv_message_count s + 1"
  "cv_messages (append_message cf m r s) = cv_messages s @ [m]"
  "cv_summaries (append_message cf m r s) = cv_summaries s"
  "cv_challenge_count (append_message cf m r s) = cv_challenge_count s"
  "cv_consecutive (append_message cf m r s) = cv_consecutive s"
  "cv_token_budget (append_message cf m r s) = cv_token_budget s"
  "cv_scores (append_message cf m r s) = slice_last 50 (cv_scores s @ [sn_injection (pr_sanitized r)])"
  "cv_tokens_used (append_message cf m r s) = cv_tokens_used s + estimate_tokens (cm_content m) (cf_chars_per_token cf)"
  by (simp_all add: append_message_def)

lemma hold_sel [simp]:
  "cv_id (hold h s) = cv_id s" "cv_participants (hold h s) = cv_participants s" "cv_turn (hold h s) = cv_turn s"
  "cv_message_count (hold h s) = cv_message_count s" "cv_messages (hold h s) = cv_messages s"
  "cv_summaries (hold h s) = cv_summaries s" "cv_challenge_count (hold h s) = cv_challenge_count s"
  "cv_consecutive (hold h s) = cv_consecutive s" "cv_scores (hold h s) = cv_scores s"
  "cv_tokens_used (hold h s) = cv_tokens_used s" "cv_token_budget (hold h s) = cv_token_budget s"
  "cv_status (hold h s) = (if hc_action h = Pause then PausedConv
     else if hc_action h = Require_approval then ApprovalConv else cv_status s)"
  by (auto simp: hold_def held_back_def)

text \<open>The state a finished message leaves, and the world around it.\<close>

definition finished_state ::
  "conversation_env \<Rightarrow> call_inputs \<Rightarrow> send_params \<Rightarrow> string list \<Rightarrow> pipeline_result \<Rightarrow> conversation_message
   \<Rightarrow> affinity_db \<Rightarrow> conversation_state \<Rightarrow> conversation_state" where
  "finished_state env ci p ds r m db s =
     (let s1 = append_message (ce_config env) m r (hold (pr_hitl r) s);
          s2 = (if cm_status m = DeliveredMsg then after_delivery p ds s1 else s1)
      in (maybe_summarize env ci (refresh_affinity env db s2))\<lparr>cv_updated := ci_at ci 5\<rparr>)"

lemma finish_messageE:
  assumes "finish_message env ci p s ts ds md r h w = (w', m)"
  shows "m = final_message ci p s ts ds md r h"
    and "w' = store_back env (finished_state env ci p ds r m (cw_affinity w) s)
      (if cm_status m = DeliveredMsg then w\<lparr>cw_limiter := record_delivery ci p (cv_id s) ds (cw_limiter w)\<rparr> else w)"
  using assms by (auto simp: finish_message_def finished_state_def Let_def)

lemma finished_state_sel:
  assumes "m = final_message ci p s ts ds md r h"
  shows "cv_id (finished_state env ci p ds r m db s) = cv_id s"
    "map cm_status (cv_messages (finished_state env ci p ds r m db s)) = map cm_status (cv_messages s) @ [cm_status m]"
    "map cm_id (cv_messages (finished_state env ci p ds r m db s)) = map cm_id (cv_messages s) @ [cm_id m]"
    "map cm_conversation (cv_messages (finished_state env ci p ds r m db s)) =
       map cm_conversation (cv_messages s) @ [cv_id s]"
    "cv_message_count (finished_state env ci p ds r m db s) = cv_message_count s + 1"
    "cv_participants (finished_state env ci p ds r m db s) = cv_participants s"
    "cv_scores (finished_state env ci p ds r m db s) = slice_last 50 (cv_scores s @ [sn_injection (pr_sanitized r)])"
    "cv_tokens_used (finished_state env ci p ds r m db s) =
       cv_tokens_used s + estimate_tokens (cm_content m) (cf_chars_per_token (ce_config env))"
    "cv_challenge_count (finished_state env ci p ds r m db s) =
       cv_challenge_count s + (if cm_status m = DeliveredMsg \<and> is_counted_challenge p ds then 1 else 0)"
    "cv_consecutive (finished_state env ci p ds r m db s) =
       (if cm_status m \<noteq> DeliveredMsg then cv_consecutive s
        else if is_counted_challenge p ds then cv_consecutive s + 1 else 0)"
    "cm_status m = DeliveredMsg \<Longrightarrow> cv_status (finished_state env ci p ds r m db s) = cv_status s"
  using assms by (auto simp: finished_state_def Let_def held_back_def)

section \<open>Handoffs and mediation\<close>

lemma invalid_reasons_Nil: "invalid_reasons hs = [] \<longleftrightarrow> list_all ho_valid hs"
  by (induction hs) (auto simp: invalid_reasons_def split: option.split list.split)

lemma validate_all_Inr:
  assumes "validate_all env p rs = Inr hs"
  shows "list_all2 (\<lambda>r h. validate_handoff (ce_cards env) (ce_ajv env) (ce_show env) (sp_from p) r (payload_envelope p) = Inr h) rs hs"
  using assms by (induction rs arbitrary: hs) (auto split: sum.splits)

lemma lowest_affinity_le:
  "lowest_affinity env db from agents \<le> 1 \<and>
   list_all (\<lambda>a. lowest_affinity env db from agents \<le> get_affinity (ce_affinity env) db from a) agents"
proof -
  have "foldl (\<lambda>low r. if g r < low then g r else low) l as \<le> l \<and>
      list_all (\<lambda>a. foldl (\<lambda>low r. if g r < low then g r else low) l as \<le> g a) as"
    for g :: "string \<Rightarrow> rat" and l as
  proof (induction as arbitrary: l)
    case (Cons a as)
    show ?case using Cons.IH [of "if g a < l then g a else l"] by (auto split: if_splits)
  qed simp
  then show ?thesis unfolding lowest_affinity_def by blast
qed

text \<open>A recipient the sender may reach directly.\<close>

definition reachable_agent :: "conversation_env \<Rightarrow> send_params \<Rightarrow> string \<Rightarrow> bool" where
  "reachable_agent env p a \<longleftrightarrow>
     (\<exists>h. validate_handoff (ce_cards env) (ce_ajv env) (ce_show env) (sp_from p) a (payload_envelope p) = Inr h \<and> ho_valid h)"

lemma handoff_step_passes:
  assumes "mediate env db (sp_from p) ts = (ds, md)" "handoff_step env ci p ds md w = (w', Inr (h, []))"
    and "sp_from p \<noteq> ''user''" "sp_from p \<noteq> ''system''"
  shows "ds = [cf_mediator (ce_config env)] \<and> lowest_affinity env db (sp_from p) (agents_of ts) < cf_mediation_threshold (ce_config env) \<or>
    ds = ts \<and> list_all (reachable_agent env p) (agents_of ts) \<and>
    (cf_mediator (ce_config env) \<in> set ts \<or>
     list_all (\<lambda>a. cf_mediation_threshold (ce_config env) \<le> get_affinity (ce_affinity env) db (sp_from p) a) (agents_of ts))"
proof (cases "md_required md")
  case True
  then show ?thesis using assms(1) by (auto simp: mediate_def Let_def no_mediation_def split: if_splits)
next
  case False
  then have ds: "ds = ts" "agents_of ts = [] \<or> cf_mediation_threshold (ce_config env) \<le> lowest_affinity env db (sp_from p) (agents_of ts) \<or>
      cf_mediator (ce_config env) \<in> set ts"
    using assms(1, 3, 4) by (auto simp: mediate_def Let_def agents_of_def split: if_splits)
  have "list_all (reachable_agent env p) (agents_of ts)"
  proof (cases "agents_of ts = []")
    case False
    then obtain hs where hs: "validate_all env p (agents_of ts) = Inr hs" "invalid_reasons hs = []"
      using assms(2-4) ds(1) \<open>\<not> md_required md\<close> by (auto simp: handoff_step_def Let_def split: sum.splits)
    have "list_all2 (\<lambda>r h. validate_handoff (ce_cards env) (ce_ajv env) (ce_show env) (sp_from p) r (payload_envelope p) = Inr h)
        (agents_of ts) hs"
      by (rule validate_all_Inr [OF hs(1)])
    then show ?thesis
      using hs(2) unfolding invalid_reasons_Nil
      by (induction rule: list_all2_induct) (auto simp: reachable_agent_def)
  qed simp
  moreover have "list_all (\<lambda>a. cf_mediation_threshold (ce_config env) \<le> get_affinity (ce_affinity env) db (sp_from p) a) (agents_of ts)"
    if "cf_mediator (ce_config env) \<notin> set ts"
    using lowest_affinity_le [of env db "sp_from p" "agents_of ts"] ds(2) that
    by (auto simp: list_all_iff intro: order_trans)
  ultimately show ?thesis using ds(1) by blast
qed

section \<open>Runs and the invariant\<close>

datatype conversation_op =
    StartOp call_inputs start_params
  | SendOp call_inputs send_params
  | JoinOp call_inputs string string
  | StatusOp call_inputs string conversation_status "string option"

fun run_conversation_op :: "conversation_env \<Rightarrow> conversation_op \<Rightarrow> conversation_world \<Rightarrow> conversation_world" where
  "run_conversation_op env (StartOp ci p) w = fst (start_conversation env ci p w)"
| "run_conversation_op env (SendOp ci p) w = fst (send_message env ci p w)"
| "run_conversation_op env (JoinOp ci i a) w = fst (add_participant env ci i a w)"
| "run_conversation_op env (StatusOp ci i st why) w = fst (set_conversation_status env ci i st why w)"

definition run_conversations :: "conversation_env \<Rightarrow> conversation_op list \<Rightarrow> conversation_world \<Rightarrow> conversation_world" where
  "run_conversations env ops w = fold (run_conversation_op env) ops w"

text \<open>The ids the messages of a run are given.\<close>

fun op_message_ids :: "conversation_op \<Rightarrow> string list" where
  "op_message_ids (SendOp ci p) = [ci_message_id ci]"
| "op_message_ids _ = []"

definition delivered_count :: "conversation_state \<Rightarrow> nat" where
  "delivered_count s = length (filter (\<lambda>st. st = DeliveredMsg) (map cm_status (cv_messages s)))"

text \<open>
  A consistent conversation: counters and signals agree with the messages, challenges are counted
  among the deliveries, and the summaries cover a beginning of the messages, each once.
\<close>

definition consistent :: "conversation_state \<Rightarrow> bool" where
  "consistent s \<longleftrightarrow>
     cv_message_count s = length (cv_messages s) \<and> length (cv_scores s) = min 50 (length (cv_messages s)) \<and>
     int (length (cv_messages s)) \<le> cv_tokens_used s \<and>
     cv_consecutive s \<le> cv_challenge_count s \<and> cv_challenge_count s \<le> delivered_count s \<and>
     distinct (cv_participants s) \<and> list_all (\<lambda>c. c = cv_id s) (map cm_conversation (cv_messages s)) \<and>
     distinct (map cm_id (cv_messages s)) \<and>
     (\<exists>k. covered_ids s = take k (map cm_id (cv_messages s)))"

lemma estimate_tokens_pos: "1 \<le> estimate_tokens t c"
  by (simp add: estimate_tokens_def)

lemma slice_last_snoc: "length xs = min 50 n \<Longrightarrow> length (slice_last 50 (xs @ [x])) = min 50 (Suc n)"
  by (auto simp: slice_last_def)

lemma distinct_js_unique: "distinct (js_unique xs)"
  by (simp add: js_unique_def)

lemma covered_ids_take:
  assumes "distinct (map cm_id ms)" "ids = take k (map cm_id ms)"
  shows "filter (\<lambda>m. cm_id m \<notin> set ids) ms = drop k ms"
proof -
  have "ms = take k ms @ drop k ms" by simp
  then have d: "distinct (map cm_id (take k ms) @ map cm_id (drop k ms))"
    using assms(1) by (metis map_append)
  have "filter (\<lambda>m. cm_id m \<notin> set ids) ms =
      filter (\<lambda>m. cm_id m \<notin> set ids) (take k ms) @ filter (\<lambda>m. cm_id m \<notin> set ids) (drop k ms)"
    by (metis append_take_drop_id filter_append)
  also have "filter (\<lambda>m. cm_id m \<notin> set ids) (take k ms) = []"
    using assms(2) by (auto simp: filter_empty_conv take_map)
  also have "filter (\<lambda>m. cm_id m \<notin> set ids) (drop k ms) = drop k ms"
    using d assms(2) by (auto simp: filter_id_conv take_map)
  finally show ?thesis by simp
qed

lemma maybe_summarize_covers:
  assumes "distinct (map cm_id (cv_messages s))" "covered_ids s = take k (map cm_id (cv_messages s))"
  shows "\<exists>k'. covered_ids (maybe_summarize env ci s) = take k' (map cm_id (cv_messages s))"
proof -
  let ?cf = "ce_config env"
  let ?un = "filter (\<lambda>m. cm_id m \<notin> set (covered_ids s)) (cv_messages s)"
  show ?thesis
  proof (cases "length (cv_messages s) < cf_summary_trigger ?cf \<or> length ?un < cf_chunk_size ?cf")
    case True
    then have "maybe_summarize env ci s = s" by (auto simp: maybe_summarize_def Let_def)
    then show ?thesis using assms(2) by auto
  next
    case False
    have un: "?un = drop k (cv_messages s)" by (rule covered_ids_take [OF assms])
    have "covered_ids (maybe_summarize env ci s) = covered_ids s @ map cm_id (take (cf_chunk_size ?cf) ?un)"
      using False by (simp add: maybe_summarize_def Let_def covered_ids_def)
    also have "\<dots> = covered_ids s @ map cm_id (take (cf_chunk_size ?cf) (drop k (cv_messages s)))"
      by (simp only: un)
    also have "\<dots> = take (k + cf_chunk_size ?cf) (map cm_id (cv_messages s))"
      unfolding assms(2) by (simp add: take_add take_map drop_map)
    finally show ?thesis by blast
  qed
qed

lemma covered_ids_cong [simp]:
  "covered_ids (refresh_affinity env db s) = covered_ids s"
  "covered_ids (after_delivery p ds s) = covered_ids s"
  "covered_ids (append_message cf m r s) = covered_ids s"
  "covered_ids (hold h s) = covered_ids s"
  "covered_ids (s\<lparr>cv_updated := t\<rparr>) = covered_ids s"
  by (simp_all add: covered_ids_def)

lemma take_snoc_ids: "ids = take k xs \<Longrightarrow> \<exists>k'. ids = take k' (xs @ [x])"
  by (intro exI [of _ "min k (length xs)"]) (auto simp: min_def)

lemma delivered_count_snoc:
  "map cm_status (cv_messages s') = map cm_status (cv_messages s) @ [st] \<Longrightarrow>
     delivered_count s' = delivered_count s + (if st = DeliveredMsg then 1 else 0)"
  by (simp add: delivered_count_def)

lemma consistent_finished:
  assumes "consistent s" "m = final_message ci p s ts ds md r h" "cm_id m \<notin> cm_id ` set (cv_messages s)"
  shows "consistent (finished_state env ci p ds r m db s)"
proof -
  let ?s = "finished_state env ci p ds r m db s"
  note sel = finished_state_sel [OF assms(2), of env db]
  have len: "length (cv_messages ?s) = Suc (length (cv_messages s))"
    using arg_cong [OF sel(2), of length] by simp
  obtain k where k: "covered_ids s = take k (map cm_id (cv_messages s))" using assms(1) by (auto simp: consistent_def)
  let ?s2 = "refresh_affinity env db (let s1 = append_message (ce_config env) m r (hold (pr_hitl r) s)
    in if cm_status m = DeliveredMsg then after_delivery p ds s1 else s1)"
  have s2: "covered_ids ?s2 = covered_ids s" "map cm_id (cv_messages ?s2) = map cm_id (cv_messages s) @ [cm_id m]"
    by (auto simp: Let_def)
  have dist: "distinct (map cm_id (cv_messages ?s2))"
    using assms(1, 3) unfolding s2(2) by (auto simp: consistent_def)
  obtain k2 where "covered_ids ?s2 = take k2 (map cm_id (cv_messages ?s2))"
    using take_snoc_ids [OF k, of "cm_id m"] s2 by auto
  from maybe_summarize_covers [OF dist this, of env ci]
  have "\<exists>k'. covered_ids ?s = take k' (map cm_id (cv_messages ?s))"
    unfolding sel(3) s2(2) by (simp add: finished_state_def Let_def)
  moreover have "distinct (map cm_id (cv_messages ?s))" using dist unfolding sel(3) s2(2) .
  moreover have "delivered_count ?s = delivered_count s + (if cm_status m = DeliveredMsg then 1 else 0)"
    by (rule delivered_count_snoc [OF sel(2)])
  moreover have "1 \<le> estimate_tokens (cm_content m) (cf_chars_per_token (ce_config env))" by (rule estimate_tokens_pos)
  ultimately show ?thesis
    using assms(1) len slice_last_snoc [of "cv_scores s" "length (cv_messages s)" "sn_injection (pr_sanitized r)"]
    unfolding consistent_def sel(1,4-10) by (simp split: if_splits)
qed

lemma consistent_refused:
  assumes "consistent s" "cm_conversation m = cv_id s" "cm_status m \<noteq> DeliveredMsg" "cm_id m \<notin> cm_id ` set (cv_messages s)"
  shows "consistent (append_message cf m r s)"
proof -
  obtain k where k: "covered_ids s = take k (map cm_id (cv_messages s))" using assms(1) by (auto simp: consistent_def)
  have "1 \<le> estimate_tokens (cm_content m) (cf_chars_per_token cf)" by (rule estimate_tokens_pos)
  moreover have "delivered_count (append_message cf m r s) = delivered_count s"
    using assms(3) by (simp add: delivered_count_def)
  ultimately show ?thesis
    using assms take_snoc_ids [OF k, of "cm_id m"]
      slice_last_snoc [of "cv_scores s" "length (cv_messages s)" "sn_injection (pr_sanitized r)"]
    by (simp add: consistent_def)
qed

text \<open>The invariant of a run: every conversation that can be read is consistent and filed under its id.\<close>

definition world_consistent :: "conversation_env \<Rightarrow> string list \<Rightarrow> conversation_world \<Rightarrow> bool" where
  "world_consistent env used w \<longleftrightarrow>
     (\<forall>i s. get_conversation env i (cw_fs w) = Inr s \<longrightarrow>
        cv_id s = i \<and> consistent s \<and> cm_id ` set (cv_messages s) \<subseteq> set used)"

lemma world_consistentD:
  "world_consistent env used w \<Longrightarrow> get_conversation env i (cw_fs w) = Inr s \<Longrightarrow>
     cv_id s = i \<and> consistent s \<and> cm_id ` set (cv_messages s) \<subseteq> set used"
  by (simp add: world_consistent_def)

lemma world_consistent_fs: "cw_fs w' = cw_fs w \<Longrightarrow> world_consistent env used w \<Longrightarrow> world_consistent env (used @ ids) w'"
  by (fastforce simp: world_consistent_def)

lemma world_consistent_store_back:
  assumes "world_consistent env used w" "cw_fs w1 = cw_fs w" "consistent s"
    and "cm_id ` set (cv_messages s) \<subseteq> set (used @ ids)"
  shows "world_consistent env (used @ ids) (store_back env s w1)"
proof -
  have fs: "cw_fs (store_back env s w1) = cw_fs (store_back env s w)" by (simp add: store_back_def assms(2))
  show ?thesis
    unfolding world_consistent_def fs
    using assms(1, 3, 4) by (fastforce simp: get_conversation_store_back world_consistent_def split: if_splits)
qed

lemma send_message_consistent:
  assumes "world_consistent env used w" "ci_message_id ci \<notin> set used"
  shows "world_consistent env (used @ [ci_message_id ci]) (fst (send_message env ci p w))"
proof (cases "send_message env ci p w")
  case (Pair w' x)
  show ?thesis
  proof (cases x)
    case (Inl e)
    then have "cw_fs w' = cw_fs w"
      using Pair by (auto simp: send_message_def send_checked_def Let_def split: sum.splits if_splits prod.splits
          dest!: run_pipeline_frame(1) handoff_step_frame(1))
    then show ?thesis using assms(1) Pair by (simp add: world_consistent_fs)
  next
    case (Inr m)
    then have sent: "send_message env ci p w = (w', Inr m)" using Pair by simp
    from sent show ?thesis
    proof (cases rule: send_message_cases)
      case (finished s ts ds md r h w2)
      note m = finish_messageE [OF finished(2)]
      have s: "cv_id s = sp_conversation p" "consistent s" "cm_id ` set (cv_messages s) \<subseteq> set used"
        and fs: "cw_fs w2 = cw_fs w"
        using finished(1) world_consistentD [OF assms(1)]
        by (auto simp: passed_def dest!: run_pipeline_frame(1) handoff_step_frame(1))
      have new: "cm_id m \<notin> cm_id ` set (cv_messages s)" using m(1) s(3) assms(2) by auto
      let ?s = "finished_state env ci p ds r m (cw_affinity w2) s"
      have "cm_id ` set (cv_messages ?s) \<subseteq> set (used @ [ci_message_id ci])"
        using arg_cong [OF finished_state_sel(3) [OF m(1), of env "cw_affinity w2"], of set] s(3) m(1) by auto
      then show ?thesis
        unfolding sent fst_conv m(2) using s(1) fs
        by (intro world_consistent_store_back [OF assms(1)] consistent_finished [OF s(2) m(1) new]) auto
    next
      case refused
      consider "cw_fs w' = cw_fs w"
        | s r w2 where "get_conversation env (sp_conversation p) (cw_fs w) = Inr s" "cm_conversation m = cv_id s"
            "cw_fs w2 = cw_fs w" "w' = store_back env (append_message (ce_config env) m r s) w2"
        using refused(1) by (auto simp: refused_def)
      then show ?thesis
      proof cases
        case 1
        then show ?thesis using assms(1) sent by (simp add: world_consistent_fs)
      next
        case (2 s r w2)
        have s: "consistent s" "cm_id ` set (cv_messages s) \<subseteq> set used"
          using world_consistentD [OF assms(1) 2(1)] by auto
        have "consistent (append_message (ce_config env) m r s)"
          using s 2(2) refused assms(2) by (intro consistent_refused) (auto simp: refused_def)
        then show ?thesis
          unfolding sent fst_conv 2(4) using s(2) 2(3) refused(2)
          by (intro world_consistent_store_back [OF assms(1)]) auto
      qed
    qed
  qed
qed

lemma start_conversation_consistent:
  "world_consistent env used w \<Longrightarrow> world_consistent env (used @ []) (fst (start_conversation env ci p w))"
proof (cases "filter (\<lambda>a. a \<noteq> []) (js_unique (st_participants p)) = []")
  case False
  assume inv: "world_consistent env used w"
  have "\<exists>s. fst (start_conversation env ci p w) = store_back env s w \<and> consistent s \<and> cv_messages s = []"
    using False by (auto simp: start_conversation_def Let_def store_back_def consistent_def covered_ids_def
        delivered_count_def distinct_js_unique)
  then show ?thesis using world_consistent_store_back [OF inv refl, where ids = "[]"] by force
qed (simp add: start_conversation_def Let_def)

lemma add_participant_consistent:
  assumes "world_consistent env used w"
  shows "world_consistent env (used @ []) (fst (add_participant env ci i a w))"
proof (cases "get_conversation env i (cw_fs w)")
  case (Inr s)
  let ?s1 = "if a \<in> set (cv_participants s) then s else s\<lparr>cv_participants := cv_participants s @ [a]\<rparr>"
  let ?s = "(refresh_affinity env (cw_affinity w) ?s1)\<lparr>cv_updated := ci_at ci 0\<rparr>"
  have s: "consistent s" "cm_id ` set (cv_messages s) \<subseteq> set used"
    using world_consistentD [OF assms Inr] by auto
  have eq: "fst (add_participant env ci i a w) = store_back env ?s w"
    using Inr by (simp add: add_participant_def Let_def)
  have "consistent ?s"
    using s(1) by (simp add: consistent_def delivered_count_def covered_ids_def)
  moreover have "cv_messages ?s = cv_messages s" by simp
  ultimately show ?thesis
    unfolding eq using s(2) by (intro world_consistent_store_back [OF assms refl]) simp_all
qed (use assms in \<open>simp add: add_participant_def\<close>)

lemma set_status_consistent:
  assumes "world_consistent env used w"
  shows "world_consistent env (used @ []) (fst (set_conversation_status env ci i st why w))"
proof (cases "get_conversation env i (cw_fs w)")
  case (Inr s)
  let ?s = "s\<lparr>cv_status := st, cv_status_reason := GivenReason why, cv_updated := ci_at ci 0\<rparr>"
  have s: "consistent s" "cm_id ` set (cv_messages s) \<subseteq> set used"
    using world_consistentD [OF assms Inr] by auto
  have eq: "fst (set_conversation_status env ci i st why w) = store_back env ?s w"
    using Inr by (simp add: set_conversation_status_def Let_def)
  have "consistent ?s" using s(1) by (simp add: consistent_def delivered_count_def covered_ids_def)
  then show ?thesis
    unfolding eq using s(2) by (intro world_consistent_store_back [OF assms refl]) simp_all
qed (use assms in \<open>simp add: set_conversation_status_def\<close>)

lemma run_conversations_consistent:
  assumes "world_consistent env used w" "distinct (concat (map op_message_ids ops))"
    and "set used \<inter> set (concat (map op_message_ids ops)) = {}"
  shows "world_consistent env (used @ concat (map op_message_ids ops)) (run_conversations env ops w)"
  using assms
proof (induction ops arbitrary: used w)
  case Nil
  then show ?case by (simp add: run_conversations_def)
next
  case (Cons q ops)
  have "world_consistent env (used @ op_message_ids q) (run_conversation_op env q w)"
    using Cons.prems send_message_consistent start_conversation_consistent add_participant_consistent set_status_consistent
    by (cases q) auto
  moreover have "set (used @ op_message_ids q) \<inter> set (concat (map op_message_ids ops)) = {}"
    "distinct (concat (map op_message_ids ops))"
    using Cons.prems by auto
  ultimately show ?case
    using Cons.IH [of "used @ op_message_ids q" "run_conversation_op env q w"] by (simp add: run_conversations_def)
qed

section \<open>Holds that stay\<close>

lemma held_back_severity: "held_back h \<longleftrightarrow> 2 \<le> action_severity (hc_action h)"
  by (cases "hc_action h") (auto simp: held_back_def)

text \<open>What the conversation's own signals make the HITL engine say, whatever the message is.\<close>

definition standing_hold :: "hitl_engine \<Rightarrow> conversation_state \<Rightarrow> bool" where
  "standing_hold e s \<longleftrightarrow> held_back (check_conversation_state (signals_of s) e)"

lemma held_back_mono:
  assumes "set m \<subseteq> set n" "held_back (build_result m)"
  shows "held_back (build_result n)"
proof -
  let ?acts = "map (tr_action \<circ> fst)"
  have "foldl worse_action Continue (?acts m) = Continue \<or> foldl worse_action Continue (?acts m) \<in> set (?acts m)"
    by (rule act.foldl_attained)
  then have "foldl worse_action Continue (?acts m) \<in> set (?acts n)"
    using assms by (auto simp: held_back_severity build_result_fields)
  then have "action_severity (foldl worse_action Continue (?acts m)) \<le> action_severity (foldl worse_action Continue (?acts n))"
    by (rule act.foldl_upper)
  then show ?thesis using assms(2) by (simp add: held_back_severity build_result_fields)
qed

lemma check_conversation_state_result:
  "check_conversation_state cs e = build_result (hc_matched (check_conversation_state cs e))"
  by (simp add: check_conversation_state_def Let_def build_result_fields)

lemma run_pipeline_hitl:
  assumes "run_pipeline env ci s p ds w = (w1, Inr r)"
  obtains warnings where "pr_hitl r = build_result (matched_of_message
      (pipeline_check s (sp_from p) (pr_sanitized r) (pr_rate r) warnings (pr_voice r)) (cw_hitl w))"
proof -
  have "\<exists>warnings. pr_hitl r = snd (snd (check_message (ci_alert_clock ci)
      (pipeline_check s (sp_from p) (pr_sanitized r) (pr_rate r) warnings (pr_voice r)) (cw_hitl w)))"
    using assms by (auto simp: run_pipeline_def Let_def split: prod.splits sum.splits) (metis snd_conv)+
  then show thesis using that unfolding check_message_result by blast
qed

lemma standing_hold_held:
  assumes "run_pipeline env ci s p ds w = (w1, Inr r)" "standing_hold (cw_hitl w) s"
  shows "held_back (pr_hitl r)"
proof -
  obtain warnings where h: "pr_hitl r = build_result (matched_of_message
      (pipeline_check s (sp_from p) (pr_sanitized r) (pr_rate r) warnings (pr_voice r)) (cw_hitl w))"
    using run_pipeline_hitl [OF assms(1)] .
  have "set (hc_matched (check_conversation_state (signals_of s) (cw_hitl w))) \<subseteq>
      set (matched_of_message (pipeline_check s (sp_from p) (pr_sanitized r) (pr_rate r) warnings (pr_voice r)) (cw_hitl w))"
    by (auto simp: matched_of_message_def pipeline_check_def)
  then show ?thesis
    using held_back_mono assms(2) unfolding h standing_hold_def by (metis check_conversation_state_result)
qed

lemma send_effect:
  assumes "send_message env ci p w = (w', x)"
  shows "cw_fs w' = cw_fs w \<or>
    (\<exists>s s' st. get_conversation env (sp_conversation p) (cw_fs w) = Inr s \<and> cw_fs w' = cw_fs (store_back env s' w) \<and>
       cv_id s' = cv_id s \<and> map cm_status (cv_messages s') = map cm_status (cv_messages s) @ [st] \<and>
       (st \<noteq> DeliveredMsg \<longrightarrow> cv_consecutive s' = cv_consecutive s) \<and>
       (standing_hold (cw_hitl w) s \<longrightarrow> st \<noteq> DeliveredMsg))"
proof (cases x)
  case (Inl e)
  then show ?thesis
    using assms by (auto simp: send_message_def send_checked_def Let_def split: sum.splits if_splits prod.splits
        dest!: run_pipeline_frame(1) handoff_step_frame(1))
next
  case (Inr m)
  with assms have "send_message env ci p w = (w', Inr m)" by simp
  then show ?thesis
  proof (cases rule: send_message_cases)
    case (finished s ts ds md r h w2)
    note m = finish_messageE [OF finished(2)]
    let ?s = "finished_state env ci p ds r m (cw_affinity w2) s"
    note sel = finished_state_sel [OF m(1), of env "cw_affinity w2"]
    obtain w1 where w1: "run_pipeline env ci s p ds w = (w1, Inr r)" "handoff_step env ci p ds md w1 = (w2, Inr (h, []))"
      and s: "get_conversation env (sp_conversation p) (cw_fs w) = Inr s"
      using finished(1) by (auto simp: passed_def)
    have "cw_fs w' = cw_fs (store_back env ?s w)"
      using run_pipeline_frame(1) [OF w1(1)] handoff_step_frame(1) [OF w1(2)] by (simp add: m(2) store_back_def)
    moreover have "standing_hold (cw_hitl w) s \<longrightarrow> cm_status m \<noteq> DeliveredMsg"
      using standing_hold_held [OF w1(1)] m(1) by simp
    moreover have "cm_status m \<noteq> DeliveredMsg \<longrightarrow> cv_consecutive ?s = cv_consecutive s" using sel(10) by simp
    ultimately show ?thesis using s sel(1, 2) by blast
  next
    case refused
    have fs: "cw_fs (store_back env s' w2) = cw_fs (store_back env s' w)" if "cw_fs w2 = cw_fs w" for s' w2
      using that by (simp add: store_back_def)
    consider "cw_fs w' = cw_fs w"
      | s r w2 where "get_conversation env (sp_conversation p) (cw_fs w) = Inr s" "cw_fs w2 = cw_fs w"
          "w' = store_back env (append_message (ce_config env) m r s) w2"
      using refused(1) by (auto simp: refused_def)
    then show ?thesis
    proof cases
      case (2 s r w2)
      let ?s = "append_message (ce_config env) m r s"
      have "cw_fs w' = cw_fs (store_back env ?s w)" using 2(3) fs [OF 2(2)] by simp
      moreover have "map cm_status (cv_messages ?s) = map cm_status (cv_messages s) @ [cm_status m]"
        "cv_id ?s = cv_id s" "cv_consecutive ?s = cv_consecutive s" "cm_status m \<noteq> DeliveredMsg"
        using refused(1) by (simp_all add: refused_def)
      ultimately show ?thesis using 2(1) by blast
    qed simp
  qed
qed

lemma send_checked_engine:
  assumes "send_checked env ci p s ts w = (w', x)"
  shows "triggers (cw_hitl w') = triggers (cw_hitl w) \<and> hconfig (cw_hitl w') = hconfig (cw_hitl w)"
proof -
  obtain ds md where md: "mediate env (cw_affinity w) (sp_from p) ts = (ds, md)" by fastforce
  obtain w1 y where w1: "run_pipeline env ci s p ds w = (w1, y)" by fastforce
  have "cw_hitl w' = cw_hitl w1"
  proof (cases y)
    case (Inl e)
    then show ?thesis using assms md w1 by (simp add: send_checked_def)
  next
    case (Inr r)
    obtain w2 z where w2: "handoff_step env ci p ds md w1 = (w2, z)" by fastforce
    note h = handoff_step_frame(3) [OF w2]
    show ?thesis
    proof (cases z)
      case (Inl e)
      then show ?thesis using assms md w1 Inr w2 h by (simp add: send_checked_def Let_def split: if_splits) auto
    next
      case z: (Inr v)
      obtain ho reasons where v: "v = (ho, reasons)" by fastforce
      have "cw_hitl (fst (finish_message env ci p s ts ds md r ho w2)) = cw_hitl w2"
        by (simp add: finish_message_def Let_def)
      then show ?thesis
        using assms md w1 Inr w2 z v h
        by (simp add: send_checked_def Let_def split: if_splits prod.splits) auto
    qed
  qed
  then show ?thesis using run_pipeline_engine [OF w1] by simp
qed

lemma send_hitl_frame:
  assumes "send_message env ci p w = (w', x)"
  shows "triggers (cw_hitl w') = triggers (cw_hitl w) \<and> hconfig (cw_hitl w') = hconfig (cw_hitl w)"
  using assms unfolding send_message_def
  by (cases "get_conversation env (sp_conversation p) (cw_fs w)")
    (simp_all split: if_splits sum.splits, auto dest: send_checked_engine)

text \<open>The brake on challenges: its trigger is enabled and stops the conversation.\<close>

definition stops :: "hitl_engine \<Rightarrow> string \<Rightarrow> bool" where
  "stops e i \<longleftrightarrow>
     (case List.find (\<lambda>t. tr_id t = i \<and> tr_enabled t) (triggers e) of
        Some t \<Rightarrow> tr_action t = Pause \<or> tr_action t = Require_approval
      | None \<Rightarrow> False)"

lemma stops_fire:
  assumes "stops e i"
  shows "held_back (build_result (fire e i r))"
proof -
  obtain t where "List.find (\<lambda>t. tr_id t = i \<and> tr_enabled t) (triggers e) = Some t"
      "tr_action t = Pause \<or> tr_action t = Require_approval"
    using assms by (auto simp: stops_def split: option.splits)
  then show ?thesis by (auto simp: fire_def held_back_severity build_result_fields worse_action_def)
qed

lemma challenges_hold:
  assumes "stops e ''consecutive_challenges''" "consecutive_challenge_limit (hconfig e) \<le> int (cv_consecutive s)"
  shows "standing_hold e s"
proof -
  let ?f = "fire e ''consecutive_challenges'' (ConsecutiveChallenges (int (cv_consecutive s)) (consecutive_challenge_limit (hconfig e)))"
  have "set ?f \<subseteq> set (hc_matched (check_conversation_state (signals_of s) e))"
    using assms(2) by (simp add: check_conversation_state_def Let_def build_result_fields signals_of_def)
  from held_back_mono [OF this stops_fire [OF assms(1)]] show ?thesis
    unfolding standing_hold_def by (metis check_conversation_state_result)
qed

lemma injection_holds:
  assumes "stops e ''injection_block''" "x \<in> set (cv_scores s)" "injection_approval_threshold (hconfig e) \<le> x"
  shows "standing_hold e s"
proof -
  let ?f = "fire e ''injection_block'' (MaxInjection (max_score (cv_scores s)))"
  have "injection_approval_threshold (hconfig e) \<le> max_score (cv_scores s)"
    using assms(2, 3) max_score_ge order_trans by blast
  then have "set ?f \<subseteq> set (hc_matched (check_conversation_state (signals_of s) e))"
    by (auto simp add: check_conversation_state_def Let_def build_result_fields signals_of_def)
  from held_back_mono [OF this stops_fire [OF assms(1)]] show ?thesis
    unfolding standing_hold_def by (metis check_conversation_state_result)
qed

text \<open>A conversation that a standing number of challenges keeps stopped, through any run.\<close>

definition filed :: "conversation_env \<Rightarrow> conversation_world \<Rightarrow> bool" where
  "filed env w \<longleftrightarrow> (\<forall>j s. get_conversation env j (cw_fs w) = Inr s \<longrightarrow> cv_id s = j)"

definition frozen ::
  "conversation_env \<Rightarrow> string \<Rightarrow> nat \<Rightarrow> message_status list \<Rightarrow> conversation_world \<Rightarrow> bool" where
  "frozen env i n base w \<longleftrightarrow> filed env w \<and> stops (cw_hitl w) ''consecutive_challenges'' \<and>
     consecutive_challenge_limit (hconfig (cw_hitl w)) \<le> int n \<and>
     (\<exists>s sts. get_conversation env i (cw_fs w) = Inr s \<and> cv_consecutive s = n \<and>
        map cm_status (cv_messages s) = base @ sts \<and> DeliveredMsg \<notin> set sts)"

lemma filed_store_back: "filed env w \<Longrightarrow> cw_fs w' = cw_fs (store_back env s w) \<Longrightarrow> filed env w'"
  by (auto simp: filed_def get_conversation_store_back)

lemma frozen_store_back:
  assumes "frozen env i n base w" "cw_fs w' = cw_fs (store_back env s' w)"
    and "triggers (cw_hitl w') = triggers (cw_hitl w)" "hconfig (cw_hitl w') = hconfig (cw_hitl w)"
    and "cv_id s' = i \<Longrightarrow> cv_consecutive s' = n \<and>
      (\<exists>sts. map cm_status (cv_messages s') = base @ sts \<and> DeliveredMsg \<notin> set sts)"
  shows "frozen env i n base w'"
  using assms filed_store_back [OF _ assms(2)]
  by (auto simp: frozen_def stops_def get_conversation_store_back)

lemma frozen_same:
  "frozen env i n base w \<Longrightarrow> cw_fs w' = cw_fs w \<Longrightarrow> triggers (cw_hitl w') = triggers (cw_hitl w) \<Longrightarrow>
     hconfig (cw_hitl w') = hconfig (cw_hitl w) \<Longrightarrow> frozen env i n base w'"
  by (auto simp: frozen_def filed_def stops_def)

text \<open>The operations that do not start the conversation anew.\<close>

fun restarts :: "string \<Rightarrow> conversation_op \<Rightarrow> bool" where
  "restarts i (StartOp ci p) \<longleftrightarrow> nullish (st_conversation p) (ci_conversation_id ci) = i"
| "restarts i _ \<longleftrightarrow> False"

lemma frozen_send:
  assumes "frozen env i n base w"
  shows "frozen env i n base (fst (send_message env ci p w))"
proof (cases "send_message env ci p w")
  case (Pair w' x)
  have h: "triggers (cw_hitl w') = triggers (cw_hitl w)" "hconfig (cw_hitl w') = hconfig (cw_hitl w)"
    using send_hitl_frame [OF Pair] by auto
  from send_effect [OF Pair] show ?thesis
  proof (elim disjE exE conjE)
    assume "cw_fs w' = cw_fs w"
    then show ?thesis using frozen_same [OF assms _ h] Pair by simp
  next
    fix s s' st
    assume s: "get_conversation env (sp_conversation p) (cw_fs w) = Inr s" "cw_fs w' = cw_fs (store_back env s' w)"
      and id: "cv_id s' = cv_id s"
      and st: "map cm_status (cv_messages s') = map cm_status (cv_messages s) @ [st]"
        "st \<noteq> DeliveredMsg \<longrightarrow> cv_consecutive s' = cv_consecutive s"
        "standing_hold (cw_hitl w) s \<longrightarrow> st \<noteq> DeliveredMsg"
    have "cv_consecutive s' = n \<and> (\<exists>sts. map cm_status (cv_messages s') = base @ sts \<and> DeliveredMsg \<notin> set sts)"
      if "cv_id s' = i"
    proof -
      have "get_conversation env i (cw_fs w) = Inr s"
        using assms s(1) id that by (auto simp: frozen_def filed_def)
      then obtain sts where sts: "cv_consecutive s = n" "map cm_status (cv_messages s) = base @ sts" "DeliveredMsg \<notin> set sts"
        using assms by (auto simp: frozen_def)
      have "standing_hold (cw_hitl w) s"
        using assms sts(1) by (intro challenges_hold) (auto simp: frozen_def)
      then show ?thesis using st sts by auto
    qed
    from frozen_store_back [OF assms s(2) h this] show ?thesis using Pair by simp
  qed
qed

lemma frozen_op:
  assumes "frozen env i n base w" "\<not> restarts i q"
  shows "frozen env i n base (run_conversation_op env q w)"
proof (cases q)
  case (StartOp ci p)
  show ?thesis
  proof (cases "filter (\<lambda>a. a \<noteq> []) (js_unique (st_participants p)) = []")
    case True
    then show ?thesis using assms(1) StartOp by (simp add: start_conversation_def)
  next
    case False
    then have "\<exists>s. run_conversation_op env q w = store_back env s w \<and> cv_id s \<noteq> i"
      using assms(2) StartOp by (auto simp: start_conversation_def Let_def store_back_def)
    then show ?thesis using frozen_store_back [OF assms(1)] by (metis store_back_sel(2))
  qed
next
  case (SendOp ci p)
  then show ?thesis using frozen_send [OF assms(1)] by simp
next
  case (JoinOp ci j a)
  show ?thesis
  proof (cases "get_conversation env j (cw_fs w)")
    case (Inr s)
    then have "\<exists>s'. run_conversation_op env q w = store_back env s' w \<and> cv_id s' = cv_id s \<and>
        cv_consecutive s' = cv_consecutive s \<and> cv_messages s' = cv_messages s"
      using JoinOp by (intro exI [of _ "(refresh_affinity env (cw_affinity w) (if a \<in> set (cv_participants s) then s
          else s\<lparr>cv_participants := cv_participants s @ [a]\<rparr>))\<lparr>cv_updated := ci_at ci 0\<rparr>"])
        (simp add: add_participant_def Let_def)
    then obtain s' where s': "run_conversation_op env q w = store_back env s' w" "cv_id s' = cv_id s"
        "cv_consecutive s' = cv_consecutive s" "cv_messages s' = cv_messages s" by blast
    then show ?thesis
      using assms(1) Inr unfolding s'(1)
      by (intro frozen_store_back [OF assms(1) refl]) (auto simp: frozen_def filed_def)
  qed (use assms JoinOp in \<open>simp add: add_participant_def\<close>)
next
  case (StatusOp ci j st why)
  show ?thesis
  proof (cases "get_conversation env j (cw_fs w)")
    case (Inr s)
    then have "run_conversation_op env q w =
        store_back env (s\<lparr>cv_status := st, cv_status_reason := GivenReason why, cv_updated := ci_at ci 0\<rparr>) w"
      using StatusOp by (simp add: set_conversation_status_def Let_def)
    then show ?thesis
      using assms(1) Inr
      by (simp only:) (intro frozen_store_back [OF assms(1) refl]; auto simp: frozen_def filed_def)
  qed (use assms StatusOp in \<open>simp add: set_conversation_status_def\<close>)
qed

lemma frozen_run:
  "frozen env i n base w \<Longrightarrow> list_all (\<lambda>q. \<not> restarts i q) ops \<Longrightarrow> frozen env i n base (run_conversations env ops w)"
  by (induction ops arbitrary: w) (auto simp: run_conversations_def frozen_op)

section \<open>Properties\<close>

text \<open>
  C2: A delivered message has passed every check. Its conversation was open (only the system may
  speak in a paused one) and it was the sender's turn; the sanitized message was well formed, the
  rate limits had room, HITL did not hold it; and what an agent says reaches another agent directly
  only over a valid handoff and, unless the mediator is among the recipients, with an affinity of at
  least the threshold: otherwise the mediator alone gets it.
\<close>

theorem deliveries_pass_every_check:
  assumes "send_message env ci p w = (w', Inr m)" "cm_status m = DeliveredMsg"
  shows "\<exists>s ts r w1. get_conversation env (sp_conversation p) (cw_fs w) = Inr s \<and>
     cv_status s \<noteq> ClosedConv \<and> (cv_status s = ActiveConv \<or> sp_from p = ''system'') \<and>
     (\<not> cf_enforce_turns (ce_config env) \<or> sp_override_turn p \<or> sp_from p \<in> {''user'', ''system'', cv_turn s}) \<and>
     resolve_recipients env p (cv_participants s) = Inr ts \<and>
     run_pipeline env ci s p (cm_delivered_to m) w = (w1, Inr r) \<and>
     sn_structure_valid (pr_sanitized r) \<and> rl_allowed (pr_rate r) \<and> hc_action (pr_hitl r) \<in> {Continue, Notify} \<and>
     cm_content m = sn_content (pr_sanitized r) \<and>
     (sp_from p \<in> {''user'', ''system''} \<or>
      cm_delivered_to m = [cf_mediator (ce_config env)] \<or>
      cm_delivered_to m = ts \<and> list_all (reachable_agent env p) (agents_of ts) \<and>
      (cf_mediator (ce_config env) \<in> set ts \<or>
       list_all (\<lambda>a. cf_mediation_threshold (ce_config env) \<le> get_affinity (ce_affinity env) (cw_affinity w) (sp_from p) a)
         (agents_of ts)))"
  using assms(1)
proof (cases rule: send_message_cases)
  case (finished s ts ds md r h w2)
  have m: "m = final_message ci p s ts ds md r h" by (rule finish_messageE(1) [OF finished(2)])
  from finished(1) obtain w1 where "run_pipeline env ci s p ds w = (w1, Inr r)"
      "handoff_step env ci p ds md w1 = (w2, Inr (h, []))"
      "mediate env (cw_affinity w) (sp_from p) ts = (ds, md)"
    by (auto simp: passed_def)
  moreover have "hc_action (pr_hitl r) \<in> {Continue, Notify}" "cm_delivered_to m = ds" "cm_content m = sn_content (pr_sanitized r)"
    using assms(2) by (auto simp: m held_back_def split: if_splits) (metis hitl_action.exhaust)
  moreover have "\<not> cf_enforce_turns (ce_config env) \<or> sp_override_turn p \<or> sp_from p \<in> {''user'', ''system'', cv_turn s}"
    using finished(1) by (auto simp: passed_def out_of_turn_def)
  ultimately show ?thesis
    using finished(1) handoff_step_passes [of env "cw_affinity w" p ts ds md ci w1 w2 h]
    unfolding passed_def by blast
qed (use assms(2) in \<open>simp add: refused_def\<close>)

text \<open>
  Conversations stay consistent. From an empty store, whatever conversations are started,
  joined, held, released and talked in, with fresh message ids, every stored conversation is filed
  under its id; its counter, its last fifty injection scores and its token count agree with its
  messages, its challenges are deliveries, nobody takes part twice, and its summaries cover a
  beginning of its messages, each of them once.
\<close>

theorem conversations_stay_consistent:
  assumes "cw_fs w = []" "distinct (concat (map op_message_ids ops))"
    and "get_conversation env i (cw_fs (run_conversations env ops w)) = Inr s"
  shows "cv_id s = i \<and> consistent s"
proof -
  have "world_consistent env [] w"
    using assms(1) by (simp add: world_consistent_def get_conversation_def load_conversation_def)
  from run_conversations_consistent [OF this assms(2)] show ?thesis
    using world_consistentD [OF _ assms(3)] by auto
qed

text \<open>
  The brake on challenges never comes off. Once a conversation has seen the limit of consecutive
  challenges, and the trigger for it is enabled, no message is delivered in it any more, by anyone,
  whatever is done: the count only goes back with a delivery, and setting the status to active
  changes nothing about it.
\<close>

theorem challenge_limit_locks_the_conversation:
  assumes "filed env w" "get_conversation env i (cw_fs w) = Inr s"
    and "stops (cw_hitl w) ''consecutive_challenges''"
    and "consecutive_challenge_limit (hconfig (cw_hitl w)) \<le> int (cv_consecutive s)"
    and "list_all (\<lambda>q. \<not> restarts i q) ops"
  shows "\<exists>s' sts. get_conversation env i (cw_fs (run_conversations env ops w)) = Inr s' \<and>
     map cm_status (cv_messages s') = map cm_status (cv_messages s) @ sts \<and> DeliveredMsg \<notin> set sts \<and>
     cv_consecutive s' = cv_consecutive s"
proof -
  have "frozen env i (cv_consecutive s) (map cm_status (cv_messages s)) w"
    using assms(1-4) by (simp add: frozen_def)
  from frozen_run [OF this assms(5)] show ?thesis by (auto simp: frozen_def)
qed

text \<open>
  An approval does not let the conversation go on after an injection. As long as a score over the
  approval threshold is among the last fifty, setting the status to active is followed by another
  hold: the next message, of whomever, is not delivered.
\<close>

theorem approval_does_not_lift_the_hold:
  assumes "get_conversation env i (cw_fs w) = Inr s" "cv_id s = i" "x \<in> set (cv_scores s)"
    and "stops (cw_hitl w) ''injection_block''" "injection_approval_threshold (hconfig (cw_hitl w)) \<le> x"
    and "sp_conversation p = i"
    and "send_message env ci' p (fst (set_conversation_status env ci i ActiveConv why w)) = (w', Inr m)"
  shows "cm_status m \<noteq> DeliveredMsg"
proof -
  let ?s = "s\<lparr>cv_status := ActiveConv, cv_status_reason := GivenReason why, cv_updated := ci_at ci 0\<rparr>"
  have w: "fst (set_conversation_status env ci i ActiveConv why w) = store_back env ?s w"
    using assms(1) by (simp add: set_conversation_status_def Let_def)
  have s: "get_conversation env (sp_conversation p) (cw_fs (store_back env ?s w)) = Inr ?s"
    using assms(2, 6) by (simp add: get_conversation_store_back)
  have hold: "standing_hold (cw_hitl (store_back env ?s w)) ?s"
    using assms(3-5) by (intro injection_holds) auto
  from assms(7) [unfolded w] show ?thesis
  proof (cases rule: send_message_cases)
    case (finished s2 ts ds md r h w2)
    then obtain w1 where "run_pipeline env ci' ?s p ds (store_back env ?s w) = (w1, Inr r)"
      using s by (auto simp: passed_def)
    from standing_hold_held [OF this hold] finish_messageE(1) [OF finished(2)] show ?thesis by simp
  qed (simp add: refused_def)
qed

text \<open>
  A conversation can be lost while it is saved. The store writes the file in place: between the
  two halves of the write the conversation cannot be read, neither the old state nor the new one,
  where the store of the missions always has one of them.
\<close>

theorem conversation_save_is_not_crash_atomic:
  "load_conversation dir (fs_run (take 1 (conversation_save_ops dir s)) fs) (cv_id s) = Inl unreadable \<and>
   load_conversation dir (fs_run (conversation_save_ops dir s) fs) (cv_id s) = Inr (Some s)"
  by (simp add: load_conversation_def conversation_save_ops_def fs_run_def Let_def)

text \<open>
  The mediator talks to itself. A message of the mediator to agents with which its own affinity is
  below the threshold is rerouted to the mediator: it is the one who gets it.
\<close>

theorem mediator_talks_to_itself:
  assumes "send_message env ci p w = (w', Inr m)" "cm_status m = DeliveredMsg" "sp_to p = ToMany ts"
    and "sp_from p = cf_mediator (ce_config env)" "sp_from p \<notin> {''user'', ''system''}" "agents_of ts \<noteq> []"
    and "sp_from p \<notin> set ts"
    and "lowest_affinity env (cw_affinity w) (sp_from p) (agents_of ts) < cf_mediation_threshold (ce_config env)"
  shows "cm_delivered_to m = [sp_from p]"
  using assms(1)
proof (cases rule: send_message_cases)
  case (finished s ts' ds md r h w2)
  then have "ts' = ts" using assms(3) by (auto simp: passed_def resolve_recipients_def)
  moreover have "cf_mediator (ce_config env) \<notin> set (agents_of ts)" using assms(4, 7) by (auto simp: agents_of_def)
  ultimately have "ds = [sp_from p]"
    using finished(1) assms(4-6,8) by (auto simp: passed_def mediate_def Let_def)
  then show ?thesis using finish_messageE(1) [OF finished(2)] by simp
qed (use assms(2) in \<open>simp add: refused_def\<close>)

end
