(* ===== verification/Conversation_Samples.thy ===== *)
theory Conversation_Samples
  imports Conversation_Correct
begin

text \<open>Concrete conversations at which the properties of the conversation engine apply.\<close>

definition sample_sanitize :: "string \<Rightarrow> string list \<Rightarrow> string \<Rightarrow> sanitized_message" where
  "sample_sanitize from to c = \<lparr>sn_content = c, sn_injection = (if c = ''evil'' then 8 / 10 else 0),
     sn_structure_valid = True, sn_structure_errors = [], sn_modified = False, sn_redactions = 0\<rparr>"

definition sample_conv_env :: conversation_env where
  "sample_conv_env = \<lparr>ce_dir = ''d'', ce_config = default_conversation_config, ce_affinity = default_affinity_config,
     ce_sanitize = sample_sanitize, ce_heuristics = (\<lambda>_ _. Inr []), ce_voice = (\<lambda>_. []),
     ce_cards = (\<lambda>i. Inr (sample_card i)), ce_ajv = (\<lambda>_ _. AjvValid), ce_show = (\<lambda>_. ''?''),
     ce_summarize = heuristic_summary\<rparr>"

definition sample_inputs :: "string \<Rightarrow> int \<Rightarrow> call_inputs" where
  "sample_inputs i t = \<lparr>ci_conversation_id = ''c'', ci_message_id = i, ci_summary_id = ''s'' @ i, ci_at = (\<lambda>n. t),
     ci_alert_clock = (\<lambda>n. (t, t)), ci_sql_now = t\<rparr>"

definition sample_send :: "string \<Rightarrow> string \<Rightarrow> string \<Rightarrow> send_params" where
  "sample_send from to c = \<lparr>sp_conversation = ''c'', sp_from = from, sp_to = ToMany [to], sp_content = c,
     sp_payload = None, sp_challenge = False, sp_override_turn = False\<rparr>"

definition sample_start :: start_params where
  "sample_start = \<lparr>st_conversation = None, st_participants = [''aria'', ''zed''], st_turn = None,
     st_token_budget = None, st_metadata = None\<rparr>"

definition empty_conv_world :: conversation_world where
  "empty_conv_world = \<lparr>cw_fs = [], cw_limiter = new_rate_limiter default_config [],
     cw_hitl = new_hitl_engine default_hitl_config None, cw_affinity = sample_db\<rparr>"

definition started_world :: conversation_world where
  "started_world = fst (start_conversation sample_conv_env (sample_inputs ''m0'' 0) sample_start empty_conv_world)"

definition first_send :: "conversation_world \<times> (thrown + conversation_message)" where
  "first_send = send_message sample_conv_env (sample_inputs ''m1'' 1000) (sample_send ''aria'' ''zed'' ''hi'') started_world"

lemma first_send_ok: "isl (snd first_send) = False \<and> cm_status (projr (snd first_send)) = DeliveredMsg"
  by code_simp

lemma sent_eq:
  "isl (snd z) = False \<Longrightarrow> z = (fst z, Inr (projr (snd z)))"
  by (cases z; cases "snd z") auto

theorem deliveries_pass_every_check_witness:
  "cm_status (projr (snd first_send)) = DeliveredMsg \<and>
   (\<exists>s r w1. cv_status s = ActiveConv \<and> cv_turn s = ''aria'' \<and>
      run_pipeline sample_conv_env (sample_inputs ''m1'' 1000) s (sample_send ''aria'' ''zed'' ''hi'')
        (cm_delivered_to (projr (snd first_send))) started_world = (w1, Inr r) \<and>
      rl_allowed (pr_rate r) \<and> hc_action (pr_hitl r) \<in> {Continue, Notify})"
proof -
  have "send_message sample_conv_env (sample_inputs ''m1'' 1000) (sample_send ''aria'' ''zed'' ''hi'') started_world =
      (fst first_send, Inr (projr (snd first_send)))"
    using sent_eq [of first_send] first_send_ok by (simp add: first_send_def)
  from deliveries_pass_every_check [OF this] first_send_ok
  show ?thesis by (force simp: sample_send_def sample_conv_env_def default_conversation_config_def)
qed

definition sample_conv_run :: "conversation_op list" where
  "sample_conv_run = [StartOp (sample_inputs ''m0'' 0) sample_start,
     SendOp (sample_inputs ''m1'' 1000) (sample_send ''aria'' ''zed'' ''hi''),
     SendOp (sample_inputs ''m2'' 2000) (sample_send ''zed'' ''aria'' ''evil''),
     StatusOp (sample_inputs ''m3'' 3000) ''c'' ActiveConv None]"

definition sample_end :: "thrown + conversation_state" where
  "sample_end = get_conversation sample_conv_env ''c'' (cw_fs (run_conversations sample_conv_env sample_conv_run empty_conv_world))"

lemma sample_end_ok: "isl sample_end = False \<and> map cm_status (cv_messages (projr sample_end)) = [DeliveredMsg, BlockedMsg]"
  by code_simp

theorem conversations_stay_consistent_witness: "consistent (projr sample_end) \<and> cv_id (projr sample_end) = ''c''"
proof -
  have "get_conversation sample_conv_env ''c'' (cw_fs (run_conversations sample_conv_env sample_conv_run empty_conv_world)) =
      Inr (projr sample_end)"
    using sample_end_ok by (cases sample_end) (auto simp: sample_end_def)
  moreover have "cw_fs empty_conv_world = []" by (simp add: empty_conv_world_def)
  moreover have "distinct (concat (map op_message_ids sample_conv_run))" by code_simp
  ultimately show ?thesis using conversations_stay_consistent [of empty_conv_world sample_conv_run sample_conv_env] by simp
qed

text \<open>A stored conversation with some signals, in a world of its own.\<close>

definition sample_state :: "nat \<Rightarrow> rat list \<Rightarrow> conversation_state" where
  "sample_state n scores = (projr (snd (start_conversation sample_conv_env (sample_inputs ''m0'' 0) sample_start empty_conv_world)))
     \<lparr>cv_consecutive := n, cv_challenge_count := n, cv_scores := scores\<rparr>"

definition sample_conv_world :: "nat \<Rightarrow> rat list \<Rightarrow> conversation_world" where
  "sample_conv_world n scores = store_back sample_conv_env (sample_state n scores) empty_conv_world"

lemma sample_state_id [simp]: "cv_id (sample_state n scores) = ''c''" "cv_consecutive (sample_state n scores) = n"
  "cv_scores (sample_state n scores) = scores"
proof -
  have "cv_id (projr (snd (start_conversation sample_conv_env (sample_inputs ''m0'' 0) sample_start empty_conv_world))) = ''c''"
    by code_simp
  then show "cv_id (sample_state n scores) = ''c''" by (simp add: sample_state_def)
qed (simp_all add: sample_state_def)

lemma sample_world_get:
  "get_conversation sample_conv_env ''c'' (cw_fs (sample_conv_world n scores)) = Inr (sample_state n scores)"
  "filed sample_conv_env (sample_conv_world n scores)"
proof -
  show "get_conversation sample_conv_env ''c'' (cw_fs (sample_conv_world n scores)) = Inr (sample_state n scores)"
    by (simp add: sample_conv_world_def get_conversation_store_back)
  have "filed sample_conv_env empty_conv_world"
    by (simp add: filed_def get_conversation_def load_conversation_def empty_conv_world_def)
  from filed_store_back [OF this] show "filed sample_conv_env (sample_conv_world n scores)"
    by (simp add: sample_conv_world_def)
qed

lemma sample_world_hitl: "cw_hitl (sample_conv_world n scores) = new_hitl_engine default_hitl_config None"
  by (simp add: sample_conv_world_def empty_conv_world_def)

lemma builtin_stops:
  "stops (new_hitl_engine default_hitl_config None) ''consecutive_challenges''"
  "stops (new_hitl_engine default_hitl_config None) ''injection_block''"
  by code_simp+

theorem challenge_limit_locks_the_conversation_witness:
  "\<exists>s' sts. get_conversation sample_conv_env ''c'' (cw_fs (run_conversations sample_conv_env
       [StatusOp (sample_inputs ''m1'' 5) ''c'' ActiveConv None,
        SendOp (sample_inputs ''m2'' 9) (sample_send ''aria'' ''zed'' ''hi'')] (sample_conv_world 3 []))) = Inr s' \<and>
     map cm_status (cv_messages s') = map cm_status (cv_messages (sample_state 3 [])) @ sts \<and>
     DeliveredMsg \<notin> set sts \<and> cv_consecutive s' = 3"
proof -
  have "consecutive_challenge_limit (hconfig (cw_hitl (sample_conv_world 3 []))) \<le> int (cv_consecutive (sample_state 3 []))"
    by (simp add: sample_world_hitl new_hitl_engine_def default_hitl_config_def)
  moreover have "stops (cw_hitl (sample_conv_world 3 [])) ''consecutive_challenges''"
    by (simp add: sample_world_hitl builtin_stops)
  moreover have "list_all (\<lambda>q. \<not> restarts ''c'' q) [StatusOp (sample_inputs ''m1'' 5) ''c'' ActiveConv None,
        SendOp (sample_inputs ''m2'' 9) (sample_send ''aria'' ''zed'' ''hi'')]" by simp
  ultimately show ?thesis
    using challenge_limit_locks_the_conversation [OF sample_world_get(2) sample_world_get(1)] by fastforce
qed

definition resumed_send :: "conversation_world \<times> (thrown + conversation_message)" where
  "resumed_send = send_message sample_conv_env (sample_inputs ''m2'' 9) (sample_send ''aria'' ''zed'' ''hi'')
     (fst (set_conversation_status sample_conv_env (sample_inputs ''m1'' 5) ''c'' ActiveConv None (sample_conv_world 0 [8 / 10])))"

theorem approval_does_not_lift_the_hold_witness: "cm_status (projr (snd resumed_send)) \<noteq> DeliveredMsg"
proof -
  have "isl (snd resumed_send) = False" by code_simp
  from sent_eq [OF this] have sent: "send_message sample_conv_env (sample_inputs ''m2'' 9) (sample_send ''aria'' ''zed'' ''hi'')
     (fst (set_conversation_status sample_conv_env (sample_inputs ''m1'' 5) ''c'' ActiveConv None (sample_conv_world 0 [8 / 10]))) =
     (fst resumed_send, Inr (projr (snd resumed_send)))"
    by (simp only: resumed_send_def)
  have stops: "stops (cw_hitl (sample_conv_world 0 [8 / 10])) ''injection_block''"
    by (simp add: sample_world_hitl builtin_stops)
  have top: "injection_approval_threshold (hconfig (cw_hitl (sample_conv_world 0 [8 / 10]))) \<le> 8 / 10"
    by (simp add: sample_world_hitl new_hitl_engine_def default_hitl_config_def)
  have score: "(8 / 10 :: rat) \<in> set (cv_scores (sample_state 0 [8 / 10]))" by simp
  have to: "sp_conversation (sample_send ''aria'' ''zed'' ''hi'') = ''c''" by (simp add: sample_send_def)
  show ?thesis
    by (rule approval_does_not_lift_the_hold [OF sample_world_get(1) sample_state_id(1) score stops top to sent])
qed

definition wary_env :: conversation_env where
  "wary_env = sample_conv_env\<lparr>ce_config := default_conversation_config\<lparr>cf_mediation_threshold := 8 / 10\<rparr>\<rparr>"

definition mediator_send :: "conversation_world \<times> (thrown + conversation_message)" where
  "mediator_send = send_message wary_env (sample_inputs ''m1'' 9)
     (sample_send ''echo'' ''zed'' ''hi'' \<lparr>sp_override_turn := True\<rparr>) started_world"

theorem mediator_talks_to_itself_witness: "cm_delivered_to (projr (snd mediator_send)) = [''echo'']"
proof -
  let ?p = "sample_send ''echo'' ''zed'' ''hi'' \<lparr>sp_override_turn := True\<rparr>"
  have ok: "isl (snd mediator_send) = False \<and> cm_status (projr (snd mediator_send)) = DeliveredMsg" by code_simp
  then have sent: "send_message wary_env (sample_inputs ''m1'' 9) ?p started_world =
      (fst mediator_send, Inr (projr (snd mediator_send)))"
    using sent_eq [of mediator_send] by (simp add: mediator_send_def)
  have p: "sp_to ?p = ToMany [''zed'']" "sp_from ?p = ''echo''" by (simp_all add: sample_send_def)
  have low: "lowest_affinity wary_env (cw_affinity started_world) ''echo'' (agents_of [''zed'']) <
      cf_mediation_threshold (ce_config wary_env)" by code_simp
  have med: "cf_mediator (ce_config wary_env) = ''echo''" "agents_of [''zed''] \<noteq> []" by code_simp+
  show ?thesis
    using mediator_talks_to_itself [OF sent _ p(1)] ok low med unfolding p(2) by simp
qed

end
