(* ===== verification/Model_Router.thy ===== *)
theory Model_Router
  imports Prelude Complex_Main
begin

text \<open>
  The model router: \<open>lib/model-router.ts\<close> with its parts \<open>-constants\<close>, \<open>-fallback\<close>, \<open>-policy\<close>,
  \<open>-scoring\<close>, \<open>-security\<close> and \<open>-trackers\<close>. A request is classified by risk, the tier bounds are
  resolved and restricted by the quota, the models are filtered and scored, and the best one is
  chosen, or the fallback is taken. Numbers are rationals (the sources compute in doubles), the
  clock is an argument, and the log output is left out.
\<close>

section \<open>Data\<close>

datatype model_provider = OpenAI | Anthropic

datatype model_status = Available | Degraded | Unavailable

datatype task_complexity = SimpleTask | MediumTask | ComplexTask

datatype time_sensitivity = Urgent | Normal | Batch

datatype routing_risk = LowRisk | MediumRisk | HighRisk

datatype routing_priority = RouteHigh | RouteMedium | RouteLow

record model_definition =
  mo_id :: string
  mo_name :: string
  mo_provider :: model_provider
  mo_tier :: int
  mo_cost_in :: rat
  mo_cost_out :: rat
  mo_context :: int
  mo_status :: model_status
  mo_capabilities :: "string list"

record routing_request =
  rq_complexity :: task_complexity
  rq_time :: time_sensitivity
  rq_unit :: "string option"
  rq_priority :: "routing_priority option"
  rq_capabilities :: "string list option"
  rq_provider :: "model_provider option"
  rq_min_tier :: "int option"
  rq_max_tier :: "int option"
  rq_task_type :: "string option"
  rq_safety :: "bool option"
  rq_force :: "string option"
  rq_risk :: "routing_risk option"
  rq_sources :: "string list option"
  rq_external :: "bool option"
  rq_injection :: "rat option"
  rq_in_tokens :: "int option"
  rq_out_tokens :: "int option"

record score_breakdown =
  sb_complexity :: rat
  sb_quota :: rat
  sb_priority :: rat
  sb_time :: rat
  sb_performance :: rat
  sb_provider :: rat
  sb_capability :: rat

record security_metadata =
  sm_risk :: routing_risk
  sm_signals :: "string list"
  sm_injection :: bool
  sm_forced :: bool

record model_decision =
  dc_model :: model_definition
  dc_score :: rat
  dc_breakdown :: score_breakdown
  dc_tier :: int
  dc_downgraded :: bool
  dc_fallback_used :: bool
  dc_fallback_index :: int
  dc_warnings :: "string list"
  dc_reason :: string
  dc_decided_at :: int
  dc_security :: security_metadata

record quota_state =
  qs_total :: rat
  qs_used :: rat
  qs_resets_at :: string

record performance_record =
  pf_model :: string
  pf_task :: string
  pf_samples :: nat
  pf_latency :: rat
  pf_success :: rat
  pf_quality :: rat
  pf_updated_at :: int

record unit_override =
  uo_unit :: string
  uo_priority :: routing_priority
  uo_min_tier :: "int option"
  uo_max_tier :: "int option"
  uo_provider :: "model_provider option"
  uo_forced :: "string option"

record telemetry_entry =
  te_decided_at :: int
  te_risk :: routing_risk
  te_model :: string
  te_tier :: int
  te_cost :: rat
  te_baseline :: rat
  te_injection :: bool

record injection_event =
  ie_detected_at :: int
  ie_risk :: routing_risk
  ie_model :: string
  ie_score :: rat
  ie_signals :: "string list"

type_synonym quota_tracker = "(string, quota_state) jsmap"
type_synonym performance_tracker = "(string, performance_record) jsmap"

record model_router =
  mr_models :: "model_definition list"
  mr_overrides :: "(string, unit_override) jsmap"
  mr_threshold :: rat
  mr_enforce :: bool
  mr_injection_threshold :: rat
  mr_history_limit :: int
  mr_telemetry :: "telemetry_entry list"
  mr_injections :: "injection_event list"
  mr_quota :: quota_tracker
  mr_performance :: performance_tracker

fun provider_name :: "model_provider \<Rightarrow> string" where
  "provider_name OpenAI = ''openai''" | "provider_name Anthropic = ''anthropic''"

fun risk_name :: "routing_risk \<Rightarrow> string" where
  "risk_name LowRisk = ''low''" | "risk_name MediumRisk = ''medium''" | "risk_name HighRisk = ''high''"

fun complexity_name :: "task_complexity \<Rightarrow> string" where
  "complexity_name SimpleTask = ''simple''" | "complexity_name MediumTask = ''medium''"
| "complexity_name ComplexTask = ''complex''"

fun sensitivity_name :: "time_sensitivity \<Rightarrow> string" where
  "sensitivity_name Urgent = ''urgent''" | "sensitivity_name Normal = ''normal''"
| "sensitivity_name Batch = ''batch''"

section \<open>Constants\<close>

definition model_entry ::
  "string \<Rightarrow> string \<Rightarrow> model_provider \<Rightarrow> int \<Rightarrow> rat \<Rightarrow> rat \<Rightarrow> int \<Rightarrow> string list \<Rightarrow> model_definition" where
  "model_entry i n p t cin cout ctx caps =
     \<lparr>mo_id = i, mo_name = n, mo_provider = p, mo_tier = t, mo_cost_in = cin, mo_cost_out = cout,
      mo_context = ctx, mo_status = Available, mo_capabilities = caps\<rparr>"

definition default_models :: "model_definition list" where
  "default_models =
     [model_entry ''gpt-4o-mini'' ''GPT-4o Mini'' OpenAI 1 (15 / 100000) (6 / 10000) 128000
        [''chat'', ''code'', ''summarization'', ''classification''],
      model_entry ''claude-haiku'' ''Claude Haiku'' Anthropic 1 (25 / 100000) (125 / 100000) 200000
        [''chat'', ''code'', ''summarization'', ''classification''],
      model_entry ''gpt-4o'' ''GPT-4o'' OpenAI 2 (25 / 10000) (1 / 100) 128000
        [''chat'', ''code'', ''reasoning'', ''summarization'', ''classification'', ''vision''],
      model_entry ''claude-sonnet'' ''Claude Sonnet'' Anthropic 2 (3 / 1000) (15 / 1000) 200000
        [''chat'', ''code'', ''reasoning'', ''summarization'', ''classification'', ''vision''],
      model_entry ''o1'' ''o1'' OpenAI 3 (15 / 1000) (6 / 100) 200000
        [''chat'', ''code'', ''reasoning'', ''planning'', ''complex-analysis''],
      model_entry ''claude-opus'' ''Claude Opus'' Anthropic 3 (15 / 1000) (75 / 1000) 200000
        [''chat'', ''code'', ''reasoning'', ''planning'', ''complex-analysis'', ''vision'']]"

fun complexity_tier :: "task_complexity \<Rightarrow> int" where
  "complexity_tier SimpleTask = 1" | "complexity_tier MediumTask = 2" | "complexity_tier ComplexTask = 3"

fun complexity_points :: "task_complexity \<Rightarrow> rat" where
  "complexity_points SimpleTask = 10" | "complexity_points MediumTask = 50"
| "complexity_points ComplexTask = 100"

fun sensitivity_points :: "time_sensitivity \<Rightarrow> rat" where
  "sensitivity_points Urgent = 80" | "sensitivity_points Normal = 40" | "sensitivity_points Batch = 10"

fun priority_points :: "routing_priority \<Rightarrow> rat" where
  "priority_points RouteHigh = 100" | "priority_points RouteMedium = 50" | "priority_points RouteLow = 20"

fun priority_tier :: "routing_priority \<Rightarrow> int" where
  "priority_tier RouteHigh = 3" | "priority_tier RouteMedium = 2" | "priority_tier RouteLow = 1"

fun sensitivity_tier :: "time_sensitivity \<Rightarrow> int" where
  "sensitivity_tier Urgent = 3" | "sensitivity_tier Normal = 2" | "sensitivity_tier Batch = 1"

definition external_sources :: "string list" where
  "external_sources = [''external'', ''web'', ''email'', ''social'', ''url'', ''user_url'', ''browser'']"

section \<open>Quota tracker\<close>

definition set_quota :: "string \<Rightarrow> quota_state \<Rightarrow> quota_tracker \<Rightarrow> quota_tracker" where
  "set_quota k q t = js_set k q t"

definition get_usage :: "quota_tracker \<Rightarrow> string \<Rightarrow> rat" where
  "get_usage t k =
     (case js_get t k of
        None \<Rightarrow> 0
      | Some q \<Rightarrow> if qs_total q \<le> 0 then 0 else min 1 (qs_used q / qs_total q))"

definition is_over_threshold :: "quota_tracker \<Rightarrow> string \<Rightarrow> rat \<Rightarrow> bool" where
  "is_over_threshold t k threshold \<longleftrightarrow> threshold \<le> get_usage t k"

definition record_usage :: "string \<Rightarrow> rat \<Rightarrow> quota_tracker \<Rightarrow> quota_tracker" where
  "record_usage k amount t =
     (case js_get t k of
        None \<Rightarrow> t
      | Some q \<Rightarrow> js_set k (q\<lparr>qs_used := min (qs_total q) (qs_used q + amount)\<rparr>) t)"

definition is_exhausted :: "quota_tracker \<Rightarrow> string \<Rightarrow> bool" where
  "is_exhausted t k = (case js_get t k of None \<Rightarrow> False | Some q \<Rightarrow> qs_used q \<ge> qs_total q)"

definition reset_usage :: "string \<Rightarrow> quota_tracker \<Rightarrow> quota_tracker" where
  "reset_usage k t = (case js_get t k of None \<Rightarrow> t | Some q \<Rightarrow> js_set k (q\<lparr>qs_used := 0\<rparr>) t)"

text \<open>\<open>export\<close> and \<open>import\<close> copy the entries into and out of a plain object.\<close>

definition export_quotas :: "quota_tracker \<Rightarrow> (string \<times> quota_state) list" where
  "export_quotas t = foldl (\<lambda>r (k, v). js_set k v r) [] t"

definition import_quotas :: "(string \<times> quota_state) list \<Rightarrow> quota_tracker" where
  "import_quotas d = foldl (\<lambda>t (k, v). js_set k v t) [] d"

section \<open>Performance tracker\<close>

definition performance_key :: "string \<Rightarrow> string \<Rightarrow> string" where
  "performance_key m t = m @ ''::'' @ t"

definition blend :: "rat \<Rightarrow> rat \<Rightarrow> rat \<Rightarrow> rat" where
  "blend alpha old new = old * (1 - alpha) + new * alpha"

definition record_completion ::
  "int \<Rightarrow> string \<Rightarrow> string \<Rightarrow> rat \<Rightarrow> bool \<Rightarrow> rat \<Rightarrow> performance_tracker \<Rightarrow> performance_tracker" where
  "record_completion now m t latency success quality p =
     (let k = performance_key m t; s = (if success then 1 else 0) in
      case js_get p k of
        None \<Rightarrow> js_set k \<lparr>pf_model = m, pf_task = t, pf_samples = 1, pf_latency = latency, pf_success = s,
                         pf_quality = quality, pf_updated_at = now\<rparr> p
      | Some r \<Rightarrow>
          (let n = min (pf_samples r) 100; alpha = 2 / (of_nat n + 2) in
           js_set k (r\<lparr>pf_latency := blend alpha (pf_latency r) latency,
                       pf_success := blend alpha (pf_success r) s,
                       pf_quality := blend alpha (pf_quality r) quality,
                       pf_samples := pf_samples r + 1, pf_updated_at := now\<rparr>) p))"

definition performance_score :: "performance_tracker \<Rightarrow> string \<Rightarrow> string \<Rightarrow> rat" where
  "performance_score p m t =
     (case js_get p (performance_key m t) of
        None \<Rightarrow> 1 / 2
      | Some r \<Rightarrow>
          if pf_samples r < 3 then 1 / 2
          else (let latency = max 0 (1 - pf_latency r / 30000) in
                pf_quality r * (1 / 2) + pf_success r * (35 / 100) + latency * (15 / 100)))"

definition get_best_model :: "performance_tracker \<Rightarrow> string \<Rightarrow> string list \<Rightarrow> string option" where
  "get_best_model p t candidates =
     fst (foldl (\<lambda>(best, score) i.
                   let s = performance_score p i t in if s > score then (Some i, s) else (best, score))
            (None, - 1) candidates)"

definition import_performance :: "performance_record list \<Rightarrow> performance_tracker" where
  "import_performance rs = foldl (\<lambda>p r. js_set (performance_key (pf_model r) (pf_task r)) r p) [] rs"

section \<open>Threat classification\<close>

definition escalate_risk :: "routing_risk \<Rightarrow> routing_risk \<Rightarrow> routing_risk" where
  "escalate_risk level target =
     (if target = HighRisk then HighRisk
      else if target = MediumRisk \<and> level = LowRisk then MediumRisk else level)"

text \<open>The calls of \<open>escalateTo\<close> in their order: target level and signal.\<close>

definition risk_signals :: "routing_request \<Rightarrow> rat \<Rightarrow> (routing_risk \<times> string) list" where
  "risk_signals rq threshold =
     (let score = nullish (rq_injection rq) 0;
          task = to_lower (nullish (rq_task_type rq) []) in
      (if rq_external rq = Some True then [(HighRisk, ''containsExternalContent'')] else [])
      @ map (\<lambda>s. (HighRisk, ''contentSource:'' @ s))
          (filter (\<lambda>s. to_lower s \<in> set external_sources) (nullish (rq_sources rq) []))
      @ (if score \<ge> threshold then [(HighRisk, ''injectionScore:'' @ to_fixed 2 score)]
         else if score \<ge> 3 / 10 then [(MediumRisk, ''injectionScoreElevated:'' @ to_fixed 2 score)] else [])
      @ (if contains_text ''code'' task \<or> contains_text ''review'' task \<or> contains_text ''generation'' task
         then [(MediumRisk, ''taskType:'' @ nullish (rq_task_type rq) ''undefined'')] else [])
      @ (if list_ex (\<lambda>c. c \<in> set [''browser'', ''vision'']) (nullish (rq_capabilities rq) [])
         then [(HighRisk, ''untrusted-capability'')] else []))"

definition classify_security_risk :: "routing_request \<Rightarrow> rat \<Rightarrow> security_metadata" where
  "classify_security_risk rq threshold =
     \<lparr>sm_risk = foldl escalate_risk (nullish (rq_risk rq) LowRisk) (map fst (risk_signals rq threshold)),
      sm_signals = map snd (risk_signals rq threshold),
      sm_injection = (nullish (rq_injection rq) 0 \<ge> threshold), sm_forced = False\<rparr>"

section \<open>Tier bounds and quota policy\<close>

text \<open>A tier that is missing or 0 is falsy.\<close>

definition tier_set :: "int option \<Rightarrow> bool" where
  "tier_set x \<longleftrightarrow> num_or x (\<lambda>_. True) False"

definition override_field :: "unit_override option \<Rightarrow> (unit_override \<Rightarrow> 'a option) \<Rightarrow> 'a option" where
  "override_field u f = (case u of None \<Rightarrow> None | Some v \<Rightarrow> f v)"

definition resolve_effective_tiers :: "routing_request \<Rightarrow> unit_override option \<Rightarrow> int \<times> int" where
  "resolve_effective_tiers rq u =
     (let lo0 = nullish (rq_min_tier rq) 1;
          hi0 = nullish (rq_max_tier rq) 3;
          lo1 = num_or (override_field u uo_min_tier) (\<lambda>t. max lo0 t) lo0;
          hi1 = num_or (override_field u uo_max_tier) (\<lambda>t. min hi0 t) hi0;
          lo2 = (if rq_time rq = Urgent \<and> lo1 < 2 then 2 else lo1);
          lo3 = (if rq_complexity rq = ComplexTask \<and> lo2 < 2 then 2 else lo2);
          lo4 = (if rq_time rq = Batch \<and> \<not> tier_set (override_field u uo_min_tier) \<and> \<not> tier_set (rq_min_tier rq)
                 then 1 else lo3)
      in (lo4, hi1))"

record quota_restriction =
  qr_max_tier :: int
  qr_downgraded :: bool
  qr_warning :: "string option"

definition percent_text :: "rat \<Rightarrow> string" where
  "percent_text x = to_fixed 0 (x * 100) @ ''%''"

definition apply_quota_restrictions ::
  "routing_request \<Rightarrow> int \<Rightarrow> bool \<Rightarrow> rat \<Rightarrow> quota_tracker \<Rightarrow> quota_restriction" where
  "apply_quota_restrictions rq hi exempt threshold quota =
     (let global = get_usage quota ''global'' in
      if global \<ge> threshold then
        (if exempt then
           \<lparr>qr_max_tier = hi, qr_downgraded = False,
            qr_warning = Some (''Quota at '' @ percent_text global @ '' but security/safety critical task'' @ em_dash
                               @ ''no downgrade'')\<rparr>
         else
           \<lparr>qr_max_tier = 1, qr_downgraded = (hi > 1),
            qr_warning = Some (''Quota at '' @ percent_text global @ '' (threshold: '' @ percent_text threshold @ '')''
                               @ em_dash @ ''restricted to tier 1'')\<rparr>)
      else
        (case rq_provider rq of
           None \<Rightarrow> \<lparr>qr_max_tier = hi, qr_downgraded = False, qr_warning = None\<rparr>
         | Some p \<Rightarrow>
             (let usage = get_usage quota (provider_name p) in
              if usage \<ge> threshold
              then \<lparr>qr_max_tier = hi, qr_downgraded = False,
                    qr_warning = Some (provider_name p @ '' quota at '' @ percent_text usage @ em_dash
                                       @ ''may prefer other provider'')\<rparr>
              else \<lparr>qr_max_tier = hi, qr_downgraded = False, qr_warning = None\<rparr>)))"

definition has_capabilities :: "routing_request \<Rightarrow> model_definition \<Rightarrow> bool" where
  "has_capabilities rq m = list_all (\<lambda>c. c \<in> set (mo_capabilities m)) (nullish (rq_capabilities rq) [])"

definition quota_allows :: "bool \<Rightarrow> bool \<Rightarrow> quota_tracker \<Rightarrow> model_definition \<Rightarrow> bool" where
  "quota_allows enforce exempt quota m \<longleftrightarrow>
     \<not> (enforce \<and> \<not> exempt \<and> is_exhausted quota (provider_name (mo_provider m)))"

definition filter_candidates ::
  "model_definition list \<Rightarrow> routing_request \<Rightarrow> int \<Rightarrow> int \<Rightarrow> bool \<Rightarrow> bool \<Rightarrow> quota_tracker \<Rightarrow> model_definition list" where
  "filter_candidates models rq lo hi exempt enforce quota =
     filter (\<lambda>m. mo_status m \<noteq> Unavailable \<and> \<not> (mo_tier m < lo \<or> mo_tier m > hi) \<and> has_capabilities rq m
                 \<and> quota_allows enforce exempt quota m) models"

section \<open>Scores\<close>

definition compute_breakdown ::
  "routing_request \<Rightarrow> routing_priority \<Rightarrow> unit_override option \<Rightarrow> quota_tracker \<Rightarrow> performance_tracker
   \<Rightarrow> model_definition \<Rightarrow> score_breakdown" where
  "compute_breakdown rq priority u quota perf m =
     (let tier = mo_tier m;
          pressure = max (get_usage quota ''global'') (get_usage quota (provider_name (mo_provider m))) in
      \<lparr>sb_complexity = complexity_points (rq_complexity rq)
                       - of_int \<bar>tier - complexity_tier (rq_complexity rq)\<bar> * 20,
       sb_quota = (if tier = 1 then pressure * 30 else - pressure * of_int tier * 15),
       sb_priority = priority_points priority - of_int \<bar>tier - priority_tier priority\<bar> * 20,
       sb_time = sensitivity_points (rq_time rq) - of_int \<bar>tier - sensitivity_tier (rq_time rq)\<bar> * 15,
       sb_performance = (if truthy_str (rq_task_type rq)
                         then (performance_score perf (mo_id m) (str_or_empty (rq_task_type rq)) - 1 / 2) * 30 * 2
                         else 0),
       sb_provider = (if rq_provider rq = Some (mo_provider m) then 15
                      else if override_field u uo_provider = Some (mo_provider m) then 15 else 0),
       sb_capability = of_nat (length (filter (\<lambda>c. c \<in> set (mo_capabilities m))
                                          (nullish (rq_capabilities rq) []))) * 10\<rparr>)"

definition total_score :: "score_breakdown \<Rightarrow> rat" where
  "total_score b = sb_complexity b + sb_quota b + sb_priority b + sb_time b + sb_performance b
                   + sb_provider b + sb_capability b"

definition score_candidates ::
  "model_definition list \<Rightarrow> routing_request \<Rightarrow> routing_priority \<Rightarrow> unit_override option \<Rightarrow> quota_tracker
   \<Rightarrow> performance_tracker \<Rightarrow> (model_definition \<times> score_breakdown) list" where
  "score_candidates cs rq priority u quota perf =
     sort_desc (\<lambda>x. total_score (snd x)) (map (\<lambda>m. (m, compute_breakdown rq priority u quota perf m)) cs)"

section \<open>Fallback\<close>

text \<open>The comparison of \<open>getFallbackChain\<close>: \<open>a\<close> does not come after \<open>b\<close>.\<close>

definition fallback_le :: "int \<Rightarrow> model_definition \<Rightarrow> model_definition \<Rightarrow> bool" where
  "fallback_le t a b =
     (if mo_tier a = t \<and> mo_tier b \<noteq> t then True
      else if mo_tier b = t \<and> mo_tier a \<noteq> t then False
      else if mo_tier a \<noteq> mo_tier b then mo_tier b \<le> mo_tier a
      else mo_cost_in a \<le> mo_cost_in b)"

definition get_fallback_chain :: "model_definition list \<Rightarrow> int \<Rightarrow> model_definition list" where
  "get_fallback_chain models t = sort_by (fallback_le t) (filter (\<lambda>m. mo_status m \<noteq> Unavailable) models)"

definition resolve_fallback ::
  "model_definition list \<Rightarrow> routing_request \<Rightarrow> bool \<Rightarrow> bool \<Rightarrow> quota_tracker
   \<Rightarrow> model_definition list \<times> string list \<times> bool" where
  "resolve_fallback models rq enforce exempt quota =
     (let available = sort_by (\<lambda>a b. mo_cost_in a \<le> mo_cost_in b)
            (filter (\<lambda>m. mo_status m \<noteq> Unavailable \<and> quota_allows enforce exempt quota m) models);
          by_status = list_ex (\<lambda>m. mo_status m \<noteq> Unavailable) models;
          capable = filter (has_capabilities rq) available in
      if nullish (rq_capabilities rq) [] = [] then (available, [], by_status)
      else if capable \<noteq> [] then (capable, [], by_status)
      else (available, [''No models match all required capabilities'' @ em_dash @ ''selecting best available''],
            by_status))"

section \<open>Telemetry\<close>

definition estimate_cost :: "model_definition \<Rightarrow> int \<Rightarrow> int \<Rightarrow> rat" where
  "estimate_cost m i out = (of_int i / 1000) * mo_cost_in m + (of_int out / 1000) * mo_cost_out m"

definition get_baseline_model :: "model_definition list \<Rightarrow> model_definition" where
  "get_baseline_model models =
     (let available = filter (\<lambda>m. mo_status m \<noteq> Unavailable) models in
      if available = [] then (case models of [] \<Rightarrow> hd default_models | m # _ \<Rightarrow> m)
      else hd (sort_desc (\<lambda>m. mo_cost_in m + mo_cost_out m) available))"

definition build_telemetry :: "routing_request \<Rightarrow> model_decision \<Rightarrow> model_definition \<Rightarrow> telemetry_entry" where
  "build_telemetry rq d baseline =
     (let i = nullish (rq_in_tokens rq) 1000; out = nullish (rq_out_tokens rq) 500 in
      \<lparr>te_decided_at = dc_decided_at d, te_risk = sm_risk (dc_security d), te_model = mo_id (dc_model d),
       te_tier = dc_tier d, te_cost = estimate_cost (dc_model d) i out,
       te_baseline = estimate_cost baseline i out, te_injection = sm_injection (dc_security d)\<rparr>)"

definition build_injection_event :: "routing_request \<Rightarrow> model_decision \<Rightarrow> injection_event" where
  "build_injection_event rq d =
     \<lparr>ie_detected_at = dc_decided_at d, ie_risk = sm_risk (dc_security d), ie_model = mo_id (dc_model d),
      ie_score = nullish (rq_injection rq) 0, ie_signals = sm_signals (dc_security d)\<rparr>"

definition record_telemetry :: "routing_request \<Rightarrow> model_decision \<Rightarrow> model_router \<Rightarrow> model_router" where
  "record_telemetry rq d r =
     (let e = build_telemetry rq d (get_baseline_model (mr_models r));
          r1 = r\<lparr>mr_telemetry := push_limited (mr_history_limit r) e (mr_telemetry r)\<rparr> in
      if sm_injection (dc_security d)
      then r1\<lparr>mr_injections := push_limited (mr_history_limit r) (build_injection_event rq d) (mr_injections r)\<rparr>
      else r1)"

section \<open>Routing\<close>

record decision_options =
  op_breakdown :: "score_breakdown option"
  op_reason :: string
  op_fallback_used :: bool
  op_fallback_index :: int
  op_downgraded :: bool
  op_warnings :: "string list"
  op_security :: security_metadata

definition no_breakdown :: score_breakdown where
  "no_breakdown = \<lparr>sb_complexity = 0, sb_quota = 0, sb_priority = 0, sb_time = 0, sb_performance = 0,
                   sb_provider = 0, sb_capability = 0\<rparr>"

definition build_decision ::
  "model_router \<Rightarrow> int \<Rightarrow> model_definition \<Rightarrow> routing_request \<Rightarrow> decision_options
   \<Rightarrow> model_router \<times> model_decision" where
  "build_decision r now m rq opts =
     (let b = nullish (op_breakdown opts) no_breakdown;
          d = \<lparr>dc_model = m, dc_score = total_score b, dc_breakdown = b, dc_tier = mo_tier m,
               dc_downgraded = op_downgraded opts, dc_fallback_used = op_fallback_used opts,
               dc_fallback_index = op_fallback_index opts, dc_warnings = op_warnings opts,
               dc_reason = op_reason opts, dc_decided_at = now, dc_security = op_security opts\<rparr>
      in (record_telemetry rq d r, d))"

definition no_model :: model_definition where
  "no_model = \<lparr>mo_id = ''none'', mo_name = ''No Model Available'', mo_provider = OpenAI, mo_tier = 1, mo_cost_in = 0,
               mo_cost_out = 0, mo_context = 0, mo_status = Unavailable, mo_capabilities = []\<rparr>"

definition no_route_options :: "bool \<Rightarrow> string list \<Rightarrow> security_metadata \<Rightarrow> decision_options" where
  "no_route_options by_status ws sec =
     \<lparr>op_breakdown = None,
      op_reason = (if by_status then ''No models available after quota filtering'' @ em_dash @ ''no routing possible''
                   else ''All models unavailable'' @ em_dash @ ''no routing possible''),
      op_fallback_used = True, op_fallback_index = - 1, op_downgraded = False,
      op_warnings = ws @ [if by_status then ''CRITICAL: No models available after quota filtering''
                          else ''CRITICAL: All models unavailable''],
      op_security = sec\<rparr>"

definition fallback_options :: "model_definition \<Rightarrow> string list \<Rightarrow> security_metadata \<Rightarrow> decision_options" where
  "fallback_options m ws sec =
     \<lparr>op_breakdown = None, op_reason = ''Fallback: primary candidates unavailable or filtered out'',
      op_fallback_used = True, op_fallback_index = 1, op_downgraded = False,
      op_warnings = ws @ [''Fallback selected: '' @ mo_id m @ '' (no candidates in requested tier range)''],
      op_security = sec\<rparr>"

definition fallback ::
  "model_router \<Rightarrow> int \<Rightarrow> routing_request \<Rightarrow> string list \<Rightarrow> security_metadata \<Rightarrow> bool
   \<Rightarrow> model_router \<times> model_decision" where
  "fallback r now rq warnings sec exempt =
     (let (cs, ws, by_status) = resolve_fallback (mr_models r) rq (mr_enforce r) exempt (mr_quota r) in
      case cs of
        [] \<Rightarrow> (let marker = (case mr_models r of [] \<Rightarrow> no_model | m # _ \<Rightarrow> m) in
               build_decision r now marker rq (no_route_options by_status (warnings @ ws) sec))
      | m # _ \<Rightarrow> build_decision r now m rq (fallback_options m (warnings @ ws) sec))"

definition build_reason :: "routing_request \<Rightarrow> model_definition \<Rightarrow> bool \<Rightarrow> security_metadata \<Rightarrow> string" where
  "build_reason rq m downgraded sec =
     join_with '', ''
       ([''complexity='' @ complexity_name (rq_complexity rq), ''sensitivity='' @ sensitivity_name (rq_time rq),
         ''tier='' @ show_int (mo_tier m), ''risk='' @ risk_name (sm_risk sec)]
        @ (if truthy_str (rq_unit rq) then [''bu='' @ str_or_empty (rq_unit rq)] else [])
        @ (if downgraded then [''quota-downgraded''] else [])
        @ (if rq_provider rq = Some (mo_provider m) then [''provider-match''] else [])
        @ (if sm_injection sec then [''injection-detected''] else [])
        @ (if sm_forced sec then [''request-override''] else []))"

definition model_by_id :: "model_definition list \<Rightarrow> string \<Rightarrow> model_definition option" where
  "model_by_id models i = List.find (\<lambda>m. mo_id m = i) models"

text \<open>A forced model that is registered and not unavailable.\<close>

definition usable_forced :: "model_router \<Rightarrow> string option \<Rightarrow> model_definition option" where
  "usable_forced r i =
     (if truthy_str i then
        (case model_by_id (mr_models r) (str_or_empty i) of
           None \<Rightarrow> None
         | Some m \<Rightarrow> if mo_status m \<noteq> Unavailable then Some m else None)
      else None)"

definition forced_options :: "string \<Rightarrow> string list \<Rightarrow> security_metadata \<Rightarrow> decision_options" where
  "forced_options reason ws sec =
     \<lparr>op_breakdown = None, op_reason = reason, op_fallback_used = False, op_fallback_index = 0,
      op_downgraded = False, op_warnings = ws, op_security = sec\<rparr>"

definition forced_warning :: "string option \<Rightarrow> string \<Rightarrow> string list" where
  "forced_warning i what =
     (if truthy_str i then [''Forced model '' @ CHR 0x27 # str_or_empty i @ CHR 0x27 # '' not available, falling back to '' @ what]
      else [])"

definition quota_exempt :: "routing_request \<Rightarrow> security_metadata \<Rightarrow> bool" where
  "quota_exempt rq sec \<longleftrightarrow> rq_safety rq = Some True \<or> sm_risk sec = HighRisk"

text \<open>
  Steps 3 and 4 of \<open>selectModel\<close>: the bounds, whether the quota lowered them, and the warnings.
\<close>

definition effective_bounds ::
  "model_router \<Rightarrow> routing_request \<Rightarrow> unit_override option \<Rightarrow> security_metadata \<Rightarrow> int \<times> int \<times> bool \<times> string list" where
  "effective_bounds r rq u sec =
     (let exempt = quota_exempt rq sec;
          (lo0, hi0) = resolve_effective_tiers rq u;
          lo1 = (if sm_risk sec = HighRisk then max lo0 3 else lo0);
          lo2 = (if sm_risk sec = MediumRisk then max lo1 2 else lo1);
          q = (if mr_enforce r then apply_quota_restrictions rq hi0 exempt (mr_threshold r) (mr_quota r)
               else \<lparr>qr_max_tier = hi0, qr_downgraded = False, qr_warning = None\<rparr>);
          hi1 = qr_max_tier q;
          ws = (if truthy_str (qr_warning q) then [str_or_empty (qr_warning q)] else []) in
      if lo2 > hi1 then
        (if exempt
         then (lo2, lo2, False, ws @ [''Security/safety critical task: quota restriction overridden''])
         else (hi1, hi1, qr_downgraded q, ws))
      else (lo2, hi1, qr_downgraded q, ws))"

definition effective_priority :: "routing_request \<Rightarrow> unit_override option \<Rightarrow> routing_priority" where
  "effective_priority rq u =
     nullish (nullish_opt (rq_priority rq) (map_option uo_priority u)) RouteMedium"

definition unit_override_of :: "model_router \<Rightarrow> routing_request \<Rightarrow> unit_override option" where
  "unit_override_of r rq =
     (if truthy_str (rq_unit rq) then js_get (mr_overrides r) (str_or_empty (rq_unit rq)) else None)"

text \<open>Steps 3 to 7: bounds, quota, candidates, scores, or the fallback.\<close>

definition route_by_policy ::
  "model_router \<Rightarrow> int \<Rightarrow> routing_request \<Rightarrow> unit_override option \<Rightarrow> security_metadata \<Rightarrow> string list
   \<Rightarrow> model_router \<times> model_decision" where
  "route_by_policy r now rq u sec ws1 =
     (let exempt = quota_exempt rq sec;
          (lo, hi, downgraded, ws2) = effective_bounds r rq u sec;
          ws = ws1 @ ws2;
          cs = filter_candidates (mr_models r) rq lo hi exempt (mr_enforce r) (mr_quota r) in
      if cs = [] then fallback r now rq ws sec exempt
      else
        (let best = hd (score_candidates cs rq (effective_priority rq u) u (mr_quota r) (mr_performance r)) in
         build_decision r now (fst best) rq
           \<lparr>op_breakdown = Some (snd best), op_reason = build_reason rq (fst best) downgraded sec,
            op_fallback_used = False, op_fallback_index = 0, op_downgraded = downgraded,
            op_warnings = ws, op_security = sec\<rparr>))"

definition select_model :: "int \<Rightarrow> routing_request \<Rightarrow> model_router \<Rightarrow> model_router \<times> model_decision" where
  "select_model now rq r =
     (let sec = classify_security_risk rq (mr_injection_threshold r) in
      case usable_forced r (rq_force rq) of
        Some m \<Rightarrow> build_decision r now m rq (forced_options ''Forced by request override'' [] (sec\<lparr>sm_forced := True\<rparr>))
      | None \<Rightarrow>
          (let ws0 = forced_warning (rq_force rq) ''policy routing'';
               u = unit_override_of r rq in
           case usable_forced r (override_field u uo_forced) of
             Some m \<Rightarrow> build_decision r now m rq
                 (forced_options (''Forced by business unit override: '' @ nullish (rq_unit rq) ''undefined'') [] sec)
           | None \<Rightarrow> route_by_policy r now rq u sec (ws0 @ forced_warning (override_field u uo_forced) ''scoring'')))"

section \<open>Model management and summaries\<close>

definition new_router ::
  "model_definition list \<Rightarrow> unit_override list option \<Rightarrow> rat option \<Rightarrow> bool option \<Rightarrow> rat option \<Rightarrow> int option
   \<Rightarrow> model_router" where
  "new_router models overrides threshold enforce injection history =
     \<lparr>mr_models = models,
      mr_overrides = foldl (\<lambda>m u. js_set (uo_unit u) u m) [] (nullish overrides []),
      mr_threshold = nullish threshold (9 / 10), mr_enforce = nullish enforce True,
      mr_injection_threshold = nullish injection (6 / 10), mr_history_limit = max 10 (nullish history 500),
      mr_telemetry = [], mr_injections = [], mr_quota = [], mr_performance = []\<rparr>"

fun set_first_status :: "string \<Rightarrow> model_status \<Rightarrow> model_definition list \<Rightarrow> model_definition list" where
  "set_first_status i st [] = []"
| "set_first_status i st (m # ms) =
     (if mo_id m = i then m\<lparr>mo_status := st\<rparr> # ms else m # set_first_status i st ms)"

definition update_model_status :: "string \<Rightarrow> model_status \<Rightarrow> model_router \<Rightarrow> model_router" where
  "update_model_status i st r = r\<lparr>mr_models := set_first_status i st (mr_models r)\<rparr>"

definition get_models_by_tier :: "model_router \<Rightarrow> int \<Rightarrow> model_definition list" where
  "get_models_by_tier r t = filter (\<lambda>m. mo_tier m = t) (mr_models r)"

definition get_available_models :: "model_router \<Rightarrow> model_definition list" where
  "get_available_models r = filter (\<lambda>m. mo_status m \<noteq> Unavailable) (mr_models r)"

definition set_unit_override :: "unit_override \<Rightarrow> model_router \<Rightarrow> model_router" where
  "set_unit_override u r = r\<lparr>mr_overrides := js_set (uo_unit u) u (mr_overrides r)\<rparr>"

definition remove_unit_override :: "string \<Rightarrow> model_router \<Rightarrow> model_router" where
  "remove_unit_override i r = r\<lparr>mr_overrides := js_delete i (mr_overrides r)\<rparr>"

definition clear_security_telemetry :: "model_router \<Rightarrow> model_router" where
  "clear_security_telemetry r = r\<lparr>mr_telemetry := [], mr_injections := []\<rparr>"

definition get_injection_detections :: "model_router \<Rightarrow> rat \<Rightarrow> injection_event list" where
  "get_injection_detections r n = last_entries (max 1 (min (truncate_rat n) (mr_history_limit r))) (mr_injections r)"

record routing_summary =
  su_window :: nat
  su_low :: nat
  su_medium :: nat
  su_high :: nat
  su_tier1 :: nat
  su_tier2 :: nat
  su_tier3 :: nat
  su_usage :: "(string, nat) jsmap"
  su_injections :: nat
  su_cost :: rat
  su_baseline :: rat

definition empty_summary :: "nat \<Rightarrow> routing_summary" where
  "empty_summary n = \<lparr>su_window = n, su_low = 0, su_medium = 0, su_high = 0, su_tier1 = 0, su_tier2 = 0, su_tier3 = 0,
                      su_usage = [], su_injections = 0, su_cost = 0, su_baseline = 0\<rparr>"

text \<open>One turn of the summary loop.\<close>

definition summarize_entry :: "routing_summary \<Rightarrow> telemetry_entry \<Rightarrow> routing_summary" where
  "summarize_entry s e =
     s\<lparr>su_low := su_low s + (if te_risk e = LowRisk then 1 else 0),
       su_medium := su_medium s + (if te_risk e = MediumRisk then 1 else 0),
       su_high := su_high s + (if te_risk e = HighRisk then 1 else 0),
       su_tier1 := su_tier1 s + (if te_tier e = 1 then 1 else 0),
       su_tier2 := su_tier2 s + (if te_tier e = 2 then 1 else 0),
       su_tier3 := su_tier3 s + (if te_tier e = 3 then 1 else 0),
       su_usage := js_set (te_model e) (nullish (js_get (su_usage s) (te_model e)) 0 + 1) (su_usage s),
       su_injections := su_injections s + (if te_injection e then 1 else 0),
       su_cost := su_cost s + te_cost e, su_baseline := su_baseline s + te_baseline e\<rparr>"

definition telemetry_window :: "model_router \<Rightarrow> rat option \<Rightarrow> telemetry_entry list" where
  "telemetry_window r limit =
     (let n = (case limit of
                 None \<Rightarrow> mr_history_limit r
               | Some x \<Rightarrow> if x = 0 then mr_history_limit r
                          else max 1 (min (truncate_rat x) (mr_history_limit r))) in
      last_entries n (mr_telemetry r))"

definition collect_summary :: "model_router \<Rightarrow> rat option \<Rightarrow> routing_summary" where
  "collect_summary r limit =
     (let w = telemetry_window r limit in foldl summarize_entry (empty_summary (length w)) w)"

record cost_summary =
  cs_cost :: rat
  cs_baseline :: rat
  cs_savings :: rat
  cs_savings_pct :: rat

definition summary_costs :: "routing_summary \<Rightarrow> cost_summary" where
  "summary_costs s =
     (let savings = su_baseline s - su_cost s in
      \<lparr>cs_cost = fixed_value 6 (su_cost s), cs_baseline = fixed_value 6 (su_baseline s),
       cs_savings = fixed_value 6 savings,
       cs_savings_pct = (if su_baseline s > 0 then fixed_value 2 (savings / su_baseline s * 100) else 0)\<rparr>)"

section \<open>The operations of a router\<close>

datatype router_op =
    RouteOp int routing_request
  | StatusOp string model_status
  | OverrideOp unit_override
  | RemoveOverrideOp string
  | ClearOp
  | SetQuotaOp string quota_state
  | UsageOp string rat
  | ResetUsageOp string
  | CompletionOp int string string rat bool rat

fun router_step :: "router_op \<Rightarrow> model_router \<Rightarrow> model_router" where
  "router_step (RouteOp now rq) r = fst (select_model now rq r)"
| "router_step (StatusOp i st) r = update_model_status i st r"
| "router_step (OverrideOp u) r = set_unit_override u r"
| "router_step (RemoveOverrideOp i) r = remove_unit_override i r"
| "router_step ClearOp r = clear_security_telemetry r"
| "router_step (SetQuotaOp k q) r = r\<lparr>mr_quota := set_quota k q (mr_quota r)\<rparr>"
| "router_step (UsageOp k a) r = r\<lparr>mr_quota := record_usage k a (mr_quota r)\<rparr>"
| "router_step (ResetUsageOp k) r = r\<lparr>mr_quota := reset_usage k (mr_quota r)\<rparr>"
| "router_step (CompletionOp now m t l ok q) r =
     r\<lparr>mr_performance := record_completion now m t l ok q (mr_performance r)\<rparr>"

definition run_router :: "router_op list \<Rightarrow> model_router \<Rightarrow> model_router" where
  "run_router ops r = fold router_step ops r"

end
