(* ===== verification/Router_Correct.thy ===== *)
theory Router_Correct
  imports Model_Router
begin

text \<open>
  What the model router promises: the chosen model can be used, it has the best score of the
  candidates, a request of high risk stays on the premium tier while a candidate is left, the
  performance figures stay in their ranges, and the bounded telemetry refines the full log. Then
  the places where the fallback and the bounds do less than the documents say.
\<close>

section \<open>The parts of a decision\<close>

definition forced_choice :: "model_router \<Rightarrow> routing_request \<Rightarrow> model_definition option" where
  "forced_choice r rq =
     nullish_opt (usable_forced r (rq_force rq)) (usable_forced r (override_field (unit_override_of r rq) uo_forced))"

abbreviation risk_of :: "model_router \<Rightarrow> routing_request \<Rightarrow> security_metadata" where
  "risk_of r rq \<equiv> classify_security_risk rq (mr_injection_threshold r)"

abbreviation bounds_of :: "model_router \<Rightarrow> routing_request \<Rightarrow> int \<times> int \<times> bool \<times> string list" where
  "bounds_of r rq \<equiv> effective_bounds r rq (unit_override_of r rq) (risk_of r rq)"

definition candidates_for :: "model_router \<Rightarrow> routing_request \<Rightarrow> model_definition list" where
  "candidates_for r rq =
     filter_candidates (mr_models r) rq (fst (bounds_of r rq)) (fst (snd (bounds_of r rq)))
       (quota_exempt rq (risk_of r rq)) (mr_enforce r) (mr_quota r)"

definition score_of :: "model_router \<Rightarrow> routing_request \<Rightarrow> model_definition \<Rightarrow> rat" where
  "score_of r rq m =
     total_score (compute_breakdown rq (effective_priority rq (unit_override_of r rq)) (unit_override_of r rq)
                    (mr_quota r) (mr_performance r) m)"

abbreviation decide :: "int \<Rightarrow> routing_request \<Rightarrow> model_router \<Rightarrow> model_decision" where
  "decide now rq r \<equiv> snd (select_model now rq r)"

text \<open>A model the fallback may take.\<close>

definition usable :: "model_router \<Rightarrow> routing_request \<Rightarrow> model_definition \<Rightarrow> bool" where
  "usable r rq m \<longleftrightarrow> m \<in> set (mr_models r) \<and> mo_status m \<noteq> Unavailable
     \<and> quota_allows (mr_enforce r) (quota_exempt rq (risk_of r rq)) (mr_quota r) m"

lemma build_decision_sel:
  "dc_model (snd (build_decision r now m rq opts)) = m"
  "dc_tier (snd (build_decision r now m rq opts)) = mo_tier m"
  "dc_fallback_index (snd (build_decision r now m rq opts)) = op_fallback_index opts"
  "dc_fallback_used (snd (build_decision r now m rq opts)) = op_fallback_used opts"
  "dc_score (snd (build_decision r now m rq opts)) = total_score (nullish (op_breakdown opts) no_breakdown)"
  "dc_downgraded (snd (build_decision r now m rq opts)) = op_downgraded opts"
  "dc_security (snd (build_decision r now m rq opts)) = op_security opts"
  by (simp_all add: build_decision_def Let_def)

lemma option_sel:
  "op_fallback_index (no_route_options b ws sec) = - 1" "op_fallback_used (no_route_options b ws sec)"
  "op_fallback_index (fallback_options m ws sec) = 1" "op_fallback_used (fallback_options m ws sec)"
  by (simp_all add: no_route_options_def fallback_options_def)



lemma select_unforced:
  assumes "forced_choice r rq = None"
  shows "\<exists>ws. select_model now rq r = route_by_policy r now rq (unit_override_of r rq) (risk_of r rq) ws"
  using assms by (auto simp: forced_choice_def select_model_def Let_def nullish_opt_def split: option.splits)

lemma decide_fallback:
  assumes "forced_choice r rq = None" "candidates_for r rq = []"
  shows "\<exists>ws. select_model now rq r = fallback r now rq ws (risk_of r rq) (quota_exempt rq (risk_of r rq))"
proof -
  obtain ws where ws: "select_model now rq r
      = route_by_policy r now rq (unit_override_of r rq) (risk_of r rq) ws"
    using select_unforced [OF assms(1)] by blast
  show ?thesis
    using assms(2) unfolding ws
    by (cases "bounds_of r rq") (auto simp: route_by_policy_def candidates_for_def Let_def)
qed

lemma hd_scored:
  assumes "cs \<noteq> []"
  shows "\<exists>m. hd (score_candidates cs rq p u q perf) = (m, compute_breakdown rq p u q perf m) \<and> m \<in> set cs
    \<and> (\<forall>m' \<in> set cs. total_score (compute_breakdown rq p u q perf m') \<le> total_score (compute_breakdown rq p u q perf m))"
proof -
  let ?f = "\<lambda>m. (m, compute_breakdown rq p u q perf m)"
  have "map ?f cs \<noteq> []" using assms by simp
  from hd_sort_desc_max [OF this, of "\<lambda>x. total_score (snd x)"] show ?thesis
    unfolding score_candidates_def by auto
qed

lemma decide_scored:
  assumes "forced_choice r rq = None" "candidates_for r rq \<noteq> []"
  shows "dc_model (decide now rq r) \<in> set (candidates_for r rq)"
    "\<forall>m \<in> set (candidates_for r rq). score_of r rq m \<le> dc_score (decide now rq r)"
    "dc_score (decide now rq r) = score_of r rq (dc_model (decide now rq r))"
    "dc_fallback_index (decide now rq r) = 0" "dc_fallback_used (decide now rq r) = False"
    "dc_tier (decide now rq r) = mo_tier (dc_model (decide now rq r))"
    "dc_downgraded (decide now rq r) = fst (snd (snd (bounds_of r rq)))"
proof -
  obtain ws where ws: "select_model now rq r
      = route_by_policy r now rq (unit_override_of r rq) (risk_of r rq) ws"
    using select_unforced [OF assms(1)] by blast
  obtain lo hi dg wb where b: "bounds_of r rq = (lo, hi, dg, wb)" by (cases "bounds_of r rq") auto
  have cs: "filter_candidates (mr_models r) rq lo hi (quota_exempt rq (risk_of r rq)) (mr_enforce r) (mr_quota r)
            = candidates_for r rq" by (simp add: candidates_for_def b)
  obtain m where m: "hd (score_candidates (candidates_for r rq) rq
        (effective_priority rq (unit_override_of r rq)) (unit_override_of r rq) (mr_quota r) (mr_performance r))
        = (m, compute_breakdown rq (effective_priority rq (unit_override_of r rq)) (unit_override_of r rq)
                (mr_quota r) (mr_performance r) m)"
    "m \<in> set (candidates_for r rq)" "\<forall>m' \<in> set (candidates_for r rq). score_of r rq m' \<le> score_of r rq m"
    using hd_scored [OF assms(2)] unfolding score_of_def by blast
  note eq = ws route_by_policy_def Let_def b cs assms(2) m(1) build_decision_sel
  show "dc_model (decide now rq r) \<in> set (candidates_for r rq)"
    "\<forall>m \<in> set (candidates_for r rq). score_of r rq m \<le> dc_score (decide now rq r)"
    "dc_score (decide now rq r) = score_of r rq (dc_model (decide now rq r))"
    "dc_fallback_index (decide now rq r) = 0" "dc_fallback_used (decide now rq r) = False"
    "dc_tier (decide now rq r) = mo_tier (dc_model (decide now rq r))"
    "dc_downgraded (decide now rq r) = fst (snd (snd (bounds_of r rq)))"
    using m(2,3) by (simp_all add: eq score_of_def)
qed

section \<open>The fallback\<close>


text \<open>The models the fallback chooses from: the capable ones among the usable, or all of these.\<close>

definition fallback_pool :: "model_router \<Rightarrow> routing_request \<Rightarrow> model_definition list" where
  "fallback_pool r rq =
     (let us = filter (usable r rq) (mr_models r); cs = filter (has_capabilities rq) us in
      if cs \<noteq> [] then cs else us)"

lemma no_requirements: "nullish (rq_capabilities rq) [] = [] \<Longrightarrow> has_capabilities rq m"
  by (simp add: has_capabilities_def)

lemma fallback_some:
  assumes "filter (usable r rq) (mr_models r) \<noteq> []"
    and "d = snd (fallback r now rq ws (risk_of r rq) (quota_exempt rq (risk_of r rq)))"
  shows "dc_fallback_index d = 1 \<and> dc_fallback_used d \<and> dc_model d \<in> set (fallback_pool r rq)
    \<and> (\<forall>m \<in> set (fallback_pool r rq). mo_cost_in (dc_model d) \<le> mo_cost_in m)"
proof -
  let ?us = "filter (usable r rq) (mr_models r)"
  have us: "filter (\<lambda>m. mo_status m \<noteq> Unavailable
          \<and> quota_allows (mr_enforce r) (quota_exempt rq (risk_of r rq)) (mr_quota r) m) (mr_models r) = ?us"
    by (rule filter_cong) (auto simp: usable_def)
  let ?s = "sort_by (\<lambda>a b. mo_cost_in a \<le> mo_cost_in b) ?us"
  obtain cs w b where rf: "resolve_fallback (mr_models r) rq (mr_enforce r) (quota_exempt rq (risk_of r rq)) (mr_quota r)
      = (cs, w, b)" by (metis prod_cases3)
  have cs: "cs = (if filter (has_capabilities rq) ?s \<noteq> [] then filter (has_capabilities rq) ?s else ?s)"
    using rf no_requirements [of rq] unfolding resolve_fallback_def us Let_def
    by (auto split: if_splits simp: filter_id_conv)
  have pool: "set cs = set (fallback_pool r rq)"
    unfolding cs fallback_pool_def Let_def by (auto simp: filter_empty_conv)
  have "sorted_wrt (\<lambda>a b. mo_cost_in a \<le> mo_cost_in b) ?s" by (rule by_asc.sorted_sort_by)
  then have srt: "sorted_wrt (\<lambda>a b. mo_cost_in a \<le> mo_cost_in b) cs"
    unfolding cs by (simp add: sorted_wrt_filter)
  have "cs \<noteq> []" unfolding cs using assms(1) by auto
  then obtain m ms where m: "cs = m # ms" by (cases cs) auto
  then have d: "dc_fallback_index d = 1" "dc_fallback_used d" "dc_model d = m"
    using rf by (simp_all add: assms(2) fallback_def Let_def build_decision_sel option_sel)
  have "\<forall>x \<in> set cs. mo_cost_in m \<le> mo_cost_in x" using srt unfolding m by auto
  then have "\<forall>x \<in> set (fallback_pool r rq). mo_cost_in m \<le> mo_cost_in x" by (simp flip: pool)
  then show ?thesis using d m pool by auto
qed




text \<open>
  The choice is the best one: with candidates left, the chosen model is a candidate whose score no
  other candidate exceeds, and that score is the one reported; without candidates the cheapest
  model (by input price) of the pool is taken, which holds the capable models when there are any.
\<close>

theorem routing_takes_the_best:
  assumes "forced_choice r rq = None"
  shows "if candidates_for r rq \<noteq> []
    then dc_model (decide now rq r) \<in> set (candidates_for r rq)
      \<and> dc_score (decide now rq r) = score_of r rq (dc_model (decide now rq r))
      \<and> list_all (\<lambda>m. score_of r rq m \<le> dc_score (decide now rq r)) (candidates_for r rq)
    else fallback_pool r rq \<noteq> [] \<longrightarrow>
      dc_model (decide now rq r) \<in> set (fallback_pool r rq)
      \<and> list_all (\<lambda>m. mo_cost_in (dc_model (decide now rq r)) \<le> mo_cost_in m) (fallback_pool r rq)"
proof (cases "candidates_for r rq = []")
  case True
  obtain ws where ws: "select_model now rq r
      = fallback r now rq ws (risk_of r rq) (quota_exempt rq (risk_of r rq))"
    using decide_fallback [OF assms True] by blast
  have "filter (usable r rq) (mr_models r) \<noteq> []" if "fallback_pool r rq \<noteq> []"
    using that by (auto simp: fallback_pool_def Let_def filter_empty_conv split: if_splits)
  then show ?thesis
    using True fallback_some [of r rq "decide now rq r" now ws] by (auto simp: ws list_all_iff)
next
  case False
  then show ?thesis using decide_scored [OF assms False] by (auto simp: list_all_iff)
qed

section \<open>Risk and quota\<close>

text \<open>The types of the sources allow the tiers 1, 2 and 3.\<close>

definition tier_ok :: "int \<Rightarrow> bool" where
  "tier_ok t \<longleftrightarrow> t \<in> {1, 2, 3}"

definition tier_field_ok :: "int option \<Rightarrow> bool" where
  "tier_field_ok x = (case x of None \<Rightarrow> True | Some t \<Rightarrow> tier_ok t)"

definition well_tiered :: "model_router \<Rightarrow> routing_request \<Rightarrow> bool" where
  "well_tiered r rq \<longleftrightarrow>
     list_all (\<lambda>m. tier_ok (mo_tier m)) (mr_models r)
     \<and> tier_field_ok (rq_min_tier rq) \<and> tier_field_ok (rq_max_tier rq)
     \<and> list_all (\<lambda>u. tier_field_ok (uo_min_tier u) \<and> tier_field_ok (uo_max_tier u))
         (js_values (mr_overrides r))"

lemma override_tiers:
  assumes "well_tiered r rq"
  shows "tier_field_ok (override_field (unit_override_of r rq) uo_min_tier)"
    "tier_field_ok (override_field (unit_override_of r rq) uo_max_tier)"
proof -
  have "tier_field_ok (uo_min_tier u) \<and> tier_field_ok (uo_max_tier u)"
    if "unit_override_of r rq = Some u" for u
    using that assms
    by (force simp: unit_override_of_def well_tiered_def js_values_def list_all_iff split: if_splits dest: js_get_in)
  then show "tier_field_ok (override_field (unit_override_of r rq) uo_min_tier)"
    "tier_field_ok (override_field (unit_override_of r rq) uo_max_tier)"
    by (auto simp: override_field_def tier_field_ok_def split: option.splits)
qed

lemma tier_ok_intros:
  "tier_ok 1" "tier_ok 2" "tier_ok 3"
  "tier_ok d \<Longrightarrow> tier_field_ok x \<Longrightarrow> tier_ok (nullish x d)"
  "tier_ok d \<Longrightarrow> tier_field_ok x \<Longrightarrow> tier_ok (num_or x (max d) d)"
  "tier_ok d \<Longrightarrow> tier_field_ok x \<Longrightarrow> tier_ok (num_or x (min d) d)"
  by (cases x; auto simp: tier_ok_def tier_field_ok_def)+

lemma effective_tiers_ok:
  assumes "well_tiered r rq"
  shows "tier_ok (fst (resolve_effective_tiers rq (unit_override_of r rq)))
    \<and> tier_ok (snd (resolve_effective_tiers rq (unit_override_of r rq)))"
proof -
  have "tier_field_ok (rq_min_tier rq)" "tier_field_ok (rq_max_tier rq)"
    using assms by (auto simp: well_tiered_def)
  then show ?thesis
    using override_tiers [OF assms]
    by (simp add: resolve_effective_tiers_def Let_def tier_ok_intros)
qed

lemma exempt_keeps_tier:
  "qr_max_tier (apply_quota_restrictions rq hi True th q) = hi"
  "qr_downgraded (apply_quota_restrictions rq hi True th q) = False"
  by (simp_all add: apply_quota_restrictions_def Let_def split: option.split)

lemma bounds_high_risk:
  assumes "well_tiered r rq" "sm_risk (risk_of r rq) = HighRisk"
  shows "fst (bounds_of r rq) = 3" "fst (snd (bounds_of r rq)) = 3" "fst (snd (snd (bounds_of r rq))) = False"
proof -
  obtain lo hi where t: "resolve_effective_tiers rq (unit_override_of r rq) = (lo, hi)" by fastforce
  have le: "max lo 3 = 3" "hi \<le> 3" using effective_tiers_ok [OF assms(1)] by (auto simp: t tier_ok_def)
  have "fst (bounds_of r rq) = 3 \<and> fst (snd (bounds_of r rq)) = 3 \<and> fst (snd (snd (bounds_of r rq))) = False"
    using le by (simp add: effective_bounds_def t Let_def quota_exempt_def exempt_keeps_tier assms(2))
  then show "fst (bounds_of r rq) = 3" "fst (snd (bounds_of r rq)) = 3" "fst (snd (snd (bounds_of r rq))) = False"
    by auto
qed

text \<open>
  The security floor: a request classified as high risk, with nothing forced, goes to tier 3 as long
  as one tier-3 model is up and has the required capabilities, whatever ceiling the request or
  its business unit sets and however much of the quotas is used, and it is never downgraded.
\<close>

theorem high_risk_goes_to_the_premium_tier:
  assumes "well_tiered r rq" "forced_choice r rq = None" "sm_risk (risk_of r rq) = HighRisk"
    and "list_ex (\<lambda>m. mo_tier m = 3 \<and> mo_status m \<noteq> Unavailable \<and> has_capabilities rq m) (mr_models r)"
  shows "dc_tier (decide now rq r) = 3 \<and> \<not> dc_downgraded (decide now rq r) \<and> \<not> dc_fallback_used (decide now rq r)"
proof -
  have ex: "quota_exempt rq (risk_of r rq)" using assms(3) by (simp add: quota_exempt_def)
  have c: "candidates_for r rq
      = filter (\<lambda>m. mo_status m \<noteq> Unavailable \<and> mo_tier m = 3 \<and> has_capabilities rq m) (mr_models r)"
    unfolding candidates_for_def filter_candidates_def
    by (rule filter_cong) (auto simp: bounds_high_risk [OF assms(1,3)] ex quota_allows_def)
  then have "candidates_for r rq \<noteq> []" using assms(4) by (auto simp: list_ex_iff filter_empty_conv)
  note d = decide_scored [OF assms(2) this, of now]
  show ?thesis using d(1,5-7) unfolding c by (simp add: bounds_high_risk [OF assms(1,3)])
qed

text \<open>
  The quota gate: when the global quota has reached the threshold and the request is neither safety
  critical nor of high risk, a decision with a model above tier 1 was forced or came from the
  fallback.
\<close>

theorem over_quota_stays_on_the_cheap_tier:
  assumes "forced_choice r rq = None" "mr_enforce r" "\<not> quota_exempt rq (risk_of r rq)"
    and "mr_threshold r \<le> get_usage (mr_quota r) ''global''" "\<not> dc_fallback_used (decide now rq r)"
  shows "dc_tier (decide now rq r) \<le> 1"
proof -
  obtain lo hi where t: "resolve_effective_tiers rq (unit_override_of r rq) = (lo, hi)" by fastforce
  have hi: "fst (snd (bounds_of r rq)) = 1"
    using assms(2-4) by (auto simp: effective_bounds_def t Let_def apply_quota_restrictions_def)
  have "candidates_for r rq \<noteq> []"
  proof
    assume "candidates_for r rq = []"
    from decide_fallback [OF assms(1) this, of now] obtain ws where
      "select_model now rq r = fallback r now rq ws (risk_of r rq) (quota_exempt rq (risk_of r rq))" by blast
    then have "dc_fallback_used (decide now rq r)"
      by (auto simp: fallback_def Let_def build_decision_sel option_sel split: prod.splits list.splits)
    then show False using assms(5) by simp
  qed
  note d = decide_scored [OF assms(1) this, of now]
  show ?thesis
    using d(1) unfolding d(6) by (auto simp: candidates_for_def filter_candidates_def hi)
qed

section \<open>The fallback order\<close>

definition fallback_rank :: "int \<Rightarrow> model_definition \<Rightarrow> int" where
  "fallback_rank t m = (if mo_tier m = t then 0 else 1)"

lemma fallback_le_lex:
  "fallback_le t a b \<longleftrightarrow> fallback_rank t a < fallback_rank t b
     \<or> fallback_rank t a = fallback_rank t b
        \<and> (mo_tier b < mo_tier a \<or> mo_tier a = mo_tier b \<and> mo_cost_in a \<le> mo_cost_in b)"
  by (simp add: fallback_le_def fallback_rank_def) linarith

interpretation fallback_order: comparison "fallback_le t" for t
proof
  show "fallback_le t a b \<or> fallback_le t b a" for a b
    unfolding fallback_le_lex by linarith
  show "fallback_le t a c" if "fallback_le t a b" "fallback_le t b c" for a b c
    using that unfolding fallback_le_lex by linarith
qed

text \<open>
  \<open>getFallbackChain\<close> lists exactly the models that are not unavailable, and a model never comes
  before one that the documented order puts first: the requested tier, then the higher tiers, then
  the cheaper input price.
\<close>

theorem fallback_chain_is_ordered:
  "set (get_fallback_chain models t) = set (filter (\<lambda>m. mo_status m \<noteq> Unavailable) models)
   \<and> length (get_fallback_chain models t) = length (filter (\<lambda>m. mo_status m \<noteq> Unavailable) models)
   \<and> sorted_wrt (fallback_le t) (get_fallback_chain models t)"
  unfolding get_fallback_chain_def by (auto intro: fallback_order.sorted_sort_by)

section \<open>Performance figures\<close>

definition performance_ok :: "performance_record \<Rightarrow> bool" where
  "performance_ok p \<longleftrightarrow> 0 \<le> pf_latency p \<and> 0 \<le> pf_success p \<and> pf_success p \<le> 1
     \<and> 0 \<le> pf_quality p \<and> pf_quality p \<le> 1 \<and> 1 \<le> pf_samples p"

text \<open>A completion report as the interface documents it: a quality in [0, 1] and no negative latency.\<close>

fun report_ok :: "router_op \<Rightarrow> bool" where
  "report_ok (CompletionOp now m t l ok q) = (0 \<le> l \<and> 0 \<le> q \<and> q \<le> 1)"
| "report_ok op = True"

lemma blend_bounds:
  assumes "0 \<le> alpha" "alpha \<le> 1" "lo \<le> x" "lo \<le> y"
  shows "lo \<le> blend alpha x y"
proof -
  have "lo = lo * (1 - alpha) + lo * alpha" by (simp add: algebra_simps)
  also have "\<dots> \<le> x * (1 - alpha) + y * alpha"
    using assms by (intro add_mono mult_right_mono) auto
  finally show ?thesis by (simp add: blend_def)
qed

lemma blend_upper:
  assumes "0 \<le> alpha" "alpha \<le> 1" "x \<le> hi" "y \<le> hi"
  shows "blend alpha x y \<le> hi"
proof -
  have "x * (1 - alpha) + y * alpha \<le> hi * (1 - alpha) + hi * alpha"
    using assms by (intro add_mono mult_right_mono) auto
  then show ?thesis by (simp add: blend_def algebra_simps)
qed

lemma alpha_range: "1 \<le> n \<Longrightarrow> 0 \<le> 2 / (rat_of_nat n + 2) \<and> 2 / (rat_of_nat n + 2) \<le> 1"
  by (auto simp: field_simps)

lemma record_completion_ok:
  assumes "list_all performance_ok (js_values p)" "0 \<le> l" "0 \<le> q" "q \<le> 1"
  shows "list_all performance_ok (js_values (record_completion now m t l ok q p))"
proof -
  let ?k = "performance_key m t"
  obtain x where x: "record_completion now m t l ok q p = js_set ?k x p" "performance_ok x"
  proof (cases "js_get p ?k")
    case None
    then show ?thesis using that assms by (simp add: record_completion_def Let_def performance_ok_def)
  next
    case (Some y)
    then have y: "performance_ok y"
      using assms(1) js_get_in [OF Some] by (force simp: js_values_def list_all_iff)
    have "1 \<le> min (pf_samples y) 100" using y by (simp add: performance_ok_def)
    note a = alpha_range [OF this]
    show ?thesis
      using that Some y a assms
      by (simp add: record_completion_def Let_def performance_ok_def blend_bounds blend_upper
          del: of_nat_min)
  qed
  have "set (js_values (js_set ?k x p)) \<subseteq> insert x (set (js_values p))"
    using set_js_set [of ?k x p] by (auto simp: js_values_def)
  then show ?thesis using x assms(1) by (auto simp: list_all_iff)
qed

lemma select_state: "fst (select_model now rq r) = record_telemetry rq (decide now rq r) r"
proof -
  have b: "fst (build_decision r now m rq opts) = record_telemetry rq (snd (build_decision r now m rq opts)) r"
    for m opts by (simp add: build_decision_def Let_def)
  have f: "fst (fallback r now rq ws sec e) = record_telemetry rq (snd (fallback r now rq ws sec e)) r"
    for ws sec e by (simp add: fallback_def Let_def b split: prod.split list.split)
  have p: "fst (route_by_policy r now rq u sec ws) = record_telemetry rq (snd (route_by_policy r now rq u sec ws)) r"
    for u sec ws by (simp add: route_by_policy_def Let_def b f split: prod.split)
  show ?thesis by (simp add: select_model_def Let_def b p split: option.split)
qed

lemma record_telemetry_frame:
  "mr_performance (record_telemetry rq d r) = mr_performance r"
  "mr_history_limit (record_telemetry rq d r) = mr_history_limit r"
  by (simp_all add: record_telemetry_def Let_def)

lemma router_step_performance:
  "report_ok op \<Longrightarrow> list_all performance_ok (js_values (mr_performance r))
   \<Longrightarrow> list_all performance_ok (js_values (mr_performance (router_step op r)))"
  by (cases op) (simp_all add: select_state record_telemetry_frame record_completion_ok update_model_status_def
      set_unit_override_def remove_unit_override_def clear_security_telemetry_def)

lemma run_router_performance:
  "list_all report_ok ops \<Longrightarrow> list_all performance_ok (js_values (mr_performance r))
   \<Longrightarrow> list_all performance_ok (js_values (mr_performance (run_router ops r)))"
  by (induction ops arbitrary: r) (simp_all add: run_router_def router_step_performance)

lemma performance_score_range:
  assumes "list_all performance_ok (js_values p)"
  shows "0 \<le> performance_score p m t \<and> performance_score p m t \<le> 1"
proof (cases "js_get p (performance_key m t)")
  case None
  then show ?thesis by (simp add: performance_score_def)
next
  case (Some x)
  then have x: "performance_ok x"
    using assms js_get_in [OF Some] by (force simp: js_values_def list_all_iff)
  let ?l = "max 0 (1 - pf_latency x / 30000)"
  have l: "0 \<le> ?l" "?l \<le> 1" using x by (auto simp: performance_ok_def)
  have sc: "performance_score p m t = 1 / 2
      \<or> performance_score p m t = pf_quality x * (1 / 2) + pf_success x * (35 / 100) + ?l * (15 / 100)"
    unfolding performance_score_def Some option.case Let_def by simp
  have "0 \<le> a * (1 / 2) + b * (35 / 100) + c * (15 / 100) \<and> a * (1 / 2) + b * (35 / 100) + c * (15 / 100) \<le> 1"
    if "0 \<le> a" "a \<le> 1" "0 \<le> b" "b \<le> 1" "0 \<le> c" "c \<le> 1" for a b c :: rat
    using that by linarith
  from this [of "pf_quality x" "pf_success x" ?l]
  have "0 \<le> pf_quality x * (1 / 2) + pf_success x * (35 / 100) + ?l * (15 / 100)
      \<and> pf_quality x * (1 / 2) + pf_success x * (35 / 100) + ?l * (15 / 100) \<le> 1"
    using x l by (simp only: performance_ok_def)
  then show ?thesis using sc by (elim disjE) (simp_all only:, auto)
qed

text \<open>
  Whatever a router is asked to do, the running averages stay in their ranges as long as the
  completion reports are in theirs: every performance score is in [0, 1] and the performance part
  of a breakdown is between -30 and 30 points.
\<close>

theorem performance_stays_in_range:
  assumes "list_all report_ok ops"
    and "r = run_router ops (new_router models overrides th en it hist)"
  shows "0 \<le> performance_score (mr_performance r) m t \<and> performance_score (mr_performance r) m t \<le> 1
    \<and> \<bar>sb_performance (compute_breakdown rq p u (mr_quota r) (mr_performance r) md)\<bar> \<le> 30"
proof -
  have ok: "list_all performance_ok (js_values (mr_performance r))"
    unfolding assms(2) by (rule run_router_performance [OF assms(1)]) (simp add: new_router_def js_values_def)
  show ?thesis
    using performance_score_range [OF ok, of m t]
      performance_score_range [OF ok, of "mo_id md" "str_or_empty (rq_task_type rq)"]
    by (auto simp: compute_breakdown_def Let_def abs_le_iff)
qed

section \<open>The telemetry refines the full log\<close>

text \<open>
  The specification keeps every entry: the log of a router is the list of all telemetry entries
  and injection events since the last clear. The router keeps the newest \<open>routingHistoryLimit\<close> ones.
\<close>

type_synonym router_log = "model_router \<times> telemetry_entry list \<times> injection_event list"

fun log_step :: "router_op \<Rightarrow> router_log \<Rightarrow> router_log" where
  "log_step (RouteOp now rq) (r, ts, es) =
     (let d = decide now rq r in
      (r, ts @ [build_telemetry rq d (get_baseline_model (mr_models r))],
       if sm_injection (dc_security d) then es @ [build_injection_event rq d] else es))"
| "log_step ClearOp (r, ts, es) = (r, [], [])"
| "log_step op (r, ts, es) = (router_step op r, ts, es)"

definition with_logs :: "telemetry_entry list \<Rightarrow> injection_event list \<Rightarrow> model_router \<Rightarrow> model_router" where
  "with_logs ts es r = r\<lparr>mr_telemetry := ts, mr_injections := es\<rparr>"

lemma with_logs_sel [simp]:
  "mr_models (with_logs ts es r) = mr_models r" "mr_overrides (with_logs ts es r) = mr_overrides r"
  "mr_threshold (with_logs ts es r) = mr_threshold r" "mr_enforce (with_logs ts es r) = mr_enforce r"
  "mr_injection_threshold (with_logs ts es r) = mr_injection_threshold r"
  "mr_history_limit (with_logs ts es r) = mr_history_limit r" "mr_quota (with_logs ts es r) = mr_quota r"
  "mr_performance (with_logs ts es r) = mr_performance r"
  "mr_telemetry (with_logs ts es r) = ts" "mr_injections (with_logs ts es r) = es"
  by (simp_all add: with_logs_def)

lemma decide_with_logs: "decide now rq (with_logs ts es r) = decide now rq r"
proof -
  have b: "snd (build_decision (with_logs ts es r) now m rq opts) = snd (build_decision r now m rq opts)" for m opts
    by (simp add: build_decision_def Let_def)
  have f: "snd (fallback (with_logs ts es r) now rq ws sec e) = snd (fallback r now rq ws sec e)" for ws sec e
    by (simp add: fallback_def Let_def b split: prod.split list.split)
  have e: "effective_bounds (with_logs ts es r) rq u sec = effective_bounds r rq u sec" for u sec
    unfolding effective_bounds_def with_logs_sel by (rule refl)
  have p: "snd (route_by_policy (with_logs ts es r) now rq u sec ws) = snd (route_by_policy r now rq u sec ws)"
    for u sec ws by (simp add: route_by_policy_def Let_def b f e split: prod.split)
  have u: "usable_forced (with_logs ts es r) i = usable_forced r i"
    "unit_override_of (with_logs ts es r) rq = unit_override_of r rq" for i
    unfolding usable_forced_def unit_override_of_def with_logs_sel by (rule refl)+
  show ?thesis by (simp add: select_model_def Let_def b p u split: option.split)
qed

definition refines_log :: "model_router \<Rightarrow> router_log \<Rightarrow> bool" where
  "refines_log c l \<longleftrightarrow>
     c = with_logs (last_entries (mr_history_limit (fst l)) (fst (snd l)))
           (last_entries (mr_history_limit (fst l)) (snd (snd l))) (fst l)
     \<and> 0 < mr_history_limit (fst l)"

lemma with_logs_again: "with_logs ts' es' (with_logs ts es r) = with_logs ts' es' r"
  by (simp add: with_logs_def)

lemma refines_step:
  assumes "refines_log c l"
  shows "refines_log (router_step op c) (log_step op l)"
proof -
  obtain r ts es where l: "l = (r, ts, es)" by (cases l) auto
  let ?n = "mr_history_limit r"
  have n: "0 < ?n" and c: "c = with_logs (last_entries ?n ts) (last_entries ?n es) r"
    using assms by (auto simp: refines_log_def l)
  show ?thesis
  proof (cases op)
    case (RouteOp now rq)
    have "router_step op c = record_telemetry rq (decide now rq r) c"
      by (simp add: RouteOp select_state decide_with_logs c)
    then show ?thesis
      using n by (simp add: RouteOp refines_log_def l Let_def c record_telemetry_def push_limited_refines
          with_logs_def)
  qed (use n in \<open>simp_all add: refines_log_def l c with_logs_def update_model_status_def set_unit_override_def
      remove_unit_override_def clear_security_telemetry_def last_entries_def\<close>)
qed

lemma refines_run: "refines_log c l \<Longrightarrow> refines_log (run_router ops c) (fold log_step ops l)"
  by (induction ops arbitrary: c l) (simp_all add: run_router_def refines_step)

text \<open>
  C23: Refinement of the telemetry: along every sequence of operations the two bounded buffers hold the
  newest entries of the unbounded logs of the specification, so a summary over at most
  \<open>routingHistoryLimit\<close> entries is the summary of the full log's tail.
\<close>

theorem telemetry_refines_the_full_log:
  fixes models overrides th en it hist ops
  defines "r0 \<equiv> new_router models overrides th en it hist"
  defines "c \<equiv> run_router ops r0" and "l \<equiv> fold log_step ops (r0, [], [])"
  shows "mr_telemetry c = last_entries (mr_history_limit r0) (fst (snd l))
    \<and> mr_injections c = last_entries (mr_history_limit r0) (snd (snd l))
    \<and> telemetry_window c None = last_entries (mr_history_limit r0) (fst (snd l))
    \<and> telemetry_window c (Some x) = last_entries (if x = 0 then mr_history_limit r0
          else max 1 (min (truncate_rat x) (mr_history_limit r0))) (fst (snd l))"
proof -
  have "refines_log r0 (r0, [], [])" by (simp add: refines_log_def r0_def new_router_def with_logs_def last_entries_def)
  then have "refines_log c l" unfolding c_def l_def by (rule refines_run)
  then have c: "c = with_logs (last_entries (mr_history_limit (fst l)) (fst (snd l)))
           (last_entries (mr_history_limit (fst l)) (snd (snd l))) (fst l)" by (simp add: refines_log_def)
  have h: "mr_history_limit (router_step op r) = mr_history_limit r" for op r
    by (cases op) (simp_all add: select_state record_telemetry_frame update_model_status_def set_unit_override_def
      remove_unit_override_def clear_security_telemetry_def)
  have "mr_history_limit c = mr_history_limit r0"
    unfolding c_def run_router_def by (induction ops arbitrary: r0) (simp_all add: h)
  then have n: "mr_history_limit (fst l) = mr_history_limit r0" using arg_cong [OF c, of mr_history_limit] by simp
  have pos: "1 \<le> mr_history_limit r0" by (simp add: r0_def new_router_def)
  show ?thesis unfolding c using pos by (simp add: n telemetry_window_def last_entries_last)
qed

section \<open>Sample router\<close>

text \<open>The default models, with a quota and one business unit.\<close>

definition plain_request :: routing_request where
  "plain_request =
     \<lparr>rq_complexity = MediumTask, rq_time = Normal, rq_unit = None, rq_priority = None, rq_capabilities = None,
      rq_provider = None, rq_min_tier = None, rq_max_tier = None, rq_task_type = None, rq_safety = None,
      rq_force = None, rq_risk = None, rq_sources = None, rq_external = None, rq_injection = None,
      rq_in_tokens = None, rq_out_tokens = None\<rparr>"

definition external_request :: routing_request where
  "external_request = plain_request\<lparr>rq_external := Some True, rq_max_tier := Some 1\<rparr>"

definition default_router :: model_router where
  "default_router = new_router default_models None None None None None"

definition spent_router :: model_router where
  "spent_router = default_router\<lparr>mr_quota := [(''global'', \<lparr>qs_total = 100, qs_used = 95, qs_resets_at = ''''\<rparr>)]\<rparr>"


theorem routing_takes_the_best_witness:
  "mo_id (dc_model (decide 0 plain_request default_router)) = ''gpt-4o''
   \<and> list_all (\<lambda>m. score_of default_router plain_request m \<le> dc_score (decide 0 plain_request default_router))
       (candidates_for default_router plain_request)"
proof -
  have f: "forced_choice default_router plain_request = None" by code_simp
  have c: "(candidates_for default_router plain_request = []) = False" by code_simp
  have m: "mo_id (dc_model (decide 0 plain_request default_router)) = ''gpt-4o''" by code_simp
  have "list_all (\<lambda>m. score_of default_router plain_request m \<le> dc_score (decide 0 plain_request default_router))
      (candidates_for default_router plain_request)"
    using routing_takes_the_best [OF f, of 0] unfolding c not_False_eq_True if_True by (elim conjE) assumption
  then show ?thesis by (simp only: m simp_thms)
qed

theorem high_risk_goes_to_the_premium_tier_witness:
  "dc_tier (decide 0 external_request spent_router) = 3"
proof -
  have "well_tiered spent_router external_request" "forced_choice spent_router external_request = None"
    "sm_risk (risk_of spent_router external_request) = HighRisk"
    "list_ex (\<lambda>m. mo_tier m = 3 \<and> mo_status m \<noteq> Unavailable \<and> has_capabilities external_request m)
       (mr_models spent_router)"
    by code_simp+
  from high_risk_goes_to_the_premium_tier [OF this, of 0] show ?thesis by simp
qed

theorem over_quota_stays_on_the_cheap_tier_witness:
  "dc_tier (decide 0 plain_request spent_router) \<le> 1"
proof -
  have "forced_choice spent_router plain_request = None" "mr_enforce spent_router"
    "\<not> quota_exempt plain_request (risk_of spent_router plain_request)"
    "mr_threshold spent_router \<le> get_usage (mr_quota spent_router) ''global''"
    "\<not> dc_fallback_used (decide 0 plain_request spent_router)"
    by code_simp+
  from over_quota_stays_on_the_cheap_tier [OF this] show ?thesis .
qed

definition sample_reports :: "router_op list" where
  "sample_reports =
     [CompletionOp 1 ''o1'' ''review'' 1000 True (9 / 10), CompletionOp 2 ''o1'' ''review'' 40000 False (1 / 10),
      CompletionOp 3 ''o1'' ''review'' 500 True 1]"

theorem performance_stays_in_range_witness:
  "performance_score (mr_performance (run_router sample_reports default_router)) ''o1'' ''review'' \<le> 1"
proof -
  have "list_all report_ok sample_reports" by code_simp
  from performance_stays_in_range [OF this refl, of default_models None None None None None] show ?thesis
    by (simp add: default_router_def)
qed

section \<open>Where the router does less than its documents say\<close>

text \<open>
  The security floor does not hold in the fallback. With both premium models down, a request with
  external content (high risk, tier floor 3) is routed to the cheapest model of tier 1 although
  tier-2 models are up, because the fallback sorts by price only and knows no floor.
\<close>

theorem fallback_drops_the_security_floor:
  "sm_risk (risk_of default_router external_request) = HighRisk
   \<and> dc_tier (decide 0 external_request
        (run_router [StatusOp ''o1'' Unavailable, StatusOp ''claude-opus'' Unavailable] default_router)) = 1
   \<and> mo_id (dc_model (decide 0 external_request
        (run_router [StatusOp ''o1'' Unavailable, StatusOp ''claude-opus'' Unavailable] default_router))) = ''gpt-4o-mini''
   \<and> get_available_models
        (run_router [StatusOp ''o1'' Unavailable, StatusOp ''claude-opus'' Unavailable] default_router)
      = take 4 default_models"
  by code_simp

text \<open>
  The floor of urgent requests is not a hard one: a ceiling of 1 in the request, or the quota gate,
  brings an urgent request down to tier 1.
\<close>

theorem urgent_floor_is_not_hard:
  "dc_tier (decide 0 (plain_request\<lparr>rq_time := Urgent, rq_max_tier := Some 1\<rparr>) default_router) = 1
   \<and> dc_tier (decide 0 (plain_request\<lparr>rq_time := Urgent\<rparr>) spent_router) = 1"
  by code_simp

text \<open>
  A quota whose total is 0 counts as unused by the threshold and as exhausted by the filters.
\<close>

theorem zero_quota_is_unused_and_exhausted:
  "get_usage (set_quota k \<lparr>qs_total = 0, qs_used = 0, qs_resets_at = t\<rparr> q) k = 0
   \<and> is_exhausted (set_quota k \<lparr>qs_total = 0, qs_used = 0, qs_resets_at = t\<rparr> q) k"
  by (simp add: get_usage_def set_quota_def is_exhausted_def)

text \<open>Two pairs of model and task type can share one performance record.\<close>

theorem performance_keys_collide:
  "performance_key ''a'' ''b::c'' = performance_key ''a::b'' ''c''"
  by code_simp

end
