(* ===== verification/Proposal.thy ===== *)
theory Proposal
  imports Prelude
begin

text \<open>
  The proposal lifecycle engine, \<open>dashboard/server/proposal-lifecycle.ts\<close>: proposals are submitted and
  reviewed, an approved one becomes a mission, and the steps of a mission run one by one in the
  order of their dependencies. Random ids and clock readings come from a \<open>lifecycle_env\<close>; the
  engine counts how many of each it has used. The asynchronous \<open>runMission\<close> is cut at its \<open>await\<close>: a
  segment starts a step and suspends, \<open>resume_run\<close> goes on when the delay is over, and \<open>end_of_run\<close> is the
  \<open>finally\<close> of \<open>scheduleMissionExecution\<close>.
\<close>

section \<open>Data\<close>

datatype proposal_status = ProposalPending | ProposalApproved | ProposalRejected | ProposalNeedsChanges

datatype proposal_risk = ProposalLow | ProposalMedium | ProposalHigh | ProposalCritical

text \<open>\<open>MissionStatus\<close> and \<open>StepStatus\<close> have the same five values.\<close>

datatype run_status = RunPending | RunRunning | RunCompleted | RunFailed | RunBlocked

datatype review_action = ApproveAction | RejectAction | ModifyAction

record risk_assessment =
  ra_level :: proposal_risk
  ra_summary :: string
  ra_mitigations :: "string list"

record step_template =
  tp_id :: string
  tp_title :: string
  tp_description :: string
  tp_agent :: string
  tp_depends :: "string list"
  tp_expected :: "string option"
  tp_fail :: bool

record review_info =
  rv_action :: review_action
  rv_reviewer :: string
  rv_notes :: "string option"
  rv_at :: int

record work_proposal =
  wp_id :: string
  wp_title :: string
  wp_goal :: string
  wp_agent :: string
  wp_cost :: rat
  wp_skills :: "string list"
  wp_risk :: risk_assessment
  wp_steps :: "step_template list"
  wp_status :: proposal_status
  wp_mission :: "string option"
  wp_created_at :: int
  wp_updated_at :: int
  wp_review :: "review_info option"

record lifecycle_step =
  st_id :: string
  st_order :: nat
  st_title :: string
  st_description :: string
  st_agent :: string
  st_depends :: "string list"
  st_status :: run_status
  st_expected :: "string option"
  st_started_at :: "int option"
  st_finished_at :: "int option"
  st_summary :: "string option"
  st_error :: "string option"
  st_fail :: bool

record proposal_mission =
  pm_id :: string
  pm_proposal :: string
  pm_title :: string
  pm_status :: run_status
  pm_created_at :: int
  pm_updated_at :: int
  pm_started_at :: "int option"
  pm_finished_at :: "int option"
  pm_current :: "string option"
  pm_steps :: "lifecycle_step list"

datatype lifecycle_event_type =
    ProposalSubmitted | ProposalReviewed | MissionCreated | MissionStarted | StepAssigned | StepStarted
  | StepCompleted | StepFailed | StepHandoff | MissionCompleted | MissionFailed

datatype payload_value = TextValue string | NumberValue rat

record lifecycle_event =
  ev_id :: string
  ev_type :: lifecycle_event_type
  ev_ts :: int
  ev_proposal :: "string option"
  ev_mission :: "string option"
  ev_step :: "string option"
  ev_agent :: "string option"
  ev_to_agent :: "string option"
  ev_payload :: "(string \<times> payload_value) list"

text \<open>The inputs are not trusted: a field that is not a string, number or array reads as \<open>None\<close>.\<close>

record step_input =
  si_id :: "string option"
  si_title :: "string option"
  si_description :: "string option"
  si_agent :: "string option"
  si_depends :: "string option list option"
  si_expected :: "string option"
  si_fail :: "bool option"

record risk_input =
  ri_level :: "string option"
  ri_summary :: "string option"
  ri_mitigations :: "string option list option"

record submit_input =
  sj_title :: "string option"
  sj_goal :: "string option"
  sj_agent :: "string option"
  sj_cost :: "rat option"
  sj_skills :: "string option list option"
  sj_risk :: risk_input
  sj_steps :: "step_input list option"

text \<open>A patch: the outer \<open>None\<close> of the cost is an absent value, the inner one a value that is no number.\<close>

record proposal_patch =
  pa_title :: "string option"
  pa_goal :: "string option"
  pa_cost :: "rat option option"
  pa_skills :: "string option list option"
  pa_risk :: "(string option field \<times> string option field \<times> string option list option field) option"
  pa_steps :: "step_input list option"

record review_input =
  rw_action :: "string option"
  rw_reviewer :: "string option"
  rw_notes :: "string option"
  rw_patch :: "proposal_patch option"
  rw_auto_start :: "bool option"

record lifecycle_env =
  en_uuid :: "nat \<Rightarrow> string"
  en_clock :: "nat \<Rightarrow> int"

type_synonym lifecycle_store = "work_proposal list \<times> proposal_mission list \<times> lifecycle_event list"

text \<open>
  The engine: the store in memory, the store on disk, the set \<open>runningMissions\<close>, the runs that are
  suspended in their delay (mission and step), the runs that returned but whose \<open>finally\<close> is still to
  come, the events given to the listeners, and the numbers of ids and clock readings used.
\<close>

record lifecycle_engine =
  le_proposals :: "work_proposal list"
  le_missions :: "proposal_mission list"
  le_events :: "lifecycle_event list"
  le_disk :: lifecycle_store
  le_running :: "string list"
  le_waiting :: "(string \<times> nat) list"
  le_ended :: "string list"
  le_emitted :: "lifecycle_event list"
  le_uuids :: nat
  le_ticks :: nat

fun proposal_status_name :: "proposal_status \<Rightarrow> string" where
  "proposal_status_name ProposalPending = ''pending''" | "proposal_status_name ProposalApproved = ''approved''"
| "proposal_status_name ProposalRejected = ''rejected''"
| "proposal_status_name ProposalNeedsChanges = ''needs_changes''"

fun run_status_name :: "run_status \<Rightarrow> string" where
  "run_status_name RunPending = ''pending''" | "run_status_name RunRunning = ''running''"
| "run_status_name RunCompleted = ''completed''" | "run_status_name RunFailed = ''failed''"
| "run_status_name RunBlocked = ''blocked''"

fun review_action_name :: "review_action \<Rightarrow> string" where
  "review_action_name ApproveAction = ''approve''" | "review_action_name RejectAction = ''reject''"
| "review_action_name ModifyAction = ''modify''"

section \<open>Sanitizing\<close>

definition sanitize_text :: "string option \<Rightarrow> string \<Rightarrow> string" where
  "sanitize_text x d = (case x of None \<Rightarrow> d | Some s \<Rightarrow> js_trim s)"

definition text_or_none :: "string option \<Rightarrow> string option" where
  "text_or_none x = (let s = sanitize_text x [] in if s = [] then None else Some s)"

text \<open>\<open>[a-z0-9._-]\<close>.\<close>

definition id_char :: "char \<Rightarrow> bool" where
  "id_char c \<longleftrightarrow> (let n = of_char c :: nat in 97 \<le> n \<and> n \<le> 122 \<or> is_digit c \<or> c \<in> set ''._-'')"

definition strip_dashes :: "string \<Rightarrow> string" where
  "strip_dashes s = rev (dropWhile (\<lambda>c. c = CHR ''-'') (rev (dropWhile (\<lambda>c. c = CHR ''-'') s)))"

definition clean_id :: "string option \<Rightarrow> string" where
  "clean_id x = strip_dashes (squash_runs id_char (CHR ''-'') False (to_lower (sanitize_text x [])))"

text \<open>An id that is empty after cleaning is replaced by a random one; \<open>n\<close> counts the random ids.\<close>

definition sanitize_id :: "lifecycle_env \<Rightarrow> string option \<Rightarrow> string \<Rightarrow> nat \<Rightarrow> string \<times> nat" where
  "sanitize_id env x prefix n =
     (let cleaned = clean_id x in
      if cleaned \<noteq> [] then (cleaned, n) else (prefix @ ''-'' @ take 8 (en_uuid env n), Suc n))"

definition clamp_non_negative :: "rat option \<Rightarrow> rat \<Rightarrow> rat" where
  "clamp_non_negative x d = (case x of None \<Rightarrow> d | Some v \<Rightarrow> max 0 v)"

text \<open>The loop of \<open>uniqueStrings\<close>, which stops at the limit.\<close>

fun unique_strings_from :: "string list \<Rightarrow> nat \<Rightarrow> string option list \<Rightarrow> string list" where
  "unique_strings_from out limit [] = out"
| "unique_strings_from out limit (v # vs) =
     (let s = to_lower (sanitize_text v []) in
      if s = [] \<or> s \<in> set out then unique_strings_from out limit vs
      else if length (out @ [s]) \<ge> limit then out @ [s]
      else unique_strings_from (out @ [s]) limit vs)"

definition unique_strings :: "string option list \<Rightarrow> string list" where
  "unique_strings vs = unique_strings_from [] 30 vs"

definition risk_level_of :: "string \<Rightarrow> proposal_risk" where
  "risk_level_of s =
     (if s = ''low'' then ProposalLow else if s = ''high'' then ProposalHigh
      else if s = ''critical'' then ProposalCritical else ProposalMedium)"

fun proposal_risk_name :: "proposal_risk \<Rightarrow> string" where
  "proposal_risk_name ProposalLow = ''low''" | "proposal_risk_name ProposalMedium = ''medium''"
| "proposal_risk_name ProposalHigh = ''high''" | "proposal_risk_name ProposalCritical = ''critical''"

definition normalize_risk :: "risk_input \<Rightarrow> risk_assessment" where
  "normalize_risk r =
     \<lparr>ra_level = risk_level_of (to_lower (sanitize_text (ri_level r) ''medium'')),
      ra_summary = sanitize_text (ri_summary r) ''Risk review pending'',
      ra_mitigations = unique_strings (nullish (ri_mitigations r) [])\<rparr>"

section \<open>Step plans\<close>

fun sanitize_ids :: "lifecycle_env \<Rightarrow> string option list \<Rightarrow> nat \<Rightarrow> string list \<times> nat" where
  "sanitize_ids env [] n = ([], n)"
| "sanitize_ids env (x # xs) n =
     (let (i, n1) = sanitize_id env x ''step'' n; (is, n2) = sanitize_ids env xs n1 in (i # is, n2))"

definition step_prefix :: "nat \<Rightarrow> string" where
  "step_prefix k = ''step-'' @ show_nat k"

text \<open>The map over the raw steps; \<open>k\<close> is the 1-based position. A failure leaves the used ids used.\<close>

fun normalize_raw :: "lifecycle_env \<Rightarrow> nat \<Rightarrow> step_input list \<Rightarrow> nat \<Rightarrow> (string + step_template list) \<times> nat" where
  "normalize_raw env k [] n = (Inr [], n)"
| "normalize_raw env k (raw # raws) n =
     (let (i, n1) = sanitize_id env (si_id raw) (step_prefix k) n;
          title = sanitize_text (si_title raw) [];
          description = sanitize_text (si_description raw) [];
          (agent, n2) = sanitize_id env (si_agent raw) ''agent'' n1 in
      if title = [] then (Inl (''Step '' @ show_nat k @ '' is missing title''), n2)
      else if description = [] then (Inl (''Step '' @ show_nat k @ '' is missing description''), n2)
      else
        (let (deps, n3) = sanitize_ids env (nullish (si_depends raw) []) n2;
             t = \<lparr>tp_id = i, tp_title = title, tp_description = description, tp_agent = agent, tp_depends = deps,
                  tp_expected = text_or_none (si_expected raw), tp_fail = (si_fail raw = Some True)\<rparr> in
         case normalize_raw env (Suc k) raws n3 of
           (Inl msg, n4) \<Rightarrow> (Inl msg, n4)
         | (Inr ts, n4) \<Rightarrow> (Inr (t # ts), n4)))"

definition known_depends :: "string list \<Rightarrow> step_template \<Rightarrow> step_template" where
  "known_depends ids t = t\<lparr>tp_depends := filter (\<lambda>i. i \<noteq> tp_id t \<and> i \<in> set ids) (tp_depends t)\<rparr>"

text \<open>Steps without dependencies are chained to the step before them; the first one is not.\<close>

fun chain_steps :: "string option \<Rightarrow> step_template list \<Rightarrow> step_template list" where
  "chain_steps before [] = []"
| "chain_steps before (t # ts) =
     (case before of
        Some b \<Rightarrow> if tp_depends t = [] then t\<lparr>tp_depends := [b]\<rparr> else t
      | None \<Rightarrow> t) # chain_steps (Some (tp_id t)) ts"

definition normalize_steps :: "lifecycle_env \<Rightarrow> step_input list option \<Rightarrow> nat \<Rightarrow> (string + step_template list) \<times> nat" where
  "normalize_steps env raws n =
     (case raws of
        None \<Rightarrow> (Inl ''Proposal must define at least one step'', n)
      | Some [] \<Rightarrow> (Inl ''Proposal must define at least one step'', n)
      | Some rs \<Rightarrow>
          (case normalize_raw env 1 rs n of
             (Inl msg, n1) \<Rightarrow> (Inl msg, n1)
           | (Inr ts, n1) \<Rightarrow> (Inr (chain_steps None (map (known_depends (map tp_id ts)) ts)), n1)))"

definition step_of_template :: "nat \<Rightarrow> step_template \<Rightarrow> lifecycle_step" where
  "step_of_template k t =
     \<lparr>st_id = tp_id t, st_order = Suc k, st_title = tp_title t, st_description = tp_description t,
      st_agent = tp_agent t, st_depends = tp_depends t, st_status = RunPending, st_expected = tp_expected t,
      st_started_at = None, st_finished_at = None, st_summary = None, st_error = None, st_fail = tp_fail t\<rparr>"

definition proposal_to_mission :: "string \<Rightarrow> work_proposal \<Rightarrow> int \<Rightarrow> proposal_mission" where
  "proposal_to_mission uuid p ts =
     \<lparr>pm_id = ''mission-'' @ take 8 uuid, pm_proposal = wp_id p, pm_title = wp_title p, pm_status = RunPending,
      pm_created_at = ts, pm_updated_at = ts, pm_started_at = None, pm_finished_at = None, pm_current = None,
      pm_steps = map (\<lambda>(k, t). step_of_template k t) (enumerate 0 (wp_steps p))\<rparr>"

section \<open>The engine\<close>

definition store_of :: "lifecycle_engine \<Rightarrow> lifecycle_store" where
  "store_of e = (le_proposals e, le_missions e, le_events e)"

text \<open>The constructor reads the store; a store that is missing or cannot be parsed gives the empty one.\<close>

definition read_lifecycle_store :: "lifecycle_store option \<Rightarrow> lifecycle_store" where
  "read_lifecycle_store raw = nullish raw ([], [], [])"

definition new_engine :: "lifecycle_store option \<Rightarrow> lifecycle_engine" where
  "new_engine raw =
     (let (ps, ms, es) = read_lifecycle_store raw in
      \<lparr>le_proposals = ps, le_missions = ms, le_events = es, le_disk = (ps, ms, es), le_running = [], le_waiting = [],
       le_ended = [], le_emitted = [], le_uuids = 0, le_ticks = 0\<rparr>)"

definition read_clock :: "lifecycle_env \<Rightarrow> lifecycle_engine \<Rightarrow> int \<times> lifecycle_engine" where
  "read_clock env e = (en_clock env (le_ticks e), e\<lparr>le_ticks := Suc (le_ticks e)\<rparr>)"

definition draw_uuid :: "lifecycle_env \<Rightarrow> lifecycle_engine \<Rightarrow> string \<times> lifecycle_engine" where
  "draw_uuid env e = (en_uuid env (le_uuids e), e\<lparr>le_uuids := Suc (le_uuids e)\<rparr>)"

definition persist :: "lifecycle_engine \<Rightarrow> lifecycle_engine" where
  "persist e = e\<lparr>le_disk := store_of e\<rparr>"

definition max_events :: int where
  "max_events = 2000"

definition push_event :: "lifecycle_env \<Rightarrow> lifecycle_event \<Rightarrow> lifecycle_engine \<Rightarrow> lifecycle_engine" where
  "push_event env ev e =
     (let (u, e1) = draw_uuid env e; ev1 = ev\<lparr>ev_id := ''evt-'' @ take 10 u\<rparr> in
      e1\<lparr>le_events := push_limited max_events ev1 (le_events e1), le_emitted := le_emitted e1 @ [ev1]\<rparr>)"

definition proposal_event ::
  "lifecycle_event_type \<Rightarrow> int \<Rightarrow> string \<Rightarrow> (string \<times> payload_value) list \<Rightarrow> lifecycle_event" where
  "proposal_event ty ts pid payload =
     \<lparr>ev_id = [], ev_type = ty, ev_ts = ts, ev_proposal = Some pid, ev_mission = None, ev_step = None,
      ev_agent = None, ev_to_agent = None, ev_payload = payload\<rparr>"

definition mission_event ::
  "lifecycle_event_type \<Rightarrow> int \<Rightarrow> proposal_mission \<Rightarrow> (string \<times> payload_value) list \<Rightarrow> lifecycle_event" where
  "mission_event ty ts m payload = (proposal_event ty ts (pm_proposal m) payload)\<lparr>ev_mission := Some (pm_id m)\<rparr>"

definition step_event ::
  "lifecycle_event_type \<Rightarrow> int \<Rightarrow> proposal_mission \<Rightarrow> lifecycle_step \<Rightarrow> (string \<times> payload_value) list \<Rightarrow> lifecycle_event" where
  "step_event ty ts m s payload =
     (mission_event ty ts m payload)\<lparr>ev_step := Some (st_id s), ev_agent := Some (st_agent s)\<rparr>"

definition find_proposal :: "lifecycle_engine \<Rightarrow> string \<Rightarrow> work_proposal option" where
  "find_proposal e i = List.find (\<lambda>p. wp_id p = i) (le_proposals e)"

definition find_mission :: "lifecycle_engine \<Rightarrow> string \<Rightarrow> proposal_mission option" where
  "find_mission e i = List.find (\<lambda>m. pm_id m = i) (le_missions e)"

definition update_proposal :: "string \<Rightarrow> (work_proposal \<Rightarrow> work_proposal) \<Rightarrow> lifecycle_engine \<Rightarrow> lifecycle_engine" where
  "update_proposal i f e = e\<lparr>le_proposals := update_first (\<lambda>p. wp_id p = i) f (le_proposals e)\<rparr>"

definition update_mission :: "string \<Rightarrow> (proposal_mission \<Rightarrow> proposal_mission) \<Rightarrow> lifecycle_engine \<Rightarrow> lifecycle_engine" where
  "update_mission i f e = e\<lparr>le_missions := update_first (\<lambda>m. pm_id m = i) f (le_missions e)\<rparr>"

section \<open>Submitting\<close>

definition new_proposal :: "submit_input \<Rightarrow> string \<Rightarrow> string \<Rightarrow> int \<Rightarrow> step_template list \<Rightarrow> work_proposal" where
  "new_proposal inp u agent ts steps =
     \<lparr>wp_id = ''proposal-'' @ take 8 u, wp_title = sanitize_text (sj_title inp) [],
      wp_goal = sanitize_text (sj_goal inp) [], wp_agent = agent, wp_cost = clamp_non_negative (sj_cost inp) 0,
      wp_skills = unique_strings (nullish (sj_skills inp) []), wp_risk = normalize_risk (sj_risk inp),
      wp_steps = steps, wp_status = ProposalPending, wp_mission = None, wp_created_at = ts, wp_updated_at = ts,
      wp_review = None\<rparr>"

definition submitted_event :: "int \<Rightarrow> work_proposal \<Rightarrow> lifecycle_event" where
  "submitted_event ts p =
     proposal_event ProposalSubmitted ts (wp_id p)
       [(''title'', TextValue (wp_title p)), (''submittedByAgentId'', TextValue (wp_agent p)),
        (''estimatedCostUsd'', NumberValue (wp_cost p))]"

definition submit_proposal ::
  "lifecycle_env \<Rightarrow> submit_input \<Rightarrow> lifecycle_engine \<Rightarrow> lifecycle_engine \<times> (string + work_proposal)" where
  "submit_proposal env inp e =
     (let (agent, n) = sanitize_id env (sj_agent inp) ''agent'' (le_uuids e);
          e0 = e\<lparr>le_uuids := n\<rparr> in
      if sanitize_text (sj_title inp) [] = [] then (e0, Inl ''Proposal title is required'')
      else if sanitize_text (sj_goal inp) [] = [] then (e0, Inl ''Proposal goal is required'')
      else
        (let (ts, e1) = read_clock env e0; (u, e2) = draw_uuid env e1 in
         case normalize_steps env (sj_steps inp) (le_uuids e2) of
           (Inl msg, n1) \<Rightarrow> (e2\<lparr>le_uuids := n1\<rparr>, Inl msg)
         | (Inr steps, n1) \<Rightarrow>
             (let p = new_proposal inp u agent ts steps;
                  e3 = e2\<lparr>le_uuids := n1, le_proposals := le_proposals e2 @ [p]\<rparr>
              in (persist (push_event env (submitted_event ts p) e3), Inr p))))"

section \<open>Running a mission\<close>

text \<open>The run returns: its \<open>finally\<close> is still to be called.\<close>

definition return_run :: "string \<Rightarrow> lifecycle_engine \<Rightarrow> lifecycle_engine" where
  "return_run i e = e\<lparr>le_ended := le_ended e @ [i]\<rparr>"

definition completed_ids :: "lifecycle_step list \<Rightarrow> string list" where
  "completed_ids steps = map st_id (filter (\<lambda>s. st_status s = RunCompleted) steps)"

definition depends_met :: "lifecycle_step list \<Rightarrow> lifecycle_step \<Rightarrow> bool" where
  "depends_met steps s = list_all (\<lambda>i. i \<in> set (completed_ids steps)) (st_depends s)"

text \<open>The pending steps whose dependencies are completed, by their order; as indexes.\<close>

definition ready_steps :: "lifecycle_step list \<Rightarrow> nat list" where
  "ready_steps steps =
     sort_by (\<lambda>i j. st_order (steps ! i) \<le> st_order (steps ! j))
       (filter (\<lambda>i. st_status (steps ! i) = RunPending \<and> depends_met steps (steps ! i)) [0..<length steps])"

definition set_step :: "nat \<Rightarrow> (lifecycle_step \<Rightarrow> lifecycle_step) \<Rightarrow> proposal_mission \<Rightarrow> proposal_mission" where
  "set_step k f m = m\<lparr>pm_steps := (pm_steps m)[k := f (pm_steps m ! k)]\<rparr>"

definition start_step :: "int \<Rightarrow> lifecycle_step \<Rightarrow> lifecycle_step" where
  "start_step ts s = s\<lparr>st_status := RunRunning, st_started_at := Some ts\<rparr>"

text \<open>One turn of the loop of \<open>runMission\<close> up to the \<open>await\<close> or a \<open>return\<close>.\<close>

definition run_segment :: "lifecycle_env \<Rightarrow> string \<Rightarrow> lifecycle_engine \<Rightarrow> lifecycle_engine" where
  "run_segment env i e =
     (case find_mission e i of
        None \<Rightarrow> return_run i e
      | Some m \<Rightarrow>
          if pm_status m \<noteq> RunRunning then return_run i e
          else if filter (\<lambda>s. st_status s = RunPending) (pm_steps m) = [] then
            (let (ts, e1) = read_clock env e;
                 e2 = update_mission i (\<lambda>m. m\<lparr>pm_status := RunCompleted, pm_finished_at := Some ts,
                                              pm_updated_at := ts, pm_current := None\<rparr>) e1;
                 e3 = push_event env (mission_event MissionCompleted ts m
                        [(''stepCount'', NumberValue (of_nat (length (pm_steps m))))]) e2
             in return_run i (persist e3))
          else
            (case ready_steps (pm_steps m) of
               [] \<Rightarrow>
                 (let (ts, e1) = read_clock env e;
                      e2 = update_mission i (\<lambda>m. m\<lparr>pm_status := RunBlocked, pm_updated_at := ts\<rparr>) e1;
                      e3 = push_event env (mission_event MissionFailed ts m
                             [(''reason'', TextValue ''No runnable steps found. Check dependencies.'')]) e2
                  in return_run i (persist e3))
             | k # _ \<Rightarrow>
                 (let s = pm_steps m ! k;
                      (ts, e1) = read_clock env e;
                      e2 = update_mission i (\<lambda>m. set_step k (start_step ts)
                             (m\<lparr>pm_current := Some (st_id s), pm_updated_at := ts\<rparr>)) e1;
                      e3 = push_event env (step_event StepAssigned ts m s
                             [(''order'', NumberValue (of_nat (st_order s))), (''title'', TextValue (st_title s))]) e2;
                      e4 = persist (push_event env (step_event StepStarted ts m s []) e3)
                  in e4\<lparr>le_waiting := le_waiting e4 @ [(i, k)]\<rparr>)))"

definition fail_step :: "int \<Rightarrow> lifecycle_step \<Rightarrow> lifecycle_step" where
  "fail_step ts s = s\<lparr>st_status := RunFailed, st_finished_at := Some ts, st_error := Some ''Simulated step failure''\<rparr>"

definition step_summary :: "lifecycle_step \<Rightarrow> string" where
  "step_summary s = (if truthy_str (st_expected s) then str_or_empty (st_expected s) else ''Completed by '' @ st_agent s)"

definition complete_step :: "int \<Rightarrow> lifecycle_step \<Rightarrow> lifecycle_step" where
  "complete_step ts s = s\<lparr>st_status := RunCompleted, st_finished_at := Some ts, st_summary := Some (step_summary s)\<rparr>"

definition handoff_event :: "int \<Rightarrow> proposal_mission \<Rightarrow> lifecycle_step \<Rightarrow> lifecycle_step \<Rightarrow> lifecycle_event" where
  "handoff_event ts m s s' =
     (mission_event StepHandoff ts m [(''fromStepId'', TextValue (st_id s)), (''toStepId'', TextValue (st_id s'))])
       \<lparr>ev_step := Some (st_id s'), ev_agent := Some (st_agent s), ev_to_agent := Some (st_agent s')\<rparr>"

text \<open>The hand-offs after a step: to the newly ready steps of other agents.\<close>

definition handoffs :: "int \<Rightarrow> proposal_mission \<Rightarrow> lifecycle_step \<Rightarrow> lifecycle_event list" where
  "handoffs ts m s =
     map (\<lambda>k. handoff_event ts m s (pm_steps m ! k))
       (filter (\<lambda>k. st_agent (pm_steps m ! k) \<noteq> st_agent s) (ready_steps (pm_steps m)))"

text \<open>
  The rest of the loop body after the \<open>await\<close>, for the mission \<open>i\<close> and its step at index \<open>k\<close>. Missions
  are never removed, so the one that was suspended is still found.
\<close>

definition finish_step :: "lifecycle_env \<Rightarrow> string \<Rightarrow> nat \<Rightarrow> lifecycle_engine \<Rightarrow> lifecycle_engine" where
  "finish_step env i k e =
     (case find_mission e i of
        None \<Rightarrow> return_run i e
      | Some m \<Rightarrow>
          (let s = pm_steps m ! k; (ts, e1) = read_clock env e in
           if st_fail s then
             (let e2 = update_mission i (\<lambda>m. set_step k (fail_step ts)
                         (m\<lparr>pm_updated_at := ts, pm_status := RunFailed, pm_finished_at := Some ts,
                            pm_current := Some (st_id s)\<rparr>)) e1;
                  e3 = push_event env (step_event StepFailed ts m s
                         [(''error'', TextValue ''Simulated step failure'')]) e2;
                  e4 = push_event env (mission_event MissionFailed ts m
                         [(''failedStepId'', TextValue (st_id s)), (''failedAgentId'', TextValue (st_agent s))]) e3
              in return_run i (persist e4))
           else
             (let m' = set_step k (complete_step ts) (m\<lparr>pm_updated_at := ts\<rparr>);
                  e2 = update_mission i (\<lambda>m. set_step k (complete_step ts) (m\<lparr>pm_updated_at := ts\<rparr>)) e1;
                  e3 = push_event env (step_event StepCompleted ts m s
                         [(''summary'', TextValue (step_summary s))]) e2;
                  e4 = foldl (\<lambda>e ev. push_event env ev e) e3 (handoffs ts m' s)
              in run_segment env i (persist e4))))"

text \<open>The delay of the run of mission \<open>i\<close> at step \<open>k\<close> is over.\<close>

definition resume_run :: "lifecycle_env \<Rightarrow> string \<Rightarrow> nat \<Rightarrow> lifecycle_engine \<Rightarrow> lifecycle_engine" where
  "resume_run env i k e =
     (if (i, k) \<in> set (le_waiting e) then finish_step env i k (e\<lparr>le_waiting := remove1 (i, k) (le_waiting e)\<rparr>) else e)"

definition end_of_run :: "string \<Rightarrow> lifecycle_engine \<Rightarrow> lifecycle_engine" where
  "end_of_run i e =
     (if i \<in> set (le_ended e)
      then e\<lparr>le_ended := remove1 i (le_ended e), le_running := removeAll i (le_running e)\<rparr> else e)"

definition schedule_mission :: "lifecycle_env \<Rightarrow> string \<Rightarrow> lifecycle_engine \<Rightarrow> lifecycle_engine" where
  "schedule_mission env i e =
     (if i \<in> set (le_running e) then e else run_segment env i (e\<lparr>le_running := le_running e @ [i]\<rparr>))"

definition first_pending :: "proposal_mission \<Rightarrow> string option" where
  "first_pending m = map_option st_id (List.find (\<lambda>s. st_status s = RunPending) (pm_steps m))"

definition start_mission ::
  "lifecycle_env \<Rightarrow> string \<Rightarrow> lifecycle_engine \<Rightarrow> lifecycle_engine \<times> (string + proposal_mission)" where
  "start_mission env i e =
     (case find_mission e i of
        None \<Rightarrow> (e, Inl (''Mission not found: '' @ i))
      | Some m \<Rightarrow>
          if pm_status m = RunRunning \<or> pm_status m = RunCompleted then (e, Inr m)
          else if pm_status m = RunFailed then (e, Inl (''Mission already failed: '' @ i))
          else if map_option wp_status (find_proposal e (pm_proposal m)) \<noteq> Some ProposalApproved
          then (e, Inl ''Mission cannot start before proposal approval'')
          else
            (let (ts, e1) = read_clock env e;
                 e2 = update_mission i (\<lambda>m. m\<lparr>pm_status := RunRunning,
                        pm_started_at := Some (nullish (pm_started_at m) ts), pm_updated_at := ts,
                        pm_current := nullish_opt (pm_current m) (first_pending m)\<rparr>) e1;
                 e3 = persist (push_event env (mission_event MissionStarted ts m [(''title'', TextValue (pm_title m))]) e2);
                 e4 = schedule_mission env i e3
             in (e4, Inr (the (find_mission e4 i)))))"

section \<open>Reviewing\<close>

text \<open>
  The patch is applied field by field; a plan that is refused throws after the fields before it
  have been changed.
\<close>

definition patch_risk ::
  "risk_assessment \<Rightarrow> string option field \<times> string option field \<times> string option list option field \<Rightarrow> risk_assessment" where
  "patch_risk ra patch =
     (let (l, s, ms) = patch in
      normalize_risk \<lparr>ri_level = spread (Some (proposal_risk_name (ra_level ra))) l,
                      ri_summary = spread (Some (ra_summary ra)) s,
                      ri_mitigations = spread (Some (map Some (ra_mitigations ra))) ms\<rparr>)"

definition patch_fields :: "proposal_patch \<Rightarrow> work_proposal \<Rightarrow> work_proposal" where
  "patch_fields pa p =
     (let p1 = (if sanitize_text (pa_title pa) [] \<noteq> [] then p\<lparr>wp_title := sanitize_text (pa_title pa) []\<rparr> else p);
          p2 = (if sanitize_text (pa_goal pa) [] \<noteq> [] then p1\<lparr>wp_goal := sanitize_text (pa_goal pa) []\<rparr> else p1);
          p3 = (case pa_cost pa of None \<Rightarrow> p2 | Some c \<Rightarrow> p2\<lparr>wp_cost := clamp_non_negative c (wp_cost p2)\<rparr>);
          p4 = (case pa_skills pa of None \<Rightarrow> p3 | Some vs \<Rightarrow> p3\<lparr>wp_skills := unique_strings vs\<rparr>)
      in case pa_risk pa of None \<Rightarrow> p4 | Some r \<Rightarrow> p4\<lparr>wp_risk := patch_risk (wp_risk p4) r\<rparr>)"

definition apply_patch ::
  "lifecycle_env \<Rightarrow> string \<Rightarrow> proposal_patch \<Rightarrow> lifecycle_engine \<Rightarrow> lifecycle_engine \<times> string option" where
  "apply_patch env i pa e =
     (let e1 = update_proposal i (patch_fields pa) e in
      if nullish (pa_steps pa) [] = [] then (e1, None)
      else
        (case normalize_steps env (pa_steps pa) (le_uuids e1) of
           (Inl msg, n) \<Rightarrow> (e1\<lparr>le_uuids := n\<rparr>, Some msg)
         | (Inr steps, n) \<Rightarrow> (update_proposal i (\<lambda>p. p\<lparr>wp_steps := steps\<rparr>) (e1\<lparr>le_uuids := n\<rparr>), None)))"

definition parse_action :: "string \<Rightarrow> review_action option" where
  "parse_action s =
     (if s = ''approve'' then Some ApproveAction else if s = ''reject'' then Some RejectAction
      else if s = ''modify'' then Some ModifyAction else None)"

fun status_after :: "review_action \<Rightarrow> proposal_status" where
  "status_after ApproveAction = ProposalApproved" | "status_after RejectAction = ProposalRejected"
| "status_after ModifyAction = ProposalNeedsChanges"

text \<open>
  The approval: the mission is made, stored and started unless the reviewer says otherwise. The
  proposal is the one the review has found, so the first case does not occur.
\<close>

definition create_lifecycle_mission ::
  "lifecycle_env \<Rightarrow> string \<Rightarrow> int \<Rightarrow> bool \<Rightarrow> lifecycle_engine \<Rightarrow> lifecycle_engine \<times> (string + proposal_mission)" where
  "create_lifecycle_mission env i ts auto e =
     (case find_proposal e i of
        None \<Rightarrow> (e, Inl [])
      | Some p \<Rightarrow>
          (let (u, e1) = draw_uuid env e;
               m = proposal_to_mission u p ts;
               e2 = update_proposal i (\<lambda>p. p\<lparr>wp_mission := Some (pm_id m)\<rparr>) e1;
               e3 = e2\<lparr>le_missions := le_missions e2 @ [m]\<rparr>;
               e4 = push_event env (mission_event MissionCreated ts m
                      [(''title'', TextValue (pm_title m)), (''stepCount'', NumberValue (of_nat (length (pm_steps m))))]) e3
           in if auto then start_mission env (pm_id m) e4 else (e4, Inr m)))"

definition review_event :: "int \<Rightarrow> string \<Rightarrow> review_action \<Rightarrow> string \<Rightarrow> string option \<Rightarrow> lifecycle_event" where
  "review_event ts i act reviewer remarks =
     proposal_event ProposalReviewed ts i
       ([(''action'', TextValue (review_action_name act)), (''reviewerId'', TextValue reviewer)]
        @ (case remarks of None \<Rightarrow> [] | Some s \<Rightarrow> [(''notes'', TextValue s)]))"

definition review_proposal ::
  "lifecycle_env \<Rightarrow> string \<Rightarrow> review_input \<Rightarrow> lifecycle_engine
   \<Rightarrow> lifecycle_engine \<times> (string + work_proposal \<times> proposal_mission option)" where
  "review_proposal env i rw e =
     (case find_proposal e i of
        None \<Rightarrow> (e, Inl (''Proposal not found: '' @ i))
      | Some p \<Rightarrow>
          if wp_status p = ProposalApproved \<or> wp_status p = ProposalRejected
          then (e, Inl (''Proposal already finalized with status: '' @ proposal_status_name (wp_status p)))
          else
            (case parse_action (to_lower (sanitize_text (rw_action rw) [])) of
               None \<Rightarrow> (e, Inl (''Unsupported review action: '' @ nullish (rw_action rw) ''undefined''))
             | Some act \<Rightarrow>
                 (let (reviewer, n) = sanitize_id env (rw_reviewer rw) ''human'' (le_uuids e);
                      remarks = text_or_none (rw_notes rw);
                      e0 = e\<lparr>le_uuids := n\<rparr>;
                      (e1, err) = (case rw_patch rw of None \<Rightarrow> (e0, None) | Some pa \<Rightarrow> apply_patch env i pa e0) in
                  case err of
                    Some msg \<Rightarrow> (e1, Inl msg)
                  | None \<Rightarrow>
                      (let (ts, e2) = read_clock env e1;
                           e3 = update_proposal i (\<lambda>p. p\<lparr>wp_status := status_after act, wp_updated_at := ts,
                                  wp_review := Some \<lparr>rv_action = act, rv_reviewer = reviewer, rv_notes = remarks,
                                                     rv_at = ts\<rparr>\<rparr>) e2;
                           e4 = push_event env (review_event ts i act reviewer remarks) e3 in
                       if act = ApproveAction then
                         (case create_lifecycle_mission env i ts (rw_auto_start rw \<noteq> Some False) e4 of
                            (e5, Inl msg) \<Rightarrow> (e5, Inl msg)
                          | (e5, Inr m) \<Rightarrow> (persist e5, Inr (the (find_proposal e5 i), Some m)))
                       else (persist e4, Inr (the (find_proposal e4 i), None))))))"
section \<open>Queries\<close>

definition list_limit :: "int \<Rightarrow> rat option \<Rightarrow> nat" where
  "list_limit hi x = nat (max 1 (min hi (truncate_rat (nullish x 200))))"

text \<open>The filter text is compared with the status after trimming; an empty one matches everything.\<close>

definition matches_text :: "string option \<Rightarrow> string \<Rightarrow> bool" where
  "matches_text x s = (let t = sanitize_text x [] in t = [] \<or> s = t)"

definition list_proposals :: "lifecycle_engine \<Rightarrow> string option \<Rightarrow> rat option \<Rightarrow> work_proposal list" where
  "list_proposals e status n =
     take (list_limit 500 n)
       (filter (\<lambda>p. matches_text status (proposal_status_name (wp_status p))) (sort_desc wp_updated_at (le_proposals e)))"

definition list_missions :: "lifecycle_engine \<Rightarrow> string option \<Rightarrow> rat option \<Rightarrow> proposal_mission list" where
  "list_missions e status n =
     take (list_limit 500 n)
       (filter (\<lambda>m. matches_text status (run_status_name (pm_status m))) (sort_desc pm_updated_at (le_missions e)))"

definition matches_id :: "string option \<Rightarrow> string option \<Rightarrow> bool" where
  "matches_id x s = (let t = sanitize_text x [] in t = [] \<or> s = Some t)"

definition list_events ::
  "lifecycle_engine \<Rightarrow> string option \<Rightarrow> string option \<Rightarrow> rat option \<Rightarrow> lifecycle_event list" where
  "list_events e mission proposal n =
     take (list_limit 1000 n)
       (filter (\<lambda>ev. matches_id mission (ev_mission ev) \<and> matches_id proposal (ev_proposal ev))
         (sort_desc ev_ts (le_events e)))"

record lifecycle_summary =
  ls_pending :: "work_proposal list"
  ls_active :: "proposal_mission list"
  ls_recent :: "lifecycle_event list"
  ls_total_proposals :: nat
  ls_total_missions :: nat
  ls_pending_approvals :: nat
  ls_running_missions :: nat

definition get_lifecycle_summary :: "lifecycle_engine \<Rightarrow> lifecycle_summary" where
  "get_lifecycle_summary e =
     \<lparr>ls_pending = take 25 (sort_desc wp_updated_at
                     (filter (\<lambda>p. wp_status p \<in> {ProposalPending, ProposalNeedsChanges}) (le_proposals e))),
      ls_active = take 20 (sort_desc pm_updated_at
                    (filter (\<lambda>m. pm_status m \<in> {RunRunning, RunPending, RunBlocked}) (le_missions e))),
      ls_recent = take 80 (sort_desc ev_ts (le_events e)),
      ls_total_proposals = length (le_proposals e), ls_total_missions = length (le_missions e),
      ls_pending_approvals = length (filter (\<lambda>p. wp_status p = ProposalPending) (le_proposals e)),
      ls_running_missions = length (filter (\<lambda>m. pm_status m = RunRunning) (le_missions e))\<rparr>"

section \<open>Interleavings\<close>

text \<open>
  What can happen to an engine, in any order: requests, the end of a delay, the \<open>finally\<close> of a
  finished run, and a restart of the process, which finds the last persisted store or, after a
  write that was cut off, one it cannot read.
\<close>

datatype lifecycle_op =
    SubmitOp submit_input
  | ReviewOp string review_input
  | StartOp string
  | ResumeOp string nat
  | EndOp string
  | RestartOp bool

definition restart :: "bool \<Rightarrow> lifecycle_engine \<Rightarrow> lifecycle_engine" where
  "restart torn e =
     (new_engine (if torn then None else Some (le_disk e)))\<lparr>le_uuids := le_uuids e, le_ticks := le_ticks e\<rparr>"

fun engine_step :: "lifecycle_env \<Rightarrow> lifecycle_op \<Rightarrow> lifecycle_engine \<Rightarrow> lifecycle_engine" where
  "engine_step env (SubmitOp inp) e = fst (submit_proposal env inp e)"
| "engine_step env (ReviewOp i rw) e = fst (review_proposal env i rw e)"
| "engine_step env (StartOp i) e = fst (start_mission env i e)"
| "engine_step env (ResumeOp i k) e = resume_run env i k e"
| "engine_step env (EndOp i) e = end_of_run i e"
| "engine_step env (RestartOp torn) e = restart torn e"

inductive lifecycle_reachable :: "lifecycle_env \<Rightarrow> lifecycle_engine \<Rightarrow> bool" for env where
  fresh: "lifecycle_reachable env (new_engine None)"
| step: "lifecycle_reachable env e \<Longrightarrow> lifecycle_reachable env (engine_step env op e)"

definition run_lifecycle :: "lifecycle_env \<Rightarrow> lifecycle_op list \<Rightarrow> lifecycle_engine \<Rightarrow> lifecycle_engine" where
  "run_lifecycle env ops e = fold (engine_step env) ops e"

lemma run_lifecycle_reachable: "lifecycle_reachable env e \<Longrightarrow> lifecycle_reachable env (run_lifecycle env ops e)"
  unfolding run_lifecycle_def by (induction ops arbitrary: e) (auto intro: lifecycle_reachable.intros)

end
