(* ===== verification/Proposal_Correct.thy ===== *)
theory Proposal_Correct
  imports Proposal
begin

text \<open>
  What the proposal lifecycle promises, over every interleaving of requests, delays, finished runs
  and restarts: steps run one at a time and after their dependencies, a mission runs the plan that
  was approved, and a run ends. Then the plans that cannot run and the missions a restart strands.
\<close>

section \<open>Frames\<close>

named_theorems lifecycle "what the small operations of the engine leave alone"

lemma read_clock_sel [lifecycle]:
  "fst (read_clock env e) = en_clock env (le_ticks e)"
  "le_missions (snd (read_clock env e)) = le_missions e" "le_proposals (snd (read_clock env e)) = le_proposals e"
  "le_running (snd (read_clock env e)) = le_running e" "le_waiting (snd (read_clock env e)) = le_waiting e"
  "le_ended (snd (read_clock env e)) = le_ended e" "le_disk (snd (read_clock env e)) = le_disk e"
  by (simp_all add: read_clock_def)

lemma draw_uuid_sel [lifecycle]:
  "le_missions (snd (draw_uuid env e)) = le_missions e" "le_proposals (snd (draw_uuid env e)) = le_proposals e"
  "le_running (snd (draw_uuid env e)) = le_running e" "le_waiting (snd (draw_uuid env e)) = le_waiting e"
  "le_ended (snd (draw_uuid env e)) = le_ended e" "le_disk (snd (draw_uuid env e)) = le_disk e"
  by (simp_all add: draw_uuid_def)

lemma push_event_sel [lifecycle]:
  "le_missions (push_event env ev e) = le_missions e" "le_proposals (push_event env ev e) = le_proposals e"
  "le_running (push_event env ev e) = le_running e" "le_waiting (push_event env ev e) = le_waiting e"
  "le_ended (push_event env ev e) = le_ended e" "le_disk (push_event env ev e) = le_disk e"
  by (simp_all add: push_event_def draw_uuid_def Let_def)

lemma push_events_sel [lifecycle]:
  "le_missions (foldl (\<lambda>e ev. push_event env ev e) e evs) = le_missions e"
  "le_proposals (foldl (\<lambda>e ev. push_event env ev e) e evs) = le_proposals e"
  "le_running (foldl (\<lambda>e ev. push_event env ev e) e evs) = le_running e"
  "le_waiting (foldl (\<lambda>e ev. push_event env ev e) e evs) = le_waiting e"
  "le_ended (foldl (\<lambda>e ev. push_event env ev e) e evs) = le_ended e"
  "le_disk (foldl (\<lambda>e ev. push_event env ev e) e evs) = le_disk e"
  by (induction evs arbitrary: e) (simp_all add: lifecycle)

lemma persist_sel [lifecycle]:
  "le_missions (persist e) = le_missions e" "le_proposals (persist e) = le_proposals e"
  "le_running (persist e) = le_running e" "le_waiting (persist e) = le_waiting e" "le_ended (persist e) = le_ended e"
  "le_disk (persist e) = store_of e" "le_events (persist e) = le_events e"
  by (simp_all add: persist_def)

lemma return_run_sel [lifecycle]:
  "le_missions (return_run i e) = le_missions e" "le_proposals (return_run i e) = le_proposals e"
  "le_running (return_run i e) = le_running e" "le_waiting (return_run i e) = le_waiting e"
  "le_ended (return_run i e) = le_ended e @ [i]"
  by (simp_all add: return_run_def)

lemma update_mission_sel [lifecycle]:
  "le_proposals (update_mission i f e) = le_proposals e" "le_running (update_mission i f e) = le_running e"
  "le_waiting (update_mission i f e) = le_waiting e" "le_ended (update_mission i f e) = le_ended e"
  "le_disk (update_mission i f e) = le_disk e"
  "le_missions (update_mission i f e) = update_first (\<lambda>m. pm_id m = i) f (le_missions e)"
  by (simp_all add: update_mission_def)

lemma update_proposal_sel [lifecycle]:
  "le_missions (update_proposal i f e) = le_missions e" "le_running (update_proposal i f e) = le_running e"
  "le_waiting (update_proposal i f e) = le_waiting e" "le_ended (update_proposal i f e) = le_ended e"
  "le_disk (update_proposal i f e) = le_disk e"
  "le_proposals (update_proposal i f e) = update_first (\<lambda>p. wp_id p = i) f (le_proposals e)"
  by (simp_all add: update_proposal_def)

text \<open>Looking up after changing the first element with an id.\<close>

lemma find_update_id:
  assumes "\<And>x. key (f x) = key x"
  shows "List.find (\<lambda>x. key x = j) (update_first (\<lambda>x. key x = i) f xs)
       = (if j = i then map_option f (List.find (\<lambda>x. key x = i) xs) else List.find (\<lambda>x. key x = j) xs)"
  using assms by (induction xs) auto

lemma list_all_update_found:
  "list_all Q xs \<Longrightarrow> (\<And>x. List.find P xs = Some x \<Longrightarrow> Q (f x)) \<Longrightarrow> list_all Q (update_first P f xs)"
  by (induction xs) (auto split: if_splits)

lemma list_all_find: "list_all Q xs \<Longrightarrow> List.find P xs = Some x \<Longrightarrow> Q x"
  by (induction xs) (auto split: if_splits)

section \<open>Soundness of a mission\<close>

definition mission_sound :: "proposal_mission \<Rightarrow> bool" where
  "mission_sound m \<longleftrightarrow>
     (let ss = pm_steps m; n = length ss in
      (\<forall>k < n. st_status (ss ! k) \<noteq> RunPending \<longrightarrow> depends_met ss (ss ! k))
      \<and> (\<forall>j < n. \<forall>k < n. st_status (ss ! j) = RunRunning \<longrightarrow> st_status (ss ! k) = RunRunning \<longrightarrow> j = k)
      \<and> (\<forall>k < n. st_status (ss ! k) = RunRunning \<longrightarrow> pm_status m = RunRunning)
      \<and> (\<forall>k < n. st_status (ss ! k) \<noteq> RunBlocked)
      \<and> ((\<exists>k < n. st_status (ss ! k) = RunFailed) \<longleftrightarrow> pm_status m = RunFailed)
      \<and> (pm_status m = RunCompleted \<longrightarrow> (\<forall>k < n. st_status (ss ! k) = RunCompleted)))"

definition no_running_step :: "proposal_mission \<Rightarrow> bool" where
  "no_running_step m \<longleftrightarrow> (\<forall>k < length (pm_steps m). st_status (pm_steps m ! k) \<noteq> RunRunning)"

lemma completed_in: "i \<in> set (completed_ids ss) \<longleftrightarrow> (\<exists>k < length ss. st_status (ss ! k) = RunCompleted \<and> st_id (ss ! k) = i)"
  by (auto simp: completed_ids_def in_set_conv_nth)

lemma depends_met_cong:
  "st_depends s = st_depends s' \<Longrightarrow> set (completed_ids ss) \<subseteq> set (completed_ids ss') \<Longrightarrow> depends_met ss s
   \<Longrightarrow> depends_met ss' s'"
  by (auto simp: depends_met_def list_all_iff)

lemma completed_update:
  assumes "k < length ss" "st_id (f (ss ! k)) = st_id (ss ! k)"
    and "st_status (ss ! k) = RunCompleted \<Longrightarrow> st_status (f (ss ! k)) = RunCompleted"
  shows "set (completed_ids ss) \<subseteq> set (completed_ids (ss[k := f (ss ! k)]))"
proof
  fix i assume "i \<in> set (completed_ids ss)"
  then obtain j where j: "j < length ss" "st_status (ss ! j) = RunCompleted" "st_id (ss ! j) = i"
    by (auto simp: completed_in)
  then show "i \<in> set (completed_ids (ss[k := f (ss ! k)]))"
    unfolding completed_in using assms by (cases "j = k") (auto simp: nth_list_update intro!: exI [of _ j])
qed

lemma in_ready: "k \<in> set (ready_steps ss) \<longleftrightarrow> k < length ss \<and> st_status (ss ! k) = RunPending \<and> depends_met ss (ss ! k)"
  by (auto simp: ready_steps_def)

text \<open>One step of the list is replaced by one with the same id and dependencies.\<close>

lemma depends_after_update:
  assumes "\<forall>k < length ss. st_status (ss ! k) \<noteq> RunPending \<longrightarrow> depends_met ss (ss ! k)"
    and "k < length ss" "st_id (f (ss ! k)) = st_id (ss ! k)" "st_depends (f (ss ! k)) = st_depends (ss ! k)"
    and "st_status (ss ! k) \<noteq> RunCompleted" "depends_met ss (ss ! k)"
  shows "\<forall>j < length ss. st_status (ss[k := f (ss ! k)] ! j) \<noteq> RunPending
    \<longrightarrow> depends_met (ss[k := f (ss ! k)]) (ss[k := f (ss ! k)] ! j)"
proof (intro allI impI)
  fix j assume j: "j < length ss" "st_status (ss[k := f (ss ! k)] ! j) \<noteq> RunPending"
  have mono: "set (completed_ids ss) \<subseteq> set (completed_ids (ss[k := f (ss ! k)]))"
    using assms by (intro completed_update) auto
  show "depends_met (ss[k := f (ss ! k)]) (ss[k := f (ss ! k)] ! j)"
    using j assms by (intro depends_met_cong [OF _ mono, of "ss ! j"]) (auto simp: nth_list_update split: if_splits)
qed

lemma sound_start:
  assumes "mission_sound m" "pm_status m = RunRunning" "no_running_step m" "k \<in> set (ready_steps (pm_steps m))"
  shows "mission_sound (set_step k (start_step ts) (m\<lparr>pm_current := c, pm_updated_at := ts\<rparr>))"
proof -
  have k: "k < length (pm_steps m)" "st_status (pm_steps m ! k) = RunPending" "depends_met (pm_steps m) (pm_steps m ! k)"
    using assms(4) by (auto simp: in_ready)
  have "\<forall>j < length (pm_steps m). st_status ((pm_steps m)[k := start_step ts (pm_steps m ! k)] ! j) \<noteq> RunPending
      \<longrightarrow> depends_met ((pm_steps m)[k := start_step ts (pm_steps m ! k)]) ((pm_steps m)[k := start_step ts (pm_steps m ! k)] ! j)"
    using assms(1) k by (intro depends_after_update) (simp_all add: mission_sound_def Let_def start_step_def)
  then show ?thesis
    using assms k by (simp add: mission_sound_def Let_def set_step_def no_running_step_def) (auto simp: nth_list_update start_step_def)
qed

lemma sound_complete:
  assumes "mission_sound m" "k < length (pm_steps m)" "st_status (pm_steps m ! k) = RunRunning"
  shows "mission_sound (set_step k (complete_step ts) (m\<lparr>pm_updated_at := ts\<rparr>))"
    "no_running_step (set_step k (complete_step ts) (m\<lparr>pm_updated_at := ts\<rparr>))"
proof -
  have d: "depends_met (pm_steps m) (pm_steps m ! k)" "pm_status m = RunRunning"
    using assms by (auto simp: mission_sound_def Let_def)
  have "\<forall>j < length (pm_steps m). st_status ((pm_steps m)[k := complete_step ts (pm_steps m ! k)] ! j) \<noteq> RunPending
      \<longrightarrow> depends_met ((pm_steps m)[k := complete_step ts (pm_steps m ! k)]) ((pm_steps m)[k := complete_step ts (pm_steps m ! k)] ! j)"
    using assms d by (intro depends_after_update) (simp_all add: mission_sound_def Let_def complete_step_def)
  then show "mission_sound (set_step k (complete_step ts) (m\<lparr>pm_updated_at := ts\<rparr>))"
    using assms d by (simp add: mission_sound_def Let_def set_step_def) (auto simp: nth_list_update complete_step_def)
  show "no_running_step (set_step k (complete_step ts) (m\<lparr>pm_updated_at := ts\<rparr>))"
    using assms by (auto simp: mission_sound_def Let_def set_step_def no_running_step_def nth_list_update complete_step_def)
qed

lemma sound_fail:
  assumes "mission_sound m" "k < length (pm_steps m)" "st_status (pm_steps m ! k) = RunRunning"
  shows "mission_sound (set_step k (fail_step ts)
    (m\<lparr>pm_updated_at := ts, pm_status := RunFailed, pm_finished_at := Some ts, pm_current := c\<rparr>))"
proof -
  have d: "depends_met (pm_steps m) (pm_steps m ! k)" "pm_status m = RunRunning"
    using assms by (auto simp: mission_sound_def Let_def)
  have "\<forall>j < length (pm_steps m). st_status ((pm_steps m)[k := fail_step ts (pm_steps m ! k)] ! j) \<noteq> RunPending
      \<longrightarrow> depends_met ((pm_steps m)[k := fail_step ts (pm_steps m ! k)]) ((pm_steps m)[k := fail_step ts (pm_steps m ! k)] ! j)"
    using assms d by (intro depends_after_update) (simp_all add: mission_sound_def Let_def fail_step_def)
  then show ?thesis
    using assms d by (simp add: mission_sound_def Let_def set_step_def) (auto simp: nth_list_update fail_step_def)
qed

lemma sound_finish:
  assumes "mission_sound m" "pm_status m = RunRunning" "no_running_step m"
    and "filter (\<lambda>s. st_status s = RunPending) (pm_steps m) = []"
  shows "mission_sound (m\<lparr>pm_status := RunCompleted, pm_finished_at := f, pm_updated_at := u, pm_current := c\<rparr>)"
proof -
  have "st_status (pm_steps m ! k) = RunCompleted" if "k < length (pm_steps m)" for k
    using assms that
    by (cases "st_status (pm_steps m ! k)") (auto simp: mission_sound_def Let_def no_running_step_def filter_empty_conv)
  then show ?thesis using assms(1) by (auto simp: mission_sound_def Let_def)
qed

lemma sound_status:
  assumes "mission_sound m" "no_running_step m" "pm_status m \<in> {RunPending, RunRunning, RunBlocked}"
    and "st \<in> {RunRunning, RunBlocked}"
  shows "mission_sound (m\<lparr>pm_status := st, pm_updated_at := u\<rparr>)"
    "mission_sound (m\<lparr>pm_status := st, pm_started_at := f, pm_updated_at := u, pm_current := c\<rparr>)"
  using assms by (auto simp: mission_sound_def Let_def no_running_step_def)

lemma sound_new: "mission_sound (proposal_to_mission u p ts)"
  by (auto simp: mission_sound_def Let_def proposal_to_mission_def step_of_template_def nth_enumerate_eq)

section \<open>Runs\<close>

text \<open>
  Every entry of \<open>runningMissions\<close> belongs to exactly one run: one that waits in its delay for a step
  that is running, or one that has returned and whose \<open>finally\<close> is due.
\<close>

definition run_names :: "lifecycle_engine \<Rightarrow> string list" where
  "run_names e = map fst (le_waiting e) @ le_ended e"

definition waiting_ok :: "lifecycle_engine \<Rightarrow> bool" where
  "waiting_ok e \<longleftrightarrow> (\<forall>(i, k) \<in> set (le_waiting e). \<exists>m. find_mission e i = Some m \<and> pm_status m = RunRunning
     \<and> k < length (pm_steps m) \<and> st_status (pm_steps m ! k) = RunRunning)"

definition runs_ok :: "lifecycle_engine \<Rightarrow> bool" where
  "runs_ok e \<longleftrightarrow> distinct (run_names e) \<and> set (run_names e) = set (le_running e) \<and> waiting_ok e"

text \<open>While the run of mission \<open>i\<close> is being worked on it is neither waiting nor ended.\<close>

definition runs_but :: "string \<Rightarrow> lifecycle_engine \<Rightarrow> bool" where
  "runs_but i e \<longleftrightarrow> distinct (run_names e) \<and> i \<notin> set (run_names e)
     \<and> insert i (set (run_names e)) = set (le_running e) \<and> waiting_ok e"

definition missions_sound :: "lifecycle_engine \<Rightarrow> bool" where
  "missions_sound e \<longleftrightarrow> list_all mission_sound (le_missions e)"

lemma find_mission_update:
  assumes "\<And>m. pm_id (f m) = pm_id m"
  shows "find_mission (update_mission i f e) j = (if j = i then map_option f (find_mission e i) else find_mission e j)"
  using find_update_id [of pm_id f, OF assms] by (simp add: find_mission_def lifecycle)

lemma find_mission_cong: "le_missions e = le_missions e' \<Longrightarrow> find_mission e i = find_mission e' i"
  by (simp add: find_mission_def)

lemma find_mission_id: "find_mission e i = Some m \<Longrightarrow> pm_id m = i"
  by (auto simp: find_mission_def dest: find_SomeD)

lemma missions_sound_cong: "le_missions e = le_missions e' \<Longrightarrow> missions_sound e = missions_sound e'"
  by (simp add: missions_sound_def)

lemma runs_but_cong:
  "le_missions e = le_missions e' \<Longrightarrow> le_running e = le_running e' \<Longrightarrow> le_waiting e = le_waiting e'
   \<Longrightarrow> le_ended e = le_ended e' \<Longrightarrow> runs_but i e = runs_but i e'"
  by (simp add: runs_but_def run_names_def waiting_ok_def find_mission_def)

lemma runs_ok_cong:
  "le_missions e = le_missions e' \<Longrightarrow> le_running e = le_running e' \<Longrightarrow> le_waiting e = le_waiting e'
   \<Longrightarrow> le_ended e = le_ended e' \<Longrightarrow> runs_ok e = runs_ok e'"
  by (simp add: runs_ok_def run_names_def waiting_ok_def find_mission_def)

lemma missions_sound_find: "missions_sound e \<Longrightarrow> find_mission e i = Some m \<Longrightarrow> mission_sound m"
  unfolding missions_sound_def find_mission_def by (rule list_all_find)

lemma missions_sound_update:
  assumes "missions_sound e" "\<And>m. find_mission e i = Some m \<Longrightarrow> mission_sound (f m)"
  shows "missions_sound (update_mission i f e)"
  using assms unfolding missions_sound_def find_mission_def lifecycle by (rule list_all_update_found)

lemma runs_but_update:
  assumes "runs_but i e" "\<And>m. pm_id (f m) = pm_id m"
  shows "runs_but i (update_mission i f e)"
proof -
  have "waiting_ok (update_mission i f e)"
    unfolding waiting_ok_def
  proof (intro ballI, clarify)
    fix j k assume "(j, k) \<in> set (le_waiting (update_mission i f e))"
    then have w: "(j, k) \<in> set (le_waiting e)" by (simp add: lifecycle)
    then have "j \<in> set (run_names e)" by (auto simp: run_names_def intro: rev_image_eqI)
    then have "j \<noteq> i" using assms(1) by (auto simp: runs_but_def)
    moreover obtain m where "find_mission e j = Some m \<and> pm_status m = RunRunning
        \<and> k < length (pm_steps m) \<and> st_status (pm_steps m ! k) = RunRunning"
      using w assms(1) unfolding runs_but_def waiting_ok_def by blast
    ultimately show "\<exists>m. find_mission (update_mission i f e) j = Some m \<and> pm_status m = RunRunning
        \<and> k < length (pm_steps m) \<and> st_status (pm_steps m ! k) = RunRunning"
      unfolding find_mission_update [of f, OF assms(2)] by auto
  qed
  then show ?thesis using assms(1) by (simp add: runs_but_def run_names_def lifecycle)
qed

lemma runs_but_return: "runs_but i e \<Longrightarrow> runs_ok (return_run i e)"
  by (auto simp: runs_but_def runs_ok_def run_names_def waiting_ok_def find_mission_def lifecycle)

lemma runs_but_wait:
  assumes "runs_but i e" "find_mission e i = Some m" "pm_status m = RunRunning" "k < length (pm_steps m)"
    "st_status (pm_steps m ! k) = RunRunning"
  shows "runs_ok (e\<lparr>le_waiting := le_waiting e @ [(i, k)]\<rparr>)"
proof -
  have f: "find_mission (e\<lparr>le_waiting := w\<rparr>) j = find_mission e j" for w j by (simp add: find_mission_def)
  have "waiting_ok (e\<lparr>le_waiting := le_waiting e @ [(i, k)]\<rparr>)"
    using assms by (simp add: runs_but_def waiting_ok_def f)
  then show ?thesis
    using assms(1) by (simp add: runs_but_def runs_ok_def run_names_def) (simp add: insert_commute Un_commute)?
qed

lemma set_step_sel [lifecycle]:
  "pm_id (set_step k f m) = pm_id m" "pm_status (set_step k f m) = pm_status m" "pm_proposal (set_step k f m) = pm_proposal m"
  "pm_steps (set_step k f m) = (pm_steps m)[k := f (pm_steps m ! k)]"
  by (simp_all add: set_step_def)

lemma run_segment_cases:
  assumes "find_mission e i = Some m" "pm_status m = RunRunning"
  obtains (finished) ts e1 ev where "filter (\<lambda>s. st_status s = RunPending) (pm_steps m) = []"
      "e1 = update_mission i (\<lambda>m. m\<lparr>pm_status := RunCompleted, pm_finished_at := Some ts, pm_updated_at := ts,
          pm_current := None\<rparr>) (snd (read_clock env e))"
      "run_segment env i e = return_run i (persist (push_event env ev e1))"
  | (stuck) ts e1 ev where "filter (\<lambda>s. st_status s = RunPending) (pm_steps m) \<noteq> []" "ready_steps (pm_steps m) = []"
      "e1 = update_mission i (\<lambda>m. m\<lparr>pm_status := RunBlocked, pm_updated_at := ts\<rparr>) (snd (read_clock env e))"
      "run_segment env i e = return_run i (persist (push_event env ev e1))"
  | (started) ts e1 e2 k c ev ev' where "k \<in> set (ready_steps (pm_steps m))" "k = hd (ready_steps (pm_steps m))"
      "e1 = update_mission i (\<lambda>m. set_step k (start_step ts) (m\<lparr>pm_current := c, pm_updated_at := ts\<rparr>))
          (snd (read_clock env e))"
      "e2 = persist (push_event env ev' (push_event env ev e1))"
      "run_segment env i e = e2\<lparr>le_waiting := le_waiting e2 @ [(i, k)]\<rparr>"
proof (cases "filter (\<lambda>s. st_status s = RunPending) (pm_steps m) = []")
  case True
  show ?thesis
    by (rule finished [OF True refl]) (simp add: run_segment_def assms True Let_def split_beta)
next
  case False
  show ?thesis
  proof (cases "ready_steps (pm_steps m)")
    case Nil
    show ?thesis
      by (rule stuck [OF False Nil refl]) (simp add: run_segment_def assms False Nil Let_def split_beta)
  next
    case (Cons k ks)
    show ?thesis
      by (rule started [of k, OF _ _ refl refl])
        (simp_all add: run_segment_def assms False Cons Let_def split_beta)
  qed
qed

lemma run_segment_ok:
  assumes "missions_sound e" "runs_but i e"
    and "\<And>m. find_mission e i = Some m \<Longrightarrow> pm_status m = RunRunning \<Longrightarrow> no_running_step m"
  shows "missions_sound (run_segment env i e) \<and> runs_ok (run_segment env i e)"
proof (cases "\<exists>m. find_mission e i = Some m \<and> pm_status m = RunRunning")
  case False
  then have "run_segment env i e = return_run i e"
    by (auto simp: run_segment_def split: option.split)
  then show ?thesis using assms(1,2) by (simp add: runs_but_return missions_sound_def lifecycle)
next
  case True
  then obtain m where m: "find_mission e i = Some m" "pm_status m = RunRunning" by blast
  have sound: "mission_sound m" using assms(1) m(1) by (rule missions_sound_find)
  let ?e0 = "snd (read_clock env e)"
  have e0: "missions_sound ?e0" "runs_but i ?e0" "find_mission ?e0 i = Some m"
    using assms(1,2) m(1) runs_but_cong [of ?e0 e] by (simp_all add: missions_sound_def find_mission_def lifecycle)
  have up: "missions_sound (update_mission i f ?e0) \<and> runs_but i (update_mission i f ?e0)
      \<and> find_mission (update_mission i f ?e0) i = Some (f m)"
    if "mission_sound (f m)" "\<And>m. pm_id (f m) = pm_id m" for f
    using that e0 missions_sound_update [OF e0(1), of i f] runs_but_update [OF e0(2), of f]
    by (simp add: find_mission_update)
  from m show ?thesis
  proof (cases rule: run_segment_cases [of e i m env])
    case (finished ts e1 ev)
    have "missions_sound e1 \<and> runs_but i e1"
      unfolding finished(2) using up [OF sound_finish] sound m assms(3) finished(1) by simp
    then show ?thesis
      unfolding finished(3) using runs_but_cong [of "persist (push_event env ev e1)" e1]
      by (simp add: runs_but_return missions_sound_def lifecycle)
  next
    case (stuck ts e1 ev)
    have "missions_sound e1 \<and> runs_but i e1"
      unfolding stuck(3) using up [OF sound_status(1)] sound m assms(3) by simp
    then show ?thesis
      unfolding stuck(4) using runs_but_cong [of "persist (push_event env ev e1)" e1]
      by (simp add: runs_but_return missions_sound_def lifecycle)
  next
    case (started ts e1 e2 k c ev ev')
    let ?f = "\<lambda>m. set_step k (start_step ts) (m\<lparr>pm_current := c, pm_updated_at := ts\<rparr>)"
    have k: "k < length (pm_steps m)" using started(1) by (simp add: in_ready)
    have u: "missions_sound e1 \<and> runs_but i e1 \<and> find_mission e1 i = Some (?f m)"
      unfolding started(3) using sound_start [OF sound m(2) assms(3) [OF m] started(1)]
      by (intro up) (simp_all add: lifecycle)
    have e2: "le_missions e2 = le_missions e1" by (simp add: started(4) lifecycle)
    have "runs_but i e2" using u runs_but_cong [of e2 e1] by (simp add: started(4) lifecycle)
    then have "runs_ok (run_segment env i e)"
      unfolding started(5) using u k m find_mission_cong [OF e2, of i]
      by (intro runs_but_wait [of i e2 "?f m"]) (simp_all add: lifecycle start_step_def)
    then show ?thesis unfolding started(5) using u e2 by (simp add: missions_sound_def)
  qed
qed

lemma finish_step_ok:
  assumes "missions_sound e" "runs_but i e" "find_mission e i = Some m" "pm_status m = RunRunning"
    "k < length (pm_steps m)" "st_status (pm_steps m ! k) = RunRunning"
  shows "missions_sound (finish_step env i k e) \<and> runs_ok (finish_step env i k e)"
proof -
  have sound: "mission_sound m" using assms(1,3) by (rule missions_sound_find)
  let ?e0 = "snd (read_clock env e)" and ?ts = "fst (read_clock env e)" and ?s = "pm_steps m ! k"
  have e0: "missions_sound ?e0" "runs_but i ?e0" "find_mission ?e0 i = Some m"
    using assms(1-3) runs_but_cong [of ?e0 e] by (simp_all add: missions_sound_def find_mission_def lifecycle)
  have up: "missions_sound (update_mission i f ?e0) \<and> runs_but i (update_mission i f ?e0)
      \<and> find_mission (update_mission i f ?e0) i = Some (f m)"
    if "mission_sound (f m)" "\<And>m. pm_id (f m) = pm_id m" for f
    using that e0 missions_sound_update [OF e0(1), of i f] runs_but_update [OF e0(2), of f]
    by (simp add: find_mission_update)
  show ?thesis
  proof (cases "st_fail ?s")
    case True
    let ?f = "\<lambda>m. set_step k (fail_step ?ts) (m\<lparr>pm_updated_at := ?ts, pm_status := RunFailed,
        pm_finished_at := Some ?ts, pm_current := Some (st_id ?s)\<rparr>)"
    let ?e1 = "update_mission i ?f ?e0"
    obtain ev ev' where r: "finish_step env i k e
        = return_run i (persist (push_event env ev' (push_event env ev ?e1)))"
      using True by (simp add: finish_step_def assms(3) Let_def split_beta)
    have "missions_sound ?e1 \<and> runs_but i ?e1"
      using up [of ?f] sound_fail [OF sound assms(5,6), of ?ts "Some (st_id ?s)"] by (simp add: lifecycle)
    then show ?thesis
      unfolding r using runs_but_cong [of "persist (push_event env ev' (push_event env ev ?e1))" ?e1]
      by (simp add: runs_but_return missions_sound_def lifecycle)
  next
    case False
    let ?f = "\<lambda>m. set_step k (complete_step ?ts) (m\<lparr>pm_updated_at := ?ts\<rparr>)"
    let ?e1 = "update_mission i ?f ?e0"
    define evs where "evs = handoffs ?ts (?f m) ?s"
    obtain ev where r: "finish_step env i k e
        = run_segment env i (persist (foldl (\<lambda>e ev. push_event env ev e) (push_event env ev ?e1) evs))"
      using False by (simp add: finish_step_def assms(3) Let_def split_beta evs_def)
    let ?e2 = "persist (foldl (\<lambda>e ev. push_event env ev e) (push_event env ev ?e1) evs)"
    have u: "missions_sound ?e1 \<and> runs_but i ?e1 \<and> find_mission ?e1 i = Some (?f m)"
      using up [of ?f] sound_complete(1) [OF sound assms(5,6), of ?ts] by (simp add: lifecycle)
    have m2: "le_missions ?e2 = le_missions ?e1" by (simp add: lifecycle)
    have "missions_sound ?e2" "runs_but i ?e2" "find_mission ?e2 i = Some (?f m)"
      using u runs_but_cong [of ?e2 ?e1] missions_sound_cong [OF m2] find_mission_cong [OF m2, of i]
      by (simp_all add: lifecycle)
    then show ?thesis
      unfolding r using sound_complete(2) [OF sound assms(5,6)] by (intro run_segment_ok) auto
  qed
qed

lemma resume_ok:
  assumes "missions_sound e" "runs_ok e"
  shows "missions_sound (resume_run env i k e) \<and> runs_ok (resume_run env i k e)"
proof (cases "(i, k) \<in> set (le_waiting e)")
  case True
  let ?e = "e\<lparr>le_waiting := remove1 (i, k) (le_waiting e)\<rparr>"
  have f: "find_mission ?e j = find_mission e j" for j by (simp add: find_mission_def)
  obtain m where m: "find_mission e i = Some m" "pm_status m = RunRunning"
    "k < length (pm_steps m)" "st_status (pm_steps m ! k) = RunRunning"
    using True assms(2) unfolding runs_ok_def waiting_ok_def by blast
  obtain xs ys where w: "le_waiting e = xs @ (i, k) # ys" "(i, k) \<notin> set xs"
    using split_list_first [OF True] by blast
  have "run_names ?e = map fst (xs @ ys) @ le_ended e"
    using w by (simp add: run_names_def remove1_append)
  then have "runs_but i ?e"
    using assms(2) w unfolding runs_but_def runs_ok_def waiting_ok_def f
    by (auto simp: run_names_def remove1_append)
  moreover have "missions_sound ?e" using assms(1) by (simp add: missions_sound_def)
  ultimately show ?thesis
    using True finish_step_ok [of ?e i m k env] m by (simp add: resume_run_def f)
qed (use assms in \<open>simp add: resume_run_def\<close>)

lemma end_of_run_ok:
  assumes "missions_sound e" "runs_ok e"
  shows "missions_sound (end_of_run i e) \<and> runs_ok (end_of_run i e)"
proof (cases "i \<in> set (le_ended e)")
  case True
  let ?e = "e\<lparr>le_ended := remove1 i (le_ended e), le_running := removeAll i (le_running e)\<rparr>"
  obtain xs ys where w: "le_ended e = xs @ i # ys" "i \<notin> set xs"
    using split_list_first [OF True] by blast
  have "run_names ?e = map fst (le_waiting e) @ xs @ ys"
    using w by (simp add: run_names_def remove1_append)
  then have "runs_ok ?e"
    using assms(2) w unfolding runs_ok_def waiting_ok_def
    by (auto simp: run_names_def find_mission_def)
  then show ?thesis using assms(1) True by (simp add: end_of_run_def missions_sound_def)
qed (use assms in \<open>simp add: end_of_run_def\<close>)

lemma start_mission_cases:
  obtains (refused) x where "start_mission env i e = (e, x)"
  | (started) m p ts ev f e1 where "find_mission e i = Some m" "pm_status m \<in> {RunPending, RunBlocked}"
      "find_proposal e (pm_proposal m) = Some p" "wp_status p = ProposalApproved"
      "f = (\<lambda>m. m\<lparr>pm_status := RunRunning, pm_started_at := Some (nullish (pm_started_at m) ts), pm_updated_at := ts,
              pm_current := nullish_opt (pm_current m) (first_pending m)\<rparr>)"
      "e1 = persist (push_event env ev (update_mission i f (snd (read_clock env e))))"
      "fst (start_mission env i e) = schedule_mission env i e1"
      "snd (start_mission env i e) = Inr (the (find_mission (fst (start_mission env i e)) i))"
proof (cases "find_mission e i")
  case None
  then show ?thesis by (intro refused) (simp add: start_mission_def)
next
  case (Some m)
  show ?thesis
  proof (cases "pm_status m \<in> {RunPending, RunBlocked} \<and> map_option wp_status (find_proposal e (pm_proposal m)) = Some ProposalApproved")
    case True
    then obtain p where p: "find_proposal e (pm_proposal m) = Some p" "wp_status p = ProposalApproved" by auto
    show ?thesis
      using True p
      by (intro started [of m p _ _ _ "mission_event MissionStarted (fst (read_clock env e)) m [(''title'', TextValue (pm_title m))]",
          OF Some _ p refl refl])
        (auto simp: start_mission_def Some Let_def split_beta)
  next
    case False
    then show ?thesis
      by (cases "pm_status m") (auto simp: start_mission_def Some intro: refused)
  qed
qed

lemma start_mission_ok:
  assumes "missions_sound e" "runs_ok e"
  shows "missions_sound (fst (start_mission env i e)) \<and> runs_ok (fst (start_mission env i e))"
proof (cases rule: start_mission_cases [of env i e])
  case (refused x)
  then show ?thesis using assms by simp
next
  case (started m p ts ev f e1)
  have sound: "mission_sound m" using assms(1) started(1) by (rule missions_sound_find)
  have idle: "no_running_step m"
    using sound started(2) by (auto simp: mission_sound_def Let_def no_running_step_def)
  have fresh: "i \<notin> set (map fst (le_waiting e))"
    using assms(2) started(1,2) unfolding runs_ok_def waiting_ok_def by fastforce
  let ?e0 = "snd (read_clock env e)"
  have e0: "missions_sound ?e0" "find_mission ?e0 i = Some m"
    using assms(1) started(1) by (simp_all add: missions_sound_def find_mission_def lifecycle)
  have pid: "pm_id (f x) = pm_id x" for x by (simp add: started(5))
  have fm: "mission_sound (f m)" "no_running_step (f m)"
    using sound_status(2) [OF sound idle, of RunRunning] started(2) idle by (auto simp: started(5) no_running_step_def)
  have s1: "missions_sound e1"
    using missions_sound_update [OF e0(1), of i f] e0(2) fm(1)
    by (simp add: started(6) missions_sound_def lifecycle)
  have m1: "le_missions e1 = update_first (\<lambda>m. pm_id m = i) f (le_missions e)" by (simp add: started(6) lifecycle)
  have f1: "find_mission e1 j = (if j = i then Some (f m) else find_mission e j)" for j
    using find_mission_update [of f i e j, OF pid] started(1) find_mission_cong [of e1 "update_mission i f e"] m1
    by (simp add: lifecycle)
  have same: "le_waiting e1 = le_waiting e" "le_running e1 = le_running e" "le_ended e1 = le_ended e"
    by (simp_all add: started(6) lifecycle)
  have w1: "waiting_ok e1"
    using assms(2) fresh unfolding waiting_ok_def runs_ok_def same f1 by force
  show ?thesis
  proof (cases "i \<in> set (le_running e1)")
    case True
    then show ?thesis
      using s1 w1 assms(2) by (simp add: started(7) schedule_mission_def runs_ok_def run_names_def same)
  next
    case False
    let ?e2 = "e1\<lparr>le_running := le_running e1 @ [i]\<rparr>"
    have "runs_but i ?e2"
      using False w1 assms(2) unfolding runs_but_def runs_ok_def waiting_ok_def run_names_def
      by (auto simp: same find_mission_def)
    moreover have "missions_sound ?e2" "find_mission ?e2 i = Some (f m)"
      using s1 f1 [of i] by (simp_all add: missions_sound_def find_mission_def)
    ultimately show ?thesis
      using False fm(2) run_segment_ok [of ?e2 i env] by (simp add: started(7) schedule_mission_def)
  qed
qed

section \<open>Plans, approvals and the disk\<close>

text \<open>A step as it was when the mission was made.\<close>

definition reset_step :: "lifecycle_step \<Rightarrow> lifecycle_step" where
  "reset_step s = s\<lparr>st_status := RunPending, st_started_at := None, st_finished_at := None, st_summary := None,
                    st_error := None\<rparr>"

definition plan_of :: "work_proposal \<Rightarrow> lifecycle_step list" where
  "plan_of p = map (\<lambda>(k, t). step_of_template k t) (enumerate 0 (wp_steps p))"

text \<open>The mission belongs to a proposal that a reviewer approved, and its steps are the approved ones.\<close>

definition approved_in :: "work_proposal list \<Rightarrow> proposal_mission \<Rightarrow> bool" where
  "approved_in ps m \<longleftrightarrow>
     (case List.find (\<lambda>p. wp_id p = pm_proposal m) ps of
        None \<Rightarrow> False
      | Some p \<Rightarrow> wp_status p = ProposalApproved \<and> map_option rv_action (wp_review p) = Some ApproveAction
                  \<and> map reset_step (pm_steps m) = plan_of p)"

definition store_ok :: "lifecycle_store \<Rightarrow> bool" where
  "store_ok s \<longleftrightarrow> list_all mission_sound (fst (snd s)) \<and> list_all (approved_in (fst s)) (fst (snd s))"

definition engine_ok :: "lifecycle_engine \<Rightarrow> bool" where
  "engine_ok e \<longleftrightarrow> store_ok (store_of e) \<and> store_ok (le_disk e) \<and> runs_ok e"

lemma engine_okD:
  assumes "engine_ok e"
  shows "list_all mission_sound (le_missions e)" "list_all (approved_in (le_proposals e)) (le_missions e)"
    "store_ok (le_disk e)" "runs_ok e" "waiting_ok e"
  using assms by (simp_all add: engine_ok_def store_ok_def store_of_def runs_ok_def)

definition plan :: "proposal_mission \<Rightarrow> string \<times> lifecycle_step list" where
  "plan m = (pm_proposal m, map reset_step (pm_steps m))"

text \<open>What an operation on missions keeps, and that it persists what it changes.\<close>

definition keeps_plans :: "lifecycle_engine \<Rightarrow> lifecycle_engine \<Rightarrow> bool" where
  "keeps_plans e r \<longleftrightarrow> le_proposals r = le_proposals e \<and> map plan (le_missions r) = map plan (le_missions e)"

definition settled :: "lifecycle_engine \<Rightarrow> lifecycle_engine \<Rightarrow> bool" where
  "settled e r \<longleftrightarrow> le_disk r = store_of r \<or> le_disk r = le_disk e \<and> store_of r = store_of e"

lemma settled_trans: "settled a b \<Longrightarrow> settled b c \<Longrightarrow> settled a c"
  by (auto simp: settled_def)

lemma keeps_plans_trans: "keeps_plans a b \<Longrightarrow> keeps_plans b c \<Longrightarrow> keeps_plans a c"
  by (simp add: keeps_plans_def)

lemma settled_persist: "le_disk r = store_of (persist e1) \<Longrightarrow> store_of r = store_of e1 \<Longrightarrow> settled e r"
  by (simp add: settled_def persist_def store_of_def)

lemma approved_plan: "approved_in ps m \<longleftrightarrow>
     (case List.find (\<lambda>p. wp_id p = fst (plan m)) ps of
        None \<Rightarrow> False
      | Some p \<Rightarrow> wp_status p = ProposalApproved \<and> map_option rv_action (wp_review p) = Some ApproveAction
                  \<and> snd (plan m) = plan_of p)"
  unfolding approved_in_def plan_def fst_conv snd_conv by (rule refl)

lemma approved_keeps:
  assumes "keeps_plans e r" "list_all (approved_in (le_proposals e)) (le_missions e)"
  shows "list_all (approved_in (le_proposals r)) (le_missions r)"
proof -
  let ?A = "\<lambda>pl. case List.find (\<lambda>p. wp_id p = fst pl) (le_proposals e) of
        None \<Rightarrow> False
      | Some p \<Rightarrow> wp_status p = ProposalApproved \<and> map_option rv_action (wp_review p) = Some ApproveAction
                  \<and> snd pl = plan_of p"
  have "approved_in (le_proposals e) m = ?A (plan m)" for m by (rule approved_plan)
  then have "list_all (approved_in (le_proposals e)) ms = list_all ?A (map plan ms)" for ms
    by (simp add: list_all_iff)
  then show ?thesis using assms by (simp add: keeps_plans_def)
qed

lemma reset_kept:
  "reset_step (start_step ts s) = reset_step s" "reset_step (fail_step ts s) = reset_step s"
  "reset_step (complete_step ts s) = reset_step s"
  by (simp_all add: reset_step_def start_step_def fail_step_def complete_step_def)

lemma plan_set_step:
  assumes "\<And>s. reset_step (f s) = reset_step s"
  shows "plan (set_step k f m) = plan m"
proof (cases "k < length (pm_steps m)")
  case True
  have "map reset_step ((pm_steps m)[k := f (pm_steps m ! k)]) = (map reset_step (pm_steps m))[k := map reset_step (pm_steps m) ! k]"
    using True by (simp add: map_update assms)
  then show ?thesis by (simp add: plan_def lifecycle)
qed (simp add: plan_def lifecycle list_update_beyond)

lemma keeps_update:
  assumes "\<And>m. plan (f m) = plan m" "le_missions e' = le_missions e" "le_proposals e' = le_proposals e"
  shows "keeps_plans e (update_mission i f e')"
  using assms by (simp add: keeps_plans_def lifecycle map_update_first)

lemma plan_fields:
  "plan (m\<lparr>pm_status := a\<rparr>) = plan m" "plan (m\<lparr>pm_updated_at := b\<rparr>) = plan m"
  "plan (m\<lparr>pm_started_at := c\<rparr>) = plan m" "plan (m\<lparr>pm_finished_at := c\<rparr>) = plan m"
  "plan (m\<lparr>pm_current := d\<rparr>) = plan m"
  by (simp_all add: plan_def)

lemma store_of_kept:
  "store_of (return_run i e) = store_of e" "store_of (persist e) = store_of e" "le_disk (return_run i e) = le_disk e"
  by (simp_all add: store_of_def return_run_def persist_def)

lemma run_segment_kept: "keeps_plans e (run_segment env i e) \<and> settled e (run_segment env i e)"
proof (cases "\<exists>m. find_mission e i = Some m \<and> pm_status m = RunRunning")
  case False
  then have "run_segment env i e = return_run i e" by (auto simp: run_segment_def split: option.split)
  then show ?thesis by (simp add: keeps_plans_def settled_def store_of_kept lifecycle)
next
  case True
  then obtain m where m: "find_mission e i = Some m" "pm_status m = RunRunning" by blast
  let ?e0 = "snd (read_clock env e)"
  from m show ?thesis
  proof (cases rule: run_segment_cases [of e i m env])
    case (finished ts e1 ev)
    have "keeps_plans e e1" unfolding finished(2) by (rule keeps_update) (simp_all add: plan_fields lifecycle)
    then show ?thesis
      unfolding finished(3) by (simp add: keeps_plans_def settled_def store_of_kept lifecycle)
  next
    case (stuck ts e1 ev)
    have "keeps_plans e e1" unfolding stuck(3) by (rule keeps_update) (simp_all add: plan_fields lifecycle)
    then show ?thesis
      unfolding stuck(4) by (simp add: keeps_plans_def settled_def store_of_kept lifecycle)
  next
    case (started ts e1 e2 k c ev ev')
    have "keeps_plans e e1"
      unfolding started(3) by (rule keeps_update) (simp_all add: plan_set_step reset_kept plan_fields lifecycle)
    then show ?thesis
      unfolding started(5,4) by (simp add: keeps_plans_def settled_def store_of_def lifecycle)
  qed
qed

lemma finish_step_kept: "keeps_plans e (finish_step env i k e) \<and> settled e (finish_step env i k e)"
proof (cases "find_mission e i")
  case None
  then show ?thesis by (simp add: finish_step_def keeps_plans_def settled_def store_of_kept lifecycle)
next
  case (Some m)
  let ?e0 = "snd (read_clock env e)" and ?ts = "fst (read_clock env e)" and ?s = "pm_steps m ! k"
  show ?thesis
  proof (cases "st_fail ?s")
    case True
    let ?f = "\<lambda>m. set_step k (fail_step ?ts) (m\<lparr>pm_updated_at := ?ts, pm_status := RunFailed,
        pm_finished_at := Some ?ts, pm_current := Some (st_id ?s)\<rparr>)"
    have "keeps_plans e (update_mission i ?f ?e0)"
      by (rule keeps_update) (simp_all add: plan_set_step reset_kept plan_fields lifecycle)
    then show ?thesis
      using True by (simp add: finish_step_def Some Let_def split_beta keeps_plans_def settled_def store_of_kept lifecycle)
  next
    case False
    let ?f = "\<lambda>m. set_step k (complete_step ?ts) (m\<lparr>pm_updated_at := ?ts\<rparr>)"
    obtain evs ev where r: "finish_step env i k e = run_segment env i
        (persist (foldl (\<lambda>e ev. push_event env ev e) (push_event env ev (update_mission i ?f ?e0)) evs))"
      using False by (simp add: finish_step_def Some Let_def split_beta)
    let ?e2 = "persist (foldl (\<lambda>e ev. push_event env ev e) (push_event env ev (update_mission i ?f ?e0)) evs)"
    have "keeps_plans e (update_mission i ?f ?e0)"
      by (rule keeps_update) (simp_all add: plan_set_step reset_kept plan_fields lifecycle)
    then have "keeps_plans e ?e2" "settled e ?e2"
      by (simp_all add: keeps_plans_def settled_def store_of_kept lifecycle)
    then show ?thesis
      unfolding r using run_segment_kept [of ?e2 env i] by (blast intro: keeps_plans_trans settled_trans)
  qed
qed

lemma start_mission_kept: "keeps_plans e (fst (start_mission env i e)) \<and> settled e (fst (start_mission env i e))"
proof (cases rule: start_mission_cases [of env i e])
  case (refused x)
  then show ?thesis by (simp add: keeps_plans_def settled_def)
next
  case (started m p ts ev f e1)
  have "keeps_plans e (update_mission i f (snd (read_clock env e)))"
    unfolding started(5) by (rule keeps_update) (simp_all add: plan_fields lifecycle)
  then have e1: "keeps_plans e e1" "settled e e1"
    by (simp_all add: started(6) keeps_plans_def settled_def store_of_kept lifecycle)
  let ?e2 = "e1\<lparr>le_running := le_running e1 @ [i]\<rparr>"
  have e2: "keeps_plans e ?e2" "settled e ?e2"
    using e1 by (auto simp: keeps_plans_def settled_def store_of_def)
  show ?thesis
    unfolding started(7) schedule_mission_def
    using e1 e2 run_segment_kept [of ?e2 env i] by (auto intro: keeps_plans_trans settled_trans)
qed

section \<open>Requests\<close>

text \<open>Only the first proposal with an id changes, and only in memory.\<close>

definition touches :: "string \<Rightarrow> lifecycle_engine \<Rightarrow> lifecycle_engine \<Rightarrow> bool" where
  "touches i e r \<longleftrightarrow> (\<exists>f. (\<forall>x. wp_id (f x) = wp_id x)
       \<and> le_proposals r = update_first (\<lambda>p. wp_id p = i) f (le_proposals e))
     \<and> le_missions r = le_missions e \<and> le_running r = le_running e \<and> le_waiting r = le_waiting e
     \<and> le_ended r = le_ended e \<and> le_disk r = le_disk e"

lemma update_first_id: "update_first P (\<lambda>x. x) xs = xs"
  by (induction xs) auto

lemma update_first_comp:
  "(\<And>x. P (g x) = P x) \<Longrightarrow> update_first P f (update_first P g xs) = update_first P (\<lambda>x. f (g x)) xs"
  by (induction xs) auto

lemma touches_same:
  assumes "le_proposals r = le_proposals e" "le_missions r = le_missions e" "le_running r = le_running e"
    "le_waiting r = le_waiting e" "le_ended r = le_ended e" "le_disk r = le_disk e"
  shows "touches i e r"
  unfolding touches_def using assms update_first_id [of "\<lambda>p. wp_id p = i" "le_proposals e"]
  by (auto intro: exI [of _ "\<lambda>x. x"])

lemma touches_trans: "touches i a b \<Longrightarrow> touches i b c \<Longrightarrow> touches i a c"
proof -
  assume a: "touches i a b" and b: "touches i b c"
  obtain f where f: "\<forall>x. wp_id (f x) = wp_id x" "le_proposals b = update_first (\<lambda>p. wp_id p = i) f (le_proposals a)"
    using a by (auto simp: touches_def)
  obtain g where g: "\<forall>x. wp_id (g x) = wp_id x" "le_proposals c = update_first (\<lambda>p. wp_id p = i) g (le_proposals b)"
    using b by (auto simp: touches_def)
  have "le_proposals c = update_first (\<lambda>p. wp_id p = i) (\<lambda>x. g (f x)) (le_proposals a)"
    using f g by (simp add: update_first_comp)
  then show ?thesis using a b f(1) g(1) unfolding touches_def by (intro conjI exI [of _ "\<lambda>x. g (f x)"]) auto
qed

lemma touches_update: "(\<And>x. wp_id (f x) = wp_id x) \<Longrightarrow> touches i e (update_proposal i f e)"
  by (auto simp: touches_def lifecycle update_proposal_def)

lemma touches_find:
  assumes "touches i e r" "j \<noteq> i"
  shows "find_proposal r j = find_proposal e j"
  using assms find_update_id [of wp_id _ j i "le_proposals e"] by (auto simp: touches_def find_proposal_def)

lemma touches_ok:
  assumes "touches i e r" "engine_ok e" "find_proposal e i = Some p" "wp_status p \<noteq> ProposalApproved"
  shows "engine_ok r"
proof -
  have "approved_in (le_proposals r) m" if m: "approved_in (le_proposals e) m" for m
  proof -
    have "pm_proposal m \<noteq> i" using m assms(3,4) by (auto simp: approved_in_def find_proposal_def)
    from touches_find [OF assms(1) this] show ?thesis using m by (simp add: approved_in_def find_proposal_def)
  qed
  then have "store_ok (store_of r)"
    using assms(1,2) by (auto simp: engine_ok_def store_ok_def store_of_def touches_def list_all_iff)
  moreover have "runs_ok r" using assms(1,2) runs_ok_cong [of r e] by (simp add: touches_def engine_ok_def)
  ultimately show ?thesis using assms(1,2) by (simp add: engine_ok_def touches_def)
qed

lemma patch_fields_id: "wp_id (patch_fields pa p) = wp_id p"
  by (simp add: patch_fields_def Let_def split: option.split)

lemma apply_patch_touches: "touches i e (fst (apply_patch env i pa e))"
proof -
  let ?e1 = "update_proposal i (patch_fields pa) e"
  have t1: "touches i e ?e1" by (rule touches_update) (rule patch_fields_id)
  have t2: "touches i e (?e1\<lparr>le_uuids := n\<rparr>)" for n
    using touches_trans [OF t1] touches_same [of "?e1\<lparr>le_uuids := n\<rparr>" ?e1] by simp
  have t3: "touches i e (update_proposal i (\<lambda>p. p\<lparr>wp_steps := ss\<rparr>) (?e1\<lparr>le_uuids := n\<rparr>))" for ss n
    by (rule touches_trans [OF t2 touches_update]) simp
  obtain r n where r: "normalize_steps env (pa_steps pa) (le_uuids ?e1) = (r, n)" by fastforce
  show ?thesis
    using t1 t2 t3 by (cases r) (simp_all add: apply_patch_def Let_def r)
qed

lemma engine_ok_settled:
  assumes "engine_ok e" "missions_sound r \<and> runs_ok r" "keeps_plans e r \<and> settled e r"
  shows "engine_ok r"
proof -
  have "list_all (approved_in (le_proposals r)) (le_missions r)"
    using assms(3) engine_okD(2) [OF assms(1)] by (blast intro: approved_keeps)
  then have "store_ok (store_of r)" using assms(2) by (simp add: store_ok_def store_of_def missions_sound_def)
  then show ?thesis using assms by (auto simp: engine_ok_def settled_def)
qed

lemma engine_ok_sound: "engine_ok e \<Longrightarrow> missions_sound e \<and> runs_ok e"
  by (simp add: engine_ok_def store_ok_def store_of_def missions_sound_def)

lemma engine_ok_persist: "engine_ok e \<Longrightarrow> engine_ok (persist e)"
  using runs_ok_cong [of "persist e" e] by (simp add: engine_ok_def store_of_kept lifecycle)

lemma engine_ok_cong:
  "le_missions r = le_missions e \<Longrightarrow> le_proposals r = le_proposals e \<Longrightarrow> le_running r = le_running e
   \<Longrightarrow> le_waiting r = le_waiting e \<Longrightarrow> le_ended r = le_ended e \<Longrightarrow> le_disk r = le_disk e \<Longrightarrow> engine_ok r = engine_ok e"
  using runs_ok_cong [of r e] by (simp add: engine_ok_def store_ok_def store_of_def)

text \<open>A new mission whose steps are those of its approved proposal.\<close>

lemma find_append_other: "List.find P (xs @ [x]) = (case List.find P xs of Some y \<Rightarrow> Some y | None \<Rightarrow> if P x then Some x else None)"
  by (induction xs) auto

lemma waiting_append:
  assumes "waiting_ok e" "le_missions r = le_missions e @ [m]" "le_waiting r = le_waiting e"
  shows "waiting_ok r"
proof -
  have "find_mission r i = Some x" if "find_mission e i = Some x" for i x
    using that assms(2) by (simp add: find_mission_def find_append_other)
  then show ?thesis using assms(1,3) unfolding waiting_ok_def by fastforce
qed

lemma new_mission_ok:
  assumes "engine_ok e" "approved_in (le_proposals e) m" "mission_sound m"
  shows "engine_ok (e\<lparr>le_missions := le_missions e @ [m]\<rparr>)"
proof -
  let ?r = "e\<lparr>le_missions := le_missions e @ [m]\<rparr>"
  have "waiting_ok ?r" by (rule waiting_append [OF engine_okD(5) [OF assms(1)]]) simp_all
  then show ?thesis
    using assms by (simp add: engine_ok_def store_ok_def store_of_def runs_ok_def run_names_def)
qed

lemma create_mission_ok:
  assumes "engine_ok e" "find_proposal e i = Some p" "wp_status p = ProposalApproved"
    "map_option rv_action (wp_review p) = Some ApproveAction"
  shows "engine_ok (fst (create_lifecycle_mission env i ts auto e))"
proof -
  let ?m = "proposal_to_mission (fst (draw_uuid env e)) p ts"
  let ?f = "\<lambda>p. p\<lparr>wp_mission := Some (pm_id ?m)\<rparr>"
  let ?e2 = "update_proposal i ?f (snd (draw_uuid env e))"
  let ?e3 = "?e2\<lparr>le_missions := le_missions ?e2 @ [?m]\<rparr>"
  have pid: "wp_id p = i" using assms(2) by (auto simp: find_proposal_def dest: find_SomeD)
  have fnd: "List.find (\<lambda>p. wp_id p = j) (le_proposals ?e2)
      = (if j = i then Some (?f p) else find_proposal e j)" for j
    using find_update_id [of wp_id ?f j i "le_proposals e"] assms(2) by (simp add: find_proposal_def lifecycle)
  have kept: "approved_in (le_proposals ?e2) x" if "approved_in (le_proposals e) x" for x
    using that assms(2) unfolding approved_in_def fnd
    by (auto simp: find_proposal_def plan_of_def split: option.splits)
  have new: "approved_in (le_proposals ?e2) ?m"
    unfolding approved_in_def fnd using assms(3,4) pid
    by (auto simp: proposal_to_mission_def plan_of_def reset_step_def step_of_template_def)
  have "engine_ok ?e2"
    using assms(1) kept runs_ok_cong [of ?e2 e]
    by (auto simp: engine_ok_def store_ok_def store_of_def lifecycle list_all_iff)
  then have e3: "engine_ok ?e3" using new sound_new by (rule new_mission_ok)
  obtain ev where r: "create_lifecycle_mission env i ts auto e
      = (if auto then start_mission env (pm_id ?m) (push_event env ev ?e3) else (push_event env ev ?e3, Inr ?m))"
    by (simp add: create_lifecycle_mission_def assms(2) Let_def split_beta)
  have e4: "engine_ok (push_event env ev ?e3)"
    using e3 engine_ok_cong [of "push_event env ev ?e3" ?e3] by (simp add: lifecycle)
  show ?thesis
    unfolding r using e4 engine_ok_settled [OF e4 start_mission_ok start_mission_kept] engine_ok_sound [OF e4]
    by simp
qed

text \<open>A review is refused, or it only changes the proposal, or it makes a mission as well.\<close>

lemma review_cases:
  obtains (refused) e1 where "fst (review_proposal env i rw e) = e1"
      "e1 = e \<or> (\<exists>p. find_proposal e i = Some p \<and> wp_status p \<noteq> ProposalApproved \<and> touches i e e1)"
  | (recorded) p e4 where "fst (review_proposal env i rw e) = persist e4" "touches i e e4"
      "find_proposal e i = Some p" "wp_status p \<noteq> ProposalApproved"
  | (approved) p e4 p4 ts auto where "touches i e e4" "find_proposal e i = Some p" "wp_status p \<noteq> ProposalApproved"
      "find_proposal e4 i = Some p4" "wp_status p4 = ProposalApproved"
      "map_option rv_action (wp_review p4) = Some ApproveAction"
      "fst (review_proposal env i rw e) \<in> {fst (create_lifecycle_mission env i ts auto e4),
         persist (fst (create_lifecycle_mission env i ts auto e4))}"
proof (cases "find_proposal e i")
  case None
  then show ?thesis by (intro refused [of e]) (simp_all add: review_proposal_def)
next
  case p: (Some p)
  show ?thesis
  proof (cases "wp_status p = ProposalApproved \<or> wp_status p = ProposalRejected
      \<or> parse_action (to_lower (sanitize_text (rw_action rw) [])) = None")
    case True
    then show ?thesis by (intro refused [of e]) (auto simp: review_proposal_def p)
  next
    case False
    then obtain act where act: "parse_action (to_lower (sanitize_text (rw_action rw) [])) = Some act"
      and open': "wp_status p \<noteq> ProposalApproved" "wp_status p \<noteq> ProposalRejected" by auto
    obtain reviewer n where rv: "sanitize_id env (rw_reviewer rw) ''human'' (le_uuids e) = (reviewer, n)"
      by (cases "sanitize_id env (rw_reviewer rw) ''human'' (le_uuids e)") auto
    let ?e0 = "e\<lparr>le_uuids := n\<rparr>"
    obtain e1 err where e1: "(case rw_patch rw of None \<Rightarrow> (?e0, None) | Some pa \<Rightarrow> apply_patch env i pa ?e0) = (e1, err)"
      by (cases "case rw_patch rw of None \<Rightarrow> (?e0, None) | Some pa \<Rightarrow> apply_patch env i pa ?e0") auto
    have t0: "touches i e ?e0" by (rule touches_same) simp_all
    have t1: "touches i e e1"
      using e1 touches_trans [OF t0] apply_patch_touches [of i ?e0 env] t0
      by (cases "rw_patch rw") (auto simp: prod_eq_iff)
    show ?thesis
    proof (cases err)
      case (Some msg)
      then have "fst (review_proposal env i rw e) = e1"
        using False act rv e1 by (simp add: review_proposal_def p Let_def)
      then show ?thesis using t1 p open' by (blast intro: refused)
    next
      case None
      define ts where "ts = fst (read_clock env e1)"
      define f where "f = (\<lambda>p :: work_proposal. p\<lparr>wp_status := status_after act, wp_updated_at := ts,
          wp_review := Some \<lparr>rv_action = act, rv_reviewer = reviewer, rv_notes = text_or_none (rw_notes rw), rv_at = ts\<rparr>\<rparr>)"
      define ev where "ev = review_event ts i act reviewer (text_or_none (rw_notes rw))"
      define e4 where "e4 = push_event env ev (update_proposal i f (snd (read_clock env e1)))"
      have r: "review_proposal env i rw e =
          (if act = ApproveAction then
             (case create_lifecycle_mission env i ts (rw_auto_start rw \<noteq> Some False) e4 of
                (e5, Inl msg) \<Rightarrow> (e5, Inl msg)
              | (e5, Inr m) \<Rightarrow> (persist e5, Inr (the (find_proposal e5 i), Some m)))
           else (persist e4, Inr (the (find_proposal e4 i), None)))"
        using False act rv e1 None
        by (simp add: review_proposal_def p Let_def split_beta ts_def f_def ev_def e4_def)
      have "touches i e1 (snd (read_clock env e1))" by (rule touches_same) (simp_all add: lifecycle)
      moreover have "touches i (snd (read_clock env e1)) (update_proposal i f (snd (read_clock env e1)))"
        by (rule touches_update) (simp add: f_def)
      moreover have "touches i (update_proposal i f (snd (read_clock env e1))) e4"
        unfolding e4_def by (rule touches_same) (simp_all add: lifecycle)
      ultimately have t4: "touches i e e4" using t1 by (blast intro: touches_trans)
      show ?thesis
      proof (cases "act = ApproveAction")
        case False
        then show ?thesis using recorded [of e4 p] t4 p open' by (simp add: r)
      next
        case True
        obtain g where "\<forall>x. wp_id (g x) = wp_id x"
          "le_proposals e1 = update_first (\<lambda>p. wp_id p = i) g (le_proposals e)"
          using t1 by (auto simp: touches_def)
        then obtain p1 where p1: "find_proposal e1 i = Some p1"
          using find_update_id [of wp_id g i i "le_proposals e"] p by (simp add: find_proposal_def)
        have p4: "find_proposal e4 i = Some (f p1)"
          using p1 find_update_id [of wp_id f i i "le_proposals e1"]
          by (simp add: e4_def find_proposal_def lifecycle f_def)
        show ?thesis
          by (rule approved [OF t4 p open'(1) p4, of ts "rw_auto_start rw \<noteq> Some False"])
            (auto simp: f_def True r split: prod.split sum.split)
      qed
    qed
  qed
qed

lemma review_ok:
  assumes "engine_ok e"
  shows "engine_ok (fst (review_proposal env i rw e))"
proof (cases rule: review_cases [of env i rw e])
  case (refused e1)
  then show ?thesis using assms touches_ok [of i e e1] by auto
next
  case (recorded p e4)
  then show ?thesis using touches_ok [OF _ assms] by (simp add: engine_ok_persist)
next
  case (approved p e4 p4 ts auto)
  have "engine_ok e4" by (rule touches_ok [OF approved(1) assms approved(2,3)])
  then have "engine_ok (fst (create_lifecycle_mission env i ts auto e4))"
    using approved(4-6) by (rule create_mission_ok)
  then show ?thesis using approved(7) by (auto simp: engine_ok_persist)
qed

lemma submit_cases:
  obtains (refused) n t msg where "submit_proposal env inp e = (e\<lparr>le_uuids := n, le_ticks := t\<rparr>, Inl msg)"
  | (accepted) n t p ev where "submit_proposal env inp e
      = (persist (push_event env ev (e\<lparr>le_uuids := n, le_ticks := t, le_proposals := le_proposals e @ [p]\<rparr>)), Inr p)"
      "wp_status p = ProposalPending" "fst (normalize_steps env (sj_steps inp) (Suc (snd (sanitize_id env (sj_agent inp) ''agent'' (le_uuids e))))) = Inr (wp_steps p)"
proof -
  obtain agent n where a: "sanitize_id env (sj_agent inp) ''agent'' (le_uuids e) = (agent, n)"
    by (cases "sanitize_id env (sj_agent inp) ''agent'' (le_uuids e)") auto
  show ?thesis
  proof (cases "sanitize_text (sj_title inp) [] = [] \<or> sanitize_text (sj_goal inp) [] = []")
    case True
    then show ?thesis
      by (cases "sanitize_text (sj_title inp) [] = []")
        (auto simp: submit_proposal_def a Let_def intro: refused [where n = n and t = "le_ticks e"])
  next
    case False
    obtain r k where r: "normalize_steps env (sj_steps inp) (Suc n) = (r, k)" by fastforce
    show ?thesis
    proof (cases r)
      case (Inl msg)
      show ?thesis
        by (rule refused [where n = k and t = "Suc (le_ticks e)" and msg = msg])
          (use False in \<open>simp add: submit_proposal_def a Let_def read_clock_def draw_uuid_def r Inl\<close>)
    next
      case (Inr steps)
      define p where "p = new_proposal inp (en_uuid env n) agent (en_clock env (le_ticks e)) steps"
      show ?thesis
      proof (rule accepted)
        show "submit_proposal env inp e = (persist (push_event env (submitted_event (en_clock env (le_ticks e)) p)
            (e\<lparr>le_uuids := k, le_ticks := Suc (le_ticks e), le_proposals := le_proposals e @ [p]\<rparr>)), Inr p)"
        proof -
          have comm: "e\<lparr>le_ticks := x, le_uuids := y\<rparr> = e\<lparr>le_uuids := y, le_ticks := x\<rparr>" for x y by simp
          show ?thesis
            using False by (simp add: submit_proposal_def a Let_def read_clock_def draw_uuid_def r Inr p_def comm)
        qed
        show "wp_status p = ProposalPending" by (simp add: p_def new_proposal_def)
        show "fst (normalize_steps env (sj_steps inp) (Suc (snd (sanitize_id env (sj_agent inp) ''agent'' (le_uuids e)))))
            = Inr (wp_steps p)" by (simp add: p_def new_proposal_def a r Inr)
      qed
    qed
  qed
qed

lemma submit_ok:
  assumes "engine_ok e"
  shows "engine_ok (fst (submit_proposal env inp e))"
proof (cases rule: submit_cases [of env inp e])
  case (refused n t msg)
  then show ?thesis using assms engine_ok_cong [of "e\<lparr>le_uuids := n, le_ticks := t\<rparr>" e] by simp
next
  case (accepted n t p ev)
  let ?e1 = "e\<lparr>le_uuids := n, le_ticks := t, le_proposals := le_proposals e @ [p]\<rparr>"
  have "approved_in (le_proposals ?e1) m" if "approved_in (le_proposals e) m" for m
    using that by (auto simp: approved_in_def find_append_other split: option.splits)
  then have "engine_ok ?e1"
    using assms runs_ok_cong [of ?e1 e] by (simp add: engine_ok_def store_ok_def store_of_def list_all_iff)
  then have "engine_ok (push_event env ev ?e1)"
    using engine_ok_cong [of "push_event env ev ?e1" ?e1] by (simp add: lifecycle)
  then show ?thesis unfolding accepted by (simp add: engine_ok_persist)
qed

lemma new_engine_ok:
  assumes "store_ok s"
  shows "engine_ok ((new_engine (Some s))\<lparr>le_uuids := a, le_ticks := b\<rparr>)"
  using assms by (cases s) (simp add: new_engine_def read_lifecycle_store_def engine_ok_def store_of_def runs_ok_def
      run_names_def waiting_ok_def)

lemma store_ok_empty: "store_ok ([], [], [])"
  by (simp add: store_ok_def)

lemma new_engine_None: "new_engine None = new_engine (Some ([], [], []))"
  by (simp add: new_engine_def read_lifecycle_store_def)

lemma engine_step_ok:
  assumes "engine_ok e"
  shows "engine_ok (engine_step env op e)"
proof (cases op)
  case (RestartOp torn)
  then show ?thesis
    using new_engine_ok [OF engine_okD(3) [OF assms]] new_engine_ok [OF store_ok_empty]
    by (simp add: restart_def new_engine_None)
next
  case (StartOp i)
  then show ?thesis
    using engine_ok_settled [OF assms start_mission_ok start_mission_kept] engine_ok_sound [OF assms] by simp
next
  case (ResumeOp i k)
  let ?e = "e\<lparr>le_waiting := remove1 (i, k) (le_waiting e)\<rparr>"
  have "keeps_plans e ?e \<and> settled e ?e" "keeps_plans e e \<and> settled e e"
    by (simp_all add: keeps_plans_def settled_def store_of_def)
  then have "keeps_plans e (resume_run env i k e) \<and> settled e (resume_run env i k e)"
    using finish_step_kept [of ?e env i k] unfolding resume_run_def
    by (auto intro: keeps_plans_trans settled_trans)
  then show ?thesis
    using engine_ok_settled [OF assms resume_ok] engine_ok_sound [OF assms] by (simp add: ResumeOp)
next
  case (EndOp i)
  have "keeps_plans e (end_of_run i e) \<and> settled e (end_of_run i e)"
    by (simp add: end_of_run_def keeps_plans_def settled_def store_of_def)
  then show ?thesis
    using engine_ok_settled [OF assms end_of_run_ok] engine_ok_sound [OF assms] by (simp add: EndOp)
qed (simp_all add: submit_ok review_ok assms)

lemma reachable_ok: "lifecycle_reachable env e \<Longrightarrow> engine_ok e"
proof (induction rule: lifecycle_reachable.induct)
  case fresh
  have "new_engine None = (new_engine (Some ([], [], [])))\<lparr>le_uuids := 0, le_ticks := 0\<rparr>"
    by (simp add: new_engine_def read_lifecycle_store_def)
  then show ?case using new_engine_ok [OF store_ok_empty] by simp
qed (rule engine_step_ok)


text \<open>
  No mission without approval: in every reachable state each mission, in memory and on disk, belongs
  to a proposal whose status is approved and whose review was an approval, and apart from their
  progress its steps are the steps of that proposal. No later request can change an approved plan.
\<close>

theorem only_approved_plans_run:
  assumes "lifecycle_reachable env e"
  shows "list_all (approved_in (le_proposals e)) (le_missions e)
    \<and> list_all (approved_in (fst (le_disk e))) (fst (snd (le_disk e)))"
  using engine_okD [OF reachable_ok [OF assms]] by (simp add: store_ok_def)

end
