(* ===== verification/Proposal_Runs.thy ===== *)
theory Proposal_Runs
  imports Proposal_Correct
begin

text \<open>
  How the runs of the proposal lifecycle end: every run ends after at most one resumption per step,
  a plan whose dependencies point backwards completes, plans are well formed, and the cases where a
  mission is never finished: a deadlock made by the default chain, and a restart.
\<close>

section \<open>Plans are well formed\<close>

definition plan_well_formed :: "step_template list \<Rightarrow> bool" where
  "plan_well_formed ts \<longleftrightarrow> ts \<noteq> []
     \<and> list_all (\<lambda>t. tp_title t \<noteq> [] \<and> tp_description t \<noteq> [] \<and> tp_id t \<noteq> [] \<and> tp_agent t \<noteq> []
                      \<and> list_all (\<lambda>d. d \<in> set (map tp_id ts)) (tp_depends t)) ts
     \<and> list_all (\<lambda>t. tp_depends t \<noteq> []) (tl ts)"

lemma sanitize_id_nonempty: "prefix \<noteq> [] \<Longrightarrow> fst (sanitize_id env x prefix n) \<noteq> []"
  by (simp add: sanitize_id_def Let_def)

lemma normalize_raw_ok:
  "fst (normalize_raw env k raws n) = Inr ts \<Longrightarrow>
     length ts = length raws
     \<and> list_all (\<lambda>t. tp_title t \<noteq> [] \<and> tp_description t \<noteq> [] \<and> tp_id t \<noteq> [] \<and> tp_agent t \<noteq> []) ts"
proof (induction raws arbitrary: k n ts)
  case (Cons raw raws)
  obtain i n1 where i: "sanitize_id env (si_id raw) (step_prefix k) n = (i, n1)" by fastforce
  obtain a n2 where a: "sanitize_id env (si_agent raw) ''agent'' n1 = (a, n2)" by fastforce
  obtain ds n3 where d: "sanitize_ids env (nullish (si_depends raw) []) n2 = (ds, n3)" by fastforce
  obtain r n4 where r: "normalize_raw env (Suc k) raws n3 = (r, n4)" by fastforce
  have "step_prefix k \<noteq> []" by (simp add: step_prefix_def)
  then have ne: "i \<noteq> []" "a \<noteq> []"
    using sanitize_id_nonempty [of "step_prefix k" env "si_id raw" n]
      sanitize_id_nonempty [of "''agent''" env "si_agent raw" n1] by (simp_all add: i a)
  have t: "sanitize_text (si_title raw) [] \<noteq> []" "sanitize_text (si_description raw) [] \<noteq> []"
    using Cons.prems by (auto simp: i a Let_def split: if_splits)
  obtain ts' where r': "r = Inr ts'" and ts: "ts = \<lparr>tp_id = i, tp_title = sanitize_text (si_title raw) [],
      tp_description = sanitize_text (si_description raw) [], tp_agent = a, tp_depends = ds,
      tp_expected = text_or_none (si_expected raw), tp_fail = (si_fail raw = Some True)\<rparr> # ts'"
    using Cons.prems t by (cases r) (auto simp: i a d r Let_def)
  have "length ts' = length raws
     \<and> list_all (\<lambda>t. tp_title t \<noteq> [] \<and> tp_description t \<noteq> [] \<and> tp_id t \<noteq> [] \<and> tp_agent t \<noteq> []) ts'"
    by (rule Cons.IH [of "Suc k" n3]) (simp add: r r')
  then show ?case using t ne by (simp add: ts)
qed simp

lemma chain_sel:
  "map tp_id (chain_steps b ts) = map tp_id ts" "map tp_title (chain_steps b ts) = map tp_title ts"
  "map tp_description (chain_steps b ts) = map tp_description ts" "map tp_agent (chain_steps b ts) = map tp_agent ts"
  "length (chain_steps b ts) = length ts"
  by (induction b ts rule: chain_steps.induct) (auto split: option.splits)

lemma chain_depends:
  "t \<in> set (chain_steps b ts) \<Longrightarrow> d \<in> set (tp_depends t)
     \<Longrightarrow> Some d = b \<or> d \<in> set (map tp_id ts) \<or> (\<exists>t' \<in> set ts. d \<in> set (tp_depends t'))"
  by (induction b ts rule: chain_steps.induct) (auto split: option.splits if_splits)

lemma chain_nonempty: "t \<in> set (chain_steps (Some b) ts) \<Longrightarrow> tp_depends t \<noteq> []"
  by (induction "Some b" ts arbitrary: b rule: chain_steps.induct) (auto split: if_splits)

text \<open>
  A plan that is accepted is well formed: it has a step; every step has a title, a description, an id
  and an agent; every dependency is the id of a step of the plan; and every step but the first has
  at least one dependency.
\<close>

theorem accepted_plans_are_well_formed:
  assumes "snd (submit_proposal env inp e) = Inr p"
  shows "plan_well_formed (wp_steps p)"
proof (cases rule: submit_cases [of env inp e])
  case (refused n t msg)
  then show ?thesis using assms by simp
next
  case (accepted n t p' ev)
  obtain k where k: "fst (normalize_steps env (sj_steps inp) k) = Inr (wp_steps p)"
    using accepted(1,3) assms by auto
  then obtain raws ts where raws: "sj_steps inp = Some raws" "raws \<noteq> []" "fst (normalize_raw env 1 raws k) = Inr ts"
    "wp_steps p = chain_steps None (map (known_depends (map tp_id ts)) ts)"
    by (auto simp: normalize_steps_def split: option.splits list.splits prod.splits sum.splits)
  let ?us = "map (known_depends (map tp_id ts)) ts"
  have same: "map tp_id ?us = map tp_id ts" "map tp_title ?us = map tp_title ts"
    "map tp_description ?us = map tp_description ts" "map tp_agent ?us = map tp_agent ts"
    by (simp_all add: known_depends_def)
  note ok = normalize_raw_ok [OF raws(3)]
  have fields: "list_all (\<lambda>x. x \<noteq> []) (map g (wp_steps p)) = list_all (\<lambda>x. x \<noteq> []) (map g ts)"
    if "map g (chain_steps None ?us) = map g ?us" "map g ?us = map g ts" for g :: "step_template \<Rightarrow> string"
    by (simp only: raws(4) that)
  have "list_all (\<lambda>x. x \<noteq> []) (map g (wp_steps p))" if "g \<in> {tp_title, tp_description, tp_id, tp_agent}" for g
    using that fields [of g] ok chain_sel(1-4) [of None ?us] same by (auto simp: list_all_iff)
  then have f: "t \<in> set (wp_steps p) \<Longrightarrow> tp_title t \<noteq> [] \<and> tp_description t \<noteq> [] \<and> tp_id t \<noteq> [] \<and> tp_agent t \<noteq> []" for t
    by (force simp: list_all_iff)
  have ids: "set (map tp_id (wp_steps p)) = set (map tp_id ts)"
    by (simp only: raws(4) chain_sel(1) same)
  have d: "d \<in> set (map tp_id (wp_steps p))" if "t \<in> set (wp_steps p)" "d \<in> set (tp_depends t)" for t d
    using chain_depends [OF that(1) [unfolded raws(4)] that(2)] unfolding ids same
    by (auto simp: known_depends_def)
  obtain u us where us: "?us = u # us" using ok raws(2) by (cases ?us) auto
  have "list_all (\<lambda>t. tp_depends t \<noteq> []) (tl (wp_steps p))"
    unfolding raws(4) us using chain_nonempty [of _ "tp_id u" us] by (auto simp: list_all_iff)
  moreover have "wp_steps p \<noteq> []" unfolding raws(4) us by simp
  ultimately show ?thesis using f d unfolding plan_well_formed_def list_all_iff by blast
qed

section \<open>Runs end\<close>

text \<open>The delays of the run of mission \<open>i\<close> end one after the other, at most \<open>n\<close> times.\<close>

fun drive :: "lifecycle_env \<Rightarrow> string \<Rightarrow> nat \<Rightarrow> lifecycle_engine \<Rightarrow> lifecycle_engine" where
  "drive env i 0 e = e"
| "drive env i (Suc n) e =
     (case List.find (\<lambda>w. fst w = i) (le_waiting e) of
        None \<Rightarrow> e
      | Some (j, k) \<Rightarrow> drive env i n (resume_run env j k e))"

definition pending_count :: "proposal_mission \<Rightarrow> nat" where
  "pending_count m = length (filter (\<lambda>s. st_status s = RunPending) (pm_steps m))"

lemma filter_update_length:
  "k < length xs \<Longrightarrow> length (filter P (xs[k := y])) + (if P (xs ! k) then 1 else 0)
     = length (filter P xs) + (if P y then 1 else 0)"
proof (induction xs arbitrary: k)
  case (Cons x xs)
  then show ?case by (cases k) auto
qed simp

text \<open>What a segment leaves: the mission completed, blocked, or waiting for one step more.\<close>

definition segment_result :: "string \<Rightarrow> proposal_mission \<Rightarrow> lifecycle_engine \<Rightarrow> bool" where
  "segment_result i m r \<longleftrightarrow>
     (\<exists>m'. find_mission r i = Some m' \<and>
        (pm_status m' = RunCompleted \<and> pending_count m = 0
         \<or> pm_status m' = RunBlocked \<and> ready_steps (pm_steps m) = [] \<and> pending_count m \<noteq> 0
         \<or> (\<exists>k ts. k \<in> set (ready_steps (pm_steps m)) \<and> (i, k) \<in> set (le_waiting r) \<and> pm_status m' = RunRunning
              \<and> pm_steps m' = (pm_steps m)[k := start_step ts (pm_steps m ! k)])))"

lemma run_segment_result:
  assumes "find_mission e i = Some m" "pm_status m = RunRunning"
  shows "segment_result i m (run_segment env i e)"
proof -
  let ?e0 = "snd (read_clock env e)"
  have e0: "find_mission ?e0 i = Some m" using assms(1) by (simp add: find_mission_def lifecycle)
  have up: "find_mission r i = Some (f m)"
    if "le_missions r = le_missions (update_mission i f ?e0)" "\<And>m. pm_id (f m) = pm_id m" for f r
    using that e0 find_mission_update [of f i ?e0 i] find_mission_cong [OF that(1), of i] by simp
  from assms show ?thesis
  proof (cases rule: run_segment_cases [of e i m env])
    case (finished ts e1 ev)
    have "find_mission (run_segment env i e) i = Some (m\<lparr>pm_status := RunCompleted, pm_finished_at := Some ts,
        pm_updated_at := ts, pm_current := None\<rparr>)"
      unfolding finished(3,2) by (rule up) (simp_all add: lifecycle)
    then show ?thesis using finished(1) by (simp add: segment_result_def pending_count_def)
  next
    case (stuck ts e1 ev)
    have "find_mission (run_segment env i e) i = Some (m\<lparr>pm_status := RunBlocked, pm_updated_at := ts\<rparr>)"
      unfolding stuck(4,3) by (rule up) (simp_all add: lifecycle)
    then show ?thesis using stuck(1,2) by (simp add: segment_result_def pending_count_def)
  next
    case (started ts e1 e2 k c ev ev')
    have "find_mission (run_segment env i e) i
        = Some (set_step k (start_step ts) (m\<lparr>pm_current := c, pm_updated_at := ts\<rparr>))"
      unfolding started(5,4,3) by (rule up) (simp_all add: lifecycle)
    moreover have "(i, k) \<in> set (le_waiting (run_segment env i e))" unfolding started(5) by simp
    ultimately show ?thesis
      using started(1) assms(2) unfolding segment_result_def by (auto simp: lifecycle intro!: exI [of _ k] exI [of _ ts])
  qed
qed

text \<open>A resumption: the step fails and the mission with it, or it completes and a segment follows.\<close>

lemma resume_result:
  assumes "engine_ok e" "(i, k) \<in> set (le_waiting e)" "find_mission e i = Some m"
  shows "st_fail (pm_steps m ! k) \<and> map_option pm_status (find_mission (resume_run env i k e) i) = Some RunFailed
    \<or> \<not> st_fail (pm_steps m ! k) \<and> (\<exists>ts. segment_result i (set_step k (complete_step ts) (m\<lparr>pm_updated_at := ts\<rparr>)) (resume_run env i k e))"
proof -
  let ?e = "e\<lparr>le_waiting := remove1 (i, k) (le_waiting e)\<rparr>"
  have m: "find_mission ?e i = Some m" using assms(3) by (simp add: find_mission_def)
  have run: "pm_status m = RunRunning"
    using assms engine_okD(5) [OF assms(1)] unfolding waiting_ok_def by force
  have r: "resume_run env i k e = finish_step env i k ?e" using assms(2) by (simp add: resume_run_def)
  let ?c = "snd (read_clock env ?e)" and ?ts = "fst (read_clock env ?e)" and ?s = "pm_steps m ! k"
  have c: "find_mission ?c i = Some m" using m by (simp add: find_mission_def lifecycle)
  have up: "find_mission x i = Some (f m)"
    if "le_missions x = le_missions (update_mission i f ?c)" "\<And>m. pm_id (f m) = pm_id m" for f x
    using that c find_mission_update [of f i ?c i] find_mission_cong [OF that(1), of i] by simp
  show ?thesis
  proof (cases "st_fail ?s")
    case True
    let ?f = "\<lambda>m. set_step k (fail_step ?ts) (m\<lparr>pm_updated_at := ?ts, pm_status := RunFailed,
        pm_finished_at := Some ?ts, pm_current := Some (st_id ?s)\<rparr>)"
    have "le_missions (finish_step env i k ?e) = le_missions (update_mission i ?f ?c)"
      using True by (simp add: finish_step_def m Let_def split_beta lifecycle)
    then have "find_mission (finish_step env i k ?e) i = Some (?f m)" by (rule up) (simp add: lifecycle)
    then show ?thesis using True by (simp add: r lifecycle)
  next
    case False
    let ?f = "\<lambda>m. set_step k (complete_step ?ts) (m\<lparr>pm_updated_at := ?ts\<rparr>)"
    obtain x where x: "finish_step env i k ?e = run_segment env i x" "le_missions x = le_missions (update_mission i ?f ?c)"
      using False by (simp add: finish_step_def m Let_def split_beta lifecycle)
    have "find_mission x i = Some (?f m)" by (rule up [OF x(2)]) (simp add: lifecycle)
    then have "segment_result i (?f m) (run_segment env i x)"
      by (rule run_segment_result) (simp add: lifecycle run)
    then show ?thesis using False by (auto simp: r x(1))
  qed
qed

lemma waiting_find:
  assumes "engine_ok e" "(i, k) \<in> set (le_waiting e)"
  shows "List.find (\<lambda>w. fst w = i) (le_waiting e) = Some (i, k)"
proof -
  have "distinct (map fst (le_waiting e))"
    using engine_okD(4) [OF assms(1)] by (simp add: runs_ok_def run_names_def)
  then show ?thesis using assms(2)
  proof (induction "le_waiting e" arbitrary: e)
    case Nil
    then show ?case by simp
  next
    case (Cons w ws)
    have "List.find (\<lambda>w. fst w = i) xs = Some (i, k)" if "distinct (map fst xs)" "(i, k) \<in> set xs" for xs :: "(string \<times> nat) list"
      using that by (induction xs) (auto intro: rev_image_eqI)
    then show ?case using Cons.prems by blast
  qed
qed

lemma start_step_pending:
  assumes "k \<in> set (ready_steps (pm_steps m))" "pm_steps m' = (pm_steps m)[k := start_step ts (pm_steps m ! k)]"
  shows "Suc (pending_count m') = pending_count m"
proof -
  have "k < length (pm_steps m)" "st_status (pm_steps m ! k) = RunPending" using assms(1) by (simp_all add: in_ready)
  then show ?thesis
    using filter_update_length [of k "pm_steps m" "\<lambda>s. st_status s = RunPending" "start_step ts (pm_steps m ! k)"]
    by (simp add: pending_count_def assms(2) start_step_def)
qed

lemma complete_step_pending:
  assumes "k < length (pm_steps m)" "st_status (pm_steps m ! k) = RunRunning"
  shows "pending_count (set_step k (complete_step ts) (m\<lparr>pm_updated_at := t\<rparr>)) = pending_count m"
  using assms filter_update_length [of k "pm_steps m" "\<lambda>s. st_status s = RunPending" "complete_step ts (pm_steps m ! k)"]
  by (simp add: pending_count_def lifecycle complete_step_def)

lemma resume_engine_ok: "engine_ok e \<Longrightarrow> engine_ok (resume_run env i k e)"
  using engine_step_ok [of e env "ResumeOp i k"] by simp

lemma drive_idle:
  assumes "engine_ok e" "find_mission e i = Some m" "pm_status m \<noteq> RunRunning"
  shows "drive env i n e = e"
proof -
  have "List.find (\<lambda>w. fst w = i) (le_waiting e) = None"
    using engine_okD(5) [OF assms(1)] assms(2,3) unfolding waiting_ok_def find_None_iff by force
  then show ?thesis by (cases n) simp_all
qed

lemma waiting_running:
  assumes "engine_ok e" "(i, k) \<in> set (le_waiting e)" "find_mission e i = Some m"
  shows "pm_status m = RunRunning" "k < length (pm_steps m)" "st_status (pm_steps m ! k) = RunRunning"
  using assms engine_okD(5) [OF assms(1)] unfolding waiting_ok_def by force+

text \<open>A plan whose steps depend on earlier steps only, and where no failure is simulated.\<close>

definition backward_plan :: "lifecycle_step list \<Rightarrow> bool" where
  "backward_plan ss \<longleftrightarrow>
     list_all (\<lambda>k. \<not> st_fail (ss ! k) \<and> list_all (\<lambda>d. d \<in> set (map st_id (take k ss))) (st_depends (ss ! k)))
       [0..<length ss]"

lemma backward_update:
  assumes "k < length ss" "st_id y = st_id (ss ! k)" "st_fail y = st_fail (ss ! k)" "st_depends y = st_depends (ss ! k)"
  shows "backward_plan (ss[k := y]) = backward_plan ss"
proof -
  have "map st_id (ss[k := y]) = map st_id ss"
    using assms(1,2) by (simp add: map_update list_update_same_conv)
  then have "map st_id (take j (ss[k := y])) = map st_id (take j ss)" for j by (simp flip: take_map)
  moreover have "st_fail (ss[k := y] ! j) = st_fail (ss ! j)" "st_depends (ss[k := y] ! j) = st_depends (ss ! j)" for j
    using assms by (simp_all add: nth_list_update)
  ultimately show ?thesis by (simp add: backward_plan_def)
qed

lemma backward_ready:
  assumes "mission_sound m" "pm_status m = RunRunning" "no_running_step m" "backward_plan (pm_steps m)" "pending_count m \<noteq> 0"
  shows "ready_steps (pm_steps m) \<noteq> []"
proof -
  let ?ss = "pm_steps m"
  let ?P = "\<lambda>k. k < length ?ss \<and> st_status (?ss ! k) = RunPending"
  have "filter (\<lambda>s. st_status s = RunPending) ?ss \<noteq> []" using assms(5) by (simp add: pending_count_def)
  then obtain s where "s \<in> set ?ss" "st_status s = RunPending" by (auto simp: filter_empty_conv)
  then obtain k0 where k0: "?P k0" by (auto simp: in_set_conv_nth)
  let ?k = "LEAST k. ?P k"
  have k: "?P ?k" by (rule LeastI [of ?P, OF k0])
  have before: "st_status (?ss ! j) = RunCompleted" if "j < ?k" for j
  proof -
    have "j < length ?ss" using that k by linarith
    then show ?thesis
      using assms(1-3) not_less_Least [OF that]
      by (cases "st_status (?ss ! j)") (auto simp: mission_sound_def Let_def no_running_step_def)
  qed
  have "depends_met ?ss (?ss ! ?k)"
    unfolding depends_met_def list_all_iff
  proof
    fix d assume "d \<in> set (st_depends (?ss ! ?k))"
    then have "d \<in> set (map st_id (take ?k ?ss))"
      using assms(4) k by (simp add: backward_plan_def list_all_iff)
    then obtain j where j: "j < ?k" "st_id (?ss ! j) = d" unfolding in_set_conv_nth using k by auto
    have "j < length ?ss" using j(1) k by linarith
    then show "d \<in> set (completed_ids ?ss)"
      unfolding completed_in using before [OF j(1)] j(2) by blast
  qed
  then have "?k \<in> set (ready_steps ?ss)" using k by (simp add: in_ready)
  then show ?thesis by auto
qed

definition run_ends :: "proposal_mission \<Rightarrow> run_status option set" where
  "run_ends m = (if backward_plan (pm_steps m) then {Some RunCompleted} else {Some RunCompleted, Some RunFailed, Some RunBlocked})"

lemma run_ends_cases:
  assumes "mission_sound m" "k < length (pm_steps m)" "st_status (pm_steps m ! k) = RunRunning"
  shows "st_fail (pm_steps m ! k) \<Longrightarrow> Some RunFailed \<in> run_ends m"
    and "ready_steps (pm_steps (set_step k (complete_step ts) (m\<lparr>pm_updated_at := t\<rparr>))) = [] \<Longrightarrow>
         pending_count (set_step k (complete_step ts) (m\<lparr>pm_updated_at := t\<rparr>)) \<noteq> 0 \<Longrightarrow> Some RunBlocked \<in> run_ends m"
proof -
  show "Some RunFailed \<in> run_ends m" if "st_fail (pm_steps m ! k)"
    using that assms(2) by (auto simp: run_ends_def backward_plan_def list_all_iff)
  let ?m = "set_step k (complete_step ts) (m\<lparr>pm_updated_at := t\<rparr>)"
  have b: "backward_plan (pm_steps ?m) = backward_plan (pm_steps m)"
    using assms(2) by (simp add: lifecycle backward_update complete_step_def)
  have sound: "mission_sound ?m" "no_running_step ?m"
    using sound_complete [OF assms, of ts] by (simp_all add: mission_sound_def no_running_step_def set_step_def)
  have run: "pm_status ?m = RunRunning"
    using assms by (simp add: lifecycle) (auto simp: mission_sound_def Let_def)
  show "Some RunBlocked \<in> run_ends m" if "ready_steps (pm_steps ?m) = []" "pending_count ?m \<noteq> 0"
    using backward_ready [OF sound(1) run sound(2)] that b by (auto simp: run_ends_def)
qed

lemma drive_ends:
  "engine_ok e \<Longrightarrow> (i, k) \<in> set (le_waiting e) \<Longrightarrow> find_mission e i = Some m \<Longrightarrow> pending_count m \<le> n
   \<Longrightarrow> map_option pm_status (find_mission (drive env i (Suc n) e) i) \<in> run_ends m"
proof (induction n arbitrary: e k m)
  case (0 e k m)
  let ?r = "resume_run env i k e"
  have d: "drive env i (Suc 0) e = ?r" using waiting_find [OF 0(1,2)] by simp
  have sound: "mission_sound m" using engine_ok_sound [OF 0(1)] 0(3) by (blast intro: missions_sound_find)
  note w = waiting_running [OF 0(1-3)]
  from resume_result [OF 0(1-3), of env] show ?case
  proof (elim disjE conjE exE)
    assume f: "st_fail (pm_steps m ! k)" "map_option pm_status (find_mission ?r i) = Some RunFailed"
    show ?thesis unfolding d f(2) by (rule run_ends_cases(1) [OF sound w(2,3) f(1)])
  next
    fix ts assume s: "segment_result i (set_step k (complete_step ts) (m\<lparr>pm_updated_at := ts\<rparr>)) ?r"
    have "pending_count (set_step k (complete_step ts) (m\<lparr>pm_updated_at := ts\<rparr>)) = 0"
      using complete_step_pending [OF w(2,3)] 0(4) by simp
    then have "map_option pm_status (find_mission ?r i) = Some RunCompleted"
      using s start_step_pending unfolding segment_result_def by fastforce
    then show ?thesis unfolding d by (simp add: run_ends_def)
  qed
next
  case (Suc n e k m)
  let ?r = "resume_run env i k e"
  have d: "drive env i (Suc (Suc n)) e = drive env i (Suc n) ?r" using waiting_find [OF Suc.prems(1,2)] by simp
  have ok: "engine_ok ?r" by (rule resume_engine_ok [OF Suc.prems(1)])
  have sound: "mission_sound m"
    using engine_ok_sound [OF Suc.prems(1)] Suc.prems(3) by (blast intro: missions_sound_find)
  note w = waiting_running [OF Suc.prems(1-3)]
  from resume_result [OF Suc.prems(1-3), of env] show ?case
  proof (elim disjE conjE exE)
    assume f: "st_fail (pm_steps m ! k)" "map_option pm_status (find_mission ?r i) = Some RunFailed"
    from f(2) obtain m' where m': "find_mission ?r i = Some m'" "pm_status m' = RunFailed" by auto
    then have idle: "drive env i (Suc n) ?r = ?r" by (intro drive_idle [OF ok m'(1)]) simp
    show ?thesis unfolding d idle f(2) by (rule run_ends_cases(1) [OF sound w(2,3) f(1)])
  next
    fix ts assume s: "segment_result i (set_step k (complete_step ts) (m\<lparr>pm_updated_at := ts\<rparr>)) ?r"
    let ?m = "set_step k (complete_step ts) (m\<lparr>pm_updated_at := ts\<rparr>)"
    have c: "pending_count ?m \<le> Suc n" using complete_step_pending [OF w(2,3)] Suc.prems(4) by simp
    from s obtain m' where m': "find_mission ?r i = Some m'"
      "pm_status m' \<noteq> RunRunning \<and> Some (pm_status m') \<in> run_ends m
       \<or> (\<exists>j t. j \<in> set (ready_steps (pm_steps ?m)) \<and> (i, j) \<in> set (le_waiting ?r)
         \<and> pm_steps m' = (pm_steps ?m)[j := start_step t (pm_steps ?m ! j)])"
      unfolding segment_result_def using run_ends_cases(2) [OF sound w(2,3), of ts ts] by (auto simp: run_ends_def)
    from m'(2) show ?thesis
    proof (elim disjE exE conjE)
      assume "pm_status m' \<noteq> RunRunning" "Some (pm_status m') \<in> run_ends m"
      then show ?thesis unfolding d drive_idle [OF ok m'(1) \<open>pm_status m' \<noteq> RunRunning\<close>] using m'(1) by simp
    next
      fix j t assume j: "j \<in> set (ready_steps (pm_steps ?m))" "(i, j) \<in> set (le_waiting ?r)"
        "pm_steps m' = (pm_steps ?m)[j := start_step t (pm_steps ?m ! j)]"
      have "pending_count m' \<le> n" using start_step_pending [OF j(1,3)] c by simp
      moreover have "run_ends m' = run_ends m"
        using j(1) w(2) by (simp add: run_ends_def j(3) in_ready backward_update start_step_def lifecycle complete_step_def)
      ultimately show ?thesis unfolding d using Suc.IH [OF ok j(2) m'(1)] by simp
    qed
  qed
qed

text \<open>
  C29: Runs end: in every reachable state, a run that waits in its delay is over after at most as many
  further delays as its mission has pending steps, plus one. The mission is then completed, failed
  or blocked; it is completed if its steps depend on earlier steps only and no failure is simulated.
\<close>

theorem every_run_ends:
  assumes "lifecycle_reachable env e" "(i, k) \<in> set (le_waiting e)" "find_mission e i = Some m"
  shows "map_option pm_status (find_mission (drive env i (Suc (pending_count m)) e) i)
    \<in> (if backward_plan (pm_steps m) then {Some RunCompleted} else {Some RunCompleted, Some RunFailed, Some RunBlocked})"
  using drive_ends [OF reachable_ok [OF assms(1)] assms(2,3) order_refl] by (simp add: run_ends_def)

section \<open>Missions that a restart strands\<close>

text \<open>A mission that is running, in memory and on disk, without a run of this process.\<close>

definition stranded :: "string \<Rightarrow> proposal_mission \<Rightarrow> lifecycle_engine \<Rightarrow> bool" where
  "stranded i m e \<longleftrightarrow> find_mission e i = Some m \<and> pm_status m = RunRunning \<and> i \<notin> set (le_running e)
     \<and> List.find (\<lambda>x. pm_id x = i) (fst (snd (le_disk e))) = Some m"

definition leaves :: "string \<Rightarrow> lifecycle_engine \<Rightarrow> lifecycle_engine \<Rightarrow> bool" where
  "leaves i e r \<longleftrightarrow> find_mission r i = find_mission e i \<and> (i \<in> set (le_running r) \<longleftrightarrow> i \<in> set (le_running e))"

lemma leaves_trans: "leaves i a b \<Longrightarrow> leaves i b c \<Longrightarrow> leaves i a c"
  by (simp add: leaves_def)

lemma leaves_same:
  "le_missions r = le_missions e \<Longrightarrow> le_running r = le_running e \<Longrightarrow> leaves i e r"
  by (simp add: leaves_def find_mission_def)

lemma leaves_update:
  assumes "j \<noteq> i" "\<And>m. pm_id (f m) = pm_id m" "le_missions r = le_missions (update_mission j f e)" "le_running r = le_running e"
  shows "leaves i e r"
  using find_mission_update [of f j e i, OF assms(2)] find_mission_cong [OF assms(3), of i] assms(1,4)
  by (simp add: leaves_def)

lemma run_segment_leaves:
  assumes "j \<noteq> i"
  shows "leaves i e (run_segment env j e)"
proof (cases "\<exists>m. find_mission e j = Some m \<and> pm_status m = RunRunning")
  case False
  then have "run_segment env j e = return_run j e" by (auto simp: run_segment_def split: option.split)
  then show ?thesis by (simp add: leaves_same lifecycle)
next
  case True
  then obtain m where m: "find_mission e j = Some m" "pm_status m = RunRunning" by blast
  let ?c = "snd (read_clock env e)"
  have c: "leaves i e ?c" by (rule leaves_same) (simp_all add: lifecycle)
  from m show ?thesis
  proof (cases rule: run_segment_cases [of e j m env])
    case (finished ts e1 ev)
    have "leaves i ?c (run_segment env j e)"
      unfolding finished(3,2) by (rule leaves_update [OF assms]) (simp_all add: lifecycle)
    then show ?thesis by (rule leaves_trans [OF c])
  next
    case (stuck ts e1 ev)
    have "leaves i ?c (run_segment env j e)"
      unfolding stuck(4,3) by (rule leaves_update [OF assms]) (simp_all add: lifecycle)
    then show ?thesis by (rule leaves_trans [OF c])
  next
    case (started ts e1 e2 k c' ev ev')
    have "leaves i ?c (run_segment env j e)"
      unfolding started(5,4,3) by (rule leaves_update [OF assms]) (simp_all add: lifecycle)
    then show ?thesis by (rule leaves_trans [OF c])
  qed
qed

lemma finish_step_leaves:
  assumes "j \<noteq> i"
  shows "leaves i e (finish_step env j k e)"
proof (cases "find_mission e j")
  case None
  then show ?thesis by (simp add: finish_step_def leaves_same lifecycle)
next
  case (Some m)
  let ?c = "snd (read_clock env e)" and ?ts = "fst (read_clock env e)" and ?s = "pm_steps m ! k"
  have c: "leaves i e ?c" by (rule leaves_same) (simp_all add: lifecycle)
  show ?thesis
  proof (cases "st_fail ?s")
    case True
    let ?f = "\<lambda>m. set_step k (fail_step ?ts) (m\<lparr>pm_updated_at := ?ts, pm_status := RunFailed,
        pm_finished_at := Some ?ts, pm_current := Some (st_id ?s)\<rparr>)"
    have "leaves i ?c (finish_step env j k e)"
      by (rule leaves_update [OF assms, of ?f])
        (use True in \<open>simp_all add: finish_step_def Some Let_def split_beta lifecycle\<close>)
    then show ?thesis by (rule leaves_trans [OF c])
  next
    case False
    let ?f = "\<lambda>m. set_step k (complete_step ?ts) (m\<lparr>pm_updated_at := ?ts\<rparr>)"
    obtain x where x: "finish_step env j k e = run_segment env j x" "le_missions x = le_missions (update_mission j ?f ?c)"
      "le_running x = le_running ?c"
      using False by (simp add: finish_step_def Some Let_def split_beta lifecycle)
    have "leaves i ?c x" by (rule leaves_update [OF assms _ x(2,3)]) (simp add: lifecycle)
    then have "leaves i e x" by (rule leaves_trans [OF c])
    then show ?thesis unfolding x(1) by (rule leaves_trans [OF _ run_segment_leaves [OF assms]])
  qed
qed

lemma start_mission_leaves:
  assumes "j \<noteq> i"
  shows "leaves i e (fst (start_mission env j e))"
proof (cases rule: start_mission_cases [of env j e])
  case (refused x)
  then show ?thesis by (simp add: leaves_same)
next
  case (started m p ts ev f e1)
  have "leaves i (snd (read_clock env e)) e1"
    unfolding started(6,5) by (rule leaves_update [OF assms]) (simp_all add: lifecycle)
  then have e1: "leaves i e e1"
    using leaves_trans [OF leaves_same [of "snd (read_clock env e)" e i]] by (simp add: lifecycle)
  have "leaves i e1 (e1\<lparr>le_running := le_running e1 @ [j]\<rparr>)" using assms by (simp add: leaves_def find_mission_def)
  then show ?thesis
    unfolding started(7) schedule_mission_def using e1 run_segment_leaves [OF assms] by (auto intro: leaves_trans)
qed

lemma start_stranded: "find_mission e i = Some m \<Longrightarrow> pm_status m = RunRunning \<Longrightarrow> start_mission env i e = (e, Inr m)"
  by (simp add: start_mission_def)

lemma append_leaves:
  assumes "find_mission e i = Some m" "le_missions r = le_missions e @ [x]" "le_running r = le_running e"
  shows "leaves i e r"
  using assms by (simp add: leaves_def find_mission_def find_append_other)

lemma create_mission_leaves:
  assumes "find_mission e i = Some m" "pm_status m = RunRunning"
  shows "leaves i e (fst (create_lifecycle_mission env j ts auto e))
    \<and> (settled e (fst (create_lifecycle_mission env j ts auto e))
       \<or> le_disk (fst (create_lifecycle_mission env j ts auto e)) = le_disk e)"
proof (cases "find_proposal e j")
  case None
  then show ?thesis by (simp add: create_lifecycle_mission_def leaves_same settled_def)
next
  case (Some p)
  obtain x y where r: "create_lifecycle_mission env j ts auto e = (if auto then start_mission env (pm_id x) y else (y, Inr x))"
    "le_missions y = le_missions e @ [x]" "le_running y = le_running e" "le_disk y = le_disk e"
    by (simp add: create_lifecycle_mission_def Some Let_def split_beta lifecycle)
  have y: "leaves i e y" by (rule append_leaves [OF assms(1) r(2,3)])
  have s: "leaves i y (fst (start_mission env (pm_id x) y))"
  proof (cases "pm_id x = i")
    case True
    have "find_mission y i = Some m" using y assms(1) by (simp add: leaves_def)
    then show ?thesis using start_stranded [of y i m env] assms(2) by (simp add: True leaves_def)
  qed (rule start_mission_leaves)
  have "settled e (fst (start_mission env (pm_id x) y)) \<or> le_disk (fst (start_mission env (pm_id x) y)) = le_disk e"
    using start_mission_kept [of y env "pm_id x"] r(4) by (auto simp: settled_def)
  then show ?thesis unfolding r(1) using y s r(4) by (auto intro: leaves_trans)
qed

lemma stranded_leaves:
  assumes "stranded i m e" "leaves i e r" "le_disk r = store_of r \<or> le_disk r = le_disk e"
  shows "stranded i m r"
  using assms by (auto simp: stranded_def leaves_def find_mission_def store_of_def)

lemma touches_leaves: "touches j e r \<Longrightarrow> leaves i e r"
  by (simp add: touches_def leaves_same)

lemma stranded_step:
  assumes "stranded i m e" "engine_ok e" "op \<noteq> RestartOp True"
  shows "stranded i m (engine_step env op e)"
proof -
  have m: "find_mission e i = Some m" "pm_status m = RunRunning" "i \<notin> set (le_running e)"
    using assms(1) by (simp_all add: stranded_def)
  have names: "i \<notin> set (run_names e)" using m(3) engine_okD(4) [OF assms(2)] by (auto simp: runs_ok_def)
  show ?thesis
  proof (cases op)
    case (SubmitOp inp)
    show ?thesis
    proof (cases rule: submit_cases [of env inp e])
      case (refused n t msg)
      then show ?thesis using stranded_leaves [OF assms(1), of "e\<lparr>le_uuids := n, le_ticks := t\<rparr>"]
        by (simp add: SubmitOp leaves_same)
    next
      case (accepted n t p ev)
      show ?thesis
        by (rule stranded_leaves [OF assms(1)]) (simp_all add: SubmitOp accepted(1) leaves_same store_of_kept lifecycle)
    qed
  next
    case (ReviewOp j rw)
    show ?thesis
    proof (cases rule: review_cases [of env j rw e])
      case (refused e1)
      then have "leaves i e e1 \<and> le_disk e1 = le_disk e"
        using touches_leaves by (auto simp: touches_def leaves_same)
      then show ?thesis using stranded_leaves [OF assms(1), of e1] refused(1) by (simp add: ReviewOp)
    next
      case (recorded p e4)
      have "leaves i e (persist e4)"
        using leaves_trans [OF touches_leaves [OF recorded(2)] leaves_same [of "persist e4" e4]] by (simp add: lifecycle)
      then show ?thesis
        using stranded_leaves [OF assms(1), of "persist e4"] by (simp add: ReviewOp recorded(1) store_of_kept lifecycle)
    next
      case (approved p e4 p4 ts auto)
      let ?r = "fst (create_lifecycle_mission env j ts auto e4)"
      have l4: "leaves i e e4" "le_disk e4 = le_disk e"
        using touches_leaves [OF approved(1)] approved(1) by (auto simp: touches_def)
      then have "find_mission e4 i = Some m" using m(1) by (simp add: leaves_def)
      note c = create_mission_leaves [OF this m(2), of env j ts auto]
      have lr: "leaves i e ?r" using c l4(1) by (blast intro: leaves_trans)
      moreover have "leaves i e (persist ?r)"
        by (rule leaves_trans [OF lr leaves_same]) (simp_all add: lifecycle)
      ultimately show ?thesis
        using stranded_leaves [OF assms(1), of ?r] stranded_leaves [OF assms(1), of "persist ?r"] c l4(2) approved(7)
        by (auto simp: ReviewOp settled_def store_of_kept lifecycle)
    qed
  next
    case (StartOp j)
    show ?thesis
    proof (cases "j = i")
      case True
      then show ?thesis using start_stranded [OF m(1,2), of env] assms(1) by (simp add: StartOp)
    next
      case False
      show ?thesis
        using stranded_leaves [OF assms(1) start_mission_leaves [OF False, of e env]] start_mission_kept [of e env j]
        by (auto simp: StartOp settled_def)
    qed
  next
    case (ResumeOp j k)
    show ?thesis
    proof (cases "(j, k) \<in> set (le_waiting e)")
      case True
      then have "j \<in> set (run_names e)" by (auto simp: run_names_def intro: rev_image_eqI)
      then have ji: "j \<noteq> i" using names by auto
      let ?x = "e\<lparr>le_waiting := remove1 (j, k) (le_waiting e)\<rparr>"
      have "leaves i e ?x" by (rule leaves_same) simp_all
      then have "leaves i e (finish_step env j k ?x)" by (rule leaves_trans [OF _ finish_step_leaves [OF ji]])
      then show ?thesis
        using stranded_leaves [OF assms(1)] finish_step_kept [of ?x env j k] True
        by (auto simp: ResumeOp resume_run_def settled_def)
    qed (use assms(1) in \<open>simp add: ResumeOp resume_run_def\<close>)
  next
    case (EndOp j)
    show ?thesis
    proof (cases "j \<in> set (le_ended e)")
      case True
      then have "j \<noteq> i" using names by (auto simp: run_names_def)
      then show ?thesis
        using assms(1) True by (simp add: EndOp end_of_run_def stranded_def find_mission_def)
    qed (use assms(1) in \<open>simp add: EndOp end_of_run_def\<close>)
  next
    case (RestartOp torn)
    then show ?thesis
      using assms(1,3) by (cases "le_disk e")
        (simp add: restart_def new_engine_def read_lifecycle_store_def stranded_def find_mission_def)
  qed
qed

lemma stranded_run:
  "stranded i m e \<Longrightarrow> engine_ok e \<Longrightarrow> RestartOp True \<notin> set ops \<Longrightarrow> stranded i m (fold (engine_step env) ops e)"
proof (induction ops arbitrary: e)
  case (Cons op ops)
  then have "stranded i m (engine_step env op e)" by (intro stranded_step) auto
  then show ?case using Cons engine_step_ok [of e env op] by simp
qed simp

text \<open>
  A restart strands the missions that were running: once a mission is running, in memory and on
  disk, without a run of this process, it stays exactly as it is under every further request, resumption
  and restart. The request to start it answers as if it ran.
\<close>

theorem restart_strands_running_missions:
  assumes "lifecycle_reachable env e" "find_mission (restart False e) i = Some m" "pm_status m = RunRunning"
    and "RestartOp True \<notin> set ops"
  shows "find_mission (run_lifecycle env ops (restart False e)) i = Some m
    \<and> start_mission env i (run_lifecycle env ops (restart False e)) = (run_lifecycle env ops (restart False e), Inr m)"
proof -
  have ok: "engine_ok (restart False e)"
    using engine_step_ok [OF reachable_ok [OF assms(1)], of env "RestartOp False"] by simp
  have "stranded i m (restart False e)"
    using assms(2,3) by (cases "le_disk e")
      (simp add: stranded_def restart_def new_engine_def read_lifecycle_store_def find_mission_def)
  then have "stranded i m (run_lifecycle env ops (restart False e))"
    using ok assms(4) unfolding run_lifecycle_def by (rule stranded_run)
  then show ?thesis using start_stranded by (simp add: stranded_def)
qed

section \<open>Approvals start missions\<close>

text \<open>Ids still to be drawn are not those of missions or runs.\<close>

definition fresh_ids :: "lifecycle_env \<Rightarrow> lifecycle_engine \<Rightarrow> bool" where
  "fresh_ids env e \<longleftrightarrow> (\<forall>n \<ge> le_uuids e. ''mission-'' @ take 8 (en_uuid env n) \<notin> set (map pm_id (le_missions e))
     \<and> ''mission-'' @ take 8 (en_uuid env n) \<notin> set (le_running e))"

lemma find_mission_fresh: "i \<notin> set (map pm_id (le_missions e)) \<Longrightarrow> find_mission e i = None"
  by (auto simp: find_mission_def find_None_iff)

lemma sanitize_id_counts: "n \<le> snd (sanitize_id env x prefix n)"
  by (simp add: sanitize_id_def Let_def)

lemma push_event_uuids: "le_uuids (push_event env ev e) = Suc (le_uuids e)"
  by (simp add: push_event_def draw_uuid_def Let_def)

lemma update_uuids: "le_uuids (update_proposal i f e) = le_uuids e" "le_uuids (snd (read_clock env e)) = le_uuids e"
  by (simp_all add: update_proposal_def read_clock_def)

lemma start_fresh:
  assumes "find_mission e i = Some m" "pm_status m = RunPending" "i \<notin> set (le_running e)"
    "find_proposal e (pm_proposal m) = Some p" "wp_status p = ProposalApproved"
  shows "\<exists>m0. pm_steps m0 = pm_steps m \<and> segment_result i m0 (fst (start_mission env i e)) \<and> isl (snd (start_mission env i e)) = False"
proof -
  define ts where "ts = fst (read_clock env e)"
  define f where "f = (\<lambda>m. m\<lparr>pm_status := RunRunning, pm_started_at := Some (nullish (pm_started_at m) ts), pm_updated_at := ts,
              pm_current := nullish_opt (pm_current m) (first_pending m)\<rparr>)"
  obtain ev where ev: "fst (start_mission env i e)
      = schedule_mission env i (persist (push_event env ev (update_mission i f (snd (read_clock env e)))))"
    "isl (snd (start_mission env i e)) = False"
    using assms by (simp add: start_mission_def Let_def split_beta f_def ts_def)
  define e1 where "e1 = persist (push_event env ev (update_mission i f (snd (read_clock env e))))"
  have pid: "pm_id (f x) = pm_id x" for x by (simp add: f_def)
  have "find_mission (update_mission i f (snd (read_clock env e))) i = Some (f m)"
    using find_mission_update [of f i "snd (read_clock env e)" i, OF pid] assms(1) by (simp add: find_mission_def lifecycle)
  then have e1: "find_mission e1 i = Some (f m)" by (simp add: e1_def find_mission_def lifecycle)
  have run: "le_running e1 = le_running e" by (simp add: e1_def lifecycle)
  let ?x = "e1\<lparr>le_running := le_running e1 @ [i]\<rparr>"
  have "find_mission ?x i = Some (f m)" using e1 by (simp add: find_mission_def)
  then have "segment_result i (f m) (run_segment env i ?x)" by (rule run_segment_result) (simp add: f_def)
  then have "segment_result i (f m) (fst (start_mission env i e))"
    using assms(3) by (simp add: ev(1) schedule_mission_def run flip: e1_def)
  then show ?thesis using ev(2) by (intro exI [of _ "f m"]) (simp add: f_def)
qed

lemma segment_result_cong:
  "le_missions r = le_missions r' \<Longrightarrow> le_waiting r = le_waiting r' \<Longrightarrow> segment_result i m r = segment_result i m r'"
  by (simp add: segment_result_def find_mission_def)

lemma approval_effect:
  assumes "find_proposal e i = Some p" "wp_status p \<in> {ProposalPending, ProposalNeedsChanges}"
    and "rw = \<lparr>rw_action = Some ''approve'', rw_reviewer = reviewer, rw_notes = remarks, rw_patch = None, rw_auto_start = None\<rparr>"
    and "fresh_ids env e"
  shows "\<exists>j m0. pm_steps m0 = plan_of p \<and> segment_result j m0 (fst (review_proposal env i rw e))
    \<and> le_disk (fst (review_proposal env i rw e)) = store_of (fst (review_proposal env i rw e))"
proof -
  obtain reviewer' n where rv: "sanitize_id env reviewer ''human'' (le_uuids e) = (reviewer', n)" by fastforce
  have n: "le_uuids e \<le> n" using sanitize_id_counts [of "le_uuids e" env reviewer "''human''"] by (simp add: rv)
  have act: "parse_action (to_lower (sanitize_text (Some ''approve'') [])) = Some ApproveAction" by code_simp
  let ?e0 = "e\<lparr>le_uuids := n\<rparr>"
  define ts where "ts = fst (read_clock env ?e0)"
  define f where "f = (\<lambda>p :: work_proposal. p\<lparr>wp_status := ProposalApproved, wp_updated_at := ts,
      wp_review := Some \<lparr>rv_action = ApproveAction, rv_reviewer = reviewer', rv_notes = text_or_none remarks, rv_at = ts\<rparr>\<rparr>)"
  define ev where "ev = review_event ts i ApproveAction reviewer' (text_or_none remarks)"
  define e4 where "e4 = push_event env ev (update_proposal i f (snd (read_clock env ?e0)))"
  have r: "review_proposal env i rw e = (case create_lifecycle_mission env i ts True e4 of
                (e5, Inl msg) \<Rightarrow> (e5, Inl msg)
              | (e5, Inr m) \<Rightarrow> (persist e5, Inr (the (find_proposal e5 i), Some m)))"
    using assms(2) act rv by (auto simp: assms(3) review_proposal_def assms(1) Let_def split_beta ts_def f_def ev_def e4_def
        cong: sum.case_cong)
  have pid: "wp_id p = i" using assms(1) by (auto simp: find_proposal_def dest: find_SomeD)
  have p4: "find_proposal e4 i = Some (f p)"
    using assms(1) find_update_id [of wp_id f i i "le_proposals e"]
    by (simp add: e4_def find_proposal_def lifecycle f_def)
  define u where "u = en_uuid env (le_uuids e4)"
  define m where "m = proposal_to_mission u (f p) ts"
  define g where "g = (\<lambda>p :: work_proposal. p\<lparr>wp_mission := Some (pm_id m)\<rparr>)"
  define y where "y = push_event env (mission_event MissionCreated ts m
      [(''title'', TextValue (pm_title m)), (''stepCount'', NumberValue (of_nat (length (pm_steps m))))])
      ((update_proposal i g (snd (draw_uuid env e4)))\<lparr>le_missions := le_missions e4 @ [m]\<rparr>)"
  have c: "create_lifecycle_mission env i ts True e4 = start_mission env (pm_id m) y"
    by (simp add: create_lifecycle_mission_def p4 Let_def draw_uuid_def y_def m_def g_def u_def update_proposal_def)
  have u4: "le_uuids e \<le> le_uuids e4" using n by (simp add: e4_def push_event_uuids update_uuids)
  have fresh: "pm_id m \<notin> set (map pm_id (le_missions e4))" "pm_id m \<notin> set (le_running y)"
    using assms(4) u4 by (simp_all add: fresh_ids_def m_def u_def proposal_to_mission_def e4_def y_def lifecycle)
  have fm: "find_mission y (pm_id m) = Some m"
    using find_mission_fresh [OF fresh(1)] by (simp add: find_mission_def y_def lifecycle find_append_other)
  have fp: "find_proposal y (pm_proposal m) = Some (g (f p))"
    using p4 find_update_id [of wp_id g i i "le_proposals e4"]
    by (simp add: y_def m_def proposal_to_mission_def find_proposal_def lifecycle g_def f_def pid)
  obtain m0 where m0: "pm_steps m0 = pm_steps m" "segment_result (pm_id m) m0 (fst (start_mission env (pm_id m) y))"
    "isl (snd (start_mission env (pm_id m) y)) = False"
    using start_fresh [OF fm _ fresh(2) fp, of env] by (auto simp: m_def g_def f_def proposal_to_mission_def)
  obtain e5 m' where s: "start_mission env (pm_id m) y = (e5, Inr m')"
    using m0(3) by (cases "start_mission env (pm_id m) y"; cases "snd (start_mission env (pm_id m) y)") auto
  have "fst (review_proposal env i rw e) = persist e5" by (simp add: r c s)
  moreover have "segment_result (pm_id m) m0 (persist e5)"
    using m0(2) segment_result_cong [of "persist e5" e5] by (simp add: s lifecycle)
  moreover have "pm_steps m0 = plan_of p" by (simp add: m0(1) m_def proposal_to_mission_def plan_of_def f_def)
  ultimately show ?thesis by (intro exI [of _ "pm_id m"] exI [of _ m0]) (simp add: store_of_kept lifecycle)
qed

text \<open>
  An approval takes effect at once: unless the reviewer asks to wait, approving an open proposal makes a
  mission out of its steps, which then has its first ready step running and waiting for the end of its
  delay, or is blocked because no step is ready.
\<close>

theorem approval_starts_the_mission:
  assumes "find_proposal e i = Some p" "wp_status p \<in> {ProposalPending, ProposalNeedsChanges}"
    and "rw = \<lparr>rw_action = Some ''approve'', rw_reviewer = reviewer, rw_notes = remarks, rw_patch = None, rw_auto_start = None\<rparr>"
    and "fresh_ids env e"
  shows "\<exists>j m0. pm_steps m0 = plan_of p \<and> segment_result j m0 (fst (review_proposal env i rw e))
    \<and> le_disk (fst (review_proposal env i rw e)) = store_of (fst (review_proposal env i rw e))"
  by (rule approval_effect [OF assms])

section \<open>Samples\<close>

text \<open>Ids that differ in their first characters, and a clock that ticks.\<close>

definition sample_env :: lifecycle_env where
  "sample_env = \<lparr>en_uuid = (\<lambda>n. pad_zeros 8 (show_nat n) @ ''-4000-8000''), en_clock = int\<rparr>"

definition step_named :: "string \<Rightarrow> string list \<Rightarrow> step_input" where
  "step_named i ds =
     \<lparr>si_id = Some i, si_title = Some i, si_description = Some ''do it'', si_agent = Some ''zealot'',
      si_depends = Some (map Some ds), si_expected = None, si_fail = None\<rparr>"

definition sample_input :: "step_input list \<Rightarrow> submit_input" where
  "sample_input steps =
     \<lparr>sj_title = Some ''Gate'', sj_goal = Some ''Warp in'', sj_agent = Some ''nexus'', sj_cost = Some 5, sj_skills = None,
      sj_risk = \<lparr>ri_level = None, ri_summary = None, ri_mitigations = None\<rparr>, sj_steps = Some steps\<rparr>"

definition approve_input :: review_input where
  "approve_input = \<lparr>rw_action = Some ''approve'', rw_reviewer = Some ''judge'', rw_notes = None, rw_patch = None,
                    rw_auto_start = None\<rparr>"

definition submitted_engine :: "step_input list \<Rightarrow> lifecycle_engine" where
  "submitted_engine steps = run_lifecycle sample_env [SubmitOp (sample_input steps)] (new_engine None)"

definition approved_engine :: "step_input list \<Rightarrow> lifecycle_engine" where
  "approved_engine steps =
     run_lifecycle sample_env [ReviewOp ''proposal-00000000'' approve_input] (submitted_engine steps)"

definition sample_steps :: "step_input list" where
  "sample_steps = [step_named ''a'' [], step_named ''b'' [], step_named ''c'' [''a'']]"

lemma sample_reachable:
  "lifecycle_reachable sample_env (submitted_engine steps)" "lifecycle_reachable sample_env (approved_engine steps)"
  unfolding submitted_engine_def approved_engine_def
  by (intro run_lifecycle_reachable lifecycle_reachable.fresh)+

lemma approved_engine_eq:
  "approved_engine steps = fst (review_proposal sample_env ''proposal-00000000'' approve_input (submitted_engine steps))"
  by (simp add: approved_engine_def run_lifecycle_def)

lemma submitted_facts:
  assumes "normalize_steps sample_env (Some steps) 1 = (Inr ts, n)"
  shows "\<exists>p. le_proposals (submitted_engine steps) = [p] \<and> wp_id p = ''proposal-00000000'' \<and> wp_title p = ''Gate''
      \<and> wp_status p = ProposalPending \<and> wp_steps p = ts"
    "le_missions (submitted_engine steps) = []" "le_running (submitted_engine steps) = []"
    "le_disk (submitted_engine steps) = store_of (submitted_engine steps)"
    "fresh_ids sample_env (submitted_engine steps)"
proof -
  have c: "sanitize_id sample_env (Some ''nexus'') ''agent'' 0 = (''nexus'', 0)" "sanitize_text (Some ''Gate'') [] = ''Gate''"
    "sanitize_text (Some ''Warp in'') [] = ''Warp in''" "''proposal-'' @ take 8 (en_uuid sample_env 0) = ''proposal-00000000''"
    by code_simp+
  let ?p = "new_proposal (sample_input steps) (en_uuid sample_env 0) ''nexus'' (en_clock sample_env 0) ts"
  obtain ev e where s: "submitted_engine steps = persist (push_event sample_env ev e)" "le_proposals e = [?p]"
    "le_missions e = []" "le_running e = []"
    using assms c(1-3)
    by (simp add: submitted_engine_def run_lifecycle_def submit_proposal_def sample_input_def new_engine_def
        read_lifecycle_store_def Let_def read_clock_def draw_uuid_def)
  have "wp_id ?p = ''proposal-00000000''" using c(4) by (simp add: new_proposal_def)
  then show "\<exists>p. le_proposals (submitted_engine steps) = [p] \<and> wp_id p = ''proposal-00000000'' \<and> wp_title p = ''Gate''
      \<and> wp_status p = ProposalPending \<and> wp_steps p = ts"
    using c(2) by (simp add: s lifecycle) (simp add: new_proposal_def sample_input_def)
  show "le_missions (submitted_engine steps) = []" "le_running (submitted_engine steps) = []"
    "le_disk (submitted_engine steps) = store_of (submitted_engine steps)"
    "fresh_ids sample_env (submitted_engine steps)"
    by (simp_all add: s fresh_ids_def store_of_kept lifecycle)
qed

definition sample_plan :: "step_template list" where
  "sample_plan = (case fst (normalize_steps sample_env (Some sample_steps) 1) of Inr ts \<Rightarrow> ts | Inl m \<Rightarrow> [])"

lemma sample_normalized: "normalize_steps sample_env (Some sample_steps) 1 = (Inr sample_plan, 1)"
  by code_simp

text \<open>The steps of the sample mission when it is made.\<close>

definition plan_steps :: "step_template list \<Rightarrow> lifecycle_step list" where
  "plan_steps ts = map (\<lambda>(k, t). step_of_template k t) (enumerate 0 ts)"

lemma sample_plan_facts:
  "ready_steps (plan_steps sample_plan) = [0]" "backward_plan (plan_steps sample_plan)"
  "length (filter (\<lambda>s. st_status s = RunPending) (plan_steps sample_plan)) = 3"
  by code_simp+

lemma approved_result:
  assumes "normalize_steps sample_env (Some steps) 1 = (Inr ts, n)"
  shows "\<exists>j m0. pm_steps m0 = plan_steps ts \<and> segment_result j m0 (approved_engine steps)
    \<and> le_disk (approved_engine steps) = store_of (approved_engine steps)"
proof -
  note f = submitted_facts [OF assms]
  obtain p where p: "find_proposal (submitted_engine steps) ''proposal-00000000'' = Some p" "wp_status p = ProposalPending"
    "plan_of p = plan_steps ts"
    using f(1) by (auto simp: find_proposal_def plan_of_def plan_steps_def)
  from approval_effect [OF p(1) _ approve_input_def f(5)] show ?thesis
    by (simp add: p(2,3) approved_engine_eq)
qed

lemma sample_waiting:
  "\<exists>j m. (j, 0) \<in> set (le_waiting (approved_engine sample_steps)) \<and> find_mission (approved_engine sample_steps) j = Some m
     \<and> pm_status m = RunRunning \<and> pending_count m = 2 \<and> backward_plan (pm_steps m)
     \<and> find_mission (restart False (approved_engine sample_steps)) j = Some m"
proof -
  let ?pl = "plan_steps sample_plan"
  obtain j m0 where m0: "pm_steps m0 = ?pl" "segment_result j m0 (approved_engine sample_steps)"
      "le_disk (approved_engine sample_steps) = store_of (approved_engine sample_steps)"
    using approved_result [OF sample_normalized] by blast
  have c: "pending_count m0 = 3" using sample_plan_facts(3) by (simp add: pending_count_def m0(1))
  from m0(2) c obtain m k ts where m: "find_mission (approved_engine sample_steps) j = Some m" "k = 0"
      "(j, k) \<in> set (le_waiting (approved_engine sample_steps))" "pm_status m = RunRunning"
      "pm_steps m = ?pl[k := start_step ts (?pl ! k)]" "k \<in> set (ready_steps (pm_steps m0))"
    by (auto simp: segment_result_def m0(1) sample_plan_facts(1))
  have "pending_count m = 2" using start_step_pending [OF m(6), of m ts] m(5) c by (simp add: m0(1))
  moreover have "backward_plan (pm_steps m)"
    using backward_update [of k ?pl "start_step ts (?pl ! k)"] m(6) sample_plan_facts(2)
    by (simp add: m(5) m0(1) in_ready start_step_def)
  moreover have "find_mission (restart False (approved_engine sample_steps)) j = Some m"
    using m(1) by (simp add: restart_def new_engine_def read_lifecycle_store_def m0(3) store_of_def find_mission_def)
  ultimately show ?thesis using m by blast
qed

theorem approval_starts_the_mission_witness:
  "\<exists>j m0. ready_steps (pm_steps m0) = [0] \<and> segment_result j m0 (approved_engine sample_steps)"
proof -
  note f = submitted_facts [OF sample_normalized]
  obtain p where p: "find_proposal (submitted_engine sample_steps) ''proposal-00000000'' = Some p"
    "wp_status p = ProposalPending" "plan_of p = plan_steps sample_plan"
    using f(1) by (auto simp: find_proposal_def plan_of_def plan_steps_def)
  from approval_starts_the_mission [OF p(1) _ approve_input_def f(5)] obtain j m0 where
    "pm_steps m0 = plan_of p" "segment_result j m0 (approved_engine sample_steps)"
    by (auto simp: p(2) approved_engine_eq)
  then show ?thesis using sample_plan_facts(1) p(3) by (intro exI [of _ j] exI [of _ m0]) simp
qed


theorem only_approved_plans_run_witness:
  "list_all (approved_in (le_proposals (approved_engine sample_steps))) (le_missions (approved_engine sample_steps))
   \<and> le_missions (approved_engine sample_steps) \<noteq> []"
proof -
  have "le_missions (approved_engine sample_steps) \<noteq> []"
    using sample_waiting by (auto simp: find_mission_def)
  then show ?thesis using only_approved_plans_run [OF sample_reachable(2), of sample_steps] by simp
qed

theorem accepted_plans_are_well_formed_witness:
  "plan_well_formed (wp_steps (projr (snd (submit_proposal sample_env (sample_input sample_steps) (new_engine None)))))"
proof -
  let ?s = "submit_proposal sample_env (sample_input sample_steps) (new_engine None)"
  have "isl (snd ?s) = False" by code_simp
  then obtain p where p: "snd ?s = Inr p" by (cases "snd ?s") auto
  show ?thesis using accepted_plans_are_well_formed [OF p] by (simp add: p)
qed

theorem every_run_ends_witness:
  "\<exists>j. map_option pm_status (find_mission (drive sample_env j 3 (approved_engine sample_steps)) j) = Some RunCompleted"
proof -
  obtain j m where m: "(j, 0) \<in> set (le_waiting (approved_engine sample_steps))"
    "find_mission (approved_engine sample_steps) j = Some m" "pending_count m = 2" "backward_plan (pm_steps m)"
    using sample_waiting by blast
  from every_run_ends [OF sample_reachable(2) m(1,2)] show ?thesis
    by (intro exI [of _ j]) (simp only: m(3,4) if_True singleton_iff eval_nat_numeral)
qed

theorem restart_strands_running_missions_witness:
  "\<exists>j m. pm_status m = RunRunning
     \<and> find_mission (run_lifecycle sample_env [ResumeOp j 0, StartOp j] (restart False (approved_engine sample_steps))) j
       = Some m"
proof -
  obtain j m where m: "find_mission (restart False (approved_engine sample_steps)) j = Some m" "pm_status m = RunRunning"
    using sample_waiting by blast
  have "RestartOp True \<notin> set [ResumeOp j 0, StartOp j]" by simp
  from restart_strands_running_missions [OF sample_reachable(2) m this] show ?thesis using m(2) by blast
qed

section \<open>Where the lifecycle goes wrong\<close>

definition crossed_steps :: "step_input list" where
  "crossed_steps = [step_named ''deploy'' [''build''], step_named ''build'' []]"

definition crossed_plan :: "step_template list" where
  "crossed_plan = (case fst (normalize_steps sample_env (Some crossed_steps) 1) of Inr ts \<Rightarrow> ts | Inl m \<Rightarrow> [])"

lemma crossed_normalized: "normalize_steps sample_env (Some crossed_steps) 1 = (Inr crossed_plan, 1)"
  by code_simp

lemma crossed_plan_facts:
  "map tp_depends crossed_plan = [[''build''], [''deploy'']]" "ready_steps (plan_steps crossed_plan) = []"
  "length (filter (\<lambda>s. st_status s = RunPending) (plan_steps crossed_plan)) = 2"
  by code_simp+

text \<open>
  The default chain makes deadlocks: in a plan of two steps where the first depends on the second and
  the second on nothing, the second is chained to the first. The approved mission is blocked at once,
  although running the two steps in the other order would satisfy what the proposal asked for.
\<close>

theorem default_chain_deadlocks:
  "map (\<lambda>p. map tp_depends (wp_steps p)) (le_proposals (submitted_engine crossed_steps)) = [[[''build''], [''deploy'']]]
   \<and> (\<exists>j. map_option pm_status (find_mission (approved_engine crossed_steps) j) = Some RunBlocked)"
proof
  show "map (\<lambda>p. map tp_depends (wp_steps p)) (le_proposals (submitted_engine crossed_steps)) = [[[''build''], [''deploy'']]]"
  proof -
    obtain p where "le_proposals (submitted_engine crossed_steps) = [p]" "wp_steps p = crossed_plan"
      using submitted_facts(1) [OF crossed_normalized] by blast
    then show ?thesis by (simp only: list.map crossed_plan_facts(1))
  qed
  show "\<exists>j. map_option pm_status (find_mission (approved_engine crossed_steps) j) = Some RunBlocked"
    using approved_result [OF crossed_normalized] crossed_plan_facts(2,3)
    by (auto simp: segment_result_def pending_count_def)
qed

text \<open>A review whose patch has a plan that is refused: the fields before the plan are changed already.\<close>

lemma refused_patch:
  assumes "find_proposal e i = Some p" "wp_status p \<in> {ProposalPending, ProposalNeedsChanges}"
    and "parse_action (to_lower (sanitize_text (rw_action rw) [])) = Some act" "rw_patch rw = Some pa"
    and "nullish (pa_steps pa) [] \<noteq> []" "sanitize_id env (rw_reviewer rw) ''human'' (le_uuids e) = (reviewer, n)"
    and "normalize_steps env (pa_steps pa) n = (Inl msg, k)"
  shows "review_proposal env i rw e = ((update_proposal i (patch_fields pa) (e\<lparr>le_uuids := n\<rparr>))\<lparr>le_uuids := k\<rparr>, Inl msg)"
  using assms by (auto simp: review_proposal_def apply_patch_def Let_def update_proposal_def)

definition bad_patch :: proposal_patch where
  "bad_patch = \<lparr>pa_title = Some ''Changed'', pa_goal = None, pa_cost = None, pa_skills = None, pa_risk = None,
                pa_steps = Some [(step_named ''a'' [])\<lparr>si_title := None\<rparr>]\<rparr>"

definition bad_review :: review_input where
  "bad_review = approve_input\<lparr>rw_patch := Some bad_patch\<rparr>"

text \<open>
  A refused review is not without effect: with a patch whose plan is refused, the review fails and
  the proposal stays open, but the new title is in memory, and it is not on disk.
\<close>

theorem refused_review_changes_the_proposal:
  "isl (snd (review_proposal sample_env ''proposal-00000000'' bad_review (submitted_engine sample_steps)))
   \<and> map (\<lambda>p. (wp_title p, wp_status p)) (le_proposals
        (fst (review_proposal sample_env ''proposal-00000000'' bad_review (submitted_engine sample_steps))))
      = [(''Changed'', ProposalPending)]
   \<and> map wp_title (fst (le_disk
        (fst (review_proposal sample_env ''proposal-00000000'' bad_review (submitted_engine sample_steps))))) = [''Gate'']"
proof -
  let ?e = "submitted_engine sample_steps" and ?n = "le_uuids (submitted_engine sample_steps)"
  note f = submitted_facts [OF sample_normalized]
  obtain p where p: "le_proposals ?e = [p]" "wp_id p = ''proposal-00000000''" "wp_title p = ''Gate''"
    "wp_status p = ProposalPending" using f(1) by blast
  have fp: "find_proposal ?e ''proposal-00000000'' = Some p" by (simp add: find_proposal_def p)
  have c: "parse_action (to_lower (sanitize_text (rw_action bad_review) [])) = Some ApproveAction"
    "rw_patch bad_review = Some bad_patch" "nullish (pa_steps bad_patch) [] \<noteq> []"
    "clean_id (rw_reviewer bad_review) = ''judge''" "clean_id (si_id (step_named ''a'' [])) = ''a''"
    "clean_id (si_agent (step_named ''a'' [])) = ''zealot''" "sanitize_text (pa_title bad_patch) [] = ''Changed''"
    by code_simp+
  have r: "sanitize_id sample_env (rw_reviewer bad_review) ''human'' ?n = (''judge'', ?n)"
    by (simp add: sanitize_id_def c(4))
  have s: "normalize_steps sample_env (pa_steps bad_patch) ?n = (Inl ''Step 1 is missing title'', ?n)"
  proof -
    have "show_nat (Suc 0) = ''1''"
      by code_simp
    then show ?thesis
      using c(5,6) by (simp add: bad_patch_def normalize_steps_def sanitize_id_def step_named_def sanitize_text_def)
  qed
  note q = refused_patch [OF fp _ c(1-3) r s]
  have pf: "wp_title (patch_fields bad_patch p) = ''Changed''" "wp_status (patch_fields bad_patch p) = ProposalPending"
    using c(7) p(4) by (simp_all add: patch_fields_def bad_patch_def Let_def sanitize_text_def [of None])
  show ?thesis
    using f(4) by (simp add: q p pf lifecycle store_of_def)
qed

end
