(* ===== verification/Json.thy ===== *)
theory Json
  imports Prelude
begin

text \<open>
  The values \<open>JSON.parse\<close> returns, as the validators and sanitizers of the dashboard read them, and
  the retention rule of its log files. A number is a rational; a literal beyond the range of doubles
  (\<open>1e999\<close>) is an infinite number, which \<open>isFinite\<close> rejects. A key of an object that is absent reads
  as \<open>undefined\<close>, here \<^const>\<open>None\<close>.
\<close>

datatype json =
    JNull
  | JBool bool
  | JNum rat
  | JInf bool
  | JStr string
  | JArr "json list"
  | JObj "(string \<times> json) list"

section \<open>The tests of the sources\<close>

text \<open>\<open>x && typeof x === 'object' && !Array.isArray(x)\<close>: the entries of a plain object.\<close>

fun json_object :: "json \<Rightarrow> (string, json) jsmap option" where
  "json_object (JObj fs) = Some fs"
| "json_object _ = None"

fun json_array :: "json \<Rightarrow> json list option" where
  "json_array (JArr xs) = Some xs"
| "json_array _ = None"

fun json_bool :: "json \<Rightarrow> bool option" where
  "json_bool (JBool b) = Some b"
| "json_bool _ = None"

fun json_text :: "json \<Rightarrow> string option" where
  "json_text (JStr s) = Some s"
| "json_text _ = None"

text \<open>\<open>typeof x === 'number' && isFinite(x)\<close>.\<close>

fun json_finite :: "json \<Rightarrow> rat option" where
  "json_finite (JNum q) = Some q"
| "json_finite _ = None"

definition is_number :: "json \<Rightarrow> bool" where
  "is_number j = (case j of JNum q \<Rightarrow> True | JInf b \<Rightarrow> True | _ \<Rightarrow> False)"

text \<open>\<open>a < b\<close> of two numbers; an infinite number carries its sign.\<close>

fun json_less :: "json \<Rightarrow> json \<Rightarrow> bool" where
  "json_less (JNum a) (JNum b) = (a < b)"
| "json_less (JInf pos) (JNum b) = (\<not> pos)"
| "json_less (JNum a) (JInf pos) = pos"
| "json_less (JInf p) (JInf q) = (\<not> p \<and> q)"
| "json_less _ _ = False"

text \<open>Truthiness: everything but \<open>null\<close>, \<open>false\<close>, 0 and the empty string.\<close>

fun json_truthy :: "json \<Rightarrow> bool" where
  "json_truthy JNull = False"
| "json_truthy (JBool b) = b"
| "json_truthy (JNum q) = (q \<noteq> 0)"
| "json_truthy (JStr s) = (s \<noteq> [])"
| "json_truthy _ = True"

text \<open>\<open>obj[key]\<close>, and \<open>obj[key]\<close> read as a value of one type.\<close>

definition json_get :: "(string, json) jsmap \<Rightarrow> string \<Rightarrow> (json \<Rightarrow> 'a option) \<Rightarrow> 'a option" where
  "json_get fs k read = Option.bind (js_get fs k) read"

text \<open>A check of an optional field: \<open>if (x !== undefined && !ok(x)) errors.push(e)\<close>.\<close>

definition field_check :: "(string, json) jsmap \<Rightarrow> string \<Rightarrow> (json \<Rightarrow> bool) \<Rightarrow> 'e \<Rightarrow> 'e list" where
  "field_check fs k ok e = (case js_get fs k of None \<Rightarrow> [] | Some j \<Rightarrow> if ok j then [] else [e])"

lemma field_check_Nil: "field_check fs k ok e = [] \<longleftrightarrow> pred_option ok (js_get fs k)"
  by (auto simp: field_check_def split: option.splits)

definition finite_at_least :: "rat \<Rightarrow> json \<Rightarrow> bool" where
  "finite_at_least low j = (case json_finite j of None \<Rightarrow> False | Some q \<Rightarrow> low \<le> q)"

definition finite_between :: "rat \<Rightarrow> rat \<Rightarrow> json \<Rightarrow> bool" where
  "finite_between low high j = (case json_finite j of None \<Rightarrow> False | Some q \<Rightarrow> low \<le> q \<and> q \<le> high)"

text \<open>A finite number that is at least \<open>low\<close>, or the default.\<close>

definition number_or :: "(string, json) jsmap \<Rightarrow> string \<Rightarrow> rat \<Rightarrow> rat \<Rightarrow> rat" where
  "number_or fs k low d = (case json_get fs k json_finite of None \<Rightarrow> d | Some q \<Rightarrow> if low \<le> q then q else d)"

lemma number_or_bounds: "low \<le> d \<Longrightarrow> low \<le> number_or fs k low d"
  by (auto simp: number_or_def split: option.splits)

lemma json_object_None: "json_object j = None \<longleftrightarrow> (\<nexists>fs. j = JObj fs)"
  by (cases j) auto

lemma json_object_Some [simp]: "json_object j = Some fs \<longleftrightarrow> j = JObj fs"
  by (cases j) auto

lemma json_array_Some [simp]: "json_array j = Some xs \<longleftrightarrow> j = JArr xs"
  by (cases j) auto

lemma json_bool_Some [simp]: "json_bool j = Some b \<longleftrightarrow> j = JBool b"
  by (cases j) auto

lemma json_text_Some [simp]: "json_text j = Some s \<longleftrightarrow> j = JStr s"
  by (cases j) auto

lemma json_finite_Some [simp]: "json_finite j = Some q \<longleftrightarrow> j = JNum q"
  by (cases j) auto

section \<open>Retention\<close>

text \<open>
  The log files of the dashboard keep the events of the last hours, and of these the newest ones up
  to a number: \<open>filter\<close> by age, then \<open>slice(length - max)\<close>.
\<close>

definition retained :: "('e \<Rightarrow> int) \<Rightarrow> int \<Rightarrow> int \<Rightarrow> int \<Rightarrow> 'e list \<Rightarrow> 'e list" where
  "retained stamp max_age max_events now es =
     (let r = filter (\<lambda>e. now - stamp e \<le> max_age) es in
      if int (length r) > max_events then drop (length r - nat max_events) r else r)"

lemma retained_eq: "retained stamp age n now es = last_entries n (filter (\<lambda>e. now - stamp e \<le> age) es)"
  by (auto simp: retained_def last_entries_def Let_def)

text \<open>
  A log that prunes with every append. \<open>kept now es\<close> is what the file holds after the events \<open>es\<close>.
\<close>

locale retention =
  fixes stamp :: "'e \<Rightarrow> int" and prune :: "int \<Rightarrow> 'e list \<Rightarrow> 'e list" and width :: int and cap :: int
  assumes prune_def': "prune now es = retained stamp width cap now es"
    and cap_pos: "0 < cap"
begin

lemma prune_length: "int (length (prune now es)) \<le> cap"
  using cap_pos by (auto simp: prune_def' retained_eq last_entries_def)

lemma set_prune: "set (prune now es) \<subseteq> set es"
  by (auto simp: prune_def' retained_eq last_entries_def dest: in_set_dropD)

lemma prune_recent: "e \<in> set (prune now es) \<Longrightarrow> now - stamp e \<le> width"
  by (auto simp: prune_def' retained_eq last_entries_def dest: in_set_dropD)

lemma prune_sorted: "sorted_wrt R es \<Longrightarrow> sorted_wrt R (prune now es)"
  by (simp add: prune_def' retained_eq last_entries_def sorted_wrt_drop sorted_wrt_filter)

lemma prune_new: "now - stamp e \<le> width \<Longrightarrow> prune now (es @ [e]) \<noteq> [] \<and> last (prune now (es @ [e])) = e"
  using cap_pos by (simp add: prune_def' retained_eq last_entries_def)

text \<open>In an ordered log the entries of a window are the last ones.\<close>

lemma filter_sorted_window:
  assumes "sorted_wrt (\<lambda>a b. stamp a \<le> stamp b) es"
  shows "filter (\<lambda>e. t \<le> stamp e) es = dropWhile (\<lambda>e. stamp e < t) es"
  using assms
proof (induction es)
  case (Cons e es)
  show ?case
  proof (cases "t \<le> stamp e")
    case True
    then have "\<forall>x \<in> set es. t \<le> stamp x" using Cons.prems by auto
    then show ?thesis using True by (simp add: filter_id_conv)
  qed (use Cons in auto)
qed simp

lemma window_drop: "filter (\<lambda>e. now - stamp e \<le> width) es = filter (\<lambda>e. now - width \<le> stamp e) es"
  by (rule filter_cong) auto

text \<open>Pruning twice is pruning once, later: nothing that is pruned could be kept later.\<close>

lemma filter_last:
  assumes s: "sorted_wrt (\<lambda>a b. stamp a \<le> stamp b) es"
  shows "last_entries cap (filter (\<lambda>e. t \<le> stamp e) (last_entries cap es @ [x]))
       = last_entries cap (filter (\<lambda>e. t \<le> stamp e) (es @ [x]))"
proof -
  define k where "k = length es - nat cap"
  let ?P = "\<lambda>e. t \<le> stamp e"
  have le: "last_entries cap es = drop k es" by (simp add: last_entries_def k_def)
  have split: "filter ?P es = filter ?P (take k es) @ filter ?P (drop k es)"
    by (metis append_take_drop_id filter_append)
  show ?thesis
  proof (cases "filter ?P (take k es) = []")
    case True
    then show ?thesis using split by (simp add: le)
  next
    case False
    then obtain a where a: "a \<in> set (take k es)" "t \<le> stamp a" by (auto simp: filter_empty_conv)
    have "\<forall>b \<in> set (drop k es). stamp a \<le> stamp b"
      using s a(1) by (metis append_take_drop_id sorted_wrt_append)
    then have all: "filter ?P (drop k es) = drop k es" using a(2) by (auto simp: filter_id_conv)
    have "k > 0" using a(1) by (cases k) auto
    then have len: "length (drop k es) = nat cap" by (simp add: k_def)
    let ?ys = "filter ?P [x]"
    have "last_entries cap (drop k es @ ?ys) = last_entries cap (filter ?P (take k es) @ drop k es @ ?ys)"
      using len by (simp add: last_entries_def)
    then show ?thesis using split all by (simp add: le)
  qed
qed

lemma prune_again:
  assumes "sorted_wrt (\<lambda>a b. stamp a \<le> stamp b) es" "now \<le> now'"
  shows "prune now' (prune now es @ [e]) = prune now' (es @ [e])"
proof -
  let ?f = "filter (\<lambda>e. now - width \<le> stamp e)" and ?g = "filter (\<lambda>e. now' - width \<le> stamp e)"
  have gf: "?g (?f xs) = ?g xs" for xs using assms(2) by (auto intro: filter_cong simp: filter_filter)
  have "prune now' (prune now es @ [e]) = last_entries cap (?g (last_entries cap (?f es) @ [e]))"
    by (simp only: prune_def' retained_eq window_drop)
  also have "\<dots> = last_entries cap (?g (?f es @ [e]))"
    by (rule filter_last) (use assms(1) in \<open>simp add: sorted_wrt_filter\<close>)
  also have "?g (?f es @ [e]) = ?g (es @ [e])" by (simp only: filter_append gf)
  finally show ?thesis by (simp only: prune_def' retained_eq window_drop)
qed

text \<open>What is pruned is a beginning of the log.\<close>

lemma prune_suffix:
  assumes "sorted_wrt (\<lambda>a b. stamp a \<le> stamp b) es"
  shows "\<exists>k. prune now es = drop k es"
proof -
  have "filter (\<lambda>e. now - stamp e \<le> width) es = dropWhile (\<lambda>e. stamp e < now - width) es"
    unfolding window_drop by (rule filter_sorted_window [OF assms])
  then show ?thesis
    by (simp add: prune_def' retained_eq last_entries_def dropWhile_eq_drop) (metis drop_drop)
qed

text \<open>The file after the events \<open>es\<close>, each appended and pruned at its own time.\<close>

definition kept :: "'e list \<Rightarrow> 'e list" where
  "kept es = (if es = [] then [] else prune (stamp (last es)) es)"

lemma kept_Nil: "kept [] = []"
  by (simp add: kept_def)

lemma kept_snoc:
  assumes "sorted_wrt (\<lambda>a b. stamp a \<le> stamp b) (es @ [e])"
  shows "prune (stamp e) (kept es @ [e]) = kept (es @ [e])"
proof (cases "es = []")
  case False
  then have "stamp (last es) \<le> stamp e" using assms by (auto simp: sorted_wrt_append)
  then show ?thesis using prune_again [of es "stamp (last es)" "stamp e" e] assms False
    by (simp add: kept_def sorted_wrt_append)
qed (simp add: kept_def)

lemma kept_last:
  assumes "0 \<le> width" "es \<noteq> []"
  shows "kept es \<noteq> [] \<and> last (kept es) = last es"
  using prune_new [of "stamp (last es)" "last es" "butlast es"] assms by (simp add: kept_def)

lemma kept_length: "int (length (kept es)) \<le> cap"
  using cap_pos prune_length by (simp add: kept_def)

end

end
