(* ===== verification/Alert_Rules.thy ===== *)
theory Alert_Rules
  imports Json
begin

text \<open>
  \<open>dashboard/server/alert-rules.ts\<close>: the thresholds of the task board's metrics, their configuration
  file, its validation, and the evaluation that gives every rule and the board a severity. The texts
  of validation errors are constructors; metric values and thresholds are rationals.
\<close>

section \<open>Severities\<close>

datatype alert_severity = SevOk | SevWarning | SevCritical

fun severity_priority :: "alert_severity \<Rightarrow> nat" where
  "severity_priority SevOk = 0" | "severity_priority SevWarning = 1" | "severity_priority SevCritical = 2"

fun severity_name :: "alert_severity \<Rightarrow> string" where
  "severity_name SevOk = ''ok''" | "severity_name SevWarning = ''warning''" | "severity_name SevCritical = ''critical''"

definition parse_alert_severity :: "string \<Rightarrow> alert_severity option" where
  "parse_alert_severity s = List.find (\<lambda>v. severity_name v = s) [SevOk, SevWarning, SevCritical]"

text \<open>\<open>typeof x === 'string' && ['ok', 'warning', 'critical'].includes(x)\<close>.\<close>

definition json_severity :: "json \<Rightarrow> alert_severity option" where
  "json_severity j = Option.bind (json_text j) parse_alert_severity"

lemma parse_severity_name [simp]: "parse_alert_severity (severity_name v) = Some v"
  by (cases v) (simp_all add: parse_alert_severity_def)

lemma json_severity_name [simp]: "json_severity (JStr (severity_name v)) = Some v"
  by (simp add: json_severity_def)

instantiation alert_severity :: linorder
begin

definition less_eq_alert_severity :: "alert_severity \<Rightarrow> alert_severity \<Rightarrow> bool" where
  "a \<le> b \<longleftrightarrow> severity_priority a \<le> severity_priority b"

definition less_alert_severity :: "alert_severity \<Rightarrow> alert_severity \<Rightarrow> bool" where
  "a < b \<longleftrightarrow> severity_priority a < severity_priority b"

instance
proof
  fix a b :: alert_severity
  assume "a \<le> b" "b \<le> a"
  then show "a = b" by (cases a; cases b) (simp_all add: less_eq_alert_severity_def)
qed (auto simp: less_eq_alert_severity_def less_alert_severity_def)

end

lemma severity_bounds [simp]: "SevOk \<le> v" "v \<le> SevCritical" "\<not> v < SevOk" "\<not> SevCritical < v"
  by (cases v; simp add: less_eq_alert_severity_def less_alert_severity_def)+

lemma severity_order [simp]: "SevOk < SevWarning" "SevWarning < SevCritical" "SevOk < SevCritical"
  by (simp_all add: less_alert_severity_def)

section \<open>Rules and configuration\<close>

record alert_threshold =
  th_enabled :: bool
  th_warning :: rat
  th_critical :: rat

datatype alert_rule = StuckCount | FailedRate | BacklogSize | AvgRuntime | QueueDepth

record alert_config =
  ac_stuck :: alert_threshold
  ac_failed :: alert_threshold
  ac_backlog :: alert_threshold
  ac_runtime :: alert_threshold
  ac_queue :: alert_threshold

fun rule_threshold :: "alert_config \<Rightarrow> alert_rule \<Rightarrow> alert_threshold" where
  "rule_threshold c StuckCount = ac_stuck c"
| "rule_threshold c FailedRate = ac_failed c"
| "rule_threshold c BacklogSize = ac_backlog c"
| "rule_threshold c AvgRuntime = ac_runtime c"
| "rule_threshold c QueueDepth = ac_queue c"

definition threshold :: "bool \<Rightarrow> rat \<Rightarrow> rat \<Rightarrow> alert_threshold" where
  "threshold on w c = \<lparr>th_enabled = on, th_warning = w, th_critical = c\<rparr>"

definition default_alert_config :: alert_config where
  "default_alert_config =
     \<lparr>ac_stuck = threshold True 2 5, ac_failed = threshold True (15 / 100) (30 / 100),
      ac_backlog = threshold True 20 50, ac_runtime = threshold False 300000 600000,
      ac_queue = threshold False 10 25\<rparr>"

definition rule_order :: "alert_rule list" where
  "rule_order = [StuckCount, FailedRate, BacklogSize, AvgRuntime, QueueDepth]"

fun rule_key :: "alert_rule \<Rightarrow> string" where
  "rule_key StuckCount = ''stuckCount''" | "rule_key FailedRate = ''failedRate''"
| "rule_key BacklogSize = ''backlogSize''" | "rule_key AvgRuntime = ''avgRuntime''"
| "rule_key QueueDepth = ''queueDepth''"

fun rule_label :: "alert_rule \<Rightarrow> string" where
  "rule_label StuckCount = ''Stuck Tasks''" | "rule_label FailedRate = ''Failed Rate''"
| "rule_label BacklogSize = ''Backlog Size''" | "rule_label AvgRuntime = ''Avg Runtime''"
| "rule_label QueueDepth = ''Queue Depth''"

text \<open>One rule of a partial configuration over its default.\<close>

definition merge_rule :: "alert_threshold \<Rightarrow> json option \<Rightarrow> alert_threshold" where
  "merge_rule d v =
     (case Option.bind v json_object of
        None \<Rightarrow> d
      | Some src \<Rightarrow>
          threshold (nullish (json_get src ''enabled'' json_bool) (th_enabled d))
            (number_or src ''warning'' 0 (th_warning d)) (number_or src ''critical'' 0 (th_critical d)))"

definition json_fields :: "json \<Rightarrow> (string, json) jsmap" where
  "json_fields j = nullish (json_object j) []"

definition merge_with_defaults :: "json \<Rightarrow> alert_config" where
  "merge_with_defaults p =
     (let m = (\<lambda>r. merge_rule (rule_threshold default_alert_config r) (js_get (json_fields p) (rule_key r))) in
      \<lparr>ac_stuck = m StuckCount, ac_failed = m FailedRate, ac_backlog = m BacklogSize,
       ac_runtime = m AvgRuntime, ac_queue = m QueueDepth\<rparr>)"

text \<open>The file is absent or unreadable (\<^const>\<open>None\<close>), or holds a JSON value.\<close>

definition read_alert_config :: "json option \<Rightarrow> alert_config" where
  "read_alert_config file = (case file of None \<Rightarrow> default_alert_config | Some j \<Rightarrow> merge_with_defaults j)"

definition threshold_json :: "alert_threshold \<Rightarrow> json" where
  "threshold_json t =
     JObj [(''enabled'', JBool (th_enabled t)), (''warning'', JNum (th_warning t)), (''critical'', JNum (th_critical t))]"

definition write_alert_config :: "alert_config \<Rightarrow> json" where
  "write_alert_config c = JObj (map (\<lambda>r. (rule_key r, threshold_json (rule_threshold c r))) rule_order)"

section \<open>Validation\<close>

datatype alert_problem =
    ConfigNotObject
  | UnknownRuleKey
  | RuleNotObject
  | EnabledNotBoolean
  | WarningNotNumber
  | CriticalNotNumber
  | CriticalBelowWarning

definition critical_below_warning :: "(string, json) jsmap \<Rightarrow> bool" where
  "critical_below_warning rule =
     (case (js_get rule ''warning'', js_get rule ''critical'') of
        (Some w, Some c) \<Rightarrow> is_number w \<and> is_number c \<and> json_less c w
      | _ \<Rightarrow> False)"

definition rule_problems :: "string \<Rightarrow> (string, json) jsmap \<Rightarrow> (string \<times> alert_problem) list" where
  "rule_problems k rule =
     field_check rule ''enabled'' (\<lambda>j. json_bool j \<noteq> None) (k @ ''.enabled'', EnabledNotBoolean)
     @ field_check rule ''warning'' (finite_at_least 0) (k @ ''.warning'', WarningNotNumber)
     @ field_check rule ''critical'' (finite_at_least 0) (k @ ''.critical'', CriticalNotNumber)
     @ (if critical_below_warning rule then [(k, CriticalBelowWarning)] else [])"

definition key_problems :: "(string, json) jsmap \<Rightarrow> string \<Rightarrow> (string \<times> alert_problem) list" where
  "key_problems obj k =
     (if k \<notin> set (map rule_key rule_order) then [(k, UnknownRuleKey)]
      else
        (case Option.bind (js_get obj k) json_object of
           None \<Rightarrow> [(k, RuleNotObject)]
         | Some rule \<Rightarrow> rule_problems k rule))"

definition validate_alert_config :: "json \<Rightarrow> (string \<times> alert_problem) list" where
  "validate_alert_config input =
     (case json_object input of
        None \<Rightarrow> [(''root'', ConfigNotObject)]
      | Some obj \<Rightarrow> concat (map (key_problems obj) (js_keys obj)))"

section \<open>Evaluation\<close>

definition evaluate_upper_bound :: "rat option \<Rightarrow> alert_threshold \<Rightarrow> alert_severity" where
  "evaluate_upper_bound value t =
     (case value of
        None \<Rightarrow> SevOk
      | Some v \<Rightarrow>
          if \<not> th_enabled t then SevOk
          else if th_critical t \<le> v then SevCritical
          else if th_warning t \<le> v then SevWarning
          else SevOk)"

definition max_severity :: "alert_severity list \<Rightarrow> alert_severity" where
  "max_severity vs = (if SevCritical \<in> set vs then SevCritical else if SevWarning \<in> set vs then SevWarning else SevOk)"

definition in_minutes :: "nat \<Rightarrow> rat \<Rightarrow> string" where
  "in_minutes d v = (if 60000 \<le> v then to_fixed d (v / 60000) @ ''m'' else to_fixed d (v / 1000) @ ''s'')"

fun format_value :: "alert_rule \<Rightarrow> rat option \<Rightarrow> string" where
  "format_value r None = ''N/A''"
| "format_value FailedRate (Some v) = to_fixed 1 (v * 100) @ ''%''"
| "format_value AvgRuntime (Some v) = in_minutes 1 v"
| "format_value r (Some v) = show_int (round_half_up v)"

fun format_threshold :: "alert_rule \<Rightarrow> rat \<Rightarrow> string" where
  "format_threshold FailedRate v = to_fixed 0 (v * 100) @ ''%''"
| "format_threshold AvgRuntime v = in_minutes 0 v"
| "format_threshold r v = show_int (round_half_up v)"

definition alert_message :: "alert_rule \<Rightarrow> alert_severity \<Rightarrow> rat option \<Rightarrow> alert_threshold \<Rightarrow> string" where
  "alert_message r v x t =
     rule_label r @ '': '' @ format_value r x @
     (case v of
        SevOk \<Rightarrow> '' (OK)''
      | SevWarning \<Rightarrow> '' exceeds warning threshold of '' @ format_threshold r (th_warning t)
      | SevCritical \<Rightarrow> '' exceeds critical threshold of '' @ format_threshold r (th_critical t))"

record alert_result =
  ar_rule :: alert_rule
  ar_label :: string
  ar_enabled :: bool
  ar_severity :: alert_severity
  ar_value :: "rat option"
  ar_warning :: rat
  ar_critical :: rat
  ar_text :: string

record alert_metrics =
  am_counts :: "(string, int) jsmap"
  am_success :: "rat option"
  am_stuck :: int
  am_runtime :: "rat option"
  am_total :: int

record alert_evaluation =
  ev_at :: int
  ev_overall :: alert_severity
  ev_counts :: "alert_severity \<Rightarrow> nat"
  ev_rules :: "alert_result list"

fun metric_value :: "alert_metrics \<Rightarrow> alert_rule \<Rightarrow> rat option" where
  "metric_value m StuckCount = Some (of_int (am_stuck m))"
| "metric_value m FailedRate = map_option (\<lambda>s. 1 - s) (am_success m)"
| "metric_value m BacklogSize = Some (of_int (nullish (js_get (am_counts m) ''backlog'') 0))"
| "metric_value m AvgRuntime = am_runtime m"
| "metric_value m QueueDepth = Some (of_int (nullish (js_get (am_counts m) ''queued'') 0))"

definition rule_result :: "alert_metrics \<Rightarrow> alert_config \<Rightarrow> alert_rule \<Rightarrow> alert_result" where
  "rule_result m c r =
     (let t = rule_threshold c r; x = metric_value m r; v = evaluate_upper_bound x t in
      \<lparr>ar_rule = r, ar_label = rule_label r, ar_enabled = th_enabled t, ar_severity = v, ar_value = x,
       ar_warning = th_warning t, ar_critical = th_critical t, ar_text = alert_message r v x t\<rparr>)"

definition evaluate_alerts :: "alert_metrics \<Rightarrow> alert_config \<Rightarrow> int \<Rightarrow> alert_evaluation" where
  "evaluate_alerts m c now =
     (let results = map (rule_result m c) rule_order; on = map ar_severity (filter ar_enabled results) in
      \<lparr>ev_at = now, ev_overall = max_severity on, ev_counts = (\<lambda>v. length (filter (\<lambda>x. x = v) on)),
       ev_rules = results\<rparr>)"

section \<open>What the rules promise\<close>

lemma max_severity_upper: "v \<in> set vs \<Longrightarrow> v \<le> max_severity vs"
  by (cases v) (auto simp: max_severity_def less_eq_alert_severity_def)

lemma max_severity_in: "max_severity vs \<in> insert SevOk (set vs)"
  by (simp add: max_severity_def)

lemma severity_counts_sum:
  "length (filter (\<lambda>x. x = SevOk) vs) + length (filter (\<lambda>x. x = SevWarning) vs) + length (filter (\<lambda>x. x = SevCritical) vs)
   = length vs"
proof (induction vs)
  case (Cons v vs)
  then show ?case by (cases v) simp_all
qed simp

lemma upper_bound_mono:
  assumes "x \<le> y" "th_warning t \<le> th_critical t"
  shows "evaluate_upper_bound (Some x) t \<le> evaluate_upper_bound (Some y) t"
  using assms by (auto simp: evaluate_upper_bound_def less_eq_alert_severity_def)

text \<open>
  C25: The evaluation reports the worst enabled rule: no enabled rule is worse than the overall severity,
  and one has it unless it is ok. A rule is critical exactly when it is enabled and its metric is known
  and has reached the critical threshold, and every enabled rule is counted once.
\<close>

theorem overall_is_the_worst_rule:
  "ev_overall (evaluate_alerts m c now) = Max (insert SevOk (set (map (\<lambda>r. evaluate_upper_bound (metric_value m r) (rule_threshold c r)) rule_order)))
   \<and> (ev_overall (evaluate_alerts m c now) = SevCritical
      \<longleftrightarrow> (\<exists>r v. th_enabled (rule_threshold c r) \<and> metric_value m r = Some v \<and> th_critical (rule_threshold c r) \<le> v))
   \<and> ev_counts (evaluate_alerts m c now) SevOk + ev_counts (evaluate_alerts m c now) SevWarning
      + ev_counts (evaluate_alerts m c now) SevCritical
     = length (filter (\<lambda>r. th_enabled (rule_threshold c r)) rule_order)"
proof -
  let ?sev = "\<lambda>r. evaluate_upper_bound (metric_value m r) (rule_threshold c r)"
  define on where "on = map ar_severity (filter ar_enabled (map (rule_result m c) rule_order))"
  have on: "on = map ?sev (filter (\<lambda>r. th_enabled (rule_threshold c r)) rule_order)"
    by (simp add: on_def rule_result_def filter_map o_def Let_def)
  have o: "ev_overall (evaluate_alerts m c now) = max_severity on"
    by (simp add: evaluate_alerts_def on_def Let_def)
  have off: "\<not> th_enabled (rule_threshold c r) \<Longrightarrow> ?sev r = SevOk" for r
    by (simp add: evaluate_upper_bound_def split: option.splits)
  have all: "r \<in> set rule_order" for r by (cases r) (simp_all add: rule_order_def)
  have same: "insert SevOk (set on) = insert SevOk (set (map ?sev rule_order))"
    using off by (fastforce simp: on)
  have crit: "?sev r = SevCritical \<longleftrightarrow> (th_enabled (rule_threshold c r)
      \<and> (\<exists>v. metric_value m r = Some v \<and> th_critical (rule_threshold c r) \<le> v))" for r
    by (auto simp: evaluate_upper_bound_def split: option.splits)
  have "ev_overall (evaluate_alerts m c now) = Max (insert SevOk (set (map ?sev rule_order)))"
    unfolding o same [symmetric]
    by (rule Max_eqI [symmetric]) (use max_severity_in max_severity_upper in auto)
  moreover have "ev_overall (evaluate_alerts m c now) = SevCritical
      \<longleftrightarrow> (\<exists>r v. th_enabled (rule_threshold c r) \<and> metric_value m r = Some v \<and> th_critical (rule_threshold c r) \<le> v)"
  proof -
    have "max_severity on = SevCritical \<longleftrightarrow> SevCritical \<in> set on" by (simp add: max_severity_def)
    also have "\<dots> \<longleftrightarrow> (\<exists>r. th_enabled (rule_threshold c r) \<and> ?sev r = SevCritical)"
      by (auto simp: on image_iff intro: all)
    finally show ?thesis using crit by (auto simp: o)
  qed
  moreover have "ev_counts (evaluate_alerts m c now) SevOk + ev_counts (evaluate_alerts m c now) SevWarning
      + ev_counts (evaluate_alerts m c now) SevCritical = length on"
    using severity_counts_sum [of on] by (simp add: evaluate_alerts_def on_def Let_def)
  ultimately show ?thesis by (simp add: on)
qed

definition thresholds_ok :: "alert_config \<Rightarrow> bool" where
  "thresholds_ok c \<longleftrightarrow> list_all (\<lambda>r. 0 \<le> th_warning (rule_threshold c r) \<and> 0 \<le> th_critical (rule_threshold c r)) rule_order"

lemma merge_rule_json: "0 \<le> th_warning t \<Longrightarrow> 0 \<le> th_critical t \<Longrightarrow> merge_rule d (Some (threshold_json t)) = t"
  by (cases t) (simp add: merge_rule_def threshold_json_def threshold_def json_get_def number_or_def)

lemma merge_rule_ok:
  "0 \<le> th_warning d \<Longrightarrow> 0 \<le> th_critical d \<Longrightarrow> 0 \<le> th_warning (merge_rule d v) \<and> 0 \<le> th_critical (merge_rule d v)"
  by (auto simp: merge_rule_def threshold_def number_or_bounds split: option.splits)

lemma default_thresholds: "thresholds_ok default_alert_config"
  by (simp add: thresholds_ok_def rule_order_def default_alert_config_def threshold_def)

lemma config_eqI: "(\<And>r. rule_threshold c r = rule_threshold d r) \<Longrightarrow> c = (d :: alert_config)"
proof -
  assume e: "\<And>r. rule_threshold c r = rule_threshold d r"
  show ?thesis using e [of StuckCount] e [of FailedRate] e [of BacklogSize] e [of AvgRuntime] e [of QueueDepth] by simp
qed

lemma rule_threshold_merge:
  "rule_threshold (merge_with_defaults p) r
   = merge_rule (rule_threshold default_alert_config r) (js_get (json_fields p) (rule_key r))"
  by (cases r) (simp_all add: merge_with_defaults_def Let_def)

lemma rule_key_inject [simp]: "rule_key r = rule_key r' \<longleftrightarrow> r = r'"
  by (cases r; cases r') simp_all

lemma js_get_written: "js_get (json_fields (write_alert_config c)) (rule_key r) = Some (threshold_json (rule_threshold c r))"
  by (cases r) (simp_all add: write_alert_config_def json_fields_def rule_order_def)

lemma thresholds_okD: "thresholds_ok c \<Longrightarrow> 0 \<le> th_warning (rule_threshold c r) \<and> 0 \<le> th_critical (rule_threshold c r)"
  by (cases r) (simp_all add: thresholds_ok_def rule_order_def)

text \<open>
  A configuration with thresholds that are not negative survives the file: what \<open>writeAlertConfig\<close>
  writes, \<open>readAlertConfig\<close> reads, and whatever the file holds, the thresholds read are not negative.
\<close>

theorem alert_config_round_trip:
  "(thresholds_ok c \<longleftrightarrow> read_alert_config (Some (write_alert_config c)) = c) \<and> thresholds_ok (read_alert_config file)"
proof -
  have ok: "thresholds_ok (merge_with_defaults p)" for p
    using merge_rule_ok thresholds_okD [OF default_thresholds]
    by (simp add: thresholds_ok_def rule_threshold_merge rule_order_def)
  have "thresholds_ok c \<Longrightarrow> merge_with_defaults (write_alert_config c) = c"
    by (rule config_eqI) (simp add: rule_threshold_merge js_get_written merge_rule_json thresholds_okD)
  moreover have "merge_with_defaults (write_alert_config c) = c \<Longrightarrow> thresholds_ok c"
    using ok [of "write_alert_config c"] by simp
  ultimately have "thresholds_ok c \<longleftrightarrow> read_alert_config (Some (write_alert_config c)) = c"
    unfolding read_alert_config_def by (simp only: option.case) blast
  moreover have "thresholds_ok (read_alert_config file)"
    using ok default_thresholds by (simp add: read_alert_config_def split: option.split)
  ultimately show ?thesis ..
qed

lemma inverted_never_warns:
  "th_critical t \<le> th_warning t \<Longrightarrow> evaluate_upper_bound x t \<noteq> SevWarning"
  by (auto simp: evaluate_upper_bound_def split: option.splits)

text \<open>
  Where the critical threshold is not below the warning threshold, a larger metric is never less
  severe. The validator checks this for the values of one request only: a request that sets one of the
  two thresholds passes, and the other one is the default. Then no metric is ever a warning.
\<close>

theorem partial_update_inverts_thresholds:
  "validate_alert_config (JObj [(''stuckCount'', JObj [(''warning'', JNum 10)])]) = []
   \<and> th_warning (ac_stuck (merge_with_defaults (JObj [(''stuckCount'', JObj [(''warning'', JNum 10)])]))) = 10
   \<and> th_critical (ac_stuck (merge_with_defaults (JObj [(''stuckCount'', JObj [(''warning'', JNum 10)])]))) = 5
   \<and> (\<forall>x. evaluate_upper_bound x (ac_stuck (merge_with_defaults (JObj [(''stuckCount'', JObj [(''warning'', JNum 10)])]))) \<noteq> SevWarning)"
proof -
  let ?p = "JObj [(''stuckCount'', JObj [(''warning'', JNum 10)])]"
  have t: "ac_stuck (merge_with_defaults ?p) = threshold True 10 5"
    using rule_threshold_merge [of ?p StuckCount]
    by (simp add: json_fields_def merge_rule_def json_get_def number_or_def default_alert_config_def threshold_def)
  have "validate_alert_config ?p = []" by code_simp
  then show ?thesis using inverted_never_warns [of "threshold True 10 5"] by (simp add: t threshold_def)
qed

end
