(* ===== verification/Alert_Logs.thy ===== *)
theory Alert_Logs
  imports Alert_Rules
begin

text \<open>
  The log files of the alerting: \<open>dashboard/server/alert-history.ts\<close>,
  \<open>dashboard/server/webhook-delivery-history.ts\<close> and \<open>dashboard/server/escalation-history.ts\<close>. Each
  is a file that is read, extended, pruned to the last 48 hours and 200 events, and renamed into
  place. A missing or unreadable file is \<^const>\<open>None\<close>.
\<close>

definition day_2_ms :: int where
  "day_2_ms = 48 * 60 * 60 * 1000"

section \<open>Text that is shortened\<close>

definition truncate_error :: "string option \<Rightarrow> string option" where
  "truncate_error e =
     (case e of
        None \<Rightarrow> None
      | Some s \<Rightarrow> if s = [] then None else if length s \<le> 200 then Some s else Some (take 197 s @ ''...''))"

lemma truncate_error_bound: "pred_option (\<lambda>s. length s \<le> 200) (truncate_error e)"
  by (auto simp: truncate_error_def split: option.splits)

section \<open>Alert history\<close>

record alert_event =
  ah_ts :: int
  ah_overall :: alert_severity
  ah_counts :: "alert_severity \<Rightarrow> nat"
  ah_rules :: "(string, alert_severity) jsmap"
  ah_messages :: "string list"

definition create_alert_event :: "alert_evaluation \<Rightarrow> alert_event" where
  "create_alert_event e =
     (let on = filter ar_enabled (ev_rules e) in
      \<lparr>ah_ts = ev_at e, ah_overall = ev_overall e, ah_counts = ev_counts e,
       ah_rules = fold (\<lambda>r m. js_set (rule_key (ar_rule r)) (ar_severity r) m) on [],
       ah_messages = map ar_text (filter (\<lambda>r. ar_severity r \<noteq> SevOk) on)\<rparr>)"

definition is_state_change :: "alert_event \<Rightarrow> alert_event option \<Rightarrow> bool" where
  "is_state_change n before =
     (case before of
        None \<Rightarrow> True
      | Some l \<Rightarrow>
          ah_overall n \<noteq> ah_overall l
          \<or> list_ex (\<lambda>k. js_get (ah_rules n) k \<noteq> js_get (ah_rules l) k) (js_keys (ah_rules n) @ js_keys (ah_rules l)))"

definition prune_alert_history :: "int option \<Rightarrow> int option \<Rightarrow> int \<Rightarrow> alert_event list \<Rightarrow> alert_event list" where
  "prune_alert_history max_events max_age now es = retained ah_ts (nullish max_age day_2_ms) (nullish max_events 200) now es"

definition should_record_event :: "alert_event list \<Rightarrow> int option \<Rightarrow> int \<Rightarrow> bool" where
  "should_record_event es interval now = (es = [] \<or> nullish interval 60000 \<le> now - ah_ts (last es))"

type_synonym alert_history = "alert_event list option"

definition read_alert_history :: "alert_history \<Rightarrow> alert_event list" where
  "read_alert_history file = nullish file []"

definition last_event :: "alert_event list \<Rightarrow> alert_event option" where
  "last_event es = (if es = [] then None else Some (last es))"

definition maybe_append_alert_event :: "alert_evaluation \<Rightarrow> alert_history \<Rightarrow> alert_history \<times> bool" where
  "maybe_append_alert_event e file =
     (let es = read_alert_history file; n = create_alert_event e; now = ev_at e in
      if \<not> is_state_change n (last_event es) \<and> \<not> should_record_event es (Some 60000) now then (file, False)
      else (Some (prune_alert_history (Some 200) (Some day_2_ms) now (es @ [n])), True))"

section \<open>The timeline\<close>

record alert_query =
  aq_limit :: "int option"
  aq_since :: "int option"
  aq_min :: "alert_severity option"

definition since_filter :: "('e \<Rightarrow> int) \<Rightarrow> int option \<Rightarrow> int \<Rightarrow> 'e list \<Rightarrow> 'e list" where
  "since_filter stamp since now es =
     (case since of None \<Rightarrow> es | Some w \<Rightarrow> if 0 < w then filter (\<lambda>e. now - w \<le> stamp e) es else es)"

definition query_limit :: "int option \<Rightarrow> int" where
  "query_limit x = max 1 (min (nullish x 50) 200)"

definition limited :: "int \<Rightarrow> 'e list \<Rightarrow> 'e list" where
  "limited n es = (if n < int (length es) then drop (length es - nat n) es else es)"

record alert_timeline =
  tl_total :: nat
  tl_returned :: nat
  tl_current :: alert_severity
  tl_transition_at :: "int option"
  tl_durations :: "alert_severity \<Rightarrow> int"
  tl_transitions :: nat
  tl_events :: "alert_event list"

text \<open>The transitions between neighbours, with the time of the last one.\<close>

fun transitions :: "alert_event list \<Rightarrow> nat \<times> int option \<Rightarrow> nat \<times> int option" where
  "transitions (a # b # es) (n, t) =
     transitions (b # es) (if ah_overall b \<noteq> ah_overall a then (n + 1, Some (ah_ts b)) else (n, t))"
| "transitions es nt = nt"

fun time_in :: "int \<Rightarrow> alert_event list \<Rightarrow> (alert_severity \<Rightarrow> int) \<Rightarrow> alert_severity \<Rightarrow> int" where
  "time_in now [] d = d"
| "time_in now (a # es) d =
     (let until = (case es of [] \<Rightarrow> now | b # _ \<Rightarrow> ah_ts b) in
      time_in now es (d(ah_overall a := d (ah_overall a) + (until - ah_ts a))))"

definition query_alert_timeline :: "alert_query \<Rightarrow> int \<Rightarrow> alert_history \<Rightarrow> alert_timeline" where
  "query_alert_timeline q now file =
     (let es1 = since_filter ah_ts (aq_since q) now (read_alert_history file);
          es2 = (case aq_min q of
                   None \<Rightarrow> es1
                 | Some v \<Rightarrow> if v = SevOk then es1
                            else filter (\<lambda>e. severity_priority v \<le> severity_priority (ah_overall e)) es1);
          es = limited (query_limit (aq_limit q)) es2;
          (n, t) = transitions es (0, None)
      in \<lparr>tl_total = length es2, tl_returned = length es,
          tl_current = (if es = [] then SevOk else ah_overall (last es)),
          tl_transition_at = (if length es = 1 \<and> t = None then Some (ah_ts (hd es)) else t),
          tl_durations = time_in now es (\<lambda>_. 0), tl_transitions = n, tl_events = es\<rparr>)"

section \<open>Delivery history\<close>

record attempt_detail =
  ad_attempt :: nat
  ad_ts :: int
  ad_status :: "int option"
  ad_error :: "string option"
  ad_duration :: int
  ad_next_delay :: "int option"

record delivery_result =
  dr_target :: string
  dr_name :: string
  dr_success :: bool
  dr_status :: "int option"
  dr_attempts :: nat
  dr_error :: "string option"
  dr_duration :: int
  dr_details :: "attempt_detail list"

record delivery_context =
  dc_url :: string
  dc_trigger :: string
  dc_previous :: "string option"
  dc_ts :: "int option"

record delivery_event =
  dv_id :: int
  dv_ts :: int
  dv_target :: string
  dv_name :: string
  dv_success :: bool
  dv_status :: "int option"
  dv_attempts :: nat
  dv_duration :: int
  dv_error :: "string option"
  dv_masked_url :: string
  dv_trigger :: string
  dv_previous :: "string option"
  dv_details :: "attempt_detail list option"

text \<open>The events and the counter of a file; a file without a counter continues after its length.\<close>

type_synonym 'e counted_file = "('e list \<times> int option) option"

definition read_counted :: "'e counted_file \<Rightarrow> 'e list \<times> int" where
  "read_counted file = (case file of None \<Rightarrow> ([], 1) | Some (es, n) \<Rightarrow> (es, nullish n (int (length es) + 1)))"

definition read_delivery_history :: "delivery_event counted_file \<Rightarrow> delivery_event list \<times> int" where
  "read_delivery_history file = read_counted file"

definition prune_delivery_events :: "int option \<Rightarrow> int option \<Rightarrow> int \<Rightarrow> delivery_event list \<Rightarrow> delivery_event list" where
  "prune_delivery_events max_events max_age now es =
     retained dv_ts (nullish max_age day_2_ms) (nullish max_events 200) now es"

text \<open>\<open>hide\<close> is \<open>maskUrl\<close>, which uses the URL parser of the platform.\<close>

definition create_delivery_event ::
  "(string \<Rightarrow> string) \<Rightarrow> int \<Rightarrow> delivery_result \<Rightarrow> delivery_context \<Rightarrow> int \<Rightarrow> delivery_event" where
  "create_delivery_event hide clock r c i =
     \<lparr>dv_id = i, dv_ts = nullish (dc_ts c) clock, dv_target = dr_target r, dv_name = dr_name r,
      dv_success = dr_success r, dv_status = dr_status r, dv_attempts = dr_attempts r, dv_duration = dr_duration r,
      dv_error = truncate_error (dr_error r), dv_masked_url = hide (dc_url c), dv_trigger = dc_trigger c,
      dv_previous = dc_previous c,
      dv_details = (if dr_details r = [] then None
                    else Some (map (\<lambda>d. d\<lparr>ad_error := truncate_error (ad_error d)\<rparr>) (dr_details r)))\<rparr>"

fun create_delivery_events ::
  "(string \<Rightarrow> string) \<Rightarrow> int \<Rightarrow> (delivery_result \<times> delivery_context) list \<Rightarrow> int \<Rightarrow> delivery_event list" where
  "create_delivery_events hide clock [] i = []"
| "create_delivery_events hide clock ((r, c) # rcs) i =
     create_delivery_event hide clock r c i # create_delivery_events hide clock rcs (i + 1)"

text \<open>The callers give every result its own context.\<close>

definition append_delivery_events ::
  "(string \<Rightarrow> string) \<Rightarrow> int \<Rightarrow> (delivery_result \<times> delivery_context) list
   \<Rightarrow> delivery_event counted_file \<Rightarrow> delivery_event counted_file \<times> nat" where
  "append_delivery_events hide clock rcs file =
     (if rcs = [] then (file, 0)
      else
        (let (es, i) = read_delivery_history file;
             es' = es @ create_delivery_events hide clock rcs i
         in (Some (prune_delivery_events (Some 200) (Some day_2_ms) clock es', Some (i + int (length rcs))), length rcs)))"

record delivery_query =
  dq_limit :: "int option"
  dq_since :: "int option"
  dq_target :: "string option"
  dq_status :: "bool option"

record delivery_summary =
  ds_total :: nat
  ds_succeeded :: nat
  ds_failed :: int
  ds_avg_duration :: "int option"
  ds_targets :: "string list"

definition target_filter :: "string option \<Rightarrow> delivery_event list \<Rightarrow> delivery_event list" where
  "target_filter t es = (if truthy_str t then filter (\<lambda>e. Some (dv_target e) = t) es else es)"

definition query_delivery_history ::
  "delivery_query \<Rightarrow> int \<Rightarrow> delivery_event counted_file \<Rightarrow> delivery_event list \<times> delivery_summary" where
  "query_delivery_history q now file =
     (let es1 = target_filter (dq_target q) (since_filter dv_ts (dq_since q) now (fst (read_delivery_history file)));
          es2 = (case dq_status q of None \<Rightarrow> es1 | Some b \<Rightarrow> filter (\<lambda>e. dv_success e = b) es1);
          es = rev (limited (query_limit (dq_limit q)) es2);
          good = length (filter dv_success es);
          ds = map dv_duration es
      in (es, \<lparr>ds_total = length es, ds_succeeded = good, ds_failed = int (length es) - int good,
               ds_avg_duration = (if ds = [] then None
                                  else Some (round_half_up (of_int (sum_list ds) / of_nat (length ds)))),
               ds_targets = fold (\<lambda>e ts. if dv_target e \<in> set ts then ts else ts @ [dv_target e]) es []\<rparr>))"

section \<open>Retries\<close>

record retry_target =
  rt_target :: string
  rt_name :: string
  rt_deliveries :: nat
  rt_retried :: nat
  rt_attempts :: nat
  rt_avg :: "rat option"
  rt_last :: "int option"

definition new_retry_target :: "delivery_event \<Rightarrow> retry_target" where
  "new_retry_target e =
     \<lparr>rt_target = dv_target e, rt_name = dv_name e, rt_deliveries = 0, rt_retried = 0, rt_attempts = 0,
      rt_avg = None, rt_last = None\<rparr>"

definition later :: "int option \<Rightarrow> int \<Rightarrow> int option" where
  "later before t = (case before of None \<Rightarrow> Some t | Some l \<Rightarrow> if l < t then Some t else Some l)"

definition count_delivery :: "delivery_event \<Rightarrow> (string, retry_target) jsmap \<Rightarrow> (string, retry_target) jsmap" where
  "count_delivery e m =
     (let t = nullish (js_get m (dv_target e)) (new_retry_target e);
          again = 1 < dv_attempts e
      in js_set (dv_target e)
           (t\<lparr>rt_deliveries := rt_deliveries t + 1, rt_attempts := rt_attempts t + dv_attempts e,
              rt_retried := rt_retried t + (if again then 1 else 0),
              rt_last := (if again then later (rt_last t) (dv_ts e) else rt_last t), rt_name := dv_name e\<rparr>) m)"

text \<open>\<open>Math.round(x * 10^d) / 10^d\<close>.\<close>

definition rounded_to :: "nat \<Rightarrow> rat \<Rightarrow> rat" where
  "rounded_to d x = of_int (round_half_up (x * 10 ^ d)) / 10 ^ d"

definition average_attempts :: "retry_target \<Rightarrow> retry_target" where
  "average_attempts t =
     t\<lparr>rt_avg := (if 0 < rt_deliveries t then Some (rounded_to 2 (of_nat (rt_attempts t) / of_nat (rt_deliveries t)))
                  else None)\<rparr>"

record retry_activity =
  ra_events :: "delivery_event list"
  ra_targets :: "retry_target list"
  ra_deliveries :: nat
  ra_retried :: nat
  ra_rate :: "rat option"
  ra_attempts :: nat
  ra_avg :: "rat option"
  ra_success :: nat
  ra_failure :: int

definition query_retry_activity :: "delivery_query \<Rightarrow> int \<Rightarrow> delivery_event counted_file \<Rightarrow> retry_activity" where
  "query_retry_activity q now file =
     (let all = target_filter (dq_target q) (since_filter dv_ts (dq_since q) now (fst (read_delivery_history file)));
          again = filter (\<lambda>e. 1 < dv_attempts e) all;
          attempts = (\<lambda>es. sum_list (map dv_attempts es));
          good = length (filter dv_success again)
      in \<lparr>ra_events = rev (limited (query_limit (dq_limit q)) again),
          ra_targets = sort_desc (\<lambda>t. int (rt_retried t)) (map average_attempts (js_values (fold count_delivery all []))),
          ra_deliveries = length all, ra_retried = length again,
          ra_rate = (if all = [] then None else Some (rounded_to 4 (of_nat (length again) / of_nat (length all)))),
          ra_attempts = attempts all,
          ra_avg = (if again = [] then None else Some (rounded_to 2 (of_nat (attempts again) / of_nat (length again)))),
          ra_success = good, ra_failure = int (length again) - int good\<rparr>)"

section \<open>Escalation history\<close>

datatype escalation_event_type = TierTriggered | TierRenotified | NotificationSent | EscalationReset

fun escalation_type_name :: "escalation_event_type \<Rightarrow> string" where
  "escalation_type_name TierTriggered = ''tier_triggered''"
| "escalation_type_name TierRenotified = ''tier_renotified''"
| "escalation_type_name NotificationSent = ''notification_sent''"
| "escalation_type_name EscalationReset = ''escalation_reset''"

record escalation_outcome =
  eo_target :: string
  eo_name :: string
  eo_success :: bool
  eo_status :: "int option"
  eo_attempts :: nat
  eo_duration :: int
  eo_error :: "string option"

record escalation_event =
  ee_id :: int
  ee_ts :: int
  ee_type :: escalation_event_type
  ee_tier :: "nat option"
  ee_label :: "string option"
  ee_severity :: string
  ee_duration :: int
  ee_reason :: string
  ee_deliveries :: "escalation_outcome list"
  ee_good :: nat
  ee_bad :: int

definition prune_escalation_history :: "int option \<Rightarrow> int option \<Rightarrow> int \<Rightarrow> escalation_event list \<Rightarrow> escalation_event list" where
  "prune_escalation_history max_events max_age now es =
     retained ee_ts (nullish max_age day_2_ms) (nullish max_events 200) now es"

definition read_escalation_history :: "escalation_event counted_file \<Rightarrow> escalation_event list \<times> int" where
  "read_escalation_history file = read_counted file"

text \<open>The callers pass the time; the id of the argument is replaced.\<close>

definition append_escalation_event ::
  "escalation_event \<Rightarrow> escalation_event counted_file \<Rightarrow> escalation_event counted_file \<times> int" where
  "append_escalation_event ev file =
     (let (es, i) = read_escalation_history file;
          ev' = ev\<lparr>ee_id := i, ee_deliveries := map (\<lambda>d. d\<lparr>eo_error := truncate_error (eo_error d)\<rparr>) (ee_deliveries ev)\<rparr>
      in (Some (prune_escalation_history (Some 200) (Some day_2_ms) (ee_ts ev) (es @ [ev']), Some (i + 1)), i))"

definition reset_reason :: string where
  "reset_reason = ''severity dropped below threshold'' @ em_dash @ ''escalation reset''"

definition append_escalation_reset ::
  "string \<Rightarrow> int \<Rightarrow> int \<Rightarrow> escalation_event counted_file \<Rightarrow> escalation_event counted_file \<times> int" where
  "append_escalation_reset sev duration ts file =
     append_escalation_event
       \<lparr>ee_id = 0, ee_ts = ts, ee_type = EscalationReset, ee_tier = None, ee_label = None, ee_severity = sev,
        ee_duration = duration, ee_reason = reset_reason, ee_deliveries = [], ee_good = 0, ee_bad = 0\<rparr> file"

record escalation_query =
  eq_limit :: "int option"
  eq_since :: "int option"
  eq_type :: "escalation_event_type option"
  eq_tier :: "nat option"
  eq_status :: "bool option"

record escalation_summary =
  ey_total :: nat
  ey_returned :: nat
  ey_type_counts :: "escalation_event_type \<Rightarrow> nat"
  ey_sent :: nat
  ey_good :: nat
  ey_bad :: int
  ey_tiers :: "nat list"
  ey_latest :: "int option"
  ey_oldest :: "int option"

definition query_escalation_history ::
  "escalation_query \<Rightarrow> int \<Rightarrow> escalation_event counted_file \<Rightarrow> escalation_event list \<times> escalation_summary" where
  "query_escalation_history q now file =
     (let es1 = since_filter ee_ts (eq_since q) now (fst (read_escalation_history file));
          es2 = (case eq_type q of None \<Rightarrow> es1 | Some t \<Rightarrow> filter (\<lambda>e. ee_type e = t) es1);
          es3 = (case eq_tier q of None \<Rightarrow> es2 | Some i \<Rightarrow> filter (\<lambda>e. ee_tier e = Some i) es2);
          es4 = (case eq_status q of None \<Rightarrow> es3 | Some b \<Rightarrow> filter (\<lambda>e. if b then 0 < ee_good e else 0 < ee_bad e) es3);
          es = rev (limited (query_limit (eq_limit q)) es4)
      in (es,
          \<lparr>ey_total = length es4, ey_returned = length es,
           ey_type_counts = (\<lambda>t. length (filter (\<lambda>e. ee_type e = t) es4)),
           ey_sent = sum_list (map (\<lambda>e. length (ee_deliveries e)) es4),
           ey_good = sum_list (map ee_good es4), ey_bad = sum_list (map ee_bad es4),
           ey_tiers = sort (remdups (List.map_filter ee_tier es4)),
           ey_latest = (if es = [] then None else Some (ee_ts (hd es))),
           ey_oldest = (if es = [] then None else Some (ee_ts (last es)))\<rparr>))"

end
