(* ===== verification/Webhooks.thy ===== *)
theory Webhooks
  imports Alert_Logs
begin

text \<open>
  \<open>dashboard/server/alert-webhook.ts\<close> and \<open>dashboard/server/webhook-formatters.ts\<close>: the webhook
  configuration with its sanitizer and validator, the payloads, the retry loop of a delivery, and the
  choice of the targets of a severity transition. The URL parser, \<open>fetch\<close>, the HMAC and the clock of
  the platform are parameters. A delivery is started by the evaluation and completes later; the state
  between the two is in the theory \<open>Alerting\<close>.
\<close>

section \<open>Configuration\<close>

datatype webhook_provider = Generic | Slack | Discord

fun provider_name :: "webhook_provider \<Rightarrow> string" where
  "provider_name Generic = ''generic''" | "provider_name Slack = ''slack''" | "provider_name Discord = ''discord''"

definition parse_provider :: "string \<Rightarrow> webhook_provider option" where
  "parse_provider s = List.find (\<lambda>p. provider_name p = s) [Generic, Slack, Discord]"

text \<open>\<open>isValidProvider\<close>, with the provider that is meant.\<close>

definition json_provider :: "json \<Rightarrow> webhook_provider option" where
  "json_provider j = Option.bind (json_text j) parse_provider"

record webhook_target =
  wt_id :: string
  wt_name :: string
  wt_url :: string
  wt_enabled :: bool
  wt_secret :: "string option"
  wt_min :: "alert_severity option"
  wt_provider :: "webhook_provider option"

record webhook_config =
  wc_enabled :: bool
  wc_targets :: "webhook_target list"
  wc_cooldown :: "rat option"
  wc_timeout :: "rat option"
  wc_retries :: "rat option"
  wc_escalation :: "json option"

definition default_webhook_config :: webhook_config where
  "default_webhook_config =
     \<lparr>wc_enabled = False, wc_targets = [], wc_cooldown = Some 60000, wc_timeout = Some 10000, wc_retries = Some 3,
      wc_escalation = None\<rparr>"

definition sanitize_target :: "json \<Rightarrow> webhook_target option" where
  "sanitize_target j =
     (case json_object j of
        None \<Rightarrow> None
      | Some t \<Rightarrow>
          (case (json_get t ''id'' json_text, json_get t ''url'' json_text) of
             (Some i, Some u) \<Rightarrow>
               Some \<lparr>wt_id = take 64 i, wt_name = take 100 (nullish (json_get t ''name'' json_text) i),
                     wt_url = take 2048 u, wt_enabled = nullish (json_get t ''enabled'' json_bool) False,
                     wt_secret = map_option (take 256) (json_get t ''secret'' json_text),
                     wt_min = Some (nullish (json_get t ''minSeverity'' json_severity) SevWarning),
                     wt_provider = json_get t ''provider'' json_provider\<rparr>
           | _ \<Rightarrow> None))"

text \<open>\<open>obj.x !== undefined && obj.x !== null && typeof obj.x === 'object'\<close>; an array is one, too.\<close>

fun any_object :: "json \<Rightarrow> bool" where
  "any_object (JObj fs) = True" | "any_object (JArr xs) = True" | "any_object _ = False"

definition sanitize_config :: "json \<Rightarrow> webhook_config" where
  "sanitize_config raw =
     (case json_object raw of
        None \<Rightarrow> default_webhook_config
      | Some obj \<Rightarrow>
          \<lparr>wc_enabled = nullish (json_get obj ''enabled'' json_bool) False,
           wc_targets = List.map_filter sanitize_target (take 5 (nullish (json_get obj ''targets'' json_array) [])),
           wc_cooldown = Some (number_or obj ''cooldownMs'' 0 60000),
           wc_timeout = Some (min (number_or obj ''timeoutMs'' 1000 10000) 30000),
           wc_retries = Some (case json_get obj ''maxRetries'' json_finite of
               None \<Rightarrow> 3 | Some q \<Rightarrow> if 0 \<le> q then min (of_int \<lfloor>q\<rfloor>) 5 else 3),
           wc_escalation = json_get obj ''escalation'' (\<lambda>j. if any_object j then Some j else None)\<rparr>)"

definition read_webhook_config :: "json option \<Rightarrow> webhook_config" where
  "read_webhook_config file = (case file of None \<Rightarrow> default_webhook_config | Some j \<Rightarrow> sanitize_config j)"

text \<open>\<open>JSON.stringify\<close> leaves the keys out whose value is \<open>undefined\<close>.\<close>

definition optional_key :: "string \<Rightarrow> json option \<Rightarrow> (string \<times> json) list" where
  "optional_key k v = (case v of None \<Rightarrow> [] | Some j \<Rightarrow> [(k, j)])"

definition target_json :: "webhook_target \<Rightarrow> json" where
  "target_json t =
     JObj ([(''id'', JStr (wt_id t)), (''name'', JStr (wt_name t)), (''url'', JStr (wt_url t)),
            (''enabled'', JBool (wt_enabled t))]
           @ optional_key ''secret'' (map_option JStr (wt_secret t))
           @ optional_key ''minSeverity'' (map_option (\<lambda>v. JStr (severity_name v)) (wt_min t))
           @ optional_key ''provider'' (map_option (\<lambda>p. JStr (provider_name p)) (wt_provider t)))"

definition write_webhook_config :: "webhook_config \<Rightarrow> json" where
  "write_webhook_config c =
     JObj ([(''enabled'', JBool (wc_enabled c)), (''targets'', JArr (map target_json (wc_targets c)))]
           @ optional_key ''cooldownMs'' (map_option JNum (wc_cooldown c))
           @ optional_key ''timeoutMs'' (map_option JNum (wc_timeout c))
           @ optional_key ''maxRetries'' (map_option JNum (wc_retries c))
           @ optional_key ''escalation'' (wc_escalation c))"

section \<open>Validation\<close>

datatype webhook_problem =
    NotObject
  | NotBoolean
  | NotSeverity
  | CooldownNotNumber
  | TimeoutOutOfRange
  | RetriesOutOfRange
  | NotArray
  | TooManyTargets
  | TargetNotObject
  | IdMissing
  | IdDuplicate string
  | UrlMissing
  | UrlNotHttps
  | UrlInvalid
  | UrlTooLong
  | NotText
  | UnknownProvider
  | TooManyTiers
  | TierNotObject
  | AfterNotNumber
  | AfterTooSmall
  | AfterTooLarge
  | AfterNotIncreasing rat
  | TooManyTierTargets
  | TierTargetMissing
  | TierTargetUnknown string

type_synonym webhook_error = "string \<times> webhook_problem"

record url_parts =
  up_protocol :: string
  up_host :: string
  up_hostname :: string

definition is_text :: "json \<Rightarrow> bool" where
  "is_text j \<longleftrightarrow> json_text j \<noteq> None"

definition is_bool :: "json \<Rightarrow> bool" where
  "is_bool j \<longleftrightarrow> json_bool j \<noteq> None"

definition is_severity :: "json \<Rightarrow> bool" where
  "is_severity j \<longleftrightarrow> json_severity j \<noteq> None"

definition non_blank :: "json option \<Rightarrow> bool" where
  "non_blank j = (case Option.bind j json_text of None \<Rightarrow> False | Some s \<Rightarrow> js_trim s \<noteq> [])"

definition url_problems :: "(string \<Rightarrow> url_parts option) \<Rightarrow> string \<Rightarrow> (string, json) jsmap \<Rightarrow> webhook_error list" where
  "url_problems parse prefix t =
     (if \<not> non_blank (js_get t ''url'') then [(prefix @ ''.url'', UrlMissing)]
      else
        (let u = nullish (json_get t ''url'' json_text) [] in
         (case parse u of
            None \<Rightarrow> [(prefix @ ''.url'', UrlInvalid)]
          | Some p \<Rightarrow>
              if up_protocol p \<noteq> ''https:''
                 \<and> \<not> (up_protocol p = ''http:'' \<and> up_hostname p \<in> {''localhost'', ''127.0.0.1'', ''::1''})
              then [(prefix @ ''.url'', UrlNotHttps)] else [])
         @ (if 2048 < length u then [(prefix @ ''.url'', UrlTooLong)] else [])))"

definition id_problems :: "string \<Rightarrow> string list \<Rightarrow> (string, json) jsmap \<Rightarrow> webhook_error list \<times> string list" where
  "id_problems prefix seen t =
     (if \<not> non_blank (js_get t ''id'') then ([(prefix @ ''.id'', IdMissing)], seen)
      else
        (let i = nullish (json_get t ''id'' json_text) [] in
         if i \<in> set seen then ([(prefix @ ''.id'', IdDuplicate i)], seen) else ([], i # seen)))"

definition at_index :: "string \<Rightarrow> nat \<Rightarrow> string" where
  "at_index s i = s @ ''['' @ show_nat i @ '']''"

fun target_problems ::
  "(string \<Rightarrow> url_parts option) \<Rightarrow> nat \<Rightarrow> string list \<Rightarrow> json list \<Rightarrow> webhook_error list" where
  "target_problems parse i seen [] = []"
| "target_problems parse i seen (j # js) =
     (let prefix = at_index ''targets'' i in
      case json_object j of
        None \<Rightarrow> (prefix, TargetNotObject) # target_problems parse (i + 1) seen js
      | Some t \<Rightarrow>
          (let (e, seen') = id_problems prefix seen t in
           e @ url_problems parse prefix t
           @ field_check t ''name'' is_text (prefix @ ''.name'', NotText)
           @ field_check t ''enabled'' is_bool (prefix @ ''.enabled'', NotBoolean)
           @ field_check t ''secret'' is_text (prefix @ ''.secret'', NotText)
           @ field_check t ''minSeverity'' is_severity (prefix @ ''.minSeverity'', NotSeverity)
           @ field_check t ''provider'' (\<lambda>p. json_provider p \<noteq> None) (prefix @ ''.provider'', UnknownProvider)
           @ target_problems parse (i + 1) seen' js))"

text \<open>The copy of the escalation validator in this file.\<close>

definition inline_target_problems :: "string list \<Rightarrow> string \<Rightarrow> nat \<Rightarrow> json \<Rightarrow> webhook_error list" where
  "inline_target_problems available prefix k j =
     (let pos = at_index (prefix @ ''.targetIds'') k in
      case json_text j of
        None \<Rightarrow> [(pos, TierTargetMissing)]
      | Some s \<Rightarrow>
          if js_trim s = [] then [(pos, TierTargetMissing)]
          else if available \<noteq> [] \<and> s \<notin> set available then [(pos, TierTargetUnknown s)]
          else [])"

definition inline_tier_targets :: "string list \<Rightarrow> string \<Rightarrow> (string, json) jsmap \<Rightarrow> webhook_error list" where
  "inline_tier_targets available prefix t =
     (case json_get t ''targetIds'' json_array of
        None \<Rightarrow> [(prefix @ ''.targetIds'', NotArray)]
      | Some js \<Rightarrow>
          (if 5 < length js then [(prefix @ ''.targetIds'', TooManyTierTargets)] else [])
          @ concat (map (\<lambda>(k, j). inline_target_problems available prefix k j) (enumerate 0 js)))"

definition inline_after :: "string \<Rightarrow> rat \<Rightarrow> (string, json) jsmap \<Rightarrow> webhook_error list \<times> rat" where
  "inline_after prefix before t =
     (case json_get t ''afterMs'' json_finite of
        None \<Rightarrow> ([(prefix @ ''.afterMs'', AfterNotNumber)], before)
      | Some q \<Rightarrow>
          ((if q < 60000 then [(prefix @ ''.afterMs'', AfterTooSmall)] else [])
           @ (if 86400000 < q then [(prefix @ ''.afterMs'', AfterTooLarge)] else [])
           @ (if q \<le> before then [(prefix @ ''.afterMs'', AfterNotIncreasing before)] else []), q))"

fun inline_tiers :: "string list \<Rightarrow> nat \<Rightarrow> rat \<Rightarrow> json list \<Rightarrow> webhook_error list" where
  "inline_tiers available i before [] = []"
| "inline_tiers available i before (j # js) =
     (let prefix = at_index ''escalation.tiers'' i in
      case json_object j of
        None \<Rightarrow> (prefix, TierNotObject) # inline_tiers available (i + 1) before js
      | Some t \<Rightarrow>
          fst (inline_after prefix before t) @ inline_tier_targets available prefix t
          @ field_check t ''label'' is_text (prefix @ ''.label'', NotText)
          @ inline_tiers available (i + 1) (snd (inline_after prefix before t)) js)"

definition target_ids :: "(string, json) jsmap \<Rightarrow> string list" where
  "target_ids obj =
     List.map_filter (\<lambda>j. Option.bind (json_object j) (\<lambda>t. json_get t ''id'' json_text))
       (nullish (json_get obj ''targets'' json_array) [])"

definition inline_escalation :: "string list \<Rightarrow> (string, json) jsmap \<Rightarrow> webhook_error list" where
  "inline_escalation available esc =
     field_check esc ''enabled'' is_bool (''escalation.enabled'', NotBoolean)
     @ field_check esc ''triggerSeverity'' is_severity (''escalation.triggerSeverity'', NotSeverity)
     @ field_check esc ''cooldownMs'' (finite_at_least 0) (''escalation.cooldownMs'', CooldownNotNumber)
     @ (case js_get esc ''tiers'' of
          None \<Rightarrow> []
        | Some j \<Rightarrow>
            (case json_array j of
               None \<Rightarrow> [(''escalation.tiers'', NotArray)]
             | Some js \<Rightarrow>
                 (if 3 < length js then [(''escalation.tiers'', TooManyTiers)] else [])
                 @ inline_tiers available 0 0 js))"

definition validate_webhook_config :: "(string \<Rightarrow> url_parts option) \<Rightarrow> json \<Rightarrow> webhook_error list" where
  "validate_webhook_config parse input =
     (case json_object input of
        None \<Rightarrow> [(''root'', NotObject)]
      | Some obj \<Rightarrow>
          field_check obj ''enabled'' is_bool (''enabled'', NotBoolean)
          @ field_check obj ''cooldownMs'' (finite_at_least 0) (''cooldownMs'', CooldownNotNumber)
          @ field_check obj ''timeoutMs'' (finite_between 1000 30000) (''timeoutMs'', TimeoutOutOfRange)
          @ field_check obj ''maxRetries'' (finite_between 0 5) (''maxRetries'', RetriesOutOfRange)
          @ (case js_get obj ''targets'' of
               None \<Rightarrow> []
             | Some j \<Rightarrow>
                 (case json_array j of
                    None \<Rightarrow> [(''targets'', NotArray)]
                  | Some js \<Rightarrow>
                      (if 5 < length js then [(''targets'', TooManyTargets)] else [])
                      @ target_problems parse 0 [] js))
          @ (case js_get obj ''escalation'' of
               None \<Rightarrow> []
             | Some j \<Rightarrow>
                 if j = JNull then []
                 else (case json_object j of
                         None \<Rightarrow> [(''escalation'', NotObject)]
                       | Some esc \<Rightarrow> inline_escalation (target_ids obj) esc)))"

section \<open>Redaction\<close>

record redacted_target =
  rd_id :: string
  rd_name :: string
  rd_url :: string
  rd_enabled :: bool
  rd_min :: "alert_severity option"
  rd_provider :: "webhook_provider option"
  rd_has_secret :: bool

definition redact_target :: "webhook_target \<Rightarrow> redacted_target" where
  "redact_target t =
     \<lparr>rd_id = wt_id t, rd_name = wt_name t, rd_url = wt_url t, rd_enabled = wt_enabled t, rd_min = wt_min t,
      rd_provider = wt_provider t, rd_has_secret = truthy_str (wt_secret t)\<rparr>"

definition redact_config :: "webhook_config \<Rightarrow> webhook_config \<times> redacted_target list" where
  "redact_config c = (c\<lparr>wc_targets := []\<rparr>, map redact_target (wc_targets c))"

definition mask_url :: "(string \<Rightarrow> url_parts option) \<Rightarrow> string \<Rightarrow> string" where
  "mask_url parse u =
     (case parse u of None \<Rightarrow> ''***invalid-url***'' | Some p \<Rightarrow> up_protocol p @ ''//'' @ up_host p @ ''/***'')"

section \<open>Payloads\<close>

record escalation_note =
  en_tier :: "nat option"
  en_label :: "string option"
  en_duration :: int
  en_reason :: string

record webhook_payload =
  pl_timestamp :: int
  pl_iso :: string
  pl_previous :: "alert_severity option"
  pl_current :: alert_severity
  pl_label :: string
  pl_evaluation :: alert_evaluation
  pl_escalation :: "escalation_note option"

definition right_arrow :: string where
  "right_arrow = [CHR '' '', CHR 0xE2, CHR 0x86, CHR 0x92, CHR '' '']"

definition transition_label :: "alert_severity option \<Rightarrow> alert_severity \<Rightarrow> string" where
  "transition_label previous current =
     (case previous of
        None \<Rightarrow> ''Initial evaluation: '' @ severity_name current
      | Some p \<Rightarrow>
          if p = current then ''Severity unchanged: '' @ severity_name current
          else ''Alert '' @ (if severity_priority p < severity_priority current then ''escalated'' else ''de-escalated'')
               @ '': '' @ severity_name p @ right_arrow @ severity_name current)"

text \<open>\<open>iso_text\<close> is \<open>toISOString\<close>.\<close>

definition build_payload :: "(int \<Rightarrow> string) \<Rightarrow> alert_evaluation \<Rightarrow> alert_severity option \<Rightarrow> webhook_payload" where
  "build_payload iso_text e previous =
     \<lparr>pl_timestamp = ev_at e, pl_iso = iso_text (ev_at e), pl_previous = previous, pl_current = ev_overall e,
      pl_label = transition_label previous (ev_overall e), pl_evaluation = e, pl_escalation = None\<rparr>"

definition json_option :: "('a \<Rightarrow> json) \<Rightarrow> 'a option \<Rightarrow> json" where
  "json_option f x = (case x of None \<Rightarrow> JNull | Some v \<Rightarrow> f v)"

definition severity_json :: "alert_severity \<Rightarrow> json" where
  "severity_json v = JStr (severity_name v)"

definition rule_json :: "alert_result \<Rightarrow> json" where
  "rule_json r =
     JObj [(''rule'', JStr (rule_key (ar_rule r))), (''label'', JStr (ar_label r)), (''enabled'', JBool (ar_enabled r)),
       (''severity'', severity_json (ar_severity r)), (''currentValue'', json_option JNum (ar_value r)),
       (''warningThreshold'', JNum (ar_warning r)), (''criticalThreshold'', JNum (ar_critical r)),
       (''message'', JStr (ar_text r))]"

definition evaluation_json :: "alert_evaluation \<Rightarrow> json" where
  "evaluation_json e =
     JObj [(''evaluatedAt'', JNum (of_int (ev_at e))), (''overallSeverity'', severity_json (ev_overall e)),
       (''severityCounts'', JObj (map (\<lambda>v. (severity_name v, JNum (of_nat (ev_counts e v)))) [SevOk, SevWarning, SevCritical])),
       (''rules'', JArr (map rule_json (ev_rules e)))]"

definition note_json :: "escalation_note \<Rightarrow> json" where
  "note_json n =
     JObj [(''isEscalation'', JBool True), (''tierIndex'', json_option (\<lambda>i. JNum (of_nat i)) (en_tier n)),
       (''tierLabel'', json_option JStr (en_label n)), (''qualifyingDurationMs'', JNum (of_int (en_duration n))),
       (''reason'', JStr (en_reason n))]"

definition format_generic :: "webhook_payload \<Rightarrow> json" where
  "format_generic p =
     JObj ([(''event'', JStr ''alert.transition''), (''timestamp'', JNum (of_int (pl_timestamp p))),
        (''timestampISO'', JStr (pl_iso p)), (''previousSeverity'', json_option severity_json (pl_previous p)),
        (''currentSeverity'', severity_json (pl_current p)), (''transitionLabel'', JStr (pl_label p)),
        (''evaluation'', evaluation_json (pl_evaluation p)), (''source'', JStr ''ventureos-dashboard''),
        (''schemaVersion'', JNum 1)] @ optional_key ''escalation'' (map_option note_json (pl_escalation p)))"

fun severity_emoji :: "alert_severity \<Rightarrow> string" where
  "severity_emoji SevOk = [CHR 0xE2, CHR 0x9C, CHR 0x85]"
| "severity_emoji SevWarning = [CHR 0xE2, CHR 0x9A, CHR 0xA0, CHR 0xEF, CHR 0xB8, CHR 0x8F]"
| "severity_emoji SevCritical = [CHR 0xF0, CHR 0x9F, CHR 0x94, CHR 0xB4]"

fun slack_color :: "alert_severity \<Rightarrow> string" where
  "slack_color SevOk = ''#36a64f''" | "slack_color SevWarning = ''#f2c744''" | "slack_color SevCritical = ''#e01e5a''"

fun discord_color :: "alert_severity \<Rightarrow> rat" where
  "discord_color SevOk = 3581519" | "discord_color SevWarning = 15910724" | "discord_color SevCritical = 14687834"

definition bullet :: string where
  "bullet = [CHR '' '', CHR 0xE2, CHR 0x80, CHR 0xA2, CHR '' '']"

definition schema_footer :: string where
  "schema_footer = ''VentureOS Dashboard'' @ bullet @ ''Schema v1''"

definition value_text :: "alert_result \<Rightarrow> string" where
  "value_text r = (case ar_value r of None \<Rightarrow> ''N/A'' | Some v \<Rightarrow> to_fixed 1 v)"

definition markdown :: "string \<Rightarrow> json" where
  "markdown s = JObj [(''type'', JStr ''mrkdwn''), (''text'', JStr s)]"

definition slack_rule_line :: "alert_result \<Rightarrow> string" where
  "slack_rule_line r =
     severity_emoji (ar_severity r) @ '' *'' @ ar_label r @ ''*: '' @ value_text r @ em_dash @ ar_text r"

definition format_slack :: "webhook_payload \<Rightarrow> json" where
  "format_slack p =
     (let emoji = severity_emoji (pl_current p);
          lines = map slack_rule_line (filter ar_enabled (ev_rules (pl_evaluation p)));
          section = (\<lambda>t. JObj [(''type'', JStr ''section''), (''text'', markdown t)]);
          field = (\<lambda>k v. markdown (''*'' @ k @ '':*'' @ newline @ v))
      in JObj
          [(''text'', JStr (emoji @ '' '' @ pl_label p)),
           (''blocks'', JArr
              ([JObj [(''type'', JStr ''header''),
                      (''text'', JObj [(''type'', JStr ''plain_text''), (''text'', JStr (emoji @ '' VentureOS Alert'')),
                                       (''emoji'', JBool True)])],
                section (''*'' @ pl_label p @ ''*''),
                JObj [(''type'', JStr ''section''),
                      (''fields'', JArr [field ''Previous'' (case pl_previous p of None \<Rightarrow> ''none'' | Some v \<Rightarrow> severity_name v),
                         field ''Current'' (severity_name (pl_current p)), field ''Timestamp'' (pl_iso p),
                         field ''Source'' ''ventureos-dashboard''])]]
               @ (if lines = [] then [] else [JObj [(''type'', JStr ''divider'')], section (join_with newline lines)])
               @ [JObj [(''type'', JStr ''context''), (''elements'', JArr [markdown schema_footer])]])),
           (''attachments'', JArr [JObj [(''color'', JStr (slack_color (pl_current p))), (''blocks'', JArr [])]])])"

definition discord_field :: "string \<Rightarrow> string \<Rightarrow> json" where
  "discord_field n v = JObj [(''name'', JStr n), (''value'', JStr v), (''inline'', JBool True)]"

definition format_discord :: "webhook_payload \<Rightarrow> json" where
  "format_discord p =
     (let emoji = severity_emoji (pl_current p);
          rules = map (\<lambda>r. discord_field (severity_emoji (ar_severity r) @ '' '' @ ar_label r)
                             (''Value: '' @ value_text r @ newline @ ar_text r))
                    (take 25 (filter ar_enabled (ev_rules (pl_evaluation p))))
      in JObj
          [(''content'', JStr (emoji @ '' **'' @ pl_label p @ ''**'')),
           (''embeds'', JArr [JObj
              [(''title'', JStr (emoji @ '' VentureOS Alert'')), (''description'', JStr (pl_label p)),
               (''color'', JNum (discord_color (pl_current p))),
               (''fields'', JArr
                  ([discord_field ''Previous Severity'' (case pl_previous p of None \<Rightarrow> ''none'' | Some v \<Rightarrow> severity_name v),
                    discord_field ''Current Severity'' (severity_name (pl_current p)),
                    discord_field ''Timestamp'' (pl_iso p)] @ rules)),
               (''footer'', JObj [(''text'', JStr schema_footer)]), (''timestamp'', JStr (pl_iso p))]])])"

definition format_payload :: "webhook_payload \<Rightarrow> webhook_provider option \<Rightarrow> json" where
  "format_payload p provider =
     (case provider of
        Some Slack \<Rightarrow> format_slack p
      | Some Discord \<Rightarrow> format_discord p
      | _ \<Rightarrow> format_generic p)"

section \<open>Test pings\<close>

record test_payload =
  tp_timestamp :: int
  tp_iso :: string

definition test_message :: string where
  "test_message = ''This is a test ping from VentureOS Dashboard. No action required.''"

definition build_test_payload :: "(int \<Rightarrow> string) \<Rightarrow> int \<Rightarrow> test_payload" where
  "build_test_payload iso_text now = \<lparr>tp_timestamp = now, tp_iso = iso_text now\<rparr>"

definition test_generic :: "test_payload \<Rightarrow> json" where
  "test_generic p =
     JObj [(''event'', JStr ''webhook.test''), (''test'', JBool True), (''_testMarker'', JStr ''NON_PRODUCTION_TEST_PING''),
       (''timestamp'', JNum (of_int (tp_timestamp p))), (''timestampISO'', JStr (tp_iso p)), (''message'', JStr test_message),
       (''source'', JStr ''ventureos-dashboard''), (''schemaVersion'', JNum 1)]"

definition bell :: string where
  "bell = [CHR 0xF0, CHR 0x9F, CHR 0x94, CHR 0x94]"

definition test_slack :: "test_payload \<Rightarrow> json" where
  "test_slack p =
     JObj
       [(''text'', JStr (bell @ '' VentureOS Webhook Test Ping'')),
        (''blocks'', JArr
           [JObj [(''type'', JStr ''header''),
                  (''text'', JObj [(''type'', JStr ''plain_text''), (''text'', JStr (bell @ '' VentureOS Webhook Test'')),
                                   (''emoji'', JBool True)])],
            JObj [(''type'', JStr ''section''), (''text'', markdown test_message)],
            JObj [(''type'', JStr ''context''),
                  (''elements'', JArr [markdown (''_Test ping'' @ em_dash @ tp_iso p @ ''_'' @ bullet @ ''ventureos-dashboard'')])]])]"

definition test_discord :: "test_payload \<Rightarrow> json" where
  "test_discord p =
     JObj
       [(''content'', JStr (bell @ '' **VentureOS Webhook Test Ping**'')),
        (''embeds'', JArr [JObj
           [(''title'', JStr (bell @ '' Webhook Test'')), (''description'', JStr test_message), (''color'', JNum 3900150),
            (''footer'', JObj [(''text'', JStr (''ventureos-dashboard'' @ bullet @ ''Test Ping''))]),
            (''timestamp'', JStr (tp_iso p))]])]"

definition format_test :: "test_payload \<Rightarrow> webhook_provider option \<Rightarrow> json" where
  "format_test p provider =
     (case provider of Some Slack \<Rightarrow> test_slack p | Some Discord \<Rightarrow> test_discord p | _ \<Rightarrow> test_generic p)"

section \<open>Delivery\<close>

text \<open>
  One attempt ends with a status, with the abort of the timer, with an exception of \<open>fetch\<close>
  (\<^const>\<open>None\<close> when what was thrown is not an \<open>Error\<close>), or with an exception before the request is sent.
\<close>

datatype attempt_outcome =
    Responded int
  | Aborted
  | FetchFailed "string option"
  | SetupFailed "string option"

record webhook_request =
  wq_url :: string
  wq_headers :: "(string \<times> string) list"
  wq_body :: json

text \<open>
  What the platform does in one delivery: the attempts, the signature of a body, the readings of the
  clock by their number, and the text of a number.
\<close>

record webhook_net =
  wn_fetch :: "webhook_request \<Rightarrow> nat \<Rightarrow> attempt_outcome"
  wn_sign :: "json \<Rightarrow> string \<Rightarrow> string"
  wn_clock :: "nat \<Rightarrow> int"
  wn_number :: "rat \<Rightarrow> string"

definition webhook_headers :: "webhook_net \<Rightarrow> bool \<Rightarrow> json \<Rightarrow> string option \<Rightarrow> (string \<times> string) list" where
  "webhook_headers net test body secret =
     [(''Content-Type'', ''application/json''), (''User-Agent'', ''VentureOS-Dashboard/1.0''),
      (''X-VentureOS-Event'', if test then ''webhook.test'' else ''alert.transition'')]
     @ (if test then [(''X-VentureOS-Test'', ''true'')] else [])
     @ (if truthy_str secret then [(''X-VentureOS-Signature'', ''sha256='' @ wn_sign net body (str_or_empty secret))] else [])"

definition webhook_request_of :: "webhook_net \<Rightarrow> bool \<Rightarrow> webhook_target \<Rightarrow> json \<Rightarrow> webhook_request" where
  "webhook_request_of net test t body =
     \<lparr>wq_url = wt_url t, wq_headers = webhook_headers net test body (wt_secret t), wq_body = body\<rparr>"

definition status_ok :: "int \<Rightarrow> bool" where
  "status_ok s \<longleftrightarrow> 200 \<le> s \<and> s < 300"

definition client_error :: "int \<Rightarrow> bool" where
  "client_error s \<longleftrightarrow> 400 \<le> s \<and> s < 500"

text \<open>\<open>Math.min(1000 * Math.pow(2, n), 4000)\<close>.\<close>

definition backoff :: "nat \<Rightarrow> int" where
  "backoff n = min (1000 * 2 ^ n) 4000"

fun outcome_error :: "(rat \<Rightarrow> string) \<Rightarrow> rat \<Rightarrow> attempt_outcome \<Rightarrow> string" where
  "outcome_error number timeout (Responded s) = ''HTTP '' @ show_int s"
| "outcome_error number timeout Aborted = ''timeout after '' @ number timeout @ ''ms''"
| "outcome_error number timeout (FetchFailed e) = nullish e ''unknown fetch error''"
| "outcome_error number timeout (SetupFailed e) = nullish e ''unknown error''"

fun outcome_status :: "attempt_outcome \<Rightarrow> int option" where
  "outcome_status (Responded s) = Some s"
| "outcome_status _ = None"

definition delivered :: "attempt_outcome \<Rightarrow> bool" where
  "delivered x = (case x of Responded s \<Rightarrow> status_ok s | _ \<Rightarrow> False)"

definition refused :: "attempt_outcome \<Rightarrow> bool" where
  "refused x = (case x of Responded s \<Rightarrow> client_error s | _ \<Rightarrow> False)"

definition attempt_of :: "webhook_net \<Rightarrow> nat \<Rightarrow> int option \<Rightarrow> string option \<Rightarrow> int option \<Rightarrow> attempt_detail" where
  "attempt_of net k status err delay =
     \<lparr>ad_attempt = k + 1, ad_ts = wn_clock net (2 * k + 1), ad_status = status, ad_error = err,
      ad_duration = wn_clock net (2 * k + 2) - wn_clock net (2 * k + 1), ad_next_delay = delay\<rparr>"

record delivery_progress =
  dp_success :: bool
  dp_status :: "int option"
  dp_attempts :: nat
  dp_error :: "string option"
  dp_details :: "attempt_detail list"

text \<open>The retry loop; \<open>left\<close> attempts are allowed, \<open>k\<close> have been made.\<close>

fun delivery_loop ::
  "webhook_net \<Rightarrow> rat \<Rightarrow> webhook_request \<Rightarrow> nat \<Rightarrow> nat \<Rightarrow> delivery_progress \<Rightarrow> delivery_progress" where
  "delivery_loop net timeout rq 0 k d = d"
| "delivery_loop net timeout rq (Suc left) k d =
     (let x = wn_fetch net rq k;
          status = (if outcome_status x = None then dp_status d else outcome_status x);
          err = outcome_error (wn_number net) timeout x
      in if delivered x then
           d\<lparr>dp_success := True, dp_status := status, dp_attempts := k + 1, dp_error := None,
             dp_details := dp_details d @ [attempt_of net k (outcome_status x) None None]\<rparr>
         else if refused x then
           d\<lparr>dp_status := status, dp_attempts := k + 1, dp_error := Some err,
             dp_details := dp_details d @ [attempt_of net k (outcome_status x) (Some err) None]\<rparr>
         else
           delivery_loop net timeout rq left (k + 1)
             (d\<lparr>dp_status := status, dp_attempts := k + 1, dp_error := Some err,
                dp_details := dp_details d
                  @ [attempt_of net k (outcome_status x) (Some err) (if 0 < left then Some (backoff k) else None)]\<rparr>))"

definition no_progress :: delivery_progress where
  "no_progress = \<lparr>dp_success = False, dp_status = None, dp_attempts = 0, dp_error = None, dp_details = []\<rparr>"

text \<open>\<open>for (attempt = 0; attempt < maxRetries; attempt++)\<close> makes \<open>\<lceil>maxRetries\<rceil>\<close> rounds.\<close>

definition run_delivery ::
  "webhook_net \<Rightarrow> bool \<Rightarrow> webhook_target \<Rightarrow> json \<Rightarrow> rat \<Rightarrow> rat \<Rightarrow> delivery_result" where
  "run_delivery net test t body timeout retries =
     (let d = delivery_loop net timeout (webhook_request_of net test t body) (nat \<lceil>retries\<rceil>) 0 no_progress in
      \<lparr>dr_target = wt_id t, dr_name = wt_name t, dr_success = dp_success d, dr_status = dp_status d,
       dr_attempts = dp_attempts d, dr_error = dp_error d,
       dr_duration = wn_clock net (2 * dp_attempts d + 1) - wn_clock net 0, dr_details = dp_details d\<rparr>)"

definition deliver_webhook ::
  "webhook_net \<Rightarrow> webhook_target \<Rightarrow> webhook_payload \<Rightarrow> rat option \<Rightarrow> rat option \<Rightarrow> delivery_result" where
  "deliver_webhook net t p timeout retries =
     run_delivery net False t (format_payload p (wt_provider t)) (nullish timeout 10000) (nullish retries 3)"

definition deliver_test_webhook ::
  "webhook_net \<Rightarrow> webhook_target \<Rightarrow> test_payload \<Rightarrow> rat option \<Rightarrow> rat option \<Rightarrow> delivery_result" where
  "deliver_test_webhook net t p timeout retries =
     run_delivery net True t (format_test p (wt_provider t)) (nullish timeout 5000) (nullish retries 1)"

section \<open>The targets of a transition\<close>

record delivery_state =
  dl_last_at :: "(string, int) jsmap"
  dl_last_severity :: "alert_severity option"

definition fresh_delivery_state :: delivery_state where
  "fresh_delivery_state = \<lparr>dl_last_at = [], dl_last_severity = None\<rparr>"

definition is_transition :: "alert_severity \<Rightarrow> alert_severity option \<Rightarrow> bool" where
  "is_transition current previous = (case previous of None \<Rightarrow> True | Some p \<Rightarrow> current \<noteq> p)"

definition selects :: "alert_severity \<Rightarrow> delivery_state \<Rightarrow> rat \<Rightarrow> int \<Rightarrow> webhook_target \<Rightarrow> bool" where
  "selects v st cooldown now t =
     (wt_enabled t
      \<and> severity_priority (nullish (wt_min t) SevWarning) \<le> severity_priority v
      \<and> \<not> of_int (now - nullish (js_get (dl_last_at st) (wt_id t)) 0) < cooldown)"

definition select_targets ::
  "webhook_target list \<Rightarrow> alert_severity \<Rightarrow> delivery_state \<Rightarrow> rat \<Rightarrow> int \<Rightarrow> webhook_target list" where
  "select_targets ts v st cooldown now = filter (selects v st cooldown now) ts"

text \<open>
  The part of \<open>maybeDeliverWebhooks\<close> before the deliveries: the transition is taken note of, and the
  targets and the severity before it are given to the deliveries.
\<close>

definition begin_deliveries ::
  "webhook_config \<Rightarrow> alert_evaluation \<Rightarrow> delivery_state \<Rightarrow> delivery_state \<times> (alert_severity option \<times> webhook_target list) option" where
  "begin_deliveries c e st =
     (let v = ev_overall e; previous = dl_last_severity st in
      if \<not> wc_enabled c \<or> wc_targets c = [] \<or> \<not> is_transition v previous then (st, None)
      else
        (let st' = st\<lparr>dl_last_severity := Some v\<rparr>;
             ts = select_targets (wc_targets c) v st' (nullish (wc_cooldown c) 60000) (ev_at e)
         in if ts = [] then (st', None) else (st', Some (previous, ts))))"

definition delivery_done :: "int \<Rightarrow> delivery_result \<Rightarrow> delivery_state \<Rightarrow> delivery_state" where
  "delivery_done now r st =
     (if dr_success r then st\<lparr>dl_last_at := js_set (dr_target r) now (dl_last_at st)\<rparr> else st)"

text \<open>\<open>targetMap.get(r.targetId)?.url ?? ''\<close>; the map keeps the last target of an id.\<close>

definition result_url :: "webhook_target list \<Rightarrow> delivery_result \<Rightarrow> string" where
  "result_url ts r = (case List.find (\<lambda>t. wt_id t = dr_target r) (rev ts) of None \<Rightarrow> [] | Some t \<Rightarrow> wt_url t)"

definition with_contexts ::
  "webhook_target list \<Rightarrow> string \<Rightarrow> alert_severity option \<Rightarrow> int \<Rightarrow> delivery_result list \<Rightarrow> (delivery_result \<times> delivery_context) list" where
  "with_contexts ts trigger previous now rs =
     map (\<lambda>r. (r, \<lparr>dc_url = result_url ts r, dc_trigger = trigger, dc_previous = map_option severity_name previous,
                   dc_ts = Some now\<rparr>)) rs"

text \<open>\<open>sendTestWebhook\<close>: the targets of a ping, or why there are none, and the pings.\<close>

datatype ping_problem = NoTargets | TargetNotFound string | NoEnabledTargets

definition ping_targets :: "webhook_config \<Rightarrow> string option \<Rightarrow> ping_problem + webhook_target list" where
  "ping_targets c target =
     (if wc_targets c = [] then Inl NoTargets
      else if truthy_str target then
        (case List.find (\<lambda>t. Some (wt_id t) = target) (wc_targets c) of
           None \<Rightarrow> Inl (TargetNotFound (str_or_empty target))
         | Some t \<Rightarrow> Inr [t])
      else (let ts = filter wt_enabled (wc_targets c) in if ts = [] then Inl NoEnabledTargets else Inr ts))"

definition send_test_webhook ::
  "(string \<Rightarrow> url_parts option) \<Rightarrow> (webhook_target \<Rightarrow> webhook_net) \<Rightarrow> (int \<Rightarrow> string) \<Rightarrow> int \<Rightarrow> webhook_config \<Rightarrow> string option \<Rightarrow> int
   \<Rightarrow> delivery_event counted_file \<Rightarrow> delivery_event counted_file \<times> (ping_problem + delivery_result list)" where
  "send_test_webhook parse net iso_text clock c target now file =
     (case ping_targets c target of
        Inl p \<Rightarrow> (file, Inl p)
      | Inr ts \<Rightarrow>
          (let p = build_test_payload iso_text now;
               timeout = min (nullish (wc_timeout c) 5000) 5000;
               rs = map (\<lambda>t. deliver_test_webhook (net t) t p (Some timeout) (Some 1)) ts
           in (fst (append_delivery_events (mask_url parse) clock (with_contexts ts ''test'' None now rs) file), Inr rs)))"

end
