(* ===== verification/Escalation.thy ===== *)
theory Escalation
  imports Webhooks
begin

text \<open>
  \<open>dashboard/server/escalation-policy.ts\<close>: the escalation of alerts that persist. A policy has up to
  three tiers; the state in memory says since when the severity qualifies, the highest tier that has
  fired, and when each tier was last notified.
\<close>

section \<open>Policies\<close>

record escalation_tier =
  et_after :: rat
  et_targets :: "string list"
  et_label :: "string option"

record escalation_policy =
  ep_enabled :: bool
  ep_trigger :: "alert_severity option"
  ep_tiers :: "escalation_tier list"
  ep_cooldown :: "rat option"

definition default_escalation_policy :: escalation_policy where
  "default_escalation_policy =
     \<lparr>ep_enabled = False, ep_trigger = Some SevCritical, ep_tiers = [], ep_cooldown = Some 300000\<rparr>"

text \<open>\<open>validateEscalationPolicy\<close>, which no other file calls; \<open>available\<close> is the optional list of target ids.\<close>

definition tier_target_problems :: "string list option \<Rightarrow> string \<Rightarrow> nat \<Rightarrow> json \<Rightarrow> webhook_error list" where
  "tier_target_problems available prefix j t =
     (let pos = at_index (prefix @ ''.targetIds'') j in
      if \<not> non_blank (Some t) then [(pos, TierTargetMissing)]
      else
        (case (available, json_text t) of
           (Some ids, Some s) \<Rightarrow> if s \<in> set ids then [] else [(pos, TierTargetUnknown s)]
         | _ \<Rightarrow> []))"

definition tier_targets_problems :: "string list option \<Rightarrow> string \<Rightarrow> (string, json) jsmap \<Rightarrow> webhook_error list" where
  "tier_targets_problems available prefix t =
     (case json_get t ''targetIds'' json_array of
        None \<Rightarrow> [(prefix @ ''.targetIds'', NotArray)]
      | Some ts \<Rightarrow>
          (if 5 < length ts then [(prefix @ ''.targetIds'', TooManyTierTargets)] else [])
          @ concat (map (\<lambda>(k, t). tier_target_problems available prefix k t) (enumerate 0 ts)))"

text \<open>The problems of a threshold, and the threshold the next tier is compared with.\<close>

definition after_problems :: "string \<Rightarrow> rat \<Rightarrow> (string, json) jsmap \<Rightarrow> webhook_error list \<times> rat" where
  "after_problems prefix before t =
     (case json_get t ''afterMs'' json_finite of
        None \<Rightarrow> ([(prefix @ ''.afterMs'', AfterNotNumber)], before)
      | Some q \<Rightarrow>
          ((if q < 60000 then [(prefix @ ''.afterMs'', AfterTooSmall)] else [])
           @ (if 86400000 < q then [(prefix @ ''.afterMs'', AfterTooLarge)] else [])
           @ (if q \<le> before then [(prefix @ ''.afterMs'', AfterNotIncreasing before)] else []), q))"

fun tier_problems :: "string list option \<Rightarrow> nat \<Rightarrow> rat \<Rightarrow> json list \<Rightarrow> webhook_error list" where
  "tier_problems available i before [] = []"
| "tier_problems available i before (j # js) =
     (let prefix = at_index ''escalation.tiers'' i in
      case json_object j of
        None \<Rightarrow> (prefix, TierNotObject) # tier_problems available (i + 1) before js
      | Some t \<Rightarrow>
          fst (after_problems prefix before t) @ tier_targets_problems available prefix t
          @ field_check t ''label'' is_text (prefix @ ''.label'', NotText)
          @ tier_problems available (i + 1) (snd (after_problems prefix before t)) js)"

definition validate_escalation_policy :: "json \<Rightarrow> string list option \<Rightarrow> webhook_error list" where
  "validate_escalation_policy input available =
     (case json_object input of
        None \<Rightarrow> [(''escalation'', NotObject)]
      | Some obj \<Rightarrow>
          field_check obj ''enabled'' is_bool (''escalation.enabled'', NotBoolean)
          @ field_check obj ''triggerSeverity'' is_severity (''escalation.triggerSeverity'', NotSeverity)
          @ field_check obj ''cooldownMs'' (finite_at_least 0) (''escalation.cooldownMs'', CooldownNotNumber)
          @ (case js_get obj ''tiers'' of
               None \<Rightarrow> []
             | Some j \<Rightarrow>
                 (case json_array j of
                    None \<Rightarrow> [(''escalation.tiers'', NotArray)]
                  | Some js \<Rightarrow>
                      (if 3 < length js then [(''escalation.tiers'', TooManyTiers)] else [])
                      @ tier_problems available 0 0 js)))"

definition sanitize_tier :: "json \<Rightarrow> escalation_tier option" where
  "sanitize_tier j =
     (case json_object j of
        None \<Rightarrow> None
      | Some t \<Rightarrow>
          (case json_get t ''afterMs'' json_finite of
             None \<Rightarrow> None
           | Some q \<Rightarrow>
               if q < 60000 then None
               else
                 Some \<lparr>et_after = min q 86400000,
                       et_targets = map js_trim (filter (\<lambda>s. js_trim s \<noteq> [])
                         (List.map_filter json_text (take 5 (nullish (json_get t ''targetIds'' json_array) [])))),
                       et_label = map_option (take 100) (json_get t ''label'' json_text)\<rparr>))"

definition sanitize_escalation_policy :: "json \<Rightarrow> escalation_policy" where
  "sanitize_escalation_policy raw =
     (case json_object raw of
        None \<Rightarrow> default_escalation_policy
      | Some obj \<Rightarrow>
          \<lparr>ep_enabled = nullish (json_get obj ''enabled'' json_bool) False,
           ep_trigger = Some (nullish (json_get obj ''triggerSeverity'' json_severity) SevCritical),
           ep_tiers = List.map_filter sanitize_tier (take 3 (nullish (json_get obj ''tiers'' json_array) [])),
           ep_cooldown = Some (number_or obj ''cooldownMs'' 0 300000)\<rparr>)"

text \<open>
  The configuration file holds the policy as it was sent; \<open>maybeEscalate\<close> reads its fields without
  sanitizing. For a value that passed the validator that is the following reading.
\<close>

definition raw_tier :: "json \<Rightarrow> escalation_tier" where
  "raw_tier j =
     (let t = json_fields j in
      \<lparr>et_after = nullish (json_get t ''afterMs'' json_finite) 0,
       et_targets = List.map_filter json_text (nullish (json_get t ''targetIds'' json_array) []),
       et_label = json_get t ''label'' json_text\<rparr>)"

definition raw_policy :: "json \<Rightarrow> escalation_policy" where
  "raw_policy j =
     (let obj = json_fields j in
      \<lparr>ep_enabled = nullish (json_get obj ''enabled'' json_bool) False,
       ep_trigger = json_get obj ''triggerSeverity'' json_severity,
       ep_tiers = map raw_tier (nullish (json_get obj ''tiers'' json_array) []),
       ep_cooldown = json_get obj ''cooldownMs'' json_finite\<rparr>)"

section \<open>Decisions\<close>

record escalation_state =
  es_since :: "int option"
  es_severity :: "alert_severity option"
  es_last_tier :: int
  es_notified :: "(nat, int) jsmap"

definition reset_escalation_state :: escalation_state where
  "reset_escalation_state = \<lparr>es_since = None, es_severity = None, es_last_tier = - 1, es_notified = []\<rparr>"

record escalation_decision =
  ed_escalate :: bool
  ed_tier_index :: "nat option"
  ed_tier :: "escalation_tier option"
  ed_targets :: "string list"
  ed_duration :: int
  ed_reason :: string

definition no_action :: "int \<Rightarrow> string \<Rightarrow> escalation_decision" where
  "no_action duration reason =
     \<lparr>ed_escalate = False, ed_tier_index = None, ed_tier = None, ed_targets = [], ed_duration = duration,
      ed_reason = reason\<rparr>"

definition is_qualifying_severity :: "alert_severity \<Rightarrow> alert_severity \<Rightarrow> bool" where
  "is_qualifying_severity current trigger = (severity_priority trigger \<le> severity_priority current)"

text \<open>\<open>Math.round(ms / 1000)\<close> as text.\<close>

definition seconds_text :: "rat \<Rightarrow> string" where
  "seconds_text ms = show_int (round_half_up (ms / 1000)) @ ''s''"

definition tier_fires :: "nat \<Rightarrow> escalation_tier \<Rightarrow> int \<Rightarrow> string \<Rightarrow> escalation_decision" where
  "tier_fires i t duration reason =
     \<lparr>ed_escalate = True, ed_tier_index = Some i, ed_tier = Some t, ed_targets = et_targets t, ed_duration = duration,
      ed_reason = ''tier '' @ show_nat (i + 1) @ reason\<rparr>"

definition again_reason :: "int \<Rightarrow> string" where
  "again_reason duration =
     '' re-notification (cooldown expired, '' @ seconds_text (of_int duration) @ '' persisted)''"

definition first_reason :: "int \<Rightarrow> rat \<Rightarrow> string" where
  "first_reason duration after =
     '' triggered ('' @ seconds_text (of_int duration) @ '' persisted, threshold '' @ seconds_text after @ '')''"

text \<open>The loop over the tiers; the list holds the tiers from the highest one down.\<close>

fun pick_tier :: "escalation_state \<Rightarrow> rat \<Rightarrow> int \<Rightarrow> int \<Rightarrow> (nat \<times> escalation_tier) list \<Rightarrow> escalation_decision option" where
  "pick_tier st cooldown duration now [] = None"
| "pick_tier st cooldown duration now ((i, t) # ts) =
     (if of_int duration < et_after t then pick_tier st cooldown duration now ts
      else if int i \<le> es_last_tier st then
        (if of_int (now - nullish (js_get (es_notified st) i) 0) < cooldown then pick_tier st cooldown duration now ts
         else Some (tier_fires i t duration (again_reason duration)))
      else Some (tier_fires i t duration (first_reason duration (et_after t))))"

definition policy_trigger :: "escalation_policy \<Rightarrow> alert_severity" where
  "policy_trigger p = nullish (ep_trigger p) SevCritical"

definition policy_cooldown :: "escalation_policy \<Rightarrow> rat" where
  "policy_cooldown p = nullish (ep_cooldown p) 300000"

definition quoted :: "string \<Rightarrow> string" where
  "quoted s = [CHR 0x27] @ s @ [CHR 0x27]"

definition below_trigger :: "alert_severity \<Rightarrow> alert_severity \<Rightarrow> string" where
  "below_trigger current trigger =
     ''current severity '' @ quoted (severity_name current) @ '' below trigger threshold '' @ quoted (severity_name trigger)"

definition evaluate_escalation ::
  "escalation_policy \<Rightarrow> alert_severity \<Rightarrow> escalation_state \<Rightarrow> int \<Rightarrow> escalation_decision" where
  "evaluate_escalation p current st now =
     (if \<not> ep_enabled p then no_action 0 ''escalation policy disabled''
      else if ep_tiers p = [] then no_action 0 ''no escalation tiers configured''
      else if \<not> is_qualifying_severity current (policy_trigger p) then
        no_action 0 (below_trigger current (policy_trigger p))
      else
        (case es_since st of
           None \<Rightarrow> no_action 0 ''qualifying state not yet tracked (will start tracking)''
         | Some since \<Rightarrow>
             (let duration = now - since in
              case pick_tier st (policy_cooldown p) duration now (rev (enumerate 0 (ep_tiers p))) of
                Some d \<Rightarrow> d
              | None \<Rightarrow> no_action duration
                  (''qualifying for '' @ seconds_text (of_int duration) @ '', no tier threshold reached yet''))))"

definition update_escalation_state ::
  "alert_severity \<Rightarrow> alert_severity \<Rightarrow> escalation_decision \<Rightarrow> int \<Rightarrow> escalation_state \<Rightarrow> escalation_state" where
  "update_escalation_state current trigger d now st =
     (if \<not> is_qualifying_severity current trigger then reset_escalation_state
      else if es_since st = None then st\<lparr>es_since := Some now, es_severity := Some current\<rparr>
      else
        (let st1 = (if severity_priority (nullish (es_severity st) SevOk) < severity_priority current
                    then st\<lparr>es_severity := Some current\<rparr> else st)
         in case (ed_escalate d, ed_tier_index d) of
              (True, Some i) \<Rightarrow>
                st1\<lparr>es_last_tier := max (es_last_tier st1) (int i), es_notified := js_set i now (es_notified st1)\<rparr>
            | _ \<Rightarrow> st1))"

section \<open>Status for the dashboard\<close>

datatype tier_state = TierInactive | TierPending | TierTriggeredState | TierCooldown

record tier_status =
  ts_index :: nat
  ts_label :: string
  ts_after :: rat
  ts_targets :: "string list"
  ts_status :: tier_state
  ts_remaining :: "rat option"
  ts_notified :: "int option"

definition tier_label :: "nat \<Rightarrow> escalation_tier \<Rightarrow> string" where
  "tier_label i t = (if truthy_str (et_label t) then str_or_empty (et_label t) else ''Tier '' @ show_nat (i + 1))"

definition compute_tier_status ::
  "escalation_state \<Rightarrow> rat \<Rightarrow> int \<Rightarrow> nat \<Rightarrow> escalation_tier \<Rightarrow> tier_status" where
  "compute_tier_status st cooldown now i t =
     (let notified = js_get (es_notified st) i;
          row = (\<lambda>status remaining. \<lparr>ts_index = i, ts_label = tier_label i t, ts_after = et_after t, ts_targets = et_targets t,
                  ts_status = status, ts_remaining = remaining, ts_notified = notified\<rparr>)
      in case es_since st of
           None \<Rightarrow> row TierInactive None
         | Some since \<Rightarrow>
             (let duration = of_int (now - since) :: rat in
              if duration < et_after t then row TierPending (Some (et_after t - duration))
              else if int i \<le> es_last_tier st then
                (case notified of
                   Some n \<Rightarrow>
                     if of_int (now - n) < cooldown then row TierCooldown (Some (cooldown - of_int (now - n)))
                     else row TierTriggeredState None
                 | None \<Rightarrow> row TierTriggeredState None)
              else row TierPending (Some 0)))"

record escalation_status =
  ss_enabled :: bool
  ss_tracking :: bool
  ss_severity :: "alert_severity option"
  ss_duration :: int
  ss_since :: "int option"
  ss_trigger :: alert_severity
  ss_cooldown :: rat
  ss_tier :: int
  ss_tier_label :: "string option"
  ss_tiers :: "tier_status list"
  ss_next :: "nat option"
  ss_next_remaining :: "rat option"
  ss_at :: int

definition compute_escalation_status :: "escalation_policy option \<Rightarrow> escalation_state \<Rightarrow> int \<Rightarrow> escalation_status" where
  "compute_escalation_status policy st now =
     (let off = \<lparr>ss_enabled = False, ss_tracking = False, ss_severity = None, ss_duration = 0, ss_since = None,
                 ss_trigger = SevCritical, ss_cooldown = 300000, ss_tier = - 1, ss_tier_label = None, ss_tiers = [],
                 ss_next = None, ss_next_remaining = None, ss_at = now\<rparr>
      in case policy of
           None \<Rightarrow> off
         | Some p \<Rightarrow>
             if \<not> ep_enabled p then off
             else
               (let tracking = es_since st \<noteq> None;
                    tiers = map (\<lambda>(i, t). compute_tier_status st (policy_cooldown p) now i t) (enumerate 0 (ep_tiers p));
                    k = es_last_tier st;
                    next = (if tracking then List.find (\<lambda>t. ts_status t = TierPending) tiers else None)
                in \<lparr>ss_enabled = True, ss_tracking = tracking, ss_severity = es_severity st,
                    ss_duration = (case es_since st of None \<Rightarrow> 0 | Some s \<Rightarrow> now - s), ss_since = es_since st,
                    ss_trigger = policy_trigger p, ss_cooldown = policy_cooldown p, ss_tier = k,
                    ss_tier_label = (if 0 \<le> k \<and> k < int (length (ep_tiers p))
                                     then Some (tier_label (nat k) (ep_tiers p ! nat k)) else None),
                    ss_tiers = tiers, ss_next = map_option ts_index next,
                    ss_next_remaining = Option.bind next ts_remaining, ss_at = now\<rparr>))"

section \<open>Dispatch\<close>

definition resolve_escalation_targets :: "escalation_decision \<Rightarrow> webhook_target list \<Rightarrow> webhook_target list" where
  "resolve_escalation_targets d ts =
     (if ed_targets d = [] then filter wt_enabled ts else filter (\<lambda>t. wt_id t \<in> set (ed_targets d)) ts)"

definition build_escalation_payload ::
  "(int \<Rightarrow> string) \<Rightarrow> alert_evaluation \<Rightarrow> alert_severity option \<Rightarrow> escalation_decision \<Rightarrow> webhook_payload" where
  "build_escalation_payload iso_text e previous d =
     (build_payload iso_text e previous)\<lparr>pl_escalation :=
        Some \<lparr>en_tier = ed_tier_index d, en_label = Option.bind (ed_tier d) et_label, en_duration = ed_duration d,
              en_reason = ed_reason d\<rparr>\<rparr>"

text \<open>
  The part of \<open>maybeEscalate\<close> before the deliveries: the state is updated, a reset is recorded, and the
  decision with its targets is given to the deliveries.
\<close>

definition begin_escalation ::
  "webhook_config \<Rightarrow> alert_evaluation \<Rightarrow> escalation_state \<Rightarrow> escalation_event counted_file
   \<Rightarrow> escalation_state \<times> escalation_event counted_file \<times> (escalation_decision \<times> webhook_target list) option" where
  "begin_escalation c e st trail =
     (case map_option raw_policy (wc_escalation c) of
        None \<Rightarrow> (st, trail, None)
      | Some p \<Rightarrow>
          if \<not> ep_enabled p \<or> ep_tiers p = [] then (st, trail, None)
          else
            (let now = ev_at e; current = ev_overall e;
                 d = evaluate_escalation p current st now;
                 st' = update_escalation_state current (policy_trigger p) d now st;
                 trail' = (case (es_since st, es_since st') of
                             (Some since, None) \<Rightarrow>
                               fst (append_escalation_reset
                                 (case es_severity st of None \<Rightarrow> ''unknown'' | Some v \<Rightarrow> severity_name v) (now - since) now trail)
                           | _ \<Rightarrow> trail);
                 ts = resolve_escalation_targets d (wc_targets c)
             in if \<not> ed_escalate d \<or> ts = [] then (st', trail', None) else (st', trail', Some (d, ts))))"

definition outcome_of :: "delivery_result \<Rightarrow> escalation_outcome" where
  "outcome_of r =
     \<lparr>eo_target = dr_target r, eo_name = dr_name r, eo_success = dr_success r, eo_status = dr_status r,
      eo_attempts = dr_attempts r, eo_duration = dr_duration r, eo_error = dr_error r\<rparr>"

text \<open>The event that is recorded when the deliveries of an escalation are done.\<close>

definition escalation_recorded ::
  "int \<Rightarrow> alert_severity \<Rightarrow> escalation_decision \<Rightarrow> delivery_result list \<Rightarrow> escalation_event" where
  "escalation_recorded now current d rs =
     (let new = ed_tier_index d \<noteq> None \<and> contains_text ''triggered'' (ed_reason d);
          outcomes = map outcome_of rs;
          good = length (filter eo_success outcomes)
      in \<lparr>ee_id = 0, ee_ts = now, ee_type = (if new then TierTriggered else TierRenotified), ee_tier = ed_tier_index d,
          ee_label = Option.bind (ed_tier d) et_label, ee_severity = severity_name current, ee_duration = ed_duration d,
          ee_reason = ed_reason d, ee_deliveries = outcomes, ee_good = good,
          ee_bad = int (length outcomes) - int good\<rparr>)"

end
