(* ===== verification/Alerting.thy ===== *)
theory Alerting
  imports Escalation
begin

text \<open>
  The alerting of the dashboard as it runs: the handler of the metrics request in
  \<open>dashboard/server/routes/task-board.ts\<close> evaluates the rules, extends the alert history, and starts
  the deliveries of \<open>maybeDeliverWebhooks\<close> and \<open>maybeEscalate\<close> without waiting for them. A started
  dispatch is a flight; each of its targets completes on its own, and when all have, the results are
  recorded. The two configuration handlers are the other operations. The files are the parts of a
  world, the module variables its two states.
\<close>

datatype flight_kind = AlertFlight | EscalationFlight escalation_decision

record flight =
  fl_kind :: flight_kind
  fl_at :: int
  fl_current :: alert_severity
  fl_previous :: "alert_severity option"
  fl_payload :: webhook_payload
  fl_targets :: "webhook_target list"
  fl_timeout :: "rat option"
  fl_retries :: "rat option"
  fl_results :: "delivery_result option list"

record alert_world =
  aw_rules :: "json option"
  aw_hooks :: "json option"
  aw_history :: alert_history
  aw_deliveries :: "delivery_event counted_file"
  aw_trail :: "escalation_event counted_file"
  aw_delivery :: delivery_state
  aw_escalation :: escalation_state
  aw_flights :: "flight list"

definition new_alert_world :: alert_world where
  "new_alert_world =
     \<lparr>aw_rules = None, aw_hooks = None, aw_history = None, aw_deliveries = None, aw_trail = None,
      aw_delivery = fresh_delivery_state, aw_escalation = reset_escalation_state, aw_flights = []\<rparr>"

definition new_flight ::
  "flight_kind \<Rightarrow> alert_evaluation \<Rightarrow> alert_severity option \<Rightarrow> webhook_payload \<Rightarrow> webhook_config \<Rightarrow> webhook_target list \<Rightarrow> flight" where
  "new_flight k e previous p c ts =
     \<lparr>fl_kind = k, fl_at = ev_at e, fl_current = ev_overall e, fl_previous = previous, fl_payload = p, fl_targets = ts,
      fl_timeout = wc_timeout c, fl_retries = wc_retries c, fl_results = map (\<lambda>_. None) ts\<rparr>"

definition start_alert :: "(int \<Rightarrow> string) \<Rightarrow> alert_evaluation \<Rightarrow> alert_world \<Rightarrow> alert_world" where
  "start_alert iso_text e w =
     (let c = read_webhook_config (aw_hooks w); (st, go) = begin_deliveries c e (aw_delivery w) in
      case go of
        None \<Rightarrow> w\<lparr>aw_delivery := st\<rparr>
      | Some (previous, ts) \<Rightarrow>
          w\<lparr>aw_delivery := st,
            aw_flights := aw_flights w @ [new_flight AlertFlight e previous (build_payload iso_text e previous) c ts]\<rparr>)"

text \<open>The route passes \<open>null\<close> as the previous severity of an escalation.\<close>

definition start_escalation :: "(int \<Rightarrow> string) \<Rightarrow> alert_evaluation \<Rightarrow> alert_world \<Rightarrow> alert_world" where
  "start_escalation iso_text e w =
     (let c = read_webhook_config (aw_hooks w); (st, trail, go) = begin_escalation c e (aw_escalation w) (aw_trail w);
          w' = w\<lparr>aw_escalation := st, aw_trail := trail\<rparr>
      in case go of
           None \<Rightarrow> w'
         | Some (d, ts) \<Rightarrow>
             w'\<lparr>aw_flights := aw_flights w'
                  @ [new_flight (EscalationFlight d) e None (build_escalation_payload iso_text e None d) c ts]\<rparr>)"

definition read_metrics :: "(int \<Rightarrow> string) \<Rightarrow> alert_metrics \<Rightarrow> int \<Rightarrow> alert_world \<Rightarrow> alert_world" where
  "read_metrics iso_text m now w =
     (let e = evaluate_alerts m (read_alert_config (aw_rules w)) now;
          w1 = w\<lparr>aw_history := fst (maybe_append_alert_event e (aw_history w))\<rparr>
      in start_escalation iso_text e (start_alert iso_text e w1))"

fun flight_trigger :: "flight_kind \<Rightarrow> alert_severity \<Rightarrow> string" where
  "flight_trigger AlertFlight v = severity_name v"
| "flight_trigger (EscalationFlight d) v = ''escalation-tier-'' @ show_nat (nullish (ed_tier_index d) 0 + 1)"

text \<open>All targets are done: the results go to the delivery history, and those of an escalation to its trail.\<close>

definition record_flight :: "(string \<Rightarrow> url_parts option) \<Rightarrow> int \<Rightarrow> flight \<Rightarrow> alert_world \<Rightarrow> alert_world" where
  "record_flight parse clock f w =
     (let rs = List.map_filter id (fl_results f);
          w1 = w\<lparr>aw_deliveries := fst (append_delivery_events (mask_url parse) clock
                   (with_contexts (fl_targets f) (flight_trigger (fl_kind f) (fl_current f)) (fl_previous f) (fl_at f) rs)
                   (aw_deliveries w))\<rparr>
      in case fl_kind f of
           AlertFlight \<Rightarrow> w1
         | EscalationFlight d \<Rightarrow>
             w1\<lparr>aw_trail := fst (append_escalation_event (escalation_recorded (fl_at f) (fl_current f) d rs) (aw_trail w1))\<rparr>)"

definition deliver_target :: "webhook_net \<Rightarrow> flight \<Rightarrow> nat \<Rightarrow> delivery_result" where
  "deliver_target net f j =
     deliver_webhook net (fl_targets f ! j) (fl_payload f)
       (Some (nullish (fl_timeout f) 10000)) (Some (nullish (fl_retries f) 3))"

definition target_done ::
  "(string \<Rightarrow> url_parts option) \<Rightarrow> webhook_net \<Rightarrow> int \<Rightarrow> nat \<Rightarrow> nat \<Rightarrow> alert_world \<Rightarrow> alert_world" where
  "target_done parse net clock i j w =
     (if i < length (aw_flights w) \<and> j < length (fl_targets (aw_flights w ! i))
         \<and> fl_results (aw_flights w ! i) ! j = None
      then
        (let f = aw_flights w ! i;
             r = deliver_target net f j;
             f' = f\<lparr>fl_results := (fl_results f)[j := Some r]\<rparr>;
             w1 = (if fl_kind f = AlertFlight then w\<lparr>aw_delivery := delivery_done (fl_at f) r (aw_delivery w)\<rparr> else w)
         in if list_all (\<lambda>x. x \<noteq> None) (fl_results f')
            then record_flight parse clock f' (w1\<lparr>aw_flights := take i (aw_flights w) @ drop (i + 1) (aw_flights w)\<rparr>)
            else w1\<lparr>aw_flights := (aw_flights w)[i := f']\<rparr>)
      else w)"

section \<open>The configuration handlers\<close>

definition put_alert_config :: "json \<Rightarrow> alert_world \<Rightarrow> alert_world \<times> ((string \<times> alert_problem) list + alert_config)" where
  "put_alert_config body w =
     (let errors = validate_alert_config body in
      if errors \<noteq> [] then (w, Inl errors)
      else (w\<lparr>aw_rules := Some (write_alert_config (merge_with_defaults body))\<rparr>, Inr (merge_with_defaults body)))"

definition keep_secret :: "webhook_target list \<Rightarrow> webhook_target \<Rightarrow> webhook_target" where
  "keep_secret existing t =
     (if \<not> truthy_str (wt_secret t) then
        (case List.find (\<lambda>x. wt_id x = wt_id t) (rev existing) of
           None \<Rightarrow> t\<lparr>wt_secret := None\<rparr>
         | Some x \<Rightarrow> t\<lparr>wt_secret := (if truthy_str (wt_secret x) then wt_secret x else None)\<rparr>)
      else t)"

definition put_webhook_config ::
  "(string \<Rightarrow> url_parts option) \<Rightarrow> json \<Rightarrow> alert_world
   \<Rightarrow> alert_world \<times> (webhook_error list + (webhook_config \<times> redacted_target list))" where
  "put_webhook_config parse body w =
     (let errors = validate_webhook_config parse body in
      if errors \<noteq> [] then (w, Inl errors)
      else
        (let c = sanitize_config body;
             c' = c\<lparr>wc_targets := map (keep_secret (wc_targets (read_webhook_config (aw_hooks w)))) (wc_targets c)\<rparr>
         in (w\<lparr>aw_hooks := Some (write_webhook_config c')\<rparr>, Inr (redact_config c'))))"

section \<open>Runs\<close>

datatype alert_op =
    MetricsOp alert_metrics int
  | TargetOp webhook_net int nat nat
  | PutRulesOp json
  | PutHooksOp json
  | RestartServer

text \<open>A restart keeps the files and forgets the states and the deliveries under way.\<close>

fun alert_step :: "(string \<Rightarrow> url_parts option) \<Rightarrow> (int \<Rightarrow> string) \<Rightarrow> alert_op \<Rightarrow> alert_world \<Rightarrow> alert_world" where
  "alert_step parse iso_text (MetricsOp m now) w = read_metrics iso_text m now w"
| "alert_step parse iso_text (TargetOp net clock i j) w = target_done parse net clock i j w"
| "alert_step parse iso_text (PutRulesOp body) w = fst (put_alert_config body w)"
| "alert_step parse iso_text (PutHooksOp body) w = fst (put_webhook_config parse body w)"
| "alert_step parse iso_text RestartServer w =
     w\<lparr>aw_delivery := fresh_delivery_state, aw_escalation := reset_escalation_state, aw_flights := []\<rparr>"

inductive alert_reachable :: "(string \<Rightarrow> url_parts option) \<Rightarrow> (int \<Rightarrow> string) \<Rightarrow> alert_world \<Rightarrow> bool" for parse iso_text where
  start: "alert_reachable parse iso_text new_alert_world"
| step: "alert_reachable parse iso_text w \<Longrightarrow> alert_reachable parse iso_text (alert_step parse iso_text op w)"

end
