(* ===== verification/Escalation_Correct.thy ===== *)
theory Escalation_Correct
  imports Escalation
begin

text \<open>
  What the escalation promises: its state is a function of the observations since the severity began
  to qualify, it fires the highest tier that is due and none too early, the status it displays agrees
  with the decision, and the two validators agree. Then the places where it does less or more than its
  header says.
\<close>

section \<open>The decision\<close>

definition tier_due :: "escalation_state \<Rightarrow> rat \<Rightarrow> int \<Rightarrow> int \<Rightarrow> nat \<times> escalation_tier \<Rightarrow> bool" where
  "tier_due st cooldown duration now it \<longleftrightarrow>
     et_after (snd it) \<le> of_int duration
     \<and> (int (fst it) \<le> es_last_tier st \<longrightarrow> cooldown \<le> of_int (now - nullish (js_get (es_notified st) (fst it)) 0))"

lemma pick_tier_find:
  "pick_tier st cooldown duration now its =
     map_option (\<lambda>(i, t). tier_fires i t duration
        (if int i \<le> es_last_tier st then again_reason duration else first_reason duration (et_after t)))
       (List.find (tier_due st cooldown duration now) its)"
  by (induction st cooldown duration now its rule: pick_tier.induct) (auto simp: tier_due_def)

lemma tier_fires_sel [simp]:
  "ed_escalate (tier_fires i t d r)" "ed_tier_index (tier_fires i t d r) = Some i" "ed_tier (tier_fires i t d r) = Some t"
  "ed_targets (tier_fires i t d r) = et_targets t" "ed_duration (tier_fires i t d r) = d"
  by (simp_all add: tier_fires_def)

lemma no_action_sel [simp]:
  "\<not> ed_escalate (no_action d r)" "ed_tier_index (no_action d r) = None" "ed_duration (no_action d r) = d"
  by (simp_all add: no_action_def)

definition escalates :: "escalation_policy \<Rightarrow> alert_severity \<Rightarrow> bool" where
  "escalates p v \<longleftrightarrow> ep_enabled p \<and> ep_tiers p \<noteq> [] \<and> is_qualifying_severity v (policy_trigger p)"

lemma evaluate_index:
  "ed_tier_index (evaluate_escalation p v st now) =
     (case es_since st of
        None \<Rightarrow> None
      | Some s \<Rightarrow>
          if escalates p v
          then map_option fst (List.find (tier_due st (policy_cooldown p) (now - s) now) (rev (enumerate 0 (ep_tiers p))))
          else None)"
  by (auto simp: evaluate_escalation_def escalates_def pick_tier_find Let_def split: option.splits)

lemma evaluate_escalate: "ed_escalate (evaluate_escalation p v st now) \<longleftrightarrow> ed_tier_index (evaluate_escalation p v st now) \<noteq> None"
  by (auto simp: evaluate_escalation_def pick_tier_find Let_def split: option.splits)

lemma find_rev_enumerate:
  assumes "map_option fst (List.find P (rev (enumerate 0 xs))) = Some i"
  shows "i < length xs \<and> P (i, xs ! i) \<and> (\<forall>j < length xs. P (j, xs ! j) \<longrightarrow> j \<le> i)"
  using assms
proof (induction xs rule: rev_induct)
  case (snoc x xs)
  show ?case
  proof (cases "P (length xs, x)")
    case True
    then show ?thesis using snoc.prems by (auto simp: enumerate_append_eq)
  next
    case False
    then have "map_option fst (List.find P (rev (enumerate 0 xs))) = Some i"
      using snoc.prems by (simp add: enumerate_append_eq)
    from snoc.IH [OF this] show ?thesis using False by (auto simp: nth_append less_Suc_eq)
  qed
qed simp

lemma find_rev_enumerate_None: "List.find P (rev (enumerate 0 xs)) = None \<longleftrightarrow> (\<forall>j < length xs. \<not> P (j, xs ! j))"
  by (auto simp: find_None_iff in_set_enumerate_eq)

section \<open>The state is a view of the history\<close>

text \<open>An observation is a severity and its time; a history lists the newest one first.\<close>

type_synonym observations = "(alert_severity \<times> int) list"

fun state_after :: "escalation_policy \<Rightarrow> observations \<Rightarrow> escalation_state" where
  "state_after p [] = reset_escalation_state"
| "state_after p ((v, t) # h) =
     update_escalation_state v (policy_trigger p) (evaluate_escalation p v (state_after p h) t) t (state_after p h)"

definition decision_after :: "escalation_policy \<Rightarrow> observations \<Rightarrow> alert_severity \<Rightarrow> int \<Rightarrow> escalation_decision" where
  "decision_after p h v t = evaluate_escalation p v (state_after p h) t"

text \<open>The observations since the severity began to qualify, and when a tier was notified among them.\<close>

definition episode :: "escalation_policy \<Rightarrow> observations \<Rightarrow> observations" where
  "episode p h = takeWhile (\<lambda>(v, t). is_qualifying_severity v (policy_trigger p)) h"

fun notifications :: "escalation_policy \<Rightarrow> observations \<Rightarrow> nat \<Rightarrow> int list" where
  "notifications p [] i = []"
| "notifications p ((v, t) # h) i =
     (if is_qualifying_severity v (policy_trigger p)
      then (if ed_tier_index (decision_after p h v t) = Some i then [t] else []) @ notifications p h i else [])"

definition newest :: "int list \<Rightarrow> int option" where
  "newest ts = (case ts of [] \<Rightarrow> None | t # _ \<Rightarrow> Some t)"

definition tier_reached :: "escalation_policy \<Rightarrow> observations \<Rightarrow> int \<Rightarrow> bool" where
  "tier_reached p h k \<longleftrightarrow>
     (k = - 1 \<and> (\<forall>i. notifications p h i = []))
     \<or> (\<exists>i. k = int i \<and> notifications p h i \<noteq> [] \<and> (\<forall>j > i. notifications p h j = []))"

lemma episode_Nil_notifications: "episode p h = [] \<Longrightarrow> notifications p h i = []"
  by (cases h) (auto simp: episode_def split: if_splits)

lemma max_severity_Cons:
  "xs \<noteq> [] \<Longrightarrow> Max (fst ` set ((v, t) # xs)) = (if severity_priority (Max (fst ` set xs)) < severity_priority v
     then v else (Max (fst ` set xs) :: alert_severity))"
  by (auto simp: max_def less_eq_alert_severity_def not_less)

lemma state_view:
  "es_since (state_after p h) = (if episode p h = [] then None else Some (snd (last (episode p h))))
   \<and> es_severity (state_after p h) = (if episode p h = [] then None else Some (Max (fst ` set (episode p h))))
   \<and> js_get (es_notified (state_after p h)) i = newest (notifications p h i)
   \<and> tier_reached p h (es_last_tier (state_after p h))"
proof (induction h arbitrary: i)
  case Nil
  then show ?case by (simp add: reset_escalation_state_def episode_def newest_def tier_reached_def)
next
  case (Cons x h)
  obtain v t where x: "x = (v, t)" by fastforce
  let ?st = "state_after p h" and ?d = "evaluate_escalation p v (state_after p h) t"
  show ?case
  proof (cases "is_qualifying_severity v (policy_trigger p)")
    case False
    then show ?thesis
      by (simp add: x update_escalation_state_def reset_escalation_state_def episode_def newest_def tier_reached_def)
  next
    case True
    have ep: "episode p (x # h) = (v, t) # episode p h" using True by (simp add: x episode_def)
    show ?thesis
    proof (cases "episode p h = []")
      case ep0: True
      have s: "es_since ?st = None" using Cons.IH ep0 by simp
      have n: "notifications p h j = []" for j using ep0 by (rule episode_Nil_notifications)
      have none: "ed_tier_index ?d = None" using s by (simp add: evaluate_index)
      have "state_after p (x # h) = ?st\<lparr>es_since := Some t, es_severity := Some v\<rparr>"
        using True s by (simp add: x update_escalation_state_def)
      moreover have "notifications p (x # h) j = []" for j using True none n by (simp add: x decision_after_def)
      ultimately show ?thesis
        using Cons.IH [of i] n by (auto simp: ep ep0 newest_def tier_reached_def)
    next
      case ep1: False
      obtain s m where s: "es_since ?st = Some s" and m: "es_severity ?st = Some m"
        and sm: "s = snd (last (episode p h))" "m = Max (fst ` set (episode p h))"
        using Cons.IH ep1 by auto
      let ?st1 = "if severity_priority m < severity_priority v then ?st\<lparr>es_severity := Some v\<rparr> else ?st"
      have st1: "es_since ?st1 = Some s" "es_notified ?st1 = es_notified ?st" "es_last_tier ?st1 = es_last_tier ?st"
        "es_severity ?st1 = Some (Max (fst ` set (episode p (x # h))))"
        using s m max_severity_Cons [OF ep1, of v t] by (simp_all add: ep sm)
      have n: "notifications p (x # h) j = (if ed_tier_index ?d = Some j then [t] else []) @ notifications p h j" for j
        using True by (simp add: x decision_after_def)
      have l: "snd (last (episode p (x # h))) = s" using ep1 by (simp add: ep sm)
      have IH: "js_get (es_notified ?st) j = newest (notifications p h j)" "tier_reached p h (es_last_tier ?st)" for j
        using Cons.IH by blast+
      show ?thesis
      proof (cases "ed_tier_index ?d")
        case None
        then have "\<not> ed_escalate ?d" by (simp add: evaluate_escalate)
        then have "state_after p (x # h) = ?st1"
          using True s m by (simp add: x update_escalation_state_def Let_def)
        moreover have "notifications p (x # h) = notifications p h" using None by (intro ext) (simp add: n)
        ultimately show ?thesis using st1 IH l by (simp add: ep tier_reached_def)
      next
        case (Some k)
        then have "ed_escalate ?d" by (simp add: evaluate_escalate)
        then have st: "state_after p (x # h) = ?st1\<lparr>es_last_tier := max (es_last_tier ?st1) (int k), es_notified := js_set k t (es_notified ?st1)\<rparr>"
          using True s m Some by (simp add: x update_escalation_state_def Let_def)
        have "tier_reached p (x # h) (max (es_last_tier ?st) (int k))"
          using IH(2) Some by (auto simp: tier_reached_def n max_def)
        then show ?thesis using st1 IH(1) [of i] l Some by (simp add: ep st n newest_def)
      qed
    qed
  qed
qed

text \<open>
  C19: The escalation state is an abstraction of the observations: the clock shows the first observation
  of the current episode, the severity is the worst of the episode, the notification times are the
  newest of each tier in the episode, and the last tier is the highest one notified. Nothing of an
  earlier episode is left.
\<close>

theorem escalation_state_views_the_history:
  "es_since (state_after p h) = (if episode p h = [] then None else Some (snd (last (episode p h))))
   \<and> es_severity (state_after p h) = (if episode p h = [] then None else Some (Max (fst ` set (episode p h))))
   \<and> js_get (es_notified (state_after p h)) i = newest (notifications p h i)
   \<and> tier_reached p h (es_last_tier (state_after p h))"
  by (rule state_view)

section \<open>Which tier fires\<close>

text \<open>
  A tier is due when the episode is as old as its threshold and, when it or a higher tier has been
  notified in the episode, the cooldown since its own last notification is over; a tier that was never
  notified counts as notified at time 0.
\<close>

definition due_tiers :: "escalation_policy \<Rightarrow> observations \<Rightarrow> int \<Rightarrow> nat set" where
  "due_tiers p h t =
     {i. i < length (ep_tiers p) \<and> et_after (ep_tiers p ! i) \<le> of_int (t - snd (last (episode p h)))
       \<and> ((\<exists>j \<ge> i. notifications p h j \<noteq> [])
            \<longrightarrow> policy_cooldown p \<le> of_int (t - nullish (newest (notifications p h i)) 0))}"

lemma reached_le: "tier_reached p h k \<Longrightarrow> int i \<le> k \<longleftrightarrow> (\<exists>j \<ge> i. notifications p h j \<noteq> [])"
  unfolding tier_reached_def by (smt (verit, best) not_less of_nat_le_iff of_nat_0_le_iff)

lemma decision_index:
  "ed_tier_index (decision_after p h v t) =
     (if escalates p v \<and> episode p h \<noteq> []
      then map_option fst (List.find (tier_due (state_after p h) (policy_cooldown p) (t - snd (last (episode p h))) t)
             (rev (enumerate 0 (ep_tiers p)))) else None)"
  using state_view [of p h] by (simp add: decision_after_def evaluate_index)

lemma tier_due_iff:
  "i < length (ep_tiers p) \<Longrightarrow>
   tier_due (state_after p h) (policy_cooldown p) (t - snd (last (episode p h))) t (i, ep_tiers p ! i) \<longleftrightarrow> i \<in> due_tiers p h t"
  using state_view [of p h i] reached_le [of p h "es_last_tier (state_after p h)" i] by (simp add: tier_due_def due_tiers_def)

lemma fires_highest:
  "ed_tier_index (decision_after p h v t) =
     (if escalates p v \<and> episode p h \<noteq> [] \<and> due_tiers p h t \<noteq> {} then Some (Max (due_tiers p h t)) else None)"
proof (cases "escalates p v \<and> episode p h \<noteq> []")
  case True
  let ?P = "tier_due (state_after p h) (policy_cooldown p) (t - snd (last (episode p h))) t"
  have fin: "finite (due_tiers p h t)" by (rule finite_subset [of _ "{..<length (ep_tiers p)}"]) (auto simp: due_tiers_def)
  have in_range: "i \<in> due_tiers p h t \<Longrightarrow> i < length (ep_tiers p)" for i by (simp add: due_tiers_def)
  show ?thesis
  proof (cases "List.find ?P (rev (enumerate 0 (ep_tiers p)))")
    case None
    then have "due_tiers p h t = {}"
      using tier_due_iff in_range unfolding find_rev_enumerate_None by blast
    then show ?thesis using True None by (simp add: decision_index)
  next
    case (Some it)
    then have f: "map_option fst (List.find ?P (rev (enumerate 0 (ep_tiers p)))) = Some (fst it)" by simp
    note i = find_rev_enumerate [OF f]
    have "fst it \<in> due_tiers p h t" "\<forall>j \<in> due_tiers p h t. j \<le> fst it" using i tier_due_iff in_range by blast+
    then have "due_tiers p h t \<noteq> {}" "Max (due_tiers p h t) = fst it" using fin by (auto intro: Max_eqI)
    then show ?thesis using True Some by (simp add: decision_index)
  qed
qed (auto simp: decision_index)


text \<open>
  No escalation comes too early or too often: when a tier fires, the severity has qualified in every
  observation for at least the tier's threshold, and if the same tier has fired in this episode, the
  cooldown has passed since.
\<close>

theorem escalation_respects_threshold_and_cooldown:
  assumes "ed_tier_index (decision_after p h v t) = Some i"
  shows "i < length (ep_tiers p) \<and> et_after (ep_tiers p ! i) \<le> of_int (t - snd (last (episode p h)))
    \<and> list_all (\<lambda>(v', t'). is_qualifying_severity v' (policy_trigger p)) (take (length (episode p h)) h)
    \<and> (case newest (notifications p h i) of None \<Rightarrow> True | Some n \<Rightarrow> policy_cooldown p \<le> of_int (t - n))"
proof -
  have "finite (due_tiers p h t)" by (rule finite_subset [of _ "{..<length (ep_tiers p)}"]) (auto simp: due_tiers_def)
  then have fin: "due_tiers p h t \<noteq> {} \<Longrightarrow> Max (due_tiers p h t) \<in> due_tiers p h t" by (rule Max_in)
  have "due_tiers p h t \<noteq> {}" "i = Max (due_tiers p h t)" using assms by (auto simp: fires_highest split: if_splits)
  then have due: "i \<in> due_tiers p h t" using fin by simp
  have take: "take (length (episode p h)) h = episode p h" unfolding episode_def by (rule takeWhile_eq_take [symmetric])
  have qualify: "list_all (\<lambda>(v', t'). is_qualifying_severity v' (policy_trigger p)) (episode p h)"
    by (auto simp: episode_def list_all_iff dest: set_takeWhileD)
  have "(case newest (notifications p h i) of None \<Rightarrow> True | Some n \<Rightarrow> policy_cooldown p \<le> of_int (t - n))"
  proof (cases "newest (notifications p h i)")
    case (Some n)
    then have "notifications p h i \<noteq> []" by (auto simp: newest_def)
    then have "\<exists>j \<ge> i. notifications p h j \<noteq> []" by blast
    then show ?thesis using due Some by (simp add: due_tiers_def)
  qed simp
  then show ?thesis using due qualify unfolding take by (simp add: due_tiers_def)
qed

section \<open>The display agrees with the decision\<close>

definition ready :: "tier_status \<Rightarrow> bool" where
  "ready s \<longleftrightarrow> ts_status s = TierTriggeredState \<or> (ts_status s = TierPending \<and> ts_remaining s = Some 0)"

lemma find_map: "List.find P (map f xs) = map_option f (List.find (P \<circ> f) xs)"
  by (induction xs) auto

lemma ready_due:
  assumes "es_since st = Some s" "cooldown \<le> of_int now"
  shows "ready (compute_tier_status st cooldown now i t) \<longleftrightarrow> tier_due st cooldown (now - s) now (i, t)"
  using assms by (auto simp: ready_def compute_tier_status_def tier_due_def Let_def split: option.splits)

text \<open>
  The status of the dashboard agrees with the decision: at any time after the first cooldown of the
  epoch, the tier that the next evaluation fires is the highest one that is shown as triggered and out
  of its cooldown, or as pending with no time remaining.
\<close>

theorem status_predicts_the_decision:
  assumes "escalates p v" "policy_cooldown p \<le> of_int now"
  shows "ed_tier_index (evaluate_escalation p v st now)
    = map_option ts_index (List.find ready (rev (ss_tiers (compute_escalation_status (Some p) st now))))"
proof (cases "es_since st")
  case None
  have "\<not> ready (compute_tier_status st c now i t)" for c i t
    using None by (simp add: ready_def compute_tier_status_def Let_def)
  then have "List.find ready (rev (ss_tiers (compute_escalation_status (Some p) st now))) = None"
    using assms(1) by (auto simp: compute_escalation_status_def escalates_def find_None_iff Let_def)
  then show ?thesis using None by (simp add: evaluate_index)
next
  case (Some s)
  let ?st = "\<lambda>(i, t). compute_tier_status st (policy_cooldown p) now i t"
  have tiers: "ss_tiers (compute_escalation_status (Some p) st now) = map ?st (enumerate 0 (ep_tiers p))"
    using assms(1) by (simp add: compute_escalation_status_def escalates_def Let_def)
  have "ready \<circ> ?st = tier_due st (policy_cooldown p) (now - s) now"
    using ready_due [OF Some assms(2)] by (auto simp: fun_eq_iff)
  moreover have "ts_index (?st it) = fst it" for it
    by (cases it) (simp add: compute_tier_status_def Let_def split: option.splits)
  ultimately show ?thesis
    using assms(1) Some by (simp add: evaluate_index tiers rev_map find_map option.map_comp o_def)
qed

section \<open>The two validators\<close>

definition tier_ok :: "escalation_tier \<Rightarrow> bool" where
  "tier_ok t \<longleftrightarrow> 60000 \<le> et_after t \<and> et_after t \<le> 86400000 \<and> length (et_targets t) \<le> 5
     \<and> list_all (\<lambda>s. js_trim s \<noteq> []) (et_targets t)"

definition policy_ok :: "escalation_policy \<Rightarrow> bool" where
  "policy_ok p \<longleftrightarrow> length (ep_tiers p) \<le> 3 \<and> sorted_wrt (\<lambda>s t. et_after s < et_after t) (ep_tiers p)
     \<and> list_all tier_ok (ep_tiers p) \<and> 0 \<le> policy_cooldown p"

lemma inline_after_eq: "inline_after = after_problems"
  by (intro ext) (simp add: inline_after_def after_problems_def)

definition known_ids :: "string list \<Rightarrow> string list option" where
  "known_ids ids = (if ids = [] then None else Some ids)"

lemma inline_target_eq: "inline_target_problems ids = tier_target_problems (known_ids ids)"
proof (intro ext)
  fix prefix k j
  show "inline_target_problems ids prefix k j = tier_target_problems (known_ids ids) prefix k j"
    by (cases j) (auto simp: known_ids_def inline_target_problems_def tier_target_problems_def non_blank_def Let_def)
qed

lemma inline_targets_eq: "inline_tier_targets ids = tier_targets_problems (known_ids ids)"
  by (intro ext) (simp only: inline_tier_targets_def tier_targets_problems_def inline_target_eq)

lemma inline_tiers_at: "inline_tiers ids i before js = tier_problems (known_ids ids) i before js"
  by (induction ids i before js rule: inline_tiers.induct)
    (simp_all only: inline_tiers.simps tier_problems.simps inline_after_eq inline_targets_eq Let_def split: option.splits, auto)

lemma inline_tiers_eq: "inline_tiers ids = tier_problems (known_ids ids)"
  by (intro ext) (rule inline_tiers_at)

text \<open>
  The webhook module carries a copy of the escalation validator, to avoid a circular import. The copy
  agrees with the original: on every object it reports the same problems at the same fields, when the
  original is given the ids of the configured targets, and no ids when there are none.
\<close>

theorem inlined_validator_agrees:
  "inline_escalation ids esc = validate_escalation_policy (JObj esc) (known_ids ids)"
  by (simp only: inline_escalation_def validate_escalation_policy_def inline_tiers_eq json_object.simps option.case)

lemma enumerate_zip: "(\<forall>(k, j) \<in> set (enumerate n xs). P j) \<longleftrightarrow> (\<forall>j \<in> set xs. P j)"
  by (induction xs arbitrary: n) auto

lemma after_problems_Nil:
  assumes "fst (after_problems prefix before t) = []"
  shows "json_get t ''afterMs'' json_finite = Some (snd (after_problems prefix before t))
    \<and> 60000 \<le> snd (after_problems prefix before t) \<and> snd (after_problems prefix before t) \<le> 86400000
    \<and> before < snd (after_problems prefix before t)"
  using assms by (auto simp: after_problems_def split: option.splits if_splits)

lemma tier_targets_Nil:
  assumes "tier_targets_problems ids prefix t = []"
  shows "\<exists>ts. json_get t ''targetIds'' json_array = Some ts \<and> length ts \<le> 5 \<and> (\<forall>x \<in> set ts. non_blank (Some x))"
proof -
  obtain ts where ts: "json_get t ''targetIds'' json_array = Some ts" "length ts \<le> 5"
    "\<forall>it \<in> set (enumerate 0 ts). (case it of (k, x) \<Rightarrow> tier_target_problems ids prefix k x) = []"
    using assms by (auto simp: tier_targets_problems_def split: option.splits if_splits)
  have "tier_target_problems ids prefix k x = [] \<Longrightarrow> non_blank (Some x)" for k x
    by (auto simp: tier_target_problems_def Let_def split: if_splits)
  then have "\<forall>(k, x) \<in> set (enumerate 0 ts). non_blank (Some x)" using ts(3) by fastforce
  then show ?thesis using ts(1,2) unfolding enumerate_zip by blast
qed

lemma raw_tier_ok:
  assumes "json_object j = Some t" "fst (after_problems prefix before t) = []" "tier_targets_problems ids prefix t = []"
  shows "et_after (raw_tier j) = snd (after_problems prefix before t) \<and> before < et_after (raw_tier j) \<and> tier_ok (raw_tier j)"
proof -
  note a = after_problems_Nil [OF assms(2)]
  obtain ts where ts: "json_get t ''targetIds'' json_array = Some ts" "length ts \<le> 5" "\<forall>x \<in> set ts. non_blank (Some x)"
    using tier_targets_Nil [OF assms(3)] by blast
  have len: "length (List.map_filter json_text ts) \<le> length ts" by (simp add: map_filter_def)
  have "list_all (\<lambda>s. js_trim s \<noteq> []) (List.map_filter json_text ts)"
    using ts(3) by (force simp: list_all_iff map_filter_def non_blank_def)
  then show ?thesis
    using a ts(1,2) len assms(1) by (auto simp: raw_tier_def json_fields_def tier_ok_def)
qed

lemma tier_problems_ok:
  assumes "tier_problems ids i before js = []"
  shows "list_all (\<lambda>t. before < et_after t) (map raw_tier js)
    \<and> sorted_wrt (\<lambda>s t. et_after s < et_after t) (map raw_tier js) \<and> list_all tier_ok (map raw_tier js)"
  using assms
proof (induction ids i before js rule: tier_problems.induct)
  case (2 ids i before j js)
  let ?p = "at_index ''escalation.tiers'' i"
  from "2.prems" obtain t where t: "json_object j = Some t" by (cases "json_object j") (auto simp: Let_def)
  with "2.prems" have parts: "fst (after_problems ?p before t) = []" "tier_targets_problems ids ?p t = []"
    "tier_problems ids (i + 1) (snd (after_problems ?p before t)) js = []"
    by (simp_all add: Let_def)
  note here = raw_tier_ok [OF t parts(1,2)]
  have "list_all (\<lambda>t. et_after (raw_tier j) < et_after t) (map raw_tier js)
    \<and> sorted_wrt (\<lambda>s t. et_after s < et_after t) (map raw_tier js) \<and> list_all tier_ok (map raw_tier js)"
    using "2.IH"(2) [OF refl t parts(3)] here by simp
  then show ?case using here by (auto simp: list_all_iff)
qed simp

text \<open>What the configuration of the escalation is read as, after it passed the validator.\<close>

lemma checked_escalation_ok:
  assumes "inline_escalation ids esc = []"
  shows "policy_ok (raw_policy (JObj esc))"
proof -
  have cool: "field_check esc ''cooldownMs'' (finite_at_least 0) (''escalation.cooldownMs'', CooldownNotNumber) = []"
    and tiers: "(case js_get esc ''tiers'' of None \<Rightarrow> [] | Some j \<Rightarrow>
       (case json_array j of None \<Rightarrow> [(''escalation.tiers'', NotArray)]
        | Some js \<Rightarrow> (if 3 < length js then [(''escalation.tiers'', TooManyTiers)] else []) @ inline_tiers ids 0 0 js)) = []"
    using assms unfolding inline_escalation_def by simp_all
  have "0 \<le> policy_cooldown (raw_policy (JObj esc))"
    using cool by (auto simp: policy_cooldown_def raw_policy_def json_fields_def json_get_def field_check_def
        finite_at_least_def split: option.splits if_splits)
  moreover have "length (ep_tiers (raw_policy (JObj esc))) \<le> 3
    \<and> sorted_wrt (\<lambda>s t. et_after s < et_after t) (ep_tiers (raw_policy (JObj esc)))
    \<and> list_all tier_ok (ep_tiers (raw_policy (JObj esc)))"
  proof (cases "json_get esc ''tiers'' json_array")
    case None
    then show ?thesis by (simp add: raw_policy_def json_fields_def)
  next
    case (Some js)
    then obtain j where j: "js_get esc ''tiers'' = Some j" "json_array j = Some js"
      by (auto simp: json_get_def bind_eq_Some_conv)
    then have "length js \<le> 3" "tier_problems (known_ids ids) 0 0 js = []"
      using tiers by (auto simp: inline_tiers_eq split: if_splits)
    with tier_problems_ok [OF this(2)] Some show ?thesis by (simp add: raw_policy_def json_fields_def)
  qed
  ultimately show ?thesis unfolding policy_ok_def by blast
qed

lemma stored_policy_ok:
  assumes "validate_webhook_config parse body = []" "wc_escalation (sanitize_config body) = Some j"
  shows "policy_ok (raw_policy j)"
proof -
  obtain obj where obj: "body = JObj obj" using assms(1)
    by (auto simp: validate_webhook_config_def split: option.splits)
  have j: "js_get obj ''escalation'' = Some j" "any_object j"
    using assms(2) by (auto simp: obj sanitize_config_def json_get_def bind_eq_Some_conv split: if_splits)
  have tail: "(case js_get obj ''escalation'' of None \<Rightarrow> [] | Some j \<Rightarrow>
      if j = JNull then [] else (case json_object j of None \<Rightarrow> [(''escalation'', NotObject)]
        | Some esc \<Rightarrow> inline_escalation (target_ids obj) esc)) = []"
    using assms(1) unfolding obj validate_webhook_config_def by simp
  then obtain esc where "j = JObj esc" "inline_escalation (target_ids obj) esc = []"
    using j by (cases j) auto
  then show ?thesis using checked_escalation_ok by blast
qed

text \<open>
  C36: A configuration that passes the validator stores only well-formed policies: at most three tiers with
  strictly increasing thresholds between a minute and a day, at most five targets each, none blank, and
  a cooldown that is not negative. The scheduler reads the stored policy without a second check.
\<close>

theorem stored_policy_is_well_formed:
  assumes "validate_webhook_config parse body = []" "wc_escalation (sanitize_config body) = Some j"
  shows "policy_ok (raw_policy j)"
  using assms by (rule stored_policy_ok)

section \<open>Where the escalation differs from its description\<close>

text \<open>
  A tier below the highest one that fired, and that was never notified itself, is not held back: its
  missing time of notification counts as the epoch, so that its cooldown has long passed, and it is due
  in the next observation.
\<close>

theorem skipped_tiers_fire_afterwards:
  assumes "escalates p v" "i < length (ep_tiers p)" "et_after (ep_tiers p ! i) \<le> of_int (t - snd (last (episode p h)))"
    "notifications p h i = []" "notifications p h k \<noteq> []" "i < k" "policy_cooldown p \<le> of_int t"
  shows "\<exists>j. i \<le> j \<and> ed_tier_index (decision_after p h v t) = Some j"
proof -
  have "newest (notifications p h i) = None" by (simp add: assms(4) newest_def)
  then have due: "i \<in> due_tiers p h t" using assms by (auto simp: due_tiers_def)
  have "finite (due_tiers p h t)" by (rule finite_subset [of _ "{..<length (ep_tiers p)}"]) (auto simp: due_tiers_def)
  then have "i \<le> Max (due_tiers p h t)" using due by simp
  moreover have "episode p h \<noteq> []" using assms(5) episode_Nil_notifications by blast
  ultimately show ?thesis using due assms(1) by (auto simp: fires_highest)
qed

text \<open>
  While the policy is switched off, the clock of the escalation keeps its start: whatever severity is
  observed then, a policy that is switched on again fires at once if the first threshold has passed
  since that start.
\<close>

theorem switched_off_policy_keeps_the_clock:
  assumes "wc_escalation c = Some j" "\<not> ep_enabled (raw_policy j)"
    and "escalates p v" "es_since st = Some s" "et_after (hd (ep_tiers p)) \<le> of_int (now - s)" "es_last_tier st = - 1"
  shows "ed_escalate (evaluate_escalation p v (fst (begin_escalation c e st trail)) now)"
proof -
  have st: "fst (begin_escalation c e st trail) = st" using assms(1,2) by (simp add: begin_escalation_def)
  obtain t ts where tiers: "ep_tiers p = t # ts" using assms(3) by (cases "ep_tiers p") (auto simp: escalates_def)
  have "tier_due st (policy_cooldown p) (now - s) now (0, ep_tiers p ! 0)"
    using assms(5,6) by (simp add: tier_due_def tiers)
  then have "List.find (tier_due st (policy_cooldown p) (now - s) now) (rev (enumerate 0 (ep_tiers p))) \<noteq> None"
    unfolding find_rev_enumerate_None by (auto simp: tiers)
  then show ?thesis using assms(3,4) by (auto simp: st evaluate_escalate evaluate_index)
qed

text \<open>
  The messages for Slack and Discord say nothing of the escalation: they equal those of the plain
  transition.
\<close>

theorem chat_messages_omit_the_escalation:
  "format_payload (build_escalation_payload iso_text e previous d) (Some Slack)
     = format_payload (build_payload iso_text e previous) (Some Slack)
   \<and> format_payload (build_escalation_payload iso_text e previous d) (Some Discord)
     = format_payload (build_payload iso_text e previous) (Some Discord)"
  by (simp add: format_payload_def format_slack_def format_discord_def build_escalation_payload_def)

section \<open>Samples\<close>

definition two_tier_policy :: escalation_policy where
  "two_tier_policy =
     \<lparr>ep_enabled = True, ep_trigger = None,
      ep_tiers = [\<lparr>et_after = 60000, et_targets = [''a''], et_label = None\<rparr>,
                  \<lparr>et_after = 120000, et_targets = [''b''], et_label = Some ''on call''\<rparr>],
      ep_cooldown = None\<rparr>"

definition sample_history :: observations where
  "sample_history = [(SevCritical, 1000180000), (SevCritical, 1000000000)]"

lemma sample_escalates: "escalates two_tier_policy SevCritical"
  by (simp add: escalates_def two_tier_policy_def is_qualifying_severity_def policy_trigger_def)

lemma sample_fires:
  "ed_tier_index (decision_after two_tier_policy [(SevCritical, 1000000000)] SevCritical 1000180000) = Some 1"
  by code_simp

lemma sample_first: "ed_tier_index (decision_after two_tier_policy [] SevCritical 1000000000) = None"
  by code_simp

lemma sample_qualifies: "is_qualifying_severity SevCritical (policy_trigger two_tier_policy)"
  by code_simp

lemma sample_notifications:
  "notifications two_tier_policy sample_history 0 = []" "notifications two_tier_policy sample_history 1 = [1000180000]"
  by (simp_all add: sample_history_def sample_fires sample_first sample_qualifies)

lemma sample_episode: "episode two_tier_policy sample_history = sample_history"
  by (simp add: episode_def sample_history_def sample_qualifies)

theorem escalation_respects_threshold_and_cooldown_witness:
  "et_after (ep_tiers two_tier_policy ! 1) \<le> of_int (1000180000 - snd (last (episode two_tier_policy [(SevCritical, 1000000000)])))"
  using escalation_respects_threshold_and_cooldown [OF sample_fires] by blast

theorem status_predicts_the_decision_witness:
  "ed_tier_index (evaluate_escalation two_tier_policy SevCritical (state_after two_tier_policy sample_history) 1000180001)
     = map_option ts_index (List.find ready (rev (ss_tiers (compute_escalation_status (Some two_tier_policy)
         (state_after two_tier_policy sample_history) 1000180001))))"
  by (rule status_predicts_the_decision [OF sample_escalates])
    (simp add: policy_cooldown_def two_tier_policy_def)

theorem skipped_tiers_fire_afterwards_witness:
  "\<exists>j. 0 \<le> j \<and> ed_tier_index (decision_after two_tier_policy sample_history SevCritical 1000180001) = Some j"
proof (rule skipped_tiers_fire_afterwards [OF sample_escalates _ _ sample_notifications(1)])
  show "et_after (ep_tiers two_tier_policy ! 0) \<le> of_int (1000180001 - snd (last (episode two_tier_policy sample_history)))"
    unfolding sample_episode by (simp add: two_tier_policy_def sample_history_def)
  show "notifications two_tier_policy sample_history 1 \<noteq> []" unfolding sample_notifications by simp
qed (simp_all add: two_tier_policy_def policy_cooldown_def)

definition off_config :: webhook_config where
  "off_config = default_webhook_config\<lparr>wc_escalation := Some (JObj [(''enabled'', JBool False)])\<rparr>"

definition quiet_evaluation :: alert_evaluation where
  "quiet_evaluation = \<lparr>ev_at = 1000030000, ev_overall = SevOk, ev_counts = (\<lambda>_. 0), ev_rules = []\<rparr>"

theorem switched_off_policy_keeps_the_clock_witness:
  "ed_escalate (evaluate_escalation two_tier_policy SevCritical
     (fst (begin_escalation off_config quiet_evaluation (state_after two_tier_policy [(SevCritical, 1000000000)]) None)) 1000060000)"
proof (rule switched_off_policy_keeps_the_clock [OF _ _ sample_escalates])
  show "wc_escalation off_config = Some (JObj [(''enabled'', JBool False)])" by (simp add: off_config_def)
  show "\<not> ep_enabled (raw_policy (JObj [(''enabled'', JBool False)]))" by code_simp
  show "es_since (state_after two_tier_policy [(SevCritical, 1000000000)]) = Some 1000000000" by code_simp
  show "es_last_tier (state_after two_tier_policy [(SevCritical, 1000000000)]) = - 1" by code_simp
qed (simp add: two_tier_policy_def)

definition sample_escalation :: json where
  "sample_escalation =
     JObj [(''enabled'', JBool True),
           (''tiers'', JArr [JObj [(''afterMs'', JNum 60000), (''targetIds'', JArr [])],
                             JObj [(''afterMs'', JNum 120000), (''targetIds'', JArr [JStr ''b''])]])]"

lemma sample_body_checked:
  "validate_webhook_config (\<lambda>_. None) (JObj [(''escalation'', sample_escalation)]) = []"
  by code_simp

theorem stored_policy_is_well_formed_witness: "policy_ok (raw_policy sample_escalation)"
  by (rule stored_policy_is_well_formed [OF sample_body_checked]) code_simp

end
