(* ===== verification/Webhooks_Correct.thy ===== *)
theory Webhooks_Correct
  imports Webhooks
begin

text \<open>
  What the webhook module promises: the retry loop ends with the first decisive answer, the sanitized
  configuration is within its bounds and survives the file, and the redacted configuration reveals
  everything but the secrets. Then two configurations that pass the validator and do not work.
\<close>

section \<open>The retry loop\<close>

text \<open>How many attempts are made, given what each would end with.\<close>

fun attempts_made :: "attempt_outcome list \<Rightarrow> nat" where
  "attempts_made [] = 0"
| "attempts_made (x # xs) = (if delivered x \<or> refused x then 1 else Suc (attempts_made xs))"

lemma attempts_made_le: "attempts_made xs \<le> length xs"
  by (induction xs) auto

lemma attempts_made_pos: "xs \<noteq> [] \<Longrightarrow> 0 < attempts_made xs"
  by (cases xs) auto

lemma last_attempt:
  "xs \<noteq> [] \<Longrightarrow> list_ex delivered (take (attempts_made xs) xs) \<longleftrightarrow> delivered (xs ! (attempts_made xs - 1))"
proof (induction xs)
  case (Cons x xs)
  then show ?case using attempts_made_pos [of xs] by (cases xs) auto
qed simp



section \<open>The configuration file\<close>

definition target_ok :: "webhook_target \<Rightarrow> bool" where
  "target_ok t \<longleftrightarrow> length (wt_id t) \<le> 64 \<and> length (wt_name t) \<le> 100 \<and> length (wt_url t) \<le> 2048
     \<and> (case wt_secret t of None \<Rightarrow> True | Some s \<Rightarrow> length s \<le> 256) \<and> wt_min t \<noteq> None"

definition config_ok :: "webhook_config \<Rightarrow> bool" where
  "config_ok c \<longleftrightarrow> length (wc_targets c) \<le> 5 \<and> list_all target_ok (wc_targets c)
     \<and> (\<exists>q \<ge> 0. wc_cooldown c = Some q) \<and> (\<exists>q. 1000 \<le> q \<and> q \<le> 30000 \<and> wc_timeout c = Some q)
     \<and> (\<exists>n. 0 \<le> n \<and> n \<le> 5 \<and> wc_retries c = Some (of_int n))
     \<and> (case wc_escalation c of None \<Rightarrow> True | Some j \<Rightarrow> any_object j)"

lemma sanitize_target_ok: "sanitize_target j = Some t \<Longrightarrow> target_ok t"
  by (auto simp: sanitize_target_def target_ok_def split: option.splits prod.splits)

lemma map_filter_length: "length (List.map_filter f xs) \<le> length xs"
  by (simp add: map_filter_def)

lemma set_map_filter: "y \<in> set (List.map_filter f xs) \<longleftrightarrow> (\<exists>x \<in> set xs. f x = Some y)"
  by (force simp: map_filter_def)

lemma sanitize_config_ok: "config_ok (sanitize_config j)"
proof (cases "json_object j")
  case None
  then show ?thesis
    by (auto simp: sanitize_config_def default_webhook_config_def config_ok_def intro: exI [of _ 3])
next
  case (Some obj)
  let ?c = "sanitize_config j"
  have "length (wc_targets ?c) \<le> 5"
    using Some map_filter_length [of sanitize_target "take 5 (nullish (json_get obj ''targets'' json_array) [])"]
    by (simp add: sanitize_config_def)
  moreover have "list_all target_ok (wc_targets ?c)"
    using Some by (auto simp: sanitize_config_def list_all_iff set_map_filter intro: sanitize_target_ok)
  moreover have "\<exists>n. 0 \<le> n \<and> n \<le> 5 \<and> wc_retries ?c = Some (of_int n)"
  proof (cases "json_get obj ''maxRetries'' json_finite")
    case (Some q)
    show ?thesis
    proof (cases "0 \<le> q")
      case True
      then show ?thesis using \<open>json_object j = Some obj\<close> Some
        by (intro exI [of _ "min \<lfloor>q\<rfloor> 5"]) (auto simp: sanitize_config_def min_def)
    qed (use \<open>json_object j = Some obj\<close> Some in \<open>auto simp: sanitize_config_def intro!: exI [of _ 3]\<close>)
  qed (use Some in \<open>auto simp: sanitize_config_def intro!: exI [of _ 3]\<close>)
  moreover have "0 \<le> number_or obj ''cooldownMs'' 0 60000" "1000 \<le> number_or obj ''timeoutMs'' 1000 10000"
    by (simp_all add: number_or_bounds)
  ultimately show ?thesis
    using Some by (auto simp: config_ok_def sanitize_config_def json_get_def min_def split: option.splits bind_splits if_splits)
qed

lemma provider_name_back [simp]: "json_provider (JStr (provider_name p)) = Some p"
  by (cases p) (simp_all add: json_provider_def parse_provider_def)

lemma provider_option_back [simp]: "Option.bind (map_option (\<lambda>p. JStr (provider_name p)) x) json_provider = x"
  by (cases x) simp_all

lemma js_get_append: "js_get (xs @ ys) k = (case js_get xs k of None \<Rightarrow> js_get ys k | Some v \<Rightarrow> Some v)"
  by (induction xs) auto

lemma js_get_optional: "js_get (optional_key k v) k' = (if k = k' then v else None)"
  by (simp add: optional_key_def split: option.splits)

lemma sanitize_target_json: "target_ok t \<Longrightarrow> sanitize_target (target_json t) = Some t"
  by (cases t)
    (auto simp: target_json_def sanitize_target_def json_get_def js_get_append js_get_optional target_ok_def split: option.splits)

lemma map_filter_map_Some: "(\<And>x. x \<in> set xs \<Longrightarrow> f (g x) = Some x) \<Longrightarrow> List.map_filter f (map g xs) = xs"
  by (induction xs) (simp_all add: map_filter_simps)

lemma write_config_back:
  assumes "config_ok c"
  shows "sanitize_config (write_webhook_config c) = c"
proof -
  obtain q r n where c: "wc_cooldown c = Some q" "0 \<le> q" "wc_timeout c = Some r" "1000 \<le> r" "r \<le> 30000"
    "wc_retries c = Some (of_int n)" "0 \<le> n" "n \<le> 5"
    using assms by (auto simp: config_ok_def)
  have ts: "List.map_filter sanitize_target (map target_json (wc_targets c)) = wc_targets c"
    using assms by (intro map_filter_map_Some sanitize_target_json) (auto simp: config_ok_def list_all_iff)
  have n: "(of_int n :: rat) \<le> 5" using c(8) by (metis of_int_le_iff of_int_numeral)
  have esc: "Option.bind (wc_escalation c) (\<lambda>j. if any_object j then Some j else None) = wc_escalation c"
    using assms by (cases "wc_escalation c") (simp_all add: config_ok_def)
  have len: "take 5 (map target_json (wc_targets c)) = map target_json (wc_targets c)"
    using assms by (simp add: config_ok_def)
  show ?thesis
    by (rule webhook_config.equality)
      (use c n in \<open>simp_all add: sanitize_config_def write_webhook_config_def json_get_def js_get_append js_get_optional
        number_or_def min_def ts len esc del: take_map\<close>)
qed

lemma read_config_ok: "config_ok (read_webhook_config f)"
proof (cases f)
  case None
  then show ?thesis
    by (auto simp: read_webhook_config_def default_webhook_config_def config_ok_def intro: exI [of _ 3])
qed (simp add: read_webhook_config_def sanitize_config_ok)

text \<open>
  C37: Whatever the configuration file holds, what is read has at most five targets, a timeout between one
  and thirty seconds and an integer number of retries up to five. A configuration is read back from the
  file as it was written exactly when it is within these bounds.
\<close>

theorem webhook_config_round_trip:
  "config_ok (read_webhook_config f) \<and> (read_webhook_config (Some (write_webhook_config c)) = c \<longleftrightarrow> config_ok c)"
proof -
  have "config_ok (read_webhook_config f)" by (rule read_config_ok)
  moreover have "read_webhook_config (Some (write_webhook_config c)) = c \<longleftrightarrow> config_ok c"
    using write_config_back [of c] sanitize_config_ok [of "write_webhook_config c"]
    by (auto simp: read_webhook_config_def)
  ultimately show ?thesis ..
qed

section \<open>Redaction\<close>

definition differ_in_secret :: "webhook_target \<Rightarrow> webhook_target \<Rightarrow> bool" where
  "differ_in_secret s t \<longleftrightarrow> s\<lparr>wt_secret := None\<rparr> = t\<lparr>wt_secret := None\<rparr> \<and> truthy_str (wt_secret s) = truthy_str (wt_secret t)"

lemma redact_target_eq: "redact_target s = redact_target t \<longleftrightarrow> differ_in_secret s t"
  by (cases s; cases t) (auto simp: redact_target_def differ_in_secret_def)

text \<open>
  The configuration that the server answers with hides the secrets and nothing else: two
  configurations give the same answer exactly when they differ in nothing but the texts of secrets,
  a missing or empty secret being distinguished from one that is set.
\<close>

theorem redaction_hides_exactly_the_secrets:
  "redact_config c = redact_config c' \<longleftrightarrow>
     c\<lparr>wc_targets := []\<rparr> = c'\<lparr>wc_targets := []\<rparr> \<and> list_all2 differ_in_secret (wc_targets c) (wc_targets c')"
proof -
  have "map redact_target ss = map redact_target ts \<longleftrightarrow> list_all2 differ_in_secret ss ts" for ss ts
    by (induction ss arbitrary: ts) (auto simp: redact_target_eq list_all2_Cons1 Cons_eq_map_conv)
  then show ?thesis by (simp add: redact_config_def)
qed

section \<open>Valid configurations that do not work\<close>

text \<open>
  The validator accepts 0 retries, and the loop counts attempts: no request is sent, and the delivery
  fails without an error text.
\<close>

theorem zero_retries_never_deliver:
  "validate_webhook_config parse (JObj [(''maxRetries'', JNum 0)]) = []
   \<and> wc_retries (sanitize_config (JObj [(''maxRetries'', JNum 0)])) = Some 0
   \<and> \<not> dr_success (deliver_webhook net t p timeout (Some 0))
   \<and> dr_attempts (deliver_webhook net t p timeout (Some 0)) = 0
   \<and> dr_error (deliver_webhook net t p timeout (Some 0)) = None"
proof -
  have "validate_webhook_config parse (JObj [(''maxRetries'', JNum 0)]) = []"
    by (simp add: validate_webhook_config_def field_check_def finite_between_def)
  moreover have "wc_retries (sanitize_config (JObj [(''maxRetries'', JNum 0)])) = Some 0"
    by (simp add: sanitize_config_def json_get_def)
  ultimately show ?thesis by (simp add: deliver_webhook_def run_delivery_def no_progress_def Let_def)
qed

definition long_id_body :: json where
  "long_id_body =
     (let t = (\<lambda>c. JObj [(''id'', JStr (replicate 64 (CHR ''a'') @ [c])), (''url'', JStr ''https://example.org/'')]) in
      JObj [(''targets'', JArr [t (CHR ''b''), t (CHR ''c'')])])"

definition any_https :: "string \<Rightarrow> url_parts option" where
  "any_https u = Some \<lparr>up_protocol = ''https:'', up_host = ''example.org'', up_hostname = ''example.org''\<rparr>"

text \<open>
  The validator rejects equal ids but does not bound their length, and the sanitizer cuts them: two
  targets with different ids pass and are stored with the same id.
\<close>

theorem long_ids_collide:
  "validate_webhook_config any_https long_id_body = []
   \<and> map wt_id (wc_targets (sanitize_config long_id_body)) = replicate 2 (replicate 64 (CHR ''a''))"
  by code_simp

end
