(* ===== verification/Alert_Logs_Correct.thy ===== *)
theory Alert_Logs_Correct
  imports Alert_Logs
begin

text \<open>
  The log files of the alerting refine unbounded logs: a file holds the newest events of everything
  that was logged, without two equal neighbours within a minute, with ids that are never used twice.
  The timeline and the retry summary account for every event of their window.
\<close>

interpretation alert_log: retention ah_ts "prune_alert_history (Some 200) (Some day_2_ms)" day_2_ms 200
  by unfold_locales (simp_all add: prune_alert_history_def)

interpretation delivery_log: retention dv_ts "prune_delivery_events (Some 200) (Some day_2_ms)" day_2_ms 200
  by unfold_locales (simp_all add: prune_delivery_events_def)


section \<open>Alert history\<close>

text \<open>The log without retention.\<close>

definition log_alert :: "alert_evaluation \<Rightarrow> alert_event list \<Rightarrow> alert_event list" where
  "log_alert e es =
     (if \<not> is_state_change (create_alert_event e) (last_event es) \<and> \<not> should_record_event es (Some 60000) (ev_at e)
      then es else es @ [create_alert_event e])"

definition logged :: "alert_evaluation list \<Rightarrow> alert_event list" where
  "logged evs = fold log_alert evs []"

definition append_alerts :: "alert_evaluation list \<Rightarrow> alert_history \<Rightarrow> alert_history" where
  "append_alerts evs file = fold (\<lambda>e f. fst (maybe_append_alert_event e f)) evs file"

definition in_order :: "alert_evaluation list \<Rightarrow> bool" where
  "in_order evs \<longleftrightarrow> sorted_wrt (\<lambda>a b. ev_at a \<le> ev_at b) evs"

lemma create_alert_event_ts [simp]: "ah_ts (create_alert_event e) = ev_at e"
  by (simp add: create_alert_event_def Let_def)

lemma logged_snoc: "logged (evs @ [e]) = log_alert e (logged evs)"
  by (simp add: logged_def)

lemma logged_sorted:
  assumes "in_order evs"
  shows "sorted_wrt (\<lambda>a b. ah_ts a \<le> ah_ts b) (logged evs) \<and> (\<forall>a \<in> set (logged evs). \<exists>e \<in> set evs. ah_ts a = ev_at e)"
  using assms
proof (induction evs rule: rev_induct)
  case (snoc e evs)
  then show ?case
    by (auto simp: logged_snoc log_alert_def in_order_def sorted_wrt_append)
qed (simp add: logged_def)

lemma width_pos: "0 \<le> day_2_ms"
  by (simp add: day_2_ms_def)

lemma append_alerts_kept:
  assumes "in_order evs"
  shows "read_alert_history (append_alerts evs None) = alert_log.kept (logged evs)"
  using assms
proof (induction evs rule: rev_induct)
  case Nil
  then show ?case by (simp add: append_alerts_def read_alert_history_def logged_def alert_log.kept_Nil)
next
  case (snoc e evs)
  let ?f = "append_alerts evs None" and ?n = "create_alert_event e"
  have ord: "in_order evs" and late: "\<forall>x \<in> set evs. ev_at x \<le> ev_at e"
    using snoc.prems by (auto simp: in_order_def sorted_wrt_append)
  note filed = snoc.IH [OF ord]
  have same: "last_event (alert_log.kept (logged evs)) = last_event (logged evs)"
    "should_record_event (alert_log.kept (logged evs)) x t = should_record_event (logged evs) x t" for x t
    using alert_log.kept_last [OF width_pos, of "logged evs"]
    by (cases "logged evs = []"; simp add: last_event_def should_record_event_def alert_log.kept_Nil)+
  have s: "sorted_wrt (\<lambda>a b. ah_ts a \<le> ah_ts b) (logged evs @ [?n])"
    using logged_sorted [OF ord] late by (force simp: sorted_wrt_append)
  have step: "append_alerts (evs @ [e]) None = fst (maybe_append_alert_event e ?f)"
    by (simp add: append_alerts_def)
  show ?case
  proof (cases "\<not> is_state_change ?n (last_event (logged evs)) \<and> \<not> should_record_event (logged evs) (Some 60000) (ev_at e)")
    case True
    then show ?thesis by (simp add: step logged_snoc log_alert_def maybe_append_alert_event_def filed same)
  next
    case False
    have "read_alert_history (append_alerts (evs @ [e]) None)
        = prune_alert_history (Some 200) (Some day_2_ms) (ev_at e) (alert_log.kept (logged evs) @ [?n])"
      unfolding step maybe_append_alert_event_def Let_def filed same if_not_P [OF False]
      by (simp add: read_alert_history_def)
    also have "\<dots> = alert_log.kept (logged evs @ [?n])"
      using alert_log.kept_snoc [OF s] by simp
    finally show ?thesis unfolding logged_snoc log_alert_def if_not_P [OF False] .
  qed
qed

definition spaced :: "alert_event list \<Rightarrow> bool" where
  "spaced es \<longleftrightarrow> successively (\<lambda>a b. is_state_change b (Some a) \<or> 60000 \<le> ah_ts b - ah_ts a) es"

lemma logged_spaced: "spaced (logged evs)"
proof (induction evs rule: rev_induct)
  case (snoc e evs)
  then show ?case
    by (auto simp: logged_snoc log_alert_def spaced_def successively_append_iff last_event_def should_record_event_def)
qed (simp add: logged_def spaced_def)

lemma successively_drop: "successively R xs \<Longrightarrow> successively R (drop k xs)"
  by (metis append_take_drop_id successively_append_iff)

text \<open>
  The history file is a bounded view of the log of all state changes: after any sequence of
  evaluations in the order of their times the file holds the events of the last 48 hours before the
  newest entry, at most 200, of a log that enters an evaluation when its severities differ from the
  last entry or when that is a minute old. Neighbours in the file are therefore different or at
  least a minute apart, and the newest entry is never lost.
\<close>

theorem alert_history_refines_the_log:
  assumes "in_order evs"
  shows "read_alert_history (append_alerts evs None)
      = (if logged evs = [] then []
         else prune_alert_history (Some 200) (Some day_2_ms) (ah_ts (last (logged evs))) (logged evs))
    \<and> spaced (read_alert_history (append_alerts evs None))
    \<and> length (read_alert_history (append_alerts evs None)) \<le> 200
    \<and> last_event (read_alert_history (append_alerts evs None)) = last_event (logged evs)"
proof -
  note k = append_alerts_kept [OF assms]
  have "read_alert_history (append_alerts evs None)
      = (if logged evs = [] then []
         else prune_alert_history (Some 200) (Some day_2_ms) (ah_ts (last (logged evs))) (logged evs))"
    unfolding k alert_log.kept_def ..
  moreover have "spaced (read_alert_history (append_alerts evs None))"
    unfolding k
    using alert_log.prune_suffix [of "logged evs" "ah_ts (last (logged evs))"] logged_sorted [OF assms] logged_spaced [of evs]
    by (auto simp: alert_log.kept_def spaced_def intro: successively_drop)
  moreover have "length (read_alert_history (append_alerts evs None)) \<le> 200"
    unfolding k using alert_log.kept_length [of "logged evs"] by (metis of_nat_le_iff of_nat_numeral)
  moreover have "last_event (read_alert_history (append_alerts evs None)) = last_event (logged evs)"
    unfolding k using alert_log.kept_last [OF width_pos, of "logged evs"]
    by (cases "logged evs = []") (simp_all add: last_event_def alert_log.kept_Nil)
  ultimately show ?thesis by blast
qed

section \<open>The timeline\<close>

lemma time_in_sum:
  "time_in now es d SevOk + time_in now es d SevWarning + time_in now es d SevCritical
   = d SevOk + d SevWarning + d SevCritical + (if es = [] then 0 else now - ah_ts (hd es))"
proof (induction es arbitrary: d)
  case (Cons a es)
  define u where "u = (case es of [] \<Rightarrow> now | b # _ \<Rightarrow> ah_ts b)"
  have u: "(if es = [] then 0 else now - ah_ts (hd es)) = now - u" by (cases es) (simp_all add: u_def)
  define d' where "d' = d(ah_overall a := d (ah_overall a) + (u - ah_ts a))"
  have "time_in now (a # es) d = time_in now es d'"
    by (simp add: u_def d'_def)
  moreover have "d' SevOk + d' SevWarning + d' SevCritical = d SevOk + d SevWarning + d SevCritical + (u - ah_ts a)"
    unfolding d'_def by (cases "ah_overall a") simp_all
  ultimately show ?case using Cons.IH [of d'] u by simp
qed simp

lemma transitions_count:
  "fst (transitions es (n, t)) = n + length (filter (\<lambda>(a, b). ah_overall b \<noteq> ah_overall a) (zip es (tl es)))"
  by (induction es "(n, t)" arbitrary: n t rule: transitions.induct) auto

text \<open>
  The timeline accounts for the whole time since its first event: the three durations add up to it.
  It counts the neighbours with different severities, reports the severity of the last event, and
  returns at least one event when one matches, and never more than 200.
\<close>

theorem timeline_accounts_for_the_time:
  fixes q now f
  defines "t \<equiv> query_alert_timeline q now f"
  shows "tl_durations t SevOk + tl_durations t SevWarning + tl_durations t SevCritical
      = (if tl_events t = [] then 0 else now - ah_ts (hd (tl_events t)))
    \<and> tl_transitions t = length (filter (\<lambda>(a, b). ah_overall b \<noteq> ah_overall a) (zip (tl_events t) (tl (tl_events t))))
    \<and> tl_current t = (if tl_events t = [] then SevOk else ah_overall (last (tl_events t)))
    \<and> (tl_events t = [] \<longleftrightarrow> tl_total t = 0) \<and> length (tl_events t) \<le> 200"
proof -
  have lim: "0 < query_limit x" "query_limit x \<le> 200" for x by (auto simp: query_limit_def)
  have l: "limited (query_limit x) es = [] \<longleftrightarrow> es = []" "length (limited (query_limit x) es) \<le> 200"
    for x and es :: "alert_event list"
    using lim [of x] by (auto simp: limited_def)
  define es where "es = (case aq_min q of None \<Rightarrow> since_filter ah_ts (aq_since q) now (read_alert_history f)
     | Some v \<Rightarrow> if v = SevOk then since_filter ah_ts (aq_since q) now (read_alert_history f)
         else filter (\<lambda>e. severity_priority v \<le> severity_priority (ah_overall e))
                (since_filter ah_ts (aq_since q) now (read_alert_history f)))"
  have "tl_events t = limited (query_limit (aq_limit q)) es \<and> tl_total t = length es
    \<and> tl_durations t = time_in now (tl_events t) (\<lambda>_. 0) \<and> tl_transitions t = fst (transitions (tl_events t) (0, None))
    \<and> tl_current t = (if tl_events t = [] then SevOk else ah_overall (last (tl_events t)))"
    unfolding t_def query_alert_timeline_def Let_def case_prod_beta es_def [symmetric] by simp
  then show ?thesis
    using time_in_sum [of now "tl_events t" "\<lambda>_. 0"] transitions_count [of "tl_events t" 0 None] l by simp
qed

definition plain_event :: "int \<Rightarrow> alert_severity \<Rightarrow> alert_event" where
  "plain_event t v = \<lparr>ah_ts = t, ah_overall = v, ah_counts = (\<lambda>_. 0), ah_rules = [], ah_messages = []\<rparr>"

definition timeline_of :: "alert_severity option \<Rightarrow> alert_timeline" where
  "timeline_of v =
     query_alert_timeline \<lparr>aq_limit = None, aq_since = None, aq_min = v\<rparr> 100000
       (Some [plain_event 0 SevCritical, plain_event 10000 SevOk])"

text \<open>
  The filter by severity is applied before the durations are computed: the time of the events that are
  left out is given to the event before them. A board that was critical for ten seconds and has been ok
  since is reported as critical for all of the time, and as critical now.
\<close>

theorem severity_filter_stretches_the_time:
  "tl_durations (timeline_of None) SevCritical = 10000 \<and> tl_current (timeline_of None) = SevOk
   \<and> tl_durations (timeline_of (Some SevCritical)) SevCritical = 100000
   \<and> tl_current (timeline_of (Some SevCritical)) = SevCritical"
  by code_simp

section \<open>Delivery history\<close>

definition ids_ok :: "int list \<Rightarrow> int \<Rightarrow> bool" where
  "ids_ok ids n \<longleftrightarrow> sorted_wrt (<) ids \<and> list_all (\<lambda>i. 0 < i \<and> i < n) ids \<and> 0 < n"

definition short_text :: "string option \<Rightarrow> bool" where
  "short_text e \<longleftrightarrow> (case e of None \<Rightarrow> True | Some s \<Rightarrow> length s \<le> 200)"

definition delivery_ok :: "delivery_event \<Rightarrow> bool" where
  "delivery_ok e \<longleftrightarrow> short_text (dv_error e) \<and> list_all (\<lambda>d. short_text (ad_error d)) (nullish (dv_details e) [])"

definition deliveries_ok :: "delivery_event counted_file \<Rightarrow> bool" where
  "deliveries_ok file \<longleftrightarrow>
     (let (es, n) = read_delivery_history file in
      ids_ok (map dv_id es) n \<and> list_all delivery_ok es \<and> length es \<le> 200)"

lemma truncated_short: "short_text (truncate_error e)"
  by (auto simp: short_text_def truncate_error_def split: option.splits)

lemma created_ok: "list_all delivery_ok (create_delivery_events hide clock rcs i)"
  by (induction hide clock rcs i rule: create_delivery_events.induct)
    (auto simp: delivery_ok_def create_delivery_event_def truncated_short list_all_iff)

lemma created_ids: "map dv_id (create_delivery_events hide clock rcs i) = map (\<lambda>k. i + int k) [0..<length rcs]"
proof (induction hide clock rcs i rule: create_delivery_events.induct)
  case (2 hide clock r c rcs i)
  show ?case unfolding length_Cons upt_conv_Cons [OF zero_less_Suc] create_delivery_events.simps list.map 2
    by (simp add: map_Suc_upt [symmetric] create_delivery_event_def del: upt_Suc)
qed simp

lemma ids_append:
  assumes "ids_ok ids n"
  shows "ids_ok (ids @ map (\<lambda>k. n + int k) [0..<m]) (n + int m)"
  using assms by (auto simp: ids_ok_def sorted_wrt_append sorted_wrt_map list_all_iff intro: sorted_wrt_mono_rel [OF _ sorted_wrt_upt])

lemma ids_prune:
  assumes "ids_ok (map f es) n"
  shows "ids_ok (map f (retained stamp w c now es)) n"
  using assms by (auto simp: ids_ok_def sorted_wrt_map retained_eq last_entries_def list_all_iff sorted_wrt_drop sorted_wrt_filter dest: in_set_dropD)

lemma append_deliveries_ok:
  assumes "deliveries_ok f"
  shows "deliveries_ok (fst (append_delivery_events hide clock rcs f))"
proof (cases "rcs = []")
  case False
  obtain es n where f: "read_delivery_history f = (es, n)" by fastforce
  let ?es = "es @ create_delivery_events hide clock rcs n"
  have ids: "ids_ok (map dv_id ?es) (n + int (length rcs))"
    using assms ids_append [of "map dv_id es" n "length rcs"] by (simp add: deliveries_ok_def f created_ids)
  have ok: "list_all delivery_ok ?es" using assms created_ok by (simp add: deliveries_ok_def f)
  have "int (length (prune_delivery_events (Some 200) (Some day_2_ms) clock ?es)) \<le> 200"
    by (rule delivery_log.prune_length)
  moreover have "list_all delivery_ok (prune_delivery_events (Some 200) (Some day_2_ms) clock ?es)"
    using ok delivery_log.set_prune [of clock ?es] by (auto simp: list_all_iff)
  moreover have "read_delivery_history (fst (append_delivery_events hide clock rcs f))
      = (prune_delivery_events (Some 200) (Some day_2_ms) clock ?es, n + int (length rcs))"
    using False by (simp add: append_delivery_events_def f read_delivery_history_def [of "Some _"] read_counted_def)
  ultimately show ?thesis
    using ids_prune [OF ids] by (simp add: deliveries_ok_def prune_delivery_events_def)
qed (use assms in \<open>simp add: append_delivery_events_def\<close>)

lemma no_deliveries_ok: "deliveries_ok None"
  by (simp add: deliveries_ok_def read_delivery_history_def read_counted_def ids_ok_def)

text \<open>
  In every delivery history that the appends can produce, in any order of clock readings, the ids rise
  and lie below the counter, so that no id is given twice; no more than 200 events are kept, and no
  error text is longer than 200 characters, those of the single attempts included.
\<close>

theorem delivery_history_stays_bounded:
  "deliveries_ok (fold (\<lambda>(clock, rcs) f. fst (append_delivery_events hide clock rcs f)) batches None)"
proof -
  have "deliveries_ok (fold (\<lambda>(clock, rcs) f. fst (append_delivery_events hide clock rcs f)) batches f)"
    if "deliveries_ok f" for f
    using that by (induction batches arbitrary: f) (auto intro: append_deliveries_ok)
  then show ?thesis using no_deliveries_ok by blast
qed

section \<open>Retries\<close>

definition retry_sums :: "(string, retry_target) jsmap \<Rightarrow> nat \<times> nat \<times> nat" where
  "retry_sums m = (sum_list (map rt_deliveries (js_values m)), sum_list (map rt_retried (js_values m)),
     sum_list (map rt_attempts (js_values m)))"

lemma js_values_set_sum:
  assumes "js_get m k = Some v"
  shows "sum_list (map f (js_values (js_set k v' m))) + f v = sum_list (map f (js_values m)) + (f v' :: nat)"
  using assms by (induction m) (auto simp: js_values_def split: if_splits)

lemma js_values_set_new:
  assumes "js_get m k = None"
  shows "sum_list (map f (js_values (js_set k v' m))) = sum_list (map f (js_values m)) + (f v' :: nat)"
  using assms by (induction m) (auto simp: js_values_def split: if_splits)

lemma js_set_sum:
  fixes f :: "'v \<Rightarrow> nat"
  assumes "f v' = f (nullish (js_get m k) d) + x" "f d = 0"
  shows "sum_list (map f (js_values (js_set k v' m))) = sum_list (map f (js_values m)) + x"
  using assms js_values_set_sum [of m k _ f v'] js_values_set_new [of m k f v'] by (cases "js_get m k") fastforce+

lemma count_delivery_sums:
  "sum_list (map rt_deliveries (js_values (count_delivery e m))) = sum_list (map rt_deliveries (js_values m)) + 1"
  "sum_list (map rt_retried (js_values (count_delivery e m)))
   = sum_list (map rt_retried (js_values m)) + (if 1 < dv_attempts e then 1 else 0)"
  "sum_list (map rt_attempts (js_values (count_delivery e m))) = sum_list (map rt_attempts (js_values m)) + dv_attempts e"
  unfolding count_delivery_def Let_def by (rule js_set_sum [where d = "new_retry_target e"]; simp add: new_retry_target_def)+

lemma retry_fold_sums:
  "sum_list (map rt_deliveries (js_values (fold count_delivery es m))) = sum_list (map rt_deliveries (js_values m)) + length es"
  "sum_list (map rt_retried (js_values (fold count_delivery es m)))
   = sum_list (map rt_retried (js_values m)) + length (filter (\<lambda>e. 1 < dv_attempts e) es)"
  "sum_list (map rt_attempts (js_values (fold count_delivery es m)))
   = sum_list (map rt_attempts (js_values m)) + sum_list (map dv_attempts es)"
  by (induction es arbitrary: m) (simp_all add: count_delivery_sums)

lemma sum_list_sort_desc: "sum_list (map f (sort_desc key xs)) = (sum_list (map f xs) :: nat)"
proof -
  have ins: "sum_list (map f (insert_by le x ys)) = f x + sum_list (map f ys)" for le x ys
    by (induction ys) simp_all
  have "sum_list (map f (sort_by le xs)) = sum_list (map f xs)" for le
    by (induction xs rule: rev_induct) (simp_all add: sort_by_snoc ins)
  then show ?thesis by (simp add: sort_desc_def)
qed

text \<open>
  The retry view adds up: over all targets the deliveries, the retried deliveries and the attempts are
  the totals of the summary, each target is listed once, the most retried first, and the successes and
  failures of the retried deliveries are all of them.
\<close>

theorem retry_activity_adds_up:
  fixes q now f
  defines "a \<equiv> query_retry_activity q now f"
  shows "sum_list (map rt_deliveries (ra_targets a)) = ra_deliveries a
    \<and> sum_list (map rt_retried (ra_targets a)) = ra_retried a
    \<and> sum_list (map rt_attempts (ra_targets a)) = ra_attempts a
    \<and> sorted_wrt (\<lambda>s t. rt_retried t \<le> rt_retried s) (ra_targets a)
    \<and> int (ra_success a) + ra_failure a = int (ra_retried a)"
proof -
  have avg: "rt_deliveries (average_attempts t) = rt_deliveries t" "rt_retried (average_attempts t) = rt_retried t"
    "rt_attempts (average_attempts t) = rt_attempts t" for t
    by (simp_all add: average_attempts_def)
  have "sorted_wrt (\<lambda>s t. rt_retried t \<le> rt_retried s) (sort_desc (\<lambda>t. int (rt_retried t)) ts)" for ts
    using sorted_sort_desc [of "\<lambda>t. int (rt_retried t)" ts] by simp
  then show ?thesis
    by (simp add: a_def query_retry_activity_def Let_def sum_list_sort_desc o_def avg retry_fold_sums js_values_def [of "[]"])
qed

section \<open>Escalation history\<close>







section \<open>Samples\<close>

definition quiet_metrics :: "int \<Rightarrow> alert_metrics" where
  "quiet_metrics stuck = \<lparr>am_counts = [], am_success = Some 1, am_stuck = stuck, am_runtime = None, am_total = 9\<rparr>"

definition stuck_at :: "int \<Rightarrow> int \<Rightarrow> alert_evaluation" where
  "stuck_at t n = evaluate_alerts (quiet_metrics n) default_alert_config t"

theorem alert_history_refines_the_log_witness:
  "map ah_ts (read_alert_history (append_alerts [stuck_at 0 0, stuck_at 10 0, stuck_at 20 3, stuck_at 70000 3] None))
   = [0, 20, 70000]
   \<and> spaced (read_alert_history (append_alerts [stuck_at 0 0, stuck_at 10 0, stuck_at 20 3, stuck_at 70000 3] None))"
proof -
  have "in_order [stuck_at 0 0, stuck_at 10 0, stuck_at 20 3, stuck_at 70000 3]" by code_simp
  moreover have "map ah_ts (read_alert_history (append_alerts [stuck_at 0 0, stuck_at 10 0, stuck_at 20 3, stuck_at 70000 3] None))
   = [0, 20, 70000]" by code_simp
  ultimately show ?thesis using alert_history_refines_the_log by blast
qed



end
