(* ===== verification/Alerting_Correct.thy ===== *)
theory Alerting_Correct
  imports Alerting Escalation_Correct Webhooks_Correct Alert_Logs_Correct
begin

text \<open>
  The alerting as a whole: what holds of its files and its deliveries under way in every state it can
  reach, what a change of the configuration stores, and which transitions are never delivered.
\<close>

section \<open>Reachable states\<close>

text \<open>A flight has targets, a slot for the result of each, and at least one that is still open.\<close>

definition flight_ok :: "flight \<Rightarrow> bool" where
  "flight_ok f \<longleftrightarrow> length (fl_results f) = length (fl_targets f) \<and> None \<in> set (fl_results f)
     \<and> (fl_kind f = AlertFlight \<longrightarrow>
          fl_previous f \<noteq> Some (fl_current f)
          \<and> (\<forall>t \<in> set (fl_targets f). wt_enabled t
               \<and> severity_priority (nullish (wt_min t) SevWarning) \<le> severity_priority (fl_current f)))
     \<and> (\<forall>d. fl_kind f = EscalationFlight d \<longrightarrow> ed_escalate d)"

definition stored_policy_good :: "json option \<Rightarrow> bool" where
  "stored_policy_good file \<longleftrightarrow>
     (case wc_escalation (read_webhook_config file) of None \<Rightarrow> True | Some j \<Rightarrow> policy_ok (raw_policy j))"

definition stored_config_good :: "json option \<Rightarrow> bool" where
  "stored_config_good file \<longleftrightarrow>
     (case file of None \<Rightarrow> True | Some j \<Rightarrow> write_webhook_config (read_webhook_config (Some j)) = j)"

definition alerting_ok :: "alert_world \<Rightarrow> bool" where
  "alerting_ok w \<longleftrightarrow> (\<forall>f \<in> set (aw_flights w). flight_ok f) \<and> deliveries_ok (aw_deliveries w)
     \<and> stored_config_good (aw_hooks w) \<and> stored_policy_good (aw_hooks w)"

lemma new_alerting_ok: "alerting_ok new_alert_world"
  by (simp add: alerting_ok_def new_alert_world_def no_deliveries_ok stored_config_good_def stored_policy_good_def
      read_webhook_config_def default_webhook_config_def)

lemma alerting_okI:
  assumes "alerting_ok w" "\<And>f. f \<in> set (aw_flights w') \<Longrightarrow> f \<notin> set (aw_flights w) \<Longrightarrow> flight_ok f"
    "aw_deliveries w' = aw_deliveries w" "aw_hooks w' = aw_hooks w"
  shows "alerting_ok w'"
  using assms unfolding alerting_ok_def by metis

lemma begin_deliveries_Some:
  assumes "begin_deliveries c e st = (st', Some (previous, ts))"
  shows "ts \<noteq> [] \<and> previous = dl_last_severity st \<and> previous \<noteq> Some (ev_overall e)
    \<and> (\<forall>t \<in> set ts. t \<in> set (wc_targets c) \<and> wt_enabled t
         \<and> severity_priority (nullish (wt_min t) SevWarning) \<le> severity_priority (ev_overall e))"
  using assms
  by (auto simp: begin_deliveries_def select_targets_def selects_def is_transition_def Let_def split: if_splits option.splits)

lemma begin_escalation_Some:
  "begin_escalation c e st trail = (st', trail', Some (d, ts)) \<Longrightarrow> ed_escalate d \<and> ts \<noteq> []"
  by (auto simp: begin_escalation_def Let_def split: option.splits if_splits)

lemma start_alert_ok:
  assumes "alerting_ok w"
  shows "alerting_ok (start_alert iso_text e w)"
proof (cases "begin_deliveries (read_webhook_config (aw_hooks w)) e (aw_delivery w)")
  case (Pair st go)
  show ?thesis
  proof (cases go)
    case None
    then show ?thesis using assms Pair by (auto simp: start_alert_def alerting_ok_def Let_def)
  next
    case (Some pt)
    then obtain previous ts where go: "go = Some (previous, ts)" by (cases pt) auto
    note b = begin_deliveries_Some [OF Pair [unfolded go]]
    show ?thesis
      by (rule alerting_okI [OF assms])
        (use b in \<open>auto simp: start_alert_def Pair go new_flight_def flight_ok_def Let_def image_constant_conv\<close>)
  qed
qed

lemma start_escalation_ok:
  assumes "alerting_ok w"
  shows "alerting_ok (start_escalation iso_text e w)"
proof (cases "begin_escalation (read_webhook_config (aw_hooks w)) e (aw_escalation w) (aw_trail w)")
  case (fields st trail go)
  show ?thesis
  proof (cases go)
    case None
    then show ?thesis using assms fields by (auto simp: start_escalation_def alerting_ok_def Let_def)
  next
    case (Some dt)
    then obtain d ts where go: "go = Some (d, ts)" by (cases dt) auto
    note b = begin_escalation_Some [OF fields [unfolded go]]
    show ?thesis
      by (rule alerting_okI [OF assms])
        (use b in \<open>auto simp: start_escalation_def fields go new_flight_def flight_ok_def Let_def image_constant_conv\<close>)
  qed
qed

lemma record_flight_ok:
  assumes "alerting_ok w"
  shows "alerting_ok (record_flight parse clock f w)"
  using assms by (auto simp: record_flight_def alerting_ok_def Let_def append_deliveries_ok split: flight_kind.splits)

lemma target_done_ok:
  assumes "alerting_ok w"
  shows "alerting_ok (target_done parse net clock i j w)"
proof (cases "i < length (aw_flights w) \<and> j < length (fl_targets (aw_flights w ! i)) \<and> fl_results (aw_flights w ! i) ! j = None")
  case True
  define f where "f = aw_flights w ! i"
  define r where "r = deliver_target net f j"
  define f' where "f' = f\<lparr>fl_results := (fl_results f)[j := Some r]\<rparr>"
  define w1 where "w1 = (if fl_kind f = AlertFlight then w\<lparr>aw_delivery := delivery_done (fl_at f) r (aw_delivery w)\<rparr> else w)"
  have f: "f \<in> set (aw_flights w)" using True by (simp add: f_def)
  have w1: "alerting_ok w1" "aw_flights w1 = aw_flights w"
    using assms by (auto simp: w1_def alerting_ok_def)
  have td: "target_done parse net clock i j w =
      (if list_all (\<lambda>x. x \<noteq> None) (fl_results f')
       then record_flight parse clock f' (w1\<lparr>aw_flights := take i (aw_flights w) @ drop (i + 1) (aw_flights w)\<rparr>)
       else w1\<lparr>aw_flights := (aw_flights w)[i := f']\<rparr>)"
    using True unfolding target_done_def Let_def f'_def w1_def r_def f_def by simp
  show ?thesis
  proof (cases "list_all (\<lambda>x. x \<noteq> None) (fl_results f')")
    case True
    have "alerting_ok (w1\<lparr>aw_flights := take i (aw_flights w) @ drop (i + 1) (aw_flights w)\<rparr>)"
      by (rule alerting_okI [OF w1(1)]) (use w1(2) in \<open>auto dest: in_set_takeD in_set_dropD\<close>)
    then show ?thesis using True by (simp add: td record_flight_ok)
  next
    case False
    then have "flight_ok f'" using f assms
      by (auto simp: f'_def flight_ok_def alerting_ok_def list_all_iff)
    then show ?thesis using False w1
      by (auto simp: td intro!: alerting_okI [OF w1(1)] dest!: subsetD [OF set_update_subset_insert])
  qed
next
  case False
  then show ?thesis using assms by (auto simp: target_done_def)
qed

section \<open>The configuration\<close>

lemma keep_secret_ok:
  assumes "target_ok t" "list_all target_ok ts"
  shows "target_ok (keep_secret ts t)"
proof (cases "List.find (\<lambda>x. wt_id x = wt_id t) (rev ts)")
  case None
  then show ?thesis using assms(1) by (simp add: keep_secret_def target_ok_def)
next
  case (Some x)
  then have "x \<in> set ts" by (auto simp: find_Some_iff) (metis nth_mem length_rev set_rev)
  then have "target_ok x" using assms(2) by (simp add: list_all_iff)
  then show ?thesis using assms(1) Some by (simp add: keep_secret_def target_ok_def)
qed

lemma put_config_ok:
  "config_ok (sanitize_config body \<lparr>wc_targets := map (keep_secret (wc_targets (read_webhook_config f))) (wc_targets (sanitize_config body))\<rparr>)"
  using sanitize_config_ok [of body] read_config_ok [of f] by (auto simp: config_ok_def list_all_iff intro!: keep_secret_ok)

lemma put_webhook_ok:
  assumes "alerting_ok w"
  shows "alerting_ok (fst (put_webhook_config parse body w))"
proof (cases "validate_webhook_config parse body = []")
  case True
  define c where "c = sanitize_config body \<lparr>wc_targets := map (keep_secret (wc_targets (read_webhook_config (aw_hooks w))))
    (wc_targets (sanitize_config body))\<rparr>"
  have c: "sanitize_config (write_webhook_config c) = c" unfolding c_def by (rule write_config_back [OF put_config_ok])
  have w': "fst (put_webhook_config parse body w) = w\<lparr>aw_hooks := Some (write_webhook_config c)\<rparr>"
    using True by (simp add: put_webhook_config_def c_def Let_def)
  have "stored_config_good (Some (write_webhook_config c))"
    by (simp add: stored_config_good_def read_webhook_config_def c)
  moreover have "stored_policy_good (Some (write_webhook_config c))"
    using stored_policy_ok [OF True] by (simp add: stored_policy_good_def read_webhook_config_def c) (simp add: c_def split: option.splits)
  ultimately show ?thesis using assms by (simp add: alerting_ok_def w')
next
  case False
  then show ?thesis using assms by (simp add: put_webhook_config_def Let_def)
qed

lemma alert_step_ok:
  assumes "alerting_ok w"
  shows "alerting_ok (alert_step parse iso_text op w)"
proof (cases op)
  case (MetricsOp m now)
  have "alerting_ok (w\<lparr>aw_history := h\<rparr>)" for h using assms by (simp add: alerting_ok_def)
  then show ?thesis by (simp add: MetricsOp read_metrics_def start_alert_ok start_escalation_ok Let_def)
next
  case (PutRulesOp body)
  then show ?thesis using assms by (simp add: put_alert_config_def alerting_ok_def Let_def)
qed (use assms in \<open>simp_all add: target_done_ok put_webhook_ok, simp add: alerting_ok_def\<close>)

lemma reachable_alerting_ok: "alert_reachable parse iso_text w \<Longrightarrow> alerting_ok w"
  by (induction rule: alert_reachable.induct) (simp_all add: new_alerting_ok alert_step_ok)

text \<open>
  C4: In every state that the alerting reaches, from any sequence of metrics requests, completed
  deliveries, configuration changes and restarts: each delivery under way waits for at least one of its
  targets, an alert is on its way only to targets that are enabled and for a severity that has changed
  and that they listen to, the delivery history is within its bounds with ids that are given once, the
  stored configuration is read as it was written, and its escalation policy is well-formed.
\<close>

theorem reachable_alerting_is_well_formed:
  assumes "alert_reachable parse iso_text w"
  shows "alerting_ok w"
  using assms by (rule reachable_alerting_ok)

text \<open>The secret that is stored for an id.\<close>

definition stored_secret :: "webhook_target list \<Rightarrow> string \<Rightarrow> string option" where
  "stored_secret ts i =
     (case List.find (\<lambda>x. wt_id x = i) (rev ts) of
        None \<Rightarrow> None
      | Some x \<Rightarrow> if truthy_str (wt_secret x) then wt_secret x else None)"

lemma keep_secret_eq:
  "keep_secret ts t = t\<lparr>wt_secret := (if truthy_str (wt_secret t) then wt_secret t else stored_secret ts (wt_id t))\<rparr>"
  by (simp add: keep_secret_def stored_secret_def split: option.splits)

text \<open>
  A request to change the configuration either names its problems and changes nothing, or it answers
  with the redaction of what the file is read as from then on: the sanitized request, with the secrets
  that it left out taken from the configuration that it replaces.
\<close>

theorem config_request_stores_what_it_answers:
  "case snd (put_webhook_config parse body w) of
     Inl errors \<Rightarrow> errors \<noteq> [] \<and> errors = validate_webhook_config parse body \<and> fst (put_webhook_config parse body w) = w
   | Inr answer \<Rightarrow>
       validate_webhook_config parse body = []
       \<and> answer = redact_config (read_webhook_config (aw_hooks (fst (put_webhook_config parse body w))))
       \<and> read_webhook_config (aw_hooks (fst (put_webhook_config parse body w)))
           = (let old = wc_targets (read_webhook_config (aw_hooks w)); c = sanitize_config body in
              c\<lparr>wc_targets := map (\<lambda>t. t\<lparr>wt_secret :=
                  (if truthy_str (wt_secret t) then wt_secret t else stored_secret old (wt_id t))\<rparr>) (wc_targets c)\<rparr>)"
proof (cases "validate_webhook_config parse body = []")
  case True
  define c where "c = sanitize_config body \<lparr>wc_targets := map (keep_secret (wc_targets (read_webhook_config (aw_hooks w))))
    (wc_targets (sanitize_config body))\<rparr>"
  have reread: "read_webhook_config (Some (write_webhook_config c)) = c"
    using write_config_back [OF put_config_ok [where body = body and f = "aw_hooks w"]]
    by (simp add: read_webhook_config_def [of "Some _"] c_def)
  have put: "put_webhook_config parse body w = (w\<lparr>aw_hooks := Some (write_webhook_config c)\<rparr>, Inr (redact_config c))"
    using True by (simp add: put_webhook_config_def c_def Let_def)
  have eq: "sanitize_config body \<lparr>wc_targets := map (\<lambda>t. t\<lparr>wt_secret := (if truthy_str (wt_secret t) then wt_secret t
      else stored_secret (wc_targets (read_webhook_config (aw_hooks w))) (wt_id t))\<rparr>) (wc_targets (sanitize_config body))\<rparr> = c"
    unfolding c_def keep_secret_eq [abs_def] by simp
  show ?thesis
    unfolding put Let_def eq by (simp add: True reread)
qed (simp add: put_webhook_config_def Let_def)

section \<open>A transition that is lost\<close>

definition alerts_under_way :: "alert_world \<Rightarrow> flight list" where
  "alerts_under_way w = filter (\<lambda>f. fl_kind f = AlertFlight) (aw_flights w)"

text \<open>Requests that see the severity \<open>v\<close> under the rules \<open>rules\<close>, and completed deliveries.\<close>

fun steady :: "alert_config \<Rightarrow> alert_severity \<Rightarrow> alert_op \<Rightarrow> bool" where
  "steady rules v (MetricsOp m now) \<longleftrightarrow> ev_overall (evaluate_alerts m rules now) = v"
| "steady rules v (TargetOp net clock i j) \<longleftrightarrow> True"
| "steady rules v _ \<longleftrightarrow> False"

definition settled :: "alert_config \<Rightarrow> alert_severity \<Rightarrow> alert_world \<Rightarrow> bool" where
  "settled rules v w \<longleftrightarrow> alerts_under_way w = [] \<and> dl_last_severity (aw_delivery w) = Some v \<and> read_alert_config (aw_rules w) = rules"

lemma start_escalation_keeps:
  "alerts_under_way (start_escalation iso_text e w) = alerts_under_way w"
  "aw_delivery (start_escalation iso_text e w) = aw_delivery w" "aw_rules (start_escalation iso_text e w) = aw_rules w"
  by (simp_all add: start_escalation_def alerts_under_way_def new_flight_def Let_def split: prod.splits option.splits)

lemma record_flight_keeps:
  "aw_flights (record_flight parse clock f w) = aw_flights w" "aw_delivery (record_flight parse clock f w) = aw_delivery w"
  "aw_rules (record_flight parse clock f w) = aw_rules w"
  by (simp_all add: record_flight_def Let_def split: flight_kind.splits)

lemma delivery_done_severity [simp]: "dl_last_severity (delivery_done t r st) = dl_last_severity st"
  by (simp add: delivery_done_def)

lemma target_done_settled:
  assumes "settled rules v w"
  shows "settled rules v (target_done parse net clock i j w)"
proof (cases "i < length (aw_flights w) \<and> j < length (fl_targets (aw_flights w ! i)) \<and> fl_results (aw_flights w ! i) ! j = None")
  case True
  define f where "f = aw_flights w ! i"
  have kinds: "\<forall>g \<in> set (aw_flights w). fl_kind g \<noteq> AlertFlight"
    using assms by (auto simp: settled_def alerts_under_way_def filter_empty_conv)
  then have f: "fl_kind f \<noteq> AlertFlight" using True by (simp add: f_def)
  have "\<forall>g \<in> set (list_update (aw_flights w) i ( f\<lparr>fl_results := rs\<rparr>)). fl_kind g \<noteq> AlertFlight" for rs
    using kinds f by (auto dest!: subsetD [OF set_update_subset_insert])
  moreover have "\<forall>g \<in> set (take i (aw_flights w) @ drop (i + 1) (aw_flights w)). fl_kind g \<noteq> AlertFlight"
    using kinds by (auto dest: in_set_takeD in_set_dropD)
  ultimately show ?thesis
    using assms True f unfolding target_done_def Let_def f_def [symmetric]
    by (simp add: settled_def alerts_under_way_def filter_empty_conv record_flight_keeps del: set_append)
qed (use assms in \<open>auto simp: target_done_def\<close>)

lemma metrics_settled:
  assumes "settled rules v w" "ev_overall (evaluate_alerts m rules now) = v"
  shows "settled rules v (read_metrics iso_text m now w)"
proof -
  have "begin_deliveries c (evaluate_alerts m rules now) (aw_delivery w) = (aw_delivery w, None)" for c
    using assms by (simp add: begin_deliveries_def settled_def is_transition_def)
  then show ?thesis
    using assms by (simp add: read_metrics_def settled_def start_escalation_keeps start_alert_def Let_def)
      (simp add: alerts_under_way_def)
qed

lemma steady_settled:
  assumes "settled rules v w" "list_all (steady rules v) ops"
  shows "settled rules v (fold (alert_step parse iso_text) ops w)"
  using assms
proof (induction ops arbitrary: w)
  case (Cons op ops)
  then show ?case by (cases op) (simp_all add: metrics_settled target_done_settled)
qed simp

text \<open>
  A transition whose targets are all in their cooldown is never delivered: the new severity is noted
  before the targets are chosen, so that no later request sees a transition, however long the severity
  lasts.
\<close>

theorem transition_in_the_cooldown_is_lost:
  assumes "let c = read_webhook_config (aw_hooks w); e = evaluate_alerts m (read_alert_config (aw_rules w)) now in
      wc_enabled c \<and> wc_targets c \<noteq> [] \<and> is_transition (ev_overall e) (dl_last_severity (aw_delivery w))
      \<and> select_targets (wc_targets c) (ev_overall e) (aw_delivery w) (nullish (wc_cooldown c) 60000) now = []"
    and "alerts_under_way w = []"
    and "list_all (steady (read_alert_config (aw_rules w)) (ev_overall (evaluate_alerts m (read_alert_config (aw_rules w)) now))) ops"
  shows "alerts_under_way (fold (alert_step parse iso_text) (MetricsOp m now # ops) w) = []"
proof -
  let ?e = "evaluate_alerts m (read_alert_config (aw_rules w)) now"
  have at: "ev_at ?e = now" by (simp add: evaluate_alerts_def Let_def)
  have "begin_deliveries (read_webhook_config (aw_hooks w)) ?e (aw_delivery w)
      = ((aw_delivery w)\<lparr>dl_last_severity := Some (ev_overall ?e)\<rparr>, None)"
    using assms(1) by (simp add: begin_deliveries_def Let_def at select_targets_def selects_def [abs_def])
  then have "settled (read_alert_config (aw_rules w)) (ev_overall ?e) (read_metrics iso_text m now w)"
    using assms(2) by (simp add: read_metrics_def settled_def start_escalation_keeps start_alert_def Let_def)
      (simp add: alerts_under_way_def)
  from steady_settled [OF this assms(3)] show ?thesis by (simp add: settled_def)
qed

section \<open>Samples\<close>

definition sample_hooks :: webhook_config where
  "sample_hooks = default_webhook_config\<lparr>wc_enabled := True, wc_targets :=
     [\<lparr>wt_id = ''a'', wt_name = ''a'', wt_url = ''https://example.org/'', wt_enabled = True, wt_secret = None,
       wt_min = Some SevOk, wt_provider = None\<rparr>]\<rparr>"

definition sample_world :: alert_world where
  "sample_world = new_alert_world\<lparr>aw_hooks := Some (write_webhook_config sample_hooks),
     aw_delivery := \<lparr>dl_last_at = [(''a'', 1000000)], dl_last_severity = Some SevCritical\<rparr>\<rparr>"

definition quiet_metrics :: alert_metrics where
  "quiet_metrics = \<lparr>am_counts = [], am_success = None, am_stuck = 0, am_runtime = None, am_total = 0\<rparr>"

lemma sample_hooks_ok: "config_ok sample_hooks"
  by (auto simp: sample_hooks_def default_webhook_config_def config_ok_def target_ok_def intro: exI [of _ 3])

lemma sample_hooks_read: "read_webhook_config (aw_hooks sample_world) = sample_hooks"
  by (simp add: sample_world_def read_webhook_config_def write_config_back [OF sample_hooks_ok])

lemma quiet: "ev_overall (evaluate_alerts quiet_metrics (read_alert_config None) now) = SevOk"
  by (auto simp: evaluate_alerts_def read_alert_config_def default_alert_config_def rule_order_def rule_result_def
      evaluate_upper_bound_def threshold_def quiet_metrics_def max_severity_def Let_def)

theorem transition_in_the_cooldown_is_lost_witness:
  "alerts_under_way (fold (alert_step (\<lambda>_. None) (\<lambda>_. [])) [MetricsOp quiet_metrics 1030000, MetricsOp quiet_metrics 9000000] sample_world) = []"
proof (rule transition_in_the_cooldown_is_lost)
  have rules: "aw_rules sample_world = None" by (simp add: sample_world_def new_alert_world_def)
  show "let c = read_webhook_config (aw_hooks sample_world);
      e = evaluate_alerts quiet_metrics (read_alert_config (aw_rules sample_world)) 1030000 in
      wc_enabled c \<and> wc_targets c \<noteq> [] \<and> is_transition (ev_overall e) (dl_last_severity (aw_delivery sample_world))
      \<and> select_targets (wc_targets c) (ev_overall e) (aw_delivery sample_world) (nullish (wc_cooldown c) 60000) 1030000 = []"
    unfolding sample_hooks_read rules Let_def quiet
    by (simp add: sample_hooks_def sample_world_def default_webhook_config_def is_transition_def select_targets_def selects_def)
  show "list_all (steady (read_alert_config (aw_rules sample_world))
      (ev_overall (evaluate_alerts quiet_metrics (read_alert_config (aw_rules sample_world)) 1030000)))
      [MetricsOp quiet_metrics 9000000]"
    unfolding rules quiet by (simp add: quiet)
qed (simp add: sample_world_def new_alert_world_def alerts_under_way_def)

theorem reachable_alerting_is_well_formed_witness:
  "alerting_ok (alert_step (\<lambda>_. None) (\<lambda>_. []) (PutHooksOp (JObj [(''escalation'', sample_escalation)])) new_alert_world)"
  by (rule reachable_alerting_is_well_formed [OF alert_reachable.step [OF alert_reachable.start]])

end
