(* ===== verification/Workflow_Values.thy ===== *)
theory Workflow_Values
  imports Prelude
begin

text \<open>
  \<open>lib/workflow-macros-helpers.ts\<close>: the values that flow through workflow macros, paths into them,
  and the templates \<open>{{path}}\<close> in parameters. The spelling of numbers as text is a parameter, and so
  is \<open>Number\<close> of a text, \<^const>\<open>None\<close> being \<open>NaN\<close> or an infinity. Inherited properties of objects
  are not modelled.
\<close>

section \<open>Values\<close>

datatype jval =
    VUndef
  | VNull
  | VBool bool
  | VNum rat
  | VStr string
  | VArr "jval list"
  | VObj "(string \<times> jval) list"

type_synonym fields = "(string, jval) jsmap"

text \<open>\<open>{...a, ...b}\<close> and \<open>Object.assign(a, b)\<close>.\<close>

definition assign :: "fields \<Rightarrow> fields \<Rightarrow> fields" where
  "assign a b = fold (\<lambda>(k, v). js_set k v) b a"

text \<open>\<open>JSON.parse(JSON.stringify(v))\<close>.\<close>

fun clone_value :: "jval \<Rightarrow> jval" where
  "clone_value (VArr xs) = VArr (map (\<lambda>x. if x = VUndef then VNull else clone_value x) xs)"
| "clone_value (VObj fs) = VObj (map (\<lambda>(k, v). (k, clone_value v)) (filter (\<lambda>(k, v). v \<noteq> VUndef) fs))"
| "clone_value v = v"

definition clone_fields :: "fields \<Rightarrow> fields" where
  "clone_fields fs = map (\<lambda>(k, v). (k, clone_value v)) (filter (\<lambda>(k, v). v \<noteq> VUndef) fs)"

text \<open>\<open>String(v)\<close>; in an array, \<open>null\<close> and \<open>undefined\<close> are empty.\<close>

fun value_string :: "(rat \<Rightarrow> string) \<Rightarrow> jval \<Rightarrow> string" where
  "value_string num VUndef = ''undefined''"
| "value_string num VNull = ''null''"
| "value_string num (VBool b) = (if b then ''true'' else ''false'')"
| "value_string num (VNum q) = num q"
| "value_string num (VStr s) = s"
| "value_string num (VArr xs) = join_with '','' (map (\<lambda>x. if x = VUndef \<or> x = VNull then [] else value_string num x) xs)"
| "value_string num (VObj fs) = ''[object Object]''"

section \<open>Paths\<close>

definition path_parts :: "string \<Rightarrow> string list" where
  "path_parts path = filter (\<lambda>p. p \<noteq> []) (map js_trim (split_on (CHR ''.'') path))"

fun walk_path :: "(string \<Rightarrow> rat option) \<Rightarrow> jval \<Rightarrow> string list \<Rightarrow> jval" where
  "walk_path number v [] = v"
| "walk_path number (VObj fs) (p # ps) = walk_path number (nullish (js_get fs p) VUndef) ps"
| "walk_path number (VArr xs) (p # ps) =
     (case number p of
        None \<Rightarrow> VUndef
      | Some q \<Rightarrow>
          if q = of_int \<lfloor>q\<rfloor> then
            walk_path number (if 0 \<le> \<lfloor>q\<rfloor> \<and> \<lfloor>q\<rfloor> < int (length xs) then xs ! nat \<lfloor>q\<rfloor> else VUndef) ps
          else VUndef)"
| "walk_path number v (p # ps) = VUndef"

definition get_path_value :: "(string \<Rightarrow> rat option) \<Rightarrow> jval \<Rightarrow> string \<Rightarrow> jval" where
  "get_path_value number source path = (if path = [] then VUndef else walk_path number source (path_parts path))"

section \<open>Templates\<close>

definition is_brace :: "char \<Rightarrow> bool" where
  "is_brace c \<longleftrightarrow> c = CHR ''{'' \<or> c = CHR ''}''"

text \<open>
  A match of \<open>{{\s*([^{}]+?)\s*}}\<close> at the start of a text: what is between the braces, and the rest.
\<close>

definition template_at :: "string \<Rightarrow> (string \<times> string) option" where
  "template_at s =
     (if take 2 s = ''{{'' then
        (let inner = takeWhile (\<lambda>c. \<not> is_brace c) (drop 2 s); rest = drop (2 + length inner) s in
         if inner \<noteq> [] \<and> take 2 rest = ''}}'' then Some (inner, drop 2 rest) else None)
      else None)"

text \<open>The group of the match: trimmed, unless nothing but white space is there, of which one remains.\<close>

definition template_path :: "string \<Rightarrow> string" where
  "template_path inner = (if js_trim inner = [] then [List.last inner] else js_trim inner)"

lemma template_at_shorter: "template_at s = Some (inner, rest) \<Longrightarrow> length rest < length s"
  by (cases s) (auto simp: template_at_def Let_def split: if_splits)

function fill_templates :: "(string \<Rightarrow> string) \<Rightarrow> string \<Rightarrow> string" where
  "fill_templates f [] = []"
| "fill_templates f (c # s) =
     (case template_at (c # s) of
        Some (inner, rest) \<Rightarrow> f (template_path inner) @ fill_templates f rest
      | None \<Rightarrow> c # fill_templates f s)"
  by pat_completeness auto

termination
  by (relation "measure (\<lambda>(f, s). length s)") (auto dest: template_at_shorter)

record text_platform =
  tp_number :: "string \<Rightarrow> rat option"
  tp_text :: "rat \<Rightarrow> string"

definition template_text :: "text_platform \<Rightarrow> jval \<Rightarrow> string \<Rightarrow> string" where
  "template_text tp cx path =
     (let v = get_path_value (tp_number tp) cx path in
      if v = VNull \<or> v = VUndef then [] else value_string (tp_text tp) v)"

definition resolve_text :: "text_platform \<Rightarrow> jval \<Rightarrow> string \<Rightarrow> jval" where
  "resolve_text tp cx s =
     (case template_at s of
        Some (inner, []) \<Rightarrow> get_path_value (tp_number tp) cx (template_path inner)
      | _ \<Rightarrow> VStr (fill_templates (template_text tp cx) s))"

fun resolve_template :: "text_platform \<Rightarrow> jval \<Rightarrow> jval \<Rightarrow> jval" where
  "resolve_template tp cx (VStr s) = resolve_text tp cx s"
| "resolve_template tp cx (VArr xs) = VArr (map (resolve_template tp cx) xs)"
| "resolve_template tp cx (VObj fs) = VObj (map (\<lambda>(k, v). (k, resolve_template tp cx v)) fs)"
| "resolve_template tp cx v = v"

definition resolve_fields :: "text_platform \<Rightarrow> jval \<Rightarrow> fields \<Rightarrow> fields" where
  "resolve_fields tp cx fs = map (\<lambda>(k, v). (k, resolve_template tp cx v)) fs"

section \<open>Conditions\<close>

datatype wf_condition = CondText string | CondFun "string \<Rightarrow> fields \<Rightarrow> fields \<Rightarrow> bool"

fun holds_value :: "jval \<Rightarrow> bool" where
  "holds_value (VBool b) = b"
| "holds_value (VNum q) = (q \<noteq> 0)"
| "holds_value (VStr s) = (to_lower (js_trim s) \<notin> {''false'', ''0'', ''no'', []})"
| "holds_value VUndef = False"
| "holds_value VNull = False"
| "holds_value v = True"

definition evaluate_condition ::
  "text_platform \<Rightarrow> wf_condition option \<Rightarrow> string \<Rightarrow> fields \<Rightarrow> fields \<Rightarrow> bool" where
  "evaluate_condition tp c name inputs vars =
     (case c of
        None \<Rightarrow> True
      | Some (CondFun f) \<Rightarrow> f name inputs vars
      | Some (CondText s) \<Rightarrow>
          holds_value (resolve_text tp (VObj [(''inputs'', VObj inputs), (''state'', VObj vars), (''workflow'', VStr name)]) s))"

section \<open>What templates do\<close>

lemma template_at_plain: "CHR ''{'' \<notin> set s \<Longrightarrow> template_at s = None"
  by (cases s) (auto simp: template_at_def take_Suc numeral_2_eq_2 split: if_splits)

lemma fill_plain: "CHR ''{'' \<notin> set s \<Longrightarrow> fill_templates f s = s"
  by (induction s) (auto simp: template_at_plain)

lemma template_at_whole:
  assumes "inner \<noteq> []" "\<not> list_ex is_brace inner"
  shows "template_at (''{{'' @ inner @ ''}}'' @ rest) = Some (inner, rest)"
proof -
  have "takeWhile (\<lambda>c. \<not> is_brace c) (inner @ ''}}'' @ rest) = inner"
    using assms(2) by (auto simp: takeWhile_append list_ex_iff is_brace_def)
  then show ?thesis using assms(1) by (simp add: template_at_def Let_def)
qed

text \<open>A text of literals without an opening brace and of paths is filled part by part.\<close>

lemma fill_append_plain: "CHR ''{'' \<notin> set s \<Longrightarrow> fill_templates f (s @ t) = s @ fill_templates f t"
proof (induction s)
  case (Cons c s)
  then have "template_at (c # s @ t) = None" by (auto simp: template_at_def take_Suc numeral_2_eq_2)
  with Cons show ?case by simp
qed simp

lemma fill_append_template:
  assumes "inner \<noteq> []" "\<not> list_ex is_brace inner"
  shows "fill_templates f (''{{'' @ inner @ ''}}'' @ t) = f (template_path inner) @ fill_templates f t"
  using template_at_whole [OF assms, of t] by simp

datatype template_part = Literal string | Path string

fun part_text :: "template_part \<Rightarrow> string" where
  "part_text (Literal s) = s"
| "part_text (Path p) = ''{{'' @ p @ ''}}''"

fun part_ok :: "template_part \<Rightarrow> bool" where
  "part_ok (Literal s) \<longleftrightarrow> CHR ''{'' \<notin> set s"
| "part_ok (Path p) \<longleftrightarrow> p \<noteq> [] \<and> \<not> list_ex is_brace p"

lemma fill_parts:
  "list_all part_ok ps \<Longrightarrow>
   fill_templates f (concat (map part_text ps)) = concat (map (\<lambda>p. case p of Literal s \<Rightarrow> s | Path q \<Rightarrow> f (template_path q)) ps)"
proof (induction ps)
  case (Cons p ps)
  show ?case
  proof (cases p)
    case (Path q)
    then show ?thesis using Cons fill_append_template [of q f "concat (map part_text ps)"] by simp
  qed (use Cons in \<open>simp add: fill_append_plain\<close>)
qed simp

end
