(* ===== verification/Async.thy ===== *)
theory Async
  imports Prelude
begin

text \<open>
  Asynchronous functions. A call runs without interruption up to its first \<open>await\<close>; what is left of it
  is a process, which is either done or runs on when its turn comes, up to the next \<open>await\<close>. Calls that
  are awaited one after the other are sequenced; \<open>Promise.all\<close> and \<open>Promise.allSettled\<close> begin all calls
  in order and then let them run in any order, which a schedule fixes.
\<close>

section \<open>Processes\<close>

datatype ('s, 'a) proc = Done 'a | Step "'s \<Rightarrow> 's \<times> ('s, 'a) proc"

type_synonym ('s, 'a) call = "'s \<Rightarrow> 's \<times> ('s, 'a) proc"

definition return_now :: "'a \<Rightarrow> ('s, 'a) call" where
  "return_now a s = (s, Done a)"

text \<open>\<open>const a = await p; \<dots>\<close>: the rest \<open>k\<close> of the function runs in a turn of its own.\<close>

primrec await :: "('s, 'a) proc \<Rightarrow> ('a \<Rightarrow> ('s, 'b) call) \<Rightarrow> ('s, 'b) proc" where
  "await (Done a) k = Step (k a)"
| "await (Step f) k = Step (\<lambda>s. map_prod id (\<lambda>p. await p k) (f s))"

definition await_call :: "('s, 'a) call \<Rightarrow> ('a \<Rightarrow> ('s, 'b) call) \<Rightarrow> ('s, 'b) call" where
  "await_call c k s = (let (s', p) = c s in (s', await p k))"

text \<open>The result of a process that is the only one that runs.\<close>

primrec alone :: "('s, 'a) proc \<Rightarrow> 's \<Rightarrow> 's \<times> 'a" where
  "alone (Done a) = (\<lambda>s. (s, a))"
| "alone (Step f) = (\<lambda>s. case map_prod id alone (f s) of (s', run) \<Rightarrow> run s')"

definition run_call :: "('s, 'a) call \<Rightarrow> 's \<Rightarrow> 's \<times> 'a" where
  "run_call c s = (let (s', p) = c s in alone p s')"

section \<open>Concurrent calls\<close>

fun begin_all :: "('s, 'a) call list \<Rightarrow> 's \<Rightarrow> 's \<times> ('s, 'a) proc list" where
  "begin_all [] s = (s, [])"
| "begin_all (c # cs) s = (let (s1, p) = c s; (s2, ps) = begin_all cs s1 in (s2, p # ps))"

definition pending :: "('s, 'a) proc list \<Rightarrow> nat \<Rightarrow> ('s, 'a) call option" where
  "pending ps i = (if i < length ps then (case ps ! i of Done a \<Rightarrow> None | Step f \<Rightarrow> Some f) else None)"

text \<open>When the schedule ends, the processes that are left are run one after the other.\<close>

fun drain :: "('s, 'a) proc list \<Rightarrow> ('s, 'a list) proc" where
  "drain [] = Done []"
| "drain (p # ps) = await p (\<lambda>a s. (s, await (drain ps) (\<lambda>rest s. (s, Done (a # rest)))))"

fun interleave :: "nat list \<Rightarrow> ('s, 'a) proc list \<Rightarrow> ('s, 'a list) proc" where
  "interleave [] ps = drain ps"
| "interleave (i # sched) ps =
     (case pending ps i of
        None \<Rightarrow> interleave sched ps
      | Some f \<Rightarrow> Step (\<lambda>s. let (s', p) = f s in (s', interleave sched (ps[i := p]))))"

definition all_settled :: "nat list \<Rightarrow> ('s, 'a) call list \<Rightarrow> ('s, 'a list) call" where
  "all_settled sched cs s = (let (s', ps) = begin_all cs s in (s', interleave sched ps))"

section \<open>Reasoning\<close>

lemma proc_turns [case_names Done Step]:
  assumes "\<And>a. P (Done a)" "\<And>f. (\<And>s s' q. f s = (s', q) \<Longrightarrow> P q) \<Longrightarrow> P (Step f)"
  shows "P p"
proof (induction p)
  case (Step f)
  show ?case
  proof (rule assms(2))
    fix s s' q assume q: "f s = (s', q)"
    have "f s \<in> range f" by simp
    then show "P q" by (rule Step) (simp add: q prod_set_simps)
  qed
qed (rule assms(1))

lemma alone_await: "alone (await p k) s = (let (s', a) = alone p s in run_call (k a) s')"
proof (induction p arbitrary: s rule: proc_turns)
  case (Step f)
  obtain s' q where q: "f s = (s', q)" by fastforce
  show ?case using Step [OF q] by (simp add: q)
qed (simp add: run_call_def split: prod.splits)

lemma run_return [simp]: "run_call (return_now a) s = (s, a)"
  by (simp add: run_call_def return_now_def)

lemma run_await_call: "run_call (await_call c k) s = (let (s', a) = run_call c s in run_call (k a) s')"
  by (simp add: run_call_def await_call_def alone_await split_beta Let_def)

text \<open>
  A process whose turns relate the states before and after them by \<open>R\<close>, whatever state the others
  left, and whose result has a property.
\<close>

primrec turns :: "('s \<Rightarrow> 's \<Rightarrow> bool) \<Rightarrow> ('a \<Rightarrow> bool) \<Rightarrow> ('s, 'a) proc \<Rightarrow> bool" where
  "turns R Q (Done a) = Q a"
| "turns R Q (Step f) = (\<forall>s. case map_prod id (turns R Q) (f s) of (s', b) \<Rightarrow> R s s' \<and> b)"

definition call_turns :: "('s \<Rightarrow> 's \<Rightarrow> bool) \<Rightarrow> ('a \<Rightarrow> bool) \<Rightarrow> ('s, 'a) call \<Rightarrow> bool" where
  "call_turns R Q c \<longleftrightarrow> (\<forall>s. R s (fst (c s)) \<and> turns R Q (snd (c s)))"

lemma turns_Step [simp]: "turns R Q (Step f) \<longleftrightarrow> call_turns R Q f"
  by (simp add: call_turns_def split_beta)

declare turns.simps(2) [simp del]

lemma call_turnsD: "call_turns R Q c \<Longrightarrow> c s = (s', p) \<Longrightarrow> R s s' \<and> turns R Q p"
  by (metis call_turns_def fst_conv snd_conv)

lemma call_turnsI: "(\<And>s s' p. c s = (s', p) \<Longrightarrow> R s s' \<and> turns R Q p) \<Longrightarrow> call_turns R Q c"
  by (metis call_turns_def prod.collapse)

lemma turns_await:
  assumes "turns R Q p" "\<And>a. Q a \<Longrightarrow> call_turns R Q' (k a)"
  shows "turns R Q' (await p k)"
  using assms(1)
proof (induction p rule: proc_turns)
  case (Step f)
  show ?case
  proof (simp, rule call_turnsI)
    fix s s' p
    assume turn: "map_prod id (\<lambda>p. await p k) (f s) = (s', p)"
    obtain q where q: "f s = (s', q)" "p = await q k" using turn by (cases "f s") auto
    with Step.prems have "R s s'" "turns R Q q" using call_turnsD by fastforce+
    with Step.IH [OF q(1)] q(2) show "R s s' \<and> turns R Q' p" by simp
  qed
qed (use assms(2) in simp)

lemma call_turns_await:
  assumes "call_turns R Q c" "\<And>a. Q a \<Longrightarrow> call_turns R Q' (k a)"
  shows "call_turns R Q' (await_call c k)"
proof (rule call_turnsI)
  fix s s' p assume "await_call c k s = (s', p)"
  then obtain q where q: "c s = (s', q)" "p = await q k" by (cases "c s") (auto simp: await_call_def)
  have "R s s' \<and> turns R Q q" by (rule call_turnsD [OF assms(1) q(1)])
  then show "R s s' \<and> turns R Q' p" using turns_await [of R Q q Q' k] assms(2) q(2) by blast
qed

lemma turns_mono: "turns R Q p \<Longrightarrow> (\<And>a. Q a \<Longrightarrow> Q' a) \<Longrightarrow> turns R Q' p"
proof (induction p rule: proc_turns)
  case (Step f)
  have "call_turns R Q' f"
  proof (rule call_turnsI)
    fix s s' q assume q: "f s = (s', q)"
    then have "R s s'" "turns R Q q" using Step.prems(1) call_turnsD by fastforce+
    with Step.IH [OF q] Step.prems(2) show "R s s' \<and> turns R Q' q" by blast
  qed
  then show ?case by simp
qed simp

lemma call_turns_mono: "call_turns R Q c \<Longrightarrow> (\<And>a. Q a \<Longrightarrow> Q' a) \<Longrightarrow> call_turns R Q' c"
  unfolding call_turns_def using turns_mono [of R Q _ Q'] by blast

lemma turns_drain:
  assumes "reflp R"
  shows "list_all (turns R Q) ps \<Longrightarrow> turns R (list_all Q) (drain ps)"
proof (induction ps)
  case (Cons p ps)
  show ?case
    unfolding drain.simps
  proof (rule turns_await)
    show "turns R Q p" using Cons.prems by simp
    fix a assume "Q a"
    have "turns R (list_all Q) (drain ps)" using Cons by simp
    then have "turns R (list_all Q) (await (drain ps) (\<lambda>rest s. (s, Done (a # rest))))"
      by (rule turns_await) (use assms \<open>Q a\<close> in \<open>auto simp: call_turns_def reflpD\<close>)
    then show "call_turns R (list_all Q) (\<lambda>s. (s, await (drain ps) (\<lambda>rest s. (s, Done (a # rest)))))"
      using assms by (auto simp: call_turns_def reflpD)
  qed
qed simp

lemma pending_Some: "pending ps i = Some f \<longleftrightarrow> i < length ps \<and> ps ! i = Step f"
  by (auto simp: pending_def split: proc.splits)

lemma turns_interleave:
  assumes "reflp R"
  shows "list_all (turns R Q) ps \<Longrightarrow> turns R (list_all Q) (interleave sched ps)"
proof (induction sched arbitrary: ps)
  case (Cons i sched)
  show ?case
  proof (cases "pending ps i")
    case (Some f)
    then have f: "call_turns R Q f" using Cons.prems by (auto simp: list_all_length pending_Some)
    have "call_turns R (list_all Q) (\<lambda>s. let (s', p) = f s in (s', interleave sched (ps[i := p])))"
    proof (rule call_turnsI)
      fix s s' p assume s: "(let (s', p) = f s in (s', interleave sched (ps[i := p]))) = (s', p)"
      then obtain q where q: "f s = (s', q)" "p = interleave sched (ps[i := q])" by (cases "f s") auto
      have "R s s'" "turns R Q q" using call_turnsD [OF f q(1)] by auto
      moreover have "list_all (turns R Q) (ps[i := q])"
        using Cons.prems \<open>turns R Q q\<close> by (auto simp: list_all_iff dest!: subsetD [OF set_update_subset_insert])
      ultimately show "R s s' \<and> turns R (list_all Q) p" using Cons.IH q(2) by blast
    qed
    then show ?thesis using Some by simp
  qed (use Cons in simp)
qed (use turns_drain [OF assms] in simp)

lemma begin_all_turns:
  assumes "reflp R" "transp R" "\<And>c. c \<in> set cs \<Longrightarrow> call_turns R Q c" "begin_all cs s = (s', ps)"
  shows "R s s' \<and> list_all (turns R Q) ps \<and> length ps = length cs"
  using assms(3,4)
proof (induction cs arbitrary: s s' ps)
  case (Cons c cs)
  obtain s1 p where c: "c s = (s1, p)" by fastforce
  have s1: "R s s1 \<and> turns R Q p" using Cons.prems(1) c by (auto dest: call_turnsD)
  obtain s2 qs where rest: "begin_all cs s1 = (s2, qs)" by fastforce
  have IH: "R s1 s2 \<and> list_all (turns R Q) qs \<and> length qs = length cs"
    by (rule Cons.IH [OF _ rest]) (use Cons.prems in auto)
  then have "R s s2" using s1 assms(2) by (meson transpE)
  then show ?case using Cons.prems(2) c rest s1 IH by auto
qed (use assms(1) in \<open>auto dest: reflpD\<close>)

lemma all_settled_turns:
  assumes "reflp R" "transp R" "\<And>c. c \<in> set cs \<Longrightarrow> call_turns R Q c"
  shows "call_turns R (list_all Q) (all_settled sched cs)"
proof (rule call_turnsI)
  fix s s' p assume s: "all_settled sched cs s = (s', p)"
  then obtain ps where ps: "begin_all cs s = (s', ps)" "p = interleave sched ps"
    by (cases "begin_all cs s") (auto simp: all_settled_def)
  then show "R s s' \<and> turns R (list_all Q) p"
    using begin_all_turns [OF assms(1,2) assms(3) ps(1)] turns_interleave [OF assms(1), of Q ps sched] by blast
qed

lemma turns_alone:
  assumes "reflp R" "transp R" "turns R Q p" "alone p s = (s', a)"
  shows "R s s' \<and> Q a"
  using assms(3,4)
proof (induction p arbitrary: s rule: proc_turns)
  case (Step f)
  obtain s1 q where q: "f s = (s1, q)" by fastforce
  have t: "R s s1 \<and> turns R Q q" using Step.prems(1) q by (auto dest: call_turnsD)
  have "alone q s1 = (s', a)" using Step.prems(2) q by simp
  then have "R s1 s' \<and> Q a" using Step.IH [OF q] t by blast
  then show ?case using t assms(2) by (meson transpE)
qed (use assms(1) in \<open>auto dest: reflpD\<close>)

lemma turns_run:
  assumes "reflp R" "transp R" "call_turns R Q c" "run_call c s = (s', a)"
  shows "R s s' \<and> Q a"
proof -
  obtain s1 p where c: "c s = (s1, p)" by fastforce
  have p: "R s s1 \<and> turns R Q p" by (rule call_turnsD [OF assms(3) c])
  have rest: "alone p s1 = (s', a)" using assms(4) c by (simp add: run_call_def)
  have "R s1 s' \<and> Q a" by (rule turns_alone [OF assms(1,2) conjunct2 [OF p] rest])
  then show ?thesis using p assms(2) by (meson transpE)
qed

text \<open>What every turn preserves, as a relation.\<close>

definition preserves :: "('s \<Rightarrow> bool) \<Rightarrow> 's \<Rightarrow> 's \<Rightarrow> bool" where
  "preserves I s s' \<longleftrightarrow> (I s \<longrightarrow> I s')"

lemma preserves_refl [simp]: "reflp (preserves I)"
  by (simp add: reflp_def preserves_def)

lemma preserves_trans [simp]: "transp (preserves I)"
  by (auto simp: transp_def preserves_def)

section \<open>Protocols\<close>

text \<open>
  A protocol of concurrent processes: each process has a ghost state that its turns advance, and an
  invariant relates the state to the ghosts of all processes. A turn may rely on what the invariant
  says of its own ghost.
\<close>

locale protocol =
  fixes turn :: "'g \<Rightarrow> 's \<Rightarrow> 'g \<Rightarrow> 's \<Rightarrow> bool"
    and enabled :: "'g \<Rightarrow> 's \<Rightarrow> bool"
    and final :: "'g \<Rightarrow> bool"
    and inv :: "'s \<Rightarrow> 'g list \<Rightarrow> bool"
  assumes turn_inv: "inv s (xs @ g # ys) \<Longrightarrow> turn g s g' s' \<Longrightarrow> inv s' (xs @ g' # ys)"
    and inv_enabled: "inv s (xs @ g # ys) \<Longrightarrow> enabled g s"
begin

primrec follows :: "('s, 'a) proc \<Rightarrow> 'g \<Rightarrow> bool" where
  "follows (Done a) = final"
| "follows (Step f) =
     (\<lambda>g. \<forall>s. enabled g s \<longrightarrow> (\<exists>g'. case map_prod id follows (f s) of (s', ok) \<Rightarrow> turn g s g' s' \<and> ok g'))"

definition call_follows :: "('s, 'a) call \<Rightarrow> 'g \<Rightarrow> bool" where
  "call_follows c g \<longleftrightarrow> (\<forall>s. enabled g s \<longrightarrow> (\<exists>g'. turn g s g' (fst (c s)) \<and> follows (snd (c s)) g'))"

lemma follows_Step [simp]: "follows (Step f) g \<longleftrightarrow> call_follows f g"
  by (simp add: call_follows_def split_beta)

declare follows.simps(2) [simp del]

lemma call_followsD: "call_follows c g \<Longrightarrow> enabled g s \<Longrightarrow> c s = (s', p) \<Longrightarrow> \<exists>g'. turn g s g' s' \<and> follows p g'"
  by (metis call_follows_def fst_conv snd_conv)

lemma alone_follows:
  "follows p g \<Longrightarrow> inv s (xs @ g # ys) \<Longrightarrow> alone p s = (s', a) \<Longrightarrow> \<exists>g'. inv s' (xs @ g' # ys) \<and> final g'"
proof (induction p arbitrary: g s rule: proc_turns)
  case (Step f)
  obtain s1 q where q: "f s = (s1, q)" by fastforce
  obtain g1 where g1: "turn g s g1 s1" "follows q g1"
    using call_followsD [of f g s, OF _ inv_enabled [OF Step.prems(2)] q] Step.prems(1) by auto
  have "alone q s1 = (s', a)" using Step.prems(3) q by simp
  with Step.IH [OF q g1(2) turn_inv [OF Step.prems(2) g1(1)]] show ?case by blast
qed auto

lemma drain_follows:
  "list_all2 follows ps gs \<Longrightarrow> inv s (xs @ gs) \<Longrightarrow> alone (drain ps) s = (s', as)
   \<Longrightarrow> \<exists>gs'. inv s' (xs @ gs') \<and> list_all final gs' \<and> length gs' = length gs"
proof (induction ps arbitrary: gs s xs as s')
  case (Cons p ps)
  then obtain g gs1 where gs: "gs = g # gs1" "follows p g" "list_all2 follows ps gs1"
    by (auto simp: list_all2_Cons1)
  obtain s1 a where p: "alone p s = (s1, a)" by fastforce
  obtain s2 bs where rest: "alone (drain ps) s1 = (s2, bs)" by fastforce
  have s': "s' = s2" using Cons.prems(3) p rest by (simp add: alone_await run_call_def)
  obtain g1 where g1: "inv s1 (xs @ g1 # gs1)" "final g1"
    using alone_follows [OF gs(2) _ p] Cons.prems(2) gs(1) by auto
  have "inv s1 ((xs @ [g1]) @ gs1)" using g1(1) by simp
  from Cons.IH [OF gs(3) this rest] obtain gs2 where
    "inv s2 ((xs @ [g1]) @ gs2)" "list_all final gs2" "length gs2 = length gs1" by blast
  then show ?case using g1(2) gs(1) s' by (intro exI [of _ "g1 # gs2"]) simp
qed auto

lemma interleave_follows:
  "list_all2 follows ps gs \<Longrightarrow> inv s gs \<Longrightarrow> alone (interleave sched ps) s = (s', as)
   \<Longrightarrow> \<exists>gs'. inv s' gs' \<and> list_all final gs' \<and> length gs' = length gs"
proof (induction sched arbitrary: ps gs s)
  case Nil
  then show ?case using drain_follows [of ps gs s "[]"] by simp
next
  case (Cons i sched)
  show ?case
  proof (cases "pending ps i")
    case None
    then show ?thesis using Cons by simp
  next
    case (Some f)
    then have i: "i < length ps" "ps ! i = Step f" by (simp_all add: pending_Some)
    then have len: "i < length gs" using Cons.prems(1) by (simp add: list_all2_lengthD)
    define xs g ys where "xs = take i gs" and "g = gs ! i" and "ys = drop (Suc i) gs"
    have gs: "gs = xs @ g # ys" "length xs = i" using len by (simp_all add: xs_def g_def ys_def id_take_nth_drop)
    have f: "call_follows f g" using list_all2_nthD [OF Cons.prems(1) i(1)] i(2) by (simp add: g_def)
    obtain s1 q where q: "f s = (s1, q)" by fastforce
    have inv: "inv s (xs @ g # ys)" using Cons.prems(2) gs(1) by simp
    obtain g1 where g1: "turn g s g1 s1" "follows q g1"
      using call_followsD [OF f inv_enabled [OF inv] q] by blast
    have upd: "gs[i := g1] = xs @ g1 # ys" using gs by (simp add: list_update_append)
    have "list_all2 follows (ps[i := q]) (gs[i := g1])"
      using Cons.prems(1) g1(2) by (rule list_all2_update_cong)
    moreover have "inv s1 (gs[i := g1])" unfolding upd by (rule turn_inv [OF inv g1(1)])
    moreover have "alone (interleave sched (ps[i := q])) s1 = (s', as)" using Cons.prems(3) Some q by simp
    ultimately show ?thesis using Cons.IH by fastforce
  qed
qed

lemma begin_follows:
  "list_all2 call_follows cs gs \<Longrightarrow> inv s (xs @ gs) \<Longrightarrow> begin_all cs s = (s', ps)
   \<Longrightarrow> \<exists>gs'. inv s' (xs @ gs') \<and> list_all2 follows ps gs' \<and> length gs' = length gs"
proof (induction cs arbitrary: gs s xs ps s')
  case (Cons c cs)
  then obtain g gs1 where gs: "gs = g # gs1" "call_follows c g" "list_all2 call_follows cs gs1"
    by (auto simp: list_all2_Cons1)
  obtain s1 p where c: "c s = (s1, p)" by fastforce
  obtain s2 qs where rest: "begin_all cs s1 = (s2, qs)" by fastforce
  have s': "s' = s2" "ps = p # qs" using Cons.prems(3) c rest by simp_all
  have inv: "inv s (xs @ g # gs1)" using Cons.prems(2) gs(1) by simp
  obtain g1 where g1: "turn g s g1 s1" "follows p g1" using call_followsD [OF gs(2) inv_enabled [OF inv] c] by blast
  have "inv s1 ((xs @ [g1]) @ gs1)" using turn_inv [OF inv g1(1)] by simp
  from Cons.IH [OF gs(3) this rest] obtain gs2 where
    "inv s2 ((xs @ [g1]) @ gs2)" "list_all2 follows qs gs2" "length gs2 = length gs1" by blast
  then show ?case using g1(2) gs(1) s' by (intro exI [of _ "g1 # gs2"]) simp
qed auto

lemma await_follows:
  assumes "turns R Q p" "\<And>s s'. R s s' \<Longrightarrow> turn g s g s'" "\<And>a. Q a \<Longrightarrow> call_follows (k a) g"
  shows "follows (await p k) g"
  using assms(1)
proof (induction p rule: proc_turns)
  case (Step f)
  have "\<exists>g'. turn g s g' (fst (f s)) \<and> follows (await (snd (f s)) k) g'" for s
  proof -
    obtain s' q where q: "f s = (s', q)" by fastforce
    then have t: "R s s' \<and> turns R Q q" using Step.prems by (auto dest: call_turnsD)
    then have "follows (await q k) g" using Step.IH [OF q] by blast
    then show ?thesis using t assms(2) q by auto
  qed
  then show ?case by (simp add: call_follows_def)
qed (use assms(3) in simp)

text \<open>Whatever the schedule, the calls end in a state that satisfies the invariant with final ghosts.\<close>

lemma settled_follows:
  assumes "list_all2 call_follows cs gs" "inv s gs" "run_call (all_settled sched cs) s = (s', as)"
  shows "\<exists>gs'. inv s' gs' \<and> list_all final gs' \<and> length gs' = length gs"
proof -
  obtain s1 ps where b: "begin_all cs s = (s1, ps)" by fastforce
  obtain gs1 where gs1: "inv s1 gs1" "list_all2 follows ps gs1" "length gs1 = length gs"
    using begin_follows [OF assms(1) _ b, of "[]"] assms(2) by auto
  have "alone (interleave sched ps) s1 = (s', as)" using assms(3) b by (simp add: run_call_def all_settled_def)
  from interleave_follows [OF gs1(2,1) this] gs1(3) show ?thesis by simp
qed

end

end
