(* ===== verification/Workflow_Engine.thy ===== *)
theory Workflow_Engine
  imports Workflow_Values Async
begin

text \<open>
  \<open>lib/workflow-macros.ts\<close>, first part: the command library, the progress tracker, and the engine that
  executes commands with retries, caches their results, and rolls them back. Handlers are functions of
  the platform: a handler is called with the parameters and the state of the run, which it may change,
  acts on the world at its call, and its result arrives in a later turn. Timestamps and the texts a
  result carries for display are left out.
\<close>

section \<open>Commands\<close>

record retry_policy =
  rp_max :: "rat option"
  rp_backoff :: "rat option"
  rp_max_backoff :: "rat option"

text \<open>The name is a text where the source writes it, and any value once a template is resolved.\<close>

datatype command_ref =
  CommandRef (cr_command: jval) (cr_params: "fields option") (cr_retry: "retry_policy option")
    (cr_key: "jval option") (cr_rollback: "command_ref option")

record handler_call =
  ca_params :: fields
  ca_run :: string
  ca_workflow :: string
  ca_step :: string
  ca_attempt :: nat
  ca_inputs :: fields
  ca_item :: jval

record cmd_result =
  cq_output :: jval
  cq_updates :: "fields option"

type_synonym 'w handler = "handler_call \<Rightarrow> fields \<Rightarrow> 'w \<Rightarrow> (string + cmd_result) \<times> fields \<times> 'w"

type_synonym 'w undo_handler = "handler_call \<Rightarrow> cmd_result option \<Rightarrow> fields \<Rightarrow> 'w \<Rightarrow> string option \<times> fields \<times> 'w"

record 'w command_def =
  cd_name :: string
  cd_idempotent :: "bool option"
  cd_handler :: "'w handler"
  cd_rollback :: "'w undo_handler option"

record shortcut =
  sh_target :: string
  sh_defaults :: "fields option"

record 'w command_library =
  li_commands :: "(string, 'w command_def) jsmap"
  li_shortcuts :: "(string, shortcut) jsmap"

definition empty_library :: "'w command_library" where
  "empty_library = \<lparr>li_commands = [], li_shortcuts = []\<rparr>"

datatype library_error =
    NameRequired
  | AliasRequired
  | TargetRequired
  | ShortcutExists string
  | CommandExists string

definition register_command :: "'w command_def \<Rightarrow> 'w command_library \<Rightarrow> library_error + 'w command_library" where
  "register_command d lib =
     (if cd_name d = [] then Inl NameRequired
      else if js_has (li_shortcuts lib) (cd_name d) then Inl (ShortcutExists (cd_name d))
      else Inr (lib\<lparr>li_commands := js_set (cd_name d) d (li_commands lib)\<rparr>))"

definition register_shortcut ::
  "string \<Rightarrow> string \<Rightarrow> fields option \<Rightarrow> 'w command_library \<Rightarrow> library_error + 'w command_library" where
  "register_shortcut alias target defaults lib =
     (if alias = [] then Inl AliasRequired
      else if target = [] then Inl TargetRequired
      else if js_has (li_commands lib) alias then Inl (CommandExists alias)
      else Inr (lib\<lparr>li_shortcuts := js_set alias \<lparr>sh_target = target, sh_defaults = defaults\<rparr> (li_shortcuts lib)\<rparr>))"

definition library_has :: "'w command_library \<Rightarrow> string \<Rightarrow> bool" where
  "library_has lib name \<longleftrightarrow> js_has (li_commands lib) name \<or> js_has (li_shortcuts lib) name"

definition lookup_name :: "(string, 'a) jsmap \<Rightarrow> jval \<Rightarrow> 'a option" where
  "lookup_name m v = (case v of VStr s \<Rightarrow> js_get m s | _ \<Rightarrow> None)"

definition resolve_command ::
  "text_platform \<Rightarrow> 'w command_library \<Rightarrow> command_ref \<Rightarrow> string + ('w command_def \<times> fields)" where
  "resolve_command tp lib r =
     (case lookup_name (li_shortcuts lib) (cr_command r) of
        Some sh \<Rightarrow>
          (case js_get (li_commands lib) (sh_target sh) of
             None \<Rightarrow> Inl (''Shortcut target not found: '' @ sh_target sh)
           | Some d \<Rightarrow> Inr (d, assign (nullish (sh_defaults sh) []) (nullish (cr_params r) [])))
      | None \<Rightarrow>
          (case lookup_name (li_commands lib) (cr_command r) of
             None \<Rightarrow> Inl (''Command not found: '' @ value_string (tp_text tp) (cr_command r))
           | Some d \<Rightarrow> Inr (d, assign [] (nullish (cr_params r) []))))"

section \<open>Records of a run\<close>

record command_record =
  rc_command :: jval
  rc_resolved :: string
  rc_params :: fields
  rc_ok :: bool
  rc_attempts :: nat
  rc_output :: jval
  rc_error :: "string option"
  rc_applied :: bool
  rc_undo_error :: "string option"
  rc_rollback :: "command_ref option"

record 'w exec =
  ex_record :: command_record
  ex_definition :: "'w command_def"
  ex_result :: "cmd_result option"

record item_result =
  ir_index :: nat
  ir_item :: jval
  ir_ok :: bool
  ir_commands :: "command_record list"
  ir_error :: "string option"

record batch_result =
  br_total :: nat
  br_good :: nat
  br_bad :: nat
  br_items :: "item_result list"

datatype run_error = Failure string | ParallelFailure string | BatchFailure string batch_result

fun error_message :: "run_error \<Rightarrow> string" where
  "error_message (Failure m) = m" | "error_message (ParallelFailure m) = m" | "error_message (BatchFailure m r) = m"

definition abort_error :: run_error where
  "abort_error = Failure ''Workflow execution aborted by signal''"

section \<open>Progress\<close>

datatype progress_status = Idle | Running | Succeeded | Failed

record progress =
  pg_status :: progress_status
  pg_total :: nat
  pg_completed :: nat
  pg_failed :: nat
  pg_percent :: int
  pg_step :: "string option"

datatype progress_kind =
    RunStarted | StepStarted | StepCompleted | StepFailedEvent | BatchItemCompleted | RetryEvent
  | RollbackStarted | RollbackCompleted | RunCompleted | RunFailedEvent

record progress_event =
  pe_kind :: progress_kind
  pe_snapshot :: progress
  pe_step :: "string option"
  pe_error :: "string option"
  pe_attempt :: "nat option"
  pe_command :: "jval option"
  pe_batch :: "(nat \<times> nat \<times> nat \<times> nat) option"

record tracker =
  tk_now :: progress
  tk_events :: "progress_event list"

definition new_tracker :: "nat \<Rightarrow> tracker" where
  "new_tracker units =
     \<lparr>tk_now = \<lparr>pg_status = Idle, pg_total = max 1 units, pg_completed = 0, pg_failed = 0, pg_percent = 0, pg_step = None\<rparr>,
      tk_events = []\<rparr>"

definition percent_of :: "progress \<Rightarrow> int" where
  "percent_of p = min 100 (round_half_up (of_nat (pg_completed p + pg_failed p) / of_nat (max 1 (pg_total p)) * 100))"

definition publish :: "progress_kind \<Rightarrow> (progress_event \<Rightarrow> progress_event) \<Rightarrow> progress \<Rightarrow> tracker \<Rightarrow> tracker" where
  "publish kind extra p t =
     (let p' = p\<lparr>pg_percent := percent_of p\<rparr> in
      \<lparr>tk_now = p',
       tk_events = tk_events t @ [extra \<lparr>pe_kind = kind, pe_snapshot = p', pe_step = None, pe_error = None,
         pe_attempt = None, pe_command = None, pe_batch = None\<rparr>]\<rparr>)"

definition run_started :: "tracker \<Rightarrow> tracker" where
  "run_started t = publish RunStarted id ((tk_now t)\<lparr>pg_status := Running\<rparr>) t"

definition step_started :: "string \<Rightarrow> tracker \<Rightarrow> tracker" where
  "step_started i t = publish StepStarted (\<lambda>e. e\<lparr>pe_step := Some i\<rparr>) ((tk_now t)\<lparr>pg_step := Some i\<rparr>) t"

definition step_completed :: "string \<Rightarrow> nat \<Rightarrow> tracker \<Rightarrow> tracker" where
  "step_completed i units t =
     publish StepCompleted (\<lambda>e. e\<lparr>pe_step := Some i\<rparr>) ((tk_now t)\<lparr>pg_completed := pg_completed (tk_now t) + units\<rparr>) t"

definition step_failed :: "string \<Rightarrow> string \<Rightarrow> nat \<Rightarrow> tracker \<Rightarrow> tracker" where
  "step_failed i err units t =
     publish StepFailedEvent (\<lambda>e. e\<lparr>pe_step := Some i, pe_error := Some err\<rparr>)
       ((tk_now t)\<lparr>pg_failed := pg_failed (tk_now t) + units\<rparr>) t"

definition retry_event :: "string \<Rightarrow> jval \<Rightarrow> nat \<Rightarrow> string \<Rightarrow> tracker \<Rightarrow> tracker" where
  "retry_event i command attempt err t =
     publish RetryEvent (\<lambda>e. e\<lparr>pe_step := Some i, pe_command := Some command, pe_attempt := Some attempt, pe_error := Some err\<rparr>)
       (tk_now t) t"

definition batch_item :: "string \<Rightarrow> nat \<times> nat \<times> nat \<times> nat \<Rightarrow> tracker \<Rightarrow> tracker" where
  "batch_item i b t =
     publish BatchItemCompleted (\<lambda>e. e\<lparr>pe_step := Some i, pe_batch := Some b\<rparr>)
       ((tk_now t)\<lparr>pg_completed := min (pg_total (tk_now t)) (pg_completed (tk_now t) + 1)\<rparr>) t"

definition rollback_started :: "string \<Rightarrow> tracker \<Rightarrow> tracker" where
  "rollback_started i t = publish RollbackStarted (\<lambda>e. e\<lparr>pe_step := Some i\<rparr>) (tk_now t) t"

definition rollback_completed :: "string \<Rightarrow> string option \<Rightarrow> tracker \<Rightarrow> tracker" where
  "rollback_completed i err t = publish RollbackCompleted (\<lambda>e. e\<lparr>pe_step := Some i, pe_error := err\<rparr>) (tk_now t) t"

definition run_completed :: "tracker \<Rightarrow> tracker" where
  "run_completed t =
     publish RunCompleted id
       ((tk_now t)\<lparr>pg_status := Succeeded, pg_step := None, pg_completed := pg_total (tk_now t)\<rparr>) t"

definition run_failed :: "string \<Rightarrow> tracker \<Rightarrow> tracker" where
  "run_failed err t = publish RunFailedEvent (\<lambda>e. e\<lparr>pe_error := Some err\<rparr>) ((tk_now t)\<lparr>pg_status := Failed\<rparr>) t"

section \<open>The state of a run\<close>

record 'w item_run =
  it_index :: nat
  it_item :: jval
  it_outcome :: "string + 'w exec list"

record 'w batch_state =
  bs_next :: nat
  bs_good :: nat
  bs_bad :: nat
  bs_hard :: bool
  bs_items :: "'w item_run list"

definition new_batch :: "'w batch_state" where
  "new_batch = \<lparr>bs_next = 0, bs_good = 0, bs_bad = 0, bs_hard = False, bs_items = []\<rparr>"

record 'w run_state =
  rs_world :: 'w
  rs_vars :: fields
  rs_cache :: "(string, cmd_result) jsmap"
  rs_tracker :: tracker
  rs_batch :: "'w batch_state"

type_synonym ('w, 'a) job = "('w run_state, run_error + 'a) call"

text \<open>The platform: the abort signal, the timer, and the order in which the turns of a step are taken.\<close>

record 'w platform =
  pf_library :: "'w command_library"
  pf_text :: text_platform
  pf_aborted :: "'w \<Rightarrow> bool"
  pf_sleep :: "rat \<Rightarrow> 'w \<Rightarrow> 'w"
  pf_schedule :: "string \<Rightarrow> nat list"

record run_context =
  cx_run :: string
  cx_workflow :: string
  cx_step :: string
  cx_inputs :: fields
  cx_item :: jval

definition aborted :: "'w platform \<Rightarrow> 'w run_state \<Rightarrow> bool" where
  "aborted pf s \<longleftrightarrow> pf_aborted pf (rs_world s)"

definition throw :: "run_error \<Rightarrow> ('w, 'a) job" where
  "throw e s = (s, Done (Inl e))"

definition give :: "'a \<Rightarrow> ('w, 'a) job" where
  "give a s = (s, Done (Inr a))"

definition track :: "(tracker \<Rightarrow> tracker) \<Rightarrow> 'w run_state \<Rightarrow> 'w run_state" where
  "track f s = s\<lparr>rs_tracker := f (rs_tracker s)\<rparr>"

section \<open>One command\<close>

record retry_plan =
  ry_max :: rat
  ry_backoff :: rat
  ry_max_backoff :: rat

definition retry_field :: "(retry_policy \<Rightarrow> rat option) \<Rightarrow> retry_policy option \<Rightarrow> retry_policy option \<Rightarrow> rat \<Rightarrow> rat" where
  "retry_field f own general d = nullish (nullish_opt (Option.bind own f) (Option.bind general f)) d"

definition retry_plan_of :: "retry_policy option \<Rightarrow> retry_policy option \<Rightarrow> retry_plan" where
  "retry_plan_of own general =
     \<lparr>ry_max = retry_field rp_max own general 1, ry_backoff = retry_field rp_backoff own general 0,
      ry_max_backoff = retry_field rp_max_backoff own general 5000\<rparr>"

definition wait_time :: "retry_plan \<Rightarrow> nat \<Rightarrow> rat" where
  "wait_time r attempts = (let base = max 0 (ry_backoff r) in min (base * of_nat attempts) (max base (ry_max_backoff r)))"

definition template_object :: "run_context \<Rightarrow> fields \<Rightarrow> jval" where
  "template_object cx vars =
     VObj [(''inputs'', VObj (cx_inputs cx)), (''state'', VObj vars), (''item'', cx_item cx), (''runId'', VStr (cx_run cx)),
       (''workflow'', VStr (cx_workflow cx)), (''step'', VStr (cx_step cx))]"

fun resolve_ref :: "text_platform \<Rightarrow> jval \<Rightarrow> command_ref \<Rightarrow> command_ref" where
  "resolve_ref tp ob (CommandRef c ps r k u) =
     CommandRef (resolve_template tp ob c) (map_option (resolve_fields tp ob) ps) r
       (map_option (resolve_template tp ob) k) (map_option (resolve_ref tp ob) u)"

definition idempotency_key :: "text_platform \<Rightarrow> run_context \<Rightarrow> jval \<Rightarrow> command_ref \<Rightarrow> string" where
  "idempotency_key tp cx ob r =
     value_string (tp_text tp)
       (resolve_template tp ob
         (nullish (cr_key r)
           (VStr (cx_workflow cx @ '':'' @ cx_step cx @ '':'' @ value_string (tp_text tp) (cr_command r)))))"

record 'w prepared =
  pr_command :: jval
  pr_definition :: "'w command_def"
  pr_params :: fields
  pr_rollback :: "command_ref option"
  pr_plan :: retry_plan
  pr_key :: string

definition prepare ::
  "text_platform \<Rightarrow> run_context \<Rightarrow> fields \<Rightarrow> retry_policy option \<Rightarrow> command_ref \<Rightarrow> 'w command_def \<Rightarrow> fields \<Rightarrow> 'w prepared" where
  "prepare tp cx vars general r d params =
     (let ob = template_object cx vars in
      \<lparr>pr_command = cr_command r, pr_definition = d, pr_params = resolve_fields tp ob params,
       pr_rollback = map_option (resolve_ref tp ob) (cr_rollback r), pr_plan = retry_plan_of (cr_retry r) general,
       pr_key = idempotency_key tp cx ob r\<rparr>)"

definition is_idempotent :: "'w command_def \<Rightarrow> bool" where
  "is_idempotent d \<longleftrightarrow> cd_idempotent d \<noteq> Some False"

definition record_of :: "'w prepared \<Rightarrow> nat \<Rightarrow> string + cmd_result \<Rightarrow> 'w exec" where
  "record_of p attempts out =
     \<lparr>ex_record = \<lparr>rc_command = pr_command p, rc_resolved = cd_name (pr_definition p), rc_params = pr_params p,
        rc_ok = (case out of Inl m \<Rightarrow> False | Inr r \<Rightarrow> True), rc_attempts = attempts,
        rc_output = (case out of Inl m \<Rightarrow> VUndef | Inr r \<Rightarrow> cq_output r),
        rc_error = (case out of Inl m \<Rightarrow> Some m | Inr r \<Rightarrow> None), rc_applied = False, rc_undo_error = None,
        rc_rollback = pr_rollback p\<rparr>,
      ex_definition = pr_definition p, ex_result = (case out of Inl m \<Rightarrow> None | Inr r \<Rightarrow> Some r)\<rparr>"

definition handler_call_of :: "run_context \<Rightarrow> fields \<Rightarrow> nat \<Rightarrow> handler_call" where
  "handler_call_of cx params attempt =
     \<lparr>ca_params = params, ca_run = cx_run cx, ca_workflow = cx_workflow cx, ca_step = cx_step cx, ca_attempt = attempt,
      ca_inputs = cx_inputs cx, ca_item = cx_item cx\<rparr>"

text \<open>A result is stored in the state and in the cache.\<close>

definition remember :: "'w prepared \<Rightarrow> cmd_result \<Rightarrow> 'w run_state \<Rightarrow> 'w run_state" where
  "remember p r s =
     s\<lparr>rs_vars := assign (rs_vars s) (nullish (cq_updates r) []),
       rs_cache := (if is_idempotent (pr_definition p) then js_set (pr_key p) r (rs_cache s) else rs_cache s)\<rparr>"

text \<open>
  The loop \<open>while (attempts < maxAttempts)\<close>: \<open>left\<close> rounds are left, \<open>k\<close> attempts were made. A round ends
  where the handler is awaited, and where the wait before the next round is.
\<close>

fun attempt_command :: "'w platform \<Rightarrow> run_context \<Rightarrow> bool \<Rightarrow> 'w prepared \<Rightarrow> nat \<Rightarrow> nat \<Rightarrow> ('w, 'w exec) job" where
  "attempt_command pf cx reports p 0 k s = give (record_of p k (Inl ''Unknown execution failure'')) s"
| "attempt_command pf cx reports p (Suc left) k s =
     (if aborted pf s then throw abort_error s
      else
        (let (out, vars, w) = cd_handler (pr_definition p) (handler_call_of cx (pr_params p) (k + 1)) (rs_vars s) (rs_world s) in
         (s\<lparr>rs_vars := vars, rs_world := w\<rparr>,
          Step (\<lambda>s. case out of
             Inr r \<Rightarrow> give (record_of p (k + 1) out) (remember p r s)
           | Inl m \<Rightarrow>
               if left = 0 then give (record_of p (k + 1) out) s
               else
                 (let s1 = (if reports then track (retry_event (cx_step cx) (pr_command p) (k + 1) m) s else s) in
                  if 0 < ry_backoff (pr_plan p) then
                    (s1\<lparr>rs_world := pf_sleep pf (wait_time (pr_plan p) (k + 1)) (rs_world s1)\<rparr>,
                     Step (attempt_command pf cx reports p left (k + 1)))
                  else attempt_command pf cx reports p left (k + 1) s1)))))"

definition execute_single ::
  "'w platform \<Rightarrow> run_context \<Rightarrow> retry_policy option \<Rightarrow> bool \<Rightarrow> command_ref \<Rightarrow> ('w, 'w exec) job" where
  "execute_single pf cx general reports r s =
     (case resolve_command (pf_text pf) (pf_library pf) r of
        Inl m \<Rightarrow> throw (Failure m) s
      | Inr (d, params) \<Rightarrow>
          (let p = prepare (pf_text pf) cx (rs_vars s) general r d params in
           case (if is_idempotent d then js_get (rs_cache s) (pr_key p) else None) of
             Some res \<Rightarrow> give (record_of p 0 (Inr res)) s
           | None \<Rightarrow> attempt_command pf cx reports p (nat \<lceil>ry_max (pr_plan p)\<rceil>) 0 s))"

section \<open>Several commands\<close>

fun run_sequence ::
  "'w platform \<Rightarrow> run_context \<Rightarrow> retry_policy option \<Rightarrow> bool \<Rightarrow> command_ref list \<Rightarrow> 'w exec list \<Rightarrow> ('w, 'w exec list) job" where
  "run_sequence pf cx general reports [] acc s = give acc s"
| "run_sequence pf cx general reports (r # rs) acc s =
     (if aborted pf s then throw abort_error s
      else await_call (execute_single pf cx general reports r)
        (\<lambda>x s. case x of
            Inl e \<Rightarrow> throw e s
          | Inr e \<Rightarrow>
              if rc_ok (ex_record e) then run_sequence pf cx general reports rs (acc @ [e]) s
              else give (acc @ [e]) s) s)"

fun lefts :: "('a + 'b) list \<Rightarrow> 'a list" where
  "lefts [] = []" | "lefts (Inl a # xs) = a # lefts xs" | "lefts (Inr b # xs) = lefts xs"

fun rights :: "('a + 'b) list \<Rightarrow> 'b list" where
  "rights [] = []" | "rights (Inl a # xs) = rights xs" | "rights (Inr b # xs) = b # rights xs"

definition parallel_outcome :: "(run_error + 'a) list \<Rightarrow> run_error + 'a list" where
  "parallel_outcome xs =
     (if lefts xs \<noteq> [] then
        Inl (ParallelFailure (''Parallel command execution failed: '' @ join_with ''; '' (map error_message (lefts xs))))
      else Inr (rights xs))"

datatype step_mode = Sequential | Parallel

definition execute_commands ::
  "'w platform \<Rightarrow> run_context \<Rightarrow> step_mode \<Rightarrow> retry_policy option \<Rightarrow> bool \<Rightarrow> command_ref list \<Rightarrow> ('w, 'w exec list) job" where
  "execute_commands pf cx mode general reports rs s =
     (if aborted pf s then throw abort_error s
      else if mode = Parallel then
        await_call (all_settled (pf_schedule pf (cx_step cx)) (map (execute_single pf cx general reports) rs))
          (\<lambda>xs s. (s, Done (parallel_outcome xs))) s
      else run_sequence pf cx general reports rs [] s)"

section \<open>Rollback\<close>

definition no_retry :: retry_policy where
  "no_retry = \<lparr>rp_max = Some 1, rp_backoff = Some 0, rp_max_backoff = Some 0\<rparr>"

definition without_retry :: "command_ref \<Rightarrow> command_ref" where
  "without_retry r = CommandRef (cr_command r) (cr_params r) (Some no_retry) (cr_key r) (cr_rollback r)"

definition rollback_step :: "run_context \<Rightarrow> run_context" where
  "rollback_step cx = cx\<lparr>cx_step := cx_step cx @ '':rollback''\<rparr>"

definition undo_applied :: "'w exec \<Rightarrow> 'w exec" where
  "undo_applied x = x\<lparr>ex_record := (ex_record x)\<lparr>rc_applied := True\<rparr>\<rparr>"

definition undo_refused :: "string \<Rightarrow> 'w exec \<Rightarrow> 'w exec" where
  "undo_refused m x = x\<lparr>ex_record := (ex_record x)\<lparr>rc_undo_error := Some m\<rparr>\<rparr>"

text \<open>What is left of a rollback: the commands with their notes, the errors, and what was thrown.\<close>

record 'w undone =
  un_execs :: "'w exec list"
  un_errors :: "string list"
  un_thrown :: "run_error option"

definition undo_result :: "text_platform \<Rightarrow> 'w exec \<Rightarrow> string option \<Rightarrow> 'w exec \<times> string list" where
  "undo_result tp x err =
     (case err of
        None \<Rightarrow> (undo_applied x, [])
      | Some m \<Rightarrow> (undo_refused m x, [value_string (tp_text tp) (rc_command (ex_record x)) @ '': '' @ m]))"

definition note_undo_error :: "run_context \<Rightarrow> 'w exec \<Rightarrow> string option \<Rightarrow> 'w run_state \<Rightarrow> 'w run_state" where
  "note_undo_error cx x err s =
     (case err of
        None \<Rightarrow> s
      | Some m \<Rightarrow> track (retry_event (cx_step cx @ '':rollback'') (rc_command (ex_record x)) 1 m) s)"

text \<open>
  The list is in the order of the rollback, the newest command first; \<open>don\<close> are the commands that were
  dealt with, the newest one last.
\<close>

fun undo_execs ::
  "'w platform \<Rightarrow> run_context \<Rightarrow> 'w exec list \<Rightarrow> 'w exec list \<Rightarrow> string list \<Rightarrow> ('w run_state, 'w undone) call" where
  "undo_execs pf cx [] don errs s = (s, Done \<lparr>un_execs = don, un_errors = errs, un_thrown = None\<rparr>)"
| "undo_execs pf cx (x # xs) don errs s =
     (if aborted pf s then (s, Done \<lparr>un_execs = rev (x # xs) @ don, un_errors = errs, un_thrown = Some abort_error\<rparr>)
      else
        (case rc_rollback (ex_record x) of
           Some c \<Rightarrow>
             await_call (execute_single pf (rollback_step cx) None False (without_retry c))
               (\<lambda>res s.
                  (let err = (case res of Inl e \<Rightarrow> Some (error_message e) | Inr e \<Rightarrow> None);
                       (x', es) = undo_result (pf_text pf) x err
                   in undo_execs pf cx xs (x' # don) (errs @ es) (note_undo_error cx x err s))) s
         | None \<Rightarrow>
             (case cd_rollback (ex_definition x) of
                None \<Rightarrow> undo_execs pf cx xs (x # don) errs s
              | Some h \<Rightarrow>
                  (let (err, vars, w) = h (handler_call_of (rollback_step cx) (rc_params (ex_record x)) 1) (ex_result x)
                                          (rs_vars s) (rs_world s)
                   in (s\<lparr>rs_vars := vars, rs_world := w\<rparr>,
                       Step (\<lambda>s.
                         (let (x', es) = undo_result (pf_text pf) x err
                          in undo_execs pf cx xs (x' # don) (errs @ es) (note_undo_error cx x err s))))))))"

end
