(* ===== verification/Workflow_System.thy ===== *)
theory Workflow_System
  imports Workflow_Engine
begin

text \<open>
  \<open>lib/workflow-macros.ts\<close>, second part: the batch processor with its workers, the registry of
  workflows, and the run of a workflow with its stack of executed steps and their rollback. Then
  \<open>lib/workflow-recorder.ts\<close>, and the workflows of \<open>lib/workflow-macros-defaults.ts\<close>, whose command
  handlers are a parameter.
\<close>

section \<open>Workflows\<close>

datatype on_error = AbortRun | ContinueRun | RollbackRun

record wf_batch =
  wb_items :: string
  wb_concurrency :: "rat option"
  wb_continue :: bool

record wf_step =
  ws_id :: string
  ws_condition :: "wf_condition option"
  ws_on_error :: "on_error option"
  ws_retry :: "retry_policy option"
  ws_rollback :: "command_ref list option"
  ws_mode :: "step_mode option"
  ws_commands :: "command_ref list"
  ws_batch :: "wf_batch option"

record workflow =
  wf_name :: string
  wf_description :: string
  wf_version :: int
  wf_tags :: "string list option"
  wf_defaults :: "fields option"
  wf_undo :: "bool option"
  wf_steps :: "wf_step list"

section \<open>Batches\<close>

definition item_outcome :: "nat \<Rightarrow> run_error + 'w exec list \<Rightarrow> string + 'w exec list" where
  "item_outcome i r =
     (case r of
        Inl e \<Rightarrow> Inl (error_message e)
      | Inr xs \<Rightarrow>
          if list_all (\<lambda>x. rc_ok (ex_record x)) xs then Inr xs
          else Inl (''One or more commands failed for batch item '' @ show_nat i))"

definition is_error :: "'a + 'b \<Rightarrow> bool" where
  "is_error r = (case r of Inl e \<Rightarrow> True | Inr b \<Rightarrow> False)"

definition count_item :: "bool \<Rightarrow> nat \<Rightarrow> jval \<Rightarrow> string + 'w exec list \<Rightarrow> 'w batch_state \<Rightarrow> 'w batch_state" where
  "count_item continue i item r b =
     b\<lparr>bs_good := (if is_error r then bs_good b else bs_good b + 1), bs_bad := (if is_error r then bs_bad b + 1 else bs_bad b),
       bs_hard := bs_hard b \<or> (is_error r \<and> \<not> continue),
       bs_items := bs_items b @ [\<lparr>it_index = i, it_item = item, it_outcome = r\<rparr>]\<rparr>"

definition finish_item ::
  "string \<Rightarrow> bool \<Rightarrow> nat \<Rightarrow> nat \<Rightarrow> jval \<Rightarrow> string + 'w exec list \<Rightarrow> 'w run_state \<Rightarrow> 'w run_state" where
  "finish_item step_id continue units i item r s =
     (let b = count_item continue i item r (rs_batch s)
      in track (batch_item step_id (i, units, bs_good b, bs_bad b)) (s\<lparr>rs_batch := b\<rparr>))"

definition item_context :: "run_context \<Rightarrow> nat \<Rightarrow> jval \<Rightarrow> run_context" where
  "item_context cx i item = cx\<lparr>cx_step := cx_step cx @ ''['' @ show_nat i @ '']'', cx_item := item\<rparr>"

text \<open>
  One worker. Each round takes an index that no worker has taken before, so that \<open>length items + 1\<close>
  rounds are enough.
\<close>

fun batch_worker ::
  "'w platform \<Rightarrow> run_context \<Rightarrow> wf_step \<Rightarrow> bool \<Rightarrow> jval list \<Rightarrow> nat \<Rightarrow> ('w run_state, unit) call" where
  "batch_worker pf cx st continue items 0 s = (s, Done ())"
| "batch_worker pf cx st continue items (Suc n) s =
     (if bs_hard (rs_batch s) then (s, Done ())
      else
        (let i = bs_next (rs_batch s); s1 = s\<lparr>rs_batch := (rs_batch s)\<lparr>bs_next := i + 1\<rparr>\<rparr> in
         if length items \<le> i then (s1, Done ())
         else await_call
           (execute_commands pf (item_context cx i (items ! i)) (nullish (ws_mode st) Sequential) (ws_retry st) True (ws_commands st))
           (\<lambda>r s.
              (let out = item_outcome i r; s2 = finish_item (ws_id st) continue (length items) i (items ! i) out s in
               if is_error out \<and> \<not> continue then (s2, Done ())
               else batch_worker pf cx st continue items n s2)) s1))"

definition item_result_of :: "'w item_run \<Rightarrow> item_result" where
  "item_result_of it =
     \<lparr>ir_index = it_index it, ir_item = it_item it, ir_ok = (\<not> is_error (it_outcome it)),
      ir_commands = (case it_outcome it of Inl e \<Rightarrow> [] | Inr xs \<Rightarrow> map ex_record xs),
      ir_error = (case it_outcome it of Inl e \<Rightarrow> Some e | Inr xs \<Rightarrow> None)\<rparr>"

text \<open>The commands of the successful items, in the order in which the items were finished.\<close>

definition batch_groups :: "'w batch_state \<Rightarrow> (nat \<times> 'w exec list) list" where
  "batch_groups b = List.map_filter (\<lambda>it. case it_outcome it of Inl e \<Rightarrow> None | Inr xs \<Rightarrow> Some (it_index it, xs)) (bs_items b)"

definition batch_result_of :: "nat \<Rightarrow> 'w batch_state \<Rightarrow> batch_result" where
  "batch_result_of units b =
     \<lparr>br_total = units, br_good = bs_good b, br_bad = bs_bad b, br_items = sort_key ir_index (map item_result_of (bs_items b))\<rparr>"

definition worker_count :: "wf_batch \<Rightarrow> nat \<Rightarrow> nat" where
  "worker_count wb units = min (nat (max 1 \<lfloor>nullish (wb_concurrency wb) 1\<rfloor>)) (max units 1)"

definition batch_outcome :: "wf_step \<Rightarrow> bool \<Rightarrow> nat \<Rightarrow> 'w batch_state \<Rightarrow> run_error + (batch_result \<times> (nat \<times> 'w exec list) list)" where
  "batch_outcome st continue units b =
     (if 0 < bs_bad b \<and> \<not> continue then
        Inl (BatchFailure (''Batch step '' @ [CHR 0x27] @ ws_id st @ [CHR 0x27] @ '' failed ('' @ show_nat (bs_bad b) @ ''/''
               @ show_nat units @ '' items failed)'') (batch_result_of units b))
      else Inr (batch_result_of units b, batch_groups b))"

definition run_batch ::
  "'w platform \<Rightarrow> run_context \<Rightarrow> wf_step \<Rightarrow> wf_batch \<Rightarrow> ('w, batch_result \<times> (nat \<times> 'w exec list) list) job" where
  "run_batch pf cx st wb s =
     (case get_path_value (tp_number (pf_text pf)) (VObj (cx_inputs cx)) (wb_items wb) of
        VArr items \<Rightarrow>
          await_call
            (all_settled (pf_schedule pf (cx_step cx))
              (replicate (worker_count wb (length items)) (batch_worker pf cx st (wb_continue wb) items (length items + 1))))
            (\<lambda>_ s. (s, Done (batch_outcome st (wb_continue wb) (length items) (rs_batch s))))
            (s\<lparr>rs_batch := new_batch\<rparr>)
      | _ \<Rightarrow> throw (Failure (''Batch step '' @ [CHR 0x27] @ ws_id st @ [CHR 0x27] @ '' expected array at inputs.'' @ wb_items wb)) s)"

section \<open>The registry\<close>

fun clone_ref :: "command_ref \<Rightarrow> command_ref" where
  "clone_ref (CommandRef c ps r k u) =
     CommandRef (clone_value c) (map_option clone_fields ps) r (map_option clone_value k) (map_option clone_ref u)"

text \<open>A definition is cloned through JSON, which has no functions.\<close>

definition clone_condition :: "wf_condition option \<Rightarrow> wf_condition option" where
  "clone_condition c = (case c of Some (CondText s) \<Rightarrow> Some (CondText s) | _ \<Rightarrow> None)"

definition clone_step :: "wf_step \<Rightarrow> wf_step" where
  "clone_step st =
     st\<lparr>ws_condition := clone_condition (ws_condition st), ws_rollback := map_option (map clone_ref) (ws_rollback st),
        ws_commands := map clone_ref (ws_commands st)\<rparr>"

definition clone_workflow :: "workflow \<Rightarrow> workflow" where
  "clone_workflow w = w\<lparr>wf_defaults := map_option clone_fields (wf_defaults w), wf_steps := map clone_step (wf_steps w)\<rparr>"

datatype registry_error = WorkflowNameRequired | NoSteps string | DuplicateStep string string | NoCommands string string

fun step_problem :: "string \<Rightarrow> string list \<Rightarrow> wf_step list \<Rightarrow> registry_error option" where
  "step_problem name ids [] = None"
| "step_problem name ids (st # sts) =
     (if ws_id st \<in> set ids then Some (DuplicateStep name (ws_id st))
      else if ws_commands st = [] then Some (NoCommands name (ws_id st))
      else step_problem name (ws_id st # ids) sts)"

type_synonym registry = "(string, workflow) jsmap"

definition register_workflow :: "workflow \<Rightarrow> registry \<Rightarrow> registry_error + registry" where
  "register_workflow w reg =
     (if wf_name w = [] then Inl WorkflowNameRequired
      else if wf_steps w = [] then Inl (NoSteps (wf_name w))
      else (case step_problem (wf_name w) [] (wf_steps w) of
              Some e \<Rightarrow> Inl e
            | None \<Rightarrow> Inr (js_set (wf_name w) (clone_workflow w) reg)))"

text \<open>The definitions before the first one that is refused stay registered.\<close>

fun register_workflows :: "workflow list \<Rightarrow> registry \<Rightarrow> registry \<times> registry_error option" where
  "register_workflows [] reg = (reg, None)"
| "register_workflows (w # ws) reg =
     (case register_workflow w reg of Inl e \<Rightarrow> (reg, Some e) | Inr reg' \<Rightarrow> register_workflows ws reg')"

definition get_workflow :: "registry \<Rightarrow> string \<Rightarrow> workflow option" where
  "get_workflow reg name = map_option clone_workflow (js_get reg name)"

section \<open>A run\<close>

definition batch_items_of :: "text_platform \<Rightarrow> wf_batch \<Rightarrow> fields \<Rightarrow> jval list" where
  "batch_items_of tp wb inputs =
     (case get_path_value (tp_number tp) (VObj inputs) (wb_items wb) of VArr xs \<Rightarrow> xs | _ \<Rightarrow> [])"

definition step_units :: "text_platform \<Rightarrow> fields \<Rightarrow> wf_step \<Rightarrow> nat" where
  "step_units tp inputs st = (case ws_batch st of None \<Rightarrow> 1 | Some wb \<Rightarrow> max 1 (length (batch_items_of tp wb inputs)))"

definition estimate_total_units :: "text_platform \<Rightarrow> workflow \<Rightarrow> fields \<Rightarrow> nat" where
  "estimate_total_units tp w inputs = max 1 (sum_list (map (step_units tp inputs) (wf_steps w)))"

datatype step_status = StepSucceeded | StepFailed | StepSkipped

record step_record =
  sr_id :: string
  sr_batch :: bool
  sr_status :: step_status
  sr_commands :: "command_record list"
  sr_result :: "batch_result option"
  sr_error :: "string option"

text \<open>An executed step, with its place in the list of step records.\<close>

record 'w stack_entry =
  sk_at :: nat
  sk_step :: string
  sk_groups :: "(nat \<times> 'w exec list) list"
  sk_rollback :: "command_ref list option"

definition entry_execs :: "'w stack_entry \<Rightarrow> 'w exec list" where
  "entry_execs e = concat (map snd (sk_groups e))"

fun regroup :: "(nat \<times> 'a list) list \<Rightarrow> 'a list \<Rightarrow> (nat \<times> 'a list) list" where
  "regroup [] ys = []"
| "regroup ((i, xs) # gs) ys = (i, take (length xs) ys) # regroup gs (drop (length xs) ys)"

text \<open>The rollback commands of a step; what they throw is an error of the rollback.\<close>

definition explicit_errors :: "text_platform \<Rightarrow> string \<Rightarrow> run_error + 'w exec list \<Rightarrow> string list" where
  "explicit_errors tp step_id r =
     (case r of
        Inl e \<Rightarrow> [step_id @ '':rollback: '' @ error_message e]
      | Inr xs \<Rightarrow>
          map (\<lambda>x. step_id @ '':rollback:'' @ value_string (tp_text tp) (rc_command (ex_record x)) @ '': ''
                 @ nullish (rc_error (ex_record x)) ''unknown error'')
            (filter (\<lambda>x. \<not> rc_ok (ex_record x)) xs))"

definition entry_context :: "run_context \<Rightarrow> 'w stack_entry \<Rightarrow> run_context" where
  "entry_context cx e = cx\<lparr>cx_step := sk_step e, cx_item := VUndef\<rparr>"

definition undo_explicit :: "'w platform \<Rightarrow> run_context \<Rightarrow> 'w stack_entry \<Rightarrow> ('w run_state, string list) call" where
  "undo_explicit pf cx e s =
     (case nullish (sk_rollback e) [] of
        [] \<Rightarrow> (s, Done [])
      | rs \<Rightarrow>
          await_call (execute_commands pf (rollback_step (entry_context cx e)) Sequential (Some no_retry) False rs)
            (\<lambda>r s. (s, Done (explicit_errors (pf_text pf) (sk_step e) r))) s)"

record 'w stack_undone =
  su_entries :: "'w stack_entry list"
  su_errors :: "string list"
  su_thrown :: "run_error option"

text \<open>The list is in the order of the rollback, the newest step first.\<close>

fun undo_stack ::
  "'w platform \<Rightarrow> run_context \<Rightarrow> 'w stack_entry list \<Rightarrow> 'w stack_entry list \<Rightarrow> string list
   \<Rightarrow> ('w run_state, 'w stack_undone) call" where
  "undo_stack pf cx [] don errs s = (s, Done \<lparr>su_entries = don, su_errors = errs, su_thrown = None\<rparr>)"
| "undo_stack pf cx (e # es) don errs s =
     (if aborted pf s then
        (s, Done \<lparr>su_entries = rev (e # es) @ don, su_errors = errs, su_thrown = Some abort_error\<rparr>)
      else await_call (undo_explicit pf cx e)
        (\<lambda>errs1. await_call (undo_execs pf (entry_context cx e) (rev (entry_execs e)) [] [])
          (\<lambda>u s.
             (let e' = e\<lparr>sk_groups := regroup (sk_groups e) (un_execs u)\<rparr> in
              case un_thrown u of
                None \<Rightarrow> undo_stack pf cx es (e' # don) (errs @ errs1 @ un_errors u) s
              | Some x \<Rightarrow>
                  (s, Done \<lparr>su_entries = rev es @ e' # don, su_errors = errs @ errs1, su_thrown = Some x\<rparr>)))) s)"

text \<open>The notes of a rollback are visible in the step records, which share the records of the commands.\<close>

definition settle_step :: "(nat \<times> 'w exec list) list \<Rightarrow> step_record \<Rightarrow> step_record" where
  "settle_step gs r =
     r\<lparr>sr_commands := map ex_record (concat (map snd gs)),
       sr_result := map_option (\<lambda>b. b\<lparr>br_items := map (\<lambda>it. case js_get gs (ir_index it) of
           None \<Rightarrow> it | Some xs \<Rightarrow> it\<lparr>ir_commands := map ex_record xs\<rparr>) (br_items b)\<rparr>) (sr_result r)\<rparr>"

definition settle :: "'w stack_entry list \<Rightarrow> step_record list \<Rightarrow> step_record list" where
  "settle es rs = fold (\<lambda>e rs. if sk_at e < length rs then rs[sk_at e := settle_step (sk_groups e) (rs ! sk_at e)] else rs) es rs"

record 'w run_log =
  lg_steps :: "step_record list"
  lg_stack :: "'w stack_entry list"

datatype wf_status = RunSucceeded | RunFailed | RunDry

record run_outcome =
  ro_status :: wf_status
  ro_steps :: "step_record list"
  ro_attempted :: bool
  ro_succeeded :: bool
  ro_errors :: "string list"
  ro_error :: "string option"

definition skipped_record :: "wf_step \<Rightarrow> step_record" where
  "skipped_record st =
     \<lparr>sr_id = ws_id st, sr_batch = (ws_batch st \<noteq> None), sr_status = StepSkipped, sr_commands = [], sr_result = None,
      sr_error = None\<rparr>"

definition failed_record :: "wf_step \<Rightarrow> run_error \<Rightarrow> step_record" where
  "failed_record st e =
     \<lparr>sr_id = ws_id st, sr_batch = (ws_batch st \<noteq> None), sr_status = StepFailed, sr_commands = [],
      sr_result = (case e of BatchFailure m b \<Rightarrow> Some b | _ \<Rightarrow> None), sr_error = Some (error_message e)\<rparr>"

definition failed_units :: "wf_step \<Rightarrow> run_error \<Rightarrow> nat" where
  "failed_units st e =
     (if ws_batch st = None then 1 else max 1 (case e of BatchFailure m b \<Rightarrow> br_total b | _ \<Rightarrow> 1))"

text \<open>A step that is executed: its record, the groups of its commands, and its units.\<close>

definition commands_outcome ::
  "text_platform \<Rightarrow> wf_step \<Rightarrow> run_error + 'w exec list \<Rightarrow> run_error + (step_record \<times> (nat \<times> 'w exec list) list \<times> nat)" where
  "commands_outcome tp st r =
     (case r of
        Inl e \<Rightarrow> Inl e
      | Inr xs \<Rightarrow>
          (case List.find (\<lambda>x. \<not> rc_ok (ex_record x)) xs of
             Some x \<Rightarrow> Inl (Failure (''Command failed: '' @ value_string (tp_text tp) (rc_command (ex_record x)) @ '' (''
                 @ nullish (rc_error (ex_record x)) ''unknown error'' @ '')''))
           | None \<Rightarrow>
               Inr (\<lparr>sr_id = ws_id st, sr_batch = False, sr_status = StepSucceeded, sr_commands = map ex_record xs,
                      sr_result = None, sr_error = None\<rparr>, [(0, xs)], 1)))"

definition batch_record :: "wf_step \<Rightarrow> batch_result \<times> (nat \<times> 'w exec list) list \<Rightarrow> step_record \<times> (nat \<times> 'w exec list) list \<times> nat" where
  "batch_record st bg =
     (let (b, gs) = bg in
      (\<lparr>sr_id = ws_id st, sr_batch = True, sr_status = (if 0 < br_bad b then StepFailed else StepSucceeded),
        sr_commands = map ex_record (concat (map snd gs)), sr_result = Some b,
        sr_error = (if 0 < br_bad b then Some (show_nat (br_bad b) @ '' batch items failed'') else None)\<rparr>,
       gs, max 1 (br_total b)))"

definition execute_wf_step ::
  "'w platform \<Rightarrow> run_context \<Rightarrow> wf_step \<Rightarrow> ('w, step_record \<times> (nat \<times> 'w exec list) list \<times> nat) job" where
  "execute_wf_step pf cx st =
     (case ws_batch st of
        Some wb \<Rightarrow> await_call (run_batch pf cx st wb) (\<lambda>r s. (s, Done (map_sum id (batch_record st) r)))
      | None \<Rightarrow>
          await_call (execute_commands pf cx (nullish (ws_mode st) Sequential) (ws_retry st) True (ws_commands st))
            (\<lambda>r s. (s, Done (commands_outcome (pf_text pf) st r))))"

definition record_step :: "step_record \<Rightarrow> 'w run_log \<Rightarrow> 'w run_log" where
  "record_step r lg = lg\<lparr>lg_steps := lg_steps lg @ [r]\<rparr>"

definition push_step :: "wf_step \<Rightarrow> step_record \<Rightarrow> (nat \<times> 'w exec list) list \<Rightarrow> 'w run_log \<Rightarrow> 'w run_log" where
  "push_step st r gs lg =
     \<lparr>lg_steps = lg_steps lg @ [r],
      lg_stack = lg_stack lg @ [\<lparr>sk_at = length (lg_steps lg), sk_step = ws_id st, sk_groups = gs, sk_rollback = ws_rollback st\<rparr>]\<rparr>"

definition fail_run ::
  "string \<Rightarrow> step_record list \<Rightarrow> bool \<Rightarrow> bool \<Rightarrow> string list \<Rightarrow> ('w run_state, run_outcome) call" where
  "fail_run msg steps attempted ok errs s =
     (track (run_failed msg) s,
      Done \<lparr>ro_status = RunFailed, ro_steps = steps, ro_attempted = attempted, ro_succeeded = ok, ro_errors = errs,
            ro_error = Some msg\<rparr>)"

definition rolls_back :: "workflow \<Rightarrow> wf_step \<Rightarrow> bool" where
  "rolls_back w st \<longleftrightarrow> nullish (ws_on_error st) AbortRun = RollbackRun \<or> wf_undo w \<noteq> Some False"

definition roll_back :: "'w platform \<Rightarrow> run_context \<Rightarrow> string \<Rightarrow> string \<Rightarrow> 'w run_log \<Rightarrow> ('w run_state, run_outcome) call" where
  "roll_back pf cx step_id msg lg s =
     await_call (undo_stack pf cx (rev (lg_stack lg)) [] [])
       (\<lambda>u s.
          (let steps = settle (su_entries u) (lg_steps lg) in
           case su_thrown u of
             Some e \<Rightarrow> fail_run (error_message e) steps True True [] s
           | None \<Rightarrow>
               fail_run msg steps True (su_errors u = []) (su_errors u)
                 (track (rollback_completed step_id
                    (if su_errors u = [] then None else Some (join_with ''; '' (su_errors u)))) s)))
       (track (rollback_started step_id) s)"

fun run_steps ::
  "'w platform \<Rightarrow> workflow \<Rightarrow> run_context \<Rightarrow> bool \<Rightarrow> wf_step list \<Rightarrow> 'w run_log \<Rightarrow> ('w run_state, run_outcome) call" where
  "run_steps pf w cx dry [] lg s =
     (track run_completed s,
      Done \<lparr>ro_status = (if dry then RunDry else RunSucceeded), ro_steps = lg_steps lg, ro_attempted = False,
            ro_succeeded = True, ro_errors = [], ro_error = None\<rparr>)"
| "run_steps pf w cx dry (st # sts) lg s =
     (if aborted pf s then fail_run (error_message abort_error) (lg_steps lg) False True [] s
      else
        (let go = evaluate_condition (pf_text pf) (ws_condition st) (wf_name w) (cx_inputs cx) (rs_vars s);
             s1 = track (step_started (ws_id st)) s;
             cx1 = cx\<lparr>cx_step := ws_id st\<rparr>
         in if \<not> go then
              run_steps pf w cx dry sts (record_step (skipped_record st) lg) (track (step_completed (ws_id st) 1) s1)
            else if dry then
              run_steps pf w cx dry sts (record_step (skipped_record st) lg)
                (track (step_completed (ws_id st) (step_units (pf_text pf) (cx_inputs cx) st)) s1)
            else await_call (execute_wf_step pf cx1 st)
              (\<lambda>r s.
                 (case r of
                    Inr (rec, gs, units) \<Rightarrow>
                      run_steps pf w cx dry sts (push_step st rec gs lg) (track (step_completed (ws_id st) units) s)
                  | Inl e \<Rightarrow>
                      (let s2 = track (step_failed (ws_id st) (error_message e) (failed_units st e)) s;
                           lg1 = record_step (failed_record st e) lg
                       in if nullish (ws_on_error st) AbortRun = ContinueRun then run_steps pf w cx dry sts lg1 s2
                          else if rolls_back w st then roll_back pf cx (ws_id st) (error_message e) lg1 s2
                          else fail_run (error_message e) (lg_steps lg1) False True [] s2))) s1))"

definition begin_run :: "'w platform \<Rightarrow> workflow \<Rightarrow> fields \<Rightarrow> fields \<Rightarrow> 'w \<Rightarrow> 'w run_state" where
  "begin_run pf w inputs vars world =
     track run_started
       \<lparr>rs_world = world, rs_vars = vars, rs_cache = [], rs_tracker = new_tracker (estimate_total_units (pf_text pf) w inputs),
        rs_batch = new_batch\<rparr>"

text \<open>\<open>execute\<close>: \<^const>\<open>None\<close> when there is no such workflow.\<close>

definition execute_workflow ::
  "'w platform \<Rightarrow> registry \<Rightarrow> string \<Rightarrow> fields option \<Rightarrow> fields option \<Rightarrow> bool \<Rightarrow> string \<Rightarrow> 'w
   \<Rightarrow> ('w run_state \<times> run_outcome) option" where
  "execute_workflow pf reg name inputs vars dry run_id world =
     (case js_get reg name of
        None \<Rightarrow> None
      | Some w \<Rightarrow>
          (let ins = assign (nullish (map_option clone_fields (wf_defaults w)) []) (nullish (map_option clone_fields inputs) []);
               cx = \<lparr>cx_run = run_id, cx_workflow = wf_name w, cx_step = [], cx_inputs = ins, cx_item = VUndef\<rparr>
           in Some (run_call (run_steps pf w cx dry (wf_steps w) \<lparr>lg_steps = [], lg_stack = []\<rparr>)
                (begin_run pf w ins (assign [] (nullish (map_option clone_fields vars) [])) world))))"

end
