(* ===== verification/Workflow_Batch.thy ===== *)
theory Workflow_Batch
  imports Workflow_System "HOL-Library.Multiset"
begin

text \<open>
  What every turn of a command preserves, and what follows for batches: whatever the order in which the
  workers take their turns, each item is processed once.
\<close>

section \<open>Commands as relations\<close>

definition answers :: "('a \<Rightarrow> bool) \<Rightarrow> 'e + 'a \<Rightarrow> bool" where
  "answers Q r \<longleftrightarrow> (case r of Inl e \<Rightarrow> True | Inr a \<Rightarrow> Q a)"

lemma answers_simps [simp]: "answers Q (Inl e)" "answers Q (Inr a) \<longleftrightarrow> Q a"
  by (simp_all add: answers_def)

text \<open>
  A relation that holds of all the state changes of a command, and a property of the records of its
  references.
\<close>

locale run_relation =
  fixes pf :: "'w platform"
    and R :: "'w run_state \<Rightarrow> 'w run_state \<Rightarrow> bool"
    and good_ref :: "command_ref \<Rightarrow> bool"
    and Q :: "'w exec \<Rightarrow> bool"
  assumes R_refl: "reflp R" and R_trans: "transp R"
    and handler: "\<And>n d ca s out vars w. js_get (li_commands (pf_library pf)) n = Some d
      \<Longrightarrow> cd_handler d ca (rs_vars s) (rs_world s) = (out, vars, w) \<Longrightarrow> R s (s\<lparr>rs_vars := vars, rs_world := w\<rparr>)"
    and stored: "\<And>p r s. R s (remember p r s)"
    and retried: "\<And>i c k m s. R s (track (retry_event i c k m) s)"
    and slept: "\<And>t s. R s (s\<lparr>rs_world := pf_sleep pf t (rs_world s)\<rparr>)"
    and recorded: "\<And>n d cx vars g r params k out. js_get (li_commands (pf_library pf)) n = Some d \<Longrightarrow> good_ref r
      \<Longrightarrow> Q (record_of (prepare (pf_text pf) cx vars g r d params) k out)"
begin

lemma self: "R s s"
  using R_refl by (rule reflpD)

lemma chain: "R s t \<Longrightarrow> R t u \<Longrightarrow> R s u"
  using R_trans by (rule transpD)

lemma attempt_turns:
  assumes "js_get (li_commands (pf_library pf)) n = Some (pr_definition p)" "\<And>k out. Q (record_of p k out)"
  shows "call_turns R (answers Q) (attempt_command pf cx reports p left k)"
proof (induction left arbitrary: k)
  case 0
  show ?case by (simp add: call_turns_def give_def self assms(2))
next
  case (Suc left)
  show ?case
  proof (rule call_turnsI)
    fix s s' q
    assume run: "attempt_command pf cx reports p (Suc left) k s = (s', q)"
    show "R s s' \<and> turns R (answers Q) q"
    proof (cases "aborted pf s")
      case True
      then show ?thesis using run by (auto simp: throw_def self)
    next
      case False
      obtain out vars w where h:
        "cd_handler (pr_definition p) (handler_call_of cx (pr_params p) (k + 1)) (rs_vars s) (rs_world s) = (out, vars, w)"
        by (cases "cd_handler (pr_definition p) (handler_call_of cx (pr_params p) (k + 1)) (rs_vars s) (rs_world s)") auto
      define rest :: "('w, 'w exec) job" where "rest = (\<lambda>s. case out of
             Inr r \<Rightarrow> give (record_of p (k + 1) out) (remember p r s)
           | Inl m \<Rightarrow>
               if left = 0 then give (record_of p (k + 1) out) s
               else
                 (let s1 = (if reports then track (retry_event (cx_step cx) (pr_command p) (k + 1) m) s else s) in
                  if 0 < ry_backoff (pr_plan p) then
                    (s1\<lparr>rs_world := pf_sleep pf (wait_time (pr_plan p) (k + 1)) (rs_world s1)\<rparr>,
                     Step (attempt_command pf cx reports p left (k + 1)))
                  else attempt_command pf cx reports p left (k + 1) s1))"
      have run': "s' = s\<lparr>rs_vars := vars, rs_world := w\<rparr>" "q = Step rest"
        using run False h unfolding rest_def by (simp_all add: Let_def)
      have "call_turns R (answers Q) rest"
      proof (rule call_turnsI)
        fix t t' q' assume t: "rest t = (t', q')"
        define t1 where "t1 = (if reports then track (retry_event (cx_step cx) (pr_command p) (k + 1) (case out of Inl m \<Rightarrow> m | Inr r \<Rightarrow> [])) t else t)"
        have t1: "R t t1" by (simp add: t1_def retried self)
        show "R t t' \<and> turns R (answers Q) q'"
        proof (cases out)
          case (Inr r)
          then show ?thesis using t by (auto simp: rest_def give_def stored assms(2))
        next
          case (Inl m)
          consider "left = 0" | "left \<noteq> 0" "0 < ry_backoff (pr_plan p)" | "left \<noteq> 0" "\<not> 0 < ry_backoff (pr_plan p)" by blast
          then show ?thesis
          proof cases
            case 1
            then show ?thesis using t Inl by (auto simp: rest_def give_def self assms(2))
          next
            case 2
            then have "t' = t1\<lparr>rs_world := pf_sleep pf (wait_time (pr_plan p) (k + 1)) (rs_world t1)\<rparr>"
              "q' = Step (attempt_command pf cx reports p left (k + 1))"
              using t Inl by (cases reports; simp add: rest_def t1_def Let_def)+
            then show ?thesis using chain [OF t1 slept] Suc [of "k + 1"] by simp
          next
            case 3
            then have "attempt_command pf cx reports p left (k + 1) t1 = (t', q')"
              using t Inl by (cases reports; simp add: rest_def t1_def Let_def)
            then show ?thesis using call_turnsD [OF Suc] t1 chain by blast
          qed
        qed
      qed
      then show ?thesis using run' handler [OF assms(1) h] by simp
    qed
  qed
qed

lemma resolved_def:
  "resolve_command (pf_text pf) (pf_library pf) r = Inr (d, params) \<Longrightarrow> \<exists>n. js_get (li_commands (pf_library pf)) n = Some d"
  by (auto simp: resolve_command_def lookup_name_def split: option.splits jval.splits)

lemma single_turns:
  assumes "good_ref r"
  shows "call_turns R (answers Q) (execute_single pf cx g reports r)"
proof (rule call_turnsI)
  fix s s' p assume run: "execute_single pf cx g reports r s = (s', p)"
  show "R s s' \<and> turns R (answers Q) p"
  proof (cases "resolve_command (pf_text pf) (pf_library pf) r")
    case (Inl m)
    then show ?thesis using run by (auto simp: execute_single_def throw_def self)
  next
    case (Inr dp)
    then obtain d params n where d: "resolve_command (pf_text pf) (pf_library pf) r = Inr (d, params)"
      "js_get (li_commands (pf_library pf)) n = Some d" using resolved_def by (cases dp) blast
    let ?p = "prepare (pf_text pf) cx (rs_vars s) g r d params"
    have pd: "pr_definition ?p = d" by (simp add: prepare_def Let_def)
    have at: "call_turns R (answers Q) (attempt_command pf cx reports ?p left k)" for left k
      by (rule attempt_turns) (use d(2) pd recorded [OF d(2) assms] in auto)
    show ?thesis
    proof (cases "if is_idempotent d then js_get (rs_cache s) (pr_key ?p) else None")
      case None
      then have "attempt_command pf cx reports ?p (nat \<lceil>ry_max (pr_plan ?p)\<rceil>) 0 s = (s', p)"
        using run d(1) by (simp add: execute_single_def Let_def)
      then show ?thesis by (rule call_turnsD [OF at])
    next
      case (Some res)
      then show ?thesis
        using run d(1) recorded [OF d(2) assms] by (simp add: execute_single_def Let_def give_def self) auto
    qed
  qed
qed

lemma sequence_turns:
  "list_all good_ref rs \<Longrightarrow> list_all Q acc \<Longrightarrow> call_turns R (answers (list_all Q)) (run_sequence pf cx g reports rs acc)"
proof (induction rs arbitrary: acc)
  case Nil
  then show ?case by (simp add: call_turns_def give_def self)
next
  case (Cons r rs)
  let ?k = "\<lambda>x s. case x of
            Inl e \<Rightarrow> throw e s
          | Inr e \<Rightarrow>
              if rc_ok (ex_record e) then run_sequence pf cx g reports rs (acc @ [e]) s
              else give (acc @ [e]) s"
  have "call_turns R (answers (list_all Q)) (?k x)" if "answers Q x" for x
  proof (cases x)
    case (Inr e)
    then have "call_turns R (answers (list_all Q)) (run_sequence pf cx g reports rs (acc @ [e]))"
      using Cons that by auto
    then show ?thesis using Inr that Cons.prems by (auto simp: call_turns_def give_def self)
  qed (simp add: call_turns_def throw_def self)
  then have "call_turns R (answers (list_all Q)) (await_call (execute_single pf cx g reports r) ?k)"
    using Cons.prems by (intro call_turns_await [OF single_turns]) auto
  then show ?case by (auto simp: call_turns_def throw_def self)
qed

lemma rights_all: "list_all (answers Q) xs \<Longrightarrow> list_all Q (rights xs)"
  by (induction xs rule: rights.induct) auto

lemma commands_turns:
  assumes "list_all good_ref rs"
  shows "call_turns R (answers (list_all Q)) (execute_commands pf cx mode g reports rs)"
proof -
  have "call_turns R (list_all (answers Q)) (all_settled sched (map (execute_single pf cx g reports) rs))" for sched
    by (rule all_settled_turns [OF R_refl R_trans]) (use assms single_turns in \<open>auto simp: list_all_iff\<close>)
  then have "call_turns R (answers (list_all Q))
      (await_call (all_settled sched (map (execute_single pf cx g reports) rs)) (\<lambda>xs s. (s, Done (parallel_outcome xs))))" for sched
    by (rule call_turns_await) (auto simp: call_turns_def self parallel_outcome_def rights_all)
  then show ?thesis
    using sequence_turns [OF assms, of "[]"] by (auto simp: execute_commands_def call_turns_def throw_def self)
qed

end

section \<open>Batches under every schedule\<close>

text \<open>A command leaves the counters of the batch alone.\<close>

interpretation frame: run_relation pf "\<lambda>s s'. rs_batch s' = rs_batch s" "\<lambda>_. True" "\<lambda>_. True" for pf :: "'w platform"
  by unfold_locales (auto simp: reflp_def transp_def remember_def track_def)

text \<open>
  The ghost of a worker: the item it works on, and how far the items are known to be taken. A worker
  that is done knows that all are, or that the batch has failed.
\<close>

type_synonym worker_ghost = "nat option \<times> nat"

definition reached :: "nat \<Rightarrow> 'w batch_state \<Rightarrow> bool" where
  "reached m b \<longleftrightarrow> m \<le> bs_next b \<or> bs_hard b"

lemma reached_hard: "bs_hard b \<Longrightarrow> reached m b"
  by (simp add: reached_def)

inductive worker_moves :: "bool \<Rightarrow> jval list \<Rightarrow> worker_ghost \<Rightarrow> 'w batch_state \<Rightarrow> worker_ghost \<Rightarrow> 'w batch_state \<Rightarrow> bool"
  for continue items where
  stay: "worker_moves continue items g b g b"
| learn: "reached m b \<Longrightarrow> worker_moves continue items (h, m0) b (h, m) b"
| take_item: "worker_moves continue items (None, m) b
    (if bs_next b < length items then Some (bs_next b) else None, Suc (bs_next b)) (b\<lparr>bs_next := Suc (bs_next b)\<rparr>)"
| finish: "worker_moves continue items (Some i, m) b (None, m) (count_item continue i (items ! i) r b)"
| more: "worker_moves continue items g b g1 b1 \<Longrightarrow> worker_moves continue items g1 b1 g2 b2 \<Longrightarrow> worker_moves continue items g b g2 b2"

definition held :: "worker_ghost \<Rightarrow> nat list" where
  "held g = (case fst g of None \<Rightarrow> [] | Some i \<Rightarrow> [i])"

definition batch_inv :: "bool \<Rightarrow> jval list \<Rightarrow> 'w batch_state \<Rightarrow> worker_ghost list \<Rightarrow> bool" where
  "batch_inv continue items b gs \<longleftrightarrow>
     mset (concat (map held gs)) + mset (map it_index (bs_items b)) = mset [0..<min (length items) (bs_next b)]
     \<and> bs_good b = length (filter (\<lambda>it. \<not> is_error (it_outcome it)) (bs_items b))
     \<and> bs_bad b = length (filter (\<lambda>it. is_error (it_outcome it)) (bs_items b))
     \<and> (bs_hard b \<longrightarrow> \<not> continue \<and> 0 < bs_bad b)
     \<and> (\<forall>it \<in> set (bs_items b). it_item it = items ! it_index it)
     \<and> (\<forall>g \<in> set gs. reached (snd g) b)"

lemma batch_inv_moves:
  "worker_moves continue items g b g' b' \<Longrightarrow> batch_inv continue items b (xs @ g # ys) \<Longrightarrow> batch_inv continue items b' (xs @ g' # ys)"
proof (induction rule: worker_moves.induct)
  case (take_item m b)
  have nx: "reached n b \<Longrightarrow> reached n (b\<lparr>bs_next := Suc (bs_next b)\<rparr>)" for n by (auto simp: reached_def)
  have new: "reached (Suc (bs_next b)) (b\<lparr>bs_next := Suc (bs_next b)\<rparr>)" by (simp add: reached_def)
  show ?case
  proof (cases "bs_next b < length items")
    case True
    then have "min (length items) (Suc (bs_next b)) = Suc (bs_next b)" "min (length items) (bs_next b) = bs_next b" by simp_all
    then have eq: "[0..<min (length items) (Suc (bs_next b))] = [0..<min (length items) (bs_next b)] @ [bs_next b]"
      by (simp only: upt_Suc_append [OF le0])
    show ?thesis using take_item True nx new by (auto simp: batch_inv_def held_def eq simp del: mset_upt)
  next
    case False
    then have eq: "min (length items) (Suc (bs_next b)) = min (length items) (bs_next b)" by simp
    show ?thesis using take_item False nx new by (auto simp: batch_inv_def held_def eq simp del: mset_upt)
  qed
next
  case (finish i m b r)
  have kept: "reached n b \<Longrightarrow> reached n (count_item continue i (items ! i) r b)" for n
    by (auto simp: reached_def count_item_def)
  show ?case using finish kept by (auto simp: batch_inv_def held_def count_item_def simp del: mset_upt)
next
  case (learn m b h m0)
  then show ?case by (auto simp: batch_inv_def held_def)
next
  case (more g b g1 b1 g2 b2)
  then show ?case by blast
qed

interpretation workers: protocol
  "\<lambda>g s g' s'. worker_moves continue items g (rs_batch s) g' (rs_batch (s' :: 'w run_state))"
  "\<lambda>g s. reached (snd g) (rs_batch (s :: 'w run_state))"
  "\<lambda>g. fst g = None \<and> length items \<le> snd g"
  "\<lambda>s gs. batch_inv continue items (rs_batch (s :: 'w run_state)) gs" for continue items
  by unfold_locales (erule (1) batch_inv_moves [rotated], simp add: batch_inv_def)

lemma rs_batch_finish [simp]: "rs_batch (finish_item st c n i item r s) = count_item c i item r (rs_batch s)"
  by (simp add: finish_item_def track_def Let_def)

lemma worker_follows:
  "length items < fuel + m \<Longrightarrow> workers.call_follows continue items (batch_worker pf cx st continue items fuel) (None, m)"
proof (induction fuel arbitrary: m)
  case 0
  then show ?case by (auto simp: workers.call_follows_def intro!: exI [of _ m] stay)
next
  case (Suc fuel)
  have "\<exists>g'. worker_moves continue items (None, m) (rs_batch s) g' (rs_batch (fst (batch_worker pf cx st continue items (Suc fuel) s)))
      \<and> workers.follows continue items (snd (batch_worker pf cx st continue items (Suc fuel) s)) g'"
    if m: "reached m (rs_batch s)" for s
  proof (cases "bs_hard (rs_batch s)")
    case True
    then show ?thesis
      by (intro exI [of _ "(None, length items)"]) (auto simp: reached_hard intro: learn)
  next
    case False
    define i where "i = bs_next (rs_batch s)"
    define s1 where "s1 = s\<lparr>rs_batch := (rs_batch s)\<lparr>bs_next := Suc i\<rparr>\<rparr>"
    have mi: "m \<le> i" using m False by (simp add: reached_def i_def)
    have taken: "worker_moves continue items (None, m) (rs_batch s) (if i < length items then Some i else None, Suc i) (rs_batch s1)"
      using take_item [of continue items m "rs_batch s"]
      by (cases "bs_next (rs_batch s) < length items") (simp_all add: s1_def i_def)
    show ?thesis
    proof (cases "length items \<le> i")
      case True
      then have "batch_worker pf cx st continue items (Suc fuel) s = (s1, Done ())"
        using False by (simp add: s1_def i_def Let_def)
      then show ?thesis using taken True by (intro exI [of _ "(None, Suc i)"]) simp
    next
      case False
      let ?c = "execute_commands pf (item_context cx i (items ! i)) (nullish (ws_mode st) Sequential) (ws_retry st) True (ws_commands st)"
      let ?k = "\<lambda>r s. (let out = item_outcome i r; s2 = finish_item (ws_id st) continue (length items) i (items ! i) out s in
               if is_error out \<and> \<not> continue then (s2, Done ()) else batch_worker pf cx st continue items fuel s2)"
      have run: "batch_worker pf cx st continue items (Suc fuel) s = await_call ?c ?k s1"
        using False \<open>\<not> bs_hard (rs_batch s)\<close> by (simp add: s1_def i_def Let_def)
      have k: "workers.call_follows continue items (?k r) (Some i, Suc i)" for r
        unfolding workers.call_follows_def
      proof (intro allI impI)
        fix t :: "'a run_state" assume en: "reached (snd (Some i, Suc i)) (rs_batch t)"
        let ?out = "item_outcome i r"
        let ?t = "finish_item (ws_id st) continue (length items) i (items ! i) ?out t"
        have fin: "worker_moves continue items (Some i, Suc i) (rs_batch t) (None, Suc i) (rs_batch ?t)"
          by (simp add: finish)
        have en2: "reached (Suc i) (rs_batch ?t)" using en by (auto simp: reached_def count_item_def)
        show "\<exists>g'. worker_moves continue items (Some i, Suc i) (rs_batch t) g' (rs_batch (fst (?k r t)))
            \<and> workers.follows continue items (snd (?k r t)) g'"
        proof (cases "is_error ?out \<and> \<not> continue")
          case True
          then have "reached (length items) (rs_batch ?t)" by (simp add: reached_def count_item_def)
          then have "worker_moves continue items (Some i, Suc i) (rs_batch t) (None, length items) (rs_batch ?t)"
            using more [OF fin learn] by blast
          then show ?thesis using True by (intro exI [of _ "(None, length items)"]) (simp add: Let_def)
        next
          case False
          have cf: "workers.call_follows continue items (batch_worker pf cx st continue items fuel) (None, Suc i)"
            using Suc.IH [of "Suc i"] Suc.prems mi by simp
          have "\<exists>g'. worker_moves continue items (None, Suc i) (rs_batch ?t) g' (rs_batch (fst (batch_worker pf cx st continue items fuel ?t)))
            \<and> workers.follows continue items (snd (batch_worker pf cx st continue items fuel ?t)) g'"
            by (rule mp [OF spec [OF cf [unfolded workers.call_follows_def snd_conv]] en2])
          then obtain g' where g': "worker_moves continue items (None, Suc i) (rs_batch ?t) g'
              (rs_batch (fst (batch_worker pf cx st continue items fuel ?t)))"
            "workers.follows continue items (snd (batch_worker pf cx st continue items fuel ?t)) g'" by blast
          have eq: "?k r t = batch_worker pf cx st continue items fuel ?t" using False by (simp only: Let_def if_False)
          show ?thesis unfolding eq using more [OF fin g'(1)] g'(2) by blast
        qed
      qed
      obtain s2 p where c: "?c s1 = (s2, p)" by fastforce
      have fr: "rs_batch s2 = rs_batch s1 \<and> turns (\<lambda>s s'. rs_batch s' = rs_batch s) (answers (list_all (\<lambda>_. True))) p"
        using call_turnsD [OF frame.commands_turns c] by (simp add: list_all_iff)
      have "workers.follows continue items (await p ?k) (Some i, Suc i)"
        by (rule workers.await_follows [OF conjunct2 [OF fr]]) (auto intro: stay k)
      then have fw: "workers.follows continue items (snd (s2, await p ?k)) (Some i, Suc i)" by simp
      have turn: "batch_worker pf cx st continue items (Suc fuel) s = (s2, await p ?k)"
        using c unfolding run await_call_def by simp
      have "worker_moves continue items (None, m) (rs_batch s) (Some i, Suc i) (rs_batch (fst (s2, await p ?k)))"
        using taken False fr by simp
      then show ?thesis unfolding turn using fw by blast
    qed
  qed
  then show ?case unfolding workers.call_follows_def by simp
qed

text \<open>How a batch ends.\<close>

definition batch_ended :: "bool \<Rightarrow> jval list \<Rightarrow> 'w batch_state \<Rightarrow> bool" where
  "batch_ended continue items b \<longleftrightarrow>
     distinct (map it_index (bs_items b)) \<and> set (map it_index (bs_items b)) \<subseteq> {..<length items}
     \<and> (\<forall>it \<in> set (bs_items b). it_item it = items ! it_index it)
     \<and> bs_good b = length (filter (\<lambda>it. \<not> is_error (it_outcome it)) (bs_items b))
     \<and> bs_bad b = length (filter (\<lambda>it. is_error (it_outcome it)) (bs_items b))
     \<and> (continue \<or> bs_bad b = 0 \<longrightarrow> set (map it_index (bs_items b)) = {..<length items})"

lemma batch_inv_ended:
  assumes "batch_inv continue items b gs" "list_all (\<lambda>g. fst g = None \<and> length items \<le> snd g) gs" "gs \<noteq> []"
  shows "batch_ended continue items b"
proof -
  have "concat (map held gs) = []" using assms(2) by (auto simp: list_all_iff held_def)
  then have m: "mset (map it_index (bs_items b)) = mset [0..<min (length items) (bs_next b)]"
    using assms(1) unfolding batch_inv_def by (metis add_0 mset.simps(1))
  have set: "set (map it_index (bs_items b)) = {..<min (length items) (bs_next b)}"
    using mset_eq_setD [OF m] by auto
  have dist: "distinct (map it_index (bs_items b))" using mset_eq_imp_distinct_iff [OF m] by simp
  obtain g where g: "g \<in> set gs" using assms(3) by (cases gs) auto
  then have "reached (length items) b"
    using assms(1,2) by (fastforce simp: batch_inv_def list_all_iff reached_def)
  then have "continue \<or> bs_bad b = 0 \<Longrightarrow> length items \<le> bs_next b"
    using assms(1) by (auto simp: batch_inv_def reached_def)
  then show ?thesis using assms(1) set dist by (auto simp: batch_ended_def batch_inv_def min_def)
qed

lemma worker_count_pos: "0 < worker_count wb n"
  by (auto simp: worker_count_def max_def)

lemma workers_end:
  assumes "run_call (all_settled sched (replicate (worker_count wb (length items))
      (batch_worker pf cx st continue items (length items + 1)))) (s\<lparr>rs_batch := new_batch\<rparr>) = (s', us)"
  shows "batch_ended continue items (rs_batch s')"
proof -
  let ?n = "worker_count wb (length items)"
  let ?gs = "replicate ?n (None, 0)"
  have "list_all2 (workers.call_follows continue items)
      (replicate ?n (batch_worker pf cx st continue items (length items + 1))) ?gs"
    by (auto simp: list_all2_conv_all_nth intro: worker_follows)
  moreover have "concat (map held ?gs) = []" by (simp add: held_def)
  then have "batch_inv continue items (rs_batch (s\<lparr>rs_batch := new_batch\<rparr>)) ?gs"
    by (simp add: batch_inv_def new_batch_def reached_def)
  ultimately obtain gs where gs: "batch_inv continue items (rs_batch s') gs"
    "list_all (\<lambda>g. fst g = None \<and> length items \<le> snd g) gs" "length gs = ?n"
    using workers.settled_follows [where continue = continue and items = items, OF _ _ assms] by fastforce
  then have "gs \<noteq> []" using worker_count_pos [of wb "length items"] by auto
  with batch_inv_ended [OF gs(1,2)] show ?thesis .
qed

text \<open>
  C12: Each item of a batch is processed once, whatever the number of workers, the handlers and the order in
  which the workers take their turns. A batch that succeeds reports the items in their order, and its
  counters are the numbers of succeeded and failed ones; with \<open>continueOnItemFailure\<close> a batch succeeds.
  A batch that fails reports different items, of which at least one failed.
\<close>

theorem batches_process_each_item_once:
  assumes "get_path_value (tp_number (pf_text pf)) (VObj (cx_inputs cx)) (wb_items wb) = VArr items"
  shows "case snd (run_call (run_batch pf cx st wb) s) of
      Inr (b, gs) \<Rightarrow> map ir_index (br_items b) = [0..<length items] \<and> map ir_item (br_items b) = items
        \<and> br_good b = length (filter ir_ok (br_items b)) \<and> br_good b + br_bad b = length items \<and> br_total b = length items
    | Inl e \<Rightarrow> \<not> wb_continue wb \<and> (\<exists>m b. e = BatchFailure m b \<and> sorted_wrt (<) (map ir_index (br_items b))
        \<and> 0 < br_bad b \<and> br_good b + br_bad b = length (br_items b) \<and> length (br_items b) \<le> length items)"
proof -
  let ?c = "wb_continue wb"
  obtain s' us where run: "run_call (all_settled (pf_schedule pf (cx_step cx)) (replicate (worker_count wb (length items))
      (batch_worker pf cx st ?c items (length items + 1)))) (s\<lparr>rs_batch := new_batch\<rparr>) = (s', us)" by fastforce
  define b where "b = rs_batch s'"
  have ended: "batch_ended ?c items b" unfolding b_def by (rule workers_end [OF run])
  have res: "snd (run_call (run_batch pf cx st wb) s) = batch_outcome st ?c (length items) b"
  proof -
    have "run_batch pf cx st wb s = await_call
            (all_settled (pf_schedule pf (cx_step cx))
              (replicate (worker_count wb (length items)) (batch_worker pf cx st ?c items (length items + 1))))
            (\<lambda>_ s. (s, Done (batch_outcome st ?c (length items) (rs_batch s)))) (s\<lparr>rs_batch := new_batch\<rparr>)"
      using assms by (simp add: run_batch_def)
    then have "run_call (run_batch pf cx st wb) s = run_call (await_call
            (all_settled (pf_schedule pf (cx_step cx))
              (replicate (worker_count wb (length items)) (batch_worker pf cx st ?c items (length items + 1))))
            (\<lambda>_ s. (s, Done (batch_outcome st ?c (length items) (rs_batch s))))) (s\<lparr>rs_batch := new_batch\<rparr>)"
      by (simp add: run_call_def)
    then show ?thesis unfolding run_await_call run b_def by (simp add: run_call_def)
  qed
  let ?its = "map item_result_of (bs_items b)"
  let ?r = "batch_result_of (length items) b"
  have idx: "map ir_index ?its = map it_index (bs_items b)" by (simp add: item_result_of_def)
  have sum: "bs_good b + bs_bad b = length (bs_items b)"
    using ended sum_length_filter_compl [of "\<lambda>it. is_error (it_outcome it)" "bs_items b"] by (simp add: batch_ended_def)
  have perm: "mset (br_items ?r) = mset ?its" by (simp add: batch_result_of_def)
  have "mset (map ir_index (br_items ?r)) = mset (map it_index (bs_items b))"
    unfolding mset_map perm idx [symmetric] ..
  note idx_perm = this
  have dist: "distinct (map ir_index (br_items ?r))"
    using ended mset_eq_imp_distinct_iff [OF idx_perm] by (simp add: batch_ended_def)
  have sort: "sorted (map ir_index (br_items ?r))" by (simp add: batch_result_of_def)
  have "size (filter_mset ir_ok (mset (br_items ?r))) = size (filter_mset ir_ok (mset ?its))" by (simp only: perm)
  then have "length (filter ir_ok (br_items ?r)) = length (filter ir_ok ?its)"
    by (simp only: mset_filter [symmetric] size_mset)
  also have "\<dots> = bs_good b" using ended by (simp add: batch_ended_def filter_map o_def item_result_of_def)
  finally have good: "length (filter ir_ok (br_items ?r)) = bs_good b" .
  have len: "length (br_items ?r) = length (bs_items b)" using mset_eq_length [OF perm] by simp
  have set: "set (map ir_index (br_items ?r)) = set (map it_index (bs_items b))" using mset_eq_setD [OF idx_perm] .
  have items: "\<forall>it \<in> set (br_items ?r). ir_item it = items ! ir_index it"
    using ended mset_eq_setD [OF perm] by (auto simp: batch_ended_def item_result_of_def)
  have counts: "br_good ?r = bs_good b" "br_bad ?r = bs_bad b" "br_total ?r = length items"
    by (simp_all add: batch_result_of_def)
  show ?thesis
  proof (cases "0 < bs_bad b \<and> \<not> ?c")
    case True
    have "length (br_items ?r) \<le> length items"
    proof -
      have "card (set (map ir_index (br_items ?r))) \<le> card {..<length items}"
        using ended unfolding set by (intro card_mono) (auto simp: batch_ended_def)
      then show ?thesis using distinct_card [OF dist] by simp
    qed
    moreover have "sorted_wrt (<) (map ir_index (br_items ?r))" using sort dist by (simp add: strict_sorted_iff)
    ultimately show ?thesis
      using True sum len counts unfolding res batch_outcome_def by (auto simp: is_error_def)
  next
    case False
    then have full: "set (map ir_index (br_items ?r)) = {..<length items}"
      using ended unfolding set by (auto simp: batch_ended_def)
    have upt: "map ir_index (br_items ?r) = [0..<length items]"
      by (rule sorted_distinct_set_unique) (use sort dist full in auto)
    have "map ir_item (br_items ?r) = map ((!) items) (map ir_index (br_items ?r))" using items by simp
    then have "map ir_item (br_items ?r) = items" by (simp only: upt map_nth)
    moreover have "length (bs_items b) = length items" using len arg_cong [OF upt, of length] by simp
    ultimately show ?thesis
      using False sum upt good counts unfolding res batch_outcome_def by auto
  qed
qed


definition bare_platform :: "nat list \<Rightarrow> unit platform" where
  "bare_platform sched =
     \<lparr>pf_library = empty_library, pf_text = \<lparr>tp_number = (\<lambda>_. None), tp_text = (\<lambda>_. [])\<rparr>, pf_aborted = (\<lambda>_. False),
      pf_sleep = (\<lambda>_. id), pf_schedule = (\<lambda>_. sched)\<rparr>"

definition two_items :: run_context where
  "two_items =
     \<lparr>cx_run = ''run'', cx_workflow = ''w'', cx_step = ''s'', cx_inputs = [(''xs'', VArr [VStr ''a'', VStr ''b''])], cx_item = VUndef\<rparr>"

theorem batches_process_each_item_once_witness:
  "case snd (run_call (run_batch (bare_platform [1, 0]) two_items
        \<lparr>ws_id = ''s'', ws_condition = None, ws_on_error = None, ws_retry = None, ws_rollback = None, ws_mode = None,
         ws_commands = [CommandRef (VStr ''c'') None None None None], ws_batch = None\<rparr>
        \<lparr>wb_items = ''xs'', wb_concurrency = Some 2, wb_continue = True\<rparr>)
        \<lparr>rs_world = (), rs_vars = [], rs_cache = [], rs_tracker = new_tracker 1, rs_batch = new_batch\<rparr>) of
     Inr (b, gs) \<Rightarrow> map ir_item (br_items b) = [VStr ''a'', VStr ''b''] \<and> br_good b + br_bad b = 2
   | Inl e \<Rightarrow> False"
proof -
  let ?st = "\<lparr>ws_id = ''s'', ws_condition = None, ws_on_error = None, ws_retry = None, ws_rollback = None, ws_mode = None,
         ws_commands = [CommandRef (VStr ''c'') None None None None], ws_batch = None\<rparr>"
  let ?wb = "\<lparr>wb_items = ''xs'', wb_concurrency = Some 2, wb_continue = True\<rparr>"
  let ?s = "\<lparr>rs_world = (), rs_vars = [], rs_cache = [], rs_tracker = new_tracker 1, rs_batch = new_batch\<rparr>"
  have "path_parts ''xs'' = [''xs'']" by code_simp
  then have "get_path_value (tp_number (pf_text (bare_platform [1, 0]))) (VObj (cx_inputs two_items)) (wb_items ?wb)
      = VArr [VStr ''a'', VStr ''b'']" by (simp add: get_path_value_def two_items_def bare_platform_def)
  from batches_process_each_item_once [OF this, of ?st ?s] show ?thesis by (auto split: sum.splits)
qed

end
