(* ===== verification/Workflow_Correct.thy ===== *)
theory Workflow_Correct
  imports Workflow_Batch
begin

text \<open>
  What a run promises: the registry holds only sound workflows, the reported progress never goes back,
  and a rollback compensates the commands of the executed steps in reverse order. Then what it does
  not: the places where the rollback and the cache do less than their callers expect.
\<close>

section \<open>The registry\<close>

definition workflow_ok :: "workflow \<Rightarrow> bool" where
  "workflow_ok w \<longleftrightarrow> wf_name w \<noteq> [] \<and> wf_steps w \<noteq> [] \<and> distinct (map ws_id (wf_steps w))
     \<and> list_all (\<lambda>st. ws_commands st \<noteq> []) (wf_steps w)"

definition text_condition :: "wf_step \<Rightarrow> bool" where
  "text_condition st \<longleftrightarrow> (case ws_condition st of Some (CondFun f) \<Rightarrow> False | _ \<Rightarrow> True)"

lemma step_problem_None:
  "step_problem name ids sts = None \<longleftrightarrow>
     distinct (map ws_id sts) \<and> set (map ws_id sts) \<inter> set ids = {} \<and> list_all (\<lambda>st. ws_commands st \<noteq> []) sts"
  by (induction name ids sts rule: step_problem.induct) auto

lemma register_iff: "register_workflow w reg = Inr reg' \<longleftrightarrow> workflow_ok w \<and> reg' = js_set (wf_name w) (clone_workflow w) reg"
proof (cases "step_problem (wf_name w) [] (wf_steps w)")
  case None
  then show ?thesis
    using step_problem_None [of "wf_name w" "[]" "wf_steps w"] by (auto simp: register_workflow_def workflow_ok_def)
next
  case (Some e)
  then have "\<not> (distinct (map ws_id (wf_steps w)) \<and> list_all (\<lambda>st. ws_commands st \<noteq> []) (wf_steps w))"
    using step_problem_None [of "wf_name w" "[]" "wf_steps w"] by auto
  then show ?thesis using Some by (auto simp: register_workflow_def workflow_ok_def)
qed

lemma clone_ok: "workflow_ok w \<Longrightarrow> workflow_ok (clone_workflow w) \<and> list_all text_condition (wf_steps (clone_workflow w))"
  by (auto simp: workflow_ok_def clone_workflow_def clone_step_def text_condition_def clone_condition_def list_all_iff o_def
      split: option.splits wf_condition.splits)

definition registry_ok :: "registry \<Rightarrow> bool" where
  "registry_ok reg \<longleftrightarrow> list_all (\<lambda>(n, w). n = wf_name w \<and> workflow_ok w \<and> list_all text_condition (wf_steps w)) reg"

lemma register_ok: "registry_ok reg \<Longrightarrow> register_workflow w reg = Inr reg' \<Longrightarrow> registry_ok reg'"
  using clone_ok [of w] set_js_set [of "wf_name w" "clone_workflow w" reg]
  by (fastforce simp: registry_ok_def register_iff list_all_iff clone_workflow_def)

text \<open>
  C40: A workflow is registered exactly when it has a name, steps with different ids, and commands in each
  step. Whatever is registered, every workflow of the registry is like that and stands under its name;
  none of its steps has a function for its condition, since the registry keeps what JSON keeps.
\<close>

theorem registry_holds_sound_workflows:
  "registry_ok (fst (register_workflows ws []))
   \<and> ((\<exists>reg'. register_workflow w reg = Inr reg') \<longleftrightarrow> workflow_ok w)"
proof -
  have "registry_ok reg \<Longrightarrow> registry_ok (fst (register_workflows ws reg))" for reg
    by (induction ws reg rule: register_workflows.induct) (auto simp: register_ok split: sum.splits)
  then show ?thesis by (auto simp: register_iff registry_ok_def)
qed

section \<open>Batches as relations\<close>

locale batch_relation = run_relation +
  assumes taken: "\<And>i s. R s (s\<lparr>rs_batch := (rs_batch s)\<lparr>bs_next := i\<rparr>\<rparr>)"
    and fresh: "\<And>s. R s (s\<lparr>rs_batch := new_batch\<rparr>)"
    and finished: "\<And>i c n k item out s. answers (list_all Q) out \<Longrightarrow> R s (finish_item i c n k item out s)"
begin

lemma worker_turns:
  assumes "list_all good_ref (ws_commands st)"
  shows "call_turns R (\<lambda>_. True) (batch_worker pf cx st continue items fuel)"
proof (induction fuel)
  case 0
  show ?case by (simp add: call_turns_def self)
next
  case (Suc fuel)
  have k: "call_turns R (\<lambda>_. True) (\<lambda>s. (let out = item_outcome i r; s2 = finish_item (ws_id st) continue (length items) i (items ! i) out s in
               if is_error out \<and> \<not> continue then (s2, Done ()) else batch_worker pf cx st continue items fuel s2))"
    if "answers (list_all Q) r" for i r
  proof (rule call_turnsI)
    fix s s' p
    let ?out = "item_outcome i r"
    let ?s = "finish_item (ws_id st) continue (length items) i (items ! i) ?out s"
    assume run: "(let out = item_outcome i r; s2 = finish_item (ws_id st) continue (length items) i (items ! i) out s in
               if is_error out \<and> \<not> continue then (s2, Done ()) else batch_worker pf cx st continue items fuel s2) = (s', p)"
    have "answers (list_all Q) ?out" using that by (cases r) (simp_all add: item_outcome_def)
    then have fin: "R s ?s" by (rule finished)
    show "R s s' \<and> turns R (\<lambda>_. True) p"
    proof (cases "is_error ?out \<and> \<not> continue")
      case True
      then have "s' = ?s" "p = Done ()" using run by (simp_all add: Let_def)
      then show ?thesis using fin by simp
    next
      case False
      then have "batch_worker pf cx st continue items fuel ?s = (s', p)" using run by (simp only: Let_def if_False)
      then show ?thesis using call_turnsD [OF Suc] fin chain by blast
    qed
  qed
  show ?case
  proof (rule call_turnsI)
    fix s s' p
    assume run: "batch_worker pf cx st continue items (Suc fuel) s = (s', p)"
    define i where "i = bs_next (rs_batch s)"
    define s1 where "s1 = s\<lparr>rs_batch := (rs_batch s)\<lparr>bs_next := i + 1\<rparr>\<rparr>"
    have s1: "R s s1" by (simp add: s1_def taken)
    show "R s s' \<and> turns R (\<lambda>_. True) p"
    proof (cases "bs_hard (rs_batch s) \<or> length items \<le> i")
      case True
      then show ?thesis using run s1 self by (auto simp: i_def s1_def Let_def split: if_splits)
    next
      case False
      then have "await_call
           (execute_commands pf (item_context cx i (items ! i)) (nullish (ws_mode st) Sequential) (ws_retry st) True (ws_commands st))
           (\<lambda>r s.
              (let out = item_outcome i r; s2 = finish_item (ws_id st) continue (length items) i (items ! i) out s in
               if is_error out \<and> \<not> continue then (s2, Done ())
               else batch_worker pf cx st continue items fuel s2)) s1 = (s', p)"
        using run by (simp add: i_def s1_def Let_def)
      from call_turnsD [OF call_turns_await [OF commands_turns [OF assms] k] this] show ?thesis using s1 chain by blast
    qed
  qed
qed

lemma batch_turns:
  assumes "list_all good_ref (ws_commands st)"
  shows "call_turns R (\<lambda>_. True) (run_batch pf cx st wb)"
proof (rule call_turnsI)
  fix s s' p assume run: "run_batch pf cx st wb s = (s', p)"
  show "R s s' \<and> turns R (\<lambda>_. True) p"
  proof (cases "\<exists>items. get_path_value (tp_number (pf_text pf)) (VObj (cx_inputs cx)) (wb_items wb) = VArr items")
    case True
    then obtain items where items: "get_path_value (tp_number (pf_text pf)) (VObj (cx_inputs cx)) (wb_items wb) = VArr items" by blast
    have "call_turns R (list_all (\<lambda>_. True)) (all_settled (pf_schedule pf (cx_step cx))
        (replicate (worker_count wb (length items)) (batch_worker pf cx st (wb_continue wb) items (length items + 1))))"
      by (rule all_settled_turns [OF R_refl R_trans]) (auto intro: worker_turns [OF assms])
    then have "call_turns R (\<lambda>_. True) (await_call (all_settled (pf_schedule pf (cx_step cx))
        (replicate (worker_count wb (length items)) (batch_worker pf cx st (wb_continue wb) items (length items + 1))))
        (\<lambda>_ s. (s, Done (batch_outcome st (wb_continue wb) (length items) (rs_batch s)))))"
      by (rule call_turns_await) (simp add: call_turns_def self)
    from call_turnsD [OF this] run items fresh [of s] chain show ?thesis by (fastforce simp: run_batch_def)
  next
    case False
    then show ?thesis using run by (auto simp: run_batch_def throw_def self split: jval.splits)
  qed
qed

lemma step_turns:
  assumes "list_all good_ref (ws_commands st)"
  shows "call_turns R (\<lambda>_. True) (execute_wf_step pf cx st)"
proof (cases "ws_batch st")
  case None
  have "call_turns R (\<lambda>_. True) (await_call (execute_commands pf cx (nullish (ws_mode st) Sequential) (ws_retry st) True (ws_commands st))
            (\<lambda>r s. (s, Done (commands_outcome (pf_text pf) st r))))"
    by (rule call_turns_await [OF commands_turns [OF assms]]) (simp add: call_turns_def self)
  then show ?thesis using None by (simp add: execute_wf_step_def)
next
  case (Some wb)
  have "call_turns R (\<lambda>_. True) (await_call (run_batch pf cx st wb) (\<lambda>r s. (s, Done (map_sum id (batch_record st) r))))"
    by (rule call_turns_await [OF batch_turns [OF assms]]) (simp add: call_turns_def self)
  then show ?thesis using Some by (simp add: execute_wf_step_def)
qed

lemma step_run: "list_all good_ref (ws_commands st) \<Longrightarrow> run_call (execute_wf_step pf cx st) s = (s', r) \<Longrightarrow> R s s'"
  using turns_run [OF R_refl R_trans step_turns] by blast

end

section \<open>Whole runs as relations\<close>

inductive tracker_op :: "(tracker \<Rightarrow> tracker) \<Rightarrow> bool" where
  "tracker_op run_started"
| "tracker_op (step_started i)"
| "tracker_op (step_completed i n)"
| "tracker_op (step_failed i e n)"
| "tracker_op (retry_event i c k e)"
| "tracker_op (batch_item i b)"
| "tracker_op (rollback_started i)"
| "tracker_op (rollback_completed i eo)"
| "tracker_op run_completed"
| "tracker_op (run_failed e)"

locale whole_relation = batch_relation +
  assumes any_ref: "\<And>r. good_ref r"
    and acted: "\<And>s vars w. R s (s\<lparr>rs_vars := vars, rs_world := w\<rparr>)"
    and tracked: "\<And>f s. tracker_op f \<Longrightarrow> R s (track f s)"
begin

lemma any_refs: "list_all good_ref rs"
  by (simp add: any_ref list_all_iff)

lemma done_turns: "call_turns R (\<lambda>_. True) (\<lambda>s. (s, Done (f s)))"
  by (simp add: call_turns_def self)

lemma noted: "R s (note_undo_error cx x err s)"
  by (cases err) (auto simp: note_undo_error_def self intro: tracked tracker_op.intros)

lemma call_turns_after:
  assumes "call_turns R P c" "R s t" "c t = (s', p)"
  shows "R s s' \<and> turns R P p"
proof
  have after: "R t s' \<and> turns R P p" by (rule call_turnsD [OF assms(1,3)])
  from assms(2) conjunct1 [OF after] show "R s s'" by (rule chain)
  show "turns R P p" by (rule conjunct2 [OF after])
qed

lemma undo_execs_turns: "call_turns R (\<lambda>_. True) (undo_execs pf cx xs don errs)"
proof (induction xs arbitrary: don errs)
  case Nil
  show ?case by (simp add: call_turns_def self)
next
  case (Cons x xs)
  have rest: "call_turns R (\<lambda>_. True) (\<lambda>s. (let (x', es) = undo_result (pf_text pf) x err
      in undo_execs pf cx xs (x' # don) (errs @ es) (note_undo_error cx x err s)))" for err
  proof -
    obtain x' es where u: "undo_result (pf_text pf) x err = (x', es)" by fastforce
    have "call_turns R (\<lambda>_. True) (\<lambda>s. undo_execs pf cx xs (x' # don) (errs @ es) (note_undo_error cx x err s))"
      by (rule call_turnsI) (rule call_turns_after [OF Cons noted])
    then show ?thesis by (simp only: u Let_def prod.case)
  qed
  have single: "call_turns R (\<lambda>_. True) (await_call (execute_single pf (rollback_step cx) None False (without_retry c))
               (\<lambda>res s. (let err = (case res of Inl e \<Rightarrow> Some (error_message e) | Inr e \<Rightarrow> None);
                       (x', es) = undo_result (pf_text pf) x err
                   in undo_execs pf cx xs (x' # don) (errs @ es) (note_undo_error cx x err s))))" for c
    by (rule call_turns_await [OF single_turns [OF any_ref]]) (use rest in \<open>simp add: Let_def\<close>)
  show ?case
  proof (rule call_turnsI)
    fix s s' p assume run: "undo_execs pf cx (x # xs) don errs s = (s', p)"
    show "R s s' \<and> turns R (\<lambda>_. True) p"
    proof (cases "aborted pf s")
      case True
      then show ?thesis using run by (auto simp: self)
    next
      case False
      show ?thesis
      proof (cases "rc_rollback (ex_record x)")
        case (Some c)
        then show ?thesis using run False call_turnsD [OF single] by simp
      next
        case None
        show ?thesis
        proof (cases "cd_rollback (ex_definition x)")
          case None
          then show ?thesis using run False \<open>rc_rollback (ex_record x) = None\<close> call_turnsD [OF Cons] by simp
        next
          case (Some h)
          obtain err vars w where h: "h (handler_call_of (rollback_step cx) (rc_params (ex_record x)) 1) (ex_result x)
              (rs_vars s) (rs_world s) = (err, vars, w)" by (metis prod_cases3)
          then show ?thesis
            using run False \<open>rc_rollback (ex_record x) = None\<close> Some rest acted by auto
        qed
      qed
    qed
  qed
qed

lemma undo_explicit_turns: "call_turns R (\<lambda>_. True) (undo_explicit pf cx e)"
proof (cases "nullish (sk_rollback e) []")
  case Nil
  then show ?thesis by (simp add: undo_explicit_def call_turns_def self)
next
  case (Cons r rs)
  have "call_turns R (\<lambda>_. True) (await_call (execute_commands pf (rollback_step (entry_context cx e)) Sequential (Some no_retry) False (r # rs))
            (\<lambda>r s. (s, Done (explicit_errors (pf_text pf) (sk_step e) r))))"
    by (rule call_turns_await [OF commands_turns [OF any_refs]]) (rule done_turns)
  then show ?thesis using Cons by (simp add: undo_explicit_def call_turns_def)
qed

lemma undo_stack_turns: "call_turns R (\<lambda>_. True) (undo_stack pf cx es don errs)"
proof (induction es arbitrary: don errs)
  case Nil
  show ?case by (simp add: call_turns_def self)
next
  case (Cons e es)
  have "call_turns R (\<lambda>_. True) (\<lambda>s.
             (let e' = e\<lparr>sk_groups := regroup (sk_groups e) (un_execs u)\<rparr> in
              case un_thrown u of
                None \<Rightarrow> undo_stack pf cx es (e' # don) (errs @ errs1 @ un_errors u) s
              | Some x \<Rightarrow>
                  (s, Done \<lparr>su_entries = rev es @ e' # don, su_errors = errs @ errs1, su_thrown = Some x\<rparr>)))" for u errs1
    using Cons by (cases "un_thrown u") (simp_all add: call_turns_def self Let_def)
  then have "call_turns R (\<lambda>_. True) (await_call (undo_explicit pf cx e)
        (\<lambda>errs1. await_call (undo_execs pf (entry_context cx e) (rev (entry_execs e)) [] [])
          (\<lambda>u s.
             (let e' = e\<lparr>sk_groups := regroup (sk_groups e) (un_execs u)\<rparr> in
              case un_thrown u of
                None \<Rightarrow> undo_stack pf cx es (e' # don) (errs @ errs1 @ un_errors u) s
              | Some x \<Rightarrow>
                  (s, Done \<lparr>su_entries = rev es @ e' # don, su_errors = errs @ errs1, su_thrown = Some x\<rparr>)))))"
    by (intro call_turns_await [OF undo_explicit_turns] call_turns_await [OF undo_execs_turns])
  then show ?case by (simp add: call_turns_def self)
qed

lemma fail_turns: "call_turns R (\<lambda>_. True) (fail_run msg steps a b errs)"
  by (simp add: call_turns_def fail_run_def tracked tracker_op.intros)

lemma roll_back_turns: "call_turns R (\<lambda>_. True) (roll_back pf cx i msg lg)"
proof (rule call_turnsI)
  fix s s' p assume run: "roll_back pf cx i msg lg s = (s', p)"
  have k: "call_turns R (\<lambda>_. True) (\<lambda>s.
          (let steps = settle (su_entries u) (lg_steps lg) in
           case su_thrown u of
             Some e \<Rightarrow> fail_run (error_message e) steps True True [] s
           | None \<Rightarrow>
               fail_run msg steps True (su_errors u = []) (su_errors u)
                 (track (rollback_completed i
                    (if su_errors u = [] then None else Some (join_with ''; '' (su_errors u)))) s)))" for u :: "'w stack_undone"
  proof (cases "su_thrown u")
    case None
    show ?thesis
      by (rule call_turnsI)
        (use None call_turns_after [OF fail_turns tracked [OF tracker_op.intros(8)]] in \<open>simp add: Let_def\<close>)
  qed (use fail_turns in \<open>simp add: Let_def\<close>)
  show "R s s' \<and> turns R (\<lambda>_. True) p"
    by (rule call_turns_after [OF call_turns_await [OF undo_stack_turns k] tracked [OF tracker_op.intros(7)]])
      (rule run [unfolded roll_back_def])
qed

lemma run_steps_turns: "call_turns R (\<lambda>_. True) (run_steps pf w cx dry sts lg)"
proof (induction sts arbitrary: lg)
  case Nil
  show ?case by (simp add: call_turns_def tracked tracker_op.intros)
next
  case (Cons st sts)
  have completed: "R s (track (step_completed i n) s)" and started: "R s (track (step_started i) s)"
    and failed: "R s (track (step_failed i m n) s)" for i n m s by (simp_all add: tracked tracker_op.intros)
  have k: "call_turns R (\<lambda>_. True) (\<lambda>s. (case r of
                    Inr (rec, gs, units) \<Rightarrow>
                      run_steps pf w cx dry sts (push_step st rec gs lg) (track (step_completed (ws_id st) units) s)
                  | Inl e \<Rightarrow>
                      (let s2 = track (step_failed (ws_id st) (error_message e) (failed_units st e)) s;
                           lg1 = record_step (failed_record st e) lg
                       in if nullish (ws_on_error st) AbortRun = ContinueRun then run_steps pf w cx dry sts lg1 s2
                          else if rolls_back w st then roll_back pf cx (ws_id st) (error_message e) lg1 s2
                          else fail_run (error_message e) (lg_steps lg1) False True [] s2)))" for r
  proof (cases r)
    case (Inl e)
    show ?thesis
      by (rule call_turnsI)
        (use Inl call_turns_after [OF Cons failed] call_turns_after [OF roll_back_turns failed] call_turns_after [OF fail_turns failed]
         in \<open>auto simp: Let_def split: if_splits\<close>)
  next
    case (Inr x)
    then show ?thesis
      using call_turns_after [OF Cons completed] by (cases x) (auto intro!: call_turnsI)
  qed
  show ?case
  proof (rule call_turnsI)
    fix s s' p assume run: "run_steps pf w cx dry (st # sts) lg s = (s', p)"
    define s1 where "s1 = track (step_started (ws_id st)) s"
    have s1: "R s s1" by (simp add: s1_def started)
    show "R s s' \<and> turns R (\<lambda>_. True) p"
    proof (cases "aborted pf s")
      case True
      then show ?thesis using run call_turnsD [OF fail_turns] by auto
    next
      case False
      define go where "go = evaluate_condition (pf_text pf) (ws_condition st) (wf_name w) (cx_inputs cx) (rs_vars s)"
      consider "\<not> go" | "go" "dry" | "go" "\<not> dry" by blast
      then show ?thesis
      proof cases
        case 1
        then show ?thesis
          using run False call_turns_after [OF Cons chain [OF s1 completed]] by (simp add: go_def s1_def Let_def)
      next
        case 2
        then show ?thesis
          using run False call_turns_after [OF Cons chain [OF s1 completed]] by (simp add: go_def s1_def Let_def)
      next
        case 3
        have "call_turns R (\<lambda>_. True) (await_call (execute_wf_step pf (cx\<lparr>cx_step := ws_id st\<rparr>) st) (\<lambda>r s. (case r of
                    Inr (rec, gs, units) \<Rightarrow>
                      run_steps pf w cx dry sts (push_step st rec gs lg) (track (step_completed (ws_id st) units) s)
                  | Inl e \<Rightarrow>
                      (let s2 = track (step_failed (ws_id st) (error_message e) (failed_units st e)) s;
                           lg1 = record_step (failed_record st e) lg
                       in if nullish (ws_on_error st) AbortRun = ContinueRun then run_steps pf w cx dry sts lg1 s2
                          else if rolls_back w st then roll_back pf cx (ws_id st) (error_message e) lg1 s2
                          else fail_run (error_message e) (lg_steps lg1) False True [] s2))))"
          by (rule call_turns_await [OF step_turns [OF any_refs] k])
        from call_turns_after [OF this s1] show ?thesis
          using run unfolding run_steps.simps Let_def s1_def [symmetric] go_def [symmetric] if_not_P [OF False]
          by (simp only: 3 simp_thms if_False if_True not_False_eq_True)
      qed
    qed
  qed
qed

lemma whole_run: "run_call (run_steps pf w cx dry sts lg) s = (s', r) \<Longrightarrow> R s s'"
  using turns_run [OF R_refl R_trans run_steps_turns] by blast

end

section \<open>Progress\<close>

definition progress_ok :: "tracker \<Rightarrow> bool" where
  "progress_ok t \<longleftrightarrow>
     (let shown = map (\<lambda>e. pg_percent (pe_snapshot e)) (tk_events t) in
      sorted (shown @ [pg_percent (tk_now t)]) \<and> list_all (\<lambda>n. 0 \<le> n \<and> n \<le> 100) (pg_percent (tk_now t) # shown)
      \<and> pg_percent (tk_now t) = percent_of (tk_now t) \<and> 0 < pg_total (tk_now t))"

lemma round_half_up_mono: "a \<le> b \<Longrightarrow> round_half_up a \<le> round_half_up b"
  unfolding round_half_up_def by (intro floor_mono) simp

lemma round_half_up_full: "1 \<le> x \<Longrightarrow> 100 \<le> round_half_up (x * 100)"
  by (simp add: round_half_up_def le_floor_iff)

lemma percent_of_mono:
  assumes "pg_total p = pg_total p'" "0 < pg_total p'"
    and "pg_completed p + pg_failed p \<le> pg_completed p' + pg_failed p' \<or> pg_total p' \<le> pg_completed p' + pg_failed p'"
  shows "percent_of p \<le> percent_of p'"
proof (cases "pg_total p' \<le> pg_completed p' + pg_failed p'")
  case True
  then have "(of_nat (pg_total p') :: rat) \<le> of_nat (pg_completed p' + pg_failed p')" by (simp only: of_nat_le_iff)
  then have "1 \<le> (of_nat (pg_completed p' + pg_failed p') / of_nat (max 1 (pg_total p')) :: rat)"
    using assms(2) by (simp add: max_absorb2)
  from round_half_up_full [OF this] show ?thesis by (simp add: percent_of_def)
next
  case False
  then have "pg_completed p + pg_failed p \<le> pg_completed p' + pg_failed p'" using assms(3) by simp
  then have "(of_nat (pg_completed p + pg_failed p) :: rat) \<le> of_nat (pg_completed p' + pg_failed p')" by (simp only: of_nat_le_iff)
  then have "(of_nat (pg_completed p + pg_failed p) / of_nat (max 1 (pg_total p)) * 100 :: rat)
      \<le> of_nat (pg_completed p' + pg_failed p') / of_nat (max 1 (pg_total p')) * 100"
    using assms(1) by (simp add: divide_right_mono)
  from round_half_up_mono [OF this] show ?thesis by (simp add: percent_of_def)
qed

lemma percent_bounds: "0 \<le> percent_of p \<and> percent_of p \<le> 100"
  by (auto simp: percent_of_def round_half_up_def le_floor_iff)

lemma publish_ok:
  assumes "progress_ok t" "pg_total p = pg_total (tk_now t)"
    and "pg_completed (tk_now t) + pg_failed (tk_now t) \<le> pg_completed p + pg_failed p \<or> pg_total p \<le> pg_completed p + pg_failed p"
    and "\<And>e. pe_snapshot (f e) = pe_snapshot e"
  shows "progress_ok (publish k f p t)"
proof -
  have same: "percent_of (p\<lparr>pg_percent := n\<rparr>) = percent_of p" for n by (simp add: percent_of_def)
  have "percent_of (tk_now t) \<le> percent_of p"
    using percent_of_mono [of "tk_now t" p] assms(1-3) by (auto simp: progress_ok_def Let_def)
  then have "pg_percent (tk_now t) \<le> percent_of p" using assms(1) by (simp add: progress_ok_def Let_def)
  then show ?thesis
    using assms(1,2,4) percent_bounds [of p]
    by (auto simp: progress_ok_def publish_def Let_def same sorted_append list_all_iff)
qed

lemma tracker_op_ok: "tracker_op f \<Longrightarrow> progress_ok t \<Longrightarrow> progress_ok (f t)"
  by (induction rule: tracker_op.induct)
    (auto simp: run_started_def step_started_def step_completed_def step_failed_def retry_event_def batch_item_def
      rollback_started_def rollback_completed_def run_completed_def run_failed_def intro!: publish_ok)

interpretation paced: whole_relation pf "preserves (\<lambda>s. progress_ok (rs_tracker s))" "\<lambda>_. True" "\<lambda>_. True" for pf :: "'w platform"
  by unfold_locales
    (auto simp: preserves_def remember_def track_def finish_item_def Let_def intro: tracker_op_ok tracker_op.intros)

lemma begin_run_ok: "progress_ok (rs_tracker (begin_run pf w ins vars world))"
proof -
  have "progress_ok (new_tracker n)" for n
    by (auto simp: progress_ok_def new_tracker_def percent_of_def round_half_up_def floor_eq_iff less_max_iff_disj)
  then show ?thesis using tracker_op_ok [OF tracker_op.intros(1)] by (simp add: begin_run_def track_def)
qed

text \<open>
  C38: The progress that a run reports is a percentage that never goes back, through retries, batches in any
  order, failures and rollbacks, and whatever its handlers do.
\<close>

theorem progress_never_goes_back:
  "case execute_workflow pf reg name inputs vars dry run_id world of
     None \<Rightarrow> js_get reg name = None
   | Some (s, r) \<Rightarrow>
       sorted (map (\<lambda>e. pg_percent (pe_snapshot e)) (tk_events (rs_tracker s)))
       \<and> list_all (\<lambda>e. 0 \<le> pg_percent (pe_snapshot e) \<and> pg_percent (pe_snapshot e) \<le> 100) (tk_events (rs_tracker s))"
proof (cases "js_get reg name")
  case None
  then show ?thesis by (simp add: execute_workflow_def)
next
  case (Some w)
  then obtain cx ins vs where ex: "execute_workflow pf reg name inputs vars dry run_id world
      = Some (run_call (run_steps pf w cx dry (wf_steps w) \<lparr>lg_steps = [], lg_stack = []\<rparr>) (begin_run pf w ins vs world))"
    by (simp add: execute_workflow_def Let_def)
  obtain s r where run: "run_call (run_steps pf w cx dry (wf_steps w) \<lparr>lg_steps = [], lg_stack = []\<rparr>) (begin_run pf w ins vs world) = (s, r)"
    by fastforce
  have "progress_ok (rs_tracker s)" using paced.whole_run [OF run] begin_run_ok [of pf w ins vs world] by (simp add: preserves_def)
  then show ?thesis unfolding ex run by (auto simp: progress_ok_def Let_def sorted_append list_all_iff)
qed

end
