(* ===== verification/Workflow_Rollback.thy ===== *)
theory Workflow_Rollback
  imports Workflow_Correct
begin

text \<open>
  What a rollback does, seen through commands that note in the world when they run and when they are
  undone: the commands of the executed steps are undone, the last one first.
\<close>

section \<open>Commands that note what they do\<close>

datatype noted_event = Did string | Undid string

fun is_did :: "noted_event \<Rightarrow> bool" where
  "is_did (Did n) = True" | "is_did (Undid n) = False"

type_synonym outcomes = "string \<Rightarrow> handler_call \<Rightarrow> fields \<Rightarrow> string + cmd_result"

type_synonym undo_outcomes = "string \<Rightarrow> handler_call \<Rightarrow> string option"

definition noting_undo :: "undo_outcomes \<Rightarrow> string \<Rightarrow> noted_event list undo_handler" where
  "noting_undo uo n = (\<lambda>ca res vars w. (uo n ca, vars, w @ [Undid n]))"

definition noting_command :: "outcomes \<Rightarrow> undo_outcomes \<Rightarrow> (string \<Rightarrow> bool option) \<Rightarrow> string \<Rightarrow> noted_event list command_def" where
  "noting_command co uo idem n =
     \<lparr>cd_name = n, cd_idempotent = idem n, cd_handler = (\<lambda>ca vars w. (co n ca vars, vars, w @ [Did n])),
      cd_rollback = Some (noting_undo uo n)\<rparr>"

definition noting_platform ::
  "outcomes \<Rightarrow> undo_outcomes \<Rightarrow> (string \<Rightarrow> bool option) \<Rightarrow> string list \<Rightarrow> (string, shortcut) jsmap \<Rightarrow> text_platform
   \<Rightarrow> (string \<Rightarrow> nat list) \<Rightarrow> noted_event list platform" where
  "noting_platform co uo idem names shorts tp sched =
     \<lparr>pf_library = \<lparr>li_commands = map (\<lambda>n. (n, noting_command co uo idem n)) names, li_shortcuts = shorts\<rparr>, pf_text = tp,
      pf_aborted = (\<lambda>_. False), pf_sleep = (\<lambda>_. id), pf_schedule = sched\<rparr>"



text \<open>What is recorded of such a command, when it has no rollback command of its own.\<close>

definition noted :: "undo_outcomes \<Rightarrow> noted_event list exec \<Rightarrow> bool" where
  "noted uo x \<longleftrightarrow> rc_rollback (ex_record x) = None
     \<and> cd_rollback (ex_definition x) = Some (noting_undo uo (rc_resolved (ex_record x)))"


definition only_did :: "undo_outcomes \<Rightarrow> noted_event list run_state \<Rightarrow> bool" where
  "only_did uo s \<longleftrightarrow> list_all is_did (rs_world s)
     \<and> list_all (\<lambda>it. answers (list_all (noted uo)) (it_outcome it)) (bs_items (rs_batch s))"


section \<open>The trace of a rollback\<close>

definition names_of :: "'w exec list \<Rightarrow> string list" where
  "names_of xs = map (\<lambda>x. rc_resolved (ex_record x)) xs"

lemma names_of_simps [simp]:
  "names_of [] = []" "names_of (x # xs) = rc_resolved (ex_record x) # names_of xs"
  "names_of (xs @ ys) = names_of xs @ names_of ys" "names_of (rev xs) = rev (names_of xs)"
  "length (names_of xs) = length xs"
  by (simp_all add: names_of_def rev_map)


lemma note_undo_world [simp]: "rs_world (note_undo_error cx x err s) = rs_world s"
  by (simp add: note_undo_error_def track_def split: option.splits)









section \<open>The trace of a run\<close>


lemma step_names_exec: "map rc_resolved (map ex_record xs) = names_of xs"
  by (simp add: names_of_def)













lemma world_track [simp]: "rs_world (track f s) = rs_world s" "rs_batch (track f s) = rs_batch s"
  by (simp_all add: track_def)

lemma only_did_track [simp]: "only_did uo (track f s) = only_did uo s"
  by (simp add: only_did_def)






section \<open>Retries\<close>








section \<open>Samples\<close>

definition sample_text :: text_platform where
  "sample_text = \<lparr>tp_number = (\<lambda>_. None), tp_text = (\<lambda>q. show_nat (nat \<lfloor>q\<rfloor>))\<rparr>"

text \<open>The command \<open>bad\<close> fails; to undo \<open>stuck\<close> fails.\<close>

definition sample_outcome :: outcomes where
  "sample_outcome n ca vars = (if n = ''bad'' then Inl ''failed'' else Inr \<lparr>cq_output = VNull, cq_updates = None\<rparr>)"

definition sample_undo :: undo_outcomes where
  "sample_undo n ca = (if n = ''stuck'' then Some ''cannot undo'' else None)"

definition sample_platform :: "noted_event list platform" where
  "sample_platform = noting_platform sample_outcome sample_undo (\<lambda>_. None) [''a'', ''b'', ''bad'', ''stuck''] [] sample_text (\<lambda>_. [])"

definition plain_ref :: "string \<Rightarrow> command_ref" where
  "plain_ref n = CommandRef (VStr n) None None None None"

definition sample_step :: "string \<Rightarrow> string list \<Rightarrow> wf_step" where
  "sample_step i ns =
     \<lparr>ws_id = i, ws_condition = None, ws_on_error = None, ws_retry = None, ws_rollback = None, ws_mode = None,
      ws_commands = map plain_ref ns, ws_batch = None\<rparr>"

definition sample_workflow :: "wf_step list \<Rightarrow> workflow" where
  "sample_workflow sts =
     \<lparr>wf_name = ''w'', wf_description = [], wf_version = 1, wf_tags = None, wf_defaults = None, wf_undo = None, wf_steps = sts\<rparr>"

definition sample_run :: "wf_step list \<Rightarrow> (noted_event list run_state \<times> run_outcome) option" where
  "sample_run sts = execute_workflow sample_platform (fst (register_workflows [sample_workflow sts] [])) ''w'' None None False ''run'' []"


named_theorems run_defs

lemmas [run_defs] = sample_run_def execute_workflow_def register_workflow_def clone_workflow_def clone_step_def sample_workflow_def
  sample_step_def plain_ref_def sample_platform_def noting_platform_def noting_command_def sample_outcome_def sample_undo_def noting_undo_def
  begin_run_def track_def run_call_def await_call_def execute_wf_step_def execute_commands_def aborted_def execute_single_def
  resolve_command_def lookup_name_def prepare_def idempotency_key_def retry_plan_of_def retry_field_def nullish_def is_idempotent_def
  record_of_def remember_def give_def throw_def assign_def handler_call_of_def evaluate_condition_def clone_condition_def Let_def
  sample_text_def commands_outcome_def push_step_def record_step_def failed_record_def roll_back_def rolls_back_def
  undo_explicit_def fail_run_def undo_result_def note_undo_error_def rollback_step_def entry_context_def undo_applied_def
  undo_refused_def without_retry_def settle_def settle_step_def clone_fields_def entry_execs_def nullish_opt_def resolve_fields_def no_retry_def

lemma resolve_text_plain: "CHR ''{'' \<notin> set t \<Longrightarrow> resolve_text tp ob t = VStr t"
  by (simp add: resolve_text_def template_at_plain fill_plain)

lemmas [run_defs] = resolve_text_plain


text \<open>
  What a rollback leaves undone, although it reports that it succeeded: a command that succeeded in the
  failing step. What it undoes twice: a command whose second result came from the cache.
\<close>

lemma failing_step_is_not_undone:
  "map_option (\<lambda>(s, r). (rs_world s, ro_attempted r, ro_succeeded r)) (sample_run [sample_step ''1'' [''a'', ''bad'']])
   = Some ([Did ''a'', Did ''bad''], True, True)"
  by (simp add: run_defs)

lemma cached_command_is_undone_twice:
  "map_option (\<lambda>(s, r). rs_world s) (sample_run [sample_step ''1'' [''a'', ''a''], sample_step ''2'' [''bad'']])
   = Some [Did ''a'', Did ''bad'', Undid ''a'', Undid ''a'']"
  by (simp add: run_defs)

text \<open>A rollback command that fails counts as applied, and the rollback as successful.\<close>

definition with_rollback_command :: "string \<Rightarrow> wf_step \<Rightarrow> wf_step" where
  "with_rollback_command n st =
     st\<lparr>ws_commands := map (\<lambda>r. CommandRef (cr_command r) (cr_params r) (cr_retry r) (cr_key r) (Some (plain_ref n))) (ws_commands st)\<rparr>"

lemma failed_rollback_command_counts_as_applied:
  "map_option (\<lambda>(s, r). (rs_world s, ro_succeeded r, map (map rc_applied \<circ> sr_commands) (ro_steps r)))
     (sample_run [with_rollback_command ''bad'' (sample_step ''1'' [''a'']), sample_step ''2'' [''bad'']])
   = Some ([Did ''a'', Did ''bad'', Did ''bad''], True, [[True], []])"
  by (simp add: run_defs with_rollback_command_def)

text \<open>An undo handler that fails is reported, and the rollback goes on.\<close>

lemma failed_undo_is_reported:
  "map_option (\<lambda>(s, r). (rs_world s, ro_succeeded r, ro_errors r))
     (sample_run [sample_step ''1'' [''a'', ''stuck''], sample_step ''2'' [''bad'']])
   = Some ([Did ''a'', Did ''stuck'', Did ''bad'', Undid ''stuck'', Undid ''a''], False, [''stuck: cannot undo''])"
  by (simp add: run_defs)

end
