(* ===== verification/Workflow_Defaults.thy ===== *)
theory Workflow_Defaults
  imports Workflow_Rollback
begin

text \<open>
  \<open>lib/workflow-macros-defaults.ts\<close>: the workflows that come with the system, and the names and
  shortcuts of its commands. The handlers of the commands are a parameter, since they share one array
  of the run's state by reference. Then \<open>lib/workflow-recorder.ts\<close>, which turns commands and runs
  into workflows.
\<close>

section \<open>The workflows of the system\<close>

definition named_command :: "string \<Rightarrow> command_ref" where
  "named_command n = CommandRef (VStr n) None None None None"

definition retry_up_to :: "rat \<Rightarrow> rat \<Rightarrow> retry_policy option" where
  "retry_up_to n ms = Some \<lparr>rp_max = Some n, rp_backoff = Some ms, rp_max_backoff = None\<rparr>"

definition command_step :: "string \<Rightarrow> command_ref list \<Rightarrow> wf_step" where
  "command_step i rs =
     \<lparr>ws_id = i, ws_condition = None, ws_on_error = None, ws_retry = None, ws_rollback = None, ws_mode = None,
      ws_commands = rs, ws_batch = None\<rparr>"

definition newco_sprint :: workflow where
  "newco_sprint =
     \<lparr>wf_name = ''newco-sprint'', wf_description = ''Research + validate + build MVP + test in one command.'',
      wf_version = 1, wf_tags = Some [''newco'', ''sprint'', ''build''], wf_defaults = None, wf_undo = Some True,
      wf_steps =
      [(command_step ''research''
      [CommandRef (VStr ''research.market-scan'') None (retry_up_to 2 25) None None,
       CommandRef (VStr ''research.customer-interviews'') None (retry_up_to 2 25) None None])\<lparr>ws_mode := Some Parallel\<rparr>,
       (command_step ''validate''
      [CommandRef (VStr ''validate.problem-solution-fit'') None (retry_up_to 2 25) None None]),
       (command_step ''build-mvp''
      [named_command ''build.mvp-scaffold'',
       CommandRef (VStr ''build.prototype'') None (retry_up_to 2 25) None None]),
       (command_step ''test-mvp''
      [named_command ''test.user-testing''])]\<rparr>"

definition content_batch :: workflow where
  "content_batch =
     \<lparr>wf_name = ''content-batch'', wf_description = ''Write + edit + publish + promote a batch of content pieces.'',
      wf_version = 1, wf_tags = Some [''content'', ''batch''], wf_defaults = (Some [(''contentPieces'', VArr
      [VObj [(''title'', VStr ''Piece 1''), (''channel'', VStr ''blog'')],
       VObj [(''title'', VStr ''Piece 2''), (''channel'', VStr ''blog'')],
       VObj [(''title'', VStr ''Piece 3''), (''channel'', VStr ''newsletter'')],
       VObj [(''title'', VStr ''Piece 4''), (''channel'', VStr ''x'')],
       VObj [(''title'', VStr ''Piece 5''), (''channel'', VStr ''linkedin'')]])]), wf_undo = Some True,
      wf_steps =
      [(command_step ''content-plan''
      [named_command ''content.plan-calendar'']),
       (command_step ''produce-content-batch''
      [CommandRef (VStr ''content.write'') (Some [(''title'', VStr ''{{item.title}}''), (''channel'', VStr ''{{item.channel}}'')]) None None None,
       CommandRef (VStr ''content.edit'') (Some [(''title'', VStr ''{{item.title}}'')]) None None None,
       CommandRef (VStr ''content.publish'') (Some [(''title'', VStr ''{{item.title}}''), (''channel'', VStr ''{{item.channel}}'')]) None None None,
       CommandRef (VStr ''content.promote'') (Some [(''title'', VStr ''{{item.title}}''), (''channel'', VStr ''{{item.channel}}'')]) None None None])
      \<lparr>ws_batch := Some \<lparr>wb_items = ''contentPieces'', wb_concurrency = Some 2, wb_continue = True\<rparr>\<rparr>]\<rparr>"

definition deploy_check :: workflow where
  "deploy_check =
     \<lparr>wf_name = ''deploy-check'', wf_description = ''Build + test + security scan + deploy + verify.'',
      wf_version = 1, wf_tags = Some [''deploy'', ''ops'', ''release''], wf_defaults = None, wf_undo = Some True,
      wf_steps =
      [(command_step ''build''
      [named_command ''deploy.build'']),
       (command_step ''test''
      [CommandRef (VStr ''deploy.test'') None (retry_up_to 2 50) None None]),
       (command_step ''security-scan''
      [CommandRef (VStr ''deploy.security-scan'') None (retry_up_to 2 50) None None]),
       (command_step ''deploy''
      [CommandRef (VStr ''deploy.release'') None None None (Some (named_command ''deploy.rollback''))])\<lparr>ws_on_error := Some RollbackRun\<rparr>,
       (command_step ''verify''
      [named_command ''deploy.verify''])]\<rparr>"

definition weekly_review :: workflow where
  "weekly_review =
     \<lparr>wf_name = ''weekly-review'', wf_description = ''Metrics + highlights + blockers + next-week plan.'',
      wf_version = 1, wf_tags = Some [''review'', ''planning''], wf_defaults = None, wf_undo = Some False,
      wf_steps =
      [(command_step ''collect-metrics''
      [named_command ''review.collect-metrics'']),
       (command_step ''capture-highlights''
      [named_command ''review.capture-highlights'']),
       (command_step ''identify-blockers''
      [named_command ''review.identify-blockers'']),
       (command_step ''plan-next-week''
      [named_command ''review.plan-next-week''])]\<rparr>"

definition incident_response :: workflow where
  "incident_response =
     \<lparr>wf_name = ''incident-response'', wf_description = ''Detect + triage + fix + postmortem with rollback safety.'',
      wf_version = 1, wf_tags = Some [''incident'', ''ops'', ''response''], wf_defaults = None, wf_undo = Some True,
      wf_steps =
      [(command_step ''detect''
      [named_command ''incident.detect'']),
       (command_step ''triage''
      [named_command ''incident.triage'']),
       (command_step ''fix''
      [CommandRef (VStr ''incident.fix'') None (retry_up_to 3 100) None (Some (named_command ''incident.revert-fix''))])\<lparr>ws_on_error := Some RollbackRun\<rparr>,
       (command_step ''postmortem''
      [named_command ''incident.postmortem''])]\<rparr>"

definition prebuilt_workflows :: "workflow list" where
  "prebuilt_workflows = [newco_sprint, content_batch, deploy_check, weekly_review, incident_response]"

definition default_names :: "string list" where
  "default_names =
     [''research.market-scan'', ''research.customer-interviews'', ''validate.problem-solution-fit'',
      ''build.mvp-scaffold'', ''build.prototype'', ''test.user-testing'',
      ''content.plan-calendar'', ''content.write'', ''content.edit'',
      ''content.publish'', ''content.promote'', ''deploy.build'',
      ''deploy.test'', ''deploy.security-scan'', ''deploy.release'',
      ''deploy.verify'', ''deploy.rollback'', ''review.collect-metrics'',
      ''review.capture-highlights'', ''review.identify-blockers'', ''review.plan-next-week'',
      ''incident.detect'', ''incident.triage'', ''incident.fix'',
      ''incident.revert-fix'', ''incident.postmortem'']"

definition default_shortcuts :: "(string \<times> string) list" where
  "default_shortcuts =
     [(''newco.research'', ''research.market-scan''),
      (''newco.interview'', ''research.customer-interviews''),
      (''content.create'', ''content.write''),
      (''content.go-live'', ''content.publish''),
      (''deploy.go'', ''deploy.release''),
      (''incident.mitigate'', ''incident.fix'')]"

text \<open>Registration with the handlers \<open>act\<close> and \<open>undo\<close> of each name.\<close>

definition activity_command :: "(string \<Rightarrow> 'w handler) \<Rightarrow> (string \<Rightarrow> 'w undo_handler) \<Rightarrow> string \<Rightarrow> 'w command_def" where
  "activity_command act undo n = \<lparr>cd_name = n, cd_idempotent = Some True, cd_handler = act n, cd_rollback = Some (undo n)\<rparr>"

fun register_each :: "('a \<Rightarrow> 'l \<Rightarrow> 'e + 'l) \<Rightarrow> 'a list \<Rightarrow> 'l \<Rightarrow> 'e + 'l" where
  "register_each f [] lib = Inr lib"
| "register_each f (x # xs) lib = (case f x lib of Inl e \<Rightarrow> Inl e | Inr lib' \<Rightarrow> register_each f xs lib')"

definition register_defaults ::
  "(string \<Rightarrow> 'w handler) \<Rightarrow> (string \<Rightarrow> 'w undo_handler) \<Rightarrow> 'w command_library \<Rightarrow> library_error + 'w command_library" where
  "register_defaults act undo lib =
     (case register_each (\<lambda>n. register_command (activity_command act undo n)) default_names lib of
        Inl e \<Rightarrow> Inl e
      | Inr lib' \<Rightarrow> register_each (\<lambda>(alias, target). register_shortcut alias target None) default_shortcuts lib')"

section \<open>The recorder\<close>

text \<open>The draft of a started recorder.\<close>

type_synonym recorder = "workflow option"

definition start_recording :: "string \<Rightarrow> string \<Rightarrow> int option \<Rightarrow> string list option \<Rightarrow> recorder \<Rightarrow> recorder" where
  "start_recording name desc version tags rec =
     Some \<lparr>wf_name = name, wf_description = desc, wf_version = nullish version 1, wf_tags = tags, wf_defaults = None,
           wf_undo = None, wf_steps = []\<rparr>"

definition record_whole_step :: "wf_step \<Rightarrow> recorder \<Rightarrow> recorder option" where
  "record_whole_step st rec = map_option (\<lambda>w. Some (w\<lparr>wf_steps := wf_steps w @ [clone_step st]\<rparr>)) rec"

record recorded_options =
  ro_mode :: "step_mode option"
  ro_retry :: "retry_policy option"
  ro_on_error :: "on_error option"

fun add_command :: "string \<Rightarrow> command_ref \<Rightarrow> recorded_options option \<Rightarrow> wf_step list \<Rightarrow> wf_step list" where
  "add_command i r opts [] =
     [\<lparr>ws_id = i, ws_condition = None, ws_on_error = Option.bind opts ro_on_error, ws_retry = Option.bind opts ro_retry,
       ws_rollback = None, ws_mode = Option.bind opts ro_mode, ws_commands = [clone_ref r], ws_batch = None\<rparr>]"
| "add_command i r opts (st # sts) =
     (if ws_id st = i \<and> ws_batch st = None then st\<lparr>ws_commands := ws_commands st @ [clone_ref r]\<rparr> # sts
      else st # add_command i r opts sts)"

definition record_command :: "string \<Rightarrow> command_ref \<Rightarrow> recorded_options option \<Rightarrow> recorder \<Rightarrow> recorder option" where
  "record_command i r opts rec = map_option (\<lambda>w. Some (w\<lparr>wf_steps := add_command i r opts (wf_steps w)\<rparr>)) rec"

text \<open>The workflow, and a recorder that is not started; \<^const>\<open>None\<close> where the recorder was not started.\<close>

definition stop_recording :: "recorder \<Rightarrow> (workflow \<times> recorder) option" where
  "stop_recording rec = map_option (\<lambda>w. (clone_workflow w, None)) rec"

record recorded_config =
  rf_name :: "string option"
  rf_description :: "string option"
  rf_version :: "int option"
  rf_tags :: "string list option"

definition recorded_step :: "step_record \<Rightarrow> wf_step" where
  "recorded_step r =
     \<lparr>ws_id = sr_id r, ws_condition = None, ws_on_error = None, ws_retry = None, ws_rollback = None, ws_mode = None,
      ws_commands = map (\<lambda>c. CommandRef (rc_command c) (Some (clone_fields (rc_params c))) None None None) (sr_commands r),
      ws_batch = (if sr_batch r then Some \<lparr>wb_items = ''items'', wb_concurrency = None, wb_continue = True\<rparr> else None)\<rparr>"

definition from_run :: "string \<Rightarrow> run_outcome \<Rightarrow> recorded_config \<Rightarrow> workflow" where
  "from_run name r cfg =
     \<lparr>wf_name = nullish (rf_name cfg) (name @ ''.recorded''),
      wf_description = nullish (rf_description cfg) (''Recorded from workflow '' @ name), wf_version = nullish (rf_version cfg) 1,
      wf_tags = rf_tags cfg, wf_defaults = None, wf_undo = None,
      wf_steps = map recorded_step (filter (\<lambda>st. sr_commands st \<noteq> []) (ro_steps r))\<rparr>"

section \<open>The workflows of the system can be run\<close>

fun refs_of :: "command_ref \<Rightarrow> command_ref list" where
  "refs_of (CommandRef c ps r k u) = CommandRef c ps r k u # (case u of None \<Rightarrow> [] | Some x \<Rightarrow> refs_of x)"

definition step_refs :: "wf_step \<Rightarrow> command_ref list" where
  "step_refs st = concat (map refs_of (ws_commands st @ nullish (ws_rollback st) []))"

definition resolvable :: "text_platform \<Rightarrow> 'w command_library \<Rightarrow> workflow \<Rightarrow> bool" where
  "resolvable tp lib w \<longleftrightarrow>
     list_all (\<lambda>st. list_all (\<lambda>r. \<not> is_error (resolve_command tp lib r)) (step_refs st)) (wf_steps w)"

lemma register_each_commands:
  "(\<And>n. n \<in> set ns \<Longrightarrow> n \<noteq> []) \<Longrightarrow> li_shortcuts lib = [] \<Longrightarrow>
   \<exists>lib'. register_each (\<lambda>n. register_command (activity_command act undo n)) ns lib = Inr lib' \<and> li_shortcuts lib' = []
     \<and> (\<forall>n. js_get (li_commands lib') n = (if n \<in> set ns then Some (activity_command act undo n) else js_get (li_commands lib) n))"
proof (induction ns arbitrary: lib)
  case (Cons n ns)
  let ?lib = "lib\<lparr>li_commands := js_set n (activity_command act undo n) (li_commands lib)\<rparr>"
  have "register_command (activity_command act undo n) lib = Inr ?lib"
    using Cons.prems by (simp add: register_command_def activity_command_def js_has_def)
  moreover obtain lib' where "register_each (\<lambda>n. register_command (activity_command act undo n)) ns ?lib = Inr lib'"
    "li_shortcuts lib' = []"
    "\<forall>m. js_get (li_commands lib') m = (if m \<in> set ns then Some (activity_command act undo m) else js_get (li_commands ?lib) m)"
    using Cons.IH [of ?lib] Cons.prems by auto
  ultimately show ?case by auto
qed simp

lemma register_each_shortcuts:
  "list_all (\<lambda>(a, t). a \<noteq> [] \<and> t \<noteq> [] \<and> js_get (li_commands lib) a = None) ps \<Longrightarrow>
   register_each (\<lambda>(a, t). register_shortcut a t None) ps lib
   = Inr (lib\<lparr>li_shortcuts := fold (\<lambda>(a, t). js_set a \<lparr>sh_target = t, sh_defaults = None\<rparr>) ps (li_shortcuts lib)\<rparr>)"
  by (induction ps arbitrary: lib) (auto simp: register_shortcut_def js_has_def)

text \<open>
  The workflows of the system are accepted by an empty registry. Whatever the handlers, the names and
  shortcuts of the system are accepted by an empty library, in which each command and each rollback
  command of these workflows resolves, and each shortcut to the command it stands for.
\<close>

theorem prebuilt_workflows_can_run:
  "(case register_workflows prebuilt_workflows [] of (reg, problem) \<Rightarrow>
      problem = None \<and> map fst reg = [''newco-sprint'', ''content-batch'', ''deploy-check'', ''weekly-review'', ''incident-response''])
   \<and> (case register_defaults act undo empty_library of
       Inl e \<Rightarrow> False
     | Inr lib \<Rightarrow>
         list_all (resolvable tp lib) prebuilt_workflows
         \<and> list_all (\<lambda>(a, t). resolve_command tp lib (named_command a) = Inr (activity_command act undo t, [])) default_shortcuts)"
proof (rule conjI)
  show "case register_workflows prebuilt_workflows [] of (reg, problem) \<Rightarrow>
      problem = None \<and> map fst reg = [''newco-sprint'', ''content-batch'', ''deploy-check'', ''weekly-review'', ''incident-response'']"
    by (simp add: prebuilt_workflows_def newco_sprint_def content_batch_def deploy_check_def weekly_review_def
        incident_response_def register_workflow_def command_step_def named_command_def clone_workflow_def)
  have names: "n \<noteq> []" if "n \<in> set default_names" for n using that by (auto simp: default_names_def)
  obtain lib where lib: "register_each (\<lambda>n. register_command (activity_command act undo n)) default_names empty_library = Inr lib"
    "li_shortcuts lib = []"
    "\<And>n. js_get (li_commands lib) n = (if n \<in> set default_names then Some (activity_command act undo n) else None)"
    using register_each_commands [OF names, of default_names empty_library act undo] by (auto simp: empty_library_def)
  let ?shorts = "fold (\<lambda>(a, t). js_set a \<lparr>sh_target = t, sh_defaults = None\<rparr>) default_shortcuts []"
  have "register_defaults act undo empty_library = Inr (lib\<lparr>li_shortcuts := ?shorts\<rparr>)"
    using register_each_shortcuts [of lib default_shortcuts] lib
    by (simp add: register_defaults_def default_shortcuts_def default_names_def)
  moreover have "list_all (resolvable tp (lib\<lparr>li_shortcuts := ?shorts\<rparr>)) prebuilt_workflows"
    by (simp add: prebuilt_workflows_def newco_sprint_def content_batch_def deploy_check_def weekly_review_def
        incident_response_def resolvable_def step_refs_def command_step_def named_command_def resolve_command_def
        lookup_name_def default_shortcuts_def lib(3) default_names_def is_error_def)
  moreover have "list_all (\<lambda>(a, t). resolve_command tp (lib\<lparr>li_shortcuts := ?shorts\<rparr>) (named_command a)
      = Inr (activity_command act undo t, [])) default_shortcuts"
    by (simp add: default_shortcuts_def named_command_def resolve_command_def lookup_name_def lib(3) default_names_def assign_def)
  ultimately show "case register_defaults act undo empty_library of
       Inl e \<Rightarrow> False
     | Inr lib \<Rightarrow>
         list_all (resolvable tp lib) prebuilt_workflows
         \<and> list_all (\<lambda>(a, t). resolve_command tp lib (named_command a) = Inr (activity_command act undo t, [])) default_shortcuts"
    by simp
qed

section \<open>What is recorded\<close>

text \<open>The steps in the order in which their first command was recorded.\<close>

fun first_seen :: "'a list \<Rightarrow> 'a list" where
  "first_seen [] = []"
| "first_seen (x # xs) = x # filter (\<lambda>y. y \<noteq> x) (first_seen xs)"

lemma first_seen_set [simp]: "set (first_seen xs) = set xs"
  by (induction xs) auto

lemma first_seen_snoc: "first_seen (xs @ [x]) = first_seen xs @ (if x \<in> set xs then [] else [x])"
  by (induction xs) auto

lemma distinct_first_seen: "distinct (first_seen xs)"
  by (induction xs) auto

definition record_commands :: "(string \<times> command_ref \<times> recorded_options option) list \<Rightarrow> recorder \<Rightarrow> recorder option" where
  "record_commands cs rec = fold (\<lambda>(i, r, opts) x. Option.bind x (record_command i r opts)) cs (Some rec)"

lemma add_command_ids:
  "list_all (\<lambda>st. ws_batch st = None) sts \<Longrightarrow>
   map ws_id (add_command i r opts sts) = map ws_id sts @ (if i \<in> set (map ws_id sts) then [] else [i])
   \<and> list_all (\<lambda>st. ws_batch st = None) (add_command i r opts sts)"
  by (induction sts) auto

definition recorded_commands :: "string \<Rightarrow> wf_step list \<Rightarrow> command_ref list" where
  "recorded_commands i sts = concat (map ws_commands (filter (\<lambda>st. ws_id st = i) sts))"

lemma add_command_commands:
  assumes "list_all (\<lambda>st. ws_batch st = None) sts" "distinct (map ws_id sts)"
  shows "recorded_commands j (add_command i r opts sts) = recorded_commands j sts @ (if i = j then [clone_ref r] else [])"
  using assms
proof (induction sts)
  case (Cons st sts)
  have "ws_id st \<notin> ws_id ` set sts" using Cons.prems(2) by simp
  then have "filter (\<lambda>x. ws_id x = ws_id st) sts = []" by (metis (mono_tags, lifting) filter_empty_conv image_eqI)
  then show ?case using Cons by (auto simp: recorded_commands_def)
qed (simp add: recorded_commands_def)


lemma recorded_invariant:
  "record_commands cs (start_recording name desc version tags rec)
   = Some (Some \<lparr>wf_name = name, wf_description = desc, wf_version = nullish version 1, wf_tags = tags, wf_defaults = None,
       wf_undo = None, wf_steps = fold (\<lambda>(i, r, opts). add_command i r opts) cs []\<rparr>)"
  by (induction cs rule: rev_induct)
    (auto simp: record_commands_def start_recording_def record_command_def)

lemma recorded_steps:
  "let sts = fold (\<lambda>(i, r, opts). add_command i r opts) cs [] in
     map ws_id sts = first_seen (map fst cs) \<and> list_all (\<lambda>st. ws_batch st = None) sts
     \<and> recorded_commands j sts = map (\<lambda>c. clone_ref (fst (snd c))) (filter (\<lambda>c. fst c = j) cs)"
proof (induction cs rule: rev_induct)
  case (snoc c cs)
  obtain i r opts where c: "c = (i, r, opts)" by (cases c)
  let ?sts = "fold (\<lambda>(i, r, opts). add_command i r opts) cs []"
  have IH: "map ws_id ?sts = first_seen (map fst cs)" "list_all (\<lambda>st. ws_batch st = None) ?sts"
    "recorded_commands j ?sts = map (\<lambda>c. clone_ref (fst (snd c))) (filter (\<lambda>c. fst c = j) cs)"
    using snoc by (simp_all add: Let_def)
  have dist: "distinct (map ws_id ?sts)" unfolding IH(1) by (rule distinct_first_seen)
  have ids: "set (map ws_id ?sts) = fst ` set cs" unfolding IH(1) by simp
  show ?case
    using add_command_ids [OF IH(2), of i r opts] add_command_commands [OF IH(2) dist, of j i r opts] IH ids
    by (simp add: c Let_def first_seen_snoc)
qed (simp add: recorded_commands_def)

lemma clone_undef: "clone_value v = VUndef \<longleftrightarrow> v = VUndef"
  by (cases v) auto

lemma clone_value_again: "clone_value (clone_value v) = clone_value v"
proof (induction v rule: clone_value.induct)
  case (2 fs)
  have "map (\<lambda>(k, v). (k, clone_value v)) (filter (\<lambda>(k, v). v \<noteq> VUndef)
        (map (\<lambda>(k, v). (k, clone_value v)) (filter (\<lambda>(k, v). v \<noteq> VUndef) gs)))
      = map (\<lambda>(k, v). (k, clone_value v)) (filter (\<lambda>(k, v). v \<noteq> VUndef) gs)" if "set gs \<subseteq> set fs" for gs
    using that 2 by (induction gs) (auto simp: clone_undef)
  then show ?case by simp
qed (auto simp: clone_undef)

lemma clone_fields_again: "clone_fields (clone_fields fs) = clone_fields fs"
  using clone_value_again [of "VObj fs"] by (simp add: clone_fields_def)

lemma clone_ref_again: "clone_ref (clone_ref r) = clone_ref r"
proof (induction r)
  case (CommandRef c ps rt k u)
  then show ?case by (cases ps; cases k; cases u) (simp_all add: clone_value_again clone_fields_again)
qed

lemma recorded_clone: "recorded_commands j (map clone_step sts) = map clone_ref (recorded_commands j sts)"
  by (induction sts) (simp_all add: recorded_commands_def clone_step_def)

lemma recorded_nonempty:
  assumes "list_all (\<lambda>st. ws_commands st \<noteq> []) sts"
  shows "list_all (\<lambda>st. ws_commands st \<noteq> []) (add_command i r opts sts)"
  using assms by (induction sts) auto

text \<open>
  What the recorder makes of a series of commands: one step for each step id, in the order in which the
  ids first appeared, with all the commands recorded for it, in their order. Such a workflow can be
  registered when it has a name and anything was recorded.
\<close>

theorem recording_groups_commands:
  "case record_commands cs (start_recording name desc version tags rec) of
     None \<Rightarrow> False
   | Some rec' \<Rightarrow>
       (case stop_recording rec' of
          None \<Rightarrow> False
        | Some (w, rest) \<Rightarrow>
            rest = None \<and> wf_name w = name \<and> map ws_id (wf_steps w) = first_seen (map fst cs)
            \<and> recorded_commands i (wf_steps w) = map (\<lambda>c. clone_ref (fst (snd c))) (filter (\<lambda>c. fst c = i) cs)
            \<and> (workflow_ok w \<longleftrightarrow> name \<noteq> [] \<and> cs \<noteq> []))"
proof -
  let ?sts = "fold (\<lambda>(i, r, opts). add_command i r opts) cs []"
  have sts: "map ws_id ?sts = first_seen (map fst cs)"
    "recorded_commands i ?sts = map (\<lambda>c. clone_ref (fst (snd c))) (filter (\<lambda>c. fst c = i) cs)"
    using recorded_steps [of cs i] by (simp_all add: Let_def)
  have ids: "map ws_id (map clone_step ?sts) = map ws_id ?sts" by (simp add: clone_step_def o_def)
  have cloned: "recorded_commands i (map clone_step ?sts) = recorded_commands i ?sts"
    unfolding recorded_clone sts(2) by (simp add: clone_ref_again split_beta)
  have "list_all (\<lambda>st. ws_commands st \<noteq> []) ?sts"
    by (induction cs rule: rev_induct) (auto intro: recorded_nonempty)
  then have full: "list_all (\<lambda>st. ws_commands st \<noteq> []) (map clone_step ?sts)"
    by (simp add: list_all_iff clone_step_def)
  have empty: "map clone_step ?sts = [] \<longleftrightarrow> cs = []"
    using arg_cong [OF sts(1), of set] by (cases cs) auto
  have dist: "distinct (map ws_id (map clone_step ?sts))" unfolding ids sts(1) by (rule distinct_first_seen)
  show ?thesis
    unfolding recorded_invariant stop_recording_def
    using ids sts cloned full empty dist by (simp add: clone_workflow_def workflow_ok_def del: map_map)
qed

end
