(* ===== verification/Http_Guard.thy ===== *)
theory Http_Guard
  imports Prelude
begin

text \<open>
  What every HTTP request to the dashboard passes before a route sees it: \<open>dashboard/server/middleware\<close>
  (\<open>auth.ts\<close>, \<open>rate-limit.ts\<close>, \<open>action-guard.ts\<close>, \<open>cors.ts\<close>) in the order of
  \<open>dashboard/server/server.ts\<close>, and the login route. The escapes of a path, the decoding of a
  cookie, and the path of a request target that does not begin with a single slash are parameters.
  Messages for people are left out; the events of the access log are values.
\<close>

section \<open>Configuration\<close>

record guard_config =
  gc_token :: string
  gc_cookie :: string
  gc_lan_bypass :: bool
  gc_trust_proxy :: bool
  gc_proxies :: "string list"
  gc_actions :: bool
  gc_actions_local :: bool
  gc_reauth :: bool

definition env_on :: "string option \<Rightarrow> bool" where
  "env_on v \<longleftrightarrow> to_lower (nullish v ''false'') = ''true''"

definition read_proxies :: "string option \<Rightarrow> string list" where
  "read_proxies v =
     filter (\<lambda>ip. ip \<noteq> []) (map js_trim (split_on (CHR '','') (nullish v ''127.0.0.1,::1,::ffff:127.0.0.1'')))"

definition read_guard_config :: "(string \<Rightarrow> string option) \<Rightarrow> string \<Rightarrow> guard_config" where
  "read_guard_config env token =
     \<lparr>gc_token = token, gc_cookie = nullish (env ''DASHBOARD_AUTH_COOKIE'') ''openclaw_dashboard_token'',
      gc_lan_bypass = env_on (env ''DASHBOARD_ALLOW_LAN_BYPASS''), gc_trust_proxy = env_on (env ''DASHBOARD_TRUST_PROXY''),
      gc_proxies = read_proxies (env ''DASHBOARD_TRUSTED_PROXY_IPS''), gc_actions = env_on (env ''DASHBOARD_ENABLE_ACTIONS''),
      gc_actions_local = (to_lower (nullish (env ''DASHBOARD_ACTIONS_LOCALHOST_ONLY'') ''true'') \<noteq> ''false''),
      gc_reauth = env_on (env ''DASHBOARD_ACTION_REAUTH'')\<rparr>"

text \<open>The token of the environment, else the stored one, else a new one, which is stored.\<close>

definition ensure_token :: "string option \<Rightarrow> string option \<Rightarrow> string \<Rightarrow> string \<times> string option" where
  "ensure_token from_env stored fresh =
     (if truthy_str from_env then (str_or_empty from_env, stored)
      else (case stored of Some t \<Rightarrow> (js_trim t, stored) | None \<Rightarrow> (fresh, Some fresh)))"

section \<open>Requests\<close>

record http_request =
  rq_method :: string
  rq_url :: "string option"
  rq_peer :: "string option"
  rq_authorization :: "string option"
  rq_cookie :: "string option"
  rq_forwarded :: "string option"
  rq_action_token :: "string option"
  rq_origin :: "string option"

definition starts_with :: "string \<Rightarrow> string \<Rightarrow> bool" where
  "starts_with s p \<longleftrightarrow> take (length p) s = p"

definition url_starts :: "http_request \<Rightarrow> string \<Rightarrow> bool" where
  "url_starts rq p = (case rq_url rq of None \<Rightarrow> False | Some u \<Rightarrow> starts_with u p)"

text \<open>\<open>new URL(target, 'http://localhost').pathname\<close>.\<close>

record url_parser =
  up_escape :: "char \<Rightarrow> string"
  up_other :: "string \<Rightarrow> string option"

definition path_char :: "url_parser \<Rightarrow> char \<Rightarrow> string" where
  "path_char up c =
     (if (of_char c :: nat) < 0x20 \<or> 0x7E < (of_char c :: nat) \<or> c \<in> set ('' <>?^`{}#'' @ [CHR 0x22]) then up_escape up c else [c])"

definition path_slash :: "char \<Rightarrow> bool" where
  "path_slash c \<longleftrightarrow> c = CHR ''/'' \<or> c = CHR 0x5C"

fun path_segments :: "string \<Rightarrow> string list" where
  "path_segments [] = [[]]"
| "path_segments (c # s) =
     (if path_slash c then [] # path_segments s
      else (case path_segments s of [] \<Rightarrow> [[c]] | w # ws \<Rightarrow> (c # w) # ws))"

definition single_dot :: "string \<Rightarrow> bool" where
  "single_dot s \<longleftrightarrow> to_lower s \<in> {''.'', ''%2e''}"

definition double_dot :: "string \<Rightarrow> bool" where
  "double_dot s \<longleftrightarrow> to_lower s \<in> {''..'', ''.%2e'', ''%2e.'', ''%2e%2e''}"

fun walk_segments :: "(char \<Rightarrow> string) \<Rightarrow> string list \<Rightarrow> string list \<Rightarrow> string list" where
  "walk_segments enc [] st = st"
| "walk_segments enc (s # ss) st =
     (if double_dot s then walk_segments enc ss ((if ss = [] then [[]] else []) @ tl st)
      else if single_dot s then walk_segments enc ss ((if ss = [] then [[]] else []) @ st)
      else walk_segments enc ss (concat (map enc s) # st))"

definition resolve_path :: "(char \<Rightarrow> string) \<Rightarrow> string \<Rightarrow> string" where
  "resolve_path enc s = concat (map (\<lambda>w. CHR ''/'' # w) (rev (walk_segments enc (path_segments s) [])))"

definition url_pathname :: "url_parser \<Rightarrow> string \<Rightarrow> string option" where
  "url_pathname up s =
     (case s of
        [] \<Rightarrow> up_other up s
      | c # r \<Rightarrow>
          if path_slash c \<and> (r = [] \<or> \<not> path_slash (hd r)) then
            Some (resolve_path (path_char up) (takeWhile (\<lambda>x. x \<noteq> CHR ''?'' \<and> x \<noteq> CHR ''#'') r))
          else up_other up s)"

section \<open>Addresses\<close>

definition normalize_ip :: "string \<Rightarrow> string" where
  "normalize_ip ip = (if starts_with ip ''::ffff:'' then drop 7 ip else ip)"

text \<open>\<open>Number.parseInt(s, 10)\<close>.\<close>

definition parse_int10 :: "string \<Rightarrow> int option" where
  "parse_int10 s =
     (let t = dropWhile js_space s;
          (neg, r) = (case t of [] \<Rightarrow> (False, []) | c # u \<Rightarrow> if c = CHR ''-'' then (True, u) else if c = CHR ''+'' then (False, u) else (False, t));
          ds = takeWhile is_digit r
      in if ds = [] then None else Some (if neg then - int (read_nat ds) else int (read_nat ds)))"

definition is_lan_ip :: "string \<Rightarrow> bool" where
  "is_lan_ip ip \<longleftrightarrow>
     (let c = normalize_ip ip in
      c = ''::1''
      \<or> (case map parse_int10 (split_on (CHR ''.'') c) of
           [Some a, Some b, Some x, Some y] \<Rightarrow>
             list_all (\<lambda>n. 0 \<le> n \<and> n \<le> 255) [a, b, x, y]
             \<and> (a = 10 \<or> a = 127 \<or> (a = 192 \<and> b = 168) \<or> (a = 172 \<and> 16 \<le> b \<and> b \<le> 31))
         | _ \<Rightarrow> False))"

definition is_trusted_proxy :: "guard_config \<Rightarrow> string \<Rightarrow> bool" where
  "is_trusted_proxy cfg ip \<longleftrightarrow> ip \<in> set (gc_proxies cfg) \<or> normalize_ip ip \<in> set (gc_proxies cfg)"

text \<open>The address of a client; the two middlewares differ in the name \<open>d\<close> of an unknown peer.\<close>

definition client_ip :: "guard_config \<Rightarrow> string \<Rightarrow> http_request \<Rightarrow> string" where
  "client_ip cfg d rq =
     (let peer = nullish (rq_peer rq) d;
          first = js_trim (hd (split_on (CHR '','') (nullish (rq_forwarded rq) [])))
      in if gc_trust_proxy cfg \<and> is_trusted_proxy cfg peer \<and> first \<noteq> [] then first else peer)"

definition is_loopback_ip :: "string \<Rightarrow> bool" where
  "is_loopback_ip ip \<longleftrightarrow> normalize_ip ip = ''::1'' \<or> starts_with (normalize_ip ip) ''127.''"

section \<open>Authentication\<close>

datatype auth_event =
    LanBypass string
  | BruteForceSuspected string nat
  | AuthBlocked string
  | AuthFailure string bool
  | ActionBlocked string
  | ActionReauthFailed string bool
  | LoginFailure string bool
  | LoginSuccess string

record guard_state =
  gs_failures :: "(string, int list) jsmap"
  gs_blocked :: "(string, int) jsmap"
  gs_windows :: "(string, int list) jsmap"
  gs_log :: "auth_event list"

definition new_guard :: guard_state where
  "new_guard = \<lparr>gs_failures = [], gs_blocked = [], gs_windows = [], gs_log = []\<rparr>"

definition note_event :: "auth_event \<Rightarrow> guard_state \<Rightarrow> guard_state" where
  "note_event e st = st\<lparr>gs_log := gs_log st @ [e]\<rparr>"

definition failure_window :: int where "failure_window = 5 * 60 * 1000"
definition failure_limit :: nat where "failure_limit = 10"
definition block_time :: int where "block_time = 15 * 60 * 1000"

definition track_failure :: "int \<Rightarrow> string \<Rightarrow> guard_state \<Rightarrow> guard_state" where
  "track_failure now ip st =
     (if is_lan_ip ip then st
      else
        (let ts = filter (\<lambda>t. now - failure_window < t) (nullish (js_get (gs_failures st) ip) []) @ [now];
             st1 = st\<lparr>gs_failures := js_set ip ts (gs_failures st)\<rparr>
         in if failure_limit < length ts then
              note_event (BruteForceSuspected ip (length ts)) (st1\<lparr>gs_blocked := js_set ip (now + block_time) (gs_blocked st1)\<rparr>)
            else st1))"

definition check_blocked :: "int \<Rightarrow> string \<Rightarrow> guard_state \<Rightarrow> guard_state \<times> bool" where
  "check_blocked now ip st =
     (case js_get (gs_blocked st) ip of
        None \<Rightarrow> (st, False)
      | Some u \<Rightarrow>
          if u < now then (st\<lparr>gs_blocked := js_delete ip (gs_blocked st), gs_failures := js_delete ip (gs_failures st)\<rparr>, False)
          else (st, True))"

definition token_match :: "guard_config \<Rightarrow> string \<Rightarrow> bool" where
  "token_match cfg provided \<longleftrightarrow> provided \<noteq> [] \<and> provided = gc_token cfg"

definition parse_cookie :: "(string \<Rightarrow> string option) \<Rightarrow> string \<Rightarrow> (string, string) jsmap \<Rightarrow> (string, string) jsmap" where
  "parse_cookie decode p out =
     (if CHR ''='' \<notin> set p then out
      else
        (let k = js_trim (takeWhile (\<lambda>c. c \<noteq> CHR ''='') p); v = js_trim (tl (dropWhile (\<lambda>c. c \<noteq> CHR ''='') p)) in
         if k = [] then out else js_set k (nullish (decode v) v) out))"

definition parse_cookies :: "(string \<Rightarrow> string option) \<Rightarrow> string \<Rightarrow> (string, string) jsmap" where
  "parse_cookies decode header = (if header = [] then [] else fold (parse_cookie decode) (split_on (CHR '';'') header) [])"

definition auth_cookie :: "guard_config \<Rightarrow> (string \<Rightarrow> string option) \<Rightarrow> http_request \<Rightarrow> string option" where
  "auth_cookie cfg decode rq =
     (let v = js_get (parse_cookies decode (nullish (rq_cookie rq) [])) (gc_cookie cfg) in if truthy_str v then v else None)"

definition request_token :: "guard_config \<Rightarrow> (string \<Rightarrow> string option) \<Rightarrow> http_request \<Rightarrow> string option" where
  "request_token cfg decode rq =
     (let h = nullish (rq_authorization rq) [] in
      if starts_with h ''Bearer '' \<and> drop 7 h \<noteq> [] then Some (drop 7 h) else auth_cookie cfg decode rq)"

definition has_valid_token :: "guard_config \<Rightarrow> (string \<Rightarrow> string option) \<Rightarrow> http_request \<Rightarrow> bool" where
  "has_valid_token cfg decode rq = (case request_token cfg decode rq of None \<Rightarrow> False | Some t \<Rightarrow> token_match cfg t)"

definition is_authenticated :: "guard_config \<Rightarrow> (string \<Rightarrow> string option) \<Rightarrow> http_request \<Rightarrow> bool" where
  "is_authenticated cfg decode rq \<longleftrightarrow>
     (gc_lan_bypass cfg \<and> is_lan_ip (client_ip cfg ''unknown'' rq)) \<or> has_valid_token cfg decode rq"

text \<open>The requests that need no token: those of other methods and paths, and three endpoints.\<close>

definition public_endpoints :: "string list" where
  "public_endpoints = [''/api/login'', ''/api/logout'', ''/api/health'']"

definition needs_token :: "http_request \<Rightarrow> bool" where
  "needs_token rq \<longleftrightarrow>
     rq_method rq \<noteq> ''OPTIONS'' \<and> url_starts rq ''/api/'' \<and> (case rq_url rq of None \<Rightarrow> False | Some u \<Rightarrow> u \<notin> set public_endpoints)"

datatype verdict = Pass | Deny nat

definition has_credentials :: "guard_config \<Rightarrow> (string \<Rightarrow> string option) \<Rightarrow> http_request \<Rightarrow> bool" where
  "has_credentials cfg decode rq \<longleftrightarrow>
     js_trim (nullish (rq_authorization rq) []) \<noteq> [] \<or> auth_cookie cfg decode rq \<noteq> None"

definition authenticate ::
  "guard_config \<Rightarrow> (string \<Rightarrow> string option) \<Rightarrow> int \<Rightarrow> http_request \<Rightarrow> guard_state \<Rightarrow> guard_state \<times> verdict" where
  "authenticate cfg decode now rq st =
     (if \<not> needs_token rq then (st, Pass)
      else
        (let ip = client_ip cfg ''unknown'' rq in
         if gc_lan_bypass cfg \<and> is_lan_ip ip then (note_event (LanBypass ip) st, Pass)
         else
           (let (st1, blocked) = check_blocked now ip st in
            if blocked then (note_event (AuthBlocked ip) st1, Deny 429)
            else if has_valid_token cfg decode rq then (st1, Pass)
            else (note_event (AuthFailure ip (has_credentials cfg decode rq)) (track_failure now ip st1), Deny 401))))"

text \<open>The timer of the module.\<close>

definition sweep_auth :: "int \<Rightarrow> guard_state \<Rightarrow> guard_state" where
  "sweep_auth now st =
     st\<lparr>gs_failures := filter (\<lambda>(ip, ts). ts \<noteq> []) (map (\<lambda>(ip, ts). (ip, filter (\<lambda>t. now - failure_window < t) ts)) (gs_failures st)),
        gs_blocked := filter (\<lambda>(ip, u). now \<le> u) (gs_blocked st)\<rparr>"

section \<open>Rate limits\<close>

definition endpoint_limits :: "(string \<times> int) list" where
  "endpoint_limits =
     [(''/api/sessions'', 60), (''/api/ventureos-agents'', 30), (''/api/ventureos-kpis'', 30), (''/api/rpg/stats'', 20),
      (''/api/rpg/khala-network'', 20), (''/api/rpg/conversations'', 30), (''/api/costs'', 60), (''/api/usage'', 60),
      (''/api/system'', 60), (''/api/token-compaction'', 30), (''/api/self-improvement'', 20), (''/api/code-factory'', 20),
      (''/api/webmcp'', 30), (''/api/visual-explainer'', 30), (''/api/proposal-lifecycle'', 30), (''/api/living-files'', 30),
      (''/api/replay'', 10), (''/api/live'', 10), (''/api/conversation'', 30)]"

definition better_match :: "string \<Rightarrow> string \<times> int \<Rightarrow> (string \<times> int) option \<Rightarrow> (string \<times> int) option" where
  "better_match path e best =
     (if starts_with path (fst e) \<and> (case best of None \<Rightarrow> True | Some b \<Rightarrow> length (fst b) < length (fst e)) then Some e else best)"

definition matched_limit :: "string \<Rightarrow> (string \<times> int) option" where
  "matched_limit path = fold (better_match path) endpoint_limits None"

definition rate_window :: int where "rate_window = 60000"

record rate_answer =
  ra_allowed :: bool
  ra_remaining :: int
  ra_reset :: int

definition limiter_check :: "string \<Rightarrow> int \<Rightarrow> int \<Rightarrow> (string, int list) jsmap \<Rightarrow> (string, int list) jsmap \<times> rate_answer" where
  "limiter_check key limit now ws =
     (let ts = filter (\<lambda>t. now - rate_window < t) (nullish (js_get ws key) []) in
      if limit \<le> int (length ts) then
        (js_set key ts ws, \<lparr>ra_allowed = False, ra_remaining = 0, ra_reset = hd ts + rate_window - now\<rparr>)
      else
        (js_set key (ts @ [now]) ws,
         \<lparr>ra_allowed = True, ra_remaining = limit - int (length ts + 1), ra_reset = rate_window\<rparr>))"

text \<open>The key and the limit of a request, when it has one.\<close>

definition rate_key :: "url_parser \<Rightarrow> guard_config \<Rightarrow> http_request \<Rightarrow> (string \<times> int) option" where
  "rate_key up cfg rq =
     (if \<not> url_starts rq ''/api/'' then None
      else Option.bind (Option.bind (rq_url rq) (url_pathname up))
        (\<lambda>path. map_option (\<lambda>(p, limit). (client_ip cfg ''0.0.0.0'' rq @ '':'' @ p, limit)) (matched_limit path)))"

definition rate_limit :: "url_parser \<Rightarrow> guard_config \<Rightarrow> int \<Rightarrow> http_request \<Rightarrow> guard_state \<Rightarrow> guard_state \<times> verdict" where
  "rate_limit up cfg now rq st =
     (case rate_key up cfg rq of
        None \<Rightarrow> (st, Pass)
      | Some (key, limit) \<Rightarrow>
          (let (ws, a) = limiter_check key limit now (gs_windows st)
           in (st\<lparr>gs_windows := ws\<rparr>, if ra_allowed a then Pass else Deny 429)))"

definition sweep_limits :: "int \<Rightarrow> guard_state \<Rightarrow> guard_state" where
  "sweep_limits now st =
     st\<lparr>gs_windows := filter (\<lambda>(k, ts). ts \<noteq> []) (map (\<lambda>(k, ts). (k, filter (\<lambda>t. now - t < 120000) ts)) (gs_windows st))\<rparr>"

section \<open>Actions\<close>

definition authorize_action :: "guard_config \<Rightarrow> http_request \<Rightarrow> guard_state \<Rightarrow> guard_state \<times> verdict" where
  "authorize_action cfg rq st =
     (let peer = nullish (rq_peer rq) ''unknown''; ip = client_ip cfg ''unknown'' rq; token = js_trim (nullish (rq_action_token rq) []) in
      if \<not> url_starts rq ''/api/action/'' then (st, Pass)
      else if \<not> gc_actions cfg then (note_event (ActionBlocked ip) st, Deny 404)
      else if gc_actions_local cfg \<and> \<not> is_loopback_ip peer then (note_event (ActionBlocked ip) st, Deny 403)
      else if gc_reauth cfg \<and> \<not> token_match cfg token then (note_event (ActionReauthFailed ip (token \<noteq> [])) st, Deny 401)
      else (st, Pass))"

section \<open>The pipeline\<close>

definition allowed_origins :: "string list" where
  "allowed_origins =
     [''http://192.168.225.149:7001'', ''http://192.168.225.149:7000'', ''http://localhost:7001'', ''http://localhost:7000'',
      ''http://localhost:5173'']"

text \<open>The origin that a response names.\<close>

definition cors_origin :: "http_request \<Rightarrow> string option" where
  "cors_origin rq = (let origin = nullish (rq_origin rq) [] in if origin \<in> set allowed_origins then Some origin else None)"

datatype guard_answer = Preflight | Refused nat | Passed

definition after_verdict :: "verdict \<Rightarrow> guard_state \<Rightarrow> (guard_state \<Rightarrow> guard_state \<times> guard_answer) \<Rightarrow> guard_state \<times> guard_answer" where
  "after_verdict v st k = (case v of Deny n \<Rightarrow> (st, Refused n) | Pass \<Rightarrow> k st)"

definition guard_request ::
  "guard_config \<Rightarrow> url_parser \<Rightarrow> (string \<Rightarrow> string option) \<Rightarrow> int \<Rightarrow> http_request \<Rightarrow> guard_state \<Rightarrow> guard_state \<times> guard_answer" where
  "guard_request cfg up decode now rq st =
     (if rq_method rq = ''OPTIONS'' then (st, Preflight)
      else
        (let (st1, v1) = authenticate cfg decode now rq st in after_verdict v1 st1
           (\<lambda>st. let (st2, v2) = rate_limit up cfg now rq st in after_verdict v2 st2
              (\<lambda>st. let (st3, v3) = authorize_action cfg rq st in after_verdict v3 st3 (\<lambda>st. (st, Passed))))))"

text \<open>The route that checks a token and hands out the cookie: the status of its answer.\<close>

definition login :: "guard_config \<Rightarrow> http_request \<Rightarrow> string \<Rightarrow> guard_state \<Rightarrow> guard_state \<times> nat" where
  "login cfg rq body_token st =
     (let ip = client_ip cfg ''unknown'' rq; t = js_trim body_token in
      if t = [] \<or> t \<noteq> gc_token cfg then (note_event (LoginFailure ip (t \<noteq> [])) st, 401)
      else (note_event (LoginSuccess ip) st, 200))"

text \<open>Paths whose handlers look at the path of the URL only, and not at the request target as it was sent.\<close>

definition path_route :: "string \<Rightarrow> bool" where
  "path_route p \<longleftrightarrow>
     list_ex (starts_with p) [''/api/conversation'', ''/api/rpg'', ''/api/obsidian'', ''/api/tactical-map/'']
     \<or> p \<in> {''/api/search/unified'', ''/api/scheduler-jobs'', ''/api/replay/sessions''}"

section \<open>Runs\<close>

datatype guard_event = Arrives http_request | AuthSweep | LimitSweep

text \<open>Each event comes some milliseconds after the one before it; the trace has the answers.\<close>

fun guard_run ::
  "guard_config \<Rightarrow> url_parser \<Rightarrow> (string \<Rightarrow> string option) \<Rightarrow> int \<Rightarrow> (nat \<times> guard_event) list \<Rightarrow> guard_state
   \<Rightarrow> (int \<times> http_request \<times> guard_answer) list" where
  "guard_run cfg up decode t [] st = []"
| "guard_run cfg up decode t ((d, ev) # evs) st =
     (let now = t + int d in
      case ev of
        AuthSweep \<Rightarrow> guard_run cfg up decode now evs (sweep_auth now st)
      | LimitSweep \<Rightarrow> guard_run cfg up decode now evs (sweep_limits now st)
      | Arrives rq \<Rightarrow>
          (let (st', a) = guard_request cfg up decode now rq st in (now, rq, a) # guard_run cfg up decode now evs st'))"

end
