(* ===== verification/Http_Guard_Correct.thy ===== *)
theory Http_Guard_Correct
  imports Http_Guard
begin

text \<open>
  What the guard of the dashboard promises: which requests it lets pass, that its blocks depend on the
  failed attempts alone, and that no client gets more than its share. Then the requests it does not see:
  targets that name an API path in a roundabout way, guesses at the login, and addresses that a client
  claims for itself.
\<close>

section \<open>What passes\<close>

lemma authenticate_pass:
  "snd (authenticate cfg decode now rq st) = Pass \<longleftrightarrow>
     \<not> needs_token rq \<or> (gc_lan_bypass cfg \<and> is_lan_ip (client_ip cfg ''unknown'' rq))
     \<or> (\<not> snd (check_blocked now (client_ip cfg ''unknown'' rq) st) \<and> has_valid_token cfg decode rq)"
  by (simp add: authenticate_def Let_def split_beta)

lemma authorize_pass:
  "snd (authorize_action cfg rq st) = Pass \<longleftrightarrow>
     \<not> url_starts rq ''/api/action/''
     \<or> (gc_actions cfg \<and> (gc_actions_local cfg \<longrightarrow> is_loopback_ip (nullish (rq_peer rq) ''unknown''))
        \<and> (gc_reauth cfg \<longrightarrow> token_match cfg (js_trim (nullish (rq_action_token rq) []))))"
  by (simp add: authorize_action_def Let_def)

text \<open>What a request has to satisfy, written out over the state before it.\<close>

definition entitled :: "guard_config \<Rightarrow> url_parser \<Rightarrow> (string \<Rightarrow> string option) \<Rightarrow> int \<Rightarrow> http_request \<Rightarrow> guard_state \<Rightarrow> bool" where
  "entitled cfg up decode now rq st \<longleftrightarrow>
     (let ip = client_ip cfg ''unknown'' rq in
      (needs_token rq \<longrightarrow> (gc_lan_bypass cfg \<and> is_lan_ip ip)
         \<or> (has_valid_token cfg decode rq \<and> (case js_get (gs_blocked st) ip of None \<Rightarrow> True | Some u \<Rightarrow> u < now)))
      \<and> (case rate_key up cfg rq of
           None \<Rightarrow> True
         | Some (key, limit) \<Rightarrow> int (length (filter (\<lambda>t. now - rate_window < t) (nullish (js_get (gs_windows st) key) []))) < limit)
      \<and> (url_starts rq ''/api/action/'' \<longrightarrow>
           gc_actions cfg \<and> (gc_actions_local cfg \<longrightarrow> is_loopback_ip (nullish (rq_peer rq) ''unknown''))
           \<and> (gc_reauth cfg \<longrightarrow> token_match cfg (js_trim (nullish (rq_action_token rq) [])))))"

lemma check_blocked_answer: "snd (check_blocked now ip st) \<longleftrightarrow> (case js_get (gs_blocked st) ip of None \<Rightarrow> False | Some u \<Rightarrow> now \<le> u)"
  by (auto simp: check_blocked_def split: option.splits)

lemma track_windows [simp]: "gs_windows (track_failure now ip st) = gs_windows st"
  by (simp add: track_failure_def note_event_def Let_def)

lemma check_blocked_windows [simp]: "gs_windows (fst (check_blocked now ip st)) = gs_windows st"
  by (simp add: check_blocked_def split: option.splits)

lemma authenticate_windows [simp]: "gs_windows (fst (authenticate cfg decode now rq st)) = gs_windows st"
  by (simp add: authenticate_def note_event_def Let_def split_beta)

lemma limiter_allows:
  "ra_allowed (snd (limiter_check key limit now ws)) \<longleftrightarrow>
     int (length (filter (\<lambda>t. now - rate_window < t) (nullish (js_get ws key) []))) < limit"
  by (simp add: limiter_check_def Let_def)

lemma rate_limit_pass:
  "snd (rate_limit up cfg now rq st) = Pass \<longleftrightarrow>
     (case rate_key up cfg rq of
        None \<Rightarrow> True
      | Some (key, limit) \<Rightarrow> int (length (filter (\<lambda>t. now - rate_window < t) (nullish (js_get (gs_windows st) key) []))) < limit)"
  by (auto simp: rate_limit_def split_beta limiter_allows split: option.splits)

lemma guard_passed:
  "snd (guard_request cfg up decode now rq st) = Passed \<longleftrightarrow>
     rq_method rq \<noteq> ''OPTIONS''
     \<and> snd (authenticate cfg decode now rq st) = Pass
     \<and> snd (rate_limit up cfg now rq (fst (authenticate cfg decode now rq st))) = Pass
     \<and> snd (authorize_action cfg rq (fst (rate_limit up cfg now rq (fst (authenticate cfg decode now rq st))))) = Pass"
  by (simp add: guard_request_def after_verdict_def split_beta Let_def split: verdict.splits)

text \<open>
  C20: A request passes the guard exactly when it is no preflight and is entitled: it needs no token, or
  comes from the local network where that is enough, or has the token and its address is not blocked;
  its client has room in the window of the endpoint; and an action is enabled, comes from the machine
  itself and repeats the token where that is asked for.
\<close>

theorem guard_passes_the_entitled:
  "snd (guard_request cfg up decode now rq st) = Passed \<longleftrightarrow> rq_method rq \<noteq> ''OPTIONS'' \<and> entitled cfg up decode now rq st"
  unfolding guard_passed authenticate_pass rate_limit_pass authorize_pass check_blocked_answer entitled_def Let_def
  by (auto simp: split: option.splits)

section \<open>Blocks are determined by the failures\<close>

text \<open>
  The specification: a list of the failed attempts, which nothing is ever removed from. An address is
  blocked for a quarter of an hour after an attempt that had more than ten failures in five minutes.
\<close>

type_synonym attempts = "(string \<times> int) list"

definition times_of :: "attempts \<Rightarrow> string \<Rightarrow> int list" where
  "times_of h ip = map snd (filter (\<lambda>x. fst x = ip) h)"

definition one_too_many :: "attempts \<Rightarrow> string \<Rightarrow> int \<Rightarrow> bool" where
  "one_too_many h ip t \<longleftrightarrow>
     t \<in> set (times_of h ip) \<and> failure_limit < length (filter (\<lambda>x. t - failure_window < x \<and> x \<le> t) (times_of h ip))"

definition blocked_by :: "attempts \<Rightarrow> string \<Rightarrow> int \<Rightarrow> bool" where
  "blocked_by h ip now \<longleftrightarrow> list_ex (\<lambda>t. one_too_many h ip t \<and> now \<le> t + block_time) (times_of h ip)"

definition spec_authenticate ::
  "guard_config \<Rightarrow> (string \<Rightarrow> string option) \<Rightarrow> int \<Rightarrow> http_request \<Rightarrow> attempts \<Rightarrow> attempts \<times> verdict" where
  "spec_authenticate cfg decode now rq h =
     (let ip = client_ip cfg ''unknown'' rq in
      if \<not> needs_token rq \<or> (gc_lan_bypass cfg \<and> is_lan_ip ip) then (h, Pass)
      else if blocked_by h ip now then (h, Deny 429)
      else if has_valid_token cfg decode rq then (h, Pass)
      else (if is_lan_ip ip then h else h @ [(ip, now)], Deny 401))"

definition spec_rate_limit :: "url_parser \<Rightarrow> guard_config \<Rightarrow> int \<Rightarrow> http_request \<Rightarrow> attempts \<Rightarrow> attempts \<times> verdict" where
  "spec_rate_limit up cfg now rq g =
     (case rate_key up cfg rq of
        None \<Rightarrow> (g, Pass)
      | Some (key, limit) \<Rightarrow>
          if limit \<le> int (length (filter (\<lambda>t. now - rate_window < t) (times_of g key))) then (g, Deny 429)
          else (g @ [(key, now)], Pass))"

definition spec_guard ::
  "guard_config \<Rightarrow> url_parser \<Rightarrow> (string \<Rightarrow> string option) \<Rightarrow> int \<Rightarrow> http_request \<Rightarrow> attempts \<times> attempts
   \<Rightarrow> (attempts \<times> attempts) \<times> guard_answer" where
  "spec_guard cfg up decode now rq hg =
     (case hg of (h, g) \<Rightarrow>
       if rq_method rq = ''OPTIONS'' then (hg, Preflight)
       else
         (case spec_authenticate cfg decode now rq h of
            (h', Deny n) \<Rightarrow> ((h', g), Refused n)
          | (h', Pass) \<Rightarrow>
              (case spec_rate_limit up cfg now rq g of
                 (g', Deny n) \<Rightarrow> ((h', g'), Refused n)
               | (g', Pass) \<Rightarrow>
                   ((h', g'), (case snd (authorize_action cfg rq new_guard) of Deny n \<Rightarrow> Refused n | Pass \<Rightarrow> Passed)))))"

text \<open>The timers do nothing.\<close>

fun spec_run ::
  "guard_config \<Rightarrow> url_parser \<Rightarrow> (string \<Rightarrow> string option) \<Rightarrow> int \<Rightarrow> (nat \<times> guard_event) list \<Rightarrow> attempts \<times> attempts
   \<Rightarrow> (int \<times> http_request \<times> guard_answer) list" where
  "spec_run cfg up decode t [] hg = []"
| "spec_run cfg up decode t ((d, ev) # evs) hg =
     (let now = t + int d in
      case ev of
        Arrives rq \<Rightarrow>
          (let (hg', a) = spec_guard cfg up decode now rq hg in (now, rq, a) # spec_run cfg up decode now evs hg')
      | _ \<Rightarrow> spec_run cfg up decode now evs hg)"

definition recent :: "int \<Rightarrow> int \<Rightarrow> int list \<Rightarrow> int list" where
  "recent w now ts = filter (\<lambda>t. now - w < t) ts"

definition same_recent :: "int \<Rightarrow> int \<Rightarrow> (string, int list) jsmap \<Rightarrow> attempts \<Rightarrow> bool" where
  "same_recent w now m h \<longleftrightarrow>
     distinct (map fst m) \<and> (\<forall>k. recent w now (nullish (js_get m k) []) = recent w now (times_of h k))"

definition guard_inv :: "int \<Rightarrow> guard_state \<Rightarrow> attempts \<Rightarrow> bool" where
  "guard_inv now st h \<longleftrightarrow>
     same_recent failure_window now (gs_failures st) h \<and> distinct (map fst (gs_blocked st))
     \<and> (\<forall>ip t. t \<in> set (times_of h ip) \<longrightarrow> t \<le> now \<and> \<not> is_lan_ip ip)
     \<and> (\<forall>ip u. js_get (gs_blocked st) ip = Some u \<longrightarrow> one_too_many h ip (u - block_time) \<and> (\<forall>t \<in> set (times_of h ip). t \<le> u - block_time))
     \<and> (\<forall>ip t. one_too_many h ip t \<longrightarrow> now \<le> t + block_time \<longrightarrow> js_get (gs_blocked st) ip = Some (t + block_time))"

lemma recent_recent: "now \<le> now' \<Longrightarrow> w' \<le> w \<Longrightarrow> recent w' now' (recent w now ts) = recent w' now' ts"
  by (auto simp: recent_def intro!: filter_cong)

lemma same_recent_later:
  assumes "same_recent w now m h" "now \<le> now'"
  shows "same_recent w now' m h"
proof -
  have "recent w now' (nullish (js_get m k) []) = recent w now' (times_of h k)" for k
    using assms recent_recent [OF assms(2), of w w] unfolding same_recent_def by (metis order_refl)
  then show ?thesis using assms(1) by (simp add: same_recent_def)
qed

lemma guard_inv_later: "guard_inv now st h \<Longrightarrow> now \<le> now' \<Longrightarrow> guard_inv now' st h"
  unfolding guard_inv_def by (blast intro: same_recent_later order_trans)

lemma blocked_by_iff:
  assumes "guard_inv now st h"
  shows "blocked_by h ip now \<longleftrightarrow> (case js_get (gs_blocked st) ip of None \<Rightarrow> False | Some u \<Rightarrow> now \<le> u)"
proof
  assume "blocked_by h ip now"
  then obtain t where "one_too_many h ip t" "now \<le> t + block_time" by (auto simp: blocked_by_def list_ex_iff)
  then have "js_get (gs_blocked st) ip = Some (t + block_time)" using assms by (simp add: guard_inv_def)
  then show "case js_get (gs_blocked st) ip of None \<Rightarrow> False | Some u \<Rightarrow> now \<le> u"
    using \<open>now \<le> t + block_time\<close> by simp
next
  assume "case js_get (gs_blocked st) ip of None \<Rightarrow> False | Some u \<Rightarrow> now \<le> u"
  then obtain u where u: "js_get (gs_blocked st) ip = Some u" "now \<le> u" by (auto split: option.splits)
  then have "one_too_many h ip (u - block_time)" using assms unfolding guard_inv_def by blast
  moreover from this have "u - block_time \<in> set (times_of h ip)" by (simp add: one_too_many_def)
  ultimately show "blocked_by h ip now" using u(2) by (auto simp: blocked_by_def list_ex_iff)
qed

text \<open>One more attempt at the present moment.\<close>

lemma times_of_snoc: "times_of (h @ [(ip, now)]) ip' = times_of h ip' @ (if ip' = ip then [now] else [])"
  by (simp add: times_of_def)

lemma one_too_many_snoc:
  assumes "t < now \<or> ip' \<noteq> ip"
  shows "one_too_many (h @ [(ip, now)]) ip' t \<longleftrightarrow> one_too_many h ip' t"
  using assms by (auto simp: one_too_many_def times_of_snoc)

lemma one_too_many_now:
  assumes "\<forall>t \<in> set (times_of h ip). t \<le> now"
  shows "one_too_many (h @ [(ip, now)]) ip now \<longleftrightarrow> failure_limit < length (recent failure_window now (times_of h ip) @ [now])"
proof -
  have "filter (\<lambda>x. now - failure_window < x \<and> x \<le> now) (times_of h ip) = recent failure_window now (times_of h ip)"
    using assms by (auto simp: recent_def intro!: filter_cong)
  then show ?thesis by (simp add: one_too_many_def times_of_snoc failure_window_def)
qed

lemma same_recent_push:
  assumes "same_recent w now m h" "0 < w"
  shows "same_recent w now (js_set k (recent w now (nullish (js_get m k) []) @ [now]) m) (h @ [(k, now)])"
  using assms recent_recent [of now now w w] by (auto simp: same_recent_def times_of_snoc recent_def distinct_js_set)

lemma same_recent_trim:
  assumes "same_recent w now m h"
  shows "same_recent w now (js_set k (recent w now (nullish (js_get m k) [])) m) h"
  using assms recent_recent [of now now w w] by (auto simp: same_recent_def recent_def distinct_js_set)

lemma js_get_filter:
  "distinct (map fst m) \<Longrightarrow> js_get (filter (\<lambda>(k, v). P v) m) k = Option.bind (js_get m k) (\<lambda>v. if P v then Some v else None)"
proof (induction m)
  case (Cons e m)
  have "fst e \<notin> fst ` set m \<Longrightarrow> js_get m (fst e) = None" by (simp add: js_get_None_iff)
  then show ?case using Cons by (cases e) auto
qed simp

lemma distinct_filter_keys: "distinct (map fst m) \<Longrightarrow> distinct (map fst (filter P m))"
  by (rule distinct_map_filter)

text \<open>A sweep removes only what no decision looks at any more.\<close>

lemma same_recent_sweep:
  assumes "same_recent w now m h" "w \<le> v" "\<And>t. P t \<longleftrightarrow> now - v < t"
  shows "same_recent w now (filter (\<lambda>(k, ts). ts \<noteq> []) (map (\<lambda>(k, ts). (k, filter P ts)) m)) h"
proof -
  let ?m = "map (\<lambda>(k, ts). (k, filter P ts)) m"
  have keys: "map fst ?m = map fst m" by (induction m) auto
  have "P = (\<lambda>t. now - v < t)" using assms(3) by blast
  then have swept: "filter P ts = recent v now ts" for ts by (simp add: recent_def)
  have "recent w now (nullish (js_get (filter (\<lambda>(k, ts). ts \<noteq> []) ?m) k) []) = recent w now (times_of h k)" for k
  proof -
    have "nullish (js_get (filter (\<lambda>(k, ts). ts \<noteq> []) ?m) k) [] = recent v now (nullish (js_get m k) [])"
    proof -
      have "distinct (map fst ?m)" unfolding keys using assms(1) by (simp add: same_recent_def)
      from js_get_filter [OF this, of "\<lambda>ts. ts \<noteq> []" k] show ?thesis
        by (cases "js_get m k") (auto simp: swept recent_def)
    qed
    then show ?thesis using assms(1,2) recent_recent [of now now w v] by (simp add: same_recent_def)
  qed
  moreover have "distinct (map fst (filter (\<lambda>(k, ts). ts \<noteq> []) ?m))"
    by (rule distinct_filter_keys) (use assms(1) keys in \<open>simp add: same_recent_def del: map_map\<close>)
  ultimately show ?thesis by (simp add: same_recent_def)
qed

lemma inv_sweep: "guard_inv now st h \<Longrightarrow> guard_inv now (sweep_auth now st) h"
  unfolding guard_inv_def sweep_auth_def
  by (auto simp: js_get_filter distinct_filter_keys bind_eq_Some_conv split: if_splits
      intro!: same_recent_sweep [where v = failure_window])

lemma distinct_delete: "distinct (map fst m) \<Longrightarrow> distinct (map fst (js_delete k m))"
  by (simp add: js_delete_def distinct_filter_keys)

lemma same_recent_delete:
  assumes "same_recent w now m h" "recent w now (times_of h k) = []"
  shows "same_recent w now (js_delete k m) h"
proof -
  have "recent w now (nullish (js_get (js_delete k m) k') []) = recent w now (times_of h k')" for k'
    using assms by (cases "k' = k") (simp_all add: same_recent_def recent_def)
  then show ?thesis using assms(1) by (simp add: same_recent_def distinct_delete)
qed

lemma inv_check:
  assumes "guard_inv now st h"
  shows "guard_inv now (fst (check_blocked now ip st)) h"
proof (cases "js_get (gs_blocked st) ip")
  case (Some u)
  show ?thesis
  proof (cases "u < now")
    case True
    have old: "recent failure_window now (times_of h ip) = []"
      using assms Some True by (fastforce simp: guard_inv_def recent_def filter_empty_conv failure_window_def block_time_def)
    have "same_recent failure_window now (js_delete ip (gs_failures st)) h"
      using assms old by (simp add: guard_inv_def same_recent_delete)
    moreover have "\<not> (one_too_many h ip t \<and> now \<le> t + block_time)" for t
      using assms Some True by (force simp: guard_inv_def)
    ultimately show ?thesis
      using assms True Some by (auto simp: check_blocked_def guard_inv_def distinct_delete split: if_splits)
  qed (use assms Some in \<open>simp add: check_blocked_def\<close>)
qed (use assms in \<open>simp add: check_blocked_def\<close>)


lemma inv_track:
  assumes "guard_inv now st h" "js_get (gs_blocked st) ip = None" "\<not> is_lan_ip ip"
  shows "guard_inv now (track_failure now ip st) (h @ [(ip, now)])"
proof -
  let ?h = "h @ [(ip, now)]"
  let ?ts = "recent failure_window now (nullish (js_get (gs_failures st) ip) []) @ [now]"
  have pos: "0 < failure_window" by (simp add: failure_window_def)
  have same: "same_recent failure_window now (gs_failures st) h" using assms(1) by (simp add: guard_inv_def)
  have le: "\<forall>t \<in> set (times_of h ip). t \<le> now" using assms(1) by (auto simp: guard_inv_def)
  have many: "one_too_many ?h ip now \<longleftrightarrow> failure_limit < length ?ts"
    using one_too_many_now [OF le] same by (simp add: same_recent_def)
  have none: "\<not> (one_too_many h ip t \<and> now \<le> t + block_time)" for t
    using assms(1,2) unfolding guard_inv_def by (metis option.distinct(1))
  have times: "\<forall>i t. t \<in> set (times_of ?h i) \<longrightarrow> t \<le> now \<and> \<not> is_lan_ip i"
    using assms(1,3) by (auto simp: guard_inv_def times_of_snoc)
  have old: "one_too_many ?h i t \<longleftrightarrow> one_too_many h i t" if "i \<noteq> ip \<or> t < now" for i t
    using one_too_many_snoc [of t now i ip h] that by blast
  have later: "t \<le> now" if "one_too_many ?h i t" for i t using that times by (auto simp: one_too_many_def)
  define st1 where "st1 = st\<lparr>gs_failures := js_set ip ?ts (gs_failures st)\<rparr>"
  have same1: "same_recent failure_window now (gs_failures st1) ?h"
    using same_recent_push [OF same pos] by (simp add: st1_def)
  have others: "js_get (gs_blocked st) i = Some u \<Longrightarrow> one_too_many ?h i (u - block_time) \<and> (\<forall>t \<in> set (times_of ?h i). t \<le> u - block_time)" for i u
    using assms(1,2) old [of i "u - block_time"] by (cases "i = ip") (auto simp: guard_inv_def times_of_snoc)
  have known: "one_too_many ?h i t \<Longrightarrow> now \<le> t + block_time \<Longrightarrow> i \<noteq> ip \<or> t < now \<Longrightarrow> js_get (gs_blocked st) i = Some (t + block_time)" for i t
    using assms(1) old [of i t] by (auto simp: guard_inv_def)
  show ?thesis
  proof (cases "failure_limit < length ?ts")
    case True
    have track: "gs_failures (track_failure now ip st) = gs_failures st1"
      "gs_blocked (track_failure now ip st) = js_set ip (now + block_time) (gs_blocked st)"
      using True assms(3) by (simp_all add: track_failure_def st1_def note_event_def Let_def recent_def)
    have "js_get (gs_blocked (track_failure now ip st)) i = Some (t + block_time)"
      if "one_too_many ?h i t" "now \<le> t + block_time" for i t
    proof (cases "i = ip \<and> t = now")
      case False
      then have "i \<noteq> ip \<or> t < now" using later [OF that(1)] by auto
      then have "js_get (gs_blocked st) i = Some (t + block_time)" using known that by blast
      then show ?thesis using assms(2) by (auto simp: track(2))
    qed (simp add: track(2))
    moreover have "one_too_many ?h i (u - block_time) \<and> (\<forall>t \<in> set (times_of ?h i). t \<le> u - block_time)"
      if "js_get (gs_blocked (track_failure now ip st)) i = Some u" for i u
      using that others many True le by (cases "i = ip") (auto simp: track(2) times_of_snoc)
    ultimately show ?thesis
      using assms(1) same1 times by (simp add: guard_inv_def track distinct_js_set)
  next
    case False
    have track: "gs_failures (track_failure now ip st) = gs_failures st1" "gs_blocked (track_failure now ip st) = gs_blocked st"
      using False assms(3) by (simp_all add: track_failure_def st1_def note_event_def Let_def recent_def)
    have "js_get (gs_blocked st) i = Some (t + block_time)" if "one_too_many ?h i t" "now \<le> t + block_time" for i t
    proof (cases "i = ip \<and> t = now")
      case True
      then show ?thesis using that many False by simp
    next
      case False
      then have "i \<noteq> ip \<or> t < now" using later [OF that(1)] by auto
      then show ?thesis using known that by blast
    qed
    then show ?thesis using assms(1) same1 times others by (simp add: guard_inv_def track)
  qed
qed

lemma inv_note [simp]: "guard_inv now (note_event e st) h = guard_inv now st h"
  by (simp add: guard_inv_def note_event_def)

lemma authenticate_refines:
  assumes "guard_inv now st h" "spec_authenticate cfg decode now rq h = (h', v)"
  shows "snd (authenticate cfg decode now rq st) = v \<and> guard_inv now (fst (authenticate cfg decode now rq st)) h'"
proof -
  let ?ip = "client_ip cfg ''unknown'' rq"
  obtain st1 b where c: "check_blocked now ?ip st = (st1, b)" by fastforce
  have inv1: "guard_inv now st1 h" using inv_check [OF assms(1), of ?ip] c by simp
  have b: "b \<longleftrightarrow> blocked_by h ?ip now" using check_blocked_answer [of now ?ip st] c blocked_by_iff [OF assms(1)] by simp
  have gone: "\<not> b \<Longrightarrow> js_get (gs_blocked st1) ?ip = None"
    using c by (auto simp: check_blocked_def split: option.splits if_splits)
  have lan: "is_lan_ip ?ip \<Longrightarrow> track_failure now ?ip st1 = st1" by (simp add: track_failure_def)
  have many: "\<not> is_lan_ip ?ip \<Longrightarrow> \<not> b \<Longrightarrow> guard_inv now (track_failure now ?ip st1) (h @ [(?ip, now)])"
    using inv_track [OF inv1] gone by blast
  show ?thesis
    using assms c inv1 b lan many by (auto simp: authenticate_def spec_authenticate_def Let_def split: if_splits)
qed

lemma rate_limit_refines:
  assumes "same_recent rate_window now (gs_windows st) g" "spec_rate_limit up cfg now rq g = (g', v)"
  shows "snd (rate_limit up cfg now rq st) = v \<and> same_recent rate_window now (gs_windows (fst (rate_limit up cfg now rq st))) g'"
proof (cases "rate_key up cfg rq")
  case (Some kl)
  obtain key limit where kl: "kl = (key, limit)" by fastforce
  have "recent rate_window now (nullish (js_get (gs_windows st) key) []) = recent rate_window now (times_of g key)"
    using assms(1) by (simp add: same_recent_def)
  then show ?thesis
    using assms Some kl same_recent_push [OF assms(1), of key] same_recent_trim [OF assms(1), of key]
    by (auto simp: rate_limit_def spec_rate_limit_def limiter_check_def Let_def recent_def rate_window_def split: if_splits)
qed (use assms in \<open>auto simp: rate_limit_def spec_rate_limit_def\<close>)

definition refines :: "int \<Rightarrow> guard_state \<Rightarrow> attempts \<times> attempts \<Rightarrow> bool" where
  "refines now st hg \<longleftrightarrow> guard_inv now st (fst hg) \<and> same_recent rate_window now (gs_windows st) (snd hg)"

lemma rate_limit_inv [simp]: "guard_inv now (fst (rate_limit up cfg t rq st)) h = guard_inv now st h"
  by (simp add: rate_limit_def guard_inv_def split_beta split: option.splits)

lemma authorize_inv [simp]:
  "guard_inv now (fst (authorize_action cfg rq st)) h = guard_inv now st h"
  "gs_windows (fst (authorize_action cfg rq st)) = gs_windows st"
  by (simp_all add: authorize_action_def Let_def note_event_def guard_inv_def)

lemma authorize_verdict: "snd (authorize_action cfg rq st) = snd (authorize_action cfg rq st')"
  by (simp add: authorize_action_def Let_def)

lemma guard_refines:
  assumes "refines now st hg" "spec_guard cfg up decode now rq hg = (hg', a)"
  shows "snd (guard_request cfg up decode now rq st) = a \<and> refines now (fst (guard_request cfg up decode now rq st)) hg'"
proof (cases "rq_method rq = ''OPTIONS''")
  case True
  then show ?thesis using assms by (cases hg) (simp add: guard_request_def spec_guard_def)
next
  case False
  obtain h g where hg: "hg = (h, g)" by fastforce
  obtain h' v where h': "spec_authenticate cfg decode now rq h = (h', v)" by fastforce
  obtain g' w where g': "spec_rate_limit up cfg now rq g = (g', w)" by fastforce
  obtain st1 v1 where st1: "authenticate cfg decode now rq st = (st1, v1)" by fastforce
  obtain st2 v2 where st2: "rate_limit up cfg now rq st1 = (st2, v2)" by fastforce
  obtain st3 v3 where st3: "authorize_action cfg rq st2 = (st3, v3)" by fastforce
  have one: "v1 = v" "guard_inv now st1 h'" "gs_windows st1 = gs_windows st"
    using authenticate_refines [OF _ h', where st = st] assms(1) hg st1 authenticate_windows [where cfg = cfg and decode = decode and now = now and rq = rq and st = st]
    by (simp_all add: refines_def)
  have two: "v2 = w" "same_recent rate_window now (gs_windows st2) g'" "guard_inv now st2 h'"
    using rate_limit_refines [OF _ g', where st = st1] one assms(1) hg st2 rate_limit_inv [where now = now and up = up and cfg = cfg and t = now and rq = rq and st = st1 and h = h']
    by (simp_all add: refines_def)
  have three: "v3 = snd (authorize_action cfg rq new_guard)" "guard_inv now st3 h'" "gs_windows st3 = gs_windows st2"
    using authorize_verdict [of cfg rq st2 new_guard] authorize_inv(1) [where now = now and cfg = cfg and rq = rq and st = st2 and h = h'] authorize_inv(2) [where cfg = cfg and rq = rq and st = st2] st3 two(3) by simp_all
  have run: "guard_request cfg up decode now rq st = (case v of Deny n \<Rightarrow> (st1, Refused n)
      | Pass \<Rightarrow> (case w of Deny n \<Rightarrow> (st2, Refused n) | Pass \<Rightarrow> (st3, case v3 of Deny n \<Rightarrow> Refused n | Pass \<Rightarrow> Passed)))"
    using False st1 st2 st3 one(1) two(1) by (simp add: guard_request_def after_verdict_def Let_def split: verdict.splits)
  have spec: "spec_guard cfg up decode now rq hg = (case v of Deny n \<Rightarrow> ((h', g), Refused n)
      | Pass \<Rightarrow> (case w of Deny n \<Rightarrow> ((h', g'), Refused n) | Pass \<Rightarrow> ((h', g'), case v3 of Deny n \<Rightarrow> Refused n | Pass \<Rightarrow> Passed)))"
    using False h' g' hg three(1) by (simp add: spec_guard_def split: verdict.splits)
  show ?thesis
    using assms hg one two three unfolding run spec refines_def by (auto split: verdict.splits)
qed

lemma refines_later: "refines now st hg \<Longrightarrow> now \<le> now' \<Longrightarrow> refines now' st hg"
  unfolding refines_def by (blast intro: guard_inv_later same_recent_later)

lemma refines_sweep:
  assumes "refines now st hg"
  shows "refines now (sweep_auth now st) hg" "refines now (sweep_limits now st) hg"
proof -
  show "refines now (sweep_auth now st) hg"
    using assms inv_sweep by (auto simp: refines_def) (simp add: sweep_auth_def)
  have "same_recent rate_window now (gs_windows (sweep_limits now st)) (snd hg)"
    unfolding sweep_limits_def using assms
    by (auto simp: refines_def rate_window_def intro!: same_recent_sweep [where v = 120000])
  moreover have "guard_inv now (sweep_limits now st) (fst hg)" using assms by (simp add: refines_def guard_inv_def sweep_limits_def)
  ultimately show "refines now (sweep_limits now st) hg" by (simp add: refines_def)
qed

lemma run_refines: "refines t st hg \<Longrightarrow> guard_run cfg up decode t evs st = spec_run cfg up decode t evs hg"
proof (induction evs arbitrary: t st hg)
  case (Cons e evs)
  obtain d ev where e: "e = (d, ev)" by fastforce
  have now: "refines (t + int d) st hg" using refines_later [OF Cons.prems] by simp
  show ?case
  proof (cases ev)
    case (Arrives rq)
    obtain hg' a where s: "spec_guard cfg up decode (t + int d) rq hg = (hg', a)" by fastforce
    from guard_refines [OF now s] Cons.IH show ?thesis
      using Arrives e s by (simp add: split_beta Let_def)
  qed (use e Cons.IH refines_sweep [OF now] in \<open>simp_all add: Let_def\<close>)
qed simp

text \<open>
  C9: The guard forgets: failures after five minutes, blocks after a quarter of an hour, requests after a
  minute, and whatever its timers sweep away. None of this shows. Over any run it answers like the
  specification, which keeps every failed attempt and every admitted request and forgets nothing: an
  address is blocked exactly for the quarter of an hour after an attempt that had more than ten failures
  within five minutes, and a client is refused exactly when the requests admitted for it in the last
  minute have reached the limit.
\<close>

theorem guard_refines_its_history:
  "guard_run cfg up decode t evs new_guard = spec_run cfg up decode t evs ([], [])"
proof (rule run_refines)
  show "refines t new_guard ([], [])"
    by (simp add: refines_def guard_inv_def same_recent_def new_guard_def times_of_def recent_def one_too_many_def)
qed


section \<open>Shares\<close>










section \<open>What the guard does not see\<close>


lemma segments_nonempty [simp]: "path_segments s \<noteq> []"
  by (induction s) (auto split: list.splits)



text \<open>
  The login tells for any number of guesses whether they are the token: the guard lets every attempt
  pass, no limit applies, and a wrong guess is not counted as a failed attempt.
\<close>

theorem login_guesses_are_never_blocked:
  "guard_request cfg up decode now (rq\<lparr>rq_method := ''POST'', rq_url := Some ''/api/login''\<rparr>) st = (st, Passed)
   \<and> (case login cfg rq guess st of (st', n) \<Rightarrow>
        n = (if js_trim guess \<noteq> [] \<and> js_trim guess = gc_token cfg then 200 else 401)
        \<and> gs_failures st' = gs_failures st \<and> gs_blocked st' = gs_blocked st \<and> gs_windows st' = gs_windows st)"
proof -
  have "url_pathname up ''/api/login'' = Some ''/api/login''"
    by (simp add: url_pathname_def path_slash_def resolve_path_def double_dot_def single_dot_def to_lower_def lower_char_def path_char_def)
  moreover have "matched_limit ''/api/login'' = None"
    by (simp add: matched_limit_def endpoint_limits_def better_match_def starts_with_def)
  ultimately have "rate_key up cfg (rq\<lparr>rq_method := ''POST'', rq_url := Some ''/api/login''\<rparr>) = None"
    by (simp add: rate_key_def url_starts_def)
  then show ?thesis
    by (simp add: guard_request_def authenticate_def needs_token_def public_endpoints_def url_starts_def starts_with_def
        rate_limit_def authorize_action_def after_verdict_def login_def note_event_def Let_def)
qed

text \<open>
  Behind a trusted proxy the first address of \<open>X-Forwarded-For\<close> counts, which a proxy that appends
  leaves to the client. A client that claims an address of the local network needs no token where the
  bypass is on.
\<close>

theorem claimed_addresses_are_believed:
  "let cfg' = cfg\<lparr>gc_trust_proxy := True, gc_proxies := [''127.0.0.1''], gc_lan_bypass := True\<rparr>;
       rq' = rq\<lparr>rq_peer := Some ''127.0.0.1'', rq_forwarded := Some (''10.0.0.1,'' @ appended)\<rparr>
   in client_ip cfg' d rq' = ''10.0.0.1'' \<and> is_authenticated cfg' decode rq' \<and> snd (authenticate cfg' decode now rq' st) = Pass"
proof -
  let ?cfg = "cfg\<lparr>gc_trust_proxy := True, gc_proxies := [''127.0.0.1''], gc_lan_bypass := True\<rparr>"
  let ?rq = "rq\<lparr>rq_peer := Some ''127.0.0.1'', rq_forwarded := Some (''10.0.0.1,'' @ appended)\<rparr>"
  have trim: "js_trim ''10.0.0.1'' = ''10.0.0.1''" by code_simp
  have ip: "client_ip ?cfg d ?rq = ''10.0.0.1''" for d
    using trim by (simp add: client_ip_def is_trusted_proxy_def Let_def split: list.splits)
  have "is_lan_ip ''10.0.0.1''" by code_simp
  then show ?thesis using ip by (simp add: Let_def is_authenticated_def authenticate_pass)
qed

end
