(* ===== verification/Skill_Graph.thy ===== *)
theory Skill_Graph
  imports Prelude
begin

text \<open>
  The skill tree as a graph: \<open>detectCycles\<close>, \<open>findOrphanNodes\<close> and \<open>validateSkillTree\<close> of
  \<open>lib/progression-engine.ts\<close>, and what they promise. The search for cycles is a depth-first search with
  an explicit stack; a node may be on the stack several times, and the chain of parents is that of
  the last push. The texts of errors and warnings are values.
\<close>

section \<open>Nodes and edges\<close>

record skill_node =
  sn_id :: string
  sn_name :: string
  sn_description :: string
  sn_category :: string
  sn_cost :: int
  sn_tier :: int
  sn_prerequisites :: "string list"

record skill_edge =
  se_from :: string
  se_to :: string

section \<open>The search for cycles\<close>

text \<open>\<open>Set.add\<close>, in insertion order.\<close>

definition add_new :: "'a \<Rightarrow> 'a list \<Rightarrow> 'a list" where
  "add_new x xs = (if x \<in> set xs then xs else xs @ [x])"

definition add_adjacent :: "skill_edge \<Rightarrow> (string, string list) jsmap \<Rightarrow> (string, string list) jsmap" where
  "add_adjacent e adj = js_set (se_from e) (nullish (js_get adj (se_from e)) [] @ [se_to e]) adj"

definition adjacency :: "skill_edge list \<Rightarrow> (string, string list) jsmap" where
  "adjacency es = fold add_adjacent es []"

definition graph_nodes :: "skill_edge list \<Rightarrow> string list" where
  "graph_nodes es = fold (\<lambda>e ns. add_new (se_to e) (add_new (se_from e) ns)) es []"

text \<open>
  The neighbours of a node that has just turned gray: the first gray one closes a cycle, the white
  ones are pushed.
\<close>

fun push_neighbors ::
  "string list \<Rightarrow> string list \<Rightarrow> string \<Rightarrow> string list \<Rightarrow> string list \<Rightarrow> (string, string) jsmap
   \<Rightarrow> (string \<times> (string, string) jsmap) + (string list \<times> (string, string) jsmap)" where
  "push_neighbors gray white node [] st par = Inr (st, par)"
| "push_neighbors gray white node (n # ns) st par =
     (if n \<in> set gray then Inl (n, par)
      else if n \<in> set white then push_neighbors gray white node ns (n # st) (js_set n node par)
      else push_neighbors gray white node ns st par)"

text \<open>From a node back over its parents until the goal; the fuel bounds the number of parents.\<close>

fun walk_back :: "nat \<Rightarrow> (string, string) jsmap \<Rightarrow> string \<Rightarrow> string \<Rightarrow> string list" where
  "walk_back 0 par goal cur = []"
| "walk_back (Suc k) par goal cur =
     (if cur = goal then [] else (case js_get par cur of None \<Rightarrow> [] | Some p \<Rightarrow> p # walk_back k par goal p))"

text \<open>The inner loop. The head of the stack is its top; the answer is a cycle or what is left.\<close>

function dfs_loop ::
  "(string, string list) jsmap \<Rightarrow> nat \<Rightarrow> string list \<Rightarrow> string list \<Rightarrow> string list \<Rightarrow> (string, string) jsmap
   \<Rightarrow> string list + (string list \<times> string list \<times> (string, string) jsmap)" where
  "dfs_loop adj k [] white gray par = Inr (white, gray, par)"
| "dfs_loop adj k (node # st) white gray par =
     (if node \<in> set white then
        (case push_neighbors (gray @ [node]) (removeAll node white) node (nullish (js_get adj node) []) (node # st) par of
           Inl (n, par') \<Rightarrow> Inl (rev ([n, node] @ walk_back k par' n node))
         | Inr (st', par') \<Rightarrow> dfs_loop adj k st' (removeAll node white) (gray @ [node]) par')
      else dfs_loop adj k st white (removeAll node gray) par)"
  by pat_completeness auto

termination
  by (relation "measures [\<lambda>(adj, k, st, white, gray, par). length white, \<lambda>(adj, k, st, white, gray, par). length st]")
     (auto simp: length_removeAll_less)

fun search_from ::
  "(string, string list) jsmap \<Rightarrow> nat \<Rightarrow> string list \<Rightarrow> string list \<Rightarrow> string list \<Rightarrow> (string, string) jsmap \<Rightarrow> string list" where
  "search_from adj k [] white gray par = []"
| "search_from adj k (s # ss) white gray par =
     (if s \<notin> set white then search_from adj k ss white gray par
      else (case dfs_loop adj k [s] white gray par of
              Inl c \<Rightarrow> c
            | Inr (white', gray', par') \<Rightarrow> search_from adj k ss white' gray' par'))"

definition detect_cycles :: "skill_edge list \<Rightarrow> string list" where
  "detect_cycles es =
     (let ns = graph_nodes es in search_from (adjacency es) (length ns) ns ns [] [])"

section \<open>Validation\<close>

definition find_orphans :: "skill_node list \<Rightarrow> skill_edge list \<Rightarrow> string list" where
  "find_orphans ns es =
     map sn_id (filter (\<lambda>n. 1 < sn_tier n \<and> sn_id n \<notin> set (graph_nodes es) \<and> sn_prerequisites n = []) ns)"

datatype tree_error =
    DuplicateNodes
  | UnknownPrerequisite string string
  | UnknownEdgeNode string
  | CycleDetected "string list"
  | NonPositiveCost string int

datatype tree_warning = OrphanNodes "string list" | HighCost string int

record tree_validation =
  tv_valid :: bool
  tv_errors :: "tree_error list"
  tv_warnings :: "tree_warning list"

definition unknown_prerequisites :: "string list \<Rightarrow> skill_node list \<Rightarrow> tree_error list" where
  "unknown_prerequisites ids ns =
     concat (map (\<lambda>n. map (UnknownPrerequisite (sn_id n)) (filter (\<lambda>p. p \<notin> set ids) (sn_prerequisites n))) ns)"

definition unknown_edge_nodes :: "string list \<Rightarrow> skill_edge list \<Rightarrow> tree_error list" where
  "unknown_edge_nodes ids es =
     concat (map (\<lambda>e. (if se_from e \<in> set ids then [] else [UnknownEdgeNode (se_from e)])
                    @ (if se_to e \<in> set ids then [] else [UnknownEdgeNode (se_to e)])) es)"

definition validate_skill_tree :: "skill_node list \<Rightarrow> skill_edge list \<Rightarrow> tree_validation" where
  "validate_skill_tree ns es =
     (let ids = map sn_id ns; cycle = detect_cycles es; orphans = find_orphans ns es;
          errors = (if distinct ids then [] else [DuplicateNodes]) @ unknown_prerequisites ids ns @ unknown_edge_nodes ids es
            @ (if cycle \<noteq> [] then [CycleDetected cycle] else [])
            @ map (\<lambda>n. NonPositiveCost (sn_id n) (sn_cost n)) (filter (\<lambda>n. sn_cost n \<le> 0) ns);
          warnings = (if orphans \<noteq> [] then [OrphanNodes orphans] else [])
            @ map (\<lambda>n. HighCost (sn_id n) (sn_cost n)) (filter (\<lambda>n. 100000 < sn_cost n) ns)
      in \<lparr>tv_valid = (errors = []), tv_errors = errors, tv_warnings = warnings\<rparr>)"

section \<open>The graph of the edges\<close>

definition edge_rel :: "skill_edge list \<Rightarrow> (string \<times> string) set" where
  "edge_rel es = (\<lambda>e. (se_from e, se_to e)) ` set es"

lemma set_add_new [simp]: "set (add_new x xs) = insert x (set xs)"
  by (auto simp: add_new_def)

lemma distinct_add_new: "distinct xs \<Longrightarrow> distinct (add_new x xs)"
  by (simp add: add_new_def)

lemma adjacency_snoc: "adjacency (es @ [e]) = add_adjacent e (adjacency es)"
  by (simp add: adjacency_def)

lemma set_adjacent: "set (nullish (js_get (adjacency es) v) []) = edge_rel es `` {v}"
proof (induction es rule: rev_induct)
  case Nil then show ?case by (simp add: adjacency_def edge_rel_def)
next
  case (snoc e es)
  have "edge_rel (es @ [e]) `` {v} = edge_rel es `` {v} \<union> (if v = se_from e then {se_to e} else {})"
    by (auto simp: edge_rel_def)
  with snoc.IH show ?case by (auto simp: adjacency_snoc add_adjacent_def)
qed

lemma set_graph_nodes: "set (graph_nodes es) = Field (edge_rel es)"
proof (induction es rule: rev_induct)
  case Nil then show ?case by (simp add: graph_nodes_def edge_rel_def)
next
  case (snoc e es)
  have "Field (edge_rel (es @ [e])) = insert (se_from e) (insert (se_to e) (Field (edge_rel es)))"
    by (auto simp: edge_rel_def Field_def)
  with snoc.IH show ?case by (auto simp: graph_nodes_def)
qed

lemma distinct_graph_nodes: "distinct (graph_nodes es)"
  by (induction es rule: rev_induct) (auto simp: graph_nodes_def intro!: distinct_add_new)

section \<open>Pushing and walking\<close>

lemma push_neighbors_Inl:
  assumes "push_neighbors gray white node ns st par = Inl (n, par')"
  shows "n \<in> set ns \<and> n \<in> set gray \<and> (\<forall>y. y \<notin> set white \<longrightarrow> js_get par' y = js_get par y)"
  using assms by (induction ns arbitrary: st par) (auto split: if_splits)

lemma push_neighbors_Inr:
  assumes "push_neighbors gray white node ns st par = Inr (st', par')"
  shows "set ns \<inter> set gray = {}
    \<and> (\<exists>P. st' = P @ st \<and> set P = set ns \<inter> set white)
    \<and> (\<forall>y. js_get par' y = (if y \<in> set ns \<and> y \<in> set white then Some node else js_get par y))"
  using assms
proof (induction ns arbitrary: st par)
  case (Cons n ns)
  show ?case
  proof (cases "n \<in> set white")
    case True
    with Cons.prems have free: "n \<notin> set gray"
      and r: "push_neighbors gray white node ns (n # st) (js_set n node par) = Inr (st', par')" by (auto split: if_splits)
    from Cons.IH [OF r] obtain P where P: "st' = P @ n # st" "set P = set ns \<inter> set white" by auto
    then have "st' = (P @ [n]) @ st \<and> set (P @ [n]) = set (n # ns) \<inter> set white" using True by auto
    with Cons.IH [OF r] free True show ?thesis by (auto split: if_splits)
  next
    case False
    with Cons.prems have "n \<notin> set gray" "push_neighbors gray white node ns st par = Inr (st', par')" by (auto split: if_splits)
    with Cons.IH False show ?thesis by auto
  qed
qed simp

text \<open>A path of gray nodes, the top first: each has the next one as its parent and is its successor.\<close>

definition linked :: "(string \<times> string) set \<Rightarrow> (string, string) jsmap \<Rightarrow> string list \<Rightarrow> bool" where
  "linked E par gs \<longleftrightarrow> successively (\<lambda>g h. (h, g) \<in> E \<and> js_get par g = Some h) gs"

lemma linked_cong: "linked E par gs \<Longrightarrow> (\<And>g. g \<in> set gs \<Longrightarrow> js_get par' g = js_get par g) \<Longrightarrow> linked E par' gs"
  unfolding linked_def by (erule successively_mono) auto

lemma walk_back_linked:
  assumes "linked E par (g # gs)" "goal \<in> set (g # gs)" "length gs \<le> k"
  shows "successively (\<lambda>a b. (b, a) \<in> E) (g # walk_back k par goal g) \<and> last (g # walk_back k par goal g) = goal"
  using assms
proof (induction gs arbitrary: g k)
  case Nil then show ?case by (cases k) auto
next
  case (Cons h gs)
  show ?case
  proof (cases "g = goal")
    case True then show ?thesis by (cases k) auto
  next
    case False
    obtain k' where k: "k = Suc k'" using Cons.prems(3) by (cases k) auto
    have link: "(h, g) \<in> E" "js_get par g = Some h" "linked E par (h # gs)"
      using Cons.prems(1) by (auto simp: linked_def)
    from Cons.IH [OF link(3), of k'] Cons.prems(2,3) False k link show ?thesis by simp
  qed
qed

definition closed_walk :: "(string \<times> string) set \<Rightarrow> string list \<Rightarrow> bool" where
  "closed_walk E c \<longleftrightarrow> 2 \<le> length c \<and> hd c = last c \<and> successively (\<lambda>a b. (a, b) \<in> E) c"

lemma closed_walk_rev:
  assumes "(node, n) \<in> E" "successively (\<lambda>a b. (b, a) \<in> E) (node # zs)" "last (node # zs) = n"
  shows "closed_walk E (rev ([n, node] @ zs))"
proof -
  have "hd (rev ([n, node] @ zs)) = n" using assms(3) by (simp add: hd_append hd_rev split: if_splits)
  moreover have "successively (\<lambda>a b. (b, a) \<in> E) ([n, node] @ zs)" using assms(1,2) by simp
  then have "successively (\<lambda>a b. (a, b) \<in> E) (rev ([n, node] @ zs))" by (subst successively_rev)
  ultimately show ?thesis by (simp add: closed_walk_def)
qed

lemma closed_walk_cyclic: "closed_walk E c \<Longrightarrow> \<not> acyclic E"
proof -
  have path: "successively (\<lambda>a b. (a, b) \<in> E) (x # xs) \<Longrightarrow> xs \<noteq> [] \<Longrightarrow> (x, last xs) \<in> E\<^sup>+" for x xs
    by (induction xs arbitrary: x) (auto intro: trancl_into_trancl2)
  assume c: "closed_walk E c"
  then obtain x xs where "c = x # xs" "xs \<noteq> []" by (cases c rule: list.exhaust; cases "tl c") (auto simp: closed_walk_def)
  with c path [of x xs] show ?thesis by (auto simp: closed_walk_def acyclic_def)
qed

section \<open>The search is a depth-first search\<close>

text \<open>
  The stack is a path of gray nodes, each with the nodes above it that it pushed and that are still
  there. The frames are listed from the top.
\<close>

type_synonym frame = "string \<times> string list"

definition stack_of :: "frame list \<Rightarrow> string list" where
  "stack_of fs = concat (map (\<lambda>(g, P). P @ [g]) fs)"

text \<open>
  \<open>black\<close> are the finished nodes. A successor of a gray node is finished, still on the stack above it, or
  the next gray node; a white node on the stack has the gray node that pushed it last as its parent.
\<close>

fun frames_ok ::
  "(string \<times> string) set \<Rightarrow> string set \<Rightarrow> string set \<Rightarrow> (string, string) jsmap \<Rightarrow> string set \<Rightarrow> string set \<Rightarrow> frame list \<Rightarrow> bool" where
  "frames_ok E black white par seen nxt [] = True"
| "frames_ok E black white par seen nxt ((g, P) # fs) =
     (E `` {g} \<subseteq> set P \<union> black \<union> nxt \<and> set P \<subseteq> E `` {g} \<and> set P \<inter> insert g (fst ` set fs) = {}
      \<and> (\<forall>x \<in> set P. x \<in> white \<longrightarrow> x \<notin> seen \<longrightarrow> js_get par x = Some g)
      \<and> frames_ok E black white par (seen \<union> set P) {g} fs)"

lemma frames_ok_mono:
  assumes "frames_ok E black white par seen nxt fs"
    and "black \<subseteq> black'" "white' \<subseteq> white" "seen \<inter> white' \<subseteq> seen'" "nxt \<subseteq> nxt' \<union> black'"
    and "\<And>x. x \<in> white' \<Longrightarrow> x \<notin> seen' \<Longrightarrow> js_get par' x = js_get par x"
  shows "frames_ok E black' white' par' seen' nxt' fs"
  using assms
proof (induction E black white par seen nxt fs arbitrary: seen' nxt' rule: frames_ok.induct)
  case (2 E black white par seen nxt g P fs)
  have "frames_ok E black' white' par' (seen' \<union> set P) {g} fs"
    by (rule "2.IH") (use "2.prems" in auto)
  moreover have "E `` {g} \<subseteq> set P \<union> black' \<union> nxt'" using "2.prems" by auto
  ultimately show ?case using "2.prems" by (auto 0 3)
qed simp

definition closed_off :: "(string \<times> string) set \<Rightarrow> string set \<Rightarrow> bool" where
  "closed_off E B \<longleftrightarrow> E `` B \<subseteq> B \<and> (\<forall>v \<in> B. (v, v) \<notin> E\<^sup>+)"

lemma closed_off_stays: "E `` B \<subseteq> B \<Longrightarrow> v \<in> B \<Longrightarrow> (v, w) \<in> E\<^sup>* \<Longrightarrow> w \<in> B"
  by (rotate_tac 2, induction rule: rtrancl_induct) auto

lemma closed_off_insert:
  assumes "closed_off E B" "E `` {v} \<subseteq> B" "v \<notin> B"
  shows "closed_off E (insert v B)"
proof -
  have "(v, v) \<notin> E\<^sup>+"
  proof
    assume "(v, v) \<in> E\<^sup>+"
    then obtain w where "(v, w) \<in> E" "(w, v) \<in> E\<^sup>*" by (meson tranclD)
    then show False using closed_off_stays [of E B w v] assms by (auto simp: closed_off_def)
  qed
  then show ?thesis using assms by (auto simp: closed_off_def)
qed

text \<open>The invariant of the search; the nodes that are neither white nor gray are finished.\<close>

definition search_base ::
  "(string \<times> string) set \<Rightarrow> string set \<Rightarrow> frame list \<Rightarrow> string list \<Rightarrow> (string, string) jsmap \<Rightarrow> bool" where
  "search_base E V fs white par \<longleftrightarrow>
     (let gs = map fst fs in
      set white \<subseteq> V \<and> set gs \<subseteq> V \<and> set gs \<inter> set white = {} \<and> distinct gs \<and> linked E par gs
      \<and> closed_off E (V - set white - set gs))"

definition search_inv ::
  "(string \<times> string) set \<Rightarrow> string set \<Rightarrow> frame list \<Rightarrow> string list \<Rightarrow> (string, string) jsmap \<Rightarrow> bool" where
  "search_inv E V fs white par \<longleftrightarrow>
     search_base E V fs white par \<and> frames_ok E (V - set white - fst ` set fs) (set white) par {} {} fs"

lemma stack_of_simps [simp]: "stack_of [] = []" "stack_of ((g, P) # fs) = P @ g # stack_of fs"
  by (simp_all add: stack_of_def)

text \<open>A white node on top turns gray.\<close>

lemma search_inv_expand:
  assumes inv: "search_base E V fs white par" and node: "node \<in> set white" and V: "E `` {node} \<subseteq> V"
    and parent: "case fs of [] \<Rightarrow> True | (g, P) # _ \<Rightarrow> (g, node) \<in> E \<and> js_get par node = Some g"
    and free: "E `` {node} \<inter> (insert node (fst ` set fs)) = {}"
    and P: "set P = E `` {node} \<inter> set (removeAll node white)"
    and par': "\<And>y. js_get par' y = (if y \<in> set P then Some node else js_get par y)"
    and ABV: "frames_ok E (V - set white - fst ` set fs) (set (removeAll node white)) par {} {node} fs"
  shows "search_inv E V ((node, P) # fs) (removeAll node white) par'"
proof -
  let ?w = "removeAll node white" and ?gs = "map fst fs"
  have base: "set white \<subseteq> V" "set ?gs \<subseteq> V" "set ?gs \<inter> set white = {}" "distinct ?gs" "linked E par ?gs"
    and closed: "closed_off E (V - set white - set ?gs)"
    using inv by (simp_all add: search_base_def Let_def)
  have black: "V - set ?w - set (node # ?gs) = V - set white - set ?gs" using node by auto
  have same: "js_get par' y = js_get par y" if "y \<notin> set ?w" for y using par' [of y] P that by auto
  have links: "linked E par' (node # ?gs)"
  proof -
    have "linked E par' ?gs"
    proof -
      have "js_get par' g = js_get par g" if "g \<in> set ?gs" for g using same [of g] base(3) that by auto
      with base(5) show ?thesis by (rule linked_cong)
    qed
    moreover have "js_get par' node = js_get par node" by (rule same) simp
    ultimately show ?thesis using parent by (cases fs) (auto simp: linked_def)
  qed
  have rest: "frames_ok E (V - set white - fst ` set fs) (set ?w) par' (set P) {node} fs"
    by (rule frames_ok_mono [OF ABV]) (use par' in auto)
  have "E `` {node} \<subseteq> set P \<union> (V - set white - fst ` set fs)"
    using V free P by (auto simp: image_iff)
  then have "frames_ok E (V - set white - fst ` set fs) (set ?w) par' {} {} ((node, P) # fs)"
    using rest P free par' by (auto)
  then show ?thesis using base black closed links node
    by (auto simp: search_inv_def search_base_def Let_def)
qed

text \<open>Every turn of the loop keeps the invariant, and a cycle that it answers is one.\<close>

definition search_result ::
  "(string \<times> string) set \<Rightarrow> string set \<Rightarrow> string list \<Rightarrow> string list + (string list \<times> string list \<times> (string, string) jsmap) \<Rightarrow> bool" where
  "search_result E V white r =
     (case r of
        Inl c \<Rightarrow> closed_walk E c
      | Inr (white', gray', par') \<Rightarrow> set white' \<subseteq> set white \<and> gray' = [] \<and> search_base E V [] white' par')"

lemma search_result_mono: "set white' \<subseteq> set white \<Longrightarrow> search_result E V white' r \<Longrightarrow> search_result E V white r"
  by (auto simp: search_result_def split: sum.splits)

lemma removeAll_fresh: "x \<notin> set xs \<Longrightarrow> removeAll x xs = xs"
  by (induction xs) auto

locale skill_search =
  fixes E :: "(string \<times> string) set" and adj :: "(string, string list) jsmap" and all :: "string list"
  assumes adj: "set (nullish (js_get adj v) []) = E `` {v}"
    and field: "E \<subseteq> set all \<times> set all"
begin

lemma gray_path_fits: "search_base E (set all) fs white par \<Longrightarrow> length fs \<le> length all"
proof -
  assume "search_base E (set all) fs white par"
  then have "distinct (map fst fs)" "set (map fst fs) \<subseteq> set all" by (simp_all add: search_base_def Let_def)
  then have "length (map fst fs) \<le> card (set all)" by (metis card_mono distinct_card finite_set)
  also have "\<dots> \<le> length all" by (rule card_length)
  finally show ?thesis by simp
qed

text \<open>The step that turns a white node gray: it answers a cycle, or the frames grow.\<close>

lemma expand:
  assumes base: "search_base E (set all) fs white par" and node: "node \<in> set white"
    and parent: "case fs of [] \<Rightarrow> True | (g, P) # _ \<Rightarrow> (g, node) \<in> E \<and> js_get par node = Some g"
    and ABV: "frames_ok E (set all - set white - fst ` set fs) (set (removeAll node white)) par {} {node} fs"
    and push: "push_neighbors (rev (map fst fs) @ [node]) (removeAll node white) node (nullish (js_get adj node) []) (node # st) par = r"
  shows "case r of
      Inl (n, par') \<Rightarrow> closed_walk E (rev ([n, node] @ walk_back (length all) par' n node))
    | Inr (st', par') \<Rightarrow> (\<exists>P. st' = P @ node # st \<and> search_inv E (set all) ((node, P) # fs) (removeAll node white) par')"
proof (cases r)
  case (Inl np)
  obtain n par' where np: "np = (n, par')" by (cases np)
  from push_neighbors_Inl [OF push [unfolded Inl np]] have n: "(node, n) \<in> E" "n \<in> set (node # map fst fs)"
    and same: "\<And>y. y \<notin> set (removeAll node white) \<Longrightarrow> js_get par' y = js_get par y" by (auto simp: adj)
  have gray: "js_get par' g = js_get par g" if "g \<in> set (node # map fst fs)" for g
    using same [of g] base that by (auto simp: search_base_def Let_def)
  have "linked E par (node # map fst fs)" using base parent
    by (cases fs) (auto simp: search_base_def linked_def Let_def)
  then have "linked E par' (node # map fst fs)" using gray by (rule linked_cong)
  moreover have "length (map fst fs) \<le> length all" using gray_path_fits [OF base] by simp
  ultimately show ?thesis using walk_back_linked [OF _ n(2)] closed_walk_rev [OF n(1)] Inl np by simp
next
  case (Inr sp)
  obtain st' par' where sp: "sp = (st', par')" by (cases sp)
  from push_neighbors_Inr [OF push [unfolded Inr sp]] obtain P where P: "st' = P @ node # st"
    "set P = E `` {node} \<inter> set (removeAll node white)" and free: "E `` {node} \<inter> insert node (fst ` set fs) = {}"
    and par': "\<And>y. js_get par' y = (if y \<in> set P then Some node else js_get par y)" by (auto simp: adj)
  have "E `` {node} \<subseteq> set all" using field by auto
  from search_inv_expand [OF base node this parent free P(2) par' ABV] P(1) show ?thesis using Inr sp by auto
qed

lemma frames_drop:
  assumes "search_inv E (set all) ((g, x # P) # fs) white par" "x \<notin> set white"
  shows "search_inv E (set all) ((g, P) # fs) white par"
proof -
  have base: "search_base E (set all) ((g, P) # fs) white par" using assms(1) by (simp add: search_inv_def search_base_def)
  let ?black = "set all - set white - insert g (fst ` set fs)"
  have ok: "frames_ok E ?black (set white) par {} {} ((g, x # P) # fs)" using assms(1) by (simp add: search_inv_def)
  then have "x \<in> ?black" using assms(2) field by auto
  moreover have "frames_ok E ?black (set white) par (set P) {g} fs"
    by (rule frames_ok_mono [of _ _ _ _ "set (x # P)" "{g}"]) (use ok assms(2) in auto)
  ultimately show ?thesis using ok base by (auto simp: search_inv_def)
qed

lemma frames_finish:
  assumes "search_inv E (set all) ((g, []) # fs) white par"
  shows "search_inv E (set all) fs white par"
proof -
  let ?black = "set all - set white - insert g (fst ` set fs)"
  have ok: "E `` {g} \<subseteq> ?black" "frames_ok E ?black (set white) par {} {g} fs"
    and base: "g \<in> set all" "g \<notin> set white" "g \<notin> fst ` set fs" "closed_off E ?black"
    using assms by (auto simp: search_inv_def search_base_def Let_def)
  have black: "set all - set white - fst ` set fs = insert g ?black" using base by auto
  have "closed_off E (insert g ?black)" using closed_off_insert [OF base(4) ok(1)] by simp
  moreover have "frames_ok E (insert g ?black) (set white) par {} {} fs"
    by (rule frames_ok_mono [OF ok(2)]) auto
  moreover have "linked E par (map fst fs)" using assms
    by (cases fs) (auto simp: search_inv_def search_base_def linked_def Let_def)
  ultimately show ?thesis using assms black by (auto simp: search_inv_def search_base_def Let_def)
qed

lemma loop_keeps:
  assumes "search_inv E (set all) fs white par" "st = stack_of fs" "gray = rev (map fst fs)" "adj' = adj" "k = length all"
  shows "search_result E (set all) white (dfs_loop adj' k st white gray par)"
  using assms
proof (induction adj' k st white gray par arbitrary: fs rule: dfs_loop.induct)
  case (1 adj' k white gray par)
  then have "fs = []" by (cases fs) auto
  with 1 show ?case by (auto simp: search_result_def search_inv_def)
next
  case (2 adj' k node st white gray par)
  then obtain g P fs' where fs: "fs = (g, P) # fs'" by (cases fs) auto
  have base: "search_base E (set all) fs white par" using "2.prems"(1) by (simp add: search_inv_def)
  have g: "g \<notin> set white" "g \<notin> fst ` set fs'" using base by (auto simp: search_base_def Let_def fs)
  show ?case
  proof (cases P)
    case Nil
    with "2.prems"(2) fs have node: "node = g" "st = stack_of fs'" by simp_all
    have "removeAll node gray = rev (map fst fs')"
      using "2.prems"(3) g(2) fs node by (simp add: removeAll_fresh flip: set_map)
    moreover have "search_inv E (set all) fs' white par" using frames_finish "2.prems"(1) fs Nil by simp
    ultimately show ?thesis using "2.IH"(2) [of fs'] g node "2.prems"(4,5) by simp
  next
    case (Cons x P')
    with "2.prems"(2) fs have node: "x = node" "st = P' @ g # stack_of fs'" by simp_all
    let ?fs = "(g, P') # fs'"
    show ?thesis
    proof (cases "node \<in> set white")
      case False
      have inv: "search_inv E (set all) ?fs white par" using frames_drop "2.prems"(1) fs Cons node False by simp
      have "node \<notin> set gray" using "2.prems"(1,3) fs Cons node by (auto simp: search_inv_def)
      then show ?thesis using "2.IH"(2) [OF False inv] "2.prems"(3-5) fs node False by (simp add: removeAll_fresh)
    next
      case True
      have ok: "frames_ok E (set all - set white - insert g (fst ` set fs')) (set white) par {} {} ((g, node # P') # fs')"
        using "2.prems"(1) fs Cons node by (simp add: search_inv_def)
      have base': "search_base E (set all) ?fs white par" using base fs by (simp add: search_base_def)
      have parent: "(g, node) \<in> E" "js_get par node = Some g" using ok True by auto
      have "frames_ok E (set all - set white - insert g (fst ` set fs')) (set (removeAll node white)) par (set P') {g} fs'"
        by (rule frames_ok_mono [of _ _ _ _ "set (node # P')" "{g}"]) (use ok in auto)
      then have ABV: "frames_ok E (set all - set white - fst ` set ?fs) (set (removeAll node white)) par {} {node} ?fs"
        using ok by auto
      let ?r = "push_neighbors (gray @ [node]) (removeAll node white) node (nullish (js_get adj node) []) (node # st) par"
      from expand [OF base' True _ ABV, of st ?r] parent "2.prems"(3) fs
      have step: "case ?r of
          Inl (n, par') \<Rightarrow> closed_walk E (rev ([n, node] @ walk_back (length all) par' n node))
        | Inr (st', par') \<Rightarrow> (\<exists>P. st' = P @ node # st \<and> search_inv E (set all) ((node, P) # ?fs) (removeAll node white) par')"
        by simp
      show ?thesis
      proof (cases ?r)
        case (Inl np) with step True "2.prems"(4,5) show ?thesis by (cases np) (simp add: search_result_def)
      next
        case (Inr sp)
        obtain st' par' where sp: "sp = (st', par')" by (cases sp)
        with Inr step obtain Q where Q: "st' = Q @ node # st"
          "search_inv E (set all) ((node, Q) # ?fs) (removeAll node white) par'" by auto
        have "search_result E (set all) (removeAll node white)
            (dfs_loop adj (length all) st' (removeAll node white) (gray @ [node]) par')"
          using "2.IH"(1) [OF True Inr [unfolded sp, folded "2.prems"(4)] refl Q(2)] Q(1) node "2.prems"(3-5) fs by simp
        then have "search_result E (set all) white
            (dfs_loop adj (length all) st' (removeAll node white) (gray @ [node]) par')"
          by (rule search_result_mono [rotated]) auto
        then show ?thesis using Inr sp True "2.prems"(4,5) by simp
      qed
    qed
  qed
qed

text \<open>A search from one white node.\<close>

lemma loop_from:
  assumes base: "search_base E (set all) [] white par" and s: "s \<in> set white"
  shows "search_result E (set all) (removeAll s white) (dfs_loop adj (length all) [s] white [] par)"
proof -
  let ?r = "push_neighbors ([] @ [s]) (removeAll s white) s (nullish (js_get adj s) []) [s] par"
  from expand [OF base s, of "[]" ?r]
  have step: "case ?r of
      Inl (n, par') \<Rightarrow> closed_walk E (rev ([n, s] @ walk_back (length all) par' n s))
    | Inr (st', par') \<Rightarrow> (\<exists>P. st' = P @ [s] \<and> search_inv E (set all) [(s, P)] (removeAll s white) par')" by simp
  show ?thesis
  proof (cases ?r)
    case (Inl np) with step s show ?thesis by (cases np) (simp add: search_result_def)
  next
    case (Inr sp)
    obtain st' par' where sp: "sp = (st', par')" by (cases sp)
    with Inr step obtain P where "st' = P @ [s]" "search_inv E (set all) [(s, P)] (removeAll s white) par'" by auto
    then have "search_result E (set all) (removeAll s white) (dfs_loop adj (length all) st' (removeAll s white) [s] par')"
      by (intro loop_keeps [of "[(s, P)]"]) simp_all
    with Inr sp s show ?thesis by simp
  qed
qed

lemma search_from_decides:
  assumes "search_base E (set all) [] white par" "set white \<subseteq> set ss"
  shows "case search_from adj (length all) ss white [] par of [] \<Rightarrow> acyclic E | c \<Rightarrow> closed_walk E c"
  using assms
proof (induction ss arbitrary: white par)
  case Nil
  then have "closed_off E (set all)" by (simp add: search_base_def)
  moreover have "v \<in> set all" if "(v, v) \<in> E\<^sup>+" for v using that field by (metis mem_Sigma_iff subsetD tranclD)
  ultimately show ?case by (auto simp: closed_off_def acyclic_def)
next
  case (Cons s ss)
  show ?case
  proof (cases "s \<in> set white")
    case False
    with Cons show ?thesis by auto
  next
    case True
    note r = loop_from [OF Cons.prems(1) True]
    show ?thesis
    proof (cases "dfs_loop adj (length all) [s] white [] par")
      case (Inl c)
      with r have c: "closed_walk E c" by (simp add: search_result_def)
      then have "c \<noteq> []" by (auto simp: closed_walk_def)
      with c show ?thesis using Inl True by (auto split: list.splits)
    next
      case (Inr w)
      obtain white' gray' par' where w: "w = (white', gray', par')" by (cases w)
      with r Inr have "gray' = []" "search_base E (set all) [] white' par'" "set white' \<subseteq> set ss"
        using Cons.prems(2) by (auto simp: search_result_def)
      with Cons.IH [of white' par'] Inr w True show ?thesis by simp
    qed
  qed
qed

end

interpretation skill_tree: skill_search "edge_rel es" "adjacency es" "graph_nodes es" for es
proof
  show "set (nullish (js_get (adjacency es) v) []) = edge_rel es `` {v}" for v by (rule set_adjacent)
  show "edge_rel es \<subseteq> set (graph_nodes es) \<times> set (graph_nodes es)"
    unfolding set_graph_nodes by (auto simp: Field_def)
qed

lemma detect_cycles_decides: "case detect_cycles es of [] \<Rightarrow> acyclic (edge_rel es) | c \<Rightarrow> closed_walk (edge_rel es) c"
proof -
  have "search_base (edge_rel es) (set (graph_nodes es)) [] (graph_nodes es) []"
    by (simp add: search_base_def linked_def closed_off_def)
  from skill_tree.search_from_decides [OF this subset_refl] show ?thesis
    by (simp add: detect_cycles_def Let_def)
qed

lemma detect_cycles_Nil: "detect_cycles es = [] \<longleftrightarrow> acyclic (edge_rel es)"
  using detect_cycles_decides [of es] closed_walk_cyclic by (auto split: list.splits)

text \<open>
  C11: The search for cycles is right both ways: it answers nothing exactly when the edges have no cycle, and
  otherwise a closed walk along the edges, from a node back to it, whatever the order of the edges and
  however often they are listed.
\<close>

theorem detected_cycles_are_real:
  "(detect_cycles es = [] \<longleftrightarrow> acyclic (edge_rel es))
   \<and> (closed_walk (edge_rel es) (detect_cycles es) \<longleftrightarrow> \<not> acyclic (edge_rel es))"
  using detect_cycles_decides [of es] closed_walk_cyclic [of "edge_rel es" "detect_cycles es"]
  by (cases "detect_cycles es") (auto simp: closed_walk_def)

section \<open>What validation guarantees\<close>

definition well_formed_tree :: "skill_node list \<Rightarrow> skill_edge list \<Rightarrow> bool" where
  "well_formed_tree ns es \<longleftrightarrow>
     distinct (map sn_id ns) \<and> (\<forall>n \<in> set ns. set (sn_prerequisites n) \<subseteq> sn_id ` set ns \<and> 0 < sn_cost n)
     \<and> (\<forall>e \<in> set es. se_from e \<in> sn_id ` set ns \<and> se_to e \<in> sn_id ` set ns) \<and> acyclic (edge_rel es)"

lemma unknown_prerequisites_Nil: "unknown_prerequisites ids ns = [] \<longleftrightarrow> (\<forall>n \<in> set ns. set (sn_prerequisites n) \<subseteq> set ids)"
  by (auto simp: unknown_prerequisites_def filter_empty_conv)

lemma unknown_edge_nodes_Nil: "unknown_edge_nodes ids es = [] \<longleftrightarrow> (\<forall>e \<in> set es. se_from e \<in> set ids \<and> se_to e \<in> set ids)"
  by (auto simp: unknown_edge_nodes_def)

lemma validate_valid: "tv_valid (validate_skill_tree ns es) \<longleftrightarrow> well_formed_tree ns es"
  by (auto simp: validate_skill_tree_def Let_def well_formed_tree_def unknown_prerequisites_Nil unknown_edge_nodes_Nil
      detect_cycles_Nil filter_empty_conv)

end
