(* ===== verification/Progression.thy ===== *)
theory Progression
  imports Skill_Graph
begin

text \<open>
  The mathematics of progression, \<open>lib/progression-engine.ts\<close>: levels from experience, the weight of
  an event from the variety of an agent's sources, prestige, the default skill tree and the states of
  its nodes. \<open>Math.pow(n, 1.5)\<close> is the exact power, so that the threshold of a level is an integer square
  root; the binary logarithm is a parameter.
\<close>

section \<open>Levels\<close>

text \<open>The integer square root, two bits at a time.\<close>

fun isqrt :: "nat \<Rightarrow> nat" where
  "isqrt n = (if n = 0 then 0 else (let r = 2 * isqrt (n div 4) in if (r + 1) * (r + 1) \<le> n then r + 1 else r))"

declare isqrt.simps [simp del]

text \<open>\<open>floor(100 * pow(level - 1, 1.5))\<close> is the root of \<open>10000 * (level - 1)^3\<close>.\<close>

definition xp_for_level :: "nat \<Rightarrow> int" where
  "xp_for_level level = (if level \<le> 1 then 0 else int (isqrt (10000 * (level - 1) ^ 3)))"

function level_loop :: "int \<Rightarrow> nat \<Rightarrow> nat" where
  "level_loop xp level =
     (if xp_for_level (level + 1) \<le> xp then (if 999 \<le> level + 1 then level + 1 else level_loop xp (level + 1)) else level)"
  by pat_completeness auto

termination
  by (relation "measure (\<lambda>(xp, level). 999 - level)") auto

declare level_loop.simps [simp del]

definition level_from_xp :: "int \<Rightarrow> nat" where
  "level_from_xp xp = (if xp < 0 then 1 else level_loop xp 1)"

record level_progress_info =
  lp_required :: int
  lp_remaining :: int
  lp_percent :: int

definition level_progress :: "int \<Rightarrow> level_progress_info" where
  "level_progress xp =
     (let level = level_from_xp xp; here = xp_for_level level; above = xp_for_level (level + 1); required = above - here
      in \<lparr>lp_required = required, lp_remaining = above - xp,
          lp_percent = (if 0 < required then min 100 (round_half_up (of_int (xp - here) / of_int required * 100)) else 100)\<rparr>)"

section \<open>Variety\<close>

definition xp_categories :: "string list" where
  "xp_categories =
     [''mission_completion'', ''code_review'', ''documentation'', ''bug_fix'', ''deployment'', ''collaboration'',
      ''research'', ''testing'', ''observability'', ''security'']"

definition is_valid_category :: "string \<Rightarrow> bool" where
  "is_valid_category s \<longleftrightarrow> s \<in> set xp_categories"

text \<open>The multiplier for a number of different categories.\<close>

definition variety_multiplier :: "nat \<Rightarrow> rat" where
  "variety_multiplier u =
     (if u = 0 then 1 else if u = 1 then 1 / 2 else if u \<le> 3 then 1 / 2 + of_nat u / 3 * (1 / 2)
      else if u \<le> 6 then 1 + (of_nat u - 3) / 3 * (3 / 10)
      else min (3 / 2) (13 / 10 + (of_nat u - 6) / 4 * (1 / 5)))"

definition diversification_multiplier :: "(string, int) jsmap \<Rightarrow> rat" where
  "diversification_multiplier counts = variety_multiplier (length (filter (\<lambda>k. 0 < nullish (js_get counts k) 0) (js_keys counts)))"

definition diversification_score :: "(rat \<Rightarrow> rat) \<Rightarrow> (string, int) jsmap \<Rightarrow> int" where
  "diversification_score lg counts =
     (let cs = filter (\<lambda>c. 0 < c) (js_values counts); sum = sum_list cs in
      if length cs \<le> 1 \<or> sum = 0 then 0
      else
        (let entropy = sum_list (map (\<lambda>c. let p = of_int c / of_int sum in if 0 < p then - (p * lg p) else 0) cs);
             widest = lg (of_nat (length xp_categories))
         in round_half_up ((if 0 < widest then entropy / widest else 0) * 100)))"

section \<open>Prestige\<close>

definition prestige_level :: "nat \<Rightarrow> nat" where
  "prestige_level rank = 20 + rank * 5"

definition prestige_xp :: "nat \<Rightarrow> int" where
  "prestige_xp rank = xp_for_level (prestige_level rank)"

definition is_prestige_eligible :: "nat \<Rightarrow> nat \<Rightarrow> int \<Rightarrow> bool" where
  "is_prestige_eligible level rank lifetime \<longleftrightarrow> prestige_level rank \<le> level \<and> prestige_xp rank \<le> lifetime"

definition max_prestige_rank :: nat where "max_prestige_rank = 10"

section \<open>The default tree\<close>

definition skill :: "string \<Rightarrow> string \<Rightarrow> string \<Rightarrow> string \<Rightarrow> int \<Rightarrow> int \<Rightarrow> string list \<Rightarrow> skill_node" where
  "skill i n d c xp tier pre =
     \<lparr>sn_id = i, sn_name = n, sn_description = d, sn_category = c, sn_cost = xp, sn_tier = tier, sn_prerequisites = pre\<rparr>"

definition default_nodes :: "skill_node list" where
  "default_nodes =
     [skill ''eng-1'' ''Code Foundations'' ''Basic code contribution proficiency'' ''engineering'' 100 1 [],
      skill ''eng-2'' ''Architecture'' ''System design and architecture skills'' ''engineering'' 300 2 [''eng-1''],
      skill ''eng-3'' ''Mastery'' ''Engineering mastery across complex systems'' ''engineering'' 800 3 [''eng-2''],
      skill ''ops-1'' ''Deployment Basics'' ''CI/CD and deployment fundamentals'' ''operations'' 100 1 [],
      skill ''ops-2'' ''Reliability'' ''SRE practices and incident response'' ''operations'' 300 2 [''ops-1''],
      skill ''ops-3'' ''Orchestration'' ''Complex multi-system orchestration'' ''operations'' 800 3 [''ops-2''],
      skill ''ana-1'' ''Data Literacy'' ''Basic data analysis and interpretation'' ''analysis'' 100 1 [],
      skill ''ana-2'' ''Insight Mining'' ''Pattern recognition and deep analysis'' ''analysis'' 300 2 [''ana-1''],
      skill ''ana-3'' ''Predictive Models'' ''Advanced predictive analysis capabilities'' ''analysis'' 800 3 [''ana-2''],
      skill ''com-1'' ''Clear Reporting'' ''Effective status and progress reporting'' ''communication'' 100 1 [],
      skill ''com-2'' ''Documentation'' ''Comprehensive documentation authoring'' ''communication'' 300 2 [''com-1''],
      skill ''com-3'' ''Knowledge Synthesis'' ''Cross-domain knowledge synthesis and teaching'' ''communication'' 800 3 [''com-2''],
      skill ''str-1'' ''Task Planning'' ''Basic task breakdown and prioritization'' ''strategy'' 100 1 [],
      skill ''str-2'' ''Mission Design'' ''Complex mission architecture and coordination'' ''strategy'' 300 2 [''str-1''],
      skill ''str-3'' ''Strategic Vision'' ''Long-term strategic planning and roadmap design'' ''strategy'' 800 3 [''str-2'']]"

definition prerequisite_edges :: "skill_node list \<Rightarrow> skill_edge list" where
  "prerequisite_edges ns = concat (map (\<lambda>n. map (\<lambda>p. \<lparr>se_from = p, se_to = sn_id n\<rparr>) (sn_prerequisites n)) ns)"

definition default_skill_tree :: "skill_node list \<times> skill_edge list" where
  "default_skill_tree = (default_nodes, prerequisite_edges default_nodes)"

section \<open>States of nodes and the preview of a prestige\<close>

datatype skill_node_state = NodeLocked | NodeUnlockable | NodeUnlocked | NodeMaxed

definition node_state :: "string \<Rightarrow> skill_node \<Rightarrow> string list \<Rightarrow> skill_node_state" where
  "node_state i n unlocked =
     (if i \<in> set unlocked then NodeUnlocked
      else if sn_tier n = 1 \<and> sn_prerequisites n = [] then NodeUnlockable
      else if sn_prerequisites n \<noteq> [] \<and> list_all (\<lambda>p. p \<in> set unlocked) (sn_prerequisites n) then NodeUnlockable
      else NodeLocked)"

record prestige_preview =
  pp_eligible :: bool
  pp_next_rank :: nat
  pp_xp_reset_from :: int
  pp_level_reset_from :: nat
  pp_unlocks_lost :: nat
  pp_lifetime_kept :: int
  pp_level_requirement :: nat
  pp_xp_requirement :: int

definition simulate_prestige :: "int \<Rightarrow> int \<Rightarrow> nat \<Rightarrow> nat \<Rightarrow> nat \<Rightarrow> prestige_preview" where
  "simulate_prestige xp lifetime level rank unlocks =
     \<lparr>pp_eligible = (rank + 1 \<le> max_prestige_rank \<and> is_prestige_eligible level rank lifetime), pp_next_rank = rank + 1,
      pp_xp_reset_from = xp, pp_level_reset_from = level, pp_unlocks_lost = unlocks, pp_lifetime_kept = lifetime,
      pp_level_requirement = prestige_level rank, pp_xp_requirement = prestige_xp rank\<rparr>"

section \<open>Levels and thresholds\<close>

lemma isqrt_bounds: "isqrt n * isqrt n \<le> n \<and> n < (isqrt n + 1) * (isqrt n + 1)"
proof (induction n rule: isqrt.induct)
  case (1 n)
  show ?case
  proof (cases "n = 0")
    case True then show ?thesis by (simp add: isqrt.simps)
  next
    case False
    define s where "s = isqrt (n div 4)"
    from 1 [OF False] have IH: "s * s \<le> n div 4" "n div 4 < (s + 1) * (s + 1)" by (simp_all add: s_def)
    then have "4 * (s * s) \<le> n" "n < 4 * ((s + 1) * (s + 1))" by (simp_all add: less_eq_div_iff_mult_less_eq div_less_iff_less_mult mult.commute)
    then show ?thesis using False by (subst (1 2 3 4) isqrt.simps) (simp add: Let_def algebra_simps flip: s_def)
  qed
qed

lemma isqrt_hundred: "isqrt 10000 = 100"
  by (simp add: isqrt.simps Let_def)

lemma isqrt_le_iff: "k \<le> isqrt n \<longleftrightarrow> k * k \<le> n"
proof
  assume "k \<le> isqrt n"
  then have "k * k \<le> isqrt n * isqrt n" by (rule mult_le_mono) fact
  then show "k * k \<le> n" using isqrt_bounds [of n] by linarith
next
  assume "k * k \<le> n"
  show "k \<le> isqrt n"
  proof (rule ccontr)
    assume "\<not> k \<le> isqrt n"
    then have "(isqrt n + 1) * (isqrt n + 1) \<le> k * k" by (intro mult_le_mono) simp_all
    with \<open>k * k \<le> n\<close> show False using isqrt_bounds [of n] by linarith
  qed
qed

lemma isqrt_mono: "m \<le> n \<Longrightarrow> isqrt m \<le> isqrt n"
  by (meson isqrt_le_iff order_refl order_trans)

lemma xp_for_level_mono: "l \<le> l' \<Longrightarrow> xp_for_level l \<le> xp_for_level l'"
  by (auto simp: xp_for_level_def intro!: isqrt_mono power_mono)

lemma xp_for_level_nonneg: "0 \<le> xp_for_level l"
  by (simp add: xp_for_level_def)

text \<open>Every level costs at least a hundred more.\<close>

lemma xp_for_level_step: "1 \<le> l \<Longrightarrow> xp_for_level l + 100 \<le> xp_for_level (l + 1)"
proof -
  assume l: "1 \<le> l"
  define m where "m = l - 1"
  have lm: "l = m + 1" using l by (simp add: m_def)
  define s where "s = isqrt (10000 * m ^ 3)"
  have s: "s * s \<le> 10000 * m ^ 3" using isqrt_bounds by (simp add: s_def)
  have cube: "s \<le> 100 * (m * m) + 100 * m"
  proof (rule ccontr)
    assume "\<not> ?thesis"
    then have "(100 * (m * m) + 100 * m) * (100 * (m * m) + 100 * m) < s * s" by (intro mult_strict_mono') simp_all
    then have "10000 * (m * m * m * m + 2 * (m * m * m) + m * m) < 10000 * m ^ 3" using s
      by (simp add: algebra_simps power3_eq_cube)
    then show False by (simp add: power3_eq_cube)
  qed
  have "(s + 100) * (s + 100) = s * s + 200 * s + 10000" by (simp add: algebra_simps)
  also have "\<dots> \<le> 10000 * m ^ 3 + 200 * (100 * (m * m) + 100 * m) + 10000" using s mult_le_mono2 [OF cube, of 200] by linarith
  also have "\<dots> \<le> 10000 * (m + 1) ^ 3" by (simp add: power3_eq_cube algebra_simps)
  finally have "s + 100 \<le> isqrt (10000 * (m + 1) ^ 3)" by (simp add: isqrt_le_iff)
  then show ?thesis unfolding lm by (auto simp: xp_for_level_def s_def)
qed

lemma level_loop_spec:
  assumes "1 \<le> level" "level \<le> 998" "xp_for_level level \<le> xp"
  shows "level \<le> level_loop xp level \<and> level_loop xp level \<le> 999 \<and> xp_for_level (level_loop xp level) \<le> xp
    \<and> (level_loop xp level = 999 \<or> xp < xp_for_level (level_loop xp level + 1))"
  using assms
proof (induction xp level rule: level_loop.induct)
  case (1 xp level)
  show ?case
  proof (cases "xp_for_level (level + 1) \<le> xp \<and> \<not> 999 \<le> level + 1")
    case True
    then have "level_loop xp level = level_loop xp (level + 1)" by (simp add: level_loop.simps [of xp level])
    with "1.IH" True show ?thesis by simp
  next
    case False
    with "1.prems" show ?thesis by (subst (1 2 3 4 5) level_loop.simps) auto
  qed
qed

lemma level_from_xp_spec:
  assumes "0 \<le> xp"
  shows "1 \<le> level_from_xp xp" "level_from_xp xp \<le> 999" "xp_for_level (level_from_xp xp) \<le> xp"
    "level_from_xp xp = 999 \<or> xp < xp_for_level (level_from_xp xp + 1)"
  using level_loop_spec [of 1 xp] assms by (auto simp: level_from_xp_def xp_for_level_def)

lemma level_from_xp_range: "1 \<le> level_from_xp xp \<and> level_from_xp xp \<le> 999"
  using level_from_xp_spec [of xp] by (cases "0 \<le> xp") (auto simp: level_from_xp_def)

lemma level_from_xp_le_iff:
  assumes "0 \<le> xp" "1 \<le> l" "l \<le> 999"
  shows "l \<le> level_from_xp xp \<longleftrightarrow> xp_for_level l \<le> xp"
proof
  assume "l \<le> level_from_xp xp"
  then show "xp_for_level l \<le> xp" using xp_for_level_mono level_from_xp_spec(3) [OF assms(1)] order_trans by blast
next
  assume "xp_for_level l \<le> xp"
  show "l \<le> level_from_xp xp"
  proof (rule ccontr)
    assume "\<not> l \<le> level_from_xp xp"
    then have "level_from_xp xp + 1 \<le> l" "level_from_xp xp \<noteq> 999" using assms(3) by auto
    then show False using xp_for_level_mono [of "level_from_xp xp + 1" l] level_from_xp_spec(4) [OF assms(1)] \<open>xp_for_level l \<le> xp\<close>
      by auto
  qed
qed

lemma level_from_xp_mono: "xp \<le> xp' \<Longrightarrow> level_from_xp xp \<le> level_from_xp xp'"
proof (cases "0 \<le> xp")
  case True
  assume "xp \<le> xp'"
  then show ?thesis using level_from_xp_le_iff [of xp' "level_from_xp xp"] level_from_xp_spec [OF True] True by auto
next
  case False
  then show ?thesis using level_from_xp_range [of xp'] by (simp add: level_from_xp_def)
qed

lemma level_progress_remaining: "0 < lp_remaining (level_progress xp) \<longleftrightarrow> xp < xp_for_level 1000"
proof (cases "0 \<le> xp")
  case True
  have "level_from_xp xp + 1 \<le> 1000" using level_from_xp_spec(2) [OF True] by simp
  then have "xp_for_level (level_from_xp xp + 1) \<le> xp_for_level 1000" by (rule xp_for_level_mono)
  with level_from_xp_spec(4) [OF True] show ?thesis by (auto simp: level_progress_def Let_def)
next
  case False
  then show ?thesis using xp_for_level_nonneg [of 1000] xp_for_level_nonneg [of 2]
    by (simp add: level_progress_def level_from_xp_def Let_def numeral_2_eq_2)
qed

lemma level_progress_percent:
  "lp_percent (level_progress xp) \<le> 100 \<and> (lp_percent (level_progress xp) < 0 \<longleftrightarrow> xp < 0)"
proof -
  let ?l = "level_from_xp xp"
  define here where "here = xp_for_level ?l"
  define req where "req = xp_for_level (?l + 1) - here"
  have req: "0 < req" using xp_for_level_step [of ?l] level_from_xp_range [of xp] by (simp add: req_def here_def)
  have pct: "lp_percent (level_progress xp) = min 100 (round_half_up (of_int (xp - here) / of_int req * 100))"
    using req by (simp add: level_progress_def Let_def req_def here_def)
  have "round_half_up (of_int (xp - here) / of_int req * 100) < 0 \<longleftrightarrow> xp < 0"
  proof (cases "0 \<le> xp")
    case True
    then have "here \<le> xp" using level_from_xp_spec(3) by (simp add: here_def)
    then show ?thesis using True req by (simp add: round_half_up_def not_less)
  next
    case False
    then have "here = 0" "req = 100" by (simp_all add: here_def req_def level_from_xp_def xp_for_level_def isqrt_hundred)
    moreover have "\<lfloor>1 / 2 :: rat\<rfloor> = 0" by (rule floor_unique) simp_all
    ultimately show ?thesis using False by (simp add: round_half_up_def)
  qed
  then show ?thesis unfolding pct min_less_iff_disj by simp
qed

text \<open>
  The level is the highest one, of the 999 there are, whose threshold the experience has reached; what is
  shown towards the next level is a percentage, and below the last level there is something left to earn.
\<close>

theorem level_is_the_highest_reached:
  "level_from_xp xp = Max {l. 1 \<le> l \<and> l \<le> 999 \<and> (l = 1 \<or> xp_for_level l \<le> xp)}
   \<and> (0 < lp_remaining (level_progress xp) \<longleftrightarrow> xp < xp_for_level 1000)
   \<and> lp_percent (level_progress xp) \<le> 100 \<and> (lp_percent (level_progress xp) < 0 \<longleftrightarrow> xp < 0)"
proof -
  have "level_from_xp xp = Max {l. 1 \<le> l \<and> l \<le> 999 \<and> (l = 1 \<or> xp_for_level l \<le> xp)}" (is "_ = Max ?L")
  proof (rule Max_eqI [symmetric])
    show "finite ?L" by (rule finite_subset [of _ "{..999}"]) auto
    show "level_from_xp xp \<in> ?L"
      using level_from_xp_range [of xp] level_from_xp_spec(3) [of xp] by (cases "0 \<le> xp") (auto simp: level_from_xp_def)
    show "l \<le> level_from_xp xp" if "l \<in> ?L" for l
    proof (cases "l = 1")
      case False
      with that have l: "1 \<le> l" "l \<le> 999" "xp_for_level l \<le> xp" by auto
      then have "0 \<le> xp" using xp_for_level_nonneg order_trans by blast
      with level_from_xp_le_iff [OF this l(1,2)] l(3) show ?thesis by simp
    qed (use level_from_xp_range [of xp] in simp)
  qed
  then show ?thesis using level_progress_remaining level_progress_percent by simp
qed

section \<open>Variety\<close>

lemma variety_multiplier_many: "7 \<le> u \<Longrightarrow> variety_multiplier u = min (3 / 2) (1 + of_nat u / 20)"
  by (simp add: variety_multiplier_def field_simps)

lemma variety_multiplier_step:
  assumes "1 \<le> u"
  shows "variety_multiplier u \<le> variety_multiplier (Suc u)"
proof -
  from assms consider "u = 1" | "u = 2" | "u = 3" | "u = 4" | "u = 5" | "u = 6" | "7 \<le> u" by linarith
  then show ?thesis
  proof cases
    case 7
    then have "1 + rat_of_nat u / 20 \<le> 1 + rat_of_nat (Suc u) / 20" by simp
    then show ?thesis using 7 by (simp only: variety_multiplier_many le_SucI min.mono order_refl)
  qed (simp_all add: variety_multiplier_def min_def)
qed

lemma variety_multiplier_mono:
  assumes "1 \<le> u" "u \<le> v"
  shows "variety_multiplier u \<le> variety_multiplier v"
  using assms(2)
proof (induction rule: dec_induct)
  case (step n)
  then show ?case using variety_multiplier_step [of n] assms(1) by linarith
qed simp

lemma variety_multiplier_bounds: "1 / 2 \<le> variety_multiplier u \<and> variety_multiplier u \<le> 3 / 2"
proof (cases "u = 0")
  case False
  then have low: "variety_multiplier 1 \<le> variety_multiplier u" by (intro variety_multiplier_mono) simp_all
  moreover have "variety_multiplier u \<le> variety_multiplier (u + 10)" using False by (intro variety_multiplier_mono) simp_all
  moreover have "variety_multiplier 1 = 1 / 2" by (simp add: variety_multiplier_def)
  moreover have "variety_multiplier (u + 10) \<le> 3 / 2" using False by (subst variety_multiplier_many) (simp_all only: min.cobounded1)
  ultimately show ?thesis by linarith
qed (simp add: variety_multiplier_def)

lemma default_tree_well_formed: "well_formed_tree (fst default_skill_tree) (snd default_skill_tree)"
  unfolding validate_valid [symmetric] by code_simp

end
