(* ===== verification/Progression_Store.thy ===== *)
theory Progression_Store
  imports Progression
begin

text \<open>
  The tables of \<open>lib/progression-store.ts\<close> and the operations over them. A table is the list of its rows
  in the order of insertion, and a statement has its meaning in SQL: a second row with the same primary
  key is refused, and so is a row that refers to a missing one, or the deletion of a row that others
  refer to, which \<open>OR IGNORE\<close> does not change. A transaction that throws leaves the tables as they were.
  Times are the seconds of \<open>datetime('now')\<close>; random identifiers are arguments.
\<close>

section \<open>Tables\<close>

record progression_profile =
  pf_agent :: string
  pf_name :: string
  pf_xp :: int
  pf_lifetime :: int
  pf_level :: nat
  pf_rank :: nat
  pf_score :: int
  pf_created :: int
  pf_updated :: int

record skill_unlock =
  ul_agent :: string
  ul_node :: string
  ul_at :: int
  ul_rank :: nat

record xp_event =
  xe_id :: string
  xe_agent :: string
  xe_raw :: rat
  xe_effective :: int
  xe_category :: string
  xe_description :: string
  xe_multiplier :: rat
  xe_at :: int

record prestige_record =
  pr_id :: nat
  pr_agent :: string
  pr_from :: nat
  pr_to :: nat
  pr_xp :: int
  pr_level :: nat
  pr_unlocks :: nat
  pr_lifetime :: int
  pr_at :: int

record node_layout =
  nl_node :: string
  nl_x :: rat
  nl_y :: rat

datatype milestone_type = LevelUpMilestone | UnlockMilestone | PrestigeMilestone | VarietyMilestone

record milestone =
  ms_id :: string
  ms_agent :: string
  ms_type :: milestone_type
  ms_title :: string
  ms_description :: string
  ms_metadata :: "(string \<times> int) option"
  ms_at :: int

record progression_db =
  db_profiles :: "progression_profile list"
  db_nodes :: "skill_node list"
  db_edges :: "skill_edge list"
  db_unlocks :: "skill_unlock list"
  db_events :: "xp_event list"
  db_prestiges :: "prestige_record list"
  db_prestige_ids :: nat
  db_layouts :: "node_layout list"
  db_milestones :: "milestone list"

definition empty_db :: progression_db where
  "empty_db =
     \<lparr>db_profiles = [], db_nodes = [], db_edges = [], db_unlocks = [], db_events = [], db_prestiges = [],
      db_prestige_ids = 0, db_layouts = [], db_milestones = []\<rparr>"

datatype store_error =
    RawXpNotPositive
  | InvalidCategory string
  | ProfileNotFound string
  | AtMaximumRank
  | NotEligible
  | NodeNotFound string
  | AlreadyUnlocked string
  | PrerequisitesNotMet "string list"
  | InsufficientXp int int
  | IsPrerequisite string "string list"
  | UniqueViolation
  | ForeignKeyViolation

type_synonym 'a store_op = "progression_db \<Rightarrow> progression_db \<times> (store_error + 'a)"

definition transaction :: "'a store_op \<Rightarrow> 'a store_op" where
  "transaction f db = (case f db of (db', Inr x) \<Rightarrow> (db', Inr x) | (db', Inl e) \<Rightarrow> (db, Inl e))"

section \<open>Statements\<close>

text \<open>\<open>UPDATE t SET ... WHERE P\<close>.\<close>

definition update_rows :: "('a \<Rightarrow> bool) \<Rightarrow> ('a \<Rightarrow> 'a) \<Rightarrow> 'a list \<Rightarrow> 'a list" where
  "update_rows P f = map (\<lambda>x. if P x then f x else x)"

definition has_node :: "progression_db \<Rightarrow> string \<Rightarrow> bool" where
  "has_node db i \<longleftrightarrow> i \<in> sn_id ` set (db_nodes db)"

definition insert_node :: "skill_node \<Rightarrow> progression_db \<Rightarrow> store_error + progression_db" where
  "insert_node n db = (if has_node db (sn_id n) then Inl UniqueViolation else Inr (db\<lparr>db_nodes := db_nodes db @ [n]\<rparr>))"

definition insert_or_ignore_node :: "skill_node \<Rightarrow> progression_db \<Rightarrow> progression_db" where
  "insert_or_ignore_node n db = (if has_node db (sn_id n) then db else db\<lparr>db_nodes := db_nodes db @ [n]\<rparr>)"

definition upsert_node :: "skill_node \<Rightarrow> progression_db \<Rightarrow> progression_db" where
  "upsert_node n db =
     (if has_node db (sn_id n) then db\<lparr>db_nodes := update_rows (\<lambda>m. sn_id m = sn_id n) (\<lambda>_. n) (db_nodes db)\<rparr>
      else db\<lparr>db_nodes := db_nodes db @ [n]\<rparr>)"

definition insert_edge :: "skill_edge \<Rightarrow> progression_db \<Rightarrow> store_error + progression_db" where
  "insert_edge e db =
     (if e \<in> set (db_edges db) then Inl UniqueViolation
      else if has_node db (se_from e) \<and> has_node db (se_to e) then Inr (db\<lparr>db_edges := db_edges db @ [e]\<rparr>)
      else Inl ForeignKeyViolation)"

definition insert_or_ignore_edge :: "skill_edge \<Rightarrow> progression_db \<Rightarrow> store_error + progression_db" where
  "insert_or_ignore_edge e db =
     (if e \<in> set (db_edges db) then Inr db
      else if has_node db (se_from e) \<and> has_node db (se_to e) then Inr (db\<lparr>db_edges := db_edges db @ [e]\<rparr>)
      else Inl ForeignKeyViolation)"

definition upsert_layout :: "node_layout \<Rightarrow> progression_db \<Rightarrow> store_error + progression_db" where
  "upsert_layout l db =
     (if nl_node l \<in> nl_node ` set (db_layouts db) then
        Inr (db\<lparr>db_layouts := update_rows (\<lambda>m. nl_node m = nl_node l) (\<lambda>_. l) (db_layouts db)\<rparr>)
      else if has_node db (nl_node l) then Inr (db\<lparr>db_layouts := db_layouts db @ [l]\<rparr>)
      else Inl ForeignKeyViolation)"

text \<open>Statements run one after the other until one fails; what the earlier ones did stays.\<close>

fun run_statements :: "('a \<Rightarrow> progression_db \<Rightarrow> store_error + progression_db) \<Rightarrow> 'a list \<Rightarrow> unit store_op" where
  "run_statements f [] db = (db, Inr ())"
| "run_statements f (x # xs) db = (case f x db of Inl e \<Rightarrow> (db, Inl e) | Inr db' \<Rightarrow> run_statements f xs db')"

section \<open>Opening\<close>

definition seed_skill_tree :: "progression_db \<Rightarrow> progression_db" where
  "seed_skill_tree db =
     (if db_nodes db \<noteq> [] then db
      else fst (transaction (\<lambda>db. run_statements insert_or_ignore_edge (snd default_skill_tree)
                 (fold insert_or_ignore_node (fst default_skill_tree) db)) db))"

section \<open>Profiles\<close>

definition get_profile :: "string \<Rightarrow> progression_db \<Rightarrow> progression_profile option" where
  "get_profile a db = List.find (\<lambda>p. pf_agent p = a) (db_profiles db)"

definition new_profile :: "int \<Rightarrow> string \<Rightarrow> string option \<Rightarrow> progression_profile" where
  "new_profile now a name =
     \<lparr>pf_agent = a, pf_name = nullish name a, pf_xp = 0, pf_lifetime = 0, pf_level = 1, pf_rank = 0, pf_score = 0,
      pf_created = now, pf_updated = now\<rparr>"

definition get_or_create_profile :: "int \<Rightarrow> string \<Rightarrow> string option \<Rightarrow> progression_db \<Rightarrow> progression_db \<times> progression_profile" where
  "get_or_create_profile now a name db =
     (case get_profile a db of
        Some p \<Rightarrow> (db, p)
      | None \<Rightarrow> (db\<lparr>db_profiles := db_profiles db @ [new_profile now a name]\<rparr>, new_profile now a name))"

definition update_profile :: "string \<Rightarrow> (progression_profile \<Rightarrow> progression_profile) \<Rightarrow> progression_db \<Rightarrow> progression_db" where
  "update_profile a f db = db\<lparr>db_profiles := update_rows (\<lambda>p. pf_agent p = a) f (db_profiles db)\<rparr>"

definition list_profiles :: "progression_db \<Rightarrow> progression_profile list" where
  "list_profiles db =
     sort_by (\<lambda>p q. pf_level q < pf_level p \<or> (pf_level p = pf_level q \<and> pf_xp q \<le> pf_xp p)) (db_profiles db)"

section \<open>Experience\<close>

text \<open>The counts of the categories in all events of the agent; \<open>LIMIT 50\<close> is a limit on the categories.\<close>

definition category_counts :: "string \<Rightarrow> progression_db \<Rightarrow> (string, int) jsmap" where
  "category_counts a db =
     take 50 (sort_by (\<lambda>x y. snd y \<le> snd x)
       (fold (\<lambda>e m. js_set (xe_category e) (nullish (js_get m (xe_category e)) 0 + 1) m)
          (filter (\<lambda>e. xe_agent e = a) (db_events db)) []))"

record ingest_answer =
  ia_event :: xp_event
  ia_profile :: progression_profile
  ia_level_up :: bool

definition ingest_event ::
  "(rat \<Rightarrow> rat) \<Rightarrow> int \<Rightarrow> string \<Rightarrow> string \<Rightarrow> rat \<Rightarrow> string \<Rightarrow> string \<Rightarrow> progression_db \<Rightarrow> progression_db \<times> ingest_answer" where
  "ingest_event lg now i a raw category description db =
     (let (db1, p) = get_or_create_profile now a None db;
          before = category_counts a db1;
          counts = js_set category (nullish (js_get before category) 0 + 1) before;
          multiplier = diversification_multiplier counts;
          effective = max 1 (round_half_up (raw * multiplier));
          event = \<lparr>xe_id = i, xe_agent = a, xe_raw = raw, xe_effective = effective, xe_category = category,
                   xe_description = description, xe_multiplier = multiplier, xe_at = now\<rparr>;
          xp = pf_xp p + effective; level = level_from_xp xp;
          p' = p\<lparr>pf_xp := xp, pf_lifetime := pf_lifetime p + effective, pf_level := level,
                 pf_score := diversification_score lg counts, pf_updated := now\<rparr>
      in (update_profile a (\<lambda>_. p') (db1\<lparr>db_events := db_events db1 @ [event]\<rparr>),
          \<lparr>ia_event = event, ia_profile = p', ia_level_up = (pf_level p < level)\<rparr>))"

definition ingest_xp ::
  "(rat \<Rightarrow> rat) \<Rightarrow> int \<Rightarrow> string \<Rightarrow> string \<Rightarrow> rat \<Rightarrow> string \<Rightarrow> string \<Rightarrow> ingest_answer store_op" where
  "ingest_xp lg now i a raw category description db =
     (if raw \<le> 0 then (db, Inl RawXpNotPositive)
      else if \<not> is_valid_category category then (db, Inl (InvalidCategory category))
      else (case ingest_event lg now i a raw category description db of (db', r) \<Rightarrow> (db', Inr r)))"

section \<open>The tree\<close>

text \<open>\<open>ORDER BY category, tier\<close>; texts are compared byte by byte.\<close>

fun text_le :: "string \<Rightarrow> string \<Rightarrow> bool" where
  "text_le [] t = True"
| "text_le (c # s) [] = False"
| "text_le (c # s) (d # t) = ((of_char c :: nat) < of_char d \<or> (c = d \<and> text_le s t))"

definition get_skill_nodes :: "progression_db \<Rightarrow> skill_node list" where
  "get_skill_nodes db =
     sort_by (\<lambda>m n. if sn_category m = sn_category n then sn_tier m \<le> sn_tier n else text_le (sn_category m) (sn_category n)) (db_nodes db)"

definition get_unlocks :: "string \<Rightarrow> progression_db \<Rightarrow> skill_unlock list" where
  "get_unlocks a db = sort_by (\<lambda>u v. ul_at u \<le> ul_at v) (filter (\<lambda>u. ul_agent u = a) (db_unlocks db))"

definition unlocked_ids :: "string \<Rightarrow> progression_db \<Rightarrow> string list" where
  "unlocked_ids a db = map ul_node (get_unlocks a db)"

datatype node_status = StatusLocked | StatusAvailable | StatusUnlocked

record annotated_node =
  an_node :: skill_node
  an_status :: node_status
  an_affordable :: bool

definition annotate_node :: "string list \<Rightarrow> int \<Rightarrow> skill_node \<Rightarrow> annotated_node" where
  "annotate_node unlocked xp n =
     (let status =
            if sn_id n \<in> set unlocked then StatusUnlocked
            else if sn_prerequisites n = [] \<or> list_all (\<lambda>p. p \<in> set unlocked) (sn_prerequisites n) then StatusAvailable
            else StatusLocked
      in \<lparr>an_node = n, an_status = status, an_affordable = (status = StatusAvailable \<and> sn_cost n \<le> xp)\<rparr>)"

definition get_skill_tree_state ::
  "int \<Rightarrow> string \<Rightarrow> progression_db \<Rightarrow> progression_db \<times> annotated_node list \<times> skill_edge list \<times> nat" where
  "get_skill_tree_state now a db =
     (let unlocked = unlocked_ids a db; (db', p) = get_or_create_profile now a None db
      in (db', map (annotate_node unlocked (pf_xp p)) (get_skill_nodes db), db_edges db, length (remdups unlocked)))"

definition record_milestone ::
  "int \<Rightarrow> string \<Rightarrow> string \<Rightarrow> milestone_type \<Rightarrow> string \<Rightarrow> string \<Rightarrow> (string \<times> int) option \<Rightarrow> progression_db \<Rightarrow> progression_db" where
  "record_milestone now i a ty title description meta db =
     db\<lparr>db_milestones := db_milestones db @
        [\<lparr>ms_id = i, ms_agent = a, ms_type = ty, ms_title = title, ms_description = description, ms_metadata = meta, ms_at = now\<rparr>]\<rparr>"

definition recent_milestones :: "nat \<Rightarrow> progression_db \<Rightarrow> milestone list" where
  "recent_milestones k db = take k (sort_desc ms_at (db_milestones db))"

record unlock_answer =
  ua_unlock :: skill_unlock
  ua_profile :: progression_profile
  ua_node :: annotated_node

definition unlock_body :: "int \<Rightarrow> string \<Rightarrow> string \<Rightarrow> string \<Rightarrow> unlock_answer store_op" where
  "unlock_body now i a node db0 =
     (let (db, p) = get_or_create_profile now a None db0 in
      case List.find (\<lambda>n. sn_id n = node) (db_nodes db) of
        None \<Rightarrow> (db, Inl (NodeNotFound node))
      | Some n \<Rightarrow>
          if list_ex (\<lambda>u. ul_agent u = a \<and> ul_node u = node) (db_unlocks db) then (db, Inl (AlreadyUnlocked node))
          else
            (let missing = filter (\<lambda>q. q \<notin> set (unlocked_ids a db)) (sn_prerequisites n) in
             if missing \<noteq> [] then (db, Inl (PrerequisitesNotMet missing))
             else if pf_xp p < sn_cost n then (db, Inl (InsufficientXp (pf_xp p) (sn_cost n)))
             else
               (let xp = pf_xp p - sn_cost n;
                    p' = p\<lparr>pf_xp := xp, pf_level := level_from_xp xp, pf_updated := now\<rparr>;
                    u = \<lparr>ul_agent = a, ul_node = node, ul_at = now, ul_rank = pf_rank p\<rparr>;
                    db1 = update_profile a (\<lambda>_. p') db;
                    db2 = db1\<lparr>db_unlocks := db_unlocks db1 @ [u]\<rparr>;
                    db3 = record_milestone now i a UnlockMilestone (''Unlocked: '' @ sn_name n)
                      (pf_name p @ '' unlocked '' @ [CHR 0x22] @ sn_name n @ [CHR 0x22] @ '' for '' @ show_int (sn_cost n) @ '' XP'')
                      (Some (node, sn_cost n)) db2
                in (db3, Inr \<lparr>ua_unlock = u, ua_profile = p',
                              ua_node = \<lparr>an_node = n, an_status = StatusUnlocked, an_affordable = False\<rparr>\<rparr>))))"

definition unlock_skill :: "int \<Rightarrow> string \<Rightarrow> string \<Rightarrow> string \<Rightarrow> unlock_answer store_op" where
  "unlock_skill now i a node = transaction (unlock_body now i a node)"

section \<open>Prestige\<close>

text \<open>\<open>ORDER BY created_at DESC\<close>: among records of the same second the oldest comes first.\<close>

definition prestige_history :: "string \<Rightarrow> progression_db \<Rightarrow> prestige_record list" where
  "prestige_history a db = sort_desc pr_at (filter (\<lambda>r. pr_agent r = a) (db_prestiges db))"

definition prestige_body :: "int \<Rightarrow> string \<Rightarrow> prestige_record store_op" where
  "prestige_body now a db =
     (case get_profile a db of
        None \<Rightarrow> (db, Inl (ProfileNotFound a))
      | Some p \<Rightarrow>
          if max_prestige_rank \<le> pf_rank p then (db, Inl AtMaximumRank)
          else if \<not> is_prestige_eligible (pf_level p) (pf_rank p) (pf_lifetime p) then (db, Inl NotEligible)
          else
            (let r = \<lparr>pr_id = Suc (db_prestige_ids db), pr_agent = a, pr_from = pf_rank p, pr_to = pf_rank p + 1, pr_xp = pf_xp p,
                      pr_level = pf_level p, pr_unlocks = length (filter (\<lambda>u. ul_agent u = a) (db_unlocks db)),
                      pr_lifetime = pf_lifetime p, pr_at = now\<rparr>;
                 db1 = db\<lparr>db_prestiges := db_prestiges db @ [r], db_prestige_ids := Suc (db_prestige_ids db)\<rparr>;
                 db2 = update_profile a (\<lambda>p. p\<lparr>pf_xp := 0, pf_level := 1, pf_rank := pr_to r, pf_updated := now\<rparr>) db1;
                 db3 = db2\<lparr>db_unlocks := filter (\<lambda>u. ul_agent u \<noteq> a) (db_unlocks db2)\<rparr>
             in (db3, Inr (hd (prestige_history a db3)))))"

definition prestige_transition :: "int \<Rightarrow> string \<Rightarrow> prestige_record store_op" where
  "prestige_transition now a = transaction (prestige_body now a)"

section \<open>The leaderboard\<close>

record leaderboard_entry =
  le_place :: nat
  le_profile :: progression_profile
  le_skills :: nat

definition leaderboard_le :: "progression_profile \<Rightarrow> progression_profile \<Rightarrow> bool" where
  "leaderboard_le p q \<longleftrightarrow>
     pf_rank q < pf_rank p \<or> (pf_rank p = pf_rank q \<and>
       (pf_level q < pf_level p \<or> (pf_level p = pf_level q \<and> pf_lifetime q \<le> pf_lifetime p)))"

definition get_leaderboard :: "nat \<Rightarrow> progression_db \<Rightarrow> leaderboard_entry list \<times> nat" where
  "get_leaderboard k db =
     (map (\<lambda>(i, p). \<lparr>le_place = i + 1, le_profile = p, le_skills = length (filter (\<lambda>u. ul_agent u = pf_agent p) (db_unlocks db))\<rparr>)
        (enumerate 0 (take k (sort_by leaderboard_le (db_profiles db)))),
      length (db_profiles db))"

section \<open>Administration of the tree\<close>

definition upsert_skill_node :: "skill_node \<Rightarrow> skill_node store_op" where
  "upsert_skill_node n db =
     (let db1 = upsert_node n db;
          db2 = db1\<lparr>db_edges := filter (\<lambda>e. se_to e \<noteq> sn_id n) (db_edges db1)\<rparr>
      in case run_statements (\<lambda>p. insert_or_ignore_edge \<lparr>se_from = p, se_to = sn_id n\<rparr>) (sn_prerequisites n) db2 of
           (db3, Inl e) \<Rightarrow> (db3, Inl e)
         | (db3, Inr _) \<Rightarrow> (db3, Inr n))"

definition delete_body :: "string \<Rightarrow> bool store_op" where
  "delete_body node db =
     (let deps = filter (\<lambda>e. se_from e = node) (db_edges db) in
      if deps \<noteq> [] then (db, Inl (IsPrerequisite node (map se_to deps)))
      else
        (db\<lparr>db_edges := filter (\<lambda>e. se_to e \<noteq> node) (db_edges db), db_layouts := filter (\<lambda>l. nl_node l \<noteq> node) (db_layouts db),
           db_unlocks := filter (\<lambda>u. ul_node u \<noteq> node) (db_unlocks db), db_nodes := filter (\<lambda>n. sn_id n \<noteq> node) (db_nodes db)\<rparr>,
         Inr (has_node db node)))"

definition delete_skill_node :: "string \<Rightarrow> bool store_op" where
  "delete_skill_node node = transaction (delete_body node)"

definition validate_tree :: "progression_db \<Rightarrow> tree_validation" where
  "validate_tree db = validate_skill_tree (get_skill_nodes db) (db_edges db)"

definition save_node_layouts :: "node_layout list \<Rightarrow> unit store_op" where
  "save_node_layouts ls = transaction (run_statements upsert_layout ls)"

record tree_node =
  tn_node :: skill_node
  tn_x :: "rat option"
  tn_y :: "rat option"

definition export_tree :: "progression_db \<Rightarrow> tree_node list \<times> skill_edge list" where
  "export_tree db =
     (map (\<lambda>n. case List.find (\<lambda>l. nl_node l = sn_id n) (db_layouts db) of
                 None \<Rightarrow> \<lparr>tn_node = n, tn_x = None, tn_y = None\<rparr>
               | Some l \<Rightarrow> \<lparr>tn_node = n, tn_x = Some (nl_x l), tn_y = Some (nl_y l)\<rparr>) (get_skill_nodes db),
      db_edges db)"

definition insert_tree_node :: "tree_node \<Rightarrow> progression_db \<Rightarrow> store_error + progression_db" where
  "insert_tree_node t db =
     (case insert_node (tn_node t) db of
        Inl e \<Rightarrow> Inl e
      | Inr db' \<Rightarrow>
          (case (tn_x t, tn_y t) of
             (Some x, Some y) \<Rightarrow> Inr (db'\<lparr>db_layouts := db_layouts db' @ [\<lparr>nl_node = sn_id (tn_node t), nl_x = x, nl_y = y\<rparr>]\<rparr>)
           | _ \<Rightarrow> Inr db'))"

text \<open>Deleting all nodes fails while an unlock refers to one.\<close>

definition import_body :: "tree_node list \<times> skill_edge list \<Rightarrow> unit store_op" where
  "import_body tree db =
     (let db1 = db\<lparr>db_layouts := [], db_edges := []\<rparr> in
      if list_ex (\<lambda>u. has_node db1 (ul_node u)) (db_unlocks db1) then (db1, Inl ForeignKeyViolation)
      else
        (case run_statements insert_tree_node (fst tree) (db1\<lparr>db_nodes := []\<rparr>) of
           (db2, Inl e) \<Rightarrow> (db2, Inl e)
         | (db2, Inr _) \<Rightarrow> run_statements insert_edge (snd tree) db2))"

definition import_tree :: "tree_node list \<times> skill_edge list \<Rightarrow> unit store_op" where
  "import_tree tree = transaction (import_body tree)"

section \<open>Attribution\<close>

record xp_attribution =
  xa_category :: string
  xa_raw :: rat
  xa_effective :: int
  xa_count :: nat
  xa_multiplier :: rat

definition attribution_of :: "xp_event list \<Rightarrow> string \<Rightarrow> xp_attribution" where
  "attribution_of es c =
     (let xs = filter (\<lambda>e. xe_category e = c) es in
      \<lparr>xa_category = c, xa_raw = sum_list (map xe_raw xs), xa_effective = sum_list (map xe_effective xs), xa_count = length xs,
       xa_multiplier = sum_list (map xe_multiplier xs) / of_nat (length xs)\<rparr>)"

definition attribution :: "xp_event list \<Rightarrow> xp_attribution list" where
  "attribution es = sort_desc xa_effective (map (attribution_of es) (sort_by text_le (remdups (map xe_category es))))"

definition get_xp_attribution :: "string \<Rightarrow> progression_db \<Rightarrow> xp_attribution list" where
  "get_xp_attribution a db = attribution (filter (\<lambda>e. xe_agent e = a) (db_events db))"

definition get_global_attribution :: "progression_db \<Rightarrow> xp_attribution list" where
  "get_global_attribution db = attribution (db_events db)"

end
