(* ===== verification/Progression_Http.thy ===== *)
theory Progression_Http
  imports Progression_Store Json
begin

text \<open>
  The requests of the progression API, \<open>lib/progression-http.ts\<close> and \<open>lib/progression-http-v2.ts\<close>: how a
  request is read, and what it does to the tables and answers. Every request opens the store anew.
  The second version reads its bodies without checks; here they are values of the right types. What the
  store does with an infinite amount of experience is a parameter.
\<close>

section \<open>Reading a request\<close>

datatype progression_request =
    GetSummary
  | GetLeaderboard nat
  | GetProfile string
  | GetSkillTree string
  | PostEvent string rat string string
  | PostInfiniteEvent string string string
  | PostPrestige string
  | PostUnlock string string
  | GetTree
  | GetTreeState string
  | PostNode skill_node
  | DeleteNode string
  | PostLayouts "node_layout list"
  | GetValidation
  | GetExport
  | PostImport "tree_node list \<times> skill_edge list"
  | GetAttribution "string option"
  | GetSimulation string
  | GetMilestones
  | PostUnlockUnchecked string string
  | GetHistory string

datatype request_reading = NotHandled | Elsewhere | Refuse nat | Serve progression_request

definition id_char :: "char \<Rightarrow> bool" where
  "id_char c \<longleftrightarrow>
     (let n = of_char c :: nat in (48 \<le> n \<and> n \<le> 57) \<or> (65 \<le> n \<and> n \<le> 90) \<or> (97 \<le> n \<and> n \<le> 122) \<or> c = CHR ''_'' \<or> c = CHR ''-'')"

text \<open>\<open>s.replace(/[^a-zA-Z0-9_-]/g, '').slice(0, 64)\<close>.\<close>

definition clean_agent_id :: "string \<Rightarrow> string" where
  "clean_agent_id s = take 64 (filter id_char s)"

definition strip_slash :: "string \<Rightarrow> string" where
  "strip_slash s = (if s \<noteq> [] \<and> last s = CHR ''/'' then butlast s else s)"

text \<open>A property of a body: none of \<open>null\<close>, which throws, and \<open>undefined\<close> of what is no object.\<close>

fun body_property :: "json \<Rightarrow> string \<Rightarrow> json option option" where
  "body_property JNull k = None"
| "body_property (JObj fs) k = Some (js_get fs k)"
| "body_property _ k = Some None"

text \<open>\<open>!x || typeof x !== 'string'\<close> refuses all but a non-empty string.\<close>

definition given_text :: "json option \<Rightarrow> string option" where
  "given_text v = (case Option.bind v json_text of Some s \<Rightarrow> if s = [] then None else Some s | None \<Rightarrow> None)"

definition positive_number :: "json option \<Rightarrow> bool" where
  "positive_number v = (case v of Some (JNum q) \<Rightarrow> 0 < q | Some (JInf b) \<Rightarrow> b | _ \<Rightarrow> False)"

definition read_event :: "json option \<Rightarrow> request_reading" where
  "read_event body =
     (case body of
        None \<Rightarrow> Refuse 400
      | Some j \<Rightarrow>
          (case (body_property j ''agent_id'', body_property j ''raw_xp'', body_property j ''source_category'', body_property j ''source_description'') of
             (Some a, Some x, Some c, Some d) \<Rightarrow>
               (case (given_text a, positive_number x, given_text c, given_text d) of
                  (Some a', True, Some c', Some d') \<Rightarrow>
                    if \<not> is_valid_category c' then Refuse 400
                    else if clean_agent_id a' = [] then Refuse 400
                    else (case x of
                            Some (JNum q) \<Rightarrow> Serve (PostEvent (clean_agent_id a') q c' (take 500 d'))
                          | _ \<Rightarrow> Serve (PostInfiniteEvent (clean_agent_id a') c' (take 500 d')))
                | _ \<Rightarrow> Refuse 400)
           | _ \<Rightarrow> Refuse 500))"

definition read_prestige :: "json option \<Rightarrow> request_reading" where
  "read_prestige body =
     (case body of
        None \<Rightarrow> Refuse 400
      | Some j \<Rightarrow>
          (case body_property j ''agent_id'' of
             None \<Rightarrow> Refuse 500
           | Some a \<Rightarrow>
               (case given_text a of
                  None \<Rightarrow> Refuse 400
                | Some a' \<Rightarrow> if clean_agent_id a' = [] then Refuse 400 else Serve (PostPrestige (clean_agent_id a')))))"

definition read_unlock :: "json option \<Rightarrow> request_reading" where
  "read_unlock body =
     (case body of
        None \<Rightarrow> Refuse 400
      | Some j \<Rightarrow>
          (case (body_property j ''agent_id'', body_property j ''node_id'') of
             (Some a, Some n) \<Rightarrow>
               (case (given_text a, given_text n) of
                  (Some a', Some n') \<Rightarrow>
                    if clean_agent_id a' = [] \<or> clean_agent_id n' = [] then Refuse 400 else Serve (PostUnlock (clean_agent_id a') (clean_agent_id n'))
                | _ \<Rightarrow> Refuse 400)
           | _ \<Rightarrow> Refuse 500))"

text \<open>\<open>parseInt(limit, 10) || 50\<close>, between 1 and 100.\<close>

definition read_limit :: "int option \<Rightarrow> nat" where
  "read_limit v = (case v of None \<Rightarrow> 50 | Some n \<Rightarrow> nat (min 100 (max 1 (if n = 0 then 50 else n))))"

definition has_prefix :: "string \<Rightarrow> string \<Rightarrow> bool" where
  "has_prefix p s \<longleftrightarrow> take (length p) s = p"

text \<open>The first version; \<open>sub\<close> is the path after \<open>/api/rpg/progression\<close>.\<close>

definition read_v1 :: "string \<Rightarrow> string \<Rightarrow> int option \<Rightarrow> json option \<Rightarrow> request_reading" where
  "read_v1 method sub limit body =
     (let tree_agent = strip_slash (drop (length ''/skill-tree/'') sub); agent = strip_slash (tl sub) in
      if method = ''GET'' \<and> sub \<in> {''/summary'', ''/summary/''} then Serve GetSummary
      else if method = ''GET'' \<and> sub \<in> {''/leaderboard'', ''/leaderboard/''} then Serve (GetLeaderboard (read_limit limit))
      else if method = ''GET'' \<and> has_prefix ''/skill-tree/'' sub \<and> tree_agent \<noteq> [] \<and> list_all id_char tree_agent then Serve (GetSkillTree tree_agent)
      else if method = ''POST'' \<and> sub \<in> {''/skills/unlock'', ''/skills/unlock/''} then read_unlock body
      else if method = ''POST'' \<and> sub \<in> {''/events'', ''/events/''} then read_event body
      else if method = ''POST'' \<and> sub \<in> {''/prestige'', ''/prestige/''} then read_prestige body
      else if method = ''GET'' \<and> has_prefix ''/'' sub \<and> agent \<noteq> [] \<and> list_all id_char agent then Serve (GetProfile agent)
      else if sub \<in> {''/events'', ''/prestige''} then Refuse 405
      else NotHandled)"

text \<open>The second version; \<open>path\<close> is the target as it was sent, its query included, after the prefix.\<close>

record v2_bodies =
  vb_node :: "skill_node option"
  vb_node_id :: "string option"
  vb_layouts :: "node_layout list option"
  vb_tree :: "(tree_node list \<times> skill_edge list) option"
  vb_unlock :: "(string \<times> string) option"

definition or_refuse :: "'a option \<Rightarrow> ('a \<Rightarrow> progression_request) \<Rightarrow> request_reading" where
  "or_refuse v f = (case v of None \<Rightarrow> Refuse 400 | Some x \<Rightarrow> Serve (f x))"

definition read_v2 :: "string \<Rightarrow> string \<Rightarrow> v2_bodies \<Rightarrow> request_reading" where
  "read_v2 method path b =
     (if method = ''GET'' then
        (if path = ''/tree'' then Serve GetTree
         else if has_prefix ''/tree/state/'' path then Serve (GetTreeState (drop (length ''/tree/state/'') path))
         else if path = ''/tree/validate'' then Serve GetValidation
         else if path = ''/tree/export'' then Serve GetExport
         else if has_prefix ''/attribution/'' path then Serve (GetAttribution (Some (drop (length ''/attribution/'') path)))
         else if path = ''/attribution'' then Serve (GetAttribution None)
         else if has_prefix ''/simulate/'' path then Serve (GetSimulation (drop (length ''/simulate/'') path))
         else if path = ''/milestones'' then Serve GetMilestones
         else if has_prefix ''/history/'' path then Serve (GetHistory (drop (length ''/history/'') path))
         else NotHandled)
      else if method = ''POST'' then
        (if path = ''/tree/nodes'' then or_refuse (vb_node b) PostNode
         else if path = ''/tree/layouts'' then or_refuse (vb_layouts b) PostLayouts
         else if path = ''/tree/import'' then or_refuse (vb_tree b) PostImport
         else if path = ''/unlock'' then or_refuse (vb_unlock b) (\<lambda>(a, n). PostUnlockUnchecked a n)
         else NotHandled)
      else if method = ''DELETE'' \<and> path = ''/tree/nodes'' then or_refuse (vb_node_id b) DeleteNode
      else NotHandled)"

text \<open>The second version is asked first.\<close>

definition read_request :: "string \<Rightarrow> string \<Rightarrow> string \<Rightarrow> int option \<Rightarrow> json option \<Rightarrow> v2_bodies \<Rightarrow> request_reading" where
  "read_request method target sub limit body b =
     (case read_v2 method target b of NotHandled \<Rightarrow> read_v1 method sub limit body | r \<Rightarrow> r)"

text \<open>
  Before both, the server asks \<open>handleRpgApi\<close> of \<open>lib/rpg-http.ts\<close>, which takes every path under
  \<open>/api/rpg\<close>: \<open>opens\<close> says whether its database opens. The routes it has itself are not modelled.
\<close>

definition read_rpg :: "string \<Rightarrow> string \<Rightarrow> bool \<Rightarrow> request_reading" where
  "read_rpg method pathname opens =
     (if \<not> has_prefix ''/api/rpg'' pathname then NotHandled
      else if method \<noteq> [] \<and> method \<noteq> ''GET'' then Refuse 405
      else if \<not> opens then Refuse 503
      else if list_ex (\<lambda>p. has_prefix p pathname)
        [''/api/rpg/stats'', ''/api/rpg/khala-network'', ''/api/rpg/tactical-overlay'', ''/api/rpg/protocols'', ''/api/rpg/escalations'']
      then Elsewhere
      else NotHandled)"

definition read_dashboard ::
  "string \<Rightarrow> string \<Rightarrow> string \<Rightarrow> int option \<Rightarrow> json option \<Rightarrow> v2_bodies \<Rightarrow> bool \<Rightarrow> request_reading" where
  "read_dashboard method target sub limit body b opens =
     (case read_rpg method (''/api/rpg/progression'' @ sub) opens of
        NotHandled \<Rightarrow> read_request method target sub limit body b
      | r \<Rightarrow> r)"

section \<open>Serving a request\<close>

fun error_text :: "store_error \<Rightarrow> string" where
  "error_text RawXpNotPositive = ''raw_xp must be positive''"
| "error_text (InvalidCategory c) = ''Invalid source_category: '' @ c"
| "error_text (ProfileNotFound a) = ''Profile not found: '' @ a"
| "error_text AtMaximumRank = ''Already at maximum prestige rank (10)''"
| "error_text NotEligible = ''Not eligible for prestige. Requires higher level and lifetime XP.''"
| "error_text (NodeNotFound n) = ''Skill node not found: '' @ n"
| "error_text (AlreadyUnlocked n) = ''Skill already unlocked: '' @ n"
| "error_text (PrerequisitesNotMet ps) = ''Prerequisites not met: '' @ join_with '', '' ps"
| "error_text (InsufficientXp x c) = ''Insufficient XP: have '' @ show_int x @ '', need '' @ show_int c"
| "error_text (IsPrerequisite n ds) = ''Cannot delete '' @ [CHR 0x22] @ n @ [CHR 0x22] @ '': prerequisite for '' @ join_with '', '' ds"
| "error_text UniqueViolation = ''UNIQUE constraint failed''"
| "error_text ForeignKeyViolation = ''FOREIGN KEY constraint failed''"

definition answer_v1 :: "nat \<Rightarrow> progression_db \<times> (store_error + 'a) \<Rightarrow> progression_db \<times> nat" where
  "answer_v1 ok r = (case r of (db, Inl e) \<Rightarrow> (db, 400) | (db, Inr x) \<Rightarrow> (db, ok))"

definition answer_v2 :: "progression_db \<times> (store_error + 'a) \<Rightarrow> progression_db \<times> nat" where
  "answer_v2 r =
     (case r of (db, Inl e) \<Rightarrow> (db, if contains_text ''not found'' (error_text e) then 404 else 400) | (db, Inr x) \<Rightarrow> (db, 200))"

record store_env =
  st_lg :: "rat \<Rightarrow> rat"
  st_infinite :: "string \<Rightarrow> string \<Rightarrow> progression_db \<Rightarrow> progression_db \<times> nat"

fun serve_open :: "store_env \<Rightarrow> int \<Rightarrow> string \<Rightarrow> progression_request \<Rightarrow> progression_db \<Rightarrow> progression_db \<times> nat" where
  "serve_open env now i (GetProfile a) db = (fst (get_or_create_profile now a None db), 200)"
| "serve_open env now i (GetSkillTree a) db =
     (fst (get_skill_tree_state now a (fst (get_or_create_profile now a None db))), 200)"
| "serve_open env now i (PostEvent a q c d) db = answer_v1 201 (ingest_xp (st_lg env) now i a q c d db)"
| "serve_open env now i (PostInfiniteEvent a c d) db = st_infinite env a c db"
| "serve_open env now i (PostPrestige a) db =
     (case prestige_transition now a db of
        (db', Inr r) \<Rightarrow> (fst (get_or_create_profile now a None db'), 200)
      | (db', Inl e) \<Rightarrow> (db', 400))"
| "serve_open env now i (PostUnlock a n) db = answer_v1 200 (unlock_skill now i a n db)"
| "serve_open env now i (PostNode n) db = answer_v2 (upsert_skill_node n db)"
| "serve_open env now i (DeleteNode n) db = answer_v2 (delete_skill_node n db)"
| "serve_open env now i (PostLayouts ls) db = answer_v2 (save_node_layouts ls db)"
| "serve_open env now i (PostImport t) db = answer_v2 (import_tree t db)"
| "serve_open env now i (GetSimulation a) db = (db, case get_profile a db of None \<Rightarrow> 404 | Some _ \<Rightarrow> 200)"
| "serve_open env now i (PostUnlockUnchecked a n) db = answer_v2 (unlock_skill now i a n db)"
| "serve_open env now i _ db = (db, 200)"

definition serve :: "store_env \<Rightarrow> int \<Rightarrow> string \<Rightarrow> progression_request \<Rightarrow> progression_db \<Rightarrow> progression_db \<times> nat" where
  "serve env now i rq db = serve_open env now i rq (seed_skill_tree db)"

end
