(* ===== verification/Progression_Correct.thy ===== *)
theory Progression_Correct
  imports Progression_Http
begin

text \<open>
  What the progression promises over any run of requests: the accounts of the agents and the tree stay
  consistent, no experience is lost or made, skills rest on their prerequisites, and a valid tree can be
  completed. Then the places where less is promised than it looks.
\<close>

section \<open>Accounts\<close>

definition earned :: "string \<Rightarrow> progression_db \<Rightarrow> int" where
  "earned a db = sum_list (map xe_effective (filter (\<lambda>e. xe_agent e = a) (db_events db)))"

definition cost_of :: "milestone \<Rightarrow> int" where
  "cost_of m = (case ms_metadata m of None \<Rightarrow> 0 | Some (n, c) \<Rightarrow> c)"

definition spent :: "string \<Rightarrow> progression_db \<Rightarrow> int" where
  "spent a db = sum_list (map cost_of (filter (\<lambda>m. ms_agent m = a) (db_milestones db)))"

definition prestiges_of :: "string \<Rightarrow> progression_db \<Rightarrow> prestige_record list" where
  "prestiges_of a db = filter (\<lambda>r. pr_agent r = a) (db_prestiges db)"

definition given_up :: "string \<Rightarrow> progression_db \<Rightarrow> int" where
  "given_up a db = sum_list (map pr_xp (prestiges_of a db))"

text \<open>
  The experience is never negative and the level belongs to it; all experience that was ever earned is there, spent on a skill or
  given up at a prestige; and the ranks were taken one after the other.
\<close>

definition account_ok :: "progression_db \<Rightarrow> progression_profile \<Rightarrow> bool" where
  "account_ok db p \<longleftrightarrow>
     0 \<le> pf_xp p \<and> pf_level p = level_from_xp (pf_xp p) \<and> pf_lifetime p = earned (pf_agent p) db
     \<and> pf_lifetime p = pf_xp p + spent (pf_agent p) db + given_up (pf_agent p) db
     \<and> pf_rank p \<le> max_prestige_rank
     \<and> map (\<lambda>r. (pr_from r, pr_to r)) (prestiges_of (pf_agent p) db) = map (\<lambda>k. (k, Suc k)) [0..<pf_rank p]"

definition agents :: "progression_db \<Rightarrow> string set" where
  "agents db = pf_agent ` set (db_profiles db)"

definition named_agents :: "progression_db \<Rightarrow> string set" where
  "named_agents db = xe_agent ` set (db_events db) \<union> ms_agent ` set (db_milestones db) \<union> pr_agent ` set (db_prestiges db)"

definition accounts_ok :: "progression_db \<Rightarrow> bool" where
  "accounts_ok db \<longleftrightarrow>
     distinct (map pf_agent (db_profiles db)) \<and> (\<forall>p \<in> set (db_profiles db). account_ok db p)
     \<and> named_agents db \<subseteq> agents db"

lemma get_profile_Some: "get_profile a db = Some p \<Longrightarrow> p \<in> set (db_profiles db) \<and> pf_agent p = a"
  unfolding get_profile_def by (drule find_SomeD) simp

lemma get_profile_None: "get_profile a db = None \<longleftrightarrow> a \<notin> agents db"
  by (auto simp: get_profile_def find_None_filter filter_empty_conv agents_def)

text \<open>Operations that leave the four tables alone.\<close>

definition same_accounts :: "progression_db \<Rightarrow> progression_db \<Rightarrow> bool" where
  "same_accounts db db' \<longleftrightarrow>
     db_profiles db' = db_profiles db \<and> db_events db' = db_events db \<and> db_milestones db' = db_milestones db
     \<and> db_prestiges db' = db_prestiges db"

lemma same_accounts_refl [simp]: "same_accounts db db"
  by (simp add: same_accounts_def)

lemma same_accounts_trans: "same_accounts a b \<Longrightarrow> same_accounts b c \<Longrightarrow> same_accounts a c"
  by (simp add: same_accounts_def)

lemma same_accounts_ok: "same_accounts db db' \<Longrightarrow> accounts_ok db' \<longleftrightarrow> accounts_ok db"
  by (simp add: same_accounts_def accounts_ok_def account_ok_def earned_def spent_def given_up_def prestiges_of_def agents_def named_agents_def)

lemma transaction_same: "same_accounts db (fst (f db)) \<Longrightarrow> same_accounts db (fst (transaction f db))"
  by (auto simp: transaction_def split: prod.splits sum.splits)

lemma run_statements_same:
  assumes "\<And>x db db'. f x db = Inr db' \<Longrightarrow> same_accounts db db'"
  shows "same_accounts db (fst (run_statements f xs db))"
  using assms
proof (induction f xs db rule: run_statements.induct)
  case (2 f x xs db)
  show ?case
  proof (cases "f x db")
    case (Inr db')
    from 2(2) [OF Inr] 2(1) [OF Inr 2(2)] show ?thesis using Inr by (auto intro: same_accounts_trans)
  qed simp
qed simp

named_theorems tree_statements "the statements that write the tables of the tree"

lemma insert_node_same [tree_statements]: "insert_node n db = Inr db' \<Longrightarrow> same_accounts db db'"
  by (auto simp: insert_node_def same_accounts_def split: if_splits)

lemma insert_edge_same [tree_statements]: "insert_edge e db = Inr db' \<Longrightarrow> same_accounts db db'"
  by (auto simp: insert_edge_def same_accounts_def split: if_splits)

lemma insert_or_ignore_edge_same [tree_statements]: "insert_or_ignore_edge e db = Inr db' \<Longrightarrow> same_accounts db db'"
  by (auto simp: insert_or_ignore_edge_def same_accounts_def split: if_splits)

lemma upsert_layout_same [tree_statements]: "upsert_layout l db = Inr db' \<Longrightarrow> same_accounts db db'"
  by (auto simp: upsert_layout_def same_accounts_def split: if_splits)

lemma insert_tree_node_same [tree_statements]: "insert_tree_node t db = Inr db' \<Longrightarrow> same_accounts db db'"
  by (auto simp: insert_tree_node_def insert_node_def same_accounts_def split: if_splits option.splits)

lemma ignore_nodes_same: "same_accounts db (fold insert_or_ignore_node ns db)"
  by (induction ns arbitrary: db) (auto simp: insert_or_ignore_node_def same_accounts_def)

lemma seed_same [simp]: "same_accounts db (seed_skill_tree db)"
proof -
  have "same_accounts db (fst (run_statements insert_or_ignore_edge es (fold insert_or_ignore_node ns db)))" for es ns
    by (rule same_accounts_trans [OF ignore_nodes_same run_statements_same]) (rule insert_or_ignore_edge_same)
  then show ?thesis by (simp add: seed_skill_tree_def transaction_same)
qed

lemma upsert_same: "same_accounts db (fst (upsert_skill_node n db))"
proof -
  define db2 where "db2 = (upsert_node n db)\<lparr>db_edges := filter (\<lambda>e. se_to e \<noteq> sn_id n) (db_edges (upsert_node n db))\<rparr>"
  have "same_accounts db db2" by (simp add: db2_def upsert_node_def same_accounts_def)
  moreover have "same_accounts db2 (fst (run_statements (\<lambda>p. insert_or_ignore_edge \<lparr>se_from = p, se_to = sn_id n\<rparr>) ps db2))" for ps
    by (rule run_statements_same) (rule insert_or_ignore_edge_same)
  ultimately show ?thesis
    by (auto simp: upsert_skill_node_def Let_def split_beta split: sum.splits simp flip: db2_def intro: same_accounts_trans)
qed

lemma delete_same: "same_accounts db (fst (delete_skill_node n db))"
  unfolding delete_skill_node_def
  by (rule transaction_same) (simp add: delete_body_def same_accounts_def Let_def)

lemma layouts_same: "same_accounts db (fst (save_node_layouts ls db))"
  unfolding save_node_layouts_def by (intro transaction_same run_statements_same) (rule upsert_layout_same)

lemma import_same: "same_accounts db (fst (import_tree t db))"
  unfolding import_tree_def
proof (rule transaction_same)
  define db1 where "db1 = db\<lparr>db_layouts := [], db_edges := []\<rparr>"
  define db2 where "db2 = run_statements insert_tree_node (fst t) (db1\<lparr>db_nodes := []\<rparr>)"
  have "same_accounts db (db1\<lparr>db_nodes := []\<rparr>)" "same_accounts db db1" by (simp_all add: db1_def same_accounts_def)
  moreover have "same_accounts (db1\<lparr>db_nodes := []\<rparr>) (fst db2)"
    unfolding db2_def by (rule run_statements_same) (rule insert_tree_node_same)
  moreover have "same_accounts (fst db2) (fst (run_statements insert_edge es (fst db2)))" for es
    by (rule run_statements_same) (rule insert_edge_same)
  ultimately show "same_accounts db (fst (import_body t db))"
    by (cases db2) (auto simp: import_body_def Let_def simp flip: db1_def db2_def split: sum.splits intro: same_accounts_trans)
qed

text \<open>Operations on one account.\<close>

lemma set_update_rows: "x \<in> set (update_rows P f xs) \<longleftrightarrow> (\<exists>y \<in> set xs. x = (if P y then f y else y))"
  by (auto simp: update_rows_def)

lemma accounts_ok_change:
  assumes ok: "accounts_ok db" and a: "a \<in> agents db"
    and rows: "db_profiles db' = update_rows (\<lambda>p. pf_agent p = a) f (db_profiles db)"
    and key: "\<And>p. get_profile a db = Some p \<Longrightarrow> pf_agent (f p) = a \<and> account_ok db' (f p)"
    and others: "\<And>b. b \<noteq> a \<Longrightarrow> earned b db' = earned b db \<and> spent b db' = spent b db \<and> prestiges_of b db' = prestiges_of b db"
    and known: "named_agents db' \<subseteq> insert a (named_agents db)"
  shows "accounts_ok db'"
proof -
  have row: "get_profile a db = Some p" if "p \<in> set (db_profiles db)" "pf_agent p = a" for p
  proof -
    obtain q where q: "get_profile a db = Some q" using a by (meson get_profile_None not_None_eq)
    then have "q = p" using get_profile_Some [OF q] that ok
      by (auto simp: accounts_ok_def distinct_map inj_on_def)
    then show ?thesis using q by simp
  qed
  have keys: "map pf_agent (db_profiles db') = map pf_agent (db_profiles db)"
    unfolding rows update_rows_def using row key by (auto simp: comp_def)
  have "account_ok db' p" if p: "p \<in> set (db_profiles db')" for p
  proof -
    obtain q where q: "q \<in> set (db_profiles db)" "p = (if pf_agent q = a then f q else q)"
      using p unfolding rows set_update_rows by blast
    show ?thesis
    proof (cases "pf_agent q = a")
      case True then show ?thesis using key [OF row [OF q(1) True]] q(2) by simp
    next
      case False
      have "account_ok db' q \<longleftrightarrow> account_ok db q" by (simp add: account_ok_def given_up_def others [OF False])
      then show ?thesis using False ok q by (simp add: accounts_ok_def)
    qed
  qed
  moreover have "agents db' = agents db" using keys unfolding agents_def by (metis list.set_map)
  ultimately show ?thesis using ok keys known a by (auto simp: accounts_ok_def)
qed

lemma level_from_xp_zero [simp]: "level_from_xp 0 = 1"
proof -
  have "\<not> xp_for_level 2 \<le> 0" using xp_for_level_step [of 1] by (simp add: xp_for_level_def numeral_2_eq_2)
  then show ?thesis by (simp add: level_from_xp_def level_loop.simps numeral_2_eq_2)
qed

lemma strangers:
  assumes "accounts_ok db" "a \<notin> agents db"
  shows "earned a db = 0" "spent a db = 0" "prestiges_of a db = []"
proof -
  have "filter (\<lambda>e. xe_agent e = a) (db_events db) = []" "filter (\<lambda>m. ms_agent m = a) (db_milestones db) = []"
    "filter (\<lambda>r. pr_agent r = a) (db_prestiges db) = []"
    using assms by (auto simp: accounts_ok_def named_agents_def filter_empty_conv)
  then show "earned a db = 0" "spent a db = 0" "prestiges_of a db = []"
    by (simp_all add: earned_def spent_def prestiges_of_def)
qed

lemma find_append: "List.find P (xs @ ys) = (case List.find P xs of None \<Rightarrow> List.find P ys | Some x \<Rightarrow> Some x)"
  by (induction xs) auto

lemma create_ok:
  assumes "accounts_ok db" "get_or_create_profile now a name db = (db', p)"
  shows "accounts_ok db'" "get_profile a db' = Some p" "db_nodes db' = db_nodes db" "db_unlocks db' = db_unlocks db"
    "db_events db' = db_events db" "db_edges db' = db_edges db" "db_layouts db' = db_layouts db"
proof -
  show "accounts_ok db'"
  proof (cases "get_profile a db")
    case None
    then have new: "a \<notin> agents db" by (simp add: get_profile_None)
    have "account_ok db' q" if "q \<in> set (db_profiles db')" for q
      using that assms None strangers [OF assms(1) new]
      by (auto simp: get_or_create_profile_def new_profile_def account_ok_def accounts_ok_def earned_def spent_def given_up_def
          prestiges_of_def)
    moreover have rows: "db_profiles db' = db_profiles db @ [new_profile now a name]" "db_events db' = db_events db"
      "db_milestones db' = db_milestones db" "db_prestiges db' = db_prestiges db"
      using assms(2) None by (auto simp: get_or_create_profile_def)
    moreover have "agents db' = insert a (agents db)" "named_agents db' = named_agents db" "pf_agent (new_profile now a name) = a"
      using rows by (auto simp: agents_def named_agents_def new_profile_def)
    ultimately show ?thesis using assms(1) new unfolding accounts_ok_def
      by (auto simp: agents_def)
  qed (use assms in \<open>auto simp: get_or_create_profile_def\<close>)
  show "get_profile a db' = Some p"
  proof (cases "get_profile a db")
    case None
    then show ?thesis using assms(2)
      by (auto simp: get_or_create_profile_def get_profile_def new_profile_def find_append split: option.splits)
  qed (use assms in \<open>auto simp: get_or_create_profile_def\<close>)
qed (use assms in \<open>auto simp: get_or_create_profile_def split: option.splits\<close>)

lemma get_profile_ok:
  assumes "accounts_ok db" "get_profile a db = Some p"
  shows "a \<in> agents db" "pf_agent p = a" "0 \<le> pf_xp p" "pf_level p = level_from_xp (pf_xp p)" "pf_lifetime p = earned a db"
    "earned a db = pf_xp p + spent a db + given_up a db" "pf_rank p \<le> max_prestige_rank"
    "map (\<lambda>r. (pr_from r, pr_to r)) (prestiges_of a db) = map (\<lambda>k. (k, Suc k)) [0..<pf_rank p]"
  using get_profile_Some [OF assms(2)] assms(1) by (auto simp: accounts_ok_def agents_def account_ok_def)

lemma ingest_ok:
  assumes "accounts_ok db"
  shows "accounts_ok (fst (ingest_event lg now i a raw c d db))"
proof -
  obtain db1 p where create: "get_or_create_profile now a None db = (db1, p)" by (cases "get_or_create_profile now a None db")
  note ok = create_ok [OF assms create]
  note p = get_profile_ok [OF ok(1,2)]
  obtain db' ans where r: "ingest_event lg now i a raw c d db = (db', ans)" by (cases "ingest_event lg now i a raw c d db")
  define q where "q = ia_profile ans"
  define e where "e = ia_event ans"
  have e: "xe_agent e = a" "1 \<le> xe_effective e" and q: "pf_agent q = a" "pf_xp q = pf_xp p + xe_effective e" "pf_lifetime q = pf_lifetime p + xe_effective e"
      "pf_level q = level_from_xp (pf_xp q)" "pf_rank q = pf_rank p"
    and rows: "db_profiles db' = update_rows (\<lambda>p. pf_agent p = a) (\<lambda>_. q) (db_profiles db1)" "db_events db' = db_events db1 @ [e]"
      "db_milestones db' = db_milestones db1" "db_prestiges db' = db_prestiges db1"
    using r p by (auto simp: ingest_event_def create Let_def update_profile_def q_def e_def)
  have sums: "earned b db' = earned b db1 + (if b = a then xe_effective e else 0)" "spent b db' = spent b db1"
    "prestiges_of b db' = prestiges_of b db1" for b
    using e by (auto simp: earned_def spent_def prestiges_of_def rows)
  have "accounts_ok db'"
  proof (rule accounts_ok_change [OF ok(1) _ rows(1)])
    show "a \<in> agents db1" using p by simp
    show "pf_agent q = a \<and> account_ok db' q" if "get_profile a db1 = Some p'" for p'
      using p q e(2) by (simp add: account_ok_def sums given_up_def)
    show "named_agents db' \<subseteq> insert a (named_agents db1)" using e by (auto simp: named_agents_def rows)
  qed (simp_all add: sums)
  then show ?thesis using r by simp
qed

lemma ingest_xp_ok: "accounts_ok db \<Longrightarrow> accounts_ok (fst (ingest_xp lg now i a raw c d db))"
  using ingest_ok [of db lg now i a raw c d] by (simp add: ingest_xp_def split_beta)

text \<open>A successful unlock, and what it needs.\<close>

definition unlock_effect ::
  "int \<Rightarrow> string \<Rightarrow> string \<Rightarrow> progression_db \<Rightarrow> progression_profile \<Rightarrow> skill_node \<Rightarrow> milestone \<Rightarrow> progression_db \<Rightarrow> bool" where
  "unlock_effect now a node db p n m db' \<longleftrightarrow>
     List.find (\<lambda>n. sn_id n = node) (db_nodes db) = Some n \<and> \<not> list_ex (\<lambda>u. ul_agent u = a \<and> ul_node u = node) (db_unlocks db)
     \<and> set (sn_prerequisites n) \<subseteq> set (unlocked_ids a db) \<and> sn_cost n \<le> pf_xp p \<and> ms_agent m = a \<and> cost_of m = sn_cost n
     \<and> db' = db\<lparr>db_profiles := update_rows (\<lambda>p. pf_agent p = a)
            (\<lambda>_. p\<lparr>pf_xp := pf_xp p - sn_cost n, pf_level := level_from_xp (pf_xp p - sn_cost n), pf_updated := now\<rparr>) (db_profiles db),
          db_unlocks := db_unlocks db @ [\<lparr>ul_agent = a, ul_node = node, ul_at = now, ul_rank = pf_rank p\<rparr>],
          db_milestones := db_milestones db @ [m]\<rparr>"

lemma unlock_body_Inr:
  assumes "unlock_body now i a node db0 = (db', Inr ans)"
  shows "\<exists>db p n m. get_or_create_profile now a None db0 = (db, p) \<and> unlock_effect now a node db p n m db'"
proof -
  obtain db p where create: "get_or_create_profile now a None db0 = (db, p)" by (cases "get_or_create_profile now a None db0")
  obtain n where n: "List.find (\<lambda>n. sn_id n = node) (db_nodes db) = Some n"
    using assms by (cases "List.find (\<lambda>n. sn_id n = node) (db_nodes db)") (simp_all add: unlock_body_def create)
  have "unlock_effect now a node db p n (last (db_milestones db')) db'"
    using assms n by (auto simp: unlock_body_def create Let_def update_profile_def record_milestone_def filter_empty_conv cost_of_def
        unlock_effect_def split: if_splits)
  with create show ?thesis by blast
qed

lemma unlock_ok:
  assumes "accounts_ok db0"
  shows "accounts_ok (fst (unlock_skill now i a node db0))"
proof (cases "unlock_body now i a node db0")
  case (Pair db' r)
  show ?thesis
  proof (cases r)
    case (Inl e) then show ?thesis using assms Pair by (simp add: unlock_skill_def transaction_def)
  next
    case (Inr ans)
    from unlock_body_Inr [OF Pair [unfolded Inr]] obtain db p n m where
      create: "get_or_create_profile now a None db0 = (db, p)" and effect: "unlock_effect now a node db p n m db'" by blast
    have rows: "db_profiles db' = update_rows (\<lambda>p. pf_agent p = a)
         (\<lambda>_. p\<lparr>pf_xp := pf_xp p - sn_cost n, pf_level := level_from_xp (pf_xp p - sn_cost n), pf_updated := now\<rparr>) (db_profiles db)"
      and m: "db_milestones db' = db_milestones db @ [m]" "ms_agent m = a" "cost_of m = sn_cost n"
      and rest: "db_events db' = db_events db" "db_prestiges db' = db_prestiges db" "sn_cost n \<le> pf_xp p"
      using effect by (simp_all add: unlock_effect_def)
    note ok = create_ok [OF assms create]
    note p = get_profile_ok [OF ok(1,2)]
    have sums: "earned b db' = earned b db" "spent b db' = spent b db + (if b = a then sn_cost n else 0)"
      "prestiges_of b db' = prestiges_of b db" for b
      using m by (auto simp: earned_def spent_def prestiges_of_def rest)
    have "accounts_ok db'"
    proof (rule accounts_ok_change [OF ok(1) _ rows])
      show "a \<in> agents db" using p by simp
      show "pf_agent (p\<lparr>pf_xp := pf_xp p - sn_cost n, pf_level := level_from_xp (pf_xp p - sn_cost n), pf_updated := now\<rparr>) = a
        \<and> account_ok db' (p\<lparr>pf_xp := pf_xp p - sn_cost n, pf_level := level_from_xp (pf_xp p - sn_cost n), pf_updated := now\<rparr>)"
        if "get_profile a db = Some p'" for p'
        using p rest(3) by (simp add: account_ok_def sums given_up_def)
      show "named_agents db' \<subseteq> insert a (named_agents db)" using m by (auto simp: named_agents_def rest)
    qed (simp_all add: sums)
    then show ?thesis using Pair Inr by (simp add: unlock_skill_def transaction_def)
  qed
qed

lemma prestige_ok:
  assumes "accounts_ok db"
  shows "accounts_ok (fst (prestige_transition now a db))"
proof (cases "prestige_body now a db")
  case (Pair db' r)
  show ?thesis
  proof (cases r)
    case (Inl e) then show ?thesis using assms Pair by (simp add: prestige_transition_def transaction_def)
  next
    case (Inr ans)
    then obtain p where p: "get_profile a db = Some p" "pf_rank p < max_prestige_rank"
      using Pair by (auto simp: prestige_body_def split: option.splits if_splits)
    define rec where "rec = last (db_prestiges db')"
    have rec: "pr_agent rec = a" "pr_from rec = pf_rank p" "pr_to rec = pf_rank p + 1" "pr_xp rec = pf_xp p"
      and rows: "db_profiles db' = update_rows (\<lambda>p. pf_agent p = a) (\<lambda>p. p\<lparr>pf_xp := 0, pf_level := 1, pf_rank := pr_to rec, pf_updated := now\<rparr>)
          (db_profiles db)" "db_prestiges db' = db_prestiges db @ [rec]" "db_events db' = db_events db" "db_milestones db' = db_milestones db"
      using Pair Inr p by (auto simp: prestige_body_def Let_def update_profile_def rec_def split: if_splits)
    note ok = get_profile_ok [OF assms p(1)]
    have sums: "earned b db' = earned b db" "spent b db' = spent b db"
      "prestiges_of b db' = prestiges_of b db @ (if b = a then [rec] else [])" for b
      using rec by (auto simp: earned_def spent_def prestiges_of_def rows)
    have "accounts_ok db'"
    proof (rule accounts_ok_change [OF assms _ rows(1)])
      show "a \<in> agents db" using ok by simp
      show "pf_agent (q\<lparr>pf_xp := 0, pf_level := 1, pf_rank := pr_to rec, pf_updated := now\<rparr>) = a
        \<and> account_ok db' (q\<lparr>pf_xp := 0, pf_level := 1, pf_rank := pr_to rec, pf_updated := now\<rparr>)" if "get_profile a db = Some q" for q
        using ok p that rec by (simp add: account_ok_def sums given_up_def max_prestige_rank_def)
      show "named_agents db' \<subseteq> insert a (named_agents db)" using rec by (auto simp: named_agents_def rows)
    qed (simp_all add: sums)
    then show ?thesis using Pair Inr by (simp add: prestige_transition_def transaction_def)
  qed
qed

section \<open>Runs of requests\<close>

fun serve_all :: "store_env \<Rightarrow> (int \<times> string \<times> progression_request) list \<Rightarrow> progression_db \<Rightarrow> progression_db" where
  "serve_all env [] db = db"
| "serve_all env ((now, i, rq) # rqs) db = serve_all env rqs (fst (serve env now i rq db))"

fun finite_request :: "progression_request \<Rightarrow> bool" where
  "finite_request (PostInfiniteEvent a c d) = False"
| "finite_request _ = True"

lemma serve_all_induct:
  assumes "I db" "\<And>now i rq db. I db \<Longrightarrow> P rq \<Longrightarrow> I (fst (serve env now i rq db))"
  shows "I (serve_all env (filter (\<lambda>(now, i, rq). P rq) rqs) db)"
  using assms(1)
proof (induction rqs arbitrary: db)
  case (Cons r rqs)
  obtain now i rq where r: "r = (now, i, rq)" by (cases r)
  show ?case
  proof (cases "P rq")
    case True
    from Cons.IH [OF assms(2) [OF Cons.prems True]] True show ?thesis by (simp add: r)
  next
    case False with Cons show ?thesis by (simp add: r)
  qed
qed simp

lemma answer_state [simp]: "fst (answer_v1 k r) = fst r" "fst (answer_v2 r) = fst r"
  by (simp_all add: answer_v1_def answer_v2_def split: prod.splits sum.splits)

lemma create_state: "accounts_ok db \<Longrightarrow> accounts_ok (fst (get_or_create_profile now a name db))"
  using create_ok(1) [of db now a name] by (cases "get_or_create_profile now a name db") simp

lemma tree_state_ok: "accounts_ok db \<Longrightarrow> accounts_ok (fst (get_skill_tree_state now a db))"
  using create_state [of db now a None] by (simp add: get_skill_tree_state_def split_beta Let_def)

lemma tree_ops_ok:
  assumes "accounts_ok db"
  shows "accounts_ok (fst (upsert_skill_node n db))" "accounts_ok (fst (delete_skill_node i db))"
    "accounts_ok (fst (save_node_layouts ls db))" "accounts_ok (fst (import_tree t db))" "accounts_ok (seed_skill_tree db)"
  using assms same_accounts_ok [OF upsert_same] same_accounts_ok [OF delete_same] same_accounts_ok [OF layouts_same]
    same_accounts_ok [OF import_same] same_accounts_ok [OF seed_same] by simp_all

lemma prestige_request_ok:
  assumes "accounts_ok db"
  shows "accounts_ok (fst (case prestige_transition now a db of
      (db', Inr r) \<Rightarrow> (fst (get_or_create_profile now a None db'), 200) | (db', Inl e) \<Rightarrow> (db', 400)))"
  using prestige_ok [OF assms, of now a] by (auto split: prod.splits sum.splits intro: create_state)

lemma serve_open_ok:
  assumes "accounts_ok db" "finite_request rq"
  shows "accounts_ok (fst (serve_open env now i rq db))"
proof (cases rq)
  case (PostPrestige a)
  then show ?thesis using prestige_request_ok [OF assms(1), of now a] by simp
qed (use assms in \<open>simp_all add: create_state tree_state_ok ingest_xp_ok unlock_ok tree_ops_ok\<close>)

lemma serve_ok: "accounts_ok db \<Longrightarrow> finite_request rq \<Longrightarrow> accounts_ok (fst (serve env now i rq db))"
  by (simp add: serve_def serve_open_ok tree_ops_ok)

lemma empty_accounts_ok: "accounts_ok empty_db"
  by (simp add: accounts_ok_def empty_db_def named_agents_def)

text \<open>
  C6: Over every run of requests, of the agents and of those who edit the tree, the accounts stay consistent:
  each agent has one account, whose level is that of its experience; the experience it ever earned is the
  sum of its events, and is what it has, what its unlocked skills cost and what it gave up at
  prestiges together; and its prestige records lead from rank to rank, without a gap, to its rank, at most ten.
\<close>

theorem experience_is_conserved:
  "accounts_ok (serve_all env (filter (\<lambda>(now, i, rq). finite_request rq) rqs) empty_db)"
  by (rule serve_all_induct [of accounts_ok _ finite_request, OF empty_accounts_ok serve_ok])

section \<open>Keys and references\<close>

text \<open>The primary keys of the tree's tables are unique, and no row refers to a missing node.\<close>

definition tables_ok :: "progression_db \<Rightarrow> bool" where
  "tables_ok db \<longleftrightarrow>
     distinct (map sn_id (db_nodes db)) \<and> distinct (db_edges db) \<and> distinct (map nl_node (db_layouts db))
     \<and> distinct (map (\<lambda>u. (ul_agent u, ul_node u)) (db_unlocks db))
     \<and> (\<forall>e \<in> set (db_edges db). has_node db (se_from e) \<and> has_node db (se_to e))
     \<and> (\<forall>u \<in> set (db_unlocks db). has_node db (ul_node u)) \<and> (\<forall>l \<in> set (db_layouts db). has_node db (nl_node l))"

lemma run_statements_inv:
  assumes "I db" "\<And>x db db'. f x db = Inr db' \<Longrightarrow> I db \<Longrightarrow> I db'"
  shows "I (fst (run_statements f xs db))"
  using assms(1)
proof (induction xs arbitrary: db)
  case (Cons x xs)
  then show ?case by (cases "f x db") (auto intro: assms(2))
qed simp

lemma transaction_inv: "I db \<Longrightarrow> I (fst (f db)) \<Longrightarrow> I (fst (transaction f db))"
  by (auto simp: transaction_def split: prod.splits sum.splits)

lemma map_update_rows: "(\<And>x. P x \<Longrightarrow> g (f x) = g x) \<Longrightarrow> map g (update_rows P f xs) = map g xs"
  by (auto simp: update_rows_def)

lemma append_node_tables: "tables_ok db \<Longrightarrow> \<not> has_node db (sn_id n) \<Longrightarrow> tables_ok (db\<lparr>db_nodes := db_nodes db @ [n]\<rparr>)"
  by (auto simp: tables_ok_def has_node_def)

lemma insert_node_tables: "insert_node n db = Inr db' \<Longrightarrow> tables_ok db \<Longrightarrow> tables_ok db'"
  by (auto simp: insert_node_def append_node_tables split: if_splits)

lemma insert_edge_tables: "insert_edge e db = Inr db' \<Longrightarrow> tables_ok db \<Longrightarrow> tables_ok db'"
  by (auto simp: insert_edge_def tables_ok_def has_node_def split: if_splits)

lemma insert_or_ignore_edge_tables: "insert_or_ignore_edge e db = Inr db' \<Longrightarrow> tables_ok db \<Longrightarrow> tables_ok db'"
  by (auto simp: insert_or_ignore_edge_def tables_ok_def has_node_def split: if_splits)

lemma upsert_layout_tables: "upsert_layout l db = Inr db' \<Longrightarrow> tables_ok db \<Longrightarrow> tables_ok db'"
  by (auto simp: upsert_layout_def tables_ok_def has_node_def map_update_rows set_update_rows split: if_splits)

lemma insert_tree_node_tables:
  assumes "insert_tree_node t db = Inr db'" "tables_ok db"
  shows "tables_ok db'"
proof -
  obtain db1 where db1: "insert_node (tn_node t) db = Inr db1" using assms(1) by (auto simp: insert_tree_node_def split: sum.splits)
  have ok: "tables_ok db1" by (rule insert_node_tables [OF db1 assms(2)])
  have new: "has_node db1 (sn_id (tn_node t))" "sn_id (tn_node t) \<notin> nl_node ` set (db_layouts db1)"
    using db1 assms(2) by (auto simp: insert_node_def has_node_def tables_ok_def split: if_splits)
  show ?thesis using assms(1) db1 ok new
    by (auto simp: insert_tree_node_def tables_ok_def has_node_def split: option.splits)
qed

lemma ignore_nodes_tables: "tables_ok db \<Longrightarrow> tables_ok (fold insert_or_ignore_node ns db)"
  by (induction ns arbitrary: db) (auto simp: insert_or_ignore_node_def append_node_tables)

lemma seed_tables:
  assumes "tables_ok db"
  shows "tables_ok (seed_skill_tree db)"
proof -
  have "tables_ok (fst (run_statements insert_or_ignore_edge es (fold insert_or_ignore_node ns db)))" for es ns
    using ignore_nodes_tables [OF assms] by (rule run_statements_inv) (rule insert_or_ignore_edge_tables)
  then show ?thesis using assms by (simp add: seed_skill_tree_def transaction_inv [of tables_ok])
qed

lemma upsert_node_tables:
  assumes "tables_ok db"
  shows "tables_ok (upsert_node n db)"
proof (cases "has_node db (sn_id n)")
  case True
  have "map sn_id (update_rows (\<lambda>m. sn_id m = sn_id n) (\<lambda>_. n) (db_nodes db)) = map sn_id (db_nodes db)"
    by (rule map_update_rows) simp
  moreover from this have "sn_id ` set (update_rows (\<lambda>m. sn_id m = sn_id n) (\<lambda>_. n) (db_nodes db)) = sn_id ` set (db_nodes db)"
    by (metis list.set_map)
  ultimately show ?thesis using assms True by (simp add: upsert_node_def tables_ok_def has_node_def)
qed (use assms append_node_tables in \<open>simp add: upsert_node_def\<close>)

lemma upsert_tables: "tables_ok db \<Longrightarrow> tables_ok (fst (upsert_skill_node n db))"
proof -
  assume "tables_ok db"
  define db2 where "db2 = (upsert_node n db)\<lparr>db_edges := filter (\<lambda>e. se_to e \<noteq> sn_id n) (db_edges (upsert_node n db))\<rparr>"
  have "tables_ok db2" using upsert_node_tables [OF \<open>tables_ok db\<close>, of n] by (auto simp: db2_def tables_ok_def has_node_def)
  then have "tables_ok (fst (run_statements (\<lambda>p. insert_or_ignore_edge \<lparr>se_from = p, se_to = sn_id n\<rparr>) ps db2))" for ps
    by (rule run_statements_inv) (rule insert_or_ignore_edge_tables)
  then show ?thesis
    by (auto simp: upsert_skill_node_def Let_def split: prod.splits sum.splits simp flip: db2_def) (metis fst_conv)+
qed

lemma has_node_filter: "has_node (db\<lparr>db_nodes := filter (\<lambda>m. sn_id m \<noteq> n) (db_nodes db)\<rparr>) i \<longleftrightarrow> has_node db i \<and> i \<noteq> n"
  by (auto simp: has_node_def)

lemma delete_tables:
  assumes "tables_ok db"
  shows "tables_ok (fst (delete_skill_node n db))"
  unfolding delete_skill_node_def
proof (rule transaction_inv [of tables_ok, OF assms])
  show "tables_ok (fst (delete_body n db))"
  proof (cases "filter (\<lambda>e. se_from e = n) (db_edges db)")
    case Nil
    then have "se_from e \<noteq> n" if "e \<in> set (db_edges db)" for e using that by (auto simp: filter_empty_conv)
    then show ?thesis using assms has_node_filter [of n db] Nil
      by (simp add: delete_body_def tables_ok_def distinct_map_filter has_node_def)
  qed (use assms in \<open>simp add: delete_body_def\<close>)
qed

lemma layouts_tables:
  assumes "tables_ok db"
  shows "tables_ok (fst (save_node_layouts ls db))"
  unfolding save_node_layouts_def
proof (rule transaction_inv [of tables_ok, OF assms])
  show "tables_ok (fst (run_statements upsert_layout ls db))" using assms by (rule run_statements_inv) (rule upsert_layout_tables)
qed

lemma import_tables:
  assumes "tables_ok db"
  shows "tables_ok (fst (import_tree t db))"
  unfolding import_tree_def
proof (rule transaction_inv [of tables_ok, OF assms])
  define db1 where "db1 = db\<lparr>db_layouts := [], db_edges := []\<rparr>"
  define db2 where "db2 = run_statements insert_tree_node (fst t) (db1\<lparr>db_nodes := []\<rparr>)"
  have ok1: "tables_ok db1" using assms by (simp add: db1_def tables_ok_def has_node_def)
  have ok2: "tables_ok (fst db2)" if "\<not> list_ex (\<lambda>u. has_node db1 (ul_node u)) (db_unlocks db1)"
  proof -
    have "tables_ok (db1\<lparr>db_nodes := []\<rparr>)"
      using that assms by (auto simp: db1_def tables_ok_def has_node_def list_ex_iff)
    then show ?thesis unfolding db2_def by (rule run_statements_inv) (rule insert_tree_node_tables)
  qed
  have "tables_ok (fst (run_statements insert_edge es (fst db2)))" if "\<not> list_ex (\<lambda>u. has_node db1 (ul_node u)) (db_unlocks db1)" for es
    using ok2 [OF that] by (rule run_statements_inv) (rule insert_edge_tables)
  with ok1 ok2 show "tables_ok (fst (import_body t db))"
    by (cases db2) (auto simp: import_body_def Let_def simp flip: db1_def db2_def split: sum.splits)
qed

text \<open>The tables of the tree, as the operations of the agents leave them.\<close>

definition same_tree :: "progression_db \<Rightarrow> progression_db \<Rightarrow> bool" where
  "same_tree db db' \<longleftrightarrow>
     db_nodes db' = db_nodes db \<and> db_edges db' = db_edges db \<and> db_layouts db' = db_layouts db \<and> db_unlocks db' = db_unlocks db"

lemma same_tree_tables: "same_tree db db' \<Longrightarrow> tables_ok db' \<longleftrightarrow> tables_ok db"
  by (simp add: same_tree_def tables_ok_def has_node_def)

lemma create_same_tree: "same_tree db (fst (get_or_create_profile now a name db))"
  by (simp add: get_or_create_profile_def same_tree_def split: option.splits)

lemma ingest_same_tree: "same_tree db (fst (ingest_xp lg now i a raw c d db))"
  using create_same_tree [of db now a None]
  by (simp add: ingest_xp_def ingest_event_def Let_def split_beta update_profile_def same_tree_def)

lemma tree_state_same_tree: "same_tree db (fst (get_skill_tree_state now a db))"
  using create_same_tree [of db now a None] by (simp add: get_skill_tree_state_def split_beta Let_def)

lemma create_tables: "get_or_create_profile now a name db0 = (db, p) \<Longrightarrow> tables_ok db \<longleftrightarrow> tables_ok db0"
  using same_tree_tables [OF create_same_tree [of db0 now a name]] by simp

lemma unlock_body_tables:
  assumes "tables_ok db0" "unlock_body now i a node db0 = (db', Inr ans)"
  shows "tables_ok db'"
proof -
  from unlock_body_Inr [OF assms(2)] obtain db p n m where
    create: "get_or_create_profile now a None db0 = (db, p)" and effect: "unlock_effect now a node db p n m db'" by blast
  have ok: "tables_ok db" using create_tables [OF create] assms(1) by simp
  have node: "has_node db node" using effect by (auto simp: unlock_effect_def has_node_def dest: find_SomeD)
  have new: "(a, node) \<notin> (\<lambda>u. (ul_agent u, ul_node u)) ` set (db_unlocks db)"
    using effect by (auto simp: unlock_effect_def list_ex_iff)
  have rows: "db_nodes db' = db_nodes db" "db_edges db' = db_edges db" "db_layouts db' = db_layouts db"
    "db_unlocks db' = db_unlocks db @ [\<lparr>ul_agent = a, ul_node = node, ul_at = now, ul_rank = pf_rank p\<rparr>]"
    using effect by (simp_all add: unlock_effect_def)
  then show ?thesis using ok node new by (simp add: tables_ok_def has_node_def)
qed

lemma unlock_tables:
  assumes "tables_ok db"
  shows "tables_ok (fst (unlock_skill now i a node db))"
proof (cases "unlock_body now i a node db")
  case (Pair db' r)
  then show ?thesis using assms unlock_body_tables [OF assms, of now i a node]
    by (cases r) (simp_all add: unlock_skill_def transaction_def)
qed

lemma prestige_rows:
  assumes "prestige_transition now a db = (db', r)"
  shows "db_nodes db' = db_nodes db \<and> db_edges db' = db_edges db \<and> db_layouts db' = db_layouts db \<and> db_events db' = db_events db
    \<and> (db_unlocks db' = db_unlocks db \<or> db_unlocks db' = filter (\<lambda>u. ul_agent u \<noteq> a) (db_unlocks db))"
  using assms
  by (auto simp: prestige_transition_def transaction_def prestige_body_def Let_def update_profile_def split: option.splits if_splits)

lemma prestige_tables: "tables_ok db \<Longrightarrow> tables_ok (fst (prestige_transition now a db))"
  using prestige_rows [of now a db]
  by (cases "prestige_transition now a db") (auto simp: tables_ok_def has_node_def distinct_map_filter)

lemma prestige_request_state:
  "fst (case prestige_transition now a db of
      (db', Inr r) \<Rightarrow> (fst (get_or_create_profile now a None db'), 200 :: nat) | (db', Inl e) \<Rightarrow> (db', 400))
   \<in> {fst (prestige_transition now a db), fst (get_or_create_profile now a None (fst (prestige_transition now a db)))}"
  by (auto split: prod.splits sum.splits)

lemma serve_open_tables:
  assumes "tables_ok db" "finite_request rq"
  shows "tables_ok (fst (serve_open env now i rq db))"
proof (cases rq)
  case (PostPrestige a)
  have "tables_ok (fst (prestige_transition now a db))" by (rule prestige_tables [OF assms(1)])
  with same_tree_tables [OF create_same_tree [of "fst (prestige_transition now a db)" now a None]]
    prestige_request_state [of now a db] PostPrestige
  show ?thesis by auto
next
  case (GetSkillTree a)
  with assms same_tree_tables [OF tree_state_same_tree [of "fst (get_or_create_profile now a None db)" now a]]
    same_tree_tables [OF create_same_tree [of db now a None]]
  show ?thesis by simp
next
  case (GetProfile a)
  with assms same_tree_tables [OF create_same_tree [of db now a None]] show ?thesis by simp
next
  case (PostEvent a q c d)
  with assms same_tree_tables [OF ingest_same_tree [of db "st_lg env" now i a q c d]] show ?thesis by simp
qed (use assms in \<open>simp_all add: unlock_tables upsert_tables delete_tables layouts_tables import_tables\<close>)

text \<open>
  Over every run of requests the tables of the tree keep their keys and their references: no two nodes
  have the same identifier, no skill is unlocked twice by an agent, and edges, unlocks and positions refer to
  nodes that exist, also after imports that failed halfway and edits that were refused.
\<close>

theorem tree_tables_keep_their_references:
  "tables_ok (serve_all env (filter (\<lambda>(now, i, rq). finite_request rq) rqs) empty_db)"
proof (rule serve_all_induct [of tables_ok _ finite_request])
  show "tables_ok empty_db" by (simp add: tables_ok_def empty_db_def)
  show "tables_ok (fst (serve env now i rq db))" if "tables_ok db" "finite_request rq" for now i rq db
    unfolding serve_def by (rule serve_open_tables [OF seed_tables [OF that(1)] that(2)])
qed

section \<open>Skills and their prerequisites\<close>

text \<open>Requests that do not edit the tree.\<close>

fun agent_request :: "progression_request \<Rightarrow> bool" where
  "agent_request (PostNode n) = False"
| "agent_request (DeleteNode n) = False"
| "agent_request (PostImport t) = False"
| "agent_request rq = finite_request rq"

definition skills_of :: "string \<Rightarrow> progression_db \<Rightarrow> string set" where
  "skills_of a db = ul_node ` {u \<in> set (db_unlocks db). ul_agent u = a}"

definition rests_on_prerequisites :: "progression_db \<Rightarrow> bool" where
  "rests_on_prerequisites db \<longleftrightarrow>
     (\<forall>a. \<forall>n \<in> set (db_nodes db). sn_id n \<in> skills_of a db \<longrightarrow> set (sn_prerequisites n) \<subseteq> skills_of a db)"

lemma set_unlocked_ids: "set (unlocked_ids a db) = skills_of a db"
  by (auto simp: unlocked_ids_def get_unlocks_def skills_of_def)

lemma rests_same_tree: "same_tree db db' \<Longrightarrow> rests_on_prerequisites db' \<longleftrightarrow> rests_on_prerequisites db"
  by (simp add: same_tree_def rests_on_prerequisites_def skills_of_def)

lemma seed_unlocks: "db_unlocks (seed_skill_tree db) = db_unlocks db"
proof -
  have "db_unlocks (fold insert_or_ignore_node ns d) = db_unlocks d" for ns d
    by (induction ns arbitrary: d) (auto simp: insert_or_ignore_node_def)
  moreover have "db_unlocks (fst (run_statements insert_or_ignore_edge es d)) = db_unlocks d" for es d
    by (rule run_statements_inv [of "\<lambda>x. db_unlocks x = db_unlocks d"]) (auto simp: insert_or_ignore_edge_def split: if_splits)
  ultimately show ?thesis
    by (simp add: seed_skill_tree_def transaction_inv [of "\<lambda>x. db_unlocks x = db_unlocks db"])
qed

lemma seed_rests:
  assumes "tables_ok db" "rests_on_prerequisites db"
  shows "rests_on_prerequisites (seed_skill_tree db)"
proof (cases "db_nodes db = []")
  case True
  then have "db_unlocks (seed_skill_tree db) = []" unfolding seed_unlocks
    using assms(1) by (cases "db_unlocks db") (auto simp: tables_ok_def has_node_def)
  then show ?thesis by (simp add: rests_on_prerequisites_def skills_of_def)
qed (use assms in \<open>simp add: seed_skill_tree_def\<close>)

lemma layouts_rests: "rests_on_prerequisites (fst (save_node_layouts ls db)) \<longleftrightarrow> rests_on_prerequisites db"
proof -
  let ?I = "\<lambda>d. db_nodes d = db_nodes db \<and> db_unlocks d = db_unlocks db"
  have "?I (fst (save_node_layouts ls db))"
    unfolding save_node_layouts_def
  proof (rule transaction_inv [of ?I])
    show "?I (fst (run_statements upsert_layout ls db))"
      by (rule run_statements_inv [of ?I]) (auto simp: upsert_layout_def split: if_splits)
  qed simp
  then show ?thesis by (simp add: rests_on_prerequisites_def skills_of_def)
qed

lemma unlock_body_rests:
  assumes "tables_ok db0" "rests_on_prerequisites db0" "unlock_body now i a node db0 = (db', Inr ans)"
  shows "rests_on_prerequisites db'"
proof -
  from unlock_body_Inr [OF assms(3)] obtain db p n m where
    create: "get_or_create_profile now a None db0 = (db, p)" and effect: "unlock_effect now a node db p n m db'" by blast
  have same: "same_tree db0 db" using create_same_tree [of db0 now a None] create by simp
  have ok: "tables_ok db" "rests_on_prerequisites db"
    using assms(1,2) same_tree_tables [OF same] rests_same_tree [OF same] by simp_all
  have n: "n \<in> set (db_nodes db)" "sn_id n = node" using effect by (auto simp: unlock_effect_def dest: find_SomeD)
  have only: "m = n" if "m \<in> set (db_nodes db)" "sn_id m = node" for m
    using ok(1) n that by (auto simp: tables_ok_def distinct_map inj_on_def)
  define u where "u = \<lparr>ul_agent = a, ul_node = node, ul_at = now, ul_rank = pf_rank p\<rparr>"
  have u: "db_unlocks db' = db_unlocks db @ [u]" "ul_agent u = a" "ul_node u = node"
    using effect by (simp_all add: unlock_effect_def u_def)
  then have "{x \<in> set (db_unlocks db'). ul_agent x = b}
      = {x \<in> set (db_unlocks db). ul_agent x = b} \<union> (if b = a then {u} else {})" for b by auto
  then have skills: "skills_of b db' = (if b = a then insert node (skills_of a db) else skills_of b db)" for b
    using u(3) by (simp add: skills_of_def image_Un)
  have nodes: "db_nodes db' = db_nodes db" and pre: "set (sn_prerequisites n) \<subseteq> skills_of a db"
    using effect by (simp_all add: unlock_effect_def set_unlocked_ids)
  show ?thesis unfolding rests_on_prerequisites_def nodes
  proof (intro allI ballI impI)
    fix b m assume m: "m \<in> set (db_nodes db)" "sn_id m \<in> skills_of b db'"
    show "set (sn_prerequisites m) \<subseteq> skills_of b db'"
    proof (cases "b = a \<and> sn_id m = node")
      case True
      then show ?thesis using only [OF m(1)] pre by (auto simp: skills)
    next
      case False
      then have "sn_id m \<in> skills_of b db" using m(2) by (auto simp: skills split: if_splits)
      then have "set (sn_prerequisites m) \<subseteq> skills_of b db" using ok(2) m(1) by (simp add: rests_on_prerequisites_def)
      then show ?thesis by (auto simp: skills)
    qed
  qed
qed

lemma unlock_rests:
  assumes "tables_ok db" "rests_on_prerequisites db"
  shows "rests_on_prerequisites (fst (unlock_skill now i a node db))"
proof (cases "unlock_body now i a node db")
  case (Pair db' r)
  then show ?thesis using assms unlock_body_rests [OF assms, of now i a node]
    by (cases r) (simp_all add: unlock_skill_def transaction_def)
qed

lemma prestige_rests:
  assumes "rests_on_prerequisites db"
  shows "rests_on_prerequisites (fst (prestige_transition now a db))"
proof (cases "prestige_transition now a db")
  case (Pair db' r)
  from prestige_rows [OF Pair] have nodes: "db_nodes db' = db_nodes db"
    and "skills_of b db' = skills_of b db \<or> (b = a \<and> skills_of b db' = {})" for b
    by (auto simp: skills_of_def)
  then show ?thesis using assms Pair unfolding rests_on_prerequisites_def by (metis empty_iff fst_conv)
qed

lemma serve_open_rests:
  assumes "tables_ok db" "rests_on_prerequisites db" "agent_request rq"
  shows "rests_on_prerequisites (fst (serve_open env now i rq db))"
proof (cases rq)
  case (PostPrestige a)
  have "rests_on_prerequisites (fst (prestige_transition now a db))" by (rule prestige_rests [OF assms(2)])
  with rests_same_tree [OF create_same_tree [of "fst (prestige_transition now a db)" now a None]]
    prestige_request_state [of now a db] PostPrestige
  show ?thesis by auto
next
  case (GetSkillTree a)
  with assms rests_same_tree [OF tree_state_same_tree [of "fst (get_or_create_profile now a None db)" now a]]
    rests_same_tree [OF create_same_tree [of db now a None]]
  show ?thesis by simp
next
  case (GetProfile a)
  with assms rests_same_tree [OF create_same_tree [of db now a None]] show ?thesis by simp
next
  case (PostEvent a q c d)
  with assms rests_same_tree [OF ingest_same_tree [of db "st_lg env" now i a q c d]] show ?thesis by simp
qed (use assms in \<open>simp_all add: unlock_rests layouts_rests\<close>)

lemma agent_request_finite: "agent_request rq \<Longrightarrow> finite_request rq"
  by (cases rq) simp_all

text \<open>
  C27: While nobody edits the tree, what an agent has unlocked rests on its prerequisites: whoever has a skill has
  all the skills that it needs, through unlocks, refusals and prestiges of all agents.
\<close>

theorem skills_rest_on_their_prerequisites:
  "rests_on_prerequisites (serve_all env (filter (\<lambda>(now, i, rq). agent_request rq) rqs) empty_db)"
proof -
  let ?I = "\<lambda>db. tables_ok db \<and> rests_on_prerequisites db"
  have "?I (serve_all env (filter (\<lambda>(now, i, rq). agent_request rq) rqs) empty_db)"
  proof (rule serve_all_induct [of ?I _ agent_request])
    show "?I empty_db" by (simp add: tables_ok_def empty_db_def rests_on_prerequisites_def)
    show "?I (fst (serve env now i rq db))" if "?I db" "agent_request rq" for now i rq db
      using that seed_tables [of db] seed_rests [of db] unfolding serve_def
      by (simp add: serve_open_tables serve_open_rests agent_request_finite)
  qed
  then show ?thesis by simp
qed

end
