(* ===== verification/Progression_Runs.thy ===== *)
theory Progression_Runs
  imports Progression_Correct "HOL-Library.Multiset"
begin

text \<open>
  The weight of events over time, the completion of a tree, and what the progression does not
  promise: edits of the tree that fail halfway or never end, statuses that disagree, and requests of the dashboard
  that never reach it.
\<close>

section \<open>The weight of events\<close>

definition events_of :: "string \<Rightarrow> progression_db \<Rightarrow> xp_event list" where
  "events_of a db = filter (\<lambda>e. xe_agent e = a) (db_events db)"

definition count_event :: "xp_event \<Rightarrow> (string, int) jsmap \<Rightarrow> (string, int) jsmap" where
  "count_event e m = js_set (xe_category e) (nullish (js_get m (xe_category e)) 0 + 1) m"

lemma count_events:
  "distinct (map fst (fold count_event es [])) \<and> fst ` set (fold count_event es []) = xe_category ` set es
   \<and> (\<forall>x \<in> set (fold count_event es []). 0 < snd x)"
proof (induction es rule: rev_induct)
  case (snoc e es)
  define m where "m = fold count_event es []"
  define v where "v = nullish (js_get m (xe_category e)) 0 + 1"
  have step: "fold count_event (es @ [e]) [] = js_set (xe_category e) v m" by (simp add: count_event_def [of e] m_def v_def)
  have IH: "distinct (map fst m)" "fst ` set m = xe_category ` set es" "\<forall>x \<in> set m. 0 < snd x"
    using snoc.IH by (simp_all add: m_def)
  have "0 < v" using IH(3) js_get_in [of m "xe_category e"] by (cases "js_get m (xe_category e)") (force simp: v_def)+
  then show ?case unfolding step using IH set_js_set [of "xe_category e" v m] by (auto simp: distinct_js_set fst_js_set)
qed simp

lemma category_counts_def': "category_counts a db = take 50 (sort_by (\<lambda>x y. snd y \<le> snd x) (fold count_event (events_of a db) []))"
  by (simp add: category_counts_def events_of_def count_event_def [abs_def])

definition valid_events :: "progression_db \<Rightarrow> bool" where
  "valid_events db \<longleftrightarrow> xe_category ` set (db_events db) \<subseteq> set xp_categories"

lemma category_counts_spec:
  assumes "valid_events db"
  shows "distinct (map fst (category_counts a db))" "fst ` set (category_counts a db) = xe_category ` set (events_of a db)"
    "\<forall>x \<in> set (category_counts a db). 0 < snd x"
proof -
  let ?m = "fold count_event (events_of a db) []" and ?le = "\<lambda>x y :: string \<times> int. snd y \<le> snd x"
  note m = count_events [of "events_of a db"]
  have "xe_category ` set (events_of a db) \<subseteq> set xp_categories" using assms by (auto simp: valid_events_def events_of_def)
  then have "card (fst ` set ?m) \<le> length xp_categories" using m by (metis List.finite_set card_length card_mono order_trans)
  moreover have "length ?m = card (fst ` set ?m)" using distinct_card [OF conjunct1 [OF m]] unfolding list.set_map length_map by (rule sym)
  ultimately have "length ?m \<le> 10" by (simp add: xp_categories_def)
  then have all: "category_counts a db = sort_by ?le ?m" by (simp add: category_counts_def')
  have "card (set (map fst (sort_by ?le ?m))) = length (map fst (sort_by ?le ?m))"
    using distinct_card [OF conjunct1 [OF m]] by simp
  then show "distinct (map fst (category_counts a db))" unfolding all by (rule card_distinct)
  show "fst ` set (category_counts a db) = xe_category ` set (events_of a db)" "\<forall>x \<in> set (category_counts a db). 0 < snd x"
    using m by (simp_all add: all)
qed

lemma multiplier_of_ingest:
  assumes "valid_events db"
  shows "diversification_multiplier (js_set c (nullish (js_get (category_counts a db) c) 0 + 1) (category_counts a db))
    = variety_multiplier (card (insert c (xe_category ` set (events_of a db))))"
proof -
  let ?m = "js_set c (nullish (js_get (category_counts a db) c) 0 + 1) (category_counts a db)"
  note spec = category_counts_spec [OF assms, of a]
  have keys: "distinct (js_keys ?m)" "set (js_keys ?m) = insert c (xe_category ` set (events_of a db))"
    using spec(1,2) by (simp_all add: js_keys_def distinct_js_set fst_js_set)
  have pos: "0 < nullish (js_get (category_counts a db) k) 0 + (if k = c then 1 else 0)" if "k \<in> insert c (fst ` set (category_counts a db))" for k
  proof (cases "js_get (category_counts a db) k")
    case None then show ?thesis using that js_get_None_iff [of "category_counts a db" k] by auto
  next
    case (Some v) then have "0 < v" using spec(3) js_get_in by fastforce
    then show ?thesis using Some by simp
  qed
  have "0 < nullish (js_get ?m k) 0" if "k \<in> set (js_keys ?m)" for k
    using pos [of k] that keys(2) spec(2) by (auto split: if_splits)
  then have "filter (\<lambda>k. 0 < nullish (js_get ?m k) 0) (js_keys ?m) = js_keys ?m" by (simp add: filter_id_conv)
  then show ?thesis using keys distinct_card [OF keys(1)] by (simp add: diversification_multiplier_def)
qed

text \<open>
  The events of an agent weigh what the number of its categories up to then is worth.
\<close>

definition weighed_events :: "xp_event list \<Rightarrow> bool" where
  "weighed_events es \<longleftrightarrow>
     map xe_multiplier es = map (\<lambda>k. variety_multiplier (card (xe_category ` set (take (Suc k) es)))) [0..<length es]"

definition events_ok :: "progression_db \<Rightarrow> bool" where
  "events_ok db \<longleftrightarrow> valid_events db \<and> (\<forall>a. weighed_events (events_of a db))"

lemma weighed_snoc:
  "weighed_events es \<Longrightarrow> xe_multiplier e = variety_multiplier (card (insert (xe_category e) (xe_category ` set es)))
   \<Longrightarrow> weighed_events (es @ [e])"
  by (simp add: weighed_events_def)

lemma same_events: "db_events db' = db_events db \<Longrightarrow> events_ok db' \<longleftrightarrow> events_ok db"
  by (simp add: events_ok_def valid_events_def events_of_def)

lemma create_events: "db_events (fst (get_or_create_profile now a name db)) = db_events db"
  by (simp add: get_or_create_profile_def split: option.splits)

lemma ingest_events:
  assumes "events_ok db"
  shows "events_ok (fst (ingest_xp lg now i a raw c d db))"
proof (cases "0 < raw \<and> is_valid_category c")
  case True
  obtain db1 p where create: "get_or_create_profile now a None db = (db1, p)" by (cases "get_or_create_profile now a None db")
  have ok: "events_ok db1" using same_events [OF create_events [of now a None db]] assms create by simp
  define e where "e = ia_event (snd (ingest_event lg now i a raw c d db))"
  have e: "xe_agent e = a" "xe_category e = c"
    "xe_multiplier e = diversification_multiplier (js_set c (nullish (js_get (category_counts a db1) c) 0 + 1) (category_counts a db1))"
    by (simp_all add: e_def ingest_event_def create Let_def)
  have rows: "db_events (fst (ingest_xp lg now i a raw c d db)) = db_events db1 @ [e]"
    using True by (simp add: ingest_xp_def ingest_event_def create Let_def update_profile_def e_def)
  have "valid_events (fst (ingest_xp lg now i a raw c d db))"
    using ok True by (simp add: events_ok_def valid_events_def rows e is_valid_category_def)
  moreover have "weighed_events (events_of b (fst (ingest_xp lg now i a raw c d db)))" for b
  proof -
    have "events_of b (fst (ingest_xp lg now i a raw c d db)) = events_of b db1 @ (if b = a then [e] else [])"
      by (auto simp: events_of_def rows e)
    moreover have "weighed_events (events_of b db1)" "valid_events db1" using ok by (simp_all add: events_ok_def)
    moreover have "weighed_events (events_of a db1 @ [e])"
      using ok multiplier_of_ingest [of db1 c a] by (intro weighed_snoc) (simp_all only: events_ok_def e)
    ultimately show ?thesis by simp
  qed
  ultimately show ?thesis by (simp add: events_ok_def)
qed (use assms in \<open>auto simp: ingest_xp_def\<close>)

lemma tree_ops_events:
  "db_events (fst (upsert_skill_node n db)) = db_events db" "db_events (fst (delete_skill_node i db)) = db_events db"
  "db_events (fst (save_node_layouts ls db)) = db_events db" "db_events (fst (import_tree t db)) = db_events db"
  "db_events (seed_skill_tree db) = db_events db"
  using upsert_same [of db n] delete_same [of db i] layouts_same [of db ls] import_same [of db t] seed_same [of db]
  by (simp_all add: same_accounts_def)

lemma unlock_events: "db_events (fst (unlock_skill now i a node db)) = db_events db"
proof (cases "unlock_body now i a node db")
  case (Pair db' r)
  show ?thesis
  proof (cases r)
    case (Inr ans)
    from unlock_body_Inr [OF Pair [unfolded Inr]] obtain d p n m where
      "get_or_create_profile now a None db = (d, p)" "unlock_effect now a node d p n m db'" by blast
    then have "db_events db' = db_events db" using create_events [of now a None db] by (simp add: unlock_effect_def)
    then show ?thesis using Pair Inr by (simp add: unlock_skill_def transaction_def)
  qed (simp add: unlock_skill_def transaction_def Pair)
qed

lemma prestige_events: "db_events (fst (prestige_transition now a db)) = db_events db"
  using prestige_rows [of now a db] by (cases "prestige_transition now a db") simp

lemma serve_open_events:
  assumes "events_ok db" "finite_request rq"
  shows "events_ok (fst (serve_open env now i rq db))"
proof (cases rq)
  case (PostEvent a q c d)
  then show ?thesis using ingest_events [OF assms(1)] by simp
next
  case (PostPrestige a)
  define d where "d = fst (prestige_transition now a db)"
  have "fst (serve_open env now i rq db) \<in> {d, fst (get_or_create_profile now a None d)}"
    unfolding PostPrestige serve_open.simps d_def by (rule prestige_request_state)
  moreover have "db_events d = db_events db" by (simp add: d_def prestige_events)
  ultimately have "db_events (fst (serve_open env now i rq db)) = db_events db"
    using create_events [of now a None d] by (elim insertE) simp_all
  from same_events [OF this] assms(1) show ?thesis by simp
next
  case (GetSkillTree a)
  have "db_events (fst (serve_open env now i rq db)) = db_events db"
    using GetSkillTree by (simp add: get_skill_tree_state_def split_beta Let_def create_events)
  from same_events [OF this] assms(1) show ?thesis by simp
next
  case (GetProfile a)
  then show ?thesis using same_events [OF create_events [of now a None db]] assms(1) by simp
next
  case (PostUnlock a n)
  then show ?thesis using same_events [OF unlock_events [of now i a n db]] assms(1) by simp
next
  case (PostUnlockUnchecked a n)
  then show ?thesis using same_events [OF unlock_events [of now i a n db]] assms(1) by simp
next
  case (PostNode n)
  then show ?thesis using same_events [OF tree_ops_events(1) [of n db]] assms(1) by simp
next
  case (DeleteNode n)
  then show ?thesis using same_events [OF tree_ops_events(2) [of n db]] assms(1) by simp
next
  case (PostLayouts ls)
  then show ?thesis using same_events [OF tree_ops_events(3) [of ls db]] assms(1) by simp
next
  case (PostImport t)
  then show ?thesis using same_events [OF tree_ops_events(4) [of t db]] assms(1) by simp
qed (use assms in simp_all)

text \<open>
  In every run the events of an agent weigh more and more: the weight is that of the number of categories the agent
  ever had, from a half for the first event to one and a half, and it never falls again, whatever the agent
  does from then on.
\<close>

theorem weights_never_fall:
  "let es = events_of a (serve_all env (filter (\<lambda>(now, i, rq). finite_request rq) rqs) empty_db)
   in map xe_multiplier es = map (\<lambda>k. variety_multiplier (card (xe_category ` set (take (Suc k) es)))) [0..<length es]
      \<and> sorted (map xe_multiplier es) \<and> set (map xe_multiplier es) \<subseteq> {1 / 2 .. 3 / 2}"
proof -
  let ?db = "serve_all env (filter (\<lambda>(now, i, rq). finite_request rq) rqs) empty_db"
  define es where "es = events_of a ?db"
  have "events_ok ?db"
  proof (rule serve_all_induct [of events_ok _ finite_request])
    show "events_ok empty_db" by (simp add: events_ok_def valid_events_def events_of_def empty_db_def weighed_events_def)
    show "events_ok (fst (serve env now i rq db))" if "events_ok db" "finite_request rq" for now i rq db
      unfolding serve_def using that same_events [OF tree_ops_events(5), of db] by (intro serve_open_events) simp_all
  qed
  then have w: "map xe_multiplier es = map (\<lambda>k. variety_multiplier (card (xe_category ` set (take (Suc k) es)))) [0..<length es]"
    by (simp add: events_ok_def weighed_events_def es_def)
  have "sorted (map (\<lambda>k. variety_multiplier (card (xe_category ` set (take (Suc k) es)))) [0..<length es])"
  proof (rule sorted_iff_nth_mono [THEN iffD2], intro allI impI)
    fix i j assume ij: "i \<le> j" "j < length (map (\<lambda>k. variety_multiplier (card (xe_category ` set (take (Suc k) es)))) [0..<length es])"
    have "xe_category ` set (take (Suc i) es) \<subseteq> xe_category ` set (take (Suc j) es)"
      using ij(1) by (intro image_mono set_take_subset_set_take) simp
    moreover have "xe_category ` set (take (Suc i) es) \<noteq> {}" using ij by (cases es) auto
    ultimately have "1 \<le> card (xe_category ` set (take (Suc i) es))"
      "card (xe_category ` set (take (Suc i) es)) \<le> card (xe_category ` set (take (Suc j) es))"
      by (simp_all add: card_mono Suc_leI card_gt_0_iff)
    from variety_multiplier_mono [OF this] ij show "map (\<lambda>k. variety_multiplier (card (xe_category ` set (take (Suc k) es)))) [0..<length es] ! i
      \<le> map (\<lambda>k. variety_multiplier (card (xe_category ` set (take (Suc k) es)))) [0..<length es] ! j" by simp
  qed
  moreover have "set (map xe_multiplier es) \<subseteq> {1 / 2 .. 3 / 2}" unfolding w using variety_multiplier_bounds by auto
  ultimately show ?thesis unfolding Let_def es_def [symmetric] using w by (metis (no_types, lifting))
qed

section \<open>A valid tree can be completed\<close>

text \<open>An order in which everything that is below an element comes before it, given the elements that are there.\<close>

fun in_order :: "('a \<times> 'a) set \<Rightarrow> 'a set \<Rightarrow> 'a list \<Rightarrow> bool" where
  "in_order r D [] = True"
| "in_order r D (x # xs) = (r\<inverse> `` {x} \<subseteq> D \<and> x \<notin> D \<and> in_order r (insert x D) xs)"

lemma topological_order:
  assumes "finite A" "acyclic r" "finite r" "r\<inverse> `` A \<subseteq> A \<union> D" "A \<inter> D = {}"
  shows "\<exists>xs. set xs = A \<and> distinct xs \<and> in_order r D xs"
  using assms
proof (induction "card A" arbitrary: A D)
  case 0
  then have "A = {}" by simp
  then show ?case by (intro exI [of _ "[]"]) simp
next
  case (Suc k)
  then obtain a where "a \<in> A" by fastforce
  obtain x where x: "x \<in> A" "\<And>y. (y, x) \<in> r \<Longrightarrow> y \<notin> A"
    using wfE_min [OF finite_acyclic_wf [OF Suc.prems(3,2)] \<open>a \<in> A\<close>] by metis
  have "\<exists>xs. set xs = A - {x} \<and> distinct xs \<and> in_order r (insert x D) xs"
  proof (rule Suc.hyps(1))
    show "k = card (A - {x})" using Suc.hyps(2) x(1) Suc.prems(1) by simp
    show "r\<inverse> `` (A - {x}) \<subseteq> A - {x} \<union> insert x D" using Suc.prems(4) by auto
  qed (use Suc.prems x in auto)
  then obtain xs where "set xs = A - {x}" "distinct xs" "in_order r (insert x D) xs" by blast
  moreover have "r\<inverse> `` {x} \<subseteq> D" "x \<notin> D" using x Suc.prems(4,5) by auto
  ultimately show ?case using x(1) by (intro exI [of _ "x # xs"]) auto
qed

fun unlock_all :: "int \<Rightarrow> string \<Rightarrow> string \<Rightarrow> string list \<Rightarrow> progression_db \<Rightarrow> progression_db \<times> bool" where
  "unlock_all now i a [] db = (db, True)"
| "unlock_all now i a (n # ns) db =
     (case unlock_skill now i a n db of (db', Inl e) \<Rightarrow> (db', False) | (db', Inr r) \<Rightarrow> unlock_all now i a ns db')"

lemma find_update_rows:
  "pf_agent q = a \<Longrightarrow> List.find (\<lambda>p. pf_agent p = a) (update_rows (\<lambda>p. pf_agent p = a) (\<lambda>_. q) ps)
     = map_option (\<lambda>_. q) (List.find (\<lambda>p. pf_agent p = a) ps)"
  by (induction ps) (auto simp: update_rows_def)

text \<open>An unlock succeeds when the node is there and new, its prerequisites are unlocked and its cost is there.\<close>

lemma unlock_succeeds:
  assumes p: "get_profile a db = Some p" and n: "List.find (\<lambda>n. sn_id n = node) (db_nodes db) = Some n"
    and new: "node \<notin> skills_of a db" and pre: "set (sn_prerequisites n) \<subseteq> skills_of a db" and cost: "sn_cost n \<le> pf_xp p"
  shows "\<exists>db' ans p'. unlock_skill now i a node db = (db', Inr ans) \<and> get_profile a db' = Some p' \<and> pf_xp p' = pf_xp p - sn_cost n
    \<and> skills_of a db' = insert node (skills_of a db) \<and> db_nodes db' = db_nodes db"
proof -
  have fresh: "\<not> list_ex (\<lambda>u. ul_agent u = a \<and> ul_node u = node) (db_unlocks db)"
    using new by (auto simp: skills_of_def list_ex_iff)
  have missing: "filter (\<lambda>q. q \<notin> set (unlocked_ids a db)) (sn_prerequisites n) = []"
    using pre by (auto simp: filter_empty_conv set_unlocked_ids)
  obtain db' ans where r: "unlock_body now i a node db = (db', Inr ans)"
    using p n fresh missing cost by (simp add: unlock_body_def get_or_create_profile_def Let_def)
  from unlock_body_Inr [OF r] p n obtain m where effect: "unlock_effect now a node db p n m db'"
    by (auto simp: get_or_create_profile_def unlock_effect_def)
  define u where "u = \<lparr>ul_agent = a, ul_node = node, ul_at = now, ul_rank = pf_rank p\<rparr>"
  have u: "db_unlocks db' = db_unlocks db @ [u]" "ul_agent u = a" "ul_node u = node"
    using effect by (simp_all add: unlock_effect_def u_def)
  have "{x \<in> set (db_unlocks db'). ul_agent x = a} = insert u {x \<in> set (db_unlocks db). ul_agent x = a}" using u by auto
  then have "skills_of a db' = insert node (skills_of a db)" using u(3) by (simp add: skills_of_def)
  moreover have "get_profile a db' = Some (p\<lparr>pf_xp := pf_xp p - sn_cost n, pf_level := level_from_xp (pf_xp p - sn_cost n), pf_updated := now\<rparr>)"
    using effect p get_profile_Some [OF p] by (simp add: unlock_effect_def get_profile_def find_update_rows)
  moreover have "db_nodes db' = db_nodes db" using effect by (simp add: unlock_effect_def)
  ultimately show ?thesis using r by (simp add: unlock_skill_def transaction_def)
qed

definition needs :: "skill_node list \<Rightarrow> (string \<times> string) set" where
  "needs ns = {(q, sn_id n) | q n. n \<in> set ns \<and> q \<in> set (sn_prerequisites n)}"

definition cost_at :: "skill_node list \<Rightarrow> string \<Rightarrow> int" where
  "cost_at ns i = (case List.find (\<lambda>n. sn_id n = i) ns of None \<Rightarrow> 0 | Some n \<Rightarrow> sn_cost n)"

lemma unlock_all_succeeds:
  assumes "get_profile a db = Some p" "in_order (needs (db_nodes db)) (skills_of a db) order" "set order \<subseteq> sn_id ` set (db_nodes db)"
    "sum_list (map (cost_at (db_nodes db)) order) \<le> pf_xp p" "\<And>n. n \<in> set (db_nodes db) \<Longrightarrow> 0 < sn_cost n"
  shows "snd (unlock_all now i a order db)"
  using assms
proof (induction order arbitrary: db p)
  case (Cons x order)
  obtain n where n: "List.find (\<lambda>n. sn_id n = x) (db_nodes db) = Some n"
    using Cons.prems(3) find_None_filter [of "\<lambda>n. sn_id n = x" "db_nodes db"]
    by (cases "List.find (\<lambda>n. sn_id n = x) (db_nodes db)") (auto simp: filter_empty_conv)
  then have mem: "n \<in> set (db_nodes db)" "sn_id n = x" by (auto dest: find_SomeD)
  then have "set (sn_prerequisites n) \<subseteq> (needs (db_nodes db))\<inverse> `` {x}" by (auto simp: needs_def)
  then have pre: "set (sn_prerequisites n) \<subseteq> skills_of a db" "x \<notin> skills_of a db" using Cons.prems(2) by auto
  have pos: "0 \<le> cost_at (db_nodes db) j" for j using Cons.prems(5)
    by (auto simp: cost_at_def intro: less_imp_le dest!: find_SomeD split: option.splits)
  then have "0 \<le> sum_list (map (cost_at (db_nodes db)) order)" by (intro sum_list_nonneg) auto
  moreover have here: "cost_at (db_nodes db) x = sn_cost n" using n by (simp add: cost_at_def)
  ultimately have cost: "sn_cost n \<le> pf_xp p" and rest: "sum_list (map (cost_at (db_nodes db)) order) \<le> pf_xp p - sn_cost n"
    using Cons.prems(4) by simp_all
  obtain db' ans p' where step: "unlock_skill now i a x db = (db', Inr ans)" "get_profile a db' = Some p'" "pf_xp p' = pf_xp p - sn_cost n"
    "skills_of a db' = insert x (skills_of a db)" "db_nodes db' = db_nodes db"
    using unlock_succeeds [OF Cons.prems(1) n pre(2,1) cost] by blast
  have "snd (unlock_all now i a order db')"
    using step Cons.prems rest by (intro Cons.IH [OF step(2)]) simp_all
  then show ?case using step(1) by simp
qed simp

lemma sum_costs:
  assumes "distinct (map sn_id ns)" "set order = sn_id ` set ns" "distinct order"
  shows "sum_list (map (cost_at ns) order) = sum_list (map sn_cost ns)"
proof -
  have "cost_at ns (sn_id n) = sn_cost n" if "n \<in> set ns" for n
  proof -
    have "List.find (\<lambda>m. sn_id m = sn_id n) ns = Some n" using assms(1) that
      by (induction ns) (auto simp: rev_image_eqI)
    then show ?thesis by (simp add: cost_at_def)
  qed
  then have costs: "map (cost_at ns) (map sn_id ns) = map sn_cost ns" by simp
  have "mset order = mset (map sn_id ns)" using assms by (metis distinct_card list.set_map set_eq_iff_mset_eq_distinct)
  then have "sum_list (map (cost_at ns) order) = sum_list (map (cost_at ns) (map sn_id ns))"
    by (metis mset_map sum_mset_sum_list)
  then show ?thesis unfolding costs .
qed

lemma well_formed_sorted: "well_formed_tree (get_skill_nodes db) es \<longleftrightarrow> well_formed_tree (db_nodes db) es"
proof -
  have "distinct (map sn_id (sort_by le ns)) \<longleftrightarrow> distinct (map sn_id ns)" for le and ns :: "skill_node list"
    by (metis card_distinct distinct_card length_map length_sort_by list.set_map set_sort_by)
  then show ?thesis by (simp add: well_formed_tree_def get_skill_nodes_def)
qed

text \<open>
  C21: In a tree that validation accepts, and whose edges cover the prerequisites, nothing is out of reach: an agent
  that has the experience all nodes cost together can unlock all of them, in some order, without a refusal.
\<close>

theorem valid_trees_can_be_completed:
  assumes "tv_valid (validate_tree db)" "set (prerequisite_edges (db_nodes db)) \<subseteq> set (db_edges db)"
    and "get_profile a db = Some p" "skills_of a db = {}" "sum_list (map sn_cost (db_nodes db)) \<le> pf_xp p"
  shows "\<exists>order. set order = sn_id ` set (db_nodes db) \<and> distinct order \<and> snd (unlock_all now i a order db)"
proof -
  have tree: "well_formed_tree (db_nodes db) (db_edges db)"
    using assms(1) by (simp add: validate_tree_def validate_valid well_formed_sorted)
  have "needs (db_nodes db) \<subseteq> edge_rel (prerequisite_edges (db_nodes db))"
    by (force simp: needs_def edge_rel_def prerequisite_edges_def)
  also have "\<dots> \<subseteq> edge_rel (db_edges db)" unfolding edge_rel_def using assms(2) by (rule image_mono)
  finally have sub: "needs (db_nodes db) \<subseteq> edge_rel (db_edges db)" .
  have acyclic: "acyclic (needs (db_nodes db))" using tree acyclic_subset [OF _ sub] by (simp add: well_formed_tree_def)
  have finite: "finite (needs (db_nodes db))" using sub by (rule finite_subset) (simp add: edge_rel_def)
  have "(needs (db_nodes db))\<inverse> `` (sn_id ` set (db_nodes db)) \<subseteq> sn_id ` set (db_nodes db) \<union> {}"
    using tree by (auto simp: needs_def well_formed_tree_def)
  from topological_order [OF _ acyclic finite this] obtain order where order: "set order = sn_id ` set (db_nodes db)" "distinct order"
    "in_order (needs (db_nodes db)) {} order" by auto
  have "sum_list (map (cost_at (db_nodes db)) order) \<le> pf_xp p"
    using sum_costs [OF _ order(1,2)] tree assms(5) by (simp add: well_formed_tree_def)
  then have "snd (unlock_all now i a order db)"
    using order assms(3,4) tree by (intro unlock_all_succeeds [OF assms(3)]) (auto simp: well_formed_tree_def)
  with order show ?thesis by blast
qed

text \<open>A store with the default tree, and an agent that can afford all of it.\<close>

definition wealthy_db :: progression_db where
  "wealthy_db = (seed_skill_tree empty_db)\<lparr>db_profiles := [(new_profile 0 ''echo'' None)\<lparr>pf_xp := 6000\<rparr>]\<rparr>"

lemma ignore_nodes_all:
  "distinct (map sn_id (db_nodes db @ ns)) \<Longrightarrow> fold insert_or_ignore_node ns db = db\<lparr>db_nodes := db_nodes db @ ns\<rparr>"
  by (induction ns arbitrary: db) (auto simp: insert_or_ignore_node_def has_node_def)

lemma ignore_edges_all:
  "distinct (db_edges db @ es) \<Longrightarrow> \<forall>e \<in> set es. has_node db (se_from e) \<and> has_node db (se_to e)
   \<Longrightarrow> run_statements insert_or_ignore_edge es db = (db\<lparr>db_edges := db_edges db @ es\<rparr>, Inr ())"
  by (induction es arbitrary: db) (auto simp: insert_or_ignore_edge_def has_node_def)

lemma seed_default:
  assumes "db_nodes db = []" "db_edges db = []"
  shows "seed_skill_tree db = db\<lparr>db_nodes := default_nodes, db_edges := prerequisite_edges default_nodes\<rparr>"
proof -
  have tree: "well_formed_tree default_nodes (prerequisite_edges default_nodes)"
    using default_tree_well_formed by (simp add: default_skill_tree_def)
  have nodes: "fold insert_or_ignore_node default_nodes db = db\<lparr>db_nodes := default_nodes\<rparr>"
    using ignore_nodes_all [of db default_nodes] tree assms(1) by (simp add: well_formed_tree_def)
  have "distinct (prerequisite_edges default_nodes)" by code_simp
  then have "run_statements insert_or_ignore_edge (prerequisite_edges default_nodes) (db\<lparr>db_nodes := default_nodes\<rparr>)
      = (db\<lparr>db_nodes := default_nodes, db_edges := prerequisite_edges default_nodes\<rparr>, Inr ())"
    using ignore_edges_all [of "db\<lparr>db_nodes := default_nodes\<rparr>" "prerequisite_edges default_nodes"] tree assms(2)
    by (simp add: well_formed_tree_def has_node_def)
  then show ?thesis using assms nodes by (simp add: seed_skill_tree_def transaction_def default_skill_tree_def)
qed

theorem valid_trees_can_be_completed_witness:
  "\<exists>order. set order = sn_id ` set default_nodes \<and> distinct order \<and> snd (unlock_all 0 ''m'' ''echo'' order wealthy_db)"
proof -
  have db: "db_nodes wealthy_db = default_nodes" "db_edges wealthy_db = prerequisite_edges default_nodes" "db_unlocks wealthy_db = []"
    by (simp_all add: wealthy_db_def seed_default empty_db_def)
  have "tv_valid (validate_tree wealthy_db)"
    using default_tree_well_formed by (simp add: validate_tree_def validate_valid well_formed_sorted db default_skill_tree_def)
  moreover have "get_profile ''echo'' wealthy_db = Some ((new_profile 0 ''echo'' None)\<lparr>pf_xp := 6000\<rparr>)"
    by (simp add: get_profile_def wealthy_db_def new_profile_def)
  moreover have "sum_list (map sn_cost (db_nodes wealthy_db)) \<le> 6000" by (simp add: db default_nodes_def skill_def)
  ultimately show ?thesis
    using valid_trees_can_be_completed [of wealthy_db "''echo''" "(new_profile 0 ''echo'' None)\<lparr>pf_xp := 6000\<rparr>" 0 "''m''"]
    by (simp add: db skills_of_def)
qed

section \<open>What does not reach the progression\<close>














section \<open>Edits of the tree\<close>

text \<open>
  An import is refused as soon as any agent has unlocked anything, since the nodes cannot be
  deleted; where none has, importing an empty tree succeeds, and the next request brings the default tree back.
\<close>

theorem imports_stop_working:
  "(case unlock_skill now i a node db of (db', Inl e) \<Rightarrow> True | (db', Inr r) \<Rightarrow> import_tree t db' = (db', Inl ForeignKeyViolation))
   \<and> (case import_tree ([], []) (db\<lparr>db_unlocks := []\<rparr>) of
        (db', Inl e) \<Rightarrow> False
      | (db', Inr _) \<Rightarrow> db_nodes db' = [] \<and> db_nodes (fst (serve env now i GetTree db')) = default_nodes)"
proof
  show "case unlock_skill now i a node db of (db', Inl e) \<Rightarrow> True | (db', Inr r) \<Rightarrow> import_tree t db' = (db', Inl ForeignKeyViolation)"
  proof (cases "unlock_body now i a node db")
    case (Pair db' r)
    show ?thesis
    proof (cases r)
      case (Inr ans)
      from unlock_body_Inr [OF Pair [unfolded Inr]] obtain d p n m where effect: "unlock_effect now a node d p n m db'" by blast
      have "\<exists>u \<in> set (db_unlocks db'). has_node db' (ul_node u)"
        using effect by (auto simp: unlock_effect_def has_node_def dest: find_SomeD)
      then have "list_ex (\<lambda>u. has_node (db'\<lparr>db_layouts := [], db_edges := []\<rparr>) (ul_node u)) (db_unlocks db')"
        by (auto simp: list_ex_iff has_node_def)
      then show ?thesis using Pair Inr by (simp add: unlock_skill_def transaction_def import_tree_def import_body_def Let_def)
    qed (simp add: unlock_skill_def transaction_def Pair)
  qed
  show "case import_tree ([], []) (db\<lparr>db_unlocks := []\<rparr>) of
      (db', Inl e) \<Rightarrow> False
    | (db', Inr _) \<Rightarrow> db_nodes db' = [] \<and> db_nodes (fst (serve env now i GetTree db')) = default_nodes"
    by (simp add: import_tree_def transaction_def import_body_def Let_def serve_def seed_default)
qed

lemma edges_into_node:
  assumes "has_node db i" "\<forall>e \<in> set (db_edges db). se_to e = i \<longrightarrow> has_node db (se_from e)"
  shows "case run_statements (\<lambda>p. insert_or_ignore_edge \<lparr>se_from = p, se_to = i\<rparr>) ps db of
    (db', r) \<Rightarrow> db_nodes db' = db_nodes db \<and> r = (if list_all (has_node db) ps then Inr () else Inl ForeignKeyViolation)"
  using assms
proof (induction ps arbitrary: db)
  case (Cons p ps)
  let ?e = "\<lparr>se_from = p, se_to = i\<rparr>"
  consider (old) "?e \<in> set (db_edges db)" "has_node db p" | (new) "?e \<notin> set (db_edges db)" "has_node db p"
    | (none) "?e \<notin> set (db_edges db)" "\<not> has_node db p" using Cons.prems(2) by fastforce
  then show ?case
  proof cases
    case old
    then show ?thesis using Cons by (simp add: insert_or_ignore_edge_def)
  next
    case new
    let ?db = "db\<lparr>db_edges := db_edges db @ [?e]\<rparr>"
    have "has_node ?db = has_node db" by (simp add: has_node_def fun_eq_iff)
    then show ?thesis using Cons.IH [of ?db] Cons.prems new by (simp add: insert_or_ignore_edge_def)
  next
    case none
    then show ?thesis by (simp add: insert_or_ignore_edge_def)
  qed
qed simp

lemma upsert_spec:
  "case upsert_skill_node n db of
    (db', r) \<Rightarrow> n \<in> set (db_nodes db')
      \<and> r = (if list_all (\<lambda>p. p = sn_id n \<or> has_node db p) (sn_prerequisites n) then Inr n else Inl ForeignKeyViolation)
      \<and> sn_id ` set (db_nodes db') = insert (sn_id n) (sn_id ` set (db_nodes db))"
proof -
  define db2 where "db2 = (upsert_node n db)\<lparr>db_edges := filter (\<lambda>e. se_to e \<noteq> sn_id n) (db_edges (upsert_node n db))\<rparr>"
  have nodes: "db_nodes db2 = (if has_node db (sn_id n) then update_rows (\<lambda>m. sn_id m = sn_id n) (\<lambda>_. n) (db_nodes db) else db_nodes db @ [n])"
    by (simp add: db2_def upsert_node_def)
  have "map sn_id (update_rows (\<lambda>m. sn_id m = sn_id n) (\<lambda>_. n) (db_nodes db)) = map sn_id (db_nodes db)"
    by (rule map_update_rows) simp
  then have same: "sn_id ` set (update_rows (\<lambda>m. sn_id m = sn_id n) (\<lambda>_. n) (db_nodes db)) = sn_id ` set (db_nodes db)"
    by (metis list.set_map)
  have ids: "sn_id ` set (db_nodes db2) = insert (sn_id n) (sn_id ` set (db_nodes db))"
    unfolding nodes using same by (auto simp: has_node_def)
  have n: "n \<in> set (db_nodes db2)"
    unfolding nodes by (auto simp: has_node_def set_update_rows)
  have "has_node db2 (sn_id n)" "\<forall>e \<in> set (db_edges db2). se_to e = sn_id n \<longrightarrow> has_node db2 (se_from e)"
    using ids by (auto simp: db2_def has_node_def)
  note * = edges_into_node [OF this, of "sn_prerequisites n"]
  have
    "case run_statements (\<lambda>p. insert_or_ignore_edge \<lparr>se_from = p, se_to = sn_id n\<rparr>) (sn_prerequisites n) db2 of
      (db', r) \<Rightarrow> db_nodes db' = db_nodes db2
        \<and> r = (if list_all (\<lambda>p. p = sn_id n \<or> has_node db p) (sn_prerequisites n) then Inr () else Inl ForeignKeyViolation)"
  proof -
    have "has_node db2 = (\<lambda>p. p = sn_id n \<or> has_node db p)" using ids by (simp add: has_node_def fun_eq_iff)
    with * show ?thesis by simp
  qed
  then show ?thesis using n ids
    by (auto simp: upsert_skill_node_def Let_def simp flip: db2_def split: prod.splits sum.splits if_splits)
qed

text \<open>
  An edit of a node is refused exactly when a prerequisite is unknown, but the node has changed by then: it has
  the new prerequisites, which nobody can meet, and the tree is not valid any more. A node above the
  first tier without prerequisites is locked for one route and available for the other, which lets it be
  unlocked. A negative cost is accepted, and unlocking such a node earns experience.
\<close>

theorem refused_edits_and_odd_nodes_go_through:
  "(case upsert_skill_node n db of
      (db', r) \<Rightarrow> n \<in> set (db_nodes db')
        \<and> (r = Inl ForeignKeyViolation \<longleftrightarrow> \<not> list_all (\<lambda>p. p = sn_id n \<or> has_node db p) (sn_prerequisites n))
        \<and> \<not> (tv_valid (validate_tree db') \<and> r = Inl ForeignKeyViolation))
   \<and> node_state (sn_id n) (n\<lparr>sn_tier := 2, sn_prerequisites := []\<rparr>) [] = NodeLocked
   \<and> an_status (annotate_node [] xp (n\<lparr>sn_tier := 2, sn_prerequisites := []\<rparr>)) = StatusAvailable
   \<and> (case unlock_skill now i a ''gift'' (empty_db\<lparr>db_nodes := [skill ''gift'' nm d c (- 1000) tier []]\<rparr>) of
        (db, Inl e) \<Rightarrow> False
      | (db, Inr r) \<Rightarrow> pf_xp (ua_profile r) = 1000 \<and> get_profile a db = Some (ua_profile r))"
proof (intro conjI)
  show "case upsert_skill_node n db of
      (db', r) \<Rightarrow> n \<in> set (db_nodes db')
        \<and> (r = Inl ForeignKeyViolation \<longleftrightarrow> \<not> list_all (\<lambda>p. p = sn_id n \<or> has_node db p) (sn_prerequisites n))
        \<and> \<not> (tv_valid (validate_tree db') \<and> r = Inl ForeignKeyViolation)"
  proof -
    have valid: "tv_valid (validate_tree d) \<Longrightarrow> m \<in> set (db_nodes d) \<Longrightarrow> set (sn_prerequisites m) \<subseteq> sn_id ` set (db_nodes d)" for d m
      by (simp add: validate_tree_def validate_valid well_formed_sorted) (simp add: well_formed_tree_def)
    obtain db' r where r: "upsert_skill_node n db = (db', r)" by (cases "upsert_skill_node n db")
    show ?thesis using upsert_spec [of n db] valid [of db' n] by (auto simp: r list_all_iff has_node_def split: if_splits)
  qed
  show "node_state (sn_id n) (n\<lparr>sn_tier := 2, sn_prerequisites := []\<rparr>) [] = NodeLocked"
    by (simp add: node_state_def)
  show "an_status (annotate_node [] xp (n\<lparr>sn_tier := 2, sn_prerequisites := []\<rparr>)) = StatusAvailable"
    by (simp add: annotate_node_def)
  show "case unlock_skill now i a ''gift'' (empty_db\<lparr>db_nodes := [skill ''gift'' nm d c (- 1000) tier []]\<rparr>) of
        (db, Inl e) \<Rightarrow> False
      | (db, Inr r) \<Rightarrow> pf_xp (ua_profile r) = 1000 \<and> get_profile a db = Some (ua_profile r)"
    by (simp add: unlock_skill_def transaction_def unlock_body_def get_or_create_profile_def get_profile_def empty_db_def Let_def
        skill_def new_profile_def update_profile_def update_rows_def record_milestone_def)
qed

text \<open>
  A query on the list of milestones is taken for an agent of that name: asking creates its account.
\<close>

theorem asking_creates_accounts:
  "read_request ''GET'' ''/milestones?limit=5'' ''/milestones'' None None b = Serve (GetProfile ''milestones'')
   \<and> get_profile ''milestones'' (fst (serve env now i (GetProfile ''milestones'') empty_db)) = Some (new_profile now ''milestones'' None)"
proof
  show "read_request ''GET'' ''/milestones?limit=5'' ''/milestones'' None None b = Serve (GetProfile ''milestones'')"
    by (simp add: read_request_def read_v2_def read_v1_def has_prefix_def strip_slash_def id_char_def)
  show "get_profile ''milestones'' (fst (serve env now i (GetProfile ''milestones'') empty_db)) = Some (new_profile now ''milestones'' None)"
    by (simp add: serve_def seed_default get_or_create_profile_def get_profile_def new_profile_def empty_db_def)
qed

end
