(* ===== verification/Observation_Store.thy ===== *)
theory Observation_Store
  imports Json
begin

text \<open>
  \<open>lib/observation-store.ts\<close> with the types of \<open>lib/types/observation.ts\<close>: the tables of the observational
  memory and the statements over them. A table is the list of its rows in the order of insertion; a
  second row with the same primary key is refused, a batch is inserted whole or not at all. Times are
  numbers whose order is that of the ISO texts. The schema is the one after the migrations that the
  constructor runs, so \<open>hasReflectedAtColumn\<close> holds.
\<close>

section \<open>Tables\<close>

datatype observation_category =
    FactObs | PreferenceObs | DecisionObs | ActionObs | QuestionObs | FeedbackObs | ContextObs
  | TokenUsageObs | OtherObs

datatype observation_status = PendingObs | ProcessedObs | ArchivedObs | DiscardedObs

datatype observation_priority = HighObs | MediumObs | InfoObs

record token_usage =
  tu_input :: int
  tu_output :: int
  tu_total :: int
  tu_model :: "string option"
  tu_cost :: "rat option"

record observation =
  ob_id :: string
  ob_created :: int
  ob_category :: observation_category
  ob_content :: string
  ob_conversation :: "string option"
  ob_message :: "string option"
  ob_agent :: string
  ob_channel :: "string option"
  ob_status :: observation_status
  ob_usage :: "token_usage option"
  ob_priority :: "observation_priority option"
  ob_referenced :: "string option"
  ob_sources :: "string list option"
  ob_reflected :: "int option"
  ob_metadata :: "json option"

record memory_state =
  my_agent :: string
  my_tokens :: int
  my_raw :: int
  my_observed_at :: "int option"
  my_reflected_at :: "int option"
  my_count :: nat

record reflection_entry =
  rl_id :: string
  rl_agent :: string
  rl_at :: int
  rl_evaluated :: int
  rl_kept :: int
  rl_merged :: int
  rl_discarded :: int
  rl_before :: int
  rl_after :: int
  rl_model :: string
  rl_duration :: int
  rl_error :: "string option"

record observation_db =
  od_rows :: "observation list"
  od_states :: "(string, memory_state) jsmap"
  od_log :: "reflection_entry list"

definition empty_observations :: observation_db where
  "empty_observations = \<lparr>od_rows = [], od_states = [], od_log = []\<rparr>"

section \<open>Writing\<close>

text \<open>
  A new row: the metadata default to an empty object, and the statement does not mention
  \<open>reflected_at\<close>.
\<close>

definition stored_row :: "observation \<Rightarrow> observation" where
  "stored_row x = x\<lparr>ob_metadata := Some (nullish (ob_metadata x) (JObj [])), ob_reflected := None\<rparr>"

definition insert_observation :: "observation \<Rightarrow> observation_db \<Rightarrow> observation_db option" where
  "insert_observation x db =
     (if ob_id x \<in> ob_id ` set (od_rows db) then None
      else Some (db\<lparr>od_rows := od_rows db @ [stored_row x]\<rparr>))"

fun insert_each :: "observation list \<Rightarrow> observation_db \<Rightarrow> observation_db option" where
  "insert_each [] db = Some db"
| "insert_each (x # xs) db = Option.bind (insert_observation x db) (insert_each xs)"

text \<open>The transaction of \<open>insertBatch\<close>; a refused row undoes the whole batch.\<close>

definition insert_batch :: "observation list \<Rightarrow> observation_db \<Rightarrow> observation_db option" where
  "insert_batch xs db = (if xs = [] then Some db else insert_each xs db)"

definition change_rows :: "(observation \<Rightarrow> bool) \<Rightarrow> (observation \<Rightarrow> observation) \<Rightarrow> observation_db \<Rightarrow> observation_db" where
  "change_rows P f db = db\<lparr>od_rows := map (\<lambda>x. if P x then f x else x) (od_rows db)\<rparr>"

definition update_observation_status :: "string \<Rightarrow> observation_status \<Rightarrow> observation_db \<Rightarrow> observation_db" where
  "update_observation_status i st = change_rows (\<lambda>x. ob_id x = i) (\<lambda>x. x\<lparr>ob_status := st\<rparr>)"

definition update_content :: "string \<Rightarrow> string \<Rightarrow> observation_db \<Rightarrow> observation_db" where
  "update_content i t = change_rows (\<lambda>x. ob_id x = i) (\<lambda>x. x\<lparr>ob_content := t\<rparr>)"

definition unreflected :: "string list \<Rightarrow> observation \<Rightarrow> bool" where
  "unreflected ids x \<longleftrightarrow> ob_id x \<in> set ids \<and> ob_reflected x = None"

definition mark_reflected :: "string list \<Rightarrow> int \<Rightarrow> observation_db \<Rightarrow> observation_db \<times> nat" where
  "mark_reflected ids at_time db =
     (if ids = [] then (db, 0)
      else (change_rows (unreflected ids) (\<lambda>x. x\<lparr>ob_reflected := Some at_time\<rparr>) db,
            length (filter (unreflected ids) (od_rows db))))"

definition upsert_memory_state :: "memory_state \<Rightarrow> observation_db \<Rightarrow> observation_db" where
  "upsert_memory_state s db = db\<lparr>od_states := js_set (my_agent s) s (od_states db)\<rparr>"

definition insert_reflection :: "reflection_entry \<Rightarrow> observation_db \<Rightarrow> observation_db option" where
  "insert_reflection e db =
     (if rl_id e \<in> rl_id ` set (od_log db) then None else Some (db\<lparr>od_log := od_log db @ [e]\<rparr>))"

section \<open>Reading\<close>

text \<open>\<open>LIMIT n OFFSET k\<close>: a negative limit is none, a negative offset is 0.\<close>

definition sql_limit :: "int \<Rightarrow> 'a list \<Rightarrow> 'a list" where
  "sql_limit n xs = (if n < 0 then xs else take (nat n) xs)"

definition sql_offset :: "int \<Rightarrow> 'a list \<Rightarrow> 'a list" where
  "sql_offset k xs = drop (nat k) xs"

text \<open>\<open>rowToObservation\<close>: an empty date reads as none.\<close>

definition nonempty_text :: "string option \<Rightarrow> string option" where
  "nonempty_text x = (if truthy_str x then x else None)"

definition row_to_observation :: "observation \<Rightarrow> observation" where
  "row_to_observation x = x\<lparr>ob_referenced := nonempty_text (ob_referenced x)\<rparr>"

text \<open>A condition on a column applies when its option is given.\<close>

definition if_given :: "'a option \<Rightarrow> ('a \<Rightarrow> bool) \<Rightarrow> bool" where
  "if_given x P = (case x of None \<Rightarrow> True | Some v \<Rightarrow> P v)"

record observation_query =
  oq_category :: "observation_category option"
  oq_status :: "observation_status option"
  oq_agent :: "string option"
  oq_conversation :: "string option"
  oq_since :: "int option"
  oq_before :: "int option"
  oq_limit :: "int option"
  oq_offset :: "int option"

definition matches_source :: "string option \<Rightarrow> string option \<Rightarrow> observation \<Rightarrow> bool" where
  "matches_source agent conv x \<longleftrightarrow>
     if_given (nonempty_text agent) (\<lambda>a. ob_agent x = a)
     \<and> if_given (nonempty_text conv) (\<lambda>c. ob_conversation x = Some c)"

definition created_within :: "int option \<Rightarrow> int option \<Rightarrow> observation \<Rightarrow> bool" where
  "created_within since until_time x \<longleftrightarrow> if_given since (\<lambda>t. t \<le> ob_created x) \<and> if_given until_time (\<lambda>t. ob_created x < t)"

definition query_matches :: "observation_query \<Rightarrow> observation \<Rightarrow> bool" where
  "query_matches q x \<longleftrightarrow>
     if_given (oq_category q) (\<lambda>c. ob_category x = c) \<and> if_given (oq_status q) (\<lambda>s. ob_status x = s)
     \<and> matches_source (oq_agent q) (oq_conversation q) x \<and> created_within (oq_since q) (oq_before q) x"

definition query_observations :: "observation_query \<Rightarrow> observation_db \<Rightarrow> observation list" where
  "query_observations q db =
     map row_to_observation
       (sql_limit (min (nullish (oq_limit q) 100) 1000)
         (sql_offset (nullish (oq_offset q) 0)
           (sort_desc ob_created (filter (query_matches q) (od_rows db)))))"

definition observation_by_id :: "string \<Rightarrow> observation_db \<Rightarrow> observation option" where
  "observation_by_id i db = map_option row_to_observation (List.find (\<lambda>x. ob_id x = i) (od_rows db))"

record usage_summary =
  us_input :: int
  us_output :: int
  us_total :: int
  us_cost :: rat
  us_count :: nat

definition sum_usage :: "(token_usage \<Rightarrow> 'a :: comm_monoid_add) \<Rightarrow> observation list \<Rightarrow> 'a" where
  "sum_usage f xs = sum_list (map (\<lambda>x. case ob_usage x of None \<Rightarrow> 0 | Some u \<Rightarrow> f u) xs)"

definition token_usage_summary ::
  "string option \<Rightarrow> string option \<Rightarrow> int option \<Rightarrow> int option \<Rightarrow> observation_db \<Rightarrow> usage_summary" where
  "token_usage_summary agent conv since until_time db =
     (let xs = filter (\<lambda>x. ob_category x = TokenUsageObs \<and> matches_source agent conv x \<and> created_within since until_time x)
                 (od_rows db) in
      \<lparr>us_input = sum_usage tu_input xs, us_output = sum_usage tu_output xs, us_total = sum_usage tu_total xs,
       us_cost = sum_usage (\<lambda>u. nullish (tu_cost u) 0) xs, us_count = length xs\<rparr>)"

definition count_observations :: "observation_query \<Rightarrow> observation_db \<Rightarrow> nat" where
  "count_observations q db =
     length (filter (query_matches (q\<lparr>oq_since := None, oq_before := None\<rparr>)) (od_rows db))"

definition get_memory_state :: "string \<Rightarrow> observation_db \<Rightarrow> memory_state option" where
  "get_memory_state a db = js_get (od_states db) a"

definition reflection_logs :: "string \<Rightarrow> int \<Rightarrow> observation_db \<Rightarrow> reflection_entry list" where
  "reflection_logs a n db = sql_limit n (sort_desc rl_at (filter (\<lambda>e. rl_agent e = a) (od_log db)))"

section \<open>Active observations\<close>

fun column_rank :: "observation_priority option \<Rightarrow> nat" where
  "column_rank (Some HighObs) = 0"
| "column_rank (Some MediumObs) = 1"
| "column_rank (Some InfoObs) = 2"
| "column_rank None = 3"

text \<open>\<open>ORDER BY\<close> priority, then the newest first.\<close>

definition memory_order :: "observation \<Rightarrow> observation \<Rightarrow> bool" where
  "memory_order x y \<longleftrightarrow>
     column_rank (ob_priority x) < column_rank (ob_priority y)
     \<or> column_rank (ob_priority x) = column_rank (ob_priority y) \<and> ob_created y \<le> ob_created x"

interpretation memory_comparison: comparison memory_order
  by unfold_locales (auto simp: memory_order_def)

definition is_active :: "string \<Rightarrow> observation \<Rightarrow> bool" where
  "is_active a x \<longleftrightarrow> ob_agent x = a \<and> ob_status x = ProcessedObs \<and> ob_reflected x = None"

definition active_rows :: "string \<Rightarrow> observation_db \<Rightarrow> observation list" where
  "active_rows a db = filter (is_active a) (od_rows db)"

definition active_observations :: "string \<Rightarrow> int \<Rightarrow> observation_db \<Rightarrow> observation list" where
  "active_observations a n db = map row_to_observation (sql_limit n (sort_by memory_order (active_rows a db)))"

definition default_active_limit :: int where
  "default_active_limit = 500"

definition is_shown :: "string \<Rightarrow> observation \<Rightarrow> bool" where
  "is_shown a x \<longleftrightarrow> is_active a x \<and> ob_category x \<noteq> TokenUsageObs"

definition priority_count :: "string \<Rightarrow> observation_db \<Rightarrow> observation_priority \<Rightarrow> nat" where
  "priority_count a db p = length (filter (\<lambda>x. is_shown a x \<and> ob_priority x = Some p) (od_rows db))"

record memory_snapshot =
  mp_agent :: string
  mp_tokens :: int
  mp_raw :: int
  mp_count :: nat
  mp_high :: nat
  mp_medium :: nat
  mp_info :: nat
  mp_observed_at :: "int option"
  mp_reflected_at :: "int option"

definition memory_snapshot_of :: "string \<Rightarrow> observation_db \<Rightarrow> memory_snapshot" where
  "memory_snapshot_of a db =
     (let s = get_memory_state a db in
      \<lparr>mp_agent = a, mp_tokens = (case s of None \<Rightarrow> 0 | Some m \<Rightarrow> my_tokens m),
       mp_raw = (case s of None \<Rightarrow> 0 | Some m \<Rightarrow> my_raw m),
       mp_count = (case s of None \<Rightarrow> 0 | Some m \<Rightarrow> my_count m),
       mp_high = priority_count a db HighObs, mp_medium = priority_count a db MediumObs,
       mp_info = priority_count a db InfoObs,
       mp_observed_at = Option.bind s my_observed_at, mp_reflected_at = Option.bind s my_reflected_at\<rparr>)"

definition query_active ::
  "string \<Rightarrow> int option \<Rightarrow> observation_priority option \<Rightarrow> int option \<Rightarrow> observation_db \<Rightarrow> observation list" where
  "query_active a n p since db =
     map row_to_observation
       (sql_limit (min (nullish n 50) 500)
         (sort_by memory_order
           (filter (\<lambda>x. is_shown a x \<and> if_given p (\<lambda>q. ob_priority x = Some q) \<and> created_within since None x)
             (od_rows db))))"

end
