(* ===== verification/Json_Text.thy ===== *)
theory Json_Text
  imports Json
begin

text \<open>
  \<open>JSON.parse\<close>, and how the agents of the observational memory read the answer of a language model:
  the fences of a code block are taken off, and when the rest is no JSON the part from the first
  opening bracket to the last closing one is tried. Texts are UTF-8 bytes, a number is the rational
  it denotes, and the nesting of the parser is bounded by the length of the text.
\<close>

section \<open>Strings\<close>

definition json_space :: "char \<Rightarrow> bool" where
  "json_space c \<longleftrightarrow> c \<in> {CHR '' '', CHR 0x09, CHR 0x0A, CHR 0x0D}"

definition skip_space :: "string \<Rightarrow> string" where
  "skip_space s = dropWhile json_space s"

definition hex_value :: "char \<Rightarrow> nat option" where
  "hex_value c =
     (let n = of_char c :: nat in
      if is_digit c then Some (n - 48)
      else if 65 \<le> n \<and> n \<le> 70 then Some (n - 55)
      else if 97 \<le> n \<and> n \<le> 102 then Some (n - 87)
      else None)"

definition hex_code :: "string \<Rightarrow> (nat \<times> string) option" where
  "hex_code s =
     (case map hex_value (take 4 s) of
        [Some a, Some b, Some c, Some d] \<Rightarrow> Some (((a * 16 + b) * 16 + c) * 16 + d, drop 4 s)
      | _ \<Rightarrow> None)"

definition utf8 :: "nat \<Rightarrow> string" where
  "utf8 n =
     map char_of
       (if n < 128 then [n]
        else if n < 2048 then [192 + n div 64, 128 + n mod 64]
        else if n < 65536 then [224 + n div 4096, 128 + n div 64 mod 64, 128 + n mod 64]
        else [240 + n div 262144, 128 + n div 4096 mod 64, 128 + n div 64 mod 64, 128 + n mod 64])"

text \<open>The second half of a surrogate pair, when it follows.\<close>

definition low_surrogate :: "string \<Rightarrow> (nat \<times> string) option" where
  "low_surrogate s =
     (if take 2 s = [CHR 0x5C, CHR ''u''] then
        (case hex_code (drop 2 s) of
           Some (n, r) \<Rightarrow> if 56320 \<le> n \<and> n < 57344 then Some (n, r) else None
         | None \<Rightarrow> None)
      else None)"

definition unicode_escape :: "string \<Rightarrow> (string \<times> string) option" where
  "unicode_escape s =
     (case hex_code s of
        None \<Rightarrow> None
      | Some (n, r) \<Rightarrow>
          if 55296 \<le> n \<and> n < 56320 then
            (case low_surrogate r of
               Some (m, r') \<Rightarrow> Some (utf8 (65536 + (n - 55296) * 1024 + (m - 56320)), r')
             | None \<Rightarrow> Some (utf8 n, r))
          else Some (utf8 n, r))"

text \<open>What follows a backslash.\<close>

definition escape_text :: "string \<Rightarrow> (string \<times> string) option" where
  "escape_text s =
     (case s of
        [] \<Rightarrow> None
      | c # r \<Rightarrow>
          if c = CHR ''u'' then unicode_escape r
          else if c = CHR ''b'' then Some ([CHR 0x08], r)
          else if c = CHR ''f'' then Some ([CHR 0x0C], r)
          else if c = CHR ''n'' then Some ([CHR 0x0A], r)
          else if c = CHR ''r'' then Some ([CHR 0x0D], r)
          else if c = CHR ''t'' then Some ([CHR 0x09], r)
          else if c = CHR 0x22 \<or> c = CHR 0x5C \<or> c = CHR ''/'' then Some ([c], r)
          else None)"

lemma hex_code_shorter: "hex_code s = Some (n, r) \<Longrightarrow> length r < length s"
  by (cases s) (auto simp: hex_code_def split: list.splits option.splits)

lemma low_surrogate_shorter: "low_surrogate s = Some (n, r) \<Longrightarrow> length r < length s"
  using hex_code_shorter [of "drop 2 s"]
  by (fastforce simp: low_surrogate_def split: if_splits option.splits)

lemma unicode_escape_shorter: "unicode_escape s = Some (t, r) \<Longrightarrow> length r < length s"
  by (auto simp: unicode_escape_def split: option.splits if_splits
      dest!: hex_code_shorter low_surrogate_shorter)

lemma escape_text_shorter: "escape_text s = Some (t, r) \<Longrightarrow> length r < length s"
  by (auto simp: escape_text_def split: list.splits if_splits dest!: unicode_escape_shorter)

text \<open>The rest of a string behind its opening quote.\<close>

function json_chars :: "string \<Rightarrow> (string \<times> string) option" where
  "json_chars [] = None"
| "json_chars (c # s) =
     (if c = CHR 0x22 then Some ([], s)
      else if c = CHR 0x5C then
        (case escape_text s of
           None \<Rightarrow> None
         | Some (t, r) \<Rightarrow> map_option (\<lambda>(u, r'). (t @ u, r')) (json_chars r))
      else if (of_char c :: nat) < 32 then None
      else map_option (\<lambda>(u, r'). (c # u, r')) (json_chars s))"
  by pat_completeness auto
termination
  by (relation "measure length") (auto dest: escape_text_shorter)

lemma json_chars_shorter: "json_chars s = Some (t, r) \<Longrightarrow> length r < length s"
proof (induction s arbitrary: t r rule: json_chars.induct)
  case (2 c s)
  then show ?case
    by (fastforce split: if_splits option.splits dest!: escape_text_shorter)
qed simp

section \<open>Numbers\<close>

definition optional_sign :: "char list \<Rightarrow> string \<Rightarrow> bool \<times> string" where
  "optional_sign signs s =
     (case s of [] \<Rightarrow> (False, s) | c # r \<Rightarrow> if c \<in> set signs then (c = CHR ''-'', r) else (False, s))"

definition digits_of :: "string \<Rightarrow> (string \<times> string) option" where
  "digits_of s = (let d = takeWhile is_digit s in if d = [] then None else Some (d, dropWhile is_digit s))"

definition fraction_of :: "string \<Rightarrow> (string \<times> string) option" where
  "fraction_of s = (if take 1 s = ''.'' then digits_of (drop 1 s) else Some ([], s))"

definition exponent_of :: "string \<Rightarrow> (int \<times> string) option" where
  "exponent_of s =
     (if take 1 s = ''e'' \<or> take 1 s = ''E'' then
        (case optional_sign ''+-'' (drop 1 s) of (neg, r) \<Rightarrow>
           map_option (\<lambda>(d, r'). ((if neg then - 1 else 1) * int (read_nat d), r')) (digits_of r))
      else Some (0, s))"

text \<open>A literal that rounds to no finite double is infinite.\<close>

definition number_value :: "bool \<Rightarrow> string \<Rightarrow> string \<Rightarrow> int \<Rightarrow> json" where
  "number_value neg d f e =
     (let m = of_nat (read_nat (d @ f)) :: rat; k = e - int (length f);
          x = (if 0 \<le> k then m * 10 ^ nat k else m / 10 ^ nat (- k)) in
      if 2 ^ 1024 - 2 ^ 970 \<le> x then JInf (\<not> neg) else JNum (if neg then - x else x))"

definition json_number :: "string \<Rightarrow> (json \<times> string) option" where
  "json_number s =
     (case optional_sign ''-'' s of (neg, s1) \<Rightarrow>
        (case digits_of s1 of
           None \<Rightarrow> None
         | Some (d, s2) \<Rightarrow>
             if hd d = CHR ''0'' \<and> 1 < length d then None
             else (case fraction_of s2 of
                     None \<Rightarrow> None
                   | Some (f, s3) \<Rightarrow> map_option (\<lambda>(e, r). (number_value neg d f e, r)) (exponent_of s3))))"

lemma digits_of_shorter: "digits_of s = Some (d, r) \<Longrightarrow> length r < length s"
proof -
  assume a: "digits_of s = Some (d, r)"
  then have d: "d = takeWhile is_digit s" "d \<noteq> []" and r: "r = dropWhile is_digit s"
    by (auto simp: digits_of_def Let_def split: if_splits)
  have "length s = length d + length r"
    unfolding d(1) r by (metis length_append takeWhile_dropWhile_id)
  then show ?thesis using d(2) by (cases d) auto
qed

lemma optional_sign_shorter: "optional_sign cs s = (b, r) \<Longrightarrow> length r \<le> length s"
  by (auto simp: optional_sign_def split: list.splits if_splits)

lemma fraction_of_shorter: "fraction_of s = Some (f, r) \<Longrightarrow> length r \<le> length s"
  using digits_of_shorter [of "drop 1 s" f r] by (auto simp: fraction_of_def split: if_splits)

lemma exponent_of_shorter: "exponent_of s = Some (e, r) \<Longrightarrow> length r \<le> length s"
  by (auto simp: exponent_of_def split: if_splits prod.splits
      dest!: digits_of_shorter optional_sign_shorter)

lemma json_number_shorter: "json_number s = Some (j, r) \<Longrightarrow> length r < length s"
  by (auto simp: json_number_def split: if_splits prod.splits option.splits
      dest!: digits_of_shorter optional_sign_shorter fraction_of_shorter exponent_of_shorter)

section \<open>Values\<close>

definition literal :: "string \<Rightarrow> json \<Rightarrow> string \<Rightarrow> (json \<times> string) option" where
  "literal w j s = (if take (length w) s = w then Some (j, drop (length w) s) else None)"

definition object_of :: "(string \<times> json) list \<Rightarrow> json" where
  "object_of kvs = JObj (fold (\<lambda>(k, v). js_set k v) kvs [])"

fun json_value :: "nat \<Rightarrow> string \<Rightarrow> (json \<times> string) option"
and json_items :: "nat \<Rightarrow> string \<Rightarrow> (json list \<times> string) option"
and json_members :: "nat \<Rightarrow> string \<Rightarrow> ((string \<times> json) list \<times> string) option" where
  "json_value 0 s = None"
| "json_value (Suc n) s =
     (case skip_space s of
        [] \<Rightarrow> None
      | c # r \<Rightarrow>
          if c = CHR 0x7B then
            (if take 1 (skip_space r) = [CHR 0x7D] then Some (JObj [], drop 1 (skip_space r))
             else map_option (\<lambda>(kvs, t). (object_of kvs, t)) (json_members n r))
          else if c = CHR 0x5B then
            (if take 1 (skip_space r) = [CHR 0x5D] then Some (JArr [], drop 1 (skip_space r))
             else map_option (\<lambda>(xs, t). (JArr xs, t)) (json_items n r))
          else if c = CHR 0x22 then map_option (\<lambda>(t, u). (JStr t, u)) (json_chars r)
          else if c = CHR ''t'' then literal ''true'' (JBool True) (c # r)
          else if c = CHR ''f'' then literal ''false'' (JBool False) (c # r)
          else if c = CHR ''n'' then literal ''null'' JNull (c # r)
          else json_number (c # r))"
| "json_items 0 s = None"
| "json_items (Suc n) s =
     (case json_value n s of
        None \<Rightarrow> None
      | Some (x, r) \<Rightarrow>
          (case skip_space r of
             [] \<Rightarrow> None
           | c # t \<Rightarrow>
               if c = CHR '','' then map_option (\<lambda>(xs, u). (x # xs, u)) (json_items n t)
               else if c = CHR 0x5D then Some ([x], t)
               else None))"
| "json_members 0 s = None"
| "json_members (Suc n) s =
     (case skip_space s of
        [] \<Rightarrow> None
      | q # r \<Rightarrow>
          if q \<noteq> CHR 0x22 then None
          else (case json_chars r of
                  None \<Rightarrow> None
                | Some (k, t) \<Rightarrow>
                    (case skip_space t of
                       [] \<Rightarrow> None
                     | c # u \<Rightarrow>
                         if c \<noteq> CHR '':'' then None
                         else (case json_value n u of
                                 None \<Rightarrow> None
                               | Some (v, w) \<Rightarrow>
                                   (case skip_space w of
                                      [] \<Rightarrow> None
                                    | d # z \<Rightarrow>
                                        if d = CHR '','' then
                                          map_option (\<lambda>(kvs, y). ((k, v) # kvs, y)) (json_members n z)
                                        else if d = CHR 0x7D then Some ([(k, v)], z)
                                        else None)))))"

text \<open>\<open>JSON.parse\<close>: one value and nothing but white space behind it; an exception is \<^const>\<open>None\<close>.\<close>

definition json_parse :: "string \<Rightarrow> json option" where
  "json_parse s =
     (case json_value (2 * length s + 2) s of
        Some (j, r) \<Rightarrow> if skip_space r = [] then Some j else None
      | None \<Rightarrow> None)"

lemma skip_space_shorter: "length (skip_space s) \<le> length s"
  by (simp add: skip_space_def length_dropWhile_le)

lemma skip_space_Cons: "skip_space s = c # r \<Longrightarrow> length r < length s"
  using skip_space_shorter [of s] by simp

lemma literal_shorter: "literal (c # w) j s = Some (x, r) \<Longrightarrow> length r < length s"
  by (cases s) (auto simp: literal_def split: if_splits)

text \<open>Every parser consumes some of its text, so the nesting is bounded by twice its length.\<close>

lemma json_shorter:
  "(\<forall>j r. json_value n s = Some (j, r) \<longrightarrow> length r < length s)
   \<and> (\<forall>js r. json_items n s = Some (js, r) \<longrightarrow> length r < length s)
   \<and> (\<forall>kvs r. json_members n s = Some (kvs, r) \<longrightarrow> length r < length s)"
proof (induction n arbitrary: s)
  case (Suc n)
  have one: "length r < length s" if "json_value (Suc n) s = Some (j, r)" for j r
  proof -
    from that obtain c t where c: "skip_space s = c # t" by (cases "skip_space s") auto
    note len = skip_space_Cons [OF c] and rest = skip_space_shorter [of t] and whole = skip_space_shorter [of s]
    have inner: "length u < length t" if "json_items n t = Some (js, u) \<or> json_members n t = Some (kvs, u)" for js kvs u
      using Suc.IH [of t] that by blast
    have "length r < length s \<or> length r < length (c # t) \<or> length r < length t"
      using that c len rest inner
      by (auto split: if_splits dest!: json_chars_shorter literal_shorter json_number_shorter)
    then show ?thesis using len whole c by auto
  qed
  have items: "length r < length s" if "json_items (Suc n) s = Some (js, r)" for js r
    using that Suc.IH
    by (auto split: option.splits list.splits if_splits dest!: skip_space_Cons) (meson less_trans)+
  have members: "length r < length s" if "json_members (Suc n) s = Some (kvs, r)" for kvs r
    using that Suc.IH
    by (auto split: option.splits list.splits if_splits dest!: skip_space_Cons json_chars_shorter) (meson less_trans)+
  show ?case using one items members by blast
qed simp

text \<open>So a deeper bound changes nothing: \<^const>\<open>json_parse\<close> refuses a text only because it is no JSON.\<close>

lemma json_bound_enough:
  "(2 * length s \<le> n \<longrightarrow> json_value (Suc n) s = json_value n s)
   \<and> (2 * length s < n \<longrightarrow> json_items (Suc n) s = json_items n s)
   \<and> (2 * length s < n \<longrightarrow> json_members (Suc n) s = json_members n s)"
proof (induction n arbitrary: s)
  case 0
  then show ?case by (simp add: skip_space_def)
next
  case (Suc n)
  have one: "json_value (Suc (Suc n)) s = json_value (Suc n) s" if len: "2 * length s \<le> Suc n"
  proof (cases "skip_space s")
    case (Cons c t)
    have "2 * length t < n" using skip_space_Cons [OF Cons] len by simp
    then have "json_items (Suc n) t = json_items n t" "json_members (Suc n) t = json_members n t"
      using Suc.IH [of t] by blast+
    then show ?thesis using Cons by (simp only: json_value.simps list.case)
  qed simp
  have items: "json_items (Suc (Suc n)) s = json_items (Suc n) s" if len: "2 * length s < Suc n"
  proof -
    have first: "json_value (Suc n) s = json_value n s" using Suc.IH [of s] len by simp
    have later: "json_items (Suc n) t = json_items n t"
      if "json_value n s = Some (x, r)" "skip_space r = c # t" for x r c t
    proof -
      have "length t < length s"
        using json_shorter [of n s] that skip_space_Cons [OF that(2)] by (meson less_trans)
      then show ?thesis using Suc.IH [of t] len by simp
    qed
    show ?thesis
      by (subst (1 2) json_items.simps(2), subst first)
        (auto simp: later simp del: json_items.simps split: option.splits list.splits)
  qed
  have members: "json_members (Suc (Suc n)) s = json_members (Suc n) s" if len: "2 * length s < Suc n"
  proof -
    have first: "json_value (Suc n) u = json_value n u" if "length u < length s" for u
      using Suc.IH [of u] len that by simp
    have inner: "length u < length s"
      if "skip_space s = q # r" "json_chars r = Some (k, t)" "skip_space t = c # u" for q r k t c u
      using skip_space_Cons [OF that(1)] json_chars_shorter [OF that(2)] skip_space_Cons [OF that(3)] by simp
    have later: "json_members (Suc n) z = json_members n z"
      if "skip_space s = q # r" "json_chars r = Some (k, t)" "skip_space t = c # u"
        "json_value n u = Some (v, w)" "skip_space w = d # z" for q r k t c u v w d z
    proof -
      have "length z < length s"
        using inner [OF that(1-3)] json_shorter [of n u] that(4) skip_space_Cons [OF that(5)]
        by (meson less_trans)
      then show ?thesis using Suc.IH [of z] len by simp
    qed
    show ?thesis
      by (subst (1 2) json_members.simps(2))
        (auto simp: first inner later simp del: json_members.simps json_value.simps
          split: option.splits list.splits)
  qed
  show ?case using one items members by blast
qed

lemma json_value_bound:
  assumes "2 * length s \<le> n" "n \<le> m"
  shows "json_value m s = json_value n s"
  using assms(2,1)
proof (induction rule: dec_induct)
  case (step k)
  then show ?case using json_bound_enough [of s k] by simp
qed simp

section \<open>The answer of a model\<close>

definition ends_with :: "string \<Rightarrow> string \<Rightarrow> bool" where
  "ends_with s p \<longleftrightarrow> length p \<le> length s \<and> drop (length s - length p) s = p"

definition trim_right :: "string \<Rightarrow> string" where
  "trim_right s = rev (dropWhile js_space (rev s))"

definition fence :: string where
  "fence = [CHR 0x60, CHR 0x60, CHR 0x60]"

definition strip_fences :: "string \<Rightarrow> string" where
  "strip_fences text =
     (let t = js_trim text in
      if take 3 t = fence then
        (let u = drop 3 t;
             v = (if to_lower (take 4 u) = ''json'' then drop 4 u else u);
             w = dropWhile js_space v in
         if ends_with w fence then trim_right (take (length w - 3) w) else w)
      else t)"

text \<open>The longest part of the text that starts with one bracket and ends with the other.\<close>

definition between :: "char \<Rightarrow> char \<Rightarrow> string \<Rightarrow> string option" where
  "between a b s =
     (let t = dropWhile (\<lambda>c. c \<noteq> a) s; u = rev (dropWhile (\<lambda>c. c \<noteq> b) (rev t)) in
      if u = [] then None else Some u)"

definition parse_answer :: "char \<Rightarrow> char \<Rightarrow> string \<Rightarrow> json option" where
  "parse_answer a b text =
     (let cleaned = strip_fences text in
      case json_parse cleaned of
        Some j \<Rightarrow> Some j
      | None \<Rightarrow> Option.bind (between a b cleaned) json_parse)"

end
