(* ===== verification/Observer.thy ===== *)
theory Observer
  imports Conversation Observation_Store Json_Text
begin

text \<open>
  The writers of the observational memory: \<open>lib/token-counter-hook.ts\<close>, which counts the tokens of
  delivered messages and reports a full buffer, and \<open>lib/observer-agent.ts\<close>, which lets a language
  model compress the buffered messages of an agent into observations. The buffer of an agent is an
  array that the map and a running pass share, so arrays are kept in a store and referred to by
  number. A pass stops at every call of the model and at the delay before a retry; the answer of the
  model is an argument of the step that goes on. Random identifiers and times are arguments too.
\<close>

section \<open>Configuration\<close>

record hook_config =
  hook_enabled :: bool
  hook_chars_per_token :: rat
  hook_model :: "string option"
  hook_cost_per_token :: "rat option"
  hook_threshold :: "int option"

record observer_config =
  observer_enabled :: bool
  observer_chars_per_token :: rat
  observer_threshold :: int
  observer_retries :: nat
  observer_model :: string

definition default_hook_config :: hook_config where
  "default_hook_config =
     \<lparr>hook_enabled = True, hook_chars_per_token = 4, hook_model = None, hook_cost_per_token = None,
      hook_threshold = None\<rparr>"

definition default_observer_config :: observer_config where
  "default_observer_config =
     \<lparr>observer_enabled = True, observer_chars_per_token = 4, observer_threshold = 30000, observer_retries = 1,
      observer_model = ''gpt-4o-mini''\<rparr>"

section \<open>The token counter\<close>

record token_hook =
  th_attached :: bool
  th_observed :: nat
  th_written :: nat
  th_tokens :: int
  th_errors :: nat
  th_written_at :: "int option"
  th_error_at :: "int option"
  th_raw :: int
  th_events :: nat

definition new_hook :: token_hook where
  "new_hook =
     \<lparr>th_attached = False, th_observed = 0, th_written = 0, th_tokens = 0, th_errors = 0, th_written_at = None,
      th_error_at = None, th_raw = 0, th_events = 0\<rparr>"

definition attach_hook :: "hook_config \<Rightarrow> token_hook \<Rightarrow> token_hook" where
  "attach_hook cf h = (if hook_enabled cf then h\<lparr>th_attached := True\<rparr> else h)"

definition detach_hook :: "token_hook \<Rightarrow> token_hook" where
  "detach_hook h = h\<lparr>th_attached := False\<rparr>"

definition reset_raw_tokens :: "token_hook \<Rightarrow> token_hook" where
  "reset_raw_tokens h = h\<lparr>th_raw := 0\<rparr>"

text \<open>Input and output tokens are the same estimate, so a message counts twice.\<close>

definition usage_of :: "hook_config \<Rightarrow> conversation_message \<Rightarrow> token_usage" where
  "usage_of cf m =
     (let n = estimate_tokens (cm_content m) (hook_chars_per_token cf);
          cost = nullish (hook_cost_per_token cf) 0 in
      \<lparr>tu_input = n, tu_output = n, tu_total = n + n, tu_model = hook_model cf,
       tu_cost = (if 0 < cost then Some (of_int (n + n) * cost) else None)\<rparr>)"

definition usage_observation :: "hook_config \<Rightarrow> string \<Rightarrow> conversation_message \<Rightarrow> observation" where
  "usage_observation cf i m =
     (let u = usage_of cf m in
      \<lparr>ob_id = i, ob_created = cm_created m, ob_category = TokenUsageObs,
       ob_content = ''Token usage: '' @ show_int (tu_total u) @ '' tokens ('' @ show_int (tu_input u) @ '' in, ''
         @ show_int (tu_output u) @ '' out) for message from '' @ cm_from m,
       ob_conversation = Some (cm_conversation m), ob_message = Some (cm_id m), ob_agent = cm_from m,
       ob_channel = None, ob_status = PendingObs, ob_usage = Some u, ob_priority = None, ob_referenced = None,
       ob_sources = None, ob_reflected = None,
       ob_metadata = Some (JObj [(''deliveredTo'', JArr (map JStr (cm_delivered_to m))),
                                 (''messageStatus'', JStr ''delivered'')])\<rparr>)"

text \<open>
  The count of the raw buffer is one number for all agents; when it reaches the threshold the event
  names the sender of the current message. The second part of the result is that event.
\<close>

definition count_raw :: "hook_config \<Rightarrow> int \<Rightarrow> string \<Rightarrow> token_hook \<Rightarrow> token_hook \<times> string option" where
  "count_raw cf n sender h =
     (let t = nullish (hook_threshold cf) 0 in
      if 0 < t then
        let raw = th_raw h + n in
        if t \<le> raw \<and> th_attached h then (h\<lparr>th_raw := 0, th_events := Suc (th_events h)\<rparr>, Some sender)
        else (h\<lparr>th_raw := raw\<rparr>, None)
      else (h, None))"

definition record_token_usage ::
  "hook_config \<Rightarrow> string \<Rightarrow> int \<Rightarrow> conversation_message \<Rightarrow> token_hook \<Rightarrow> observation_db
   \<Rightarrow> token_hook \<times> observation_db \<times> string option" where
  "record_token_usage cf i now m h db =
     (let h1 = h\<lparr>th_observed := Suc (th_observed h)\<rparr> in
      if cm_status m \<noteq> DeliveredMsg then (h1, db, None)
      else (case insert_observation (usage_observation cf i m) db of
              None \<Rightarrow> (h1\<lparr>th_errors := Suc (th_errors h1), th_error_at := Some now\<rparr>, db, None)
            | Some db' \<Rightarrow>
                (let n = tu_total (usage_of cf m);
                     h2 = h1\<lparr>th_written := Suc (th_written h1), th_tokens := th_tokens h1 + n, th_written_at := Some now\<rparr>
                 in case count_raw cf n (cm_from m) h2 of (h3, event) \<Rightarrow> (h3, db', event))))"

section \<open>What the observer accepts\<close>

record model_observation =
  mo_content :: string
  mo_priority :: observation_priority
  mo_referenced :: "string option"
  mo_sources :: "string list"

definition priority_named :: "string \<Rightarrow> observation_priority option" where
  "priority_named s =
     (if s = ''high'' then Some HighObs else if s = ''medium'' then Some MediumObs
      else if s = ''info'' then Some InfoObs else None)"

definition validate_model_observation :: "json \<Rightarrow> model_observation option" where
  "validate_model_observation j =
     (case json_object j of
        None \<Rightarrow> None
      | Some fs \<Rightarrow>
          (case (json_get fs ''content'' json_text, Option.bind (json_get fs ''priority'' json_text) priority_named) of
             (Some t, Some p) \<Rightarrow>
               if js_trim t = [] then None
               else Some \<lparr>mo_content = js_trim t, mo_priority = p,
                          mo_referenced = json_get fs ''referenced_date'' json_text,
                          mo_sources = List.map_filter json_text (nullish (json_get fs ''source_message_ids'' json_array) [])\<rparr>
           | _ \<Rightarrow> None))"

definition parse_model_response :: "string \<Rightarrow> model_observation list" where
  "parse_model_response text =
     (case Option.bind (parse_answer (CHR 0x5B) (CHR 0x5D) text) json_array of
        None \<Rightarrow> []
      | Some items \<Rightarrow> List.map_filter validate_model_observation items)"

section \<open>Buffers and passes\<close>

record observer_input =
  oi_id :: string
  oi_from :: string
  oi_content :: string
  oi_created :: int

datatype call_phase = Calling | Waiting

text \<open>The local variables of a running pass: \<open>buffer\<close>, \<open>messageInputs\<close> and \<open>attempt\<close>.\<close>

record observer_pass =
  op_agent :: string
  op_buffer :: nat
  op_inputs :: "observer_input list"
  op_attempt :: nat
  op_phase :: call_phase

record observer =
  ov_attached :: bool
  ov_arrays :: "conversation_message list list"
  ov_buffers :: "(string, nat) jsmap"
  ov_running :: "observer_pass option"
  ov_attempted :: nat
  ov_completed :: nat
  ov_produced :: nat
  ov_calls :: nat
  ov_failures :: nat
  ov_compressed :: nat
  ov_skipped :: nat
  ov_pass_at :: "int option"
  ov_error_at :: "int option"

definition new_observer :: observer where
  "new_observer =
     \<lparr>ov_attached = False, ov_arrays = [], ov_buffers = [], ov_running = None, ov_attempted = 0, ov_completed = 0,
      ov_produced = 0, ov_calls = 0, ov_failures = 0, ov_compressed = 0, ov_skipped = 0, ov_pass_at = None,
      ov_error_at = None\<rparr>"

record observation_result =
  or_success :: bool
  or_created :: nat
  or_compressed :: nat
  or_error :: "string option"

definition attach_observer :: "observer_config \<Rightarrow> observer \<Rightarrow> observer" where
  "attach_observer cf v = (if observer_enabled cf then v\<lparr>ov_attached := True\<rparr> else v)"

definition detach_observer :: "observer \<Rightarrow> observer" where
  "detach_observer v = v\<lparr>ov_attached := False\<rparr>"

definition array_of :: "observer \<Rightarrow> nat \<Rightarrow> conversation_message list" where
  "array_of v k = (if k < length (ov_arrays v) then ov_arrays v ! k else [])"

definition buffered_messages :: "string \<Rightarrow> observer \<Rightarrow> conversation_message list" where
  "buffered_messages a v = (case js_get (ov_buffers v) a of None \<Rightarrow> [] | Some k \<Rightarrow> array_of v k)"

definition buffer_message :: "observer_config \<Rightarrow> string \<Rightarrow> conversation_message \<Rightarrow> observer \<Rightarrow> observer" where
  "buffer_message cf a m v =
     (if \<not> observer_enabled cf then v
      else (case js_get (ov_buffers v) a of
              Some k \<Rightarrow> v\<lparr>ov_arrays := (ov_arrays v)[k := array_of v k @ [m]]\<rparr>
            | None \<Rightarrow> v\<lparr>ov_arrays := ov_arrays v @ [[m]], ov_buffers := js_set a (length (ov_arrays v)) (ov_buffers v)\<rparr>))"

definition clear_buffer :: "string \<Rightarrow> observer \<Rightarrow> observer" where
  "clear_buffer a v = v\<lparr>ov_buffers := js_delete a (ov_buffers v)\<rparr>"

definition message_tokens :: "rat \<Rightarrow> conversation_message list \<Rightarrow> int" where
  "message_tokens c ms = sum_list (map (\<lambda>m. estimate_tokens (cm_content m) c) ms)"

definition buffer_token_count :: "observer_config \<Rightarrow> string \<Rightarrow> observer \<Rightarrow> int" where
  "buffer_token_count cf a v = message_tokens (observer_chars_per_token cf) (buffered_messages a v)"

definition input_of :: "conversation_message \<Rightarrow> observer_input" where
  "input_of m = \<lparr>oi_id = cm_id m, oi_from = cm_from m, oi_content = cm_content m, oi_created = cm_created m\<rparr>"

text \<open>The part of a pass up to the first call of the model.\<close>

definition begin_observation :: "string \<Rightarrow> observer \<Rightarrow> observer \<times> observation_result option" where
  "begin_observation a v =
     (case ov_running v of
        Some _ \<Rightarrow>
          (v\<lparr>ov_skipped := Suc (ov_skipped v)\<rparr>,
           Some \<lparr>or_success = False, or_created = 0, or_compressed = 0,
                 or_error = Some ''Observation pass already in progress''\<rparr>)
      | None \<Rightarrow>
          (let v1 = v\<lparr>ov_attempted := Suc (ov_attempted v)\<rparr> in
           case js_get (ov_buffers v) a of
             None \<Rightarrow> (v1, Some \<lparr>or_success = True, or_created = 0, or_compressed = 0, or_error = None\<rparr>)
           | Some k \<Rightarrow>
               if array_of v k = [] then (v1, Some \<lparr>or_success = True, or_created = 0, or_compressed = 0, or_error = None\<rparr>)
               else (v1\<lparr>ov_running := Some \<lparr>op_agent = a, op_buffer = k, op_inputs = map input_of (array_of v k),
                                           op_attempt = 0, op_phase = Calling\<rparr>,
                        ov_calls := Suc (ov_calls v1)\<rparr>, None)))"

text \<open>The delay before the next attempt is over.\<close>

definition retry_observation :: "observer \<Rightarrow> observer" where
  "retry_observation v =
     (case ov_running v of
        Some p \<Rightarrow>
          if op_phase p = Waiting then
            v\<lparr>ov_running := Some (p\<lparr>op_attempt := Suc (op_attempt p), op_phase := Calling\<rparr>), ov_calls := Suc (ov_calls v)\<rparr>
          else v
      | None \<Rightarrow> v)"

definition attempts_failed :: "nat \<Rightarrow> string \<Rightarrow> string" where
  "attempts_failed retries e = ''LLM call failed after '' @ show_nat (retries + 1) @ '' attempts: '' @ e"

text \<open>The call of the model was rejected.\<close>

definition observation_call_failed ::
  "observer_config \<Rightarrow> int \<Rightarrow> string \<Rightarrow> observer_pass \<Rightarrow> observer \<Rightarrow> observer \<times> observation_result option" where
  "observation_call_failed cf now e p v =
     (if op_attempt p < observer_retries cf then (v\<lparr>ov_running := Some (p\<lparr>op_phase := Waiting\<rparr>)\<rparr>, None)
      else (v\<lparr>ov_running := None, ov_failures := Suc (ov_failures v), ov_error_at := Some now\<rparr>,
            Some \<lparr>or_success = False, or_created = 0, or_compressed = length (array_of v (op_buffer p)),
                  or_error = Some (attempts_failed (observer_retries cf) e)\<rparr>))"

definition observation_from ::
  "observer_config \<Rightarrow> int \<Rightarrow> observer_pass \<Rightarrow> conversation_message list \<Rightarrow> string \<Rightarrow> model_observation \<Rightarrow> observation" where
  "observation_from cf now p buffer i mo =
     \<lparr>ob_id = i, ob_created = now, ob_category = FactObs, ob_content = mo_content mo,
      ob_conversation = (case buffer of [] \<Rightarrow> None | m # _ \<Rightarrow> Some (cm_conversation m)), ob_message = None,
      ob_agent = op_agent p, ob_channel = None, ob_status = ProcessedObs, ob_usage = None,
      ob_priority = Some (mo_priority mo), ob_referenced = mo_referenced mo, ob_sources = Some (mo_sources mo),
      ob_reflected = None,
      ob_metadata = Some (JObj [(''observerModel'', JStr (observer_model cf)),
                                (''sourceBatchSize'', JNum (of_nat (length buffer)))])\<rparr>"

definition new_observations ::
  "observer_config \<Rightarrow> (nat \<Rightarrow> string) \<Rightarrow> int \<Rightarrow> observer_pass \<Rightarrow> conversation_message list \<Rightarrow> model_observation list
   \<Rightarrow> observation list" where
  "new_observations cf ids now p buffer mos =
     map (\<lambda>(k, mo). observation_from cf now p buffer (ids k) mo) (enumerate 0 mos)"

definition observation_tokens :: "rat \<Rightarrow> observation list \<Rightarrow> int" where
  "observation_tokens c xs = sum_list (map (\<lambda>x. estimate_tokens (ob_content x) c) xs)"

definition observed_state ::
  "observer_config \<Rightarrow> int \<Rightarrow> string \<Rightarrow> observation list \<Rightarrow> memory_state option \<Rightarrow> memory_state" where
  "observed_state cf now a xs old =
     \<lparr>my_agent = a,
      my_tokens = (case old of None \<Rightarrow> 0 | Some s \<Rightarrow> my_tokens s) + observation_tokens (observer_chars_per_token cf) xs,
      my_raw = 0, my_observed_at = Some now, my_reflected_at = Option.bind old my_reflected_at,
      my_count = (case old of None \<Rightarrow> 0 | Some s \<Rightarrow> my_count s) + length xs\<rparr>"

text \<open>The end of a pass that has written its observations, or found none.\<close>

definition end_observation :: "int \<Rightarrow> nat \<Rightarrow> observer_pass \<Rightarrow> observer \<Rightarrow> observer \<times> observation_result option" where
  "end_observation now created p v =
     (let n = length (array_of v (op_buffer p)) in
      ((clear_buffer (op_agent p) v)
         \<lparr>ov_running := None, ov_completed := Suc (ov_completed v), ov_produced := ov_produced v + created,
          ov_compressed := ov_compressed v + n, ov_pass_at := Some now\<rparr>,
       Some \<lparr>or_success = True, or_created = created, or_compressed = n, or_error = None\<rparr>))"

definition unique_failed :: "string \<Rightarrow> string" where
  "unique_failed column = ''UNIQUE constraint failed: '' @ column"

text \<open>The model has answered.\<close>

definition observation_answered ::
  "observer_config \<Rightarrow> (nat \<Rightarrow> string) \<Rightarrow> int \<Rightarrow> string \<Rightarrow> observer_pass \<Rightarrow> observer \<Rightarrow> observation_db
   \<Rightarrow> observer \<times> observation_db \<times> observation_result option" where
  "observation_answered cf ids now text p v db =
     (let mos = parse_model_response text; a = op_agent p in
      if mos = [] then (case end_observation now 0 p v of (v', r) \<Rightarrow> (v', db, r))
      else
        let xs = new_observations cf ids now p (array_of v (op_buffer p)) mos in
        case insert_batch xs db of
          None \<Rightarrow>
            (v\<lparr>ov_running := None, ov_error_at := Some now\<rparr>, db,
             Some \<lparr>or_success = False, or_created = 0, or_compressed = 0,
                   or_error = Some (unique_failed ''observations.id'')\<rparr>)
        | Some db' \<Rightarrow>
            (case end_observation now (length xs) p v of
               (v', r) \<Rightarrow> (v', upsert_memory_state (observed_state cf now a xs (get_memory_state a db')) db', r)))"

definition observation_reply ::
  "observer_config \<Rightarrow> (nat \<Rightarrow> string) \<Rightarrow> int \<Rightarrow> string + string \<Rightarrow> observer \<Rightarrow> observation_db
   \<Rightarrow> observer \<times> observation_db \<times> observation_result option" where
  "observation_reply cf ids now reply v db =
     (case ov_running v of
        None \<Rightarrow> (v, db, None)
      | Some p \<Rightarrow>
          if op_phase p = Waiting then (v, db, None)
          else (case reply of
                  Inl e \<Rightarrow> (case observation_call_failed cf now e p v of (v', r) \<Rightarrow> (v', db, r))
                | Inr text \<Rightarrow> observation_answered cf ids now text p v db))"

end
