(* ===== verification/Reflector.thy ===== *)
theory Reflector
  imports Observer
begin

text \<open>
  The readers of the observational memory: \<open>lib/reflector-agent.ts\<close>, which lets a language model decide
  which active observations of an agent are kept, merged or discarded, and \<open>lib/observation-cache.ts\<close>,
  the part of them that fits into a prompt. As in the observer a pass stops at the calls of the model;
  in between the tables may change.
\<close>

section \<open>The cache\<close>

record cache_config =
  cache_agent :: string
  cache_budget :: int
  cache_chars_per_token :: rat
  cache_max :: int

record observation_cache =
  ch_cached :: "observation list"
  ch_tokens :: int
  ch_generation :: nat
  ch_rebuilt :: "int option"
  ch_dirty :: bool

definition default_cache_config :: "string \<Rightarrow> cache_config" where
  "default_cache_config a =
     \<lparr>cache_agent = a, cache_budget = 50000, cache_chars_per_token = 4, cache_max = 500\<rparr>"

definition new_cache :: observation_cache where
  "new_cache = \<lparr>ch_cached = [], ch_tokens = 0, ch_generation = 0, ch_rebuilt = None, ch_dirty = True\<rparr>"

definition invalidate_cache :: "observation_cache \<Rightarrow> observation_cache" where
  "invalidate_cache ch = ch\<lparr>ch_dirty := True\<rparr>"

text \<open>The loop that trims to the budget; the first observation is always taken.\<close>

fun trim_to_budget :: "rat \<Rightarrow> int \<Rightarrow> int \<Rightarrow> observation list \<Rightarrow> observation list \<Rightarrow> observation list \<times> int" where
  "trim_to_budget c budget tokens taken [] = (taken, tokens)"
| "trim_to_budget c budget tokens taken (x # xs) =
     (let t = estimate_tokens (ob_content x) c in
      if budget < tokens + t \<and> taken \<noteq> [] then (taken, tokens)
      else trim_to_budget c budget (tokens + t) (taken @ [x]) xs)"

definition rebuild_cache :: "cache_config \<Rightarrow> int \<Rightarrow> observation_db \<Rightarrow> observation_cache \<Rightarrow> observation_cache" where
  "rebuild_cache cf now db ch =
     (let xs = sort_by memory_order (active_observations (cache_agent cf) (cache_max cf) db) in
      case trim_to_budget (cache_chars_per_token cf) (cache_budget cf) 0 [] xs of
        (taken, tokens) \<Rightarrow>
          \<lparr>ch_cached = taken, ch_tokens = tokens, ch_generation = Suc (ch_generation ch), ch_rebuilt = Some now,
           ch_dirty = False\<rparr>)"

text \<open>Every getter of the cache rebuilds it when it is dirty.\<close>

definition fresh_cache :: "cache_config \<Rightarrow> int \<Rightarrow> observation_db \<Rightarrow> observation_cache \<Rightarrow> observation_cache" where
  "fresh_cache cf now db ch = (if ch_dirty ch then rebuild_cache cf now db ch else ch)"

definition exceeds_budget :: "cache_config \<Rightarrow> int option \<Rightarrow> observation_cache \<Rightarrow> bool" where
  "exceeds_budget cf limit ch \<longleftrightarrow> nullish limit (cache_budget cf) < ch_tokens ch"

definition priority_label :: "observation_priority \<Rightarrow> string" where
  "priority_label p =
     (case p of
        HighObs \<Rightarrow> [CHR 0xF0, CHR 0x9F, CHR 0x94, CHR 0xB4] @ '' High Priority''
      | MediumObs \<Rightarrow> [CHR 0xF0, CHR 0x9F, CHR 0x9F, CHR 0xA1] @ '' Medium Priority''
      | InfoObs \<Rightarrow> [CHR 0xF0, CHR 0x9F, CHR 0x9F, CHR 0xA2] @ '' Info'')"

definition prompt_line :: "observation \<Rightarrow> string" where
  "prompt_line x =
     ''- '' @ ob_content x
     @ (if truthy_str (ob_referenced x) then '' [ref: '' @ str_or_empty (ob_referenced x) @ '']'' else [])"

definition prompt_group :: "observation list \<Rightarrow> observation_priority \<Rightarrow> string list" where
  "prompt_group xs p =
     (let group = filter (\<lambda>x. nullish (ob_priority x) InfoObs = p) xs in
      if group = [] then [] else [[], ''### '' @ priority_label p] @ map prompt_line group)"

record prompt_block =
  pb_text :: string
  pb_tokens :: int
  pb_count :: nat

definition prompt_block_of :: "cache_config \<Rightarrow> observation_cache \<Rightarrow> prompt_block" where
  "prompt_block_of cf ch =
     (let xs = ch_cached ch in
      if xs = [] then \<lparr>pb_text = [], pb_tokens = 0, pb_count = 0\<rparr>
      else
        let text = join_with newline (''## Active Observations'' # concat (map (prompt_group xs) [HighObs, MediumObs, InfoObs]))
        in \<lparr>pb_text = text, pb_tokens = estimate_tokens text (cache_chars_per_token cf), pb_count = length xs\<rparr>)"

section \<open>Decisions\<close>

datatype reflection_verdict = KeepIt | MergeIt | DiscardIt

record reflection_decision =
  dc_id :: string
  dc_verdict :: reflection_verdict
  dc_reason :: string
  dc_into :: "string option"
  dc_content :: "string option"

definition verdict_named :: "string \<Rightarrow> reflection_verdict option" where
  "verdict_named s =
     (if s = ''keep'' then Some KeepIt else if s = ''merge'' then Some MergeIt
      else if s = ''discard'' then Some DiscardIt else None)"

definition read_decision :: "json \<Rightarrow> reflection_decision option" where
  "read_decision j =
     (case json_object j of
        None \<Rightarrow> None
      | Some fs \<Rightarrow>
          (case (json_get fs ''observationId'' json_text, Option.bind (json_get fs ''decision'' json_text) verdict_named) of
             (Some i, Some v) \<Rightarrow>
               Some \<lparr>dc_id = i, dc_verdict = v, dc_reason = nullish (json_get fs ''reason'' json_text) [],
                     dc_into = json_get fs ''mergeIntoId'' json_text,
                     dc_content = json_get fs ''mergedContent'' json_text\<rparr>
           | _ \<Rightarrow> None))"

definition parse_reflection :: "string \<Rightarrow> (reflection_decision list \<times> string option) option" where
  "parse_reflection text =
     (case Option.bind (parse_answer (CHR 0x7B) (CHR 0x7D) text) json_object of
        None \<Rightarrow> None
      | Some fs \<Rightarrow>
          map_option (\<lambda>ds. (List.map_filter read_decision ds, json_get fs ''summary'' json_text))
            (json_get fs ''decisions'' json_array))"

text \<open>The decisions on observations that were evaluated; a later one replaces an earlier one.\<close>

definition decision_map :: "string list \<Rightarrow> reflection_decision list \<Rightarrow> (string, reflection_decision) jsmap" where
  "decision_map ids ds = fold (\<lambda>d m. if dc_id d \<in> set ids then js_set (dc_id d) d m else m) ds []"

record merge_op =
  mg_target :: string
  mg_content :: string
  mg_source :: string

record reflection_plan =
  pl_keep :: nat
  pl_merge :: nat
  pl_discard :: nat
  pl_gone :: "string list"
  pl_merges :: "merge_op list"

definition empty_plan :: reflection_plan where
  "empty_plan = \<lparr>pl_keep = 0, pl_merge = 0, pl_discard = 0, pl_gone = [], pl_merges = []\<rparr>"

definition keep_one :: "reflection_plan \<Rightarrow> reflection_plan" where
  "keep_one p = p\<lparr>pl_keep := Suc (pl_keep p)\<rparr>"

definition plan_one ::
  "string list \<Rightarrow> (string, reflection_decision) jsmap \<Rightarrow> string \<Rightarrow> reflection_plan \<Rightarrow> reflection_plan" where
  "plan_one ids dm i p =
     (case js_get dm i of
        None \<Rightarrow> keep_one p
      | Some d \<Rightarrow>
          (case dc_verdict d of
             KeepIt \<Rightarrow> keep_one p
           | DiscardIt \<Rightarrow> p\<lparr>pl_discard := Suc (pl_discard p), pl_gone := pl_gone p @ [i]\<rparr>
           | MergeIt \<Rightarrow>
               if truthy_str (dc_into d) \<and> truthy_str (dc_content d) \<and> str_or_empty (dc_into d) \<in> set ids then
                 p\<lparr>pl_merge := Suc (pl_merge p), pl_gone := pl_gone p @ [i],
                   pl_merges := pl_merges p @
                     [\<lparr>mg_target = str_or_empty (dc_into d), mg_content = str_or_empty (dc_content d), mg_source = i\<rparr>]\<rparr>
               else keep_one p))"

definition plan_reflection :: "string list \<Rightarrow> reflection_decision list \<Rightarrow> reflection_plan" where
  "plan_reflection ids ds = fold (plan_one ids (decision_map ids ds)) ids empty_plan"

text \<open>The observations that the floor brings back: those of the lowest priority first.\<close>

definition rescue_rank :: "observation list \<Rightarrow> string \<Rightarrow> nat" where
  "rescue_rank active i =
     (case Option.bind (List.find (\<lambda>x. ob_id x = i) active) ob_priority of
        Some HighObs \<Rightarrow> 0 | Some MediumObs \<Rightarrow> 1 | _ \<Rightarrow> 2)"

definition rescued :: "observation list \<Rightarrow> int \<Rightarrow> reflection_plan \<Rightarrow> string list" where
  "rescued active least p =
     (if int (pl_keep p) < least
      then take (nat (least - int (pl_keep p))) (sort_desc (rescue_rank active) (pl_gone p))
      else [])"

definition apply_merges :: "merge_op list \<Rightarrow> observation_db \<Rightarrow> observation_db" where
  "apply_merges ops db = fold (\<lambda>op. update_content (mg_target op) (mg_content op)) ops db"

record reflection_counts =
  rc_kept :: int
  rc_merged :: int
  rc_discarded :: int

definition apply_decisions ::
  "int \<Rightarrow> int \<Rightarrow> observation list \<Rightarrow> reflection_decision list \<Rightarrow> observation_db \<Rightarrow> observation_db \<times> reflection_counts" where
  "apply_decisions least now active ds db =
     (let p = plan_reflection (map ob_id active) ds in
      if int (pl_keep p) < least then
        let saved = rescued active least p;
            gone = filter (\<lambda>i. i \<notin> set saved) (pl_gone p);
            ops = filter (\<lambda>op. mg_source op \<notin> set saved) (pl_merges p);
            discarded = int (length gone); merged = int (length ops) in
        (fst (mark_reflected gone now (apply_merges ops db)),
         \<lparr>rc_kept = int (length active) - discarded - merged, rc_merged = merged, rc_discarded = discarded - merged\<rparr>)
      else
        (fst (mark_reflected (pl_gone p) now (apply_merges (pl_merges p) db)),
         \<lparr>rc_kept = int (pl_keep p), rc_merged = int (pl_merge p), rc_discarded = int (pl_discard p)\<rparr>))"

section \<open>Passes\<close>

record reflector_config =
  reflector_enabled :: bool
  reflector_chars_per_token :: rat
  reflector_budget :: int
  reflector_floor :: int
  reflector_retries :: nat
  reflector_model :: string
  reflector_cache :: bool

definition default_reflector_config :: "bool \<Rightarrow> reflector_config" where
  "default_reflector_config cached =
     \<lparr>reflector_enabled = True, reflector_chars_per_token = 4, reflector_budget = 50000, reflector_floor = 5,
      reflector_retries = 1, reflector_model = ''gpt-4o-mini'', reflector_cache = cached\<rparr>"

record reflection_result =
  rr_success :: bool
  rr_evaluated :: int
  rr_kept :: int
  rr_merged :: int
  rr_discarded :: int
  rr_before :: int
  rr_after :: int
  rr_error :: "string option"

text \<open>The local variables of a running pass: \<open>activeObs\<close>, \<open>tokensBefore\<close>, \<open>startTime\<close> and \<open>attempt\<close>.\<close>

record reflection_pass =
  rp_agent :: string
  rp_active :: "observation list"
  rp_before :: int
  rp_started :: int
  rp_attempt :: nat
  rp_phase :: call_phase

record reflector =
  rf_running :: "reflection_pass option"
  rf_attempted :: nat
  rf_completed :: nat
  rf_evaluated :: int
  rf_kept :: int
  rf_merged :: int
  rf_discarded :: int
  rf_calls :: nat
  rf_failures :: nat
  rf_skipped :: nat
  rf_pass_at :: "int option"
  rf_error_at :: "int option"

definition new_reflector :: reflector where
  "new_reflector =
     \<lparr>rf_running = None, rf_attempted = 0, rf_completed = 0, rf_evaluated = 0, rf_kept = 0, rf_merged = 0,
      rf_discarded = 0, rf_calls = 0, rf_failures = 0, rf_skipped = 0, rf_pass_at = None, rf_error_at = None\<rparr>"

definition should_reflect :: "reflector_config \<Rightarrow> string \<Rightarrow> observation_db \<Rightarrow> bool" where
  "should_reflect cf a db \<longleftrightarrow>
     reflector_enabled cf
     \<and> (case get_memory_state a db of None \<Rightarrow> False | Some s \<Rightarrow> reflector_budget cf < my_tokens s)"

definition failed_reflection :: "string \<Rightarrow> reflection_result" where
  "failed_reflection e =
     \<lparr>rr_success = False, rr_evaluated = 0, rr_kept = 0, rr_merged = 0, rr_discarded = 0, rr_before = 0,
      rr_after = 0, rr_error = Some e\<rparr>"

text \<open>Nothing was decided: all evaluated observations are kept.\<close>

definition all_kept :: "bool \<Rightarrow> nat \<Rightarrow> int \<Rightarrow> string option \<Rightarrow> reflection_result" where
  "all_kept ok n tokens e =
     \<lparr>rr_success = ok, rr_evaluated = int n, rr_kept = int n, rr_merged = 0, rr_discarded = 0, rr_before = tokens,
      rr_after = tokens, rr_error = e\<rparr>"

definition log_entry ::
  "reflector_config \<Rightarrow> string \<Rightarrow> int \<Rightarrow> int \<Rightarrow> string \<Rightarrow> reflection_result \<Rightarrow> reflection_entry" where
  "log_entry cf i now started a r =
     \<lparr>rl_id = i, rl_agent = a, rl_at = now, rl_evaluated = rr_evaluated r, rl_kept = rr_kept r,
      rl_merged = rr_merged r, rl_discarded = rr_discarded r, rl_before = rr_before r, rl_after = rr_after r,
      rl_model = reflector_model cf, rl_duration = now - started, rl_error = rr_error r\<rparr>"

text \<open>
  \<open>logReflection\<close> and the return of the result; a log entry that is refused is an exception, which
  the pass catches. The lock is released in every case.
\<close>

definition log_and_return ::
  "reflector_config \<Rightarrow> string \<Rightarrow> int \<Rightarrow> int \<Rightarrow> string \<Rightarrow> reflection_result \<Rightarrow> reflector \<Rightarrow> observation_db
   \<Rightarrow> reflector \<times> observation_db \<times> reflection_result" where
  "log_and_return cf i now started a r v db =
     (case insert_reflection (log_entry cf i now started a r) db of
        None \<Rightarrow> (v\<lparr>rf_running := None, rf_error_at := Some now\<rparr>, db, failed_reflection (unique_failed ''reflection_log.id''))
      | Some db' \<Rightarrow> (v\<lparr>rf_running := None\<rparr>, db', r))"

definition complete_reflection ::
  "reflector_config \<Rightarrow> string \<Rightarrow> int \<Rightarrow> int \<Rightarrow> string \<Rightarrow> reflection_result \<Rightarrow> reflector \<Rightarrow> observation_db
   \<Rightarrow> reflector \<times> observation_db \<times> reflection_result" where
  "complete_reflection cf i now started a r v db =
     log_and_return cf i now started a r
       (v\<lparr>rf_completed := Suc (rf_completed v), rf_evaluated := rf_evaluated v + rr_evaluated r,
          rf_kept := rf_kept v + rr_kept r, rf_merged := rf_merged v + rr_merged r,
          rf_discarded := rf_discarded v + rr_discarded r, rf_pass_at := Some now\<rparr>) db"

definition begin_reflection ::
  "reflector_config \<Rightarrow> string \<Rightarrow> int \<Rightarrow> string \<Rightarrow> reflector \<Rightarrow> observation_db
   \<Rightarrow> reflector \<times> observation_db \<times> reflection_result option" where
  "begin_reflection cf i now a v db =
     (case rf_running v of
        Some _ \<Rightarrow>
          (v\<lparr>rf_skipped := Suc (rf_skipped v)\<rparr>, db, Some (failed_reflection ''Reflection pass already in progress''))
      | None \<Rightarrow>
          (let v1 = v\<lparr>rf_attempted := Suc (rf_attempted v)\<rparr>;
               active = active_observations a default_active_limit db;
               tokens = observation_tokens (reflector_chars_per_token cf) active in
           if int (length active) \<le> reflector_floor cf \<or> active = [] then
             (case complete_reflection cf i now now a (all_kept True (length active) tokens None) v1 db of
                (v2, db', r) \<Rightarrow> (v2, db', Some r))
           else
             (v1\<lparr>rf_running := Some \<lparr>rp_agent = a, rp_active = active, rp_before = tokens, rp_started = now,
                                    rp_attempt = 0, rp_phase = Calling\<rparr>,
                 rf_calls := Suc (rf_calls v1)\<rparr>, db, None)))"

definition retry_reflection :: "reflector \<Rightarrow> reflector" where
  "retry_reflection v =
     (case rf_running v of
        Some p \<Rightarrow>
          if rp_phase p = Waiting then
            v\<lparr>rf_running := Some (p\<lparr>rp_attempt := Suc (rp_attempt p), rp_phase := Calling\<rparr>), rf_calls := Suc (rf_calls v)\<rparr>
          else v
      | None \<Rightarrow> v)"

text \<open>The model failed for good, or its answer was not understood.\<close>

definition give_up ::
  "reflector_config \<Rightarrow> string \<Rightarrow> int \<Rightarrow> string \<Rightarrow> reflection_pass \<Rightarrow> reflector \<Rightarrow> observation_db
   \<Rightarrow> reflector \<times> observation_db \<times> reflection_result" where
  "give_up cf i now e p v db =
     log_and_return cf i now (rp_started p) (rp_agent p)
       (all_kept False (length (rp_active p)) (rp_before p) (Some e)) v db"

definition reflected_state :: "int \<Rightarrow> string \<Rightarrow> int \<Rightarrow> nat \<Rightarrow> memory_state option \<Rightarrow> memory_state" where
  "reflected_state now a tokens n old =
     \<lparr>my_agent = a, my_tokens = tokens, my_raw = (case old of None \<Rightarrow> 0 | Some s \<Rightarrow> my_raw s),
      my_observed_at = Option.bind old my_observed_at, my_reflected_at = Some now, my_count = n\<rparr>"

definition update_memory_state ::
  "reflector_config \<Rightarrow> int \<Rightarrow> string \<Rightarrow> observation_db \<Rightarrow> observation_db \<times> int" where
  "update_memory_state cf now a db =
     (let remaining = active_observations a default_active_limit db;
          tokens = observation_tokens (reflector_chars_per_token cf) remaining in
      (upsert_memory_state (reflected_state now a tokens (length remaining) (get_memory_state a db)) db, tokens))"

definition reflection_answered ::
  "reflector_config \<Rightarrow> string \<Rightarrow> int \<Rightarrow> string \<Rightarrow> reflection_pass \<Rightarrow> reflector \<Rightarrow> observation_db \<Rightarrow> observation_cache
   \<Rightarrow> (reflector \<times> observation_db \<times> reflection_result) \<times> observation_cache" where
  "reflection_answered cf i now text p v db ch =
     (case parse_reflection text of
        Some (d # ds, _) \<Rightarrow>
          (case apply_decisions (reflector_floor cf) now (rp_active p) (d # ds) db of
             (db1, n) \<Rightarrow>
               (case update_memory_state cf now (rp_agent p) db1 of
                  (db2, tokens) \<Rightarrow>
                    (complete_reflection cf i now (rp_started p) (rp_agent p)
                       \<lparr>rr_success = True, rr_evaluated = int (length (rp_active p)), rr_kept = rc_kept n,
                        rr_merged = rc_merged n, rr_discarded = rc_discarded n, rr_before = rp_before p,
                        rr_after = tokens, rr_error = None\<rparr> v db2,
                     if reflector_cache cf then invalidate_cache ch else ch)))
      | _ \<Rightarrow> (give_up cf i now ''Failed to parse LLM reflection response'' p v db, ch))"

definition reflection_reply ::
  "reflector_config \<Rightarrow> string \<Rightarrow> int \<Rightarrow> string + string \<Rightarrow> reflector \<Rightarrow> observation_db \<Rightarrow> observation_cache
   \<Rightarrow> (reflector \<times> observation_db \<times> reflection_result option) \<times> observation_cache" where
  "reflection_reply cf i now reply v db ch =
     (case rf_running v of
        None \<Rightarrow> ((v, db, None), ch)
      | Some p \<Rightarrow>
          if rp_phase p = Waiting then ((v, db, None), ch)
          else (case reply of
                  Inr text \<Rightarrow>
                    (case reflection_answered cf i now text p v db ch of
                       ((v', db', r), ch') \<Rightarrow> ((v', db', Some r), ch'))
                | Inl e \<Rightarrow>
                    if rp_attempt p < reflector_retries cf then
                      ((v\<lparr>rf_running := Some (p\<lparr>rp_phase := Waiting\<rparr>)\<rparr>, db, None), ch)
                    else
                      (case give_up cf i now (attempts_failed (reflector_retries cf) e) p
                              (v\<lparr>rf_failures := Suc (rf_failures v), rf_error_at := Some now\<rparr>) db of
                         (v', db', r) \<Rightarrow> ((v', db', Some r), ch))))"

section \<open>The memory as a whole\<close>

record memory_config =
  mc_hook :: hook_config
  mc_observer :: observer_config
  mc_reflector :: reflector_config
  mc_cache :: cache_config

record memory =
  mw_db :: observation_db
  mw_hook :: token_hook
  mw_timers :: "string list"
  mw_observer :: observer
  mw_reflector :: reflector
  mw_cache :: observation_cache

definition new_memory :: memory where
  "new_memory =
     \<lparr>mw_db = empty_observations, mw_hook = new_hook, mw_timers = [], mw_observer = new_observer,
      mw_reflector = new_reflector, mw_cache = new_cache\<rparr>"

datatype memory_op =
    AttachHook | DetachHook | ResetRaw | AttachObserver | DetachObserver
  | MessageEvent string conversation_message
  | BufferMessage string conversation_message
  | ClearBuffer string
  | RunTimer
  | ObserveNow string
  | ObserverRetry
  | ObserverReply "nat \<Rightarrow> string" "string + string"
  | ReflectNow string string
  | ReflectorRetry
  | ReflectorReply string "string + string"
  | ReadCache
  | InvalidateCache

datatype memory_answer =
    NoAnswer
  | Observed observation_result
  | Reflected reflection_result
  | Cached "observation list"

definition observed_answer :: "observation_result option \<Rightarrow> memory_answer" where
  "observed_answer r = (case r of None \<Rightarrow> NoAnswer | Some x \<Rightarrow> Observed x)"

definition reflected_answer :: "reflection_result option \<Rightarrow> memory_answer" where
  "reflected_answer r = (case r of None \<Rightarrow> NoAnswer | Some x \<Rightarrow> Reflected x)"

text \<open>
  A message of the conversation reaches the hook while it is attached; the event of a full buffer
  reaches the observer while it is attached, which starts a pass from a timer.
\<close>

definition memory_message :: "memory_config \<Rightarrow> string \<Rightarrow> int \<Rightarrow> conversation_message \<Rightarrow> memory \<Rightarrow> memory" where
  "memory_message cf i now m w =
     (if th_attached (mw_hook w) then
        (case record_token_usage (mc_hook cf) i now m (mw_hook w) (mw_db w) of
           (h, db, event) \<Rightarrow>
             w\<lparr>mw_hook := h, mw_db := db,
               mw_timers := mw_timers w @
                 (case event of Some a \<Rightarrow> if ov_attached (mw_observer w) then [a] else [] | None \<Rightarrow> [])\<rparr>)
      else w)"

definition memory_observe :: "string \<Rightarrow> memory \<Rightarrow> memory \<times> memory_answer" where
  "memory_observe a w =
     (case begin_observation a (mw_observer w) of (v, r) \<Rightarrow> (w\<lparr>mw_observer := v\<rparr>, observed_answer r))"

definition memory_step :: "memory_config \<Rightarrow> int \<Rightarrow> memory_op \<Rightarrow> memory \<Rightarrow> memory \<times> memory_answer" where
  "memory_step cf now x w =
     (case x of
        AttachHook \<Rightarrow> (w\<lparr>mw_hook := attach_hook (mc_hook cf) (mw_hook w)\<rparr>, NoAnswer)
      | DetachHook \<Rightarrow> (w\<lparr>mw_hook := detach_hook (mw_hook w)\<rparr>, NoAnswer)
      | ResetRaw \<Rightarrow> (w\<lparr>mw_hook := reset_raw_tokens (mw_hook w)\<rparr>, NoAnswer)
      | AttachObserver \<Rightarrow> (w\<lparr>mw_observer := attach_observer (mc_observer cf) (mw_observer w)\<rparr>, NoAnswer)
      | DetachObserver \<Rightarrow> (w\<lparr>mw_observer := detach_observer (mw_observer w)\<rparr>, NoAnswer)
      | MessageEvent i m \<Rightarrow> (memory_message cf i now m w, NoAnswer)
      | BufferMessage a m \<Rightarrow> (w\<lparr>mw_observer := buffer_message (mc_observer cf) a m (mw_observer w)\<rparr>, NoAnswer)
      | ClearBuffer a \<Rightarrow> (w\<lparr>mw_observer := clear_buffer a (mw_observer w)\<rparr>, NoAnswer)
      | RunTimer \<Rightarrow> (case mw_timers w of [] \<Rightarrow> (w, NoAnswer) | a # ts \<Rightarrow> memory_observe a (w\<lparr>mw_timers := ts\<rparr>))
      | ObserveNow a \<Rightarrow> memory_observe a w
      | ObserverRetry \<Rightarrow> (w\<lparr>mw_observer := retry_observation (mw_observer w)\<rparr>, NoAnswer)
      | ObserverReply ids reply \<Rightarrow>
          (case observation_reply (mc_observer cf) ids now reply (mw_observer w) (mw_db w) of
             (v, db, r) \<Rightarrow> (w\<lparr>mw_observer := v, mw_db := db\<rparr>, observed_answer r))
      | ReflectNow i a \<Rightarrow>
          (case begin_reflection (mc_reflector cf) i now a (mw_reflector w) (mw_db w) of
             (v, db, r) \<Rightarrow> (w\<lparr>mw_reflector := v, mw_db := db\<rparr>, reflected_answer r))
      | ReflectorRetry \<Rightarrow> (w\<lparr>mw_reflector := retry_reflection (mw_reflector w)\<rparr>, NoAnswer)
      | ReflectorReply i reply \<Rightarrow>
          (case reflection_reply (mc_reflector cf) i now reply (mw_reflector w) (mw_db w) (mw_cache w) of
             ((v, db, r), ch) \<Rightarrow> (w\<lparr>mw_reflector := v, mw_db := db, mw_cache := ch\<rparr>, reflected_answer r))
      | ReadCache \<Rightarrow>
          (let ch = fresh_cache (mc_cache cf) now (mw_db w) (mw_cache w) in
           (w\<lparr>mw_cache := ch\<rparr>, Cached (ch_cached ch)))
      | InvalidateCache \<Rightarrow> (w\<lparr>mw_cache := invalidate_cache (mw_cache w)\<rparr>, NoAnswer))"

definition memory_run :: "memory_config \<Rightarrow> (int \<times> memory_op) list \<Rightarrow> memory \<Rightarrow> memory" where
  "memory_run cf xs w = fold (\<lambda>(now, x) w. fst (memory_step cf now x w)) xs w"

end
