(* ===== verification/Memory_Correct.thy ===== *)
theory Memory_Correct
  imports Reflector "HOL-Library.Multiset"
begin

text \<open>
  What the observational memory keeps over every run of its parts: the tables, the floor of the
  reflector, the memory state of each agent, the counters.
\<close>

section \<open>How a step changes the tables\<close>

text \<open>
  Seen from the tables and the lock of the reflector, a step is quiet, counts a message, ends a pass
  of the observer, or applies the decisions of the reflector.
\<close>

inductive pass_change ::
  "memory_config \<Rightarrow> observation_db \<Rightarrow> reflection_pass option \<Rightarrow> reflection_pass option \<Rightarrow> bool"
  for cf db where
  pass_stays: "pass_change cf db r r"
| pass_ends: "pass_change cf db r None"
| pass_turns: "rp_agent q = rp_agent p \<Longrightarrow> rp_active q = rp_active p \<Longrightarrow> pass_change cf db (Some p) (Some q)"
| pass_begins:
    "rp_active q = active_observations (rp_agent q) default_active_limit db \<Longrightarrow>
     reflector_floor (mc_reflector cf) < int (length (rp_active q)) \<Longrightarrow> pass_change cf db None (Some q)"

inductive table_change ::
  "memory_config \<Rightarrow> bool \<Rightarrow> reflection_pass option \<times> observation_db
   \<Rightarrow> reflection_pass option \<times> observation_db \<Rightarrow> bool"
  for cf counts where
  quiet_change:
    "od_rows db' = od_rows db \<Longrightarrow> od_states db' = od_states db \<Longrightarrow> pass_change cf db r r' \<Longrightarrow>
     table_change cf counts (r, db) (r', db')"
| usage_change:
    "counts \<Longrightarrow> insert_observation (usage_observation (mc_hook cf) i m) db = Some db' \<Longrightarrow>
     table_change cf counts (r, db) (r, db')"
| observed_change:
    "xs = new_observations (mc_observer cf) ids now p buffer mos \<Longrightarrow> insert_each xs db = Some db1 \<Longrightarrow>
     db' = upsert_memory_state (observed_state (mc_observer cf) now (op_agent p) xs (get_memory_state (op_agent p) db1)) db1 \<Longrightarrow>
     table_change cf counts (r, db) (r, db')"
| reflected_change:
    "db1 = fst (apply_decisions (reflector_floor (mc_reflector cf)) now (rp_active p) ds db) \<Longrightarrow>
     db2 = fst (update_memory_state (mc_reflector cf) now (rp_agent p) db1) \<Longrightarrow>
     od_rows db' = od_rows db2 \<Longrightarrow> od_states db' = od_states db2 \<Longrightarrow>
     table_change cf counts (Some p, db) (None, db')"

definition memory_view :: "memory \<Rightarrow> reflection_pass option \<times> observation_db" where
  "memory_view w = (rf_running (mw_reflector w), mw_db w)"

lemma table_change_refl: "table_change cf counts (r, db) (r, db)"
  by (rule quiet_change) (auto intro: pass_stays)

lemma quiet_end:
  "rf_running v' = None \<and> od_rows db' = od_rows db \<and> od_states db' = od_states db \<Longrightarrow>
   table_change cf counts (r, db) (rf_running v', db')"
  by (simp add: quiet_change pass_ends)

lemma log_and_return_view:
  "log_and_return cf i now started a r v db = (v', db', r') \<Longrightarrow>
   rf_running v' = None \<and> od_rows db' = od_rows db \<and> od_states db' = od_states db"
  by (auto simp: log_and_return_def insert_reflection_def split: option.splits if_splits)

lemma complete_reflection_view:
  "complete_reflection cf i now started a r v db = (v', db', r') \<Longrightarrow>
   rf_running v' = None \<and> od_rows db' = od_rows db \<and> od_states db' = od_states db"
  unfolding complete_reflection_def by (rule log_and_return_view)

lemma begin_reflection_change:
  assumes "begin_reflection (mc_reflector cf) i now a v db = (v', db', r)"
  shows "table_change cf counts (rf_running v, db) (rf_running v', db')"
proof (cases "rf_running v")
  case (Some p)
  then show ?thesis using assms by (auto simp: begin_reflection_def intro: table_change_refl)
next
  case None
  let ?active = "active_observations a default_active_limit db"
  show ?thesis
  proof (cases "int (length ?active) \<le> reflector_floor (mc_reflector cf) \<or> ?active = []")
    case True
    then have "rf_running v' = None \<and> od_rows db' = od_rows db \<and> od_states db' = od_states db"
      using assms None by (auto simp: begin_reflection_def Let_def split: prod.splits dest: complete_reflection_view)
    then show ?thesis by (rule quiet_end)
  next
    case False
    then show ?thesis
      using assms None by (auto simp: begin_reflection_def Let_def intro!: quiet_change pass_begins)
  qed
qed

lemma reflection_answered_change:
  assumes "reflection_answered (mc_reflector cf) i now text p v db ch = ((v', db', r), ch')" "rf_running v = Some p"
  shows "table_change cf counts (rf_running v, db) (rf_running v', db')"
proof (cases "\<exists>d ds s. parse_reflection text = Some (d # ds, s)")
  case True
  then obtain d ds s where d: "parse_reflection text = Some (d # ds, s)" by blast
  obtain db1 n where a: "apply_decisions (reflector_floor (mc_reflector cf)) now (rp_active p) (d # ds) db = (db1, n)"
    by (cases "apply_decisions (reflector_floor (mc_reflector cf)) now (rp_active p) (d # ds) db")
  obtain db2 t where u: "update_memory_state (mc_reflector cf) now (rp_agent p) db1 = (db2, t)"
    by (cases "update_memory_state (mc_reflector cf) now (rp_agent p) db1")
  have "rf_running v' = None \<and> od_rows db' = od_rows db2 \<and> od_states db' = od_states db2"
    using assms(1) d a u by (auto simp: reflection_answered_def dest: complete_reflection_view)
  then show ?thesis
    using a u assms(2)
    by (metis (no_types, lifting) fst_conv reflected_change [of db1 cf now p "d # ds" db db2 db'])
next
  case False
  then have "rf_running v' = None \<and> od_rows db' = od_rows db \<and> od_states db' = od_states db"
    using assms(1) log_and_return_view
    by (auto simp: reflection_answered_def give_up_def split: option.splits list.splits dest: log_and_return_view)
  then show ?thesis by (rule quiet_end)
qed

lemma reflection_reply_change:
  assumes "reflection_reply (mc_reflector cf) i now reply v db ch = ((v', db', r), ch')"
  shows "table_change cf counts (rf_running v, db) (rf_running v', db')"
proof -
  consider (idle) "rf_running v = None \<or> (\<exists>p. rf_running v = Some p \<and> rp_phase p = Waiting)"
    | (answered) p t where "rf_running v = Some p" "rp_phase p = Calling" "reply = Inr t"
    | (failed) p e where "rf_running v = Some p" "rp_phase p = Calling" "reply = Inl e"
    by (cases "rf_running v"; cases reply; force intro: call_phase.exhaust)
  then show ?thesis
  proof cases
    case idle
    then show ?thesis using assms by (auto simp: reflection_reply_def intro: table_change_refl)
  next
    case (answered p t)
    then show ?thesis
      using assms reflection_answered_change [of cf i now t p v db ch]
      by (auto simp: reflection_reply_def split: prod.splits)
  next
    case (failed p e)
    show ?thesis
    proof (cases "rp_attempt p < reflector_retries (mc_reflector cf)")
      case True
      then show ?thesis
        using assms failed by (auto simp: reflection_reply_def intro!: quiet_change pass_turns)
    next
      case False
      then have "rf_running v' = None \<and> od_rows db' = od_rows db \<and> od_states db' = od_states db"
        using assms failed
        by (auto simp: reflection_reply_def give_up_def split: prod.splits dest!: log_and_return_view)
      then show ?thesis by (rule quiet_end)
    qed
  qed
qed

lemma observation_reply_change:
  assumes "observation_reply (mc_observer cf) ids now reply v db = (v', db', r)"
  shows "table_change cf counts (q, db) (q, db')"
proof (cases "db' = db")
  case True
  then show ?thesis by (simp add: table_change_refl)
next
  case False
  then obtain p t where p: "ov_running v = Some p" "reply = Inr t"
    and ans: "observation_answered (mc_observer cf) ids now t p v db = (v', db', r)"
    using assms by (auto simp: observation_reply_def split: option.splits if_splits sum.splits prod.splits)
  let ?mos = "parse_model_response t" and ?b = "array_of v (op_buffer p)"
  define xs where "xs = new_observations (mc_observer cf) ids now p ?b ?mos"
  have "?mos \<noteq> []" using ans False by (auto simp: observation_answered_def Let_def split: prod.splits)
  then have "xs \<noteq> []" by (auto simp: xs_def new_observations_def enumerate_eq_zip)
  have "insert_batch xs db \<noteq> None"
    using ans False \<open>?mos \<noteq> []\<close> by (auto simp: observation_answered_def Let_def xs_def split: option.splits)
  then obtain db1 where db1: "insert_each xs db = Some db1"
    using \<open>xs \<noteq> []\<close> by (auto simp: insert_batch_def)
  have "db' = upsert_memory_state (observed_state (mc_observer cf) now (op_agent p) xs (get_memory_state (op_agent p) db1)) db1"
    using ans \<open>?mos \<noteq> []\<close> db1 \<open>xs \<noteq> []\<close>
    by (auto simp: observation_answered_def Let_def insert_batch_def simp flip: xs_def split: prod.splits)
  then show ?thesis using observed_change [OF xs_def db1] by blast
qed

lemma begin_observation_view: "memory_view (fst (memory_observe a w)) = memory_view w"
  by (simp add: memory_observe_def memory_view_def split: prod.splits)

lemma memory_message_change:
  "table_change cf True (memory_view w) (memory_view (memory_message cf i now m w))"
proof (cases "th_attached (mw_hook w)")
  case True
  obtain h db event where r: "record_token_usage (mc_hook cf) i now m (mw_hook w) (mw_db w) = (h, db, event)"
    by (cases "record_token_usage (mc_hook cf) i now m (mw_hook w) (mw_db w)") auto
  then have "db = mw_db w \<or> insert_observation (usage_observation (mc_hook cf) i m) (mw_db w) = Some db"
    by (auto simp: record_token_usage_def Let_def split: if_splits option.splits prod.splits)
  then show ?thesis
    using True r by (auto simp: memory_message_def memory_view_def intro: table_change_refl usage_change)
qed (simp add: memory_message_def memory_view_def table_change_refl)

definition is_message :: "memory_op \<Rightarrow> bool" where
  "is_message x \<longleftrightarrow> (case x of MessageEvent _ _ \<Rightarrow> True | _ \<Rightarrow> False)"

theorem memory_step_change:
  "table_change cf (is_message x) (memory_view w) (memory_view (fst (memory_step cf now x w)))"
proof (cases x)
  case (MessageEvent i m)
  then show ?thesis by (simp add: memory_step_def memory_message_change is_message_def)
next
  case RunTimer
  then show ?thesis
    by (cases "mw_timers w")
      (simp_all add: memory_step_def begin_observation_view table_change_refl, simp_all add: memory_view_def table_change_refl)
next
  case (ObserveNow a)
  then show ?thesis by (simp add: memory_step_def begin_observation_view) (simp add: memory_view_def table_change_refl)
next
  case (ObserverReply ids reply)
  then show ?thesis
    using observation_reply_change
    by (auto simp: memory_step_def memory_view_def split: prod.splits)
next
  case (ReflectNow i a)
  then show ?thesis
    using begin_reflection_change by (auto simp: memory_step_def memory_view_def split: prod.splits)
next
  case ReflectorRetry
  then show ?thesis
    by (auto simp: memory_step_def memory_view_def retry_reflection_def split: option.splits
        intro!: quiet_change pass_turns pass_stays)
next
  case (ReflectorReply i reply)
  then show ?thesis
    using reflection_reply_change by (auto simp: memory_step_def memory_view_def split: prod.splits)
qed (simp_all add: memory_step_def memory_view_def table_change_refl Let_def is_message_def)

section \<open>Orders and sums\<close>

lemma mset_insert_by: "mset (insert_by le x ys) = add_mset x (mset ys)"
  by (induction ys) auto

lemma mset_sort_by: "mset (sort_by le xs) = mset xs"
  by (induction xs rule: rev_induct) (auto simp: sort_by_snoc mset_insert_by)

lemma mset_sort_desc: "mset (sort_desc key xs) = mset xs"
  by (simp add: sort_desc_def mset_sort_by)

lemma distinct_sort_desc: "distinct (sort_desc key xs) = distinct xs"
  by (metis mset_sort_desc mset_eq_imp_distinct_iff)

lemma observation_tokens_mset: "mset xs = mset ys \<Longrightarrow> observation_tokens c xs = observation_tokens c ys"
  unfolding observation_tokens_def by (metis mset_map sum_mset_sum_list)

lemma row_to_observation_simps [simp]:
  "ob_id (row_to_observation x) = ob_id x" "ob_content (row_to_observation x) = ob_content x"
  "ob_priority (row_to_observation x) = ob_priority x" "ob_created (row_to_observation x) = ob_created x"
  by (simp_all add: row_to_observation_def)

lemma observation_tokens_rows: "observation_tokens c (map row_to_observation xs) = observation_tokens c xs"
  by (simp add: observation_tokens_def comp_def)

lemma active_within_limit:
  assumes "length (active_rows a db) \<le> 500"
  shows "observation_tokens c (active_observations a default_active_limit db) = observation_tokens c (active_rows a db)"
    "length (active_observations a default_active_limit db) = length (active_rows a db)"
  using assms
  by (simp_all add: active_observations_def default_active_limit_def sql_limit_def observation_tokens_rows
      observation_tokens_mset [OF mset_sort_by])

lemma active_observations_ids:
  "set (map ob_id (active_observations a n db)) \<subseteq> ob_id ` set (active_rows a db)"
  by (auto simp: active_observations_def sql_limit_def dest: in_set_takeD)

lemma distinct_active_observations:
  assumes "distinct (map ob_id (od_rows db))"
  shows "distinct (map ob_id (active_observations a n db))"
proof -
  have "distinct (map ob_id (active_rows a db))"
    using assms unfolding active_rows_def by (rule distinct_map_filter)
  then have "distinct (map ob_id (sort_by memory_order (active_rows a db)))"
    by (metis mset_map mset_sort_by mset_eq_imp_distinct_iff)
  then show ?thesis
    by (simp add: active_observations_def sql_limit_def comp_def take_map [symmetric] distinct_take)
qed

section \<open>The plan of the reflector\<close>

lemma plan_one_facts:
  "pl_keep (plan_one ids dm i p) + length (pl_gone (plan_one ids dm i p)) = Suc (pl_keep p + length (pl_gone p))"
  "pl_gone (plan_one ids dm i p) = pl_gone p \<or> pl_gone (plan_one ids dm i p) = pl_gone p @ [i]"
  "(pl_merges (plan_one ids dm i p) = pl_merges p \<and> pl_merge (plan_one ids dm i p) = pl_merge p)
   \<or> (pl_merge (plan_one ids dm i p) = Suc (pl_merge p) \<and> pl_gone (plan_one ids dm i p) = pl_gone p @ [i]
      \<and> (\<exists>op. pl_merges (plan_one ids dm i p) = pl_merges p @ [op] \<and> mg_source op = i \<and> mg_target op \<in> set ids))"
  "pl_merge (plan_one ids dm i p) + pl_discard (plan_one ids dm i p) + pl_keep (plan_one ids dm i p)
   = Suc (pl_merge p + pl_discard p + pl_keep p)"
  by (auto simp: plan_one_def keep_one_def split: option.splits reflection_verdict.splits)

definition plan_ok :: "string list \<Rightarrow> string list \<Rightarrow> reflection_plan \<Rightarrow> bool" where
  "plan_ok ids seen p \<longleftrightarrow>
     pl_keep p + length (pl_gone p) = length seen
     \<and> pl_merge p + pl_discard p + pl_keep p = length seen
     \<and> set (pl_gone p) \<subseteq> set seen \<and> distinct (pl_gone p)
     \<and> length (pl_merges p) = pl_merge p
     \<and> mg_source ` set (pl_merges p) \<subseteq> set (pl_gone p)
     \<and> distinct (map mg_source (pl_merges p))
     \<and> mg_target ` set (pl_merges p) \<subseteq> set ids"

lemma plan_one_ok:
  assumes "plan_ok ids seen p" "i \<notin> set seen"
  shows "plan_ok ids (seen @ [i]) (plan_one ids dm i p)"
proof -
  define q where "q = plan_one ids dm i p"
  note facts = plan_one_facts [of ids dm i p, folded q_def]
  have new: "i \<notin> set (pl_gone p)" using assms by (auto simp: plan_ok_def)
  have gone: "set (pl_gone q) \<subseteq> set (seen @ [i]) \<and> distinct (pl_gone q)"
    using facts(2) assms new by (auto simp: plan_ok_def)
  have merges: "length (pl_merges q) = pl_merge q \<and> mg_source ` set (pl_merges q) \<subseteq> set (pl_gone q)
      \<and> distinct (map mg_source (pl_merges q)) \<and> mg_target ` set (pl_merges q) \<subseteq> set ids"
    using facts(2,3) assms new by (fastforce simp: plan_ok_def)
  show ?thesis
    using facts(1,4) gone merges assms(1) by (simp add: plan_ok_def flip: q_def)
qed

lemma plan_reflection_ok:
  assumes "distinct ids"
  shows "plan_ok ids ids (plan_reflection ids ds)"
proof -
  have "plan_ok ids (seen @ todo) (fold (plan_one ids dm) todo p)"
    if "plan_ok ids seen p" "distinct (seen @ todo)" for seen todo p dm
    using that
  proof (induction todo arbitrary: seen p)
    case (Cons i todo)
    then have "plan_ok ids (seen @ [i]) (plan_one ids dm i p)" by (intro plan_one_ok) auto
    then show ?case using Cons.IH [of "seen @ [i]"] Cons.prems(2) by simp
  qed simp
  from this [of "[]" empty_plan ids] assms show ?thesis
    by (simp add: plan_reflection_def plan_ok_def empty_plan_def)
qed

text \<open>What is really done: the identifiers that go, and the merges.\<close>

definition plan_gone :: "observation list \<Rightarrow> int \<Rightarrow> reflection_plan \<Rightarrow> string list" where
  "plan_gone active least p = filter (\<lambda>i. i \<notin> set (rescued active least p)) (pl_gone p)"

definition plan_merges :: "observation list \<Rightarrow> int \<Rightarrow> reflection_plan \<Rightarrow> merge_op list" where
  "plan_merges active least p = filter (\<lambda>op. mg_source op \<notin> set (rescued active least p)) (pl_merges p)"

lemma apply_decisions_tables:
  fixes active ds least
  defines "p \<equiv> plan_reflection (map ob_id active) ds"
  shows "fst (apply_decisions least now active ds db)
    = fst (mark_reflected (plan_gone active least p) now (apply_merges (plan_merges active least p) db))"
  by (simp add: apply_decisions_def Let_def plan_gone_def plan_merges_def rescued_def flip: p_def)

lemma rescued_facts:
  assumes "plan_ok ids ids p" "distinct ids"
  shows "int (length (rescued active least p)) = max 0 (min (least - int (pl_keep p)) (int (length (pl_gone p))))"
    "set (rescued active least p) \<subseteq> set (pl_gone p)" "distinct (rescued active least p)"
  using assms
  by (auto simp: rescued_def plan_ok_def distinct_sort_desc distinct_take dest: in_set_takeD)

lemma plan_gone_length:
  assumes "plan_ok ids ids p" "distinct ids"
  shows "length (plan_gone active least p) + length (rescued active least p) = length (pl_gone p)"
proof -
  have "length (filter (\<lambda>i. i \<in> set (rescued active least p)) (pl_gone p)) = length (rescued active least p)"
  proof -
    have "set (filter (\<lambda>i. i \<in> set (rescued active least p)) (pl_gone p)) = set (rescued active least p)"
      using rescued_facts(2) [OF assms] by auto
    then show ?thesis
      using rescued_facts(3) [OF assms] assms by (metis distinct_card distinct_filter plan_ok_def)
  qed
  then show ?thesis
    unfolding plan_gone_def
    by (metis add.commute sum_length_filter_compl)
qed

text \<open>The floor: at least so many of the evaluated observations stay, if there are so many.\<close>

lemma plan_keeps_floor:
  assumes "plan_ok ids ids p" "distinct ids"
  shows "min least (int (length ids)) \<le> int (length ids) - int (length (plan_gone active least p))"
proof -
  have "int (length (plan_gone active least p)) = int (length (pl_gone p)) - int (length (rescued active least p))"
    using plan_gone_length [OF assms, of active least] by linarith
  moreover have "int (pl_keep p) + int (length (pl_gone p)) = int (length ids)"
    using assms(1) by (simp add: plan_ok_def flip: of_nat_add)
  ultimately show ?thesis
    using rescued_facts(1) [OF assms, of active least] by linarith
qed

section \<open>Rows\<close>

text \<open>A row that was there before: only its text changes, and it is reflected at most once.\<close>

definition kept_row :: "observation \<Rightarrow> observation \<Rightarrow> bool" where
  "kept_row x y \<longleftrightarrow>
     y = x\<lparr>ob_content := ob_content y, ob_reflected := ob_reflected y\<rparr>
     \<and> (ob_reflected x = None \<or> ob_reflected y = ob_reflected x)"

definition rows_extend :: "observation_db \<Rightarrow> observation_db \<Rightarrow> bool" where
  "rows_extend db db' \<longleftrightarrow>
     length (od_rows db) \<le> length (od_rows db')
     \<and> list_all2 kept_row (od_rows db) (take (length (od_rows db)) (od_rows db'))"

lemma kept_row_refl: "kept_row x x"
  by (simp add: kept_row_def)

lemma kept_row_trans: "kept_row x y \<Longrightarrow> kept_row y z \<Longrightarrow> kept_row x z"
  unfolding kept_row_def by (metis observation.surjective observation.update_convs(4,14))

lemma kept_row_fields:
  assumes "kept_row x y"
  shows "ob_id y = ob_id x" "ob_agent y = ob_agent x" "ob_status y = ob_status x" "ob_category y = ob_category x"
    "ob_priority y = ob_priority x" "ob_usage y = ob_usage x"
  using assms unfolding kept_row_def by (metis observation.select_convs observation.surjective observation.update_convs(4,14))+

lemma rows_extend_refl: "rows_extend db db"
  by (simp add: rows_extend_def list_all2_refl kept_row_refl)

lemma rows_extend_append: "od_rows db' = od_rows db @ xs \<Longrightarrow> rows_extend db db'"
  by (simp add: rows_extend_def list_all2_refl kept_row_refl)

lemma rows_extend_map:
  assumes "od_rows db' = map f (od_rows db)" "\<And>x. x \<in> set (od_rows db) \<Longrightarrow> kept_row x (f x)"
  shows "rows_extend db db'"
  using assms by (simp add: rows_extend_def list_all2_map2 list.rel_refl_strong)

lemma rows_extend_trans:
  assumes "rows_extend db1 db2" "rows_extend db2 db3"
  shows "rows_extend db1 db3"
proof -
  let ?n = "length (od_rows db1)"
  have "list_all2 kept_row (take ?n (od_rows db2)) (take ?n (take (length (od_rows db2)) (od_rows db3)))"
    using assms(2) by (intro list_all2_takeI) (simp add: rows_extend_def)
  then have "list_all2 kept_row (take ?n (od_rows db2)) (take ?n (od_rows db3))"
    using assms(1) by (simp add: rows_extend_def min_absorb1)
  then have "list_all2 kept_row (od_rows db1) (take ?n (od_rows db3))"
    using assms(1) list_all2_trans [of kept_row kept_row kept_row] kept_row_trans
    unfolding rows_extend_def by blast
  then show ?thesis using assms by (simp add: rows_extend_def)
qed

text \<open>What the merges and the marks do to one row.\<close>

definition merged_row :: "merge_op list \<Rightarrow> observation \<Rightarrow> observation" where
  "merged_row ops x = fold (\<lambda>op x. if ob_id x = mg_target op then x\<lparr>ob_content := mg_content op\<rparr> else x) ops x"

definition reflected_row :: "string list \<Rightarrow> merge_op list \<Rightarrow> int \<Rightarrow> observation \<Rightarrow> observation" where
  "reflected_row gone ops now x =
     (let y = merged_row ops x in if unreflected gone y then y\<lparr>ob_reflected := Some now\<rparr> else y)"

lemma merged_row_simps:
  "merged_row [] x = x"
  "merged_row (op # ops) x = merged_row ops (if ob_id x = mg_target op then x\<lparr>ob_content := mg_content op\<rparr> else x)"
  by (simp_all add: merged_row_def)

lemma apply_merges_rows: "od_rows (apply_merges ops db) = map (merged_row ops) (od_rows db)"
proof (induction ops arbitrary: db)
  case (Cons op ops)
  have "od_rows (apply_merges (op # ops) db) = od_rows (apply_merges ops (update_content (mg_target op) (mg_content op) db))"
    by (simp add: apply_merges_def)
  then show ?case
    using Cons.IH by (simp add: update_content_def change_rows_def merged_row_simps comp_def)
qed (simp add: apply_merges_def map_idI merged_row_simps)

lemma apply_merges_states: "od_states (apply_merges ops db) = od_states db"
proof (induction ops arbitrary: db)
  case (Cons op ops)
  then show ?case by (simp add: apply_merges_def update_content_def change_rows_def)
qed (simp add: apply_merges_def)

lemma merged_row_content: "\<exists>c. merged_row ops x = x\<lparr>ob_content := c\<rparr>"
proof (induction ops arbitrary: x)
  case Nil
  show ?case by (rule exI [of _ "ob_content x"]) (simp add: merged_row_simps)
next
  case (Cons op ops)
  show ?case
  proof (cases "ob_id x = mg_target op")
    case True
    obtain c where "merged_row ops (x\<lparr>ob_content := mg_content op\<rparr>) = x\<lparr>ob_content := mg_content op\<rparr>\<lparr>ob_content := c\<rparr>"
      using Cons.IH by blast
    then have "merged_row (op # ops) x = x\<lparr>ob_content := c\<rparr>" using True by (simp only: merged_row_simps if_True) simp
    then show ?thesis by blast
  next
    case False
    then show ?thesis using Cons.IH [of x] by (simp only: merged_row_simps if_False)
  qed
qed

lemma merged_row_other: "ob_id x \<notin> mg_target ` set ops \<Longrightarrow> merged_row ops x = x"
  by (induction ops arbitrary: x) (auto simp: merged_row_simps)

lemma mark_reflected_rows:
  "od_rows (fst (mark_reflected ids now db))
   = map (\<lambda>x. if unreflected ids x then x\<lparr>ob_reflected := Some now\<rparr> else x) (od_rows db)"
  "od_states (fst (mark_reflected ids now db)) = od_states db"
  by (auto simp: mark_reflected_def change_rows_def unreflected_def)

lemma apply_decisions_rows:
  fixes active ds least
  defines "p \<equiv> plan_reflection (map ob_id active) ds"
  shows "od_rows (fst (apply_decisions least now active ds db))
      = map (reflected_row (plan_gone active least p) (plan_merges active least p) now) (od_rows db)"
    "od_states (fst (apply_decisions least now active ds db)) = od_states db"
  by (simp_all add: apply_decisions_tables mark_reflected_rows apply_merges_rows apply_merges_states
      reflected_row_def Let_def comp_def flip: p_def)

lemma reflected_row_kept: "kept_row x (reflected_row gone ops now x)"
proof -
  obtain c where "merged_row ops x = x\<lparr>ob_content := c\<rparr>" using merged_row_content by blast
  then show ?thesis by (auto simp: reflected_row_def kept_row_def unreflected_def Let_def)
qed

lemma reflected_row_other:
  "ob_id x \<notin> set gone \<Longrightarrow> ob_id x \<notin> mg_target ` set ops \<Longrightarrow> reflected_row gone ops now x = x"
  by (simp add: reflected_row_def merged_row_other unreflected_def)

lemma reflected_row_active:
  "is_active a (reflected_row gone ops now x) \<longleftrightarrow> is_active a x \<and> ob_id x \<notin> set gone"
proof -
  obtain c where "merged_row ops x = x\<lparr>ob_content := c\<rparr>" using merged_row_content by blast
  then show ?thesis by (auto simp: reflected_row_def is_active_def unreflected_def Let_def)
qed

lemma insert_observation_rows:
  "insert_observation x db = Some db' \<Longrightarrow>
   od_rows db' = od_rows db @ [stored_row x] \<and> od_states db' = od_states db \<and> ob_id x \<notin> ob_id ` set (od_rows db)"
  by (auto simp: insert_observation_def split: if_splits)

lemma stored_row_simps [simp]:
  "ob_id (stored_row x) = ob_id x" "ob_agent (stored_row x) = ob_agent x" "ob_status (stored_row x) = ob_status x"
  "ob_content (stored_row x) = ob_content x" "ob_category (stored_row x) = ob_category x"
  "ob_priority (stored_row x) = ob_priority x" "ob_usage (stored_row x) = ob_usage x"
  "ob_reflected (stored_row x) = None"
  by (simp_all add: stored_row_def)

lemma insert_each_rows:
  "insert_each xs db = Some db' \<Longrightarrow>
   od_rows db' = od_rows db @ map stored_row xs \<and> od_states db' = od_states db
   \<and> distinct (map ob_id xs) \<and> set (map ob_id xs) \<inter> set (map ob_id (od_rows db)) = {}"
proof (induction xs arbitrary: db)
  case (Cons x xs)
  then obtain db1 where db1: "insert_observation x db = Some db1" "insert_each xs db1 = Some db'"
    by (auto simp: bind_eq_Some_conv)
  from insert_observation_rows [OF db1(1)] Cons.IH [OF db1(2)] show ?case by auto
qed simp

lemma update_memory_state_rows:
  "od_rows (fst (update_memory_state cf now a db)) = od_rows db"
  by (simp add: update_memory_state_def upsert_memory_state_def Let_def)

lemma upsert_rows [simp]:
  "od_rows (upsert_memory_state s db) = od_rows db"
  "od_states (upsert_memory_state s db) = js_set (my_agent s) s (od_states db)"
  by (simp_all add: upsert_memory_state_def)

text \<open>No step deletes a row.\<close>

lemma table_change_extends: "table_change cf counts (r, db) (r', db') \<Longrightarrow> rows_extend db db'"
proof (induction "(r, db)" "(r', db')" rule: table_change.induct)
  case quiet_change
  then show ?case by (simp add: rows_extend_append [of db' db "[]"])
next
  case (usage_change i m)
  then show ?case using insert_observation_rows rows_extend_append by blast
next
  case (observed_change xs ids now p buffer mos db1)
  then show ?case using insert_each_rows [of xs db db1] by (auto intro: rows_extend_append)
next
  case (reflected_change db1 now p ds db2)
  then show ?case
    by (intro rows_extend_map [where f = "reflected_row _ _ now"])
      (auto simp: update_memory_state_rows apply_decisions_rows reflected_row_kept)
qed

section \<open>The invariant of the tables\<close>

text \<open>
  A row is a count of tokens or an observation of the observer; the observations that a running pass
  evaluates are still active.
\<close>

definition row_ok :: "observation \<Rightarrow> bool" where
  "row_ok x \<longleftrightarrow>
     (ob_category x = TokenUsageObs \<and> ob_status x = PendingObs)
     \<or> (ob_category x = FactObs \<and> ob_status x = ProcessedObs \<and> ob_priority x \<noteq> None \<and> ob_usage x = None)"

definition pass_ok :: "memory_config \<Rightarrow> observation_db \<Rightarrow> reflection_pass \<Rightarrow> bool" where
  "pass_ok cf db p \<longleftrightarrow>
     distinct (map ob_id (rp_active p))
     \<and> set (map ob_id (rp_active p)) \<subseteq> ob_id ` set (active_rows (rp_agent p) db)
     \<and> reflector_floor (mc_reflector cf) < int (length (rp_active p))"

definition memory_tables_ok :: "memory_config \<Rightarrow> reflection_pass option \<times> observation_db \<Rightarrow> bool" where
  "memory_tables_ok cf v \<longleftrightarrow>
     distinct (map ob_id (od_rows (snd v))) \<and> list_all row_ok (od_rows (snd v)) \<and> pred_option (pass_ok cf (snd v)) (fst v)"

lemma row_ok_kept: "kept_row x y \<Longrightarrow> row_ok x = row_ok y"
  using kept_row_fields [of x y] by (simp add: row_ok_def)

lemma usage_observation_simps [simp]:
  "ob_id (usage_observation cf i m) = i" "ob_category (usage_observation cf i m) = TokenUsageObs"
  "ob_status (usage_observation cf i m) = PendingObs" "ob_usage (usage_observation cf i m) = Some (usage_of cf m)"
  "ob_agent (usage_observation cf i m) = cm_from m"
  by (simp_all add: usage_observation_def Let_def)

lemma new_observations_ok: "x \<in> set (new_observations cf ids now p buffer mos) \<Longrightarrow>
   row_ok x \<and> ob_agent x = op_agent p \<and> ob_status x = ProcessedObs \<and> ob_reflected x = None \<and> ob_usage x = None
   \<and> ob_category x = FactObs"
  by (auto simp: new_observations_def observation_from_def row_ok_def)

lemma length_new_observations: "length (new_observations cf ids now p buffer mos) = length mos"
  by (simp add: new_observations_def)

lemma row_ok_stored: "row_ok (stored_row x) = row_ok x"
  by (simp add: row_ok_def)

lemma active_rows_append: "od_rows db' = od_rows db @ xs \<Longrightarrow> active_rows a db' = active_rows a db @ filter (is_active a) xs"
  by (simp add: active_rows_def)

lemma pass_ok_append: "od_rows db' = od_rows db @ xs \<Longrightarrow> pass_ok cf db p \<Longrightarrow> pass_ok cf db' p"
  by (auto simp: pass_ok_def active_rows_append [of db' db xs])

lemma pred_option_append:
  "od_rows db' = od_rows db @ xs \<Longrightarrow> pred_option (pass_ok cf db) r \<Longrightarrow> pred_option (pass_ok cf db') r"
  by (cases r) (auto intro: pass_ok_append)

lemma pass_change_ok:
  assumes "pass_change cf db r r'" "pred_option (pass_ok cf db) r" "distinct (map ob_id (od_rows db))"
  shows "pred_option (pass_ok cf db) r'"
  using assms
proof cases
  case (pass_begins q)
  then show ?thesis
    using active_observations_ids distinct_active_observations [OF assms(3)] by (simp add: pass_ok_def)
qed (auto simp: pass_ok_def)

lemma memory_tables_ok_step:
  assumes "table_change cf counts (r, db) (r', db')" "memory_tables_ok cf (r, db)"
  shows "memory_tables_ok cf (r', db')"
  using assms(1)
proof cases
  case quiet_change
  have "pred_option (pass_ok cf db) r'"
    using pass_change_ok quiet_change(3) assms(2) by (simp add: memory_tables_ok_def)
  then show ?thesis
    using quiet_change(1) assms(2) pred_option_append [of db' db "[]"] by (simp add: memory_tables_ok_def)
next
  case (usage_change i m)
  from insert_observation_rows [OF this(3)] assms(2) show ?thesis
    using usage_change(1,2) pred_option_append [of db' db "[stored_row (usage_observation (mc_hook cf) i m)]"]
    by (auto simp: memory_tables_ok_def row_ok_def)
next
  case (observed_change xs ids now p buffer mos db1)
  from insert_each_rows [OF this(3)] have rows: "od_rows db' = od_rows db @ map stored_row xs"
    and new: "distinct (map ob_id xs)" "set (map ob_id xs) \<inter> set (map ob_id (od_rows db)) = {}"
    using observed_change(4) by auto
  have "list_all row_ok (map stored_row xs)"
    using new_observations_ok observed_change(2) by (auto simp: list_all_iff row_ok_stored)
  then show ?thesis
    using assms(2) rows new observed_change(1) pred_option_append [OF rows]
    by (auto simp: memory_tables_ok_def comp_def)
next
  case (reflected_change db1 now p ds db2)
  let ?p = "plan_reflection (map ob_id (rp_active p)) ds" and ?least = "reflector_floor (mc_reflector cf)"
  define f where "f = reflected_row (plan_gone (rp_active p) ?least ?p) (plan_merges (rp_active p) ?least ?p) now"
  have rows: "od_rows db' = map f (od_rows db)"
    using reflected_change by (simp add: update_memory_state_rows apply_decisions_rows f_def)
  have kept: "kept_row x (f x)" for x by (simp add: f_def reflected_row_kept)
  show ?thesis
    using assms(2) reflected_change(2) rows kept_row_fields(1) [OF kept] row_ok_kept [OF kept]
    by (auto simp: memory_tables_ok_def comp_def list_all_iff)
qed

lemma memory_tables_ok_new: "memory_tables_ok cf (memory_view new_memory)"
  by (simp add: memory_tables_ok_def memory_view_def new_memory_def new_reflector_def empty_observations_def)

lemma memory_run_induct [case_names start step]:
  assumes "P w" "\<And>w now x. P w \<Longrightarrow> P (fst (memory_step cf now x w))"
  shows "P (memory_run cf xs w)"
  using assms(1)
proof (induction xs arbitrary: w)
  case (Cons y ys)
  then show ?case using assms(2) by (cases y) (simp add: memory_run_def)
qed (simp add: memory_run_def)

lemma memory_view_fst: "memory_view w = (rf_running (mw_reflector w), mw_db w)"
  by (simp add: memory_view_def)

lemma memory_tables_ok_memory_step: "memory_tables_ok cf (memory_view w) \<Longrightarrow> memory_tables_ok cf (memory_view (fst (memory_step cf now x w)))"
  using memory_tables_ok_step memory_step_change by (metis memory_view_fst)

lemma memory_tables_ok_run: "memory_tables_ok cf (memory_view (memory_run cf xs new_memory))"
  by (rule memory_run_induct) (auto intro: memory_tables_ok_new memory_tables_ok_memory_step)

section \<open>The floor\<close>

lemma length_filter_split:
  "length (filter P xs) = length (filter (\<lambda>x. P x \<and> f x \<notin> A) xs) + length (filter (\<lambda>x. P x \<and> f x \<in> A) xs)"
  by (induction xs) auto

lemma length_active_map:
  assumes "od_rows db' = map f (od_rows db)" "\<And>x. is_active a (f x) \<longleftrightarrow> is_active a x \<and> ob_id x \<notin> set gone"
    "distinct (map ob_id (od_rows db))" "distinct gone"
  shows "length (active_rows a db) \<le> length (active_rows a db') + length gone"
proof -
  let ?out = "filter (\<lambda>x. is_active a x \<and> ob_id x \<in> set gone) (od_rows db)"
  have after: "length (active_rows a db') = length (filter (\<lambda>x. is_active a x \<and> ob_id x \<notin> set gone) (od_rows db))"
    by (simp add: active_rows_def assms(1,2) filter_map comp_def)
  have split: "length (active_rows a db)
      = length (filter (\<lambda>x. is_active a x \<and> ob_id x \<notin> set gone) (od_rows db)) + length ?out"
    unfolding active_rows_def by (rule length_filter_split)
  have "distinct (map ob_id ?out)" using assms(3) by (rule distinct_map_filter)
  then have "length ?out = card (set (map ob_id ?out))" by (simp only: distinct_card length_map)
  also have "\<dots> \<le> card (set gone)" by (rule card_mono) auto
  also have "\<dots> \<le> length gone" by (rule card_length)
  finally show ?thesis using after split by linarith
qed

text \<open>What an application of decisions does to the active observations of the agent and of others.\<close>

lemma plan_parts:
  assumes "distinct ids"
  shows "set (plan_gone active least (plan_reflection ids ds)) \<subseteq> set ids"
    "distinct (plan_gone active least (plan_reflection ids ds))"
    "mg_target ` set (plan_merges active least (plan_reflection ids ds)) \<subseteq> set ids"
  using plan_reflection_ok [OF assms, of ds] by (auto simp: plan_ok_def plan_gone_def plan_merges_def)

lemma active_id_agent:
  assumes "distinct (map ob_id (od_rows db))" "i \<in> ob_id ` set (active_rows a db)"
    "x \<in> set (od_rows db)" "ob_id x = i"
  shows "is_active a x"
proof -
  from assms(2) obtain y where y: "y \<in> set (od_rows db)" "is_active a y" "ob_id y = i"
    by (auto simp: active_rows_def)
  then have "y = x" using assms(1,3,4) by (auto simp: distinct_map dest: inj_onD)
  then show ?thesis using y by simp
qed

lemma other_rows_untouched:
  assumes "memory_tables_ok cf (Some p, db)" "x \<in> set (od_rows db)" "\<not> is_active (rp_agent p) x"
  shows "reflected_row (plan_gone (rp_active p) least (plan_reflection (map ob_id (rp_active p)) ds))
           (plan_merges (rp_active p) least (plan_reflection (map ob_id (rp_active p)) ds)) now x = x"
proof -
  have ok: "distinct (map ob_id (od_rows db))" "distinct (map ob_id (rp_active p))"
    "set (map ob_id (rp_active p)) \<subseteq> ob_id ` set (active_rows (rp_agent p) db)"
    using assms(1) by (simp_all add: memory_tables_ok_def pass_ok_def)
  have "ob_id x \<notin> set (map ob_id (rp_active p))"
    using active_id_agent [OF ok(1) _ assms(2) refl] ok(3) assms(3) by blast
  then show ?thesis using plan_parts [OF ok(2)] by (intro reflected_row_other) blast+
qed

lemma filter_map_untouched:
  "(\<And>x. x \<in> set xs \<Longrightarrow> f x = x \<or> (\<not> P x \<and> \<not> P (f x))) \<Longrightarrow> filter P (map f xs) = filter P xs"
proof (induction xs)
  case (Cons x xs)
  then have "filter P (map f xs) = filter P xs" by simp
  moreover have "f x = x \<or> (\<not> P x \<and> \<not> P (f x))" using Cons.prems by simp
  ultimately show ?case by auto
qed simp

lemma reflected_change_others:
  assumes "memory_tables_ok cf (Some p, db)" "a \<noteq> rp_agent p"
    "db1 = fst (apply_decisions least now (rp_active p) ds db)" "od_rows db' = od_rows db1"
  shows "active_rows a db' = active_rows a db"
proof -
  let ?p = "plan_reflection (map ob_id (rp_active p)) ds"
  define f where "f = reflected_row (plan_gone (rp_active p) least ?p) (plan_merges (rp_active p) least ?p) now"
  have "f x = x \<or> (\<not> is_active a x \<and> \<not> is_active a (f x))" if "x \<in> set (od_rows db)" for x
  proof (cases "is_active (rp_agent p) x")
    case True
    then have "\<not> is_active a x" using assms(2) by (simp add: is_active_def)
    then show ?thesis by (simp add: f_def reflected_row_active)
  next
    case False
    then show ?thesis using other_rows_untouched [OF assms(1) that] by (simp add: f_def)
  qed
  then show ?thesis
    using assms(3,4) filter_map_untouched [of "od_rows db" f "is_active a"]
    by (simp add: active_rows_def apply_decisions_rows f_def)
qed

lemma reflected_change_floor:
  assumes "memory_tables_ok cf (Some p, db)"
    "db1 = fst (apply_decisions (reflector_floor (mc_reflector cf)) now (rp_active p) ds db)"
    "od_rows db' = od_rows db1"
  shows "min (reflector_floor (mc_reflector cf)) (int (length (active_rows a db))) \<le> int (length (active_rows a db'))"
proof -
  let ?least = "reflector_floor (mc_reflector cf)" and ?ids = "map ob_id (rp_active p)"
  let ?p = "plan_reflection ?ids ds"
  define gone ops where "gone = plan_gone (rp_active p) ?least ?p" and "ops = plan_merges (rp_active p) ?least ?p"
  have ok: "distinct (map ob_id (od_rows db))" "distinct ?ids" "set ?ids \<subseteq> ob_id ` set (active_rows (rp_agent p) db)"
    "?least < int (length ?ids)"
    using assms(1) by (simp_all add: memory_tables_ok_def pass_ok_def)
  have rows: "od_rows db' = map (reflected_row gone ops now) (od_rows db)"
    using assms by (simp add: apply_decisions_rows gone_def ops_def)
  show ?thesis
  proof (cases "a = rp_agent p")
    case True
    have "length ?ids \<le> length (active_rows a db)"
      using ok(2,3) True by (metis card_image_le card_mono distinct_card finite_imageI le_trans List.finite_set card_length)
    moreover have "length (active_rows a db) \<le> length (active_rows a db') + length gone"
      using length_active_map [OF rows reflected_row_active ok(1)] plan_parts(2) [OF ok(2)] by (simp add: gone_def)
    moreover have "min ?least (int (length ?ids)) \<le> int (length ?ids) - int (length gone)"
      unfolding gone_def by (rule plan_keeps_floor [OF plan_reflection_ok [OF ok(2)] ok(2)])
    ultimately show ?thesis using ok(4) by linarith
  next
    case False
    then show ?thesis using reflected_change_others [OF assms(1) False assms(2,3)] by simp
  qed
qed

lemma table_change_floor:
  assumes "table_change cf counts (r, db) (r', db')" "memory_tables_ok cf (r, db)"
  shows "min (reflector_floor (mc_reflector cf)) (int (length (active_rows a db))) \<le> int (length (active_rows a db'))"
  using assms(1)
proof cases
  case quiet_change
  then show ?thesis by (simp add: active_rows_def)
next
  case (usage_change i m)
  from insert_observation_rows [OF this(3)] show ?thesis by (simp add: active_rows_def)
next
  case (observed_change xs ids now p buffer mos db1)
  from insert_each_rows [OF this(3)] observed_change(4) show ?thesis by (simp add: active_rows_def)
next
  case (reflected_change db1 now p ds db2)
  then show ?thesis
    using reflected_change_floor [of cf p db db1 now ds db' a] assms(2) by (simp add: update_memory_state_rows)
qed

text \<open>
  C10: a step of the memory never takes an agent below the floor of the reflector: whatever the model
  answers, and whatever happened while it was asked, at least \<open>minRetainedObservations\<close> active
  observations stay, or as many as there were.
\<close>

theorem reflection_keeps_the_floor:
  fixes cf :: memory_config and xs :: "(int \<times> memory_op) list"
  defines "w \<equiv> memory_run cf xs new_memory"
  shows "min (reflector_floor (mc_reflector cf)) (int (length (active_rows a (mw_db w))))
    \<le> int (length (active_rows a (mw_db (fst (memory_step cf now x w)))))"
  using table_change_floor [OF memory_step_change [of cf x w now, unfolded memory_view_def]] memory_tables_ok_run [of cf xs]
  by (simp add: w_def memory_view_def)

section \<open>Deletion\<close>

text \<open>
  C39: nothing is deleted. Over every run, from any state, the rows that were there stay in their place;
  at most their text changes, and they are marked as reflected at most once, for good.
\<close>

theorem no_observation_is_deleted: "rows_extend (mw_db w) (mw_db (memory_run cf xs w))"
proof (induction xs arbitrary: w)
  case (Cons y ys)
  obtain now x where y: "y = (now, x)" by (cases y)
  have "rows_extend (mw_db w) (mw_db (fst (memory_step cf now x w)))"
    using memory_step_change [of cf x w now] table_change_extends by (simp add: memory_view_def)
  then show ?case using Cons.IH rows_extend_trans by (simp add: y memory_run_def)
qed (simp add: memory_run_def rows_extend_refl)

end
