(* ===== verification/Memory_Counts.thy ===== *)
theory Memory_Counts
  imports Memory_Correct
begin

text \<open>
  The numbers of the observational memory: the memory state of an agent against its active
  observations, the counter of tokens against its table, the messages against the passes.
\<close>

section \<open>The memory state of an agent\<close>











lemma memory_run_snoc: "memory_run cf (xs @ [(now, x)]) w = fst (memory_step cf now x (memory_run cf xs w))"
  by (simp add: memory_run_def)





section \<open>The counter of tokens\<close>

definition usage_view :: "observation_db \<Rightarrow> token_usage option list" where
  "usage_view db = map ob_usage (filter (\<lambda>x. ob_category x = TokenUsageObs) (od_rows db))"

lemma usage_view_map:
  assumes "od_rows db' = map f (od_rows db)" "\<And>x. kept_row x (f x)"
  shows "usage_view db' = usage_view db"
  using kept_row_fields [OF assms(2)] by (simp add: usage_view_def assms(1) filter_map comp_def)

lemma usage_view_change:
  assumes "table_change cf counts (r, db) (r', db')"
    "\<not> counts"
  shows "usage_view db' = usage_view db"
  using assms(1)
proof cases
  case (observed_change xs ids now p buffer mos db1)
  have "filter (\<lambda>x. ob_category x = TokenUsageObs) (map stored_row xs) = []"
    using new_observations_ok observed_change(2) by (auto simp: filter_empty_conv)
  then show ?thesis
    using insert_each_rows [OF observed_change(3)] observed_change(4) by (simp add: usage_view_def)
next
  case (reflected_change db1 now p ds db2)
  then show ?thesis
    by (intro usage_view_map [where f = "reflected_row _ _ now"])
      (auto simp: update_memory_state_rows apply_decisions_rows reflected_row_kept)
qed (use assms(2) in \<open>auto simp: usage_view_def\<close>)

lemma usage_view_insert:
  "insert_observation (usage_observation cf i m) db = Some db' \<Longrightarrow> usage_view db' = usage_view db @ [Some (usage_of cf m)]"
  using insert_observation_rows [of "usage_observation cf i m" db db'] by (simp add: usage_view_def)

definition total_of :: "token_usage option list \<Rightarrow> int" where
  "total_of us = sum_list (map (\<lambda>u. case u of None \<Rightarrow> 0 | Some u \<Rightarrow> tu_total u) us)"

lemma summary_of_view:
  "us_total (token_usage_summary None None None None db) = total_of (usage_view db)"
  "us_count (token_usage_summary None None None None db) = length (usage_view db)"
  by (simp_all add: token_usage_summary_def Let_def total_of_def usage_view_def sum_usage_def comp_def
      matches_source_def created_within_def if_given_def nonempty_text_def)

definition hook_ok :: "hook_config \<Rightarrow> token_hook \<Rightarrow> observation_db \<Rightarrow> bool" where
  "hook_ok cf h db \<longleftrightarrow>
     th_tokens h = total_of (usage_view db) \<and> th_written h = length (usage_view db)
     \<and> th_written h + th_errors h \<le> th_observed h
     \<and> 0 \<le> th_raw h \<and> th_raw h < max 1 (nullish (hook_threshold cf) 0)
     \<and> int (th_events h) * nullish (hook_threshold cf) 0 + th_raw h \<le> th_tokens h
     \<and> (nullish (hook_threshold cf) 0 \<le> 0 \<longrightarrow> th_events h = 0 \<and> th_raw h = 0)"

lemma usage_positive: "0 \<le> tu_total (usage_of cf m)"
  by (simp add: usage_of_def Let_def estimate_tokens_def)

lemma count_raw_counts:
  assumes "count_raw cf n a h = (h', event)" "th_attached h" "0 \<le> n"
    "0 \<le> th_raw h" "th_raw h < max 1 (nullish (hook_threshold cf) 0)"
    "int (th_events h) * nullish (hook_threshold cf) 0 + th_raw h + n \<le> th_tokens h"
    "nullish (hook_threshold cf) 0 \<le> 0 \<longrightarrow> th_events h = 0 \<and> th_raw h = 0"
  shows "0 \<le> th_raw h' \<and> th_raw h' < max 1 (nullish (hook_threshold cf) 0)
    \<and> int (th_events h') * nullish (hook_threshold cf) 0 + th_raw h' \<le> th_tokens h'
    \<and> (nullish (hook_threshold cf) 0 \<le> 0 \<longrightarrow> th_events h' = 0 \<and> th_raw h' = 0)
    \<and> th_tokens h' = th_tokens h \<and> th_written h' = th_written h \<and> th_errors h' = th_errors h
    \<and> th_observed h' = th_observed h"
  using assms by (auto simp: count_raw_def Let_def distrib_right split: if_splits)

lemma record_token_usage_ok:
  assumes "record_token_usage cf i now m h db = (h', db', event)" "hook_ok cf h db" "th_attached h"
  shows "hook_ok cf h' db'"
proof (cases "cm_status m = DeliveredMsg \<and> (\<exists>db1. insert_observation (usage_observation cf i m) db = Some db1)")
  case False
  then show ?thesis
    using assms(1,2) by (auto simp: record_token_usage_def Let_def hook_ok_def split: if_splits option.splits)
next
  case True
  then obtain db1 where db1: "insert_observation (usage_observation cf i m) db = Some db1" by blast
  let ?n = "tu_total (usage_of cf m)"
  define h2 where "h2 = h\<lparr>th_observed := Suc (th_observed h), th_written := Suc (th_written h),
    th_tokens := th_tokens h + ?n, th_written_at := Some now\<rparr>"
  have counted: "count_raw cf ?n (cm_from m) h2 = (h', event)" "db' = db1"
    using assms(1) True db1 by (auto simp: record_token_usage_def Let_def h2_def split: prod.splits)
  have view: "usage_view db1 = usage_view db @ [Some (usage_of cf m)]" by (rule usage_view_insert [OF db1])
  have h2: "th_attached h2" "0 \<le> th_raw h2" "th_raw h2 < max 1 (nullish (hook_threshold cf) 0)"
    "int (th_events h2) * nullish (hook_threshold cf) 0 + th_raw h2 + ?n \<le> th_tokens h2"
    "nullish (hook_threshold cf) 0 \<le> 0 \<longrightarrow> th_events h2 = 0 \<and> th_raw h2 = 0"
    "th_tokens h2 = total_of (usage_view db1)" "th_written h2 = length (usage_view db1)"
    "th_written h2 + th_errors h2 \<le> th_observed h2"
    using assms(2,3) view by (simp_all add: hook_ok_def h2_def total_of_def)
  show ?thesis
    using count_raw_counts [OF counted(1) h2(1) usage_positive h2(2-5)] h2(6-8) counted(2) by (simp add: hook_ok_def)
qed

lemma hook_ok_view: "hook_ok cf h db \<Longrightarrow> usage_view db' = usage_view db \<Longrightarrow> hook_ok cf h db'"
  by (simp add: hook_ok_def)

lemma hook_ok_step:
  assumes "hook_ok (mc_hook cf) (mw_hook w) (mw_db w)"
  shows "hook_ok (mc_hook cf) (mw_hook (fst (memory_step cf now x w))) (mw_db (fst (memory_step cf now x w)))"
proof (cases "is_message x")
  case True
  then obtain i m where x: "x = MessageEvent i m" by (cases x) (auto simp: is_message_def)
  show ?thesis
  proof (cases "th_attached (mw_hook w)")
    case True
    obtain h db event where r: "record_token_usage (mc_hook cf) i now m (mw_hook w) (mw_db w) = (h, db, event)"
      by (cases "record_token_usage (mc_hook cf) i now m (mw_hook w) (mw_db w)") auto
    then show ?thesis
      using record_token_usage_ok [OF r assms True] True by (simp add: x memory_step_def memory_message_def)
  qed (use assms in \<open>simp add: x memory_step_def memory_message_def\<close>)
next
  case False
  have view: "usage_view (mw_db (fst (memory_step cf now x w))) = usage_view (mw_db w)"
    using usage_view_change [OF memory_step_change [of cf x w now, unfolded memory_view_def] False] .
  have "th_tokens (mw_hook (fst (memory_step cf now x w))) = th_tokens (mw_hook w)
      \<and> th_written (mw_hook (fst (memory_step cf now x w))) = th_written (mw_hook w)
      \<and> th_errors (mw_hook (fst (memory_step cf now x w))) = th_errors (mw_hook w)
      \<and> th_observed (mw_hook (fst (memory_step cf now x w))) = th_observed (mw_hook w)
      \<and> th_events (mw_hook (fst (memory_step cf now x w))) = th_events (mw_hook w)
      \<and> (th_raw (mw_hook (fst (memory_step cf now x w))) = th_raw (mw_hook w)
           \<or> th_raw (mw_hook (fst (memory_step cf now x w))) = 0)"
    using False
    by (cases x) (auto simp: memory_step_def is_message_def attach_hook_def detach_hook_def reset_raw_tokens_def
        memory_observe_def Let_def split: prod.splits list.splits)
  then show ?thesis using assms view by (auto simp: hook_ok_def)
qed

lemma hook_ok_run: "hook_ok (mc_hook cf) (mw_hook (memory_run cf xs new_memory)) (mw_db (memory_run cf xs new_memory))"
proof (rule memory_run_induct [of "\<lambda>w. hook_ok (mc_hook cf) (mw_hook w) (mw_db w)"])
  show "hook_ok (mc_hook cf) (mw_hook new_memory) (mw_db new_memory)"
    by (simp add: hook_ok_def new_memory_def new_hook_def empty_observations_def usage_view_def total_of_def)
qed (rule hook_ok_step)

text \<open>
  C26: the counters of the hook agree with the table they count: the tokens and the number of messages
  are what \<open>getTokenUsageSummary\<close> computes from the rows, over every run. The count of the raw buffer
  stays below the threshold, and the events stand for that many thresholds of counted tokens.
\<close>

theorem token_counter_agrees_with_the_table:
  fixes cf :: memory_config and xs :: "(int \<times> memory_op) list"
  defines "w \<equiv> memory_run cf xs new_memory"
  defines "h \<equiv> mw_hook w" and "s \<equiv> token_usage_summary None None None None (mw_db w)"
    and "t \<equiv> nullish (hook_threshold (mc_hook cf)) 0"
  shows "us_total s = th_tokens h \<and> us_count s = th_written h \<and> th_written h + th_errors h \<le> th_observed h
    \<and> 0 \<le> th_raw h \<and> th_raw h < max 1 t \<and> int (th_events h) * t + th_raw h \<le> th_tokens h"
  using hook_ok_run [of cf xs] by (simp add: hook_ok_def s_def h_def t_def w_def summary_of_view)

section \<open>Messages and passes\<close>

text \<open>The messages that wait in the buffers.\<close>

definition waiting_messages :: "observer \<Rightarrow> nat" where
  "waiting_messages v = sum_list (map (\<lambda>(a, k). length (array_of v k)) (ov_buffers v))"

text \<open>
  Without a manual \<open>clearBuffer\<close> the array of a running pass is the buffer of its agent, and it starts
  with what the model was given.
\<close>

definition pass_fits :: "observer \<Rightarrow> observer_pass \<Rightarrow> bool" where
  "pass_fits v p \<longleftrightarrow>
     js_get (ov_buffers v) (op_agent p) = Some (op_buffer p)
     \<and> take (length (op_inputs p)) (map input_of (array_of v (op_buffer p))) = op_inputs p"

definition observer_ok :: "observer \<Rightarrow> bool" where
  "observer_ok v \<longleftrightarrow>
     distinct (map fst (ov_buffers v)) \<and> distinct (map snd (ov_buffers v))
     \<and> snd ` set (ov_buffers v) \<subseteq> {..<length (ov_arrays v)} \<and> pred_option (pass_fits v) (ov_running v)"

lemma observer_same:
  assumes "observer_ok v" "ov_buffers v' = ov_buffers v" "ov_arrays v' = ov_arrays v"
    "pred_option (pass_fits v) (ov_running v')"
  shows "observer_ok v' \<and> waiting_messages v' = waiting_messages v"
proof -
  have "array_of v' = array_of v" by (rule ext) (simp add: array_of_def assms)
  then have "pass_fits v' = pass_fits v" by (intro ext) (simp add: pass_fits_def assms(2))
  then show ?thesis
    using assms \<open>array_of v' = array_of v\<close> by (simp add: observer_ok_def waiting_messages_def)
qed

lemma sum_list_one_changed:
  assumes "distinct (map fst m)" "js_get m a = Some k" "distinct (map snd m)"
    "\<And>k'. k' \<noteq> k \<Longrightarrow> f k' = g k'"
  shows "sum_list (map (\<lambda>(a, k). f k) m) + g k = sum_list (map (\<lambda>(a, k). g k) m) + (f k :: nat)"
  using assms(1-3)
proof (induction m)
  case (Cons y ys)
  obtain b j where y: "y = (b, j)" by (cases y)
  show ?case
  proof (cases "b = a")
    case True
    then have "j = k" using Cons.prems(2) y by simp
    then have "k \<notin> snd ` set ys" using Cons.prems(3) y by simp
    then have same: "map (\<lambda>(a, k). f k) ys = map (\<lambda>(a, k). g k) ys"
      using assms(4) by (intro map_cong) (auto simp: image_iff)
    show ?thesis unfolding y list.map sum_list.Cons same using \<open>j = k\<close> by simp
  next
    case False
    then have "js_get ys a = Some k" using Cons.prems(2) y by simp
    moreover from this have "k \<in> snd ` set ys" by (metis js_get_in snd_conv imageI)
    then have "j \<noteq> k" using Cons.prems(3) y by auto
    ultimately show ?thesis using Cons y assms(4) by simp
  qed
qed simp

lemma sum_list_delete:
  assumes "distinct (map fst m)" "js_get m a = Some k"
  shows "sum_list (map (\<lambda>(a, k). f k) (js_delete a m)) + f k = (sum_list (map (\<lambda>(a, k). f k) m) :: nat)"
  using assms
proof (induction m)
  case (Cons y ys)
  obtain b j where y: "y = (b, j)" by (cases y)
  show ?case
  proof (cases "b = a")
    case True
    then have "a \<notin> fst ` set ys" using Cons.prems y by simp
    then have "filter (\<lambda>kv. fst kv \<noteq> a) ys = ys" by (force simp: filter_id_conv image_iff)
    then show ?thesis using Cons.prems(2) y True by (simp add: js_delete_def)
  qed (use Cons y in \<open>simp add: js_delete_def\<close>)
qed simp

lemma take_own_length: "take (length xs) ys = xs \<Longrightarrow> length xs \<le> length ys"
  by (metis length_take min.cobounded1)

lemma buffer_message_counts:
  assumes "observer_ok v" "observer_enabled cf"
  shows "observer_ok (buffer_message cf a m v) \<and> waiting_messages (buffer_message cf a m v) = Suc (waiting_messages v)
    \<and> ov_compressed (buffer_message cf a m v) = ov_compressed v"
proof (cases "js_get (ov_buffers v) a")
  case None
  define w where "w = buffer_message cf a m v"
  let ?n = "length (ov_arrays v)"
  have fresh: "a \<notin> fst ` set (ov_buffers v)" using None by (simp add: js_get_None_iff)
  have bufs: "ov_buffers w = ov_buffers v @ [(a, ?n)]" and arrs: "ov_arrays w = ov_arrays v @ [[m]]"
    and run: "ov_running w = ov_running v" "ov_compressed w = ov_compressed v"
    using None assms(2) js_set_fresh [OF fresh] by (simp_all add: w_def buffer_message_def)
  have below: "k < ?n" if "k \<in> snd ` set (ov_buffers v)" for k
    using assms(1) that unfolding observer_ok_def by blast
  have same: "array_of w k = array_of v k" if "k < ?n" for k
    using that by (simp add: array_of_def arrs nth_append)
  have new: "array_of w ?n = [m]" by (simp add: array_of_def arrs)
  have "waiting_messages w = Suc (waiting_messages v)"
  proof -
    have "map (\<lambda>(a, k). length (array_of w k)) (ov_buffers v) = map (\<lambda>(a, k). length (array_of v k)) (ov_buffers v)"
      using same below by (force intro!: map_cong)
    then show ?thesis unfolding waiting_messages_def bufs map_append sum_list_append by (simp only:) (simp add: new)
  qed
  moreover have "observer_ok w"
  proof -
    have "pass_fits w p" if "pass_fits v p" for p
    proof -
      have got: "js_get (ov_buffers v) (op_agent p) = Some (op_buffer p)" using that by (simp add: pass_fits_def)
      then have "op_agent p \<noteq> a" using None by auto
      then have "js_get (ov_buffers w) (op_agent p) = Some (op_buffer p)"
        using got js_get_set [of a ?n "ov_buffers v" "op_agent p"] js_set_fresh [OF fresh, of ?n] bufs by simp
      moreover have "op_buffer p < ?n" using below js_get_in [OF got] by force
      ultimately show ?thesis using that same by (simp add: pass_fits_def)
    qed
    then have "pred_option (pass_fits w) (ov_running w)"
      using assms(1) by (cases "ov_running v") (simp_all add: observer_ok_def run)
    moreover have "?n \<notin> snd ` set (ov_buffers v)" using below by blast
    moreover have "snd ` set (ov_buffers w) \<subseteq> {..<length (ov_arrays w)}"
      using below by (auto simp: bufs arrs intro: less_SucI)
    ultimately show ?thesis using assms(1) fresh by (simp add: observer_ok_def bufs)
  qed
  ultimately show ?thesis using run by (simp add: w_def)
next
  case (Some k)
  define w where "w = buffer_message cf a m v"
  have w: "ov_buffers w = ov_buffers v" "ov_arrays w = (ov_arrays v)[k := array_of v k @ [m]]"
    "ov_running w = ov_running v" "ov_compressed w = ov_compressed v"
    using Some assms(2) by (simp_all add: w_def buffer_message_def)
  have "k < length (ov_arrays v)"
    using assms(1) js_get_in [OF Some] by (force simp: observer_ok_def)
  then have at_k: "array_of w k = array_of v k @ [m]" by (simp add: array_of_def w)
  have other: "array_of w j = array_of v j" if "j \<noteq> k" for j using that by (simp add: array_of_def w)
  have "waiting_messages w + length (array_of v k) = waiting_messages v + length (array_of w k)"
    unfolding waiting_messages_def w(1)
    using assms(1) Some other by (intro sum_list_one_changed [where a = a]) (simp_all add: observer_ok_def)
  moreover have "observer_ok w"
  proof -
    have "pass_fits w p" if fits: "pass_fits v p" for p
    proof -
      have "length (op_inputs p) \<le> length (array_of v (op_buffer p))"
        by (rule take_own_length [of _ "map input_of (array_of v (op_buffer p))", simplified])
          (use fits in \<open>simp add: pass_fits_def\<close>)
      then show ?thesis
        using fits at_k other [of "op_buffer p"] by (cases "op_buffer p = k") (auto simp: pass_fits_def w(1))
    qed
    then have "pred_option (pass_fits w) (ov_running w)"
      using assms(1) by (cases "ov_running v") (simp_all add: observer_ok_def w(3))
    then show ?thesis using assms(1) by (simp add: observer_ok_def w(1,2))
  qed
  ultimately show ?thesis using w at_k by (simp add: w_def)
qed

lemma begin_observation_counts:
  assumes "observer_ok v" "begin_observation a v = (v', r)"
  shows "observer_ok v' \<and> waiting_messages v' = waiting_messages v \<and> ov_compressed v' = ov_compressed v"
proof -
  have "ov_buffers v' = ov_buffers v \<and> ov_arrays v' = ov_arrays v \<and> ov_compressed v' = ov_compressed v
      \<and> pred_option (pass_fits v) (ov_running v')"
    using assms by (auto simp: begin_observation_def Let_def observer_ok_def pass_fits_def split: option.splits if_splits)
  then show ?thesis using observer_same [OF assms(1), of v'] by blast
qed

lemma end_observation_counts:
  assumes "observer_ok v" "ov_running v = Some p" "end_observation now n p v = (v', r)"
  shows "observer_ok v' \<and> ov_compressed v' + waiting_messages v' = ov_compressed v + waiting_messages v"
proof -
  have buffer: "js_get (ov_buffers v) (op_agent p) = Some (op_buffer p)" and keys: "distinct (map fst (ov_buffers v))"
    using assms(1,2) by (simp_all add: observer_ok_def pass_fits_def)
  have v': "ov_buffers v' = js_delete (op_agent p) (ov_buffers v)" "ov_arrays v' = ov_arrays v" "ov_running v' = None"
    "ov_compressed v' = ov_compressed v + length (array_of v (op_buffer p))"
    using assms(3) by (auto simp: end_observation_def Let_def clear_buffer_def)
  have arrays: "array_of v' k = array_of v k" for k by (simp add: array_of_def v')
  have "waiting_messages v' + length (array_of v (op_buffer p)) = waiting_messages v"
    using sum_list_delete [OF keys buffer, of "\<lambda>k. length (array_of v k)"]
    by (simp add: waiting_messages_def v'(1) arrays)
  moreover have "observer_ok v'"
    using assms(1) distinct_js_delete [OF keys] distinct_map_filter [of snd "ov_buffers v"]
    by (auto simp: observer_ok_def v' js_delete_def)
  ultimately show ?thesis using v'(4) by simp
qed

lemma observation_reply_counts:
  assumes "observer_ok v" "observation_reply cf ids now reply v db = (v', db', r)"
  shows "observer_ok v' \<and> ov_compressed v' + waiting_messages v' = ov_compressed v + waiting_messages v"
proof -
  have quiet: ?thesis
    if "ov_buffers v' = ov_buffers v" "ov_arrays v' = ov_arrays v" "ov_compressed v' = ov_compressed v"
      "pred_option (pass_fits v) (ov_running v')"
    using observer_same [OF assms(1) that(1,2,4)] that(3) by simp
  show ?thesis
  proof (cases "ov_running v")
    case None
    then show ?thesis using assms by (simp add: observation_reply_def)
  next
    case (Some p)
    have fits: "pass_fits v p" using assms(1) Some by (simp add: observer_ok_def)
    show ?thesis
    proof (cases "op_phase p")
      case Waiting
      then show ?thesis using assms Some by (simp add: observation_reply_def)
    next
      case Calling
      show ?thesis
      proof (cases reply)
        case (Inl e)
        have "ov_buffers v' = ov_buffers v \<and> ov_arrays v' = ov_arrays v \<and> ov_compressed v' = ov_compressed v
            \<and> pred_option (pass_fits v) (ov_running v')"
          using assms(2) Some Calling Inl fits
          by (auto simp: observation_reply_def observation_call_failed_def pass_fits_def split: if_splits)
        then show ?thesis using quiet by blast
      next
        case (Inr t)
        then have ans: "observation_answered cf ids now t p v db = (v', db', r)"
          using assms(2) Some Calling by (simp add: observation_reply_def)
        then consider (ended) n r' where "end_observation now n p v = (v', r')"
          | (refused) "v' = v\<lparr>ov_running := None, ov_error_at := Some now\<rparr>"
          by (auto simp: observation_answered_def Let_def split: if_splits option.splits prod.splits)
        then show ?thesis
        proof cases
          case ended
          then show ?thesis using end_observation_counts [OF assms(1) Some] by blast
        next
          case refused
          then show ?thesis using quiet by simp
        qed
      qed
    qed
  qed
qed

text \<open>The messages that were buffered, and the runs in which no buffer is cleared by hand.\<close>

definition buffers_one :: "memory_op \<Rightarrow> bool" where
  "buffers_one x \<longleftrightarrow> (case x of BufferMessage _ _ \<Rightarrow> True | _ \<Rightarrow> False)"

definition clears_one :: "memory_op \<Rightarrow> bool" where
  "clears_one x \<longleftrightarrow> (case x of ClearBuffer _ \<Rightarrow> True | _ \<Rightarrow> False)"

lemma messages_step:
  fixes cf :: memory_config and w :: memory and x :: memory_op and now :: int
  assumes "observer_ok (mw_observer w)" "observer_enabled (mc_observer cf)" "\<not> clears_one x"
  defines "v' \<equiv> mw_observer (fst (memory_step cf now x w))"
  shows "observer_ok v' \<and> ov_compressed v' + waiting_messages v'
    = ov_compressed (mw_observer w) + waiting_messages (mw_observer w) + (if buffers_one x then 1 else 0)"
proof -
  let ?v = "mw_observer w"
  have begun: "observer_ok (mw_observer (fst (memory_observe a u)))
      \<and> ov_compressed (mw_observer (fst (memory_observe a u))) + waiting_messages (mw_observer (fst (memory_observe a u)))
        = ov_compressed ?v + waiting_messages ?v" if "mw_observer u = ?v" for a u
  proof -
    obtain v1 r where "begin_observation a ?v = (v1, r)" by (cases "begin_observation a ?v")
    then show ?thesis using begin_observation_counts [OF assms(1)] that by (simp add: memory_observe_def)
  qed
  have same: ?thesis
    if "ov_buffers v' = ov_buffers ?v" "ov_arrays v' = ov_arrays ?v" "ov_compressed v' = ov_compressed ?v"
      "pred_option (pass_fits ?v) (ov_running v')" "\<not> buffers_one x"
    using observer_same [OF assms(1) that(1,2,4)] that(3,5) by simp
  have fits: "pred_option (pass_fits ?v) (ov_running ?v)" using assms(1) by (simp add: observer_ok_def)
  show ?thesis
  proof (cases x)
    case (BufferMessage a m)
    then show ?thesis
      using buffer_message_counts [OF assms(1,2)] by (simp add: v'_def memory_step_def buffers_one_def)
  next
    case (ClearBuffer a)
    then show ?thesis using assms(3) by (simp add: clears_one_def)
  next
    case RunTimer
    then show ?thesis using begun assms(1)
      by (cases "mw_timers w") (simp_all add: v'_def memory_step_def buffers_one_def)
  next
    case (ObserveNow a)
    then show ?thesis using begun by (simp add: v'_def memory_step_def buffers_one_def)
  next
    case (ObserverReply ids reply)
    obtain v1 db r where "observation_reply (mc_observer cf) ids now reply ?v (mw_db w) = (v1, db, r)"
      by (cases "observation_reply (mc_observer cf) ids now reply ?v (mw_db w)") auto
    then show ?thesis
      using observation_reply_counts [OF assms(1)] ObserverReply by (simp add: v'_def memory_step_def buffers_one_def)
  next
    case ObserverRetry
    have "ov_buffers (retry_observation ?v) = ov_buffers ?v \<and> ov_arrays (retry_observation ?v) = ov_arrays ?v
        \<and> ov_compressed (retry_observation ?v) = ov_compressed ?v
        \<and> pred_option (pass_fits ?v) (ov_running (retry_observation ?v))"
      using fits by (auto simp: retry_observation_def pass_fits_def split: option.splits)
    then show ?thesis using same ObserverRetry by (simp add: v'_def memory_step_def buffers_one_def)
  next
    case AttachObserver
    then show ?thesis
      using same fits by (simp add: v'_def memory_step_def buffers_one_def attach_observer_def)
  next
    case DetachObserver
    then show ?thesis
      using same fits by (simp add: v'_def memory_step_def buffers_one_def detach_observer_def)
  next
    case (MessageEvent i m)
    have "mw_observer (memory_message cf i now m w) = ?v"
      by (auto simp: memory_message_def split: prod.splits)
    then show ?thesis using same fits MessageEvent by (simp add: v'_def memory_step_def buffers_one_def)
  qed (use same fits in \<open>auto simp: v'_def memory_step_def buffers_one_def Let_def split: prod.splits\<close>)
qed

text \<open>
  C14: no message disappears from the books: over every run in which no buffer is cleared by hand the
  messages that were handed to the observer are those it reports as compressed and those that still
  wait, also when the model fails, answers nonsense, or the rows are refused.
\<close>

theorem every_message_is_accounted_for:
  fixes cf :: memory_config and xs :: "(int \<times> memory_op) list"
  defines "v \<equiv> mw_observer (memory_run cf xs new_memory)"
  assumes "observer_enabled (mc_observer cf)" "list_all (\<lambda>(now, x). \<not> clears_one x) xs"
  shows "ov_compressed v + waiting_messages v = length (filter (\<lambda>(now, x). buffers_one x) xs)"
proof -
  have "observer_ok (mw_observer (memory_run cf xs new_memory))
      \<and> ov_compressed (mw_observer (memory_run cf xs new_memory)) + waiting_messages (mw_observer (memory_run cf xs new_memory))
        = length (filter (\<lambda>(now, x). buffers_one x) xs)"
    using assms(3)
  proof (induction xs rule: rev_induct)
    case Nil
    then show ?case
      by (simp add: memory_run_def new_memory_def new_observer_def observer_ok_def waiting_messages_def)
  next
    case (snoc y xs)
    obtain now x where y: "y = (now, x)" by (cases y)
    show ?case
      using snoc messages_step [of "memory_run cf xs new_memory" cf x now]  assms(2)
      by (simp add: y memory_run_snoc)
  qed
  then show ?thesis by (simp add: v_def)
qed

end
