(* ===== verification/Memory_Cases.thy ===== *)
theory Memory_Cases
  imports Memory_Counts
begin

text \<open>
  What single passes and reads of the observational memory do: a pass whose model fails, messages that
  come during a pass, the decisions of a reflection, the cache; with samples on which the properties
  of the memory are applied.
\<close>

section \<open>Samples\<close>

definition sample_memory_config :: memory_config where
  "sample_memory_config =
     \<lparr>mc_hook = default_hook_config\<lparr>hook_threshold := Some 3\<rparr>, mc_observer = default_observer_config,
      mc_reflector = default_reflector_config True, mc_cache = default_cache_config ''ada''\<rparr>"

definition sample_note :: "string \<Rightarrow> string \<Rightarrow> conversation_message" where
  "sample_note a t =
     \<lparr>cm_id = ''m'', cm_conversation = ''c'', cm_from = a, cm_to = [], cm_delivered_to = [], cm_content = t,
      cm_created = 0, cm_payload = None, cm_handoff = None, cm_mediation = None, cm_security = None,
      cm_status = DeliveredMsg, cm_reason = None\<rparr>"

definition sample_observation :: "string \<Rightarrow> observation_priority \<Rightarrow> observation" where
  "sample_observation i p =
     \<lparr>ob_id = i, ob_created = 0, ob_category = FactObs, ob_content = ''text'', ob_conversation = None,
      ob_message = None, ob_agent = ''ada'', ob_channel = None, ob_status = ProcessedObs, ob_usage = None,
      ob_priority = Some p, ob_referenced = None, ob_sources = None, ob_reflected = None, ob_metadata = None\<rparr>"

section \<open>A pass whose model fails\<close>

text \<open>All attempts of one pass are rejected.\<close>

definition rejected_pass :: "memory_config \<Rightarrow> int \<Rightarrow> (nat \<Rightarrow> string) \<Rightarrow> string \<Rightarrow> string \<Rightarrow> (int \<times> memory_op) list" where
  "rejected_pass cf now ids e a =
     (now, ObserveNow a)
     # concat (replicate (observer_retries (mc_observer cf)) [(now, ObserverReply ids (Inl e)), (now, ObserverRetry)])
     @ [(now, ObserverReply ids (Inl e))]"

lemma rejected_attempts:
  fixes cf :: memory_config and w :: memory and now :: int and e :: string and ids :: "nat \<Rightarrow> string"
  assumes "ov_running (mw_observer w) = Some p" "op_phase p = Calling"
    "op_attempt p + n = observer_retries (mc_observer cf)"
  defines "w' \<equiv> memory_run cf (concat (replicate n [(now, ObserverReply ids (Inl e)), (now, ObserverRetry)])
                                  @ [(now, ObserverReply ids (Inl e))]) w"
  shows "ov_running (mw_observer w') = None \<and> ov_buffers (mw_observer w') = ov_buffers (mw_observer w)
    \<and> ov_arrays (mw_observer w') = ov_arrays (mw_observer w) \<and> mw_db w' = mw_db w
    \<and> ov_calls (mw_observer w') = ov_calls (mw_observer w) + n
    \<and> ov_failures (mw_observer w') = Suc (ov_failures (mw_observer w))"
  unfolding w'_def using assms(1-3)
proof (induction n arbitrary: w p)
  case 0
  then show ?case
    by (simp add: memory_run_def memory_step_def observation_reply_def observation_call_failed_def)
next
  case (Suc n)
  define q where "q = p\<lparr>op_attempt := Suc (op_attempt p)\<rparr>"
  define u where "u = fst (memory_step cf now ObserverRetry (fst (memory_step cf now (ObserverReply ids (Inl e)) w)))"
  have u: "mw_observer u = (mw_observer w)\<lparr>ov_running := Some (p\<lparr>op_attempt := Suc (op_attempt p), op_phase := Calling\<rparr>),
      ov_calls := Suc (ov_calls (mw_observer w))\<rparr>" "mw_db u = mw_db w"
    using Suc.prems
    by (simp_all add: u_def memory_step_def observation_reply_def observation_call_failed_def retry_observation_def)
  have "memory_run cf (concat (replicate (Suc n) [(now, ObserverReply ids (Inl e)), (now, ObserverRetry)])
          @ [(now, ObserverReply ids (Inl e))]) w
      = memory_run cf (concat (replicate n [(now, ObserverReply ids (Inl e)), (now, ObserverRetry)])
          @ [(now, ObserverReply ids (Inl e))]) u"
    by (simp add: memory_run_def u_def)
  then show ?case using Suc.IH [of u] Suc.prems(3) u by simp
qed

lemma buffered_same:
  "ov_buffers v' = ov_buffers v \<Longrightarrow> ov_arrays v' = ov_arrays v \<Longrightarrow> buffered_messages b v' = buffered_messages b v"
  by (simp add: buffered_messages_def array_of_def split: option.split)

text \<open>
  C30: a pass whose model keeps failing ends: after one attempt and the configured number of retries
  the lock is free again, no buffer and no table has changed, and the failure is counted once.
\<close>

theorem failed_passes_keep_their_messages:
  fixes w :: memory
  assumes "ov_running (mw_observer w) = None" "buffered_messages a (mw_observer w) \<noteq> []"
  shows "(let w' = memory_run cf (rejected_pass cf now ids e a) w in
    ov_running (mw_observer w') = None \<and> buffered_messages b (mw_observer w') = buffered_messages b (mw_observer w)
    \<and> mw_db w' = mw_db w \<and> ov_failures (mw_observer w') = Suc (ov_failures (mw_observer w))
    \<and> ov_calls (mw_observer w') = ov_calls (mw_observer w) + observer_retries (mc_observer cf) + 1)"
proof -
  let ?v = "mw_observer w"
  from assms(2) obtain k where k: "js_get (ov_buffers ?v) a = Some k" "array_of ?v k \<noteq> []"
    by (auto simp: buffered_messages_def split: option.splits)
  define u where "u = fst (memory_step cf now (ObserveNow a) w)"
  define p where "p = \<lparr>op_agent = a, op_buffer = k, op_inputs = map input_of (array_of ?v k), op_attempt = 0, op_phase = Calling\<rparr>"
  have u: "mw_observer u = ?v\<lparr>ov_attempted := Suc (ov_attempted ?v), ov_running := Some p, ov_calls := Suc (ov_calls ?v)\<rparr>"
    "mw_db u = mw_db w"
    using assms(1) k by (simp_all add: u_def p_def memory_step_def memory_observe_def begin_observation_def array_of_def)
  have run: "memory_run cf (rejected_pass cf now ids e a) w
      = memory_run cf (concat (replicate (observer_retries (mc_observer cf))
          [(now, ObserverReply ids (Inl e)), (now, ObserverRetry)]) @ [(now, ObserverReply ids (Inl e))]) u"
    by (simp add: memory_run_def rejected_pass_def u_def)
  have "ov_running (mw_observer u) = Some p" "op_phase p = Calling"
    "op_attempt p + observer_retries (mc_observer cf) = observer_retries (mc_observer cf)"
    by (simp_all add: u p_def)
  note ended = rejected_attempts [OF this, of now ids e, folded run]
  have "ov_buffers (mw_observer u) = ov_buffers ?v" "ov_arrays (mw_observer u) = ov_arrays ?v"
    "ov_calls (mw_observer u) = Suc (ov_calls ?v)" "ov_failures (mw_observer u) = ov_failures ?v"
    by (simp_all add: u)
  with ended buffered_same [of "mw_observer (memory_run cf (rejected_pass cf now ids e a) w)" ?v b] u(2)
  show ?thesis by (simp only: Let_def) simp
qed

theorem failed_passes_keep_their_messages_witness:
  "ov_calls (mw_observer (memory_run sample_memory_config (rejected_pass sample_memory_config 1 (\<lambda>_. ''i'') ''down'' ''ada'')
     (memory_run sample_memory_config [(0, BufferMessage ''ada'' (sample_note ''bob'' ''hi''))] new_memory))) = 2"
proof -
  let ?w = "memory_run sample_memory_config [(0, BufferMessage ''ada'' (sample_note ''bob'' ''hi''))] new_memory"
  have "ov_running (mw_observer ?w) = None" "buffered_messages ''ada'' (mw_observer ?w) \<noteq> []" "ov_calls (mw_observer ?w) = 0"
    by (simp_all add: memory_run_def memory_step_def buffer_message_def new_memory_def new_observer_def
        sample_memory_config_def default_observer_config_def buffered_messages_def array_of_def)
  then show ?thesis
    using failed_passes_keep_their_messages [of ?w "''ada''" sample_memory_config 1 "\<lambda>_. ''i''" "''down''"]
    by (simp add: Let_def sample_memory_config_def default_observer_config_def)
qed

section \<open>Messages that come during a pass\<close>

lemma answered_success:
  assumes "observation_answered cf ids now t p v db = (v', db', Some r)" "or_success r"
  shows "ov_buffers v' = js_delete (op_agent p) (ov_buffers v) \<and> or_compressed r = length (array_of v (op_buffer p))"
  using assms
  by (auto simp: observation_answered_def end_observation_def clear_buffer_def Let_def split: if_splits option.splits)

text \<open>
  C28: messages that are buffered while the model is asked are lost: the model was only given the
  earlier ones, but a successful end of the pass empties the whole buffer and counts the new message
  as compressed.
\<close>

theorem messages_during_a_pass_are_lost:
  fixes w :: memory
  assumes "ov_running (mw_observer w) = None" "buffered_messages a (mw_observer w) = ms" "ms \<noteq> []"
    "observer_enabled (mc_observer cf)"
    and "memory_step cf t3 (ObserverReply ids (Inr words))
           (memory_run cf [(t1, ObserveNow a), (t2, BufferMessage a m)] w) = (w', Observed r)" "or_success r"
  shows "map_option op_inputs (ov_running (mw_observer (memory_run cf [(t1, ObserveNow a), (t2, BufferMessage a m)] w)))
      = Some (map input_of ms)
    \<and> buffered_messages a (mw_observer w') = [] \<and> or_compressed r = length ms + 1"
proof -
  let ?v = "mw_observer w"
  from assms(2,3) obtain k where k: "js_get (ov_buffers ?v) a = Some k" "array_of ?v k = ms"
    by (auto simp: buffered_messages_def split: option.splits)
  then have len: "k < length (ov_arrays ?v)" using assms(3) by (auto simp: array_of_def split: if_splits)
  define p where "p = \<lparr>op_agent = a, op_buffer = k, op_inputs = map input_of ms, op_attempt = 0, op_phase = Calling\<rparr>"
  define v1 where "v1 = ?v\<lparr>ov_attempted := Suc (ov_attempted ?v), ov_running := Some p, ov_calls := Suc (ov_calls ?v)\<rparr>"
  define v2 where "v2 = v1\<lparr>ov_arrays := (ov_arrays ?v)[k := ms @ [m]]\<rparr>"
  define u where "u = memory_run cf [(t1, ObserveNow a), (t2, BufferMessage a m)] w"
  have arr: "array_of v1 k = ms" using k(2) len by (simp add: v1_def array_of_def)
  have "fst (memory_step cf t1 (ObserveNow a) w) = w\<lparr>mw_observer := v1\<rparr>"
    using assms(1,3) k by (simp add: memory_step_def memory_observe_def begin_observation_def v1_def p_def array_of_def)
  then have u: "mw_observer u = v2" "mw_db u = mw_db w"
    using k arr assms(4) by (simp_all add: u_def memory_run_def memory_step_def buffer_message_def v2_def) (simp_all add: v1_def)
  have v2: "ov_running v2 = Some p" "array_of v2 k = ms @ [m]" "ov_buffers v2 = ov_buffers ?v"
    using len by (simp_all add: v2_def v1_def array_of_def)
  obtain v' db' r' where ans: "observation_answered (mc_observer cf) ids t3 words p v2 (mw_db w) = (v', db', r')"
    by (cases "observation_answered (mc_observer cf) ids t3 words p v2 (mw_db w)") auto
  have "memory_step cf t3 (ObserverReply ids (Inr words)) u = (u\<lparr>mw_observer := v', mw_db := db'\<rparr>, observed_answer r')"
    using ans v2(1) u by (simp add: memory_step_def observation_reply_def p_def)
  then have res: "r' = Some r" "mw_observer w' = v'"
    using assms(5) by (auto simp: observed_answer_def simp flip: u_def split: option.splits)
  from answered_success [of "mc_observer cf" ids t3 words p v2 "mw_db w" v' db' r] ans res(1) assms(6)
  have "ov_buffers v' = js_delete a (ov_buffers v2)" "or_compressed r = length ms + 1"
    using v2(2) by (simp_all add: p_def)
  then show ?thesis
    using res(2) u(1) v2(1) by (simp add: buffered_messages_def p_def flip: u_def)
qed

lemma empty_answer: "parse_model_response ''[]'' = []"
  by code_simp

theorem messages_during_a_pass_are_lost_witness:
  "buffered_messages ''ada'' (mw_observer (memory_run sample_memory_config
     [(0, BufferMessage ''ada'' (sample_note ''bob'' ''hi'')), (1, ObserveNow ''ada''),
      (2, BufferMessage ''ada'' (sample_note ''bob'' ''lost'')), (3, ObserverReply (\<lambda>_. ''i'') (Inr ''[]''))] new_memory)) = []"
proof -
  let ?w = "memory_run sample_memory_config [(0, BufferMessage ''ada'' (sample_note ''bob'' ''hi''))] new_memory"
  let ?u = "memory_run sample_memory_config [(1, ObserveNow ''ada''), (2, BufferMessage ''ada'' (sample_note ''bob'' ''lost''))] ?w"
  let ?s = "memory_step sample_memory_config 3 (ObserverReply (\<lambda>_. ''i'') (Inr ''[]'')) ?u"
  have w: "ov_running (mw_observer ?w) = None" "buffered_messages ''ada'' (mw_observer ?w) = [sample_note ''bob'' ''hi'']"
    "observer_enabled (mc_observer sample_memory_config)"
    by (simp_all add: memory_run_def memory_step_def buffer_message_def new_memory_def new_observer_def
        sample_memory_config_def default_observer_config_def buffered_messages_def array_of_def)
  have s: "snd ?s = Observed \<lparr>or_success = True, or_created = 0, or_compressed = 2, or_error = None\<rparr>"
    by (simp add: memory_run_def memory_step_def buffer_message_def new_memory_def new_observer_def
        sample_memory_config_def default_observer_config_def array_of_def memory_observe_def
        begin_observation_def observation_reply_def observation_answered_def empty_answer end_observation_def
        observed_answer_def clear_buffer_def Let_def)
  have "?s = (fst ?s, Observed \<lparr>or_success = True, or_created = 0, or_compressed = 2, or_error = None\<rparr>)"
    using s by (metis prod.collapse)
  from messages_during_a_pass_are_lost [OF w(1,2) _ w(3) this]
  have "buffered_messages ''ada'' (mw_observer (fst ?s)) = []" by simp
  then show ?thesis by (simp add: memory_run_def)
qed

section \<open>What the observer accepts\<close>

lemma dropWhile_rev_dropWhile:
  "dropWhile P (rev (dropWhile P (rev (dropWhile P s)))) = rev (dropWhile P (rev (dropWhile P s)))"
proof (cases "dropWhile P s")
  case (Cons c t)
  have c: "\<not> P c" by (metis Cons dropWhile_eq_Cons_conv)
  have "rev (dropWhile P (rev (c # t))) = c # rev (dropWhile P (rev t)) \<or> rev (dropWhile P (rev (c # t))) = [c]"
    using c by (auto simp: dropWhile_append)
  then show ?thesis using c Cons by auto
next
  case Nil
  then show ?thesis by (simp only: Nil rev.simps dropWhile.simps)
qed

lemma js_trim_idem: "js_trim (js_trim s) = js_trim s"
  unfolding js_trim_def dropWhile_rev_dropWhile by simp

text \<open>
  whatever the model answers - prose, fences, broken JSON, values of other types - the observations
  that the observer accepts have a text that is neither empty nor padded.
\<close>

theorem accepted_observations_have_text:
  "list_all (\<lambda>mo. mo_content mo \<noteq> [] \<and> js_trim (mo_content mo) = mo_content mo) (parse_model_response words)"
proof -
  have "mo_content mo \<noteq> [] \<and> js_trim (mo_content mo) = mo_content mo" if "validate_model_observation j = Some mo" for j mo
    using that by (auto simp: validate_model_observation_def js_trim_idem split: option.splits if_splits)
  then show ?thesis
    by (auto simp: parse_model_response_def list_all_iff List.map_filter_def split: option.splits)
qed

end
