(* ===== verification/Memory_Reflection.thy ===== *)
theory Memory_Reflection
  imports Memory_Cases
begin

text \<open>
  What a reflection does with the decisions of the model, what it reports of it, and what the cache
  shows of the observations that stay.
\<close>

section \<open>Decisions\<close>

text \<open>The decisions take an observation away: it is discarded, or merged into an evaluated one.\<close>

definition asked_to_go :: "string list \<Rightarrow> (string, reflection_decision) jsmap \<Rightarrow> string \<Rightarrow> bool" where
  "asked_to_go ids dm i \<longleftrightarrow>
     (case js_get dm i of
        None \<Rightarrow> False
      | Some d \<Rightarrow>
          (case dc_verdict d of
             KeepIt \<Rightarrow> False
           | DiscardIt \<Rightarrow> True
           | MergeIt \<Rightarrow> truthy_str (dc_into d) \<and> truthy_str (dc_content d) \<and> str_or_empty (dc_into d) \<in> set ids))"

lemma plan_gone_is_filter: "pl_gone (plan_reflection ids ds) = filter (asked_to_go ids (decision_map ids ds)) ids"
proof -
  have "pl_gone (fold (plan_one ids dm) todo p) = pl_gone p @ filter (asked_to_go ids dm) todo" for todo p dm
  proof (induction todo arbitrary: p)
    case (Cons i todo)
    have "pl_gone (plan_one ids dm i p) = pl_gone p @ (if asked_to_go ids dm i then [i] else [])"
      by (auto simp: plan_one_def asked_to_go_def keep_one_def split: option.splits reflection_verdict.splits)
    then show ?case using Cons.IH by simp
  qed simp
  then show ?thesis by (simp add: plan_reflection_def empty_plan_def)
qed

lemma active_ids_after:
  fixes active :: "observation list" and ds :: "reflection_decision list" and least :: int
  defines "gone \<equiv> plan_gone active least (plan_reflection (map ob_id active) ds)"
  assumes "od_rows db' = od_rows (fst (apply_decisions least now active ds db))"
  shows "map ob_id (active_rows a db') = filter (\<lambda>i. i \<notin> set gone) (map ob_id (active_rows a db))"
proof -
  define f where "f = reflected_row gone (plan_merges active least (plan_reflection (map ob_id active) ds)) now"
  have "map ob_id (filter (is_active a) (map f xs)) = filter (\<lambda>i. i \<notin> set gone) (map ob_id (filter (is_active a) xs))" for xs
  proof (induction xs)
    case (Cons x xs)
    have "is_active a (f x) \<longleftrightarrow> is_active a x \<and> ob_id x \<notin> set gone" "ob_id (f x) = ob_id x"
      using kept_row_fields(1) [OF reflected_row_kept] by (simp_all add: f_def reflected_row_active)
    with Cons show ?case by auto
  qed simp
  moreover have "od_rows db' = map f (od_rows db)"
    using assms(2) by (simp add: apply_decisions_rows f_def gone_def)
  ultimately show ?thesis by (simp add: active_rows_def)
qed




text \<open>
  a merge does not protect its target. When one observation is merged into another that is itself
  discarded, and the floor is met by others, neither of them is active any more: the merged content
  is lost.
\<close>

theorem merge_into_a_discarded_one_loses_both:
  fixes active :: "observation list" and db :: observation_db and a :: string and now least :: int
    and ds :: "reflection_decision list"
  defines "ids \<equiv> map ob_id active"
  assumes "distinct ids" "i \<in> set ids" "j \<in> set ids"
    "js_get (decision_map ids ds) i = Some d" "dc_verdict d = MergeIt" "dc_into d = Some j" "j \<noteq> []"
    "dc_content d = Some t" "t \<noteq> []"
    "js_get (decision_map ids ds) j = Some e" "dc_verdict e = DiscardIt"
    "least \<le> int (length (filter (\<lambda>k. \<not> asked_to_go ids (decision_map ids ds) k) ids))"
  shows "i \<notin> ob_id ` set (active_rows a (fst (apply_decisions least now active ds db)))
    \<and> j \<notin> ob_id ` set (active_rows a (fst (apply_decisions least now active ds db)))"
proof -
  let ?p = "plan_reflection ids ds" and ?ask = "asked_to_go ids (decision_map ids ds)"
  have ok: "plan_ok ids ids ?p" by (rule plan_reflection_ok) (rule assms(2))
  have "pl_keep ?p = length (filter (\<lambda>k. \<not> ?ask k) ids)"
    using ok sum_length_filter_compl [of ?ask ids] by (simp add: plan_ok_def plan_gone_is_filter)
  then have "plan_gone active least ?p = pl_gone ?p" using assms(13) by (simp add: plan_gone_def rescued_def)
  then have gone: "plan_gone active least ?p = filter ?ask ids" by (simp add: plan_gone_is_filter)
  have "?ask i" "?ask j" using assms by (simp_all add: asked_to_go_def)
  then have "i \<in> set (plan_gone active least ?p)" "j \<in> set (plan_gone active least ?p)" using gone assms(3,4) by simp_all
  moreover have "ob_id ` set (active_rows a (fst (apply_decisions least now active ds db)))
      = set (filter (\<lambda>i. i \<notin> set (plan_gone active least ?p)) (map ob_id (active_rows a db)))"
    using active_ids_after [where active = active and ds = ds and least = least and a = a and db = db and now = now, OF refl] by (metis ids_def set_map)
  ultimately show ?thesis by simp
qed

theorem merge_into_a_discarded_one_loses_both_witness:
  "''x'' \<notin> ob_id ` set (active_rows ''ada'' (fst (apply_decisions 0 1
     [sample_observation ''x'' HighObs, sample_observation ''y'' InfoObs]
     [\<lparr>dc_id = ''x'', dc_verdict = MergeIt, dc_reason = [], dc_into = Some ''y'', dc_content = Some ''both''\<rparr>,
      \<lparr>dc_id = ''y'', dc_verdict = DiscardIt, dc_reason = [], dc_into = None, dc_content = None\<rparr>]
     \<lparr>od_rows = [sample_observation ''x'' HighObs, sample_observation ''y'' InfoObs], od_states = [], od_log = []\<rparr>)))"
proof -
  define active where "active = [sample_observation ''x'' HighObs, sample_observation ''y'' InfoObs]"
  define d e where "d = \<lparr>dc_id = ''x'', dc_verdict = MergeIt, dc_reason = [], dc_into = Some ''y'', dc_content = Some ''both''\<rparr>"
    and "e = \<lparr>dc_id = ''y'', dc_verdict = DiscardIt, dc_reason = [], dc_into = None, dc_content = None\<rparr>"
  define db where "db = \<lparr>od_rows = active, od_states = [], od_log = []\<rparr>"
  have ids: "map ob_id active = [''x'', ''y'']" by (simp add: active_def sample_observation_def)
  have dm: "decision_map [''x'', ''y''] [d, e] = [(''x'', d), (''y'', e)]"
    by (simp add: decision_map_def d_def e_def)
  have "''x'' \<notin> ob_id ` set (active_rows ''ada'' (fst (apply_decisions 0 1 active [d, e] db)))"
    by (rule merge_into_a_discarded_one_loses_both [where i = "''x''" and j = "''y''" and d = d and e = e and t = "''both''",
          THEN conjunct1])
      (simp_all add: ids dm, simp_all add: d_def e_def)
  then show ?thesis by (simp add: active_def d_def e_def db_def)
qed

text \<open>
  the report of a reflection. Without a rescue the counts of kept, merged and discarded observations
  add up to those evaluated and the kept ones are those that stay; when the floor rescues, the merged ones
  are subtracted twice and both fail by their number.
\<close>

theorem rescue_miscounts_the_kept:
  fixes active :: "observation list" and db :: observation_db and now least :: int and ds :: "reflection_decision list"
  defines "ids \<equiv> map ob_id active"
  defines "p \<equiv> plan_reflection ids ds"
  defines "n \<equiv> snd (apply_decisions least now active ds db)"
  defines "stay \<equiv> int (length active) - int (length (plan_gone active least p))"
  assumes "distinct ids"
  shows "(if int (pl_keep p) < least
    then rc_kept n + rc_merged n + rc_discarded n = int (length active) - rc_merged n \<and> rc_kept n = stay - rc_merged n
    else rc_kept n + rc_merged n + rc_discarded n = int (length active) \<and> rc_kept n = stay)"
proof -
  have ok: "plan_ok ids ids p" unfolding p_def by (rule plan_reflection_ok) (rule assms(5))
  show ?thesis
  proof (cases "int (pl_keep p) < least")
    case True
    then show ?thesis
      by (simp add: n_def apply_decisions_def Let_def stay_def plan_gone_def flip: ids_def p_def)
  next
    case False
    then have "plan_gone active least p = pl_gone p" by (simp add: plan_gone_def rescued_def)
    moreover have "n = \<lparr>rc_kept = int (pl_keep p), rc_merged = int (pl_merge p), rc_discarded = int (pl_discard p)\<rparr>"
      using False by (simp add: n_def apply_decisions_def Let_def flip: ids_def p_def)
    moreover have "pl_keep p + length (pl_gone p) = length active" "pl_merge p + pl_discard p + pl_keep p = length active"
      using ok by (simp_all add: plan_ok_def ids_def)
    ultimately show ?thesis using False by (simp add: stay_def)
  qed
qed

theorem rescue_miscounts_the_kept_witness:
  "rc_kept (snd (apply_decisions 1 0 [sample_observation ''x'' HighObs] [] empty_observations)) = 1"
proof -
  have "distinct (map ob_id [sample_observation ''x'' HighObs])" by simp
  from rescue_miscounts_the_kept [OF this, of "[]" 1 0 empty_observations] show ?thesis
    by (simp add: plan_reflection_def decision_map_def empty_plan_def plan_one_def keep_one_def plan_gone_def
        rescued_def sample_observation_def)
qed

section \<open>The cache\<close>

lemma insert_by_last: "(\<And>y. y \<in> set ys \<Longrightarrow> le y x) \<Longrightarrow> insert_by le x ys = ys @ [x]"
  by (induction ys) auto

lemma sort_by_sorted: "sorted_wrt le xs \<Longrightarrow> sort_by le xs = xs"
  by (induction xs rule: rev_induct) (auto simp: sort_by_snoc sorted_wrt_append insert_by_last)

lemma sorted_active: "sorted_wrt memory_order (active_observations a n db)"
proof -
  have "sorted_wrt memory_order (sql_limit n (sort_by memory_order (active_rows a db)))"
    using memory_comparison.sorted_sort_by [of "active_rows a db"] by (simp add: sql_limit_def sorted_wrt_take)
  moreover have "(\<lambda>x y. memory_order (row_to_observation x) (row_to_observation y)) = memory_order"
    by (intro ext) (simp add: memory_order_def)
  ultimately show ?thesis by (simp add: active_observations_def sorted_wrt_map)
qed

text \<open>What the loop takes: a prefix that fits, or a single observation.\<close>

lemma trim_takes_a_prefix:
  assumes "trim_to_budget c budget (observation_tokens c taken) taken xs = (got, tokens)"
    "observation_tokens c taken \<le> budget \<or> length taken \<le> 1"
  shows "\<exists>k. got = taken @ take k xs \<and> k \<le> length xs \<and> tokens = observation_tokens c got
    \<and> (tokens \<le> budget \<or> length got \<le> 1)
    \<and> (k < length xs \<longrightarrow> budget < tokens + observation_tokens c [xs ! k])"
  using assms
proof (induction xs arbitrary: taken)
  case Nil
  then show ?case by (intro exI [of _ 0]) auto
next
  case (Cons x xs)
  let ?t = "estimate_tokens (ob_content x) c"
  have more: "observation_tokens c (taken @ [x]) = observation_tokens c taken + ?t"
    by (simp add: observation_tokens_def)
  show ?case
  proof (cases "budget < observation_tokens c taken + ?t \<and> taken \<noteq> []")
    case True
    then have "got = taken" "tokens = observation_tokens c taken"
      using Cons.prems(1) by (auto simp: Let_def)
    then show ?thesis
      using Cons.prems(2) True by (intro exI [of _ 0]) (simp add: observation_tokens_def)
  next
    case False
    then have "observation_tokens c (taken @ [x]) \<le> budget \<or> length (taken @ [x]) \<le> 1" using more by auto
    moreover have "trim_to_budget c budget (observation_tokens c (taken @ [x])) (taken @ [x]) xs = (got, tokens)"
      using Cons.prems(1) False by (simp only: more) (simp add: Let_def split: if_splits)
    ultimately obtain k where "got = (taken @ [x]) @ take k xs" "k \<le> length xs" "tokens = observation_tokens c got"
      "tokens \<le> budget \<or> length got \<le> 1" "k < length xs \<longrightarrow> budget < tokens + observation_tokens c [xs ! k]"
      using Cons.IH by blast
    then show ?thesis by (intro exI [of _ "Suc k"]) simp
  qed
qed

text \<open>
  C34: what goes into a prompt is the longest part of the active observations, in their order of priority
  and age, that fits into the budget, or the first one alone when it does not fit: the next one would
  exceed the budget.
\<close>

theorem cache_is_the_longest_prefix:
  fixes cf :: cache_config and db :: observation_db and now :: int and ch0 :: observation_cache
  defines "xs \<equiv> active_observations (cache_agent cf) (cache_max cf) db"
  defines "ch \<equiv> rebuild_cache cf now db ch0" and "c \<equiv> cache_chars_per_token cf"
  defines "k \<equiv> length (ch_cached ch)"
  shows "ch_cached ch = take k xs \<and> ch_tokens ch = observation_tokens c (take k xs)
    \<and> (ch_tokens ch \<le> cache_budget cf \<or> k \<le> 1)
    \<and> (k = length xs \<or> cache_budget cf < ch_tokens ch + observation_tokens c [xs ! k])"
proof -
  have order: "sort_by memory_order xs = xs" unfolding xs_def by (rule sort_by_sorted [OF sorted_active])
  obtain got tokens where trim: "trim_to_budget c (cache_budget cf) 0 [] xs = (got, tokens)"
    by (cases "trim_to_budget c (cache_budget cf) 0 [] xs")
  have ch: "ch_cached ch = got" "ch_tokens ch = tokens"
    using trim order by (simp_all add: ch_def rebuild_cache_def c_def flip: xs_def)
  have "observation_tokens c [] = 0" by (simp add: observation_tokens_def)
  then have "trim_to_budget c (cache_budget cf) (observation_tokens c []) [] xs = (got, tokens)" using trim by simp
  from trim_takes_a_prefix [OF this] obtain j where j: "got = [] @ take j xs" "j \<le> length xs"
    "tokens = observation_tokens c got" "tokens \<le> cache_budget cf \<or> length got \<le> 1"
    "j < length xs \<longrightarrow> cache_budget cf < tokens + observation_tokens c [xs ! j]"
    by (metis le0 list.size(3) zero_le_one)
  then have "k = j" using ch by (simp add: k_def)
  then show ?thesis using j ch by auto
qed

section \<open>Runs of the samples\<close>


theorem every_message_is_accounted_for_witness:
  "ov_compressed (mw_observer (memory_run sample_memory_config [(0, BufferMessage ''ada'' (sample_note ''bob'' ''hi''))] new_memory))
   + waiting_messages (mw_observer (memory_run sample_memory_config [(0, BufferMessage ''ada'' (sample_note ''bob'' ''hi''))] new_memory)) = 1"
proof -
  have "observer_enabled (mc_observer sample_memory_config)"
    by (simp add: sample_memory_config_def default_observer_config_def)
  from every_message_is_accounted_for [OF this, of "[(0, BufferMessage ''ada'' (sample_note ''bob'' ''hi''))]"]
  show ?thesis by (simp add: clears_one_def buffers_one_def)
qed

text \<open>
  the event of a full buffer is for the sender of the last message alone. Here the messages of Ada
  fill the buffer up to a message of Bob: Bob is observed, whose buffer is empty, so nothing is
  compressed, the count starts again at 0 and the messages of Ada go on waiting.
\<close>

theorem the_last_sender_is_observed:
  "(let w = memory_run sample_memory_config
       [(0, AttachHook), (1, AttachObserver), (2, BufferMessage ''ada'' (sample_note ''ada'' ''hi'')),
        (3, MessageEvent ''i'' (sample_note ''ada'' ''hi'')), (4, MessageEvent ''j'' (sample_note ''bob'' ''ok''))] new_memory;
      (w', answer) = memory_step sample_memory_config 5 RunTimer w in
    mw_timers w = [''bob''] \<and> th_raw (mw_hook w') = 0
    \<and> answer = Observed \<lparr>or_success = True, or_created = 0, or_compressed = 0, or_error = None\<rparr>
    \<and> buffered_messages ''ada'' (mw_observer w') = [sample_note ''ada'' ''hi''])"
  by (simp add: memory_run_def memory_step_def sample_memory_config_def default_hook_config_def
      default_observer_config_def attach_hook_def attach_observer_def buffer_message_def new_observer_def
      new_memory_def new_hook_def memory_message_def record_token_usage_def Let_def sample_note_def
      insert_observation_def empty_observations_def count_raw_def usage_of_def estimate_tokens_def
      usage_observation_def stored_row_def memory_observe_def begin_observation_def observed_answer_def
      buffered_messages_def array_of_def)

end
