(* ===== verification/Spec2Isabelle.thy ===== *)
theory Spec2Isabelle
  imports Prelude Authority Rate_Limiter Hitl Mission_State Squad_Correct Gates Artifacts Runner_Correct Queue_Router Conversation_Samples Router_Correct Proposal_Runs Alerting_Correct Workflow_Defaults Http_Guard_Correct Progression_Runs Memory_Reflection
begin

text \<open>
  VentureOS runs missions for a portfolio of business units with a team of language model agents. The
  TypeScript code under \<open>src/lib\<close> holds the rules of the agents and of the missions, and
  \<open>src/dashboard/server\<close> the service through which people watch and steer them. This library models
  the parts in which decisions are made and state is kept.

  \<^bold>\<open>Parts and how they interact.\<close>

  \<^item> \<^bold>\<open>Missions.\<close> A mission goes through the phases of \<^theory_text>\<open>Mission_State\<close>
    (\<open>lib/mission-state-machine.ts\<close>): its record is written to a file after each transition. The runner
    in \<^theory_text>\<open>Mission_Runner\<close> (\<open>lib/mission-runner.ts\<close>) drives it: it plans with the squad of
    \<^theory_text>\<open>Squad\<close> (\<open>lib/squad-coordinator.ts\<close>), executes the plan, stores what was made with
    \<^theory_text>\<open>Artifacts\<close> (\<open>lib/artifact-collector.ts\<close>), and closes the mission when the gates of
    \<^theory_text>\<open>Gates\<close> (\<open>lib/gate-checks.ts\<close>) pass. \<^theory_text>\<open>Runner_Correct\<close> and
    \<^theory_text>\<open>Squad_Correct\<close> hold what this promises. Who may ask for what is \<^theory_text>\<open>Authority\<close>
    (\<open>lib/authority-map.ts\<close>, \<open>lib/policy-gate.ts\<close>, \<open>lib/nexus-arbiter.ts\<close>).
  \<^item> \<^bold>\<open>Tasks.\<close> \<^theory_text>\<open>Task_Queue\<close> (\<open>lib/task-queue.ts\<close>, \<open>lib/queue-migration.ts\<close>) holds the tasks
    with their leases, \<^theory_text>\<open>Business_Units\<close> (\<open>lib/business-unit-registry.ts\<close>) the units they belong
    to, and \<^theory_text>\<open>Queue_Router\<close> (\<open>lib/queue-router.ts\<close>) the order in which they are taken.
  \<^item> \<^bold>\<open>Conversations.\<close> A message between agents passes the checks of \<^theory_text>\<open>Conversation\<close>
    (\<open>lib/conversation-engine.ts\<close>, \<open>lib/conversation-security.ts\<close>), which asks \<^theory_text>\<open>Rate_Limiter\<close>
    (\<open>lib/rate-limiter.ts\<close>), \<^theory_text>\<open>Handoff\<close> (\<open>lib/handoff-validator.ts\<close>,
    \<open>lib/contract-wildcards.ts\<close>), \<^theory_text>\<open>Affinity\<close> (\<open>lib/affinity-manager.ts\<close>) and
    \<^theory_text>\<open>Hitl\<close> (\<open>lib/hitl.ts\<close>), the engine of the human in the loop.
  \<^item> \<^bold>\<open>Models.\<close> \<^theory_text>\<open>Model_Router\<close> (\<open>lib/model-router.ts\<close> and its parts) chooses the language
    model of a request from the tiers, the quotas and what the trackers know.
  \<^item> \<^bold>\<open>Proposals.\<close> \<^theory_text>\<open>Proposal\<close> (\<open>dashboard/server/proposal-lifecycle.ts\<close>) reviews proposals and
    runs the mission of an approved one, step by step, over requests, delays and restarts.
  \<^item> \<^bold>\<open>Alerts.\<close> A request for the metrics evaluates the rules of \<^theory_text>\<open>Alert_Rules\<close>
    (\<open>dashboard/server/alert-rules.ts\<close>); \<^theory_text>\<open>Alerting\<close> (\<open>routes/task-board.ts\<close>) then writes the logs
    of \<^theory_text>\<open>Alert_Logs\<close> (\<open>alert-history.ts\<close>, \<open>webhook-delivery-history.ts\<close>, \<open>escalation-history.ts\<close>),
    starts the deliveries of \<^theory_text>\<open>Webhooks\<close> (\<open>alert-webhook.ts\<close>, \<open>webhook-formatters.ts\<close>) and the
    escalation of \<^theory_text>\<open>Escalation\<close> (\<open>escalation-policy.ts\<close>).
  \<^item> \<^bold>\<open>Workflows.\<close> \<^theory_text>\<open>Workflow_Engine\<close> and \<^theory_text>\<open>Workflow_System\<close>
    (\<open>lib/workflow-macros.ts\<close>, \<open>-helpers\<close>, \<open>-defaults\<close>, \<open>lib/workflow-recorder.ts\<close>) run macros of commands,
    one after the other, in parallel or over batches, and roll them back. They are written over the
    processes of \<^theory_text>\<open>Async\<close>.
  \<^item> \<^bold>\<open>The guard of the dashboard.\<close> \<^theory_text>\<open>Http_Guard\<close> (\<open>dashboard/server/middleware\<close> and the pipeline of
    \<open>server.ts\<close>) decides which requests reach a route: tokens, blocks after failed attempts, rate limits,
    the guard of actions, and the login.
  \<^item> \<^bold>\<open>Progression.\<close> \<^theory_text>\<open>Skill_Graph\<close> and \<^theory_text>\<open>Progression\<close> (\<open>lib/progression-engine.ts\<close>) hold the
    mathematics of experience and the validation of the skill tree, \<^theory_text>\<open>Progression_Store\<close>
    (\<open>lib/progression-store.ts\<close>) the tables, and \<^theory_text>\<open>Progression_Http\<close> (\<open>lib/progression-http.ts\<close>,
    \<open>lib/progression-http-v2.ts\<close>, \<open>lib/rpg-http.ts\<close>) the requests. \<^theory_text>\<open>Progression_Correct\<close> and
    \<^theory_text>\<open>Progression_Runs\<close> hold what runs of requests promise. The statements of SQL are read as operations on
    lists of rows, with their keys and references.
  \<^item> \<^bold>\<open>Memory.\<close> \<^theory_text>\<open>Observation_Store\<close> (\<open>lib/observation-store.ts\<close>) holds the tables of the
    observational memory. The writers are in \<^theory_text>\<open>Observer\<close> (\<open>lib/token-counter-hook.ts\<close>,
    \<open>lib/observer-agent.ts\<close>), the readers in \<^theory_text>\<open>Reflector\<close> (\<open>lib/reflector-agent.ts\<close>,
    \<open>lib/observation-cache.ts\<close>); the answers of the language model are read with \<^theory_text>\<open>Json_Text\<close>. A pass
    stops at each call of the model, so that messages, other passes and reads fall in between.
    \<^theory_text>\<open>Memory_Correct\<close>, \<^theory_text>\<open>Memory_Counts\<close>, \<^theory_text>\<open>Memory_Cases\<close> and
    \<^theory_text>\<open>Memory_Reflection\<close> hold what is kept over every run, and what single passes do.

  \<^bold>\<open>How the code is represented.\<close> An interface or class is a record with the fields of the source, a union
  of literals a datatype. A function with effects takes the state and returns it changed. A throw or a
  refusal is the left side of a sum or \<^const>\<open>None\<close>. A \<open>Map\<close> and an object used as one is an association
  list in insertion order (\<open>jsmap\<close>, \<^theory_text>\<open>Prelude\<close>). An array that two parts of the code share is a
  number into a list of arrays (the buffers of \<^theory_text>\<open>Observer\<close>). What \<open>JSON.parse\<close> returns is a datatype
  (\<^theory_text>\<open>Json\<close>, \<^theory_text>\<open>Workflow_Values\<close>). Numbers are integers or, where the source divides,
  rationals instead of doubles, so that rounding errors of doubles are not modelled; \<open>Math.round\<close> and
  \<open>Math.floor\<close> are. Times are milliseconds. Files are a map from paths to contents with the steps of a
  write as separate operations, so that a crash can fall between them. Asynchronous code is modelled in
  two ways. Where requests, timers and completions of other tasks interleave (proposals, deliveries of
  webhooks), the operations are steps of a state and the properties hold of every sequence of steps. Where
  calls run concurrently inside one run (workflows), a call is a process that runs from one \<open>await\<close> to the
  next, and the properties hold for every schedule of the turns.

  \<^bold>\<open>Parameters.\<close> Identifiers, the clock, the text of a time, number parsing and printing, URL parsing,
  \<open>fetch\<close>, HMAC, the schema validator, the message sanitizer, the role cards, the handlers of commands and
  the schedules are arguments of the definitions that use them.

  \<^bold>\<open>What the lemmas show.\<close> Each component has lemmas on its operations and an invariant that they keep; the
  theories named \<open>_Correct\<close>, \<open>_Runs\<close>, \<open>_Batch\<close> and \<open>_Rollback\<close> hold the properties of whole runs. Several
  properties are refinements: the log files against unbounded logs, the telemetry of the router against
  its full log, the escalation state against the history of observations, the executor of a plan against
  a reference, the rollback against the reversed list of the executed commands. The places where the code
  does less than its documents say are theorems as well.

  \<^bold>\<open>Interfaces.\<close> \<open>comparison\<close> (sorting by a total preorder; for the queue, the squad, the fallback chain and the
  order of the memory),
  \<open>dict\<close> (maps), \<open>severity\<close> (the worse of two actions), \<open>admission\<close> (sliding windows; the rate limiter),
  \<open>authority_scale\<close>, \<open>portfolio\<close>, \<open>record_store\<close> (files with one record each; missions and
  conversations), \<open>retention\<close> (the log files), \<open>run_relation\<close>, \<open>batch_relation\<close> and \<open>whole_relation\<close> (what
  every turn of a workflow preserves), \<open>skill_search\<close> (a depth-first search over adjacency lists) and \<open>protocol\<close> (concurrent processes with ghost states; the workers
  of a batch). Each is interpreted on the definitions of the component that provides it.

  \<^bold>\<open>Bounds and termination.\<close> Loops are structural recursion or have a measure. The search for cycles has fuel for
  the parents of a node, one for each node of the graph, which is enough since they are on one path
  (\<open>gray_path_fits\<close>). The worker of a batch has fuel
  for one round more than there are items, which is enough since each round takes an index that no worker
  had before (\<open>workers_end\<close>). A run of a proposal is driven with one resumption for each step of its plan,
  which is enough by \<open>every_run_ends\<close>. The parser of JSON texts nests at most twice as deep as the text is
  long, and a deeper bound gives the same result (\<open>json_bound_enough\<close>). Retries are bounded by the configured number of attempts.

  \<^bold>\<open>Not modelled.\<close> The HTTP layers, the SQLite store of the conversations and the servers around the operations above, which pass
  data on; the browser clients and the tactical map, which draw; the sanitizer, the voice rules and the
  token compactor, which are lists of regular expressions; and what the manifest lists as not modelled.
\<close>

end
